(* ===== verification/Prelude.thy ===== *)
theory Prelude
  imports Main
begin

text \<open>
  Shared vocabulary of the development: the names of the model's basic types, the
  JavaScript primitives the services use on strings and numbers (decimal rendering,
  \<open>parseInt\<close>, \<open>toLowerCase\<close>, template strings), error results, and the generic lemmas on
  lists, association lists and runs of a step function that several components need.
  Times are milliseconds since the epoch, as \<open>Date.now()\<close> returns them, and are integers;
  database identifiers, amounts in base units and block numbers are JavaScript \<open>bigint\<close>s
  (or integral numbers far below \<open>2 ^ 53\<close>) and are unbounded integers as well.
\<close>

section \<open>Types and collections\<close>

type_synonym millis = int
type_synonym ident = int
type_synonym wei = int
type_synonym block_no = int

named_theorems step_defs "one-step operations of the components, unfolded in step proofs"
named_theorems key_simps "facts that tell the keys of the key-value store apart"

section \<open>Errors as values\<close>

text \<open>The HTTP exceptions the services raise, and a plain \<open>Error\<close> with its message class.\<close>

datatype error =
    NotFound string
  | BadRequest string
  | Conflict string
  | Unprocessable string
  | Unauthorized string
  | Forbidden string
  | Gone string
  | TooManyRequests string
  | ServiceUnavailable string
  | InternalError string

definition is_ok :: "'e + 'a \<Rightarrow> bool" where
  "is_ok r = (case r of Inl _ \<Rightarrow> False | Inr _ \<Rightarrow> True)"

text \<open>\<open>error.message\<close>.\<close>

fun error_text :: "error \<Rightarrow> string" where
  "error_text (NotFound s) = s"
| "error_text (BadRequest s) = s"
| "error_text (Conflict s) = s"
| "error_text (Unprocessable s) = s"
| "error_text (Unauthorized s) = s"
| "error_text (Forbidden s) = s"
| "error_text (Gone s) = s"
| "error_text (TooManyRequests s) = s"
| "error_text (ServiceUnavailable s) = s"
| "error_text (InternalError s) = s"

lemma is_ok_simps [simp]: "is_ok (Inr x)" "\<not> is_ok (Inl e)"
  by (simp_all add: is_ok_def)

text \<open>A computation with an effect returns its result beside the new state.\<close>

lemma Inr_pair: "is_ok (fst x) \<Longrightarrow> x = (Inr (projr (fst x)), snd x)"
  and Inl_pair: "\<not> is_ok (fst x) \<Longrightarrow> x = (Inl (projl (fst x)), snd x)"
  by (cases x; cases "fst x"; simp)+

section \<open>Decimal text\<close>

definition digit_char :: "nat \<Rightarrow> char" where
  "digit_char d = char_of (48 + d)"

definition digit_val :: "char \<Rightarrow> nat" where
  "digit_val c = of_char c - 48"

definition is_digit :: "char \<Rightarrow> bool" where
  "is_digit c \<longleftrightarrow> (48::nat) \<le> of_char c \<and> (of_char c :: nat) \<le> 57"

fun show_nat :: "nat \<Rightarrow> string" where
  "show_nat n = (if n < 10 then [digit_char n] else show_nat (n div 10) @ [digit_char (n mod 10)])"

declare show_nat.simps [simp del]

definition show_int :: "int \<Rightarrow> string" where
  "show_int i = (if i < 0 then ''-'' @ show_nat (nat (- i)) else show_nat (nat i))"

text \<open>
  \<open>parseInt(s, 10)\<close> reads the longest prefix of digits after an optional sign;
  \<open>None\<close> is \<open>NaN\<close>.
\<close>

definition parse_digits :: "string \<Rightarrow> nat option" where
  "parse_digits s =
     (let ds = takeWhile is_digit s
      in if ds = [] then None else Some (foldl (\<lambda>acc c. acc * 10 + digit_val c) 0 ds))"

definition parse_int :: "string \<Rightarrow> int option" where
  "parse_int s =
     (case s of
        [] \<Rightarrow> None
      | c # cs \<Rightarrow>
          if c = CHR ''-'' then map_option (\<lambda>n. - int n) (parse_digits cs)
          else map_option int (parse_digits s))"

text \<open>\<open>parseInt(s, 16)\<close>: an optional \<open>0x\<close> and the longest prefix of hexadecimal digits.\<close>

definition hex_val :: "char \<Rightarrow> nat option" where
  "hex_val c =
     (let k = (of_char c :: nat) in
      if 48 \<le> k \<and> k \<le> 57 then Some (k - 48)
      else if 65 \<le> k \<and> k \<le> 70 then Some (k - 55)
      else if 97 \<le> k \<and> k \<le> 102 then Some (k - 87)
      else None)"

definition parse_hex :: "string \<Rightarrow> int option" where
  "parse_hex s =
     (let body = (if take 2 s = ''0x'' \<or> take 2 s = ''0X'' then drop 2 s else s);
          ds = takeWhile (\<lambda>c. hex_val c \<noteq> None) body
      in if ds = [] then None
         else Some (int (foldl (\<lambda>acc c. acc * 16 + the (hex_val c)) 0 ds)))"

lemma digit_char_digit [simp]: "d < 10 \<Longrightarrow> is_digit (digit_char d)"
  by (simp add: is_digit_def digit_char_def)

lemma digit_val_char [simp]: "d < 10 \<Longrightarrow> digit_val (digit_char d) = d"
  by (simp add: digit_val_def digit_char_def)

lemma show_nat_digits: "\<forall>c \<in> set (show_nat n). is_digit c"
proof (induction n rule: show_nat.induct)
  case (1 n)
  then show ?case
    by (cases "n < 10") (auto simp: show_nat.simps [of n])
qed

lemma show_nat_nonempty [simp]: "show_nat n \<noteq> []"
  by (subst show_nat.simps) simp

lemma foldl_show_nat: "foldl (\<lambda>acc c. acc * 10 + digit_val c) 0 (show_nat n) = n"
proof (induction n rule: show_nat.induct)
  case (1 n)
  then show ?case
    by (cases "n < 10") (simp_all add: show_nat.simps [of n])
qed

lemma parse_digits_show_nat [simp]: "parse_digits (show_nat n) = Some n"
proof -
  have tw: "takeWhile is_digit (show_nat n) = show_nat n"
    using show_nat_digits by simp
  show ?thesis
    unfolding parse_digits_def Let_def tw by (simp add: foldl_show_nat)
qed

lemma hd_show_nat: "show_nat n = c # cs \<Longrightarrow> c \<noteq> CHR ''-''"
  using show_nat_digits [of n] by (auto simp: is_digit_def)

lemma parse_show_int [simp]: "parse_int (show_int i) = Some i"
proof (cases "i < 0")
  case True
  then show ?thesis
    by (simp add: show_int_def parse_int_def)
next
  case False
  obtain c cs where s: "show_nat (nat i) = c # cs"
    by (cases "show_nat (nat i)") auto
  then have "c \<noteq> CHR ''-''" by (rule hd_show_nat)
  moreover have "parse_digits (c # cs) = Some (nat i)"
    using parse_digits_show_nat [of "nat i"] by (simp only: s)
  ultimately show ?thesis
    using False by (simp add: show_int_def parse_int_def s)
qed

lemma show_int_inject [simp]: "show_int i = show_int j \<longleftrightarrow> i = j"
  by (metis parse_show_int option.inject)

lemma show_int_nonempty [simp]: "show_int i \<noteq> []"
  by (simp add: show_int_def)

text \<open>\<open>BigInt(s)\<close> on the decimal text of the amount columns; anything else throws.\<close>

definition big_int :: "string \<Rightarrow> int option" where
  "big_int s =
     (let body = (if take 1 s = ''-'' then drop 1 s else s)
      in if body \<noteq> [] \<and> list_all is_digit body then parse_int s else None)"

lemma big_int_show_int [simp]: "big_int (show_int i) = Some i"
proof (cases "i < 0")
  case True
  have "list_all is_digit (show_nat (nat (- i)))"
    using show_nat_digits by (simp add: list_all_iff)
  then show ?thesis
    using True parse_show_int [of i] by (simp add: big_int_def show_int_def)
next
  case False
  obtain c cs where s: "show_nat (nat i) = c # cs" by (cases "show_nat (nat i)") auto
  then have "c \<noteq> CHR ''-''" by (rule hd_show_nat)
  moreover have "list_all is_digit (show_nat (nat i))"
    using show_nat_digits by (simp add: list_all_iff)
  ultimately show ?thesis
    using False s parse_show_int [of i] by (simp add: big_int_def show_int_def)
qed

text \<open>\<open>x || null\<close> on an optional text: the empty text is falsy.\<close>

definition or_null :: "string option \<Rightarrow> string option" where
  "or_null x = (if x = Some [] then None else x)"

section \<open>Case folding\<close>

text \<open>
  \<open>toLowerCase\<close> on the ASCII text of addresses, and the equality of MySQL's
  \<open>utf8mb4_unicode_ci\<close> collation on it (every table of \<open>database/\<close> declares that collation).
\<close>

definition lower_char :: "char \<Rightarrow> char" where
  "lower_char c =
     (if (65::nat) \<le> of_char c \<and> (of_char c :: nat) \<le> 90 then char_of ((of_char c :: nat) + 32) else c)"

definition lower :: "string \<Rightarrow> string" where
  "lower s = map lower_char s"

definition sql_eq :: "string \<Rightarrow> string \<Rightarrow> bool" where
  "sql_eq a b \<longleftrightarrow> lower a = lower b"

lemma lower_char_idem [simp]: "lower_char (lower_char c) = lower_char c"
  by (simp add: lower_char_def)

lemma lower_idem [simp]: "lower (lower s) = lower s"
  by (simp add: lower_def)

lemma sql_eq_refl [simp]: "sql_eq a a"
  and sql_eq_lower [simp]: "sql_eq (lower a) b = sql_eq a b" "sql_eq a (lower b) = sql_eq a b"
  by (simp_all add: sql_eq_def)

lemma sql_eq_sym: "sql_eq a b \<Longrightarrow> sql_eq b a"
  and sql_eq_trans: "sql_eq a b \<Longrightarrow> sql_eq b c \<Longrightarrow> sql_eq a c"
  by (simp_all add: sql_eq_def)

section \<open>Splitting at a separator\<close>

text \<open>\<open>s.split(d)\<close> for a one-character separator.\<close>

fun split_on :: "char \<Rightarrow> string \<Rightarrow> string list" where
  "split_on d [] = [[]]"
| "split_on d (c # cs) =
     (if c = d then [] # split_on d cs
      else (case split_on d cs of [] \<Rightarrow> [[c]] | p # ps \<Rightarrow> (c # p) # ps))"

lemma split_on_nonempty [simp]: "split_on d s \<noteq> []"
  by (cases s) (auto split: list.splits)

lemma split_on_plain: "d \<notin> set p \<Longrightarrow> split_on d p = [p]"
  by (induction p) auto

lemma split_on_append: "d \<notin> set p \<Longrightarrow> split_on d (p @ d # s) = p # split_on d s"
  by (induction p) auto

section \<open>Tables\<close>

text \<open>
  A database table is the list of its rows in insertion order. \<open>update_where p f\<close> is an
  \<open>UPDATE ... SET f WHERE p\<close>; the number of rows it touched is \<open>count_where p\<close>.
\<close>

definition update_where :: "('r \<Rightarrow> bool) \<Rightarrow> ('r \<Rightarrow> 'r) \<Rightarrow> 'r list \<Rightarrow> 'r list" where
  "update_where p f rows = map (\<lambda>r. if p r then f r else r) rows"

definition count_where :: "('r \<Rightarrow> bool) \<Rightarrow> 'r list \<Rightarrow> nat" where
  "count_where p rows = length (filter p rows)"

lemma length_update_where [simp]: "length (update_where p f rows) = length rows"
  by (simp add: update_where_def)

lemma update_where_Nil [simp]: "update_where p f [] = []"
  and update_where_Cons [simp]:
    "update_where p f (r # rows) = (if p r then f r else r) # update_where p f rows"
  and update_where_append [simp]:
    "update_where p f (xs @ ys) = update_where p f xs @ update_where p f ys"
  by (simp_all add: update_where_def)

lemma set_update_where: "r \<in> set (update_where p f rows) \<longleftrightarrow>
    (\<exists>q \<in> set rows. r = (if p q then f q else q))"
  by (auto simp: update_where_def)

lemma map_update_where: "(\<And>r. p r \<Longrightarrow> k (f r) = k r) \<Longrightarrow> map k (update_where p f rows) = map k rows"
  by (simp add: update_where_def)

lemma find_Some_iff_unique:
  "distinct (map k rows) \<Longrightarrow> find (\<lambda>r. k r = x) rows = Some r \<longleftrightarrow> r \<in> set rows \<and> k r = x"
  by (induction rows) (auto simp: image_iff)

lemma find_SomeD: "find P xs = Some x \<Longrightarrow> P x \<and> x \<in> set xs"
  by (auto simp: find_Some_iff)

lemma find_NoneI: "x \<notin> k ` set rows \<Longrightarrow> find (\<lambda>r. k r = x) rows = None"
  by (auto simp: find_None_iff)

lemma find_update_where:
  assumes "\<And>r. k (f r) = k r"
  shows "find (\<lambda>r. k r = x) (update_where p f rows) =
    map_option (\<lambda>r. if p r then f r else r) (find (\<lambda>r. k r = x) rows)"
  using assms by (induction rows) auto

lemma find_conj_unique:
  "distinct (map k rows) \<Longrightarrow>
     find (\<lambda>r. k r = x \<and> P r) rows = Some r \<longleftrightarrow> find (\<lambda>r. k r = x) rows = Some r \<and> P r"
proof (induction rows)
  case (Cons a rows)
  show ?case
  proof (cases "k a = x")
    case True
    then have "find (\<lambda>r. k r = x \<and> P r) rows = None"
      using Cons.prems by (auto simp: find_None_iff) (metis imageI)
    with True show ?thesis by auto
  qed (use Cons in simp)
qed simp

lemma find_append_None: "find p xs = None \<Longrightarrow> find p (xs @ ys) = find p ys"
  by (induction xs) (auto split: if_splits)

lemma find_append_Some: "find p xs = Some r \<Longrightarrow> find p (xs @ ys) = Some r"
  by (induction xs) (auto split: if_splits)

section \<open>Machines\<close>

text \<open>
  The interface of a component that moves in steps: where it starts, how it steps, and what
  it keeps. Its client lemma is that everything reachable keeps the invariant; a second
  interface adds a set of states that no step leaves.
\<close>

locale machine =
  fixes init :: "'s \<Rightarrow> bool"
    and step :: "'s \<Rightarrow> 's \<Rightarrow> bool"
    and inv :: "'s \<Rightarrow> bool"
  assumes inv_init: "init s \<Longrightarrow> inv s"
    and inv_step: "inv s \<Longrightarrow> step s t \<Longrightarrow> inv t"
begin

lemma inv_steps: "step\<^sup>*\<^sup>* s t \<Longrightarrow> inv s \<Longrightarrow> inv t"
  by (induction rule: rtranclp_induct) (blast intro: inv_step)+

lemma inv_reachable: "init s \<Longrightarrow> step\<^sup>*\<^sup>* s t \<Longrightarrow> inv t"
  using inv_init inv_steps by blast

end

locale absorbing = machine +
  fixes final :: "'s \<Rightarrow> bool"
  assumes final_step: "inv s \<Longrightarrow> final s \<Longrightarrow> step s t \<Longrightarrow> final t"
begin

lemma final_steps: "step\<^sup>*\<^sup>* s t \<Longrightarrow> inv s \<Longrightarrow> final s \<Longrightarrow> final t"
proof (induction rule: rtranclp_induct)
  case base
  then show ?case by simp
next
  case (step y z)
  then show ?case using inv_steps final_step by blast
qed

end

end
