(* ===== verification/KeyValue.thy ===== *)
theory KeyValue
  imports Prelude
begin

text \<open>
  The key-value state the services keep in Redis, and the interface their code relies on.
  A key holds a text and the absolute time at which it expires, if any; \<open>SET k v EX s\<close>,
  \<open>SET k v PX ms\<close>, \<open>SET k v PX ms NX\<close>, \<open>GET\<close> and \<open>DEL\<close> are the commands the source issues.
  The locale \<open>kv_store\<close> is the interface: what a \<open>get\<close> returns after a \<open>put\<close> or a \<open>del\<close>.
  The clients' lemmas on several keys at once are proved from these laws alone.
\<close>

section \<open>The interface\<close>

locale kv_store =
  fixes get :: "millis \<Rightarrow> 's \<Rightarrow> 'k \<Rightarrow> 'v option"
    and put :: "millis \<Rightarrow> 'k \<Rightarrow> 'v \<Rightarrow> int option \<Rightarrow> 's \<Rightarrow> 's"
    and del :: "'k \<Rightarrow> 's \<Rightarrow> 's"
  assumes get_put: "get now (put t k v ttl s) k' =
      (if k' = k then (if (case ttl of None \<Rightarrow> True | Some d \<Rightarrow> now < t + d) then Some v else None)
       else get now s k')"
    and get_del: "get now (del k s) k' = (if k' = k then None else get now s k')"
begin

lemma get_put_other: "k' \<noteq> k \<Longrightarrow> get now (put t k v ttl s) k' = get now s k'"
  by (simp add: get_put)

lemma get_put_fresh: "now < t + d \<Longrightarrow> get now (put t k v (Some d) s) k = Some v"
  by (simp add: get_put)

lemma get_put_expired: "t + d \<le> now \<Longrightarrow> get now (put t k v (Some d) s) k = None"
  by (simp add: get_put)

lemma get_put_forever: "get now (put t k v None s) k = Some v"
  by (simp add: get_put)

text \<open>Three keys written with one time to live, as the circuit breaker writes them.\<close>

lemma get_put3:
  assumes "a \<noteq> b" "a \<noteq> c" "b \<noteq> c"
  shows "get now (put t c z ttl (put t b y ttl (put t a x ttl s))) a =
           get now (put t a x ttl s) a"
    and "get now (put t c z ttl (put t b y ttl (put t a x ttl s))) b =
           get now (put t b y ttl s) b"
    and "get now (put t c z ttl (put t b y ttl (put t a x ttl s))) c =
           get now (put t c z ttl s) c"
  using assms by (simp_all add: get_put)

lemma get_foldr_del:
  "get now (foldr del ks s) k = (if k \<in> set ks then None else get now s k)"
  by (induction ks) (auto simp: get_del)

lemma get_put_del: "get now (put t k v ttl (del k s)) k' = get now (put t k v ttl s) k'"
  by (simp add: get_put get_del)

end

section \<open>The store of the model\<close>

type_synonym store = "string \<rightharpoonup> string \<times> millis option"

definition rget :: "millis \<Rightarrow> store \<Rightarrow> string \<Rightarrow> string option" where
  "rget now s k =
     (case s k of
        None \<Rightarrow> None
      | Some (v, None) \<Rightarrow> Some v
      | Some (v, Some e) \<Rightarrow> if now < e then Some v else None)"

definition rset :: "millis \<Rightarrow> string \<Rightarrow> string \<Rightarrow> int option \<Rightarrow> store \<Rightarrow> store" where
  "rset now k v ttl s = s(k \<mapsto> (v, map_option (\<lambda>d. now + d) ttl))"

definition rdel :: "string \<Rightarrow> store \<Rightarrow> store" where
  "rdel k s = s(k := None)"

text \<open>\<open>SET k v PX ttl NX\<close>: sets only an absent key, and says whether it did.\<close>

definition rset_nx :: "millis \<Rightarrow> string \<Rightarrow> string \<Rightarrow> int \<Rightarrow> store \<Rightarrow> bool \<times> store" where
  "rset_nx now k v ttl s =
     (case rget now s k of
        None \<Rightarrow> (True, rset now k v (Some ttl) s)
      | Some _ \<Rightarrow> (False, s))"

interpretation kv: kv_store rget rset rdel
  by unfold_locales (auto simp: rget_def rset_def rdel_def split: option.splits)

lemma rget_empty [simp]: "rget now Map.empty k = None"
  by (simp add: rget_def)

lemma rset_nx_free: "rget now s k = None \<Longrightarrow> rset_nx now k v ttl s = (True, rset now k v (Some ttl) s)"
  and rset_nx_held: "rget now s k = Some w \<Longrightarrow> rset_nx now k v ttl s = (False, s)"
  by (simp_all add: rset_nx_def)

section \<open>Keys\<close>

text \<open>
  Keys are built by template strings. Two keys that end in different letters are different,
  and a prefix and a suffix that are fixed leave the part between them injective.
\<close>

lemma last_differs [key_simps]: "last x \<noteq> last y \<Longrightarrow> x \<noteq> y"
  by auto

lemma last_append_const: "s \<noteq> [] \<Longrightarrow> last (p @ s) = last s"
  by simp

section \<open>Counters\<close>

text \<open>
  \<open>INCR k\<close> counts an absent key from zero and leaves the expiry of a present one alone; \<open>EXPIRE k secs\<close> sets it;
  \<open>TTL k\<close> is -2 for an absent key, -1 without an expiry, and otherwise the remaining seconds, rounded to the
  nearest. The counters hold nothing but decimal numbers.
\<close>

definition count_of :: "millis \<Rightarrow> store \<Rightarrow> string \<Rightarrow> int" where
  "count_of now s k =
     (case rget now s k of None \<Rightarrow> 0 | Some t \<Rightarrow> (case parse_int t of None \<Rightarrow> 0 | Some v \<Rightarrow> v))"

definition rincr :: "millis \<Rightarrow> string \<Rightarrow> store \<Rightarrow> int \<times> store" where
  "rincr now k s =
     (let n = count_of now s k + 1;
          e = (case rget now s k of None \<Rightarrow> None | Some _ \<Rightarrow> snd (the (s k)))
      in (n, s(k \<mapsto> (show_int n, e))))"

definition rexpire :: "millis \<Rightarrow> string \<Rightarrow> int \<Rightarrow> store \<Rightarrow> store" where
  "rexpire now k secs s =
     (case rget now s k of None \<Rightarrow> s | Some v \<Rightarrow> s(k \<mapsto> (v, Some (now + secs * 1000))))"

definition rttl :: "millis \<Rightarrow> store \<Rightarrow> string \<Rightarrow> int" where
  "rttl now s k =
     (case rget now s k of
        None \<Rightarrow> - 2
      | Some _ \<Rightarrow> (case snd (the (s k)) of None \<Rightarrow> - 1 | Some e \<Rightarrow> (e - now + 500) div 1000))"

text \<open>\<open>alive_until s k v e\<close>: the key holds \<open>v\<close> and lives at least until \<open>e\<close>.\<close>

definition alive_until :: "store \<Rightarrow> string \<Rightarrow> string \<Rightarrow> millis \<Rightarrow> bool" where
  "alive_until s k v e \<longleftrightarrow> (case s k of None \<Rightarrow> False | Some (w, x) \<Rightarrow> w = v \<and> (case x of None \<Rightarrow> True | Some d \<Rightarrow> e \<le> d))"

lemma alive_rget: "alive_until s k v e \<Longrightarrow> now < e \<Longrightarrow> rget now s k = Some v"
  by (auto simp: alive_until_def rget_def split: option.splits)

lemma alive_rset: "e \<le> now + d \<Longrightarrow> alive_until (rset now k v (Some d) s) k v e"
  by (simp add: alive_until_def rset_def)

lemma alive_incr:
  assumes "alive_until s k (show_int n) e" "now < e"
  shows "rincr now k s = (n + 1, snd (rincr now k s))" "alive_until (snd (rincr now k s)) k (show_int (n + 1)) e"
  using assms alive_rget [OF assms]
  by (auto simp: rincr_def count_of_def Let_def alive_until_def split: option.splits)

lemma incr_other [simp]: "k' \<noteq> k \<Longrightarrow> snd (rincr now k s) k' = s k'"
  and expire_other [simp]: "k' \<noteq> k \<Longrightarrow> rexpire now k secs s k' = s k'"
  and rset_other [simp]: "k' \<noteq> k \<Longrightarrow> rset now k v ttl s k' = s k'"
  and rdel_other [simp]: "k' \<noteq> k \<Longrightarrow> rdel k s k' = s k'"
  by (auto simp: rincr_def rexpire_def rset_def rdel_def Let_def split: option.splits)

lemma incr_absent: "rget now s k = None \<Longrightarrow> rincr now k s = (1, s(k \<mapsto> (show_int 1, None)))"
  by (simp add: rincr_def count_of_def Let_def)

lemma rget_cong: "s k = t k \<Longrightarrow> rget now s k = rget now t k"
  by (simp add: rget_def)

end
