(* ===== verification/CircuitBreaker.thy ===== *)
theory CircuitBreaker
  imports KeyValue
begin

text \<open>
  The per-node circuit breaker of the RPC gateway
  (services/rpc-gateway-service/src/circuit-breaker/circuit-breaker.service.ts): the circuit
  of a node, its three Redis keys, the local cache that the synchronous operations read, and
  the operations. \<open>saveCircuit\<close> runs a Redis pipeline; its outcome is the argument \<open>ok\<close>
  (\<open>False\<close>: the pipeline was rejected, nothing was stored and the second cache write did not
  happen; the callers swallow the rejection or pass it on).
\<close>

section \<open>State\<close>

datatype circuit_status = Closed | Open | HalfOpen

record circuit_state =
  status :: circuit_status
  failures :: int
  openedAt :: millis

record cached_circuit =
  circuit :: circuit_state
  cachedAt :: millis

record breaker =
  redis :: store
  localCache :: "string \<rightharpoonup> cached_circuit"

definition FAILURE_THRESHOLD :: int where
  "FAILURE_THRESHOLD = 5"

definition OPEN_DURATION_MS :: int where
  "OPEN_DURATION_MS = 30000"

definition CIRCUIT_TTL_S :: int where
  "CIRCUIT_TTL_S = 3600"

definition LOCAL_CACHE_TTL_MS :: int where
  "LOCAL_CACHE_TTL_MS = 2000"

definition fresh_circuit :: circuit_state where
  "fresh_circuit = \<lparr>status = Closed, failures = 0, openedAt = 0\<rparr>"

definition stateKey :: "string \<Rightarrow> string" where
  "stateKey n = ''circuit:'' @ n @ '':state''"

definition failuresKey :: "string \<Rightarrow> string" where
  "failuresKey n = ''circuit:'' @ n @ '':failures''"

definition openedAtKey :: "string \<Rightarrow> string" where
  "openedAtKey n = ''circuit:'' @ n @ '':openedAt''"

fun status_text :: "circuit_status \<Rightarrow> string" where
  "status_text Closed = ''closed''"
| "status_text Open = ''open''"
| "status_text HalfOpen = ''half-open''"

definition parse_status :: "string \<Rightarrow> circuit_status option" where
  "parse_status s =
     (if s = ''closed'' then Some Closed
      else if s = ''open'' then Some Open
      else if s = ''half-open'' then Some HalfOpen
      else None)"

section \<open>Operations\<close>

definition cache_circuit :: "millis \<Rightarrow> string \<Rightarrow> circuit_state \<Rightarrow> breaker \<Rightarrow> breaker" where
  "cache_circuit now n c b =
     b\<lparr>localCache := (localCache b)(n \<mapsto> \<lparr>circuit = c, cachedAt = now\<rparr>)\<rparr>"

text \<open>
  The circuit read back from the three keys: an absent or empty text gives the default of
  that field. The result is \<open>None\<close> where a key holds a text that no \<open>saveCircuit\<close> writes
  (an unknown state or a number that parses to \<open>NaN\<close>).
\<close>

definition read_circuit :: "millis \<Rightarrow> store \<Rightarrow> string \<Rightarrow> circuit_state option" where
  "read_circuit now r n =
     (let num = (\<lambda>k. case rget now r k of None \<Rightarrow> Some 0
                     | Some t \<Rightarrow> if t = [] then Some 0 else parse_int t)
      in case (case rget now r (stateKey n) of None \<Rightarrow> Some Closed
               | Some t \<Rightarrow> if t = [] then Some Closed else parse_status t) of
           None \<Rightarrow> None
         | Some st \<Rightarrow>
             (case (num (failuresKey n), num (openedAtKey n)) of
                (Some f, Some oa) \<Rightarrow> Some \<lparr>status = st, failures = f, openedAt = oa\<rparr>
              | _ \<Rightarrow> None))"

definition getCircuit :: "millis \<Rightarrow> string \<Rightarrow> breaker \<Rightarrow> (circuit_state \<times> breaker) option" where
  "getCircuit now n b =
     (case localCache b n of
        Some e \<Rightarrow>
          if now - cachedAt e < LOCAL_CACHE_TTL_MS then Some (circuit e, b)
          else map_option (\<lambda>c. (c, cache_circuit now n c b)) (read_circuit now (redis b) n)
      | None \<Rightarrow> map_option (\<lambda>c. (c, cache_circuit now n c b)) (read_circuit now (redis b) n))"

definition store_circuit :: "millis \<Rightarrow> string \<Rightarrow> circuit_state \<Rightarrow> store \<Rightarrow> store" where
  "store_circuit now n c r =
     (let ttl = Some (CIRCUIT_TTL_S * 1000) in
      rset now (openedAtKey n) (show_int (openedAt c)) ttl
        (rset now (failuresKey n) (show_int (failures c)) ttl
          (rset now (stateKey n) (status_text (status c)) ttl r)))"

definition saveCircuit :: "millis \<Rightarrow> bool \<Rightarrow> string \<Rightarrow> circuit_state \<Rightarrow> breaker \<Rightarrow> breaker" where
  "saveCircuit now ok n c b =
     (if ok then cache_circuit now n c (b\<lparr>redis := store_circuit now n c (redis b)\<rparr>) else b)"

definition local_circuit :: "string \<Rightarrow> breaker \<Rightarrow> circuit_state" where
  "local_circuit n b = (case localCache b n of None \<Rightarrow> fresh_circuit | Some e \<Rightarrow> circuit e)"

definition isAllowed :: "millis \<Rightarrow> bool \<Rightarrow> string \<Rightarrow> breaker \<Rightarrow> bool \<times> breaker" where
  "isAllowed now ok n b =
     (let c = local_circuit n b in
      case status c of
        Closed \<Rightarrow> (True, b)
      | Open \<Rightarrow>
          if now - openedAt c \<ge> OPEN_DURATION_MS then
            let c' = c\<lparr>status := HalfOpen\<rparr>
            in (True, saveCircuit now ok n c' (cache_circuit now n c' b))
          else (False, b)
      | HalfOpen \<Rightarrow> (True, b))"

definition success_circuit :: "circuit_state \<Rightarrow> circuit_state" where
  "success_circuit c =
     (case status c of
        HalfOpen \<Rightarrow> c\<lparr>status := Closed, failures := 0, openedAt := 0\<rparr>
      | Closed \<Rightarrow> c\<lparr>failures := 0\<rparr>
      | Open \<Rightarrow> c)"

definition recordSuccess :: "millis \<Rightarrow> bool \<Rightarrow> string \<Rightarrow> breaker \<Rightarrow> breaker" where
  "recordSuccess now ok n b =
     (let c = success_circuit (local_circuit n b)
      in saveCircuit now ok n c (cache_circuit now n c b))"

definition failure_circuit :: "millis \<Rightarrow> circuit_state \<Rightarrow> circuit_state" where
  "failure_circuit now c =
     (if status c = HalfOpen then c\<lparr>status := Open, openedAt := now\<rparr>
      else let c' = c\<lparr>failures := failures c + 1\<rparr>
           in if failures c' \<ge> FAILURE_THRESHOLD then c'\<lparr>status := Open, openedAt := now\<rparr>
              else c')"

definition recordFailure :: "millis \<Rightarrow> bool \<Rightarrow> string \<Rightarrow> breaker \<Rightarrow> breaker" where
  "recordFailure now ok n b =
     (let c = failure_circuit now (local_circuit n b)
      in saveCircuit now ok n c (cache_circuit now n c b))"

text \<open>\<open>reset\<close> awaits the save, so a rejected pipeline is an error and changes nothing.\<close>

definition reset :: "millis \<Rightarrow> bool \<Rightarrow> string \<Rightarrow> breaker \<Rightarrow> error + breaker" where
  "reset now ok n b =
     (if ok then Inr (saveCircuit now ok n fresh_circuit b) else Inl (InternalError ''redis''))"

fun replace_first :: "string \<Rightarrow> string \<Rightarrow> string" where
  "replace_first pat [] = []"
| "replace_first pat (c # cs) =
     (if take (length pat) (c # cs) = pat then drop (length pat) (c # cs)
      else c # replace_first pat cs)"

text \<open>
  \<open>getAllStates\<close>: the keys that the \<open>SCAN\<close> cursor delivers page by page (\<open>pages\<close>), each
  turned back into a node id and read with \<open>getCircuit\<close>.
\<close>

fun collect_states :: "millis \<Rightarrow> string list \<Rightarrow> (string \<rightharpoonup> circuit_state) \<Rightarrow> breaker \<Rightarrow>
    ((string \<rightharpoonup> circuit_state) \<times> breaker) option" where
  "collect_states now [] res b = Some (res, b)"
| "collect_states now (k # ks) res b =
     (let n = replace_first '':state'' (replace_first ''circuit:'' k) in
      case getCircuit now n b of
        None \<Rightarrow> None
      | Some (c, b') \<Rightarrow> collect_states now ks (res(n \<mapsto> c)) b')"

definition getAllStates :: "millis \<Rightarrow> string list list \<Rightarrow> breaker \<Rightarrow>
    ((string \<rightharpoonup> circuit_state) \<times> breaker) option" where
  "getAllStates now pages b = collect_states now (concat pages) Map.empty b"

section \<open>Keys and round trip\<close>

lemma last_keys [key_simps]:
  "last (stateKey n) = CHR ''e''" "last (failuresKey n) = CHR ''s''" "last (openedAtKey n) = CHR ''t''"
  by (simp_all add: stateKey_def failuresKey_def openedAtKey_def)

lemma keys_differ [simp]:
  "stateKey n \<noteq> failuresKey m" "failuresKey m \<noteq> stateKey n"
  "stateKey n \<noteq> openedAtKey m" "openedAtKey m \<noteq> stateKey n"
  "failuresKey n \<noteq> openedAtKey m" "openedAtKey m \<noteq> failuresKey n"
  by (rule last_differs, simp add: key_simps)+

lemma keys_inject [simp]:
  "stateKey n = stateKey m \<longleftrightarrow> n = m"
  "failuresKey n = failuresKey m \<longleftrightarrow> n = m"
  "openedAtKey n = openedAtKey m \<longleftrightarrow> n = m"
  by (auto simp: stateKey_def failuresKey_def openedAtKey_def)

lemma parse_status_text [simp]: "parse_status (status_text st) = Some st"
  by (cases st) (simp_all add: parse_status_def)

lemma status_text_nonempty [simp]: "status_text st \<noteq> []"
  by (cases st) simp_all

lemma read_circuit_cong:
  assumes "rget now r (stateKey n) = rget now' r' (stateKey n')"
    and "rget now r (failuresKey n) = rget now' r' (failuresKey n')"
    and "rget now r (openedAtKey n) = rget now' r' (openedAtKey n')"
  shows "read_circuit now r n = read_circuit now' r' n'"
  unfolding read_circuit_def Let_def assms by simp

lemma store_circuit_gets:
  "rget now (store_circuit t n c r) (stateKey m) =
     (if m = n then (if now < t + CIRCUIT_TTL_S * 1000 then Some (status_text (status c)) else None)
      else rget now r (stateKey m))"
  "rget now (store_circuit t n c r) (failuresKey m) =
     (if m = n then (if now < t + CIRCUIT_TTL_S * 1000 then Some (show_int (failures c)) else None)
      else rget now r (failuresKey m))"
  "rget now (store_circuit t n c r) (openedAtKey m) =
     (if m = n then (if now < t + CIRCUIT_TTL_S * 1000 then Some (show_int (openedAt c)) else None)
      else rget now r (openedAtKey m))"
  by (simp_all add: store_circuit_def Let_def kv.get_put)

lemma read_circuit_stored:
  assumes "rget now r (stateKey n) = Some (status_text (status c))"
    and "rget now r (failuresKey n) = Some (show_int (failures c))"
    and "rget now r (openedAtKey n) = Some (show_int (openedAt c))"
  shows "read_circuit now r n = Some c"
  using assms by (simp add: read_circuit_def Let_def)

lemma read_circuit_absent:
  assumes "rget now r (stateKey n) = None" "rget now r (failuresKey n) = None"
    and "rget now r (openedAtKey n) = None"
  shows "read_circuit now r n = Some fresh_circuit"
  using assms by (simp add: read_circuit_def Let_def fresh_circuit_def)

lemma read_store_same:
  "now < t + CIRCUIT_TTL_S * 1000 \<Longrightarrow> read_circuit now (store_circuit t n c r) n = Some c"
  by (rule read_circuit_stored) (simp_all add: store_circuit_gets)

lemma read_store_expired:
  "t + CIRCUIT_TTL_S * 1000 \<le> now \<Longrightarrow>
     read_circuit now (store_circuit t n c r) n = Some fresh_circuit"
  by (rule read_circuit_absent) (simp_all add: store_circuit_gets)

lemma read_store_other:
  "m \<noteq> n \<Longrightarrow> read_circuit now (store_circuit t n c r) m = read_circuit now r m"
  by (rule read_circuit_cong) (simp_all add: store_circuit_gets)

lemma local_cache_circuit [simp]:
  "local_circuit m (cache_circuit now n c b) = (if m = n then c else local_circuit m b)"
  by (simp add: local_circuit_def cache_circuit_def)

lemma local_saveCircuit [simp]:
  "local_circuit m (saveCircuit now ok n c b) = (if ok \<and> m = n then c else local_circuit m b)"
  by (simp add: saveCircuit_def local_circuit_def cache_circuit_def)

lemma redis_cache_circuit [simp]: "redis (cache_circuit now n c b) = redis b"
  and redis_saveCircuit [simp]:
    "redis (saveCircuit now ok n c b) = (if ok then store_circuit now n c (redis b) else redis b)"
  by (simp_all add: saveCircuit_def cache_circuit_def)

lemma local_recordSuccess [simp]:
  "local_circuit m (recordSuccess now ok n b) =
     (if m = n then success_circuit (local_circuit n b) else local_circuit m b)"
  by (simp add: recordSuccess_def Let_def)

lemma local_recordFailure [simp]:
  "local_circuit m (recordFailure now ok n b) =
     (if m = n then failure_circuit now (local_circuit n b) else local_circuit m b)"
  by (simp add: recordFailure_def Let_def)

text \<open>A circuit saved by one replica is the circuit any replica reads back while the
  keys live (one hour), whatever its number of failures and opening time; once the keys have
  expired the node reads as a fresh closed circuit; and no other node's circuit is affected.\<close>

theorem saved_circuit_roundtrip:
  assumes "m \<noteq> n"
  shows "map_option fst (getCircuit now n ((saveCircuit t True n c b)\<lparr>localCache := Map.empty\<rparr>)) =
      Some (if now < t + 3600000 then c else fresh_circuit)
    \<and> map_option fst (getCircuit now m ((saveCircuit t True n c b)\<lparr>localCache := Map.empty\<rparr>)) =
      map_option fst (getCircuit now m (b\<lparr>localCache := Map.empty\<rparr>))"
proof -
  have "read_circuit now (store_circuit t n c (redis b)) n =
      Some (if now < t + 3600000 then c else fresh_circuit)"
    by (simp add: read_store_same read_store_expired CIRCUIT_TTL_S_def)
  moreover have "read_circuit now (store_circuit t n c (redis b)) m = read_circuit now (redis b) m"
    using assms by (rule read_store_other)
  ultimately show ?thesis
    by (simp add: getCircuit_def saveCircuit_def cache_circuit_def option.map_comp comp_def)
qed

theorem saved_circuit_roundtrip_witness:
  "map_option fst (getCircuit 5000 ''7''
     ((saveCircuit 1000 True ''7'' \<lparr>status = Open, failures = 5, openedAt = 1000\<rparr>
        \<lparr>redis = Map.empty, localCache = Map.empty\<rparr>)\<lparr>localCache := Map.empty\<rparr>))
   = Some \<lparr>status = Open, failures = 5, openedAt = 1000\<rparr>"
  using saved_circuit_roundtrip [of "''8''" "''7''" 5000 1000 "\<lparr>status = Open, failures = 5, openedAt = 1000\<rparr>"
      "\<lparr>redis = Map.empty, localCache = Map.empty\<rparr>"] by simp

section \<open>When a circuit opens\<close>

text \<open>The outcomes of the calls to one node, oldest first: the time and whether the call succeeded.\<close>

fun record_outcomes :: "bool \<Rightarrow> string \<Rightarrow> (millis \<times> bool) list \<Rightarrow> breaker \<Rightarrow> breaker" where
  "record_outcomes ok n [] b = b"
| "record_outcomes ok n ((t, succeeded) # os) b =
     record_outcomes ok n os (if succeeded then recordSuccess t ok n b else recordFailure t ok n b)"

definition five_failures_in_a_row :: "bool list \<Rightarrow> bool" where
  "five_failures_in_a_row os \<longleftrightarrow> (\<exists>xs ys. os = xs @ replicate 5 False @ ys)"

definition trailing_failures :: "bool list \<Rightarrow> nat" where
  "trailing_failures os = length (takeWhile Not (rev os))"

definition outcome_circuit :: "circuit_state \<Rightarrow> millis \<times> bool \<Rightarrow> circuit_state" where
  "outcome_circuit c o' = (if snd o' then success_circuit c else failure_circuit (fst o') c)"

lemma local_record_outcomes:
  "local_circuit n (record_outcomes ok n os b) = foldl outcome_circuit (local_circuit n b) os"
  by (induction os arbitrary: b) (auto simp: outcome_circuit_def)

lemma trailing_failures_simps [simp]:
  "trailing_failures [] = 0"
  "trailing_failures (os @ [True]) = 0"
  "trailing_failures (os @ [False]) = Suc (trailing_failures os)"
  by (simp_all add: trailing_failures_def)

lemma trailing_failures_split:
  "\<exists>xs. os = xs @ replicate (trailing_failures os) False"
proof (induction os rule: rev_induct)
  case Nil
  then show ?case by simp
next
  case (snoc x os)
  define k where "k = trailing_failures os"
  from snoc obtain xs where "os = xs @ replicate k False" by (auto simp: k_def)
  then have e: "os @ [False] = xs @ replicate (Suc k) False"
    by (simp add: replicate_append_same)
  show ?case
  proof (cases x)
    case True
    then show ?thesis by simp
  next
    case False
    then have tf: "trailing_failures (os @ [x]) = Suc k" by (simp add: k_def)
    show ?thesis unfolding tf using e False by auto
  qed
qed

lemma takeWhile_replicate_False:
  "takeWhile Not (replicate k False @ ys) = replicate k False @ takeWhile Not ys"
  by (induction k) simp_all

lemma trailing_failures_ge:
  "os = xs @ replicate k False \<Longrightarrow> k \<le> trailing_failures os"
  by (simp add: trailing_failures_def takeWhile_replicate_False)

lemma five_failures_snoc:
  "five_failures_in_a_row (os @ [x]) \<longleftrightarrow>
     five_failures_in_a_row os \<or> 5 \<le> trailing_failures (os @ [x])"
proof
  assume "five_failures_in_a_row (os @ [x])"
  then obtain xs ys where e: "os @ [x] = xs @ replicate 5 False @ ys"
    by (auto simp: five_failures_in_a_row_def)
  show "five_failures_in_a_row os \<or> 5 \<le> trailing_failures (os @ [x])"
  proof (cases ys rule: rev_cases)
    case Nil
    with e have "os @ [x] = xs @ replicate 5 False" by simp
    then show ?thesis using trailing_failures_ge by blast
  next
    case (snoc zs z)
    with e have "os = xs @ replicate 5 False @ zs"
      by (metis append_assoc butlast_snoc)
    then show ?thesis by (auto simp: five_failures_in_a_row_def)
  qed
next
  assume "five_failures_in_a_row os \<or> 5 \<le> trailing_failures (os @ [x])"
  then show "five_failures_in_a_row (os @ [x])"
  proof
    assume "five_failures_in_a_row os"
    then obtain xs ys where "os = xs @ replicate 5 False @ ys"
      by (auto simp: five_failures_in_a_row_def)
    then have "os @ [x] = xs @ replicate 5 False @ (ys @ [x])" by simp
    then show ?thesis unfolding five_failures_in_a_row_def by blast
  next
    let ?k = "trailing_failures (os @ [x])"
    assume k: "5 \<le> ?k"
    obtain xs where "os @ [x] = xs @ replicate ?k False"
      using trailing_failures_split by blast
    moreover have "replicate ?k False = replicate (?k - 5) False @ replicate 5 False"
      using k by (simp flip: replicate_add)
    ultimately have "os @ [x] = (xs @ replicate (?k - 5) False) @ replicate 5 False @ []"
      by simp
    then show ?thesis unfolding five_failures_in_a_row_def by blast
  qed
qed

lemma outcome_fold:
  "let c = foldl outcome_circuit fresh_circuit os; bs = map snd os in
     if five_failures_in_a_row bs then status c = Open
     else status c = Closed \<and> failures c = int (trailing_failures bs) \<and> trailing_failures bs < 5"
proof (induction os rule: rev_induct)
  case Nil
  then show ?case
    by (simp add: five_failures_in_a_row_def fresh_circuit_def)
next
  case (snoc o' os)
  then show ?case
    by (cases "snd o'")
       (auto simp: Let_def five_failures_snoc outcome_circuit_def success_circuit_def
          failure_circuit_def FAILURE_THRESHOLD_def split: if_splits)
qed

text \<open>Starting from an unknown (fresh) node and recording the outcomes of its calls, the
  circuit is open exactly when five calls in a row have failed at some point; otherwise it is
  closed and counts the failures since the last success. A success in between resets the count.\<close>

lemma circuit_opens_iff_five_failures_in_a_row:
  assumes "localCache b n = None"
  shows "status (local_circuit n (record_outcomes ok n os b)) =
      (if five_failures_in_a_row (map snd os) then Open else Closed)
    \<and> (\<not> five_failures_in_a_row (map snd os) \<longrightarrow>
        failures (local_circuit n (record_outcomes ok n os b)) =
          int (trailing_failures (map snd os)))"
proof -
  have "local_circuit n b = fresh_circuit"
    using assms by (simp add: local_circuit_def)
  then show ?thesis
    using outcome_fold [of os] by (simp add: local_record_outcomes Let_def split: if_splits)
qed

lemma circuit_opens_iff_five_failures_in_a_row_witness:
  "status (local_circuit ''1'' (record_outcomes True ''1''
      (map (\<lambda>t. (t, False)) [1, 2, 3, 4, 5]) \<lparr>redis = Map.empty, localCache = Map.empty\<rparr>)) = Open"
proof -
  have "five_failures_in_a_row (map snd (map (\<lambda>t. (t, False)) [1::int, 2, 3, 4, 5]))"
    unfolding five_failures_in_a_row_def
    by (rule exI [of _ "[]"], rule exI [of _ "[]"]) (simp add: eval_nat_numeral)
  then show ?thesis
    using circuit_opens_iff_five_failures_in_a_row
      [of "\<lparr>redis = Map.empty, localCache = Map.empty\<rparr>" "''1''" True
        "map (\<lambda>t. (t, False)) [1, 2, 3, 4, 5]"] by simp
qed

section \<open>What an open circuit lets through\<close>

text \<open>The open period. While less than 30 seconds have passed since the circuit opened,
  every request is refused and nothing changes; the first request after that is let through and
  moves the circuit to half-open; from there a success closes it with its counters cleared and a
  failure opens it again from that moment. A success recorded while it is open does not close it.\<close>

theorem open_circuit_cycle:
  assumes "status (local_circuit n b) = Open"
  shows "(now < openedAt (local_circuit n b) + 30000 \<longrightarrow> isAllowed now ok n b = (False, b))
    \<and> (openedAt (local_circuit n b) + 30000 \<le> now \<longrightarrow>
        fst (isAllowed now ok n b)
        \<and> status (local_circuit n (snd (isAllowed now ok n b))) = HalfOpen
        \<and> local_circuit n (recordSuccess t ok n (snd (isAllowed now ok n b))) = fresh_circuit
        \<and> status (local_circuit n (recordFailure t ok n (snd (isAllowed now ok n b)))) = Open
        \<and> openedAt (local_circuit n (recordFailure t ok n (snd (isAllowed now ok n b)))) = t)
    \<and> status (local_circuit n (recordSuccess t ok n b)) = Open"
  using assms
  by (cases "local_circuit n b")
     (auto simp: isAllowed_def Let_def OPEN_DURATION_MS_def success_circuit_def
        failure_circuit_def fresh_circuit_def)

theorem open_circuit_cycle_witness:
  "isAllowed 30999 True ''1'' \<lparr>redis = Map.empty, localCache =
      [''1'' \<mapsto> \<lparr>circuit = \<lparr>status = Open, failures = 5, openedAt = 1000\<rparr>, cachedAt = 1000\<rparr>]\<rparr>
   = (False, \<lparr>redis = Map.empty, localCache =
      [''1'' \<mapsto> \<lparr>circuit = \<lparr>status = Open, failures = 5, openedAt = 1000\<rparr>, cachedAt = 1000\<rparr>]\<rparr>)"
  using open_circuit_cycle [of "''1''" "\<lparr>redis = Map.empty, localCache =
      [''1'' \<mapsto> \<lparr>circuit = \<lparr>status = Open, failures = 5, openedAt = 1000\<rparr>, cachedAt = 1000\<rparr>]\<rparr>"
      30999 True]
  by (simp add: local_circuit_def)

lemma open_refuses:
  "status (local_circuit n b) = Open \<Longrightarrow> now < openedAt (local_circuit n b) + 30000 \<Longrightarrow>
     isAllowed now ok n b = (False, b)"
  by (simp add: isAllowed_def Let_def OPEN_DURATION_MS_def)

text \<open>In the half-open state every request is let through and nothing records that one was: the
  comment on the transition speaks of a single probe, the code admits any number of them.\<close>

lemma half_open_admits_every_probe:
  "status (local_circuit n b) = HalfOpen \<Longrightarrow> isAllowed now ok n b = (True, b)"
  by (simp add: isAllowed_def Let_def)

section \<open>Invariant\<close>

text \<open>What the operations keep of a circuit: the failure count stays below the threshold exactly
  while it is closed. What they keep of the store: the three keys of a node are all absent, or
  hold the texts of one such circuit with one expiry.\<close>

definition circuit_ok :: "circuit_state \<Rightarrow> bool" where
  "circuit_ok c \<longleftrightarrow>
     (case status c of Closed \<Rightarrow> 0 \<le> failures c \<and> failures c < FAILURE_THRESHOLD
      | _ \<Rightarrow> FAILURE_THRESHOLD \<le> failures c)"

definition stored_ok :: "store \<Rightarrow> string \<Rightarrow> bool" where
  "stored_ok r n \<longleftrightarrow>
     (r (stateKey n) = None \<and> r (failuresKey n) = None \<and> r (openedAtKey n) = None) \<or>
     (\<exists>c e. circuit_ok c \<and> r (stateKey n) = Some (status_text (status c), e) \<and>
        r (failuresKey n) = Some (show_int (failures c), e) \<and>
        r (openedAtKey n) = Some (show_int (openedAt c), e))"

definition breaker_ok :: "breaker \<Rightarrow> bool" where
  "breaker_ok b \<longleftrightarrow> (\<forall>n. stored_ok (redis b) n) \<and> (\<forall>n. circuit_ok (local_circuit n b))"

definition breaker_init :: "breaker \<Rightarrow> bool" where
  "breaker_init b \<longleftrightarrow> b = \<lparr>redis = Map.empty, localCache = Map.empty\<rparr>"

inductive breaker_step :: "breaker \<Rightarrow> breaker \<Rightarrow> bool" where
  get: "getCircuit now n b = Some (c, b') \<Longrightarrow> breaker_step b b'"
| allow: "breaker_step b (snd (isAllowed now ok n b))"
| success: "breaker_step b (recordSuccess now ok n b)"
| failure: "breaker_step b (recordFailure now ok n b)"
| reset: "reset now ok n b = Inr b' \<Longrightarrow> breaker_step b b'"

lemma circuit_ok_fresh [simp]: "circuit_ok fresh_circuit"
  by (simp add: circuit_ok_def fresh_circuit_def FAILURE_THRESHOLD_def)

lemma circuit_ok_success: "circuit_ok c \<Longrightarrow> circuit_ok (success_circuit c)"
  by (auto simp: circuit_ok_def success_circuit_def FAILURE_THRESHOLD_def split: circuit_status.splits)

lemma circuit_ok_failure: "circuit_ok c \<Longrightarrow> circuit_ok (failure_circuit t c)"
  by (auto simp: circuit_ok_def failure_circuit_def Let_def split: circuit_status.splits)

lemma circuit_ok_half_open: "circuit_ok c \<Longrightarrow> status c = Open \<Longrightarrow> circuit_ok (c\<lparr>status := HalfOpen\<rparr>)"
  by (simp add: circuit_ok_def)

lemma stored_ok_store: "circuit_ok c \<Longrightarrow> stored_ok r m \<Longrightarrow> stored_ok (store_circuit t n c r) m"
  by (cases "m = n") (auto simp: stored_ok_def store_circuit_def Let_def rset_def)

lemma read_circuit_ok:
  assumes "stored_ok r n"
  shows "\<exists>c. read_circuit now r n = Some c \<and> circuit_ok c"
proof (cases "rget now r (stateKey n)")
  case None
  with assms have "rget now r (failuresKey n) = None" "rget now r (openedAtKey n) = None"
    by (auto simp: stored_ok_def rget_def split: option.splits if_splits)
  with None show ?thesis using read_circuit_absent by simp
next
  case (Some t)
  with assms obtain c where "circuit_ok c" "rget now r (stateKey n) = Some (status_text (status c))"
      "rget now r (failuresKey n) = Some (show_int (failures c))"
      "rget now r (openedAtKey n) = Some (show_int (openedAt c))"
    by (auto simp: stored_ok_def rget_def split: option.splits if_splits)
  then show ?thesis using read_circuit_stored by blast
qed

lemma breaker_ok_cache: "breaker_ok b \<Longrightarrow> circuit_ok c \<Longrightarrow> breaker_ok (cache_circuit now n c b)"
  by (simp add: breaker_ok_def)

lemma breaker_ok_save: "breaker_ok b \<Longrightarrow> circuit_ok c \<Longrightarrow> breaker_ok (saveCircuit now ok n c b)"
  by (auto simp: breaker_ok_def stored_ok_store)

lemma breaker_ok_local: "breaker_ok b \<Longrightarrow> circuit_ok (local_circuit n b)"
  by (simp add: breaker_ok_def)

lemma getCircuit_ok:
  assumes "breaker_ok b"
  shows "\<exists>c b'. getCircuit now n b = Some (c, b') \<and> circuit_ok c \<and> breaker_ok b'"
proof -
  obtain c where c: "read_circuit now (redis b) n = Some c" "circuit_ok c"
    using assms read_circuit_ok by (metis breaker_ok_def)
  show ?thesis
    using c breaker_ok_cache [OF assms c(2)] breaker_ok_local [OF assms, of n] assms
    by (auto simp: getCircuit_def local_circuit_def split: option.splits)
qed

lemma breaker_ok_step: "breaker_step b b' \<Longrightarrow> breaker_ok b \<Longrightarrow> breaker_ok b'"
proof (induction rule: breaker_step.induct)
  case (get now n b c b')
  then show ?case using getCircuit_ok [of b now n] by auto
next
  case (allow b now ok n)
  then show ?case
    by (auto simp: isAllowed_def Let_def breaker_ok_local circuit_ok_half_open
        intro!: breaker_ok_save breaker_ok_cache split: circuit_status.splits)
next
  case (success b now ok n)
  then show ?case
    by (simp add: recordSuccess_def Let_def breaker_ok_save breaker_ok_cache breaker_ok_local
        circuit_ok_success)
next
  case (failure b now ok n)
  then show ?case
    by (simp add: recordFailure_def Let_def breaker_ok_save breaker_ok_cache breaker_ok_local
        circuit_ok_failure)
next
  case (reset now ok n b b')
  then show ?case
    by (auto simp: reset_def breaker_ok_save split: if_splits)
qed

interpretation cb: machine breaker_init breaker_step breaker_ok
proof
  show "breaker_ok s" if "breaker_init s" for s
    using that by (simp add: breaker_init_def breaker_ok_def stored_ok_def local_circuit_def)
  show "breaker_ok t" if "breaker_ok s" "breaker_step s t" for s t
    using that breaker_ok_step by blast
qed

text \<open>In every state the breaker can reach from an empty store and cache, by any
  interleaving of its operations and with any of its Redis writes lost, reading a circuit succeeds
  (no field parses to \<open>NaN\<close>), and the circuit it gives counts fewer than five failures exactly
  while it is closed.\<close>

theorem reachable_circuits_well_formed:
  assumes "breaker_init b0" and "breaker_step\<^sup>*\<^sup>* b0 b"
  shows "\<exists>c b'. getCircuit now n b = Some (c, b') \<and>
    (status c = Closed \<longleftrightarrow> failures c < 5) \<and> 0 \<le> failures c"
proof -
  have "breaker_ok b" using assms by (rule cb.inv_reachable)
  then obtain c b' where "getCircuit now n b = Some (c, b')" "circuit_ok c"
    using getCircuit_ok by blast
  then show ?thesis
    by (auto simp: circuit_ok_def FAILURE_THRESHOLD_def split: circuit_status.splits)
qed

theorem reachable_circuits_well_formed_witness:
  "\<exists>c b'. getCircuit 9 ''1'' (recordFailure 1 True ''1'' \<lparr>redis = Map.empty, localCache = Map.empty\<rparr>)
      = Some (c, b') \<and> (status c = Closed \<longleftrightarrow> failures c < 5) \<and> 0 \<le> failures c"
  by (rule reachable_circuits_well_formed [of "\<lparr>redis = Map.empty, localCache = Map.empty\<rparr>"])
     (auto simp: breaker_init_def intro: breaker_step.failure)

end
