(* ===== verification/RateLimiter.thy ===== *)
theory RateLimiter
  imports KeyValue
begin

text \<open>
  The rate limiter of the RPC gateway
  (services/rpc-gateway-service/src/rate-limiter/rate-limiter.service.ts): the registered
  limits of a node, the sorted sets of the sliding windows with the Lua script that checks and
  increments one of them, and the daily and monthly quota counters. The script runs atomically
  in Redis, so it is one function on the state; the time it is given (\<open>Date.now()\<close> of the
  service) is also taken as the time of the Redis server, which expires the keys.
\<close>

section \<open>State\<close>

record node_limits =
  maxRequestsPerSecond :: int
  maxRequestsPerMinute :: int
  maxRequestsPerDay :: "int option"
  maxRequestsPerMonth :: "int option"

text \<open>A sorted set: its members with their scores, and the expiry of its key.\<close>

type_synonym zset = "(string \<times> int) list \<times> millis"

record limiter =
  windows :: "string \<rightharpoonup> zset"
  quotas :: store
  nodeLimits :: "string \<rightharpoonup> node_limits"

definition registerNode :: "string \<Rightarrow> node_limits \<Rightarrow> limiter \<Rightarrow> limiter" where
  "registerNode n lims r = r\<lparr>nodeLimits := (nodeLimits r)(n \<mapsto> lims)\<rparr>"

section \<open>The sliding-window script\<close>

definition live_members :: "millis \<Rightarrow> (string \<rightharpoonup> zset) \<Rightarrow> string \<Rightarrow> (string \<times> int) list" where
  "live_members now w k =
     (case w k of None \<Rightarrow> [] | Some (zs, e) \<Rightarrow> if now < e then zs else [])"

definition recent :: "int \<Rightarrow> millis \<Rightarrow> string \<times> int \<Rightarrow> bool" where
  "recent window now m \<longleftrightarrow> now - window < snd m"

definition zadd :: "string \<Rightarrow> int \<Rightarrow> (string \<times> int) list \<Rightarrow> (string \<times> int) list" where
  "zadd m score zs = (m, score) # filter (\<lambda>x. fst x \<noteq> m) zs"

definition put_members :: "string \<Rightarrow> (string \<times> int) list \<Rightarrow> (string \<rightharpoonup> zset) \<Rightarrow> (string \<rightharpoonup> zset)" where
  "put_members k zs w =
     (case w k of
        None \<Rightarrow> w
      | Some (_, e) \<Rightarrow> if zs = [] then w(k := None) else w(k \<mapsto> (zs, e)))"

definition check_and_increment ::
    "string \<Rightarrow> int \<Rightarrow> int \<Rightarrow> millis \<Rightarrow> string \<Rightarrow> (string \<rightharpoonup> zset) \<Rightarrow> bool \<times> (string \<rightharpoonup> zset)" where
  "check_and_increment key limit window now member w =
     (let zs = filter (recent window now) (live_members now w key);
          w' = put_members key zs w
      in if int (length zs) \<ge> limit then (False, w')
         else (True, w'(key \<mapsto> (zadd member now zs, now + window))))"

section \<open>Checking a request\<close>

definition perSecondKey :: "string \<Rightarrow> string" where
  "perSecondKey n = ''rpc:rate:'' @ n @ '':s''"

definition perMinuteKey :: "string \<Rightarrow> string" where
  "perMinuteKey n = ''rpc:rate:'' @ n @ '':m''"

text \<open>\<open>rnd\<close> is the random part of the member, drawn anew by every call.\<close>

definition checkAndRecord :: "millis \<Rightarrow> string \<Rightarrow> string \<Rightarrow> limiter \<Rightarrow> bool \<times> limiter" where
  "checkAndRecord now rnd n r =
     (case nodeLimits r n of
        None \<Rightarrow> (True, r)
      | Some lims \<Rightarrow>
          (let member = show_int now @ '':'' @ rnd in
           case check_and_increment (perSecondKey n) (maxRequestsPerSecond lims) 1000 now member (windows r) of
             (False, w) \<Rightarrow> (False, r\<lparr>windows := w\<rparr>)
           | (True, w) \<Rightarrow>
               (case check_and_increment (perMinuteKey n) (maxRequestsPerMinute lims) 60000 now member w of
                  (ok, w') \<Rightarrow> (ok, r\<lparr>windows := w'\<rparr>))))"

section \<open>Quotas\<close>

text \<open>\<open>isoDate\<close> is \<open>new Date().toISOString()\<close>; the keys take its first ten and first seven characters.\<close>

definition dayKey :: "string \<Rightarrow> string \<Rightarrow> string" where
  "dayKey n isoDate = ''rpc:quota:'' @ n @ '':day:'' @ take 10 isoDate"

definition monthKey :: "string \<Rightarrow> string \<Rightarrow> string" where
  "monthKey n isoDate = ''rpc:quota:'' @ n @ '':month:'' @ take 7 isoDate"

definition counter :: "millis \<Rightarrow> store \<Rightarrow> string \<Rightarrow> int" where
  "counter now s k =
     (case rget now s k of None \<Rightarrow> 0 | Some t \<Rightarrow> (case parse_int t of None \<Rightarrow> 0 | Some v \<Rightarrow> v))"

definition incr_expire :: "millis \<Rightarrow> string \<Rightarrow> int \<Rightarrow> store \<Rightarrow> store" where
  "incr_expire now k secs s = rset now k (show_int (counter now s k + 1)) (Some (secs * 1000)) s"

definition recordUsage :: "millis \<Rightarrow> string \<Rightarrow> string \<Rightarrow> limiter \<Rightarrow> limiter" where
  "recordUsage now isoDate n r =
     r\<lparr>quotas := incr_expire now (monthKey n isoDate) (86400 * 35)
                  (incr_expire now (dayKey n isoDate) (86400 * 2) (quotas r))\<rparr>"

text \<open>A limit that is absent or zero is falsy in the source and is not enforced.\<close>

definition over_quota :: "int option \<Rightarrow> int \<Rightarrow> bool" where
  "over_quota limit used =
     (case limit of None \<Rightarrow> False | Some l \<Rightarrow> l \<noteq> 0 \<and> used \<ge> l)"

definition isQuotaExhausted :: "millis \<Rightarrow> string \<Rightarrow> string \<Rightarrow> limiter \<Rightarrow> bool" where
  "isQuotaExhausted now isoDate n r =
     (case nodeLimits r n of
        None \<Rightarrow> False
      | Some lims \<Rightarrow>
          over_quota (maxRequestsPerDay lims) (counter now (quotas r) (dayKey n isoDate))
          \<or> over_quota (maxRequestsPerMonth lims) (counter now (quotas r) (monthKey n isoDate)))"

record quota_usage =
  dailyUsed :: int
  monthlyUsed :: int
  dailyLimit :: "int option"
  monthlyLimit :: "int option"

definition getQuotaUsage :: "millis \<Rightarrow> string \<Rightarrow> string \<Rightarrow> limiter \<Rightarrow> quota_usage" where
  "getQuotaUsage now isoDate n r =
     \<lparr>dailyUsed = counter now (quotas r) (dayKey n isoDate),
      monthlyUsed = counter now (quotas r) (monthKey n isoDate),
      dailyLimit = (case nodeLimits r n of None \<Rightarrow> None | Some lims \<Rightarrow> maxRequestsPerDay lims),
      monthlyLimit = (case nodeLimits r n of None \<Rightarrow> None | Some lims \<Rightarrow> maxRequestsPerMonth lims)\<rparr>"

section \<open>The window invariant\<close>

text \<open>
  \<open>A\<close> lists what a window has admitted, newest first. At every later time the members the
  script will count are exactly the recent ones of \<open>A\<close>, although the stored set forgets old
  members and its key may have expired; and no interval of the window's length holds more than
  the limit.
\<close>

definition in_interval :: "int \<Rightarrow> millis \<Rightarrow> string \<times> int \<Rightarrow> bool" where
  "in_interval window t m \<longleftrightarrow> t - window < snd m \<and> snd m \<le> t"

definition window_inv ::
    "int \<Rightarrow> int \<Rightarrow> (string \<times> int) list \<Rightarrow> millis \<Rightarrow> (string \<rightharpoonup> zset) \<Rightarrow> string \<Rightarrow> bool" where
  "window_inv limit window A now w k \<longleftrightarrow>
     (\<forall>t \<ge> now. filter (recent window t) (live_members t w k) = filter (recent window t) A)
     \<and> (\<forall>a \<in> set A. snd a \<le> now)
     \<and> (\<forall>t. int (length (filter (in_interval window t) A)) \<le> limit)"

lemma window_inv_later: "window_inv l d A now w k \<Longrightarrow> now \<le> now' \<Longrightarrow> window_inv l d A now' w k"
  unfolding window_inv_def by force

lemma window_inv_empty: "0 \<le> l \<Longrightarrow> w k = None \<Longrightarrow> window_inv l d [] now w k"
  by (simp add: window_inv_def live_members_def)

lemma live_put_members_same:
  "live_members t (put_members k zs w) k =
     (case w k of None \<Rightarrow> [] | Some (_, e) \<Rightarrow> if t < e then zs else [])"
  by (auto simp: live_members_def put_members_def split: option.splits)

lemma live_put_members_other:
  "k' \<noteq> k \<Longrightarrow> live_members t (put_members k zs w) k' = live_members t w k'"
  by (auto simp: live_members_def put_members_def split: option.splits)

lemma live_check_other:
  "k' \<noteq> k \<Longrightarrow> live_members t (snd (check_and_increment k l d now m w)) k' = live_members t w k'"
  by (auto simp: check_and_increment_def Let_def live_put_members_other)
     (simp add: live_members_def put_members_def split: option.splits)

lemma window_inv_other:
  "k' \<noteq> k \<Longrightarrow> window_inv l' d' A now w k' \<Longrightarrow>
     window_inv l' d' A now (snd (check_and_increment k l d t m w)) k'"
  by (simp add: window_inv_def live_check_other)

lemma recent_later: "now \<le> t \<Longrightarrow> (recent d now x \<and> recent d t x) = recent d t x"
  by (auto simp: recent_def)

lemma filter_recent_later:
  "now \<le> t \<Longrightarrow> filter (recent d t) (filter (recent d now) A) = filter (recent d t) A"
  by (simp add: recent_later)

lemma window_inv_reject:
  assumes inv: "window_inv l d A now w k"
  shows "window_inv l d A now (put_members k (filter (recent d now) (live_members now w k)) w) k"
proof -
  have "filter (recent d t) (live_members t
      (put_members k (filter (recent d now) (live_members now w k)) w) k) = filter (recent d t) A"
    if t: "now \<le> t" for t
  proof -
    have "filter (recent d t) (live_members t w k) = filter (recent d t) A"
      using inv t by (simp add: window_inv_def)
    then show ?thesis
      unfolding live_put_members_same
      using t by (auto simp: live_members_def recent_later split: option.splits if_splits)
  qed
  with inv show ?thesis by (simp add: window_inv_def)
qed

lemma window_inv_admit:
  assumes inv: "window_inv l d A now w k" and d: "0 < d"
    and fresh: "m \<notin> fst ` set A"
    and room: "int (length (filter (recent d now) (live_members now w k))) < l"
  shows "window_inv l d ((m, now) # A) now
    (w'(k \<mapsto> (zadd m now (filter (recent d now) (live_members now w k)), now + d))) k"
proof -
  let ?zs = "filter (recent d now) A"
  have zs: "filter (recent d now) (live_members now w k) = ?zs"
    and le: "\<forall>a \<in> set A. snd a \<le> now"
    and cnt: "int (length (filter (in_interval d t) A)) \<le> l" for t
    using inv by (auto simp: window_inv_def)
  have add: "zadd m now ?zs = (m, now) # ?zs"
    unfolding zadd_def by (rule arg_cong [where f = "Cons (m, now)"], rule filter_True)
      (use fresh in \<open>auto simp: image_iff\<close>)
  have len: "int (length ?zs) < l" using room zs by simp
  have "filter (recent d t) (live_members t (w'(k \<mapsto> ((m, now) # ?zs, now + d))) k) =
      filter (recent d t) ((m, now) # A)" if t: "now \<le> t" for t
  proof (cases "t < now + d")
    case True
    then show ?thesis using t by (simp add: live_members_def recent_later)
  next
    case False
    then have "filter (recent d t) ((m, now) # A) = []"
      using le by (force simp: recent_def filter_empty_conv)
    with False show ?thesis by (simp add: live_members_def)
  qed
  moreover have "int (length (filter (in_interval d t) ((m, now) # A))) \<le> l" for t
  proof (cases "in_interval d t (m, now)")
    case True
    then have "now \<le> t" by (simp add: in_interval_def)
    then have "length (filter (in_interval d t) A) = length (filter (in_interval d t) ?zs)"
      by (auto simp: in_interval_def recent_def intro!: arg_cong [where f = length] filter_cong)
    also have "\<dots> \<le> length ?zs" by (rule length_filter_le)
    finally show ?thesis using len True by simp
  next
    case False
    then show ?thesis using cnt by simp
  qed
  ultimately show ?thesis
    unfolding zs add using le by (simp add: window_inv_def)
qed

lemma window_inv_check:
  assumes "window_inv l d A now w k" "0 < d" "m \<notin> fst ` set A"
  shows "window_inv l d (if fst (check_and_increment k l d now m w) then (m, now) # A else A) now
    (snd (check_and_increment k l d now m w)) k"
  using assms window_inv_reject [OF assms(1)] window_inv_admit [OF assms]
  by (simp add: check_and_increment_def Let_def)

section \<open>Every window holds at most its limit\<close>

text \<open>The requests offered to one node, in the order the script runs them: time and random part.
  The result lists the granted ones, newest first, with their members.\<close>

definition member_of :: "millis \<times> string \<Rightarrow> string" where
  "member_of q = show_int (fst q) @ '':'' @ snd q"

fun granted :: "string \<Rightarrow> (millis \<times> string) list \<Rightarrow> (string \<times> int) list \<Rightarrow> limiter \<Rightarrow> (string \<times> int) list" where
  "granted n [] G r = G"
| "granted n (q # qs) G r =
     (case checkAndRecord (fst q) (snd q) n r of
        (ok, r') \<Rightarrow> granted n qs (if ok then (member_of q, fst q) # G else G) r')"

definition node_inv :: "node_limits \<Rightarrow> string \<Rightarrow> (string \<times> int) list \<Rightarrow> (string \<times> int) list \<Rightarrow> millis \<Rightarrow> limiter \<Rightarrow> bool" where
  "node_inv lims n S G now r \<longleftrightarrow>
     nodeLimits r n = Some lims
     \<and> window_inv (maxRequestsPerSecond lims) 1000 S now (windows r) (perSecondKey n)
     \<and> window_inv (maxRequestsPerMinute lims) 60000 G now (windows r) (perMinuteKey n)
     \<and> (\<forall>P. length (filter P G) \<le> length (filter P S))
     \<and> set G \<subseteq> set S"

lemma rate_keys_differ [simp]: "perSecondKey n \<noteq> perMinuteKey n" "perMinuteKey n \<noteq> perSecondKey n"
  by (rule last_differs, simp add: perSecondKey_def perMinuteKey_def)+

lemma node_inv_step:
  assumes inv: "node_inv lims n S G last_t r" and t: "last_t \<le> fst q"
    and fresh: "member_of q \<notin> fst ` set S"
  shows "\<exists>S'. node_inv lims n S'
      (if fst (checkAndRecord (fst q) (snd q) n r) then (member_of q, fst q) # G else G) (fst q)
      (snd (checkAndRecord (fst q) (snd q) n r))
    \<and> (S' = S \<or> S' = (member_of q, fst q) # S)"
proof -
  let ?now = "fst q" and ?m = "member_of q"
  let ?cs = "check_and_increment (perSecondKey n) (maxRequestsPerSecond lims) 1000 ?now ?m (windows r)"
  let ?cm = "check_and_increment (perMinuteKey n) (maxRequestsPerMinute lims) 60000 ?now ?m (snd ?cs)"
  have lims: "nodeLimits r n = Some lims"
    and S: "window_inv (maxRequestsPerSecond lims) 1000 S ?now (windows r) (perSecondKey n)"
    and G: "window_inv (maxRequestsPerMinute lims) 60000 G ?now (windows r) (perMinuteKey n)"
    and sub: "\<forall>P. length (filter P G) \<le> length (filter P S)" "set G \<subseteq> set S"
    using inv t window_inv_later unfolding node_inv_def by blast+
  have freshG: "?m \<notin> fst ` set G" using fresh sub(2) by auto
  have S': "window_inv (maxRequestsPerSecond lims) 1000 (if fst ?cs then (?m, ?now) # S else S) ?now
      (snd ?cs) (perSecondKey n)"
    by (rule window_inv_check [OF S _ fresh]) simp
  have G': "window_inv (maxRequestsPerMinute lims) 60000 G ?now (snd ?cs) (perMinuteKey n)"
    by (rule window_inv_other [OF _ G]) simp
  have G'': "window_inv (maxRequestsPerMinute lims) 60000 (if fst ?cm then (?m, ?now) # G else G) ?now
      (snd ?cm) (perMinuteKey n)"
    by (rule window_inv_check [OF G' _ freshG]) simp
  have S'': "window_inv (maxRequestsPerSecond lims) 1000 (if fst ?cs then (?m, ?now) # S else S) ?now
      (snd ?cm) (perSecondKey n)"
    by (rule window_inv_other [OF _ S']) simp
  have le: "length (filter P G) \<le> Suc (length (filter P S))" for P
    using sub(1) le_SucI by blast
  show ?thesis
  proof (cases "fst ?cs")
    case False
    then have "checkAndRecord ?now (snd q) n r = (False, r\<lparr>windows := snd ?cs\<rparr>)"
      by (cases ?cs) (simp add: checkAndRecord_def lims member_of_def)
    then show ?thesis using False lims S' G' sub by (auto simp: node_inv_def)
  next
    case True
    then have c: "checkAndRecord ?now (snd q) n r = (fst ?cm, r\<lparr>windows := snd ?cm\<rparr>)"
      by (cases ?cs) (simp add: checkAndRecord_def lims member_of_def split: prod.splits)
    have "node_inv lims n ((?m, ?now) # S) (if fst ?cm then (?m, ?now) # G else G) ?now
        (r\<lparr>windows := snd ?cm\<rparr>)"
      using True lims S'' G'' sub le by (auto simp: node_inv_def)
    then show ?thesis using c by auto
  qed
qed

lemma disjoint_insert_subset: "A \<subseteq> insert x B \<Longrightarrow> x \<notin> C \<Longrightarrow> B \<inter> C = {} \<Longrightarrow> A \<inter> C = {}"
  by blast

lemma node_inv_granted:
  assumes "node_inv lims n S G t0 r" and "sorted (t0 # map fst qs)"
    and "distinct (map member_of qs)" and "fst ` set S \<inter> member_of ` set qs = {}"
  shows "\<exists>S' t r'. node_inv lims n S' (granted n qs G r) t r'"
  using assms
proof (induction qs arbitrary: S G t0 r)
  case Nil
  then show ?case by auto
next
  case (Cons q qs)
  let ?c = "checkAndRecord (fst q) (snd q) n r"
  from Cons.prems have "t0 \<le> fst q" "member_of q \<notin> fst ` set S" by auto
  then obtain S' where S': "node_inv lims n S' (if fst ?c then (member_of q, fst q) # G else G) (fst q) (snd ?c)"
      "S' = S \<or> S' = (member_of q, fst q) # S"
    using node_inv_step [OF Cons.prems(1)] by blast
  have "fst ` set S' \<subseteq> insert (member_of q) (fst ` set S)"
    using S'(2) by auto
  moreover have "member_of q \<notin> member_of ` set qs" "fst ` set S \<inter> member_of ` set qs = {}"
    using Cons.prems(3,4) by simp_all
  ultimately have "fst ` set S' \<inter> member_of ` set qs = {}" by (rule disjoint_insert_subset)
  moreover have "sorted (fst q # map fst qs)" "distinct (map member_of qs)"
    using Cons.prems(2,3) by auto
  ultimately have "\<exists>S'' t r'. node_inv lims n S''
      (granted n qs (if fst ?c then (member_of q, fst q) # G else G) (snd ?c)) t r'"
    using Cons.IH [OF S'(1)] by blast
  then show ?case by (simp add: case_prod_beta)
qed

text \<open>Whatever requests arrive for a node, in time order and with distinct random members,
  no second-long interval holds more granted requests than the node's per-second limit and no
  minute-long interval more than its per-minute limit, even though the sorted sets forget old
  members and their keys expire.\<close>

lemma sliding_window_limits_hold:
  assumes "nodeLimits r n = Some lims"
    and "0 \<le> maxRequestsPerSecond lims" and "0 \<le> maxRequestsPerMinute lims"
    and "windows r (perSecondKey n) = None" and "windows r (perMinuteKey n) = None"
    and "sorted (map fst qs)" and "distinct (map member_of qs)"
  shows "int (length (filter (in_interval 1000 t) (granted n qs [] r))) \<le> maxRequestsPerSecond lims
    \<and> int (length (filter (in_interval 60000 t) (granted n qs [] r))) \<le> maxRequestsPerMinute lims"
proof -
  define t0 where "t0 = (if qs = [] then 0 else fst (hd qs))"
  have "node_inv lims n [] [] t0 r"
    using assms(1-5) by (simp add: node_inv_def window_inv_empty)
  moreover have "sorted (t0 # map fst qs)"
    using assms(6) by (cases qs) (auto simp: t0_def)
  ultimately obtain S' t' r' where "node_inv lims n S' (granted n qs [] r) t' r'"
    using node_inv_granted [of lims n "[]" "[]" t0 r qs] assms(7) by auto
  then have "int (length (filter (in_interval 1000 t) S')) \<le> maxRequestsPerSecond lims"
      "length (filter (in_interval 1000 t) (granted n qs [] r)) \<le> length (filter (in_interval 1000 t) S')"
      "int (length (filter (in_interval 60000 t) (granted n qs [] r))) \<le> maxRequestsPerMinute lims"
    by (auto simp: node_inv_def window_inv_def)
  then show ?thesis by linarith
qed

lemma sliding_window_limits_hold_witness:
  "int (length (filter (in_interval 1000 10) (granted ''1'' [(5, ''a''), (6, ''b''), (7, ''c'')] []
      \<lparr>windows = Map.empty, quotas = Map.empty, nodeLimits = [''1'' \<mapsto>
        \<lparr>maxRequestsPerSecond = 2, maxRequestsPerMinute = 9, maxRequestsPerDay = None,
         maxRequestsPerMonth = None\<rparr>]\<rparr>))) \<le> 2"
  using sliding_window_limits_hold [where n = "''1''" and t = 10
      and qs = "[(5, ''a''), (6, ''b''), (7, ''c'')]"
      and lims = "\<lparr>maxRequestsPerSecond = 2, maxRequestsPerMinute = 9, maxRequestsPerDay = None,
         maxRequestsPerMonth = None\<rparr>"
      and r = "\<lparr>windows = Map.empty, quotas = Map.empty, nodeLimits = [''1'' \<mapsto>
        \<lparr>maxRequestsPerSecond = 2, maxRequestsPerMinute = 9, maxRequestsPerDay = None,
         maxRequestsPerMonth = None\<rparr>]\<rparr>"]
  by (simp add: member_of_def)

section \<open>Quotas\<close>

lemma counter_incr_same:
  "now' < now + secs * 1000 \<Longrightarrow> counter now' (incr_expire now k secs s) k = counter now s k + 1"
  by (simp add: counter_def incr_expire_def kv.get_put)

lemma counter_incr_other: "k' \<noteq> k \<Longrightarrow> counter now' (incr_expire now k secs s) k' = counter now' s k'"
  by (simp add: counter_def incr_expire_def kv.get_put)

lemma quota_keys_differ [simp]: "dayKey n i \<noteq> monthKey n j" "monthKey n j \<noteq> dayKey n i"
  by (simp_all add: dayKey_def monthKey_def)

lemma counter_recordUsage:
  "now' < now + 172800000 \<Longrightarrow>
     counter now' (quotas (recordUsage now i n r)) (dayKey n i) = counter now (quotas r) (dayKey n i) + 1"
  by (simp add: recordUsage_def counter_incr_other counter_incr_same)

lemma nodeLimits_recordUsage [simp]: "nodeLimits (recordUsage now i n r) = nodeLimits r"
  by (simp add: recordUsage_def)

text \<open>The router's use of the quota, one request after the other: a node whose quota is exhausted
  is skipped, otherwise the request is served and counted.\<close>

fun serve_requests :: "string \<Rightarrow> string \<Rightarrow> millis list \<Rightarrow> limiter \<Rightarrow> limiter" where
  "serve_requests n i [] r = r"
| "serve_requests n i (now # ts) r =
     serve_requests n i ts (if isQuotaExhausted now i n r then r else recordUsage now i n r)"

lemma counter_serve_requests:
  assumes "nodeLimits r n = Some lims" "maxRequestsPerDay lims = Some l" "0 < l"
    and "maxRequestsPerMonth lims = None"
    and "\<forall>t \<in> {T ..< T + 86400000}. counter t (quotas r) (dayKey n i) = v" "v \<le> l"
    and "set ts \<subseteq> {T ..< T + 86400000}"
  shows "\<forall>t \<in> {T ..< T + 86400000}.
    counter t (quotas (serve_requests n i ts r)) (dayKey n i) = min l (v + int (length ts))"
  using assms
proof (induction ts arbitrary: r v)
  case Nil
  then show ?case by simp
next
  case (Cons now ts)
  let ?r = "if isQuotaExhausted now i n r then r else recordUsage now i n r"
  have v: "counter now (quotas r) (dayKey n i) = v" and now: "T \<le> now" "now < T + 86400000"
    using Cons.prems(5,7) by auto
  have ex: "isQuotaExhausted now i n r \<longleftrightarrow> v = l"
    using Cons.prems v by (auto simp: isQuotaExhausted_def over_quota_def)
  have "\<forall>t \<in> {T ..< T + 86400000}. counter t (quotas ?r) (dayKey n i) = min l (v + 1)"
    using Cons.prems(5,6) ex v now by (auto simp: counter_recordUsage)
  then have "\<forall>t \<in> {T ..< T + 86400000}. counter t (quotas (serve_requests n i ts ?r)) (dayKey n i)
      = min l (min l (v + 1) + int (length ts))"
    using Cons.prems by (intro Cons.IH) auto
  moreover have "min l (min l (v + 1) + int (length ts)) = min l (v + int (length (now # ts)))"
    using Cons.prems(6) by (simp add: min_def)
  ultimately show ?case by simp
qed

text \<open>Serving requests through the daily quota on one day counts each of them until the
  limit and refuses the rest: after any number of requests the counter is the smaller of the two.\<close>

theorem daily_quota_is_exact:
  assumes "nodeLimits r n = Some lims" and "maxRequestsPerDay lims = Some l" and "0 < l"
    and "maxRequestsPerMonth lims = None" and "quotas r (dayKey n isoDate) = None"
    and "set (t # ts) \<subseteq> {T ..< T + 86400000}"
  shows "counter t (quotas (serve_requests n isoDate ts r)) (dayKey n isoDate) = min l (int (length ts))"
proof -
  have "\<forall>t \<in> {T ..< T + 86400000}. counter t (quotas r) (dayKey n isoDate) = 0"
    using assms(5) by (simp add: counter_def rget_def)
  then show ?thesis
    using counter_serve_requests [OF assms(1-4), of T isoDate 0 ts] assms(3,6) by auto
qed

theorem daily_quota_is_exact_witness:
  "counter 40 (quotas (serve_requests ''1'' ''2026-01-31T'' [10, 20, 30]
      \<lparr>windows = Map.empty, quotas = Map.empty, nodeLimits = [''1'' \<mapsto>
        \<lparr>maxRequestsPerSecond = 50, maxRequestsPerMinute = 2000, maxRequestsPerDay = Some 2,
         maxRequestsPerMonth = None\<rparr>]\<rparr>)) (dayKey ''1'' ''2026-01-31T'') = 2"
  using daily_quota_is_exact [where n = "''1''" and isoDate = "''2026-01-31T''" and t = 40
      and ts = "[10, 20, 30]" and T = 0 and l = 2
      and lims = "\<lparr>maxRequestsPerSecond = 50, maxRequestsPerMinute = 2000, maxRequestsPerDay = Some 2,
         maxRequestsPerMonth = None\<rparr>"
      and r = "\<lparr>windows = Map.empty, quotas = Map.empty, nodeLimits = [''1'' \<mapsto>
        \<lparr>maxRequestsPerSecond = 50, maxRequestsPerMinute = 2000, maxRequestsPerDay = Some 2,
         maxRequestsPerMonth = None\<rparr>]\<rparr>"]
  by simp

end
