(* ===== verification/RpcHealth.thy ===== *)
theory RpcHealth
  imports RateLimiter Complex_Main
begin

text \<open>
  The nodes of the RPC gateway and their health checker
  (services/rpc-gateway-service/src/health/health.service.ts): the rows of \<open>rpc_nodes\<close>, the
  decryption of a provider's API key, one health check of one node, a whole round of checks,
  the summary, the seeding of the rate limits and the clean-up of old measurements. Health
  scores are \<open>Decimal\<close>s computed with JavaScript numbers; the model computes them exactly, as
  rationals, so IEEE rounding is not modelled. The probe of a node (its outcome, start and end)
  is an argument, and so is AES-256-GCM.
\<close>

section \<open>State\<close>

datatype node_status = ActiveNode | StandbyNode | DrainingNode | UnhealthyNode | DisabledNode

record provider_auth =
  provider_name :: string
  auth_method :: string
  auth_header_name :: "string option"
  api_key_encrypted :: "string option"

record rpc_node =
  node_id :: ident
  provider_id :: ident
  chain_id :: int
  endpoint_url :: string
  priority :: int
  node_status :: node_status
  max_per_second :: "int option"
  max_per_minute :: "int option"
  max_per_day :: "int option"
  max_per_month :: "int option"
  timeout_ms :: int
  health_score :: rat
  consecutive_failures :: int
  is_active :: bool
  last_health_check_at :: "millis option"
  last_healthy_at :: "millis option"
  provider :: "provider_auth option"

datatype check_type = Latency | BlockHeight

record health_record =
  rec_node :: ident
  rec_type :: check_type
  rec_value :: int
  rec_at :: millis
  rec_block :: "int option"

record health_db =
  nodes :: "rpc_node list"
  health_records :: "health_record list"

section \<open>Provider authentication\<close>

text \<open>
  \<open>gcm key iv tag text\<close> is the AES-256-GCM decryption of the hex parts, \<open>None\<close> when any step of
  it throws. A ciphertext with fewer than three parts makes \<open>Buffer.from(undefined)\<close> throw.
\<close>

definition decryptSecret ::
    "(string \<Rightarrow> string \<Rightarrow> string \<Rightarrow> string \<Rightarrow> string option) \<Rightarrow> string option \<Rightarrow> string \<Rightarrow> string option" where
  "decryptSecret gcm key ciphertext =
     (case key of
        None \<Rightarrow> None
      | Some k \<Rightarrow>
          (case split_on (CHR '':'') ciphertext of
             iv # tag # enc # _ \<Rightarrow> gcm k iv tag enc
           | _ \<Rightarrow> None))"

record rpc_connection =
  conn_url :: string
  conn_header :: "(string \<times> string) option"

definition createAuthProvider ::
    "(string \<Rightarrow> string \<Rightarrow> string \<Rightarrow> string \<Rightarrow> string option) \<Rightarrow> string option \<Rightarrow> string \<Rightarrow>
     provider_auth option \<Rightarrow> rpc_connection" where
  "createAuthProvider gcm key url p =
     (case p of
        None \<Rightarrow> \<lparr>conn_url = url, conn_header = None\<rparr>
      | Some a \<Rightarrow>
          (case api_key_encrypted a of
             None \<Rightarrow> \<lparr>conn_url = url, conn_header = None\<rparr>
           | Some ct \<Rightarrow>
               if ct \<noteq> [] \<and> (auth_method a = ''api_key'' \<or> auth_method a = ''header'') then
                 (case decryptSecret gcm key ct of
                    None \<Rightarrow> \<lparr>conn_url = url, conn_header = None\<rparr>
                  | Some apiKey \<Rightarrow>
                      if apiKey = [] then \<lparr>conn_url = url, conn_header = None\<rparr>
                      else \<lparr>conn_url = url, conn_header = Some
                        (case auth_header_name a of None \<Rightarrow> ''x-api-key''
                         | Some h \<Rightarrow> if h = [] then ''x-api-key'' else h, apiKey)\<rparr>)
               else \<lparr>conn_url = url, conn_header = None\<rparr>))"

section \<open>Seeding the rate limits\<close>

definition node_key :: "rpc_node \<Rightarrow> string" where
  "node_key nd = show_int (node_id nd)"

definition limits_of_node :: "rpc_node \<Rightarrow> node_limits" where
  "limits_of_node nd =
     \<lparr>maxRequestsPerSecond = (case max_per_second nd of None \<Rightarrow> 50 | Some l \<Rightarrow> l),
      maxRequestsPerMinute = (case max_per_minute nd of None \<Rightarrow> 2000 | Some l \<Rightarrow> l),
      maxRequestsPerDay = max_per_day nd,
      maxRequestsPerMonth = max_per_month nd\<rparr>"

definition chain_limit :: "rpc_node list \<Rightarrow> int \<Rightarrow> int" where
  "chain_limit ns c =
     sum_list (map (\<lambda>nd. case max_per_second nd of None \<Rightarrow> 50 | Some l \<Rightarrow> l)
       (filter (\<lambda>nd. chain_id nd = c) ns))"

definition sharedLimitKey :: "int \<Rightarrow> string" where
  "sharedLimitKey c = ''rpc:shared:'' @ show_int c @ '':limit''"

definition seedRateLimits :: "millis \<Rightarrow> health_db \<Rightarrow> limiter \<Rightarrow> store \<Rightarrow> limiter \<times> store" where
  "seedRateLimits now db r s =
     (let ns = filter is_active (nodes db) in
      (fold (\<lambda>nd. registerNode (node_key nd) (limits_of_node nd)) ns r,
       fold (\<lambda>c. rset now (sharedLimitKey c) (show_int (chain_limit ns c)) None)
         (remdups (map chain_id ns)) s))"

section \<open>Checking a node\<close>

record probe =
  outcome :: "string + int"
  started :: millis
  finished :: millis

definition round2 :: "rat \<Rightarrow> rat" where
  "round2 x = of_int \<lfloor>x * 100 + 1 / 2\<rfloor> / 100"

definition recovered_score :: "rat \<Rightarrow> rat" where
  "recovered_score s = min 100 (s * (7 / 10) + 100 * (3 / 10))"

definition degraded_score :: "rat \<Rightarrow> int \<Rightarrow> rat" where
  "degraded_score s newFailures = max 0 (s - of_int (min 30 (newFailures * 10)))"

definition deriveStatus :: "rat \<Rightarrow> int \<Rightarrow> node_status option" where
  "deriveStatus score fails =
     (if fails \<ge> 3 \<or> score < 20 then Some UnhealthyNode
      else if score \<ge> 70 \<and> fails = 0 then Some ActiveNode
      else None)"

definition checked_node :: "probe \<Rightarrow> rpc_node \<Rightarrow> rpc_node \<Rightarrow> rpc_node" where
  "checked_node p snapshot row =
     (let succeeded = is_ok (outcome p);
          newFailures = (if succeeded then 0 else consecutive_failures snapshot + 1);
          newScore = (if succeeded then recovered_score (health_score snapshot)
                      else degraded_score (health_score snapshot) newFailures)
      in row\<lparr>health_score := round2 newScore,
             consecutive_failures := newFailures,
             last_health_check_at := Some (finished p),
             last_healthy_at := (if succeeded then Some (finished p) else last_healthy_at row),
             node_status := (case deriveStatus newScore newFailures of
                 None \<Rightarrow> node_status row | Some st \<Rightarrow> st)\<rparr>)"

definition checkNode :: "probe \<Rightarrow> rpc_node \<Rightarrow> health_db \<Rightarrow> health_db" where
  "checkNode p nd db =
     \<lparr>nodes = update_where (\<lambda>row. node_id row = node_id nd) (checked_node p nd) (nodes db),
      health_records = health_records db @
        (case outcome p of
           Inl _ \<Rightarrow> []
         | Inr block \<Rightarrow>
             [\<lparr>rec_node = node_id nd, rec_type = Latency, rec_value = finished p - started p,
               rec_at = finished p, rec_block = Some block\<rparr>,
              \<lparr>rec_node = node_id nd, rec_type = BlockHeight, rec_value = block,
               rec_at = finished p, rec_block = None\<rparr>])\<rparr>"

definition health_checked :: "rpc_node \<Rightarrow> bool" where
  "health_checked nd \<longleftrightarrow>
     is_active nd \<and> node_status nd \<in> {ActiveNode, StandbyNode, DrainingNode, UnhealthyNode}"

text \<open>The events published to Kafka, one per chain in the order the chains first occur.\<close>

record chain_health =
  ch_chain :: int
  healthyNodes :: nat
  totalNodes :: nat

definition chain_health_events :: "rpc_node list \<Rightarrow> chain_health list" where
  "chain_health_events ns =
     map (\<lambda>c. \<lparr>ch_chain = c,
               healthyNodes = count_where (\<lambda>nd. chain_id nd = c \<and> health_score nd \<ge> 70) ns,
               totalNodes = count_where (\<lambda>nd. chain_id nd = c) ns\<rparr>)
       (rev (remdups (rev (map chain_id ns))))"

definition runHealthChecks :: "(ident \<Rightarrow> probe) \<Rightarrow> health_db \<Rightarrow> health_db \<times> chain_health list" where
  "runHealthChecks probes db =
     (let ns = filter health_checked (nodes db) in
      if ns = [] then (db, [])
      else
        let db' = fold (\<lambda>nd. checkNode (probes (node_id nd)) nd) ns db
        in (db', chain_health_events
              (filter (\<lambda>row. node_id row \<in> set (map node_id ns)) (nodes db'))))"

definition cleanupOldRecords :: "millis \<Rightarrow> health_db \<Rightarrow> health_db" where
  "cleanupOldRecords now db =
     db\<lparr>health_records :=
       filter (\<lambda>m. \<not> rec_at m < now - 7 * 24 * 60 * 60 * 1000) (health_records db)\<rparr>"

section \<open>Summary\<close>

record node_summary =
  ns_node :: ident
  ns_provider :: ident
  ns_provider_name :: string
  ns_chain :: int
  ns_endpoint :: string
  ns_status :: node_status
  ns_score :: rat
  ns_latency :: "int option"
  ns_failures :: int
  ns_last_check :: "millis option"
  ns_last_healthy :: "millis option"

text \<open>The SQL join keeps the latency rows with the node's latest time; the map keeps the last one.\<close>

definition latest_latency :: "health_record list \<Rightarrow> ident \<Rightarrow> int option" where
  "latest_latency ms n =
     (let own = filter (\<lambda>m. rec_node m = n \<and> rec_type m = Latency) ms;
          newest = filter (\<lambda>m. \<forall>m' \<in> set own. rec_at m' \<le> rec_at m) own
      in if newest = [] then None else Some (rec_value (last newest)))"

definition getHealthSummary :: "health_db \<Rightarrow> node_summary list" where
  "getHealthSummary db =
     map (\<lambda>nd. \<lparr>ns_node = node_id nd, ns_provider = provider_id nd,
                ns_provider_name = (case provider nd of None \<Rightarrow> ''unknown'' | Some p \<Rightarrow> provider_name p),
                ns_chain = chain_id nd, ns_endpoint = endpoint_url nd, ns_status = node_status nd,
                ns_score = health_score nd, ns_latency = latest_latency (health_records db) (node_id nd),
                ns_failures = consecutive_failures nd, ns_last_check = last_health_check_at nd,
                ns_last_healthy = last_healthy_at nd\<rparr>)
       (sort_key chain_id (sort_key priority (filter is_active (nodes db))))"

section \<open>Scores\<close>

lemma round2_mono: "x \<le> y \<Longrightarrow> round2 x \<le> round2 y"
  by (simp add: round2_def divide_right_mono floor_mono)

lemma round2_int: "round2 (of_int k) = of_int k"
proof -
  have "\<lfloor>(of_int k :: rat) * 100 + 1 / 2\<rfloor> = k * 100"
    by (rule floor_unique) simp_all
  then show ?thesis by (simp add: round2_def)
qed

lemma round2_bounds: "0 \<le> x \<Longrightarrow> x \<le> 100 \<Longrightarrow> 0 \<le> round2 x \<and> round2 x \<le> 100"
  using round2_mono [of 0 x] round2_mono [of x 100] round2_int [of 0] round2_int [of 100] by simp

lemma round2_error: "x - 1 / 200 \<le> round2 x"
  unfolding round2_def by linarith

lemma recovered_score_bounds: "0 \<le> s \<Longrightarrow> 0 \<le> recovered_score s \<and> recovered_score s \<le> 100"
  by (simp add: recovered_score_def)

lemma degraded_score_bounds:
  "s \<le> 100 \<Longrightarrow> 0 \<le> f \<Longrightarrow> 0 \<le> degraded_score s f \<and> degraded_score s f \<le> 100"
  by (simp add: degraded_score_def)

definition node_ok :: "rpc_node \<Rightarrow> bool" where
  "node_ok nd \<longleftrightarrow> 0 \<le> health_score nd \<and> health_score nd \<le> 100 \<and> 0 \<le> consecutive_failures nd"

lemma node_ok_checked: "node_ok nd \<Longrightarrow> node_ok row \<Longrightarrow> node_ok (checked_node p nd row)"
  using round2_bounds recovered_score_bounds degraded_score_bounds
  by (auto simp: node_ok_def checked_node_def Let_def)

lemma node_ok_checkNode:
  "node_ok nd \<Longrightarrow> (\<forall>r \<in> set (nodes db). node_ok r) \<Longrightarrow> \<forall>r \<in> set (nodes (checkNode p nd db)). node_ok r"
  by (auto simp: checkNode_def set_update_where node_ok_checked)

lemma node_ok_fold_checkNode:
  "\<forall>nd \<in> set ns. node_ok nd \<Longrightarrow> \<forall>r \<in> set (nodes db). node_ok r \<Longrightarrow>
     \<forall>r \<in> set (nodes (fold (\<lambda>nd. checkNode (probes (node_id nd)) nd) ns db)). node_ok r"
proof (induction ns arbitrary: db)
  case Nil
  then show ?case by simp
next
  case (Cons nd ns)
  then have "\<forall>r \<in> set (nodes (checkNode (probes (node_id nd)) nd db)). node_ok r"
    by (intro node_ok_checkNode) auto
  with Cons show ?case by simp
qed

section \<open>A round of checks\<close>

lemma node_id_checked [simp]: "node_id (checked_node p nd row) = node_id row"
  by (simp add: checked_node_def Let_def)

lemma ids_checkNode [simp]: "map node_id (nodes (checkNode p nd db)) = map node_id (nodes db)"
  by (simp add: checkNode_def map_update_where)

lemma find_checkNode:
  "find (\<lambda>r. node_id r = n) (nodes (checkNode p nd db)) =
     map_option (\<lambda>r. if n = node_id nd then checked_node p nd r else r)
       (find (\<lambda>r. node_id r = n) (nodes db))"
  by (cases "find (\<lambda>r. node_id r = n) (nodes db)")
     (auto simp: checkNode_def find_update_where dest: find_SomeD)

lemma find_fold_checkNode:
  assumes "distinct (map node_id ns)"
  shows "find (\<lambda>r. node_id r = n)
      (nodes (fold (\<lambda>nd. checkNode (probes (node_id nd)) nd) ns db)) =
    map_option (\<lambda>r. case find (\<lambda>nd. node_id nd = n) ns of None \<Rightarrow> r | Some nd \<Rightarrow> checked_node (probes n) nd r)
      (find (\<lambda>r. node_id r = n) (nodes db))"
  using assms
proof (induction ns arbitrary: db)
  case Nil
  then show ?case by (simp add: option.map_ident)
next
  case (Cons nd ns)
  have "find (\<lambda>nd. node_id nd = n) ns = None" if "node_id nd = n"
    using Cons.prems that by (intro find_NoneI) auto
  with Cons show ?case
    by (cases "find (\<lambda>r. node_id r = n) (nodes db)") (auto simp: find_checkNode)
qed

lemma find_filter_unique:
  "distinct (map k rows) \<Longrightarrow> find (\<lambda>r. k r = x) rows = Some r \<Longrightarrow>
     find (\<lambda>r. k r = x) (filter P rows) = (if P r then Some r else None)"
proof (induction rows)
  case Nil
  then show ?case by simp
next
  case (Cons a rows)
  show ?case
  proof (cases "k a = x")
    case True
    then have "find (\<lambda>r. k r = x) (filter P rows) = None"
      using Cons.prems(1) by (intro find_NoneI) auto
    with True Cons.prems(2) show ?thesis by auto
  next
    case False
    with Cons show ?thesis by auto
  qed
qed

text \<open>A round checks every eligible node against its own row and no other row.\<close>

lemma find_runHealthChecks:
  assumes d: "distinct (map node_id (nodes db))"
    and f: "find (\<lambda>r. node_id r = n) (nodes db) = Some nd"
  shows "find (\<lambda>r. node_id r = n) (nodes (fst (runHealthChecks probes db))) =
    Some (if health_checked nd then checked_node (probes n) nd nd else nd)"
proof -
  let ?ns = "filter health_checked (nodes db)"
  have "distinct (map node_id ?ns)" using d by (rule distinct_map_filter)
  moreover have "find (\<lambda>r. node_id r = n) ?ns = (if health_checked nd then Some nd else None)"
    using d f by (rule find_filter_unique)
  ultimately have "find (\<lambda>r. node_id r = n)
      (nodes (fold (\<lambda>nd. checkNode (probes (node_id nd)) nd) ?ns db)) =
    Some (if health_checked nd then checked_node (probes n) nd nd else nd)"
    by (simp add: find_fold_checkNode f)
  moreover have "\<not> health_checked nd" if "?ns = []"
    using that f by (auto simp: filter_empty_conv find_Some_iff)
  ultimately show ?thesis
    using f by (auto simp: runHealthChecks_def Let_def)
qed

lemma ids_fold_checkNode [simp]:
  "map node_id (nodes (fold (\<lambda>nd. checkNode (probes (node_id nd)) nd) ns db)) = map node_id (nodes db)"
  by (induction ns arbitrary: db) simp_all

lemma ids_runHealthChecks [simp]:
  "map node_id (nodes (fst (runHealthChecks probes db))) = map node_id (nodes db)"
  by (simp add: runHealthChecks_def Let_def)

lemma health_checked_checked: "health_checked nd \<Longrightarrow> health_checked (checked_node p nd nd)"
  by (auto simp: health_checked_def checked_node_def Let_def deriveStatus_def split: if_splits)

text \<open>A round of health checks, whatever the probes answer, keeps every node's score
  between 0 and 100 and its failure count non-negative, keeps the nodes and their order, and the
  clean-up afterwards removes only measurements older than seven days.\<close>

theorem health_round_keeps_scores_in_range:
  assumes "\<forall>nd \<in> set (nodes db). node_ok nd"
  shows "(\<forall>nd \<in> set (nodes (fst (runHealthChecks probes db))). node_ok nd)
    \<and> map node_id (nodes (fst (runHealthChecks probes db))) = map node_id (nodes db)
    \<and> set (health_records (cleanupOldRecords now db)) =
        {m \<in> set (health_records db). now - 604800000 \<le> rec_at m}"
  using node_ok_fold_checkNode [of "filter health_checked (nodes db)" db probes] assms
  by (auto simp: runHealthChecks_def Let_def cleanupOldRecords_def)

definition sample_node :: "ident \<Rightarrow> node_status \<Rightarrow> rat \<Rightarrow> rpc_node" where
  "sample_node n st score =
     \<lparr>node_id = n, provider_id = 1, chain_id = 1, endpoint_url = ''https://rpc'', priority = 1,
      node_status = st, max_per_second = None, max_per_minute = None, max_per_day = None,
      max_per_month = None, timeout_ms = 5000, health_score = score, consecutive_failures = 0,
      is_active = True, last_health_check_at = None, last_healthy_at = None, provider = None\<rparr>"

theorem health_round_keeps_scores_in_range_witness:
  "list_all node_ok (nodes (fst (runHealthChecks (\<lambda>_. \<lparr>outcome = Inl ''timeout'', started = 0, finished = 5\<rparr>)
     \<lparr>nodes = [sample_node 1 ActiveNode 100], health_records = []\<rparr>)))"
  using health_round_keeps_scores_in_range
    [of "\<lparr>nodes = [sample_node 1 ActiveNode 100], health_records = []\<rparr>"
        "\<lambda>_. \<lparr>outcome = Inl ''timeout'', started = 0, finished = 5\<rparr>" 0]
  by (simp add: node_ok_def sample_node_def list_all_iff)

section \<open>Recovery and degradation\<close>

fun run_rounds :: "(ident \<Rightarrow> probe) list \<Rightarrow> health_db \<Rightarrow> health_db" where
  "run_rounds [] db = db"
| "run_rounds (ps # pss) db = run_rounds pss (fst (runHealthChecks ps db))"

lemma find_run_rounds:
  assumes "distinct (map node_id (nodes db))"
    and "find (\<lambda>r. node_id r = n) (nodes db) = Some nd" and "health_checked nd"
  shows "find (\<lambda>r. node_id r = n) (nodes (run_rounds pss db)) =
    Some (foldl (\<lambda>row ps. checked_node (ps n) row row) nd pss)"
  using assms
  by (induction pss arbitrary: db nd) (auto simp: find_runHealthChecks health_checked_checked)

lemma round2_values: "round2 30 = 30" "round2 51 = 51" "round2 (657 / 10) = 657 / 10"
proof -
  show "round2 30 = 30" "round2 51 = 51" using round2_int [of 30] round2_int [of 51] by simp_all
  have "\<lfloor>(657 / 10 :: rat) * 100 + 1 / 2\<rfloor> = 6570" by (rule floor_unique) simp_all
  then show "round2 (657 / 10) = 657 / 10" by (simp add: round2_def)
qed

lemma checked_success:
  assumes "is_ok (outcome p)"
  shows "health_score (checked_node p nd nd) = round2 (recovered_score (health_score nd))"
    and "70 \<le> recovered_score (health_score nd) \<Longrightarrow> node_status (checked_node p nd nd) = ActiveNode"
  using assms by (auto simp: checked_node_def Let_def deriveStatus_def)

lemma recovered_step:
  assumes "is_ok (outcome p)" and "0 \<le> a" and "a \<le> health_score nd"
    and "a * (7 / 10) + 30 \<le> 100"
  shows "round2 (a * (7 / 10) + 30) \<le> health_score (checked_node p nd nd)"
  unfolding checked_success(1) [OF assms(1)]
  using assms(2-4) by (intro round2_mono) (simp add: recovered_score_def)

lemma four_successes:
  assumes "0 \<le> health_score nd"
    and "is_ok (outcome p1)" "is_ok (outcome p2)" "is_ok (outcome p3)" "is_ok (outcome p4)"
  shows "node_status (foldl (\<lambda>row p. checked_node p row row) nd [p1, p2, p3, p4]) = ActiveNode"
proof -
  define n1 where "n1 = checked_node p1 nd nd"
  define n2 where "n2 = checked_node p2 n1 n1"
  define n3 where "n3 = checked_node p3 n2 n2"
  have "30 \<le> health_score n1"
    using recovered_step [OF assms(2), of 0 nd] assms(1) by (simp add: n1_def round2_values)
  then have "51 \<le> health_score n2"
    using recovered_step [OF assms(3), of 30 n1] by (simp add: n2_def round2_values)
  then have "657 / 10 \<le> health_score n3"
    using recovered_step [OF assms(4), of 51 n2] by (simp add: n3_def round2_values)
  then have "70 \<le> recovered_score (health_score n3)"
    by (simp add: recovered_score_def)
  then show ?thesis
    using checked_success(2) [OF assms(5)] by (simp add: n1_def n2_def n3_def)
qed

lemma three_failures:
  assumes "0 \<le> consecutive_failures nd"
    and "\<not> is_ok (outcome p1)" "\<not> is_ok (outcome p2)" "\<not> is_ok (outcome p3)"
  shows "node_status (foldl (\<lambda>row p. checked_node p row row) nd [p1, p2, p3]) = UnhealthyNode"
  using assms by (simp add: checked_node_def Let_def deriveStatus_def)

text \<open>Whatever a checked node's score and status were, four rounds in which its probe
  succeeds make it active again, and three rounds in which its probe fails make it unhealthy,
  whatever happens to the other nodes in those rounds.\<close>

lemma recovery_and_degradation:
  assumes "distinct (map node_id (nodes db))"
    and "find (\<lambda>r. node_id r = n) (nodes db) = Some nd" and "health_checked nd" and "node_ok nd"
  shows "(is_ok (outcome (q1 n)) \<and> is_ok (outcome (q2 n)) \<and> is_ok (outcome (q3 n)) \<and> is_ok (outcome (q4 n)) \<longrightarrow>
      map_option node_status (find (\<lambda>r. node_id r = n) (nodes (run_rounds [q1, q2, q3, q4] db)))
        = Some ActiveNode)
    \<and> (\<not> is_ok (outcome (q1 n)) \<and> \<not> is_ok (outcome (q2 n)) \<and> \<not> is_ok (outcome (q3 n)) \<longrightarrow>
      map_option node_status (find (\<lambda>r. node_id r = n) (nodes (run_rounds [q1, q2, q3] db)))
        = Some UnhealthyNode)"
  using four_successes [of nd "q1 n" "q2 n" "q3 n" "q4 n"] three_failures [of nd "q1 n" "q2 n" "q3 n"]
    assms(4) find_run_rounds [OF assms(1-3), of "[q1, q2, q3, q4]"]
    find_run_rounds [OF assms(1-3), of "[q1, q2, q3]"]
  by (simp add: node_ok_def)

lemma recovery_and_degradation_witness:
  "map_option node_status (find (\<lambda>r. node_id r = 2) (nodes (run_rounds
      (replicate 4 (\<lambda>_. \<lparr>outcome = Inr 100, started = 0, finished = 5\<rparr>))
      \<lparr>nodes = [sample_node 1 ActiveNode 100, sample_node 2 DrainingNode 0], health_records = []\<rparr>)))
   = Some ActiveNode"
proof -
  let ?p = "\<lambda>_::ident. \<lparr>outcome = Inr 100 :: string + int, started = 0, finished = 5\<rparr>"
  show ?thesis
    using recovery_and_degradation [of "\<lparr>nodes = [sample_node 1 ActiveNode 100,
        sample_node 2 DrainingNode 0], health_records = []\<rparr>" 2 "sample_node 2 DrainingNode 0"
        ?p ?p ?p ?p]
    by (simp add: sample_node_def health_checked_def node_ok_def eval_nat_numeral)
qed

end
