(* ===== verification/RpcRouter.thy ===== *)
theory RpcRouter
  imports CircuitBreaker RpcHealth
begin

text \<open>
  The router of the RPC gateway (services/rpc-gateway-service/src/router/rpc-router.service.ts):
  the choice of a node through the circuit breaker, the rate limiter and the quota, and the call
  with its retries and failover. What the outside supplies to one attempt (the clock, the random
  part of the limiter's member, the date, whether Redis pipelines succeed, and the answer of the
  node with the time it took) is the record \<open>attempt_env\<close>.
\<close>

section \<open>State and environment\<close>

record switch_entry =
  sw_chain :: int
  sw_from :: ident
  sw_to :: ident
  sw_notes :: string

record gateway =
  gw_nodes :: "rpc_node list"
  gw_breaker :: breaker
  gw_limiter :: limiter
  gw_switches :: "switch_entry list"

record attempt_env =
  at_now :: millis
  at_rnd :: "ident \<Rightarrow> string"
  at_date :: string
  at_redis :: bool
  at_send :: "rpc_connection \<Rightarrow> string \<Rightarrow> string list \<Rightarrow> (string + string) \<times> int"
  at_gcm :: "string \<Rightarrow> string \<Rightarrow> string \<Rightarrow> string \<Rightarrow> string option"
  at_key :: "string option"

record rpc_result =
  rpc_value :: string
  rpc_node_id :: string
  rpc_latency :: int

definition MAX_RETRIES :: nat where
  "MAX_RETRIES = 3"

section \<open>Operations\<close>

definition eligible_nodes :: "int \<Rightarrow> ident list \<Rightarrow> rpc_node list \<Rightarrow> rpc_node list" where
  "eligible_nodes chain attempted ns =
     sort_key priority (sort_key (\<lambda>nd. - health_score nd)
       (filter (\<lambda>nd. chain_id nd = chain \<and> is_active nd \<and> node_status nd \<in> {ActiveNode, StandbyNode}
          \<and> node_id nd \<notin> set attempted) ns))"

fun pick_node :: "attempt_env \<Rightarrow> rpc_node list \<Rightarrow> gateway \<Rightarrow> rpc_node option \<times> gateway" where
  "pick_node env [] gw = (None, gw)"
| "pick_node env (nd # ns) gw =
     (case isAllowed (at_now env) (at_redis env) (node_key nd) (gw_breaker gw) of
        (circuitAllowed, b) \<Rightarrow>
          let gw1 = gw\<lparr>gw_breaker := b\<rparr> in
          if \<not> circuitAllowed then pick_node env ns gw1
          else
            (case checkAndRecord (at_now env) (at_rnd env (node_id nd)) (node_key nd) (gw_limiter gw1) of
               (withinLimits, l) \<Rightarrow>
                 let gw2 = gw1\<lparr>gw_limiter := l\<rparr> in
                 if \<not> withinLimits then pick_node env ns gw2
                 else if isQuotaExhausted (at_now env) (at_date env) (node_key nd) (gw_limiter gw2)
                 then pick_node env ns gw2
                 else (Some nd, gw2)))"

definition selectNode :: "attempt_env \<Rightarrow> int \<Rightarrow> gateway \<Rightarrow> rpc_node option \<times> gateway" where
  "selectNode env chain gw = pick_node env (eligible_nodes chain [] (gw_nodes gw)) gw"

definition callNode :: "attempt_env \<Rightarrow> rpc_node \<Rightarrow> string \<Rightarrow> string list \<Rightarrow> string + rpc_result" where
  "callNode env nd meth params =
     (let conn = createAuthProvider (at_gcm env) (at_key env) (endpoint_url nd) (provider nd) in
      case at_send env conn meth params of
        (answer, took) \<Rightarrow>
          if took \<ge> timeout_ms nd then
            Inl (''RPC call timeout after '' @ show_int (timeout_ms nd) @ ''ms'')
          else
            (case answer of
               Inl e \<Rightarrow> Inl e
             | Inr v \<Rightarrow> Inr \<lparr>rpc_value = v, rpc_node_id = node_key nd, rpc_latency = took\<rparr>))"

definition after_success :: "attempt_env \<Rightarrow> rpc_node \<Rightarrow> gateway \<Rightarrow> gateway" where
  "after_success env nd gw =
     gw\<lparr>gw_breaker := recordSuccess (at_now env) (at_redis env) (node_key nd) (gw_breaker gw),
        gw_limiter := recordUsage (at_now env) (at_date env) (node_key nd) (gw_limiter gw)\<rparr>"

text \<open>A failed attempt: the breaker, the counter in the row, and from the second attempt on a
  switch entry from the previously attempted node to this one.\<close>

definition after_failure :: "attempt_env \<Rightarrow> int \<Rightarrow> nat \<Rightarrow> ident list \<Rightarrow> string \<Rightarrow> rpc_node \<Rightarrow> gateway \<Rightarrow> gateway" where
  "after_failure env chain attempt attempted e nd gw =
     gw\<lparr>gw_breaker := recordFailure (at_now env) (at_redis env) (node_key nd) (gw_breaker gw),
        gw_nodes := update_where (\<lambda>row. node_id row = node_id nd)
          (\<lambda>row. row\<lparr>consecutive_failures := consecutive_failures row + 1\<rparr>) (gw_nodes gw),
        gw_switches := gw_switches gw @
          (if attempt > 0 then
             [\<lparr>sw_chain = chain, sw_from = attempted ! (attempt - 1), sw_to = node_id nd,
               sw_notes = ''Failover due to: '' @ e\<rparr>]
           else [])\<rparr>"

definition exhausted :: "int \<Rightarrow> string option \<Rightarrow> error" where
  "exhausted chain lastError =
     BadRequest (''All RPC nodes exhausted for chain '' @ show_int chain @ ''. Last error: '' @
       (case lastError of None \<Rightarrow> ''No nodes available'' | Some e \<Rightarrow> e))"

text \<open>The retry loop: \<open>attempt\<close> counts up from 0 while \<open>remaining\<close> counts down.\<close>

fun rpc_attempts ::
    "(nat \<Rightarrow> attempt_env) \<Rightarrow> int \<Rightarrow> string \<Rightarrow> string list \<Rightarrow> nat \<Rightarrow> nat \<Rightarrow> ident list \<Rightarrow> string option \<Rightarrow>
     gateway \<Rightarrow> (error + rpc_result) \<times> gateway" where
  "rpc_attempts envs chain meth params 0 attempt attempted lastError gw =
     (Inl (exhausted chain lastError), gw)"
| "rpc_attempts envs chain meth params (Suc remaining) attempt attempted lastError gw =
     (case pick_node (envs attempt) (eligible_nodes chain attempted (gw_nodes gw)) gw of
        (None, gw1) \<Rightarrow> (Inl (exhausted chain lastError), gw1)
      | (Some nd, gw1) \<Rightarrow>
          let attempted' = attempted @ [node_id nd] in
          (case callNode (envs attempt) nd meth params of
             Inr res \<Rightarrow> (Inr res, after_success (envs attempt) nd gw1)
           | Inl e \<Rightarrow>
               rpc_attempts envs chain meth params remaining (Suc attempt) attempted' (Some e)
                 (after_failure (envs attempt) chain attempt attempted' e nd gw1)))"

definition executeRpcCall ::
    "(nat \<Rightarrow> attempt_env) \<Rightarrow> int \<Rightarrow> string \<Rightarrow> string list \<Rightarrow> gateway \<Rightarrow> (error + rpc_result) \<times> gateway" where
  "executeRpcCall envs chain meth params gw =
     rpc_attempts envs chain meth params MAX_RETRIES 0 [] None gw"

text \<open>\<open>getBlockNumber\<close>: the block number is \<open>None\<close> where \<open>parseInt\<close> gives \<open>NaN\<close>.\<close>

definition getBlockNumber ::
    "(nat \<Rightarrow> attempt_env) \<Rightarrow> int \<Rightarrow> gateway \<Rightarrow> (error + int option \<times> string \<times> int) \<times> gateway" where
  "getBlockNumber envs chain gw =
     (case executeRpcCall envs chain ''eth_blockNumber'' [] gw of
        (Inl e, gw') \<Rightarrow> (Inl e, gw')
      | (Inr r, gw') \<Rightarrow> (Inr (parse_hex (rpc_value r), rpc_node_id r, rpc_latency r), gw'))"

section \<open>Picking a node\<close>

lemma pick_node_frame:
  "gw_nodes (snd (pick_node env ns gw)) = gw_nodes gw
   \<and> gw_switches (snd (pick_node env ns gw)) = gw_switches gw"
  by (induction ns arbitrary: gw) (auto simp: Let_def split: prod.splits)

lemma pick_node_member: "fst (pick_node env ns gw) = Some nd \<Longrightarrow> nd \<in> set ns"
  by (induction ns arbitrary: gw) (auto simp: Let_def split: prod.splits if_splits)

lemma eligible_nodes_iff:
  "nd \<in> set (eligible_nodes chain attempted ns) \<longleftrightarrow>
     nd \<in> set ns \<and> chain_id nd = chain \<and> is_active nd \<and> node_status nd \<in> {ActiveNode, StandbyNode}
     \<and> node_id nd \<notin> set attempted"
  by (auto simp: eligible_nodes_def)

definition count_failure :: "ident set \<Rightarrow> rpc_node \<Rightarrow> rpc_node" where
  "count_failure F row =
     (if node_id row \<in> F then row\<lparr>consecutive_failures := consecutive_failures row + 1\<rparr> else row)"

lemma count_failure_insert:
  "n \<notin> F \<Longrightarrow> update_where (\<lambda>row. node_id row = n)
      (\<lambda>row. row\<lparr>consecutive_failures := consecutive_failures row + 1\<rparr>) (map (count_failure F) rows) =
    map (count_failure (insert n F)) rows"
  by (auto simp: update_where_def count_failure_def)

definition routable :: "int \<Rightarrow> rpc_node \<Rightarrow> bool" where
  "routable chain nd \<longleftrightarrow>
     chain_id nd = chain \<and> is_active nd \<and> node_status nd \<in> {ActiveNode, StandbyNode}"

lemma count_failure_fields [simp]:
  "node_id (count_failure F row) = node_id row" "chain_id (count_failure F row) = chain_id row"
  "is_active (count_failure F row) = is_active row" "node_status (count_failure F row) = node_status row"
  by (simp_all add: count_failure_def)

text \<open>The switches that failing calls leave in the log: one for every failure after the first,
  from the node called before to the one that failed, with the error it gave.\<close>

definition failovers :: "int \<Rightarrow> rpc_node list \<Rightarrow> string list \<Rightarrow> switch_entry list" where
  "failovers chain called errs =
     map (\<lambda>i. \<lparr>sw_chain = chain, sw_from = node_id (called ! (i - 1)), sw_to = node_id (called ! i),
               sw_notes = ''Failover due to: '' @ errs ! i\<rparr>) [1..<length errs]"

lemma failovers_snoc:
  assumes "length called = length errs"
  shows "failovers chain (called @ [nd]) (errs @ [e]) = failovers chain called errs @
    (if errs = [] then [] else
       [\<lparr>sw_chain = chain, sw_from = node_id (last called), sw_to = node_id nd,
         sw_notes = ''Failover due to: '' @ e\<rparr>])"
proof (cases "errs = []")
  case False
  then have "Suc 0 \<le> length errs" "called \<noteq> []" using assms by (auto simp: Suc_le_eq)
  then show ?thesis
    using assms by (auto simp: failovers_def nth_append last_conv_nth)
qed (simp add: failovers_def)

lemma failovers_unread:
  "length errs \<le> length called \<Longrightarrow> failovers chain (called @ more_nodes) errs = failovers chain called errs"
  by (auto simp: failovers_def nth_append)

text \<open>What one run of the retry loop has done: the nodes called, in their order, and the errors of the
  calls that failed.\<close>

definition accounted ::
    "(nat \<Rightarrow> attempt_env) \<Rightarrow> int \<Rightarrow> string \<Rightarrow> string list \<Rightarrow> gateway \<Rightarrow> rpc_node list \<Rightarrow> string list \<Rightarrow> gateway \<Rightarrow> bool" where
  "accounted envs chain meth params gw called errs gw' \<longleftrightarrow>
     distinct (map node_id called)
     \<and> (\<forall>nd \<in> set called. nd \<in> set (gw_nodes gw) \<and> routable chain nd)
     \<and> length errs \<le> length called
     \<and> (\<forall>i < length errs. callNode (envs i) (called ! i) meth params = Inl (errs ! i))
     \<and> gw_nodes gw' = map (count_failure (node_id ` set (take (length errs) called))) (gw_nodes gw)
     \<and> gw_switches gw' = gw_switches gw @ failovers chain called errs"

lemma accounted_frame:
  "accounted envs chain meth params gw called errs gw1 \<Longrightarrow> gw_nodes gw2 = gw_nodes gw1 \<Longrightarrow>
   gw_switches gw2 = gw_switches gw1 \<Longrightarrow> accounted envs chain meth params gw called errs gw2"
  by (simp add: accounted_def)

lemma accounted_failure:
  assumes a: "accounted envs chain meth params gw called errs gw1" and l: "length called = length errs"
    and nd: "nd \<in> set (gw_nodes gw)" "routable chain nd" "node_id nd \<notin> node_id ` set called"
    and c: "callNode (envs (length called)) nd meth params = Inl e"
  shows "accounted envs chain meth params gw (called @ [nd]) (errs @ [e])
    (after_failure env chain (length called) (map node_id (called @ [nd])) e nd gw1)"
proof -
  have "gw_switches (after_failure env chain (length called) (map node_id (called @ [nd])) e nd gw1) =
      gw_switches gw @ failovers chain (called @ [nd]) (errs @ [e])"
  proof (cases "called = []")
    case False
    then have "map node_id (called @ [nd]) ! (length called - 1) = node_id (last called)"
      by (simp add: nth_append last_conv_nth)
    then show ?thesis
      using a l False unfolding failovers_snoc [OF l] by (auto simp: accounted_def after_failure_def)
  qed (use a l in \<open>simp add: failovers_def accounted_def after_failure_def\<close>)
  moreover have "gw_nodes (after_failure env chain (length called) (map node_id (called @ [nd])) e nd gw1) =
      map (count_failure (node_id ` set (called @ [nd]))) (gw_nodes gw)"
    using a l nd(3) by (simp add: accounted_def after_failure_def count_failure_insert)
  ultimately show ?thesis
    using a l nd c unfolding accounted_def by (auto simp: nth_append less_Suc_eq)
qed

lemma picked_is_a_fresh_row:
  assumes "accounted envs chain meth params gw called errs gw1" and "length called = length errs"
    and "fst (pick_node env (eligible_nodes chain (map node_id called) (gw_nodes gw1)) gw1) = Some nd"
  shows "nd \<in> set (gw_nodes gw)" "routable chain nd" "node_id nd \<notin> node_id ` set called"
proof -
  have "nd \<in> set (eligible_nodes chain (map node_id called) (gw_nodes gw1))"
    using pick_node_member assms(3) by blast
  then have e: "nd \<in> count_failure (node_id ` set called) ` set (gw_nodes gw)" "routable chain nd"
      "node_id nd \<notin> node_id ` set called"
    using assms(1,2) by (auto simp: eligible_nodes_iff accounted_def routable_def)
  then show "nd \<in> set (gw_nodes gw)" by (auto simp: count_failure_def split: if_splits)
  show "routable chain nd" "node_id nd \<notin> node_id ` set called" using e by auto
qed

lemma rpc_attempts_spec:
  assumes "rpc_attempts envs chain meth params k (length called) (map node_id called)
      (if errs = [] then None else Some (last errs)) gw1 = (res, gw')"
    and "accounted envs chain meth params gw called errs gw1" and "length called = length errs"
  shows "\<exists>called' errs'. accounted envs chain meth params gw called' errs' gw'
    \<and> length called' \<le> length called + k
    \<and> (case res of
         Inl e \<Rightarrow> length called' = length errs'
           \<and> e = exhausted chain (if errs' = [] then None else Some (last errs'))
           \<and> (length called' = length called + k \<or>
              (\<exists>gw2. pick_node (envs (length called')) (eligible_nodes chain (map node_id called') (gw_nodes gw2)) gw2 =
                      (None, gw')))
       | Inr r \<Rightarrow> length called' = Suc (length errs')
           \<and> callNode (envs (length errs')) (last called') meth params = Inr r)"
  using assms
proof (induction k arbitrary: called errs gw1)
  case 0
  then show ?case by (intro exI [of _ called] exI [of _ errs]) auto
next
  case (Suc k)
  let ?env = "envs (length called)"
  let ?ns = "eligible_nodes chain (map node_id called) (gw_nodes gw1)"
  obtain picked gw2 where p: "pick_node ?env ?ns gw1 = (picked, gw2)" by fastforce
  have fr: "gw_nodes gw2 = gw_nodes gw1" "gw_switches gw2 = gw_switches gw1"
    using pick_node_frame [of ?env ?ns gw1] p by auto
  have acc: "accounted envs chain meth params gw called errs gw2"
    using accounted_frame [OF Suc.prems(2) fr] .
  show ?case
  proof (cases picked)
    case None
    then have "res = Inl (exhausted chain (if errs = [] then None else Some (last errs)))" "gw' = gw2"
      using Suc.prems(1) p by auto
    then show ?thesis
      using acc Suc.prems(3) p None by (intro exI [of _ called] exI [of _ errs]) auto
  next
    case (Some nd)
    note row = picked_is_a_fresh_row [OF Suc.prems(2,3), of ?env nd, unfolded p Some fst_conv, OF refl]
    show ?thesis
    proof (cases "callNode ?env nd meth params")
      case (Inr r)
      then have out: "res = Inr r" "gw' = after_success ?env nd gw2"
        using Suc.prems(1) p Some by auto
      have "accounted envs chain meth params gw (called @ [nd]) errs gw'"
        using acc row Suc.prems(3) failovers_unread [of errs called chain "[nd]"]
        by (auto simp: accounted_def out(2) after_success_def nth_append)
      then show ?thesis
        using Inr out(1) Suc.prems(3) by (intro exI [of _ "called @ [nd]"] exI [of _ errs]) auto
    next
      case (Inl e)
      let ?c = "called @ [nd]" and ?e = "errs @ [e]"
      let ?gw3 = "after_failure ?env chain (length called) (map node_id ?c) e nd gw2"
      have run: "rpc_attempts envs chain meth params k (length ?c) (map node_id ?c)
          (if ?e = [] then None else Some (last ?e)) ?gw3 = (res, gw')"
        using Suc.prems(1) p Some Inl by (simp add: Let_def)
      have acc3: "accounted envs chain meth params gw ?c ?e ?gw3"
        using accounted_failure [OF acc Suc.prems(3) row Inl] .
      have same: "length ?c = length ?e" and len: "length called + Suc k = length ?c + k"
        using Suc.prems(3) by simp_all
      show ?thesis
        unfolding len by (rule Suc.IH [OF run acc3 same])
    qed
  qed
qed

text \<open>Claim C37. A call tries at most three different nodes, each an active or standby node of the
  chain. There are the list of the nodes called, in their order, and the list of the errors of the
  calls that failed. The rows of the nodes whose call failed, and no others, have their failure counter
  raised by exactly one. For every failure after the first one switch is logged, from the node called
  before to the one that failed, with its error. On success the answer is the one of the node called
  last, and every node called before it failed. Otherwise every node called failed, the error quotes
  the last failure, and either three nodes were called or no node left was let through by the breaker,
  the rate limiter and the quota.\<close>

theorem failover_is_bounded_and_accounted:
  "\<exists>called errs.
    length called \<le> 3 \<and> distinct (map node_id called)
    \<and> (\<forall>nd \<in> set called. nd \<in> set (gw_nodes gw) \<and> routable chain nd)
    \<and> (\<forall>i < length errs. callNode (envs i) (called ! i) meth params = Inl (errs ! i))
    \<and> gw_nodes (snd (executeRpcCall envs chain meth params gw)) =
        map (\<lambda>row. if node_id row \<in> node_id ` set (take (length errs) called)
                   then row\<lparr>consecutive_failures := consecutive_failures row + 1\<rparr> else row) (gw_nodes gw)
    \<and> gw_switches (snd (executeRpcCall envs chain meth params gw)) =
        gw_switches gw @ failovers chain called errs
    \<and> (case fst (executeRpcCall envs chain meth params gw) of
         Inl e \<Rightarrow> length called = length errs
           \<and> e = exhausted chain (if errs = [] then None else Some (last errs))
           \<and> (length called = 3 \<or>
              (\<exists>gw2. pick_node (envs (length called)) (eligible_nodes chain (map node_id called) (gw_nodes gw2)) gw2 =
                      (None, snd (executeRpcCall envs chain meth params gw))))
       | Inr r \<Rightarrow> length called = Suc (length errs)
           \<and> callNode (envs (length errs)) (last called) meth params = Inr r)"
proof -
  obtain res gw' where e: "executeRpcCall envs chain meth params gw = (res, gw')" by fastforce
  then have run: "rpc_attempts envs chain meth params 3 (length ([] :: rpc_node list)) (map node_id [])
      (if [] = ([] :: string list) then None else Some (last [])) gw = (res, gw')"
    by (simp add: executeRpcCall_def MAX_RETRIES_def)
  have start: "accounted envs chain meth params gw [] [] gw"
    by (simp add: accounted_def count_failure_def failovers_def map_idI)
  have "\<exists>called errs. accounted envs chain meth params gw called errs gw' \<and> length called \<le> 3
    \<and> (case res of
         Inl e \<Rightarrow> length called = length errs
           \<and> e = exhausted chain (if errs = [] then None else Some (last errs))
           \<and> (length called = 3 \<or>
              (\<exists>gw2. pick_node (envs (length called)) (eligible_nodes chain (map node_id called) (gw_nodes gw2)) gw2 =
                      (None, gw')))
       | Inr r \<Rightarrow> length called = Suc (length errs)
           \<and> callNode (envs (length errs)) (last called) meth params = Inr r)"
    using rpc_attempts_spec [OF run start] unfolding list.size add_0_left by blast
  then show ?thesis
    unfolding e fst_conv snd_conv accounted_def count_failure_def by blast
qed

definition sample_env :: "millis \<Rightarrow> string + string \<Rightarrow> attempt_env" where
  "sample_env now answer =
     \<lparr>at_now = now, at_rnd = (\<lambda>_. ''x''), at_date = ''2026-01-31T'', at_redis = True,
      at_send = (\<lambda>_ _ _. (answer, 5)), at_gcm = (\<lambda>_ _ _ _. None), at_key = None\<rparr>"

definition sample_gateway :: "(string \<rightharpoonup> cached_circuit) \<Rightarrow> gateway" where
  "sample_gateway circuits =
     \<lparr>gw_nodes = [sample_node 1 ActiveNode 100],
      gw_breaker = \<lparr>redis = Map.empty, localCache = circuits\<rparr>,
      gw_limiter = \<lparr>windows = Map.empty, quotas = Map.empty, nodeLimits = Map.empty\<rparr>,
      gw_switches = []\<rparr>"

lemma errors_at_most_calls:
  "(case res of Inl e \<Rightarrow> length called = length errs \<and> P e | Inr r \<Rightarrow> length called = Suc (length errs) \<and> Q r) \<Longrightarrow>
   length errs \<le> length called"
  by (cases res) simp_all

theorem failover_is_bounded_and_accounted_witness:
  "\<exists>called errs. length called \<le> 3 \<and> distinct (map node_id called)
    \<and> gw_switches (snd (executeRpcCall (\<lambda>_. sample_env 2000 (Inl ''refused'')) 1 ''eth_chainId'' []
        (sample_gateway Map.empty))) = failovers 1 called errs"
proof -
  have "gw_switches (sample_gateway Map.empty) = []"
    by (simp add: sample_gateway_def)
  then show ?thesis
    using failover_is_bounded_and_accounted [of "sample_gateway Map.empty" 1
      "\<lambda>_. sample_env 2000 (Inl ''refused'')" "''eth_chainId''" "[]"]
    by (metis append_Nil)
qed

section \<open>Open circuits\<close>

lemma pick_node_all_open:
  "\<forall>nd \<in> set ns. status (local_circuit (node_key nd) (gw_breaker gw)) = Open
      \<and> at_now env < openedAt (local_circuit (node_key nd) (gw_breaker gw)) + 30000 \<Longrightarrow>
   pick_node env ns gw = (None, gw)"
  by (induction ns) (simp_all add: open_refuses)

text \<open>While the circuits of all the chain's routable nodes are open and have been for less
  than 30 seconds, a call fails with the exhaustion error and touches nothing: no node is called, no
  rate-limit slot is taken and no row changes.\<close>

theorem open_circuits_shed_all_load:
  assumes "\<forall>nd \<in> set (gw_nodes gw). routable chain nd \<longrightarrow>
      status (local_circuit (node_key nd) (gw_breaker gw)) = Open
      \<and> at_now (envs 0) < openedAt (local_circuit (node_key nd) (gw_breaker gw)) + 30000"
  shows "executeRpcCall envs chain meth params gw = (Inl (exhausted chain None), gw)"
proof -
  have "pick_node (envs 0) (eligible_nodes chain [] (gw_nodes gw)) gw = (None, gw)"
    using assms by (intro pick_node_all_open) (auto simp: eligible_nodes_iff routable_def)
  then show ?thesis by (simp add: executeRpcCall_def MAX_RETRIES_def eval_nat_numeral)
qed

theorem open_circuits_shed_all_load_witness:
  "fst (executeRpcCall (\<lambda>_. sample_env 2000 (Inr ''0x10'')) 1 ''eth_chainId'' []
     (sample_gateway [''1'' \<mapsto>
        \<lparr>circuit = \<lparr>status = Open, failures = 5, openedAt = 1000\<rparr>, cachedAt = 1000\<rparr>]))
   = Inl (exhausted 1 None)"
proof -
  have k: "node_key (sample_node 1 ActiveNode 100) = ''1''"
    by (simp add: node_key_def sample_node_def show_int_def show_nat.simps [of "Suc 0"] digit_char_def
        char_of_def bit_0)
  show ?thesis
    by (subst open_circuits_shed_all_load)
       (simp_all add: k local_circuit_def sample_gateway_def sample_env_def)
qed

end
