(* ===== verification/Compliance.thy ===== *)
theory Compliance
  imports Prelude
begin

text \<open>
  Sanctions screening (services/core-wallet-service/src/compliance/compliance.service.ts): the
  lsts of each KYT level, the screening of one address, the N-hop trace over the indexed
  transfers, the screening of deposits and withdrawals, and the alerts. SQL comparisons of
  addresses follow the column's case-insensitive collation (\<open>sql_eq\<close>); the comparisons the
  service makes itself on JavaScript strings are exact. The clock and the failures of the two
  queries of a hop are the record \<open>trace_env\<close>. Product-analytics calls are left out: they are
  wrapped so that they cannot affect the result.
\<close>

section \<open>State\<close>

datatype direction = Inbound | Outbound
datatype trigger = OnDeposit | OnWithdrawal | OnManual
datatype screen_result = Clear | Hit | PossibleMatch
datatype screen_action = Allowed | Blocked | Review

record client_row =
  cl_id :: ident
  kytLevel :: string

record project_row =
  pj_id :: ident
  pj_client :: ident
  pj_active :: bool
  pj_default :: bool
  custody_mode :: string

record sanctions_entry =
  listSource :: string
  entry_address :: string
  entityName :: "string option"
  entityId :: "string option"
  entry_active :: bool

record match_detail =
  md_list :: string
  md_name :: "string option"
  md_entity :: "string option"
  md_address :: string

record screening_row =
  sr_client :: ident
  sr_project :: ident
  sr_address :: string
  sr_direction :: direction
  sr_trigger :: trigger
  sr_txHash :: "string option"
  sr_lists :: "string list"
  sr_result :: screen_result
  sr_details :: "match_detail list option"
  sr_action :: screen_action

datatype alert_status = AlertOpen | AlertAcknowledged | AlertResolved | AlertFalsePositive

record alert_row =
  al_id :: ident
  al_client :: ident
  severity :: string
  alertType :: string
  al_address :: string
  matchedEntity :: "string option"
  matchedList :: "string option"
  al_amount :: "string option"
  al_token :: "string option"
  al_status :: alert_status
  resolvedAt :: "millis option"
  resolvedBy :: "string option"
  al_created :: millis

record transfer =
  from_address :: "string option"
  to_address :: "string option"

record compliance_db =
  clients :: "client_row list"
  projects :: "project_row list"
  sanctions :: "sanctions_entry list"
  transfers :: "transfer list"
  screenings :: "screening_row list"
  alerts :: "alert_row list"
  next_alert :: ident

record screening_output =
  so_result :: screen_result
  so_action :: screen_action
  so_lists :: "string list"
  so_details :: "match_detail list option"

section \<open>Screening one address\<close>

definition KYT_LEVEL_LISTS :: "string \<Rightarrow> string list option" where
  "KYT_LEVEL_LISTS level =
     (if level = ''off'' then Some []
      else if level = ''basic'' then Some [''OFAC_SDN'']
      else if level = ''enhanced'' then Some [''OFAC_SDN'', ''OFAC_CONSOLIDATED'', ''EU'', ''UN'']
      else if level = ''full'' then
        Some [''OFAC_SDN'', ''OFAC_CONSOLIDATED'', ''EU'', ''UN'', ''UK_OFSI'']
      else None)"

definition lists_of_client :: "client_row \<Rightarrow> string list" where
  "lists_of_client c =
     (case KYT_LEVEL_LISTS (if kytLevel c = [] then ''off'' else kytLevel c) of
        None \<Rightarrow> [] | Some ls \<Rightarrow> ls)"

definition find_client :: "ident \<Rightarrow> compliance_db \<Rightarrow> client_row option" where
  "find_client n db = find (\<lambda>c. cl_id c = n) (clients db)"

definition sanctioned_by :: "string list \<Rightarrow> string list \<Rightarrow> sanctions_entry \<Rightarrow> bool" where
  "sanctioned_by addrs lsts e \<longleftrightarrow>
     (\<exists>a \<in> set addrs. sql_eq (entry_address e) a) \<and> (\<exists>l \<in> set lsts. sql_eq (listSource e) l)
     \<and> entry_active e"

definition match_detail_of :: "sanctions_entry \<Rightarrow> match_detail" where
  "match_detail_of e =
     \<lparr>md_list = listSource e, md_name = entityName e, md_entity = entityId e, md_address = entry_address e\<rparr>"

text \<open>The project a screening row is filed under: the client's active default project, else its
  first active one, else 0 (also when the query fails).\<close>

definition screening_project :: "bool \<Rightarrow> ident \<Rightarrow> compliance_db \<Rightarrow> ident" where
  "screening_project query_ok n db =
     (if \<not> query_ok then 0
      else case sort_key (\<lambda>p. if pj_default p then 0 else 1 :: int)
                  (sort_key pj_id (filter (\<lambda>p. pj_client p = n \<and> pj_active p) (projects db))) of
             [] \<Rightarrow> 0 | p # _ \<Rightarrow> pj_id p)"

definition saveScreeningResult ::
    "bool \<Rightarrow> ident \<Rightarrow> string \<Rightarrow> direction \<Rightarrow> trigger \<Rightarrow> string option \<Rightarrow> string list \<Rightarrow> screen_result \<Rightarrow>
     match_detail list option \<Rightarrow> screen_action \<Rightarrow> compliance_db \<Rightarrow> compliance_db" where
  "saveScreeningResult query_ok n addr dir trig tx lsts res details act db =
     db\<lparr>screenings := screenings db @
       [\<lparr>sr_client = n, sr_project = screening_project query_ok n db, sr_address = addr,
         sr_direction = dir, sr_trigger = trig, sr_txHash = tx, sr_lists = lsts, sr_result = res,
         sr_details = details, sr_action = act\<rparr>]\<rparr>"

definition createAlert ::
    "millis \<Rightarrow> ident \<Rightarrow> string \<Rightarrow> string \<Rightarrow> string \<Rightarrow> string option \<Rightarrow> string option \<Rightarrow> string option \<Rightarrow>
     string option \<Rightarrow> compliance_db \<Rightarrow> alert_row \<times> compliance_db" where
  "createAlert now n sev typ addr entity lst amt tok db =
     (let a = \<lparr>al_id = next_alert db, al_client = n, severity = sev, alertType = typ, al_address = addr,
               matchedEntity = or_null entity, matchedList = or_null lst, al_amount = or_null amt,
               al_token = or_null tok,
               al_status = AlertOpen, resolvedAt = None, resolvedBy = None, al_created = now\<rparr>
      in (a, db\<lparr>alerts := alerts db @ [a], next_alert := next_alert db + 1\<rparr>))"

fun direction_text :: "direction \<Rightarrow> string" where
  "direction_text Inbound = ''inbound''"
| "direction_text Outbound = ''outbound''"

fun trigger_text :: "trigger \<Rightarrow> string" where
  "trigger_text OnDeposit = ''deposit''"
| "trigger_text OnWithdrawal = ''withdrawal''"
| "trigger_text OnManual = ''manual''"

definition screenAddress ::
    "millis \<Rightarrow> bool \<Rightarrow> string \<Rightarrow> direction \<Rightarrow> trigger \<Rightarrow> ident \<Rightarrow> string option \<Rightarrow> compliance_db \<Rightarrow>
     (error + screening_output) \<times> compliance_db" where
  "screenAddress now query_ok addr dir trig n tx db =
     (case find_client n db of
        None \<Rightarrow> (Inl (NotFound ''client''), db)
      | Some c \<Rightarrow>
          let lsts = lists_of_client c in
          if lsts = [] then
            (Inr \<lparr>so_result = Clear, so_action = Allowed, so_lists = [], so_details = None\<rparr>,
             saveScreeningResult query_ok n addr dir trig tx [] Clear None Allowed db)
          else
            let norm = lower addr;
                details = map match_detail_of (filter (sanctioned_by [norm] lsts) (sanctions db));
                res = (if details = [] then Clear else Hit);
                act = (if details = [] then Allowed else Blocked);
                db1 = (case details of
                         [] \<Rightarrow> db
                       | d # _ \<Rightarrow> snd (createAlert now n ''critical''
                           (''sanctions_'' @ trigger_text trig @ ''_'' @ direction_text dir) addr
                           (md_name d) (Some (md_list d)) None None db));
                opt = (if details = [] then None else Some details)
            in (Inr \<lparr>so_result = res, so_action = act, so_lists = lsts, so_details = opt\<rparr>,
                saveScreeningResult query_ok n norm dir trig tx lsts res opt act db1))"

section \<open>Tracing counterparties\<close>

record hop_result =
  hop :: nat
  hop_address :: string
  screeningResult :: screen_result
  hop_details :: "match_detail list option"

record trace_result =
  sourceAddress :: string
  totalHops :: nat
  hopsCompleted :: nat
  counterpartiesScanned :: nat
  flaggedAddresses :: "hop_result list"
  allResults :: "hop_result list"

record trace_env =
  trace_start :: millis
  hop_time :: "nat \<Rightarrow> millis"
  screen_time :: "nat \<Rightarrow> millis"
  events_ok :: "nat \<Rightarrow> bool"
  sanctions_ok :: "nat \<Rightarrow> bool"

definition MAX_ADDRESSES_PER_HOP :: nat where
  "MAX_ADDRESSES_PER_HOP = 1000"

definition TRACE_TIMEOUT_MS :: int where
  "TRACE_TIMEOUT_MS = 30000"

text \<open>The first query of a hop: distinct transfers that touch one of the addresses, at most 2000.\<close>

definition in_list :: "string list \<Rightarrow> string option \<Rightarrow> bool" where
  "in_list addrs x = (case x of None \<Rightarrow> False | Some y \<Rightarrow> \<exists>a \<in> set addrs. sql_eq y a)"

definition touches :: "string list \<Rightarrow> transfer \<Rightarrow> bool" where
  "touches addrs ev \<longleftrightarrow> in_list addrs (from_address ev) \<or> in_list addrs (to_address ev)"

text \<open>\<open>SELECT DISTINCT\<close> merges the rows that are equal in the columns' collation.\<close>

fun same_text :: "string option \<Rightarrow> string option \<Rightarrow> bool" where
  "same_text None b = (b = None)"
| "same_text (Some x) b = (case b of None \<Rightarrow> False | Some y \<Rightarrow> sql_eq x y)"

fun sql_distinct :: "transfer list \<Rightarrow> transfer list" where
  "sql_distinct [] = []"
| "sql_distinct (ev # evs) = ev # filter (\<lambda>e. \<not> (same_text (from_address ev) (from_address e)
      \<and> same_text (to_address ev) (to_address e))) (sql_distinct evs)"

definition hop_events :: "string list \<Rightarrow> compliance_db \<Rightarrow> transfer list" where
  "hop_events addrs db =
     take (MAX_ADDRESSES_PER_HOP * 2) (sql_distinct (filter (touches addrs) (transfers db)))"

definition add_counterparty :: "string list \<Rightarrow> string list \<Rightarrow> string option \<Rightarrow> string list \<Rightarrow> string list" where
  "add_counterparty current scanned a cps =
     (case a of
        None \<Rightarrow> cps
      | Some x \<Rightarrow>
          if x \<noteq> [] \<and> x \<notin> set current \<and> x \<notin> set scanned \<and> x \<notin> set cps then cps @ [x] else cps)"

fun discover :: "nat \<Rightarrow> string list \<Rightarrow> string list \<Rightarrow> transfer list \<Rightarrow> string list \<Rightarrow> string list" where
  "discover cap current scanned [] cps = cps"
| "discover cap current scanned (ev # evs) cps =
     (if length cps \<ge> cap then cps
      else let cps1 = add_counterparty current scanned (from_address ev) cps in
           if length cps1 \<ge> cap then cps1
           else discover cap current scanned evs
                  (add_counterparty current scanned (to_address ev) cps1))"

text \<open>The second query: the entries matching any counterparty, grouped by their stored text.\<close>

definition hop_screen :: "nat \<Rightarrow> string list \<Rightarrow> string list \<Rightarrow> compliance_db \<Rightarrow> string \<Rightarrow> hop_result" where
  "hop_screen h lsts cps db cp =
     (let ms = filter (\<lambda>e. entry_address e = cp) (filter (sanctioned_by cps lsts) (sanctions db))
      in \<lparr>hop = h, hop_address = cp,
          screeningResult = (if ms = [] then Clear else Hit),
          hop_details = (if ms = [] then None else Some (map match_detail_of ms))\<rparr>)"

definition hop_results :: "trace_env \<Rightarrow> nat \<Rightarrow> string list \<Rightarrow> string list \<Rightarrow> compliance_db \<Rightarrow> hop_result list" where
  "hop_results env h lsts cps db =
     (if sanctions_ok env h then map (hop_screen h lsts cps db) cps
      else map (\<lambda>cp. \<lparr>hop = h, hop_address = cp, screeningResult = Clear, hop_details = None\<rparr>) cps)"

record trace_state =
  ts_current :: "string list"
  ts_scanned :: "string list"
  ts_completed :: nat
  ts_results :: "hop_result list"

definition hop_counterparties :: "trace_env \<Rightarrow> nat \<Rightarrow> compliance_db \<Rightarrow> trace_state \<Rightarrow> string list" where
  "hop_counterparties env h db ts =
     (if events_ok env h then
        discover MAX_ADDRESSES_PER_HOP (ts_current ts) (ts_scanned ts) (hop_events (ts_current ts) db) []
      else [])"

text \<open>The loop over the hops, from hop \<open>h\<close> with \<open>k\<close> hops left. The flagged addresses are the results
  that are hits, in the same order.\<close>

fun trace_loop :: "trace_env \<Rightarrow> millis \<Rightarrow> string list \<Rightarrow> compliance_db \<Rightarrow> nat \<Rightarrow> nat \<Rightarrow> trace_state \<Rightarrow> trace_state" where
  "trace_loop env deadline lsts db h 0 ts = ts"
| "trace_loop env deadline lsts db h (Suc k) ts =
     (if ts_current ts = [] \<or> hop_time env h \<ge> deadline then ts
      else
        let cps = hop_counterparties env h db ts in
        if cps = [] then ts\<lparr>ts_completed := h\<rparr>
        else if screen_time env h \<ge> deadline then ts
        else trace_loop env deadline lsts db (Suc h) k
               \<lparr>ts_current = cps, ts_scanned = ts_scanned ts @ cps, ts_completed = h,
                ts_results = ts_results ts @ hop_results env h lsts cps db\<rparr>)"

definition traceAddressHops ::
    "trace_env \<Rightarrow> string \<Rightarrow> int \<Rightarrow> string list \<Rightarrow> int \<Rightarrow> compliance_db \<Rightarrow> trace_result" where
  "traceAddressHops env addr maxHops lsts timeoutMs db =
     (let hops = nat (min (max maxHops 1) 3);
          norm = lower addr;
          ts = trace_loop env (trace_start env + timeoutMs) lsts db 1 hops
                 \<lparr>ts_current = [norm], ts_scanned = [norm], ts_completed = 0, ts_results = []\<rparr>
      in \<lparr>sourceAddress = norm, totalHops = hops, hopsCompleted = ts_completed ts,
          counterpartiesScanned = length (ts_scanned ts) - 1,
          flaggedAddresses = filter (\<lambda>r. screeningResult r = Hit) (ts_results ts),
          allResults = ts_results ts\<rparr>)"

section \<open>Deposits and withdrawals\<close>

definition first_match :: "hop_result list \<Rightarrow> match_detail option" where
  "first_match rs =
     (case rs of [] \<Rightarrow> None
      | r # _ \<Rightarrow> (case hop_details r of Some (d # _) \<Rightarrow> Some d | _ \<Rightarrow> None))"

definition screen_with_trace ::
    "trace_env \<Rightarrow> millis \<Rightarrow> bool \<Rightarrow> string \<Rightarrow> direction \<Rightarrow> trigger \<Rightarrow> string \<Rightarrow> ident \<Rightarrow> string option \<Rightarrow>
     compliance_db \<Rightarrow> (error + screening_output) \<times> compliance_db" where
  "screen_with_trace env now query_ok addr dir trig typ n tx db =
     (case screenAddress now query_ok addr dir trig n tx db of
        (Inl e, db1) \<Rightarrow> (Inl e, db1)
      | (Inr base, db1) \<Rightarrow>
          if map_option kytLevel (find_client n db1) = Some ''full'' \<and> so_result base = Clear then
            let flagged = flaggedAddresses (traceAddressHops env addr 3
                  (the (KYT_LEVEL_LISTS ''full'')) TRACE_TIMEOUT_MS db1) in
            if flagged \<noteq> [] then
              (Inr (base\<lparr>so_result := PossibleMatch, so_action := Review\<rparr>),
               snd (createAlert now n ''medium'' typ addr
                 (case first_match flagged of None \<Rightarrow> None | Some d \<Rightarrow> md_name d)
                 (map_option md_list (first_match flagged)) None None db1))
            else (Inr base, db1)
          else (Inr base, db1))"

definition screenDeposit where
  "screenDeposit env now query_ok n fromAddress tx db =
     screen_with_trace env now query_ok fromAddress Inbound OnDeposit ''nhop_trace_deposit'' n (Some tx) db"

definition screenWithdrawal where
  "screenWithdrawal env now query_ok n toAddress tx db =
     screen_with_trace env now query_ok toAddress Outbound OnWithdrawal ''nhop_trace_withdrawal'' n tx db"

section \<open>Alerts and listings\<close>

definition listAlerts ::
    "ident option \<Rightarrow> alert_status option \<Rightarrow> string option \<Rightarrow> compliance_db \<Rightarrow> alert_row list" where
  "listAlerts n st sev db =
     take 200 (sort_key (\<lambda>a. - al_created a)
       (filter (\<lambda>a. (case n of None \<Rightarrow> True | Some i \<Rightarrow> i = 0 \<or> al_client a = i)
                  \<and> (case st of None \<Rightarrow> True | Some s \<Rightarrow> al_status a = s)
                  \<and> (case sev of None \<Rightarrow> True | Some s \<Rightarrow> s = [] \<or> sql_eq (severity a) s)) (alerts db)))"

definition updateAlert ::
    "millis \<Rightarrow> ident \<Rightarrow> alert_status \<Rightarrow> string option \<Rightarrow> compliance_db \<Rightarrow> (error + alert_row) \<times> compliance_db" where
  "updateAlert now n st who db =
     (case find (\<lambda>a. al_id a = n) (alerts db) of
        None \<Rightarrow> (Inl (InternalError ''record not found''), db)
      | Some _ \<Rightarrow>
          let upd = (\<lambda>a. a\<lparr>al_status := st,
                 resolvedAt := (if st \<in> {AlertResolved, AlertFalsePositive} then Some now else resolvedAt a),
                 resolvedBy := (case who of None \<Rightarrow> resolvedBy a
                    | Some w \<Rightarrow> if w = [] then resolvedBy a else Some w)\<rparr>);
              db' = db\<lparr>alerts := update_where (\<lambda>a. al_id a = n) upd (alerts db)\<rparr>
          in (Inr (upd (the (find (\<lambda>a. al_id a = n) (alerts db)))), db'))"

text \<open>The rows are listed newest first; the table is in insertion order.\<close>

definition listScreenings ::
    "ident option \<Rightarrow> string option \<Rightarrow> screen_result option \<Rightarrow> compliance_db \<Rightarrow> screening_row list" where
  "listScreenings n addr res db =
     take 200 (rev
       (filter (\<lambda>s. (case n of None \<Rightarrow> True | Some i \<Rightarrow> i = 0 \<or> sr_client s = i)
                  \<and> (case addr of None \<Rightarrow> True | Some a \<Rightarrow> a = [] \<or> sql_eq (sr_address s) (lower a))
                  \<and> (case res of None \<Rightarrow> True | Some r \<Rightarrow> sr_result s = r)) (screenings db)))"

section \<open>What a screening decides\<close>

text \<open>The address is on one of the lists the client's KYT level selects.\<close>

definition listed :: "client_row \<Rightarrow> string \<Rightarrow> compliance_db \<Rightarrow> bool" where
  "listed c addr db \<longleftrightarrow>
     (\<exists>e \<in> set (sanctions db). entry_active e \<and> sql_eq (entry_address e) addr
        \<and> (\<exists>l \<in> set (lists_of_client c). sql_eq (listSource e) l))"

lemma filter_sanctioned_listed:
  "filter (sanctioned_by [lower addr] (lists_of_client c)) (sanctions db) = [] \<longleftrightarrow> \<not> listed c addr db"
  by (auto simp: filter_empty_conv sanctioned_by_def listed_def)

lemma createAlert_simps [simp]:
  "sanctions (snd (createAlert now n sev typ addr en li am tk db)) = sanctions db"
  "clients (snd (createAlert now n sev typ addr en li am tk db)) = clients db"
  "projects (snd (createAlert now n sev typ addr en li am tk db)) = projects db"
  "transfers (snd (createAlert now n sev typ addr en li am tk db)) = transfers db"
  "screenings (snd (createAlert now n sev typ addr en li am tk db)) = screenings db"
  "length (alerts (snd (createAlert now n sev typ addr en li am tk db))) = Suc (length (alerts db))"
  by (simp_all add: createAlert_def Let_def)

lemma saveScreeningResult_simps [simp]:
  "sanctions (saveScreeningResult q n a d t x l r ds ac db) = sanctions db"
  "clients (saveScreeningResult q n a d t x l r ds ac db) = clients db"
  "projects (saveScreeningResult q n a d t x l r ds ac db) = projects db"
  "transfers (saveScreeningResult q n a d t x l r ds ac db) = transfers db"
  "alerts (saveScreeningResult q n a d t x l r ds ac db) = alerts db"
  "length (screenings (saveScreeningResult q n a d t x l r ds ac db)) = Suc (length (screenings db))"
  "sr_action (last (screenings (saveScreeningResult q n a d t x l r ds ac db))) = ac"
  "sr_result (last (screenings (saveScreeningResult q n a d t x l r ds ac db))) = r"
  by (simp_all add: saveScreeningResult_def)

lemma screenAddress_unlisted:
  assumes "find_client n db = Some c" and "\<not> listed c addr db"
  shows "\<exists>out a. screenAddress now q addr dir trig n tx db =
      (Inr out, saveScreeningResult q n a dir trig tx (lists_of_client c) Clear None Allowed db)
    \<and> so_result out = Clear \<and> so_action out = Allowed"
proof (cases "lists_of_client c = []")
  case True
  then show ?thesis using assms(1) by (auto simp: screenAddress_def intro: exI [of _ addr])
next
  case False
  moreover have "filter (sanctioned_by [lower addr] (lists_of_client c)) (sanctions db) = []"
    using assms(2) filter_sanctioned_listed by blast
  ultimately show ?thesis using assms(1) by (auto simp: screenAddress_def Let_def)
qed

lemma screenAddress_listed:
  assumes "find_client n db = Some c" and "listed c addr db"
  shows "\<exists>out d en li ds. screenAddress now q addr dir trig n tx db =
      (Inr out, saveScreeningResult q n (lower addr) dir trig tx (lists_of_client c) Hit (Some ds) Blocked
        (snd (createAlert now n ''critical'' d addr en li None None db)))
    \<and> so_result out = Hit \<and> so_action out = Blocked"
proof -
  have "lists_of_client c \<noteq> []"
    using assms(2) by (auto simp: listed_def)
  moreover obtain e es where
    "filter (sanctioned_by [lower addr] (lists_of_client c)) (sanctions db) = e # es"
    using assms(2) filter_sanctioned_listed by (metis list.exhaust)
  ultimately show ?thesis
    using assms(1) by (auto simp: screenAddress_def Let_def)
qed

text \<open>Claim C34. For a client that exists, screening an address never fails: it is blocked exactly
  when an active entry of one of the lists of the client's KYT level has that address, ignoring
  case, and is allowed otherwise. Either way exactly one screening row is written, with that very
  action, and an alert is raised exactly when the address is blocked.\<close>

theorem screening_blocks_exactly_the_listed:
  assumes "find_client n db = Some c"
  shows "\<exists>out db'. screenAddress now q addr dir trig n tx db = (Inr out, db')
    \<and> so_action out = (if listed c addr db then Blocked else Allowed)
    \<and> so_result out = (if listed c addr db then Hit else Clear)
    \<and> length (screenings db') = Suc (length (screenings db))
    \<and> sr_action (last (screenings db')) = so_action out
    \<and> length (alerts db') = length (alerts db) + (if listed c addr db then 1 else 0)"
  using screenAddress_unlisted [OF assms, of addr now q dir trig tx]
    screenAddress_listed [OF assms, of addr now q dir trig tx]
  by (cases "listed c addr db") fastforce+

definition sample_db :: compliance_db where
  "sample_db =
     \<lparr>clients = [\<lparr>cl_id = 7, kytLevel = ''full''\<rparr>],
      projects = [\<lparr>pj_id = 3, pj_client = 7, pj_active = True, pj_default = True,
        custody_mode = ''full_custody''\<rparr>],
      sanctions = [\<lparr>listSource = ''OFAC_SDN'', entry_address = ''0xbad'', entityName = Some ''E'',
        entityId = None, entry_active = True\<rparr>],
      transfers = [\<lparr>from_address = Some ''0xa'', to_address = Some ''0xb''\<rparr>,
        \<lparr>from_address = Some ''0xb'', to_address = Some ''0xbad''\<rparr>],
      screenings = [], alerts = [], next_alert = 1\<rparr>"

theorem screening_blocks_exactly_the_listed_witness:
  "so_action (projr (fst (screenAddress 0 True ''0xBAD'' Outbound OnWithdrawal 7 None sample_db))) = Blocked"
proof -
  have "find_client 7 sample_db = Some \<lparr>cl_id = 7, kytLevel = ''full''\<rparr>"
    by (simp add: find_client_def sample_db_def)
  moreover have "listed \<lparr>cl_id = 7, kytLevel = ''full''\<rparr> ''0xBAD'' sample_db"
    by (simp add: listed_def sample_db_def lists_of_client_def KYT_LEVEL_LISTS_def sql_eq_def
        lower_def lower_char_def char_of_def bit_0)
  ultimately show ?thesis
    using screening_blocks_exactly_the_listed
      [of 7 sample_db "\<lparr>cl_id = 7, kytLevel = ''full''\<rparr>" 0 True "''0xBAD''" Outbound OnWithdrawal None]
    by auto
qed

lemma screenAddress_outcome:
  assumes "screenAddress now q addr dir trig n tx db = (Inr out, db')"
  shows "\<exists>c. find_client n db = Some c \<and> so_result out = (if listed c addr db then Hit else Clear)
    \<and> clients db' = clients db \<and> projects db' = projects db"
proof (cases "find_client n db")
  case (Some c)
  show ?thesis
    using assms screenAddress_unlisted [OF Some, of addr now q dir trig tx]
      screenAddress_listed [OF Some, of addr now q dir trig tx] Some
    by (cases "listed c addr db") (auto simp: fun_eq_iff)
qed (use assms in \<open>simp add: screenAddress_def\<close>)

text \<open>The screening of a withdrawal answers a hit exactly for a listed destination, and keeps the
  clients and projects.\<close>

lemma screenWithdrawal_outcome:
  assumes "screenWithdrawal env now q n addr tx db = (Inr out, db')"
  shows "\<exists>c. find_client n db = Some c \<and> (so_result out = Hit \<longleftrightarrow> listed c addr db)
    \<and> clients db' = clients db \<and> projects db' = projects db"
proof -
  obtain base db1 where s: "screenAddress now q addr Outbound OnWithdrawal n tx db = (Inr base, db1)"
    using assms by (auto simp: screenWithdrawal_def screen_with_trace_def split: prod.splits sum.splits)
  show ?thesis
    using assms screenAddress_outcome [OF s]
    by (auto simp: screenWithdrawal_def screen_with_trace_def s Let_def split: if_splits)
qed

text \<open>Each KYT level screens at least the lists of the level below it.\<close>

lemma kyt_levels_increase:
  "set (the (KYT_LEVEL_LISTS ''off'')) \<subseteq> set (the (KYT_LEVEL_LISTS ''basic''))"
  "set (the (KYT_LEVEL_LISTS ''basic'')) \<subseteq> set (the (KYT_LEVEL_LISTS ''enhanced''))"
  "set (the (KYT_LEVEL_LISTS ''enhanced'')) \<subseteq> set (the (KYT_LEVEL_LISTS ''full''))"
  by (auto simp: KYT_LEVEL_LISTS_def)

section \<open>What a trace scans\<close>

text \<open>\<open>hop_path db k a b\<close>: a chain of \<open>k\<close> indexed transfers joins the address \<open>a\<close> to the text \<open>b\<close>.\<close>

inductive hop_path :: "compliance_db \<Rightarrow> nat \<Rightarrow> string \<Rightarrow> string \<Rightarrow> bool" for db where
  here: "hop_path db 0 a a"
| further: "\<lbrakk>hop_path db k a b; ev \<in> set (transfers db); touches [b] ev;
     from_address ev = Some x \<or> to_address ev = Some x\<rbrakk> \<Longrightarrow> hop_path db (Suc k) a x"

lemma set_sql_distinct: "set (sql_distinct evs) \<subseteq> set evs"
  by (induction evs) auto

lemma hop_events_touch: "ev \<in> set (hop_events addrs db) \<Longrightarrow> ev \<in> set (transfers db) \<and> touches addrs ev"
  using set_sql_distinct by (fastforce simp: hop_events_def dest: in_set_takeD)

lemma touches_one: "touches addrs ev \<Longrightarrow> \<exists>b \<in> set addrs. touches [b] ev"
  by (auto simp: touches_def in_list_def split: option.splits)

definition fresh_for :: "string list \<Rightarrow> string list \<Rightarrow> transfer list \<Rightarrow> string list \<Rightarrow> bool" where
  "fresh_for current scanned evs cps \<longleftrightarrow> distinct cps \<and> set cps \<inter> set current = {} \<and> set cps \<inter> set scanned = {}
     \<and> (\<forall>x \<in> set cps. \<exists>ev \<in> set evs. from_address ev = Some x \<or> to_address ev = Some x)"

lemma fresh_for_add:
  "fresh_for current scanned evs cps \<Longrightarrow> ev \<in> set evs \<Longrightarrow> a = from_address ev \<or> a = to_address ev \<Longrightarrow>
     fresh_for current scanned evs (add_counterparty current scanned a cps)"
  by (auto simp: fresh_for_def add_counterparty_def split: option.splits)

lemma length_add_counterparty: "length (add_counterparty current scanned a cps) \<le> Suc (length cps)"
  by (auto simp: add_counterparty_def split: option.splits)

lemma fresh_for_discover:
  "set evs \<subseteq> set all \<Longrightarrow> fresh_for current scanned all cps \<Longrightarrow>
     fresh_for current scanned all (discover cap current scanned evs cps)"
  by (induction evs arbitrary: cps) (auto simp: Let_def intro!: fresh_for_add)

lemma length_discover: "length cps \<le> cap \<Longrightarrow> length (discover cap current scanned evs cps) \<le> cap"
proof (induction evs arbitrary: cps)
  case (Cons ev evs)
  then show ?case
    using length_add_counterparty [of current scanned "from_address ev" cps]
      length_add_counterparty [of current scanned "to_address ev"
        "add_counterparty current scanned (from_address ev) cps"]
    by (auto simp: Let_def)
qed simp

lemma hop_counterparties_fresh:
  "fresh_for (ts_current ts) (ts_scanned ts) (hop_events (ts_current ts) db) (hop_counterparties env h db ts)"
proof (cases "events_ok env h")
  case True
  have "fresh_for (ts_current ts) (ts_scanned ts) (hop_events (ts_current ts) db) []"
    by (simp add: fresh_for_def)
  then show ?thesis
    using True by (simp add: hop_counterparties_def fresh_for_discover)
qed (simp add: hop_counterparties_def fresh_for_def)

lemma length_hop_counterparties: "length (hop_counterparties env h db ts) \<le> MAX_ADDRESSES_PER_HOP"
  by (simp add: hop_counterparties_def length_discover)

lemma hop_counterparties_path:
  assumes "x \<in> set (hop_counterparties env h db ts)" and "\<forall>b \<in> set (ts_current ts). hop_path db k src b"
  shows "hop_path db (Suc k) src x"
proof -
  obtain ev where ev: "ev \<in> set (hop_events (ts_current ts) db)"
    and x: "from_address ev = Some x \<or> to_address ev = Some x"
    using hop_counterparties_fresh [of ts db env h] assms(1) unfolding fresh_for_def by blast
  obtain b where "b \<in> set (ts_current ts)" "touches [b] ev" "ev \<in> set (transfers db)"
    using hop_events_touch [OF ev] touches_one by blast
  with assms(2) x show ?thesis by (blast intro: further)
qed

lemma hop_results_simps [simp]:
  "map hop_address (hop_results env h lsts cps db) = cps"
  "length (hop_results env h lsts cps db) = length cps"
  by (auto simp: hop_results_def hop_screen_def Let_def o_def)

lemma hop_results_hop:
  "\<forall>r \<in> set (hop_results env h lsts cps db). hop r = h"
  by (auto simp: hop_results_def hop_screen_def Let_def o_def)

text \<open>A flagged counterparty is one with an active listed entry whose stored text is exactly its own.\<close>

definition flagged_exactly :: "string list \<Rightarrow> compliance_db \<Rightarrow> string \<Rightarrow> bool" where
  "flagged_exactly lsts db x \<longleftrightarrow> (\<exists>e \<in> set (sanctions db). entry_active e \<and> entry_address e = x
     \<and> (\<exists>l \<in> set lsts. sql_eq (listSource e) l))"

lemma hop_screen_result:
  assumes "cp \<in> set cps"
  shows "screeningResult (hop_screen h lsts cps db cp) = (if flagged_exactly lsts db cp then Hit else Clear)"
proof -
  have "filter (\<lambda>e. entry_address e = cp) (filter (sanctioned_by cps lsts) (sanctions db)) = []
      \<longleftrightarrow> \<not> flagged_exactly lsts db cp"
    using assms unfolding filter_filter filter_empty_conv sanctioned_by_def flagged_exactly_def
    by (metis sql_eq_refl)
  then show ?thesis by (simp add: hop_screen_def Let_def del: filter_filter)
qed

lemma hop_screen_address [simp]: "hop_address (hop_screen h lsts cps db cp) = cp"
  by (simp add: hop_screen_def Let_def)

lemma hop_results_flag:
  "r \<in> set (hop_results env h lsts cps db) \<Longrightarrow>
     screeningResult r = (if sanctions_ok env h \<and> flagged_exactly lsts db (hop_address r) then Hit else Clear)"
  by (auto simp: hop_results_def hop_screen_result split: if_splits)

text \<open>A result of a hop up to \<open>n\<close>: where it was found and what it says.\<close>

definition sound_result :: "trace_env \<Rightarrow> string list \<Rightarrow> compliance_db \<Rightarrow> string \<Rightarrow> nat \<Rightarrow> hop_result \<Rightarrow> bool" where
  "sound_result env lsts db src n r \<longleftrightarrow> 1 \<le> hop r \<and> hop r \<le> n \<and> hop_path db (hop r) src (hop_address r)
     \<and> screeningResult r = (if sanctions_ok env (hop r) \<and> flagged_exactly lsts db (hop_address r) then Hit else Clear)"

lemma sound_result_mono: "sound_result env lsts db src n r \<Longrightarrow> n \<le> m \<Longrightarrow> sound_result env lsts db src m r"
  by (auto simp: sound_result_def)

text \<open>The invariant of the loop before hop \<open>h\<close>.\<close>

definition trace_inv :: "trace_env \<Rightarrow> string list \<Rightarrow> compliance_db \<Rightarrow> string \<Rightarrow> nat \<Rightarrow> trace_state \<Rightarrow> bool" where
  "trace_inv env lsts db src h ts \<longleftrightarrow>
     ts_scanned ts = src # map hop_address (ts_results ts) \<and> distinct (src # map hop_address (ts_results ts))
     \<and> ts_completed ts \<le> h - 1 \<and> length (ts_results ts) \<le> MAX_ADDRESSES_PER_HOP * (h - 1)
     \<and> (\<forall>r \<in> set (ts_results ts). sound_result env lsts db src (ts_completed ts) r)"

lemma trace_inv_hop:
  assumes "trace_inv env lsts db src h ts" and "1 \<le> h"
    and cur: "\<forall>b \<in> set (ts_current ts). hop_path db (h - 1) src b"
    and cps: "cps = hop_counterparties env h db ts"
  shows "trace_inv env lsts db src (Suc h)
    \<lparr>ts_current = cps, ts_scanned = ts_scanned ts @ cps, ts_completed = h,
     ts_results = ts_results ts @ hop_results env h lsts cps db\<rparr>"
proof -
  let ?rs = "hop_results env h lsts cps db"
  have "sound_result env lsts db src h r" if r: "r \<in> set ?rs" for r
  proof -
    have "hop_address r \<in> set cps"
      using r hop_results_simps(1) [of env h lsts cps db] by (metis image_eqI set_map)
    moreover have "hop r = h" using r hop_results_hop by blast
    ultimately show ?thesis
      using hop_counterparties_path [OF _ cur, of "hop_address r" env h] hop_results_flag [OF r] assms(2)
      by (simp add: cps sound_result_def)
  qed
  moreover have "sound_result env lsts db src h r" if "r \<in> set (ts_results ts)" for r
    using that assms(1) by (auto simp: trace_inv_def intro: sound_result_mono)
  ultimately have all: "\<forall>r \<in> set (ts_results ts @ ?rs). sound_result env lsts db src h r"
    by auto
  have scanned: "ts_scanned ts @ cps = src # map hop_address (ts_results ts @ ?rs)"
    using assms(1) by (simp add: trace_inv_def)
  have "distinct (ts_scanned ts)"
    using assms(1) by (simp add: trace_inv_def)
  then have "distinct (ts_scanned ts @ cps)"
    using hop_counterparties_fresh [of ts db env h]
    unfolding fresh_for_def cps by (simp only: distinct_append) blast
  then have "distinct (src # map hop_address (ts_results ts @ ?rs))"
    by (simp only: scanned)
  moreover have "length (ts_results ts @ ?rs) \<le> MAX_ADDRESSES_PER_HOP * h"
    using assms(1,2) length_hop_counterparties [of env h db ts]
    by (cases h) (simp_all add: trace_inv_def cps)
  ultimately show ?thesis
    using all scanned unfolding trace_inv_def by simp
qed

lemma trace_inv_weaken: "trace_inv env lsts db src h ts \<Longrightarrow> trace_inv env lsts db src (h + k) ts"
proof -
  assume inv: "trace_inv env lsts db src h ts"
  have "MAX_ADDRESSES_PER_HOP * (h - 1) \<le> MAX_ADDRESSES_PER_HOP * (h + k - 1)"
    by (rule mult_le_mono2) simp
  then have "length (ts_results ts) \<le> MAX_ADDRESSES_PER_HOP * (h + k - 1)"
    using inv unfolding trace_inv_def by linarith
  moreover have "ts_completed ts \<le> h + k - 1"
    using inv unfolding trace_inv_def by linarith
  ultimately show ?thesis using inv unfolding trace_inv_def by simp
qed

lemma trace_inv_stop:
  assumes "trace_inv env lsts db src h ts" and "1 \<le> h"
  shows "trace_inv env lsts db src (h + Suc k) (ts\<lparr>ts_completed := h\<rparr>)"
proof -
  have "ts_completed ts \<le> h - 1" using assms(1) by (simp add: trace_inv_def)
  then have "ts_completed ts \<le> h" by linarith
  then have "\<forall>r \<in> set (ts_results ts). sound_result env lsts db src h r"
    using assms(1) sound_result_mono unfolding trace_inv_def by blast
  moreover have "length (ts_results ts) \<le> MAX_ADDRESSES_PER_HOP * (h + Suc k - 1)"
    using assms(1) by (auto simp: trace_inv_def intro: le_trans [OF _ mult_le_mono2])
  ultimately show ?thesis using assms by (simp add: trace_inv_def)
qed

lemma trace_inv_loop:
  "trace_inv env lsts db src h ts \<Longrightarrow> 1 \<le> h \<Longrightarrow> \<forall>b \<in> set (ts_current ts). hop_path db (h - 1) src b \<Longrightarrow>
     trace_inv env lsts db src (h + k) (trace_loop env deadline lsts db h k ts)"
proof (induction k arbitrary: h ts)
  case 0
  then show ?case by simp
next
  case (Suc k)
  let ?cps = "hop_counterparties env h db ts"
  let ?next = "\<lparr>ts_current = ?cps, ts_scanned = ts_scanned ts @ ?cps, ts_completed = h,
     ts_results = ts_results ts @ hop_results env h lsts ?cps db\<rparr>"
  have "\<forall>b \<in> set (ts_current ?next). hop_path db (Suc h - 1) src b"
    using hop_counterparties_path [OF _ Suc.prems(3)] Suc.prems(2) by simp
  then have "trace_inv env lsts db src (h + Suc k) (trace_loop env deadline lsts db (Suc h) k ?next)"
    using Suc.IH [OF trace_inv_hop [OF Suc.prems refl]] by simp
  then show ?case
    using trace_inv_weaken [OF Suc.prems(1), of "Suc k"] trace_inv_stop [OF Suc.prems(1,2)]
    by (simp add: Let_def)
qed

lemma trace_inv_start:
  "trace_inv env lsts db src 1 \<lparr>ts_current = [src], ts_scanned = [src], ts_completed = 0, ts_results = []\<rparr>"
  by (simp add: trace_inv_def)

lemma trace_inv_traceAddressHops:
  "\<exists>ts h. traceAddressHops env addr maxHops lsts timeoutMs db =
      \<lparr>sourceAddress = lower addr, totalHops = h, hopsCompleted = ts_completed ts,
       counterpartiesScanned = length (ts_results ts),
       flaggedAddresses = filter (\<lambda>r. screeningResult r = Hit) (ts_results ts), allResults = ts_results ts\<rparr>
    \<and> trace_inv env lsts db (lower addr) (1 + h) ts \<and> 1 \<le> h \<and> h \<le> 3"
proof -
  let ?h = "nat (min (max maxHops 1) 3)"
  let ?ts = "trace_loop env (trace_start env + timeoutMs) lsts db 1 ?h
    \<lparr>ts_current = [lower addr], ts_scanned = [lower addr], ts_completed = 0, ts_results = []\<rparr>"
  have inv: "trace_inv env lsts db (lower addr) (1 + ?h) ?ts"
    by (rule trace_inv_loop [OF trace_inv_start]) (simp_all add: hop_path.here)
  then have "length (ts_scanned ?ts) - 1 = length (ts_results ?ts)"
    by (simp add: trace_inv_def)
  with inv show ?thesis
    by (intro exI [of _ ?ts] exI [of _ ?h]) (simp add: traceAddressHops_def Let_def, linarith)
qed


definition sample_env :: trace_env where
  "sample_env = \<lparr>trace_start = 0, hop_time = (\<lambda>_. 0), screen_time = (\<lambda>_. 0), events_ok = (\<lambda>_. True),
     sanctions_ok = (\<lambda>_. True)\<rparr>"


text \<open>The comparison of a traced counterparty with the listed entries is exact, although
  the query that fetches the entries ignores case: while the lists hold lower-case addresses, a
  counterparty that the indexer stored with upper-case letters (a checksummed address) is fetched
  with its sanctions entry but recorded as clear and never flagged.\<close>

theorem checksummed_counterparty_is_never_flagged:
  assumes "\<forall>e \<in> set (sanctions db). lower (entry_address e) = entry_address e"
    and "x \<in> set (allResults (traceAddressHops env addr maxHops lsts timeoutMs db))"
    and "lower (hop_address x) \<noteq> hop_address x"
  shows "screeningResult x = Clear
    \<and> x \<notin> set (flaggedAddresses (traceAddressHops env addr maxHops lsts timeoutMs db))"
proof -
  obtain ts h where ts: "allResults (traceAddressHops env addr maxHops lsts timeoutMs db) = ts_results ts"
      "flaggedAddresses (traceAddressHops env addr maxHops lsts timeoutMs db) =
        filter (\<lambda>r. screeningResult r = Hit) (ts_results ts)"
    and inv: "trace_inv env lsts db (lower addr) (1 + h) ts"
    using trace_inv_traceAddressHops [of env addr maxHops lsts timeoutMs db] by auto
  have "\<not> flagged_exactly lsts db (hop_address x)"
    using assms(1,3) by (auto simp: flagged_exactly_def)
  then have "screeningResult x = Clear"
    using inv assms(2) by (simp add: trace_inv_def sound_result_def ts)
  then show ?thesis by (simp add: ts)
qed

definition checksummed_db :: compliance_db where
  "checksummed_db = sample_db\<lparr>transfers := [\<lparr>from_address = Some ''0xa'', to_address = Some ''0xBad''\<rparr>]\<rparr>"

lemma checksummed_trace:
  "allResults (traceAddressHops sample_env ''0xa'' 1 [''OFAC_SDN''] 30000 checksummed_db) =
     [\<lparr>hop = 1, hop_address = ''0xBad'', screeningResult = Clear, hop_details = None\<rparr>]"
  by code_simp

theorem checksummed_counterparty_is_never_flagged_witness:
  "\<lparr>hop = 1, hop_address = ''0xBad'', screeningResult = Clear, hop_details = None\<rparr>
      \<notin> set (flaggedAddresses (traceAddressHops sample_env ''0xa'' 1 [''OFAC_SDN''] 30000 checksummed_db))
    \<and> list_ex (\<lambda>e. sql_eq (entry_address e) ''0xBad'') (sanctions checksummed_db)"
proof -
  have "\<forall>e \<in> set (sanctions checksummed_db). lower (entry_address e) = entry_address e"
    and "list_ex (\<lambda>e. sql_eq (entry_address e) ''0xBad'') (sanctions checksummed_db)"
    and "lower ''0xBad'' \<noteq> ''0xBad''"
    by code_simp+
  then show ?thesis
    using checksummed_counterparty_is_never_flagged
      [of checksummed_db "\<lparr>hop = 1, hop_address = ''0xBad'', screeningResult = Clear, hop_details = None\<rparr>"
        sample_env "''0xa''" 1 "[''OFAC_SDN'']" 30000]
    by (simp add: checksummed_trace)
qed

end
