(* ===== verification/WalletDb.thy ===== *)
theory WalletDb
  imports Compliance
begin

text \<open>
  The tables of \<open>cvh_admin\<close>, \<open>cvh_wallets\<close> and \<open>cvh_transactions\<close> that the withdrawal path reads
  and writes (services/core-wallet-service/prisma/schema.prisma, database/005 and 038), the Redis
  streams it publishes to, and the third-party computations it relies on as types of parameters.
  Each record has the columns of its table; the compliance tables are those of \<open>Compliance\<close>.
\<close>

section \<open>Tables\<close>

datatype w_status =
    PendingApproval | PendingCosign | Approved | Broadcasting | Confirmed | Failed | Cancelled | Rejected

datatype source_wallet = HotSource | GasTankSource

datatype wallet_type = HotWallet | GasTankWallet

record withdrawal_row =
  w_id :: ident
  w_client :: ident
  w_project :: ident
  w_source :: source_wallet
  w_chain :: int
  w_token :: ident
  fromWallet :: string
  toAddressId :: ident
  toAddress :: string
  toLabel :: string
  w_amount :: string
  amountRaw :: string
  w_txHash :: "string option"
  w_status :: w_status
  w_sequence :: "int option"
  gasCost :: "string option"
  kytResult :: "string option"
  idempotencyKey :: string
  createdAt :: millis
  submittedAt :: "millis option"
  confirmedAt :: "millis option"

record whitelist_row =
  wl_id :: ident
  wl_client :: ident
  wl_address :: string
  wl_label :: string
  wl_chain :: int
  wl_status :: string
  cooldownEndsAt :: "millis option"

record token_row =
  t_id :: ident
  t_chain :: int
  contractAddress :: string
  symbol :: string
  decimals :: int
  isNative :: bool
  t_active :: bool

record wallet_row =
  wal_client :: ident
  wal_project :: ident
  wal_chain :: int
  wal_address :: string
  wal_type :: wallet_type

record chain_row =
  c_id :: int
  c_name :: string
  platformTopupAmountWei :: "string option"
  confirmationsDefault :: int

record project_chain_row =
  pc_project :: ident
  pc_chain :: int
  hotWalletAddress :: "string option"
  hotWalletSequenceId :: int

datatype co_status = CoPending | CoSigned | CoExpired | CoCancelled

record cosign_row =
  co_id :: ident
  operation_id :: string
  co_withdrawal :: ident
  co_client :: ident
  co_project :: ident
  co_chain :: int
  operation_hash :: string
  co_wallet :: string
  co_to :: string
  co_amount :: string
  co_token :: "string option"
  expire_time :: int
  co_sequence :: int
  network_id :: string
  co_status :: co_status
  client_signature :: "string option"
  client_address :: string
  expires_at :: millis
  signed_at :: "millis option"
  co_created :: millis

type_synonym stream_event = "string \<times> (string \<times> string) list"

record core_db =
  compliance :: compliance_db
  withdrawals :: "withdrawal_row list"
  next_withdrawal :: ident
  whitelist :: "whitelist_row list"
  tokens :: "token_row list"
  wallets :: "wallet_row list"
  chains :: "chain_row list"
  project_chains :: "project_chain_row list"
  cosigns :: "cosign_row list"
  next_cosign :: ident
  streams :: "stream_event list"

section \<open>Access\<close>

definition find_withdrawal :: "ident \<Rightarrow> core_db \<Rightarrow> withdrawal_row option" where
  "find_withdrawal n db = find (\<lambda>w. w_id w = n) (withdrawals db)"

definition find_own_withdrawal :: "ident \<Rightarrow> ident \<Rightarrow> core_db \<Rightarrow> withdrawal_row option" where
  "find_own_withdrawal n client db = find (\<lambda>w. w_id w = n \<and> w_client w = client) (withdrawals db)"

definition find_token :: "ident \<Rightarrow> core_db \<Rightarrow> token_row option" where
  "find_token n db = find (\<lambda>t. t_id t = n) (tokens db)"

text \<open>The unique key \<open>uq_client_chain_type\<close>.\<close>

definition find_wallet :: "ident \<Rightarrow> int \<Rightarrow> wallet_type \<Rightarrow> core_db \<Rightarrow> wallet_row option" where
  "find_wallet client chain ty db =
     find (\<lambda>w. wal_client w = client \<and> wal_chain w = chain \<and> wal_type w = ty) (wallets db)"

definition update_withdrawals ::
    "(withdrawal_row \<Rightarrow> bool) \<Rightarrow> (withdrawal_row \<Rightarrow> withdrawal_row) \<Rightarrow> core_db \<Rightarrow> core_db" where
  "update_withdrawals p f db = db\<lparr>withdrawals := update_where p f (withdrawals db)\<rparr>"

definition publish :: "string \<Rightarrow> (string \<times> string) list \<Rightarrow> core_db \<Rightarrow> core_db" where
  "publish stream payload db = db\<lparr>streams := streams db @ [(stream, payload)]\<rparr>"

definition status_of :: "ident \<Rightarrow> core_db \<Rightarrow> w_status option" where
  "status_of n db = map_option w_status (find_withdrawal n db)"

section \<open>Well-formed tables\<close>

text \<open>What the primary and unique keys of the schema keep: withdrawal identifiers are distinct and
  below the next one, idempotency keys are distinct in the column's collation, and each withdrawal
  has at most one co-sign operation.\<close>

definition db_ok :: "core_db \<Rightarrow> bool" where
  "db_ok db \<longleftrightarrow>
     distinct (map w_id (withdrawals db)) \<and> list_all (\<lambda>w. w_id w < next_withdrawal db) (withdrawals db)
     \<and> distinct (map (\<lambda>w. lower (idempotencyKey w)) (withdrawals db))
     \<and> distinct (map co_id (cosigns db)) \<and> list_all (\<lambda>c. co_id c < next_cosign db) (cosigns db)
     \<and> distinct (map co_withdrawal (cosigns db))"

lemma update_withdrawals_simps [simp]:
  "compliance (update_withdrawals p f db) = compliance db"
  "next_withdrawal (update_withdrawals p f db) = next_withdrawal db"
  "whitelist (update_withdrawals p f db) = whitelist db"
  "tokens (update_withdrawals p f db) = tokens db"
  "wallets (update_withdrawals p f db) = wallets db"
  "chains (update_withdrawals p f db) = chains db"
  "project_chains (update_withdrawals p f db) = project_chains db"
  "cosigns (update_withdrawals p f db) = cosigns db"
  "next_cosign (update_withdrawals p f db) = next_cosign db"
  "streams (update_withdrawals p f db) = streams db"
  by (simp_all add: update_withdrawals_def)

lemma publish_simps [simp]:
  "compliance (publish s f db) = compliance db"
  "withdrawals (publish s f db) = withdrawals db"
  "next_withdrawal (publish s f db) = next_withdrawal db"
  "whitelist (publish s f db) = whitelist db"
  "tokens (publish s f db) = tokens db"
  "wallets (publish s f db) = wallets db"
  "chains (publish s f db) = chains db"
  "project_chains (publish s f db) = project_chains db"
  "cosigns (publish s f db) = cosigns db"
  "next_cosign (publish s f db) = next_cosign db"
  "streams (publish s f db) = streams db @ [(s, f)]"
  by (simp_all add: publish_def)

lemma find_withdrawal_publish [simp]: "find_withdrawal n (publish s f db) = find_withdrawal n db"
  and status_of_publish [simp]: "status_of n (publish s f db) = status_of n db"
  and find_token_update [simp]: "find_token n (update_withdrawals p g db) = find_token n db"
  and find_token_publish [simp]: "find_token n (publish s f db) = find_token n db"
  by (simp_all add: find_withdrawal_def status_of_def find_token_def)

lemma find_withdrawal_update:
  assumes "\<And>w. w_id (f w) = w_id w"
  shows "find_withdrawal n (update_withdrawals p f db) =
    map_option (\<lambda>w. if p w then f w else w) (find_withdrawal n db)"
  using assms by (simp add: find_withdrawal_def update_withdrawals_def find_update_where)

lemma find_withdrawal_id: "find_withdrawal n db = Some w \<Longrightarrow> w_id w = n"
  by (auto simp: find_withdrawal_def dest: find_SomeD)

lemma find_own_withdrawal_Some:
  assumes "distinct (map w_id (withdrawals db))"
  shows "find_own_withdrawal n client db = Some w \<longleftrightarrow> find_withdrawal n db = Some w \<and> w_client w = client"
  using find_conj_unique [OF assms, of n "\<lambda>w. w_client w = client" w]
  by (simp add: find_own_withdrawal_def find_withdrawal_def)

text \<open>Changing a status by its identifier changes that row's status and nothing else.\<close>

definition set_status :: "w_status \<Rightarrow> ident \<Rightarrow> core_db \<Rightarrow> core_db" where
  "set_status st n db = update_withdrawals (\<lambda>w. w_id w = n) (\<lambda>w. w\<lparr>w_status := st\<rparr>) db"

lemma set_status_simps [simp]:
  "compliance (set_status st n db) = compliance db"
  "next_withdrawal (set_status st n db) = next_withdrawal db"
  "whitelist (set_status st n db) = whitelist db"
  "tokens (set_status st n db) = tokens db"
  "wallets (set_status st n db) = wallets db"
  "chains (set_status st n db) = chains db"
  "project_chains (set_status st n db) = project_chains db"
  "cosigns (set_status st n db) = cosigns db"
  "next_cosign (set_status st n db) = next_cosign db"
  "streams (set_status st n db) = streams db"
  "map w_id (withdrawals (set_status st n db)) = map w_id (withdrawals db)"
  "map (\<lambda>w. lower (idempotencyKey w)) (withdrawals (set_status st n db)) =
     map (\<lambda>w. lower (idempotencyKey w)) (withdrawals db)"
  by (simp_all add: set_status_def update_withdrawals_def map_update_where)

lemma find_set_status:
  "find_withdrawal m (set_status st n db) =
     map_option (\<lambda>w. if m = n then w\<lparr>w_status := st\<rparr> else w) (find_withdrawal m db)"
  by (cases "find_withdrawal m db")
     (auto simp: set_status_def find_withdrawal_update dest: find_withdrawal_id)

lemma status_of_set_status:
  "status_of m (set_status st n db) =
     (if m = n \<and> find_withdrawal m db \<noteq> None then Some st else status_of m db)"
  by (cases "find_withdrawal m db") (auto simp: status_of_def find_set_status)

lemma list_all_ids: "list_all (\<lambda>w. w_id w < k) ws \<longleftrightarrow> list_all (\<lambda>i. i < k) (map w_id ws)"
  by (simp add: list_all_iff)

lemma db_ok_set_status [simp]: "db_ok (set_status st n db) = db_ok db"
  unfolding db_ok_def list_all_ids by simp

lemma db_ok_publish [simp]: "db_ok (publish s f db) = db_ok db"
  by (simp add: db_ok_def)

end
