(* ===== verification/CoSign.thy ===== *)
theory CoSign
  imports WalletDb
begin

text \<open>
  The co-sign orchestrator (services/core-wallet-service/src/co-sign/co-sign-orchestrator.service.ts):
  the operation hash, the creation of a co-sign operation for a withdrawal, the submission of the
  client's signature, the expiry of stale operations and the two queries. The library's ABI
  encoding followed by Keccak-256 and its signature recovery are the fields of \<open>crypto\<close>; the reply
  of the key vault, the random operation identifier, the clock readings and the outcome of the
  stream publication are the fields of \<open>cosign_env\<close>.
\<close>

section \<open>Operation hash\<close>

datatype abi_value = AString string | AAddress string | AUint int | ABytes string

record crypto =
  abi_hash :: "abi_value list \<Rightarrow> error + string"
  verifyMessage :: "string \<Rightarrow> string \<Rightarrow> error + string"

record hash_params =
  hp_network :: string
  hp_wallet :: string
  hp_to :: string
  hp_amount :: string
  hp_token :: "string option"
  hp_expire :: int
  hp_sequence :: int

definition hash_input :: "hash_params \<Rightarrow> int \<Rightarrow> abi_value list" where
  "hash_input p amount =
     (case hp_token p of
        Some tok \<Rightarrow> [AString (hp_network p @ ''-ERC20''), AAddress (hp_wallet p), AAddress (hp_to p),
                     AUint amount, AAddress tok, AUint (hp_expire p), AUint (hp_sequence p)]
      | None \<Rightarrow> [AString (hp_network p), AAddress (hp_wallet p), AAddress (hp_to p),
                     AUint amount, ABytes ''0x'', AUint (hp_expire p), AUint (hp_sequence p)])"

text \<open>An empty token address is falsy in the source, like an absent one.\<close>

definition buildOperationHash :: "crypto \<Rightarrow> hash_params \<Rightarrow> error + string" where
  "buildOperationHash cr p =
     (case big_int (hp_amount p) of
        None \<Rightarrow> Inl (InternalError ''SyntaxError'')
      | Some amount \<Rightarrow> abi_hash cr (hash_input (p\<lparr>hp_token := or_null (hp_token p)\<rparr>) amount))"

definition verifySignature :: "crypto \<Rightarrow> string \<Rightarrow> string \<Rightarrow> string \<Rightarrow> error + bool" where
  "verifySignature cr h sig expected =
     (case verifyMessage cr h sig of
        Inl e \<Rightarrow> Inl e
      | Inr recovered \<Rightarrow> Inr (lower recovered = lower expected))"

section \<open>The client's key address\<close>

datatype http_reply = NoReply string | Reply int string "string option"

definition getClientKeyAddress :: "http_reply \<Rightarrow> error + string" where
  "getClientKeyAddress r =
     (case r of
        NoReply e \<Rightarrow> Inl (InternalError e)
      | Reply code body addr \<Rightarrow>
          if \<not> (200 \<le> code \<and> code \<le> 299) then Inl (InternalError ''Key Vault address lookup failed'')
          else (case addr of None \<Rightarrow> Inl (InternalError ''no address'') | Some a \<Rightarrow> Inr a))"

section \<open>Creating an operation\<close>

record cosign_env =
  ce_now :: millis
  ce_insert :: millis
  ce_reply :: http_reply
  ce_op_id :: string
  ce_stream_ok :: bool

definition hot_wallet_of :: "ident \<Rightarrow> ident \<Rightarrow> int \<Rightarrow> core_db \<Rightarrow> wallet_row option" where
  "hot_wallet_of client project chain db =
     find (\<lambda>w. wal_client w = client \<and> wal_project w = project \<and> wal_chain w = chain
             \<and> wal_type w = HotWallet) (wallets db)"

definition next_sequence_of :: "ident \<Rightarrow> int \<Rightarrow> core_db \<Rightarrow> int" where
  "next_sequence_of project chain db =
     (case find (\<lambda>pc. pc_project pc = project \<and> pc_chain pc = chain) (project_chains db) of
        None \<Rightarrow> 0 | Some pc \<Rightarrow> hotWalletSequenceId pc) + 1"

definition token_contract_of :: "withdrawal_row \<Rightarrow> core_db \<Rightarrow> string option" where
  "token_contract_of w db = or_null (map_option contractAddress (find_token (w_token w) db))"

definition insert_cosign :: "cosign_row \<Rightarrow> core_db \<Rightarrow> error + core_db" where
  "insert_cosign op db =
     (if \<exists>c \<in> set (cosigns db). co_withdrawal c = co_withdrawal op \<or> sql_eq (operation_id c) (operation_id op)
      then Inl (InternalError ''duplicate entry'')
      else Inr (db\<lparr>cosigns := cosigns db @ [op], next_cosign := next_cosign db + 1\<rparr>))"

definition cosign_params :: "cosign_env \<Rightarrow> withdrawal_row \<Rightarrow> wallet_row \<Rightarrow> ident \<Rightarrow> core_db \<Rightarrow> hash_params" where
  "cosign_params env w wal project db =
     \<lparr>hp_network = show_int (w_chain w), hp_wallet = wal_address wal, hp_to = toAddress w,
      hp_amount = amountRaw w, hp_token = token_contract_of w db,
      hp_expire = ce_now env div 1000 + 86400, hp_sequence = next_sequence_of project (w_chain w) db\<rparr>"

definition new_cosign ::
    "cosign_env \<Rightarrow> withdrawal_row \<Rightarrow> wallet_row \<Rightarrow> ident \<Rightarrow> ident \<Rightarrow> ident \<Rightarrow> string \<Rightarrow> string \<Rightarrow> core_db \<Rightarrow> cosign_row" where
  "new_cosign env w wal n client project h key db =
     \<lparr>co_id = next_cosign db, operation_id = ce_op_id env, co_withdrawal = n, co_client = client,
      co_project = project, co_chain = w_chain w, operation_hash = h, co_wallet = wal_address wal,
      co_to = toAddress w, co_amount = amountRaw w, co_token = token_contract_of w db,
      expire_time = ce_now env div 1000 + 86400,
      co_sequence = next_sequence_of project (w_chain w) db, network_id = show_int (w_chain w),
      co_status = CoPending, client_signature = None, client_address = key,
      expires_at = ce_insert env + 86400000, signed_at = None, co_created = ce_insert env\<rparr>"

definition createCoSignOperation ::
    "crypto \<Rightarrow> cosign_env \<Rightarrow> ident \<Rightarrow> ident \<Rightarrow> ident \<Rightarrow> core_db \<Rightarrow> (error + string) \<times> core_db" where
  "createCoSignOperation cr env n client project db =
     (case find_own_withdrawal n client db of
        None \<Rightarrow> (Inl (NotFound ''Withdrawal not found''), db)
      | Some w \<Rightarrow>
     (case hot_wallet_of client project (w_chain w) db of
        None \<Rightarrow> (Inl (NotFound ''Hot wallet not found''), db)
      | Some wal \<Rightarrow>
     (case buildOperationHash cr (cosign_params env w wal project db) of
        Inl e \<Rightarrow> (Inl e, db)
      | Inr h \<Rightarrow>
     (case getClientKeyAddress (ce_reply env) of
        Inl e \<Rightarrow> (Inl e, db)
      | Inr key \<Rightarrow>
     (case insert_cosign (new_cosign env w wal n client project h key db) db of
        Inl e \<Rightarrow> (Inl e, db)
      | Inr db1 \<Rightarrow>
          let db2 = set_status PendingCosign n db1 in
          if \<not> ce_stream_ok env then (Inl (InternalError ''redis''), db2)
          else (Inr (ce_op_id env),
                publish ''cosign:pending''
                  [(''operationId'', ce_op_id env), (''withdrawalId'', show_int n),
                   (''clientId'', show_int client), (''projectId'', show_int project),
                   (''chainId'', show_int (w_chain w)), (''toAddress'', toAddress w),
                   (''amount'', w_amount w), (''eventType'', ''withdrawal.pending_cosign'')] db2))))))"

section \<open>Submitting a signature\<close>

record submit_env =
  se_now :: millis
  se_signed :: millis
  se_stream_ok :: bool

definition find_operation :: "string \<Rightarrow> ident \<Rightarrow> core_db \<Rightarrow> cosign_row option" where
  "find_operation op client db =
     find (\<lambda>c. sql_eq (operation_id c) op \<and> co_client c = client) (cosigns db)"

definition update_cosign :: "ident \<Rightarrow> (cosign_row \<Rightarrow> cosign_row) \<Rightarrow> core_db \<Rightarrow> core_db" where
  "update_cosign k f db = db\<lparr>cosigns := update_where (\<lambda>c. co_id c = k) f (cosigns db)\<rparr>"

text \<open>\<open>UPDATE withdrawals SET status = st WHERE id = n AND status = 'pending_cosign'\<close>.\<close>

definition leave_cosign :: "w_status \<Rightarrow> ident \<Rightarrow> core_db \<Rightarrow> core_db" where
  "leave_cosign st n db =
     update_withdrawals (\<lambda>w. w_id w = n \<and> w_status w = PendingCosign) (\<lambda>w. w\<lparr>w_status := st\<rparr>) db"

definition submitCoSignature ::
    "crypto \<Rightarrow> submit_env \<Rightarrow> string \<Rightarrow> ident \<Rightarrow> string \<Rightarrow> core_db \<Rightarrow> (error + bool) \<times> core_db" where
  "submitCoSignature cr env op client sig db =
     (case find_operation op client db of
        None \<Rightarrow> (Inl (NotFound ''Co-sign operation not found''), db)
      | Some c \<Rightarrow>
          if co_status c \<noteq> CoPending then (Inl (BadRequest ''Operation is not pending''), db)
          else if expires_at c \<le> se_now env then (Inl (BadRequest ''Co-sign operation has expired''), db)
          else (case verifySignature cr (operation_hash c) sig (client_address c) of
              Inl e \<Rightarrow> (Inl e, db)
            | Inr False \<Rightarrow> (Inl (BadRequest ''Signature does not match the registered client key''), db)
            | Inr True \<Rightarrow>
                let db1 = update_cosign (co_id c) (\<lambda>c. c\<lparr>co_status := CoSigned,
                            client_signature := Some sig, signed_at := Some (se_signed env)\<rparr>) db;
                    db2 = leave_cosign Approved (co_withdrawal c) db1
                in if \<not> se_stream_ok env then (Inl (InternalError ''redis''), db2)
                   else (Inr True, publish ''cosign:signed''
                     [(''operationId'', op), (''withdrawalId'', show_int (co_withdrawal c)),
                      (''clientId'', show_int client), (''eventType'', ''withdrawal.cosigned'')] db2)))"

section \<open>Queries\<close>

record cosign_view =
  cv_row :: cosign_row
  chain_name :: "string option"
  token_symbol :: "string option"

text \<open>The two left joins: the chain by its identifier, the tokens by address (ignoring case) and chain.\<close>

definition cosign_views :: "core_db \<Rightarrow> cosign_row \<Rightarrow> cosign_view list" where
  "cosign_views db c =
     (let names = (case map c_name (filter (\<lambda>ch. c_id ch = co_chain c) (chains db)) of
                     [] \<Rightarrow> [None] | ns \<Rightarrow> map Some ns);
          syms = (case map symbol (filter (\<lambda>t. t_chain t = co_chain c
                        \<and> (case co_token c of None \<Rightarrow> False | Some a \<Rightarrow> sql_eq (contractAddress t) a))
                      (tokens db)) of
                    [] \<Rightarrow> [None] | ss \<Rightarrow> map Some ss)
      in concat (map (\<lambda>nm. map (\<lambda>s. \<lparr>cv_row = c, chain_name = nm, token_symbol = s\<rparr>) syms) names))"

definition getPendingOperations :: "ident \<Rightarrow> ident \<Rightarrow> core_db \<Rightarrow> cosign_view list" where
  "getPendingOperations client project db =
     sort_key (\<lambda>v. - co_created (cv_row v))
       (concat (map (cosign_views db)
          (filter (\<lambda>c. co_client c = client \<and> co_project c = project \<and> co_status c = CoPending)
             (cosigns db))))"

definition getOperation :: "string \<Rightarrow> ident \<Rightarrow> core_db \<Rightarrow> error + cosign_view" where
  "getOperation op client db =
     (case concat (map (cosign_views db)
             (filter (\<lambda>c. sql_eq (operation_id c) op \<and> co_client c = client) (cosigns db))) of
        [] \<Rightarrow> Inl (NotFound ''Operation not found'')
      | v # _ \<Rightarrow> Inr v)"

section \<open>Expiring stale operations\<close>

definition expire_one :: "cosign_row \<Rightarrow> core_db \<Rightarrow> core_db" where
  "expire_one op db =
     leave_cosign Cancelled (co_withdrawal op)
       (update_cosign (co_id op) (\<lambda>c. c\<lparr>co_status := CoExpired\<rparr>) db)"

text \<open>\<open>ok k\<close> says whether the publication for the operation \<open>k\<close> succeeds; a failure leaves the loop.\<close>

fun expire_loop :: "(ident \<Rightarrow> bool) \<Rightarrow> cosign_row list \<Rightarrow> core_db \<Rightarrow> (error + unit) \<times> core_db" where
  "expire_loop ok [] db = (Inr (), db)"
| "expire_loop ok (op # ops) db =
     (if ok (co_id op)
      then expire_loop ok ops (publish ''cosign:expired''
             [(''operationId'', operation_id op), (''withdrawalId'', show_int (co_withdrawal op)),
              (''clientId'', show_int (co_client op)), (''eventType'', ''withdrawal.cosign_expired'')]
             (expire_one op db))
      else (Inl (InternalError ''redis''), expire_one op db))"

definition stale :: "millis \<Rightarrow> cosign_row \<Rightarrow> bool" where
  "stale now c \<longleftrightarrow> co_status c = CoPending \<and> expires_at c < now"

definition expireStaleOperations :: "(ident \<Rightarrow> bool) \<Rightarrow> millis \<Rightarrow> core_db \<Rightarrow> (error + nat) \<times> core_db" where
  "expireStaleOperations ok now db =
     (let ops = filter (stale now) (cosigns db) in
      case expire_loop ok ops db of
        (Inl e, db') \<Rightarrow> (Inl e, db')
      | (Inr _, db') \<Rightarrow> (Inr (length ops), db'))"

section \<open>What a hash binds\<close>

lemma hash_input_inject:
  assumes "hash_input p x = hash_input q y"
  shows "hp_network p = hp_network q \<and> hp_wallet p = hp_wallet q \<and> hp_to p = hp_to q \<and> x = y
    \<and> hp_token p = hp_token q \<and> hp_expire p = hp_expire q \<and> hp_sequence p = hp_sequence q"
  using assms by (cases "hp_token p"; cases "hp_token q") (simp_all add: hash_input_def)

text \<open>As long as the encoding and hash of the library map different inputs to different
  hashes, the operation hash the client signs determines the network, the wallet, the destination,
  the amount, the token (or that it is the native coin), the expiry and the sequence number: no
  other operation, and none of the other kind, has the same hash.\<close>

theorem operation_hash_binds_the_operation:
  assumes "\<And>x y h. abi_hash cr x = Inr h \<Longrightarrow> abi_hash cr y = Inr h \<Longrightarrow> x = y"
    and "buildOperationHash cr p = Inr h" and "buildOperationHash cr q = Inr h"
  shows "hp_network p = hp_network q \<and> hp_wallet p = hp_wallet q \<and> hp_to p = hp_to q
    \<and> big_int (hp_amount p) = big_int (hp_amount q) \<and> or_null (hp_token p) = or_null (hp_token q)
    \<and> hp_expire p = hp_expire q \<and> hp_sequence p = hp_sequence q"
proof -
  obtain x y where x: "big_int (hp_amount p) = Some x" and y: "big_int (hp_amount q) = Some y"
    and "abi_hash cr (hash_input (p\<lparr>hp_token := or_null (hp_token p)\<rparr>) x) = Inr h"
    and "abi_hash cr (hash_input (q\<lparr>hp_token := or_null (hp_token q)\<rparr>) y) = Inr h"
    using assms(2,3) by (auto simp: buildOperationHash_def split: option.splits)
  then have "hash_input (p\<lparr>hp_token := or_null (hp_token p)\<rparr>) x =
      hash_input (q\<lparr>hp_token := or_null (hp_token q)\<rparr>) y"
    using assms(1) by blast
  from hash_input_inject [OF this] show ?thesis by (simp add: x y)
qed

definition sample_params :: hash_params where
  "sample_params = \<lparr>hp_network = ''1'', hp_wallet = ''0xw'', hp_to = ''0xt'', hp_amount = ''5'',
     hp_token = Some ''0xc'', hp_expire = 100, hp_sequence = 1\<rparr>"

definition sample_crypto :: crypto where
  "sample_crypto = \<lparr>abi_hash = (\<lambda>x. if length x = 7 \<and> x = hash_input sample_params 5 then Inr ''0xh''
       else Inl (InternalError ''type'')),
     verifyMessage = (\<lambda>h sig. if sig = ''sig'' then Inr ''0xKEY'' else Inl (InternalError ''sig''))\<rparr>"

theorem operation_hash_binds_the_operation_witness:
  "buildOperationHash sample_crypto sample_params = Inr ''0xh''
    \<and> or_null (hp_token sample_params) = or_null (Some ''0xc'')"
proof -
  have inj: "x = y" if "abi_hash sample_crypto x = Inr h" "abi_hash sample_crypto y = Inr h" for x y h
    using that by (simp add: sample_crypto_def split: if_splits)
  have h: "buildOperationHash sample_crypto sample_params = Inr ''0xh''"
    by code_simp
  show ?thesis
    using operation_hash_binds_the_operation [OF inj h h] h by (simp add: sample_params_def)
qed

section \<open>Effects of the operations on the tables\<close>

lemma leave_cosign_simps [simp]:
  "compliance (leave_cosign st n db) = compliance db"
  "next_withdrawal (leave_cosign st n db) = next_withdrawal db"
  "whitelist (leave_cosign st n db) = whitelist db"
  "tokens (leave_cosign st n db) = tokens db"
  "wallets (leave_cosign st n db) = wallets db"
  "chains (leave_cosign st n db) = chains db"
  "project_chains (leave_cosign st n db) = project_chains db"
  "cosigns (leave_cosign st n db) = cosigns db"
  "next_cosign (leave_cosign st n db) = next_cosign db"
  "streams (leave_cosign st n db) = streams db"
  "map w_id (withdrawals (leave_cosign st n db)) = map w_id (withdrawals db)"
  "map (\<lambda>w. lower (idempotencyKey w)) (withdrawals (leave_cosign st n db)) =
     map (\<lambda>w. lower (idempotencyKey w)) (withdrawals db)"
  by (simp_all add: leave_cosign_def update_withdrawals_def map_update_where)

lemma find_leave_cosign:
  "find_withdrawal m (leave_cosign st n db) =
     map_option (\<lambda>w. if m = n \<and> w_status w = PendingCosign then w\<lparr>w_status := st\<rparr> else w)
       (find_withdrawal m db)"
  by (cases "find_withdrawal m db")
     (auto simp: leave_cosign_def find_withdrawal_update dest: find_withdrawal_id)

lemma status_of_leave_cosign:
  "status_of m (leave_cosign st n db) =
     (if m = n \<and> status_of m db = Some PendingCosign then Some st else status_of m db)"
  by (cases "find_withdrawal m db") (auto simp: status_of_def find_leave_cosign)

lemma update_cosign_simps [simp]:
  "compliance (update_cosign k f db) = compliance db"
  "withdrawals (update_cosign k f db) = withdrawals db"
  "next_withdrawal (update_cosign k f db) = next_withdrawal db"
  "whitelist (update_cosign k f db) = whitelist db"
  "tokens (update_cosign k f db) = tokens db"
  "wallets (update_cosign k f db) = wallets db"
  "chains (update_cosign k f db) = chains db"
  "project_chains (update_cosign k f db) = project_chains db"
  "next_cosign (update_cosign k f db) = next_cosign db"
  "streams (update_cosign k f db) = streams db"
  "find_withdrawal m (update_cosign k f db) = find_withdrawal m db"
  "status_of m (update_cosign k f db) = status_of m db"
  by (simp_all add: update_cosign_def find_withdrawal_def status_of_def)

lemma list_all_co_ids: "list_all (\<lambda>c. co_id c < k) cs \<longleftrightarrow> list_all (\<lambda>i. i < k) (map co_id cs)"
  by (simp add: list_all_iff)

lemma db_ok_leave_cosign [simp]: "db_ok (leave_cosign st n db) = db_ok db"
  unfolding db_ok_def list_all_ids by simp

lemma db_ok_update_cosign:
  assumes "\<And>c. co_id (f c) = co_id c" "\<And>c. co_withdrawal (f c) = co_withdrawal c"
  shows "db_ok (update_cosign k f db) = db_ok db"
  using assms unfolding db_ok_def list_all_co_ids by (simp add: update_cosign_def map_update_where)

text \<open>What creating an operation does: it fails with the tables as they were, or it inserts the new
  operation and moves the withdrawal to pending co-sign (also when the publication then fails).\<close>

lemma insert_cosign_ok:
  "insert_cosign c db = Inr db1 \<Longrightarrow>
     db1 = db\<lparr>cosigns := cosigns db @ [c], next_cosign := next_cosign db + 1\<rparr>
     \<and> (\<forall>x \<in> set (cosigns db). co_withdrawal x \<noteq> co_withdrawal c)"
  by (auto simp: insert_cosign_def split: if_splits)

lemma createCoSignOperation_cases:
  obtains (failed) e where "createCoSignOperation cr env n client project db = (Inl e, db)"
  | (inserted) w wal h key db1 where
      "find_own_withdrawal n client db = Some w" "hot_wallet_of client project (w_chain w) db = Some wal"
      "buildOperationHash cr (cosign_params env w wal project db) = Inr h"
      "getClientKeyAddress (ce_reply env) = Inr key"
      "insert_cosign (new_cosign env w wal n client project h key db) db = Inr db1"
      "is_ok (fst (createCoSignOperation cr env n client project db)) \<longleftrightarrow> ce_stream_ok env"
      "\<exists>evs. snd (createCoSignOperation cr env n client project db) =
         set_status PendingCosign n db1\<lparr>streams := streams db @ evs\<rparr>"
proof (cases "find_own_withdrawal n client db")
  case (Some w)
  show ?thesis
  proof (cases "hot_wallet_of client project (w_chain w) db")
    case wal: (Some wal)
    show ?thesis
    proof (cases "buildOperationHash cr (cosign_params env w wal project db)")
      case h: (Inr h)
      show ?thesis
      proof (cases "getClientKeyAddress (ce_reply env)")
        case key: (Inr key)
        show ?thesis
        proof (cases "insert_cosign (new_cosign env w wal n client project h key db) db")
          case db1: (Inr db1)
          have s: "streams (set_status PendingCosign n db1) = streams db"
            using insert_cosign_ok [OF db1] by simp
          have "\<exists>evs. snd (createCoSignOperation cr env n client project db) =
              set_status PendingCosign n db1\<lparr>streams := streams db @ evs\<rparr>"
            by (cases "ce_stream_ok env")
               (auto simp: createCoSignOperation_def Some wal h key db1 Let_def publish_def s [symmetric]
                  intro: exI [of _ "[]"])
          then show ?thesis
            by (intro inserted [OF Some wal h key db1])
               (simp_all add: createCoSignOperation_def Some wal h key db1 Let_def)
        qed (use Some wal h key failed in \<open>simp add: createCoSignOperation_def\<close>)
      qed (use Some wal h failed in \<open>simp add: createCoSignOperation_def\<close>)
    qed (use Some wal failed in \<open>simp add: createCoSignOperation_def\<close>)
  qed (use Some failed in \<open>simp add: createCoSignOperation_def\<close>)
qed (use failed in \<open>simp add: createCoSignOperation_def\<close>)

section \<open>Submitting and expiring\<close>

lemma find_operation_Some:
  "find_operation op client db = Some c \<Longrightarrow>
     c \<in> set (cosigns db) \<and> sql_eq (operation_id c) op \<and> co_client c = client"
  by (auto simp: find_operation_def dest: find_SomeD)

lemma find_update_cosign:
  assumes "distinct (map co_id cs)" and "find P cs = Some c" and "\<And>d. P (f d) = P d"
  shows "find P (update_where (\<lambda>d. co_id d = co_id c) f cs) = Some (f c)"
  using assms(1,2) by (induction cs) (auto simp: assms(3) dest: find_SomeD)

text \<open>The tables after an accepted signature.\<close>

definition signed_db :: "submit_env \<Rightarrow> string \<Rightarrow> cosign_row \<Rightarrow> core_db \<Rightarrow> core_db" where
  "signed_db env sig c db =
     leave_cosign Approved (co_withdrawal c)
       (update_cosign (co_id c) (\<lambda>c. c\<lparr>co_status := CoSigned, client_signature := Some sig,
          signed_at := Some (se_signed env)\<rparr>) db)"

lemma submit_accepted:
  assumes "find_operation op client db = Some c" and "co_status c = CoPending"
    and "se_now env < expires_at c"
    and "verifySignature cr (operation_hash c) sig (client_address c) = Inr True"
  shows "submitCoSignature cr env op client sig db =
    (if se_stream_ok env
     then (Inr True, publish ''cosign:signed'' [(''operationId'', op),
             (''withdrawalId'', show_int (co_withdrawal c)), (''clientId'', show_int client),
             (''eventType'', ''withdrawal.cosigned'')] (signed_db env sig c db))
     else (Inl (InternalError ''redis''), signed_db env sig c db))"
  using assms by (simp add: submitCoSignature_def signed_db_def Let_def)

lemma submit_refused:
  assumes "\<And>c. find_operation op client db = Some c \<Longrightarrow> co_status c = CoPending \<Longrightarrow> se_now env < expires_at c \<Longrightarrow>
      verifySignature cr (operation_hash c) sig (client_address c) \<noteq> Inr True"
  shows "\<exists>e. submitCoSignature cr env op client sig db = (Inl e, db)"
proof (cases "find_operation op client db")
  case (Some c)
  show ?thesis
  proof (cases "verifySignature cr (operation_hash c) sig (client_address c)")
    case (Inr b)
    then show ?thesis
      using Some assms [OF Some] by (cases b) (auto simp: submitCoSignature_def)
  qed (simp add: submitCoSignature_def Some)
qed (simp add: submitCoSignature_def)

text \<open>Claim C32. A submitted signature is accepted exactly when the client has a pending, unexpired
  operation of that identifier and the signature recovers, ignoring case, to the key registered in
  it. Then the withdrawal of the operation moves from pending co-sign to approved, no other
  withdrawal changes its status, and the operation can never be accepted again; a refused
  submission changes nothing.\<close>

theorem cosign_needs_the_registered_key:
  assumes "distinct (map co_id (cosigns db))" and "find_operation op client db = Some c"
    and "se_stream_ok env"
  shows "(is_ok (fst (submitCoSignature cr env op client sig db)) \<longleftrightarrow>
      co_status c = CoPending \<and> se_now env < expires_at c
      \<and> (\<exists>key. verifyMessage cr (operation_hash c) sig = Inr key \<and> lower key = lower (client_address c)))
    \<and> (is_ok (fst (submitCoSignature cr env op client sig db)) \<longrightarrow>
        status_of m (snd (submitCoSignature cr env op client sig db)) =
          (if m = co_withdrawal c \<and> status_of m db = Some PendingCosign then Some Approved else status_of m db)
        \<and> \<not> is_ok (fst (submitCoSignature cr env' op client sig'
              (snd (submitCoSignature cr env op client sig db)))))
    \<and> (\<not> is_ok (fst (submitCoSignature cr env op client sig db)) \<longrightarrow>
        snd (submitCoSignature cr env op client sig db) = db)"
proof -
  let ?ok = "co_status c = CoPending \<and> se_now env < expires_at c
      \<and> verifySignature cr (operation_hash c) sig (client_address c) = Inr True"
  have ver: "verifySignature cr (operation_hash c) sig (client_address c) = Inr True \<longleftrightarrow>
      (\<exists>key. verifyMessage cr (operation_hash c) sig = Inr key \<and> lower key = lower (client_address c))"
    by (simp add: verifySignature_def split: sum.splits)
  show ?thesis
  proof (cases ?ok)
    case True
    let ?pub = "[(''operationId'', op), (''withdrawalId'', show_int (co_withdrawal c)),
       (''clientId'', show_int client), (''eventType'', ''withdrawal.cosigned'')]"
    have s: "submitCoSignature cr env op client sig db =
        (Inr True, publish ''cosign:signed'' ?pub (signed_db env sig c db))"
      using submit_accepted [OF assms(2)] True assms(3) by simp
    have again: "find_operation op client (snd (submitCoSignature cr env op client sig db)) =
        Some (c\<lparr>co_status := CoSigned, client_signature := Some sig, signed_at := Some (se_signed env)\<rparr>)"
      using assms(1,2) unfolding s find_operation_def snd_conv
      by (simp add: signed_db_def update_cosign_def find_update_cosign)
    have "\<exists>e. submitCoSignature cr env' op client sig' (snd (submitCoSignature cr env op client sig db)) =
        (Inl e, snd (submitCoSignature cr env op client sig db))"
      by (rule submit_refused) (simp add: again)
    then have "\<not> is_ok (fst (submitCoSignature cr env' op client sig'
        (snd (submitCoSignature cr env op client sig db))))" by auto
    then show ?thesis
      using True ver by (auto simp: s signed_db_def status_of_leave_cosign)
  next
    case False
    then obtain e where "submitCoSignature cr env op client sig db = (Inl e, db)"
      using submit_refused assms(2) by (metis option.inject)
    then show ?thesis using False ver by auto
  qed
qed

definition sample_op :: cosign_row where
  "sample_op = \<lparr>co_id = 1, operation_id = ''op'', co_withdrawal = 5, co_client = 7, co_project = 3,
     co_chain = 1, operation_hash = ''0xh'', co_wallet = ''0xw'', co_to = ''0xt'', co_amount = ''5'',
     co_token = None, expire_time = 86400, co_sequence = 1, network_id = ''1'', co_status = CoPending,
     client_signature = None, client_address = ''0xkey'', expires_at = 86400000, signed_at = None,
     co_created = 0\<rparr>"

definition sample_withdrawal :: "ident \<Rightarrow> w_status \<Rightarrow> withdrawal_row" where
  "sample_withdrawal n st = \<lparr>w_id = n, w_client = 7, w_project = 3, w_source = HotSource, w_chain = 1,
     w_token = 1, fromWallet = ''0xw'', toAddressId = 2, toAddress = ''0xt'', toLabel = ''l'',
     w_amount = ''5'', amountRaw = ''5'', w_txHash = None, w_status = st, w_sequence = None,
     gasCost = None, kytResult = None, idempotencyKey = show_int n, createdAt = 0,
     submittedAt = None, confirmedAt = None\<rparr>"

definition sample_core :: core_db where
  "sample_core = \<lparr>compliance = sample_db, withdrawals = [sample_withdrawal 5 PendingCosign],
     next_withdrawal = 6,
     whitelist = [\<lparr>wl_id = 2, wl_client = 7, wl_address = ''0xt'', wl_label = ''l'', wl_chain = 1,
       wl_status = ''active'', cooldownEndsAt = None\<rparr>],
     tokens = [\<lparr>t_id = 1, t_chain = 1, contractAddress = [], symbol = ''ETH'', decimals = 18,
       isNative = True, t_active = True\<rparr>],
     wallets = [\<lparr>wal_client = 7, wal_project = 3, wal_chain = 1, wal_address = ''0xw'', wal_type = HotWallet\<rparr>],
     chains = [], project_chains = [], cosigns = [sample_op], next_cosign = 2, streams = []\<rparr>"

theorem cosign_needs_the_registered_key_witness:
  "is_ok (fst (submitCoSignature sample_crypto \<lparr>se_now = 1, se_signed = 2, se_stream_ok = True\<rparr>
      ''op'' 7 ''sig'' sample_core))
    \<and> status_of 5 (snd (submitCoSignature sample_crypto \<lparr>se_now = 1, se_signed = 2, se_stream_ok = True\<rparr>
      ''op'' 7 ''sig'' sample_core)) = Some Approved"
proof -
  let ?env = "\<lparr>se_now = 1, se_signed = 2, se_stream_ok = True\<rparr>"
  have op: "find_operation ''op'' 7 sample_core = Some sample_op"
    by (simp add: find_operation_def sample_core_def sample_op_def)
  have key: "lower ''0xKEY'' = lower ''0xkey''" by code_simp
  have "status_of 5 sample_core = Some PendingCosign"
    by (simp add: status_of_def find_withdrawal_def sample_core_def sample_withdrawal_def)
  then show ?thesis
    using cosign_needs_the_registered_key [of sample_core "''op''" 7 sample_op ?env sample_crypto "''sig''" 5] op key
    by (simp add: sample_core_def sample_op_def sample_crypto_def)
qed

lemma expire_one_simps [simp]:
  "cosigns (expire_one op db) = update_where (\<lambda>c. co_id c = co_id op) (\<lambda>c. c\<lparr>co_status := CoExpired\<rparr>) (cosigns db)"
  "status_of m (expire_one op db) =
     (if m = co_withdrawal op \<and> status_of m db = Some PendingCosign then Some Cancelled else status_of m db)"
  unfolding expire_one_def status_of_leave_cosign by (simp add: update_cosign_def, auto)

lemma update_where_update_where:
  "(\<And>r. q (f r) = q r) \<Longrightarrow> (\<And>r. f (f r) = f r) \<Longrightarrow>
     update_where q f (update_where p f rows) = update_where (\<lambda>r. p r \<or> q r) f rows"
  by (simp add: update_where_def)

lemma expire_loop_ok:
  assumes "expire_loop ok ops db = (Inr (), db')"
  shows "cosigns db' = update_where (\<lambda>c. co_id c \<in> co_id ` set ops) (\<lambda>c. c\<lparr>co_status := CoExpired\<rparr>) (cosigns db)"
    and "status_of m db' = (if m \<in> co_withdrawal ` set ops \<and> status_of m db = Some PendingCosign
           then Some Cancelled else status_of m db)"
  using assms
proof (induction ops arbitrary: db)
  case Nil
  {
    case 1 then show ?case by (simp add: update_where_def)
  next
    case 2 then show ?case by simp
  }
next
  case (Cons op ops)
  {
    case 1
    then show ?case
      using Cons.IH(1) by (simp add: update_where_update_where eq_commute split: if_splits)
  next
    case 2
    then show ?case using Cons.IH(2) by (auto split: if_splits)
  }
qed

text \<open>When the expiry of stale operations returns, it reports the number of pending
  operations past their expiry, exactly these have become expired, a withdrawal that was waiting
  for one of them is cancelled, and every other operation and withdrawal status is as before.\<close>

lemma expiry_cancels_exactly_the_stale:
  assumes "distinct (map co_id (cosigns db))" and "expireStaleOperations ok now db = (Inr k, db')"
  shows "k = length (filter (stale now) (cosigns db))
    \<and> cosigns db' = map (\<lambda>c. if stale now c then c\<lparr>co_status := CoExpired\<rparr> else c) (cosigns db)
    \<and> filter (stale now) (cosigns db') = []
    \<and> status_of m db' =
        (if (\<exists>c \<in> set (cosigns db). stale now c \<and> co_withdrawal c = m) \<and> status_of m db = Some PendingCosign
         then Some Cancelled else status_of m db)"
proof -
  let ?ops = "filter (stale now) (cosigns db)"
  have loop: "expire_loop ok ?ops db = (Inr (), db')" and k: "k = length ?ops"
    using assms(2) by (auto simp: expireStaleOperations_def Let_def split: prod.splits sum.splits)
  have "co_id c \<in> co_id ` set ?ops \<longleftrightarrow> stale now c" if "c \<in> set (cosigns db)" for c
    using that assms(1) by (auto simp: distinct_map inj_on_def)
  then have c: "cosigns db' = map (\<lambda>c. if stale now c then c\<lparr>co_status := CoExpired\<rparr> else c) (cosigns db)"
    using expire_loop_ok(1) [OF loop] by (simp add: update_where_def)
  then have "filter (stale now) (cosigns db') = []"
    by (auto simp: filter_empty_conv stale_def)
  with c k show ?thesis
    using expire_loop_ok(2) [OF loop, of m] by auto
qed

lemma expiry_cancels_exactly_the_stale_witness:
  "status_of 5 (snd (expireStaleOperations (\<lambda>_. True) 86400001 sample_core)) = Some Cancelled"
proof -
  have e: "expireStaleOperations (\<lambda>_. True) 86400001 sample_core =
      (Inr 1, snd (expireStaleOperations (\<lambda>_. True) 86400001 sample_core))"
    by (simp add: expireStaleOperations_def sample_core_def sample_op_def stale_def)
  have "status_of 5 sample_core = Some PendingCosign"
    by (simp add: status_of_def find_withdrawal_def sample_core_def sample_withdrawal_def)
  then show ?thesis
    using expiry_cancels_exactly_the_stale [OF _ e, of 5]
    by (simp add: sample_core_def sample_op_def stale_def)
qed

end
