(* ===== verification/Withdrawal.thy ===== *)
theory Withdrawal
  imports CoSign
begin

text \<open>
  The withdrawal service (services/core-wallet-service/src/withdrawal/withdrawal.service.ts):
  creation with its checks in the order of the code, approval, cancellation and the queries. The
  clocks, the library's \<open>parseUnits\<close> and the balances answered by the node are the fields of
  \<open>create_env\<close>. An approval is the two writes the code issues one after the other,
  \<open>approve_status\<close> and \<open>approve_cosign\<close>, so that other steps can be placed between them.
\<close>

section \<open>Requests and answers\<close>

record withdrawal_request =
  wr_client :: ident
  wr_chain :: int
  wr_token :: ident
  wr_to :: ident
  wr_amount :: string
  wr_key :: string
  wr_source :: "source_wallet option"

record create_env =
  we_now :: millis
  we_screened :: millis
  we_trace :: trace_env
  we_project_ok :: bool
  parseUnits :: "string \<Rightarrow> int \<Rightarrow> error + wei"
  getNativeBalance :: "int \<Rightarrow> string \<Rightarrow> error + wei"
  getERC20Balance :: "int \<Rightarrow> string \<Rightarrow> string \<Rightarrow> error + wei"
  we_created :: millis

record withdrawal_view =
  wv_row :: withdrawal_row
  tokenSymbol :: "string option"
  tokenDecimals :: "int option"
  tokenAddress :: "string option"

definition formatWithdrawal :: "withdrawal_row \<Rightarrow> token_row option \<Rightarrow> withdrawal_view" where
  "formatWithdrawal w t =
     \<lparr>wv_row = w, tokenSymbol = map_option symbol t, tokenDecimals = map_option decimals t,
      tokenAddress = map_option contractAddress t\<rparr>"

record create_result =
  cr_withdrawal :: withdrawal_view
  isIdempotent :: bool

section \<open>Creation\<close>

text \<open>The unique key on \<open>idempotency_key\<close> is over all clients.\<close>

definition insert_withdrawal :: "withdrawal_row \<Rightarrow> core_db \<Rightarrow> (error + withdrawal_row) \<times> core_db" where
  "insert_withdrawal w db =
     (if \<exists>x \<in> set (withdrawals db). sql_eq (idempotencyKey x) (idempotencyKey w)
      then (Inl (InternalError ''unique constraint''), db)
      else (let w' = w\<lparr>w_id := next_withdrawal db\<rparr> in
            (Inr w', db\<lparr>withdrawals := withdrawals db @ [w'], next_withdrawal := next_withdrawal db + 1\<rparr>)))"

definition created :: "(error + withdrawal_row) \<times> core_db \<Rightarrow> (error + create_result) \<times> core_db" where
  "created r =
     (case fst r of
        Inl e \<Rightarrow> Inl e
      | Inr w \<Rightarrow> Inr \<lparr>cr_withdrawal = formatWithdrawal w None, isIdempotent = False\<rparr>, snd r)"

definition check_whitelist :: "millis \<Rightarrow> withdrawal_request \<Rightarrow> core_db \<Rightarrow> error + whitelist_row" where
  "check_whitelist now rq db =
     (case find (\<lambda>l. wl_id l = wr_to rq \<and> wl_client l = wr_client rq \<and> wl_chain l = wr_chain rq) (whitelist db) of
        None \<Rightarrow> Inl (NotFound ''Whitelisted address not found'')
      | Some l \<Rightarrow>
          if wl_status l \<noteq> ''active'' then Inl (BadRequest ''Whitelisted address is not active'')
          else if (case cooldownEndsAt l of None \<Rightarrow> False | Some t \<Rightarrow> t > now)
          then Inl (BadRequest ''Address is in cooldown'')
          else Inr l)"

definition rejected_project :: "ident \<Rightarrow> core_db \<Rightarrow> ident" where
  "rejected_project client db =
     (case find (\<lambda>p. pj_client p = client \<and> pj_default p) (projects (compliance db)) of
        None \<Rightarrow> 0 | Some p \<Rightarrow> pj_id p)"

definition new_withdrawal ::
    "create_env \<Rightarrow> withdrawal_request \<Rightarrow> whitelist_row \<Rightarrow> ident \<Rightarrow> source_wallet \<Rightarrow> string \<Rightarrow> string \<Rightarrow>
     w_status \<Rightarrow> string option \<Rightarrow> withdrawal_row" where
  "new_withdrawal env rq l project source from_addr raw st kyt =
     \<lparr>w_id = 0, w_client = wr_client rq, w_project = project, w_source = source, w_chain = wr_chain rq,
      w_token = wr_token rq, fromWallet = from_addr, toAddressId = wr_to rq, toAddress = wl_address l,
      toLabel = wl_label l, w_amount = wr_amount rq, amountRaw = raw, w_txHash = None, w_status = st,
      w_sequence = None, gasCost = None, kytResult = kyt, idempotencyKey = wr_key rq,
      createdAt = we_created env, submittedAt = None, confirmedAt = None\<rparr>"

definition check_token :: "withdrawal_request \<Rightarrow> source_wallet \<Rightarrow> core_db \<Rightarrow> error + token_row" where
  "check_token rq source db =
     (case find_token (wr_token rq) db of
        None \<Rightarrow> Inl (NotFound ''Token not found or not active'')
      | Some t \<Rightarrow>
          if \<not> t_active t then Inl (NotFound ''Token not found or not active'')
          else if t_chain t \<noteq> wr_chain rq then Inl (BadRequest ''Token is not on chain'')
          else if source = GasTankSource \<and> \<not> isNative t
          then Inl (Unprocessable ''Gas Tank source only supports the chain native token'')
          else Inr t)"

definition source_type :: "source_wallet \<Rightarrow> wallet_type" where
  "source_type s = (case s of HotSource \<Rightarrow> HotWallet | GasTankSource \<Rightarrow> GasTankWallet)"

definition source_balance ::
    "create_env \<Rightarrow> withdrawal_request \<Rightarrow> source_wallet \<Rightarrow> token_row \<Rightarrow> wallet_row \<Rightarrow> error + wei" where
  "source_balance env rq source t wal =
     (case (if source = GasTankSource \<or> isNative t
            then getNativeBalance env (wr_chain rq) (wal_address wal)
            else getERC20Balance env (wr_chain rq) (contractAddress t) (wal_address wal)) of
        Inl _ \<Rightarrow> Inl (ServiceUnavailable ''Unable to verify wallet balance'')
      | Inr b \<Rightarrow> Inr b)"

text \<open>Twice the platform top-up of the chain, 0.01 native when it has none (or an empty text).\<close>

definition gas_reserve :: "int \<Rightarrow> core_db \<Rightarrow> error + wei" where
  "gas_reserve chain db =
     (case or_null (Option.bind (find (\<lambda>c. c_id c = chain) (chains db)) platformTopupAmountWei) of
        None \<Rightarrow> Inr (10000000000000000 * 2)
      | Some s \<Rightarrow> (case big_int s of None \<Rightarrow> Inl (InternalError ''SyntaxError'') | Some n \<Rightarrow> Inr (n * 2)))"

definition check_balance :: "int \<Rightarrow> source_wallet \<Rightarrow> wei \<Rightarrow> wei \<Rightarrow> core_db \<Rightarrow> error + unit" where
  "check_balance chain source requested balance db =
     (case source of
        GasTankSource \<Rightarrow>
          (case gas_reserve chain db of
             Inl e \<Rightarrow> Inl e
           | Inr reserved \<Rightarrow>
               if requested > (if balance > reserved then balance - reserved else 0)
               then Inl (Unprocessable ''Insufficient gas tank balance after reserve'') else Inr ())
      | HotSource \<Rightarrow>
          if balance < requested then Inl (BadRequest ''Insufficient balance'') else Inr ())"

text \<open>The part of the creation after a screening that is not a hit: token, wallet, amount, balance, insert.\<close>

definition create_checked ::
    "create_env \<Rightarrow> withdrawal_request \<Rightarrow> source_wallet \<Rightarrow> whitelist_row \<Rightarrow> core_db \<Rightarrow>
     (error + create_result) \<times> core_db" where
  "create_checked env rq source l db =
     (case check_token rq source db of
        Inl e \<Rightarrow> (Inl e, db)
      | Inr t \<Rightarrow>
     (case find_wallet (wr_client rq) (wr_chain rq) (source_type source) db of
        None \<Rightarrow> (Inl (NotFound ''source wallet not found''), db)
      | Some wal \<Rightarrow>
     (case parseUnits env (wr_amount rq) (decimals t) of
        Inl e \<Rightarrow> (Inl e, db)
      | Inr n \<Rightarrow>
          if n \<le> 0 then (Inl (BadRequest ''Withdrawal amount must be greater than zero''), db)
          else
     (case source_balance env rq source t wal of
        Inl e \<Rightarrow> (Inl e, db)
      | Inr b \<Rightarrow>
     (case check_balance (wr_chain rq) source n b db of
        Inl e \<Rightarrow> (Inl e, db)
      | Inr _ \<Rightarrow>
          created (insert_withdrawal
            (new_withdrawal env rq l (wal_project wal) source (wal_address wal) (show_int n)
               PendingApproval None) db))))))"

definition createWithdrawal ::
    "create_env \<Rightarrow> withdrawal_request \<Rightarrow> core_db \<Rightarrow> (error + create_result) \<times> core_db" where
  "createWithdrawal env rq db =
     (let source = (case wr_source rq of None \<Rightarrow> HotSource | Some s \<Rightarrow> s) in
      case find (\<lambda>w. sql_eq (idempotencyKey w) (wr_key rq) \<and> w_client w = wr_client rq) (withdrawals db) of
        Some w \<Rightarrow> (Inr \<lparr>cr_withdrawal = formatWithdrawal w None, isIdempotent = True\<rparr>, db)
      | None \<Rightarrow>
     (case check_whitelist (we_now env) rq db of
        Inl e \<Rightarrow> (Inl e, db)
      | Inr l \<Rightarrow>
     (case screenWithdrawal (we_trace env) (we_screened env) (we_project_ok env) (wr_client rq)
             (wl_address l) None (compliance db) of
        (Inl e, cdb) \<Rightarrow> (Inl e, db\<lparr>compliance := cdb\<rparr>)
      | (Inr out, cdb) \<Rightarrow>
          let db1 = db\<lparr>compliance := cdb\<rparr> in
          if so_result out = Hit
          then created (insert_withdrawal
                 (new_withdrawal env rq l (rejected_project (wr_client rq) db1) HotSource [] ''0''
                    Rejected (Some ''hit'')) db1)
          else create_checked env rq source l db1)))"

section \<open>Approval and cancellation\<close>

definition approve_status :: "ident \<Rightarrow> ident \<Rightarrow> core_db \<Rightarrow> (error + withdrawal_row) \<times> core_db" where
  "approve_status n client db =
     (case find_own_withdrawal n client db of
        None \<Rightarrow> (Inl (NotFound ''Withdrawal not found''), db)
      | Some w \<Rightarrow>
          if w_status w \<noteq> PendingApproval
          then (Inl (BadRequest ''Withdrawal cannot be approved''), db)
          else (Inr w, set_status Approved n db))"

definition uses_cosign :: "withdrawal_row \<Rightarrow> ident \<Rightarrow> core_db \<Rightarrow> bool" where
  "uses_cosign w client db =
     (case find (\<lambda>p. pj_id p = w_project w \<and> pj_client p = client) (projects (compliance db)) of
        None \<Rightarrow> False | Some p \<Rightarrow> custody_mode p = ''co_sign'')"

definition approve_cosign ::
    "crypto \<Rightarrow> cosign_env \<Rightarrow> withdrawal_row \<Rightarrow> ident \<Rightarrow> ident \<Rightarrow> core_db \<Rightarrow> (error + unit) \<times> core_db" where
  "approve_cosign cr env w n client db =
     (if uses_cosign w client db
      then (case createCoSignOperation cr env n client (w_project w) db of
              (Inl e, db') \<Rightarrow> (Inl e, db') | (Inr _, db') \<Rightarrow> (Inr (), db'))
      else (Inr (), db))"

text \<open>The answer is the row of the first update, which the co-sign operation does not refresh.\<close>

definition approveWithdrawal ::
    "crypto \<Rightarrow> cosign_env \<Rightarrow> ident \<Rightarrow> ident \<Rightarrow> core_db \<Rightarrow> (error + withdrawal_view) \<times> core_db" where
  "approveWithdrawal cr env n client db =
     (case approve_status n client db of
        (Inl e, db1) \<Rightarrow> (Inl e, db1)
      | (Inr w, db1) \<Rightarrow>
          (case approve_cosign cr env w n client db1 of
             (Inl e, db2) \<Rightarrow> (Inl e, db2)
           | (Inr _, db2) \<Rightarrow> (Inr (formatWithdrawal (w\<lparr>w_status := Approved\<rparr>) None), db2)))"

definition cancelWithdrawal :: "ident \<Rightarrow> ident \<Rightarrow> core_db \<Rightarrow> (error + withdrawal_view) \<times> core_db" where
  "cancelWithdrawal n client db =
     (case find_own_withdrawal n client db of
        None \<Rightarrow> (Inl (NotFound ''Withdrawal not found''), db)
      | Some w \<Rightarrow>
          if w_status w \<noteq> PendingApproval
          then (Inl (BadRequest ''Withdrawal cannot be cancelled''), db)
          else (Inr (formatWithdrawal (w\<lparr>w_status := Cancelled\<rparr>) None), set_status Cancelled n db))"

section \<open>Queries\<close>

definition getWithdrawal :: "ident \<Rightarrow> ident \<Rightarrow> core_db \<Rightarrow> error + withdrawal_view" where
  "getWithdrawal n client db =
     (case find_own_withdrawal n client db of
        None \<Rightarrow> Inl (NotFound ''Withdrawal not found'')
      | Some w \<Rightarrow> Inr (formatWithdrawal w None))"

definition listWithdrawals :: "ident \<Rightarrow> w_status option \<Rightarrow> core_db \<Rightarrow> withdrawal_view list" where
  "listWithdrawals client st db =
     map (\<lambda>w. formatWithdrawal w (find_token (w_token w) db))
       (sort_key (\<lambda>w. - createdAt w)
          (filter (\<lambda>w. w_client w = client \<and> (case st of None \<Rightarrow> True | Some s \<Rightarrow> w_status w = s))
             (withdrawals db)))"

section \<open>What a created withdrawal has passed\<close>

lemma insert_withdrawal_ok:
  assumes "insert_withdrawal w db = (Inr w', db')"
  shows "w' = w\<lparr>w_id := next_withdrawal db\<rparr> \<and> withdrawals db' = withdrawals db @ [w']
    \<and> compliance db' = compliance db \<and> cosigns db' = cosigns db
    \<and> find (\<lambda>x. sql_eq (idempotencyKey x) (idempotencyKey w)) (withdrawals db) = None"
  using assms by (auto simp: insert_withdrawal_def Let_def find_None_iff split: if_splits)

lemma created_ok:
  assumes "created (insert_withdrawal w db) = (Inr r, db')"
  shows "\<not> isIdempotent r \<and> wv_row (cr_withdrawal r) = w\<lparr>w_id := next_withdrawal db\<rparr>
    \<and> insert_withdrawal w db = (Inr (wv_row (cr_withdrawal r)), db')"
  using assms
  by (auto simp: created_def formatWithdrawal_def insert_withdrawal_def Let_def split: if_splits)

text \<open>The destination is an active whitelist entry of the client on the chain, out of its cooldown.\<close>

definition usable_destination :: "millis \<Rightarrow> withdrawal_request \<Rightarrow> core_db \<Rightarrow> whitelist_row \<Rightarrow> bool" where
  "usable_destination now rq db l \<longleftrightarrow>
     l \<in> set (whitelist db) \<and> wl_id l = wr_to rq \<and> wl_client l = wr_client rq \<and> wl_chain l = wr_chain rq
     \<and> wl_status l = ''active'' \<and> (\<forall>t. cooldownEndsAt l = Some t \<longrightarrow> t \<le> now)"

lemma check_whitelist_ok: "check_whitelist now rq db = Inr l \<Longrightarrow> usable_destination now rq db l"
  by (auto simp: check_whitelist_def usable_destination_def split: option.splits if_splits dest!: find_SomeD)

lemma check_token_ok:
  "check_token rq source db = Inr t \<Longrightarrow>
     find_token (wr_token rq) db = Some t \<and> t_active t \<and> t_chain t = wr_chain rq
     \<and> (source = GasTankSource \<longrightarrow> isNative t)"
  by (auto simp: check_token_def split: option.splits if_splits)

text \<open>The amount is covered: by the whole balance of the hot wallet, or by what the gas tank holds
  above its reserve.\<close>

definition covered :: "int \<Rightarrow> source_wallet \<Rightarrow> wei \<Rightarrow> wei \<Rightarrow> core_db \<Rightarrow> bool" where
  "covered chain source n b db \<longleftrightarrow>
     (case source of HotSource \<Rightarrow> n \<le> b
      | GasTankSource \<Rightarrow> (\<exists>k. gas_reserve chain db = Inr k \<and> n + k \<le> b))"

lemma check_balance_ok:
  "check_balance chain source n b db = Inr u \<Longrightarrow> 0 < n \<Longrightarrow> covered chain source n b db"
  by (cases source) (auto simp: check_balance_def covered_def split: sum.splits if_splits)

lemma create_checked_ok:
  assumes "create_checked env rq source l db = (Inr r, db')"
  shows "\<exists>t wal n b. check_token rq source db = Inr t
    \<and> find_wallet (wr_client rq) (wr_chain rq) (source_type source) db = Some wal
    \<and> parseUnits env (wr_amount rq) (decimals t) = Inr n \<and> 0 < n
    \<and> source_balance env rq source t wal = Inr b \<and> covered (wr_chain rq) source n b db
    \<and> created (insert_withdrawal (new_withdrawal env rq l (wal_project wal) source (wal_address wal)
         (show_int n) PendingApproval None) db) = (Inr r, db')"
  using assms
  by (auto simp: create_checked_def intro: check_balance_ok split: sum.splits option.splits if_splits)

lemma createWithdrawal_cases:
  assumes "createWithdrawal env rq db = (Inr r, db')"
  obtains (known) w where
      "find (\<lambda>w. sql_eq (idempotencyKey w) (wr_key rq) \<and> w_client w = wr_client rq) (withdrawals db) = Some w"
      "isIdempotent r" "wv_row (cr_withdrawal r) = w" "db' = db"
  | (listed) l out cdb where "check_whitelist (we_now env) rq db = Inr l" "so_result out = Hit"
      "screenWithdrawal (we_trace env) (we_screened env) (we_project_ok env) (wr_client rq)
         (wl_address l) None (compliance db) = (Inr out, cdb)"
      "created (insert_withdrawal (new_withdrawal env rq l
         (rejected_project (wr_client rq) (db\<lparr>compliance := cdb\<rparr>)) HotSource [] ''0'' Rejected (Some ''hit''))
         (db\<lparr>compliance := cdb\<rparr>)) = (Inr r, db')"
  | (checked) l out cdb where "check_whitelist (we_now env) rq db = Inr l" "so_result out \<noteq> Hit"
      "screenWithdrawal (we_trace env) (we_screened env) (we_project_ok env) (wr_client rq)
         (wl_address l) None (compliance db) = (Inr out, cdb)"
      "create_checked env rq (case wr_source rq of None \<Rightarrow> HotSource | Some s \<Rightarrow> s) l (db\<lparr>compliance := cdb\<rparr>) = (Inr r, db')"
proof (cases "find (\<lambda>w. sql_eq (idempotencyKey w) (wr_key rq) \<and> w_client w = wr_client rq) (withdrawals db)")
  case (Some w)
  then show ?thesis
    using assms by (intro known) (auto simp: createWithdrawal_def formatWithdrawal_def)
next
  case None
  obtain l where l: "check_whitelist (we_now env) rq db = Inr l"
    using assms None by (cases "check_whitelist (we_now env) rq db") (auto simp: createWithdrawal_def)
  obtain out cdb where s: "screenWithdrawal (we_trace env) (we_screened env) (we_project_ok env) (wr_client rq)
         (wl_address l) None (compliance db) = (Inr out, cdb)"
    using assms None l
    by (cases "fst (screenWithdrawal (we_trace env) (we_screened env) (we_project_ok env) (wr_client rq)
         (wl_address l) None (compliance db))") (auto simp: createWithdrawal_def split: prod.splits)
  show ?thesis
  proof (cases "so_result out = Hit")
    case True
    then show ?thesis using assms None l s by (intro listed) (auto simp: createWithdrawal_def Let_def)
  next
    case False
    then show ?thesis using assms None l s by (intro checked) (auto simp: createWithdrawal_def Let_def)
  qed
qed

lemma find_token_compliance [simp]: "find_token n (db\<lparr>compliance := c\<rparr>) = find_token n db"
  and find_wallet_compliance [simp]: "find_wallet a b ty (db\<lparr>compliance := c\<rparr>) = find_wallet a b ty db"
  and covered_compliance [simp]: "covered ch src n b (db\<lparr>compliance := c\<rparr>) = covered ch src n b db"
  by (simp_all add: find_token_def find_wallet_def covered_def gas_reserve_def split: source_wallet.split)

text \<open>Claim C30. Whenever a creation answers with a new withdrawal that awaits approval, exactly that
  row was appended; its destination is an active whitelisted address of that client on that chain,
  past its cooldown and on none of the sanctions lists of the client's level; the token is active
  and on the chain, and native for a gas-tank source; the recorded raw amount is the positive value
  the library parsed; and the balance the node reported for the source wallet covers it, for a
  gas-tank source on top of the reserve.\<close>

theorem pending_withdrawal_has_passed_every_check:
  assumes "createWithdrawal env rq db = (Inr r, db')" and "\<not> isIdempotent r"
    and "w_status (wv_row (cr_withdrawal r)) = PendingApproval"
  shows "\<exists>l c t wal n b src. withdrawals db' = withdrawals db @ [wv_row (cr_withdrawal r)]
    \<and> usable_destination (we_now env) rq db l \<and> toAddress (wv_row (cr_withdrawal r)) = wl_address l
    \<and> find_client (wr_client rq) (compliance db) = Some c \<and> \<not> listed c (wl_address l) (compliance db)
    \<and> find_token (wr_token rq) db = Some t \<and> t_active t \<and> t_chain t = wr_chain rq
    \<and> src = w_source (wv_row (cr_withdrawal r)) \<and> (src = GasTankSource \<longrightarrow> isNative t)
    \<and> find_wallet (wr_client rq) (wr_chain rq) (source_type src) db = Some wal
    \<and> fromWallet (wv_row (cr_withdrawal r)) = wal_address wal
    \<and> parseUnits env (wr_amount rq) (decimals t) = Inr n \<and> 0 < n
    \<and> big_int (amountRaw (wv_row (cr_withdrawal r))) = Some n
    \<and> source_balance env rq src t wal = Inr b \<and> covered (wr_chain rq) src n b db"
  using assms(1)
proof (cases rule: createWithdrawal_cases)
  case (checked l out cdb)
  let ?src = "case wr_source rq of None \<Rightarrow> HotSource | Some s \<Rightarrow> s"
  obtain t wal n b where c: "check_token rq ?src (db\<lparr>compliance := cdb\<rparr>) = Inr t"
    "find_wallet (wr_client rq) (wr_chain rq) (source_type ?src) db = Some wal"
    "parseUnits env (wr_amount rq) (decimals t) = Inr n" "0 < n"
    "source_balance env rq ?src t wal = Inr b" "covered (wr_chain rq) ?src n b db"
    "created (insert_withdrawal (new_withdrawal env rq l (wal_project wal) ?src (wal_address wal)
         (show_int n) PendingApproval None) (db\<lparr>compliance := cdb\<rparr>)) = (Inr r, db')"
    using create_checked_ok [OF checked(4)] by auto
  have "withdrawals db' = withdrawals db @ [wv_row (cr_withdrawal r)]"
    using created_ok [OF c(7)] insert_withdrawal_ok [of _ "db\<lparr>compliance := cdb\<rparr>"] by fastforce
  moreover have "\<exists>cl. find_client (wr_client rq) (compliance db) = Some cl \<and> \<not> listed cl (wl_address l) (compliance db)"
    using screenWithdrawal_outcome [OF checked(3)] checked(2) by auto
  ultimately show ?thesis
    using check_token_ok [OF c(1)] check_whitelist_ok [OF checked(1)] c created_ok [OF c(7)]
    by (auto simp: new_withdrawal_def)
qed (use assms created_ok in \<open>auto simp: new_withdrawal_def\<close>)

definition sample_create :: create_env where
  "sample_create = \<lparr>we_now = 10, we_screened = 11, we_trace = sample_env, we_project_ok = True,
     parseUnits = (\<lambda>s d. if s = ''5'' then Inr 5 else Inl (BadRequest s)),
     getNativeBalance = (\<lambda>_ _. Inr 9), getERC20Balance = (\<lambda>_ _ _. Inl (InternalError [])),
     we_created = 12\<rparr>"

definition sample_request :: withdrawal_request where
  "sample_request = \<lparr>wr_client = 7, wr_chain = 1, wr_token = 1, wr_to = 2, wr_amount = ''5'',
     wr_key = ''k'', wr_source = None\<rparr>"

theorem pending_withdrawal_has_passed_every_check_witness:
  "withdrawals (snd (createWithdrawal sample_create sample_request sample_core)) =
     withdrawals sample_core
       @ [wv_row (cr_withdrawal (projr (fst (createWithdrawal sample_create sample_request sample_core))))]"
proof -
  let ?x = "createWithdrawal sample_create sample_request sample_core"
  have "is_ok (fst ?x)" and 1: "\<not> isIdempotent (projr (fst ?x))"
    and 2: "w_status (wv_row (cr_withdrawal (projr (fst ?x)))) = PendingApproval"
    by code_simp+
  then show ?thesis
    using pending_withdrawal_has_passed_every_check [OF Inr_pair 1 2] by blast
qed

section \<open>Idempotency\<close>

lemma sql_eq_commute: "sql_eq a b \<longleftrightarrow> sql_eq b a"
  by (auto simp: sql_eq_def)

lemma createWithdrawal_known:
  assumes "find (\<lambda>w. sql_eq (idempotencyKey w) (wr_key rq) \<and> w_client w = wr_client rq) (withdrawals db) = Some w"
  shows "createWithdrawal env rq db = (Inr \<lparr>cr_withdrawal = formatWithdrawal w None, isIdempotent = True\<rparr>, db)"
  using assms by (simp add: createWithdrawal_def)

lemma createWithdrawal_finds:
  assumes "createWithdrawal env rq db = (Inr r, db')"
  shows "find (\<lambda>w. sql_eq (idempotencyKey w) (wr_key rq) \<and> w_client w = wr_client rq) (withdrawals db') =
    Some (wv_row (cr_withdrawal r))"
proof -
  have new: ?thesis
    if c: "created (insert_withdrawal w d) = (Inr r, db')" and k: "idempotencyKey w = wr_key rq" "w_client w = wr_client rq"
    for w d
  proof -
    have i: "insert_withdrawal w d = (Inr (wv_row (cr_withdrawal r)), db')"
      using created_ok [OF c] by simp
    then have "find (\<lambda>x. sql_eq (idempotencyKey x) (wr_key rq) \<and> w_client x = wr_client rq) (withdrawals d) = None"
      using insert_withdrawal_ok [OF i] k by (auto simp: find_None_iff)
    then show ?thesis
      using insert_withdrawal_ok [OF i] k by (simp add: find_append_None)
  qed
  from assms show ?thesis
  proof (cases rule: createWithdrawal_cases)
    case (known w)
    then show ?thesis by simp
  next
    case (listed l out cdb)
    show ?thesis by (rule new [OF listed(4)]) (simp_all add: new_withdrawal_def)
  next
    case (checked l out cdb)
    then show ?thesis
      using create_checked_ok [OF checked(4)] by (auto simp: new_withdrawal_def intro: new)
  qed
qed

text \<open>Creating a withdrawal is idempotent: once a request with some key has been answered
  with a withdrawal (even a rejected one), every later request of the client with that key,
  whatever else it asks for and whatever the environment answers, is answered with the same
  withdrawal and changes no table, so no second screening, row or alert is made.\<close>

lemma creation_is_idempotent:
  assumes "createWithdrawal env rq db = (Inr r, db')"
    and "wr_client rq' = wr_client rq" and "sql_eq (wr_key rq') (wr_key rq)"
  shows "createWithdrawal env' rq' db' =
    (Inr \<lparr>cr_withdrawal = formatWithdrawal (wv_row (cr_withdrawal r)) None, isIdempotent = True\<rparr>, db')"
proof (rule createWithdrawal_known)
  show "find (\<lambda>w. sql_eq (idempotencyKey w) (wr_key rq') \<and> w_client w = wr_client rq') (withdrawals db') =
      Some (wv_row (cr_withdrawal r))"
    using createWithdrawal_finds [OF assms(1)] assms(2,3) by (simp add: sql_eq_def)
qed

lemma creation_is_idempotent_witness:
  "snd (createWithdrawal sample_create (sample_request\<lparr>wr_amount := ''junk'', wr_key := ''K''\<rparr>)
       (snd (createWithdrawal sample_create sample_request sample_core)))
     = snd (createWithdrawal sample_create sample_request sample_core)"
proof -
  have "is_ok (fst (createWithdrawal sample_create sample_request sample_core))"
    and "sql_eq ''K'' ''k''" by code_simp+
  then show ?thesis
    using creation_is_idempotent [OF Inr_pair, of sample_create sample_request sample_core
        "sample_request\<lparr>wr_amount := ''junk'', wr_key := ''K''\<rparr>" sample_create]
    by (simp add: sample_request_def)
qed

text \<open>The look-up of an earlier request is per client but the unique key of the table is
  not: a client whose key text is already used by another client's withdrawal never gets a
  withdrawal with it. Each attempt fails, after the destination was screened and recorded, with the
  withdrawals unchanged.\<close>

theorem idempotency_keys_collide_across_tenants:
  assumes "x \<in> set (withdrawals db)" and "sql_eq (idempotencyKey x) (wr_key rq)"
    and "find (\<lambda>w. sql_eq (idempotencyKey w) (wr_key rq) \<and> w_client w = wr_client rq) (withdrawals db) = None"
  shows "\<not> is_ok (fst (createWithdrawal env rq db))
    \<and> withdrawals (snd (createWithdrawal env rq db)) = withdrawals db"
proof -
  have ins: "created (insert_withdrawal (new_withdrawal env rq l p s a raw st k) (db\<lparr>compliance := c\<rparr>)) =
      (Inl (InternalError ''unique constraint''), db\<lparr>compliance := c\<rparr>)" for l p s a raw st k c
    using assms(1,2) by (auto simp: insert_withdrawal_def created_def new_withdrawal_def)
  have chk: "\<not> is_ok (fst (create_checked env rq s l (db\<lparr>compliance := c\<rparr>)))
      \<and> withdrawals (snd (create_checked env rq s l (db\<lparr>compliance := c\<rparr>))) = withdrawals db" for s l c
    by (simp add: create_checked_def ins split: sum.splits option.splits)
  show ?thesis
    using assms(3) by (simp add: createWithdrawal_def Let_def ins chk split: sum.splits prod.splits)
qed

theorem idempotency_keys_collide_across_tenants_witness:
  "\<not> is_ok (fst (createWithdrawal sample_create (sample_request\<lparr>wr_client := 8, wr_key := show_int 5\<rparr>) sample_core))"
  using idempotency_keys_collide_across_tenants
    [of "sample_withdrawal 5 PendingCosign" sample_core "sample_request\<lparr>wr_client := 8, wr_key := show_int 5\<rparr>"
      sample_create]
  by (simp add: sample_core_def sample_withdrawal_def)

section \<open>Approval\<close>

lemma approve_status_pending:
  assumes "find_own_withdrawal n client db = Some w"
  shows "w_status w = PendingApproval \<Longrightarrow> approve_status n client db = (Inr w, set_status Approved n db)"
    and "w_status w \<noteq> PendingApproval \<Longrightarrow>
      approve_status n client db = (Inl (BadRequest ''Withdrawal cannot be approved''), db)"
  using assms by (simp_all add: approve_status_def)

lemma find_own_withdrawal_id:
  "find_own_withdrawal n client db = Some w \<Longrightarrow> w_id w = n \<and> w_client w = client \<and> w \<in> set (withdrawals db)"
  by (auto simp: find_own_withdrawal_def dest: find_SomeD)

lemma find_withdrawal_own:
  "find_own_withdrawal n client db = Some w \<Longrightarrow> find_withdrawal n db \<noteq> None"
  by (auto simp: find_withdrawal_def find_None_iff dest!: find_own_withdrawal_id)

lemma uses_cosign_set_status [simp]: "uses_cosign w client (set_status st n db) = uses_cosign w client db"
  by (simp add: uses_cosign_def)

text \<open>Approving a withdrawal that does not await approval changes nothing. For a project
  without co-signing the approval always succeeds and the withdrawal becomes approved. For a
  co-sign project a successful approval leaves it pending co-sign, with one new pending operation
  whose hash is the operation hash of that withdrawal and whose key is the one the vault answered.\<close>

lemma approval_routes_by_custody:
  assumes "find_own_withdrawal n client db = Some w"
  shows "(w_status w \<noteq> PendingApproval \<longrightarrow>
        \<not> is_ok (fst (approveWithdrawal cr env n client db)) \<and> snd (approveWithdrawal cr env n client db) = db)
    \<and> (w_status w = PendingApproval \<and> \<not> uses_cosign w client db \<longrightarrow>
        is_ok (fst (approveWithdrawal cr env n client db))
        \<and> status_of n (snd (approveWithdrawal cr env n client db)) = Some Approved
        \<and> cosigns (snd (approveWithdrawal cr env n client db)) = cosigns db)
    \<and> (w_status w = PendingApproval \<and> uses_cosign w client db \<and> is_ok (fst (approveWithdrawal cr env n client db)) \<longrightarrow>
        status_of n (snd (approveWithdrawal cr env n client db)) = Some PendingCosign
        \<and> (\<exists>c w' wal. cosigns (snd (approveWithdrawal cr env n client db)) = cosigns db @ [c]
             \<and> co_withdrawal c = n \<and> co_status c = CoPending
             \<and> find_own_withdrawal n client (set_status Approved n db) = Some w'
             \<and> buildOperationHash cr (cosign_params env w' wal (w_project w) (set_status Approved n db))
                  = Inr (operation_hash c)
             \<and> getClientKeyAddress (ce_reply env) = Inr (client_address c)))"
proof (intro conjI impI)
  assume "w_status w \<noteq> PendingApproval"
  then show "\<not> is_ok (fst (approveWithdrawal cr env n client db))"
    "snd (approveWithdrawal cr env n client db) = db"
    using approve_status_pending [OF assms] by (simp_all add: approveWithdrawal_def)
next
  assume p: "w_status w = PendingApproval \<and> \<not> uses_cosign w client db"
  then show "is_ok (fst (approveWithdrawal cr env n client db))"
    "status_of n (snd (approveWithdrawal cr env n client db)) = Some Approved"
    "cosigns (snd (approveWithdrawal cr env n client db)) = cosigns db"
    using approve_status_pending [OF assms] find_withdrawal_own [OF assms]
    by (simp_all add: approveWithdrawal_def approve_cosign_def status_of_set_status)
next
  let ?db = "set_status Approved n db"
  assume p: "w_status w = PendingApproval \<and> uses_cosign w client db
    \<and> is_ok (fst (approveWithdrawal cr env n client db))"
  then have c: "is_ok (fst (createCoSignOperation cr env n client (w_project w) ?db))"
    and r: "snd (approveWithdrawal cr env n client db) = snd (createCoSignOperation cr env n client (w_project w) ?db)"
    using approve_status_pending [OF assms]
    by (auto simp: approveWithdrawal_def approve_cosign_def split: prod.splits sum.splits)
  obtain w' wal h key db1 evs where w': "find_own_withdrawal n client ?db = Some w'"
    and h: "buildOperationHash cr (cosign_params env w' wal (w_project w) ?db) = Inr h"
    and key: "getClientKeyAddress (ce_reply env) = Inr key"
    and db1: "insert_cosign (new_cosign env w' wal n client (w_project w) h key ?db) ?db = Inr db1"
    and s: "snd (createCoSignOperation cr env n client (w_project w) ?db) =
         set_status PendingCosign n db1\<lparr>streams := streams ?db @ evs\<rparr>"
    using c by (cases rule: createCoSignOperation_cases [of cr env n client "w_project w" ?db]) auto
  have "find_withdrawal n db1 \<noteq> None"
    using insert_cosign_ok [OF db1] find_withdrawal_own [OF w'] by (simp add: find_withdrawal_def)
  then have "status_of n (set_status PendingCosign n db1) = Some PendingCosign"
    by (simp add: status_of_set_status)
  then show "status_of n (snd (approveWithdrawal cr env n client db)) = Some PendingCosign"
    by (simp add: r s status_of_def find_withdrawal_def)
  show "\<exists>c w' wal. cosigns (snd (approveWithdrawal cr env n client db)) = cosigns db @ [c]
             \<and> co_withdrawal c = n \<and> co_status c = CoPending
             \<and> find_own_withdrawal n client ?db = Some w'
             \<and> buildOperationHash cr (cosign_params env w' wal (w_project w) ?db) = Inr (operation_hash c)
             \<and> getClientKeyAddress (ce_reply env) = Inr (client_address c)"
    using insert_cosign_ok [OF db1] w' h key
    by (intro exI [of _ "new_cosign env w' wal n client (w_project w) h key ?db"] exI [of _ w'] exI [of _ wal])
       (simp add: r s new_cosign_def)
qed

definition approving_core :: core_db where
  "approving_core = sample_core\<lparr>withdrawals := [sample_withdrawal 5 PendingApproval], cosigns := []\<rparr>"

definition sample_cosign_env :: "http_reply \<Rightarrow> cosign_env" where
  "sample_cosign_env r = \<lparr>ce_now = 0, ce_insert = 0, ce_reply = r, ce_op_id = ''op'', ce_stream_ok = True\<rparr>"

lemma approval_routes_by_custody_witness:
  "status_of 5 (snd (approveWithdrawal sample_crypto (sample_cosign_env (NoReply [])) 5 7 approving_core)) = Some Approved"
proof -
  have "find_own_withdrawal 5 7 approving_core = Some (sample_withdrawal 5 PendingApproval)"
    by (simp add: find_own_withdrawal_def approving_core_def sample_withdrawal_def)
  moreover have "\<not> uses_cosign (sample_withdrawal 5 PendingApproval) 7 approving_core"
    by code_simp
  ultimately show ?thesis
    using approval_routes_by_custody [of 5 7 approving_core "sample_withdrawal 5 PendingApproval" sample_crypto
        "sample_cosign_env (NoReply [])"]
    by (simp add: sample_withdrawal_def)
qed

text \<open>In a co-sign project the approval sets the status to approved before it creates the
  co-sign operation, so when the key vault cannot be reached (or refuses) the caller gets an error
  but the withdrawal stays approved with no co-sign operation: the state in which the worker
  executes a withdrawal without asking for the client's signature.\<close>

lemma failed_cosign_leaves_the_withdrawal_approved:
  assumes "find_own_withdrawal n client db = Some w" and "w_status w = PendingApproval"
    and "uses_cosign w client db" and "\<not> is_ok (getClientKeyAddress (ce_reply env))"
  shows "\<not> is_ok (fst (approveWithdrawal cr env n client db))
    \<and> status_of n (snd (approveWithdrawal cr env n client db)) = Some Approved
    \<and> cosigns (snd (approveWithdrawal cr env n client db)) = cosigns db"
proof -
  obtain e where k: "getClientKeyAddress (ce_reply env) = Inl e"
    using assms(4) by (cases "getClientKeyAddress (ce_reply env)") simp_all
  have "\<exists>e. createCoSignOperation cr env n client (w_project w) (set_status Approved n db) =
      (Inl e, set_status Approved n db)"
    by (auto simp: createCoSignOperation_def k split: option.splits sum.splits)
  then show ?thesis
    using approve_status_pending(1) [OF assms(1,2)] assms(3) find_withdrawal_own [OF assms(1)]
    by (auto simp: approveWithdrawal_def approve_cosign_def status_of_set_status)
qed

definition cosign_core :: core_db where
  "cosign_core = approving_core\<lparr>compliance := sample_db\<lparr>projects :=
     [\<lparr>pj_id = 3, pj_client = 7, pj_active = True, pj_default = True, custody_mode = ''co_sign''\<rparr>]\<rparr>\<rparr>"

lemma failed_cosign_leaves_the_withdrawal_approved_witness:
  "status_of 5 (snd (approveWithdrawal sample_crypto (sample_cosign_env (NoReply ''down'')) 5 7 cosign_core)) = Some Approved"
proof -
  have "find_own_withdrawal 5 7 cosign_core = Some (sample_withdrawal 5 PendingApproval)"
    by (simp add: find_own_withdrawal_def cosign_core_def approving_core_def sample_withdrawal_def)
  moreover have "uses_cosign (sample_withdrawal 5 PendingApproval) 7 cosign_core"
    by code_simp
  ultimately show ?thesis
    using failed_cosign_leaves_the_withdrawal_approved [of 5 7 cosign_core "sample_withdrawal 5 PendingApproval"
        "sample_cosign_env (NoReply ''down'')" sample_crypto]
    by (simp add: sample_withdrawal_def sample_cosign_env_def getClientKeyAddress_def)
qed

end
