(* ===== verification/WithdrawalWorker.thy ===== *)
theory WithdrawalWorker
  imports Withdrawal
begin

text \<open>
  The cron worker's withdrawal jobs: operation-hash.ts, key-resolver.service.ts,
  withdrawal-worker.service.ts, withdrawal-confirm.service.ts and the \<open>signAndSubmit\<close> of
  sweep/transaction-submitter.service.ts (all under services/cron-worker-service/src). The answers
  of the node and of the key vault during one attempt, and the outcome of the writes after the
  broadcast, are the fields of \<open>attempt\<close>. Call data are kept as the call they encode; what reached
  the network is the list \<open>sent\<close>. The writes of the error handler itself are taken to succeed.
\<close>

section \<open>Operation hashes\<close>

record native_hash_input =
  nh_chain :: int
  nh_wallet :: string
  nh_to :: string
  nh_value :: int
  nh_data :: string
  nh_expire :: int
  nh_sequence :: int

record erc20_hash_input =
  eh_chain :: int
  eh_wallet :: string
  eh_to :: string
  eh_value :: int
  eh_token :: string
  eh_expire :: int
  eh_sequence :: int

definition buildNativeOperationHash :: "crypto \<Rightarrow> native_hash_input \<Rightarrow> error + string" where
  "buildNativeOperationHash cr p =
     abi_hash cr [AString (show_int (nh_chain p)), AAddress (nh_wallet p), AAddress (nh_to p),
       AUint (nh_value p), ABytes (nh_data p), AUint (nh_expire p), AUint (nh_sequence p)]"

definition buildErc20OperationHash :: "crypto \<Rightarrow> erc20_hash_input \<Rightarrow> error + string" where
  "buildErc20OperationHash cr p =
     abi_hash cr [AString (show_int (eh_chain p) @ ''-ERC20''), AAddress (eh_wallet p), AAddress (eh_to p),
       AUint (eh_value p), AAddress (eh_token p), AUint (eh_expire p), AUint (eh_sequence p)]"

section \<open>State\<close>

datatype key_type = PlatformKey | ClientKey | BackupKey | GasTankKey

record key_row =
  k_id :: ident
  k_client :: ident
  k_type :: key_type
  k_address :: string
  k_active :: bool

datatype call_data =
    SendMultiSig string int string int int string
  | SendMultiSigToken string int string int int string
  | RawData string

datatype gas_price = Eip1559 int int | Legacy int

record outer_tx =
  tx_to :: string
  tx_data :: call_data
  tx_value :: int
  tx_gasLimit :: int
  tx_nonce :: int
  tx_chain :: int
  tx_price :: gas_price

record fee_data =
  maxFeePerGas :: "int option"
  maxPriorityFeePerGas :: "int option"
  gasPrice :: "int option"

record job =
  attemptsMade :: int
  opt_attempts :: "int option"

record confirm_job =
  cj_withdrawal :: ident
  cj_hash :: string
  cj_chain :: int

text \<open>\<open>executes\<close> are the job identifiers the queue holds (waiting, active, or kept after they ended),
  \<open>cache\<close> the addresses the key resolver remembers, \<open>sent\<close> the broadcast transactions with the
  client and key that signed them.\<close>

record worker_state =
  core :: core_db
  executes :: "string list"
  confirms :: "confirm_job list"
  keys :: "key_row list"
  cache :: "((ident \<times> key_type) \<times> string) list"
  sent :: "(ident \<times> key_type \<times> outer_tx) list"
  reports :: "(int \<times> bool) list"

record attempt =
  at_now :: millis
  at_submitted :: millis
  at_failed :: millis
  provider_up :: "int \<Rightarrow> bool"
  getNextSequenceId :: "string \<Rightarrow> error + int"
  eth_prefix :: "string \<Rightarrow> error + string"
  vault_sign :: "ident \<Rightarrow> key_type \<Rightarrow> string \<Rightarrow> http_reply"
  getTransactionCount :: "string \<Rightarrow> error + int"
  getFeeData :: "error + fee_data"
  estimateGas :: "string \<Rightarrow> string \<Rightarrow> call_data \<Rightarrow> error + int"
  vault_sign_tx :: "ident \<Rightarrow> key_type \<Rightarrow> outer_tx \<Rightarrow> http_reply"
  broadcast :: "string \<Rightarrow> error + string"
  update_ok :: bool
  confirm_ok :: bool
  stream_ok :: "bool \<times> bool"
  iso_time :: "millis \<Rightarrow> string"

datatype job_status = JobBroadcasting | JobFailed

record job_result =
  jr_id :: ident
  jr_hash :: string
  jr_sequence :: int
  jr_status :: job_status

text \<open>The worker's retry budget and lifetimes as configured by default.\<close>

definition EXPIRE_SECONDS :: int where
  "EXPIRE_SECONDS = 3600"

section \<open>Keys\<close>

text \<open>\<open>ORDER BY id DESC LIMIT 1\<close> among the active keys of the client and type. An empty cached address
  is falsy and does not hit.\<close>

definition resolveAddress :: "ident \<Rightarrow> key_type \<Rightarrow> worker_state \<Rightarrow> (error + string) \<times> worker_state" where
  "resolveAddress client ty st =
     (case or_null (map_of (cache st) (client, ty)) of
        Some a \<Rightarrow> (Inr a, st)
      | None \<Rightarrow>
          (case rev (sort_key k_id (filter (\<lambda>k. k_client k = client \<and> k_type k = ty \<and> k_active k) (keys st))) of
             [] \<Rightarrow> (Inl (InternalError ''No active key found''), st)
           | k # _ \<Rightarrow> (Inr (k_address k), st\<lparr>cache := ((client, ty), k_address k) # cache st\<rparr>)))"

definition signViaKeyVault :: "attempt \<Rightarrow> ident \<Rightarrow> string \<Rightarrow> error + string" where
  "signViaKeyVault at client h =
     (case vault_sign at client BackupKey h of
        NoReply e \<Rightarrow> Inl (InternalError e)
      | Reply code body sig \<Rightarrow>
          if \<not> (200 \<le> code \<and> code \<le> 299) then Inl (InternalError ''Key Vault sign failed'')
          else (case sig of None \<Rightarrow> Inl (InternalError ''no signature'') | Some s \<Rightarrow> Inr s))"

section \<open>Pricing, signing and sending\<close>

definition gas_limit :: "int \<Rightarrow> error + int \<Rightarrow> int" where
  "gas_limit fallback est = (case est of Inl _ \<Rightarrow> fallback | Inr g \<Rightarrow> g * 120 div 100)"

definition gas_pricing :: "fee_data \<Rightarrow> error + gas_price" where
  "gas_pricing f =
     (case maxFeePerGas f of
        Some m \<Rightarrow> Inr (Eip1559 m (case maxPriorityFeePerGas f of None \<Rightarrow> 0 | Some p \<Rightarrow> p))
      | None \<Rightarrow> (case gasPrice f of Some g \<Rightarrow> Inr (Legacy g)
                 | None \<Rightarrow> Inl (InternalError ''Unable to determine gas price'')))"

text \<open>The key vault signs the transaction (its reply carries the signed text, absent when the vault
  reports no success), and the node takes it.\<close>

definition sign_and_broadcast ::
    "attempt \<Rightarrow> ident \<Rightarrow> key_type \<Rightarrow> outer_tx \<Rightarrow> worker_state \<Rightarrow> (error + string) \<times> worker_state" where
  "sign_and_broadcast at client ty tx st =
     (case vault_sign_tx at client ty tx of
        NoReply e \<Rightarrow> (Inl (InternalError e), st)
      | Reply code body signed \<Rightarrow>
          if \<not> (200 \<le> code \<and> code \<le> 299) then (Inl (InternalError ''Key Vault sign-transaction failed''), st)
          else (case or_null signed of
              None \<Rightarrow> (Inl (InternalError ''Key Vault sign-transaction returned unsuccessful''), st)
            | Some raw \<Rightarrow>
                (case broadcast at raw of
                   Inl e \<Rightarrow> (Inl e, st)
                 | Inr h \<Rightarrow> (Inr h, st\<lparr>sent := sent st @ [(client, ty, tx)]\<rparr>))))"

text \<open>\<open>signAndSubmit\<close> with an empty \<open>from\<close> and no given gas limit, as the gas-tank path calls it.\<close>

definition signAndSubmit ::
    "attempt \<Rightarrow> int \<Rightarrow> ident \<Rightarrow> string \<Rightarrow> call_data \<Rightarrow> int \<Rightarrow> key_type \<Rightarrow> worker_state \<Rightarrow>
     (error + string) \<times> worker_state" where
  "signAndSubmit at chain client dest data value ty st =
     (case filter (\<lambda>k. k_client k = client \<and> k_type k = ty \<and> k_active k) (keys st) of
        [] \<Rightarrow> (Inl (InternalError ''No active key found''), st)
      | k # _ \<Rightarrow>
          if \<not> provider_up at chain then (Inl (InternalError ''provider''), st)
          else
     (case getTransactionCount at (k_address k) of
        Inl e \<Rightarrow> (Inl e, st)
      | Inr nonce \<Rightarrow>
     (case getFeeData at of
        Inl e \<Rightarrow> (Inl e, st)
      | Inr fee \<Rightarrow>
     (case gas_pricing fee of
        Inl e \<Rightarrow> (Inl e, st)
      | Inr price \<Rightarrow>
          sign_and_broadcast at client ty
            \<lparr>tx_to = dest, tx_data = data, tx_value = value,
             tx_gasLimit = gas_limit 150000 (estimateGas at (k_address k) dest data),
             tx_nonce = nonce, tx_chain = chain, tx_price = price\<rparr> st))))"

section \<open>Polling\<close>

definition job_id :: "ident \<Rightarrow> string" where
  "job_id n = ''execute-withdrawal-'' @ show_int n"

definition enqueue :: "withdrawal_row \<Rightarrow> worker_state \<Rightarrow> worker_state" where
  "enqueue w st = (if job_id (w_id w) \<in> set (executes st) then st
     else st\<lparr>executes := executes st @ [job_id (w_id w)]\<rparr>)"

definition pollApprovedWithdrawals :: "worker_state \<Rightarrow> nat \<times> worker_state" where
  "pollApprovedWithdrawals st =
     (let approved = take 50 (sort_key createdAt (filter (\<lambda>w. w_status w = Approved) (withdrawals (core st))))
      in (length approved, fold enqueue approved st))"

section \<open>Executing a withdrawal\<close>

definition claim :: "ident \<Rightarrow> core_db \<Rightarrow> nat \<times> core_db" where
  "claim n db =
     (count_where (\<lambda>w. w_id w = n \<and> w_status w = Approved) (withdrawals db),
      update_withdrawals (\<lambda>w. w_id w = n \<and> w_status w = Approved) (\<lambda>w. w\<lparr>w_status := Broadcasting\<rparr>) db)"

definition set_core :: "(core_db \<Rightarrow> core_db) \<Rightarrow> worker_state \<Rightarrow> worker_state" where
  "set_core f st = st\<lparr>core := f (core st)\<rparr>"

text \<open>The writes after a broadcast: the row, the confirmation job (one per withdrawal, by its job
  identifier), the two publications; the first failure leaves the rest undone.\<close>

definition add_confirm :: "confirm_job \<Rightarrow> worker_state \<Rightarrow> worker_state" where
  "add_confirm j st = (if cj_withdrawal j \<in> cj_withdrawal ` set (confirms st) then st
     else st\<lparr>confirms := confirms st @ [j]\<rparr>)"

definition record_broadcast ::
    "attempt \<Rightarrow> withdrawal_row \<Rightarrow> string \<Rightarrow> int option \<Rightarrow> (string \<times> string) list \<Rightarrow> worker_state \<Rightarrow>
     (error + unit) \<times> worker_state" where
  "record_broadcast at w h seq payload st =
     (if \<not> update_ok at then (Inl (InternalError ''database''), st)
      else
        let st1 = set_core (update_withdrawals (\<lambda>x. w_id x = w_id w)
              (\<lambda>x. x\<lparr>w_txHash := Some h, w_sequence := (case seq of None \<Rightarrow> w_sequence x | Some s \<Rightarrow> Some s),
                     submittedAt := Some (at_submitted at)\<rparr>)) st
        in if \<not> confirm_ok at then (Inl (InternalError ''queue''), st1)
           else
             let st2 = add_confirm \<lparr>cj_withdrawal = w_id w, cj_hash = h, cj_chain = w_chain w\<rparr> st1
             in if \<not> fst (stream_ok at) then (Inl (InternalError ''redis''), st2)
                else
                  let st3 = set_core (publish ''withdrawals:broadcasting'' payload) st2
                  in if \<not> snd (stream_ok at) then (Inl (InternalError ''redis''), st3)
                     else (Inr (), set_core (publish ''withdrawals:submitted'' payload) st3))"

definition hot_payload :: "attempt \<Rightarrow> withdrawal_row \<Rightarrow> string \<Rightarrow> int \<Rightarrow> (string \<times> string) list" where
  "hot_payload at w h seq =
     [(''withdrawalId'', show_int (w_id w)), (''clientId'', show_int (w_client w)),
      (''chainId'', show_int (w_chain w)), (''txHash'', h), (''toAddress'', toAddress w),
      (''amount'', w_amount w), (''amountRaw'', amountRaw w), (''sequenceId'', show_int seq),
      (''timestamp'', iso_time at (at_submitted at))]"

definition operation_hash_of ::
    "crypto \<Rightarrow> token_row \<Rightarrow> withdrawal_row \<Rightarrow> string \<Rightarrow> int \<Rightarrow> int \<Rightarrow> int \<Rightarrow> error + string" where
  "operation_hash_of cr t w wallet value expire seq =
     (if isNative t
      then buildNativeOperationHash cr \<lparr>nh_chain = w_chain w, nh_wallet = wallet, nh_to = toAddress w,
             nh_value = value, nh_data = ''0x'', nh_expire = expire, nh_sequence = seq\<rparr>
      else buildErc20OperationHash cr \<lparr>eh_chain = w_chain w, eh_wallet = wallet, eh_to = toAddress w,
             eh_value = value, eh_token = contractAddress t, eh_expire = expire, eh_sequence = seq\<rparr>)"

definition wallet_call :: "token_row \<Rightarrow> withdrawal_row \<Rightarrow> int \<Rightarrow> int \<Rightarrow> int \<Rightarrow> string \<Rightarrow> call_data" where
  "wallet_call t w value expire seq sig =
     (if isNative t then SendMultiSig (toAddress w) value ''0x'' expire seq sig
      else SendMultiSigToken (toAddress w) value (contractAddress t) expire seq sig)"

text \<open>The first half of the \<open>try\<close> block: from the token to the call to send.\<close>

definition prepare_call ::
    "crypto \<Rightarrow> attempt \<Rightarrow> withdrawal_row \<Rightarrow> worker_state \<Rightarrow> error + (string \<times> int \<times> call_data)" where
  "prepare_call cr at w st =
     (case find_token (w_token w) (core st) of
        None \<Rightarrow> Inl (InternalError ''Token not found'')
      | Some t \<Rightarrow>
     (case find_wallet (w_client w) (w_chain w) HotWallet (core st) of
        None \<Rightarrow> Inl (InternalError ''Hot wallet not found'')
      | Some wal \<Rightarrow>
          if \<not> provider_up at (w_chain w) then Inl (InternalError ''provider'')
          else
     (case getNextSequenceId at (wal_address wal) of
        Inl e \<Rightarrow> Inl e
      | Inr seq \<Rightarrow>
          let expire = at_now at div 1000 + EXPIRE_SECONDS in
     (case big_int (amountRaw w) of
        None \<Rightarrow> Inl (InternalError ''SyntaxError'')
      | Some value \<Rightarrow>
     (case operation_hash_of cr t w (wal_address wal) value expire seq of
        Inl e \<Rightarrow> Inl e
      | Inr h \<Rightarrow>
     (case eth_prefix at h of
        Inl e \<Rightarrow> Inl e
      | Inr ph \<Rightarrow>
     (case signViaKeyVault at (w_client w) ph of
        Inl e \<Rightarrow> Inl e
      | Inr sig \<Rightarrow> Inr (wal_address wal, seq, wallet_call t w value expire seq sig))))))))"

text \<open>The second half: the platform key signs the outer transaction, the node takes it.\<close>

definition send_call ::
    "attempt \<Rightarrow> withdrawal_row \<Rightarrow> string \<Rightarrow> call_data \<Rightarrow> worker_state \<Rightarrow> (error + string) \<times> worker_state" where
  "send_call at w wallet data st =
     (case resolveAddress (w_client w) PlatformKey st of
        (Inl e, st1) \<Rightarrow> (Inl e, st1)
      | (Inr from_addr, st1) \<Rightarrow>
     (case getTransactionCount at from_addr of
        Inl e \<Rightarrow> (Inl e, st1)
      | Inr nonce \<Rightarrow>
     (case getFeeData at of
        Inl e \<Rightarrow> (Inl e, st1)
      | Inr fee \<Rightarrow>
     (case gas_pricing fee of
        Inl e \<Rightarrow> (Inl e, st1)
      | Inr price \<Rightarrow>
          sign_and_broadcast at (w_client w) PlatformKey
            \<lparr>tx_to = wallet, tx_data = data, tx_value = 0,
             tx_gasLimit = gas_limit 300000 (estimateGas at from_addr wallet data),
             tx_nonce = nonce, tx_chain = w_chain w, tx_price = price\<rparr> st1))))"

definition hot_attempt ::
    "crypto \<Rightarrow> attempt \<Rightarrow> withdrawal_row \<Rightarrow> worker_state \<Rightarrow> (error + job_result) \<times> worker_state" where
  "hot_attempt cr at w st =
     (case prepare_call cr at w st of
        Inl e \<Rightarrow> (Inl e, st)
      | Inr (wallet, seq, data) \<Rightarrow>
     (case send_call at w wallet data st of
        (Inl e, st1) \<Rightarrow> (Inl e, st1)
      | (Inr h, st1) \<Rightarrow>
     (case record_broadcast at w h (Some seq) (hot_payload at w h seq) st1 of
        (Inl e, st2) \<Rightarrow> (Inl e, st2)
      | (Inr _, st2) \<Rightarrow>
          (Inr \<lparr>jr_id = w_id w, jr_hash = h, jr_sequence = seq, jr_status = JobBroadcasting\<rparr>,
           st2\<lparr>reports := reports st2 @ [(w_chain w, True)]\<rparr>))))"

text \<open>The handler of the \<open>catch\<close>: the last attempt fails the withdrawal, the others put it back.\<close>

definition on_error ::
    "attempt \<Rightarrow> job \<Rightarrow> withdrawal_row \<Rightarrow> error \<Rightarrow> worker_state \<Rightarrow> worker_state" where
  "on_error at jb w e st =
     (let st1 = st\<lparr>reports := reports st @ [(w_chain w, False)]\<rparr>;
          max_attempts = (case opt_attempts jb of None \<Rightarrow> 3 | Some m \<Rightarrow> m)
      in if attemptsMade jb + 1 \<ge> max_attempts
         then set_core (\<lambda>db. publish ''withdrawals:failed''
                [(''withdrawalId'', show_int (w_id w)), (''clientId'', show_int (w_client w)),
                 (''chainId'', show_int (w_chain w)), (''toAddress'', toAddress w),
                 (''amount'', w_amount w), (''error'', error_text e), (''attempts'', show_int (attemptsMade jb + 1)),
                 (''timestamp'', iso_time at (at_failed at))]
                (set_status Failed (w_id w) db)) st1
         else set_core (set_status Approved (w_id w)) st1)"

definition executeGasTankWithdrawal ::
    "attempt \<Rightarrow> withdrawal_row \<Rightarrow> worker_state \<Rightarrow> (error + job_result) \<times> worker_state" where
  "executeGasTankWithdrawal at w st =
     (case big_int (amountRaw w) of
        None \<Rightarrow> (Inl (InternalError ''SyntaxError''), st)
      | Some value \<Rightarrow>
     (case signAndSubmit at (w_chain w) (w_client w) (toAddress w) (RawData ''0x'') value GasTankKey st of
        (Inl e, st1) \<Rightarrow> (Inl e, st1)
      | (Inr h, st1) \<Rightarrow>
     (case record_broadcast at w h None
             [(''withdrawalId'', show_int (w_id w)), (''clientId'', show_int (w_client w)),
              (''chainId'', show_int (w_chain w)), (''sourceWallet'', ''gas_tank''), (''txHash'', h),
              (''timestamp'', iso_time at (at_submitted at))] st1 of
        (Inl e, st2) \<Rightarrow> (Inl e, st2)
      | (Inr _, st2) \<Rightarrow>
          (Inr \<lparr>jr_id = w_id w, jr_hash = h, jr_sequence = 0, jr_status = JobBroadcasting\<rparr>, st2))))"

definition executeWithdrawal ::
    "crypto \<Rightarrow> attempt \<Rightarrow> job \<Rightarrow> ident \<Rightarrow> worker_state \<Rightarrow> (error + job_result) \<times> worker_state" where
  "executeWithdrawal cr at jb n st =
     (case claim n (core st) of (claimed, db1) \<Rightarrow>
        let st1 = st\<lparr>core := db1\<rparr> in
        if claimed \<noteq> 1
        then (Inr \<lparr>jr_id = n, jr_hash = [], jr_sequence = 0, jr_status = JobFailed\<rparr>, st1)
        else
     (case find_withdrawal n db1 of
        None \<Rightarrow> (Inl (InternalError ''not found after claiming''), st1)
      | Some w \<Rightarrow>
          if w_source w = GasTankSource then executeGasTankWithdrawal at w st1
          else (case hot_attempt cr at w st1 of
              (Inr r, st2) \<Rightarrow> (Inr r, st2)
            | (Inl e, st2) \<Rightarrow> (Inl e, on_error at jb w e st2))))"

section \<open>Confirming a withdrawal\<close>

record receipt =
  rc_status :: int
  rc_block :: int
  rc_gasUsed :: int
  rc_gasPrice :: "int option"

record confirm_env =
  cf_provider :: bool
  cf_receipt :: "error + receipt option"
  cf_block :: "error + int"
  cf_now :: millis
  cf_iso :: "millis \<Rightarrow> string"
  formatEther :: "int \<Rightarrow> string"

datatype confirm_result = WithdrawalConfirmed int string | WithdrawalReverted

definition required_confirmations :: "int \<Rightarrow> core_db \<Rightarrow> int" where
  "required_confirmations chain db =
     (case find (\<lambda>c. c_id c = chain) (chains db) of None \<Rightarrow> 12 | Some c \<Rightarrow> confirmationsDefault c)"

text \<open>The payload of the confirmed event reads \<open>clientId\<close>, \<open>toAddress\<close> and \<open>amountRaw\<close> from the raw row,
  whose columns are named \<open>client_id\<close>, \<open>to_address\<close> and \<open>amount_raw\<close>: the three fields are empty.\<close>

definition confirmed_payload ::
    "confirm_env \<Rightarrow> confirm_job \<Rightarrow> string \<Rightarrow> int \<Rightarrow> int \<Rightarrow> receipt \<Rightarrow> core_db \<Rightarrow> (string \<times> string) list" where
  "confirmed_payload env j cost cost_wei confs rc db =
     [(''withdrawalId'', show_int (cj_withdrawal j)), (''clientId'', []),
      (''chainId'', show_int (cj_chain j)), (''txHash'', cj_hash j), (''toAddress'', []),
      (''amount'', case find_withdrawal (cj_withdrawal j) db of None \<Rightarrow> [] | Some w \<Rightarrow> w_amount w),
      (''amountRaw'', []), (''gasCost'', cost), (''gasCostEth'', formatEther env cost_wei),
      (''confirmations'', show_int confs), (''blockNumber'', show_int (rc_block rc)),
      (''confirmedAt'', cf_iso env (cf_now env))]"

definition checkConfirmation ::
    "confirm_env \<Rightarrow> confirm_job \<Rightarrow> core_db \<Rightarrow> (error + confirm_result) \<times> core_db" where
  "checkConfirmation env j db =
     (if \<not> cf_provider env then (Inl (InternalError ''provider''), db)
      else
     (case cf_receipt env of
        Inl e \<Rightarrow> (Inl e, db)
      | Inr None \<Rightarrow> (Inl (InternalError ''not yet mined''), db)
      | Inr (Some rc) \<Rightarrow>
          if rc_status rc = 0
          then (Inr WithdrawalReverted,
                publish ''withdrawals:failed''
                  [(''withdrawalId'', show_int (cj_withdrawal j)), (''chainId'', show_int (cj_chain j)),
                   (''txHash'', cj_hash j), (''reason'', ''transaction_reverted''),
                   (''blockNumber'', show_int (rc_block rc)), (''timestamp'', cf_iso env (cf_now env))]
                  (set_status Failed (cj_withdrawal j) db))
          else
     (case cf_block env of
        Inl e \<Rightarrow> (Inl e, db)
      | Inr tip \<Rightarrow>
          let confs = tip - rc_block rc + 1 in
          if confs < required_confirmations (cj_chain j) db
          then (Inl (InternalError ''confirmations''), db)
          else
            let cost_wei = rc_gasUsed rc * (case rc_gasPrice rc of None \<Rightarrow> 0 | Some p \<Rightarrow> p);
                cost = show_int cost_wei;
                db1 = update_withdrawals (\<lambda>w. w_id w = cj_withdrawal j)
                  (\<lambda>w. w\<lparr>w_status := Confirmed, gasCost := Some cost, confirmedAt := Some (cf_now env)\<rparr>) db
            in (Inr (WithdrawalConfirmed confs cost),
                publish ''withdrawals:confirmed'' (confirmed_payload env j cost cost_wei confs rc db1) db1))))"

text \<open>The processor reports the node's health and rethrows.\<close>

definition process_confirm ::
    "confirm_env \<Rightarrow> confirm_job \<Rightarrow> worker_state \<Rightarrow> (error + confirm_result) \<times> worker_state" where
  "process_confirm env j st =
     (case checkConfirmation env j (core st) of (r, db) \<Rightarrow>
        (r, st\<lparr>core := db, reports := reports st @ [(cj_chain j, is_ok r)]\<rparr>))"

section \<open>Claims and statuses\<close>

lemma set_core_simps [simp]:
  "core (set_core f st) = f (core st)" "executes (set_core f st) = executes st"
  "confirms (set_core f st) = confirms st" "keys (set_core f st) = keys st"
  "cache (set_core f st) = cache st" "sent (set_core f st) = sent st" "reports (set_core f st) = reports st"
  by (simp_all add: set_core_def)

lemma claim_count:
  assumes "distinct (map w_id (withdrawals db))"
  shows "fst (claim n db) = (if status_of n db = Some Approved then 1 else 0)"
proof -
  have "count_where (\<lambda>w. w_id w = n \<and> w_status w = Approved) ws =
      (case find (\<lambda>w. w_id w = n) ws of Some w \<Rightarrow> (if w_status w = Approved then 1 else 0) | None \<Rightarrow> 0)"
    if "distinct (map w_id ws)" for ws
    using that
  proof (induction ws)
    case (Cons w ws)
    have "count_where (\<lambda>x. w_id x = n \<and> w_status x = Approved) ws = 0" if "w_id w = n"
      using Cons.prems that by (auto simp: count_where_def filter_empty_conv image_iff)
    with Cons show ?case by (auto simp: count_where_def)
  qed (simp add: count_where_def)
  from this [OF assms] show ?thesis
    by (simp add: claim_def status_of_def find_withdrawal_def split: option.splits)
qed

lemma find_claim:
  "find_withdrawal m (snd (claim n db)) =
     map_option (\<lambda>w. if m = n \<and> w_status w = Approved then w\<lparr>w_status := Broadcasting\<rparr> else w) (find_withdrawal m db)"
  by (cases "find_withdrawal m db") (auto simp: claim_def find_withdrawal_update dest: find_withdrawal_id)

lemma claim_simps [simp]:
  "map w_id (withdrawals (snd (claim n db))) = map w_id (withdrawals db)"
  "tokens (snd (claim n db)) = tokens db" "wallets (snd (claim n db)) = wallets db"
  "cosigns (snd (claim n db)) = cosigns db" "compliance (snd (claim n db)) = compliance db"
  by (simp_all add: claim_def update_withdrawals_def map_update_where)

lemma claim_refused:
  assumes "status_of n db \<noteq> Some Approved" and "distinct (map w_id (withdrawals db))"
  shows "snd (claim n db) = db"
proof -
  have "\<not> (w_id w = n \<and> w_status w = Approved)" if "w \<in> set (withdrawals db)" for w
    using assms that find_Some_iff_unique [OF assms(2), of n w]
    by (auto simp: status_of_def find_withdrawal_def)
  then have "update_where (\<lambda>w. w_id w = n \<and> w_status w = Approved) f (withdrawals db) = withdrawals db" for f
    unfolding update_where_def by (intro map_idI) auto
  then show ?thesis by (simp add: claim_def update_withdrawals_def)
qed

lemma executeWithdrawal_refused:
  assumes "status_of n (core st) \<noteq> Some Approved" and "distinct (map w_id (withdrawals (core st)))"
  shows "executeWithdrawal cr at jb n st =
    (Inr \<lparr>jr_id = n, jr_hash = [], jr_sequence = 0, jr_status = JobFailed\<rparr>, st)"
proof -
  have "claim n (core st) = (0, core st)"
    using claim_count [OF assms(2), of n] claim_refused [OF assms] assms(1) by (simp add: prod_eq_iff)
  then show ?thesis by (simp add: executeWithdrawal_def)
qed

lemma executeWithdrawal_claimed:
  assumes "find_withdrawal n (core st) = Some w" and "w_status w = Approved"
    and "distinct (map w_id (withdrawals (core st)))"
  shows "executeWithdrawal cr at jb n st =
    (let w' = w\<lparr>w_status := Broadcasting\<rparr>; st1 = st\<lparr>core := snd (claim n (core st))\<rparr> in
     if w_source w = GasTankSource then executeGasTankWithdrawal at w' st1
     else (case hot_attempt cr at w' st1 of
              (Inr r, st2) \<Rightarrow> (Inr r, st2)
            | (Inl e, st2) \<Rightarrow> (Inl e, on_error at jb w' e st2)))"
proof -
  have "fst (claim n (core st)) = 1"
    using claim_count [OF assms(3), of n] assms(1,2) by (simp add: status_of_def)
  moreover have "find_withdrawal n (snd (claim n (core st))) = Some (w\<lparr>w_status := Broadcasting\<rparr>)"
    using assms(1,2) by (simp add: find_claim)
  ultimately show ?thesis
    by (cases "claim n (core st)") (simp add: executeWithdrawal_def Let_def)
qed

section \<open>What an attempt sends\<close>

text \<open>Only the core tables' withdrawals and streams, the cache, the confirmations, the reports and what
  was sent can change; \<open>st\<close> and \<open>st'\<close> agree on the rest.\<close>

lemma sign_and_broadcast_cases:
  obtains (refused) e where "sign_and_broadcast at client ty tx st = (Inl e, st)"
  | (sent) h where "sign_and_broadcast at client ty tx st = (Inr h, st\<lparr>sent := sent st @ [(client, ty, tx)]\<rparr>)"
proof -
  have "(\<exists>e. sign_and_broadcast at client ty tx st = (Inl e, st))
      \<or> (\<exists>h. sign_and_broadcast at client ty tx st = (Inr h, st\<lparr>sent := sent st @ [(client, ty, tx)]\<rparr>))"
    by (simp add: sign_and_broadcast_def split: http_reply.split option.split sum.split)
  then show ?thesis using refused sent by blast
qed

lemma resolveAddress_keeps [simp]:
  "core (snd (resolveAddress client ty st)) = core st"
  "sent (snd (resolveAddress client ty st)) = sent st"
  "confirms (snd (resolveAddress client ty st)) = confirms st"
  by (auto simp: resolveAddress_def split: option.splits list.splits)

lemma send_call_cases:
  obtains (refused) e st' where "send_call at w wallet data st = (Inl e, st')" "core st' = core st" "sent st' = sent st"
  | (sent) h tx st' where "send_call at w wallet data st = (Inr h, st')" "core st' = core st"
      "sent st' = sent st @ [(w_client w, PlatformKey, tx)]"
      "tx_to tx = wallet" "tx_data tx = data" "tx_value tx = 0" "tx_chain tx = w_chain w"
proof -
  define x where "x = send_call at w wallet data st"
  obtain a st1 where r: "resolveAddress (w_client w) PlatformKey st = (a, st1)"
    by fastforce
  then have st1: "core st1 = core st" "sent st1 = sent st"
    using resolveAddress_keeps [of "w_client w" PlatformKey st] by simp_all
  have "(\<exists>e. x = (Inl e, st1)) \<or> (\<exists>tx. x = sign_and_broadcast at (w_client w) PlatformKey tx st1
      \<and> tx_to tx = wallet \<and> tx_data tx = data \<and> tx_value tx = 0 \<and> tx_chain tx = w_chain w)"
    unfolding x_def send_call_def r by (simp split: sum.split) auto
  then show ?thesis
  proof (elim disjE exE conjE)
    fix e
    assume "x = (Inl e, st1)"
    then show ?thesis using refused st1 by (simp add: x_def)
  next
    fix tx
    assume x: "x = sign_and_broadcast at (w_client w) PlatformKey tx st1"
      and tx: "tx_to tx = wallet" "tx_data tx = data" "tx_value tx = 0" "tx_chain tx = w_chain w"
    show ?thesis
    proof (rule sign_and_broadcast_cases [of at "w_client w" PlatformKey tx st1])
      fix e
      assume "sign_and_broadcast at (w_client w) PlatformKey tx st1 = (Inl e, st1)"
      then show ?thesis using refused st1 x by (simp add: x_def)
    next
      fix h
      assume "sign_and_broadcast at (w_client w) PlatformKey tx st1 =
        (Inr h, st1\<lparr>sent := sent st1 @ [(w_client w, PlatformKey, tx)]\<rparr>)"
      then show ?thesis using sent [of h _ tx] st1 x tx by (simp add: x_def)
    qed
  qed
qed

text \<open>What a withdrawal orders: the fields no step of its execution changes.\<close>

definition order_of :: "withdrawal_row \<Rightarrow> ident \<times> ident \<times> source_wallet \<times> int \<times> ident \<times> string \<times> string" where
  "order_of w = (w_id w, w_client w, w_source w, w_chain w, w_token w, toAddress w, amountRaw w)"

text \<open>Recording a broadcast touches neither what was sent nor any status.\<close>

lemma status_of_recorded [simp]:
  "status_of m (update_withdrawals (\<lambda>x. w_id x = k)
     (\<lambda>x. x\<lparr>w_txHash := a, w_sequence := g x, submittedAt := b\<rparr>) db) = status_of m db"
  by (cases "find_withdrawal m db") (auto simp: status_of_def find_withdrawal_update)

lemma orders_recorded [simp]:
  "map order_of (withdrawals (update_withdrawals p (\<lambda>x. x\<lparr>w_txHash := a, w_sequence := g x, submittedAt := b\<rparr>) db)) =
     map order_of (withdrawals db)"
  by (simp add: update_withdrawals_def map_update_where order_of_def)

lemma orders_set_status [simp]:
  "map order_of (withdrawals (set_status s n db)) = map order_of (withdrawals db)"
  by (simp add: set_status_def update_withdrawals_def map_update_where order_of_def)

lemma orders_claim [simp]: "map order_of (withdrawals (snd (claim n db))) = map order_of (withdrawals db)"
  by (simp add: claim_def update_withdrawals_def map_update_where order_of_def)

lemma orders_ids: "map order_of ws = map order_of ws' \<Longrightarrow> map w_id ws = map w_id ws'"
proof -
  assume "map order_of ws = map order_of ws'"
  then have "map fst (map order_of ws) = map fst (map order_of ws')" by simp
  then show ?thesis by (simp add: order_of_def o_def)
qed

lemma find_by_order: "map_option order_of (find (\<lambda>w. w_id w = n) ws) = find (\<lambda>x. fst x = n) (map order_of ws)"
  by (induction ws) (simp_all add: order_of_def)

lemma orders_find:
  "map order_of ws = map order_of ws' \<Longrightarrow>
     map_option order_of (find (\<lambda>w. w_id w = n) ws) = map_option order_of (find (\<lambda>w. w_id w = n) ws')"
  by (simp only: find_by_order)

lemma add_confirm_simps [simp]: "core (add_confirm j st) = core st" "sent (add_confirm j st) = sent st"
  by (simp_all add: add_confirm_def)

lemma record_broadcast_keeps:
  "sent (snd (record_broadcast at w h seq payload st)) = sent st"
  "status_of m (core (snd (record_broadcast at w h seq payload st))) = status_of m (core st)"
  "map order_of (withdrawals (core (snd (record_broadcast at w h seq payload st)))) = map order_of (withdrawals (core st))"
  by (simp_all add: record_broadcast_def Let_def)

definition all_recorded :: "attempt \<Rightarrow> bool" where
  "all_recorded at \<longleftrightarrow> update_ok at \<and> confirm_ok at \<and> stream_ok at = (True, True)"

lemma record_broadcast_ok:
  "is_ok (fst (record_broadcast at w h seq payload st)) \<longleftrightarrow> all_recorded at"
  by (cases "stream_ok at") (auto simp: record_broadcast_def Let_def all_recorded_def)

text \<open>The three ends of an attempt from the hot wallet.\<close>

lemma hot_attempt_cases:
  obtains (unsent) e st' where "hot_attempt cr at w st = (Inl e, st')" "sent st' = sent st" "core st' = core st"
  | (unrecorded) e st' wallet seq data tx where "hot_attempt cr at w st = (Inl e, st')" "\<not> all_recorded at"
      "prepare_call cr at w st = Inr (wallet, seq, data)"
      "sent st' = sent st @ [(w_client w, PlatformKey, tx)]" "tx_to tx = wallet" "tx_data tx = data" "tx_value tx = 0" "tx_chain tx = w_chain w"
      "map order_of (withdrawals (core st')) = map order_of (withdrawals (core st))"
      "\<And>m. status_of m (core st') = status_of m (core st)"
  | (recorded) r st' wallet seq data tx where "hot_attempt cr at w st = (Inr r, st')" "jr_status r = JobBroadcasting"
      "all_recorded at" "prepare_call cr at w st = Inr (wallet, seq, data)"
      "sent st' = sent st @ [(w_client w, PlatformKey, tx)]" "tx_to tx = wallet" "tx_data tx = data" "tx_value tx = 0" "tx_chain tx = w_chain w"
      "map order_of (withdrawals (core st')) = map order_of (withdrawals (core st))"
      "\<And>m. status_of m (core st') = status_of m (core st)"
proof (cases "prepare_call cr at w st")
  case (Inl e)
  then show ?thesis by (intro unsent) (simp_all add: hot_attempt_def)
next
  case (Inr c)
  obtain wallet seq data where c: "c = (wallet, seq, data)" by (cases c)
  show ?thesis
  proof (rule send_call_cases [of at w wallet data st])
    fix e st'
    assume "send_call at w wallet data st = (Inl e, st')" "core st' = core st" "sent st' = sent st"
    then show ?thesis using Inr c by (intro unsent [of e st']) (simp_all add: hot_attempt_def)
  next
    fix h tx st1
    assume s: "send_call at w wallet data st = (Inr h, st1)" "core st1 = core st"
      "sent st1 = sent st @ [(w_client w, PlatformKey, tx)]" "tx_to tx = wallet" "tx_data tx = data" "tx_value tx = 0" "tx_chain tx = w_chain w"
    obtain q st2 where r: "record_broadcast at w h (Some seq) (hot_payload at w h seq) st1 = (q, st2)"
      by fastforce
    then have "st2 = snd (record_broadcast at w h (Some seq) (hot_payload at w h seq) st1)" by simp
    then have keeps: "sent st2 = sent st1" "\<And>m. status_of m (core st2) = status_of m (core st1)"
        "map order_of (withdrawals (core st2)) = map order_of (withdrawals (core st1))"
      by (simp_all add: record_broadcast_keeps)
    note ok = record_broadcast_ok [of at w h "Some seq" "hot_payload at w h seq" st1, unfolded r fst_conv]
    show ?thesis
    proof (cases q)
      case (Inl e)
      have "hot_attempt cr at w st = (Inl e, st2)"
        using Inr c s(1) r Inl by (simp add: hot_attempt_def)
      then show ?thesis
        by (rule unrecorded) (use Inr c s keeps ok Inl in simp_all)
    next
      case q: (Inr u)
      have "hot_attempt cr at w st =
          (Inr \<lparr>jr_id = w_id w, jr_hash = h, jr_sequence = seq, jr_status = JobBroadcasting\<rparr>,
           st2\<lparr>reports := reports st2 @ [(w_chain w, True)]\<rparr>)"
        using Inr c s(1) r q by (simp add: hot_attempt_def)
      then show ?thesis
        by (rule recorded) (use Inr c s keeps ok q in simp_all)
    qed
  qed
qed

lemma on_error_simps [simp]:
  "sent (on_error at jb w e st) = sent st"
  "map order_of (withdrawals (core (on_error at jb w e st))) = map order_of (withdrawals (core st))"
  by (simp_all add: on_error_def Let_def)

lemma status_of_on_error:
  "find_withdrawal (w_id w) (core st) \<noteq> None \<Longrightarrow> status_of (w_id w) (core (on_error at jb w e st)) =
     Some (if attemptsMade jb + 1 \<ge> (case opt_attempts jb of None \<Rightarrow> 3 | Some k \<Rightarrow> k) then Failed else Approved)"
  by (auto simp: on_error_def Let_def status_of_set_status)

text \<open>The three ends of an attempt from the gas tank.\<close>

lemma signAndSubmit_cases:
  obtains (refused) e where "signAndSubmit at chain client dest data amt ty st = (Inl e, st)"
  | (sent) h tx where
      "signAndSubmit at chain client dest data amt ty st = (Inr h, st\<lparr>sent := sent st @ [(client, ty, tx)]\<rparr>)"
      "tx_to tx = dest" "tx_data tx = data" "tx_value tx = amt" "tx_chain tx = chain"
proof -
  define x where "x = signAndSubmit at chain client dest data amt ty st"
  have "(\<exists>e. x = (Inl e, st)) \<or> (\<exists>tx. x = sign_and_broadcast at client ty tx st
      \<and> tx_to tx = dest \<and> tx_data tx = data \<and> tx_value tx = amt \<and> tx_chain tx = chain)"
    unfolding x_def signAndSubmit_def by (simp split: list.split sum.split) auto
  then show ?thesis
  proof (elim disjE exE conjE)
    fix e
    assume "x = (Inl e, st)"
    then show ?thesis using refused by (simp add: x_def)
  next
    fix tx
    assume x: "x = sign_and_broadcast at client ty tx st"
      and tx: "tx_to tx = dest" "tx_data tx = data" "tx_value tx = amt" "tx_chain tx = chain"
    show ?thesis
      by (rule sign_and_broadcast_cases [of at client ty tx st]) (use x x_def tx refused sent in auto)
  qed
qed

lemma executeGasTankWithdrawal_cases:
  obtains (failed) e st' where "executeGasTankWithdrawal at w st = (Inl e, st')"
      "map order_of (withdrawals (core st')) = map order_of (withdrawals (core st))"
      "\<And>m. status_of m (core st') = status_of m (core st)"
      "length (sent st') \<le> Suc (length (sent st))"
  | (recorded) r st' amt tx where "executeGasTankWithdrawal at w st = (Inr r, st')" "jr_status r = JobBroadcasting"
      "big_int (amountRaw w) = Some amt" "sent st' = sent st @ [(w_client w, GasTankKey, tx)]"
      "tx_to tx = toAddress w" "tx_value tx = amt" "tx_data tx = RawData ''0x''"
      "map order_of (withdrawals (core st')) = map order_of (withdrawals (core st))"
      "\<And>m. status_of m (core st') = status_of m (core st)"
proof (cases "big_int (amountRaw w)")
  case None
  then show ?thesis by (intro failed [of "InternalError ''SyntaxError''" st]) (simp_all add: executeGasTankWithdrawal_def)
next
  case (Some amt)
  show ?thesis
  proof (rule signAndSubmit_cases [of at "w_chain w" "w_client w" "toAddress w" "RawData ''0x''" amt GasTankKey st])
    fix e
    assume "signAndSubmit at (w_chain w) (w_client w) (toAddress w) (RawData ''0x'') amt GasTankKey st = (Inl e, st)"
    then show ?thesis using Some by (intro failed [of e st]) (simp_all add: executeGasTankWithdrawal_def)
  next
    fix h tx
    let ?st1 = "st\<lparr>sent := sent st @ [(w_client w, GasTankKey, tx)]\<rparr>"
    assume s: "signAndSubmit at (w_chain w) (w_client w) (toAddress w) (RawData ''0x'') amt GasTankKey st = (Inr h, ?st1)"
      and tx: "tx_to tx = toAddress w" "tx_value tx = amt" "tx_data tx = RawData ''0x''"
    let ?pay = "[(''withdrawalId'', show_int (w_id w)), (''clientId'', show_int (w_client w)),
              (''chainId'', show_int (w_chain w)), (''sourceWallet'', ''gas_tank''), (''txHash'', h),
              (''timestamp'', iso_time at (at_submitted at))]"
    obtain q st2 where r: "record_broadcast at w h None ?pay ?st1 = (q, st2)" by fastforce
    then have "st2 = snd (record_broadcast at w h None ?pay ?st1)" by simp
    then have keeps: "sent st2 = sent ?st1" "\<And>m. status_of m (core st2) = status_of m (core ?st1)"
        "map order_of (withdrawals (core st2)) = map order_of (withdrawals (core ?st1))"
      by (simp_all add: record_broadcast_keeps)
    show ?thesis
    proof (cases q)
      case (Inl e)
      have "executeGasTankWithdrawal at w st = (Inl e, st2)"
        using Some s r Inl by (simp add: executeGasTankWithdrawal_def)
      then show ?thesis by (rule failed) (use keeps in simp_all)
    next
      case (Inr u)
      have "executeGasTankWithdrawal at w st =
          (Inr \<lparr>jr_id = w_id w, jr_hash = h, jr_sequence = 0, jr_status = JobBroadcasting\<rparr>, st2)"
        using Some s r Inr by (simp add: executeGasTankWithdrawal_def)
      then show ?thesis by (rule recorded) (use Some tx keeps in simp_all)
    qed
  qed
qed

section \<open>Executions\<close>

text \<open>Every end of an execution, for a claimed withdrawal: what it sent and the status it left.\<close>

definition max_attempts :: "job \<Rightarrow> int" where
  "max_attempts jb = (case opt_attempts jb of None \<Rightarrow> 3 | Some m \<Rightarrow> m)"

lemma executeWithdrawal_cases:
  assumes d: "distinct (map w_id (withdrawals (core st)))"
    and w: "find_withdrawal n (core st) = Some w" "w_status w = Approved"
  defines "w' \<equiv> w\<lparr>w_status := Broadcasting\<rparr>" and "st1 \<equiv> st\<lparr>core := snd (claim n (core st))\<rparr>"
  obtains (hot_error) e st' where "executeWithdrawal cr at jb n st = (Inl e, st')" "w_source w = HotSource"
      "map order_of (withdrawals (core st')) = map order_of (withdrawals (core st))"
      "sent st' = sent st \<or> (\<exists>wallet seq data tx. prepare_call cr at w' st1 = Inr (wallet, seq, data)
         \<and> \<not> all_recorded at \<and> sent st' = sent st @ [(w_client w, PlatformKey, tx)] \<and> tx_to tx = wallet \<and> tx_data tx = data
         \<and> tx_value tx = 0 \<and> tx_chain tx = w_chain w)"
      "status_of n (core st') = Some (if attemptsMade jb + 1 \<ge> max_attempts jb then Failed else Approved)"
  | (hot_done) r st' wallet seq data tx where "executeWithdrawal cr at jb n st = (Inr r, st')"
      "jr_status r = JobBroadcasting" "w_source w = HotSource" "all_recorded at"
      "map order_of (withdrawals (core st')) = map order_of (withdrawals (core st))"
      "prepare_call cr at w' st1 = Inr (wallet, seq, data)"
      "sent st' = sent st @ [(w_client w, PlatformKey, tx)]" "tx_to tx = wallet" "tx_data tx = data" "tx_value tx = 0" "tx_chain tx = w_chain w"
      "status_of n (core st') = Some Broadcasting"
  | (tank_error) e st' where "executeWithdrawal cr at jb n st = (Inl e, st')" "w_source w = GasTankSource"
      "map order_of (withdrawals (core st')) = map order_of (withdrawals (core st))"
      "length (sent st') \<le> Suc (length (sent st))" "status_of n (core st') = Some Broadcasting"
  | (tank_done) r st' amt tx where "executeWithdrawal cr at jb n st = (Inr r, st')"
      "jr_status r = JobBroadcasting" "w_source w = GasTankSource"
      "map order_of (withdrawals (core st')) = map order_of (withdrawals (core st))"
      "big_int (amountRaw w) = Some amt" "sent st' = sent st @ [(w_client w, GasTankKey, tx)]"
      "tx_to tx = toAddress w" "tx_value tx = amt" "tx_data tx = RawData ''0x''"
      "status_of n (core st') = Some Broadcasting"
proof -
  have st1: "sent st1 = sent st" "status_of n (core st1) = Some Broadcasting"
      "map order_of (withdrawals (core st1)) = map order_of (withdrawals (core st))"
    using w by (simp_all add: st1_def status_of_def find_claim)
  have f1: "find_withdrawal n (core st1) \<noteq> None"
    using w by (simp add: st1_def find_claim)
  have id: "w_id w' = n" using find_withdrawal_id [OF w(1)] by (simp add: w'_def)
  have ex: "executeWithdrawal cr at jb n st =
    (if w_source w = GasTankSource then executeGasTankWithdrawal at w' st1
     else (case hot_attempt cr at w' st1 of
              (Inr r, st2) \<Rightarrow> (Inr r, st2) | (Inl e, st2) \<Rightarrow> (Inl e, on_error at jb w' e st2)))"
    unfolding w'_def st1_def by (rule executeWithdrawal_claimed [OF w d, unfolded Let_def])
  have err: "status_of n (core (on_error at jb w' e st2)) =
      Some (if attemptsMade jb + 1 \<ge> max_attempts jb then Failed else Approved)"
    if "\<And>m. status_of m (core st2) = status_of m (core st1)" for e st2
  proof -
    have "find_withdrawal n (core st2) \<noteq> None"
      using that [of n] f1 by (auto simp: status_of_def)
    then show ?thesis using status_of_on_error [of w' st2] by (simp add: max_attempts_def id)
  qed
  show ?thesis
  proof (cases "w_source w")
    case HotSource
    show ?thesis
    proof (rule hot_attempt_cases [of cr at w' st1])
      fix e st2
      assume h: "hot_attempt cr at w' st1 = (Inl e, st2)" "sent st2 = sent st1" "core st2 = core st1"
      show ?thesis
        by (rule hot_error [of e "on_error at jb w' e st2"]) (use h HotSource st1 err ex in simp_all)
    next
      fix e st2 wallet seq data tx
      assume h: "hot_attempt cr at w' st1 = (Inl e, st2)" "\<not> all_recorded at"
        "prepare_call cr at w' st1 = Inr (wallet, seq, data)"
        "sent st2 = sent st1 @ [(w_client w', PlatformKey, tx)]" "tx_to tx = wallet" "tx_data tx = data" "tx_value tx = 0" "tx_chain tx = w_chain w'"
        "map order_of (withdrawals (core st2)) = map order_of (withdrawals (core st1))"
        "\<And>m. status_of m (core st2) = status_of m (core st1)"
      show ?thesis
        by (rule hot_error [of e "on_error at jb w' e st2"])
           (use h HotSource st1 err [OF h(10)] ex in \<open>simp_all add: w'_def\<close>)
    next
      fix r st2 wallet seq data tx
      assume h: "hot_attempt cr at w' st1 = (Inr r, st2)" "jr_status r = JobBroadcasting" "all_recorded at"
        "prepare_call cr at w' st1 = Inr (wallet, seq, data)"
        "sent st2 = sent st1 @ [(w_client w', PlatformKey, tx)]" "tx_to tx = wallet" "tx_data tx = data" "tx_value tx = 0" "tx_chain tx = w_chain w'"
        "map order_of (withdrawals (core st2)) = map order_of (withdrawals (core st1))"
        "\<And>m. status_of m (core st2) = status_of m (core st1)"
      show ?thesis
        by (rule hot_done [of r st2 wallet seq data tx]) (use h HotSource st1 ex in \<open>simp_all add: w'_def\<close>)
    qed
  next
    case GasTankSource
    show ?thesis
    proof (rule executeGasTankWithdrawal_cases [of at w' st1])
      fix e st2
      assume "executeGasTankWithdrawal at w' st1 = (Inl e, st2)"
        "map order_of (withdrawals (core st2)) = map order_of (withdrawals (core st1))"
        "\<And>m. status_of m (core st2) = status_of m (core st1)" "length (sent st2) \<le> Suc (length (sent st1))"
      then show ?thesis using GasTankSource st1 ex by (intro tank_error [of e st2]) simp_all
    next
      fix r st2 amt tx
      assume "executeGasTankWithdrawal at w' st1 = (Inr r, st2)" "jr_status r = JobBroadcasting"
        "big_int (amountRaw w') = Some amt" "sent st2 = sent st1 @ [(w_client w', GasTankKey, tx)]"
        "tx_to tx = toAddress w'" "tx_value tx = amt" "tx_data tx = RawData ''0x''"
        "map order_of (withdrawals (core st2)) = map order_of (withdrawals (core st1))"
        "\<And>m. status_of m (core st2) = status_of m (core st1)"
      then show ?thesis using GasTankSource st1 ex by (intro tank_done [of r st2 amt tx]) (simp_all add: w'_def)
    qed
  qed
qed


text \<open>Whom a transaction pays, and how much.\<close>

definition tx_pays :: "outer_tx \<Rightarrow> string \<times> int" where
  "tx_pays tx =
     (case tx_data tx of
        SendMultiSig dest v _ _ _ _ \<Rightarrow> (dest, v)
      | SendMultiSigToken dest v _ _ _ _ \<Rightarrow> (dest, v)
      | RawData _ \<Rightarrow> (tx_to tx, tx_value tx))"

lemma prepare_call_ok:
  assumes "prepare_call cr at w st = Inr (wallet, seq, data)"
  shows "\<exists>t wal v h ph sig. find_token (w_token w) (core st) = Some t
    \<and> find_wallet (w_client w) (w_chain w) HotWallet (core st) = Some wal \<and> wallet = wal_address wal
    \<and> getNextSequenceId at wallet = Inr seq \<and> big_int (amountRaw w) = Some v
    \<and> operation_hash_of cr t w wallet v (at_now at div 1000 + EXPIRE_SECONDS) seq = Inr h
    \<and> eth_prefix at h = Inr ph \<and> signViaKeyVault at (w_client w) ph = Inr sig
    \<and> data = wallet_call t w v (at_now at div 1000 + EXPIRE_SECONDS) seq sig"
  using assms by (auto simp: prepare_call_def Let_def split: option.splits if_splits sum.splits)

text \<open>The payment that a hot-wallet withdrawal orders, in full. The transaction carries no value itself and
  goes to the client's hot wallet on the withdrawal's chain; it calls the wallet for the recorded destination
  and amount, with the token contract unless the token is native, a deadline an hour away and the wallet's next sequence
  number; and the signature in it is the vault's, by the client's backup key, over the prefixed hash of the
  network, the wallet and those very arguments.\<close>

definition pays_order ::
    "crypto \<Rightarrow> attempt \<Rightarrow> withdrawal_row \<Rightarrow> core_db \<Rightarrow> outer_tx \<Rightarrow> bool" where
  "pays_order cr at w db tx \<longleftrightarrow>
     (\<exists>t wal v seq h ph code body sig.
         let wallet = wal_address wal; deadline = at_now at div 1000 + 3600; chain = show_int (w_chain w) in
         t \<in> set (tokens db) \<and> t_id t = w_token w
       \<and> wal \<in> set (wallets db) \<and> wal_client wal = w_client w \<and> wal_chain wal = w_chain w \<and> wal_type wal = HotWallet
       \<and> big_int (amountRaw w) = Some v \<and> getNextSequenceId at wallet = Inr seq
       \<and> abi_hash cr
           (if isNative t
            then [AString chain, AAddress wallet, AAddress (toAddress w), AUint v, ABytes ''0x'', AUint deadline, AUint seq]
            else [AString (chain @ ''-ERC20''), AAddress wallet, AAddress (toAddress w), AUint v,
                  AAddress (contractAddress t), AUint deadline, AUint seq]) = Inr h
       \<and> eth_prefix at h = Inr ph
       \<and> vault_sign at (w_client w) BackupKey ph = Reply code body (Some sig) \<and> 200 \<le> code \<and> code \<le> 299
       \<and> tx_to tx = wallet \<and> tx_value tx = 0 \<and> tx_chain tx = w_chain w
       \<and> tx_data tx =
           (if isNative t then SendMultiSig (toAddress w) v ''0x'' deadline seq sig
            else SendMultiSigToken (toAddress w) v (contractAddress t) deadline seq sig))"

lemma prepare_call_pays:
  assumes "prepare_call cr at (w\<lparr>w_status := s\<rparr>) (st\<lparr>core := snd (claim n (core st))\<rparr>) = Inr (wallet, seq, data)"
    and "tx_to tx = wallet" and "tx_data tx = data" and "tx_value tx = 0" and "tx_chain tx = w_chain w"
  shows "pays_order cr at w (core st) tx"
proof -
  obtain t wal v h ph sig where
    t: "find_token (w_token w) (core st) = Some t" and wal: "find_wallet (w_client w) (w_chain w) HotWallet (core st) = Some wal"
    and p: "wallet = wal_address wal" "getNextSequenceId at wallet = Inr seq" "big_int (amountRaw w) = Some v"
    and h: "operation_hash_of cr t (w\<lparr>w_status := s\<rparr>) wallet v (at_now at div 1000 + EXPIRE_SECONDS) seq = Inr h"
    and ph: "eth_prefix at h = Inr ph" and sig: "signViaKeyVault at (w_client w) ph = Inr sig"
    and data: "data = wallet_call t (w\<lparr>w_status := s\<rparr>) v (at_now at div 1000 + EXPIRE_SECONDS) seq sig"
    using prepare_call_ok [OF assms(1)] by (auto simp: find_token_def find_wallet_def)
  have m1: "t \<in> set (tokens (core st)) \<and> t_id t = w_token w"
    using t by (auto simp: find_token_def dest: find_SomeD)
  have m2: "wal \<in> set (wallets (core st)) \<and> wal_client wal = w_client w \<and> wal_chain wal = w_chain w \<and> wal_type wal = HotWallet"
    using wal by (auto simp: find_wallet_def dest: find_SomeD)
  obtain code body where m3: "vault_sign at (w_client w) BackupKey ph = Reply code body (Some sig)" "200 \<le> code" "code \<le> 299"
    using sig by (auto simp: signViaKeyVault_def split: http_reply.splits if_splits option.splits)
  show ?thesis
    unfolding pays_order_def Let_def
    by (rule exI [of _ t], rule exI [of _ wal], rule exI [of _ v], rule exI [of _ seq], rule exI [of _ h], rule exI [of _ ph],
        rule exI [of _ code], rule exI [of _ body], rule exI [of _ sig], cases "isNative t")
       (use m1 m2 m3 p h ph data assms(2-5) in \<open>simp_all add: operation_hash_of_def wallet_call_def buildNativeOperationHash_def
         buildErc20OperationHash_def EXPIRE_SECONDS_def\<close>)
qed

lemma pays_order_pays: "pays_order cr at w db tx \<Longrightarrow> \<exists>v. big_int (amountRaw w) = Some v \<and> tx_pays tx = (toAddress w, v)"
  by (auto simp: pays_order_def tx_pays_def Let_def split: if_splits)

lemma execution_pays:
  assumes "distinct (map w_id (withdrawals (core st)))" and "find_withdrawal n (core st) = Some w"
    and "executeWithdrawal cr at jb n st = (Inr r, st')" and "jr_status r = JobBroadcasting"
  shows "map order_of (withdrawals (core st')) = map order_of (withdrawals (core st))
    \<and> status_of n (core st') = Some Broadcasting
    \<and> (\<exists>ky tx v. sent st' = sent st @ [(w_client w, ky, tx)]
    \<and> big_int (amountRaw w) = Some v \<and> tx_pays tx = (toAddress w, v)
    \<and> (case w_source w of
         HotSource \<Rightarrow> ky = PlatformKey \<and> pays_order cr at w (core st) tx
       | GasTankSource \<Rightarrow> ky = GasTankKey \<and> tx_to tx = toAddress w \<and> tx_value tx = v \<and> tx_data tx = RawData ''0x''))"
proof -
  have "w_status w = Approved"
    using executeWithdrawal_refused [of n st cr at jb] assms by (fastforce simp: status_of_def)
  note cases = executeWithdrawal_cases [OF assms(1,2) this, of cr at jb]
  show ?thesis
  proof (rule cases)
    fix r2 st2 wallet seq data tx
    assume "executeWithdrawal cr at jb n st = (Inr r2, st2)" "w_source w = HotSource"
      "map order_of (withdrawals (core st2)) = map order_of (withdrawals (core st))" "status_of n (core st2) = Some Broadcasting"
      and p: "prepare_call cr at (w\<lparr>w_status := Broadcasting\<rparr>) (st\<lparr>core := snd (claim n (core st))\<rparr>) = Inr (wallet, seq, data)"
      and "sent st2 = sent st @ [(w_client w, PlatformKey, tx)]"
      and tx: "tx_to tx = wallet" "tx_data tx = data" "tx_value tx = 0" "tx_chain tx = w_chain w"
    moreover have "pays_order cr at w (core st) tx" by (rule prepare_call_pays [OF p tx])
    ultimately show ?thesis using assms(3) pays_order_pays by fastforce
  next
    fix r2 st2 amt tx
    assume t: "executeWithdrawal cr at jb n st = (Inr r2, st2)" "w_source w = GasTankSource"
      "map order_of (withdrawals (core st2)) = map order_of (withdrawals (core st))" "status_of n (core st2) = Some Broadcasting"
      "big_int (amountRaw w) = Some amt" "sent st2 = sent st @ [(w_client w, GasTankKey, tx)]"
      "tx_to tx = toAddress w" "tx_value tx = amt" "tx_data tx = RawData ''0x''"
    then show ?thesis using assms(3) by (auto simp: tx_pays_def)
  qed (use assms(3) in auto)
qed

text \<open>Claim C29. An execution that answers \<open>broadcasting\<close> has sent one transaction that pays exactly the
  recorded raw amount to the recorded destination. For a hot-wallet withdrawal it is signed with the platform
  key and is the payment that \<open>pays_order\<close> spells out: a call of the client's hot wallet that carries the
  signature of the client's backup key over the hash of that very token, wallet, destination, amount, deadline and on-chain
  sequence number. For a gas-tank withdrawal it is a plain transfer with the gas-tank key.\<close>

theorem execution_pays_the_recorded_order:
  assumes "distinct (map w_id (withdrawals (core st)))" and "find_withdrawal n (core st) = Some w"
    and "executeWithdrawal cr at jb n st = (Inr r, st')" and "jr_status r = JobBroadcasting"
  shows "\<exists>ky tx v. sent st' = sent st @ [(w_client w, ky, tx)]
    \<and> big_int (amountRaw w) = Some v \<and> tx_pays tx = (toAddress w, v)
    \<and> (case w_source w of
         HotSource \<Rightarrow> ky = PlatformKey \<and> pays_order cr at w (core st) tx
       | GasTankSource \<Rightarrow> ky = GasTankKey \<and> tx_to tx = toAddress w \<and> tx_value tx = v \<and> tx_data tx = RawData ''0x'')"
  using execution_pays [OF assms] by blast


section \<open>Sample runs\<close>

definition any_crypto :: crypto where
  "any_crypto = \<lparr>abi_hash = (\<lambda>_. Inr ''0xh''), verifyMessage = (\<lambda>_ _. Inl (InternalError []))\<rparr>"

definition sample_attempt :: "int \<Rightarrow> bool \<Rightarrow> attempt" where
  "sample_attempt seq upd =
     \<lparr>at_now = 0, at_submitted = 1, at_failed = 2, provider_up = (\<lambda>_. True),
      getNextSequenceId = (\<lambda>_. Inr seq), eth_prefix = (\<lambda>h. Inr h),
      vault_sign = (\<lambda>_ _ _. Reply 200 [] (Some ''s'')), getTransactionCount = (\<lambda>_. Inr 0),
      getFeeData = Inr \<lparr>maxFeePerGas = Some 5, maxPriorityFeePerGas = None, gasPrice = None\<rparr>,
      estimateGas = (\<lambda>_ _ _. Inr 100), vault_sign_tx = (\<lambda>_ _ _. Reply 200 [] (Some ''raw'')),
      broadcast = (\<lambda>_. Inr ''0xtx''), update_ok = upd, confirm_ok = True, stream_ok = (True, True),
      iso_time = show_int\<rparr>"

definition sample_worker :: "source_wallet \<Rightarrow> key_type \<Rightarrow> worker_state" where
  "sample_worker src ty =
     \<lparr>core = approving_core\<lparr>withdrawals := [sample_withdrawal 5 Approved\<lparr>w_source := src\<rparr>]\<rparr>,
      executes = [], confirms = [],
      keys = [\<lparr>k_id = 1, k_client = 7, k_type = ty, k_address = ''0xp'', k_active = True\<rparr>],
      cache = [], sent = [], reports = []\<rparr>"

definition first_job :: job where
  "first_job = \<lparr>attemptsMade = 0, opt_attempts = Some 3\<rparr>"

lemma sample_worker_row:
  "distinct (map w_id (withdrawals (core (sample_worker src ty))))"
  "find_withdrawal 5 (core (sample_worker src ty)) = Some (sample_withdrawal 5 Approved\<lparr>w_source := src\<rparr>)"
  "w_status (sample_withdrawal 5 Approved\<lparr>w_source := src\<rparr>) = Approved"
  "w_source (sample_withdrawal 5 Approved\<lparr>w_source := src\<rparr>) = src"
  by (simp_all add: sample_worker_def find_withdrawal_def sample_withdrawal_def)


theorem execution_pays_the_recorded_order_witness:
  "map (\<lambda>(c, ky, tx). (c, ky, tx_pays tx)) (sent (snd (executeWithdrawal any_crypto (sample_attempt 4 True) first_job 5
      (sample_worker HotSource PlatformKey)))) = [(7, PlatformKey, (''0xt'', 5))]"
proof -
  let ?x = "executeWithdrawal any_crypto (sample_attempt 4 True) first_job 5 (sample_worker HotSource PlatformKey)"
  let ?w = "sample_withdrawal 5 Approved\<lparr>w_source := HotSource\<rparr>"
  have "is_ok (fst ?x)" and "jr_status (projr (fst ?x)) = JobBroadcasting"
    and "big_int (amountRaw ?w) = Some 5" by code_simp+
  then show ?thesis
    using execution_pays_the_recorded_order [OF sample_worker_row(1,2) Inr_pair]
    by (fastforce simp: sample_worker_row(4) sample_worker_def sample_withdrawal_def)
qed


section \<open>Gas-tank withdrawals and the poll\<close>

lemma executes_fold_enqueue:
  "set (executes (fold enqueue ws st)) = set (executes st) \<union> (\<lambda>w. job_id (w_id w)) ` set ws"
  by (induction ws arbitrary: st) (auto simp: enqueue_def)

lemma distinct_fold_enqueue: "distinct (executes st) \<Longrightarrow> distinct (executes (fold enqueue ws st))"
  by (induction ws arbitrary: st) (auto simp: enqueue_def)

lemma core_fold_enqueue [simp]: "core (fold enqueue ws st) = core st"
  by (induction ws arbitrary: st) (auto simp: enqueue_def)

lemma job_id_inject [simp]: "job_id m = job_id n \<longleftrightarrow> m = n"
  by (simp add: job_id_def)

lemma poll_only_approved:
  assumes "distinct (map w_id (withdrawals (core st)))" and "status_of n (core st) \<noteq> Some Approved"
  shows "job_id n \<in> set (executes (snd (pollApprovedWithdrawals st))) \<longleftrightarrow> job_id n \<in> set (executes st)"
proof -
  have "\<forall>w \<in> set (withdrawals (core st)). w_status w = Approved \<longrightarrow> w_id w \<noteq> n"
    using assms(2) find_Some_iff_unique [OF assms(1), of n]
    by (auto simp: status_of_def find_withdrawal_def)
  then show ?thesis
    by (fastforce simp: pollApprovedWithdrawals_def Let_def executes_fold_enqueue dest: in_set_takeD)
qed

text \<open>A gas-tank execution is outside the error handling: whatever goes wrong in it, sending
  or recording, the withdrawal stays \<open>broadcasting\<close>. None of the job's later attempts sends or
  changes anything, and the poll never enqueues it again, so it neither fails nor is retried.\<close>

lemma failed_gas_tank_withdrawal_is_stuck:
  assumes "distinct (map w_id (withdrawals (core st)))" and "find_withdrawal n (core st) = Some w"
    and "w_status w = Approved" and "w_source w = GasTankSource"
    and "executeWithdrawal cr at jb n st = (Inl e, st1)"
  shows "status_of n (core st1) = Some Broadcasting
    \<and> fold (\<lambda>(at2, jb2) s. snd (executeWithdrawal cr at2 jb2 n s)) retries st1 = st1
    \<and> (job_id n \<in> set (executes (snd (pollApprovedWithdrawals st1))) \<longleftrightarrow> job_id n \<in> set (executes st1))"
proof -
  have s: "status_of n (core st1) = Some Broadcasting
      \<and> map order_of (withdrawals (core st1)) = map order_of (withdrawals (core st))"
    by (rule executeWithdrawal_cases [OF assms(1-3), of cr at jb]) (use assms(4,5) in auto)
  then have d: "distinct (map w_id (withdrawals (core st1)))"
    using assms(1) orders_ids by metis
  have "snd (executeWithdrawal cr at2 jb2 n st1) = st1" for at2 jb2
    using executeWithdrawal_refused [of n st1 cr at2 jb2] s d by simp
  then have "fold (\<lambda>(at2, jb2) s. snd (executeWithdrawal cr at2 jb2 n s)) retries st1 = st1"
    by (induction retries) auto
  then show ?thesis using s poll_only_approved [OF d, of n] by simp
qed

lemma failed_gas_tank_withdrawal_is_stuck_witness:
  "status_of 5 (core (snd (executeWithdrawal any_crypto ((sample_attempt 4 True)\<lparr>broadcast := \<lambda>_. Inl (InternalError ''nonce'')\<rparr>)
     first_job 5 (sample_worker GasTankSource GasTankKey)))) = Some Broadcasting"
proof -
  let ?x = "executeWithdrawal any_crypto ((sample_attempt 4 True)\<lparr>broadcast := \<lambda>_. Inl (InternalError ''nonce'')\<rparr>)
     first_job 5 (sample_worker GasTankSource GasTankKey)"
  have "\<not> is_ok (fst ?x)" by code_simp
  from failed_gas_tank_withdrawal_is_stuck [OF sample_worker_row Inl_pair [OF this], of "[]"]
  show ?thesis by blast
qed

text \<open>A poll enqueues one job for each of the fifty oldest approved withdrawals (all of them
  when there are no more) unless the queue still holds that job, never the same job twice, and
  changes no table.\<close>

theorem poll_enqueues_the_oldest_approved:
  defines "oldest s \<equiv> take 50 (sort_key createdAt (filter (\<lambda>w. w_status w = Approved) (withdrawals (core s))))"
  assumes "distinct (executes st)"
  shows "set (executes (snd (pollApprovedWithdrawals st))) =
      set (executes st) \<union> (\<lambda>w. job_id (w_id w)) ` set (oldest st)
    \<and> distinct (executes (snd (pollApprovedWithdrawals st)))
    \<and> fst (pollApprovedWithdrawals st) = min 50 (length (filter (\<lambda>w. w_status w = Approved) (withdrawals (core st))))
    \<and> core (snd (pollApprovedWithdrawals st)) = core st"
  using assms(2) distinct_fold_enqueue
  by (simp add: pollApprovedWithdrawals_def Let_def executes_fold_enqueue oldest_def min.commute)

theorem poll_enqueues_the_oldest_approved_witness:
  "executes (snd (pollApprovedWithdrawals (sample_worker HotSource PlatformKey))) = [job_id 5]
    \<and> distinct (executes (snd (pollApprovedWithdrawals (sample_worker HotSource PlatformKey))))"
  using poll_enqueues_the_oldest_approved [of "sample_worker HotSource PlatformKey"]
  by (simp add: sample_worker_def pollApprovedWithdrawals_def enqueue_def sample_withdrawal_def)

section \<open>Execution and the client's signature\<close>

definition recosign :: "cosign_row list \<Rightarrow> worker_state \<Rightarrow> worker_state" where
  "recosign cs st = set_core (\<lambda>db. db\<lparr>cosigns := cs\<rparr>) st"

lemma recosign_simps [simp]:
  "executes (recosign cs st) = executes st" "confirms (recosign cs st) = confirms st"
  "keys (recosign cs st) = keys st" "cache (recosign cs st) = cache st"
  "sent (recosign cs st) = sent st" "reports (recosign cs st) = reports st"
  "withdrawals (core (recosign cs st)) = withdrawals (core st)"
  "find_withdrawal n (core (recosign cs st)) = find_withdrawal n (core st)"
  "find_token n (core (recosign cs st)) = find_token n (core st)"
  "find_wallet a b ty (core (recosign cs st)) = find_wallet a b ty (core st)"
  by (simp_all add: recosign_def find_withdrawal_def find_token_def find_wallet_def)

lemma recosign_claim:
  "claim n (core (recosign cs st)) = (case claim n (core st) of (k, db) \<Rightarrow> (k, db\<lparr>cosigns := cs\<rparr>))"
  by (simp add: claim_def recosign_def update_withdrawals_def)

lemma recosign_prepare [simp]: "prepare_call cr at w (recosign cs st) = prepare_call cr at w st"
  unfolding prepare_call_def recosign_simps ..

lemma recosign_resolve:
  "resolveAddress c ty (recosign cs st) = map_prod id (recosign cs) (resolveAddress c ty st)"
  by (auto simp: resolveAddress_def recosign_def set_core_def split: option.split list.split)

lemma recosign_sign:
  "sign_and_broadcast at c ty tx (recosign cs st) = map_prod id (recosign cs) (sign_and_broadcast at c ty tx st)"
  by (auto simp: sign_and_broadcast_def recosign_def set_core_def split: http_reply.split option.split sum.split)

lemma recosign_send_call:
  "send_call at w wallet data (recosign cs st) = map_prod id (recosign cs) (send_call at w wallet data st)"
  unfolding send_call_def recosign_resolve
  by (auto simp: recosign_sign split: prod.split sum.split)

lemma recosign_submit:
  "signAndSubmit at ch c d dt amt ty (recosign cs st) = map_prod id (recosign cs) (signAndSubmit at ch c d dt amt ty st)"
  unfolding signAndSubmit_def recosign_simps
  by (auto simp: recosign_sign split: list.split sum.split)

lemma recosign_record:
  "record_broadcast at w h seq payload (recosign cs st) =
     map_prod id (recosign cs) (record_broadcast at w h seq payload st)"
  by (simp add: record_broadcast_def Let_def add_confirm_def recosign_def set_core_def publish_def
      update_withdrawals_def)

lemma recosign_hot:
  "hot_attempt cr at w (recosign cs st) = map_prod id (recosign cs) (hot_attempt cr at w st)"
proof -
  have "recosign cs (st\<lparr>reports := r\<rparr>) = recosign cs st\<lparr>reports := r\<rparr>" for st r
    by (simp add: recosign_def set_core_def)
  then show ?thesis
    unfolding hot_attempt_def recosign_prepare recosign_send_call
    by (auto simp: recosign_record split: prod.split sum.split)
qed

lemma recosign_tank:
  "executeGasTankWithdrawal at w (recosign cs st) = map_prod id (recosign cs) (executeGasTankWithdrawal at w st)"
  unfolding executeGasTankWithdrawal_def recosign_submit
  by (auto simp: recosign_record split: option.split prod.split sum.split)

lemma recosign_on_error: "on_error at jb w e (recosign cs st) = recosign cs (on_error at jb w e st)"
  by (simp add: on_error_def Let_def recosign_def set_core_def publish_def set_status_def update_withdrawals_def)

text \<open>Executing a withdrawal never looks at the co-sign operations: replace them by any
  others, signed or not, and the execution answers the same, sends the same transactions and leaves
  the same state but for that table. What the client signed is not part of what is broadcast; the
  second signature is always the vault's backup key.\<close>

lemma execution_ignores_the_client_signature:
  "executeWithdrawal cr at jb n (recosign cs st) = map_prod id (recosign cs) (executeWithdrawal cr at jb n st)"
proof -
  obtain k db where c: "claim n (core st) = (k, db)" by fastforce
  have f: "find_withdrawal n (db\<lparr>cosigns := cs\<rparr>) = find_withdrawal n db"
    by (simp add: find_withdrawal_def)
  have r: "recosign cs st\<lparr>core := db\<lparr>cosigns := cs\<rparr>\<rparr> = recosign cs (st\<lparr>core := db\<rparr>)"
    by (simp add: recosign_def set_core_def)
  show ?thesis
    unfolding executeWithdrawal_def recosign_claim c prod.case Let_def f r
    by (auto simp: recosign_hot recosign_tank recosign_on_error split: option.split prod.split sum.split)
qed

section \<open>Confirmations\<close>

text \<open>A check that returns either reports a revert, and then the receipt says so and the
  withdrawal is failed, or reports a confirmation, and then the receipt is of a successful
  transaction with at least the chain's required confirmations (twelve for an unknown chain)
  counting its own block, the withdrawal is confirmed and its gas cost is the gas used times the
  price. A check that throws (to be retried) changes no table. No other withdrawal's status changes.\<close>

lemma confirmation_needs_enough_blocks:
  assumes "find_withdrawal (cj_withdrawal j) db = Some w" and "checkConfirmation env j db = (res, db')"
  shows "(\<not> is_ok res \<longrightarrow> db' = db)
    \<and> (res = Inr WithdrawalReverted \<longrightarrow>
         (\<exists>rc. cf_receipt env = Inr (Some rc) \<and> rc_status rc = 0)
         \<and> status_of (cj_withdrawal j) db' = Some Failed)
    \<and> (\<forall>k cost. res = Inr (WithdrawalConfirmed k cost) \<longrightarrow>
         (\<exists>rc tip. cf_receipt env = Inr (Some rc) \<and> rc_status rc \<noteq> 0 \<and> cf_block env = Inr tip
            \<and> k = tip - rc_block rc + 1 \<and> required_confirmations (cj_chain j) db \<le> k
            \<and> cost = show_int (rc_gasUsed rc * (case rc_gasPrice rc of None \<Rightarrow> 0 | Some p \<Rightarrow> p)))
         \<and> map_option gasCost (find_withdrawal (cj_withdrawal j) db') = Some (Some cost)
         \<and> status_of (cj_withdrawal j) db' = Some Confirmed)
    \<and> (\<forall>m. m \<noteq> cj_withdrawal j \<longrightarrow> status_of m db' = status_of m db)"
proof -
  have upd: "find_withdrawal m (update_withdrawals (\<lambda>w. w_id w = cj_withdrawal j)
        (\<lambda>w. w\<lparr>w_status := s, gasCost := g, confirmedAt := t\<rparr>) db) =
      map_option (\<lambda>w. if m = cj_withdrawal j then w\<lparr>w_status := s, gasCost := g, confirmedAt := t\<rparr> else w)
        (find_withdrawal m db)" for m s g t
    by (cases "find_withdrawal m db") (auto simp: find_withdrawal_update dest: find_withdrawal_id)
  show ?thesis
    using assms(2)
    by (auto simp: checkConfirmation_def Let_def status_of_def upd find_set_status assms(1) option.map_ident
        split: if_splits sum.splits option.splits)
qed

lemma confirmation_needs_enough_blocks_witness:
  "status_of 5 (snd (checkConfirmation
      \<lparr>cf_provider = True, cf_receipt = Inr (Some \<lparr>rc_status = 1, rc_block = 100, rc_gasUsed = 21000, rc_gasPrice = Some 2\<rparr>),
       cf_block = Inr 111, cf_now = 9, cf_iso = show_int, formatEther = show_int\<rparr>
      \<lparr>cj_withdrawal = 5, cj_hash = ''0xtx'', cj_chain = 1\<rparr> sample_core)) = Some Confirmed"
proof -
  let ?env = "\<lparr>cf_provider = True, cf_receipt = Inr (Some \<lparr>rc_status = 1, rc_block = 100, rc_gasUsed = 21000, rc_gasPrice = Some 2\<rparr>),
       cf_block = Inr 111, cf_now = 9, cf_iso = show_int, formatEther = show_int\<rparr>"
  let ?j = "\<lparr>cj_withdrawal = 5, cj_hash = ''0xtx'', cj_chain = 1\<rparr>"
  have f: "find_withdrawal (cj_withdrawal ?j) sample_core = Some (sample_withdrawal 5 PendingCosign)"
    by (simp add: find_withdrawal_def sample_core_def sample_withdrawal_def)
  have r: "fst (checkConfirmation ?env ?j sample_core) = Inr (WithdrawalConfirmed 12 (show_int 42000))"
    by (simp add: checkConfirmation_def Let_def required_confirmations_def sample_core_def)
  from confirmation_needs_enough_blocks [OF f prod.collapse [symmetric]]
  have "status_of (cj_withdrawal ?j) (snd (checkConfirmation ?env ?j sample_core)) = Some Confirmed"
    using r by blast
  then show ?thesis by simp
qed

text \<open>The confirmed event never names the client, the destination or the raw amount.\<close>

lemma confirmed_event_lacks_the_client:
  "map_of (confirmed_payload env j cost cw k rc db) ''clientId'' = Some []
    \<and> map_of (confirmed_payload env j cost cw k rc db) ''toAddress'' = Some []"
  by (simp add: confirmed_payload_def)

end
