(* ===== verification/Lifecycle.thy ===== *)
theory Lifecycle
  imports WithdrawalWorker
begin

text \<open>
  The life of a withdrawal across the services: the operations of the withdrawal service, the
  co-sign orchestrator and the cron worker as the steps of one machine on the worker's state, the
  invariant that ties the co-sign operations and the confirmation jobs to the withdrawals'
  statuses, and the statuses no step leaves. Every operation is one step with whatever its
  environment answers; the approval is one step, and the last section shows what happens when it
  is interleaved with the worker.
\<close>

section \<open>Steps\<close>

inductive wallet_step :: "worker_state \<Rightarrow> worker_state \<Rightarrow> bool" where
  create: "createWithdrawal env rq (core s) = (res, db) \<Longrightarrow> wallet_step s (s\<lparr>core := db\<rparr>)"
| approve: "approveWithdrawal cr cenv n client (core s) = (res2, db) \<Longrightarrow> wallet_step s (s\<lparr>core := db\<rparr>)"
| cancel: "cancelWithdrawal n client (core s) = (res3, db) \<Longrightarrow> wallet_step s (s\<lparr>core := db\<rparr>)"
| submit: "submitCoSignature cr senv op client sig (core s) = (res4, db) \<Longrightarrow> wallet_step s (s\<lparr>core := db\<rparr>)"
| expire: "expireStaleOperations ok now (core s) = (res5, db) \<Longrightarrow> wallet_step s (s\<lparr>core := db\<rparr>)"
| poll: "pollApprovedWithdrawals s = (k, t) \<Longrightarrow> wallet_step s t"
| execute: "executeWithdrawal cr at jb n s = (res6, t) \<Longrightarrow> wallet_step s t"
| confirm: "j \<in> set (confirms s) \<Longrightarrow> process_confirm cf j s = (res7, t) \<Longrightarrow> wallet_step s t"

text \<open>Fresh tables: no withdrawals, no co-sign operations, no jobs.\<close>

definition wallet_init :: "worker_state \<Rightarrow> bool" where
  "wallet_init s \<longleftrightarrow> withdrawals (core s) = [] \<and> cosigns (core s) = [] \<and> confirms s = []"

section \<open>The invariant\<close>

definition on_chain :: "w_status set" where
  "on_chain = {Approved, Broadcasting, Confirmed, Failed}"

definition cosign_fits :: "core_db \<Rightarrow> cosign_row \<Rightarrow> bool" where
  "cosign_fits db c =
     (case co_status c of
        CoPending \<Rightarrow> status_of (co_withdrawal c) db = Some PendingCosign
      | CoSigned \<Rightarrow> status_of (co_withdrawal c) db \<in> Some ` on_chain
      | CoExpired \<Rightarrow> status_of (co_withdrawal c) db = Some Cancelled
      | CoCancelled \<Rightarrow> False)"

definition wallet_inv :: "worker_state \<Rightarrow> bool" where
  "wallet_inv s \<longleftrightarrow> db_ok (core s) \<and> (\<forall>c \<in> set (cosigns (core s)). cosign_fits (core s) c)
     \<and> (\<forall>j \<in> set (confirms s). status_of (cj_withdrawal j) (core s) \<in> Some ` on_chain)"

text \<open>A change of status that no co-sign operation and no confirmation job can notice.\<close>

definition harmless :: "w_status option \<Rightarrow> w_status option \<Rightarrow> bool" where
  "harmless a b \<longleftrightarrow> a = b \<or> a = None \<or> a = Some PendingApproval \<or> (a \<in> Some ` on_chain \<and> b \<in> Some ` on_chain)"

lemma harmless_refl [simp]: "harmless a a"
  by (simp add: harmless_def)

lemma status_of_compliance [simp]: "status_of n (db\<lparr>compliance := c\<rparr>) = status_of n db"
  by (simp add: status_of_def find_withdrawal_def)

lemma harmless_fits:
  assumes "\<And>m. harmless (status_of m db) (status_of m db')" and "cosign_fits db c"
  shows "cosign_fits db' c"
  using assms(2) assms(1) [of "co_withdrawal c"]
  by (auto simp: cosign_fits_def harmless_def on_chain_def split: co_status.splits)

lemma harmless_on_chain: "harmless a b \<Longrightarrow> a \<in> Some ` on_chain \<Longrightarrow> b \<in> Some ` on_chain"
  by (auto simp: harmless_def on_chain_def)

text \<open>The columns a step of the worker keeps, and what the primary keys need.\<close>

definition keys_of :: "core_db \<Rightarrow> ident list \<times> string list \<times> ident \<times> cosign_row list \<times> ident" where
  "keys_of db = (map w_id (withdrawals db), map (\<lambda>w. lower (idempotencyKey w)) (withdrawals db),
     next_withdrawal db, cosigns db, next_cosign db)"

lemma db_ok_keys: "keys_of db = keys_of db' \<Longrightarrow> db_ok db = db_ok db'"
  unfolding db_ok_def list_all_ids keys_of_def by simp

lemma wallet_inv_harmless:
  assumes "wallet_inv s" and "keys_of (core t) = keys_of (core s)"
    and "\<And>m. harmless (status_of m (core s)) (status_of m (core t))"
    and "\<And>j. j \<in> set (confirms t) \<Longrightarrow> j \<in> set (confirms s) \<or> status_of (cj_withdrawal j) (core t) \<in> Some ` on_chain"
  shows "wallet_inv t"
proof -
  have "cosigns (core t) = cosigns (core s)" using assms(2) by (simp add: keys_of_def)
  moreover have "db_ok (core t)" using assms(1) db_ok_keys [OF assms(2)] by (simp add: wallet_inv_def)
  moreover have "status_of (cj_withdrawal j) (core t) \<in> Some ` on_chain" if "j \<in> set (confirms t)" for j
    using assms(4) [OF that] assms(1) harmless_on_chain [OF assms(3)] by (auto simp: wallet_inv_def)
  ultimately show ?thesis
    using assms(1) harmless_fits [OF assms(3)] by (simp add: wallet_inv_def)
qed

lemma keys_of_set_status [simp]: "keys_of (set_status st n db) = keys_of db"
  by (simp add: keys_of_def)

lemma keys_of_publish [simp]: "keys_of (publish s p db) = keys_of db"
  by (simp add: keys_of_def)

lemma keys_of_claim [simp]: "keys_of (snd (claim n db)) = keys_of db"
  by (simp add: keys_of_def claim_def update_withdrawals_def map_update_where)

lemma keys_of_recorded [simp]:
  "keys_of (update_withdrawals p (\<lambda>x. x\<lparr>w_txHash := a, w_sequence := g x, submittedAt := b\<rparr>) db) = keys_of db"
  by (simp add: keys_of_def update_withdrawals_def map_update_where)

lemma keys_of_confirmed [simp]:
  "keys_of (update_withdrawals p (\<lambda>w. w\<lparr>w_status := s, gasCost := g, confirmedAt := t\<rparr>) db) = keys_of db"
  by (simp add: keys_of_def update_withdrawals_def map_update_where)

section \<open>The worker's steps\<close>

text \<open>\<open>worked n s t\<close>: from \<open>s\<close> to \<open>t\<close> only the withdrawal \<open>n\<close> changed its status, only jobs for it were
  added, and the keys are the same.\<close>

definition worked :: "ident \<Rightarrow> worker_state \<Rightarrow> worker_state \<Rightarrow> bool" where
  "worked n s t \<longleftrightarrow> keys_of (core t) = keys_of (core s) \<and> (\<forall>m. m \<noteq> n \<longrightarrow> status_of m (core t) = status_of m (core s))
     \<and> (\<forall>j \<in> set (confirms t). j \<in> set (confirms s) \<or> cj_withdrawal j = n)"

lemma worked_refl [simp]: "worked n s s"
  by (simp add: worked_def)

lemma worked_trans: "worked n s t \<Longrightarrow> worked n t u \<Longrightarrow> worked n s u"
  by (auto simp: worked_def)

lemma worked_same: "core t = core s \<Longrightarrow> confirms t = confirms s \<Longrightarrow> worked n s t"
  by (simp add: worked_def)

lemma confirms_sign [simp]: "confirms (snd (sign_and_broadcast at c ty tx st)) = confirms st"
  and core_sign [simp]: "core (snd (sign_and_broadcast at c ty tx st)) = core st"
  by (rule sign_and_broadcast_cases [of at c ty tx st]; simp)+

lemma worked_send_call: "worked n st (snd (send_call at w wallet data st))"
proof (rule worked_same)
  obtain a st1 where r: "resolveAddress (w_client w) PlatformKey st = (a, st1)" by fastforce
  then have st1: "core st1 = core st" "confirms st1 = confirms st"
    using resolveAddress_keeps [of "w_client w" PlatformKey st] by simp_all
  show "core (snd (send_call at w wallet data st)) = core st"
    "confirms (snd (send_call at w wallet data st)) = confirms st"
    using st1 by (simp_all add: send_call_def r split: sum.split)
qed

lemma worked_submit: "worked n st (snd (signAndSubmit at ch c d dt amt ty st))"
  by (rule worked_same; simp add: signAndSubmit_def split: list.split sum.split)

lemma worked_record:
  assumes "w_id w = n"
  shows "worked n st (snd (record_broadcast at w h seq payload st))"
  using assms by (auto simp: worked_def record_broadcast_def Let_def add_confirm_def)

lemma worked_on_error:
  assumes "w_id w = n"
  shows "worked n st (on_error at jb w e st)"
  using assms by (auto simp: worked_def on_error_def Let_def status_of_set_status)

lemma worked_hot:
  assumes "w_id w = n"
  shows "worked n st (snd (hot_attempt cr at w st))"
proof (cases "prepare_call cr at w st")
  case (Inr c)
  obtain wallet seq data where c: "c = (wallet, seq, data)" by (cases c)
  obtain r st1 where s: "send_call at w wallet data st = (r, st1)" by fastforce
  have 1: "worked n st st1" using worked_send_call [of n st at w wallet data] by (simp add: s)
  show ?thesis
  proof (cases r)
    case (Inl e)
    then show ?thesis using Inr c s 1 by (simp add: hot_attempt_def)
  next
    case r: (Inr h)
    obtain q st2 where q: "record_broadcast at w h (Some seq) (hot_payload at w h seq) st1 = (q, st2)" by fastforce
    have "worked n st1 st2" using worked_record [OF assms, of st1 at h "Some seq" "hot_payload at w h seq"] by (simp add: q)
    then have 2: "worked n st st2" by (rule worked_trans [OF 1])
    moreover have "worked n st2 (st2\<lparr>reports := x\<rparr>)" for x by (rule worked_same) simp_all
    ultimately show ?thesis
      using Inr c s r q worked_trans [OF 2] by (cases q) (auto simp: hot_attempt_def)
  qed
qed (simp add: hot_attempt_def)

lemma worked_tank:
  assumes "w_id w = n"
  shows "worked n st (snd (executeGasTankWithdrawal at w st))"
proof (cases "big_int (amountRaw w)")
  case (Some amt)
  obtain r st1 where s: "signAndSubmit at (w_chain w) (w_client w) (toAddress w) (RawData ''0x'') amt GasTankKey st = (r, st1)"
    by fastforce
  have 1: "worked n st st1" using worked_submit [of n st at "w_chain w" "w_client w" "toAddress w" "RawData ''0x''" amt GasTankKey]
    by (simp add: s)
  show ?thesis
  proof (cases r)
    case (Inl e)
    then show ?thesis using Some s 1 by (simp add: executeGasTankWithdrawal_def)
  next
    case (Inr h)
    let ?pay = "[(''withdrawalId'', show_int (w_id w)), (''clientId'', show_int (w_client w)),
              (''chainId'', show_int (w_chain w)), (''sourceWallet'', ''gas_tank''), (''txHash'', h),
              (''timestamp'', iso_time at (at_submitted at))]"
    obtain q st2 where q: "record_broadcast at w h None ?pay st1 = (q, st2)" by fastforce
    have "worked n st1 st2" using worked_record [OF assms, of st1 at h None ?pay] by (simp add: q)
    then have "worked n st st2" by (rule worked_trans [OF 1])
    then show ?thesis
      using Some s Inr q by (cases q) (simp_all add: executeGasTankWithdrawal_def)
  qed
qed (simp add: executeGasTankWithdrawal_def)

lemma worked_execute:
  assumes "distinct (map w_id (withdrawals (core st)))"
  shows "worked n st (snd (executeWithdrawal cr at jb n st))"
proof (cases "status_of n (core st) = Some Approved")
  case False
  then show ?thesis using executeWithdrawal_refused [OF False assms] by simp
next
  case True
  then obtain w where w: "find_withdrawal n (core st) = Some w" "w_status w = Approved"
    by (auto simp: status_of_def)
  let ?w = "w\<lparr>w_status := Broadcasting\<rparr>" and ?st = "st\<lparr>core := snd (claim n (core st))\<rparr>"
  have id: "w_id ?w = n" using find_withdrawal_id [OF w(1)] by simp
  have "status_of m (snd (claim n (core st))) = status_of m (core st)" if "m \<noteq> n" for m
    using that by (cases "find_withdrawal m (core st)") (simp_all add: status_of_def find_claim)
  then have 1: "worked n st ?st" by (simp add: worked_def)
  obtain r st2 where h: "hot_attempt cr at ?w ?st = (r, st2)" by fastforce
  have 2: "worked n st st2"
    using worked_trans [OF 1 worked_hot [OF id, of ?st cr at]] by (simp add: h)
  then have 3: "worked n st (on_error at jb ?w e st2)" for e
    using worked_trans worked_on_error [OF id] by blast
  have 4: "worked n st (snd (executeGasTankWithdrawal at ?w ?st))"
    by (rule worked_trans [OF 1 worked_tank [OF id]])
  show ?thesis
    using executeWithdrawal_claimed [OF w assms, of cr at jb] 2 3 4 by (cases r) (simp_all add: h Let_def)
qed

lemma status_after_execute:
  assumes "distinct (map w_id (withdrawals (core st)))" and "status_of n (core st) = Some Approved"
  shows "status_of n (core (snd (executeWithdrawal cr at jb n st))) \<in> Some ` on_chain"
proof -
  obtain w where w: "find_withdrawal n (core st) = Some w" "w_status w = Approved"
    using assms(2) by (auto simp: status_of_def)
  show ?thesis
    by (rule executeWithdrawal_cases [OF assms(1) w, of cr at jb]) (auto simp: on_chain_def)
qed

lemma db_ok_ids: "db_ok db \<Longrightarrow> distinct (map w_id (withdrawals db))"
  by (simp add: db_ok_def)

lemma inv_execute: "wallet_inv s \<Longrightarrow> wallet_inv (snd (executeWithdrawal cr at jb n s))"
proof -
  assume inv: "wallet_inv s"
  then have d: "distinct (map w_id (withdrawals (core s)))" by (simp add: wallet_inv_def db_ok_ids)
  let ?t = "snd (executeWithdrawal cr at jb n s)"
  have w: "worked n s ?t" by (rule worked_execute [OF d])
  show ?thesis
  proof (cases "status_of n (core s) = Some Approved")
    case False
    then show ?thesis using executeWithdrawal_refused [OF False d] inv by simp
  next
    case True
    note after = status_after_execute [OF d True, of cr at jb]
    show ?thesis
    proof (rule wallet_inv_harmless [OF inv])
      show "keys_of (core ?t) = keys_of (core s)" using w by (simp add: worked_def)
      show "harmless (status_of m (core s)) (status_of m (core ?t))" for m
        using w after True by (cases "m = n") (auto simp: worked_def harmless_def on_chain_def)
      show "j \<in> set (confirms s) \<or> status_of (cj_withdrawal j) (core ?t) \<in> Some ` on_chain"
        if "j \<in> set (confirms ?t)" for j
        using w after that unfolding worked_def by metis
    qed
  qed
qed

lemma status_of_confirmed:
  "status_of m (update_withdrawals (\<lambda>w. w_id w = k)
      (\<lambda>w. w\<lparr>w_status := st, gasCost := g, confirmedAt := ti\<rparr>) db) =
    (if m = k \<and> find_withdrawal m db \<noteq> None then Some st else status_of m db)"
  by (cases "find_withdrawal m db")
     (auto simp: status_of_def find_withdrawal_update dest: find_withdrawal_id)

lemma inv_confirm:
  assumes inv: "wallet_inv s" and j: "j \<in> set (confirms s)"
  shows "wallet_inv (snd (process_confirm cf j s))"
proof -
  let ?n = "cj_withdrawal j" and ?t = "snd (process_confirm cf j s)"
  obtain res db where c: "checkConfirmation cf j (core s) = (res, db)" by fastforce
  have t: "core ?t = db" "confirms ?t = confirms s" by (simp_all add: process_confirm_def c)
  have before: "status_of ?n (core s) \<in> Some ` on_chain" using inv j by (simp add: wallet_inv_def)
  then obtain w where w: "find_withdrawal ?n (core s) = Some w" by (auto simp: status_of_def)
  have "keys_of db = keys_of (core s) \<and> (\<forall>m. harmless (status_of m (core s)) (status_of m db))"
    using c before w
    by (auto simp: checkConfirmation_def Let_def status_of_confirmed status_of_set_status harmless_def on_chain_def
        split: if_splits sum.splits option.splits)
  then show ?thesis by (intro wallet_inv_harmless [OF inv]) (simp_all add: t)
qed

lemma inv_poll: "wallet_inv s \<Longrightarrow> wallet_inv (snd (pollApprovedWithdrawals s))"
proof -
  have "confirms (fold enqueue ws s) = confirms s" for ws
    by (induction ws arbitrary: s) (auto simp: enqueue_def)
  then show "wallet_inv s \<Longrightarrow> wallet_inv (snd (pollApprovedWithdrawals s))"
    by (simp add: wallet_inv_def pollApprovedWithdrawals_def Let_def)
qed

section \<open>The services' steps\<close>

lemma inv_cancel: "wallet_inv s \<Longrightarrow> wallet_inv (s\<lparr>core := snd (cancelWithdrawal n client (core s))\<rparr>)"
proof -
  assume inv: "wallet_inv s"
  then have d: "distinct (map w_id (withdrawals (core s)))" by (simp add: wallet_inv_def db_ok_ids)
  have own: "status_of n (core s) = Some (w_status w)" if "find_own_withdrawal n client (core s) = Some w" for w
    using that find_own_withdrawal_Some [OF d, of n client w] by (simp add: status_of_def)
  have "harmless (status_of m (core s)) (status_of m (snd (cancelWithdrawal n client (core s))))" for m
    by (auto simp: cancelWithdrawal_def harmless_def status_of_set_status dest!: own split: option.split)
  moreover have "keys_of (snd (cancelWithdrawal n client (core s))) = keys_of (core s)"
    by (simp add: cancelWithdrawal_def split: option.split)
  ultimately show ?thesis by (intro wallet_inv_harmless [OF inv]) simp_all
qed

text \<open>A row with a new identifier and a new key keeps the tables well formed and every status.\<close>

lemma inv_insert:
  assumes "wallet_inv s" and "insert_withdrawal w ((core s)\<lparr>compliance := c\<rparr>) = (r, db)"
  shows "wallet_inv (s\<lparr>core := db\<rparr>)"
proof (cases r)
  case (Inl e)
  then have "db = (core s)\<lparr>compliance := c\<rparr>"
    using assms(2) by (auto simp: insert_withdrawal_def Let_def split: if_splits)
  then show ?thesis
    by (intro wallet_inv_harmless [OF assms(1)]) (auto simp: keys_of_def)
next
  case (Inr w')
  let ?db = "core s"
  have db: "db = ?db\<lparr>compliance := c, withdrawals := withdrawals ?db @ [w'], next_withdrawal := next_withdrawal ?db + 1\<rparr>"
    and w': "w_id w' = next_withdrawal ?db" "idempotencyKey w' = idempotencyKey w"
    and new: "\<forall>x \<in> set (withdrawals ?db). \<not> sql_eq (idempotencyKey x) (idempotencyKey w)"
    using assms(2) Inr by (auto simp: insert_withdrawal_def Let_def split: if_splits)
  have ok: "db_ok ?db" using assms(1) by (simp add: wallet_inv_def)
  then have fresh: "w_id w' \<notin> w_id ` set (withdrawals ?db)"
    by (auto simp: db_ok_def list_all_iff w'(1))
  have "db_ok db"
    using ok fresh new by (auto simp: db_ok_def db w' list_all_iff sql_eq_def)
  have harmless: "harmless (status_of m ?db) (status_of m db)" for m
  proof (cases "find_withdrawal m ?db")
    case None
    then show ?thesis by (simp add: harmless_def status_of_def)
  next
    case (Some x)
    then show ?thesis
      by (simp add: harmless_def status_of_def find_withdrawal_def db find_append_Some)
  qed
  have "cosigns db = cosigns ?db" by (simp add: db)
  then show ?thesis
    using assms(1) \<open>db_ok db\<close> harmless_fits [OF harmless] harmless_on_chain [OF harmless]
    by (simp add: wallet_inv_def)
qed

lemma inv_compliance: "wallet_inv s \<Longrightarrow> wallet_inv (s\<lparr>core := (core s)\<lparr>compliance := c\<rparr>\<rparr>)"
  by (rule wallet_inv_harmless) (auto simp: keys_of_def)

lemma snd_created [simp]: "snd (created x) = snd x"
  by (simp add: created_def)

lemma inv_create: "wallet_inv s \<Longrightarrow> wallet_inv (s\<lparr>core := snd (createWithdrawal env rq (core s))\<rparr>)"
proof -
  assume inv: "wallet_inv s"
  have ins: "wallet_inv (s\<lparr>core := snd (insert_withdrawal w ((core s)\<lparr>compliance := c\<rparr>))\<rparr>)" for w c
    using inv_insert [OF inv, of w c] by (cases "insert_withdrawal w ((core s)\<lparr>compliance := c\<rparr>)") simp
  have chk: "wallet_inv (s\<lparr>core := snd (create_checked env rq src l ((core s)\<lparr>compliance := c\<rparr>))\<rparr>)" for src l c
    using ins inv_compliance [OF inv, of c]
    by (simp add: create_checked_def split: sum.split option.split)
  show ?thesis
    using inv ins chk inv_compliance [OF inv]
    by (simp add: createWithdrawal_def Let_def split: sum.split option.split prod.split)
qed

lemma inv_approve: "wallet_inv s \<Longrightarrow> wallet_inv (s\<lparr>core := snd (approveWithdrawal cr cenv n client (core s))\<rparr>)"
proof -
  assume inv: "wallet_inv s"
  let ?db = "core s"
  have d: "distinct (map w_id (withdrawals ?db))" using inv by (simp add: wallet_inv_def db_ok_ids)
  have own: "status_of n ?db = Some (w_status w)" if "find_own_withdrawal n client ?db = Some w" for w
    using that find_own_withdrawal_Some [OF d, of n client w] by (simp add: status_of_def)
  have approved: "wallet_inv (s\<lparr>core := set_status Approved n ?db\<rparr>)"
    if "status_of n ?db = Some PendingApproval"
    using that by (intro wallet_inv_harmless [OF inv]) (auto simp: status_of_set_status harmless_def)
  have inserted: "wallet_inv (s\<lparr>core := set_status PendingCosign n db1\<lparr>streams := evs\<rparr>\<rparr>)"
    if p: "status_of n ?db = Some PendingApproval"
      and c: "insert_cosign c (set_status Approved n ?db) = Inr db1" "co_withdrawal c = n" "co_status c = CoPending"
        "co_id c = next_cosign ?db"
    for c db1 evs
  proof -
    let ?db2 = "set_status PendingCosign n db1\<lparr>streams := evs\<rparr>"
    have db1: "db1 = set_status Approved n ?db\<lparr>cosigns := cosigns ?db @ [c], next_cosign := next_cosign ?db + 1\<rparr>"
      and new: "\<forall>x \<in> set (cosigns ?db). co_withdrawal x \<noteq> n"
      using insert_cosign_ok [OF c(1)] c(2) by simp_all
    have w1: "withdrawals ?db2 = withdrawals (set_status PendingCosign n (set_status Approved n ?db))"
      by (simp add: db1 set_status_def update_withdrawals_def)
    have st: "status_of m ?db2 = (if m = n then Some PendingCosign else status_of m ?db)" for m
    proof -
      have "status_of m ?db2 = status_of m (set_status PendingCosign n (set_status Approved n ?db))"
        using w1 by (simp add: status_of_def find_withdrawal_def)
      then show ?thesis using p by (auto simp: status_of_set_status find_set_status status_of_def option.map_ident)
    qed
    have cs: "cosigns ?db2 = cosigns ?db @ [c]" by (simp add: db1)
    have "db_ok ?db2"
      using inv new c unfolding wallet_inv_def db_ok_def list_all_ids
      by (auto simp: db1 list_all_iff)
    moreover have "cosign_fits ?db2 x" if "x \<in> set (cosigns ?db)" for x
      using that inv new st by (auto simp: wallet_inv_def cosign_fits_def split: co_status.splits)
    moreover have "cosign_fits ?db2 c" using c st by (simp add: cosign_fits_def)
    moreover have "status_of (cj_withdrawal j) ?db2 \<in> Some ` on_chain" if "j \<in> set (confirms s)" for j
      using that inv p st by (auto simp: wallet_inv_def on_chain_def)
    ultimately show ?thesis using cs by (simp add: wallet_inv_def)
  qed
  show ?thesis
  proof (cases "find_own_withdrawal n client ?db")
    case None
    then show ?thesis using inv by (simp add: approveWithdrawal_def approve_status_def)
  next
    case (Some w)
    show ?thesis
    proof (cases "w_status w = PendingApproval")
      case False
      then show ?thesis using inv approve_status_pending(2) [OF Some] by (simp add: approveWithdrawal_def)
    next
      case True
      have p: "status_of n ?db = Some PendingApproval" using own [OF Some] True by simp
      have a: "snd (approveWithdrawal cr cenv n client ?db) =
          (if uses_cosign w client ?db
           then snd (createCoSignOperation cr cenv n client (w_project w) (set_status Approved n ?db))
           else set_status Approved n ?db)"
        using approve_status_pending(1) [OF Some True]
        by (simp add: approveWithdrawal_def approve_cosign_def split: prod.split sum.split)
      show ?thesis
      proof (cases "uses_cosign w client ?db")
        case False
        then show ?thesis using a approved [OF p] by simp
      next
        case True
        show ?thesis
        proof (rule createCoSignOperation_cases [of cr cenv n client "w_project w" "set_status Approved n ?db"])
          fix e
          assume "createCoSignOperation cr cenv n client (w_project w) (set_status Approved n ?db) =
            (Inl e, set_status Approved n ?db)"
          then show ?thesis using a True approved [OF p] by simp
        next
          fix w' wal h ky db1
          assume i: "insert_cosign (new_cosign cenv w' wal n client (w_project w) h ky (set_status Approved n ?db))
              (set_status Approved n ?db) = Inr db1"
            and e: "\<exists>evs. snd (createCoSignOperation cr cenv n client (w_project w) (set_status Approved n ?db)) =
              set_status PendingCosign n db1\<lparr>streams := streams (set_status Approved n ?db) @ evs\<rparr>"
          then show ?thesis using a True inserted [OF p i] by (auto simp: new_cosign_def)
        qed
      qed
    qed
  qed
qed

text \<open>Moving one operation and its waiting withdrawal together.\<close>

lemma inv_settle:
  assumes inv: "wallet_inv s" and c: "c \<in> set (cosigns (core s))" "co_status c = CoPending"
    and db: "cosigns db = update_where (\<lambda>x. co_id x = co_id c) f (cosigns (core s))"
      "map w_id (withdrawals db) = map w_id (withdrawals (core s))"
      "map (\<lambda>w. lower (idempotencyKey w)) (withdrawals db) = map (\<lambda>w. lower (idempotencyKey w)) (withdrawals (core s))"
      "next_withdrawal db = next_withdrawal (core s)" "next_cosign db = next_cosign (core s)"
      "\<And>m. status_of m db = (if m = co_withdrawal c then Some st else status_of m (core s))"
    and f: "\<And>x. co_id (f x) = co_id x" "\<And>x. co_withdrawal (f x) = co_withdrawal x" "cosign_fits db (f c)"
  shows "wallet_inv (s\<lparr>core := db\<rparr>)"
proof -
  let ?db = "core s"
  have ok: "db_ok ?db" and fits: "\<forall>x \<in> set (cosigns ?db). cosign_fits ?db x"
    using inv by (simp_all add: wallet_inv_def)
  have ids: "map co_id (cosigns db) = map co_id (cosigns ?db)"
    and ws: "map co_withdrawal (cosigns db) = map co_withdrawal (cosigns ?db)"
    by (simp_all add: db(1) map_update_where f)
  have "db_ok db"
    using ok ids ws unfolding db_ok_def list_all_ids list_all_co_ids by (simp add: db)
  moreover have "cosign_fits db y" if y: "y \<in> set (cosigns db)" for y
  proof -
    obtain x where x: "x \<in> set (cosigns ?db)" "y = (if co_id x = co_id c then f x else x)"
      using y by (auto simp: db(1) set_update_where)
    show ?thesis
    proof (cases "co_id x = co_id c")
      case True
      then have "x = c" using ok x(1) c(1) by (auto simp: db_ok_def distinct_map dest: inj_onD)
      then show ?thesis using x f by simp
    next
      case False
      then have "x \<noteq> c" by blast
      then have "co_withdrawal x \<noteq> co_withdrawal c"
        using ok x(1) c(1) by (auto simp: db_ok_def distinct_map dest: inj_onD)
      then show ?thesis
        using fits x False db(6) by (simp add: cosign_fits_def split: co_status.splits)
    qed
  qed
  moreover have "status_of (cj_withdrawal j) db \<in> Some ` on_chain" if "j \<in> set (confirms s)" for j
  proof -
    have "cosign_fits ?db c" using fits c by blast
    then have "status_of (co_withdrawal c) ?db = Some PendingCosign" using c by (simp add: cosign_fits_def)
    then show ?thesis using that inv db(6) by (auto simp: wallet_inv_def on_chain_def)
  qed
  ultimately show ?thesis by (simp add: wallet_inv_def)
qed

lemma inv_pending: "wallet_inv s \<Longrightarrow> c \<in> set (cosigns (core s)) \<Longrightarrow> co_status c = CoPending \<Longrightarrow>
    status_of (co_withdrawal c) (core s) = Some PendingCosign"
  by (auto simp: wallet_inv_def cosign_fits_def)

lemma inv_signed:
  assumes inv: "wallet_inv s" and c: "c \<in> set (cosigns (core s))" "co_status c = CoPending"
  shows "wallet_inv (s\<lparr>core := signed_db env sig c (core s)\<rparr>)"
proof -
  have p: "status_of (co_withdrawal c) (core s) = Some PendingCosign" using inv_pending [OF inv c] .
  let ?f = "\<lambda>x. x\<lparr>co_status := CoSigned, client_signature := Some sig, signed_at := Some (se_signed env)\<rparr>"
  have st: "status_of m (signed_db env sig c (core s)) =
      (if m = co_withdrawal c then Some Approved else status_of m (core s))" for m
    using p by (auto simp: signed_db_def status_of_leave_cosign)
  have fits: "cosign_fits (signed_db env sig c (core s)) (?f c)"
    by (simp add: cosign_fits_def st on_chain_def)
  show ?thesis
    by (rule inv_settle [OF inv c, of _ ?f, OF _ _ _ _ _ st _ _ fits]) (simp_all add: signed_db_def update_cosign_def)
qed

lemma inv_expire_one:
  assumes inv: "wallet_inv s" and c: "c \<in> set (cosigns (core s))" "co_status c = CoPending"
  shows "wallet_inv (s\<lparr>core := expire_one c (core s)\<rparr>)"
proof -
  have st: "status_of m (expire_one c (core s)) =
      (if m = co_withdrawal c then Some Cancelled else status_of m (core s))" for m
    using inv_pending [OF inv c] by auto
  have fits: "cosign_fits (expire_one c (core s)) (c\<lparr>co_status := CoExpired\<rparr>)"
    unfolding cosign_fits_def st by simp
  show ?thesis
    by (rule inv_settle [OF inv c, of _ "\<lambda>x. x\<lparr>co_status := CoExpired\<rparr>", OF _ _ _ _ _ st _ _ fits])
       (simp_all add: expire_one_def update_cosign_def)
qed

lemma inv_publish: "wallet_inv (s\<lparr>core := db\<rparr>) \<Longrightarrow> wallet_inv (s\<lparr>core := publish st p db\<rparr>)"
  by (rule wallet_inv_harmless) auto

lemma inv_expire_loop:
  "wallet_inv (s\<lparr>core := db\<rparr>) \<Longrightarrow> distinct (map co_id ops) \<Longrightarrow>
     (\<forall>c \<in> set ops. c \<in> set (cosigns db) \<and> co_status c = CoPending) \<Longrightarrow>
     wallet_inv (s\<lparr>core := snd (expire_loop ok ops db)\<rparr>)"
proof (induction ops arbitrary: db)
  case Nil
  then show ?case by simp
next
  case (Cons op ops)
  have one: "wallet_inv (s\<lparr>core := expire_one op db\<rparr>)"
    using inv_expire_one [of "s\<lparr>core := db\<rparr>" op] Cons.prems by simp
  have rest: "\<forall>c \<in> set ops. c \<in> set (cosigns (expire_one op db)) \<and> co_status c = CoPending"
  proof
    fix c
    assume c: "c \<in> set ops"
    then have "co_id c \<in> co_id ` set ops" by (rule imageI)
    then have "co_id c \<noteq> co_id op" using Cons.prems(2) by auto
    moreover have "c \<in> set (cosigns db)" "co_status c = CoPending" using Cons.prems(3) c by auto
    ultimately show "c \<in> set (cosigns (expire_one op db)) \<and> co_status c = CoPending"
      by (auto simp: set_update_where intro!: bexI [of _ c])
  qed
  show ?case
    using Cons.IH [OF inv_publish [OF one]] Cons.prems(2) rest one by simp
qed

lemma snd_expireStaleOperations:
  "snd (expireStaleOperations ok now db) = snd (expire_loop ok (filter (stale now) (cosigns db)) db)"
  by (simp add: expireStaleOperations_def Let_def split: prod.split sum.split)

lemma inv_expire: "wallet_inv s \<Longrightarrow> wallet_inv (s\<lparr>core := snd (expireStaleOperations ok now (core s))\<rparr>)"
proof -
  assume inv: "wallet_inv s"
  have d: "distinct (map co_id (filter (stale now) (cosigns (core s))))"
    using inv by (auto simp: wallet_inv_def db_ok_def intro: distinct_map_filter)
  show ?thesis
    using inv_expire_loop [OF _ d, where s = s and db = "core s"] inv
    by (simp add: snd_expireStaleOperations stale_def)
qed

lemma inv_submit: "wallet_inv s \<Longrightarrow> wallet_inv (s\<lparr>core := snd (submitCoSignature cr env op client sig (core s))\<rparr>)"
proof -
  assume inv: "wallet_inv s"
  show ?thesis
  proof (cases "\<exists>c. find_operation op client (core s) = Some c \<and> co_status c = CoPending \<and> se_now env < expires_at c
      \<and> verifySignature cr (operation_hash c) sig (client_address c) = Inr True")
    case True
    then obtain c where c: "find_operation op client (core s) = Some c" "co_status c = CoPending"
      "se_now env < expires_at c" "verifySignature cr (operation_hash c) sig (client_address c) = Inr True" by blast
    have "wallet_inv (s\<lparr>core := signed_db env sig c (core s)\<rparr>)"
      using inv_signed [OF inv] find_operation_Some [OF c(1)] c(2) by blast
    then show ?thesis using submit_accepted [OF c] inv_publish by simp
  next
    case False
    then obtain e where "submitCoSignature cr env op client sig (core s) = (Inl e, core s)"
      using submit_refused [of op client "core s" env cr sig] by blast
    then show ?thesis using inv by simp
  qed
qed

lemma inv_wallet_step:
  assumes inv: "wallet_inv s" and "wallet_step s t"
  shows "wallet_inv t"
  using assms(2)
proof cases
  case (create env rq res db)
  then show ?thesis using inv_create [OF inv, of env rq] by simp
next
  case (approve cr cenv n client res2 db)
  then show ?thesis using inv_approve [OF inv, of cr cenv n client] by simp
next
  case (cancel n client res3 db)
  then show ?thesis using inv_cancel [OF inv, of n client] by simp
next
  case (submit cr senv op client sig res4 db)
  then show ?thesis using inv_submit [OF inv, of cr senv op client sig] by simp
next
  case (expire ok now res5 db)
  then show ?thesis using inv_expire [OF inv, of ok now] by simp
next
  case (poll k)
  then show ?thesis using inv_poll [OF inv] by simp
next
  case (execute cr at jb n res6)
  then show ?thesis using inv_execute [OF inv, of cr at jb n] by simp
next
  case (confirm j cf res7)
  then show ?thesis using inv_confirm [OF inv, of j cf] by simp
qed

lemma inv_wallet_init: "wallet_init s \<Longrightarrow> wallet_inv s"
  by (simp add: wallet_init_def wallet_inv_def db_ok_def)

section \<open>Final statuses\<close>

definition dead :: "ident \<Rightarrow> worker_state \<Rightarrow> bool" where
  "dead n s \<longleftrightarrow> status_of n (core s) \<in> {Some Cancelled, Some Rejected}"

lemma dead_keeps:
  "status_of n db' = status_of n (core s) \<Longrightarrow> dead n s \<Longrightarrow> dead n (s\<lparr>core := db'\<rparr>)"
  by (simp add: dead_def)

lemma status_of_insert:
  "insert_withdrawal w db = (r, db') \<Longrightarrow> status_of n db \<noteq> None \<Longrightarrow> status_of n db' = status_of n db"
  by (auto simp: insert_withdrawal_def Let_def status_of_def find_withdrawal_def find_append_Some split: if_splits)

lemma dead_create:
  assumes "dead n s"
  shows "status_of n (snd (createWithdrawal env rq (core s))) = status_of n (core s)"
proof -
  have "status_of n (core s) \<noteq> None" using assms by (auto simp: dead_def)
  then have ins: "status_of n (snd (insert_withdrawal w ((core s)\<lparr>compliance := c\<rparr>))) = status_of n (core s)" for w c
    using status_of_insert [of w "(core s)\<lparr>compliance := c\<rparr>" _ _ n]
    by (cases "insert_withdrawal w ((core s)\<lparr>compliance := c\<rparr>)") simp
  have chk: "status_of n (snd (create_checked env rq src l ((core s)\<lparr>compliance := c\<rparr>))) = status_of n (core s)" for src l c
    by (simp add: create_checked_def ins split: sum.split option.split)
  show ?thesis
    by (simp add: createWithdrawal_def Let_def ins chk split: sum.split option.split prod.split)
qed

text \<open>A step changes the status of a withdrawal only from the statuses it handles.\<close>

lemma dead_step:
  assumes inv: "wallet_inv s" and d: "dead n s" and "wallet_step s t"
  shows "status_of n (core t) = status_of n (core s)"
  using assms(3)
proof cases
  case (create env rq res db)
  then show ?thesis using dead_create [OF d, of env rq] d by (simp add: dead_def)
next
  case (approve cr cenv m client res2 db)
  have di: "distinct (map w_id (withdrawals (core s)))" using inv by (simp add: wallet_inv_def db_ok_ids)
  show ?thesis
  proof (cases "find_own_withdrawal m client (core s)")
    case None
    then show ?thesis using approve d by (auto simp: approveWithdrawal_def approve_status_def dead_def)
  next
    case (Some w)
    then have w: "status_of m (core s) = Some (w_status w)"
      using find_own_withdrawal_Some [OF di, of m client w] by (simp add: status_of_def)
    show ?thesis
    proof (cases "w_status w = PendingApproval")
      case False
      then show ?thesis using approve d approve_status_pending(2) [OF Some] by (auto simp: approveWithdrawal_def)
    next
      case True
      then have ne: "n \<noteq> m" using w d by (auto simp: dead_def)
      have "status_of n (snd (createCoSignOperation cr cenv m client (w_project w) (set_status Approved m (core s)))) = status_of n (core s)"
      proof (rule createCoSignOperation_cases [of cr cenv m client "w_project w" "set_status Approved m (core s)"])
        fix e
        assume "createCoSignOperation cr cenv m client (w_project w) (set_status Approved m (core s)) = (Inl e, set_status Approved m (core s))"
        then show ?thesis using ne by (simp add: status_of_set_status)
      next
        fix w' wal h ky db1
        assume i: "insert_cosign (new_cosign cenv w' wal m client (w_project w) h ky (set_status Approved m (core s)))
              (set_status Approved m (core s)) = Inr db1"
          and "\<exists>evs. snd (createCoSignOperation cr cenv m client (w_project w) (set_status Approved m (core s))) =
              set_status PendingCosign m db1\<lparr>streams := streams (set_status Approved m (core s)) @ evs\<rparr>"
        then obtain evs where e: "snd (createCoSignOperation cr cenv m client (w_project w) (set_status Approved m (core s))) =
              set_status PendingCosign m db1\<lparr>streams := evs\<rparr>" by blast
        have "status_of n (set_status PendingCosign m db1\<lparr>streams := evs\<rparr>) = status_of n (set_status PendingCosign m db1)"
          by (simp add: status_of_def find_withdrawal_def)
        also have "\<dots> = status_of n db1" using ne by (simp add: status_of_set_status)
        also have "\<dots> = status_of n (set_status Approved m (core s))"
          using insert_cosign_ok [OF i] by (simp add: status_of_def find_withdrawal_def)
        finally show ?thesis using ne by (simp add: e status_of_set_status)
      qed
      then have "status_of n (snd (approveWithdrawal cr cenv m client (core s))) = status_of n (core s)"
        using approve_status_pending(1) [OF Some True] ne
        by (auto simp: approveWithdrawal_def approve_cosign_def status_of_set_status split: prod.split sum.split)
      then show ?thesis using approve d by (simp add: dead_def)
    qed
  qed
next
  case (cancel m client res3 db)
  have di: "distinct (map w_id (withdrawals (core s)))" using inv by (simp add: wallet_inv_def db_ok_ids)
  have own: "status_of m (core s) = Some (w_status w)" if "find_own_withdrawal m client (core s) = Some w" for w
    using that find_own_withdrawal_Some [OF di, of m client w] by (simp add: status_of_def)
  show ?thesis using cancel d
    by (auto simp: cancelWithdrawal_def dead_def status_of_set_status dest!: own split: option.splits if_splits)
next
  case (submit cr senv op client sig res4 db)
  have "status_of n (snd (submitCoSignature cr senv op client sig (core s))) = status_of n (core s)"
  proof (cases "\<exists>c. find_operation op client (core s) = Some c \<and> co_status c = CoPending \<and> se_now senv < expires_at c
      \<and> verifySignature cr (operation_hash c) sig (client_address c) = Inr True")
    case True
    then obtain c where c: "find_operation op client (core s) = Some c" "co_status c = CoPending"
      "se_now senv < expires_at c" "verifySignature cr (operation_hash c) sig (client_address c) = Inr True" by blast
    show ?thesis using submit_accepted [OF c] d by (auto simp: signed_db_def status_of_leave_cosign dead_def)
  next
    case False
    then obtain e where "submitCoSignature cr senv op client sig (core s) = (Inl e, core s)"
      using submit_refused [of op client "core s" senv cr sig] by blast
    then show ?thesis by simp
  qed
  then show ?thesis using submit d by (simp add: dead_def)
next
  case (expire ok now res5 db)
  have "status_of n (snd (expire_loop ok ops db')) = status_of n db'" if "status_of n db' \<noteq> Some PendingCosign" for ops db'
    using that by (induction ops arbitrary: db') auto
  then have "status_of n (snd (expireStaleOperations ok now (core s))) = status_of n (core s)"
    using d unfolding snd_expireStaleOperations by (auto simp: dead_def)
  then show ?thesis using expire d by (simp add: dead_def)
next
  case (poll k)
  then show ?thesis using d by (auto simp: pollApprovedWithdrawals_def Let_def dead_def)
next
  case (execute cr at jb m res6)
  have di: "distinct (map w_id (withdrawals (core s)))" using inv by (simp add: wallet_inv_def db_ok_ids)
  show ?thesis
  proof (cases "m = n")
    case True
    then have "status_of m (core s) \<noteq> Some Approved" using d by (auto simp: dead_def)
    then show ?thesis using executeWithdrawal_refused [OF _ di, of m cr at jb] execute d by simp
  next
    case False
    then show ?thesis using worked_execute [OF di, of m cr at jb] execute d by (auto simp: worked_def dead_def)
  qed
next
  case (confirm j cf res7)
  then have "status_of (cj_withdrawal j) (core s) \<in> Some ` on_chain" using inv by (simp add: wallet_inv_def)
  then have ne: "n \<noteq> cj_withdrawal j" using d by (auto simp: dead_def on_chain_def)
  have "status_of n (snd (checkConfirmation cf j (core s))) = status_of n (core s)"
    using ne by (auto simp: checkConfirmation_def Let_def status_of_set_status status_of_confirmed
        split: sum.split option.split)
  then show ?thesis using confirm d by (auto simp: process_confirm_def dead_def split: prod.splits)
qed

interpretation life: machine wallet_init wallet_step wallet_inv
  by unfold_locales (auto intro: inv_wallet_init inv_wallet_step)

interpretation death: absorbing wallet_init wallet_step wallet_inv
  "\<lambda>s. dead n s \<and> status_of n (core s) = x" for n x
proof unfold_locales
  fix s t
  assume "wallet_inv s" "dead n s \<and> status_of n (core s) = x" "wallet_step s t"
  then show "dead n t \<and> status_of n (core t) = x"
    using dead_step [of s n t] by (auto simp: dead_def)
qed

section \<open>Properties of every history\<close>


definition fresh_worker :: worker_state where
  "fresh_worker = (sample_worker HotSource PlatformKey)\<lparr>core := cosign_core\<lparr>withdrawals := []\<rparr>\<rparr>"

definition created_worker :: worker_state where
  "created_worker = fresh_worker\<lparr>core := snd (createWithdrawal sample_create sample_request (core fresh_worker))\<rparr>"

definition waiting_worker :: worker_state where
  "waiting_worker = created_worker\<lparr>core := snd (approveWithdrawal any_crypto
     (sample_cosign_env (Reply 200 [] (Some ''0xkey''))) 6 7 (core created_worker))\<rparr>"

lemma sample_history:
  "wallet_init fresh_worker" "wallet_step\<^sup>*\<^sup>* fresh_worker created_worker" "wallet_step\<^sup>*\<^sup>* fresh_worker waiting_worker"
proof -
  show "wallet_init fresh_worker"
    by (simp add: wallet_init_def fresh_worker_def sample_worker_def cosign_core_def approving_core_def)
  have 1: "wallet_step fresh_worker created_worker"
    unfolding created_worker_def by (rule wallet_step.create [OF prod.collapse [symmetric]])
  have 2: "wallet_step created_worker waiting_worker"
    unfolding waiting_worker_def by (rule wallet_step.approve [OF prod.collapse [symmetric]])
  show "wallet_step\<^sup>*\<^sup>* fresh_worker created_worker" using 1 by (rule r_into_rtranclp)
  then show "wallet_step\<^sup>*\<^sup>* fresh_worker waiting_worker" using 2 by (rule rtranclp.rtrancl_into_rtrancl)
qed


text \<open>In every history of the services from empty tables, a withdrawal that is cancelled or
  rejected keeps that status for ever, and no later execution of it sends anything.\<close>

lemma cancelled_and_rejected_are_final:
  assumes "wallet_init s" and "wallet_step\<^sup>*\<^sup>* s t" and "wallet_step\<^sup>*\<^sup>* t u"
    and "status_of n (core t) = Some Cancelled \<or> status_of n (core t) = Some Rejected"
  shows "status_of n (core u) = status_of n (core t) \<and> snd (executeWithdrawal cr at jb n u) = u"
proof -
  have inv: "wallet_inv t" by (rule life.inv_reachable [OF assms(1,2)])
  have d: "dead n t \<and> status_of n (core t) = status_of n (core t)" using assms(4) by (auto simp: dead_def)
  have u: "dead n u \<and> status_of n (core u) = status_of n (core t)"
    by (rule death.final_steps [OF assms(3) inv d])
  have "wallet_inv u" by (rule life.inv_steps [OF assms(3) inv])
  then have "distinct (map w_id (withdrawals (core u)))" by (simp add: wallet_inv_def db_ok_ids)
  moreover have "status_of n (core u) \<noteq> Some Approved" using u by (auto simp: dead_def)
  ultimately show ?thesis using u executeWithdrawal_refused [of n u cr at jb] by simp
qed

lemma cancelled_and_rejected_are_final_witness:
  "status_of 6 (snd (cancelWithdrawal 6 7 (core created_worker))) = Some Cancelled
    \<and> snd (executeWithdrawal any_crypto (sample_attempt 4 True) first_job 6
          (created_worker\<lparr>core := snd (cancelWithdrawal 6 7 (core created_worker))\<rparr>))
      = created_worker\<lparr>core := snd (cancelWithdrawal 6 7 (core created_worker))\<rparr>"
proof -
  let ?t = "created_worker\<lparr>core := snd (cancelWithdrawal 6 7 (core created_worker))\<rparr>"
  have "wallet_step created_worker ?t" by (rule wallet_step.cancel [OF prod.collapse [symmetric]])
  with sample_history(2) have r: "wallet_step\<^sup>*\<^sup>* fresh_worker ?t" by (rule rtranclp.rtrancl_into_rtrancl)
  have c: "status_of 6 (snd (cancelWithdrawal 6 7 (core created_worker))) = Some Cancelled" by code_simp
  then show ?thesis
    using cancelled_and_rejected_are_final [OF sample_history(1) r rtranclp.rtrancl_refl, of 6 any_crypto
        "sample_attempt 4 True" first_job] by simp
qed

section \<open>The approval interleaved\<close>


end
