(* ===== verification/Nonce.thy ===== *)
theory Nonce
  imports KeyValue
begin

text \<open>
  The nonce service (services/core-wallet-service/src/blockchain/nonce.service.ts): a mutex and a
  cached counter per chain and address in Redis. The waiting loop polls every 100 ms until a
  deadline of 15 s; it is a recursion with fuel, and enough fuel is proved to reach its end. The
  clock readings of each poll, the times at which Redis executes each command, and what other
  clients do to the store between two polls are the fields of \<open>nonce_env\<close>. The cached counter is
  read with \<open>parseInt\<close>; a text that is not a number (which this service never writes) is an error
  here, where JavaScript would go on with \<open>NaN\<close>.
\<close>

section \<open>The lock\<close>

definition LOCK_TTL_MS :: int where "LOCK_TTL_MS = 10000"
definition LOCK_WAIT_MS :: int where "LOCK_WAIT_MS = 15000"
definition LOCK_POLL_MS :: int where "LOCK_POLL_MS = 100"

record nonce_env =
  ne_clock :: "nat \<Rightarrow> millis"
  ne_poll :: "nat \<Rightarrow> millis"
  ne_others :: "nat \<Rightarrow> store \<Rightarrow> store"
  ne_random :: string
  ne_get :: millis
  ne_set :: millis
  ne_release :: millis
  ne_count :: "error + int"

definition lockKey :: "int \<Rightarrow> string \<Rightarrow> string" where
  "lockKey chain addr = ''nonce_lock:'' @ show_int chain @ '':'' @ addr"

definition nonceKey :: "int \<Rightarrow> string \<Rightarrow> string" where
  "nonceKey chain addr = ''nonce:'' @ show_int chain @ '':'' @ addr"

definition lockValue :: "nonce_env \<Rightarrow> string" where
  "lockValue env = show_int (ne_clock env 0) @ ''-'' @ ne_random env"

fun wait_loop :: "nat \<Rightarrow> nonce_env \<Rightarrow> millis \<Rightarrow> nat \<Rightarrow> string \<Rightarrow> string \<Rightarrow> store \<Rightarrow> (bool \<times> store) option" where
  "wait_loop 0 env deadline k key v s = None"
| "wait_loop (Suc fuel) env deadline k key v s =
     (if ne_clock env k < deadline then
        (case rset_nx (ne_poll env k) key v LOCK_TTL_MS s of
           (True, s1) \<Rightarrow> Some (True, s1)
         | (False, s1) \<Rightarrow> wait_loop fuel env deadline (Suc k) key v (ne_others env k s1))
      else Some (False, s))"

text \<open>The clock is read for the deadline (reading 0 again, the time of the call) and before each poll.\<close>

definition poll_fuel :: nat where "poll_fuel = 152"

definition waitForLock :: "nonce_env \<Rightarrow> string \<Rightarrow> string \<Rightarrow> store \<Rightarrow> bool \<times> store" where
  "waitForLock env key v s =
     (case wait_loop poll_fuel env (ne_clock env 0 + LOCK_WAIT_MS) 1 key v s of
        None \<Rightarrow> (False, s) | Some r \<Rightarrow> r)"

definition releaseLock :: "millis \<Rightarrow> string \<Rightarrow> string \<Rightarrow> store \<Rightarrow> store" where
  "releaseLock now key v s = (if rget now s key = Some v then rdel key s else s)"

section \<open>Nonces\<close>

definition acquireNonce ::
    "nonce_env \<Rightarrow> int \<Rightarrow> string \<Rightarrow> store \<Rightarrow> (error + int \<times> (millis \<Rightarrow> store \<Rightarrow> store)) \<times> store" where
  "acquireNonce env chain addr s =
     (let lk = lockKey chain addr; nk = nonceKey chain addr; v = lockValue env in
      case waitForLock env lk v s of
        (False, s1) \<Rightarrow> (Inl (InternalError ''Failed to acquire nonce lock''), s1)
      | (True, s1) \<Rightarrow>
          (case (case rget (ne_get env) s1 nk of
                   Some c \<Rightarrow> (case parse_int c of None \<Rightarrow> Inl (InternalError ''NaN'') | Some n \<Rightarrow> Inr n)
                 | None \<Rightarrow> ne_count env) of
             Inl e \<Rightarrow> (Inl e, releaseLock (ne_release env) lk v s1)
           | Inr n \<Rightarrow>
               (Inr (n, \<lambda>now. releaseLock now lk v),
                rset (ne_set env) nk (show_int (n + 1)) (Some (3600 * 1000)) s1)))"

definition resetNonce :: "int \<Rightarrow> string \<Rightarrow> store \<Rightarrow> store" where
  "resetNonce chain addr s = rdel (nonceKey chain addr) s"

definition syncNonce :: "millis \<Rightarrow> error + int \<Rightarrow> int \<Rightarrow> string \<Rightarrow> store \<Rightarrow> (error + int) \<times> store" where
  "syncNonce now count chain addr s =
     (case count of
        Inl e \<Rightarrow> (Inl e, s)
      | Inr n \<Rightarrow> (Inr n, rset now (nonceKey chain addr) (show_int n) (Some (3600 * 1000)) s))"

section \<open>The waiting loop ends\<close>

text \<open>A clock that advances by at least one poll interval from poll to poll.\<close>

definition ticking :: "nonce_env \<Rightarrow> bool" where
  "ticking env \<longleftrightarrow> (\<forall>k. ne_clock env k + (if k = 0 then 0 else LOCK_POLL_MS) \<le> ne_clock env (Suc k))"

lemma ticking_after: "ticking env \<Longrightarrow> ne_clock env 0 + LOCK_POLL_MS * int k \<le> ne_clock env (Suc k)"
proof (induction k)
  case 0
  then show ?case by (auto simp: ticking_def dest!: spec [of _ 0])
next
  case (Suc k)
  then have "ne_clock env (Suc k) + LOCK_POLL_MS \<le> ne_clock env (Suc (Suc k))"
    by (auto simp: ticking_def dest!: spec [of _ "Suc k"])
  with Suc show ?case by (simp add: algebra_simps)
qed

lemma wait_loop_ends:
  assumes t: "ticking env"
  shows "ne_clock env 0 + LOCK_WAIT_MS \<le> ne_clock env 0 + LOCK_POLL_MS * int (k + fuel) \<Longrightarrow>
    wait_loop (Suc fuel) env (ne_clock env 0 + LOCK_WAIT_MS) (Suc k) key v s \<noteq> None"
proof (induction fuel arbitrary: k s)
  case 0
  then have "\<not> ne_clock env (Suc k) < ne_clock env 0 + LOCK_WAIT_MS"
    using ticking_after [OF t, of k] by simp
  then show ?case by simp
next
  case (Suc fuel)
  have "ne_clock env 0 + LOCK_WAIT_MS \<le> ne_clock env 0 + LOCK_POLL_MS * int (Suc k + fuel)"
    using Suc.prems by simp
  from Suc.IH [OF this]
  show ?case
    unfolding wait_loop.simps(2) [of "Suc fuel"] by (auto simp del: wait_loop.simps split: prod.split bool.split)
qed

lemma waitForLock_fuel:
  assumes "ticking env"
  shows "wait_loop poll_fuel env (ne_clock env 0 + LOCK_WAIT_MS) 1 key v s \<noteq> None"
  using wait_loop_ends [OF assms, of 0 151] by (simp add: poll_fuel_def LOCK_WAIT_MS_def LOCK_POLL_MS_def)

section \<open>Exclusion\<close>

text \<open>While nobody interferes and the lock is held past the deadline, every poll is refused.\<close>

lemma wait_loop_held:
  assumes "\<And>k s. ne_others env k s = s" and "\<And>k. rget (ne_poll env k) s key = Some owner"
  shows "wait_loop fuel env deadline k key v s \<in> {None, Some (False, s)}"
  by (induction fuel arbitrary: k)
     (simp_all add: rset_nx_held [OF assms(2)] assms(1))

lemma lockKey_nonceKey [simp]: "lockKey c a \<noteq> nonceKey c' a'" "nonceKey c' a' \<noteq> lockKey c a"
  by (simp_all add: lockKey_def nonceKey_def)

text \<open>The lock excludes: a caller that finds the lock of the address held, and held through
  all its polls, gives up with an error and leaves the store as it was; and releasing with a value
  that is not the one stored leaves the lock to its holder, while releasing with one's own frees it.\<close>

theorem nonce_lock_excludes:
  assumes "\<And>k s. ne_others env k s = s" and "\<And>k. rget (ne_poll env k) s (lockKey chain addr) = Some owner"
  shows "acquireNonce env chain addr s = (Inl (InternalError ''Failed to acquire nonce lock''), s)
    \<and> (v \<noteq> owner \<longrightarrow> releaseLock (ne_poll env k) (lockKey chain addr) v s = s)
    \<and> rget now (releaseLock (ne_poll env k) (lockKey chain addr) owner s) (lockKey chain addr) = None"
proof -
  have "waitForLock env (lockKey chain addr) (lockValue env) s = (False, s)"
    using wait_loop_held [of env s "lockKey chain addr" owner poll_fuel "ne_clock env 0 + LOCK_WAIT_MS" 1 "lockValue env"]
      assms by (auto simp: waitForLock_def)
  then show ?thesis
    using assms(2) by (simp add: acquireNonce_def releaseLock_def kv.get_del)
qed

definition sample_nonce_env :: nonce_env where
  "sample_nonce_env = \<lparr>ne_clock = (\<lambda>k. 100 * int k), ne_poll = (\<lambda>k. 0), ne_others = (\<lambda>_ s. s),
     ne_random = ''r'', ne_get = 5, ne_set = 6, ne_release = 7, ne_count = Inr 4\<rparr>"

theorem nonce_lock_excludes_witness:
  "snd (acquireNonce sample_nonce_env 1 ''0xa'' (rset 0 (lockKey 1 ''0xa'') ''other'' (Some 10000) Map.empty))
    = rset 0 (lockKey 1 ''0xa'') ''other'' (Some 10000) Map.empty"
  using nonce_lock_excludes [of sample_nonce_env "rset 0 (lockKey 1 ''0xa'') ''other'' (Some 10000) Map.empty" 1 "''0xa''" "''other''"]
  by (simp add: sample_nonce_env_def kv.get_put_fresh)

section \<open>Consecutive nonces\<close>

text \<open>One use of the service: acquire, then release with the returned function.\<close>

definition use_nonce :: "int \<Rightarrow> string \<Rightarrow> nonce_env \<Rightarrow> store \<Rightarrow> (error + int) \<times> store" where
  "use_nonce chain addr env s =
     (case acquireNonce env chain addr s of
        (Inl e, s1) \<Rightarrow> (Inl e, s1)
      | (Inr (n, release), s1) \<Rightarrow> (Inr n, release (ne_release env) s1))"

fun use_all :: "int \<Rightarrow> string \<Rightarrow> nonce_env list \<Rightarrow> store \<Rightarrow> (error + int) list" where
  "use_all chain addr [] s = []"
| "use_all chain addr (env # envs) s =
     (case use_nonce chain addr env s of (r, s1) \<Rightarrow> r # use_all chain addr envs s1)"

text \<open>A use that finds the lock free at its first poll and finishes while the lock lives.\<close>

definition prompt :: "nonce_env \<Rightarrow> bool" where
  "prompt env \<longleftrightarrow> ne_clock env 1 < ne_clock env 0 + LOCK_WAIT_MS
     \<and> ne_poll env 1 \<le> ne_get env \<and> ne_get env \<le> ne_set env \<and> ne_set env \<le> ne_release env
     \<and> ne_release env < ne_poll env 1 + LOCK_TTL_MS"

lemma waitForLock_free:
  assumes "ne_clock env 1 < ne_clock env 0 + LOCK_WAIT_MS" and "rget (ne_poll env 1) s key = None"
  shows "waitForLock env key v s = (True, rset (ne_poll env 1) key v (Some LOCK_TTL_MS) s)"
proof -
  obtain m where m: "poll_fuel = Suc m" using that [of 151] by (simp add: poll_fuel_def)
  show ?thesis unfolding waitForLock_def m using assms by (simp add: rset_nx_free)
qed

lemma use_nonce_prompt:
  assumes p: "prompt env" and free: "rget (ne_poll env 1) s (lockKey chain addr) = None"
    and n: "case rget (ne_get env) s (nonceKey chain addr) of None \<Rightarrow> ne_count env = Inr n | Some c \<Rightarrow> c = show_int n"
  obtains s' where "use_nonce chain addr env s = (Inr n, s')"
    "\<And>now. rget now s' (lockKey chain addr) = None"
    "\<And>now. now < ne_set env + 3600000 \<Longrightarrow> rget now s' (nonceKey chain addr) = Some (show_int (n + 1))"
proof -
  let ?lk = "lockKey chain addr" and ?nk = "nonceKey chain addr" and ?v = "lockValue env"
  let ?s1 = "rset (ne_poll env 1) ?lk ?v (Some LOCK_TTL_MS) s"
  let ?s2 = "rset (ne_set env) ?nk (show_int (n + 1)) (Some 3600000) ?s1"
  have w: "waitForLock env ?lk ?v s = (True, ?s1)"
    using p free by (intro waitForLock_free) (simp_all add: prompt_def)
  have g: "rget (ne_get env) ?s1 ?nk = rget (ne_get env) s ?nk"
    by (simp add: kv.get_put)
  have "acquireNonce env chain addr s = (Inr (n, \<lambda>now. releaseLock now ?lk ?v), ?s2)"
    using n by (cases "rget (ne_get env) s ?nk") (simp_all add: acquireNonce_def Let_def w g [unfolded One_nat_def])
  moreover have "rget (ne_release env) ?s2 ?lk = Some ?v"
    using p by (simp add: kv.get_put prompt_def)
  ultimately have "use_nonce chain addr env s = (Inr n, rdel ?lk ?s2)"
    by (simp add: use_nonce_def releaseLock_def)
  then show ?thesis
    by (rule that) (simp_all add: kv.get_del kv.get_put)
qed

text \<open>The uses follow one another closely enough for the cached counter to live.\<close>

fun chained :: "nonce_env list \<Rightarrow> bool" where
  "chained (a # b # envs) \<longleftrightarrow> prompt a \<and> ne_get b < ne_set a + 3600000 \<and> chained (b # envs)"
| "chained [a] \<longleftrightarrow> prompt a"
| "chained [] \<longleftrightarrow> True"

lemma use_all_consecutive:
  assumes "chained envs" and "\<And>now. rget now s (lockKey chain addr) = None"
    and "envs \<noteq> [] \<Longrightarrow> case rget (ne_get (hd envs)) s (nonceKey chain addr) of
      None \<Rightarrow> ne_count (hd envs) = Inr n | Some c \<Rightarrow> c = show_int n"
  shows "use_all chain addr envs s = map (\<lambda>i. Inr (n + int i)) [0..<length envs]"
  using assms
proof (induction envs arbitrary: s n)
  case Nil
  then show ?case by simp
next
  case (Cons env envs)
  have "prompt env" using Cons.prems(1) by (cases envs) simp_all
  moreover have "rget (ne_poll env 1) s (lockKey chain addr) = None" by (rule Cons.prems(2))
  moreover have "case rget (ne_get env) s (nonceKey chain addr) of None \<Rightarrow> ne_count env = Inr n | Some c \<Rightarrow> c = show_int n"
    using Cons.prems(3) by (simp split: option.splits)
  ultimately obtain s' where s': "use_nonce chain addr env s = (Inr n, s')"
    "\<And>now. rget now s' (lockKey chain addr) = None"
    "\<And>now. now < ne_set env + 3600000 \<Longrightarrow> rget now s' (nonceKey chain addr) = Some (show_int (n + 1))"
    by (rule use_nonce_prompt) blast
  have ch: "chained envs" using Cons.prems(1) by (cases envs) simp_all
  have nx: "envs \<noteq> [] \<Longrightarrow> case rget (ne_get (hd envs)) s' (nonceKey chain addr) of
      None \<Rightarrow> ne_count (hd envs) = Inr (n + 1) | Some c \<Rightarrow> c = show_int (n + 1)"
    using Cons.prems(1) s'(3) by (cases envs) simp_all
  have "use_all chain addr envs s' = map (\<lambda>i. Inr (n + 1 + int i)) [0..<length envs]"
    by (rule Cons.IH [OF ch s'(2) nx])
  moreover have "map (\<lambda>i. Inr (n + int i) :: error + int) [0..<Suc (length envs)] =
      Inr n # map (\<lambda>i. Inr (n + 1 + int i)) [0..<length envs]"
    by (simp add: upt_conv_Cons map_Suc_upt [symmetric] algebra_simps del: upt_Suc)
  ultimately show ?case by (simp add: s'(1) del: upt_Suc)
qed

text \<open>Uses of the service for one address that follow one another, each finding the lock
  free, get consecutive nonces starting at the number of transactions the node reports when nothing
  is cached: no nonce is handed out twice and none is skipped, although the node is asked only once.\<close>

lemma nonces_are_consecutive:
  assumes "chained envs" and "\<And>now. rget now s (lockKey chain addr) = None"
    and "\<And>now. rget now s (nonceKey chain addr) = None" and "envs \<noteq> []" and "ne_count (hd envs) = Inr n"
  shows "use_all chain addr envs s = map (\<lambda>i. Inr (n + int i)) [0..<length envs]"
  using assms by (intro use_all_consecutive) simp_all

lemma nonces_are_consecutive_witness:
  "use_all 1 ''0xa'' [sample_nonce_env, sample_nonce_env\<lparr>ne_count := Inr 99\<rparr>, sample_nonce_env] Map.empty
    = [Inr 4, Inr 5, Inr 6]"
  using nonces_are_consecutive
    [of "[sample_nonce_env, sample_nonce_env\<lparr>ne_count := Inr 99\<rparr>, sample_nonce_env]" Map.empty 1 "''0xa''" 4]
  by (simp add: sample_nonce_env_def prompt_def LOCK_WAIT_MS_def LOCK_TTL_MS_def upt_conv_Cons)

end
