(* ===== verification/Indexer.thy ===== *)
theory Indexer
  imports KeyValue
begin

text \<open>
  The tables, the cache and the queues of the chain indexer
  (services/chain-indexer-service/prisma/schema.prisma, database/017-indexer-v2.sql) and its block
  processor (services/chain-indexer-service/src/block-processor/block-processor.service.ts), which
  the gap back-filler, the reorganisation roll-back and the balance materialiser build on. A block
  and its logs as the node answers them, and the address checksum of ethers, are the fields of
  \<open>block_env\<close>. A DECIMAL(65,0) column refuses a number of more than 65 digits.
\<close>

section \<open>State\<close>

datatype event_type = NativeTransfer | Erc20Transfer

record monitored_addr =
  ma_client :: ident
  ma_project :: ident
  ma_wallet :: ident

record monitored_address =
  adr_chain :: int
  adr_address :: string
  adr_info :: monitored_addr
  adr_start :: block_no
  adr_active :: bool

record indexed_event =
  ie_chain :: int
  ie_block :: block_no
  ie_tx :: string
  ie_log :: int
  ie_contract :: string
  ie_type :: event_type
  ie_from :: "string option"
  ie_to :: "string option"
  ie_token :: "ident option"
  ie_amount :: "int option"
  ie_client :: "ident option"
  ie_project :: "ident option"
  ie_wallet :: "ident option"
  ie_inbound :: "bool option"
  ie_processed :: "millis option"

record indexed_block =
  ib_chain :: int
  ib_number :: block_no
  ib_hash :: string
  ib_parent :: string
  ib_timestamp :: int
  ib_txs :: nat
  ib_events :: nat
  ib_final :: bool

record sync_cursor =
  sc_chain :: int
  sc_last :: block_no
  sc_finalized :: block_no

datatype gap_status = GapDetected | GapBackfilling | GapResolved | GapFailed

record sync_gap =
  sg_id :: ident
  sg_chain :: int
  sg_start :: block_no
  sg_end :: block_no
  sg_status :: gap_status
  sg_job :: "ident option"
  sg_resolved :: "millis option"
  sg_attempts :: int
  sg_max :: int
  sg_error :: "string option"

record balance_row =
  mb_chain :: int
  mb_address :: string
  mb_token :: "ident option"
  mb_client :: ident
  mb_project :: ident
  mb_wallet :: "ident option"
  mb_balance :: int
  mb_block :: block_no

record reorg_log =
  rl_chain :: int
  rl_block :: block_no
  rl_depth :: int
  rl_events :: nat
  rl_balances :: nat

record backfill_job =
  bj_gap :: ident
  bj_chain :: int
  bj_start :: block_no
  bj_end :: block_no

record addr_cache =
  ac_map :: "(string \<times> monitored_addr) list"
  ac_expires :: millis

record chain_row =
  ch_id :: int
  ch_finality :: int
  ch_active :: bool

record indexer =
  ix_chains :: "chain_row list"
  ix_monitored :: "monitored_address list"
  ix_events :: "indexed_event list"
  ix_blocks :: "indexed_block list"
  ix_cursors :: "sync_cursor list"
  ix_gaps :: "sync_gap list"
  ix_next_gap :: ident
  ix_balances :: "balance_row list"
  ix_reorgs :: "reorg_log list"
  ix_jobs :: "backfill_job list"
  ix_redis :: store
  ix_addrs :: "int \<rightharpoonup> addr_cache"
  ix_stream :: "(string \<times> (string \<times> string) list) list"

definition ADDR_CACHE_TTL_MS :: int where "ADDR_CACHE_TTL_MS = 60000"
definition ZERO_ADDRESS :: string where "ZERO_ADDRESS = ''0x0000000000000000000000000000000000000000''"
definition DAY_MS :: int where "DAY_MS = 86400 * 1000"

definition find_cursor :: "int \<Rightarrow> indexer \<Rightarrow> sync_cursor option" where
  "find_cursor chain st = find (\<lambda>c. sc_chain c = chain) (ix_cursors st)"

definition redis_set :: "millis \<Rightarrow> string \<Rightarrow> string \<Rightarrow> int option \<Rightarrow> indexer \<Rightarrow> indexer" where
  "redis_set now k v ttl st = st\<lparr>ix_redis := rset now k v ttl (ix_redis st)\<rparr>"

definition hash_key :: "int \<Rightarrow> block_no \<Rightarrow> string" where
  "hash_key chain n = ''block:'' @ show_int chain @ '':'' @ show_int n @ '':hash''"

section \<open>The monitored addresses\<close>

definition getMonitoredAddresses :: "millis \<Rightarrow> int \<Rightarrow> indexer \<Rightarrow> (string \<times> monitored_addr) list \<times> indexer" where
  "getMonitoredAddresses now chain st =
     (case (case ix_addrs st chain of None \<Rightarrow> None | Some c \<Rightarrow> if ac_expires c > now then Some c else None) of
        Some c \<Rightarrow> (ac_map c, st)
      | None \<Rightarrow>
          let m = map (\<lambda>r. (lower (adr_address r), adr_info r))
                    (filter (\<lambda>r. adr_chain r = chain \<and> adr_active r) (ix_monitored st))
          in (m, st\<lparr>ix_addrs := (ix_addrs st)(chain \<mapsto> \<lparr>ac_map = m, ac_expires = now + ADDR_CACHE_TTL_MS\<rparr>)\<rparr>))"

definition invalidateCache :: "int \<Rightarrow> indexer \<Rightarrow> indexer" where
  "invalidateCache chain st = st\<lparr>ix_addrs := (ix_addrs st)(chain := None)\<rparr>"

text \<open>A later row with the same address replaces an earlier one.\<close>

definition monitored_for :: "(string \<times> monitored_addr) list \<Rightarrow> string option \<Rightarrow> monitored_addr option" where
  "monitored_for m a = (case a of None \<Rightarrow> None | Some x \<Rightarrow> if x = [] then None else map_of (rev m) (lower x))"

section \<open>The events of a block\<close>

record chain_tx =
  tx_hash_of :: string
  tx_from :: "string option"
  tx_to :: "string option"
  tx_value :: wei

record chain_log =
  lg_tx :: string
  lg_index :: int
  lg_address :: string
  lg_topics :: "string list"
  lg_data :: string

record chain_block =
  cb_hash :: string
  cb_parent :: string
  cb_timestamp :: int
  cb_txs :: "chain_tx list"

record block_env =
  be_now :: millis
  be_provider :: "error + unit"
  be_block :: "error + chain_block option"
  be_logs :: "error + chain_log list"
  be_getAddress :: "string \<Rightarrow> error + string"

definition transfer_event ::
    "int \<Rightarrow> block_no \<Rightarrow> string \<Rightarrow> int \<Rightarrow> string \<Rightarrow> event_type \<Rightarrow> string option \<Rightarrow> string \<Rightarrow> int \<Rightarrow> monitored_addr \<Rightarrow> bool \<Rightarrow> indexed_event" where
  "transfer_event chain n tx lg contract ty from to amount who inbound =
     \<lparr>ie_chain = chain, ie_block = n, ie_tx = tx, ie_log = lg, ie_contract = contract, ie_type = ty,
      ie_from = from, ie_to = Some to, ie_token = None, ie_amount = Some amount, ie_client = Some (ma_client who),
      ie_project = Some (ma_project who), ie_wallet = Some (ma_wallet who), ie_inbound = Some inbound, ie_processed = None\<rparr>"

definition native_event ::
    "(string \<times> monitored_addr) list \<Rightarrow> int \<Rightarrow> block_no \<Rightarrow> chain_tx \<Rightarrow> indexed_event list" where
  "native_event m chain n tx =
     (if tx_value tx = 0 then []
      else
     (case monitored_for m (tx_to tx) of
        Some who \<Rightarrow> [transfer_event chain n (tx_hash_of tx) 0 ZERO_ADDRESS NativeTransfer (tx_from tx) (the (tx_to tx))
                      (tx_value tx) who True]
      | None \<Rightarrow>
          (case monitored_for m (tx_from tx) of
             Some who \<Rightarrow> [transfer_event chain n (tx_hash_of tx) 0 ZERO_ADDRESS NativeTransfer (tx_from tx)
                           (case tx_to tx of None \<Rightarrow> ZERO_ADDRESS | Some a \<Rightarrow> a) (tx_value tx) who False]
           | None \<Rightarrow> [])))"

definition log_event ::
    "(string \<times> monitored_addr) list \<Rightarrow> int \<Rightarrow> block_no \<Rightarrow> chain_log \<Rightarrow> string \<Rightarrow> string \<Rightarrow> int \<Rightarrow> indexed_event list" where
  "log_event m chain n l from to amount =
     (case monitored_for m (Some to) of
        Some who \<Rightarrow> [transfer_event chain n (lg_tx l) (lg_index l) (lg_address l) Erc20Transfer (Some from) to amount who True]
      | None \<Rightarrow>
          (case monitored_for m (Some from) of
             Some who \<Rightarrow> [transfer_event chain n (lg_tx l) (lg_index l) (lg_address l) Erc20Transfer (Some from) to amount who False]
           | None \<Rightarrow> []))"

text \<open>\<open>BigInt\<close> of a hexadecimal text; any other text is a SyntaxError.\<close>

definition big_hex :: "string \<Rightarrow> int option" where
  "big_hex s =
     (if take 2 s = ''0x'' \<and> drop 2 s \<noteq> [] \<and> list_all (\<lambda>c. hex_val c \<noteq> None) (drop 2 s)
      then Some (int (foldl (\<lambda>acc c. acc * 16 + the (hex_val c)) 0 (drop 2 s))) else None)"

text \<open>The scan of the logs keeps the events found before an exception and drops the rest.\<close>

fun scan_logs ::
    "(string \<Rightarrow> error + string) \<Rightarrow> (string \<times> monitored_addr) list \<Rightarrow> int \<Rightarrow> block_no \<Rightarrow> chain_log list \<Rightarrow> indexed_event list" where
  "scan_logs addr m chain n [] = []"
| "scan_logs addr m chain n (l # ls) =
     (if length (lg_topics l) < 3 then scan_logs addr m chain n ls
      else
     (case addr (''0x'' @ drop 26 (lg_topics l ! 1)) of
        Inl _ \<Rightarrow> []
      | Inr from \<Rightarrow>
     (case addr (''0x'' @ drop 26 (lg_topics l ! 2)) of
        Inl _ \<Rightarrow> []
      | Inr to \<Rightarrow>
          if lg_data l = [] \<or> lg_data l = ''0x'' then scan_logs addr m chain n ls
          else
         (case big_hex (lg_data l) of
            None \<Rightarrow> []
          | Some amount \<Rightarrow> log_event m chain n l from to amount @ scan_logs addr m chain n ls))))"

definition block_events :: "block_env \<Rightarrow> (string \<times> monitored_addr) list \<Rightarrow> int \<Rightarrow> block_no \<Rightarrow> chain_block \<Rightarrow> indexed_event list" where
  "block_events env m chain n b =
     concat (map (native_event m chain n) (cb_txs b))
     @ (case be_logs env of Inl _ \<Rightarrow> [] | Inr ls \<Rightarrow> scan_logs (be_getAddress env) m chain n ls)"

section \<open>Storing a block\<close>

definition same_event :: "indexed_event \<Rightarrow> indexed_event \<Rightarrow> bool" where
  "same_event e x \<longleftrightarrow> ie_chain x = ie_chain e \<and> sql_eq (ie_tx x) (ie_tx e) \<and> ie_log x = ie_log e"

definition storable :: "indexed_event \<Rightarrow> bool" where
  "storable e \<longleftrightarrow> (case ie_amount e of None \<Rightarrow> True | Some a \<Rightarrow> \<bar>a\<bar> < 10 ^ 65)"

fun store_events :: "indexed_event list \<Rightarrow> indexer \<Rightarrow> (error + unit) \<times> indexer" where
  "store_events [] st = (Inr (), st)"
| "store_events (e # es) st =
     (if \<exists>x \<in> set (ix_events st). same_event e x then store_events es st
      else if storable e then store_events es (st\<lparr>ix_events := ix_events st @ [e]\<rparr>)
      else (Inl (InternalError ''Out of range value for column amount''), st))"

definition store_block :: "int \<Rightarrow> block_no \<Rightarrow> chain_block \<Rightarrow> nat \<Rightarrow> indexer \<Rightarrow> indexer" where
  "store_block chain n b found st =
     (if \<exists>x \<in> set (ix_blocks st). ib_chain x = chain \<and> ib_number x = n
      then st\<lparr>ix_blocks := update_where (\<lambda>x. ib_chain x = chain \<and> ib_number x = n) (\<lambda>x. x\<lparr>ib_events := found\<rparr>) (ix_blocks st)\<rparr>
      else st\<lparr>ix_blocks := ix_blocks st @
             [\<lparr>ib_chain = chain, ib_number = n, ib_hash = cb_hash b, ib_parent = cb_parent b, ib_timestamp = cb_timestamp b,
               ib_txs = length (cb_txs b), ib_events = found, ib_final = False\<rparr>]\<rparr>)"

definition processBlock :: "block_env \<Rightarrow> int \<Rightarrow> block_no \<Rightarrow> indexer \<Rightarrow> (error + nat \<times> string) \<times> indexer" where
  "processBlock env chain n st =
     (case be_provider env of
        Inl e \<Rightarrow> (Inl e, st)
      | Inr _ \<Rightarrow>
     (case getMonitoredAddresses (be_now env) chain st of (m, st1) \<Rightarrow>
        if m = [] then (Inr (0, ''''), st1)
        else
     (case be_block env of
        Inl e \<Rightarrow> (Inl e, st1)
      | Inr None \<Rightarrow> (Inr (0, ''''), st1)
      | Inr (Some b) \<Rightarrow>
          let es = block_events env m chain n b in
          (case store_events es st1 of
             (Inl e, st2) \<Rightarrow> (Inl e, st2)
           | (Inr _, st2) \<Rightarrow>
               let st3 = (if es = [] then st2 else store_block chain n b (length es) st2)
               in (Inr (length es, cb_hash b), redis_set (be_now env) (hash_key chain n) (cb_hash b) (Some DAY_MS) st3)))))"

section \<open>What a processed block leaves\<close>

text \<open>No two rows share the unique key of the table.\<close>

fun unique_events :: "indexed_event list \<Rightarrow> bool" where
  "unique_events [] \<longleftrightarrow> True"
| "unique_events (x # xs) \<longleftrightarrow> \<not> list_ex (same_event x) xs \<and> unique_events xs"

definition recorded :: "indexed_event \<Rightarrow> indexer \<Rightarrow> bool" where
  "recorded e st \<longleftrightarrow> list_ex (same_event e) (ix_events st)"

lemma same_event_refl [simp]: "same_event e e"
  by (simp add: same_event_def)

lemma same_event_sym: "same_event e x \<longleftrightarrow> same_event x e"
  by (auto simp: same_event_def sql_eq_def)

lemma unique_events_snoc: "unique_events (xs @ [e]) \<longleftrightarrow> unique_events xs \<and> \<not> list_ex (same_event e) xs"
  by (induction xs) (auto simp: list_ex_iff same_event_sym [of _ e])

lemma store_events_ok:
  assumes "list_all storable es" and "store_events es st = (r, st')"
  obtains new where "r = Inr ()" "st' = st\<lparr>ix_events := ix_events st @ new\<rparr>" "set new \<subseteq> set es"
    "list_all (\<lambda>e. recorded e st') es" "unique_events (ix_events st) \<longrightarrow> unique_events (ix_events st')"
  using assms
proof (induction es arbitrary: st thesis)
  case Nil
  then show ?case by (auto intro: Nil.prems(1) [of "[]"])
next
  case (Cons e es)
  have rec: "list_ex (same_event e) (ix_events st') \<Longrightarrow> recorded e st'"
    by (simp add: recorded_def)
  show ?case
  proof (cases "\<exists>x \<in> set (ix_events st). same_event e x")
    case True
    with Cons.prems(3) have s: "store_events es st = (r, st')" by simp
    obtain new where new: "r = Inr ()" "st' = st\<lparr>ix_events := ix_events st @ new\<rparr>" "set new \<subseteq> set es"
      "list_all (\<lambda>e. recorded e st') es" "unique_events (ix_events st) \<longrightarrow> unique_events (ix_events st')"
      using Cons.prems(2) by (auto intro: Cons.IH [OF _ _ s])
    moreover have "recorded e st'"
      using True new(2) by (auto simp: recorded_def list_ex_iff)
    ultimately show ?thesis
      by (intro Cons.prems(1) [of new]) auto
  next
    case False
    let ?st = "st\<lparr>ix_events := ix_events st @ [e]\<rparr>"
    have s: "store_events es ?st = (r, st')"
      using False Cons.prems(2,3) by simp
    obtain new where new: "r = Inr ()" "st' = ?st\<lparr>ix_events := ix_events ?st @ new\<rparr>" "set new \<subseteq> set es"
      "list_all (\<lambda>e. recorded e st') es" "unique_events (ix_events ?st) \<longrightarrow> unique_events (ix_events st')"
      using Cons.prems(2) by (auto intro: Cons.IH [OF _ _ s])
    moreover have "recorded e st'"
      using new(2) by (simp add: recorded_def list_ex_iff)
    moreover have "unique_events (ix_events st) \<longrightarrow> unique_events (ix_events ?st)"
      using False by (simp add: unique_events_snoc list_ex_iff)
    ultimately show ?thesis
      by (intro Cons.prems(1) [of "e # new"]) auto
  qed
qed

lemma store_events_recorded:
  "list_all (\<lambda>e. recorded e st) es \<Longrightarrow> store_events es st = (Inr (), st)"
  by (induction es arbitrary: st) (auto simp: recorded_def list_ex_iff)

lemma monitored_for_None [simp]: "monitored_for m None = None"
  by (simp add: monitored_for_def)

lemma getMonitoredAddresses_cached:
  assumes "getMonitoredAddresses now chain st = (m, st1)"
  obtains c where "ix_addrs st1 chain = Some c" "ac_map c = m" "ac_expires c > now" "st1 = st\<lparr>ix_addrs := ix_addrs st1\<rparr>"
proof (cases "\<exists>c. ix_addrs st chain = Some c \<and> ac_expires c > now")
  case True
  then obtain c where c: "ix_addrs st chain = Some c" "ac_expires c > now" by blast
  with assms have "st1 = st" "ac_map c = m"
    unfolding getMonitoredAddresses_def by simp_all
  with c that show ?thesis by simp
next
  case False
  then have "(case ix_addrs st chain of None \<Rightarrow> None | Some c \<Rightarrow> if ac_expires c > now then Some c else None) = None"
    by (auto split: option.split)
  with assms that show ?thesis
    unfolding getMonitoredAddresses_def Let_def by (force simp: ADDR_CACHE_TTL_MS_def)
qed

lemma getMonitoredAddresses_again:
  assumes "getMonitoredAddresses now chain st = (m, st1)" and "ix_addrs st2 = ix_addrs st1"
  shows "getMonitoredAddresses now chain st2 = (m, st2)"
  using assms by (elim getMonitoredAddresses_cached) (simp add: getMonitoredAddresses_def)

lemma getMonitoredAddresses_keeps:
  "getMonitoredAddresses now chain st = (m, st1) \<Longrightarrow> st1 = st\<lparr>ix_addrs := ix_addrs st1\<rparr>"
  by (erule getMonitoredAddresses_cached)

lemma store_block_simps [simp]:
  "ix_events (store_block chain n b k st) = ix_events st" "ix_addrs (store_block chain n b k st) = ix_addrs st"
  "ix_redis (store_block chain n b k st) = ix_redis st" "ix_gaps (store_block chain n b k st) = ix_gaps st"
  "ix_jobs (store_block chain n b k st) = ix_jobs st"
  by (simp_all add: store_block_def)

lemma redis_set_simps [simp]:
  "ix_events (redis_set now k v ttl st) = ix_events st" "ix_blocks (redis_set now k v ttl st) = ix_blocks st"
  "ix_addrs (redis_set now k v ttl st) = ix_addrs st" "ix_gaps (redis_set now k v ttl st) = ix_gaps st"
  "ix_jobs (redis_set now k v ttl st) = ix_jobs st" "ix_cursors (redis_set now k v ttl st) = ix_cursors st"
  "ix_monitored (redis_set now k v ttl st) = ix_monitored st"
  "ix_redis (redis_set now k v ttl st) = rset now k v ttl (ix_redis st)"
  by (simp_all add: redis_set_def)

definition stored_block :: "int \<Rightarrow> block_no \<Rightarrow> indexer \<Rightarrow> bool" where
  "stored_block chain n st \<longleftrightarrow> list_ex (\<lambda>x. ib_chain x = chain \<and> ib_number x = n) (ix_blocks st)"

lemma stored_block_store: "stored_block chain n (store_block chain n b k st)"
proof (cases "\<exists>x \<in> set (ix_blocks st). ib_chain x = chain \<and> ib_number x = n")
  case True
  then obtain x where "x \<in> set (ix_blocks st)" "ib_chain x = chain" "ib_number x = n" by blast
  then have "x\<lparr>ib_events := k\<rparr> \<in> set (ix_blocks (store_block chain n b k st))"
    by (auto simp: store_block_def update_where_def image_iff intro!: bexI [of _ x])
  with \<open>ib_chain x = chain\<close> \<open>ib_number x = n\<close> show ?thesis
    unfolding stored_block_def list_ex_iff by (intro bexI [of _ "x\<lparr>ib_events := k\<rparr>"]) simp_all
qed (auto simp: stored_block_def store_block_def)

lemma processBlock_ok:
  assumes "be_provider env = Inr ()" and "getMonitoredAddresses (be_now env) chain st = (m, st1)" and "m \<noteq> []"
    and "be_block env = Inr (Some b)" and "store_events (block_events env m chain n b) st1 = (Inr (), st2)"
  shows "processBlock env chain n st =
    (Inr (length (block_events env m chain n b), cb_hash b),
     redis_set (be_now env) (hash_key chain n) (cb_hash b) (Some DAY_MS)
       (if block_events env m chain n b = [] then st2
        else store_block chain n b (length (block_events env m chain n b)) st2))"
  using assms by (simp add: processBlock_def Let_def)

text \<open>The transfers of a block that touch a monitored address, said without the scan: the value moved by
  a transaction, and the transfer a log tells of when every log before it could be read. The address
  that receives comes first: the sender is asked only when the receiver is not monitored.\<close>

definition watched_as :: "(string \<times> monitored_addr) list \<Rightarrow> string \<Rightarrow> monitored_addr \<Rightarrow> bool" where
  "watched_as m a who \<longleftrightarrow> a \<noteq> [] \<and> map_of (rev m) (lower a) = Some who"

definition unwatched :: "(string \<times> monitored_addr) list \<Rightarrow> string \<Rightarrow> bool" where
  "unwatched m a \<longleftrightarrow> a = [] \<or> lower a \<notin> fst ` set m"

definition told :: "(string \<Rightarrow> error + string) \<Rightarrow> chain_log \<Rightarrow> (string \<times> string \<times> int) option" where
  "told addr l =
     (if length (lg_topics l) < 3 \<or> lg_data l = [] \<or> lg_data l = ''0x'' then None
      else case (addr (''0x'' @ drop 26 (lg_topics l ! 1)), addr (''0x'' @ drop 26 (lg_topics l ! 2)), big_hex (lg_data l)) of
             (Inr a, Inr b, Some v) \<Rightarrow> Some (a, b, v) | _ \<Rightarrow> None)"

definition readable :: "(string \<Rightarrow> error + string) \<Rightarrow> chain_log \<Rightarrow> bool" where
  "readable addr l \<longleftrightarrow> length (lg_topics l) < 3
     \<or> (is_ok (addr (''0x'' @ drop 26 (lg_topics l ! 1))) \<and> is_ok (addr (''0x'' @ drop 26 (lg_topics l ! 2)))
        \<and> (lg_data l = [] \<or> lg_data l = ''0x'' \<or> big_hex (lg_data l) \<noteq> None))"

definition logs_read :: "block_env \<Rightarrow> chain_log list" where
  "logs_read env = (case be_logs env of Inl _ \<Rightarrow> [] | Inr ls \<Rightarrow> takeWhile (readable (be_getAddress env)) ls)"

inductive block_transfer ::
    "block_env \<Rightarrow> (string \<times> monitored_addr) list \<Rightarrow> int \<Rightarrow> block_no \<Rightarrow> chain_block \<Rightarrow> indexed_event \<Rightarrow> bool"
  for env m chain n b where
  native_in: "tx \<in> set (cb_txs b) \<Longrightarrow> tx_value tx \<noteq> 0 \<Longrightarrow> tx_to tx = Some a \<Longrightarrow> watched_as m a who \<Longrightarrow>
    block_transfer env m chain n b
      \<lparr>ie_chain = chain, ie_block = n, ie_tx = tx_hash_of tx, ie_log = 0, ie_contract = ZERO_ADDRESS,
       ie_type = NativeTransfer, ie_from = tx_from tx, ie_to = Some a, ie_token = None, ie_amount = Some (tx_value tx),
       ie_client = Some (ma_client who), ie_project = Some (ma_project who), ie_wallet = Some (ma_wallet who),
       ie_inbound = Some True, ie_processed = None\<rparr>"
| native_out: "tx \<in> set (cb_txs b) \<Longrightarrow> tx_value tx \<noteq> 0 \<Longrightarrow> tx_from tx = Some a \<Longrightarrow> watched_as m a who \<Longrightarrow>
    case tx_to tx of None \<Rightarrow> c = ZERO_ADDRESS | Some x \<Rightarrow> unwatched m x \<and> c = x \<Longrightarrow>
    block_transfer env m chain n b
      \<lparr>ie_chain = chain, ie_block = n, ie_tx = tx_hash_of tx, ie_log = 0, ie_contract = ZERO_ADDRESS,
       ie_type = NativeTransfer, ie_from = Some a, ie_to = Some c, ie_token = None, ie_amount = Some (tx_value tx),
       ie_client = Some (ma_client who), ie_project = Some (ma_project who), ie_wallet = Some (ma_wallet who),
       ie_inbound = Some False, ie_processed = None\<rparr>"
| token_in: "l \<in> set (logs_read env) \<Longrightarrow> told (be_getAddress env) l = Some (a, c, v) \<Longrightarrow> watched_as m c who \<Longrightarrow>
    block_transfer env m chain n b
      \<lparr>ie_chain = chain, ie_block = n, ie_tx = lg_tx l, ie_log = lg_index l, ie_contract = lg_address l,
       ie_type = Erc20Transfer, ie_from = Some a, ie_to = Some c, ie_token = None, ie_amount = Some v,
       ie_client = Some (ma_client who), ie_project = Some (ma_project who), ie_wallet = Some (ma_wallet who),
       ie_inbound = Some True, ie_processed = None\<rparr>"
| token_out: "l \<in> set (logs_read env) \<Longrightarrow> told (be_getAddress env) l = Some (a, c, v) \<Longrightarrow> unwatched m c \<Longrightarrow> watched_as m a who \<Longrightarrow>
    block_transfer env m chain n b
      \<lparr>ie_chain = chain, ie_block = n, ie_tx = lg_tx l, ie_log = lg_index l, ie_contract = lg_address l,
       ie_type = Erc20Transfer, ie_from = Some a, ie_to = Some c, ie_token = None, ie_amount = Some v,
       ie_client = Some (ma_client who), ie_project = Some (ma_project who), ie_wallet = Some (ma_wallet who),
       ie_inbound = Some False, ie_processed = None\<rparr>"

lemma monitored_for_Some:
  "monitored_for m (Some a) = Some who \<longleftrightarrow> watched_as m a who"
  "Some who = monitored_for m (Some a) \<longleftrightarrow> watched_as m a who"
  by (auto simp: monitored_for_def watched_as_def)

lemma monitored_for_none: "monitored_for m (Some a) = None \<longleftrightarrow> unwatched m a"
  by (auto simp: monitored_for_def unwatched_def map_of_eq_None_iff)

lemma monitored_for_elim:
  "monitored_for m x = Some who \<Longrightarrow> (\<And>a. x = Some a \<Longrightarrow> watched_as m a who \<Longrightarrow> P) \<Longrightarrow> P"
  by (cases x) (auto simp: monitored_for_Some)

lemma watched_not_unwatched: "watched_as m a who \<Longrightarrow> \<not> unwatched m a"
  by (metis monitored_for_Some(1) monitored_for_none option.distinct(1))

lemma watched_unique: "watched_as m a who \<Longrightarrow> watched_as m a who' \<Longrightarrow> who' = who"
  by (simp add: watched_as_def)

lemma native_event_iff:
  "e \<in> set (native_event m chain n tx) \<longleftrightarrow> tx_value tx \<noteq> 0 \<and>
     ((\<exists>a who. tx_to tx = Some a \<and> watched_as m a who \<and>
        e = transfer_event chain n (tx_hash_of tx) 0 ZERO_ADDRESS NativeTransfer (tx_from tx) a (tx_value tx) who True)
    \<or> (\<exists>a who c. tx_from tx = Some a \<and> watched_as m a who
        \<and> (case tx_to tx of None \<Rightarrow> c = ZERO_ADDRESS | Some x \<Rightarrow> unwatched m x \<and> c = x) \<and>
        e = transfer_event chain n (tx_hash_of tx) 0 ZERO_ADDRESS NativeTransfer (Some a) c (tx_value tx) who False))"
  by (cases "tx_to tx"; cases "tx_from tx")
    (auto simp: native_event_def monitored_for_Some monitored_for_none split: option.split
      dest: watched_not_unwatched watched_unique)

lemma log_event_iff:
  "e \<in> set (log_event m chain n l a c v) \<longleftrightarrow>
     (\<exists>who. watched_as m c who \<and> e = transfer_event chain n (lg_tx l) (lg_index l) (lg_address l) Erc20Transfer (Some a) c v who True)
   \<or> (\<exists>who. unwatched m c \<and> watched_as m a who \<and>
        e = transfer_event chain n (lg_tx l) (lg_index l) (lg_address l) Erc20Transfer (Some a) c v who False)"
  by (auto simp: log_event_def monitored_for_Some monitored_for_none split: option.split
      dest: watched_not_unwatched watched_unique)

lemma scan_logs_told:
  "scan_logs addr m chain n ls =
     concat (map (\<lambda>l. case told addr l of None \<Rightarrow> [] | Some (a, c, v) \<Rightarrow> log_event m chain n l a c v) (takeWhile (readable addr) ls))"
  by (induction ls) (auto simp: readable_def told_def Let_def split: sum.splits option.splits)

lemma told_sym: "Some x = told addr l \<longleftrightarrow> told addr l = Some x"
  by auto

lemma block_events_iff: "e \<in> set (block_events env m chain n b) \<longleftrightarrow> block_transfer env m chain n b e"
proof -
  have "set (block_events env m chain n b) =
      (\<Union>tx \<in> set (cb_txs b). set (native_event m chain n tx))
      \<union> (\<Union>l \<in> set (logs_read env). {e. \<exists>v c a. told (be_getAddress env) l = Some (a, c, v) \<and> e \<in> set (log_event m chain n l a c v)})"
    by (cases "be_logs env") (simp_all add: block_events_def scan_logs_told logs_read_def told_sym)
  moreover have "block_transfer env m chain n b e" if "tx \<in> set (cb_txs b)" "e \<in> set (native_event m chain n tx)" for tx
    using that unfolding native_event_iff
    by (elim conjE disjE exE; hypsubst)
      (rule block_transfer.intros(1,2) [folded transfer_event_def]; assumption)+
  moreover have "block_transfer env m chain n b e"
    if "l \<in> set (logs_read env)" "told (be_getAddress env) l = Some (a, c, v)" "e \<in> set (log_event m chain n l a c v)" for l a c v
    using that unfolding log_event_iff
    by (elim conjE disjE exE) (simp_all only: block_transfer.intros [folded transfer_event_def])
  moreover have "(\<exists>tx \<in> set (cb_txs b). e \<in> set (native_event m chain n tx))
      \<or> (\<exists>l \<in> set (logs_read env). \<exists>v c a. told (be_getAddress env) l = Some (a, c, v) \<and> e \<in> set (log_event m chain n l a c v))"
    if "block_transfer env m chain n b e"
    using that by (cases rule: block_transfer.cases [folded transfer_event_def])
      (unfold native_event_iff log_event_iff, blast+)
  ultimately show ?thesis
    by blast
qed

lemma block_events_unprocessed: "list_all (\<lambda>e. ie_processed e = None) (block_events env m chain n b)"
  by (auto simp: list_all_iff block_events_iff elim!: block_transfer.cases)

text \<open>How many there are: one for every transaction that moves value and names a monitored address, and
  one for every log read that tells of a transfer naming one.\<close>

definition monitored_party :: "(string \<times> monitored_addr) list \<Rightarrow> string option \<Rightarrow> bool" where
  "monitored_party m x \<longleftrightarrow> (case x of None \<Rightarrow> False | Some a \<Rightarrow> \<not> unwatched m a)"

definition transfers_counted :: "block_env \<Rightarrow> (string \<times> monitored_addr) list \<Rightarrow> chain_block \<Rightarrow> nat" where
  "transfers_counted env m b =
     count_where (\<lambda>tx. tx_value tx \<noteq> 0 \<and> (monitored_party m (tx_to tx) \<or> monitored_party m (tx_from tx))) (cb_txs b)
     + count_where (\<lambda>l. case told (be_getAddress env) l of None \<Rightarrow> False
         | Some (a, c, v) \<Rightarrow> monitored_party m (Some a) \<or> monitored_party m (Some c)) (logs_read env)"

lemma length_concat_map_filter:
  "(\<And>x. length (f x) = (if P x then 1 else 0)) \<Longrightarrow> length (concat (map f xs)) = count_where P xs"
  by (induction xs) (simp_all add: count_where_def)

lemma block_events_length: "length (block_events env m chain n b) = transfers_counted env m b"
proof -
  have mon: "monitored_party m x \<longleftrightarrow> monitored_for m x \<noteq> None" for x
    by (cases x) (simp_all add: monitored_party_def monitored_for_none)
  have "length (concat (map (native_event m chain n) (cb_txs b))) =
      count_where (\<lambda>tx. tx_value tx \<noteq> 0 \<and> (monitored_party m (tx_to tx) \<or> monitored_party m (tx_from tx))) (cb_txs b)"
    by (rule length_concat_map_filter) (auto simp: native_event_def mon split: option.split)
  moreover have "length (concat (map (\<lambda>l. case told addr l of None \<Rightarrow> [] | Some (a, c, v) \<Rightarrow> log_event m chain n l a c v) ls)) =
      count_where (\<lambda>l. case told addr l of None \<Rightarrow> False
         | Some (a, c, v) \<Rightarrow> monitored_party m (Some a) \<or> monitored_party m (Some c)) ls" for addr ls
    by (rule length_concat_map_filter) (auto simp: log_event_def mon split: option.split)
  ultimately show ?thesis
    by (simp add: block_events_def transfers_counted_def logs_read_def scan_logs_told count_where_def split: sum.split)
qed


section \<open>A transfer that does not fit\<close>

lemma store_events_stops:
  assumes "\<not> storable e" and "list_all storable before"
    and "\<not> list_ex (same_event e) (ix_events st)" and "\<not> list_ex (same_event e) before"
  shows "\<exists>x new. store_events (before @ e # after) st = (Inl x, st\<lparr>ix_events := ix_events st @ new\<rparr>) \<and> set new \<subseteq> set before"
  using assms(2-4)
proof (induction before arbitrary: st)
  case Nil
  with assms(1) have "store_events ([] @ e # after) st = (Inl (InternalError ''Out of range value for column amount''), st)"
    by (simp add: list_ex_iff)
  then show ?case
    by (intro exI [of _ "InternalError ''Out of range value for column amount''"] exI [of _ "[]"]) simp
next
  case (Cons y before)
  show ?case
  proof (cases "\<exists>x \<in> set (ix_events st). same_event y x")
    case True
    with Cons.IH [of st] Cons.prems show ?thesis by fastforce
  next
    case False
    let ?st = "st\<lparr>ix_events := ix_events st @ [y]\<rparr>"
    have "\<not> list_ex (same_event e) (ix_events ?st)" "list_all storable before" "\<not> list_ex (same_event e) before"
      using Cons.prems by (simp_all add: list_ex_iff)
    then obtain x new where IH: "store_events (before @ e # after) ?st = (Inl x, ?st\<lparr>ix_events := ix_events ?st @ new\<rparr>)"
      "set new \<subseteq> set before"
      using Cons.IH [of ?st] by blast
    have "store_events ((y # before) @ e # after) st = (Inl x, st\<lparr>ix_events := ix_events st @ y # new\<rparr>)"
      using False Cons.prems(1) IH(1) by simp
    with IH(2) show ?thesis
      by (intro exI [of _ x] exI [of _ "y # new"]) auto
  qed
qed

text \<open>A transfer whose amount does not fit its column makes the processing of its block fail:
  the events found after it are not stored, the block has no row and no cached hash, and the next
  attempt fails in the same way. Anyone can send such a transfer with a token of their own.\<close>

lemma oversized_transfer_hides_its_block:
  assumes "be_provider env = Inr ()" and "getMonitoredAddresses (be_now env) chain st = (m, st1)" and "m \<noteq> []"
    and "be_block env = Inr (Some b)" and "block_events env m chain n b = before @ e # after"
    and "list_all storable before" and "\<not> storable e"
    and "\<not> list_ex (same_event e) (ix_events st)" and "\<not> list_ex (same_event e) before"
  shows "case processBlock env chain n st of (r, st') \<Rightarrow>
      \<not> is_ok r \<and> set (ix_events st') \<subseteq> set (ix_events st) \<union> set before
    \<and> ix_blocks st' = ix_blocks st \<and> ix_redis st' = ix_redis st
    \<and> \<not> is_ok (fst (processBlock env chain n st'))"
proof -
  note st1 = getMonitoredAddresses_keeps [OF assms(2)]
  have ev1: "ix_events st1 = ix_events st" "ix_blocks st1 = ix_blocks st" "ix_redis st1 = ix_redis st"
    by (subst st1, simp)+
  have fails: "\<exists>x new. processBlock env chain n s = (Inl x, s1\<lparr>ix_events := ix_events s1 @ new\<rparr>) \<and> set new \<subseteq> set before"
    if addrs: "getMonitoredAddresses (be_now env) chain s = (m, s1)" and fresh: "\<not> list_ex (same_event e) (ix_events s1)" for s s1
  proof -
    obtain x new where stop: "store_events (before @ e # after) s1 = (Inl x, s1\<lparr>ix_events := ix_events s1 @ new\<rparr>)"
      "set new \<subseteq> set before"
      using store_events_stops [OF assms(7,6) fresh assms(9), of after] by blast
    then have "processBlock env chain n s = (Inl x, s1\<lparr>ix_events := ix_events s1 @ new\<rparr>)"
      using assms(1,3-5) addrs by (simp add: processBlock_def Let_def)
    with stop(2) show ?thesis
      by blast
  qed
  obtain x new where run: "processBlock env chain n st = (Inl x, st1\<lparr>ix_events := ix_events st1 @ new\<rparr>)" "set new \<subseteq> set before"
    using fails [OF assms(2)] assms(8) ev1 by auto
  define st' where "st' = st1\<lparr>ix_events := ix_events st1 @ new\<rparr>"
  have "getMonitoredAddresses (be_now env) chain st' = (m, st')"
    by (rule getMonitoredAddresses_again [OF assms(2)]) (simp add: st'_def)
  moreover have "\<not> list_ex (same_event e) (ix_events st')"
    using run(2) assms(8,9) ev1 by (auto simp: st'_def list_ex_iff)
  ultimately have "\<not> is_ok (fst (processBlock env chain n st'))"
    using fails [of st' st'] by auto
  then show ?thesis
    using run ev1 by (auto simp: st'_def)
qed

section \<open>A concrete block\<close>

definition small_indexer :: indexer where
  "small_indexer = \<lparr>ix_chains = [], ix_monitored = [\<lparr>adr_chain = 1, adr_address = ''0xA'', adr_info = \<lparr>ma_client = 1, ma_project = 2, ma_wallet = 3\<rparr>,
       adr_start = 5, adr_active = True\<rparr>],
     ix_events = [], ix_blocks = [], ix_cursors = [], ix_gaps = [], ix_next_gap = 1, ix_balances = [], ix_reorgs = [],
     ix_jobs = [], ix_redis = Map.empty, ix_addrs = Map.empty, ix_stream = []\<rparr>"

definition small_block :: "wei \<Rightarrow> chain_block" where
  "small_block v = \<lparr>cb_hash = ''0xb'', cb_parent = ''0xp'', cb_timestamp = 0,
     cb_txs = [\<lparr>tx_hash_of = ''0xt'', tx_from = Some ''0xC'', tx_to = Some ''0xa'', tx_value = v\<rparr>]\<rparr>"

definition small_env :: "wei \<Rightarrow> block_env" where
  "small_env v = \<lparr>be_now = 0, be_provider = Inr (), be_block = Inr (Some (small_block v)), be_logs = Inr [], be_getAddress = Inr\<rparr>"

definition small_map :: "(string \<times> monitored_addr) list" where
  "small_map = fst (getMonitoredAddresses 0 1 small_indexer)"

definition small_after :: indexer where
  "small_after = snd (getMonitoredAddresses 0 1 small_indexer)"

lemma small_get: "getMonitoredAddresses (be_now (small_env v)) 1 small_indexer = (small_map, small_after)"
  by (simp add: small_map_def small_after_def small_env_def)

lemma small_events:
  "v \<noteq> 0 \<Longrightarrow> block_events (small_env v) small_map 1 9 (small_block v) =
     [transfer_event 1 9 ''0xt'' 0 ZERO_ADDRESS NativeTransfer (Some ''0xC'') ''0xa'' v
        \<lparr>ma_client = 1, ma_project = 2, ma_wallet = 3\<rparr> True]"
proof -
  have "monitored_for small_map (Some ''0xa'') = Some \<lparr>ma_client = 1, ma_project = 2, ma_wallet = 3\<rparr>"
    by code_simp
  moreover assume "v \<noteq> 0"
  ultimately show ?thesis
    by (simp add: block_events_def small_block_def small_env_def native_event_def)
qed

lemma small_facts: "small_map \<noteq> []" "be_provider (small_env v) = Inr ()" "be_block (small_env v) = Inr (Some (small_block v))"
  "ix_events small_indexer = []" "cb_hash (small_block v) = ''0xb''"
  by (simp_all add: small_env_def small_block_def small_indexer_def small_map_def getMonitoredAddresses_def Let_def)


lemma oversized_transfer_hides_its_block_witness:
  "\<not> is_ok (fst (processBlock (small_env (10 ^ 70)) 1 9 small_indexer))"
proof -
  let ?e = "hd (block_events (small_env (10 ^ 70)) small_map 1 9 (small_block (10 ^ 70)))"
  have split: "block_events (small_env (10 ^ 70)) small_map 1 9 (small_block (10 ^ 70)) = [] @ ?e # []"
    by (simp add: small_events)
  have big: "\<not> storable ?e"
    by (simp add: small_events storable_def transfer_event_def)
  have fresh: "\<not> list_ex (same_event ?e) (ix_events small_indexer)" "\<not> list_ex (same_event ?e) []"
    by (simp_all add: small_facts)
  have none: "list_all storable []"
    by simp
  show ?thesis
    using oversized_transfer_hides_its_block [OF small_facts(2) small_get small_facts(1,3) split none big fresh]
    by (cases "processBlock (small_env (10 ^ 70)) 1 9 small_indexer") simp
qed

end
