(* ===== verification/Backfill.thy ===== *)
theory Backfill
  imports Indexer
begin

text \<open>
  Gap detection (services/chain-indexer-service/src/gap-detector/gap-detector.service.ts) and the
  worker that back-fills a gap (services/chain-indexer-service/src/backfill/backfill.worker.ts).
  A detection reads one clock; the node's answers for each block of a job, the job's number and the
  outcome of its progress reports are the fields of \<open>backfill_env\<close>. The five blocks of a sub-batch,
  which the worker starts together, are processed one after the other.
\<close>

section \<open>Gap detection\<close>

definition MAX_GAP_LOOKBACK :: int where "MAX_GAP_LOOKBACK = 10000"
definition DETECT_BATCH_SIZE :: int where "DETECT_BATCH_SIZE = 1000"

definition scanned_key :: "int \<Rightarrow> block_no \<Rightarrow> string" where
  "scanned_key chain n = ''scanned:'' @ show_int chain @ '':'' @ show_int n"

definition was_scanned :: "millis \<Rightarrow> int \<Rightarrow> block_no \<Rightarrow> indexer \<Rightarrow> bool" where
  "was_scanned now chain n st =
     (case rget now (ix_redis st) (scanned_key chain n) of None \<Rightarrow> False | Some v \<Rightarrow> v \<noteq> [])"

definition missing :: "millis \<Rightarrow> int \<Rightarrow> indexer \<Rightarrow> block_no \<Rightarrow> bool" where
  "missing now chain st n \<longleftrightarrow> \<not> stored_block chain n st \<and> \<not> was_scanned now chain n st"

text \<open>The ranges of consecutive numbers of a sorted list: the open range \<open>[a, b]\<close> is the accumulator.\<close>

fun coalesce_from :: "block_no \<Rightarrow> block_no \<Rightarrow> block_no list \<Rightarrow> (block_no \<times> block_no) list" where
  "coalesce_from a b [] = [(a, b)]"
| "coalesce_from a b (n # ns) = (if n = b + 1 then coalesce_from a n ns else (a, b) # coalesce_from n n ns)"

definition coalesceGaps :: "block_no list \<Rightarrow> (block_no \<times> block_no) list" where
  "coalesceGaps blocks = (case sort blocks of [] \<Rightarrow> [] | n # ns \<Rightarrow> coalesce_from n n ns)"

definition open_gap :: "int \<Rightarrow> block_no \<Rightarrow> block_no \<Rightarrow> sync_gap \<Rightarrow> bool" where
  "open_gap chain a b g \<longleftrightarrow> sg_chain g = chain \<and> sg_start g = a \<and> sg_end g = b
     \<and> sg_status g \<in> {GapDetected, GapBackfilling}"

definition record_gap :: "int \<Rightarrow> block_no \<times> block_no \<Rightarrow> nat \<times> indexer \<Rightarrow> nat \<times> indexer" where
  "record_gap chain ab s =
     (case ab of (a, b) \<Rightarrow> case s of (found, st) \<Rightarrow>
        if \<exists>g \<in> set (ix_gaps st). open_gap chain a b g then (found, st)
        else
          (Suc found,
           st\<lparr>ix_gaps := ix_gaps st @ [\<lparr>sg_id = ix_next_gap st, sg_chain = chain, sg_start = a, sg_end = b,
                 sg_status = GapDetected, sg_job = None, sg_resolved = None, sg_attempts = 0, sg_max = 5, sg_error = None\<rparr>],
              ix_next_gap := ix_next_gap st + 1,
              ix_jobs := ix_jobs st @ [\<lparr>bj_gap = ix_next_gap st, bj_chain = chain, bj_start = a, bj_end = b\<rparr>]\<rparr>))"

function detect_batches :: "millis \<Rightarrow> int \<Rightarrow> block_no \<Rightarrow> block_no \<Rightarrow> nat \<times> indexer \<Rightarrow> nat \<times> indexer" where
  "detect_batches now chain from to s =
     (if from < to then
        (let last = min (from + DETECT_BATCH_SIZE - 1) to;
             gaps = coalesceGaps (filter (missing now chain (snd s)) [from..last])
         in detect_batches now chain (from + DETECT_BATCH_SIZE) to (fold (record_gap chain) gaps s))
      else s)"
  by pat_completeness auto

termination detect_batches
  by (relation "measure (\<lambda>(now, chain, from, to, s). nat (to - from))") (auto simp: DETECT_BATCH_SIZE_def)

declare detect_batches.simps [simp del]

definition earliest_start :: "int \<Rightarrow> indexer \<Rightarrow> block_no option" where
  "earliest_start chain st =
     (case map adr_start (filter (\<lambda>r. adr_chain r = chain \<and> adr_active r) (ix_monitored st)) of
        [] \<Rightarrow> None | s # ss \<Rightarrow> Some (fold min ss s))"

definition gap_window :: "int \<Rightarrow> indexer \<Rightarrow> (block_no \<times> block_no) option" where
  "gap_window chain st =
     (case find_cursor chain st of
        None \<Rightarrow> None
      | Some c \<Rightarrow>
          if sc_last c \<le> 0 then None
          else
         (case earliest_start chain st of
            None \<Rightarrow> None
          | Some first \<Rightarrow>
              if first \<ge> sc_last c then None else Some (max first (sc_last c - MAX_GAP_LOOKBACK), sc_last c)))"

definition detectAndEnqueueGaps :: "millis \<Rightarrow> int \<Rightarrow> indexer \<Rightarrow> nat \<times> indexer" where
  "detectAndEnqueueGaps now chain st =
     (case gap_window chain st of None \<Rightarrow> (0, st) | Some (from, to) \<Rightarrow> detect_batches now chain from to (0, st))"

definition detectAllGaps :: "(int \<Rightarrow> millis) \<Rightarrow> indexer \<Rightarrow> indexer" where
  "detectAllGaps now st =
     fold (\<lambda>chain s. snd (detectAndEnqueueGaps (now chain) chain s))
       (remdups (map adr_chain (filter adr_active (ix_monitored st)))) st"

section \<open>Back-filling a gap\<close>

definition BATCH_SIZE :: int where "BATCH_SIZE = 100"
definition BATCH_CONCURRENCY :: nat where "BATCH_CONCURRENCY = 5"

record backfill_env =
  bf_now :: millis
  bf_job :: ident
  bf_block :: "block_no \<Rightarrow> block_env"
  bf_progress :: "block_no \<Rightarrow> error + unit"

text \<open>A block that fails is logged and left; a block that was processed is marked as scanned for a day.\<close>

definition backfill_block :: "backfill_env \<Rightarrow> int \<Rightarrow> block_no \<Rightarrow> indexer \<Rightarrow> indexer" where
  "backfill_block env chain n st =
     (case processBlock (bf_block env n) chain n st of
        (Inl _, st1) \<Rightarrow> st1
      | (Inr _, st1) \<Rightarrow> redis_set (be_now (bf_block env n)) (scanned_key chain n) ''1'' (Some DAY_MS) st1)"

function chunks :: "nat \<Rightarrow> 'a list \<Rightarrow> 'a list list" where
  "chunks k xs = (if xs = [] \<or> k = 0 then [] else take k xs # chunks k (drop k xs))"
  by pat_completeness auto

termination chunks
  by (relation "measure (length \<circ> snd)") auto

declare chunks.simps [simp del]

function backfill_batches :: "backfill_env \<Rightarrow> int \<Rightarrow> block_no \<Rightarrow> block_no \<Rightarrow> indexer \<Rightarrow> (error + unit) \<times> indexer" where
  "backfill_batches env chain from to st =
     (if from \<le> to then
        (let last = min (from + BATCH_SIZE - 1) to;
             st1 = fold (fold (backfill_block env chain)) (chunks BATCH_CONCURRENCY [from..last]) st
         in case bf_progress env last of
              Inl e \<Rightarrow> (Inl e, st1)
            | Inr _ \<Rightarrow> backfill_batches env chain (from + BATCH_SIZE) to st1)
      else (Inr (), st))"
  by pat_completeness auto

termination backfill_batches
  by (relation "measure (\<lambda>(env, chain, from, to, st). nat (to + 1 - from))") (auto simp: BATCH_SIZE_def)

declare backfill_batches.simps [simp del]

definition update_gap :: "ident \<Rightarrow> (sync_gap \<Rightarrow> sync_gap) \<Rightarrow> indexer \<Rightarrow> indexer" where
  "update_gap n f st = st\<lparr>ix_gaps := update_where (\<lambda>g. sg_id g = n) f (ix_gaps st)\<rparr>"

definition process_backfill :: "backfill_env \<Rightarrow> backfill_job \<Rightarrow> indexer \<Rightarrow> (error + unit) \<times> indexer" where
  "process_backfill env j st =
     (case find (\<lambda>g. sg_id g = bj_gap j) (ix_gaps st) of
        None \<Rightarrow> (Inr (), st)
      | Some g \<Rightarrow>
          if sg_status g = GapResolved then (Inr (), st)
          else if sg_attempts g \<ge> sg_max g
          then (Inr (), update_gap (bj_gap j) (\<lambda>g. g\<lparr>sg_status := GapFailed\<rparr>) st)
          else
            let st1 = update_gap (bj_gap j) (\<lambda>g. g\<lparr>sg_status := GapBackfilling, sg_attempts := sg_attempts g + 1,
                        sg_job := Some (bf_job env)\<rparr>) st
            in (case backfill_batches env (bj_chain j) (bj_start j) (bj_end j) st1 of
                  (Inl e, st2) \<Rightarrow>
                    (Inl e, update_gap (bj_gap j) (\<lambda>g. g\<lparr>sg_status := GapFailed, sg_error := Some (error_text e)\<rparr>) st2)
                | (Inr _, st2) \<Rightarrow>
                    (Inr (), update_gap (bj_gap j) (\<lambda>g. g\<lparr>sg_status := GapResolved, sg_resolved := Some (bf_now env)\<rparr>) st2)))"

section \<open>The ranges of a list of blocks\<close>

definition range_blocks :: "block_no \<times> block_no \<Rightarrow> block_no list" where
  "range_blocks ab = [fst ab..snd ab]"

lemma coalesce_from_blocks:
  "a \<le> b \<Longrightarrow> concat (map range_blocks (coalesce_from a b ns)) = [a..b] @ ns"
proof (induction ns arbitrary: a b)
  case (Cons n ns)
  show ?case
  proof (cases "n = b + 1")
    case True
    have "[a..b + 1] = [a..b] @ [b + 1]"
      using Cons.prems upto_rec2 [of a "b + 1"] by simp
    with True Cons.IH [of a n] Cons.prems show ?thesis by simp
  next
    case False
    have "[n..n] = [n]" by simp
    with False Cons.IH [of n n] show ?thesis by (simp add: range_blocks_def)
  qed
qed (simp add: range_blocks_def)

lemma coalesce_from_shape:
  "a \<le> b \<Longrightarrow> sorted (b # ns) \<Longrightarrow> \<forall>r \<in> set (coalesce_from a b ns). a \<le> fst r \<and> fst r \<le> snd r"
proof (induction ns arbitrary: a b)
  case (Cons n ns)
  show ?case
  proof (cases "n = b + 1")
    case True
    then show ?thesis using Cons.IH [of a n] Cons.prems by simp
  next
    case False
    have "\<forall>r \<in> set (coalesce_from n n ns). n \<le> fst r \<and> fst r \<le> snd r"
      using Cons.IH [of n n] Cons.prems(2) by simp
    with False Cons.prems show ?thesis by fastforce
  qed
qed simp

lemma coalesce_from_separated:
  "a \<le> b \<Longrightarrow> sorted_wrt (<) (b # ns) \<Longrightarrow> sorted_wrt (\<lambda>r s. snd r + 1 < fst s) (coalesce_from a b ns)"
proof (induction ns arbitrary: a b)
  case (Cons n ns)
  show ?case
  proof (cases "n = b + 1")
    case True
    then show ?thesis using Cons.IH [of a n] Cons.prems by simp
  next
    case False
    have "sorted (n # ns)"
      using Cons.prems(2) by (intro strict_sorted_imp_sorted) simp
    then have "\<forall>r \<in> set (coalesce_from n n ns). n \<le> fst r"
      using coalesce_from_shape [of n n ns] by blast
    with False Cons.IH [of n n] Cons.prems show ?thesis
      by fastforce
  qed
qed simp

text \<open>Coalescing loses no block and invents none: the blocks of the ranges, in order, are
  the blocks given, in order; every range runs forward; and for distinct blocks the ranges are as long
  as possible, each ending at least one block before the next begins.\<close>

lemma gap_ranges_are_exact:
  "concat (map range_blocks (coalesceGaps blocks)) = sort blocks
   \<and> list_all (\<lambda>r. fst r \<le> snd r) (coalesceGaps blocks)
   \<and> (distinct blocks \<longrightarrow> sorted_wrt (\<lambda>r s. snd r + 1 < fst s) (coalesceGaps blocks))"
proof (cases "sort blocks")
  case (Cons n ns)
  have "sorted (n # ns)" "distinct blocks \<longrightarrow> sorted_wrt (<) (n # ns)"
    by (metis Cons sorted_sort, metis Cons distinct_sort sorted_sort strict_sorted_iff)
  then show ?thesis
    using coalesce_from_blocks [of n n ns] coalesce_from_shape [of n n ns] coalesce_from_separated [of n n ns]
    by (simp add: coalesceGaps_def Cons list_all_iff)
qed (simp add: coalesceGaps_def)

lemma gap_ranges_are_exact_witness:
  "sorted_wrt (\<lambda>r s. snd r + 1 < fst s) (coalesceGaps [7, 3, 4, 9, 5]) \<and> coalesceGaps [7, 3, 4, 9, 5] = [(3, 5), (7, 7), (9, 9)]"
proof -
  have "distinct [7, 3, 4, 9, 5 :: block_no]" by simp
  with gap_ranges_are_exact [of "[7, 3, 4, 9, 5]"] show ?thesis
    by (simp add: coalesceGaps_def)
qed

lemma coalesceGaps_blocks: "concat (map range_blocks (coalesceGaps blocks)) = sort blocks"
proof (cases "sort blocks")
  case (Cons n ns)
  then show ?thesis
    using coalesce_from_blocks [of n n ns] by (simp add: coalesceGaps_def)
qed (simp add: coalesceGaps_def)

section \<open>What a detection records\<close>

definition job_of :: "sync_gap \<Rightarrow> backfill_job" where
  "job_of g = \<lparr>bj_gap = sg_id g, bj_chain = sg_chain g, bj_start = sg_start g, bj_end = sg_end g\<rparr>"

definition found_gap :: "millis \<Rightarrow> int \<Rightarrow> indexer \<Rightarrow> sync_gap \<Rightarrow> bool" where
  "found_gap now chain st g \<longleftrightarrow> sg_chain g = chain \<and> sg_status g = GapDetected
     \<and> list_all (missing now chain st) [sg_start g..sg_end g]"

text \<open>A detection only appends open gaps of missing blocks, with one job each, and counts them.\<close>

definition detected_since :: "millis \<Rightarrow> int \<Rightarrow> nat \<times> indexer \<Rightarrow> nat \<times> indexer \<Rightarrow> bool" where
  "detected_since now chain s s' \<longleftrightarrow>
     (\<exists>new. ix_gaps (snd s') = ix_gaps (snd s) @ new \<and> ix_jobs (snd s') = ix_jobs (snd s) @ map job_of new
        \<and> fst s' = fst s + length new \<and> list_all (found_gap now chain (snd s)) new)
     \<and> ix_blocks (snd s') = ix_blocks (snd s) \<and> ix_redis (snd s') = ix_redis (snd s)"

lemma missing_cong:
  "ix_blocks st' = ix_blocks st \<Longrightarrow> ix_redis st' = ix_redis st \<Longrightarrow> missing now chain st' = missing now chain st"
  by (intro ext) (simp add: missing_def stored_block_def was_scanned_def)

lemma detected_since_refl [intro]: "detected_since now chain s s"
  by (simp add: detected_since_def)

lemma detected_since_trans:
  assumes "detected_since now chain s s'" and "detected_since now chain s' s''"
  shows "detected_since now chain s s''"
proof -
  have "found_gap now chain (snd s') = found_gap now chain (snd s)"
    using assms(1) missing_cong [of "snd s'" "snd s" now chain]
    by (intro ext) (simp add: found_gap_def detected_since_def)
  with assms show ?thesis
    unfolding detected_since_def by auto
qed

lemma record_gap_since:
  assumes "list_all (missing now chain (snd s)) (range_blocks ab)"
  shows "detected_since now chain s (record_gap chain ab s)"
    and "\<exists>g \<in> set (ix_gaps (snd (record_gap chain ab s))). open_gap chain (fst ab) (snd ab) g"
  using assms
  by (auto simp: record_gap_def detected_since_def found_gap_def job_of_def open_gap_def range_blocks_def split: prod.split)

lemma fold_record_gap_since:
  assumes "\<forall>ab \<in> set gaps. list_all (missing now chain (snd s)) (range_blocks ab)"
  shows "detected_since now chain s (fold (record_gap chain) gaps s) \<and>
    (\<forall>ab \<in> set gaps. \<exists>g \<in> set (ix_gaps (snd (fold (record_gap chain) gaps s))). open_gap chain (fst ab) (snd ab) g)"
  using assms
proof (induction gaps arbitrary: s)
  case (Cons ab gaps)
  let ?s = "record_gap chain ab s"
  have first: "detected_since now chain s ?s" "\<exists>g \<in> set (ix_gaps (snd ?s)). open_gap chain (fst ab) (snd ab) g"
    using record_gap_since [of now chain s ab] Cons.prems by simp_all
  then have m: "missing now chain (snd ?s) = missing now chain (snd s)"
    by (intro missing_cong) (simp_all add: detected_since_def)
  have rest: "detected_since now chain ?s (fold (record_gap chain) gaps ?s)"
    "\<forall>ab \<in> set gaps. \<exists>g \<in> set (ix_gaps (snd (fold (record_gap chain) gaps ?s))). open_gap chain (fst ab) (snd ab) g"
    using Cons.IH [of ?s] Cons.prems m by simp_all
  have "detected_since now chain s (fold (record_gap chain) (ab # gaps) s)"
    using detected_since_trans [OF first(1) rest(1)] by simp
  moreover have "\<forall>r \<in> set (ab # gaps). \<exists>g \<in> set (ix_gaps (snd (fold (record_gap chain) (ab # gaps) s))). open_gap chain (fst r) (snd r) g"
  proof -
    have "set (ix_gaps (snd ?s)) \<subseteq> set (ix_gaps (snd (fold (record_gap chain) gaps ?s)))"
      using rest(1) by (auto simp: detected_since_def)
    with first(2) have "\<exists>g \<in> set (ix_gaps (snd (fold (record_gap chain) gaps ?s))). open_gap chain (fst ab) (snd ab) g"
      by blast
    with rest(2) show ?thesis by auto
  qed
  ultimately show ?case by blast
qed auto

lemma gap_of_block:
  assumes "n \<in> set bs"
  obtains ab where "ab \<in> set (coalesceGaps bs)" "n \<in> set (range_blocks ab)"
proof -
  have "n \<in> set (concat (map range_blocks (coalesceGaps bs)))"
    using assms by (simp add: coalesceGaps_blocks)
  with that show ?thesis by auto
qed

lemma gaps_are_missing:
  "\<forall>ab \<in> set (coalesceGaps (filter P bs)). list_all P (range_blocks ab)"
proof
  fix ab assume "ab \<in> set (coalesceGaps (filter P bs))"
  then have "set (range_blocks ab) \<subseteq> set (concat (map range_blocks (coalesceGaps (filter P bs))))"
    by auto
  then show "list_all P (range_blocks ab)"
    by (auto simp: coalesceGaps_blocks list_all_iff)
qed

definition in_open_gap :: "int \<Rightarrow> indexer \<Rightarrow> block_no \<Rightarrow> bool" where
  "in_open_gap chain st n \<longleftrightarrow> list_ex (\<lambda>g. sg_chain g = chain \<and> sg_status g \<in> {GapDetected, GapBackfilling}
     \<and> sg_start g \<le> n \<and> n \<le> sg_end g) (ix_gaps st)"

lemma in_open_gap_since: "detected_since now chain s s' \<Longrightarrow> in_open_gap c (snd s) n \<Longrightarrow> in_open_gap c (snd s') n"
  by (auto simp: detected_since_def in_open_gap_def list_ex_iff)

lemma detect_batches_since:
  "detected_since now chain s (detect_batches now chain from to s)
   \<and> (\<forall>n. from \<le> n \<and> n < to \<and> missing now chain (snd s) n \<longrightarrow> in_open_gap chain (snd (detect_batches now chain from to s)) n)"
proof (induction now chain "from" to s rule: detect_batches.induct)
  case (1 now chain "from" to s)
  show ?case
  proof (cases "from < to")
    case True
    let ?bs = "filter (missing now chain (snd s)) [from..min (from + DETECT_BATCH_SIZE - 1) to]"
    let ?s = "fold (record_gap chain) (coalesceGaps ?bs) s"
    note this_batch = fold_record_gap_since [where s = s and chain = chain, OF gaps_are_missing]
    have since: "detected_since now chain s ?s"
      using this_batch by blast
    have m: "missing now chain (snd ?s) = missing now chain (snd s)"
      using since by (intro missing_cong) (simp_all add: detected_since_def)
    have IH: "detected_since now chain ?s (detect_batches now chain (from + DETECT_BATCH_SIZE) to ?s)"
      "\<And>n. from + DETECT_BATCH_SIZE \<le> n \<Longrightarrow> n < to \<Longrightarrow> missing now chain (snd s) n \<Longrightarrow>
         in_open_gap chain (snd (detect_batches now chain (from + DETECT_BATCH_SIZE) to ?s)) n"
      using 1 [OF True refl refl] m by simp_all
    have here: "in_open_gap chain (snd ?s) n" if n: "from \<le> n" "n < to" "missing now chain (snd s) n" "n < from + DETECT_BATCH_SIZE" for n
    proof -
      have "n \<in> set ?bs" using n by simp
      then obtain ab where ab: "ab \<in> set (coalesceGaps ?bs)" "n \<in> set (range_blocks ab)"
        by (rule gap_of_block)
      from this_batch ab(1) obtain g where "g \<in> set (ix_gaps (snd ?s))" "open_gap chain (fst ab) (snd ab) g"
        by blast
      with ab(2) show ?thesis
        by (auto simp: in_open_gap_def list_ex_iff open_gap_def range_blocks_def)
    qed
    have step: "detect_batches now chain from to s = detect_batches now chain (from + DETECT_BATCH_SIZE) to ?s"
      using True by (subst detect_batches.simps) (simp add: Let_def)
    show ?thesis
      unfolding step using detected_since_trans [OF since IH(1)] IH(2) in_open_gap_since [OF IH(1) here] by (meson not_le)
  next
    case False
    then show ?thesis
      by (subst (1 2) detect_batches.simps) auto
  qed
qed

text \<open>A detection over a window of blocks keeps every row it finds, counts the gaps it adds
  and enqueues one job for each, adds only gaps all of whose blocks are missing, and leaves every
  missing block of the window before its last block inside a gap that is detected or being
  back-filled.\<close>

lemma detection_opens_a_gap_for_every_missing_block:
  assumes "gap_window chain st = Some (from, to)"
  shows "case detectAndEnqueueGaps now chain st of (k, st') \<Rightarrow>
     (\<exists>new. ix_gaps st' = ix_gaps st @ new \<and> ix_jobs st' = ix_jobs st @ map job_of new \<and> k = length new
        \<and> list_all (found_gap now chain st) new)
   \<and> list_all (in_open_gap chain st') (filter (missing now chain st) [from..to - 1])"
proof -
  let ?s = "detect_batches now chain from to (0, st)"
  have "detectAndEnqueueGaps now chain st = ?s"
    using assms by (simp add: detectAndEnqueueGaps_def)
  then show ?thesis
    using detect_batches_since [of now chain "(0, st)" "from" to]
    by (auto simp: detected_since_def list_all_iff split: prod.split)
qed

section \<open>What a back-fill leaves\<close>

lemma store_events_frame [simp]:
  "ix_gaps (snd (store_events es st)) = ix_gaps st" "ix_redis (snd (store_events es st)) = ix_redis st"
  by (induction es arbitrary: st) simp_all

text \<open>A processed block touches no gap and no key but that of its hash.\<close>

lemma processBlock_frame:
  obtains "ix_gaps (snd (processBlock env chain n st)) = ix_gaps st"
    and "ix_redis (snd (processBlock env chain n st)) = ix_redis st"
  | h where "ix_gaps (snd (processBlock env chain n st)) = ix_gaps st"
    and "ix_redis (snd (processBlock env chain n st)) = rset (be_now env) (hash_key chain n) h (Some DAY_MS) (ix_redis st)"
proof -
  note same = that(1) and hashed = that(2)
  obtain m st1 where g: "getMonitoredAddresses (be_now env) chain st = (m, st1)"
    by fastforce
  note st1 = getMonitoredAddresses_keeps [OF g]
  have frame1: "ix_gaps st1 = ix_gaps st" "ix_redis st1 = ix_redis st"
    by (subst st1, simp)+
  have unchanged: thesis if "snd (processBlock env chain n st) \<in> {st, st1}"
  proof (rule same)
    show "ix_gaps (snd (processBlock env chain n st)) = ix_gaps st"
      "ix_redis (snd (processBlock env chain n st)) = ix_redis st"
      using that frame1 by auto
  qed
  show thesis
  proof (cases "be_provider env = Inr () \<and> m \<noteq> [] \<and> (\<exists>b. be_block env = Inr (Some b))")
    case True
    then obtain b where b: "be_provider env = Inr ()" "m \<noteq> []" "be_block env = Inr (Some b)" by blast
    obtain r st2 where s: "store_events (block_events env m chain n b) st1 = (r, st2)"
      by fastforce
    have frame2: "ix_gaps st2 = ix_gaps st" "ix_redis st2 = ix_redis st"
      using store_events_frame [of "block_events env m chain n b" st1] frame1 by (simp_all add: s)
    show thesis
    proof (cases r)
      case (Inl e)
      then have "snd (processBlock env chain n st) = st2"
        using b s g by (simp add: processBlock_def Let_def)
      with same frame2 show thesis by simp
    next
      case (Inr u)
      show thesis
        using processBlock_ok [OF b(1) g b(2,3)] s frame2 Inr by (intro hashed [of "cb_hash b"]) (simp_all split: if_splits)
    qed
  next
    case False
    have "snd (processBlock env chain n st) \<in> {st, st1}"
    proof (cases "be_provider env")
      case (Inr u)
      with False g show ?thesis
        by (auto simp: processBlock_def split: sum.split option.split)
    qed (simp add: processBlock_def)
    with unchanged show thesis by blast
  qed
qed

lemma scan_keys [key_simps]:
  "scanned_key c n = scanned_key c m \<longleftrightarrow> n = m" "scanned_key c n \<noteq> hash_key d m" "hash_key d m \<noteq> scanned_key c n"
  by (simp_all add: scanned_key_def hash_key_def)

lemma was_scanned_processBlock: "was_scanned now chain n (snd (processBlock env c k st)) = was_scanned now chain n st"
  by (rule processBlock_frame [of env c k st]) (simp_all add: was_scanned_def kv.get_put scan_keys)

lemma was_scanned_backfill:
  assumes "was_scanned now chain n st" and "k \<noteq> n"
  shows "was_scanned now chain n (backfill_block env chain k st)"
proof -
  obtain r st1 where s: "processBlock (bf_block env k) chain k st = (r, st1)"
    by fastforce
  have "was_scanned now chain n st1"
    using was_scanned_processBlock [of now chain n "bf_block env k" chain k st] assms(1) by (simp add: s)
  with assms(2) show ?thesis
    by (cases r) (simp_all add: backfill_block_def s was_scanned_def kv.get_put scan_keys)
qed

lemma scanned_backfill:
  assumes "is_ok (fst (processBlock (bf_block env n) chain n st))" and "now < be_now (bf_block env n) + DAY_MS"
  shows "was_scanned now chain n (backfill_block env chain n st)"
proof -
  obtain r st1 where s: "processBlock (bf_block env n) chain n st = (Inr r, st1)"
    using assms(1) by (cases "fst (processBlock (bf_block env n) chain n st)"; cases "processBlock (bf_block env n) chain n st") auto
  show ?thesis
    using assms(2) by (simp add: backfill_block_def s was_scanned_def kv.get_put)
qed

lemma ix_gaps_backfill [simp]: "ix_gaps (backfill_block env chain k st) = ix_gaps st"
proof -
  obtain r st1 where s: "processBlock (bf_block env k) chain k st = (r, st1)"
    by fastforce
  have "ix_gaps st1 = ix_gaps st"
    by (rule processBlock_frame [of "bf_block env k" chain k st]) (simp_all add: s)
  then show ?thesis
    by (cases r) (simp_all add: backfill_block_def s)
qed

lemma ix_gaps_fold_backfill [simp]: "ix_gaps (fold (backfill_block env chain) ns st) = ix_gaps st"
  by (induction ns arbitrary: st) simp_all

lemma concat_chunks: "k \<noteq> 0 \<Longrightarrow> concat (chunks k xs) = xs"
  by (induction k xs rule: chunks.induct) (subst chunks.simps, simp)

lemma fold_fold: "fold (fold f) xss s = fold f (concat xss) s"
  by (induction xss arbitrary: s) simp_all

text \<open>The batches of a job whose progress reports succeed process its blocks in order.\<close>

lemma backfill_batches_all:
  "\<forall>n. bf_progress env n = Inr () \<Longrightarrow>
   backfill_batches env chain from to st = (Inr (), fold (backfill_block env chain) [from..to] st)"
proof (induction env chain "from" to st rule: backfill_batches.induct)
  case (1 env chain "from" to st)
  show ?case
  proof (cases "from \<le> to")
    case True
    let ?l = "min (from + BATCH_SIZE - 1) to"
    have "[from..to] = [from..?l] @ [from + BATCH_SIZE..to]"
      using True upto_split2 [of "from" ?l to] by (cases "from + BATCH_SIZE - 1 \<le> to") (auto simp: BATCH_SIZE_def min_def add.commute)
    with 1 True show ?thesis
      by (subst backfill_batches.simps) (simp add: Let_def fold_fold concat_chunks BATCH_CONCURRENCY_def)
  qed (subst backfill_batches.simps, simp)
qed

lemma fold_backfill_scans:
  assumes "\<forall>n \<in> set ns. now < be_now (bf_block env n) + DAY_MS \<and> (\<forall>s. is_ok (fst (processBlock (bf_block env n) chain n s)))"
    and "distinct ns"
  shows "\<forall>n \<in> set ns. was_scanned now chain n (fold (backfill_block env chain) ns st)"
proof -
  have keep: "was_scanned now chain k (fold (backfill_block env chain) ms s)"
    if "was_scanned now chain k s" "k \<notin> set ms" for k ms s
    using that by (induction ms arbitrary: s) (auto simp: was_scanned_backfill)
  show ?thesis
    using assms by (induction ns arbitrary: st) (auto intro!: keep scanned_backfill)
qed

definition closed_gap :: "backfill_env \<Rightarrow> sync_gap \<Rightarrow> sync_gap" where
  "closed_gap env g = g\<lparr>sg_status := GapResolved, sg_attempts := sg_attempts g + 1, sg_job := Some (bf_job env),
     sg_resolved := Some (bf_now env)\<rparr>"

definition due_gap :: "backfill_job \<Rightarrow> sync_gap \<Rightarrow> indexer \<Rightarrow> bool" where
  "due_gap j g st \<longleftrightarrow> find (\<lambda>x. sg_id x = bj_gap j) (ix_gaps st) = Some g \<and> sg_status g \<noteq> GapResolved \<and> sg_attempts g < sg_max g"

lemma process_backfill_runs:
  assumes "due_gap j g st" and "\<forall>n. bf_progress env n = Inr ()"
  obtains st1 st2 where "process_backfill env j st = (Inr (), st2)"
    "st1 = update_gap (bj_gap j) (\<lambda>g. g\<lparr>sg_status := GapBackfilling, sg_attempts := sg_attempts g + 1, sg_job := Some (bf_job env)\<rparr>) st"
    "st2 = update_gap (bj_gap j) (\<lambda>g. g\<lparr>sg_status := GapResolved, sg_resolved := Some (bf_now env)\<rparr>)
       (fold (backfill_block env (bj_chain j)) [bj_start j..bj_end j] st1)"
    "find (\<lambda>x. sg_id x = bj_gap j) (ix_gaps st2) = Some (closed_gap env g)"
proof -
  let ?st1 = "update_gap (bj_gap j) (\<lambda>g. g\<lparr>sg_status := GapBackfilling, sg_attempts := sg_attempts g + 1, sg_job := Some (bf_job env)\<rparr>) st"
  let ?st2 = "update_gap (bj_gap j) (\<lambda>g. g\<lparr>sg_status := GapResolved, sg_resolved := Some (bf_now env)\<rparr>)
       (fold (backfill_block env (bj_chain j)) [bj_start j..bj_end j] ?st1)"
  have "sg_id g = bj_gap j"
    using assms(1) by (auto simp: due_gap_def dest: find_SomeD)
  then have "find (\<lambda>x. sg_id x = bj_gap j) (ix_gaps ?st2) = Some (closed_gap env g)"
    using assms(1) by (simp add: update_gap_def find_update_where due_gap_def closed_gap_def)
  moreover have "process_backfill env j st = (Inr (), ?st2)"
    using assms by (simp add: process_backfill_def due_gap_def backfill_batches_all Let_def)
  ultimately show thesis
    using that by blast
qed

text \<open>When every block of a due gap can be processed and the progress reports succeed, the
  back-fill resolves the gap, and for a day after the blocks were read no detection finds any of them
  missing again.\<close>

lemma backfilled_gap_stays_closed:
  assumes "due_gap j g st" and "\<forall>n. bf_progress env n = Inr ()"
    and "\<forall>n \<in> {bj_start j..bj_end j}. now < be_now (bf_block env n) + DAY_MS
           \<and> (\<forall>s. is_ok (fst (processBlock (bf_block env n) (bj_chain j) n s)))"
  shows "case process_backfill env j st of (r, st') \<Rightarrow>
      r = Inr ()
    \<and> find (\<lambda>x. sg_id x = bj_gap j) (ix_gaps st') = Some (closed_gap env g)
    \<and> list_all (\<lambda>n. \<not> missing now (bj_chain j) st' n) [bj_start j..bj_end j]"
proof -
  obtain st1 st2 where run: "process_backfill env j st = (Inr (), st2)"
    "st1 = update_gap (bj_gap j) (\<lambda>g. g\<lparr>sg_status := GapBackfilling, sg_attempts := sg_attempts g + 1, sg_job := Some (bf_job env)\<rparr>) st"
    "st2 = update_gap (bj_gap j) (\<lambda>g. g\<lparr>sg_status := GapResolved, sg_resolved := Some (bf_now env)\<rparr>)
       (fold (backfill_block env (bj_chain j)) [bj_start j..bj_end j] st1)"
    "find (\<lambda>x. sg_id x = bj_gap j) (ix_gaps st2) = Some (closed_gap env g)"
    by (rule process_backfill_runs [OF assms(1,2)])
  have "\<forall>n \<in> set [bj_start j..bj_end j].
      was_scanned now (bj_chain j) n (fold (backfill_block env (bj_chain j)) [bj_start j..bj_end j] st1)"
    using assms(3) by (intro fold_backfill_scans) auto
  moreover have "ix_redis st2 = ix_redis (fold (backfill_block env (bj_chain j)) [bj_start j..bj_end j] st1)"
    unfolding run(3) by (simp add: update_gap_def)
  ultimately have "list_all (\<lambda>n. \<not> missing now (bj_chain j) st2 n) [bj_start j..bj_end j]"
    by (simp add: list_all_iff missing_def was_scanned_def)
  with run(4) show ?thesis
    unfolding run(1) by simp
qed

text \<open>The failure of a block is only logged: when the node answers for none of its blocks the
  back-fill still resolves the gap, with no error, no block and no event stored and none marked as
  scanned; the gap is not retried.\<close>

theorem unfilled_gap_is_resolved:
  assumes "due_gap j g st" and "\<forall>n. bf_progress env n = Inr ()" and "\<forall>n. \<not> is_ok (be_provider (bf_block env n))"
  shows "case process_backfill env j st of (r, st') \<Rightarrow>
      r = Inr ()
    \<and> find (\<lambda>x. sg_id x = bj_gap j) (ix_gaps st') = Some (closed_gap env g)
    \<and> ix_events st' = ix_events st \<and> ix_blocks st' = ix_blocks st \<and> ix_redis st' = ix_redis st
    \<and> process_backfill env' j st' = (Inr (), st')"
proof -
  obtain st1 st2 where run: "process_backfill env j st = (Inr (), st2)"
    "st1 = update_gap (bj_gap j) (\<lambda>g. g\<lparr>sg_status := GapBackfilling, sg_attempts := sg_attempts g + 1, sg_job := Some (bf_job env)\<rparr>) st"
    "st2 = update_gap (bj_gap j) (\<lambda>g. g\<lparr>sg_status := GapResolved, sg_resolved := Some (bf_now env)\<rparr>)
       (fold (backfill_block env (bj_chain j)) [bj_start j..bj_end j] st1)"
    "find (\<lambda>x. sg_id x = bj_gap j) (ix_gaps st2) = Some (closed_gap env g)"
    by (rule process_backfill_runs [OF assms(1,2)])
  have "backfill_block env c n s = s" for c n s
    using assms(3) [THEN spec, of n]
    by (cases "be_provider (bf_block env n)") (simp_all add: backfill_block_def processBlock_def)
  then have "fold (backfill_block env c) ns s = s" for c ns s
    by (induction ns) simp_all
  then have "st2 = update_gap (bj_gap j) (\<lambda>g. g\<lparr>sg_status := GapResolved, sg_resolved := Some (bf_now env)\<rparr>) st1"
    unfolding run(3) by simp
  then have "ix_events st2 = ix_events st" "ix_blocks st2 = ix_blocks st" "ix_redis st2 = ix_redis st"
    unfolding run(2) by (simp_all add: update_gap_def)
  moreover have "process_backfill env' j st2 = (Inr (), st2)"
    by (simp add: process_backfill_def run(4) closed_gap_def)
  ultimately show ?thesis
    using run(4) unfolding run(1) by simp
qed

section \<open>Concrete runs\<close>

definition sample_monitored :: monitored_address where
  "sample_monitored = \<lparr>adr_chain = 1, adr_address = ''0xA'', adr_info = \<lparr>ma_client = 1, ma_project = 2, ma_wallet = 3\<rparr>,
     adr_start = 5, adr_active = True\<rparr>"

definition sample_gap :: sync_gap where
  "sample_gap = \<lparr>sg_id = 9, sg_chain = 1, sg_start = 5, sg_end = 6, sg_status = GapDetected, sg_job = None,
     sg_resolved = None, sg_attempts = 0, sg_max = 5, sg_error = None\<rparr>"

definition sample_indexer :: indexer where
  "sample_indexer = \<lparr>ix_chains = [], ix_monitored = [sample_monitored], ix_events = [], ix_blocks = [],
     ix_cursors = [\<lparr>sc_chain = 1, sc_last = 8, sc_finalized = 0\<rparr>], ix_gaps = [sample_gap], ix_next_gap = 10,
     ix_balances = [], ix_reorgs = [], ix_jobs = [], ix_redis = Map.empty, ix_addrs = Map.empty, ix_stream = []\<rparr>"

definition sample_fill :: "(error + unit) \<Rightarrow> backfill_env" where
  "sample_fill p = \<lparr>bf_now = 7, bf_job = 1,
     bf_block = (\<lambda>n. \<lparr>be_now = 7, be_provider = p, be_block = Inr None, be_logs = Inr [], be_getAddress = Inr\<rparr>),
     bf_progress = (\<lambda>_. Inr ())\<rparr>"

lemma detection_opens_a_gap_for_every_missing_block_witness:
  "list_all (in_open_gap 1 (snd (detectAndEnqueueGaps 0 1 sample_indexer))) [5, 6, 7]"
proof -
  have w: "gap_window 1 sample_indexer = Some (5, 8)"
    by code_simp
  have "filter (missing 0 1 sample_indexer) [5..8 - 1] = [5, 6, 7]"
    by code_simp
  with detection_opens_a_gap_for_every_missing_block [OF w, of 0] show ?thesis
    by (simp split: prod.splits)
qed

lemma sample_due: "due_gap (job_of sample_gap) sample_gap sample_indexer"
  by (simp add: due_gap_def job_of_def sample_gap_def sample_indexer_def)

lemma sample_fill_simps:
  "bf_progress (sample_fill p) n = Inr ()" "be_provider (bf_block (sample_fill p) n) = p"
  "be_now (bf_block (sample_fill p) n) = 7" "be_block (bf_block (sample_fill p) n) = Inr None"
  "bj_chain (job_of sample_gap) = 1" "bj_start (job_of sample_gap) = 5" "bj_end (job_of sample_gap) = 6"
  "bj_gap (job_of sample_gap) = 9"
  by (simp_all add: sample_fill_def job_of_def sample_gap_def)

lemma backfilled_gap_stays_closed_witness:
  "list_all (\<lambda>n. \<not> missing 8 1 (snd (process_backfill (sample_fill (Inr ())) (job_of sample_gap) sample_indexer)) n) [5..6]"
proof -
  have ok: "is_ok (fst (processBlock (bf_block (sample_fill (Inr ())) n) c n s))" for n c s
    by (simp add: sample_fill_simps processBlock_def split: prod.split)
  obtain r st' where s: "process_backfill (sample_fill (Inr ())) (job_of sample_gap) sample_indexer = (r, st')"
    by fastforce
  show ?thesis
    using backfilled_gap_stays_closed [OF sample_due, of "sample_fill (Inr ())" 8] ok
    by (simp add: sample_fill_simps DAY_MS_def s)
qed

lemma unfilled_gap_is_resolved_witness:
  "find (\<lambda>x. sg_id x = 9) (ix_gaps (snd (process_backfill (sample_fill (Inl (InternalError ''rpc''))) (job_of sample_gap) sample_indexer)))
     = Some (closed_gap (sample_fill (Inl (InternalError ''rpc''))) sample_gap)"
proof -
  let ?env = "sample_fill (Inl (InternalError ''rpc''))"
  obtain r st' where s: "process_backfill ?env (job_of sample_gap) sample_indexer = (r, st')"
    by fastforce
  show ?thesis
    using unfilled_gap_is_resolved [OF sample_due, of ?env] by (simp add: sample_fill_simps s)
qed

end
