(* ===== verification/Balances.thy ===== *)
theory Balances
  imports Indexer
begin

text \<open>
  Finality (services/chain-indexer-service/src/finality/finality-tracker.service.ts) and the
  materialisation of balances from the events of finalised blocks
  (services/chain-indexer-service/src/balance/balance-materializer.service.ts). The batches are read
  until one is not full; the loop is acc, the events after the watermark decreasing with every
  batch. Balances are taken to fit their DECIMAL(65,0) column. \<open>parseInt\<close> of a watermark that is no
  number, which no code here writes, is an error where the query would refuse \<open>NaN\<close>.
\<close>

section \<open>Materialisation\<close>

definition MATERIALIZE_BATCH_SIZE :: nat where "MATERIALIZE_BATCH_SIZE = 1000"

definition watermarkKey :: "int \<Rightarrow> string" where
  "watermarkKey chain = ''balance:watermark:'' @ show_int chain"

definition getWatermark :: "millis \<Rightarrow> int \<Rightarrow> indexer \<Rightarrow> error + int option" where
  "getWatermark now chain st =
     (case rget now (ix_redis st) (watermarkKey chain) of
        None \<Rightarrow> Inr None
      | Some c \<Rightarrow> (case parse_int c of None \<Rightarrow> Inl (InternalError ''NaN'') | Some n \<Rightarrow> Inr (Some n)))"

definition setWatermark :: "millis \<Rightarrow> int \<Rightarrow> block_no \<Rightarrow> indexer \<Rightarrow> indexer" where
  "setWatermark now chain n st = redis_set now (watermarkKey chain) (show_int n) None st"

definition pending_events :: "int \<Rightarrow> int option \<Rightarrow> block_no \<Rightarrow> indexed_event list \<Rightarrow> indexed_event list" where
  "pending_events chain wm final es =
     sort_key ie_block (sort_key ie_log
       (filter (\<lambda>e. ie_chain e = chain \<and> (case wm of None \<Rightarrow> True | Some w \<Rightarrow> ie_block e > w)
                    \<and> ie_block e \<le> final \<and> ie_processed e \<noteq> None) es))"

record balance_entry =
  en_address :: string
  en_token :: "ident option"
  en_client :: "ident option"
  en_project :: "ident option"
  en_wallet :: "ident option"
  en_net :: int
  en_last :: block_no

definition truthy :: "string option \<Rightarrow> bool" where
  "truthy a \<longleftrightarrow> (case a of None \<Rightarrow> False | Some x \<Rightarrow> x \<noteq> [])"

definition known_client :: "ident option \<Rightarrow> bool" where
  "known_client c \<longleftrightarrow> (case c of None \<Rightarrow> False | Some n \<Rightarrow> n \<noteq> 0)"

text \<open>The map from address and token to the net change, in order of insertion.\<close>

definition entry_of :: "indexed_event \<Rightarrow> string \<Rightarrow> int \<Rightarrow> balance_entry" where
  "entry_of e a net = \<lparr>en_address = a, en_token = ie_token e, en_client = ie_client e, en_project = ie_project e,
     en_wallet = ie_wallet e, en_net = net, en_last = ie_block e\<rparr>"

fun add_entry :: "bool \<Rightarrow> balance_entry \<Rightarrow> balance_entry list \<Rightarrow> balance_entry list" where
  "add_entry create n [] = (if create then [n] else [])"
| "add_entry create n (x # xs) =
     (if en_address x = en_address n \<and> en_token x = en_token n
      then x\<lparr>en_net := en_net x + en_net n, en_last := max (en_last x) (en_last n)\<rparr> # xs
      else x # add_entry create n xs)"

definition add_event :: "indexed_event \<Rightarrow> balance_entry list \<Rightarrow> balance_entry list" where
  "add_event e m =
     (case ie_amount e of
        None \<Rightarrow> m
      | Some amount \<Rightarrow>
          let inbound = (ie_inbound e = Some True);
              m1 = (if truthy (ie_to e) \<and> inbound then add_entry True (entry_of e (lower (the (ie_to e))) amount) m else m)
          in if truthy (ie_from e) \<and> \<not> inbound
             then add_entry (known_client (ie_client e)) (entry_of e (lower (the (ie_from e))) (- amount)) m1 else m1)"

text \<open>A row with no token never meets the unique key of the table, as SQL compares NULL.\<close>

definition same_balance :: "int \<Rightarrow> string \<Rightarrow> ident option \<Rightarrow> balance_row \<Rightarrow> bool" where
  "same_balance chain a t r \<longleftrightarrow> mb_chain r = chain \<and> sql_eq (mb_address r) a \<and> t \<noteq> None \<and> mb_token r = t"

definition upsert_balance :: "int \<Rightarrow> balance_entry \<Rightarrow> nat \<times> indexer \<Rightarrow> nat \<times> indexer" where
  "upsert_balance chain n s =
     (case s of (k, st) \<Rightarrow>
        if \<not> known_client (en_client n) then (k, st)
        else if \<exists>r \<in> set (ix_balances st). same_balance chain (en_address n) (en_token n) r
        then (Suc k, st\<lparr>ix_balances := update_where (same_balance chain (en_address n) (en_token n))
                (\<lambda>r. r\<lparr>mb_balance := mb_balance r + en_net n, mb_block := en_last n\<rparr>) (ix_balances st)\<rparr>)
        else (Suc k, st\<lparr>ix_balances := ix_balances st @
               [\<lparr>mb_chain = chain, mb_address = en_address n, mb_token = en_token n, mb_client = the (en_client n),
                 mb_project = (case en_project n of None \<Rightarrow> 0 | Some p \<Rightarrow> p), mb_wallet = en_wallet n,
                 mb_balance = en_net n, mb_block = en_last n\<rparr>]\<rparr>))"

definition materialize_batch :: "millis \<Rightarrow> int \<Rightarrow> indexed_event list \<Rightarrow> indexer \<Rightarrow> nat \<times> indexer" where
  "materialize_batch now chain es st =
     (case fold (upsert_balance chain) (fold add_event es []) (0, st) of
        (k, st1) \<Rightarrow> (k, setWatermark now chain (fold max (map ie_block es) (ie_block (hd es))) st1))"

lemma setWatermark_simps [simp]:
  "ix_events (setWatermark now chain n st) = ix_events st" "ix_blocks (setWatermark now chain n st) = ix_blocks st"
  "ix_balances (setWatermark now chain n st) = ix_balances st" "ix_cursors (setWatermark now chain n st) = ix_cursors st"
  by (simp_all add: setWatermark_def redis_set_def)

lemma upsert_balance_frame:
  "ix_events (snd (upsert_balance chain n s)) = ix_events (snd s)" "ix_redis (snd (upsert_balance chain n s)) = ix_redis (snd s)"
  "ix_blocks (snd (upsert_balance chain n s)) = ix_blocks (snd s)" "ix_cursors (snd (upsert_balance chain n s)) = ix_cursors (snd s)"
  by (simp_all add: upsert_balance_def split: prod.split)

lemma fold_upsert_frame:
  "ix_events (snd (fold (upsert_balance chain) ns s)) = ix_events (snd s)"
  "ix_redis (snd (fold (upsert_balance chain) ns s)) = ix_redis (snd s)"
  "ix_blocks (snd (fold (upsert_balance chain) ns s)) = ix_blocks (snd s)"
  "ix_cursors (snd (fold (upsert_balance chain) ns s)) = ix_cursors (snd s)"
  by (induction ns arbitrary: s) (simp_all add: upsert_balance_frame)

lemma materialize_batch_frame [simp]:
  "ix_events (snd (materialize_batch now chain es st)) = ix_events st"
  "ix_blocks (snd (materialize_batch now chain es st)) = ix_blocks st"
  "ix_cursors (snd (materialize_batch now chain es st)) = ix_cursors st"
  using fold_upsert_frame [of chain "fold add_event es []" "(0, st)"]
  by (simp_all add: materialize_batch_def case_prod_beta)

text \<open>The events left after a batch are fewer: the first one is at or below the new watermark.\<close>

lemma pending_events_shrink:
  assumes "pending_events chain wm final es = e # rest" and "ie_block e \<le> w" and "\<forall>v. wm = Some v \<longrightarrow> v \<le> w"
  shows "length (pending_events chain (Some w) final es) < length (pending_events chain wm final es)"
proof -
  let ?P = "\<lambda>wm x. ie_chain x = chain \<and> (case wm of None \<Rightarrow> True | Some v \<Rightarrow> ie_block x > v)
                    \<and> ie_block x \<le> final \<and> ie_processed x \<noteq> None"
  have "e \<in> set (pending_events chain wm final es)"
    by (simp add: assms(1))
  then have e: "e \<in> set (filter (?P wm) es)"
    by (simp add: pending_events_def)
  have "filter (?P (Some w)) es = filter (?P (Some w)) (filter (?P wm) es)"
    using assms(3) by (auto intro!: filter_cong split: option.splits)
  moreover have "length (filter (?P (Some w)) (filter (?P wm) es)) < length (filter (?P wm) es)"
    using e assms(2) by (intro length_filter_less [of e]) auto
  ultimately show ?thesis
    by (simp add: pending_events_def)
qed

text \<open>The batches, from the watermark \<open>wm\<close>; the counters of the two log lines are the first component.\<close>

function materialize_loop :: "millis \<Rightarrow> int \<Rightarrow> block_no \<Rightarrow> int option \<Rightarrow> nat \<times> indexer \<Rightarrow> nat \<times> indexer" where
  "materialize_loop now chain final wm s =
     (case s of (acc, st) \<Rightarrow>
        let batch = take MATERIALIZE_BATCH_SIZE (pending_events chain wm final (ix_events st)) in
        if batch = []
        then (acc, if (case wm of None \<Rightarrow> True | Some w \<Rightarrow> final > w) then setWatermark now chain final st else st)
        else
          (case materialize_batch now chain batch st of
             (k, st1) \<Rightarrow>
               if length batch < MATERIALIZE_BATCH_SIZE then (acc + k, st1)
               else materialize_loop now chain final (Some (fold max (map ie_block batch) (ie_block (hd batch)))) (acc + k, st1)))"
  by pat_completeness auto

lemma fold_max_ge: "(x :: int) \<le> fold max xs x"
proof (induction xs arbitrary: x)
  case (Cons y xs)
  show ?case
    using Cons [of "max y x"] by simp
qed simp

termination materialize_loop
proof (relation "measure (\<lambda>(now, chain, final, wm, acc, st). length (pending_events chain wm final (ix_events st)))")
  fix now chain final wm s batch and acc k :: nat and st st1 :: indexer
  let ?all = "pending_events chain wm final (ix_events st)"
  assume s: "(acc, st) = s" and batch: "batch = take MATERIALIZE_BATCH_SIZE ?all" "batch \<noteq> []"
    and run: "(k, st1) = materialize_batch now chain batch st"
    and "\<not> length batch < MATERIALIZE_BATCH_SIZE"
  define w where "w = fold max (map ie_block batch) (ie_block (hd batch))"
  obtain e rest where all: "?all = e # rest"
    using batch by (cases ?all) (auto simp: MATERIALIZE_BATCH_SIZE_def)
  have hd: "hd batch = e"
    using batch all by (simp add: MATERIALIZE_BATCH_SIZE_def)
  have e: "ie_block e \<le> w"
    unfolding w_def hd by (rule fold_max_ge)
  have "e \<in> set ?all"
    by (simp add: all)
  then have "\<forall>v. wm = Some v \<longrightarrow> v \<le> w"
    using e by (auto simp: pending_events_def)
  then have "length (pending_events chain (Some w) final (ix_events st)) < length ?all"
    by (rule pending_events_shrink [OF all e])
  moreover have "ix_events st1 = ix_events st"
    using materialize_batch_frame(1) [of now chain batch st] by (simp add: run [symmetric])
  ultimately show "((now, chain, final, Some (fold max (map ie_block batch) (ie_block (hd batch))), acc + k, st1), now, chain, final, wm, s)
      \<in> measure (\<lambda>(now, chain, final, wm, acc, st). length (pending_events chain wm final (ix_events st)))"
    by (simp add: s [symmetric] w_def)
qed simp

declare materialize_loop.simps [simp del]

definition materializeForChain :: "millis \<Rightarrow> int \<Rightarrow> block_no \<Rightarrow> indexer \<Rightarrow> (error + nat) \<times> indexer" where
  "materializeForChain now chain final st =
     (case getWatermark now chain st of
        Inl e \<Rightarrow> (Inl e, st)
      | Inr wm \<Rightarrow> (case materialize_loop now chain final wm (0, st) of (k, st1) \<Rightarrow> (Inr k, st1)))"

section \<open>Finality\<close>

record finality_env =
  fe_now :: millis
  fe_tip :: "error + block_no"

definition upsert_cursor :: "int \<Rightarrow> block_no \<Rightarrow> block_no \<Rightarrow> indexer \<Rightarrow> indexer" where
  "upsert_cursor chain tip final st =
     (if find_cursor chain st = None
      then st\<lparr>ix_cursors := ix_cursors st @ [\<lparr>sc_chain = chain, sc_last = tip, sc_finalized = final\<rparr>]\<rparr>
      else st\<lparr>ix_cursors := update_where (\<lambda>c. sc_chain c = chain) (\<lambda>c. c\<lparr>sc_finalized := final\<rparr>) (ix_cursors st)\<rparr>)"

definition newly_final :: "int \<Rightarrow> block_no \<Rightarrow> indexed_block \<Rightarrow> bool" where
  "newly_final chain final b \<longleftrightarrow> ib_chain b = chain \<and> \<not> ib_final b \<and> ib_number b \<le> final"

definition checkFinalityForChain :: "finality_env \<Rightarrow> int \<Rightarrow> int \<Rightarrow> indexer \<Rightarrow> (error + nat) \<times> indexer" where
  "checkFinalityForChain env chain threshold st =
     (case fe_tip env of
        Inl e \<Rightarrow> (Inl e, st)
      | Inr tip \<Rightarrow>
          let final = tip - threshold;
              found = sort_key ib_number (filter (newly_final chain final) (ix_blocks st))
          in if final \<le> 0 \<or> found = [] then (Inr 0, st)
             else
               let st1 = st\<lparr>ix_blocks := update_where (newly_final chain final) (\<lambda>b. b\<lparr>ib_final := True\<rparr>) (ix_blocks st)\<rparr>;
                   st2 = upsert_cursor chain tip final st1
               in (Inr (length found), snd (materializeForChain (fe_now env) chain (ib_number (last found)) st2)))"

definition checkFinality :: "(int \<Rightarrow> finality_env) \<Rightarrow> indexer \<Rightarrow> indexer" where
  "checkFinality envs st =
     fold (\<lambda>(chain, threshold) s. snd (checkFinalityForChain (envs chain) chain threshold s))
       (remdups (map (\<lambda>c. (ch_id c, ch_finality c))
          (filter (\<lambda>c. ch_active c \<and> (\<exists>a \<in> set (ix_monitored st). adr_chain a = ch_id c \<and> adr_active a)) (ix_chains st)))) st"

section \<open>The net flow of the events\<close>

definition flow :: "string \<Rightarrow> ident option \<Rightarrow> indexed_event \<Rightarrow> int" where
  "flow a t e =
     (case ie_amount e of
        None \<Rightarrow> 0
      | Some amount \<Rightarrow>
          if ie_token e \<noteq> t then 0
          else if ie_inbound e = Some True
          then (if truthy (ie_to e) \<and> lower (the (ie_to e)) = a then amount else 0)
          else (if truthy (ie_from e) \<and> lower (the (ie_from e)) = a then - amount else 0))"

definition entry_total :: "string \<Rightarrow> ident option \<Rightarrow> balance_entry list \<Rightarrow> int" where
  "entry_total a t m = sum_list (map (\<lambda>x. if en_address x = a \<and> en_token x = t then en_net x else 0) m)"

definition total_balance :: "int \<Rightarrow> string \<Rightarrow> ident option \<Rightarrow> indexer \<Rightarrow> int" where
  "total_balance chain a t st =
     sum_list (map (\<lambda>r. if mb_chain r = chain \<and> lower (mb_address r) = a \<and> mb_token r = t then mb_balance r else 0) (ix_balances st))"

definition keyed :: "balance_entry list \<Rightarrow> bool" where
  "keyed m \<longleftrightarrow> distinct (map (\<lambda>x. (en_address x, en_token x)) m) \<and> list_all (\<lambda>x. known_client (en_client x) \<and> lower (en_address x) = en_address x) m"

lemma entry_total_add:
  "entry_total a t (add_entry True n m) = entry_total a t m + (if en_address n = a \<and> en_token n = t then en_net n else 0)"
  by (induction m) (simp_all add: entry_total_def, auto)

lemma keys_add_entry:
  "set (map (\<lambda>x. (en_address x, en_token x)) (add_entry create n m)) \<subseteq>
     insert (en_address n, en_token n) (set (map (\<lambda>x. (en_address x, en_token x)) m))"
  by (induction m) auto

lemma keyed_add:
  "keyed m \<Longrightarrow> known_client (en_client n) \<Longrightarrow> lower (en_address n) = en_address n \<Longrightarrow> keyed (add_entry create n m)"
proof (induction m)
  case (Cons x m)
  have IH: "keyed (add_entry create n m)"
    using Cons by (simp add: keyed_def)
  show ?case
    using Cons.prems IH keys_add_entry [of create n m] by (auto simp: keyed_def image_iff)
qed (simp add: keyed_def)

lemma add_event_flow:
  assumes "known_client (ie_client e)" and "keyed m"
  shows "entry_total a t (add_event e m) = entry_total a t m + flow a t e" and "keyed (add_event e m)"
proof -
  show "entry_total a t (add_event e m) = entry_total a t m + flow a t e"
    using assms(1) by (simp add: add_event_def flow_def entry_of_def entry_total_add Let_def split: option.split)
  show "keyed (add_event e m)"
    using assms by (simp add: add_event_def entry_of_def Let_def keyed_add split: option.split)
qed

lemma fold_add_event_flow:
  assumes "\<forall>e \<in> set es. known_client (ie_client e)" and "keyed m"
  shows "entry_total a t (fold add_event es m) = entry_total a t m + sum_list (map (flow a t) es) \<and> keyed (fold add_event es m)"
  using assms by (induction es arbitrary: m) (simp_all add: add_event_flow)

text \<open>Rows with a token have distinct keys, as the table enforces.\<close>

definition unique_balances :: "balance_row list \<Rightarrow> bool" where
  "unique_balances rows \<longleftrightarrow>
     distinct (map (\<lambda>r. (mb_chain r, lower (mb_address r), mb_token r)) (filter (\<lambda>r. mb_token r \<noteq> None) rows))"

definition row_part :: "int \<Rightarrow> string \<Rightarrow> ident option \<Rightarrow> balance_row \<Rightarrow> int" where
  "row_part chain a t r = (if mb_chain r = chain \<and> lower (mb_address r) = a \<and> mb_token r = t then mb_balance r else 0)"

lemma total_balance_rows: "total_balance chain a t st = sum_list (map (row_part chain a t) (ix_balances st))"
  by (simp add: total_balance_def row_part_def [abs_def])

lemma update_where_skip: "\<forall>r \<in> set rows. \<not> P r \<Longrightarrow> update_where P f rows = rows"
  unfolding update_where_def by (intro map_idI) auto

lemma update_same_balance:
  assumes "unique_balances rows" and "r \<in> set rows" and "same_balance chain a t r"
  obtains xs ys where "rows = xs @ r # ys" "update_where (same_balance chain a t) f rows = xs @ f r # ys"
proof -
  from assms(2) obtain xs ys where rows: "rows = xs @ r # ys"
    by (auto simp: in_set_conv_decomp)
  have "\<not> same_balance chain a t x" if "x \<in> set xs \<union> set ys" for x
    using assms(1,3) that unfolding rows unique_balances_def same_balance_def sql_eq_def
    by (auto simp: image_iff) (metis option.distinct(1))+
  with that rows assms(3) show thesis
    by (simp add: update_where_skip)
qed

lemma upsert_balance_total:
  assumes "unique_balances (ix_balances (snd s))" and "known_client (en_client n)" and "lower (en_address n) = en_address n"
  shows "total_balance chain a t (snd (upsert_balance chain n s)) = total_balance chain a t (snd s)
      + (if en_address n = a \<and> en_token n = t then en_net n else 0)"
    and "unique_balances (ix_balances (snd (upsert_balance chain n s)))"
proof -
  obtain k st where s: "s = (k, st)" by fastforce
  let ?P = "same_balance chain (en_address n) (en_token n)"
  let ?f = "\<lambda>r. r\<lparr>mb_balance := mb_balance r + en_net n, mb_block := en_last n\<rparr>"
  have "total_balance chain a t (snd (upsert_balance chain n s)) = total_balance chain a t (snd s)
      + (if en_address n = a \<and> en_token n = t then en_net n else 0)
    \<and> unique_balances (ix_balances (snd (upsert_balance chain n s)))"
  proof (cases "\<exists>r \<in> set (ix_balances st). ?P r")
    case True
    then obtain r where r: "r \<in> set (ix_balances st)" "?P r" by blast
    obtain xs ys where rows: "ix_balances st = xs @ r # ys" "update_where ?P ?f (ix_balances st) = xs @ ?f r # ys"
      using update_same_balance [OF _ r, of ?f] assms(1) by (auto simp: s)
    have "ix_balances (snd (upsert_balance chain n s)) = xs @ ?f r # ys"
      using True assms(2) rows(2) by (simp add: upsert_balance_def s)
    moreover have "row_part chain a t (?f r) = row_part chain a t r + (if en_address n = a \<and> en_token n = t then en_net n else 0)"
      using r(2) assms(3) by (auto simp: row_part_def same_balance_def sql_eq_def)
    moreover have "unique_balances (xs @ ?f r # ys) \<longleftrightarrow> unique_balances (xs @ r # ys)"
      by (simp add: unique_balances_def)
    ultimately show ?thesis
      using assms(1) rows(1) by (simp add: total_balance_rows s)
  next
    case False
    then have "distinct (map (\<lambda>r. (mb_chain r, lower (mb_address r), mb_token r)) (filter (\<lambda>r. mb_token r \<noteq> None) (ix_balances (snd (upsert_balance chain n s)))))"
      using assms by (auto simp: upsert_balance_def s unique_balances_def same_balance_def sql_eq_def)
    moreover have "total_balance chain a t (snd (upsert_balance chain n s)) = total_balance chain a t (snd s)
      + (if en_address n = a \<and> en_token n = t then en_net n else 0)"
      using False assms(2,3) by (simp add: upsert_balance_def s total_balance_rows row_part_def)
    ultimately show ?thesis
      by (simp add: unique_balances_def)
  qed
  then show "total_balance chain a t (snd (upsert_balance chain n s)) = total_balance chain a t (snd s)
      + (if en_address n = a \<and> en_token n = t then en_net n else 0)"
    and "unique_balances (ix_balances (snd (upsert_balance chain n s)))"
    by blast+
qed

lemma fold_upsert_total:
  assumes "unique_balances (ix_balances (snd s))" and "\<forall>n \<in> set m. known_client (en_client n) \<and> lower (en_address n) = en_address n"
  shows "total_balance chain a t (snd (fold (upsert_balance chain) m s)) = total_balance chain a t (snd s) + entry_total a t m
    \<and> unique_balances (ix_balances (snd (fold (upsert_balance chain) m s)))"
  using assms
proof (induction m arbitrary: s)
  case (Cons n m)
  then show ?case
    using upsert_balance_total [of s n chain] by (simp add: entry_total_def)
qed (simp add: entry_total_def)

lemma total_balance_setWatermark [simp]: "total_balance chain a t (setWatermark now c n st) = total_balance chain a t st"
  by (simp add: total_balance_def)

lemma materialize_batch_total:
  assumes "unique_balances (ix_balances st)" and "\<forall>e \<in> set es. known_client (ie_client e)"
  shows "total_balance chain a t (snd (materialize_batch now chain es st)) = total_balance chain a t st + sum_list (map (flow a t) es)"
    and "unique_balances (ix_balances (snd (materialize_batch now chain es st)))"
proof -
  have m: "entry_total a t (fold add_event es []) = sum_list (map (flow a t) es)" "keyed (fold add_event es [])" for a t
    using fold_add_event_flow [OF assms(2), of "[]"] by (simp_all add: keyed_def entry_total_def)
  have "\<forall>n \<in> set (fold add_event es []). known_client (en_client n) \<and> lower (en_address n) = en_address n"
    using m(2) by (simp add: keyed_def list_all_iff)
  from fold_upsert_total [where s = "(0, st)", OF _ this] assms(1) m(1)
  show "total_balance chain a t (snd (materialize_batch now chain es st)) = total_balance chain a t st + sum_list (map (flow a t) es)"
    and "unique_balances (ix_balances (snd (materialize_batch now chain es st)))"
    by (simp_all add: materialize_batch_def case_prod_beta)
qed

section \<open>Materialisation is exact when a pass fits one batch\<close>

lemma fold_max_in: "fold max xs (x :: int) \<in> insert x (set xs)"
  by (induction xs arbitrary: x) (auto simp: max_def)

lemma fold_max_upper: "y \<in> insert x (set xs) \<Longrightarrow> (y :: int) \<le> fold max xs x"
proof (induction xs arbitrary: x)
  case (Cons z xs)
  then show ?case
    using Cons.IH [of "max z x"] fold_max_ge [of "max z x" xs] by auto
qed simp

definition last_block :: "indexed_event list \<Rightarrow> block_no" where
  "last_block es = fold max (map ie_block es) (ie_block (hd es))"

lemma last_block_ge: "e \<in> set es \<Longrightarrow> ie_block e \<le> last_block es"
  unfolding last_block_def by (intro fold_max_upper) auto

lemma last_block_in: "es \<noteq> [] \<Longrightarrow> \<exists>e \<in> set es. ie_block e = last_block es"
  using fold_max_in [of "map ie_block es" "ie_block (hd es)"] unfolding last_block_def by (cases es) auto

lemma getWatermark_set [simp]: "getWatermark later chain (setWatermark now chain n st) = Inr (Some n)"
  by (simp add: getWatermark_def setWatermark_def kv.get_put)

lemma getWatermark_batch: "getWatermark later chain (snd (materialize_batch now chain es st)) = Inr (Some (last_block es))"
  by (simp add: materialize_batch_def last_block_def case_prod_beta)

lemma set_pending:
  "e \<in> set (pending_events chain wm final es) \<longleftrightarrow> e \<in> set es \<and> ie_chain e = chain
     \<and> (case wm of None \<Rightarrow> True | Some w \<Rightarrow> ie_block e > w) \<and> ie_block e \<le> final \<and> ie_processed e \<noteq> None"
  by (auto simp: pending_events_def)

lemma pending_after:
  "w \<ge> last_block (pending_events chain wm final es) \<Longrightarrow> (\<forall>v. wm = Some v \<longrightarrow> v \<le> w) \<Longrightarrow> pending_events chain (Some w) final es = []"
proof -
  assume w: "w \<ge> last_block (pending_events chain wm final es)" "\<forall>v. wm = Some v \<longrightarrow> v \<le> w"
  have "e \<notin> set (pending_events chain (Some w) final es)" for e
  proof
    assume e: "e \<in> set (pending_events chain (Some w) final es)"
    then have "e \<in> set (pending_events chain wm final es)"
      using w(2) by (auto simp: set_pending split: option.splits)
    from last_block_ge [OF this] e w(1) show False
      by (simp add: set_pending)
  qed
  then show ?thesis
    by (cases "pending_events chain (Some w) final es") auto
qed

lemma materialize_one_batch:
  assumes "pending_events chain wm final (ix_events st) = es" and "es \<noteq> []" and "length es < MATERIALIZE_BATCH_SIZE"
  shows "materialize_loop now chain final wm (k, st) =
    (k + fst (materialize_batch now chain es st), snd (materialize_batch now chain es st))"
  using assms by (subst materialize_loop.simps) (simp add: Let_def case_prod_beta)

lemma materialize_no_batch:
  assumes "pending_events chain wm final (ix_events st) = []"
  shows "materialize_loop now chain final wm (k, st) =
    (k, if (case wm of None \<Rightarrow> True | Some w \<Rightarrow> final > w) then setWatermark now chain final st else st)"
  using assms by (subst materialize_loop.simps) simp

lemma materialize_idle:
  assumes "getWatermark now chain st = Inr wm" and "pending_events chain wm final (ix_events st) = []"
  shows "ix_balances (snd (materializeForChain now chain final st)) = ix_balances st"
  using assms by (simp add: materializeForChain_def materialize_no_batch)

text \<open>A pass that finds fewer events than a batch holds (all of known clients) adds to the
  balance of every address and token exactly the amounts it received less the amounts it sent in
  those events, keeps the unique key, and is caught up: running it again changes no balance.\<close>

lemma materialization_adds_the_net_flow:
  assumes watermark: "\<forall>t. getWatermark t chain st = Inr wm" and "pending_events chain wm final (ix_events st) = es"
    and "length es < 1000" and "\<forall>e \<in> set es. known_client (ie_client e)" and "unique_balances (ix_balances st)"
  shows "case materializeForChain now chain final st of (r, st') \<Rightarrow>
      is_ok r
    \<and> total_balance chain a t st' = total_balance chain a t st + sum_list (map (flow a t) es)
    \<and> unique_balances (ix_balances st')
    \<and> ix_balances (snd (materializeForChain later chain final st')) = ix_balances st'"
proof (cases "es = []")
  case True
  note run = materialize_no_batch [OF assms(2) [unfolded True], of now 0]
  show ?thesis
  proof (cases "case wm of None \<Rightarrow> True | Some w \<Rightarrow> final > w")
    case True
    have "pending_events chain (Some final) final (ix_events st) = []"
      by (simp add: pending_events_def filter_empty_conv)
    then have "ix_balances (snd (materializeForChain later chain final (setWatermark now chain final st))) = ix_balances st"
      using materialize_idle [of later chain "setWatermark now chain final st" "Some final" final] by simp
    then show ?thesis
      using run True assms(1,5) \<open>es = []\<close> by (simp add: materializeForChain_def)
  next
    case False
    have "ix_balances (snd (materializeForChain later chain final st)) = ix_balances st"
      using materialize_idle watermark assms(2) True by blast
    then show ?thesis
      using run False assms(1,5) \<open>es = []\<close> by (simp add: materializeForChain_def)
  qed
next
  case False
  let ?st' = "snd (materialize_batch now chain es st)"
  have run: "snd (materializeForChain now chain final st) = ?st'" "is_ok (fst (materializeForChain now chain final st))"
    using materialize_one_batch [OF assms(2) False, of now 0] assms(1,3)
    by (simp_all add: materializeForChain_def MATERIALIZE_BATCH_SIZE_def case_prod_beta)
  have "\<forall>v. wm = Some v \<longrightarrow> v \<le> last_block es"
    using last_block_in [OF False] assms(2) set_pending [of _ chain wm final "ix_events st"] by fastforce
  then have "pending_events chain (Some (last_block es)) final (ix_events ?st') = []"
    using pending_after [of chain wm final "ix_events st"] assms(2) by simp
  then have "ix_balances (snd (materializeForChain later chain final ?st')) = ix_balances ?st'"
    by (intro materialize_idle [OF getWatermark_batch])
  with run materialize_batch_total [OF assms(5,4)] show ?thesis
    by (simp add: case_prod_beta)
qed

section \<open>Events the block processor writes are never materialised\<close>

definition unprocessed :: "indexed_event list \<Rightarrow> bool" where
  "unprocessed es = list_all (\<lambda>e. ie_processed e = None) es"

lemma unprocessed_pending: "unprocessed es \<Longrightarrow> pending_events chain wm final es = []"
  by (auto simp: unprocessed_def pending_events_def list_all_iff filter_empty_conv)

lemma store_events_unprocessed:
  "unprocessed (ix_events st) \<Longrightarrow> unprocessed es \<Longrightarrow> unprocessed (ix_events (snd (store_events es st)))"
  by (induction es arbitrary: st) (simp_all add: unprocessed_def)

lemma store_events_balances: "ix_balances (snd (store_events es st)) = ix_balances st"
  by (induction es arbitrary: st) simp_all

lemma processBlock_unprocessed:
  assumes "unprocessed (ix_events st)"
  shows "unprocessed (ix_events (snd (processBlock env chain n st))) \<and> ix_balances (snd (processBlock env chain n st)) = ix_balances st"
proof -
  obtain m st1 where g: "getMonitoredAddresses (be_now env) chain st = (m, st1)"
    by fastforce
  have "ix_events st1 = ix_events st \<and> ix_balances st1 = ix_balances st"
    by (subst (1 2) getMonitoredAddresses_keeps [OF g]) simp
  moreover have "unprocessed (block_events env m chain n b)" for b
    using block_events_unprocessed [of env m chain n b] by (simp add: unprocessed_def list_all_iff)
  ultimately have st2: "unprocessed (ix_events (snd (store_events (block_events env m chain n b) st1)))
      \<and> ix_balances (snd (store_events (block_events env m chain n b) st1)) = ix_balances st" for b
    using assms store_events_unprocessed [of st1] store_events_balances [of _ st1] by simp
  have "ix_balances (store_block c k b l s) = ix_balances s" "ix_balances (redis_set t k' v ttl s) = ix_balances s"
    for c k b l s t k' v ttl
    by (simp_all add: store_block_def redis_set_def)
  then show ?thesis
    using assms st2 \<open>ix_events st1 = ix_events st \<and> ix_balances st1 = ix_balances st\<close>
    by (auto simp: processBlock_def g Let_def case_prod_beta split: sum.split option.split)
qed

lemma fold_processBlock_unprocessed:
  assumes "unprocessed (ix_events st)"
  shows "unprocessed (ix_events (fold (\<lambda>(env, c, n) s. snd (processBlock env c n s)) steps st))
    \<and> ix_balances (fold (\<lambda>(env, c, n) s. snd (processBlock env c n s)) steps st) = ix_balances st"
  using assms
proof (induction steps arbitrary: st)
  case (Cons x steps)
  obtain env c n where x: "x = (env, c, n)"
    by (cases x) auto
  show ?case
    using Cons.IH [of "snd (processBlock env c n st)"] processBlock_unprocessed [OF Cons.prems, of env c n] by (simp add: x)
qed simp

text \<open>The materialiser reads only events whose processing time is set, and the block processor,
  the only writer of the table, never sets it: whatever blocks are processed, a finality check and the
  pass it triggers change no balance.\<close>

lemma indexed_events_are_never_materialized:
  assumes "unprocessed (ix_events st)"
  shows "ix_balances (snd (checkFinalityForChain fenv chain threshold
      (fold (\<lambda>(env, c, n) s. snd (processBlock env c n s)) steps st))) = ix_balances st"
proof -
  let ?st = "fold (\<lambda>(env, c, n) s. snd (processBlock env c n s)) steps st"
  have idle: "ix_balances (snd (materializeForChain now chain final s)) = ix_balances s" if "unprocessed (ix_events s)" for now final s
  proof (cases "getWatermark now chain s")
    case (Inr wm)
    then show ?thesis
      by (rule materialize_idle) (rule unprocessed_pending [OF that])
  qed (simp add: materializeForChain_def)
  have cursor: "ix_events (upsert_cursor c t f s) = ix_events s" "ix_balances (upsert_cursor c t f s) = ix_balances s" for c t f s
    by (simp_all add: upsert_cursor_def)
  from fold_processBlock_unprocessed [OF assms, of steps]
  have "unprocessed (ix_events ?st)" "ix_balances ?st = ix_balances st"
    by blast+
  then show ?thesis
    by (simp add: checkFinalityForChain_def Let_def idle cursor split: sum.split)
qed

section \<open>Finality\<close>

text \<open>A finality check marks exactly the blocks of the chain that lie at least the chain's
  threshold below the tip, changes no other block, unmarks none, and counts the blocks it marks.\<close>

lemma finality_marks_exactly_the_deep_blocks:
  assumes "fe_tip env = Inr tip" and "0 < tip - threshold"
  shows "case checkFinalityForChain env chain threshold st of (r, st') \<Rightarrow>
      r = Inr (count_where (newly_final chain (tip - threshold)) (ix_blocks st))
    \<and> ix_blocks st' = map (\<lambda>b. if ib_chain b = chain \<and> ib_number b \<le> tip - threshold then b\<lparr>ib_final := True\<rparr> else b) (ix_blocks st)
    \<and> ix_events st' = ix_events st"
proof -
  have frame: "ix_blocks (snd (materialize_loop now c f wm s)) = ix_blocks (snd s) \<and> ix_events (snd (materialize_loop now c f wm s)) = ix_events (snd s)"
    for now c f wm s
  proof (induction now c f wm s rule: materialize_loop.induct)
    case (1 now c f wm s)
    obtain k st where s: "s = (k, st)" by fastforce
    let ?batch = "take MATERIALIZE_BATCH_SIZE (pending_events c wm f (ix_events st))"
    show ?case
    proof (cases "?batch = [] \<or> length ?batch < MATERIALIZE_BATCH_SIZE")
      case True
      let ?idle = "(k, if (case wm of None \<Rightarrow> True | Some w \<Rightarrow> f > w) then setWatermark now c f st else st)"
      have "materialize_loop now c f wm s =
          (if ?batch = [] then ?idle else (k + fst (materialize_batch now c ?batch st), snd (materialize_batch now c ?batch st)))"
        using True by (subst materialize_loop.simps) (auto simp: s Let_def case_prod_beta simp del: take_eq_Nil length_take)
      then show ?thesis
        by (simp add: s)
    next
      case False
      obtain k' st1 where b: "materialize_batch now c ?batch st = (k', st1)"
        by fastforce
      have "materialize_loop now c f wm s =
          materialize_loop now c f (Some (fold max (map ie_block ?batch) (ie_block (hd ?batch)))) (k + k', st1)"
        using False by (subst materialize_loop.simps) (simp add: s Let_def b)
      moreover have "ix_blocks st1 = ix_blocks st" "ix_events st1 = ix_events st"
        using materialize_batch_frame [of now c ?batch st] by (simp_all add: b)
      ultimately show ?thesis
        using 1 [OF s [symmetric] refl _ b [symmetric]] False by (simp add: s)
    qed
  qed
  have mat: "ix_blocks (snd (materializeForChain now c f s)) = ix_blocks s \<and> ix_events (snd (materializeForChain now c f s)) = ix_events s"
    for now c f s
    using frame [of now c f _ "(0, s)"] by (simp add: materializeForChain_def case_prod_beta split: sum.split)
  have cursor: "ix_events (upsert_cursor c t f s) = ix_events s" "ix_blocks (upsert_cursor c t f s) = ix_blocks s" for c t f s
    by (simp_all add: upsert_cursor_def)
  have same: "update_where (newly_final chain f) (\<lambda>b. b\<lparr>ib_final := True\<rparr>) rows
      = map (\<lambda>b. if ib_chain b = chain \<and> ib_number b \<le> f then b\<lparr>ib_final := True\<rparr> else b) rows" for f rows
    unfolding update_where_def by (intro map_cong refl) (auto simp: newly_final_def)
  show ?thesis
  proof (cases "filter (newly_final chain (tip - threshold)) (ix_blocks st) = []")
    case True
    then have "update_where (newly_final chain (tip - threshold)) (\<lambda>b. b\<lparr>ib_final := True\<rparr>) (ix_blocks st) = ix_blocks st"
      by (intro update_where_skip) (simp add: filter_empty_conv)
    with True assms show ?thesis
      unfolding checkFinalityForChain_def by (simp add: count_where_def same)
  next
    case False
    then have "sort_key ib_number (filter (newly_final chain (tip - threshold)) (ix_blocks st)) \<noteq> []"
      by (metis length_0_conv length_sort)
    with assms show ?thesis
      by (simp add: checkFinalityForChain_def Let_def count_where_def mat cursor same)
  qed
qed

section \<open>Concrete runs\<close>

definition sample_event :: "block_no \<Rightarrow> bool \<Rightarrow> int \<Rightarrow> millis option \<Rightarrow> indexed_event" where
  "sample_event n inbound amount done =
     \<lparr>ie_chain = 1, ie_block = n, ie_tx = show_int n, ie_log = 0, ie_contract = ''0xt'', ie_type = Erc20Transfer,
      ie_from = Some (if inbound then ''0xC'' else ''0xA''), ie_to = Some (if inbound then ''0xA'' else ''0xC''),
      ie_token = Some 4, ie_amount = Some amount, ie_client = Some 1, ie_project = Some 2, ie_wallet = Some 3,
      ie_inbound = Some inbound, ie_processed = done\<rparr>"

definition sample_ledger :: "millis option \<Rightarrow> indexer" where
  "sample_ledger done = small_indexer\<lparr>ix_events := [sample_event 3 True 7 done, sample_event 5 False 2 done],
     ix_blocks := [\<lparr>ib_chain = 1, ib_number = 3, ib_hash = ''h3'', ib_parent = ''h2'', ib_timestamp = 0, ib_txs = 1, ib_events = 1, ib_final = False\<rparr>,
                   \<lparr>ib_chain = 1, ib_number = 5, ib_hash = ''h5'', ib_parent = ''h4'', ib_timestamp = 0, ib_txs = 1, ib_events = 1, ib_final = False\<rparr>]\<rparr>"

lemma sample_watermark: "getWatermark t 1 (sample_ledger d) = Inr None"
  by (simp add: getWatermark_def sample_ledger_def small_indexer_def)

lemma materialization_adds_the_net_flow_witness:
  "total_balance 1 ''0xa'' (Some 4) (snd (materializeForChain 0 1 9 (sample_ledger (Some 0)))) = 5"
proof -
  let ?st = "sample_ledger (Some 0)"
  let ?es = "[sample_event 3 True 7 (Some 0), sample_event 5 False 2 (Some 0)]"
  have "pending_events 1 None 9 (ix_events ?st) = ?es" "unique_balances (ix_balances ?st)"
    by code_simp+
  moreover have "\<forall>e \<in> set ?es. known_client (ie_client e)"
    by (simp add: sample_event_def known_client_def)
  moreover have "total_balance 1 ''0xa'' (Some 4) ?st + sum_list (map (flow ''0xa'' (Some 4)) ?es) = 5"
    by code_simp
  ultimately show ?thesis
    using materialization_adds_the_net_flow [where st = ?st and es = ?es and chain = 1 and wm = None and final = 9 and now = 0
        and a = "''0xa''" and t = "Some 4"] sample_watermark
    by (simp add: case_prod_beta)
qed

lemma indexed_events_are_never_materialized_witness:
  "ix_balances (snd (checkFinalityForChain \<lparr>fe_now = 0, fe_tip = Inr 40\<rparr> 1 12 (sample_ledger None))) = []"
proof -
  have "unprocessed (ix_events (sample_ledger None))" "ix_balances (sample_ledger None) = []"
    by code_simp+
  then show ?thesis
    using indexed_events_are_never_materialized [of "sample_ledger None" _ 1 12 "[]"] by simp
qed

lemma finality_marks_exactly_the_deep_blocks_witness:
  "map ib_final (ix_blocks (snd (checkFinalityForChain \<lparr>fe_now = 0, fe_tip = Inr 16\<rparr> 1 12 (sample_ledger None)))) = [True, False]"
proof -
  have "map ib_final (map (\<lambda>b. if ib_chain b = 1 \<and> ib_number b \<le> 16 - 12 then b\<lparr>ib_final := True\<rparr> else b) (ix_blocks (sample_ledger None)))
      = [True, False]"
    by code_simp
  then show ?thesis
    using finality_marks_exactly_the_deep_blocks [of "\<lparr>fe_now = 0, fe_tip = Inr 16\<rparr>" 16 12 1 "sample_ledger None"]
    by (simp add: case_prod_beta)
qed

end
