(* ===== verification/Reorg.thy ===== *)
theory Reorg
  imports Balances
begin

text \<open>
  Reorganisations: the detector
  (services/chain-indexer-service/src/reorg/reorg-detector.service.ts), which walks back from the
  cursor comparing stored with canonical hashes, and the consumer of its events
  (services/chain-indexer-service/src/reorg/reorg-rollback.handler.ts), which removes what was indexed
  above the common ancestor. The numbers of an event are read as decimal integers; other texts are
  \<open>NaN\<close>.
\<close>

section \<open>Detection\<close>

record reorg_result =
  rr_detected :: bool
  rr_depth :: int
  rr_from :: "block_no option"

record reorg_env =
  re_now :: millis
  re_iso :: "millis \<Rightarrow> string"
  re_provider :: "error + unit"
  re_block :: "block_no \<Rightarrow> error + string option"

definition cacheBlockHash :: "millis \<Rightarrow> int \<Rightarrow> block_no \<Rightarrow> string \<Rightarrow> indexer \<Rightarrow> indexer" where
  "cacheBlockHash now chain n h st = redis_set now (hash_key chain n) h (Some DAY_MS) st"

definition getStoredBlockHash :: "millis \<Rightarrow> int \<Rightarrow> block_no \<Rightarrow> indexer \<Rightarrow> string option \<times> indexer" where
  "getStoredBlockHash now chain n st =
     (let fallback =
        (case find (\<lambda>b. ib_chain b = chain \<and> ib_number b = n) (ix_blocks st) of
           None \<Rightarrow> (None, st)
         | Some b \<Rightarrow> if ib_hash b = [] then (None, st) else (Some (ib_hash b), cacheBlockHash now chain n (ib_hash b) st))
      in case rget now (ix_redis st) (hash_key chain n) of
           None \<Rightarrow> fallback
         | Some h \<Rightarrow> if h = [] then fallback else (Some h, st))"

definition publishReorgEvent :: "reorg_env \<Rightarrow> int \<Rightarrow> block_no \<Rightarrow> int \<Rightarrow> indexer \<Rightarrow> indexer" where
  "publishReorgEvent env chain from depth st = st\<lparr>ix_stream := ix_stream st @
     [(''chain:reorg'', [(''chainId'', show_int chain), (''reorgFromBlock'', show_int from), (''depth'', show_int depth),
        (''detectedAt'', re_iso env (re_now env))])]\<rparr>"

definition no_reorg :: reorg_result where
  "no_reorg = \<lparr>rr_detected = False, rr_depth = 0, rr_from = None\<rparr>"

definition deep_reorg :: "nat \<Rightarrow> block_no \<Rightarrow> int \<Rightarrow> reorg_result" where
  "deep_reorg maxDepth start depth = \<lparr>rr_detected = True, rr_depth = depth, rr_from = Some (start - int maxDepth + 1)\<rparr>"

text \<open>Step \<open>i\<close> of the walk, with \<open>k\<close> steps left; the depth counted so far is \<open>i\<close>.\<close>

fun reorg_walk :: "reorg_env \<Rightarrow> int \<Rightarrow> nat \<Rightarrow> block_no \<Rightarrow> nat \<Rightarrow> nat \<Rightarrow> indexer \<Rightarrow> (error + reorg_result) \<times> indexer" where
  "reorg_walk env chain maxDepth start i 0 st = (Inr (deep_reorg maxDepth start (int i)), st)"
| "reorg_walk env chain maxDepth start i (Suc k) st =
     (let n = start - int i in
      if n < 0 then (Inr (deep_reorg maxDepth start (int i)), st)
      else
     (case getStoredBlockHash (re_now env) chain n st of
        (None, st1) \<Rightarrow> (Inr (deep_reorg maxDepth start (int i)), st1)
      | (Some h, st1) \<Rightarrow>
         (case re_block env n of
            Inl e \<Rightarrow> (Inl e, st1)
          | Inr None \<Rightarrow> (Inr (deep_reorg maxDepth start (int i)), st1)
          | Inr (Some g) \<Rightarrow>
              if h = g then
                (if i > 0
                 then (Inr \<lparr>rr_detected = True, rr_depth = int i, rr_from = Some (n + 1)\<rparr>,
                       publishReorgEvent env chain (n + 1) (int i + 1) st1)
                 else (Inr no_reorg, st1))
              else reorg_walk env chain maxDepth start (Suc i) k st1)))"

definition checkForReorg :: "reorg_env \<Rightarrow> int \<Rightarrow> nat \<Rightarrow> indexer \<Rightarrow> (error + reorg_result) \<times> indexer" where
  "checkForReorg env chain maxDepth st =
     (case find_cursor chain st of
        None \<Rightarrow> (Inr no_reorg, st)
      | Some c \<Rightarrow>
         (case re_provider env of
            Inl e \<Rightarrow> (Inl e, st)
          | Inr _ \<Rightarrow> reorg_walk env chain maxDepth (sc_last c) 0 maxDepth st))"

section \<open>Roll-back\<close>

text \<open>A stream entry is a flat list of names and values; a later value of a name replaces an earlier one.\<close>

fun entry_fields :: "string list \<Rightarrow> (string \<times> string option) list" where
  "entry_fields (k # v # rest) = (k, Some v) # entry_fields rest"
| "entry_fields [k] = [(k, None)]"
| "entry_fields [] = []"

definition entry_number :: "string list \<Rightarrow> string \<Rightarrow> int option" where
  "entry_number entry k =
     (case map_of (rev (entry_fields entry)) k of Some (Some v) \<Rightarrow> parse_int v | _ \<Rightarrow> None)"

definition orphaned :: "int \<Rightarrow> block_no \<Rightarrow> indexed_event \<Rightarrow> bool" where
  "orphaned chain fork e \<longleftrightarrow> ie_chain e = chain \<and> ie_block e \<ge> fork"

definition named_addresses :: "indexed_event list \<Rightarrow> string list" where
  "named_addresses es = map (\<lambda>a. lower (the a)) (filter truthy (concat (map (\<lambda>e. [ie_to e, ie_from e]) es)))"

definition reverted_message :: "(millis \<Rightarrow> string) \<Rightarrow> millis \<Rightarrow> int \<Rightarrow> block_no \<Rightarrow> int option \<Rightarrow> indexed_event \<Rightarrow> string \<times> (string \<times> string) list" where
  "reverted_message to_iso now chain fork depth e =
     (let text = (\<lambda>a. case a of None \<Rightarrow> '''' | Some x \<Rightarrow> x);
          num = (\<lambda>a. case a of None \<Rightarrow> '''' | Some x \<Rightarrow> show_int x)
      in (''deposits:reverted'',
          [(''chainId'', show_int chain), (''txHash'', ie_tx e), (''blockNumber'', show_int (ie_block e)),
           (''fromAddress'', text (ie_from e)), (''toAddress'', text (ie_to e)), (''contractAddress'', ie_contract e),
           (''amount'', case ie_amount e of None \<Rightarrow> ''0'' | Some x \<Rightarrow> show_int x), (''clientId'', num (ie_client e)),
           (''projectId'', num (ie_project e)), (''walletId'', num (ie_wallet e)),
           (''eventType'', case ie_type e of NativeTransfer \<Rightarrow> ''native_transfer'' | Erc20Transfer \<Rightarrow> ''erc20_transfer''),
           (''reason'', ''chain_reorg''), (''reorgForkBlock'', show_int fork),
           (''reorgDepth'', case depth of None \<Rightarrow> ''NaN'' | Some d \<Rightarrow> show_int d), (''revertedAt'', to_iso now)]))"

definition forget_hashes :: "int \<Rightarrow> block_no \<Rightarrow> int option \<Rightarrow> indexer \<Rightarrow> indexer" where
  "forget_hashes chain fork depth st =
     (case depth of None \<Rightarrow> st
      | Some d \<Rightarrow> st\<lparr>ix_redis := fold (\<lambda>n s. rdel (hash_key chain n) s) [fork..fork + d] (ix_redis st)\<rparr>)"

definition handleReorgEvent :: "(millis \<Rightarrow> string) \<Rightarrow> millis \<Rightarrow> string list \<Rightarrow> indexer \<Rightarrow> (error + unit) \<times> indexer" where
  "handleReorgEvent to_iso now entry st =
     (case (entry_number entry ''chainId'', entry_number entry ''reorgFromBlock'') of
        (Some chain, Some fork) \<Rightarrow>
          if chain = 0 \<or> fork = 0 then (Inr (), st)
          else
            let depth = entry_number entry ''depth'';
                gone = filter (orphaned chain fork) (ix_events st);
                affected = named_addresses gone;
                doomed = (\<lambda>r. mb_chain r = chain \<and> lower (mb_address r) \<in> set affected);
                st1 = st\<lparr>ix_events := filter (\<lambda>e. \<not> orphaned chain fork e) (ix_events st)\<rparr>;
                st2 = st1\<lparr>ix_blocks := filter (\<lambda>b. \<not> (ib_chain b = chain \<and> ib_number b \<ge> fork)) (ix_blocks st1)\<rparr>;
                st3 = st2\<lparr>ix_balances := filter (\<lambda>r. \<not> doomed r) (ix_balances st2)\<rparr>;
                st4 = setWatermark now chain (fork - 1) st3;
                st5 = st4\<lparr>ix_cursors := update_where (\<lambda>c. sc_chain c = chain) (\<lambda>c. c\<lparr>sc_last := fork - 1\<rparr>) (ix_cursors st4)\<rparr>;
                st6 = forget_hashes chain fork depth st5;
                st7 = st6\<lparr>ix_stream := ix_stream st6 @ map (reverted_message to_iso now chain fork depth) gone\<rparr>
            in (case depth of
                  None \<Rightarrow> (Inl (InternalError ''depth''), st7)
                | Some d \<Rightarrow> (Inr (), st7\<lparr>ix_reorgs := ix_reorgs st7 @
                    [\<lparr>rl_chain = chain, rl_block = fork, rl_depth = d, rl_events = length gone,
                      rl_balances = count_where doomed (ix_balances st)\<rparr>]\<rparr>))
      | _ \<Rightarrow> (Inr (), st))"

text \<open>The entries of one read of the stream: an entry that was handled is acknowledged, one that failed
  is logged and stays pending.\<close>

fun consume_entries :: "(millis \<Rightarrow> string) \<Rightarrow> millis \<Rightarrow> (string \<times> string list) list \<Rightarrow> indexer \<Rightarrow> string list \<times> indexer" where
  "consume_entries to_iso now [] st = ([], st)"
| "consume_entries to_iso now ((i, entry) # rest) st =
     (case handleReorgEvent to_iso now entry st of
        (Inl _, st1) \<Rightarrow> consume_entries to_iso now rest st1
      | (Inr _, st1) \<Rightarrow> (case consume_entries to_iso now rest st1 of (acks, st2) \<Rightarrow> (i # acks, st2)))"

section \<open>What a roll-back leaves\<close>

lemma fold_rdel: "rget now (fold (\<lambda>n s. rdel (hash_key chain n) s) ns s) k =
    (if k \<in> hash_key chain ` set ns then None else rget now s k)"
  by (induction ns arbitrary: s) (auto simp: kv.get_del)

lemma hash_key_inject [simp]: "hash_key c n = hash_key c m \<longleftrightarrow> n = m"
  by (simp add: hash_key_def)

lemma watermark_not_hash [simp]: "watermarkKey c \<noteq> hash_key d n" "hash_key d n \<noteq> watermarkKey c"
  by (simp_all add: watermarkKey_def hash_key_def)

definition rolled_back :: "int \<Rightarrow> block_no \<Rightarrow> int \<Rightarrow> indexer \<Rightarrow> indexer \<Rightarrow> bool" where
  "rolled_back chain fork depth st st' \<longleftrightarrow>
     ix_events st' = filter (\<lambda>e. \<not> orphaned chain fork e) (ix_events st)
   \<and> ix_blocks st' = filter (\<lambda>b. \<not> (ib_chain b = chain \<and> ib_number b \<ge> fork)) (ix_blocks st)
   \<and> ix_balances st' = filter (\<lambda>r. \<not> (mb_chain r = chain
        \<and> lower (mb_address r) \<in> set (named_addresses (filter (orphaned chain fork) (ix_events st))))) (ix_balances st)
   \<and> ix_cursors st' = update_where (\<lambda>c. sc_chain c = chain) (\<lambda>c. c\<lparr>sc_last := fork - 1\<rparr>) (ix_cursors st)
   \<and> length (ix_reorgs st') = Suc (length (ix_reorgs st))"

lemma handleReorgEvent_rolls_back:
  assumes "entry_number entry ''chainId'' = Some chain" "entry_number entry ''reorgFromBlock'' = Some fork"
    "entry_number entry ''depth'' = Some depth" "chain \<noteq> 0" "fork \<noteq> 0"
    and "handleReorgEvent to_iso now entry st = (r, st')"
  shows "r = Inr ()" "rolled_back chain fork depth st st'" "getWatermark later chain st' = Inr (Some (fork - 1))"
    "ix_stream st' = ix_stream st
       @ map (reverted_message to_iso now chain fork (Some depth)) (filter (orphaned chain fork) (ix_events st))"
    "n \<in> {fork..fork + depth} \<Longrightarrow> rget later (ix_redis st') (hash_key chain n) = None"
proof -
  have all: "r = Inr () \<and> rolled_back chain fork depth st st' \<and> getWatermark later chain st' = Inr (Some (fork - 1))
      \<and> ix_stream st' = ix_stream st
           @ map (reverted_message to_iso now chain fork (Some depth)) (filter (orphaned chain fork) (ix_events st))
      \<and> (n \<in> {fork..fork + depth} \<longrightarrow> rget later (ix_redis st') (hash_key chain n) = None)"
    using assms
    by (auto simp: handleReorgEvent_def Let_def rolled_back_def forget_hashes_def count_where_def setWatermark_def
        redis_set_def getWatermark_def fold_rdel kv.get_put image_iff)
  then show "r = Inr ()" "rolled_back chain fork depth st st'" "getWatermark later chain st' = Inr (Some (fork - 1))"
    "ix_stream st' = ix_stream st
       @ map (reverted_message to_iso now chain fork (Some depth)) (filter (orphaned chain fork) (ix_events st))"
    "n \<in> {fork..fork + depth} \<Longrightarrow> rget later (ix_redis st') (hash_key chain n) = None"
    by blast+
qed

section \<open>From detection to roll-back\<close>

text \<open>The stored hash of a block, without the caching of the look-up.\<close>

definition stored_hash :: "millis \<Rightarrow> int \<Rightarrow> indexer \<Rightarrow> block_no \<Rightarrow> string option" where
  "stored_hash now chain st n = fst (getStoredBlockHash now chain n st)"

definition cached_only :: "indexer \<Rightarrow> indexer \<Rightarrow> bool" where
  "cached_only st st' \<longleftrightarrow> (\<exists>s. st' = st\<lparr>ix_redis := s\<rparr>)"

lemma cached_only_refl [simp]: "cached_only st st"
  unfolding cached_only_def by (intro exI [of _ "ix_redis st"]) simp

lemma cached_only_trans: "cached_only a b \<Longrightarrow> cached_only b c \<Longrightarrow> cached_only a c"
  by (auto simp: cached_only_def)

lemma cached_only_fields: "cached_only st st' \<Longrightarrow> ix_stream st' = ix_stream st \<and> ix_events st' = ix_events st \<and> ix_blocks st' = ix_blocks st
     \<and> ix_balances st' = ix_balances st \<and> ix_cursors st' = ix_cursors st \<and> ix_reorgs st' = ix_reorgs st"
  by (auto simp: cached_only_def)

lemma getStoredBlockHash_caches: "cached_only st (snd (getStoredBlockHash now chain n st))"
proof -
  have "cached_only st (cacheBlockHash now chain n h st)" for h
    unfolding cached_only_def cacheBlockHash_def redis_set_def by blast
  then show ?thesis
    by (simp add: getStoredBlockHash_def Let_def split: option.split)
qed

lemma stored_hash_kept: "stored_hash now chain (snd (getStoredBlockHash now chain n st)) m = stored_hash now chain st m"
  by (cases "m = n")
    (auto simp: stored_hash_def getStoredBlockHash_def cacheBlockHash_def Let_def kv.get_put DAY_MS_def split: option.splits)

definition flat :: "(string \<times> string) list \<Rightarrow> string list" where
  "flat kvs = concat (map (\<lambda>(k, v). [k, v]) kvs)"

lemma entry_fields_flat: "entry_fields (flat kvs) = map (\<lambda>(k, v). (k, Some v)) kvs"
  by (induction kvs) (auto simp: flat_def)

definition forked_at :: "reorg_env \<Rightarrow> int \<Rightarrow> indexer \<Rightarrow> block_no \<Rightarrow> bool" where
  "forked_at env chain st n \<longleftrightarrow>
     (case (stored_hash (re_now env) chain st n, re_block env n) of (Some h, Inr (Some g)) \<Rightarrow> h \<noteq> g | _ \<Rightarrow> False)"

lemma reorg_walk_finds:
  assumes "\<forall>m. i \<le> m \<and> m < j \<longrightarrow> forked_at env chain st (start - int m)"
    and "stored_hash (re_now env) chain st (start - int j) = Some h" and "re_block env (start - int j) = Inr (Some h)"
    and "i \<le> j" "0 < j" "j < i + k" "int j \<le> start"
  shows "\<exists>st1. cached_only st st1 \<and>
    reorg_walk env chain maxDepth start i k st = (Inr \<lparr>rr_detected = True, rr_depth = int j, rr_from = Some (start - int j + 1)\<rparr>,
       publishReorgEvent env chain (start - int j + 1) (int j + 1) st1)"
  using assms
proof (induction k arbitrary: i st)
  case (Suc k)
  obtain r st1 where s: "getStoredBlockHash (re_now env) chain (start - int i) st = (r, st1)"
    by fastforce
  have c: "cached_only st st1"
    using getStoredBlockHash_caches [of st "re_now env" chain "start - int i"] by (simp add: s)
  have keep: "stored_hash (re_now env) chain st1 = stored_hash (re_now env) chain st"
    using stored_hash_kept [of "re_now env" chain "start - int i" st] by (intro ext) (simp add: s)
  have r: "r = stored_hash (re_now env) chain st (start - int i)"
    by (simp add: stored_hash_def s)
  show ?case
  proof (cases "i = j")
    case True
    with Suc.prems(2,3,5,7) s r show ?thesis
      by (intro exI [of _ st1] conjI c) (simp add: Let_def)
  next
    case False
    then have "i < j" using Suc.prems(4) by simp
    with Suc.prems(1) have "forked_at env chain st (start - int i)"
      by blast
    then obtain a g where ag: "r = Some a" "re_block env (start - int i) = Inr (Some g)" "a \<noteq> g"
      by (auto simp: forked_at_def r split: option.splits sum.splits)
    have step: "reorg_walk env chain maxDepth start i (Suc k) st = reorg_walk env chain maxDepth start (Suc i) k st1"
      using s ag \<open>i < j\<close> Suc.prems(7) by (simp add: Let_def)
    have "\<forall>m. Suc i \<le> m \<and> m < j \<longrightarrow> forked_at env chain st1 (start - int m)"
      using Suc.prems(1) by (simp add: forked_at_def keep)
    then obtain st2 where "cached_only st1 st2"
      "reorg_walk env chain maxDepth start (Suc i) k st1 = (Inr \<lparr>rr_detected = True, rr_depth = int j, rr_from = Some (start - int j + 1)\<rparr>,
         publishReorgEvent env chain (start - int j + 1) (int j + 1) st2)"
      using Suc.IH [of "Suc i" st1] Suc.prems(2-7) \<open>i < j\<close> keep by auto
    with cached_only_trans [OF c] show ?thesis
      unfolding step by blast
  qed
qed simp

lemma named_addresses_iff:
  "a \<in> set (named_addresses es) \<longleftrightarrow>
     (\<exists>e \<in> set es. \<exists>x. x \<noteq> [] \<and> (ie_to e = Some x \<or> ie_from e = Some x) \<and> lower x = a)"
proof
  assume "a \<in> set (named_addresses es)"
  then obtain e y where "e \<in> set es" "y \<in> {ie_to e, ie_from e}" "truthy y" "a = lower (the y)"
    by (auto simp: named_addresses_def)
  then show "\<exists>e \<in> set es. \<exists>x. x \<noteq> [] \<and> (ie_to e = Some x \<or> ie_from e = Some x) \<and> lower x = a"
    by (cases y) (auto simp: truthy_def intro!: bexI [of _ e])
qed (force simp: named_addresses_def truthy_def)


section \<open>Balances after a roll-back\<close>

lemma named_address: "e \<in> set es \<Longrightarrow> truthy a \<Longrightarrow> a \<in> {ie_to e, ie_from e} \<Longrightarrow> lower (the a) \<in> set (named_addresses es)"
  by (force simp: named_addresses_def)

text \<open>The roll-back deletes the whole balance of an address named by an orphaned event and sets
  the watermark just below the fork, so the events before the fork are not read again: right after a
  roll-back and any pass of the materialiser the balance of such an address is zero, whatever the
  amounts of the events that were kept.\<close>

lemma rollback_forgets_the_balance_before_the_fork:
  assumes "entry_number entry ''chainId'' = Some chain" "entry_number entry ''reorgFromBlock'' = Some fork"
    "entry_number entry ''depth'' = Some depth" "chain \<noteq> 0" "fork \<noteq> 0"
    and "a \<in> set (named_addresses (filter (orphaned chain fork) (ix_events st)))"
  shows "total_balance chain a t (snd (materializeForChain later chain final (snd (handleReorgEvent to_iso now entry st)))) = 0"
proof -
  obtain r st' where h: "handleReorgEvent to_iso now entry st = (r, st')"
    by fastforce
  note rolled = handleReorgEvent_rolls_back [OF assms(1-5) h]
  have "pending_events chain (Some (fork - 1)) final (ix_events st') = []"
    using rolled(2) by (auto simp: rolled_back_def pending_events_def orphaned_def filter_empty_conv)
  then have "ix_balances (snd (materializeForChain later chain final st')) = ix_balances st'"
    by (rule materialize_idle [OF rolled(3)])
  moreover have "total_balance chain a t st' = 0"
  proof -
    have "map (\<lambda>r. if mb_chain r = chain \<and> lower (mb_address r) = a \<and> mb_token r = t then mb_balance r else 0) (ix_balances st')
        = map (\<lambda>_. 0) (ix_balances st')"
      using rolled(2) assms(6) by (auto simp: rolled_back_def)
    then show ?thesis
      unfolding total_balance_def by (simp only: sum_list_0)
  qed
  ultimately show ?thesis
    by (simp add: h total_balance_def)
qed

section \<open>Concrete runs\<close>

definition forked_ledger :: indexer where
  "forked_ledger = (sample_ledger (Some 0))\<lparr>ix_cursors := [\<lparr>sc_chain = 1, sc_last = 5, sc_finalized = 0\<rparr>],
     ix_redis := rset 0 (hash_key 1 4) ''h4'' (Some DAY_MS) Map.empty,
     ix_balances := [\<lparr>mb_chain = 1, mb_address = ''0xa'', mb_token = Some 4, mb_client = 1, mb_project = 2, mb_wallet = Some 3,
        mb_balance = 5, mb_block = 5\<rparr>]\<rparr>"

definition fork_env :: reorg_env where
  "fork_env = \<lparr>re_now = 1, re_iso = show_int, re_provider = Inr (),
     re_block = (\<lambda>n. Inr (Some (if n = 5 then ''g5'' else if n = 4 then ''h4'' else ''h'')))\<rparr>"


lemma rollback_forgets_the_balance_before_the_fork_witness:
  "total_balance 1 ''0xa'' (Some 4)
     (snd (materializeForChain 0 1 9 (snd (handleReorgEvent show_int 0 [''chainId'', ''1'', ''reorgFromBlock'', ''5'', ''depth'', ''2''] forked_ledger)))) = 0
   \<and> sum_list (map (flow ''0xa'' (Some 4))
      (ix_events (snd (handleReorgEvent show_int 0 [''chainId'', ''1'', ''reorgFromBlock'', ''5'', ''depth'', ''2''] forked_ledger)))) = 7"
proof -
  let ?entry = "[''chainId'', ''1'', ''reorgFromBlock'', ''5'', ''depth'', ''2'']"
  have "entry_number ?entry ''chainId'' = Some 1" "entry_number ?entry ''reorgFromBlock'' = Some 5"
    "entry_number ?entry ''depth'' = Some 2" "''0xa'' \<in> set (named_addresses (filter (orphaned 1 5) (ix_events forked_ledger)))"
    by code_simp+
  then have "total_balance 1 ''0xa'' (Some 4) (snd (materializeForChain 0 1 9 (snd (handleReorgEvent show_int 0 ?entry forked_ledger)))) = 0"
    by (intro rollback_forgets_the_balance_before_the_fork) simp_all
  moreover have "sum_list (map (flow ''0xa'' (Some 4)) (ix_events (snd (handleReorgEvent show_int 0 ?entry forked_ledger)))) = 7"
    by code_simp
  ultimately show ?thesis
    by blast
qed

end
