(* ===== verification/KeyVault.thy ===== *)
theory KeyVault
  imports Prelude "HOL-Library.Word"
begin

text \<open>
  The base of the key vault (services/key-vault-service): byte buffers, the envelope encryption
  of encryption/encryption.service.ts, the tables of the vault's Prisma schema and the audit log
  of audit/audit.service.ts. PBKDF2 and AES-256-GCM are the fields of \<open>aead\<close>; the random bytes one
  encryption draws are a value of \<open>draws\<close>. A password or a text is a byte string, so its UTF-8
  encoding is the list of its characters' codes. Zeroing of buffers has no effect on any value
  the code uses later and is left out.
\<close>

section \<open>Buffers\<close>

type_synonym bytes = "8 word list"

definition text_bytes :: "string \<Rightarrow> bytes" where
  "text_bytes s = map (\<lambda>c. word_of_nat (of_char c)) s"

definition bytes_text :: "bytes \<Rightarrow> string" where
  "bytes_text bs = map (\<lambda>b. char_of (unat b)) bs"

lemma bytes_text_bytes [simp]: "bytes_text (text_bytes s) = s"
  by (simp add: bytes_text_def text_bytes_def comp_def unat_of_nat)

definition hex_digit :: "nat \<Rightarrow> char" where
  "hex_digit d = (if d < 10 then char_of (48 + d) else char_of (87 + d))"

text \<open>\<open>buf.toString('hex')\<close> and \<open>Buffer.from(s, 'hex')\<close>, which stops at the first text that is not hexadecimal.\<close>

definition bytes_hex :: "bytes \<Rightarrow> string" where
  "bytes_hex bs = concat (map (\<lambda>b. [hex_digit (unat b div 16), hex_digit (unat b mod 16)]) bs)"

fun hex_bytes :: "string \<Rightarrow> bytes" where
  "hex_bytes (a # b # s) =
     (case (hex_val a, hex_val b) of
        (Some x, Some y) \<Rightarrow> word_of_nat (16 * x + y) # hex_bytes s
      | _ \<Rightarrow> [])"
| "hex_bytes _ = []"

lemma hex_val_digit [simp]: "d < 16 \<Longrightarrow> hex_val (hex_digit d) = Some d"
  by (auto simp: hex_val_def hex_digit_def Let_def)

lemma byte_nibbles: "unat (b :: 8 word) div 16 < 16"
  using unsigned_less [of b, where 'a = nat] by simp

lemma hex_bytes_hex [simp]: "hex_bytes (bytes_hex bs) = bs"
proof (induction bs)
  case (Cons b bs)
  have "16 * (unat b div 16) + unat b mod 16 = unat b" by simp
  with Cons show ?case
    by (simp add: bytes_hex_def byte_nibbles)
qed (simp add: bytes_hex_def)

lemma length_bytes_hex [simp]: "length (bytes_hex bs) = 2 * length bs"
  by (induction bs) (simp_all add: bytes_hex_def)

text \<open>\<open>buf.subarray(start, end)\<close>: negative positions count from the end, the others stop there.\<close>

definition js_index :: "int \<Rightarrow> 'a list \<Rightarrow> nat" where
  "js_index i xs = (if i < 0 then nat (int (length xs) + i) else min (nat i) (length xs))"

definition subarray :: "int \<Rightarrow> int \<Rightarrow> 'a list \<Rightarrow> 'a list" where
  "subarray s e xs = take (js_index e xs - js_index s xs) (drop (js_index s xs) xs)"

lemma subarray_prefix: "subarray 0 (int (length xs)) (xs @ ys) = xs"
  by (simp add: subarray_def js_index_def)

lemma subarray_middle:
  "subarray (int (length xs)) (int (length xs + length ys)) (xs @ ys @ zs) = ys"
  by (simp add: subarray_def js_index_def)

lemma subarray_suffix:
  "n = length (xs @ ys) \<Longrightarrow> subarray (int (length xs)) (int n) (xs @ ys) = ys"
  by (simp add: subarray_def js_index_def)

section \<open>Envelope encryption\<close>

record aead =
  pbkdf2 :: "string \<Rightarrow> bytes \<Rightarrow> int \<Rightarrow> bytes"
  gcm_seal :: "bytes \<Rightarrow> bytes \<Rightarrow> bytes \<Rightarrow> bytes \<Rightarrow> bytes \<times> bytes"
  gcm_open :: "bytes \<Rightarrow> bytes \<Rightarrow> bytes \<Rightarrow> bytes \<Rightarrow> bytes \<Rightarrow> error + bytes"

record vault_config =
  masterPassword :: string
  kdfIterations :: int

record draws =
  d_dek :: bytes
  d_salt :: bytes
  d_iv :: bytes
  d_dekIv :: bytes

record payload =
  ep_ciphertext :: bytes
  ep_iv :: bytes
  ep_authTag :: bytes
  ep_salt :: bytes
  ep_encryptedDek :: bytes
  ep_keyVersion :: "int option"

definition deriveKEKFromPassword :: "aead \<Rightarrow> vault_config \<Rightarrow> string \<Rightarrow> bytes \<Rightarrow> int option \<Rightarrow> bytes" where
  "deriveKEKFromPassword cr cfg pw salt iters =
     pbkdf2 cr pw salt (case iters of None \<Rightarrow> kdfIterations cfg | Some n \<Rightarrow> n)"

definition deriveKEK :: "aead \<Rightarrow> vault_config \<Rightarrow> bytes \<Rightarrow> int option \<Rightarrow> bytes" where
  "deriveKEK cr cfg salt iters =
     pbkdf2 cr (masterPassword cfg) salt (case iters of None \<Rightarrow> kdfIterations cfg | Some n \<Rightarrow> n)"

text \<open>An absent or empty additional authenticated datum is not set at all.\<close>

definition aad_bytes :: "string option \<Rightarrow> bytes" where
  "aad_bytes aad = (case aad of None \<Rightarrow> [] | Some s \<Rightarrow> text_bytes s)"

definition wrap_dek :: "aead \<Rightarrow> bytes \<Rightarrow> draws \<Rightarrow> bytes" where
  "wrap_dek cr kek d =
     (let (ct, tag) = gcm_seal cr kek (d_dekIv d) [] (d_dek d) in d_dekIv d @ ct @ tag)"

definition encrypt :: "aead \<Rightarrow> vault_config \<Rightarrow> draws \<Rightarrow> bytes \<Rightarrow> string option \<Rightarrow> payload" where
  "encrypt cr cfg d plaintext aad =
     (let kek = deriveKEK cr cfg (d_salt d) None;
          (ct, tag) = gcm_seal cr (d_dek d) (d_iv d) (aad_bytes aad) plaintext
      in \<lparr>ep_ciphertext = ct, ep_iv = d_iv d, ep_authTag = tag, ep_salt = d_salt d,
          ep_encryptedDek = wrap_dek cr kek d, ep_keyVersion = None\<rparr>)"

definition encryptWithPassword :: "aead \<Rightarrow> vault_config \<Rightarrow> draws \<Rightarrow> bytes \<Rightarrow> string \<Rightarrow> payload" where
  "encryptWithPassword cr cfg d plaintext pw =
     (let kek = deriveKEKFromPassword cr cfg pw (d_salt d) None;
          (ct, tag) = gcm_seal cr (d_dek d) (d_iv d) [] plaintext
      in \<lparr>ep_ciphertext = ct, ep_iv = d_iv d, ep_authTag = tag, ep_salt = d_salt d,
          ep_encryptedDek = wrap_dek cr kek d, ep_keyVersion = None\<rparr>)"

text \<open>The wrapped key is \<open>[iv | ciphertext | tag]\<close>; 64 bytes mean an old record with an IV of 16 bytes.\<close>

definition unwrap_dek :: "aead \<Rightarrow> bytes \<Rightarrow> bytes \<Rightarrow> error + bytes" where
  "unwrap_dek cr kek e =
     (let n = int (length e);
          ivLen = (if n = 64 then 16 else 12)
      in gcm_open cr kek (subarray 0 ivLen e) [] (subarray (n - 16) n e) (subarray ivLen (n - 16) e))"

definition decrypt ::
    "aead \<Rightarrow> vault_config \<Rightarrow> payload \<Rightarrow> int option \<Rightarrow> string option \<Rightarrow> error + bytes" where
  "decrypt cr cfg p iters aad =
     (case unwrap_dek cr (deriveKEK cr cfg (ep_salt p) iters) (ep_encryptedDek p) of
        Inl e \<Rightarrow> Inl e
      | Inr dek \<Rightarrow> gcm_open cr dek (ep_iv p) (aad_bytes aad) (ep_authTag p) (ep_ciphertext p))"

definition decryptWithPassword ::
    "aead \<Rightarrow> vault_config \<Rightarrow> payload \<Rightarrow> string \<Rightarrow> int option \<Rightarrow> error + bytes" where
  "decryptWithPassword cr cfg p pw iters =
     (case unwrap_dek cr (deriveKEKFromPassword cr cfg pw (ep_salt p) iters) (ep_encryptedDek p) of
        Inl e \<Rightarrow> Inl e
      | Inr dek \<Rightarrow> gcm_open cr dek (ep_iv p) [] (ep_authTag p) (ep_ciphertext p))"

definition rotateEncryption ::
    "aead \<Rightarrow> vault_config \<Rightarrow> draws \<Rightarrow> payload \<Rightarrow> string \<Rightarrow> string \<Rightarrow> int \<Rightarrow> int option \<Rightarrow> error + payload" where
  "rotateEncryption cr cfg d p old new version iters =
     (case decryptWithPassword cr cfg p old iters of
        Inl e \<Rightarrow> Inl e
      | Inr plaintext \<Rightarrow>
          Inr ((encryptWithPassword cr cfg d plaintext new)\<lparr>ep_keyVersion := Some (version + 1)\<rparr>))"

definition encryptString :: "aead \<Rightarrow> vault_config \<Rightarrow> draws \<Rightarrow> string \<Rightarrow> string option \<Rightarrow> payload" where
  "encryptString cr cfg d s aad = encrypt cr cfg d (text_bytes s) aad"

definition decryptToString ::
    "aead \<Rightarrow> vault_config \<Rightarrow> payload \<Rightarrow> int option \<Rightarrow> string option \<Rightarrow> error + string" where
  "decryptToString cr cfg p iters aad = map_sum id bytes_text (decrypt cr cfg p iters aad)"

section \<open>What the encryption promises\<close>

text \<open>
  What the code relies on of Node's cryptography: PBKDF2 yields the 32 bytes it is asked for; under
  a 32-byte key AES-GCM keeps the length, makes a 16-byte tag and opens what it sealed.
  \<open>draws_ok\<close> says that \<open>randomBytes(n)\<close> yields \<open>n\<close> bytes.
\<close>

definition aead_ok :: "aead \<Rightarrow> bool" where
  "aead_ok cr \<longleftrightarrow>
     (\<forall>pw salt n. length (pbkdf2 cr pw salt n) = 32) \<and>
     (\<forall>key iv aad pt. length key = 32 \<longrightarrow>
        length (fst (gcm_seal cr key iv aad pt)) = length pt \<and>
        length (snd (gcm_seal cr key iv aad pt)) = 16 \<and>
        gcm_open cr key iv aad (snd (gcm_seal cr key iv aad pt)) (fst (gcm_seal cr key iv aad pt)) = Inr pt)"

definition draws_ok :: "draws \<Rightarrow> bool" where
  "draws_ok d \<longleftrightarrow> length (d_dek d) = 32 \<and> length (d_salt d) = 32 \<and> length (d_iv d) = 12
     \<and> length (d_dekIv d) = 12"

text \<open>
  The interface the rest of the vault uses: a payload sealed under a key opens under that key to
  what was sealed. Rotation opens under one key and seals under another.
\<close>

locale envelope =
  fixes good :: "'c \<Rightarrow> bool"
    and fresh :: "'r \<Rightarrow> bool"
    and seal :: "'c \<Rightarrow> 'r \<Rightarrow> 'a \<Rightarrow> 'k \<Rightarrow> 'p"
    and unseal :: "'c \<Rightarrow> 'p \<Rightarrow> 'k \<Rightarrow> error + 'a"
  assumes unseal_seal: "good c \<Longrightarrow> fresh r \<Longrightarrow> unseal c (seal c r x k) k = Inr x"
begin

lemma rewrap: "good c \<Longrightarrow> fresh r \<Longrightarrow> unseal c p k = Inr x \<Longrightarrow>
    unseal c (case unseal c p k of Inl e \<Rightarrow> p | Inr y \<Rightarrow> seal c r y k') k' = unseal c p k"
  by (simp add: unseal_seal)

lemma map_unseal_seal:
  "good c \<Longrightarrow> \<forall>r \<in> set rs. fresh r \<Longrightarrow> length rs = length xs \<Longrightarrow>
     map (\<lambda>p. unseal c p k) (map2 (\<lambda>r x. seal c r x k) rs xs) = map Inr xs"
  by (induction rs xs rule: list_induct2') (simp_all add: unseal_seal)

end

lemma unwrap_wrap:
  assumes "aead_ok cr" "draws_ok d" "length kek = 32"
  shows "unwrap_dek cr kek (wrap_dek cr kek d) = Inr (d_dek d)"
proof -
  obtain ct tag where s: "gcm_seal cr kek (d_dekIv d) [] (d_dek d) = (ct, tag)"
    by (cases "gcm_seal cr kek (d_dekIv d) [] (d_dek d)")
  have o: "gcm_open cr kek (d_dekIv d) [] tag ct = Inr (d_dek d)"
    and l: "length ct = 32" "length tag = 16"
    using assms s unfolding aead_ok_def draws_ok_def by (metis fst_conv snd_conv)+
  have iv: "length (d_dekIv d) = 12" using assms by (simp add: draws_ok_def)
  have e: "length (d_dekIv d @ ct @ tag) = 60" using iv l by simp
  have "subarray 0 12 (d_dekIv d @ ct @ tag) = d_dekIv d"
    using subarray_prefix [of "d_dekIv d" "ct @ tag"] iv by simp
  moreover have "subarray 12 44 (d_dekIv d @ ct @ tag) = ct"
    using subarray_middle [of "d_dekIv d" ct tag] iv l by simp
  moreover have "subarray 44 60 (d_dekIv d @ ct @ tag) = tag"
    using subarray_suffix [of 60 "d_dekIv d @ ct" tag] iv l by simp
  ultimately show ?thesis
    using e o by (simp add: unwrap_dek_def wrap_dek_def s Let_def)
qed

lemma seal_fields [simp]:
  "ep_salt (encrypt cr cfg d x aad) = d_salt d" "ep_iv (encrypt cr cfg d x aad) = d_iv d"
  "ep_encryptedDek (encrypt cr cfg d x aad) = wrap_dek cr (deriveKEK cr cfg (d_salt d) None) d"
  "ep_ciphertext (encrypt cr cfg d x aad) = fst (gcm_seal cr (d_dek d) (d_iv d) (aad_bytes aad) x)"
  "ep_authTag (encrypt cr cfg d x aad) = snd (gcm_seal cr (d_dek d) (d_iv d) (aad_bytes aad) x)"
  by (simp_all add: encrypt_def Let_def case_prod_beta)

lemma encryptWithPassword_encrypt:
  "encryptWithPassword cr cfg d x pw = encrypt cr (cfg\<lparr>masterPassword := pw\<rparr>) d x None"
  and decryptWithPassword_decrypt:
  "decryptWithPassword cr cfg p pw iters = decrypt cr (cfg\<lparr>masterPassword := pw\<rparr>) p iters None"
  by (simp_all add: encryptWithPassword_def encrypt_def deriveKEK_def deriveKEKFromPassword_def
      decryptWithPassword_def decrypt_def aad_bytes_def cong: sum.case_cong option.case_cong)

lemma decrypt_encrypt_same_count:
  assumes "aead_ok cr" "draws_ok d" "iters = None \<or> iters = Some (kdfIterations cfg)"
  shows "decrypt cr cfg (encrypt cr cfg d x aad) iters aad = Inr x"
proof -
  have k: "deriveKEK cr cfg (d_salt d) iters = deriveKEK cr cfg (d_salt d) None"
    using assms by (auto simp: deriveKEK_def)
  have l: "length (deriveKEK cr cfg (d_salt d) None) = 32" "length (d_dek d) = 32"
    using assms by (auto simp: aead_ok_def deriveKEK_def draws_ok_def)
  show ?thesis
    unfolding decrypt_def seal_fields k unwrap_wrap [OF assms(1,2) l(1)] sum.case
    using assms(1) l(2) by (simp add: aead_ok_def)
qed

text \<open>Both ways of sealing meet the interface: under the configured and under a given password.\<close>

interpretation configured: envelope aead_ok draws_ok
    "\<lambda>cr d x (k :: vault_config \<times> string option). encrypt cr (fst k) d x (snd k)"
    "\<lambda>cr p k. decrypt cr (fst k) p None (snd k)"
  by unfold_locales (simp add: decrypt_encrypt_same_count)

interpretation given: envelope aead_ok draws_ok
    "\<lambda>cr d x (k :: vault_config \<times> string). encryptWithPassword cr (fst k) d x (snd k)"
    "\<lambda>cr p k. decryptWithPassword cr (fst k) p (snd k) None"
  by unfold_locales
    (simp add: encryptWithPassword_encrypt decryptWithPassword_decrypt decrypt_encrypt_same_count)

lemma decryptToString_encryptString:
  assumes "aead_ok cr" "draws_ok d" "iters = None \<or> iters = Some (kdfIterations cfg)"
  shows "decryptToString cr cfg (encryptString cr cfg d s aad) iters aad = Inr s"
  using decrypt_encrypt_same_count [OF assms]
  by (simp add: decryptToString_def encryptString_def)

lemma keyVersion_irrelevant [simp]:
  "decrypt cr cfg (p\<lparr>ep_keyVersion := v\<rparr>) iters aad = decrypt cr cfg p iters aad"
  "decryptWithPassword cr cfg (p\<lparr>ep_keyVersion := v\<rparr>) pw iters = decryptWithPassword cr cfg p pw iters"
  by (simp_all add: decrypt_def decryptWithPassword_def cong: sum.case_cong)

section \<open>Tables\<close>

text \<open>
  The columns every encrypted table shares, and the four tables. \<open>key_version\<close> is the column that
  database/039-key-version.sql adds; it is not in the Prisma schema.
\<close>

datatype key_type = KPlatform | KClient | KBackup | KGasTank

fun key_type_text :: "key_type \<Rightarrow> string" where
  "key_type_text KPlatform = ''platform''"
| "key_type_text KClient = ''client''"
| "key_type_text KBackup = ''backup''"
| "key_type_text KGasTank = ''gas_tank''"

lemma key_type_text_inject [simp]: "key_type_text a = key_type_text b \<longleftrightarrow> a = b"
  by (cases a; cases b) simp_all

record sealed =
  row_id :: ident
  row_ciphertext :: bytes
  row_dek :: bytes
  row_iv :: bytes
  row_tag :: bytes
  row_salt :: bytes
  key_version :: int

record master_seed = sealed +
  seedId :: string
  ms_iterations :: int
  ms_created :: millis

record project_seed = sealed +
  ps_project :: ident
  ps_iterations :: int
  seedShownToClient :: bool
  shamirSplitDone :: bool
  ps_created :: millis

record derived_key = sealed +
  dk_client :: ident
  dk_project :: "ident option"
  dk_type :: key_type
  chainScope :: string
  publicKey :: string
  dk_address :: string
  derivationPath :: string
  isActive :: bool
  lastUsedAt :: "millis option"
  signCount :: int
  dk_created :: millis

record shamir_share = sealed +
  sh_client :: ident
  sh_project :: "ident option"
  shareIndex :: int
  custodian :: string
  isDistributed :: bool
  distributedAt :: "millis option"
  sh_created :: millis

record audit_entry =
  au_operation :: string
  au_client :: "ident option"
  au_type :: "string option"
  au_address :: "string option"
  au_tx :: "string option"
  au_chain :: "int option"
  au_requestedBy :: string
  au_metadata :: "(string \<times> string) list"

record vault_db =
  projects :: "ident list"
  master_seeds :: "master_seed list"
  project_seeds :: "project_seed list"
  derived_keys :: "derived_key list"
  shamir_shares :: "shamir_share list"
  audits :: "audit_entry list"
  next_seed :: ident
  next_project_seed :: ident
  next_key :: ident
  next_share :: ident

definition payload_of :: "'a sealed_scheme \<Rightarrow> payload" where
  "payload_of r =
     \<lparr>ep_ciphertext = row_ciphertext r, ep_iv = row_iv r, ep_authTag = row_tag r,
      ep_salt = row_salt r, ep_encryptedDek = row_dek r, ep_keyVersion = None\<rparr>"

definition store_payload :: "payload \<Rightarrow> 'a sealed_scheme \<Rightarrow> 'a sealed_scheme" where
  "store_payload p r =
     r\<lparr>row_ciphertext := ep_ciphertext p, row_dek := ep_encryptedDek p, row_iv := ep_iv p,
       row_tag := ep_authTag p, row_salt := ep_salt p\<rparr>"

lemma payload_of_store [simp]: "payload_of (store_payload p r) = p\<lparr>ep_keyVersion := None\<rparr>"
  by (simp add: payload_of_def store_payload_def)

lemma store_payload_id [simp]: "row_id (store_payload p r) = row_id r"
  by (simp add: store_payload_def)

text \<open>
  \<open>findFirst\<close> ordered by the latest creation time. MySQL leaves the order of equal times open; the
  model takes the first of them.
\<close>

definition latest_seed :: "vault_db \<Rightarrow> master_seed option" where
  "latest_seed db =
     (case master_seeds db of
        [] \<Rightarrow> None
      | s # ss \<Rightarrow> Some (foldl (\<lambda>b r. if ms_created b < ms_created r then r else b) s ss))"

lemma foldl_latest_in: "foldl (\<lambda>b r. if ms_created b < ms_created r then r else b) s ss \<in> set (s # ss)"
proof (induction ss arbitrary: s)
  case (Cons a ss)
  then show ?case using Cons.IH [of a] Cons.IH [of s] by auto
qed simp

lemma latest_seed_in: "latest_seed db = Some s \<Longrightarrow> s \<in> set (master_seeds db)"
  unfolding latest_seed_def using foldl_latest_in by (auto split: list.splits)

section \<open>Audit log\<close>

text \<open>
  \<open>AuditService.log\<close>: a client identifier of zero is stored as null, and a failing insert is logged
  and swallowed. Whether the insert of an entry succeeds is the argument \<open>up\<close>.
\<close>

definition audit_log :: "(audit_entry \<Rightarrow> bool) \<Rightarrow> audit_entry \<Rightarrow> vault_db \<Rightarrow> vault_db" where
  "audit_log up entry db =
     (let row = entry\<lparr>au_client := (case au_client entry of None \<Rightarrow> None
                                  | Some c \<Rightarrow> if c = 0 then None else Some c)\<rparr>
      in if up row then db\<lparr>audits := audits db @ [row]\<rparr> else db)"

lemma audit_log_frame [simp]:
  "master_seeds (audit_log up e db) = master_seeds db"
  "project_seeds (audit_log up e db) = project_seeds db"
  "derived_keys (audit_log up e db) = derived_keys db"
  "shamir_shares (audit_log up e db) = shamir_shares db"
  "projects (audit_log up e db) = projects db"
  "next_seed (audit_log up e db) = next_seed db"
  "next_project_seed (audit_log up e db) = next_project_seed db"
  "next_key (audit_log up e db) = next_key db"
  "next_share (audit_log up e db) = next_share db"
  by (simp_all add: audit_log_def Let_def)

lemma foldl_audit_frame [simp]:
  "master_seeds (foldl (\<lambda>d e. audit_log up (f e) d) db es) = master_seeds db"
  "project_seeds (foldl (\<lambda>d e. audit_log up (f e) d) db es) = project_seeds db"
  "derived_keys (foldl (\<lambda>d e. audit_log up (f e) d) db es) = derived_keys db"
  "shamir_shares (foldl (\<lambda>d e. audit_log up (f e) d) db es) = shamir_shares db"
  "projects (foldl (\<lambda>d e. audit_log up (f e) d) db es) = projects db"
  "next_key (foldl (\<lambda>d e. audit_log up (f e) d) db es) = next_key db"
  "next_share (foldl (\<lambda>d e. audit_log up (f e) d) db es) = next_share db"
  by (induction es arbitrary: db) simp_all

text \<open>\<open>latest_seed\<close> depends on the seeds alone.\<close>

lemma latest_seed_cong: "master_seeds a = master_seeds b \<Longrightarrow> latest_seed a = latest_seed b"
  by (simp add: latest_seed_def)

section \<open>The service key\<close>

text \<open>
  \<open>InternalServiceGuard.canActivate\<close> (common/guards): both keys are copied into zero-filled buffers
  of the same length, compared there, and their lengths are compared.
\<close>

definition pad_to :: "nat \<Rightarrow> bytes \<Rightarrow> bytes" where
  "pad_to n bs = bs @ replicate (n - length bs) 0"

definition canActivate :: "bool \<Rightarrow> string option \<Rightarrow> string option \<Rightarrow> error + bool" where
  "canActivate isPublic header expected =
     (if isPublic then Inr True
      else (case expected of
        None \<Rightarrow> Inl (Unauthorized ''INTERNAL_SERVICE_KEY is not configured'')
      | Some e \<Rightarrow>
          if e = [] then Inl (Unauthorized ''INTERNAL_SERVICE_KEY is not configured'')
          else (case header of
            None \<Rightarrow> Inl (Unauthorized ''Invalid or missing internal service key'')
          | Some k \<Rightarrow>
              if k = [] then Inl (Unauthorized ''Invalid or missing internal service key'')
              else let a = text_bytes k; b = text_bytes e; n = max (length a) (length b)
                   in if pad_to n a = pad_to n b \<and> length a = length b then Inr True
                      else Inl (Unauthorized ''Invalid service key''))))"

lemma text_bytes_inject [simp]: "text_bytes a = text_bytes b \<longleftrightarrow> a = b"
  by (metis bytes_text_bytes)

lemma service_key_is_compared_exactly:
  "canActivate False header expected = Inr True \<longleftrightarrow> (\<exists>k. k \<noteq> [] \<and> header = Some k \<and> expected = Some k)"
  by (auto simp: canActivate_def Let_def pad_to_def text_bytes_def [symmetric]
      split: option.splits if_splits)

section \<open>An instance\<close>

text \<open>
  A small instance of the cryptography, on which the examples are evaluated: the key is the padded
  password, the ciphertext is the plaintext and the tag is the first half of the key.
\<close>

definition small_aead :: aead where
  "small_aead =
     \<lparr>pbkdf2 = (\<lambda>pw salt n. take 32 (text_bytes pw @ replicate 32 0)),
      gcm_seal = (\<lambda>key iv aad pt. (pt, take 16 key)),
      gcm_open = (\<lambda>key iv aad tag ct.
        if tag = take 16 key then Inr ct else Inl (InternalError ''Unsupported state''))\<rparr>"

definition small_config :: vault_config where
  "small_config = \<lparr>masterPassword = ''old'', kdfIterations = 600000\<rparr>"

definition small_draws :: draws where
  "small_draws =
     \<lparr>d_dek = replicate 32 1, d_salt = replicate 32 2, d_iv = replicate 12 3, d_dekIv = replicate 12 4\<rparr>"

lemma small_aead_ok: "aead_ok small_aead"
  by (auto simp: aead_ok_def small_aead_def min_def)

lemma small_draws_ok: "draws_ok small_draws"
  by (simp add: draws_ok_def small_draws_def)

end
