(* ===== verification/KeyRotation.thy ===== *)
theory KeyRotation
  imports KeyVault
begin

text \<open>
  The rotation of the master password
  (services/key-vault-service/src/encryption/key-rotation.service.ts). Every record of the four
  encrypted tables is opened with the old password and sealed with the new one, in its own
  transaction; what fails is collected. \<open>rotation_env\<close> gives the random bytes drawn for each record
  and which database writes fail, with the message of the failure. Rows are independent of each
  other and their identifiers are keys, so the loop over a table is a map over its rows.
\<close>

section \<open>One record\<close>

datatype vault_table = MasterSeeds | ProjectSeeds | DerivedKeys | ShamirShares

fun table_text :: "vault_table \<Rightarrow> string" where
  "table_text MasterSeeds = ''master_seeds''"
| "table_text ProjectSeeds = ''project_seeds''"
| "table_text DerivedKeys = ''derived_keys''"
| "table_text ShamirShares = ''shamir_shares''"

record rotation_env =
  re_draws :: "vault_table \<Rightarrow> ident \<Rightarrow> draws"
  re_update :: "vault_table \<Rightarrow> ident \<Rightarrow> string option"
  re_version :: "vault_table \<Rightarrow> ident \<Rightarrow> string option"
  re_audit :: "audit_entry \<Rightarrow> bool"

record rotation_result =
  rotatedSeeds :: nat
  rotatedProjectSeeds :: nat
  rotatedKeys :: nat
  rotatedShares :: nat
  rr_errors :: "string list"

text \<open>
  The version read off the row is always absent, since the Prisma schema does not have the column,
  so the version passed on is 1. The version column is written after the transaction; a failure
  there is an error although the record is already sealed anew.
\<close>

definition rotate_row ::
    "aead \<Rightarrow> vault_config \<Rightarrow> rotation_env \<Rightarrow> vault_table \<Rightarrow> string \<Rightarrow> string \<Rightarrow> int option \<Rightarrow>
     ('a sealed_scheme \<Rightarrow> 'a sealed_scheme) \<Rightarrow> 'a sealed_scheme \<Rightarrow> string option \<times> 'a sealed_scheme" where
  "rotate_row cr cfg env table old new iters extra r =
     (case rotateEncryption cr cfg (re_draws env table (row_id r)) (payload_of r) old new 1 iters of
        Inl e \<Rightarrow> (Some (error_text e), r)
      | Inr p \<Rightarrow>
          (case re_update env table (row_id r) of
             Some msg \<Rightarrow> (Some msg, r)
           | None \<Rightarrow>
               let r1 = extra (store_payload p r) in
               (case re_version env table (row_id r) of
                  Some msg \<Rightarrow> (Some msg, r1)
                | None \<Rightarrow>
                    (None, r1\<lparr>key_version := (case ep_keyVersion p of None \<Rightarrow> 2 | Some v \<Rightarrow> v)\<rparr>))))"

section \<open>One table\<close>

definition rotation_errors :: "('r \<Rightarrow> string) \<Rightarrow> ('r \<Rightarrow> string option \<times> 'r) \<Rightarrow> 'r list \<Rightarrow> string list" where
  "rotation_errors describe rot rows =
     concat (map (\<lambda>r. case fst (rot r) of None \<Rightarrow> [] | Some msg \<Rightarrow> [describe r @ '': '' @ msg]) rows)"

definition rotated_rows :: "('r \<Rightarrow> string option \<times> 'r) \<Rightarrow> 'r list \<Rightarrow> 'r list" where
  "rotated_rows rot rows = filter (\<lambda>r. fst (rot r) = None) rows"

definition rotation_entry ::
    "ident option \<Rightarrow> string option \<Rightarrow> string option \<Rightarrow> vault_table \<Rightarrow> ident \<Rightarrow> (string \<times> string) list \<Rightarrow> audit_entry" where
  "rotation_entry client ktype addr table n detail =
     \<lparr>au_operation = ''key_rotation'', au_client = client, au_type = ktype, au_address = addr,
      au_tx = None, au_chain = None, au_requestedBy = ''system'',
      au_metadata = [(''table'', table_text table), (''recordId'', show_int n)] @ detail
        @ [(''newKeyVersion'', ''2'')]\<rparr>"

definition log_rotated :: "rotation_env \<Rightarrow> ('r \<Rightarrow> audit_entry) \<Rightarrow> 'r list \<Rightarrow> vault_db \<Rightarrow> vault_db" where
  "log_rotated env entry rows db = foldl (\<lambda>d r. audit_log (re_audit env) (entry r) d) db rows"

definition rotate_master :: "aead \<Rightarrow> vault_config \<Rightarrow> rotation_env \<Rightarrow> string \<Rightarrow> string \<Rightarrow> master_seed
    \<Rightarrow> string option \<times> master_seed" where
  "rotate_master cr cfg env old new s =
     rotate_row cr cfg env MasterSeeds old new (Some (ms_iterations s))
       (\<lambda>r. r\<lparr>ms_iterations := kdfIterations cfg\<rparr>) s"

definition rotate_project_seed :: "aead \<Rightarrow> vault_config \<Rightarrow> rotation_env \<Rightarrow> string \<Rightarrow> string \<Rightarrow> project_seed
    \<Rightarrow> string option \<times> project_seed" where
  "rotate_project_seed cr cfg env old new s =
     rotate_row cr cfg env ProjectSeeds old new (Some (ps_iterations s))
       (\<lambda>r. r\<lparr>ps_iterations := kdfIterations cfg\<rparr>) s"

definition rotate_key :: "aead \<Rightarrow> vault_config \<Rightarrow> rotation_env \<Rightarrow> string \<Rightarrow> string \<Rightarrow> derived_key
    \<Rightarrow> string option \<times> derived_key" where
  "rotate_key cr cfg env old new k = rotate_row cr cfg env DerivedKeys old new None id k"

definition rotate_share :: "aead \<Rightarrow> vault_config \<Rightarrow> rotation_env \<Rightarrow> string \<Rightarrow> string \<Rightarrow> shamir_share
    \<Rightarrow> string option \<times> shamir_share" where
  "rotate_share cr cfg env old new s = rotate_row cr cfg env ShamirShares old new None id s"

definition rotate_master_seeds :: "aead \<Rightarrow> vault_config \<Rightarrow> rotation_env \<Rightarrow> string \<Rightarrow> string \<Rightarrow> vault_db
    \<Rightarrow> nat \<times> string list \<times> vault_db" where
  "rotate_master_seeds cr cfg env old new db =
     (let rot = rotate_master cr cfg env old new;
          rows = master_seeds db;
          done_rows = rotated_rows rot rows
      in (length done_rows,
          rotation_errors (\<lambda>s. ''Failed to rotate master_seed id='' @ show_int (row_id s)) rot rows,
          log_rotated env (\<lambda>s. rotation_entry None None None MasterSeeds (row_id s) [(''seedId'', seedId s)])
            done_rows (db\<lparr>master_seeds := map (\<lambda>s. snd (rot s)) rows\<rparr>)))"

definition rotate_project_seeds :: "aead \<Rightarrow> vault_config \<Rightarrow> rotation_env \<Rightarrow> string \<Rightarrow> string \<Rightarrow> vault_db
    \<Rightarrow> nat \<times> string list \<times> vault_db" where
  "rotate_project_seeds cr cfg env old new db =
     (let rot = rotate_project_seed cr cfg env old new;
          rows = project_seeds db;
          done_rows = rotated_rows rot rows
      in (length done_rows,
          rotation_errors (\<lambda>s. ''Failed to rotate project_seed id='' @ show_int (row_id s)) rot rows,
          log_rotated env (\<lambda>s. rotation_entry None None None ProjectSeeds (row_id s)
              [(''projectId'', show_int (ps_project s))])
            done_rows (db\<lparr>project_seeds := map (\<lambda>s. snd (rot s)) rows\<rparr>)))"

definition rotate_derived_keys :: "aead \<Rightarrow> vault_config \<Rightarrow> rotation_env \<Rightarrow> string \<Rightarrow> string \<Rightarrow> vault_db
    \<Rightarrow> nat \<times> string list \<times> vault_db" where
  "rotate_derived_keys cr cfg env old new db =
     (let rot = rotate_key cr cfg env old new;
          rows = derived_keys db;
          done_rows = rotated_rows rot rows
      in (length done_rows,
          rotation_errors (\<lambda>k. ''Failed to rotate derived_key id='' @ show_int (row_id k)
              @ '' ('' @ dk_address k @ '')'') rot rows,
          log_rotated env (\<lambda>k. rotation_entry (Some (dk_client k)) (Some (key_type_text (dk_type k)))
              (Some (dk_address k)) DerivedKeys (row_id k) [])
            done_rows (db\<lparr>derived_keys := map (\<lambda>k. snd (rot k)) rows\<rparr>)))"

definition rotate_shamir_shares :: "aead \<Rightarrow> vault_config \<Rightarrow> rotation_env \<Rightarrow> string \<Rightarrow> string \<Rightarrow> vault_db
    \<Rightarrow> nat \<times> string list \<times> vault_db" where
  "rotate_shamir_shares cr cfg env old new db =
     (let rot = rotate_share cr cfg env old new;
          rows = shamir_shares db;
          done_rows = rotated_rows rot rows
      in (length done_rows,
          rotation_errors (\<lambda>s. ''Failed to rotate shamir_share id='' @ show_int (row_id s)) rot rows,
          log_rotated env (\<lambda>s. rotation_entry (Some (sh_client s)) None None ShamirShares (row_id s)
              [(''shareIndex'', show_int (shareIndex s))])
            done_rows (db\<lparr>shamir_shares := map (\<lambda>s. snd (rot s)) rows\<rparr>)))"

section \<open>The whole vault\<close>

definition verify_old :: "aead \<Rightarrow> vault_config \<Rightarrow> string \<Rightarrow> vault_db \<Rightarrow> bool" where
  "verify_old cr cfg old db =
     (case latest_seed db of
        None \<Rightarrow> True
      | Some s \<Rightarrow> is_ok (decryptWithPassword cr cfg (payload_of s) old (Some (ms_iterations s))))"

definition rotation_summary :: "rotation_result \<Rightarrow> audit_entry" where
  "rotation_summary r =
     \<lparr>au_operation = ''master_password_rotation_complete'', au_client = None, au_type = None,
      au_address = None, au_tx = None, au_chain = None, au_requestedBy = ''system'',
      au_metadata = [(''rotatedSeeds'', show_nat (rotatedSeeds r)),
        (''rotatedProjectSeeds'', show_nat (rotatedProjectSeeds r)),
        (''rotatedKeys'', show_nat (rotatedKeys r)), (''rotatedShares'', show_nat (rotatedShares r)),
        (''errorCount'', show_nat (length (rr_errors r)))]\<rparr>"

definition rotateMasterPassword ::
    "aead \<Rightarrow> vault_config \<Rightarrow> rotation_env \<Rightarrow> string \<Rightarrow> string \<Rightarrow> vault_db
     \<Rightarrow> (error + rotation_result) \<times> vault_db" where
  "rotateMasterPassword cr cfg env old new db =
     (if old = [] \<or> new = [] then (Inl (BadRequest ''Both oldPassword and newPassword are required''), db)
      else if old = new then (Inl (BadRequest ''New password must be different from old password''), db)
      else if \<not> verify_old cr cfg old db then (Inl (BadRequest ''Old password verification failed''), db)
      else
        let (n1, e1, db1) = rotate_master_seeds cr cfg env old new db;
            (n2, e2, db2) = rotate_project_seeds cr cfg env old new db1;
            (n3, e3, db3) = rotate_derived_keys cr cfg env old new db2;
            (n4, e4, db4) = rotate_shamir_shares cr cfg env old new db3;
            r = \<lparr>rotatedSeeds = n1, rotatedProjectSeeds = n2, rotatedKeys = n3, rotatedShares = n4,
                 rr_errors = e1 @ e2 @ e3 @ e4\<rparr>
        in (Inr r, audit_log (re_audit env) (rotation_summary r) db4))"

section \<open>What a record holds\<close>

definition seed_secret :: "aead \<Rightarrow> vault_config \<Rightarrow> string \<Rightarrow> master_seed \<Rightarrow> error + bytes" where
  "seed_secret cr cfg pw s = decryptWithPassword cr cfg (payload_of s) pw (Some (ms_iterations s))"

definition project_secret :: "aead \<Rightarrow> vault_config \<Rightarrow> string \<Rightarrow> project_seed \<Rightarrow> error + bytes" where
  "project_secret cr cfg pw s = decryptWithPassword cr cfg (payload_of s) pw (Some (ps_iterations s))"

definition row_secret :: "aead \<Rightarrow> vault_config \<Rightarrow> string \<Rightarrow> 'a sealed_scheme \<Rightarrow> error + bytes" where
  "row_secret cr cfg pw r = decryptWithPassword cr cfg (payload_of r) pw None"

text \<open>A record is carried over, or it is as it was under every password.\<close>

definition kept :: "(string \<Rightarrow> 'r \<Rightarrow> error + bytes) \<Rightarrow> string \<Rightarrow> string \<Rightarrow> 'r \<Rightarrow> 'r \<Rightarrow> bool" where
  "kept secret old new r r' \<longleftrightarrow> secret new r' = secret old r \<or> (\<forall>pw. secret pw r' = secret pw r)"

lemma rotateEncryption_opens:
  assumes "aead_ok cr" "draws_ok d" "rotateEncryption cr cfg d p old new v iters = Inr q"
    "j = None \<or> j = Some (kdfIterations cfg)"
  shows "decryptWithPassword cr cfg q new j = decryptWithPassword cr cfg p old iters"
proof -
  from assms(3) obtain x where x: "decryptWithPassword cr cfg p old iters = Inr x"
    and q: "q = (encryptWithPassword cr cfg d x new)\<lparr>ep_keyVersion := Some (v + 1)\<rparr>"
    by (auto simp: rotateEncryption_def split: sum.splits)
  have "decrypt cr (cfg\<lparr>masterPassword := new\<rparr>) (encrypt cr (cfg\<lparr>masterPassword := new\<rparr>) d x None) j None = Inr x"
    using assms by (intro decrypt_encrypt_same_count) auto
  then show ?thesis
    unfolding x q by (simp add: encryptWithPassword_encrypt decryptWithPassword_decrypt)
qed

lemma payload_of_key_version [simp]: "payload_of (r\<lparr>key_version := v\<rparr>) = payload_of r"
  by (simp add: payload_of_def)

text \<open>What one record's rotation does, whatever fails.\<close>

lemma rotate_row_cases:
  assumes ok: "aead_ok cr" "draws_ok (re_draws env table (row_id r))"
    and extra: "\<And>x. payload_of (extra x) = payload_of x"
    and j: "j = None \<or> j = Some (kdfIterations cfg)"
  shows "(fst (rotate_row cr cfg env table old new iters extra r) \<noteq> None
            \<and> snd (rotate_row cr cfg env table old new iters extra r) = r)
       \<or> (\<exists>x v. snd (rotate_row cr cfg env table old new iters extra r) =
              (let q = extra (store_payload x r) in if v = None then q else q\<lparr>key_version := the v\<rparr>)
            \<and> (fst (rotate_row cr cfg env table old new iters extra r) = None \<longrightarrow> v = Some 2)
            \<and> decryptWithPassword cr cfg (payload_of (snd (rotate_row cr cfg env table old new iters extra r))) new j
               = decryptWithPassword cr cfg (payload_of r) old iters)"
proof (cases "rotateEncryption cr cfg (re_draws env table (row_id r)) (payload_of r) old new 1 iters")
  case (Inl e)
  then show ?thesis by (simp add: rotate_row_def)
next
  case (Inr p)
  note opens = rotateEncryption_opens [OF ok Inr j]
  have v: "ep_keyVersion p = Some 2"
    using Inr by (auto simp: rotateEncryption_def split: sum.splits)
  show ?thesis
  proof (cases "re_update env table (row_id r)")
    case (Some msg)
    then show ?thesis by (simp add: rotate_row_def Inr)
  next
    case None
    show ?thesis
    proof (cases "re_version env table (row_id r)")
      case (Some msg)
      have "rotate_row cr cfg env table old new iters extra r = (Some msg, extra (store_payload p r))"
        by (simp add: rotate_row_def Inr None Some)
      then show ?thesis
        using opens by (intro disjI2 exI [of _ p] exI [of _ None]) (simp add: extra)
    next
      case version: None
      have "rotate_row cr cfg env table old new iters extra r =
              (None, (extra (store_payload p r))\<lparr>key_version := 2\<rparr>)"
        by (simp add: rotate_row_def Inr None version v)
      then show ?thesis
        using opens by (intro disjI2 exI [of _ p] exI [of _ "Some 2"]) (simp add: extra)
    qed
  qed
qed

lemma rotate_master_kept:
  assumes "aead_ok cr" "\<And>t n. draws_ok (re_draws env t n)"
  shows "kept (seed_secret cr cfg) old new s (snd (rotate_master cr cfg env old new s))"
    and "fst (rotate_master cr cfg env old new s) = None \<Longrightarrow>
      seed_secret cr cfg new (snd (rotate_master cr cfg env old new s)) = seed_secret cr cfg old s"
  using rotate_row_cases [OF assms(1) assms(2), where table = MasterSeeds and r = s and old = old
      and new = new and cfg = cfg and iters = "Some (ms_iterations s)" and j = "Some (kdfIterations cfg)"
      and extra = "\<lambda>r. r\<lparr>ms_iterations := kdfIterations cfg\<rparr>"]
  by (auto simp: kept_def seed_secret_def rotate_master_def Let_def payload_of_def split: if_splits)

lemma rotate_project_seed_kept:
  assumes "aead_ok cr" "\<And>t n. draws_ok (re_draws env t n)"
  shows "kept (project_secret cr cfg) old new s (snd (rotate_project_seed cr cfg env old new s))"
    and "fst (rotate_project_seed cr cfg env old new s) = None \<Longrightarrow>
      project_secret cr cfg new (snd (rotate_project_seed cr cfg env old new s)) = project_secret cr cfg old s"
  using rotate_row_cases [OF assms(1) assms(2), where table = ProjectSeeds and r = s and old = old
      and new = new and cfg = cfg and iters = "Some (ps_iterations s)" and j = "Some (kdfIterations cfg)"
      and extra = "\<lambda>r. r\<lparr>ps_iterations := kdfIterations cfg\<rparr>"]
  by (auto simp: kept_def project_secret_def rotate_project_seed_def Let_def payload_of_def split: if_splits)

lemma rotate_row_kept:
  assumes "aead_ok cr" "\<And>t n. draws_ok (re_draws env t n)"
  shows "kept (row_secret cr cfg) old new r (snd (rotate_row cr cfg env table old new None id r))"
    and "fst (rotate_row cr cfg env table old new None id r) = None \<Longrightarrow>
      row_secret cr cfg new (snd (rotate_row cr cfg env table old new None id r)) = row_secret cr cfg old r"
  using rotate_row_cases [OF assms(1) assms(2), where table = table and r = r and old = old
      and new = new and cfg = cfg and iters = None and j = None and extra = id]
  by (auto simp: kept_def row_secret_def)

lemma rotate_key_kept:
  assumes "aead_ok cr" "\<And>t n. draws_ok (re_draws env t n)"
  shows "kept (row_secret cr cfg) old new k (snd (rotate_key cr cfg env old new k))"
    and "fst (rotate_key cr cfg env old new k) = None \<Longrightarrow>
      row_secret cr cfg new (snd (rotate_key cr cfg env old new k)) = row_secret cr cfg old k"
  using rotate_row_kept [OF assms] unfolding rotate_key_def by blast+

lemma rotate_share_kept:
  assumes "aead_ok cr" "\<And>t n. draws_ok (re_draws env t n)"
  shows "kept (row_secret cr cfg) old new s (snd (rotate_share cr cfg env old new s))"
    and "fst (rotate_share cr cfg env old new s) = None \<Longrightarrow>
      row_secret cr cfg new (snd (rotate_share cr cfg env old new s)) = row_secret cr cfg old s"
  using rotate_row_kept [OF assms] unfolding rotate_share_def by blast+

lemmas table_kept = rotate_master_kept rotate_project_seed_kept rotate_key_kept rotate_share_kept

text \<open>The loops over the tables, and the composition.\<close>

lemma rotation_errors_empty:
  "rotation_errors describe rot rows = [] \<longleftrightarrow> (\<forall>r \<in> set rows. fst (rot r) = None)"
  by (auto simp: rotation_errors_def split: option.splits)

lemma rotated_rows_all: "\<forall>r \<in> set rows. fst (rot r) = None \<Longrightarrow> rotated_rows rot rows = rows"
  by (simp add: rotated_rows_def)

lemma rotated_rows_le: "length (rotated_rows rot rows) \<le> length rows"
  by (simp add: rotated_rows_def)

lemma length_rotation_errors:
  "length (rotation_errors describe rot rows) = length rows - length (rotated_rows rot rows)"
proof (induction rows)
  case (Cons r rows)
  then show ?case
    using rotated_rows_le [of rot rows]
    by (auto simp: rotation_errors_def rotated_rows_def split: option.splits)
qed (simp add: rotation_errors_def)

lemma log_rotated_frame [simp]:
  "master_seeds (log_rotated env f es db) = master_seeds db"
  "project_seeds (log_rotated env f es db) = project_seeds db"
  "derived_keys (log_rotated env f es db) = derived_keys db"
  "shamir_shares (log_rotated env f es db) = shamir_shares db"
  by (simp_all add: log_rotated_def)

lemma rotated_tables:
  assumes "rotateMasterPassword cr cfg env old new db = (Inr r, db')"
  shows "master_seeds db' = map (\<lambda>s. snd (rotate_master cr cfg env old new s)) (master_seeds db)"
    and "project_seeds db' = map (\<lambda>s. snd (rotate_project_seed cr cfg env old new s)) (project_seeds db)"
    and "derived_keys db' = map (\<lambda>k. snd (rotate_key cr cfg env old new k)) (derived_keys db)"
    and "shamir_shares db' = map (\<lambda>s. snd (rotate_share cr cfg env old new s)) (shamir_shares db)"
  using assms
  by (auto simp: rotateMasterPassword_def rotate_master_seeds_def rotate_project_seeds_def
      rotate_derived_keys_def rotate_shamir_shares_def Let_def split: if_splits)

lemma rotation_outcome:
  assumes "rotateMasterPassword cr cfg env old new db = (Inr r, db')"
  shows "rr_errors r =
      rotation_errors (\<lambda>s. ''Failed to rotate master_seed id='' @ show_int (row_id s))
        (rotate_master cr cfg env old new) (master_seeds db) @
      rotation_errors (\<lambda>s. ''Failed to rotate project_seed id='' @ show_int (row_id s))
        (rotate_project_seed cr cfg env old new) (project_seeds db) @
      rotation_errors (\<lambda>k. ''Failed to rotate derived_key id='' @ show_int (row_id k) @ '' ('' @ dk_address k @ '')'')
        (rotate_key cr cfg env old new) (derived_keys db) @
      rotation_errors (\<lambda>s. ''Failed to rotate shamir_share id='' @ show_int (row_id s))
        (rotate_share cr cfg env old new) (shamir_shares db)"
    and "rotatedSeeds r = length (rotated_rows (rotate_master cr cfg env old new) (master_seeds db))"
    and "rotatedProjectSeeds r = length (rotated_rows (rotate_project_seed cr cfg env old new) (project_seeds db))"
    and "rotatedKeys r = length (rotated_rows (rotate_key cr cfg env old new) (derived_keys db))"
    and "rotatedShares r = length (rotated_rows (rotate_share cr cfg env old new) (shamir_shares db))"
  using assms
  by (auto simp: rotateMasterPassword_def rotate_master_seeds_def rotate_project_seeds_def
      rotate_derived_keys_def rotate_shamir_shares_def Let_def split: if_splits)

lemma refused_rotation: "rotateMasterPassword cr cfg env old new db = (Inl e, db') \<Longrightarrow> db' = db"
  by (auto simp: rotateMasterPassword_def Let_def case_prod_beta split: if_splits)

text \<open>Claim C25. Rotation of the master password loses no secret, whichever writes fail: every record of
  the four encrypted tables opens under the new password to what it opened to under the old one, or
  still opens under every password as before. The counts and the errors account for every record, and
  without errors every record opens under the new password to the same secret.\<close>

theorem rotation_loses_no_secret:
  assumes "aead_ok cr" "\<And>t n. draws_ok (re_draws env t n)"
    and "rotateMasterPassword cr cfg env old new db = (Inr r, db')"
  shows "list_all2 (kept (seed_secret cr cfg) old new) (master_seeds db) (master_seeds db')
    \<and> list_all2 (kept (project_secret cr cfg) old new) (project_seeds db) (project_seeds db')
    \<and> list_all2 (kept (row_secret cr cfg) old new) (derived_keys db) (derived_keys db')
    \<and> list_all2 (kept (row_secret cr cfg) old new) (shamir_shares db) (shamir_shares db')
    \<and> rotatedSeeds r + rotatedProjectSeeds r + rotatedKeys r + rotatedShares r + length (rr_errors r)
        = length (master_seeds db) + length (project_seeds db) + length (derived_keys db) + length (shamir_shares db)
    \<and> (rr_errors r = [] \<longrightarrow>
         map (seed_secret cr cfg new) (master_seeds db') = map (seed_secret cr cfg old) (master_seeds db)
       \<and> map (project_secret cr cfg new) (project_seeds db') = map (project_secret cr cfg old) (project_seeds db)
       \<and> map (row_secret cr cfg new) (derived_keys db') = map (row_secret cr cfg old) (derived_keys db)
       \<and> map (row_secret cr cfg new) (shamir_shares db') = map (row_secret cr cfg old) (shamir_shares db))"
proof -
  note tabs = rotated_tables [OF assms(3)] and out = rotation_outcome [OF assms(3)]
  note kept = table_kept [OF assms(1,2)]
  have "rotatedSeeds r + rotatedProjectSeeds r + rotatedKeys r + rotatedShares r + length (rr_errors r)
        = length (master_seeds db) + length (project_seeds db) + length (derived_keys db) + length (shamir_shares db)"
    unfolding out length_append length_rotation_errors
    using rotated_rows_le [of "rotate_master cr cfg env old new" "master_seeds db"]
      rotated_rows_le [of "rotate_project_seed cr cfg env old new" "project_seeds db"]
      rotated_rows_le [of "rotate_key cr cfg env old new" "derived_keys db"]
      rotated_rows_le [of "rotate_share cr cfg env old new" "shamir_shares db"] by linarith
  then show ?thesis
    unfolding tabs by (auto simp: list_all2_conv_all_nth kept out rotation_errors_empty)
qed

lemma verify_old_failed:
  assumes "latest_seed db = Some s" "\<not> is_ok (seed_secret cr cfg old s)"
  shows "\<exists>e. rotateMasterPassword cr cfg env old new db = (Inl e, db)"
  using assms by (auto simp: rotateMasterPassword_def verify_old_def seed_secret_def)

lemma failed_update_keeps_key:
  "re_update env DerivedKeys (row_id k) = Some msg \<Longrightarrow>
     snd (rotate_key cr cfg env old new k) = k \<and> fst (rotate_key cr cfg env old new k) \<noteq> None"
  by (auto simp: rotate_key_def rotate_row_def split: sum.splits)

lemma unreadable_key_is_kept:
  "\<not> is_ok (row_secret cr cfg old k) \<Longrightarrow> snd (rotate_key cr cfg env old new k) = k"
  by (auto simp: rotate_key_def rotate_row_def rotateEncryption_def row_secret_def split: sum.splits)

lemma unreadable_key_survives:
  assumes "\<not> is_ok (row_secret cr cfg old k)" "k \<in> set (derived_keys db)"
  shows "k \<in> set (derived_keys (snd (rotateMasterPassword cr cfg env old new db)))"
proof (cases "rotateMasterPassword cr cfg env old new db")
  case (Pair res db')
  show ?thesis
  proof (cases res)
    case (Inl e)
    then show ?thesis using refused_rotation [of cr cfg env old new db e db'] Pair assms by simp
  next
    case (Inr r)
    then have "derived_keys db' = map (\<lambda>k. snd (rotate_key cr cfg env old new k)) (derived_keys db)"
      using Pair rotated_tables(3) by auto
    then show ?thesis
      using Pair assms unreadable_key_is_kept [OF assms(1), of env new] by force
  qed
qed

text \<open>A rotation interrupted in one key cannot be completed: once the newest master seed is
  carried over and no longer opens under the old password, every further rotation from the old password
  is refused, a rotation from the new password leaves the key as it was, and a service that runs with
  the new password cannot open it.\<close>

lemma interrupted_rotation_cannot_be_resumed:
  assumes "rotateMasterPassword cr cfg env old new db = (Inr r, db')"
    and "k \<in> set (derived_keys db)" "re_update env DerivedKeys (row_id k) = Some msg"
    and "latest_seed db' = Some s" "\<not> is_ok (seed_secret cr cfg old s)"
    and "\<not> is_ok (row_secret cr cfg new k)"
  shows "rr_errors r \<noteq> [] \<and> k \<in> set (derived_keys db')
    \<and> (\<forall>env' q. \<exists>e. rotateMasterPassword cr cfg env' old q db' = (Inl e, db'))
    \<and> (\<forall>env' q. k \<in> set (derived_keys (snd (rotateMasterPassword cr cfg env' new q db'))))
    \<and> \<not> is_ok (decrypt cr (cfg\<lparr>masterPassword := new\<rparr>) (payload_of k) None None)"
proof -
  note k = failed_update_keeps_key [OF assms(3), of cr cfg old new]
  have "rr_errors r \<noteq> []"
    unfolding rotation_outcome(1) [OF assms(1)] using assms(2) k by (auto simp: rotation_errors_empty)
  moreover have in': "k \<in> set (derived_keys db')"
    unfolding rotated_tables(3) [OF assms(1)] using assms(2) k by force
  moreover have "\<not> is_ok (decrypt cr (cfg\<lparr>masterPassword := new\<rparr>) (payload_of k) None None)"
    using assms(6) by (simp add: row_secret_def decryptWithPassword_decrypt)
  ultimately show ?thesis
    using verify_old_failed [OF assms(4,5)] unreadable_key_survives [OF assms(6) in'] by blast
qed

text \<open>The version column never goes past 2, however often a record is rotated.\<close>

lemma rotated_key_version:
  "fst (rotate_key cr cfg env old new k) = None \<Longrightarrow> key_version (snd (rotate_key cr cfg env old new k)) = 2"
  by (auto simp: rotate_key_def rotate_row_def rotateEncryption_def Let_def split: sum.splits option.splits)

section \<open>A small vault\<close>

text \<open>A concrete instance of the encryption, and a vault with one seed and one key sealed under it.\<close>

definition small_env :: "(ident \<Rightarrow> string option) \<Rightarrow> rotation_env" where
  "small_env fails =
     \<lparr>re_draws = (\<lambda>t n. small_draws), re_update = (\<lambda>t n. if t = DerivedKeys then fails n else None),
      re_version = (\<lambda>t n. None), re_audit = (\<lambda>e. True)\<rparr>"

definition small_vault :: "vault_db" where
  "small_vault =
     \<lparr>projects = [], master_seeds =
        [store_payload (encryptWithPassword small_aead small_config small_draws (text_bytes ''words'') ''old'')
          \<lparr>row_id = 1, row_ciphertext = [], row_dek = [], row_iv = [], row_tag = [], row_salt = [],
           key_version = 1, seedId = ''s'', ms_iterations = 600000, ms_created = 0\<rparr>],
      project_seeds = [], derived_keys =
        [store_payload (encryptWithPassword small_aead small_config small_draws [1, 2, 3] ''old'')
          \<lparr>row_id = 1, row_ciphertext = [], row_dek = [], row_iv = [], row_tag = [], row_salt = [],
           key_version = 1, dk_client = 7, dk_project = None, dk_type = KClient, chainScope = ''evm'',
           publicKey = ''0x04'', dk_address = ''0xa'', derivationPath = ''m'', isActive = True,
           lastUsedAt = None, signCount = 0, dk_created = 0\<rparr>],
      shamir_shares = [], audits = [], next_seed = 2, next_project_seed = 1, next_key = 2, next_share = 1\<rparr>"

lemma rotation_runs:
  "is_ok (fst (rotateMasterPassword cr cfg env old new db)) \<longleftrightarrow>
     old \<noteq> [] \<and> new \<noteq> [] \<and> old \<noteq> new \<and> verify_old cr cfg old db"
  by (simp add: rotateMasterPassword_def Let_def case_prod_beta)

lemma readable_row_rotates:
  "is_ok (decryptWithPassword cr cfg (payload_of r) old iters) \<Longrightarrow> re_update env table (row_id r) = None \<Longrightarrow>
     re_version env table (row_id r) = None \<Longrightarrow> fst (rotate_row cr cfg env table old new iters extra r) = None"
  by (auto simp: rotate_row_def rotateEncryption_def Let_def is_ok_def split: sum.splits)

lemma sealed_row_opens:
  assumes "aead_ok cr" "draws_ok d" "iters = None \<or> iters = Some (kdfIterations cfg)"
  shows "decryptWithPassword cr cfg (payload_of (store_payload (encryptWithPassword cr cfg d x pw) r)) pw iters = Inr x"
  using assms by (simp add: encryptWithPassword_encrypt decryptWithPassword_decrypt decrypt_encrypt_same_count)

lemma store_payload_iterations [simp]:
  "ms_iterations (store_payload p s) = ms_iterations (s :: master_seed)"
  by (simp add: store_payload_def)

lemma small_vault_opens:
  "s \<in> set (master_seeds small_vault) \<Longrightarrow>
     is_ok (decryptWithPassword small_aead small_config (payload_of s) ''old'' (Some (ms_iterations s)))"
  "k \<in> set (derived_keys small_vault) \<Longrightarrow> is_ok (decryptWithPassword small_aead small_config (payload_of k) ''old'' None)"
  by (auto simp: small_vault_def sealed_row_opens [OF small_aead_ok small_draws_ok]
      simp del: payload_of_store) (simp_all add: sealed_row_opens small_aead_ok small_draws_ok
      small_config_def del: payload_of_store)

lemma small_rotation_runs:
  "is_ok (fst (rotateMasterPassword small_aead small_config env ''old'' ''new'' small_vault))"
  using small_vault_opens(1) [OF latest_seed_in]
  by (auto simp: rotation_runs verify_old_def split: option.split)

lemma small_env_draws: "draws_ok (re_draws (small_env f) t n)"
  by (simp add: small_env_def small_draws_ok)

theorem rotation_loses_no_secret_witness:
  "\<exists>r db'. rotateMasterPassword small_aead small_config (small_env (\<lambda>n. None)) ''old'' ''new'' small_vault = (Inr r, db')
    \<and> list_all2 (kept (row_secret small_aead small_config) ''old'' ''new'') (derived_keys small_vault) (derived_keys db')
    \<and> map (row_secret small_aead small_config ''new'') (derived_keys db')
        = map (row_secret small_aead small_config ''old'') (derived_keys small_vault)"
proof -
  let ?x = "rotateMasterPassword small_aead small_config (small_env (\<lambda>n. None)) ''old'' ''new'' small_vault"
  have x: "?x = (Inr (projr (fst ?x)), snd ?x)" by (rule Inr_pair) (rule small_rotation_runs)
  have e: "rr_errors (projr (fst ?x)) = []"
    unfolding rotation_outcome(1) [OF x]
    using small_vault_opens
    by (auto simp: rotation_errors_empty rotate_master_def rotate_key_def small_env_def small_vault_def
        intro!: readable_row_rotates)
  show ?thesis
    using rotation_loses_no_secret [OF small_aead_ok small_env_draws x] x e by blast
qed

lemma interrupted_rotation_cannot_be_resumed_witness:
  "\<exists>r db' k. rotateMasterPassword small_aead small_config (small_env (\<lambda>n. Some ''deadlock'')) ''old'' ''new'' small_vault
       = (Inr r, db') \<and> k \<in> set (derived_keys db') \<and> is_ok (row_secret small_aead small_config ''old'' k)
     \<and> \<not> is_ok (decrypt small_aead (small_config\<lparr>masterPassword := ''new''\<rparr>) (payload_of k) None None)"
proof -
  let ?x = "rotateMasterPassword small_aead small_config (small_env (\<lambda>n. Some ''deadlock'')) ''old'' ''new'' small_vault"
  let ?k = "hd (derived_keys small_vault)"
    and ?s = "snd (rotate_master small_aead small_config (small_env (\<lambda>n. Some ''deadlock'')) ''old'' ''new''
      (hd (master_seeds small_vault)))"
  have x: "?x = (Inr (projr (fst ?x)), snd ?x)" by (rule Inr_pair) (rule small_rotation_runs)
  have k: "?k \<in> set (derived_keys small_vault)" by (simp add: small_vault_def)
  have f: "re_update (small_env (\<lambda>n. Some ''deadlock'')) DerivedKeys (row_id ?k) = Some ''deadlock''"
    by (simp add: small_env_def)
  have s: "latest_seed (snd ?x) = Some ?s"
    unfolding latest_seed_def rotated_tables(1) [OF x] by (simp add: small_vault_def)
  have so: "\<not> is_ok (seed_secret small_aead small_config ''old'' ?s)" by code_simp
  have kn: "\<not> is_ok (row_secret small_aead small_config ''new'' ?k)" by code_simp
  have ko: "is_ok (row_secret small_aead small_config ''old'' ?k)"
    unfolding row_secret_def by (rule small_vault_opens(2)) (rule k)
  show ?thesis
    using interrupted_rotation_cannot_be_resumed [OF x k f s so kn] x ko by blast
qed

end
