(* ===== verification/KeyGeneration.thy ===== *)
theory KeyGeneration
  imports KeyVault
begin

text \<open>
  The client keys of the vault
  (services/key-vault-service/src/key-generation/key-generation.service.ts): the master seed, the
  three keys of a client, the gas-tank key of a chain, and the look-ups that open a private key.
  The BIP-39 and BIP-32 computations of the ethers library are the fields of \<open>hd\<close>; the clock, the
  random bytes and the outcome of the audit inserts are the fields of \<open>key_env\<close>.
\<close>

section \<open>Parameters\<close>

record hd_node =
  node_publicKey :: string
  node_address :: string
  node_privateKey :: string

record hd =
  mnemonic_phrase :: "bytes \<Rightarrow> string"
  phrase_root :: "string \<Rightarrow> error + bytes"
  derive_path :: "bytes \<Rightarrow> string \<Rightarrow> error + hd_node"

record key_env =
  ke_now :: millis
  ke_entropy :: bytes
  ke_seed_id :: string
  ke_seed_draws :: draws
  ke_draws :: "nat \<Rightarrow> draws"
  ke_audit :: "audit_entry \<Rightarrow> bool"

record key_info =
  ki_publicKey :: string
  ki_address :: string
  ki_path :: string
  ki_type :: key_type

section \<open>Writing a key\<close>

text \<open>
  The columns' widths (database/002 and 012) and the unique key of a project's keys. The database
  runs in strict mode, so a text that is too long is an error; a row without a project never
  collides, because nulls are distinct.
\<close>

definition key_fits :: "derived_key \<Rightarrow> bool" where
  "key_fits k \<longleftrightarrow> length (chainScope k) \<le> 10 \<and> length (publicKey k) \<le> 130 \<and> length (dk_address k) \<le> 100
     \<and> length (derivationPath k) \<le> 50"

definition same_scope :: "derived_key \<Rightarrow> derived_key \<Rightarrow> bool" where
  "same_scope a b \<longleftrightarrow> dk_project a \<noteq> None \<and> dk_project a = dk_project b \<and> dk_type a = dk_type b
     \<and> sql_eq (chainScope a) (chainScope b)"

definition insert_key :: "derived_key \<Rightarrow> vault_db \<Rightarrow> error + vault_db" where
  "insert_key k db =
     (if \<not> key_fits k then Inl (InternalError ''Data too long for column'')
      else if \<exists>q \<in> set (derived_keys db). same_scope q k
      then Inl (InternalError ''Unique constraint failed'')
      else Inr (db\<lparr>derived_keys := derived_keys db @ [k\<lparr>row_id := next_key db\<rparr>], next_key := next_key db + 1\<rparr>))"

definition new_key ::
    "key_env \<Rightarrow> payload \<Rightarrow> ident \<Rightarrow> ident option \<Rightarrow> key_type \<Rightarrow> string \<Rightarrow> hd_node \<Rightarrow> string \<Rightarrow> derived_key" where
  "new_key env p client project t scope node path =
     store_payload p
       \<lparr>row_id = 0, row_ciphertext = [], row_dek = [], row_iv = [], row_tag = [], row_salt = [],
        key_version = 1, dk_client = client, dk_project = project, dk_type = t, chainScope = scope,
        publicKey = node_publicKey node, dk_address = node_address node, derivationPath = path,
        isActive = True, lastUsedAt = None, signCount = 0, dk_created = ke_now env\<rparr>"

definition info_of :: "hd_node \<Rightarrow> string \<Rightarrow> key_type \<Rightarrow> key_info" where
  "info_of node path t =
     \<lparr>ki_publicKey = node_publicKey node, ki_address = node_address node, ki_path = path, ki_type = t\<rparr>"

text \<open>\<open>Buffer.from(childNode.privateKey.slice(2), 'hex')\<close>.\<close>

definition private_bytes :: "hd_node \<Rightarrow> bytes" where
  "private_bytes node = hex_bytes (drop 2 (node_privateKey node))"

text \<open>The loop inside the transaction: derive, encrypt, insert, for each key in turn.\<close>

fun create_keys ::
    "aead \<Rightarrow> vault_config \<Rightarrow> hd \<Rightarrow> key_env \<Rightarrow> bytes \<Rightarrow> ident \<Rightarrow> ident option \<Rightarrow> nat \<Rightarrow>
     (key_type \<times> string) list \<Rightarrow> vault_db \<Rightarrow> error + key_info list \<times> vault_db" where
  "create_keys cr cfg h env root client project i [] db = Inr ([], db)"
| "create_keys cr cfg h env root client project i ((t, path) # defs) db =
     (case derive_path h root path of
        Inl e \<Rightarrow> Inl e
      | Inr node \<Rightarrow>
          (case insert_key (new_key env (encrypt cr cfg (ke_draws env i) (private_bytes node) None)
                  client project t ''evm'' node path) db of
             Inl e \<Rightarrow> Inl e
           | Inr db1 \<Rightarrow>
               (case create_keys cr cfg h env root client project (Suc i) defs db1 of
                  Inl e \<Rightarrow> Inl e
                | Inr (infos, db2) \<Rightarrow> Inr (info_of node path t # infos, db2))))"

definition key_entry :: "string \<Rightarrow> ident \<Rightarrow> string \<Rightarrow> (string \<times> string) list \<Rightarrow> key_info \<Rightarrow> audit_entry" where
  "key_entry operation client requestedBy meta info =
     \<lparr>au_operation = operation, au_client = Some client, au_type = Some (key_type_text (ki_type info)),
      au_address = Some (ki_address info), au_tx = None, au_chain = None,
      au_requestedBy = requestedBy, au_metadata = meta\<rparr>"

section \<open>The master seed\<close>

definition new_master_seed :: "aead \<Rightarrow> vault_config \<Rightarrow> hd \<Rightarrow> key_env \<Rightarrow> vault_db \<Rightarrow> master_seed" where
  "new_master_seed cr cfg h env db =
     store_payload (encryptString cr cfg (ke_seed_draws env) (mnemonic_phrase h (ke_entropy env)) None)
       \<lparr>row_id = next_seed db, row_ciphertext = [], row_dek = [], row_iv = [], row_tag = [], row_salt = [],
        key_version = 1, seedId = ke_seed_id env, ms_iterations = kdfIterations cfg, ms_created = ke_now env\<rparr>"

definition seed_entry :: "string \<Rightarrow> string \<Rightarrow> (string \<times> string) list \<Rightarrow> audit_entry" where
  "seed_entry operation requestedBy meta =
     \<lparr>au_operation = operation, au_client = None, au_type = None, au_address = None, au_tx = None,
      au_chain = None, au_requestedBy = requestedBy, au_metadata = meta\<rparr>"

text \<open>The unique key on the random seed identifier is not checked: there is no seed yet.\<close>

definition getOrCreateMasterSeed ::
    "aead \<Rightarrow> vault_config \<Rightarrow> hd \<Rightarrow> key_env \<Rightarrow> vault_db \<Rightarrow> master_seed \<times> vault_db" where
  "getOrCreateMasterSeed cr cfg h env db =
     (case latest_seed db of
        Some s \<Rightarrow> (s, db)
      | None \<Rightarrow>
          let s = new_master_seed cr cfg h env db
          in (s, audit_log (ke_audit env)
                (seed_entry ''master_seed_created'' ''system'' [(''seedId'', ke_seed_id env)])
                (db\<lparr>master_seeds := master_seeds db @ [s], next_seed := next_seed db + 1\<rparr>)))"

definition getMasterSeed :: "vault_db \<Rightarrow> error + master_seed" where
  "getMasterSeed db =
     (case latest_seed db of
        None \<Rightarrow> Inl (NotFound ''No master seed found. Generate client keys first.'')
      | Some s \<Rightarrow> Inr s)"

text \<open>The root of the derivation: the mnemonic is opened with the iteration count stored beside it.\<close>

definition master_root :: "aead \<Rightarrow> vault_config \<Rightarrow> hd \<Rightarrow> master_seed \<Rightarrow> error + bytes" where
  "master_root cr cfg h s =
     (case decryptToString cr cfg (payload_of s) (Some (ms_iterations s)) None of
        Inl e \<Rightarrow> Inl e
      | Inr phrase \<Rightarrow> phrase_root h phrase)"

section \<open>The keys of a client\<close>

fun client_index :: "key_type \<Rightarrow> int" where
  "client_index KPlatform = 0"
| "client_index KClient = 1"
| "client_index KBackup = 2"
| "client_index KGasTank = 3"

definition client_path :: "ident \<Rightarrow> key_type \<Rightarrow> string" where
  "client_path client t =
     ''m/44'/60'/'' @ show_int (client * 3 + client_index t) @ [CHR 0x27] @ ''/0/0''"

definition client_defs :: "ident \<Rightarrow> (key_type \<times> string) list" where
  "client_defs client = map (\<lambda>t. (t, client_path client t)) [KPlatform, KClient, KBackup]"

definition generateClientKeys ::
    "aead \<Rightarrow> vault_config \<Rightarrow> hd \<Rightarrow> key_env \<Rightarrow> ident \<Rightarrow> string \<Rightarrow> vault_db
     \<Rightarrow> (error + key_info list) \<times> vault_db" where
  "generateClientKeys cr cfg h env client requestedBy db =
     (let (s, db0) = getOrCreateMasterSeed cr cfg h env db in
      case master_root cr cfg h s of
        Inl e \<Rightarrow> (Inl e, db0)
      | Inr root \<Rightarrow>
          if \<exists>k \<in> set (derived_keys db0). dk_client k = client
          then (Inl (Conflict ''Client already has derived keys''), db0)
          else (case create_keys cr cfg h env root client None 0 (client_defs client) db0 of
                  Inl e \<Rightarrow> (Inl e, db0)
                | Inr (infos, db1) \<Rightarrow>
                    (Inr infos, foldl (\<lambda>d i. audit_log (ke_audit env)
                       (key_entry ''key_generated'' client requestedBy [(''derivationPath'', ki_path i)] i) d)
                       db1 infos)))"

section \<open>The gas-tank key of a client\<close>

definition chain_scope :: "int \<Rightarrow> string" where
  "chain_scope chain = ''evm:'' @ show_int chain"

definition gas_tank_path :: "int \<Rightarrow> ident \<Rightarrow> string" where
  "gas_tank_path chain index = ''m/44'/60'/1000'/'' @ show_int chain @ ''/'' @ show_int index"

definition deriveGasTankKey ::
    "aead \<Rightarrow> vault_config \<Rightarrow> hd \<Rightarrow> key_env \<Rightarrow> ident \<Rightarrow> int \<Rightarrow> string \<Rightarrow> vault_db
     \<Rightarrow> (error + key_info) \<times> vault_db" where
  "deriveGasTankKey cr cfg h env client chain requestedBy db =
     (case getMasterSeed db of
        Inl e \<Rightarrow> (Inl e, db)
      | Inr s \<Rightarrow>
     (case master_root cr cfg h s of
        Inl e \<Rightarrow> (Inl e, db)
      | Inr root \<Rightarrow>
     (case derive_path h root (gas_tank_path chain client) of
        Inl e \<Rightarrow> (Inl e, db)
      | Inr node \<Rightarrow>
     (case insert_key (new_key env (encrypt cr cfg (ke_draws env 0) (private_bytes node) None)
             client None KGasTank (chain_scope chain) node (gas_tank_path chain client)) db of
        Inl e \<Rightarrow> (Inl e, db)
      | Inr db1 \<Rightarrow>
          let info = info_of node (gas_tank_path chain client) KGasTank
          in (Inr info, audit_log (ke_audit env)
                ((key_entry ''gas_tank_key_derived'' client requestedBy
                   [(''derivationPath'', gas_tank_path chain client)] info)\<lparr>au_chain := Some chain\<rparr>) db1)))))"

section \<open>Queries\<close>

record public_key =
  pk_type :: key_type
  pk_publicKey :: string
  pk_address :: string
  pk_path :: string
  pk_scope :: string
  pk_active :: bool

definition public_of :: "derived_key \<Rightarrow> public_key" where
  "public_of k =
     \<lparr>pk_type = dk_type k, pk_publicKey = publicKey k, pk_address = dk_address k,
      pk_path = derivationPath k, pk_scope = chainScope k, pk_active = isActive k\<rparr>"

definition getPublicKeys :: "ident \<Rightarrow> vault_db \<Rightarrow> error + public_key list" where
  "getPublicKeys client db =
     (let keys = filter (\<lambda>k. dk_client k = client) (derived_keys db)
      in if keys = [] then Inl (NotFound ''No keys found for client'') else Inr (map public_of keys))"

text \<open>
  \<open>findFirst\<close> without an order: the first matching row in the order of the index on the client and
  the key type, which is the order of insertion.
\<close>

definition open_key :: "aead \<Rightarrow> vault_config \<Rightarrow> derived_key \<Rightarrow> error + bytes \<times> string \<times> ident" where
  "open_key cr cfg k =
     map_sum id (\<lambda>b. (b, dk_address k, row_id k)) (decrypt cr cfg (payload_of k) None None)"

definition active_key :: "ident \<Rightarrow> key_type \<Rightarrow> vault_db \<Rightarrow> derived_key option" where
  "active_key client t db =
     find (\<lambda>k. dk_client k = client \<and> dk_type k = t \<and> isActive k) (derived_keys db)"

definition decryptPrivateKey ::
    "aead \<Rightarrow> vault_config \<Rightarrow> ident \<Rightarrow> key_type \<Rightarrow> vault_db \<Rightarrow> error + bytes \<times> string \<times> ident" where
  "decryptPrivateKey cr cfg client t db =
     (case active_key client t db of
        None \<Rightarrow> Inl (NotFound ''Active key not found for client'')
      | Some k \<Rightarrow> open_key cr cfg k)"

definition scoped_key :: "ident \<Rightarrow> key_type \<Rightarrow> string \<Rightarrow> vault_db \<Rightarrow> derived_key option" where
  "scoped_key client t scope db =
     find (\<lambda>k. dk_client k = client \<and> dk_type k = t \<and> sql_eq (chainScope k) scope \<and> isActive k)
       (derived_keys db)"

definition decryptPrivateKeyForChain ::
    "aead \<Rightarrow> vault_config \<Rightarrow> ident \<Rightarrow> key_type \<Rightarrow> int \<Rightarrow> vault_db \<Rightarrow> error + bytes \<times> string \<times> ident" where
  "decryptPrivateKeyForChain cr cfg client t chain db =
     (case (case scoped_key client t (chain_scope chain) db of
              Some k \<Rightarrow> Some k
            | None \<Rightarrow> scoped_key client t ''evm'' db) of
        None \<Rightarrow> Inl (NotFound ''Active key not found for client and chain'')
      | Some k \<Rightarrow> open_key cr cfg k)"

section \<open>Lemmas\<close>

lemma new_key_fields [simp]:
  "dk_client (new_key env p c pr t sc n pa) = c" "dk_project (new_key env p c pr t sc n pa) = pr"
  "dk_type (new_key env p c pr t sc n pa) = t" "chainScope (new_key env p c pr t sc n pa) = sc"
  "derivationPath (new_key env p c pr t sc n pa) = pa" "isActive (new_key env p c pr t sc n pa)"
  "dk_address (new_key env p c pr t sc n pa) = node_address n"
  "publicKey (new_key env p c pr t sc n pa) = node_publicKey n"
  "payload_of (new_key env p c pr t sc n pa) = p\<lparr>ep_keyVersion := None\<rparr>"
  by (simp_all add: new_key_def) (simp_all add: store_payload_def)

lemma payload_of_row_id [simp]: "payload_of (k\<lparr>row_id := n\<rparr>) = payload_of k"
  by (simp add: payload_of_def)

lemma insert_key_appends:
  "insert_key k db = Inr db' \<Longrightarrow>
     db' = db\<lparr>derived_keys := derived_keys db @ [k\<lparr>row_id := next_key db\<rparr>], next_key := next_key db + 1\<rparr>
     \<and> key_fits k \<and> \<not> (\<exists>q \<in> set (derived_keys db). same_scope q k)"
  by (auto simp: insert_key_def split: if_splits)

text \<open>What one pass of the loop leaves behind: the rows, the infos, and nothing else.\<close>

fun derived_rows ::
    "aead \<Rightarrow> vault_config \<Rightarrow> hd \<Rightarrow> key_env \<Rightarrow> bytes \<Rightarrow> ident \<Rightarrow> ident option \<Rightarrow> nat \<Rightarrow> ident \<Rightarrow>
     (key_type \<times> string) list \<Rightarrow> derived_key list" where
  "derived_rows cr cfg h env root client project i n [] = []"
| "derived_rows cr cfg h env root client project i n ((t, path) # defs) =
     (new_key env (encrypt cr cfg (ke_draws env i) (private_bytes (projr (derive_path h root path))) None)
        client project t ''evm'' (projr (derive_path h root path)) path)\<lparr>row_id := n\<rparr>
     # derived_rows cr cfg h env root client project (Suc i) (n + 1) defs"

lemma create_keys_rows:
  "create_keys cr cfg h env root client project i defs db = Inr (infos, db') \<Longrightarrow>
     db' = db\<lparr>derived_keys := derived_keys db @ derived_rows cr cfg h env root client project i (next_key db) defs,
              next_key := next_key db + int (length defs)\<rparr>
     \<and> infos = map (\<lambda>(t, path). info_of (projr (derive_path h root path)) path t) defs
     \<and> (\<forall>d \<in> set defs. is_ok (derive_path h root (snd d)))"
proof (induction defs arbitrary: i db infos)
  case (Cons d defs)
  obtain t path where d: "d = (t, path)" by (cases d)
  from Cons.prems d obtain node where node: "derive_path h root path = Inr node"
    by (auto split: sum.splits)
  let ?k = "new_key env (encrypt cr cfg (ke_draws env i) (private_bytes node) None) client project t ''evm'' node path"
  from Cons.prems d node obtain db1 where ins: "insert_key ?k db = Inr db1"
    by (auto split: sum.splits)
  from Cons.prems d node ins obtain infos2 where
    rest: "create_keys cr cfg h env root client project (Suc i) defs db1 = Inr (infos2, db')"
    and infos: "infos = info_of node path t # infos2"
    by (auto split: sum.splits)
  have db1: "db1 = db\<lparr>derived_keys := derived_keys db @ [?k\<lparr>row_id := next_key db\<rparr>], next_key := next_key db + 1\<rparr>"
    using insert_key_appends [OF ins] by simp
  show ?case
    using Cons.IH [OF rest] by (simp add: d node db1 infos algebra_simps)
qed simp

lemma derived_rows_set:
  assumes "k \<in> set (derived_rows cr cfg h env root client project i n defs)"
  shows "\<exists>t path j m. (t, path) \<in> set defs \<and> k = (new_key env (encrypt cr cfg (ke_draws env j)
      (private_bytes (projr (derive_path h root path))) None) client project t ''evm''
      (projr (derive_path h root path)) path)\<lparr>row_id := m\<rparr>"
  using assms
proof (induction defs arbitrary: i n)
  case (Cons d defs)
  show ?case
  proof (cases d)
    case (Pair t path)
    with Cons.prems consider
      "k = (new_key env (encrypt cr cfg (ke_draws env i) (private_bytes (projr (derive_path h root path))) None)
         client project t ''evm'' (projr (derive_path h root path)) path)\<lparr>row_id := n\<rparr>"
      | "k \<in> set (derived_rows cr cfg h env root client project (Suc i) (n + 1) defs)"
      by auto
    then show ?thesis
    proof cases
      case 1
      then show ?thesis using Pair by auto
    next
      case 2
      then show ?thesis using Cons.IH by (meson list.set_intros(2))
    qed
  qed
qed simp

text \<open>A key just sealed opens under the configured password.\<close>

lemma open_new_key:
  assumes "aead_ok cr" "draws_ok d"
  shows "open_key cr cfg ((new_key env (encrypt cr cfg d b None) c pr t sc node path)\<lparr>row_id := n\<rparr>)
    = Inr (b, node_address node, n)"
  using decrypt_encrypt_same_count [OF assms, of None cfg b None]
  by (simp add: open_key_def)

section \<open>Derivation paths\<close>

lemma split_at_sep:
  "c \<notin> set xs \<Longrightarrow> c \<notin> set xs' \<Longrightarrow> xs @ c # ys = xs' @ c # ys' \<longleftrightarrow> xs = xs' \<and> ys = ys'"
proof (induction xs arbitrary: xs')
  case Nil
  then show ?case by (cases xs') auto
next
  case (Cons x xs)
  then show ?case by (cases xs') auto
qed

lemma show_int_chars: "c \<in> set (show_int i) \<Longrightarrow> is_digit c \<or> c = CHR ''-''"
  using show_nat_digits by (auto simp: show_int_def split: if_splits)

lemma show_int_plain [simp]: "CHR 0x27 \<notin> set (show_int i)" "CHR ''/'' \<notin> set (show_int i)"
  using show_int_chars [of _ i] by (force simp: is_digit_def)+

lemma client_path_inject:
  assumes "t \<noteq> KGasTank" "t' \<noteq> KGasTank"
  shows "client_path c t = client_path c' t' \<longleftrightarrow> c = c' \<and> t = t'"
proof
  assume "client_path c t = client_path c' t'"
  then have "show_int (c * 3 + client_index t) = show_int (c' * 3 + client_index t')"
    by (simp add: client_path_def split_at_sep)
  then have eq: "c * 3 + client_index t = c' * 3 + client_index t'" by simp
  have r: "0 \<le> client_index t" "client_index t < 3" "0 \<le> client_index t'" "client_index t' < 3"
    using assms by (cases t; cases t'; simp)+
  then have "c = c'" "client_index t = client_index t'" using eq by presburger+
  then show "c = c' \<and> t = t'" using assms by (cases t; cases t'; simp)
qed simp

lemma gas_tank_path_inject: "gas_tank_path a i = gas_tank_path b j \<longleftrightarrow> a = b \<and> i = j"
  by (simp add: gas_tank_path_def split_at_sep)

lemma show_int_0: "show_int 0 = ''0''"
  by code_simp

lemma gas_tank_path_client_path: "0 < chain \<Longrightarrow> gas_tank_path chain i \<noteq> client_path c t"
proof
  assume pos: "0 < chain" and "gas_tank_path chain i = client_path c t"
  then have "''1000'' @ CHR 0x27 # ''/'' @ show_int chain @ ''/'' @ show_int i
      = show_int (c * 3 + client_index t) @ CHR 0x27 # ''/0/0''"
    by (simp add: gas_tank_path_def client_path_def)
  then have "''/'' @ show_int chain @ ''/'' @ show_int i = ''/0/0''"
    by (subst (asm) split_at_sep) (auto simp del: append.simps)
  then have "show_int chain @ CHR ''/'' # show_int i = ''0'' @ CHR ''/'' # ''0''" by simp
  then have "show_int chain = ''0''" by (subst (asm) split_at_sep) auto
  then show False using pos show_int_0 show_int_inject [of chain 0] by simp
qed

lemma chain_scope_not_shared [simp]:
  "\<not> sql_eq ''evm'' (chain_scope c)" "\<not> sql_eq (chain_scope c) ''evm''"
  by (simp_all add: sql_eq_def chain_scope_def lower_def)

section \<open>The keys a client gets\<close>

lemma getOrCreate_latest:
  "getOrCreateMasterSeed cr cfg h env db = (s, db0) \<Longrightarrow>
     latest_seed db0 = Some s \<and> derived_keys db0 = derived_keys db \<and> next_key db0 = next_key db"
  by (cases "master_seeds db")
    (auto simp: getOrCreateMasterSeed_def latest_seed_def Let_def split: option.splits)

lemma generated:
  assumes "generateClientKeys cr cfg h env client requestedBy db = (Inr infos, db')"
  shows "\<exists>s root. latest_seed db' = Some s \<and> master_root cr cfg h s = Inr root
    \<and> (\<forall>k \<in> set (derived_keys db). dk_client k \<noteq> client)
    \<and> derived_keys db' = derived_keys db
       @ derived_rows cr cfg h env root client None 0 (next_key db) (client_defs client)
    \<and> infos = map (\<lambda>(t, path). info_of (projr (derive_path h root path)) path t) (client_defs client)
    \<and> (\<forall>d \<in> set (client_defs client). is_ok (derive_path h root (snd d)))"
proof -
  obtain s db0 where s: "getOrCreateMasterSeed cr cfg h env db = (s, db0)"
    by (cases "getOrCreateMasterSeed cr cfg h env db")
  note l = getOrCreate_latest [OF s]
  from assms s obtain root infos0 db1 where root: "master_root cr cfg h s = Inr root"
    and free: "\<not> (\<exists>k \<in> set (derived_keys db0). dk_client k = client)"
    and create: "create_keys cr cfg h env root client None 0 (client_defs client) db0 = Inr (infos0, db1)"
    and res: "infos0 = infos" "derived_keys db' = derived_keys db1" "master_seeds db' = master_seeds db1"
    by (auto simp: generateClientKeys_def split: sum.splits if_splits)
  note rows = create_keys_rows [OF create]
  have "latest_seed db' = Some s"
    using l res rows latest_seed_cong [of db' db0] by simp
  then show ?thesis
    using root free res rows l by (intro exI [of _ s] exI [of _ root]) auto
qed

lemma find_append_not: "\<forall>k \<in> set xs. \<not> P k \<Longrightarrow> find P (xs @ ys) = find P ys"
  by (induction xs) auto

text \<open>After the keys of a client are generated, every one of its three keys can be used at
  once: both look-ups open the private key that the master seed yields at the client's path, together
  with its address, for every chain; the caller is told that address, and no earlier key changes.\<close>

lemma generated_keys_open:
  assumes "aead_ok cr" "\<And>i. draws_ok (ke_draws env i)"
    and "generateClientKeys cr cfg h env client requestedBy db = (Inr infos, db')"
    and "t = KPlatform \<or> t = KClient \<or> t = KBackup"
  shows "\<exists>s root node n. latest_seed db' = Some s \<and> master_root cr cfg h s = Inr root
    \<and> derive_path h root (client_path client t) = Inr node
    \<and> decryptPrivateKey cr cfg client t db' = Inr (private_bytes node, node_address node, n)
    \<and> (\<forall>chain. decryptPrivateKeyForChain cr cfg client t chain db' = Inr (private_bytes node, node_address node, n))
    \<and> info_of node (client_path client t) t \<in> set infos
    \<and> take (length (derived_keys db)) (derived_keys db') = derived_keys db"
proof -
  from assms(3) obtain s root where s: "latest_seed db' = Some s" "master_root cr cfg h s = Inr root"
    and free: "\<And>k. k \<in> set (derived_keys db) \<Longrightarrow> dk_client k \<noteq> client"
    and rows: "derived_keys db' = derived_keys db
       @ derived_rows cr cfg h env root client None 0 (next_key db) (client_defs client)"
    and infos: "infos = map (\<lambda>(t, path). info_of (projr (derive_path h root path)) path t) (client_defs client)"
    and ok: "\<And>d. d \<in> set (client_defs client) \<Longrightarrow> is_ok (derive_path h root (snd d))"
    using generated [OF assms(3)] by blast
  have "(t, client_path client t) \<in> set (client_defs client)"
    using assms(4) by (auto simp: client_defs_def)
  with ok obtain node where node: "derive_path h root (client_path client t) = Inr node"
    by (metis Inr_pair fst_conv snd_conv is_ok_def sum.case_eq_if sum.collapse(2))
  let ?new = "derived_rows cr cfg h env root client None 0 (next_key db) (client_defs client)"
  obtain d n where key: "find (\<lambda>k. dk_client k = client \<and> dk_type k = t \<and> isActive k) ?new
      = Some ((new_key env (encrypt cr cfg (ke_draws env d) (private_bytes node) None) client None t ''evm''
          node (client_path client t))\<lparr>row_id := n\<rparr>)"
    and scoped: "find (\<lambda>k. dk_client k = client \<and> dk_type k = t \<and> sql_eq (chainScope k) ''evm'' \<and> isActive k) ?new
      = Some ((new_key env (encrypt cr cfg (ke_draws env d) (private_bytes node) None) client None t ''evm''
          node (client_path client t))\<lparr>row_id := n\<rparr>)"
    using assms(4) node by (auto simp: client_defs_def)
  have none: "find (\<lambda>k. dk_client k = client \<and> dk_type k = t \<and> sql_eq (chainScope k) (chain_scope c) \<and> isActive k)
      ?new = None" for c
    by (auto simp: client_defs_def)
  have "active_key client t db' = find (\<lambda>k. dk_client k = client \<and> dk_type k = t \<and> isActive k) ?new"
    "scoped_key client t sc db' = find (\<lambda>k. dk_client k = client \<and> dk_type k = t \<and> sql_eq (chainScope k) sc \<and> isActive k) ?new"
    for sc
    unfolding active_key_def scoped_key_def rows using free by (intro find_append_not; blast)+
  then have "decryptPrivateKey cr cfg client t db' = Inr (private_bytes node, node_address node, n)"
    "decryptPrivateKeyForChain cr cfg client t chain db' = Inr (private_bytes node, node_address node, n)" for chain
    using key scoped none open_new_key [OF assms(1,2)]
    by (simp_all add: decryptPrivateKey_def decryptPrivateKeyForChain_def)
  moreover have "info_of node (client_path client t) t \<in> set infos"
    using infos node assms(4) by (auto simp: client_defs_def)
  ultimately show ?thesis using s node rows by auto
qed

section \<open>An instance\<close>

text \<open>A small instance of the derivation, and an empty vault.\<close>

definition small_hd :: hd where
  "small_hd =
     \<lparr>mnemonic_phrase = (\<lambda>e. ''words''), phrase_root = (\<lambda>s. Inr (text_bytes s)),
      derive_path = (\<lambda>root path.
        Inr \<lparr>node_publicKey = ''0x04'', node_address = ''0xA'' @ path, node_privateKey = ''0x0102''\<rparr>)\<rparr>"

definition small_key_env :: key_env where
  "small_key_env =
     \<lparr>ke_now = 1000, ke_entropy = [], ke_seed_id = ''s'', ke_seed_draws = small_draws,
      ke_draws = (\<lambda>i. small_draws), ke_audit = (\<lambda>e. True)\<rparr>"

definition empty_vault :: vault_db where
  "empty_vault =
     \<lparr>projects = [1, 2], master_seeds = [], project_seeds = [], derived_keys = [], shamir_shares = [],
      audits = [], next_seed = 1, next_project_seed = 1, next_key = 1, next_share = 1\<rparr>"

lemma small_key_draws: "draws_ok (ke_draws small_key_env i)" "draws_ok (ke_seed_draws small_key_env)"
  by (simp_all add: small_key_env_def small_draws_ok)

lemma generated_keys_open_witness:
  "\<exists>infos db'. generateClientKeys small_aead small_config small_hd small_key_env 7 ''ops'' empty_vault = (Inr infos, db')
    \<and> is_ok (decryptPrivateKey small_aead small_config 7 KBackup db')"
proof -
  let ?x = "generateClientKeys small_aead small_config small_hd small_key_env 7 ''ops'' empty_vault"
  have ok: "is_ok (fst ?x)" by code_simp
  have x: "?x = (Inr (projr (fst ?x)), snd ?x)" by (rule Inr_pair) (rule ok)
  show ?thesis
    using generated_keys_open [OF small_aead_ok small_key_draws(1) x, of KBackup] x is_ok_simps(1) by metis
qed

end
