(* ===== verification/Shamir.thy ===== *)
theory Shamir
  imports KeyGeneration
begin

text \<open>
  The sharing of backup keys (services/key-vault-service/src/shamir/shamir.service.ts): a backup key
  is split by Shamir's scheme, each share is encrypted and stored, and enough shares give the key
  back. The secrets.js library, the public key of a private key, Keccak-256 and the address checksum
  are the fields of \<open>sss\<close>; \<open>shamir_env\<close> holds the random bytes, the clock and which inserts fail.
\<close>

section \<open>Parameters\<close>

record sss =
  sss_share :: "bytes \<Rightarrow> string \<Rightarrow> int \<Rightarrow> int \<Rightarrow> error + string list"
  sss_combine :: "string list \<Rightarrow> error + string"
  publicKeyCreate :: "bytes \<Rightarrow> error + bytes"
  keccak_hex :: "bytes \<Rightarrow> string"
  getAddress :: "string \<Rightarrow> string"

record shamir_env =
  sv_now :: millis
  sv_random :: bytes
  sv_draws :: "nat \<Rightarrow> draws"
  sv_create :: "nat \<Rightarrow> string option"
  sv_audit :: "audit_entry \<Rightarrow> bool"

definition DEFAULT_TOTAL_SHARES :: int where "DEFAULT_TOTAL_SHARES = 5"

definition DEFAULT_THRESHOLD :: int where "DEFAULT_THRESHOLD = 3"

definition DEFAULT_CUSTODIANS :: "string list" where
  "DEFAULT_CUSTODIANS =
     [''company_vault'', ''ceo_safe'', ''cto_safe'', ''legal_escrow'', ''bank_safe_deposit'']"

section \<open>Splitting\<close>

text \<open>
  A share index is a signed byte, a custodian at most 50 characters, and client, project and index
  are unique together where there is a project.
\<close>

definition insert_share :: "shamir_share \<Rightarrow> vault_db \<Rightarrow> error + vault_db" where
  "insert_share s db =
     (if 127 < shareIndex s \<or> 50 < length (custodian s) then Inl (InternalError ''Data out of range'')
      else if \<exists>q \<in> set (shamir_shares db). sh_project q \<noteq> None \<and> sh_project q = sh_project s
              \<and> sh_client q = sh_client s \<and> shareIndex q = shareIndex s
      then Inl (InternalError ''Unique constraint failed'')
      else Inr (db\<lparr>shamir_shares := shamir_shares db @ [s\<lparr>row_id := next_share db\<rparr>],
                  next_share := next_share db + 1\<rparr>))"

definition new_share ::
    "shamir_env \<Rightarrow> payload \<Rightarrow> ident \<Rightarrow> ident option \<Rightarrow> nat \<Rightarrow> string \<Rightarrow> shamir_share" where
  "new_share env p client project i cust =
     store_payload p
       \<lparr>row_id = 0, row_ciphertext = [], row_dek = [], row_iv = [], row_tag = [], row_salt = [],
        key_version = 1, sh_client = client, sh_project = project, shareIndex = int i + 1,
        custodian = cust, isDistributed = False, distributedAt = None, sh_created = sv_now env\<rparr>"

text \<open>The loop: each share is written on its own, so the shares before a failure stay.\<close>

fun store_shares ::
    "aead \<Rightarrow> vault_config \<Rightarrow> shamir_env \<Rightarrow> ident \<Rightarrow> ident option \<Rightarrow> nat \<Rightarrow> (string \<times> string) list \<Rightarrow>
     vault_db \<Rightarrow> (error + unit) \<times> vault_db" where
  "store_shares cr cfg env client project i [] db = (Inr (), db)"
| "store_shares cr cfg env client project i ((share, cust) # rest) db =
     (case sv_create env i of
        Some msg \<Rightarrow> (Inl (InternalError msg), db)
      | None \<Rightarrow>
          (case insert_share (new_share env (encrypt cr cfg (sv_draws env i) (text_bytes share) None)
                  client project i cust) db of
             Inl e \<Rightarrow> (Inl e, db)
           | Inr db1 \<Rightarrow> store_shares cr cfg env client project (Suc i) rest db1))"

definition project_backup :: "ident \<Rightarrow> vault_db \<Rightarrow> derived_key option" where
  "project_backup project db =
     find (\<lambda>k. dk_project k = Some project \<and> dk_type k = KBackup \<and> isActive k) (derived_keys db)"

definition backup_private_key ::
    "aead \<Rightarrow> vault_config \<Rightarrow> ident \<Rightarrow> ident option \<Rightarrow> vault_db \<Rightarrow> error + bytes" where
  "backup_private_key cr cfg client project db =
     (case project of
        Some p \<Rightarrow>
          (case project_backup p db of
             None \<Rightarrow> Inl (NotFound ''Active backup key not found for project'')
           | Some k \<Rightarrow> decrypt cr cfg (payload_of k) None None)
      | None \<Rightarrow> map_sum id fst (decryptPrivateKey cr cfg client KBackup db))"

definition scope_shares :: "ident \<Rightarrow> ident option \<Rightarrow> vault_db \<Rightarrow> shamir_share list" where
  "scope_shares client project db =
     filter (\<lambda>s. sh_client s = client \<and> sh_project s = project) (shamir_shares db)"

definition shamir_entry :: "string \<Rightarrow> ident \<Rightarrow> string option \<Rightarrow> string \<Rightarrow> (string \<times> string) list \<Rightarrow> audit_entry" where
  "shamir_entry operation client addr requestedBy meta =
     \<lparr>au_operation = operation, au_client = Some client, au_type = Some ''backup'', au_address = addr,
      au_tx = None, au_chain = None, au_requestedBy = requestedBy, au_metadata = meta\<rparr>"

record split_result =
  sr_client :: ident
  sr_project :: "ident option"
  sr_total :: int
  sr_threshold :: int
  sr_custodians :: "string list"

definition splitBackupKey ::
    "aead \<Rightarrow> vault_config \<Rightarrow> sss \<Rightarrow> shamir_env \<Rightarrow> ident \<Rightarrow> ident option \<Rightarrow> int \<Rightarrow> int \<Rightarrow> string list \<Rightarrow>
     string \<Rightarrow> vault_db \<Rightarrow> (error + split_result) \<times> vault_db" where
  "splitBackupKey cr cfg ss env client project total_shares threshold custodians requestedBy db =
     (if total_shares < threshold then (Inl (BadRequest ''threshold must be <= totalShares''), db)
      else if int (length custodians) \<noteq> total_shares
      then (Inl (BadRequest ''Number of custodians must match totalShares''), db)
      else if scope_shares client project db \<noteq> []
      then (Inl (BadRequest ''Shares already exist''), db)
      else (case backup_private_key cr cfg client project db of
              Inl e \<Rightarrow> (Inl e, db)
            | Inr key \<Rightarrow>
           (case sss_share ss (sv_random env) (bytes_hex key) total_shares threshold of
              Inl e \<Rightarrow> (Inl e, db)
            | Inr shares \<Rightarrow>
           (case store_shares cr cfg env client project 0 (zip shares custodians) db of
              (Inl e, db1) \<Rightarrow> (Inl e, db1)
            | (Inr _, db1) \<Rightarrow>
                (Inr \<lparr>sr_client = client, sr_project = project, sr_total = total_shares,
                      sr_threshold = threshold, sr_custodians = custodians\<rparr>,
                 audit_log (sv_audit env) (shamir_entry ''shamir_split'' client None requestedBy
                   ((case project of None \<Rightarrow> [] | Some p \<Rightarrow> [(''projectId'', show_int p)]) @
                    [(''totalShares'', show_int total_shares), (''threshold'', show_int threshold)])) db1)))))"

section \<open>The status of the shares\<close>

record share_info =
  si_project :: "ident option"
  si_index :: int
  si_custodian :: string
  si_distributed :: bool

record share_status =
  st_total :: nat
  st_distributed :: nat
  st_shares :: "share_info list"

definition share_info_of :: "shamir_share \<Rightarrow> share_info" where
  "share_info_of s = \<lparr>si_project = sh_project s, si_index = shareIndex s, si_custodian = custodian s,
     si_distributed = isDistributed s\<rparr>"

text \<open>Without a project the status covers the shares of all projects of the client.\<close>

definition getShareStatus :: "ident \<Rightarrow> ident option \<Rightarrow> vault_db \<Rightarrow> error + share_status" where
  "getShareStatus client project db =
     (let shares = sort_key shareIndex (filter (\<lambda>s. sh_client s = client
              \<and> (case project of None \<Rightarrow> True | Some p \<Rightarrow> sh_project s = Some p)) (shamir_shares db))
      in if shares = [] then Inl (NotFound ''No shares found'')
         else Inr \<lparr>st_total = length shares, st_distributed = length (filter isDistributed shares),
                   st_shares = map share_info_of shares\<rparr>)"

section \<open>Reconstruction\<close>

fun open_shares :: "aead \<Rightarrow> vault_config \<Rightarrow> shamir_share list \<Rightarrow> error + string list" where
  "open_shares cr cfg [] = Inr []"
| "open_shares cr cfg (s # ss) =
     (case decrypt cr cfg (payload_of s) None None of
        Inl e \<Rightarrow> Inl e
      | Inr b \<Rightarrow> map_sum id ((#) (bytes_text b)) (open_shares cr cfg ss))"

text \<open>\<open>getAddress('0x' + keccak256(pub without its first byte).slice(-40))\<close>.\<close>

definition eth_address :: "sss \<Rightarrow> bytes \<Rightarrow> string" where
  "eth_address ss pub =
     (let hash = keccak_hex ss (drop 1 pub)
      in getAddress ss (''0x'' @ drop (length hash - 40) hash))"

definition stored_backup :: "ident \<Rightarrow> ident option \<Rightarrow> vault_db \<Rightarrow> derived_key option" where
  "stored_backup client project db =
     (case project of Some p \<Rightarrow> project_backup p db | None \<Rightarrow> active_key client KBackup db)"

definition reconstructBackupKey ::
    "aead \<Rightarrow> vault_config \<Rightarrow> sss \<Rightarrow> shamir_env \<Rightarrow> ident \<Rightarrow> int list \<Rightarrow> string \<Rightarrow> ident option \<Rightarrow> vault_db
     \<Rightarrow> (error + string \<times> string) \<times> vault_db" where
  "reconstructBackupKey cr cfg ss env client indices requestedBy project db =
     (if int (length indices) < DEFAULT_THRESHOLD
      then (Inl (BadRequest ''Minimum 3 shares required for reconstruction''), db)
      else
        let shares = filter (\<lambda>s. shareIndex s \<in> set indices) (scope_shares client project db) in
        if length shares < length indices then (Inl (NotFound ''Some shares not found''), db)
        else (case open_shares cr cfg shares of
                Inl e \<Rightarrow> (Inl e, db)
              | Inr texts \<Rightarrow>
             (case sss_combine ss texts of
                Inl e \<Rightarrow> (Inl e, db)
              | Inr hex \<Rightarrow>
             (case publicKeyCreate ss (hex_bytes hex) of
                Inl e \<Rightarrow> (Inl e, db)
              | Inr pub \<Rightarrow>
             (case stored_backup client project db of
                None \<Rightarrow> (Inl (NotFound ''No stored backup key found''), db)
              | Some k \<Rightarrow>
                  if lower (eth_address ss pub) \<noteq> lower (dk_address k)
                  then (Inl (InternalError ''Reconstructed key does not match stored backup address''), db)
                  else (Inr (eth_address ss pub, ''0x'' @ bytes_hex pub),
                        audit_log (sv_audit env)
                          (shamir_entry ''shamir_reconstruct'' client (Some (eth_address ss pub)) requestedBy
                            ((case project of None \<Rightarrow> [] | Some p \<Rightarrow> [(''projectId'', show_int p)]) @
                             [(''shareCount'', show_nat (length shares))])) db))))))"

section \<open>What the sharing promises\<close>

text \<open>
  What secrets.js documents: a secret is split into as many shares as asked for, and any set of at
  least the threshold of them combines to the secret.
\<close>

definition sss_ok :: "sss \<Rightarrow> bool" where
  "sss_ok ss \<longleftrightarrow>
     (\<forall>rand s n k shares. sss_share ss rand s n k = Inr shares \<longrightarrow>
        int (length shares) = n \<and>
        (\<forall>I. I \<subseteq> {..<length shares} \<longrightarrow> k \<le> int (card I) \<longrightarrow> sss_combine ss (nths shares I) = Inr s))"

section \<open>What a split leaves\<close>

fun share_rows ::
    "aead \<Rightarrow> vault_config \<Rightarrow> shamir_env \<Rightarrow> ident \<Rightarrow> ident option \<Rightarrow> nat \<Rightarrow> ident \<Rightarrow>
     (string \<times> string) list \<Rightarrow> shamir_share list" where
  "share_rows cr cfg env client project i n [] = []"
| "share_rows cr cfg env client project i n ((share, cust) # rest) =
     (new_share env (encrypt cr cfg (sv_draws env i) (text_bytes share) None) client project i cust)\<lparr>row_id := n\<rparr>
     # share_rows cr cfg env client project (Suc i) (n + 1) rest"

lemma new_share_fields [simp]:
  "sh_client (new_share env p c pr i cu) = c" "sh_project (new_share env p c pr i cu) = pr"
  "shareIndex (new_share env p c pr i cu) = int i + 1"
  "payload_of (new_share env p c pr i cu) = p\<lparr>ep_keyVersion := None\<rparr>"
  by (simp_all add: new_share_def) (simp_all add: store_payload_def)

lemma insert_share_appends:
  "insert_share s db = Inr db' \<Longrightarrow>
     db' = db\<lparr>shamir_shares := shamir_shares db @ [s\<lparr>row_id := next_share db\<rparr>], next_share := next_share db + 1\<rparr>"
  by (auto simp: insert_share_def split: if_splits)

text \<open>A split that stops leaves the shares before the failure; one that ends leaves them all.\<close>

lemma store_shares_prefix:
  "store_shares cr cfg env client project i l db = (res, db') \<Longrightarrow>
     \<exists>j \<le> length l. db' = db\<lparr>shamir_shares := shamir_shares db
           @ share_rows cr cfg env client project i (next_share db) (take j l), next_share := next_share db + int j\<rparr>
       \<and> (is_ok res \<longleftrightarrow> j = length l)"
proof (induction l arbitrary: i db)
  case (Cons x l)
  obtain share cust where x: "x = (share, cust)" by (cases x)
  let ?s = "new_share env (encrypt cr cfg (sv_draws env i) (text_bytes share) None) client project i cust"
  show ?case
  proof (cases "sv_create env i")
    case (Some msg)
    with Cons.prems x show ?thesis by (intro exI [of _ 0]) auto
  next
    case create: None
    show ?thesis
    proof (cases "insert_share ?s db")
      case (Inl e)
      with Cons.prems x create show ?thesis by (intro exI [of _ 0]) auto
    next
      case (Inr db1)
      with Cons.prems x create have rest: "store_shares cr cfg env client project (Suc i) l db1 = (res, db')"
        by simp
      note db1 = insert_share_appends [OF Inr]
      from Cons.IH [OF rest] obtain j where j: "j \<le> length l"
        "db' = db1\<lparr>shamir_shares := shamir_shares db1
           @ share_rows cr cfg env client project (Suc i) (next_share db1) (take j l), next_share := next_share db1 + int j\<rparr>"
        "is_ok res \<longleftrightarrow> j = length l" by blast
      then show ?thesis
        using x db1 by (intro exI [of _ "Suc j"]) simp
    qed
  qed
qed auto

lemma share_rows_fields:
  "s \<in> set (share_rows cr cfg env client project i n l) \<Longrightarrow> sh_client s = client \<and> sh_project s = project"
  by (induction l arbitrary: i n) auto

lemma length_share_rows [simp]: "length (share_rows cr cfg env client project i n l) = length l"
  by (induction l arbitrary: i n) auto

lemma scope_shares_split:
  "scope_shares client project db = [] \<Longrightarrow>
   shamir_shares db' = shamir_shares db @ share_rows cr cfg env client project i n l \<Longrightarrow>
   scope_shares client project db' = share_rows cr cfg env client project i n l"
  using share_rows_fields by (fastforce simp: scope_shares_def filter_id_conv)

lemma open_share_rows:
  assumes "aead_ok cr" "\<And>i. draws_ok (sv_draws env i)"
  shows "length cust = length shares \<Longrightarrow>
    open_shares cr cfg (filter (\<lambda>s. shareIndex s \<in> S) (share_rows cr cfg env client project i n (zip shares cust)))
      = Inr (nths shares {j. int (i + j) + 1 \<in> S})"
proof (induction cust shares arbitrary: i n rule: list_induct2)
  case (Cons c cs x xs)
  have "decrypt cr cfg (encrypt cr cfg (sv_draws env i) (text_bytes x) None) None None = Inr (text_bytes x)"
    using assms by (simp add: decrypt_encrypt_same_count)
  moreover have "{j. int (i + Suc j) + 1 \<in> S} = {j. int (Suc i + j) + 1 \<in> S}"
    by simp
  ultimately show ?case
    using Cons.IH [of "Suc i" "n + 1"] by (simp add: nths_Cons algebra_simps)
qed simp

lemma length_open_shares: "open_shares cr cfg ss = Inr texts \<Longrightarrow> length texts = length ss"
  by (induction ss arbitrary: texts) (auto split: sum.splits simp: map_sum_def)

lemma chosen_shares:
  assumes "distinct idx" "set idx \<subseteq> {1..int n}"
  shows "{j. int j + 1 \<in> set idx} \<subseteq> {..<n}" "card {j. int j + 1 \<in> set idx} = length idx"
proof -
  show "{j. int j + 1 \<in> set idx} \<subseteq> {..<n}" using assms(2) by auto
  have "(\<lambda>j. int j + 1) ` {j. int j + 1 \<in> set idx} = set idx"
  proof
    show "set idx \<subseteq> (\<lambda>j. int j + 1) ` {j. int j + 1 \<in> set idx}"
    proof
      fix x assume x: "x \<in> set idx"
      then have "x = int (nat (x - 1)) + 1" using assms(2) by force
      with x show "x \<in> (\<lambda>j. int j + 1) ` {j. int j + 1 \<in> set idx}"
        by (intro image_eqI [of _ _ "nat (x - 1)"]) simp_all
    qed
  qed auto
  then show "card {j. int j + 1 \<in> set idx} = length idx"
    using assms(1) by (metis (no_types, lifting) card_image distinct_card inj_onI of_nat_eq_iff add_right_cancel)
qed

lemma backup_key_opened:
  "stored_backup client project db = Some k \<Longrightarrow>
     backup_private_key cr cfg client project db = decrypt cr cfg (payload_of k) None None"
  by (auto simp: stored_backup_def backup_private_key_def decryptPrivateKey_def open_key_def sum.map_comp
      comp_def map_sum.identity id_def split: option.splits)

lemma stored_backup_cong: "derived_keys a = derived_keys b \<Longrightarrow> stored_backup c p a = stored_backup c p b"
  by (simp add: stored_backup_def project_backup_def active_key_def split: option.split)

lemma split_ok:
  assumes "splitBackupKey cr cfg ss env client project n k custodians requestedBy db = (Inr res, db')"
  shows "\<exists>key shares. backup_private_key cr cfg client project db = Inr key
    \<and> sss_share ss (sv_random env) (bytes_hex key) n k = Inr shares
    \<and> k \<le> n \<and> int (length custodians) = n \<and> scope_shares client project db = []
    \<and> shamir_shares db' = shamir_shares db
        @ share_rows cr cfg env client project 0 (next_share db) (zip shares custodians)
    \<and> derived_keys db' = derived_keys db"
proof -
  from assms obtain key shares db1 where
    a: "k \<le> n" "int (length custodians) = n" "scope_shares client project db = []"
      "backup_private_key cr cfg client project db = Inr key"
      "sss_share ss (sv_random env) (bytes_hex key) n k = Inr shares"
    and st: "store_shares cr cfg env client project 0 (zip shares custodians) db = (Inr (), db1)"
    and db': "shamir_shares db' = shamir_shares db1" "derived_keys db' = derived_keys db1"
    by (auto simp: splitBackupKey_def split: if_splits sum.splits prod.splits)
  from store_shares_prefix [OF st] have
    "db1 = db\<lparr>shamir_shares := shamir_shares db
           @ share_rows cr cfg env client project 0 (next_share db) (zip shares custodians),
         next_share := next_share db + int (length (zip shares custodians))\<rparr>"
    by auto
  then show ?thesis using a db' by auto
qed


section \<open>An instance\<close>

text \<open>A small instance of the sharing, in which every share is the secret, and a vault with a backup key.\<close>

definition small_sss :: sss where
  "small_sss =
     \<lparr>sss_share = (\<lambda>rand s n k. if k < 1 \<or> n < k then Inl (InternalError ''invalid'') else Inr (replicate (nat n) s)),
      sss_combine = (\<lambda>ys. case ys of [] \<Rightarrow> Inl (InternalError ''invalid'') | y # _ \<Rightarrow> Inr y),
      publicKeyCreate = (\<lambda>b. Inr (4 # b)), keccak_hex = bytes_hex, getAddress = (\<lambda>s. ''0xa'')\<rparr>"

definition small_shamir_env :: "(nat \<Rightarrow> string option) \<Rightarrow> shamir_env" where
  "small_shamir_env fails =
     \<lparr>sv_now = 0, sv_random = [], sv_draws = (\<lambda>i. small_draws), sv_create = fails, sv_audit = (\<lambda>e. True)\<rparr>"

definition small_backup :: derived_key where
  "small_backup =
     new_key small_key_env (encrypt small_aead small_config small_draws [1, 2] None) 7 (Some 1) KBackup ''evm''
       \<lparr>node_publicKey = ''0x04'', node_address = ''0xA'', node_privateKey = ''0x0102''\<rparr> ''m''"

lemma small_sss_ok: "sss_ok small_sss"
  unfolding sss_ok_def
proof (intro allI impI)
  fix rand s n k shares
  assume "sss_share small_sss rand s n k = Inr shares"
  then have k: "1 \<le> k" "k \<le> n" and shares: "shares = replicate (nat n) s"
    by (auto simp: small_sss_def split: if_splits)
  have "sss_combine small_sss (nths shares I) = Inr s" if "I \<subseteq> {..<length shares}" "k \<le> int (card I)" for I
  proof -
    have "length (nths shares I) = card I"
      using that(1) unfolding length_nths by (intro arg_cong [of _ _ card]) auto
    moreover have "set (nths shares I) \<subseteq> {s}"
      using set_nths_subset [of shares I] shares by auto
    ultimately show ?thesis
      using that(2) k by (cases "nths shares I") (auto simp: small_sss_def)
  qed
  then show "int (length shares) = n \<and> (\<forall>I. I \<subseteq> {..<length shares} \<longrightarrow> k \<le> int (card I)
      \<longrightarrow> sss_combine small_sss (nths shares I) = Inr s)"
    using k shares by simp
qed

lemma small_shamir_draws: "draws_ok (sv_draws (small_shamir_env f) i)"
  by (simp add: small_shamir_env_def small_draws_ok)


section \<open>Interrupted splits\<close>

lemma split_writes_only_shares:
  "splitBackupKey cr cfg ss env client project n k custodians requestedBy db = (r, db') \<Longrightarrow>
     derived_keys db' = derived_keys db \<and> project_seeds db' = project_seeds db \<and> projects db' = projects db
     \<and> master_seeds db' = master_seeds db \<and> next_key db' = next_key db"
  by (auto simp: splitBackupKey_def dest!: store_shares_prefix split: if_splits sum.splits prod.splits)

text \<open>A split that stopped after its first share blocks every later one, whatever its parameters.\<close>

lemma partial_split_blocks:
  assumes "scope_shares client project db \<noteq> []"
  shows "\<exists>e. splitBackupKey cr cfg ss env client project n k custodians requestedBy db = (Inl e, db)"
  using assms by (simp add: splitBackupKey_def)

lemma too_few_shares:
  assumes "length (scope_shares client project db) < 3"
  shows "\<exists>e. reconstructBackupKey cr cfg ss env client indices requestedBy project db = (Inl e, db)"
proof (cases "int (length indices) < DEFAULT_THRESHOLD")
  case True
  then show ?thesis by (simp add: reconstructBackupKey_def)
next
  case False
  then have "3 \<le> length indices" by (simp add: DEFAULT_THRESHOLD_def)
  then have "length (filter (\<lambda>s. shareIndex s \<in> set indices) (scope_shares client project db)) < length indices"
    using assms length_filter_le [of "\<lambda>s. shareIndex s \<in> set indices" "scope_shares client project db"]
    by linarith
  then show ?thesis using False by (simp add: reconstructBackupKey_def Let_def)
qed

end
