(* ===== verification/ProjectKeys.thy ===== *)
theory ProjectKeys
  imports Shamir
begin

text \<open>
  The keys of a project
  (services/key-vault-service/src/key-generation/project-key.service.ts): the project's own mnemonic,
  its three keys and their sharing, its gas-tank keys, and the queries. The existence check on the
  project reads another database and is the list \<open>projects\<close> of the state.
\<close>

section \<open>The seed of a project\<close>

definition find_seed :: "ident \<Rightarrow> vault_db \<Rightarrow> project_seed option" where
  "find_seed project db = find (\<lambda>s. ps_project s = project) (project_seeds db)"

definition new_project_seed :: "aead \<Rightarrow> vault_config \<Rightarrow> key_env \<Rightarrow> string \<Rightarrow> ident \<Rightarrow> vault_db \<Rightarrow> project_seed" where
  "new_project_seed cr cfg env phrase project db =
     store_payload (encryptString cr cfg (ke_seed_draws env) phrase None)
       \<lparr>row_id = next_project_seed db, row_ciphertext = [], row_dek = [], row_iv = [], row_tag = [],
        row_salt = [], key_version = 1, ps_project = project, ps_iterations = kdfIterations cfg,
        seedShownToClient = False, shamirSplitDone = False, ps_created = ke_now env\<rparr>"

definition generateProjectSeed ::
    "aead \<Rightarrow> vault_config \<Rightarrow> hd \<Rightarrow> key_env \<Rightarrow> ident \<Rightarrow> string \<Rightarrow> vault_db \<Rightarrow> (error + string \<times> ident) \<times> vault_db" where
  "generateProjectSeed cr cfg h env project requestedBy db =
     (if project \<notin> set (projects db) then (Inl (NotFound ''Project not found''), db)
      else if find_seed project db \<noteq> None then (Inl (Conflict ''Project already has a seed''), db)
      else
        let phrase = mnemonic_phrase h (ke_entropy env);
            db1 = db\<lparr>project_seeds := project_seeds db @ [new_project_seed cr cfg env phrase project db],
                     next_project_seed := next_project_seed db + 1\<rparr>
        in (Inr (phrase, project),
            audit_log (ke_audit env)
              (seed_entry ''project_seed_created'' requestedBy [(''projectId'', show_int project)]) db1))"

definition project_root :: "aead \<Rightarrow> vault_config \<Rightarrow> hd \<Rightarrow> project_seed \<Rightarrow> error + bytes" where
  "project_root cr cfg h s =
     (case decryptToString cr cfg (payload_of s) (Some (ps_iterations s)) None of
        Inl e \<Rightarrow> Inl e
      | Inr phrase \<Rightarrow> phrase_root h phrase)"

section \<open>The keys of a project\<close>

definition project_path :: "key_type \<Rightarrow> string" where
  "project_path t = ''m/44'/60'/'' @ show_int (client_index t) @ [CHR 0x27] @ ''/0/0''"

definition project_defs :: "(key_type \<times> string) list" where
  "project_defs = map (\<lambda>t. (t, project_path t)) [KPlatform, KClient, KBackup]"

definition set_split_done :: "ident \<Rightarrow> vault_db \<Rightarrow> vault_db" where
  "set_split_done project db =
     db\<lparr>project_seeds := update_where (\<lambda>s. ps_project s = project) (\<lambda>s. s\<lparr>shamirSplitDone := True\<rparr>)
         (project_seeds db)\<rparr>"

definition generateProjectKeys ::
    "aead \<Rightarrow> vault_config \<Rightarrow> hd \<Rightarrow> sss \<Rightarrow> key_env \<Rightarrow> shamir_env \<Rightarrow> ident \<Rightarrow> ident \<Rightarrow> string \<Rightarrow> string \<Rightarrow>
     vault_db \<Rightarrow> (error + key_info list) \<times> vault_db" where
  "generateProjectKeys cr cfg h ss env senv project client custodyMode requestedBy db =
     (case find_seed project db of
        None \<Rightarrow> (Inl (NotFound ''No seed found for project''), db)
      | Some seed \<Rightarrow>
     (case project_root cr cfg h seed of
        Inl e \<Rightarrow> (Inl e, db)
      | Inr root \<Rightarrow>
          if \<exists>k \<in> set (derived_keys db). dk_project k = Some project
          then (Inl (Conflict ''Project already has derived keys''), db)
          else
     (case create_keys cr cfg h env root client (Some project) 0 project_defs db of
        Inl e \<Rightarrow> (Inl e, db)
      | Inr (infos, db1) \<Rightarrow>
     (case splitBackupKey cr cfg ss senv client (Some project) DEFAULT_TOTAL_SHARES DEFAULT_THRESHOLD
             DEFAULT_CUSTODIANS requestedBy db1 of
        (Inl e, db2) \<Rightarrow> (Inl e, db2)
      | (Inr _, db2) \<Rightarrow>
          (Inr infos, foldl (\<lambda>d i. audit_log (ke_audit env)
             (key_entry ''project_key_generated'' client requestedBy
               [(''projectId'', show_int project), (''derivationPath'', ki_path i), (''custodyMode'', custodyMode)] i) d)
             (set_split_done project db2) infos)))))"

section \<open>The gas-tank key of a project\<close>

definition project_gas_tank :: "ident \<Rightarrow> int \<Rightarrow> vault_db \<Rightarrow> derived_key option" where
  "project_gas_tank project chain db =
     find (\<lambda>k. dk_project k = Some project \<and> dk_type k = KGasTank \<and> sql_eq (chainScope k) (chain_scope chain))
       (derived_keys db)"

definition key_info_of :: "derived_key \<Rightarrow> key_type \<Rightarrow> key_info" where
  "key_info_of k t =
     \<lparr>ki_publicKey = publicKey k, ki_address = dk_address k, ki_path = derivationPath k, ki_type = t\<rparr>"

definition deriveProjectGasTankKey ::
    "aead \<Rightarrow> vault_config \<Rightarrow> hd \<Rightarrow> key_env \<Rightarrow> ident \<Rightarrow> ident \<Rightarrow> int \<Rightarrow> string \<Rightarrow> vault_db
     \<Rightarrow> (error + key_info) \<times> vault_db" where
  "deriveProjectGasTankKey cr cfg h env project client chain requestedBy db =
     (case find_seed project db of
        None \<Rightarrow> (Inl (NotFound ''No seed found for project''), db)
      | Some seed \<Rightarrow>
     (case project_gas_tank project chain db of
        Some k \<Rightarrow> (Inr (key_info_of k KGasTank), db)
      | None \<Rightarrow>
     (case project_root cr cfg h seed of
        Inl e \<Rightarrow> (Inl e, db)
      | Inr root \<Rightarrow>
     (case derive_path h root (gas_tank_path chain 0) of
        Inl e \<Rightarrow> (Inl e, db)
      | Inr node \<Rightarrow>
     (case insert_key (new_key env (encrypt cr cfg (ke_draws env 0) (private_bytes node) None)
             client (Some project) KGasTank (chain_scope chain) node (gas_tank_path chain 0)) db of
        Inl e \<Rightarrow> (Inl e, db)
      | Inr db1 \<Rightarrow>
          let info = info_of node (gas_tank_path chain 0) KGasTank
          in (Inr info, audit_log (ke_audit env)
                ((key_entry ''project_gas_tank_key_derived'' client requestedBy
                   [(''projectId'', show_int project), (''derivationPath'', gas_tank_path chain 0)] info)
                   \<lparr>au_chain := Some chain\<rparr>) db1))))))"

section \<open>The remaining operations\<close>

definition markSeedShown :: "ident \<Rightarrow> vault_db \<Rightarrow> (error + ident \<times> bool) \<times> vault_db" where
  "markSeedShown project db =
     (case find_seed project db of
        None \<Rightarrow> (Inl (NotFound ''No seed found for project''), db)
      | Some s \<Rightarrow> (Inr (project, True),
          db\<lparr>project_seeds := update_where (\<lambda>s. ps_project s = project) (\<lambda>s. s\<lparr>seedShownToClient := True\<rparr>)
              (project_seeds db)\<rparr>))"

definition getProjectPublicKeys :: "ident \<Rightarrow> vault_db \<Rightarrow> error + public_key list" where
  "getProjectPublicKeys project db =
     (let keys = filter (\<lambda>k. dk_project k = Some project \<and> isActive k) (derived_keys db)
      in if keys = [] then Inl (NotFound ''No keys found for project'') else Inr (map public_of keys))"

definition decryptProjectKey ::
    "aead \<Rightarrow> vault_config \<Rightarrow> ident \<Rightarrow> key_type \<Rightarrow> vault_db \<Rightarrow> error + bytes \<times> string \<times> ident" where
  "decryptProjectKey cr cfg project t db =
     (case find (\<lambda>k. dk_project k = Some project \<and> dk_type k = t \<and> isActive k) (derived_keys db) of
        None \<Rightarrow> Inl (NotFound ''Active key not found for project'')
      | Some k \<Rightarrow> open_key cr cfg k)"

section \<open>Lemmas\<close>

lemma set_split_done_frame [simp]:
  "derived_keys (set_split_done p db) = derived_keys db" "shamir_shares (set_split_done p db) = shamir_shares db"
  by (simp_all add: set_split_done_def)

lemma find_seed_split_done: "find_seed p db = Some s \<Longrightarrow> find_seed p (set_split_done p db) = Some (s\<lparr>shamirSplitDone := True\<rparr>)"
  by (auto simp: find_seed_def set_split_done_def find_update_where dest: find_SomeD)

lemma find_seed_cong: "project_seeds a = project_seeds b \<Longrightarrow> find_seed p a = find_seed p b"
  by (simp add: find_seed_def)

text \<open>What a successful generation did, and what one whose sharing failed has left.\<close>

lemma project_generated:
  assumes "generateProjectKeys cr cfg h ss env senv project client mode requestedBy db = (Inr infos, db')"
  shows "\<exists>seed root db1 res db2. find_seed project db = Some seed \<and> project_root cr cfg h seed = Inr root
    \<and> \<not> (\<exists>k \<in> set (derived_keys db). dk_project k = Some project)
    \<and> create_keys cr cfg h env root client (Some project) 0 project_defs db = Inr (infos, db1)
    \<and> splitBackupKey cr cfg ss senv client (Some project) DEFAULT_TOTAL_SHARES DEFAULT_THRESHOLD
         DEFAULT_CUSTODIANS requestedBy db1 = (Inr res, db2)
    \<and> derived_keys db' = derived_keys db2 \<and> shamir_shares db' = shamir_shares db2
    \<and> find_seed project db' = Some (seed\<lparr>shamirSplitDone := True\<rparr>)"
proof -
  from assms obtain seed root db1 res db2 infos' where
    a: "find_seed project db = Some seed" "project_root cr cfg h seed = Inr root"
      "\<not> (\<exists>k \<in> set (derived_keys db). dk_project k = Some project)"
      "create_keys cr cfg h env root client (Some project) 0 project_defs db = Inr (infos', db1)"
      "splitBackupKey cr cfg ss senv client (Some project) DEFAULT_TOTAL_SHARES DEFAULT_THRESHOLD
         DEFAULT_CUSTODIANS requestedBy db1 = (Inr res, db2)"
    and r: "infos' = infos" "derived_keys db' = derived_keys (set_split_done project db2)"
      "shamir_shares db' = shamir_shares (set_split_done project db2)"
      "project_seeds db' = project_seeds (set_split_done project db2)"
    by (auto simp: generateProjectKeys_def split: option.splits sum.splits if_splits prod.splits)
  have "project_seeds db2 = project_seeds db"
    using split_writes_only_shares [OF a(5)] create_keys_rows [OF a(4)] by simp
  then have "find_seed project db2 = Some seed"
    using a(1) find_seed_cong by metis
  then have "find_seed project db' = Some (seed\<lparr>shamirSplitDone := True\<rparr>)"
    using find_seed_split_done find_seed_cong [OF r(4)] by metis
  then show ?thesis using a r by auto
qed

lemma derived_rows_find:
  assumes "t = KPlatform \<or> t = KClient \<or> t = KBackup"
  shows "\<exists>i n. find (\<lambda>k. dk_project k = Some p \<and> dk_type k = t \<and> isActive k)
      (derived_rows cr cfg h env root client (Some p) 0 m project_defs)
    = Some ((new_key env (encrypt cr cfg (ke_draws env i) (private_bytes (projr (derive_path h root (project_path t)))) None)
        client (Some p) t ''evm'' (projr (derive_path h root (project_path t))) (project_path t))\<lparr>row_id := n\<rparr>)"
  using assms by (auto simp: project_defs_def)

text \<open>When the keys of a project are generated, each of the project's three keys opens to the
  private key that the project's own mnemonic yields at the project path, five shares of the backup key
  are stored with the five custodians in order, and the seed is marked as shared.\<close>

lemma generated_project_keys_open:
  assumes "aead_ok cr" "sss_ok ss" "\<And>i. draws_ok (ke_draws env i)"
    and "generateProjectKeys cr cfg h ss env senv project client mode requestedBy db = (Inr infos, db')"
    and "t = KPlatform \<or> t = KClient \<or> t = KBackup"
  shows "\<exists>seed root node n. find_seed project db = Some seed \<and> project_root cr cfg h seed = Inr root
    \<and> derive_path h root (project_path t) = Inr node
    \<and> decryptProjectKey cr cfg project t db' = Inr (private_bytes node, node_address node, n)
    \<and> map custodian (scope_shares client (Some project) db') = DEFAULT_CUSTODIANS
    \<and> find_seed project db' = Some (seed\<lparr>shamirSplitDone := True\<rparr>)"
proof -
  from project_generated [OF assms(4)] obtain seed root db1 res db2 where
    a: "find_seed project db = Some seed" "project_root cr cfg h seed = Inr root"
      "\<not> (\<exists>k \<in> set (derived_keys db). dk_project k = Some project)"
      "create_keys cr cfg h env root client (Some project) 0 project_defs db = Inr (infos, db1)"
    and split: "splitBackupKey cr cfg ss senv client (Some project) DEFAULT_TOTAL_SHARES DEFAULT_THRESHOLD
         DEFAULT_CUSTODIANS requestedBy db1 = (Inr res, db2)"
    and r: "derived_keys db' = derived_keys db2" "shamir_shares db' = shamir_shares db2"
      "find_seed project db' = Some (seed\<lparr>shamirSplitDone := True\<rparr>)"
    by blast
  note rows = create_keys_rows [OF a(4)]
  have keys: "derived_keys db' = derived_keys db
      @ derived_rows cr cfg h env root client (Some project) 0 (next_key db) project_defs"
    using rows r split_writes_only_shares [OF split] by simp
  obtain node where node: "derive_path h root (project_path t) = Inr node"
    using rows assms(5) by (auto simp: project_defs_def is_ok_def split: sum.splits)
  have "find (\<lambda>k. dk_project k = Some project \<and> dk_type k = t \<and> isActive k) (derived_keys db')
      = find (\<lambda>k. dk_project k = Some project \<and> dk_type k = t \<and> isActive k)
          (derived_rows cr cfg h env root client (Some project) 0 (next_key db) project_defs)"
    unfolding keys using a(3) by (intro find_append_not) blast
  then obtain i n where "find (\<lambda>k. dk_project k = Some project \<and> dk_type k = t \<and> isActive k) (derived_keys db')
      = Some ((new_key env (encrypt cr cfg (ke_draws env i) (private_bytes node) None)
          client (Some project) t ''evm'' node (project_path t))\<lparr>row_id := n\<rparr>)"
    using derived_rows_find [OF assms(5), of project cr cfg h env root client "next_key db"] node by auto
  then have "decryptProjectKey cr cfg project t db' = Inr (private_bytes node, node_address node, n)"
    using open_new_key [OF assms(1,3)] by (simp add: decryptProjectKey_def)
  moreover obtain shares where none: "scope_shares client (Some project) db1 = []"
    and len: "length shares = 5"
    and sh: "shamir_shares db2 = shamir_shares db1
        @ share_rows cr cfg senv client (Some project) 0 (next_share db1) (zip shares DEFAULT_CUSTODIANS)"
    using split_ok [OF split] assms(2) unfolding sss_ok_def DEFAULT_TOTAL_SHARES_def by force
  moreover have "map custodian (scope_shares client (Some project) db') = DEFAULT_CUSTODIANS"
  proof -
    have "scope_shares client (Some project) db'
        = share_rows cr cfg senv client (Some project) 0 (next_share db1) (zip shares DEFAULT_CUSTODIANS)"
      using scope_shares_split [OF none sh] r(2) by (simp add: scope_shares_def)
    moreover have "map custodian (share_rows cr cfg senv c p i n (zip xs ys)) = ys" if "length xs = length ys" for c p i n xs ys
      using that by (induction xs ys arbitrary: i n rule: list_induct2)
        (simp_all add: new_share_def store_payload_def)
    ultimately show ?thesis using len by (simp add: DEFAULT_CUSTODIANS_def)
  qed
  ultimately show ?thesis using a node r by blast
qed

section \<open>Keys of a second project\<close>

text \<open>
  The signing operations look keys up by client and type. A client with two projects has two keys of
  each type, and only the first is ever found.
\<close>

lemma find_append_found: "find P xs = Some x \<Longrightarrow> find P (xs @ ys) = find P xs"
  by (simp add: find_append_Some)

lemma generation_appends:
  assumes "generateProjectKeys cr cfg h ss env senv project client mode requestedBy db = (Inr infos, db')"
  shows "\<exists>rows. derived_keys db' = derived_keys db @ rows \<and> length rows = 3
    \<and> (\<forall>k \<in> set rows. dk_client k = client \<and> dk_project k = Some project \<and> chainScope k = ''evm'')"
proof -
  from project_generated [OF assms] obtain root db1 res db2 where
    c: "create_keys cr cfg h env root client (Some project) 0 project_defs db = Inr (infos, db1)"
    and s: "splitBackupKey cr cfg ss senv client (Some project) DEFAULT_TOTAL_SHARES DEFAULT_THRESHOLD
         DEFAULT_CUSTODIANS requestedBy db1 = (Inr res, db2)" and r: "derived_keys db' = derived_keys db2"
    by blast
  have "derived_keys db' = derived_keys db
      @ derived_rows cr cfg h env root client (Some project) 0 (next_key db) project_defs"
    using create_keys_rows [OF c] split_writes_only_shares [OF s] r by simp
  moreover have "\<forall>k \<in> set (derived_rows cr cfg h env root client (Some project) 0 (next_key db) project_defs).
      dk_client k = client \<and> dk_project k = Some project \<and> chainScope k = ''evm''"
    using derived_rows_set by (fastforce simp: new_key_def store_payload_def)
  ultimately show ?thesis by (auto simp: project_defs_def)
qed

text \<open>Once a client has an active key of some type, the keys of a further project never reach the
  signing operations: the look-up by client, and the look-up by client and chain where that key has the
  shared EVM scope, answer exactly what they answered before the further project's keys existed, although
  the project's own look-up opens a key of its own.\<close>

lemma second_project_keys_are_never_used:
  assumes "generateProjectKeys cr cfg h ss env senv project client mode requestedBy db = (Inr infos, db')"
    and "k \<in> set (derived_keys db)" "dk_client k = client" "dk_type k = t" "isActive k" "chainScope k = ''evm''"
    and "t = KPlatform \<or> t = KClient \<or> t = KBackup"
  shows "decryptPrivateKey cr cfg client t db' = decryptPrivateKey cr cfg client t db
    \<and> (\<forall>chain. decryptPrivateKeyForChain cr cfg client t chain db' = decryptPrivateKeyForChain cr cfg client t chain db)
    \<and> (\<exists>own. find (\<lambda>k. dk_project k = Some project \<and> dk_type k = t \<and> isActive k) (derived_keys db') = Some own
          \<and> own \<notin> set (derived_keys db) \<and> dk_client own = client
          \<and> active_key client t db' \<noteq> Some own)"
proof -
  from generation_appends [OF assms(1)] obtain rows where rows: "derived_keys db' = derived_keys db @ rows"
    and fresh: "\<forall>k \<in> set rows. dk_client k = client \<and> dk_project k = Some project \<and> chainScope k = ''evm''"
    by blast
  obtain q where q: "active_key client t db = Some q"
    using assms(2-5) unfolding active_key_def by (cases "find (\<lambda>k. dk_client k = client \<and> dk_type k = t \<and> isActive k) (derived_keys db)")
      (auto simp: find_None_iff)
  obtain q' where q': "scoped_key client t ''evm'' db = Some q'"
    using assms(2-6) unfolding scoped_key_def
    by (cases "find (\<lambda>k. dk_client k = client \<and> dk_type k = t \<and> sql_eq (chainScope k) ''evm'' \<and> isActive k) (derived_keys db)")
      (auto simp: find_None_iff)
  have active: "active_key client t db' = active_key client t db"
    using q unfolding active_key_def rows by (simp add: find_append_found)
  have evm: "scoped_key client t ''evm'' db' = scoped_key client t ''evm'' db"
    using q' unfolding scoped_key_def rows by (simp add: find_append_found)
  have chain: "scoped_key client t (chain_scope c) db' = scoped_key client t (chain_scope c) db" for c
  proof (cases "scoped_key client t (chain_scope c) db")
    case None
    then have "scoped_key client t (chain_scope c) db' =
        find (\<lambda>k. dk_client k = client \<and> dk_type k = t \<and> sql_eq (chainScope k) (chain_scope c) \<and> isActive k) rows"
      unfolding scoped_key_def rows by (rule find_append_None)
    also have "\<dots> = None" using fresh by (auto simp: find_None_iff)
    finally show ?thesis using None by simp
  next
    case (Some x)
    then show ?thesis unfolding scoped_key_def rows by (simp add: find_append_found)
  qed
  from project_generated [OF assms(1)] obtain root db1 db2 res where
    free: "\<not> (\<exists>k \<in> set (derived_keys db). dk_project k = Some project)"
    and c: "create_keys cr cfg h env root client (Some project) 0 project_defs db = Inr (infos, db1)"
    and s: "splitBackupKey cr cfg ss senv client (Some project) DEFAULT_TOTAL_SHARES DEFAULT_THRESHOLD
         DEFAULT_CUSTODIANS requestedBy db1 = (Inr res, db2)" and r: "derived_keys db' = derived_keys db2"
    by blast
  have "rows = derived_rows cr cfg h env root client (Some project) 0 (next_key db) project_defs"
    using rows create_keys_rows [OF c] split_writes_only_shares [OF s] r by simp
  then obtain own where own: "find (\<lambda>k. dk_project k = Some project \<and> dk_type k = t \<and> isActive k) rows = Some own"
    using derived_rows_find [OF assms(7), of project cr cfg h env root client "next_key db"] by auto
  then have "find (\<lambda>k. dk_project k = Some project \<and> dk_type k = t \<and> isActive k) (derived_keys db') = Some own"
    unfolding rows using free by (subst find_append_not) auto
  moreover have "own \<notin> set (derived_keys db)" "dk_client own = client"
    using find_SomeD [OF own] free fresh by auto
  moreover have "q \<in> set (derived_keys db)" using q unfolding active_key_def by (rule find_SomeD [THEN conjunct2])
  ultimately show ?thesis
    using q unfolding decryptPrivateKey_def decryptPrivateKeyForChain_def active evm chain by auto
qed

section \<open>Interrupted generation\<close>

text \<open>A generation whose sharing fails cannot be completed: the three keys are committed, every
  later generation for the project is refused, and if a first share was written every later split of the
  backup key is refused as well, while fewer than three shares never give the key back.\<close>

lemma interrupted_project_keys_are_stuck:
  assumes "find_seed project db = Some seed" "project_root cr cfg h seed = Inr root"
    and "\<not> (\<exists>k \<in> set (derived_keys db). dk_project k = Some project)"
    and "create_keys cr cfg h env root client (Some project) 0 project_defs db = Inr (infos, db1)"
    and "splitBackupKey cr cfg ss senv client (Some project) DEFAULT_TOTAL_SHARES DEFAULT_THRESHOLD
         DEFAULT_CUSTODIANS requestedBy db1 = (Inl e, db2)"
  shows "generateProjectKeys cr cfg h ss env senv project client mode requestedBy db = (Inl e, db2)
    \<and> length (filter (\<lambda>k. dk_project k = Some project) (derived_keys db2)) = 3
    \<and> (\<forall>env' senv' mode' who. \<exists>m. generateProjectKeys cr cfg h ss env' senv' project client mode' who db2 = (Inl (Conflict m), db2))
    \<and> (scope_shares client (Some project) db2 \<noteq> [] \<longrightarrow>
         (\<forall>senv' n k cust who. \<exists>m. splitBackupKey cr cfg ss senv' client (Some project) n k cust who db2 = (Inl m, db2)))
    \<and> (length (scope_shares client (Some project) db2) < 3 \<longrightarrow>
         (\<forall>senv' idx who. \<exists>m. reconstructBackupKey cr cfg ss senv' client idx who (Some project) db2 = (Inl m, db2)))"
proof -
  have gen: "generateProjectKeys cr cfg h ss env senv project client mode requestedBy db = (Inl e, db2)"
    using assms by (auto simp: generateProjectKeys_def)
  note frame = split_writes_only_shares [OF assms(5)] and rows = create_keys_rows [OF assms(4)]
  have seeds: "find_seed project db2 = Some seed"
    using assms(1) frame rows by (simp add: find_seed_def)
  have keys: "derived_keys db2 = derived_keys db
      @ derived_rows cr cfg h env root client (Some project) 0 (next_key db) project_defs"
    using frame rows by simp
  have "filter (\<lambda>k. dk_project k = Some project) (derived_keys db) = []"
    using assms(3) by (auto simp: filter_empty_conv)
  then have three: "length (filter (\<lambda>k. dk_project k = Some project) (derived_keys db2)) = 3"
    unfolding keys by (simp add: project_defs_def)
  have "\<exists>k \<in> set (derived_keys db2). dk_project k = Some project"
  proof (rule ccontr)
    assume "\<not> ?thesis"
    then have "filter (\<lambda>k. dk_project k = Some project) (derived_keys db2) = []"
      by (auto simp: filter_empty_conv)
    with three show False by simp
  qed
  then have stuck: "\<exists>m. generateProjectKeys cr cfg h ss env' senv' project client mode' who db2 = (Inl (Conflict m), db2)" for env' senv' mode' who
    using seeds assms(2) by (auto simp: generateProjectKeys_def)
  show ?thesis
    by (intro conjI impI allI)
      (rule gen three stuck | (rule partial_split_blocks, assumption) | (rule too_few_shares, assumption))+
qed

section \<open>Gas tanks\<close>

lemma show_nat_long: "10 ^ k \<le> n \<Longrightarrow> k < length (show_nat n)"
proof (induction k arbitrary: n)
  case (Suc k)
  have "10 * 10 ^ k \<le> n" "(1::nat) \<le> 10 ^ k" using Suc.prems by simp_all
  then have "\<not> n < 10" by linarith
  moreover have "10 ^ k \<le> n div 10" using Suc.prems by simp
  ultimately show ?case using Suc.IH [of "n div 10"] by (subst show_nat.simps) simp
qed simp

lemma chain_scope_too_long: "1000000 \<le> chain \<Longrightarrow> 10 < length (chain_scope chain)"
  using show_nat_long [of 6 "nat chain"] by (simp add: chain_scope_def show_int_def nat_le_iff le_nat_iff)

text \<open>A chain whose identifier has seven digits or more never gets a gas-tank key: the scope
  \<open>evm:<id>\<close> does not fit its column, so both derivations fail and leave the keys as they were.\<close>

lemma long_chain_ids_have_no_gas_tank:
  assumes "1000000 \<le> chain" "\<forall>k \<in> set (derived_keys db). length (chainScope k) \<le> 10"
  shows "\<exists>e e'. deriveGasTankKey cr cfg h env client chain requestedBy db = (Inl e, db)
    \<and> deriveProjectGasTankKey cr cfg h env project client chain requestedBy db = (Inl e', db)"
proof -
  note long = chain_scope_too_long [OF assms(1)]
  have ins: "insert_key (new_key env p c pr t (chain_scope chain) node path) db
      = Inl (InternalError ''Data too long for column'')" for p c pr t node path
    using long by (simp add: insert_key_def key_fits_def)
  have "project_gas_tank project chain db = None"
  proof -
    have "\<not> sql_eq (chainScope k) (chain_scope chain)" if "k \<in> set (derived_keys db)" for k
      using assms(2) that long by (auto simp: sql_eq_def lower_def dest!: arg_cong [of _ _ length])
    then show ?thesis by (auto simp: project_gas_tank_def find_None_iff)
  qed
  moreover have "\<exists>e. deriveGasTankKey cr cfg h env client chain requestedBy db = (Inl e, db)"
    unfolding deriveGasTankKey_def ins by (simp split: sum.split)
  ultimately show ?thesis
    unfolding deriveProjectGasTankKey_def ins by (simp split: option.split sum.split)
qed

text \<open>Deriving the same project's gas tank again answers the same key and writes nothing.\<close>

lemma project_gas_tank_is_derived_once:
  assumes "deriveProjectGasTankKey cr cfg h env project client chain requestedBy db = (Inr info, db')"
  shows "deriveProjectGasTankKey cr cfg h env' project client' chain who db' = (Inr info, db')"
proof (cases "project_gas_tank project chain db")
  case (Some k)
  with assms show ?thesis by (auto simp: deriveProjectGasTankKey_def split: option.splits)
next
  case None
  from assms None obtain seed root node db1 where
    a: "find_seed project db = Some seed" "derive_path h root (gas_tank_path chain 0) = Inr node"
    and ins: "insert_key (new_key env (encrypt cr cfg (ke_draws env 0) (private_bytes node) None)
             client (Some project) KGasTank (chain_scope chain) node (gas_tank_path chain 0)) db = Inr db1"
    and info: "info = info_of node (gas_tank_path chain 0) KGasTank"
    and db': "derived_keys db' = derived_keys db1" "project_seeds db' = project_seeds db1"
    by (auto simp: deriveProjectGasTankKey_def Let_def split: option.splits sum.splits)
  have find: "project_gas_tank project chain db' = Some ((new_key env (encrypt cr cfg (ke_draws env 0) (private_bytes node) None)
             client (Some project) KGasTank (chain_scope chain) node (gas_tank_path chain 0))\<lparr>row_id := next_key db\<rparr>)"
    using None insert_key_appends [OF ins] unfolding project_gas_tank_def db' by (simp add: find_append_None)
  have "find_seed project db' = Some seed"
    using a(1) insert_key_appends [OF ins] db' by (simp add: find_seed_def)
  with find show ?thesis
    by (simp add: deriveProjectGasTankKey_def key_info_of_def info info_of_def)
qed

section \<open>Instances\<close>

definition small_project_vault :: vault_db where
  "small_project_vault =
     empty_vault\<lparr>project_seeds :=
       [new_project_seed small_aead small_config small_key_env ''words'' 1 empty_vault,
        new_project_seed small_aead small_config small_key_env ''words'' 2 empty_vault]\<rparr>"

lemma generated_project_keys_open_witness:
  "\<exists>infos db'. generateProjectKeys small_aead small_config small_hd small_sss small_key_env
       (small_shamir_env (\<lambda>i. None)) 1 7 ''co_sign'' ''ops'' small_project_vault = (Inr infos, db')
     \<and> is_ok (decryptProjectKey small_aead small_config 1 KBackup db')
     \<and> map custodian (scope_shares 7 (Some 1) db') = DEFAULT_CUSTODIANS"
proof -
  let ?x = "generateProjectKeys small_aead small_config small_hd small_sss small_key_env
    (small_shamir_env (\<lambda>i. None)) 1 7 ''co_sign'' ''ops'' small_project_vault"
  have ok: "is_ok (fst ?x)" by code_simp
  have x: "?x = (Inr (projr (fst ?x)), snd ?x)" by (rule Inr_pair) (rule ok)
  show ?thesis
    using generated_project_keys_open [OF small_aead_ok small_sss_ok small_key_draws(1) x, of KBackup]
      x is_ok_simps(1) by metis
qed

lemma small_backup_fields: "dk_client small_backup = 7" "dk_type small_backup = KBackup" "isActive small_backup"
  "chainScope small_backup = ''evm''"
  by (simp_all add: small_backup_def)

lemma second_project_keys_are_never_used_witness:
  "\<exists>infos db'. generateProjectKeys small_aead small_config small_hd small_sss small_key_env
       (small_shamir_env (\<lambda>i. None)) 2 7 ''co_sign'' ''ops'' (small_project_vault\<lparr>derived_keys := [small_backup]\<rparr>)
       = (Inr infos, db')
     \<and> decryptPrivateKey small_aead small_config 7 KBackup db'
       = decryptPrivateKey small_aead small_config 7 KBackup (small_project_vault\<lparr>derived_keys := [small_backup]\<rparr>)"
proof -
  let ?db = "small_project_vault\<lparr>derived_keys := [small_backup]\<rparr>"
  let ?x = "generateProjectKeys small_aead small_config small_hd small_sss small_key_env
    (small_shamir_env (\<lambda>i. None)) 2 7 ''co_sign'' ''ops'' ?db"
  have ok: "is_ok (fst ?x)" by code_simp
  have x: "?x = (Inr (projr (fst ?x)), snd ?x)" by (rule Inr_pair) (rule ok)
  have k: "small_backup \<in> set (derived_keys ?db)" by simp
  show ?thesis
    using second_project_keys_are_never_used [OF x k small_backup_fields] x by auto
qed

lemma interrupted_project_keys_are_stuck_witness:
  "\<exists>e db2. generateProjectKeys small_aead small_config small_hd small_sss small_key_env
       (small_shamir_env (\<lambda>i. if i = 1 then Some ''down'' else None)) 1 7 ''co_sign'' ''ops'' small_project_vault
       = (Inl e, db2)
     \<and> length (filter (\<lambda>k. dk_project k = Some 1) (derived_keys db2)) = 3
     \<and> (\<exists>m. generateProjectKeys small_aead small_config small_hd small_sss small_key_env
          (small_shamir_env (\<lambda>i. None)) 1 7 ''co_sign'' ''ops'' db2 = (Inl (Conflict m), db2))"
proof -
  let ?senv = "small_shamir_env (\<lambda>i. if i = 1 then Some ''down'' else None)"
  let ?seed = "new_project_seed small_aead small_config small_key_env ''words'' 1 empty_vault"
  let ?c = "create_keys small_aead small_config small_hd small_key_env (text_bytes ''words'') 7 (Some 1) 0
    project_defs small_project_vault"
  let ?s = "splitBackupKey small_aead small_config small_sss ?senv 7 (Some 1) DEFAULT_TOTAL_SHARES
    DEFAULT_THRESHOLD DEFAULT_CUSTODIANS ''ops'' (snd (projr ?c))"
  have seed: "find_seed 1 small_project_vault = Some ?seed"
    by (simp add: find_seed_def small_project_vault_def new_project_seed_def store_payload_def)
  have root: "project_root small_aead small_config small_hd ?seed = Inr (text_bytes ''words'')" by code_simp
  have none: "\<not> (\<exists>k \<in> set (derived_keys small_project_vault). dk_project k = Some 1)"
    by (simp add: small_project_vault_def empty_vault_def)
  have c: "?c = Inr (fst (projr ?c), snd (projr ?c))"
  proof -
    have "is_ok ?c" by code_simp
    then show ?thesis by (cases ?c) (simp_all add: is_ok_def)
  qed
  have "\<not> is_ok (fst ?s)" by code_simp
  then have s: "?s = (Inl (projl (fst ?s)), snd ?s)" by (rule Inl_pair)
  show ?thesis
    using interrupted_project_keys_are_stuck [OF seed root none c s, of "''co_sign''"] by blast
qed

lemma long_chain_ids_have_no_gas_tank_witness:
  "\<exists>e. deriveProjectGasTankKey small_aead small_config small_hd small_key_env 1 7 11155111 ''ops'' small_project_vault
     = (Inl e, small_project_vault)"
  using long_chain_ids_have_no_gas_tank [of 11155111 small_project_vault small_aead small_config small_hd
      small_key_env 7 "''ops''" 1]
  by (auto simp: small_project_vault_def empty_vault_def)

end
