(* ===== verification/Signing.thy ===== *)
theory Signing
  imports KeyGeneration
begin

text \<open>
  The signing operations (services/key-vault-service/src/signing/signing.service.ts): signatures are
  brought to low-S form, the key's usage is counted, the signing is audited. The native ECDSA and the
  transaction codec of the ethers library are the fields of \<open>signer\<close>. Hashes and amounts are texts, as
  the controller receives them.
\<close>

section \<open>Parameters\<close>

datatype tx_fee = DynamicFee int int | LegacyFee int | NoFee

record tx_fields =
  tf_to :: "string option"
  tf_data :: string
  tf_value :: string
  tf_gasLimit :: int
  tf_nonce :: int
  tf_chainId :: int
  tf_fee :: tx_fee

record signature =
  sg_r :: string
  sg_s :: string
  sg_v :: int
  sg_serialized :: string

record signer =
  ecdsaSign :: "bytes \<Rightarrow> bytes \<Rightarrow> error + bytes \<times> int"
  tx_unsigned_hash :: "tx_fields \<Rightarrow> error + string"
  tx_serialize :: "tx_fields \<Rightarrow> string \<Rightarrow> string \<Rightarrow> int \<Rightarrow> error + string \<times> string"

section \<open>Numbers\<close>

text \<open>\<open>BigInt('0x' + buf.toString('hex'))\<close>, \<open>n.toString(16)\<close> and \<open>padStart\<close>.\<close>

definition be_int :: "bytes \<Rightarrow> int" where
  "be_int bs = foldl (\<lambda>acc b. acc * 256 + uint b) 0 bs"

fun hex_nat :: "nat \<Rightarrow> string" where
  "hex_nat n = (if n < 16 then [hex_digit n] else hex_nat (n div 16) @ [hex_digit (n mod 16)])"

declare hex_nat.simps [simp del]

definition show_hex :: "int \<Rightarrow> string" where
  "show_hex i = (if i < 0 then ''-'' @ hex_nat (nat (- i)) else hex_nat (nat i))"

definition padStart :: "nat \<Rightarrow> string \<Rightarrow> string" where
  "padStart n s = replicate (n - length s) (CHR ''0'') @ s"

definition SECP256K1_N :: int where
  "SECP256K1_N = 0xFFFFFFFFFFFFFFFFFFFFFFFFFFFFFFFEBAAEDCE6AF48A03BBFD25E8CD0364141"

definition SECP256K1_N_HALF :: int where
  "SECP256K1_N_HALF = SECP256K1_N div 2"

text \<open>
  \<open>BigInt(s)\<close> on a request's text: empty is zero, hexadecimal with its prefix, otherwise decimal.
  Surrounding blanks, a plus sign and the binary and octal prefixes are taken as errors here.
\<close>

definition js_big_int :: "string \<Rightarrow> int option" where
  "js_big_int s =
     (if s = [] then Some 0
      else if take 2 s = ''0x'' \<and> drop 2 s \<noteq> [] \<and> list_all (\<lambda>c. hex_val c \<noteq> None) (drop 2 s) then parse_hex s
      else big_int s)"

section \<open>One signature\<close>

definition signMessageHash :: "signer \<Rightarrow> bytes \<Rightarrow> bytes \<Rightarrow> error + signature" where
  "signMessageHash sg msgHash privateKey =
     (case ecdsaSign sg msgHash privateKey of
        Inl e \<Rightarrow> Inl e
      | Inr (sig, recid) \<Rightarrow>
          let r = take 32 sig;
              s0 = take 32 (drop 32 sig);
              v0 = recid + 27;
              sBigInt = be_int s0;
              (s, v) = (if SECP256K1_N_HALF < sBigInt
                        then (hex_bytes (padStart 64 (show_hex (SECP256K1_N - sBigInt))),
                              if v0 = 27 then 28 else 27)
                        else (s0, v0));
              rHex = padStart 64 (bytes_hex r);
              sHex = padStart 64 (bytes_hex s);
              vHex = padStart 2 (show_hex v)
          in Inr \<lparr>sg_r = ''0x'' @ rHex, sg_s = ''0x'' @ sHex, sg_v = v,
                  sg_serialized = ''0x'' @ rHex @ sHex @ vHex\<rparr>)"

text \<open>\<open>Buffer.from(hash.startsWith('0x') ? hash.slice(2) : hash, 'hex')\<close>.\<close>

definition hash_bytes :: "string \<Rightarrow> bytes" where
  "hash_bytes h = hex_bytes (if take 2 h = ''0x'' then drop 2 h else h)"

section \<open>Operations\<close>

record sign_env =
  sn_now :: millis
  sn_audit :: "audit_entry \<Rightarrow> bool"

record signature_result =
  sr_signature :: signature
  sr_address :: string

definition use_key :: "millis \<Rightarrow> ident \<Rightarrow> int \<Rightarrow> vault_db \<Rightarrow> vault_db" where
  "use_key now n count db =
     db\<lparr>derived_keys := update_where (\<lambda>k. row_id k = n)
         (\<lambda>k. k\<lparr>lastUsedAt := Some now, signCount := signCount k + count\<rparr>) (derived_keys db)\<rparr>"

definition sign_entry ::
    "string \<Rightarrow> ident \<Rightarrow> key_type \<Rightarrow> string \<Rightarrow> string option \<Rightarrow> int option \<Rightarrow> string \<Rightarrow> (string \<times> string) list \<Rightarrow> audit_entry" where
  "sign_entry operation client t addr tx chain requestedBy meta =
     \<lparr>au_operation = operation, au_client = Some client, au_type = Some (key_type_text t),
      au_address = Some addr, au_tx = tx, au_chain = chain, au_requestedBy = requestedBy, au_metadata = meta\<rparr>"

definition signHash ::
    "aead \<Rightarrow> vault_config \<Rightarrow> signer \<Rightarrow> sign_env \<Rightarrow> ident \<Rightarrow> string \<Rightarrow> key_type \<Rightarrow> string \<Rightarrow> vault_db
     \<Rightarrow> (error + signature_result) \<times> vault_db" where
  "signHash cr cfg sg env client hash t requestedBy db =
     (case decryptPrivateKey cr cfg client t db of
        Inl e \<Rightarrow> (Inl e, db)
      | Inr (key, addr, n) \<Rightarrow>
     (case signMessageHash sg (hash_bytes hash) key of
        Inl e \<Rightarrow> (Inl e, db)
      | Inr sig \<Rightarrow>
          (Inr \<lparr>sr_signature = sig, sr_address = addr\<rparr>,
           audit_log (sn_audit env) (sign_entry ''sign_hash'' client t addr (Some hash) None requestedBy [])
             (use_key (sn_now env) n 1 db))))"

fun sign_all :: "signer \<Rightarrow> bytes \<Rightarrow> string \<Rightarrow> string list \<Rightarrow> error + signature_result list" where
  "sign_all sg key addr [] = Inr []"
| "sign_all sg key addr (h # hs) =
     (case signMessageHash sg (hash_bytes h) key of
        Inl e \<Rightarrow> Inl e
      | Inr sig \<Rightarrow> map_sum id ((#) \<lparr>sr_signature = sig, sr_address = addr\<rparr>) (sign_all sg key addr hs))"

definition signBatch ::
    "aead \<Rightarrow> vault_config \<Rightarrow> signer \<Rightarrow> sign_env \<Rightarrow> ident \<Rightarrow> string list \<Rightarrow> key_type \<Rightarrow> string \<Rightarrow> vault_db
     \<Rightarrow> (error + signature_result list) \<times> vault_db" where
  "signBatch cr cfg sg env client hashes t requestedBy db =
     (case decryptPrivateKey cr cfg client t db of
        Inl e \<Rightarrow> (Inl e, db)
      | Inr (key, addr, n) \<Rightarrow>
     (case sign_all sg key addr hashes of
        Inl e \<Rightarrow> (Inl e, db)
      | Inr results \<Rightarrow>
          (Inr results,
           audit_log (sn_audit env) (sign_entry ''sign_batch'' client t addr None None requestedBy
               [(''hashCount'', show_nat (length hashes))])
             (use_key (sn_now env) n (int (length hashes)) db))))"

record tx_data =
  td_to :: "string option"
  td_data :: string
  td_value :: "string option"
  td_gasLimit :: string
  td_gasPrice :: "string option"
  td_maxFeePerGas :: "string option"
  td_maxPriorityFeePerGas :: "string option"
  td_nonce :: int
  td_chainId :: int

definition syntax_error :: error where "syntax_error = InternalError ''SyntaxError''"

text \<open>The fee fields are chosen by truthiness, so an empty text is an absent one.\<close>

definition fee_of :: "tx_data \<Rightarrow> error + tx_fee" where
  "fee_of d =
     (case or_null (td_maxFeePerGas d) of
        Some m \<Rightarrow>
          (case (js_big_int m, js_big_int (case td_maxPriorityFeePerGas d of None \<Rightarrow> ''0'' | Some p \<Rightarrow> p)) of
             (Some x, Some y) \<Rightarrow> Inr (DynamicFee x y)
           | _ \<Rightarrow> Inl syntax_error)
      | None \<Rightarrow>
          (case or_null (td_gasPrice d) of
             Some g \<Rightarrow> (case js_big_int g of Some x \<Rightarrow> Inr (LegacyFee x) | None \<Rightarrow> Inl syntax_error)
           | None \<Rightarrow> Inr NoFee))"

definition tx_of :: "tx_data \<Rightarrow> error + tx_fields" where
  "tx_of d =
     (case js_big_int (td_gasLimit d) of
        None \<Rightarrow> Inl syntax_error
      | Some gas \<Rightarrow> map_sum id (\<lambda>fee.
          \<lparr>tf_to = td_to d, tf_data = td_data d,
           tf_value = (case td_value d of None \<Rightarrow> ''0'' | Some v \<Rightarrow> v), tf_gasLimit = gas,
           tf_nonce = td_nonce d, tf_chainId = td_chainId d, tf_fee = fee\<rparr>) (fee_of d))"

record signed_tx =
  stx_raw :: string
  stx_hash :: string
  stx_from :: string

definition signTransaction ::
    "aead \<Rightarrow> vault_config \<Rightarrow> signer \<Rightarrow> sign_env \<Rightarrow> ident \<Rightarrow> int \<Rightarrow> key_type \<Rightarrow> tx_data \<Rightarrow> string \<Rightarrow> vault_db
     \<Rightarrow> (error + signed_tx) \<times> vault_db" where
  "signTransaction cr cfg sg env client chain t d requestedBy db =
     (case decryptPrivateKeyForChain cr cfg client t chain db of
        Inl e \<Rightarrow> (Inl e, db)
      | Inr (key, addr, n) \<Rightarrow>
     (case tx_of d of
        Inl e \<Rightarrow> (Inl e, db)
      | Inr tx \<Rightarrow>
     (case tx_unsigned_hash sg tx of
        Inl e \<Rightarrow> (Inl e, db)
      | Inr unsignedHash \<Rightarrow>
     (case signMessageHash sg (hex_bytes (drop 2 unsignedHash)) key of
        Inl e \<Rightarrow> (Inl e, db)
      | Inr sig \<Rightarrow>
     (case tx_serialize sg tx (sg_r sig) (sg_s sig) (sg_v sig) of
        Inl e \<Rightarrow> (Inl e, db)
      | Inr (raw, txHash) \<Rightarrow>
          (Inr \<lparr>stx_raw = raw, stx_hash = txHash, stx_from = addr\<rparr>,
           audit_log (sn_audit env)
             (sign_entry ''sign_transaction'' client t addr (Some txHash) (Some chain) requestedBy
               [(''to'', case td_to d of None \<Rightarrow> ''null'' | Some a \<Rightarrow> a), (''nonce'', show_int (td_nonce d)),
                (''gasLimit'', td_gasLimit d)])
             (use_key (sn_now env) n 1 db)))))))"

section \<open>Numbers and their texts\<close>

definition hex_value :: "string \<Rightarrow> int" where
  "hex_value s = foldl (\<lambda>acc c. acc * 16 + int (the (hex_val c))) 0 s"

lemma foldl_hex_value:
  "foldl (\<lambda>acc c. acc * 16 + int (the (hex_val c))) a s = a * 16 ^ length s + hex_value s"
proof (induction s arbitrary: a)
  case (Cons c s)
  let ?v = "int (the (hex_val c))" and ?f = "\<lambda>acc c. acc * 16 + int (the (hex_val c))"
  have "foldl ?f a (c # s) = (a * 16 + ?v) * 16 ^ length s + hex_value s"
    using Cons.IH [of "a * 16 + ?v"] by (simp only: foldl.simps)
  moreover have "hex_value (c # s) = ?v * 16 ^ length s + hex_value s"
    using Cons.IH [of "0 * 16 + ?v"] by (simp only: hex_value_def foldl.simps) simp
  ultimately show ?case by (simp add: algebra_simps)
qed (simp add: hex_value_def)

lemma hex_value_append: "hex_value (s @ t) = hex_value s * 16 ^ length t + hex_value t"
proof -
  have "hex_value (s @ t) = foldl (\<lambda>acc c. acc * 16 + int (the (hex_val c))) (hex_value s) t"
    by (simp add: hex_value_def)
  then show ?thesis by (simp only: foldl_hex_value)
qed

lemma hex_value_nat [simp]: "hex_value (hex_nat n) = int n"
proof (induction n rule: hex_nat.induct)
  case (1 n)
  show ?case
  proof (cases "n < 16")
    case True
    then show ?thesis by (simp add: hex_nat.simps [of n] hex_value_def)
  next
    case False
    then have "hex_value (hex_nat n) = int (n div 16) * 16 + int (n mod 16)"
      using 1 by (simp add: hex_nat.simps [of n] hex_value_append) (simp add: hex_value_def)
    also have "\<dots> = int n" by presburger
    finally show ?thesis .
  qed
qed

lemma hex_nat_digits: "c \<in> set (hex_nat n) \<Longrightarrow> \<exists>d < 16. c = hex_digit d"
proof (induction n rule: hex_nat.induct)
  case (1 n)
  then show ?case
    by (cases "n < 16") (auto simp: hex_nat.simps [of n] intro: exI [of _ "n mod 16"])
qed

lemma length_hex_nat: "n < 16 ^ k \<Longrightarrow> 0 < k \<Longrightarrow> length (hex_nat n) \<le> k"
proof (induction k arbitrary: n)
  case (Suc k)
  show ?case
  proof (cases "n < 16")
    case True
    then show ?thesis by (simp add: hex_nat.simps [of n])
  next
    case False
    then have "n div 16 < 16 ^ k" using Suc.prems by (simp add: less_mult_imp_div_less mult.commute)
    moreover from this False have "0 < k" by (cases k) auto
    ultimately show ?thesis using Suc.IH False by (simp add: hex_nat.simps [of n])
  qed
qed simp

lemma hex_digit_0: "hex_digit 0 = CHR ''0''"
  by code_simp

lemma hex_value_zeros [simp]: "hex_value (replicate k (CHR ''0'') @ s) = hex_value s"
proof (induction k)
  case (Suc k)
  have "hex_val (CHR ''0'') = Some 0" unfolding hex_digit_0 [symmetric] by simp
  then show ?case using Suc by (simp add: hex_value_def)
qed simp

lemma foldl_be_int: "foldl (\<lambda>acc b. acc * 256 + uint (b :: 8 word)) a bs = a * 256 ^ length bs + be_int bs"
proof (induction bs arbitrary: a)
  case (Cons c bs)
  let ?f = "\<lambda>acc b. acc * 256 + uint (b :: 8 word)"
  have "foldl ?f a (c # bs) = (a * 256 + uint c) * 256 ^ length bs + be_int bs"
    using Cons.IH [of "a * 256 + uint c"] by (simp only: foldl.simps)
  moreover have "be_int (c # bs) = uint c * 256 ^ length bs + be_int bs"
    using Cons.IH [of "0 * 256 + uint c"] by (simp only: be_int_def foldl.simps) simp
  ultimately show ?case by (simp add: algebra_simps)
qed (simp add: be_int_def)

lemma be_int_Cons: "be_int (b # bs) = uint b * 256 ^ length bs + be_int bs"
  using foldl_be_int [of "uint b" bs] by (simp add: be_int_def)

lemma hex_bytes_value:
  "even (length s) \<Longrightarrow> (\<forall>c \<in> set s. hex_val c \<noteq> None \<and> the (hex_val c) < 16) \<Longrightarrow>
     be_int (hex_bytes s) = hex_value s \<and> 2 * length (hex_bytes s) = length s"
proof (induction s rule: hex_bytes.induct)
  case (1 a b s)
  then obtain x y where x: "hex_val a = Some x" "x < 16" and y: "hex_val b = Some y" "y < 16" by auto
  from 1 x y have IH: "be_int (hex_bytes s) = hex_value s" "2 * length (hex_bytes s) = length s" by auto
  have "uint (word_of_nat (16 * x + y) :: 8 word) = int (16 * x + y)"
  proof -
    have "unat (word_of_nat (16 * x + y) :: 8 word) = 16 * x + y"
      using x y by (simp add: unat_of_nat del: of_nat_add of_nat_mult)
    then show ?thesis by (simp only: uint_nat)
  qed
  moreover have "(256 :: int) ^ length (hex_bytes s) = 16 ^ length s"
  proof -
    have "(256 :: int) ^ length (hex_bytes s) = (16 ^ 2) ^ length (hex_bytes s)" by simp
    also have "\<dots> = 16 ^ length s" by (simp only: power_mult [symmetric] IH(2))
    finally show ?thesis .
  qed
  moreover have "hex_value (a # b # s) = int (16 * x + y) * 16 ^ length s + hex_value s"
    using hex_value_append [of "[a, b]" s] x y by (simp add: hex_value_def)
  ultimately show ?case using x y IH by (simp add: be_int_Cons)
qed (simp_all add: be_int_def hex_value_def)

lemma hex_nat_val: "c \<in> set (hex_nat n) \<Longrightarrow> hex_val c \<noteq> None \<and> the (hex_val c) < 16"
  using hex_nat_digits [of c n] by auto

text \<open>The normalized half: 64 hexadecimal digits that stand for the number.\<close>

lemma padded_hex:
  assumes "0 \<le> i" "i < 16 ^ 64"
  shows "length (padStart 64 (show_hex i)) = 64" "be_int (hex_bytes (padStart 64 (show_hex i))) = i"
    "length (hex_bytes (padStart 64 (show_hex i))) = 32"
proof -
  have h: "show_hex i = hex_nat (nat i)" using assms by (simp add: show_hex_def)
  have "nat i < 16 ^ 64" using assms by (simp add: nat_less_iff)
  then have "length (show_hex i) \<le> 64" unfolding h by (rule length_hex_nat) simp
  then show l: "length (padStart 64 (show_hex i)) = 64" by (simp add: padStart_def)
  have "\<forall>c \<in> set (padStart 64 (show_hex i)). hex_val c \<noteq> None \<and> the (hex_val c) < 16"
    using hex_nat_val [of _ "nat i"] hex_val_digit [of 0] unfolding padStart_def h hex_digit_0 by auto
  then have "be_int (hex_bytes (padStart 64 (show_hex i))) = hex_value (padStart 64 (show_hex i))
      \<and> 2 * length (hex_bytes (padStart 64 (show_hex i))) = 64"
    using hex_bytes_value [of "padStart 64 (show_hex i)"] l by simp
  moreover have "hex_value (padStart 64 (show_hex i)) = i"
    using assms(1) by (simp add: padStart_def h)
  ultimately show "be_int (hex_bytes (padStart 64 (show_hex i))) = i"
    "length (hex_bytes (padStart 64 (show_hex i))) = 32" by simp_all
qed

lemma padStart_full [simp]: "n \<le> length s \<Longrightarrow> padStart n s = s"
  by (simp add: padStart_def)

lemma recovery_byte:
  "v = 27 \<or> v = 28 \<Longrightarrow> length (padStart 2 (show_hex v)) = 2 \<and> be_int (hex_bytes (padStart 2 (show_hex v))) = v"
  by (elim disjE; simp; code_simp)

text \<open>Claim C27. Every signature the vault makes is in low-S form: of a native signature \<open>(r, s)\<close> with
  recovery bit 0 or 1 it returns the same \<open>r\<close>, an \<open>s\<close> that is at most half the group order and is the
  native one or its negation, and the recovery value 27 or 28 flipped exactly when \<open>s\<close> was negated; the
  serialized signature is 65 bytes: the returned \<open>r\<close>, the returned \<open>s\<close> and the returned recovery value.\<close>

theorem signatures_are_low_s:
  assumes "ecdsaSign sg h key = Inr (sig, recid)" "length sig = 64" "recid = 0 \<or> recid = 1"
    and "0 < be_int (drop 32 sig)" "be_int (drop 32 sig) < SECP256K1_N"
  shows "\<exists>out. signMessageHash sg h key = Inr out
    \<and> hex_bytes (drop 2 (sg_r out)) = take 32 sig
    \<and> 0 < be_int (hex_bytes (drop 2 (sg_s out))) \<and> be_int (hex_bytes (drop 2 (sg_s out))) \<le> SECP256K1_N_HALF
    \<and> (be_int (hex_bytes (drop 2 (sg_s out))) = be_int (drop 32 sig) \<and> sg_v out = 27 + recid
       \<or> be_int (hex_bytes (drop 2 (sg_s out))) = SECP256K1_N - be_int (drop 32 sig) \<and> sg_v out = 28 - recid)
    \<and> length (sg_serialized out) = 132
    \<and> take 128 (drop 2 (sg_serialized out)) = drop 2 (sg_r out) @ drop 2 (sg_s out)
    \<and> be_int (hex_bytes (drop 130 (sg_serialized out))) = sg_v out"
proof -
  let ?s = "drop 32 sig" and ?n = "SECP256K1_N - be_int (drop 32 sig)"
  have s: "take 32 (drop 32 sig) = ?s" "length ?s = 32" "length (take 32 sig) = 32"
    using assms(2) by simp_all
  have half: "SECP256K1_N < 16 ^ 64" "SECP256K1_N = 2 * SECP256K1_N_HALF + 1"
    by (simp_all add: SECP256K1_N_def SECP256K1_N_HALF_def)
  note pad = padded_hex [of ?n]
  have n: "0 \<le> ?n" "?n < 16 ^ 64" using assms(4,5) half(1) by simp_all
  show ?thesis
  proof (cases "SECP256K1_N_HALF < be_int ?s")
    case True
    let ?v = "if recid + 27 = 27 then 28 else (27 :: int)"
    have v: "?v = 28 - recid" "length (padStart 2 (show_hex ?v)) = 2" "be_int (hex_bytes (padStart 2 (show_hex ?v))) = ?v"
      using assms(3) recovery_byte [of 28] recovery_byte [of 27] by auto
    show ?thesis
      using True assms(1,4,5) s half n v pad(2,3) [OF n]
      by (intro exI [of _ "projr (signMessageHash sg h key)"]) (simp add: signMessageHash_def Let_def)
  next
    case False
    have v: "length (padStart 2 (show_hex (recid + 27))) = 2" "be_int (hex_bytes (padStart 2 (show_hex (recid + 27)))) = recid + 27"
      using assms(3) recovery_byte [of "recid + 27"] by auto
    show ?thesis
      using False assms(1,4) s v
      by (intro exI [of _ "projr (signMessageHash sg h key)"]) (simp add: signMessageHash_def Let_def)
  qed
qed

text \<open>A batch signs as its hashes would be signed one by one, with one use counted for each.\<close>

lemma sign_all_each:
  "sign_all sg key addr hashes = Inr rs \<longleftrightarrow>
     list_all2 (\<lambda>h r. signMessageHash sg (hash_bytes h) key = Inr (sr_signature r) \<and> sr_address r = addr) hashes rs"
proof (induction hashes arbitrary: rs)
  case (Cons h hs)
  have r: "r = \<lparr>sr_signature = s, sr_address = addr\<rparr> \<longleftrightarrow> sr_signature r = s \<and> sr_address r = addr"
    for r :: signature_result and s by (cases r) auto
  have "sign_all sg key addr (h # hs) = Inr rs \<longleftrightarrow>
      (\<exists>s rest. signMessageHash sg (hash_bytes h) key = Inr s \<and> sign_all sg key addr hs = Inr rest
         \<and> rs = \<lparr>sr_signature = s, sr_address = addr\<rparr> # rest)"
    by (cases "sign_all sg key addr hs") (auto split: sum.split)
  then show ?case
    unfolding Cons.IH list_all2_Cons1 by (auto simp: r)
qed auto

text \<open>The chain of the transaction is not compared with the chain whose key signs it and which is audited.\<close>

lemma signed_chain_is_not_checked:
  assumes "decryptPrivateKeyForChain cr cfg client t chain db = Inr (key, addr, n)" "tx_of d = Inr tx"
    and "tx_unsigned_hash sg tx = Inr u" "signMessageHash sg (hex_bytes (drop 2 u)) key = Inr sig"
    and "tx_serialize sg tx (sg_r sig) (sg_s sig) (sg_v sig) = Inr (raw, hash)"
  shows "fst (signTransaction cr cfg sg env client chain t d requestedBy db)
      = Inr \<lparr>stx_raw = raw, stx_hash = hash, stx_from = addr\<rparr> \<and> tf_chainId tx = td_chainId d"
proof -
  have "tf_chainId tx = td_chainId d"
    using assms(2) by (cases "fee_of d") (auto simp: tx_of_def split: option.splits)
  then show ?thesis using assms by (simp add: signTransaction_def)
qed

section \<open>An instance\<close>

definition small_signer :: signer where
  "small_signer =
     \<lparr>ecdsaSign = (\<lambda>h key. Inr (replicate 32 1 @ replicate 31 255 @ [7], 0)),
      tx_unsigned_hash = (\<lambda>tx. Inr ''0x00''), tx_serialize = (\<lambda>tx r s v. Inr (r, s))\<rparr>"

text \<open>An instance whose native \<open>s\<close> is above half the order: \<open>0xF0\<close> followed by zeros.\<close>

definition high_signer :: signer where
  "high_signer =
     small_signer\<lparr>ecdsaSign := (\<lambda>h key. Inr (replicate 32 1 @ 240 # replicate 31 0, 0))\<rparr>"

theorem signatures_are_low_s_witness:
  "\<exists>out. signMessageHash high_signer [] [] = Inr out \<and> sg_v out = 28
     \<and> be_int (hex_bytes (drop 2 (sg_s out))) = SECP256K1_N - be_int (240 # replicate 31 0)
     \<and> be_int (hex_bytes (drop 130 (sg_serialized out))) = 28"
proof -
  have sig: "ecdsaSign high_signer [] [] = Inr (replicate 32 1 @ 240 # replicate 31 0, 0)"
    by (simp add: high_signer_def)
  have l: "length (replicate 32 1 @ 240 # replicate 31 0 :: bytes) = 64" by simp
  have d: "drop 32 (replicate 32 1 @ 240 # replicate 31 0 :: bytes) = 240 # replicate 31 0" by simp
  have v: "be_int (240 # replicate 31 0) = 240 * 256 ^ 31" by code_simp
  have b: "0 < be_int (drop 32 (replicate 32 1 @ 240 # replicate 31 0))"
    "be_int (drop 32 (replicate 32 1 @ 240 # replicate 31 0)) < SECP256K1_N"
    unfolding d v by (simp_all add: SECP256K1_N_def)
  have high: "SECP256K1_N_HALF < be_int (240 # replicate 31 0)"
    unfolding v by (simp add: SECP256K1_N_HALF_def SECP256K1_N_def)
  from signatures_are_low_s [OF sig l disjI1 [OF refl] b] obtain out where
    out: "signMessageHash high_signer [] [] = Inr out"
      "be_int (hex_bytes (drop 2 (sg_s out))) \<le> SECP256K1_N_HALF"
      "be_int (hex_bytes (drop 2 (sg_s out))) = be_int (240 # replicate 31 0) \<and> sg_v out = 27 + 0
       \<or> be_int (hex_bytes (drop 2 (sg_s out))) = SECP256K1_N - be_int (240 # replicate 31 0) \<and> sg_v out = 28 - 0"
      "be_int (hex_bytes (drop 130 (sg_serialized out))) = sg_v out"
    unfolding d by blast
  then show ?thesis using high by auto
qed

end
