(* ===== verification/VaultRuns.thy ===== *)
theory VaultRuns
  imports KeyRotation ProjectKeys Signing
begin

text \<open>
  The key vault as a state machine: every request the controllers of services/key-vault-service accept
  is a step, with any outcome. The invariant speaks of the identity of the stored keys: whose they are,
  of which type and scope, and from which path of which seed they come.
\<close>

section \<open>Steps\<close>

text \<open>The data-transfer objects demand positive client identifiers.\<close>

inductive vault_step :: "vault_db \<Rightarrow> vault_db \<Rightarrow> bool" where
  client_keys: "0 < client \<Longrightarrow> vault_step db (snd (generateClientKeys cr cfg h env client who db))"
| gas_tank: "0 < client \<Longrightarrow> vault_step db (snd (deriveGasTankKey cr cfg h env client chain who db))"
| project_seed: "vault_step db (snd (generateProjectSeed cr cfg h env project who db))"
| project_keys: "0 < client \<Longrightarrow>
    vault_step db (snd (generateProjectKeys cr cfg h ss env senv project client mode who db))"
| project_tank: "0 < client \<Longrightarrow>
    vault_step db (snd (deriveProjectGasTankKey cr cfg h env project client chain who db))"
| seed_shown: "vault_step db (snd (markSeedShown project db))"
| split: "vault_step db (snd (splitBackupKey cr cfg ss senv client None n k custodians who db))"
| reconstruct: "vault_step db (snd (reconstructBackupKey cr cfg ss senv client indices who None db))"
| sign: "vault_step db (snd (signHash cr cfg sg nenv client hash t who db))"
| sign_batch: "vault_step db (snd (signBatch cr cfg sg nenv client hashes t who db))"
| sign_tx: "vault_step db (snd (signTransaction cr cfg sg nenv client chain t d who db))"
| rotate: "vault_step db (snd (rotateMasterPassword cr cfg renv old new db))"

section \<open>The invariant\<close>

definition key_identity ::
    "derived_key \<Rightarrow> ident \<times> ident \<times> ident option \<times> key_type \<times> string \<times> string" where
  "key_identity k = (row_id k, dk_client k, dk_project k, dk_type k, chainScope k, derivationPath k)"

definition master_row :: "derived_key \<Rightarrow> bool" where
  "master_row k \<longleftrightarrow> 0 < dk_client k \<and>
     (dk_type k \<noteq> KGasTank \<and> chainScope k = ''evm'' \<and> derivationPath k = client_path (dk_client k) (dk_type k)
      \<or> dk_type k = KGasTank \<and> (\<exists>chain. chainScope k = chain_scope chain
           \<and> derivationPath k = gas_tank_path chain (dk_client k)))"

definition row_ok :: "derived_key \<Rightarrow> bool" where
  "row_ok k \<longleftrightarrow> (dk_project k = None \<longrightarrow> master_row k)"

definition keys_inv :: "vault_db \<Rightarrow> bool" where
  "keys_inv db \<longleftrightarrow>
     (\<forall>k \<in> set (derived_keys db). row_id k < next_key db \<and> row_ok k)
   \<and> distinct (map row_id (derived_keys db))
   \<and> (\<forall>i j. i < length (derived_keys db) \<longrightarrow> j < length (derived_keys db) \<longrightarrow>
        same_scope (derived_keys db ! i) (derived_keys db ! j) \<longrightarrow> i = j)"

definition vault_inv :: "vault_db \<Rightarrow> bool" where
  "vault_inv db \<longleftrightarrow> keys_inv db \<and> distinct (map ps_project (project_seeds db))"

lemma same_scope_sym: "same_scope a b \<Longrightarrow> same_scope b a"
  by (auto simp: same_scope_def sql_eq_def)

lemma identity_determines:
  assumes "key_identity a = key_identity b"
  shows "row_id a = row_id b" "row_ok a = row_ok b" "same_scope a c = same_scope b c" "same_scope c a = same_scope c b"
  using assms by (simp_all add: key_identity_def row_ok_def master_row_def same_scope_def)

text \<open>What leaves the identities alone keeps the invariant.\<close>

lemma keys_inv_same:
  assumes "map key_identity (derived_keys db') = map key_identity (derived_keys db)"
    and "next_key db' = next_key db" "keys_inv db"
  shows "keys_inv db'"
proof -
  have len: "length (derived_keys db') = length (derived_keys db)"
    using assms(1) by (metis length_map)
  have nth: "key_identity (derived_keys db' ! i) = key_identity (derived_keys db ! i)" if "i < length (derived_keys db)" for i
    using assms(1) that len by (metis nth_map)
  have "map row_id (derived_keys db') = map row_id (derived_keys db)"
    using assms(1) len nth by (auto intro!: nth_equalityI identity_determines(1))
  moreover have "\<forall>k \<in> set (derived_keys db'). row_id k < next_key db' \<and> row_ok k"
  proof
    fix k assume "k \<in> set (derived_keys db')"
    then obtain i where i: "i < length (derived_keys db)" "k = derived_keys db' ! i"
      using len by (metis in_set_conv_nth)
    note d = identity_determines [OF nth [OF i(1)]]
    have "derived_keys db ! i \<in> set (derived_keys db)" using i(1) by simp
    with assms(2,3) show "row_id k < next_key db' \<and> row_ok k"
      unfolding keys_inv_def i(2) d by auto
  qed
  moreover have "i = j" if "i < length (derived_keys db')" "j < length (derived_keys db')"
    "same_scope (derived_keys db' ! i) (derived_keys db' ! j)" for i j
    using that assms(3) len identity_determines(3) [OF nth, of i] identity_determines(4) [OF nth, of j]
    unfolding keys_inv_def by auto
  ultimately show ?thesis using assms(3) unfolding keys_inv_def by auto
qed

text \<open>An insert keeps it when the new row is in order.\<close>

lemma keys_inv_insert:
  assumes "insert_key k db = Inr db'" "keys_inv db" "row_ok k"
  shows "keys_inv db'"
proof -
  note ins = insert_key_appends [OF assms(1)]
  let ?k = "k\<lparr>row_id := next_key db\<rparr>" and ?ks = "derived_keys db"
  have keys: "derived_keys db' = ?ks @ [?k]" "next_key db' = next_key db + 1"
    using ins by simp_all
  have same: "same_scope q ?k = same_scope q k" "same_scope ?k q = same_scope k q" for q
    by (simp_all add: same_scope_def)
  have ok: "row_ok ?k" using assms(3) by (simp add: row_ok_def master_row_def)
  have new: "\<not> same_scope q k" "\<not> same_scope k q" if "q \<in> set ?ks" for q
    using ins that same_scope_sym by blast+
  have "i = j" if "i < length (?ks @ [?k])" "j < length (?ks @ [?k])"
    "same_scope ((?ks @ [?k]) ! i) ((?ks @ [?k]) ! j)" for i j
    using that assms(2) new same unfolding keys_inv_def
    by (cases "i < length ?ks"; cases "j < length ?ks") (auto simp: nth_append)
  moreover have "\<forall>q \<in> set (?ks @ [?k]). row_id q < next_key db + 1 \<and> row_ok q"
    using assms(2) ok unfolding keys_inv_def by force
  moreover have "distinct (map row_id (?ks @ [?k]))"
    using assms(2) unfolding keys_inv_def by force
  ultimately show ?thesis unfolding keys_inv_def keys by blast
qed

lemma keys_inv_create:
  "create_keys cr cfg h env root client project i defs db = Inr (infos, db') \<Longrightarrow> keys_inv db \<Longrightarrow>
     (\<And>t path. (t, path) \<in> set defs \<Longrightarrow> project = None \<Longrightarrow>
        0 < client \<and> t \<noteq> KGasTank \<and> path = client_path client t) \<Longrightarrow> keys_inv db'"
proof (induction defs arbitrary: i db infos)
  case (Cons d defs)
  obtain t path where d: "d = (t, path)" by (cases d)
  from Cons.prems(1) d obtain node db1 infos1 where
    ins: "insert_key (new_key env (encrypt cr cfg (ke_draws env i) (private_bytes node) None) client project t
        ''evm'' node path) db = Inr db1"
    and rest: "create_keys cr cfg h env root client project (Suc i) defs db1 = Inr (infos1, db')"
    by (auto split: sum.splits)
  have "row_ok (new_key env (encrypt cr cfg (ke_draws env i) (private_bytes node) None) client project t ''evm'' node path)"
    using Cons.prems(3) [of t path] d by (cases project) (auto simp: row_ok_def master_row_def)
  then have "keys_inv db1" using keys_inv_insert [OF ins Cons.prems(2)] by simp
  then show ?case using Cons.IH [OF rest] Cons.prems(3) by auto
qed simp

text \<open>Each operation keeps the invariant of the keys.\<close>

lemma identity_update [simp]:
  "key_identity (k\<lparr>lastUsedAt := x, signCount := y\<rparr>) = key_identity k"
  by (simp add: key_identity_def)

lemma use_key_identities [simp]:
  "map key_identity (derived_keys (use_key now n c db)) = map key_identity (derived_keys db)"
  "next_key (use_key now n c db) = next_key db" "project_seeds (use_key now n c db) = project_seeds db"
  by (simp_all add: use_key_def map_update_where)

lemma rotate_key_identity [simp]: "key_identity (snd (rotate_key cr cfg env old new k)) = key_identity k"
  by (auto simp: rotate_key_def rotate_row_def key_identity_def store_payload_def Let_def
      split: sum.split option.split)

lemma rotate_project_seed_project [simp]:
  "ps_project (snd (rotate_project_seed cr cfg env old new s)) = ps_project s"
  by (auto simp: rotate_project_seed_def rotate_row_def store_payload_def Let_def
      split: sum.split option.split)

lemma log_rotated_next_key [simp]: "next_key (log_rotated env f es db) = next_key db"
  by (simp add: log_rotated_def)

lemma rotation_identities:
  "map key_identity (derived_keys (snd (rotateMasterPassword cr cfg env old new db))) = map key_identity (derived_keys db)
   \<and> next_key (snd (rotateMasterPassword cr cfg env old new db)) = next_key db
   \<and> map ps_project (project_seeds (snd (rotateMasterPassword cr cfg env old new db))) = map ps_project (project_seeds db)"
  by (simp add: rotateMasterPassword_def rotate_master_seeds_def rotate_project_seeds_def
      rotate_derived_keys_def rotate_shamir_shares_def Let_def comp_def)

lemma signing_identities:
  "derived_keys db' = derived_keys (use_key now n c db) \<Longrightarrow> next_key db' = next_key db \<Longrightarrow> keys_inv db \<Longrightarrow> keys_inv db'"
  using keys_inv_same [of db' db] by simp

lemma client_keys_inv:
  assumes "keys_inv db" "0 < client"
  shows "keys_inv (snd (generateClientKeys cr cfg h env client who db))"
proof -
  obtain s db0 where s: "getOrCreateMasterSeed cr cfg h env db = (s, db0)"
    by (cases "getOrCreateMasterSeed cr cfg h env db")
  have db0: "keys_inv db0"
    using getOrCreate_latest [OF s] assms(1) keys_inv_same [of db0 db] by simp
  have "keys_inv db1" if "create_keys cr cfg h env root client None 0 (client_defs client) db0 = Inr (infos, db1)"
    for root infos db1
    using keys_inv_create [OF that db0] assms(2) by (auto simp: client_defs_def)
  then have "keys_inv (foldl (\<lambda>d i. audit_log (ke_audit env) (f i) d) db1 infos)"
    if "create_keys cr cfg h env root client None 0 (client_defs client) db0 = Inr (infos, db1)" for root infos db1 f
    using that keys_inv_same [of _ db1] by simp
  with db0 show ?thesis
    by (auto simp: generateClientKeys_def s split: sum.splits)
qed

lemma audit_keys_inv [simp]: "keys_inv (audit_log up e db) = keys_inv db"
  by (simp add: keys_inv_def)

lemma gas_tank_inv: "keys_inv db \<Longrightarrow> 0 < client \<Longrightarrow> keys_inv (snd (deriveGasTankKey cr cfg h env client chain who db))"
  by (auto simp: deriveGasTankKey_def Let_def row_ok_def master_row_def
      intro!: keys_inv_insert [of _ db] split: sum.split)

lemma project_tank_inv: "keys_inv db \<Longrightarrow> keys_inv (snd (deriveProjectGasTankKey cr cfg h env project client chain who db))"
  by (auto simp: deriveProjectGasTankKey_def Let_def row_ok_def
      intro!: keys_inv_insert [of _ db] split: sum.split option.split)

lemma split_keys_inv: "keys_inv db \<Longrightarrow> keys_inv (snd (splitBackupKey cr cfg ss senv client project n k cust who db))"
  using split_writes_only_shares [of cr cfg ss senv client project n k cust who db
      "fst (splitBackupKey cr cfg ss senv client project n k cust who db)"
      "snd (splitBackupKey cr cfg ss senv client project n k cust who db)"]
    keys_inv_same [of "snd (splitBackupKey cr cfg ss senv client project n k cust who db)" db] by simp

lemma project_keys_inv:
  assumes "keys_inv db"
  shows "keys_inv (snd (generateProjectKeys cr cfg h ss env senv project client mode who db))"
proof -
  have done_inv: "keys_inv (set_split_done project d)" if "keys_inv d" for d
    using that by (simp add: keys_inv_def set_split_done_def)
  have split: "keys_inv d2" if "keys_inv d1" "splitBackupKey cr cfg ss senv client (Some project)
      DEFAULT_TOTAL_SHARES DEFAULT_THRESHOLD DEFAULT_CUSTODIANS who d1 = (r, d2)" for d1 d2 r
    using split_keys_inv [OF that(1), of cr cfg ss senv client "Some project" DEFAULT_TOTAL_SHARES
        DEFAULT_THRESHOLD DEFAULT_CUSTODIANS who] that(2) by simp
  have audits: "keys_inv (foldl (\<lambda>d i. audit_log (ke_audit env) (f i) d) d0 es)" if "keys_inv d0" for f es d0
    using that keys_inv_same [of _ d0] by simp
  have create: "keys_inv d1" if "create_keys cr cfg h env root client (Some project) 0 project_defs db = Inr (infos, d1)"
    for root infos d1
    using keys_inv_create [OF that assms] by simp
  show ?thesis
    using assms by (auto simp: generateProjectKeys_def split: option.split sum.split prod.split
        intro!: audits done_inv intro: split create)
qed

section \<open>The seeds of the projects\<close>

definition seeds_inv :: "vault_db \<Rightarrow> bool" where
  "seeds_inv db \<longleftrightarrow> distinct (map ps_project (project_seeds db))"

lemma seeds_inv_same: "project_seeds db' = project_seeds db \<Longrightarrow> seeds_inv db \<Longrightarrow> seeds_inv db'"
  by (simp add: seeds_inv_def)

lemma project_seed_inv: "seeds_inv db \<Longrightarrow> seeds_inv (snd (generateProjectSeed cr cfg h env project who db))"
  by (auto simp: seeds_inv_def generateProjectSeed_def Let_def find_seed_def find_None_iff
      new_project_seed_def store_payload_def)

lemma seed_flags_inv: "seeds_inv db \<Longrightarrow> seeds_inv (set_split_done project db)"
  "seeds_inv db \<Longrightarrow> seeds_inv (snd (markSeedShown project db))"
  by (auto simp: seeds_inv_def set_split_done_def markSeedShown_def map_update_where split: option.split)

lemma create_keys_seeds: "create_keys cr cfg h env root client project i defs db = Inr (infos, db') \<Longrightarrow>
    project_seeds db' = project_seeds db"
  by (drule create_keys_rows) simp

lemma project_keys_seeds:
  assumes "seeds_inv db"
  shows "seeds_inv (snd (generateProjectKeys cr cfg h ss env senv project client mode who db))"
proof -
  have split: "seeds_inv d2" if "create_keys cr cfg h env root client (Some project) 0 project_defs db = Inr (infos, d1)"
    "splitBackupKey cr cfg ss senv client (Some project) DEFAULT_TOTAL_SHARES DEFAULT_THRESHOLD
      DEFAULT_CUSTODIANS who d1 = (r, d2)" for root infos d1 d2 r
    using split_writes_only_shares [OF that(2)] create_keys_seeds [OF that(1)] seeds_inv_same [OF _ assms] by simp
  have audits: "seeds_inv (foldl (\<lambda>d i. audit_log (ke_audit env) (f i) d) d0 es)" if "seeds_inv d0" for f es d0
    using that by (simp add: seeds_inv_def)
  show ?thesis
    using assms by (auto simp: generateProjectKeys_def split: option.split sum.split prod.split
        intro!: audits seed_flags_inv intro: split)
qed

text \<open>Every other request leaves the project seeds, or changes their payloads only.\<close>

lemma generate_seeds:
  "project_seeds (snd (generateClientKeys cr cfg h env client who db)) = project_seeds db"
proof -
  obtain s db0 where s: "getOrCreateMasterSeed cr cfg h env db = (s, db0)"
    by (cases "getOrCreateMasterSeed cr cfg h env db")
  then have "project_seeds db0 = project_seeds db"
    by (auto simp: getOrCreateMasterSeed_def Let_def split: option.splits)
  then show ?thesis
    by (auto simp: generateClientKeys_def s dest!: create_keys_seeds split: sum.split)
qed

lemma tank_seeds:
  "project_seeds (snd (deriveGasTankKey cr cfg h env client chain who db)) = project_seeds db"
  "project_seeds (snd (deriveProjectGasTankKey cr cfg h env project client chain who db)) = project_seeds db"
  by (auto simp: deriveGasTankKey_def deriveProjectGasTankKey_def Let_def
      dest!: insert_key_appends split: option.split sum.split)

lemma signing_seeds:
  "project_seeds (snd (signHash cr cfg sg nenv client hash t who db)) = project_seeds db"
  "project_seeds (snd (signBatch cr cfg sg nenv client hashes t who db)) = project_seeds db"
  "project_seeds (snd (signTransaction cr cfg sg nenv client chain t d who db)) = project_seeds db"
  by (simp_all add: signHash_def signBatch_def signTransaction_def split: sum.split prod.split)

lemma reconstruct_seeds:
  "project_seeds (snd (reconstructBackupKey cr cfg ss senv client indices who scope db)) = project_seeds db"
  by (simp add: reconstructBackupKey_def Let_def split: option.split sum.split)

lemmas other_seeds = generate_seeds tank_seeds signing_seeds reconstruct_seeds

lemma split_seeds: "project_seeds (snd (splitBackupKey cr cfg ss senv client project n k cust who db)) = project_seeds db"
  using split_writes_only_shares [of cr cfg ss senv client project n k cust who db] by (metis prod.collapse)

section \<open>The machine\<close>

lemma sign_keys_inv:
  "keys_inv db \<Longrightarrow> keys_inv (snd (signHash cr cfg sg nenv client hash t who db))"
  "keys_inv db \<Longrightarrow> keys_inv (snd (signBatch cr cfg sg nenv client hashes t who db))"
  "keys_inv db \<Longrightarrow> keys_inv (snd (signTransaction cr cfg sg nenv client chain t d who db))"
  "keys_inv db \<Longrightarrow> keys_inv (snd (reconstructBackupKey cr cfg ss senv client indices who scope db))"
  by (auto simp: signHash_def signBatch_def signTransaction_def reconstructBackupKey_def Let_def
      intro!: keys_inv_same [of "use_key _ _ _ db" db] split: sum.split option.split)

lemma seed_ops_keys_inv:
  "keys_inv db \<Longrightarrow> keys_inv (snd (generateProjectSeed cr cfg h env project who db))"
  "keys_inv db \<Longrightarrow> keys_inv (snd (markSeedShown project db))"
  by (auto simp: generateProjectSeed_def markSeedShown_def Let_def keys_inv_def split: option.split)

lemma rotation_inv:
  "keys_inv db \<Longrightarrow> keys_inv (snd (rotateMasterPassword cr cfg env old new db))"
  "seeds_inv db \<Longrightarrow> seeds_inv (snd (rotateMasterPassword cr cfg env old new db))"
  using rotation_identities [of cr cfg env old new db]
  by (auto simp: seeds_inv_def intro!: keys_inv_same [of "snd (rotateMasterPassword cr cfg env old new db)" db])

definition fresh_vault :: "vault_db \<Rightarrow> bool" where
  "fresh_vault db \<longleftrightarrow> derived_keys db = [] \<and> project_seeds db = []"

lemmas keys_kept = client_keys_inv gas_tank_inv project_keys_inv project_tank_inv split_keys_inv sign_keys_inv
  seed_ops_keys_inv rotation_inv(1)

lemmas seeds_kept = project_seed_inv seed_flags_inv(2) project_keys_seeds rotation_inv(2)

lemma vault_step_keys: "vault_step db db' \<Longrightarrow> keys_inv db \<Longrightarrow> keys_inv db'"
  by (cases rule: vault_step.cases) (auto intro!: keys_kept)

lemma vault_step_seeds: "vault_step db db' \<Longrightarrow> seeds_inv db \<Longrightarrow> seeds_inv db'"
  by (cases rule: vault_step.cases)
    (auto intro!: seeds_kept seeds_inv_same [of _ db] simp: other_seeds split_seeds)

lemma fresh_vault_inv: "fresh_vault db \<Longrightarrow> keys_inv db \<and> seeds_inv db"
  by (simp add: fresh_vault_def keys_inv_def seeds_inv_def)

lemma vault_step_inv: "keys_inv s \<and> seeds_inv s \<Longrightarrow> vault_step s t \<Longrightarrow> keys_inv t \<and> seeds_inv t"
  using vault_step_keys vault_step_seeds by blast

interpretation vault: machine fresh_vault vault_step "\<lambda>db. keys_inv db \<and> seeds_inv db"
proof unfold_locales
  show "keys_inv s \<and> seeds_inv s" if "fresh_vault s" for s
    using that by (rule fresh_vault_inv)
  show "keys_inv t \<and> seeds_inv t" if "keys_inv s \<and> seeds_inv s" "vault_step s t" for s t
    using that by (rule vault_step_inv)
qed

lemma gas_path_not_client_path: "0 < c \<Longrightarrow> t \<noteq> KGasTank \<Longrightarrow> gas_tank_path chain c \<noteq> client_path c' t"
proof
  assume pos: "0 < c" and "gas_tank_path chain c = client_path c' t"
  then have "''1000'' @ CHR 0x27 # ''/'' @ show_int chain @ ''/'' @ show_int c
      = show_int (c' * 3 + client_index t) @ CHR 0x27 # ''/0/0''"
    by (simp add: gas_tank_path_def client_path_def)
  then have "''/'' @ show_int chain @ ''/'' @ show_int c = ''/0/0''"
    by (subst (asm) split_at_sep) (auto simp del: append.simps)
  then have "show_int chain @ CHR ''/'' # show_int c = ''0'' @ CHR ''/'' # ''0''" by simp
  then have "show_int c = ''0''" by (subst (asm) split_at_sep) auto
  then show False using pos show_int_0 show_int_inject [of c 0] by simp
qed

lemma master_rows_by_path:
  assumes "master_row a" "master_row b" "derivationPath a = derivationPath b"
  shows "dk_client a = dk_client b \<and> dk_type a = dk_type b \<and> chainScope a = chainScope b"
proof (cases "dk_type a = KGasTank")
  case True
  then obtain c where a: "0 < dk_client a" "chainScope a = chain_scope c"
    "derivationPath a = gas_tank_path c (dk_client a)" using assms(1) by (auto simp: master_row_def)
  have "dk_type b = KGasTank"
  proof (rule ccontr)
    assume n: "dk_type b \<noteq> KGasTank"
    then have "derivationPath b = client_path (dk_client b) (dk_type b)"
      using assms(2) by (auto simp: master_row_def)
    then show False using gas_path_not_client_path [OF a(1) n] assms(3) a(3) by simp
  qed
  then obtain d where "chainScope b = chain_scope d" "derivationPath b = gas_tank_path d (dk_client b)"
    using assms(2) by (auto simp: master_row_def)
  then show ?thesis using a assms(3) True \<open>dk_type b = KGasTank\<close> by (simp add: gas_tank_path_inject)
next
  case False
  then have a: "chainScope a = ''evm''" "derivationPath a = client_path (dk_client a) (dk_type a)"
    using assms(1) by (auto simp: master_row_def)
  have "dk_type b \<noteq> KGasTank"
  proof
    assume "dk_type b = KGasTank"
    then obtain d where "0 < dk_client b" "derivationPath b = gas_tank_path d (dk_client b)"
      using assms(2) by (auto simp: master_row_def)
    then show False using gas_path_not_client_path [OF _ False] assms(3) a(2) by metis
  qed
  moreover from this have "chainScope b = ''evm''" "derivationPath b = client_path (dk_client b) (dk_type b)"
    using assms(2) by (auto simp: master_row_def)
  ultimately show ?thesis using a False assms(3) client_path_inject [of "dk_type b" "dk_type a"] by auto
qed

text \<open>Claim C24. No two tenants ever share a key. In every state the vault reaches from an empty one, by any
  sequence of requests with any failures: two keys derived from the master seed at the same path belong to
  the same client, type and chain scope; a project has at most one key of a type and scope; a project has at
  most one seed; and key identifiers are unique.\<close>

theorem tenants_never_share_a_key:
  assumes "fresh_vault db0" "vault_step\<^sup>*\<^sup>* db0 db"
  shows "(\<forall>a \<in> set (derived_keys db). \<forall>b \<in> set (derived_keys db).
       dk_project a = None \<and> dk_project b = None \<and> derivationPath a = derivationPath b \<longrightarrow>
         dk_client a = dk_client b \<and> dk_type a = dk_type b \<and> chainScope a = chainScope b)
    \<and> (\<forall>i < length (derived_keys db). \<forall>j < length (derived_keys db).
         same_scope (derived_keys db ! i) (derived_keys db ! j) \<longrightarrow> i = j)
    \<and> distinct (map ps_project (project_seeds db)) \<and> distinct (map row_id (derived_keys db))"
proof -
  have inv: "keys_inv db" "seeds_inv db" using vault.inv_reachable [OF assms] by blast+
  have "master_row k" if "k \<in> set (derived_keys db)" "dk_project k = None" for k
    using inv(1) that unfolding keys_inv_def row_ok_def by blast
  then have paths: "dk_client a = dk_client b \<and> dk_type a = dk_type b \<and> chainScope a = chainScope b"
    if "a \<in> set (derived_keys db)" "b \<in> set (derived_keys db)"
      "dk_project a = None" "dk_project b = None" "derivationPath a = derivationPath b" for a b
    using that master_rows_by_path [of a b] by simp
  have scopes: "i = j" if "i < length (derived_keys db)" "j < length (derived_keys db)"
      "same_scope (derived_keys db ! i) (derived_keys db ! j)" for i j
    using inv(1) that unfolding keys_inv_def by blast
  have "distinct (map row_id (derived_keys db))" "distinct (map ps_project (project_seeds db))"
    using inv unfolding keys_inv_def seeds_inv_def by blast+
  then show ?thesis
    by (intro conjI ballI allI impI) (blast dest: paths scopes)+
qed

text \<open>The keys of a client, generated in an empty vault.\<close>

theorem tenants_never_share_a_key_witness:
  "\<exists>db. vault_step\<^sup>*\<^sup>* empty_vault db \<and> map dk_type (derived_keys db) = [KPlatform, KClient, KBackup]
     \<and> distinct (map row_id (derived_keys db))"
proof -
  let ?x = "generateClientKeys small_aead small_config small_hd small_key_env 7 ''ops'' empty_vault"
  have f: "fresh_vault empty_vault" by (simp add: fresh_vault_def empty_vault_def)
  have s: "vault_step\<^sup>*\<^sup>* empty_vault (snd ?x)"
    by (intro r_into_rtranclp vault_step.client_keys) simp
  have "map dk_type (derived_keys (snd ?x)) = [KPlatform, KClient, KBackup]" by code_simp
  with s show ?thesis
    by (intro exI [of _ "snd ?x"] conjI tenants_never_share_a_key [OF f s, THEN conjunct2, THEN conjunct2, THEN conjunct2])
qed

end
