(* ===== verification/SweepPolicy.thy ===== *)
theory SweepPolicy
  imports Prelude Complex_Main
begin

text \<open>
  When a confirmed deposit may be swept: the policies of services/core-wallet-service
  (sweep-policy/sweep-policy.service.ts) and their evaluation in services/cron-worker-service
  (sweep/sweep-policy-resolver.service.ts and the policy filter of sweep/sweep.service.ts). The texts that
  explain a decision are only logged and left out. JavaScript's \<open>Number\<close> on a decimal text, the prices
  and the next date of a cron expression are parameters; prices and values are rationals.
\<close>

section \<open>Tables\<close>

datatype sweep_mode = ModeAuto | ModeManual | ModeCount | ModeValue | ModeSchedule | ModeOther string

record policy_row =
  sp_project :: ident
  sp_chain :: int
  sp_mode :: sweep_mode
  sp_count :: "int option"
  sp_usd :: "rat option"
  sp_cron :: "string option"
  sp_tz :: "string option"
  sp_paused :: bool
  sp_lastRun :: "millis option"

datatype sweep_status =
  StPending | StDetected | StConfirming | StConfirmed | StReverted | StSweepPending | StSwept | StSweepFailed

record sweep_deposit =
  sd_id :: ident
  sd_client :: ident
  sd_project :: ident
  sd_chain :: int
  sd_forwarder :: string
  sd_token :: ident
  sd_amount :: string
  sd_amountRaw :: string
  sd_status :: sweep_status
  sd_sweepTx :: "string option"
  sd_confirmedAt :: "millis option"
  sd_sweptAt :: "millis option"

record sweep_token =
  tk_id :: ident
  tk_chain :: int
  tk_symbol :: string
  tk_contract :: string
  tk_native :: bool
  tk_decimals :: nat
  tk_coingecko :: "string option"

section \<open>The policies of a project\<close>

record policy_dto =
  pd_mode :: sweep_mode
  pd_count :: "rat option"
  pd_usd :: "string option"
  pd_cron :: "string option"
  pd_tz :: "string option"
  pd_paused :: "bool option"

definition default_policy :: "ident \<Rightarrow> int \<Rightarrow> policy_row" where
  "default_policy p c =
     \<lparr>sp_project = p, sp_chain = c, sp_mode = ModeAuto, sp_count = None, sp_usd = None, sp_cron = None,
      sp_tz = Some ''UTC'', sp_paused = False, sp_lastRun = None\<rparr>"

definition find_policy :: "ident \<Rightarrow> int \<Rightarrow> policy_row list \<Rightarrow> policy_row option" where
  "find_policy p c rows = find (\<lambda>r. sp_project r = p \<and> sp_chain r = c) rows"

definition get_policy :: "ident \<Rightarrow> int \<Rightarrow> policy_row list \<Rightarrow> policy_row" where
  "get_policy p c rows = (case find_policy p c rows of None \<Rightarrow> default_policy p c | Some r \<Rightarrow> r)"

definition listForProject :: "ident \<Rightarrow> policy_row list \<Rightarrow> policy_row list" where
  "listForProject p rows = filter (\<lambda>r. sp_project r = p) rows"

text \<open>\<open>trim\<close> and \<open>split(/\\s+/)\<close> on ASCII text, and the expression \<open>^[\\d*/,\\- ]+$\<close>.\<close>

definition is_space :: "char \<Rightarrow> bool" where
  "is_space c \<longleftrightarrow> (of_char c :: nat) \<in> {9, 10, 11, 12, 13, 32}"

definition trim :: "string \<Rightarrow> string" where
  "trim s = rev (dropWhile is_space (rev (dropWhile is_space s)))"

definition cron_char :: "char \<Rightarrow> bool" where
  "cron_char c \<longleftrightarrow> is_digit c \<or> c \<in> set ''*/,- ''"

definition words :: "string \<Rightarrow> string list" where
  "words s = filter (\<lambda>w. w \<noteq> []) (split_on (CHR '' '') s)"

definition whole :: "rat \<Rightarrow> bool" where
  "whole q \<longleftrightarrow> of_int \<lfloor>q\<rfloor> = q"

definition validate_policy :: "(string \<Rightarrow> rat option) \<Rightarrow> policy_dto \<Rightarrow> error option" where
  "validate_policy num dto =
     (case pd_mode dto of
        ModeOther m \<Rightarrow> Some (BadRequest (''Invalid mode '' @ m))
      | ModeCount \<Rightarrow>
          let n = (case pd_count dto of None \<Rightarrow> 0 | Some n \<Rightarrow> n)
          in if \<not> whole n \<or> n < 1 \<or> 10000 < n
             then Some (BadRequest ''thresholdCount must be an integer between 1 and 10000'') else None
      | ModeValue \<Rightarrow>
          let v = (case or_null (pd_usd dto) of None \<Rightarrow> Some 0 | Some t \<Rightarrow> num t)
          in (case v of None \<Rightarrow> Some (BadRequest ''thresholdUsd must be a positive number'')
              | Some x \<Rightarrow> if x \<le> 0 then Some (BadRequest ''thresholdUsd must be a positive number'') else None)
      | ModeSchedule \<Rightarrow>
          let cron = trim (case pd_cron dto of None \<Rightarrow> [] | Some t \<Rightarrow> t)
          in if cron = [] \<or> \<not> list_all cron_char cron
             then Some (BadRequest ''scheduleCron must be a valid cron expression (5 fields)'')
             else if length (words cron) \<noteq> 5
             then Some (BadRequest ''scheduleCron must have exactly 5 space-separated fields'') else None
      | _ \<Rightarrow> None)"

text \<open>The column of the threshold keeps two decimals.\<close>

definition dec2 :: "rat \<Rightarrow> rat" where
  "dec2 q = of_int \<lfloor>q * 100 + 1 / 2\<rfloor> / 100"

definition policy_data :: "(string \<Rightarrow> rat option) \<Rightarrow> policy_dto \<Rightarrow> policy_row \<Rightarrow> policy_row" where
  "policy_data num dto r =
     r\<lparr>sp_mode := pd_mode dto,
       sp_count := (if pd_mode dto = ModeCount then map_option floor (pd_count dto) else None),
       sp_usd := (if pd_mode dto = ModeValue
                  then (case pd_usd dto of None \<Rightarrow> None | Some t \<Rightarrow> map_option dec2 (num t)) else None),
       sp_cron := (if pd_mode dto = ModeSchedule then pd_cron dto else None),
       sp_tz := Some (if pd_mode dto = ModeSchedule then (case pd_tz dto of None \<Rightarrow> ''UTC'' | Some t \<Rightarrow> t) else ''UTC''),
       sp_paused := (case pd_paused dto of None \<Rightarrow> False | Some b \<Rightarrow> b)\<rparr>"

definition upsert_row :: "ident \<Rightarrow> int \<Rightarrow> (policy_row \<Rightarrow> policy_row) \<Rightarrow> policy_row list \<Rightarrow> policy_row list" where
  "upsert_row p c f rows =
     (case find_policy p c rows of
        None \<Rightarrow> rows @ [f (default_policy p c)]
      | Some _ \<Rightarrow> update_where (\<lambda>r. sp_project r = p \<and> sp_chain r = c) f rows)"

definition upsert_policy ::
    "(string \<Rightarrow> rat option) \<Rightarrow> ident \<Rightarrow> int \<Rightarrow> policy_dto \<Rightarrow> policy_row list \<Rightarrow> (error + policy_row) \<times> policy_row list" where
  "upsert_policy num p c dto rows =
     (case validate_policy num dto of
        Some e \<Rightarrow> (Inl e, rows)
      | None \<Rightarrow>
          let rows1 = upsert_row p c (policy_data num dto) rows in (Inr (get_policy p c rows1), rows1))"

definition markRun :: "ident \<Rightarrow> int \<Rightarrow> millis \<Rightarrow> policy_row list \<Rightarrow> policy_row list" where
  "markRun p c now rows = upsert_row p c (\<lambda>r. r\<lparr>sp_lastRun := Some now\<rparr>) rows"

section \<open>The decision\<close>

text \<open>\<open>next cron tz t\<close> is the first date after \<open>t\<close> of a cron expression in a time zone, \<open>None\<close> when the
  parser throws. A year is counted back when the policy never ran.\<close>

definition qualifies ::
    "(string \<Rightarrow> string \<Rightarrow> millis \<Rightarrow> millis option) \<Rightarrow> policy_row \<Rightarrow> nat \<Rightarrow> rat option \<Rightarrow> millis \<Rightarrow> bool" where
  "qualifies next p count usd now =
     (if sp_paused p then False
      else (case sp_mode p of
              ModeAuto \<Rightarrow> True
            | ModeManual \<Rightarrow> False
            | ModeCount \<Rightarrow> (case sp_count p of None \<Rightarrow> 1 | Some n \<Rightarrow> n) \<le> int count
            | ModeValue \<Rightarrow>
                (case usd of None \<Rightarrow> False | Some v \<Rightarrow> (case sp_usd p of None \<Rightarrow> 0 | Some x \<Rightarrow> x) \<le> v)
            | ModeSchedule \<Rightarrow>
                (case or_null (sp_cron p) of
                   None \<Rightarrow> False
                 | Some cron \<Rightarrow>
                     (case next cron (case sp_tz p of None \<Rightarrow> ''UTC'' | Some z \<Rightarrow> z)
                             (case sp_lastRun p of None \<Rightarrow> now - 365 * 24 * 60 * 60 * 1000 | Some t \<Rightarrow> t) of
                        None \<Rightarrow> False
                      | Some due \<Rightarrow> due \<le> now))
            | ModeOther _ \<Rightarrow> False))"

text \<open>The rows of a snapshot are those whose project and chain occur in the pairs it is asked for.\<close>

definition snapshot :: "(ident \<times> int) list \<Rightarrow> policy_row list \<Rightarrow> policy_row list" where
  "snapshot pairs rows =
     filter (\<lambda>r. sp_project r \<in> set (map fst pairs) \<and> sp_chain r \<in> set (map snd pairs)) rows"

section \<open>The value of a forwarder\<close>

record price_env =
  pr_number :: "string \<Rightarrow> rat option"
  pr_price :: "string \<Rightarrow> rat option"
  pr_next :: "string \<Rightarrow> string \<Rightarrow> millis \<Rightarrow> millis option"
  pr_stamp :: "ident \<Rightarrow> bool"

text \<open>\<open>formatUnits\<close> throws on a text that is no integer; then the rounded amount is read.\<close>

definition human_amount :: "price_env \<Rightarrow> sweep_token \<Rightarrow> sweep_deposit \<Rightarrow> rat option" where
  "human_amount env t d =
     (case big_int (sd_amountRaw d) of
        Some n \<Rightarrow> Some (of_int n / 10 ^ tk_decimals t)
      | None \<Rightarrow> pr_number env (sd_amount d))"

type_synonym usd_map = "string \<Rightarrow> rat option option"

definition mark_unpriced :: "string \<Rightarrow> usd_map \<Rightarrow> usd_map" where
  "mark_unpriced f out = (if out f = None then out(f := Some None) else out)"

definition deposit_usd :: "price_env \<Rightarrow> sweep_token list \<Rightarrow> sweep_deposit \<Rightarrow> rat option" where
  "deposit_usd env tokens d =
     (case find (\<lambda>t. tk_id t = sd_token d) tokens of
        None \<Rightarrow> None
      | Some t \<Rightarrow>
          (case or_null (tk_coingecko t) of
             None \<Rightarrow> None
           | Some c \<Rightarrow>
               (case pr_price env c of
                  None \<Rightarrow> None
                | Some price \<Rightarrow>
                    (case human_amount env t d of None \<Rightarrow> None | Some h \<Rightarrow> Some (h * price)))))"

definition add_usd :: "price_env \<Rightarrow> sweep_token list \<Rightarrow> sweep_deposit \<Rightarrow> usd_map \<Rightarrow> usd_map" where
  "add_usd env tokens d out =
     (let f = lower (sd_forwarder d) in
      case deposit_usd env tokens d of
        None \<Rightarrow> mark_unpriced f out
      | Some usd \<Rightarrow>
          (case out f of
             Some None \<Rightarrow> out
           | Some (Some prev) \<Rightarrow> out(f := Some (Some (prev + usd)))
           | None \<Rightarrow> out(f := Some (Some usd))))"

definition computeUsdPerForwarder :: "price_env \<Rightarrow> sweep_token list \<Rightarrow> bool \<Rightarrow> sweep_deposit list \<Rightarrow> usd_map" where
  "computeUsdPerForwarder env tokens needed ds =
     (if \<not> needed \<or> ds = [] then (\<lambda>_. None) else fold (add_usd env tokens) ds (\<lambda>_. None))"

section \<open>The filter\<close>

text \<open>A project is never null in the table, so every deposit meets its policy.\<close>

definition needs_usd :: "(ident \<times> int) list \<Rightarrow> policy_row list \<Rightarrow> bool" where
  "needs_usd pairs snap =
     list_ex (\<lambda>(p, c). sp_mode (get_policy p c snap) = ModeValue \<and> \<not> sp_paused (get_policy p c snap)) pairs"

definition forwarder_count :: "sweep_deposit list \<Rightarrow> string \<Rightarrow> nat" where
  "forwarder_count ds f = count_where (\<lambda>d. lower (sd_forwarder d) = f) ds"

definition policy_allows ::
    "price_env \<Rightarrow> sweep_token list \<Rightarrow> int \<Rightarrow> sweep_deposit list \<Rightarrow> policy_row list \<Rightarrow> millis \<Rightarrow> sweep_deposit \<Rightarrow> bool" where
  "policy_allows env tokens chain ds rows now d =
     (let pairs = map (\<lambda>d. (sd_project d, chain)) ds;
          snap = snapshot pairs rows;
          usd = computeUsdPerForwarder env tokens (needs_usd pairs snap) ds;
          f = lower (sd_forwarder d)
      in qualifies (pr_next env) (get_policy (sd_project d) chain snap) (forwarder_count ds f)
           (case usd f of None \<Rightarrow> None | Some v \<Rightarrow> v) now)"

definition applyPolicyFilter ::
    "price_env \<Rightarrow> sweep_token list \<Rightarrow> int \<Rightarrow> millis \<Rightarrow> sweep_deposit list \<Rightarrow> policy_row list
     \<Rightarrow> sweep_deposit list \<times> policy_row list" where
  "applyPolicyFilter env tokens chain now ds rows =
     (let allowed = filter (policy_allows env tokens chain ds rows now) ds
      in (allowed, fold (\<lambda>p rs. if pr_stamp env p then markRun p chain now rs else rs)
            (remdups (map sd_project allowed)) rows))"

section \<open>The laws of the policies\<close>

lemma find_policy_append: "find_policy p c (rows @ rs) = (case find_policy p c rows of None \<Rightarrow> find_policy p c rs | Some r \<Rightarrow> Some r)"
  by (induction rows) (auto simp: find_policy_def)

lemma find_policy_update:
  assumes "\<And>r. sp_project (f r) = sp_project r" "\<And>r. sp_chain (f r) = sp_chain r"
  shows "find_policy p c (update_where q f rows) = map_option (\<lambda>r. if q r then f r else r) (find_policy p c rows)"
  using assms by (induction rows) (auto simp: find_policy_def)

lemma find_policyD: "find_policy p c rows = Some r \<Longrightarrow> sp_project r = p \<and> sp_chain r = c \<and> r \<in> set rows"
  unfolding find_policy_def using find_SomeD by fast

lemma get_upsert:
  assumes "\<And>r. sp_project (f r) = sp_project r" "\<And>r. sp_chain (f r) = sp_chain r"
  shows "get_policy p c (upsert_row p' c' f rows) = (if p = p' \<and> c = c' then f (get_policy p c rows) else get_policy p c rows)"
proof (cases "find_policy p' c' rows")
  case None
  have "sp_project (f (default_policy p' c')) = p'" "sp_chain (f (default_policy p' c')) = c'"
    using assms by (simp_all add: default_policy_def)
  then show ?thesis
    using None by (auto simp: get_policy_def upsert_row_def find_policy_append find_policy_def [of _ _ "[_]"] split: option.split)
next
  case (Some r)
  then show ?thesis
    by (auto simp: get_policy_def upsert_row_def find_policy_update [of f, OF assms] dest: find_policyD split: option.split)
qed

lemma get_snapshot:
  assumes "d \<in> set ds"
  shows "get_policy (sd_project d) chain (snapshot (map (\<lambda>d. (sd_project d, chain)) ds) rows) = get_policy (sd_project d) chain rows"
proof -
  have "find (\<lambda>r. sp_project r = p \<and> sp_chain r = chain)
      (filter (\<lambda>r. sp_project r \<in> set (map fst (map (\<lambda>d. (sd_project d, chain)) ds)) \<and> sp_chain r \<in> set (map snd (map (\<lambda>d. (sd_project d, chain)) ds))) rows)
    = find (\<lambda>r. sp_project r = p \<and> sp_chain r = chain) rows" if "p = sd_project d" for p
    using assms that by (induction rows) force+
  then show ?thesis by (simp add: get_policy_def find_policy_def snapshot_def)
qed

definition stamp_all :: "price_env \<Rightarrow> int \<Rightarrow> millis \<Rightarrow> ident list \<Rightarrow> policy_row list \<Rightarrow> policy_row list" where
  "stamp_all env chain now ps rows = fold (\<lambda>p rs. if pr_stamp env p then markRun p chain now rs else rs) ps rows"

lemma get_stamp_all:
  "get_policy p c (stamp_all env chain now ps rows)
   = (if p \<in> set ps \<and> pr_stamp env p \<and> c = chain then (get_policy p c rows)\<lparr>sp_lastRun := Some now\<rparr> else get_policy p c rows)"
proof -
  have u: "get_policy p c (markRun q chain now rs) = (if p = q \<and> c = chain then (get_policy p c rs)\<lparr>sp_lastRun := Some now\<rparr> else get_policy p c rs)" for p c q rs
    unfolding markRun_def by (rule get_upsert) simp_all
  show ?thesis unfolding stamp_all_def by (induction ps arbitrary: rows) (auto simp: u)
qed

text \<open>A schedule runs once per due date: after a cycle that let through a deposit of a project with a
  schedule, and stamped the run, no later cycle lets one through before the first date of the expression after
  that run, whatever deposits and tokens there are.\<close>

lemma schedule_runs_once_per_due_date:
  assumes "applyPolicyFilter env toks chain now ds rows = (allowed, rows1)" "d \<in> set allowed" "pr_stamp env (sd_project d)"
    and "sp_mode (get_policy (sd_project d) chain rows) = ModeSchedule" "sp_cron (get_policy (sd_project d) chain rows) = Some cron"
    and "sp_tz (get_policy (sd_project d) chain rows) = Some tz" "pr_next env' cron tz now = Some due" "now' < due"
    and "e \<in> set (fst (applyPolicyFilter env' toks' chain now' ds' rows1))"
  shows "sd_project e \<noteq> sd_project d"
proof
  assume p: "sd_project e = sd_project d"
  have r1: "rows1 = stamp_all env chain now (remdups (map sd_project allowed)) rows"
    using assms(1) by (auto simp: applyPolicyFilter_def stamp_all_def Let_def)
  have g: "get_policy (sd_project d) chain rows1 = (get_policy (sd_project d) chain rows)\<lparr>sp_lastRun := Some now\<rparr>"
    unfolding r1 get_stamp_all using assms(2,3) by simp
  have e: "e \<in> set ds'" "policy_allows env' toks' chain ds' rows1 now' e"
    using assms(9) by (simp_all add: applyPolicyFilter_def Let_def)
  have "get_policy (sd_project e) chain (snapshot (map (\<lambda>d. (sd_project d, chain)) ds') rows1)
      = (get_policy (sd_project d) chain rows)\<lparr>sp_lastRun := Some now\<rparr>"
    using get_snapshot [OF e(1), of chain rows1] p g by simp
  then have "\<not> policy_allows env' toks' chain ds' rows1 now' e"
    using assms(4-8) by (simp add: policy_allows_def qualifies_def Let_def or_null_def)
  with e(2) show False by simp
qed

section \<open>Well-formed policies\<close>

definition policy_ok :: "policy_row \<Rightarrow> bool" where
  "policy_ok r \<longleftrightarrow>
     (case sp_count r of None \<Rightarrow> sp_mode r \<noteq> ModeCount | Some n \<Rightarrow> sp_mode r = ModeCount \<and> 1 \<le> n \<and> n \<le> 10000)
     \<and> (case sp_usd r of None \<Rightarrow> sp_mode r \<noteq> ModeValue | Some v \<Rightarrow> sp_mode r = ModeValue \<and> 0 \<le> v)
     \<and> (case sp_cron r of None \<Rightarrow> sp_mode r \<noteq> ModeSchedule
        | Some c \<Rightarrow> sp_mode r = ModeSchedule \<and> list_all cron_char (trim c) \<and> length (words (trim c)) = 5)
     \<and> sp_tz r \<noteq> None \<and> (case sp_mode r of ModeOther _ \<Rightarrow> False | _ \<Rightarrow> True)"

definition policies_ok :: "policy_row list \<Rightarrow> bool" where
  "policies_ok rows \<longleftrightarrow> list_all policy_ok rows \<and> distinct (map (\<lambda>r. (sp_project r, sp_chain r)) rows)"

lemma dec2_nonneg: "0 \<le> q \<Longrightarrow> 0 \<le> dec2 q"
  by (simp add: dec2_def)

lemma policy_ok_stamp [simp]: "policy_ok (r\<lparr>sp_lastRun := x\<rparr>) = policy_ok r"
  by (simp add: policy_ok_def cong: option.case_cong)

lemma policy_ok_data:
  assumes "validate_policy num dto = None"
  shows "policy_ok (policy_data num dto r)"
proof (cases "pd_mode dto")
  case ModeCount
  then obtain n where "pd_count dto = Some n" "whole n" "1 \<le> n" "n \<le> 10000"
    using assms by (cases "pd_count dto") (auto simp: validate_policy_def Let_def split: if_splits)
  moreover from this have "1 \<le> \<lfloor>n\<rfloor>" "\<lfloor>n\<rfloor> \<le> 10000" by (simp_all add: le_floor_iff floor_le_iff)
  ultimately show ?thesis using ModeCount by (simp add: policy_ok_def policy_data_def)
next
  case ModeValue
  then obtain t v where "pd_usd dto = Some t" "num t = Some v" "0 < v"
    using assms by (cases "pd_usd dto") (auto simp: validate_policy_def Let_def or_null_def split: if_splits option.splits)
  then show ?thesis using ModeValue dec2_nonneg [of v] by (simp add: policy_ok_def policy_data_def)
next
  case ModeSchedule
  then obtain c where "pd_cron dto = Some c" "list_all cron_char (trim c)" "length (words (trim c)) = 5"
    using assms by (cases "pd_cron dto") (auto simp: validate_policy_def Let_def trim_def split: if_splits)
  then show ?thesis using ModeSchedule by (simp add: policy_ok_def policy_data_def)
next
  case (ModeOther m)
  then show ?thesis using assms by (simp add: validate_policy_def)
qed (simp_all add: policy_ok_def policy_data_def)

lemma policies_ok_upsert:
  assumes "policies_ok rows" "\<And>r. policy_ok r \<Longrightarrow> policy_ok (f r)"
    and "\<And>r. sp_project (f r) = sp_project r" "\<And>r. sp_chain (f r) = sp_chain r"
  shows "policies_ok (upsert_row p c f rows)"
proof (cases "find_policy p c rows")
  case None
  have "(p, c) \<notin> (\<lambda>r. (sp_project r, sp_chain r)) ` set rows"
    using None by (auto simp: find_policy_def find_None_iff)
  moreover have "policy_ok (default_policy p c)" by (simp add: policy_ok_def default_policy_def)
  ultimately show ?thesis
    using assms None by (simp add: policies_ok_def upsert_row_def) (simp add: default_policy_def)
next
  case (Some r)
  have "map (\<lambda>r. (sp_project r, sp_chain r)) (update_where q f rows) = map (\<lambda>r. (sp_project r, sp_chain r)) rows" for q
    using assms(3,4) by (simp add: update_where_def)
  moreover have "list_all policy_ok (update_where q f rows)" for q
    using assms(1,2) by (auto simp: policies_ok_def list_all_iff set_update_where)
  ultimately show ?thesis using Some assms(1) by (simp add: policies_ok_def upsert_row_def)
qed

text \<open>Claim C21. The table of the policies stays well formed under every operation, whatever is submitted: one row
  for each project and chain, with exactly the parameter its mode needs, the count between 1 and 10,000, the
  amount not negative, the expression of five fields of the permitted characters.\<close>

theorem policies_stay_well_formed:
  assumes "policies_ok rows"
  shows "policies_ok (snd (upsert_policy num p c dto rows))
    \<and> policies_ok (snd (applyPolicyFilter env toks chain now ds rows))"
proof
  show "policies_ok (snd (upsert_policy num p c dto rows))"
  proof (cases "validate_policy num dto")
    case None
    have "policies_ok (upsert_row p c (policy_data num dto) rows)"
      by (rule policies_ok_upsert [OF assms policy_ok_data [OF None]]) (simp_all add: policy_data_def)
    then show ?thesis using None by (simp add: upsert_policy_def Let_def)
  qed (simp add: upsert_policy_def assms)
  have m: "policies_ok (markRun q chain now rs)" if "policies_ok rs" for q rs
    unfolding markRun_def using that by (rule policies_ok_upsert) simp_all
  have "policies_ok (stamp_all env chain now ps rows)" for ps
    unfolding stamp_all_def using assms by (induction ps arbitrary: rows) (simp_all add: m)
  then show "policies_ok (snd (applyPolicyFilter env toks chain now ds rows))"
    by (simp add: applyPolicyFilter_def Let_def stamp_all_def)
qed

theorem policies_stay_well_formed_witness:
  "policies_ok (snd (upsert_policy (\<lambda>_. Some 3) 5 1 \<lparr>pd_mode = ModeValue, pd_count = None, pd_usd = Some ''3'',
      pd_cron = None, pd_tz = None, pd_paused = None\<rparr> []))"
  using policies_stay_well_formed [of "[]"] by (simp add: policies_ok_def)

section \<open>The value, in closed form\<close>

definition usd_or_zero :: "price_env \<Rightarrow> sweep_token list \<Rightarrow> sweep_deposit \<Rightarrow> rat" where
  "usd_or_zero env toks d = (case deposit_usd env toks d of None \<Rightarrow> 0 | Some v \<Rightarrow> v)"

lemma add_usd_step:
  "fold (add_usd env toks) ds out f =
     (case out f of
        None \<Rightarrow> (case filter (\<lambda>d. lower (sd_forwarder d) = f) ds of
            [] \<Rightarrow> None
          | d # rest \<Rightarrow> (case deposit_usd env toks d of
                None \<Rightarrow> Some None
              | Some v \<Rightarrow> Some (Some (sum_list (map (usd_or_zero env toks) (d # rest))))))
      | Some None \<Rightarrow> Some None
      | Some (Some v) \<Rightarrow> Some (Some (v + sum_list (map (usd_or_zero env toks) (filter (\<lambda>d. lower (sd_forwarder d) = f) ds)))))"
proof (induction ds arbitrary: out)
  case Nil
  then show ?case by (simp split: option.split)
next
  case (Cons d ds)
  show ?case
  proof (cases "lower (sd_forwarder d) = f")
    case False
    then have "add_usd env toks d out f = out f"
      by (auto simp: add_usd_def mark_unpriced_def Let_def split: option.split)
    moreover have "filter (\<lambda>d. lower (sd_forwarder d) = f) (d # ds) = filter (\<lambda>d. lower (sd_forwarder d) = f) ds"
      using False by simp
    ultimately show ?thesis unfolding fold_simps Cons by (simp only:)
  next
    case True
    then have "add_usd env toks d out f = (case deposit_usd env toks d of
        None \<Rightarrow> (if out f = None then Some None else out f)
      | Some v \<Rightarrow> (case out f of None \<Rightarrow> Some (Some v) | Some None \<Rightarrow> Some None | Some (Some w) \<Rightarrow> Some (Some (w + v))))"
      by (auto simp: add_usd_def mark_unpriced_def Let_def split: option.split)
    then show ?thesis
      unfolding fold_simps Cons using True
      by (cases "out f"; cases "the (out f)"; cases "deposit_usd env toks d") (simp_all add: usd_or_zero_def add.assoc)
  qed
qed

text \<open>The value of a forwarder, against its specification: it is unknown when its first deposit has no
  price; otherwise it is the sum over its deposits in which every later deposit without a price counts as nothing.
  So an unpriced deposit makes the value unknown or goes unseen, depending on the order of the rows.\<close>

lemma forwarder_value_is_a_sum_of_the_priced:
  "computeUsdPerForwarder env toks True ds f =
     (case filter (\<lambda>d. lower (sd_forwarder d) = f) ds of
        [] \<Rightarrow> None
      | d # rest \<Rightarrow> (case deposit_usd env toks d of
            None \<Rightarrow> Some None
          | Some v \<Rightarrow> Some (Some (sum_list (map (\<lambda>d. case deposit_usd env toks d of None \<Rightarrow> 0 | Some v \<Rightarrow> v) (d # rest))))))"
  using add_usd_step [of env toks ds "\<lambda>_. None" f] unfolding usd_or_zero_def computeUsdPerForwarder_def by simp

definition daily :: policy_row where
  "daily = (default_policy 5 1)\<lparr>sp_mode := ModeSchedule, sp_cron := Some ''0 3 * * *''\<rparr>"

definition daily_env :: price_env where
  "daily_env = \<lparr>pr_number = (\<lambda>_. None), pr_price = (\<lambda>_. None), pr_next = (\<lambda>_ _ t. Some (t + 100)), pr_stamp = (\<lambda>_. True)\<rparr>"

definition daily_deposit :: sweep_deposit where
  "daily_deposit = \<lparr>sd_id = 1, sd_client = 7, sd_project = 5, sd_chain = 1, sd_forwarder = ''0xf'', sd_token = 3,
      sd_amount = ''5'', sd_amountRaw = ''5'', sd_status = StConfirmed, sd_sweepTx = None,
      sd_confirmedAt = None, sd_sweptAt = None\<rparr>"

lemma schedule_runs_once_per_due_date_witness:
  "applyPolicyFilter daily_env [] 1 1000 [daily_deposit] [daily] = ([daily_deposit], [daily\<lparr>sp_lastRun := Some 1000\<rparr>])
   \<and> fst (applyPolicyFilter daily_env [] 1 1050 [daily_deposit] [daily\<lparr>sp_lastRun := Some 1000\<rparr>]) = []"
proof -
  have a: "applyPolicyFilter daily_env [] 1 1000 [daily_deposit] [daily] = ([daily_deposit], [daily\<lparr>sp_lastRun := Some 1000\<rparr>])"
    by (simp add: applyPolicyFilter_def policy_allows_def snapshot_def get_policy_def find_policy_def daily_def default_policy_def
        daily_env_def daily_deposit_def qualifies_def or_null_def markRun_def upsert_row_def Let_def)
  have p: "get_policy 5 1 [daily] = daily" "sp_mode daily = ModeSchedule" "sp_cron daily = Some ''0 3 * * *''" "sp_tz daily = Some ''UTC''"
    by (simp_all add: get_policy_def find_policy_def daily_def default_policy_def)
  have "sd_project e \<noteq> 5" if "e \<in> set (fst (applyPolicyFilter daily_env [] 1 1050 [daily_deposit] [daily\<lparr>sp_lastRun := Some 1000\<rparr>]))" for e
    using schedule_runs_once_per_due_date [OF a, of daily_deposit "''0 3 * * *''" "''UTC''" daily_env 1100 1050 e "[]" "[daily_deposit]"] that p
    by (simp add: daily_deposit_def daily_env_def)
  moreover have "set (fst (applyPolicyFilter daily_env [] 1 1050 [daily_deposit] [daily\<lparr>sp_lastRun := Some 1000\<rparr>])) \<subseteq> {daily_deposit}"
    by (auto simp: applyPolicyFilter_def Let_def)
  moreover have "sd_project daily_deposit = 5" by (simp add: daily_deposit_def)
  ultimately have "fst (applyPolicyFilter daily_env [] 1 1050 [daily_deposit] [daily\<lparr>sp_lastRun := Some 1000\<rparr>]) = []"
    by (metis empty_iff list.set_intros(1) neq_Nil_conv singletonD subsetD)
  with a show ?thesis by simp
qed

end
