(* ===== verification/Sweep.thy ===== *)
theory Sweep
  imports SweepPolicy WithdrawalWorker KeyValue "HOL-Library.Multiset"
begin

text \<open>
  The sweep of confirmed deposits into the hot wallet (services/cron-worker-service/src:
  sweep/sweep.service.ts, the call builders of sweep/transaction-submitter.service.ts,
  gas-tank/gas-tank-tx-logger.service.ts). The keys, the broadcast transactions and the published events are
  those of the worker's state. The answers of the node and of the key vault for each submission, the balances
  and the code of the forwarders, and which of the writes after a broadcast succeed are the fields of
  \<open>sweep_env\<close>; a provider that cannot be had fails the sweep, the other reads succeed.
\<close>

section \<open>State\<close>

datatype sweep_wallet_type = SweepHot | SweepGasTank | SweepOther string

record sweep_wallet =
  sw_id :: ident
  sw_client :: ident
  sw_project :: ident
  sw_chain :: int
  sw_address :: string
  sw_type :: sweep_wallet_type
  sw_active :: bool

record deposit_address =
  da_id :: ident
  da_client :: ident
  da_chain :: int
  da_address :: string
  da_salt :: string
  da_deployed :: bool

record sweep_chain =
  sc_id :: int
  sc_active :: bool
  sc_factory :: "string option"

datatype gas_op = OpSweep | OpFlush | OpOther string

datatype gas_status = GasSubmitted | GasConfirmed | GasFailed

record gas_tx =
  gt_id :: ident
  gt_wallet :: ident
  gt_project :: ident
  gt_chain :: int
  gt_hash :: string
  gt_op :: gas_op
  gt_to :: "string option"
  gt_status :: gas_status
  gt_gasUsed :: "int option"
  gt_gasCost :: "int option"
  gt_block :: "int option"
  gt_submitted :: millis
  gt_confirmed :: "millis option"

record sweep_state =
  sd_rows :: "sweep_deposit list"
  sd_tokens :: "sweep_token list"
  sd_wallets :: "sweep_wallet list"
  sd_chains :: "sweep_chain list"
  sd_projects :: "project_chain_row list"
  sd_addresses :: "deposit_address list"
  sd_policies :: "policy_row list"
  gas_txs :: "gas_tx list"
  sd_store :: store
  sw_worker :: worker_state
  cycleInFlight :: bool

record sweep_codec =
  enc_flush :: string
  enc_batch :: "string list \<Rightarrow> string"
  enc_wrapper :: "string \<Rightarrow> string \<Rightarrow> string"

record sweep_env =
  sv_now :: millis
  sv_end :: millis
  sv_lock :: string
  sv_prices :: price_env
  sv_provider :: "error + unit"
  sv_code :: "string \<Rightarrow> error + bool"
  sv_balance :: "string \<Rightarrow> sweep_token \<Rightarrow> error + int"
  sv_codec :: sweep_codec
  sv_attempt :: "string \<Rightarrow> ident option \<Rightarrow> attempt"
  sv_logged :: "string \<Rightarrow> bool"
  sv_recorded :: "string \<Rightarrow> bool"
  sv_published :: "string \<Rightarrow> bool"
  sv_marked :: "string \<Rightarrow> bool"

section \<open>Look-ups\<close>

definition find_sweep_wallet :: "ident \<Rightarrow> int \<Rightarrow> sweep_wallet_type \<Rightarrow> sweep_state \<Rightarrow> sweep_wallet option" where
  "find_sweep_wallet client chain ty st =
     find (\<lambda>w. sw_client w = client \<and> sw_chain w = chain \<and> sw_type w = ty) (sd_wallets st)"

definition getProjectHotWallet :: "ident \<Rightarrow> int \<Rightarrow> sweep_state \<Rightarrow> string option" where
  "getProjectHotWallet p chain st =
     (case find (\<lambda>r. pc_project r = p \<and> pc_chain r = chain) (sd_projects st) of
        None \<Rightarrow> None | Some r \<Rightarrow> hotWalletAddress r)"

definition getClientHotWallet :: "ident \<Rightarrow> int \<Rightarrow> sweep_state \<Rightarrow> string option" where
  "getClientHotWallet client chain st = map_option sw_address (find_sweep_wallet client chain SweepHot st)"

text \<open>An empty address is falsy.\<close>

definition resolveParentWallet :: "ident \<Rightarrow> int \<Rightarrow> ident \<Rightarrow> sweep_state \<Rightarrow> string option" where
  "resolveParentWallet client chain p st =
     (case (if 0 < p then or_null (getProjectHotWallet p chain st) else None) of
        Some a \<Rightarrow> Some a
      | None \<Rightarrow> or_null (getClientHotWallet client chain st))"

section \<open>Submitting\<close>

datatype flush = NativeFlush sweep_token | TokenFlush sweep_token | BatchFlush "sweep_token list"

fun flush_tokens :: "flush \<Rightarrow> sweep_token list" where
  "flush_tokens (NativeFlush t) = [t]"
| "flush_tokens (TokenFlush t) = [t]"
| "flush_tokens (BatchFlush ts) = ts"

fun flush_key :: "flush \<Rightarrow> ident option" where
  "flush_key (NativeFlush t) = Some (tk_id t)"
| "flush_key (TokenFlush t) = Some (tk_id t)"
| "flush_key (BatchFlush ts) = None"

definition SWEEP_MULTISIG_EXPIRE_SECONDS :: int where "SWEEP_MULTISIG_EXPIRE_SECONDS = 3600"
definition SWEEP_MULTISIG_DEFAULT_GAS :: int where "SWEEP_MULTISIG_DEFAULT_GAS = 350000"
definition SWEEP_FLUSH_WRAPPER_DEFAULT_GAS :: int where "SWEEP_FLUSH_WRAPPER_DEFAULT_GAS = 200000"

definition estimateBatchGasLimit :: "nat \<Rightarrow> int" where
  "estimateBatchGasLimit n = 50000 + 65000 * int n"

text \<open>\<open>signAndSubmit\<close> with a given gas limit, from a given address or, for an empty one, from the first
  active key of the type.\<close>

definition submit_from ::
    "attempt \<Rightarrow> int \<Rightarrow> ident \<Rightarrow> key_type \<Rightarrow> string \<Rightarrow> string \<Rightarrow> call_data \<Rightarrow> int \<Rightarrow> worker_state
     \<Rightarrow> (error + string) \<times> worker_state" where
  "submit_from att chain client ty from dest data gas st =
     (if \<not> provider_up att chain then (Inl (InternalError ''provider''), st)
      else
     (case getTransactionCount att from of
        Inl e \<Rightarrow> (Inl e, st)
      | Inr nonce \<Rightarrow>
     (case getFeeData att of
        Inl e \<Rightarrow> (Inl e, st)
      | Inr fee \<Rightarrow>
     (case gas_pricing fee of
        Inl e \<Rightarrow> (Inl e, st)
      | Inr price \<Rightarrow>
          sign_and_broadcast att client ty
            \<lparr>tx_to = dest, tx_data = data, tx_value = 0, tx_gasLimit = gas,
             tx_nonce = nonce, tx_chain = chain, tx_price = price\<rparr> st))))"

definition submit_with_gas ::
    "attempt \<Rightarrow> int \<Rightarrow> ident \<Rightarrow> string \<Rightarrow> call_data \<Rightarrow> int \<Rightarrow> worker_state \<Rightarrow> (error + string) \<times> worker_state" where
  "submit_with_gas att chain client dest data gas st =
     (case filter (\<lambda>k. k_client k = client \<and> k_type k = PlatformKey \<and> k_active k) (keys st) of
        [] \<Rightarrow> (Inl (InternalError ''No active platform key found''), st)
      | k # _ \<Rightarrow> submit_from att chain client PlatformKey (k_address k) dest data gas st)"

definition multisig_call ::
    "crypto \<Rightarrow> attempt \<Rightarrow> int \<Rightarrow> ident \<Rightarrow> string \<Rightarrow> string \<Rightarrow> string \<Rightarrow> error + call_data" where
  "multisig_call cr att chain client fwd wallet inner =
     (if \<not> provider_up att chain then Inl (InternalError ''provider'')
      else (case getNextSequenceId att wallet of
        Inl e \<Rightarrow> Inl e
      | Inr seq \<Rightarrow>
          let expire = at_now att div 1000 + SWEEP_MULTISIG_EXPIRE_SECONDS in
     (case buildNativeOperationHash cr \<lparr>nh_chain = chain, nh_wallet = wallet, nh_to = fwd, nh_value = 0,
             nh_data = inner, nh_expire = expire, nh_sequence = seq\<rparr> of
        Inl e \<Rightarrow> Inl e
      | Inr h \<Rightarrow>
     (case eth_prefix att h of
        Inl e \<Rightarrow> Inl e
      | Inr ph \<Rightarrow>
     (case signViaKeyVault att client ph of
        Inl e \<Rightarrow> Inl e
      | Inr sig \<Rightarrow> Inr (SendMultiSig fwd 0 inner expire seq sig))))))"

definition submitMultiSigForwarderCall ::
    "crypto \<Rightarrow> attempt \<Rightarrow> int \<Rightarrow> ident \<Rightarrow> string \<Rightarrow> string \<Rightarrow> string \<Rightarrow> int \<Rightarrow> worker_state
     \<Rightarrow> (error + string) \<times> worker_state" where
  "submitMultiSigForwarderCall cr att chain client fwd wallet inner gas st =
     (case multisig_call cr att chain client fwd wallet inner of
        Inl e \<Rightarrow> (Inl e, st)
      | Inr call \<Rightarrow> submit_with_gas att chain client wallet call gas st)"

definition submit_flush ::
    "crypto \<Rightarrow> sweep_env \<Rightarrow> int \<Rightarrow> ident \<Rightarrow> string \<Rightarrow> string \<Rightarrow> flush \<Rightarrow> worker_state \<Rightarrow> (error + string) \<times> worker_state" where
  "submit_flush cr env chain client fwd wallet f st =
     (let att = sv_attempt env fwd (flush_key f); co = sv_codec env in
      case f of
        NativeFlush _ \<Rightarrow>
          submitMultiSigForwarderCall cr att chain client fwd wallet (enc_flush co) SWEEP_MULTISIG_DEFAULT_GAS st
      | TokenFlush t \<Rightarrow>
          submit_with_gas att chain client wallet (RawData (enc_wrapper co fwd (tk_contract t)))
            SWEEP_FLUSH_WRAPPER_DEFAULT_GAS st
      | BatchFlush ts \<Rightarrow>
          submitMultiSigForwarderCall cr att chain client fwd wallet (enc_batch co (map tk_contract ts))
            (estimateBatchGasLimit (length ts) + 100000) st)"

section \<open>One flush\<close>

record sweep_result =
  sr_swept :: nat
  sr_failed :: nat
  sr_hashes :: "string list"

definition update_rows :: "ident list \<Rightarrow> (sweep_deposit \<Rightarrow> sweep_deposit) \<Rightarrow> sweep_state \<Rightarrow> sweep_state" where
  "update_rows ids f st = st\<lparr>sd_rows := update_where (\<lambda>d. sd_id d \<in> set ids) f (sd_rows st)\<rparr>"

text \<open>\<open>logSubmit\<close>: a failing insert is only logged.\<close>

definition logSubmit ::
    "bool \<Rightarrow> millis \<Rightarrow> sweep_wallet \<Rightarrow> int \<Rightarrow> string \<Rightarrow> gas_op \<Rightarrow> string \<Rightarrow> sweep_state \<Rightarrow> sweep_state" where
  "logSubmit ok now tank chain h op dest st =
     (if ok
      then st\<lparr>gas_txs := gas_txs st @
             [\<lparr>gt_id = int (length (gas_txs st)) + 1, gt_wallet = sw_id tank, gt_project = sw_project tank, gt_chain = chain,
               gt_hash = h, gt_op = op, gt_to = Some dest, gt_status = GasSubmitted, gt_gasUsed = None,
               gt_gasCost = None, gt_block = None, gt_submitted = now, gt_confirmed = None\<rparr>]\<rparr>
      else st)"

definition comma_join :: "string list \<Rightarrow> string" where
  "comma_join xs = concat (case xs of [] \<Rightarrow> [] | x # rest \<Rightarrow> x # map (\<lambda>y. CHR '','' # y) rest)"

definition sweep_event :: "sweep_env \<Rightarrow> int \<Rightarrow> ident \<Rightarrow> string \<Rightarrow> flush \<Rightarrow> nat \<Rightarrow> string \<Rightarrow> (string \<times> string) list" where
  "sweep_event env chain client fwd f n h =
     [(''chainId'', show_int chain), (''clientId'', show_int client)]
     @ (case f of
          BatchFlush ts \<Rightarrow> [(''tokenSymbols'', comma_join (map tk_symbol ts)), (''tokenAddresses'', comma_join (map tk_contract ts))]
        | _ \<Rightarrow> [(''tokenSymbol'', tk_symbol (hd (flush_tokens f))), (''tokenAddress'', tk_contract (hd (flush_tokens f)))])
     @ [(''forwarderAddress'', fwd), (''depositCount'', show_int (int n)), (''sweepTxHash'', h)]"

text \<open>The handler of a failed flush: the rows become \<open>sweep_failed\<close>; when that write fails too, the error
  leaves the forwarder.\<close>

definition flush_failed ::
    "sweep_env \<Rightarrow> string \<Rightarrow> ident list \<Rightarrow> sweep_result \<Rightarrow> sweep_state \<Rightarrow> bool \<times> sweep_result \<times> sweep_state" where
  "flush_failed env fwd ids acc st =
     (if sv_marked env fwd
      then (True, acc\<lparr>sr_failed := sr_failed acc + length ids\<rparr>, update_rows ids (\<lambda>d. d\<lparr>sd_status := StSweepFailed\<rparr>) st)
      else (False, acc, st))"

definition run_flush ::
    "crypto \<Rightarrow> sweep_env \<Rightarrow> int \<Rightarrow> ident \<Rightarrow> sweep_wallet \<Rightarrow> string \<Rightarrow> string \<Rightarrow> flush \<Rightarrow> ident list \<Rightarrow> sweep_result \<Rightarrow> sweep_state
     \<Rightarrow> bool \<times> sweep_result \<times> sweep_state" where
  "run_flush cr env chain client tank fwd wallet f ids acc st =
     (case submit_flush cr env chain client fwd wallet f (sw_worker st) of
        (Inl e, w) \<Rightarrow> flush_failed env fwd ids acc (st\<lparr>sw_worker := w\<rparr>)
      | (Inr h, w) \<Rightarrow>
          let st1 = logSubmit (sv_logged env h) (sv_now env) tank chain h OpSweep wallet (st\<lparr>sw_worker := w\<rparr>) in
          if \<not> sv_recorded env h then flush_failed env fwd ids acc st1
          else
            let st2 = update_rows ids (\<lambda>d. d\<lparr>sd_status := StSweepPending, sd_sweepTx := Some h\<rparr>) st1;
                acc2 = acc\<lparr>sr_swept := sr_swept acc + length ids, sr_hashes := sr_hashes acc @ [h]\<rparr>
            in if \<not> sv_published env h then flush_failed env fwd ids acc2 st2
               else (True, acc2, st2\<lparr>sw_worker := set_core (publish ''deposits:sweep_pending''
                       (sweep_event env chain client fwd f (length ids) h)) (sw_worker st2)\<rparr>))"

section \<open>One forwarder\<close>

text \<open>A \<open>Map\<close> keeps its keys in the order of their first insertion.\<close>

definition firsts :: "'a list \<Rightarrow> 'a list" where
  "firsts xs = rev (remdups (rev xs))"

definition group_by :: "('a \<Rightarrow> 'k) \<Rightarrow> 'a list \<Rightarrow> ('k \<times> 'a list) list" where
  "group_by k xs = map (\<lambda>v. (v, filter (\<lambda>x. k x = v) xs)) (firsts (map k xs))"

definition not_deployed :: "int \<Rightarrow> string \<Rightarrow> sweep_state \<Rightarrow> bool" where
  "not_deployed chain fwd st =
     (case find (\<lambda>a. da_chain a = chain \<and> sql_eq (da_address a) fwd) (sd_addresses st) of
        None \<Rightarrow> False | Some a \<Rightarrow> \<not> da_deployed a)"

text \<open>The tokens of a forwarder that hold a balance, with the deposits of each; the first failing read throws.\<close>

fun funded :: "sweep_env \<Rightarrow> sweep_token list \<Rightarrow> string \<Rightarrow> (ident \<times> sweep_deposit list) list
    \<Rightarrow> error + (sweep_token \<times> ident list) list" where
  "funded env toks fwd [] = Inr []"
| "funded env toks fwd ((t, ds) # rest) =
     (case find (\<lambda>x. tk_id x = t) toks of
        None \<Rightarrow> funded env toks fwd rest
      | Some tok \<Rightarrow>
          (case sv_balance env fwd tok of
             Inl e \<Rightarrow> Inl e
           | Inr b \<Rightarrow>
               (case funded env toks fwd rest of
                  Inl e \<Rightarrow> Inl e
                | Inr ts \<Rightarrow> Inr (if 0 < b then (tok, map sd_id ds) # ts else ts))))"

definition flushes :: "(sweep_token \<times> ident list) list \<Rightarrow> (flush \<times> ident list) list" where
  "flushes ts =
     map (\<lambda>(t, ids). (NativeFlush t, ids)) (filter (\<lambda>x. tk_native (fst x)) ts)
     @ (case filter (\<lambda>x. \<not> tk_native (fst x)) ts of
          [] \<Rightarrow> []
        | [(t, ids)] \<Rightarrow> [(TokenFlush t, ids)]
        | es \<Rightarrow> [(BatchFlush (map fst es), concat (map snd es))])"

fun run_flushes ::
    "crypto \<Rightarrow> sweep_env \<Rightarrow> int \<Rightarrow> ident \<Rightarrow> sweep_wallet \<Rightarrow> string \<Rightarrow> string \<Rightarrow> (flush \<times> ident list) list \<Rightarrow> sweep_result \<Rightarrow> sweep_state
     \<Rightarrow> bool \<times> sweep_result \<times> sweep_state" where
  "run_flushes cr env chain client tank fwd wallet [] acc st = (True, acc, st)"
| "run_flushes cr env chain client tank fwd wallet ((f, ids) # fs) acc st =
     (case run_flush cr env chain client tank fwd wallet f ids acc st of
        (True, acc1, st1) \<Rightarrow> run_flushes cr env chain client tank fwd wallet fs acc1 st1
      | (False, acc1, st1) \<Rightarrow> (False, acc1, st1))"

text \<open>The body of the loop over the forwarders. An error counts all deposits of the forwarder as failed.\<close>

definition sweep_forwarder ::
    "crypto \<Rightarrow> sweep_env \<Rightarrow> int \<Rightarrow> ident \<Rightarrow> sweep_wallet \<Rightarrow> sweep_token list \<Rightarrow> string \<times> sweep_deposit list
     \<Rightarrow> sweep_result \<times> sweep_state \<Rightarrow> sweep_result \<times> sweep_state" where
  "sweep_forwarder cr env chain client tank toks g s =
     (case (g, s) of ((fwd, ds), (acc, st)) \<Rightarrow>
      let failed = (\<lambda>a. a\<lparr>sr_failed := sr_failed a + length ds\<rparr>) in
      if not_deployed chain fwd st then (acc, st)
      else (case sv_code env fwd of
        Inl e \<Rightarrow> (failed acc, st)
      | Inr False \<Rightarrow> (acc, st)
      | Inr True \<Rightarrow>
     (case funded env toks fwd (group_by sd_token ds) of
        Inl e \<Rightarrow> (failed acc, st)
      | Inr [] \<Rightarrow> (acc, st)
      | Inr ts \<Rightarrow>
     (case resolveParentWallet client chain (sd_project (hd ds)) st of
        None \<Rightarrow> (failed acc, st)
      | Some wallet \<Rightarrow>
          (case run_flushes cr env chain client tank fwd wallet (flushes ts) acc st of
             (True, acc1, st1) \<Rightarrow> (acc1, st1)
           | (False, acc1, st1) \<Rightarrow> (failed acc1, st1))))))"

section \<open>A sweep\<close>

definition lock_key :: "int \<Rightarrow> ident \<Rightarrow> string" where
  "lock_key chain client = ''sweep:lock:'' @ show_int chain @ '':'' @ show_int client"

definition to_sweep :: "int \<Rightarrow> ident \<Rightarrow> sweep_state \<Rightarrow> sweep_deposit list" where
  "to_sweep chain client st =
     filter (\<lambda>d. sd_chain d = chain \<and> sd_client d = client \<and> sd_status d = StConfirmed \<and> sd_sweepTx d = None) (sd_rows st)"

definition gate :: "sweep_env \<Rightarrow> int \<Rightarrow> bool \<Rightarrow> sweep_deposit list \<Rightarrow> sweep_state \<Rightarrow> sweep_deposit list \<times> sweep_state" where
  "gate env chain bypass ds st =
     (if bypass then (ds, st)
      else (case applyPolicyFilter (sv_prices env) (sd_tokens st) chain (sv_now env) ds (sd_policies st) of
              (allowed, rows) \<Rightarrow> (allowed, st\<lparr>sd_policies := rows\<rparr>)))"

definition no_result :: sweep_result where
  "no_result = \<lparr>sr_swept = 0, sr_failed = 0, sr_hashes = []\<rparr>"

definition sweep_body :: "crypto \<Rightarrow> sweep_env \<Rightarrow> int \<Rightarrow> ident \<Rightarrow> bool \<Rightarrow> sweep_state \<Rightarrow> (error + sweep_result) \<times> sweep_state" where
  "sweep_body cr env chain client bypass st =
     (let confirmed = to_sweep chain client st in
      if confirmed = [] then (Inr no_result, st)
      else (case gate env chain bypass confirmed st of
        ([], st1) \<Rightarrow> (Inr no_result, st1)
      | (ds, st1) \<Rightarrow>
     (case find (\<lambda>c. sc_id c = chain) (sd_chains st1) of
        None \<Rightarrow> (Inr no_result, st1)
      | Some c \<Rightarrow>
          if or_null (sc_factory c) = None \<and> \<not> list_ex (\<lambda>d. 0 < sd_project d) ds then (Inr no_result, st1)
          else
     (case find_sweep_wallet client chain SweepGasTank st1 of
        None \<Rightarrow> (Inr no_result, st1)
      | Some tank \<Rightarrow>
     (case sv_provider env of
        Inl e \<Rightarrow> (Inl e, st1)
      | Inr _ \<Rightarrow>
          (case fold (sweep_forwarder cr env chain client tank (sd_tokens st1)) (group_by sd_forwarder ds) (no_result, st1) of
             (acc, st2) \<Rightarrow> (Inr acc, st2)))))))"

definition executeSweep :: "crypto \<Rightarrow> sweep_env \<Rightarrow> int \<Rightarrow> ident \<Rightarrow> bool \<Rightarrow> sweep_state \<Rightarrow> (error + sweep_result) \<times> sweep_state" where
  "executeSweep cr env chain client bypass st =
     (case rset_nx (sv_now env) (lock_key chain client) (sv_lock env) 300000 (sd_store st) of
        (False, _) \<Rightarrow> (Inr no_result, st)
      | (True, s) \<Rightarrow>
          (case sweep_body cr env chain client bypass (st\<lparr>sd_store := s\<rparr>) of
             (r, st1) \<Rightarrow>
               (r, if rget (sv_end env) (sd_store st1) (lock_key chain client) = Some (sv_lock env)
                   then st1\<lparr>sd_store := rdel (lock_key chain client) (sd_store st1)\<rparr> else st1)))"

section \<open>A cycle\<close>

text \<open>The pairs are swept one after the other. A pair that takes longer than its 120 s loses the race: its
  effects stand.\<close>

definition bypass_key :: "int \<Rightarrow> ident \<Rightarrow> string" where
  "bypass_key chain client = ''sweep:bypass:'' @ show_int chain @ '':'' @ show_int client"

definition sweep_pairs :: "sweep_state \<Rightarrow> (int \<times> ident) list" where
  "sweep_pairs st =
     concat (map (\<lambda>c. map (\<lambda>cl. (sc_id c, cl))
         (firsts (map sw_client (filter (\<lambda>w. sw_chain w = sc_id c \<and> sw_type w = SweepHot \<and> sw_active w) (sd_wallets st)))))
       (filter sc_active (sd_chains st)))"

definition sweep_pair :: "crypto \<Rightarrow> (int \<Rightarrow> ident \<Rightarrow> sweep_env) \<Rightarrow> int \<times> ident \<Rightarrow> sweep_state \<Rightarrow> sweep_state" where
  "sweep_pair cr envs p st =
     (case p of (chain, client) \<Rightarrow>
      let env = envs chain client; k = bypass_key chain client;
          bypass = rget (sv_now env) (sd_store st) k \<noteq> None
      in snd (executeSweep cr env chain client bypass (st\<lparr>sd_store := rdel k (sd_store st)\<rparr>)))"

definition runSweepCycle :: "crypto \<Rightarrow> (int \<Rightarrow> ident \<Rightarrow> sweep_env) \<Rightarrow> sweep_state \<Rightarrow> sweep_state" where
  "runSweepCycle cr envs st =
     (if cycleInFlight st then st
      else (fold (sweep_pair cr envs) (sweep_pairs st) (st\<lparr>cycleInFlight := True\<rparr>))\<lparr>cycleInFlight := False\<rparr>)"

section \<open>The plan of a sweep\<close>

text \<open>What a sweep does follows a plan that is fixed before the first submission: which forwarders are flushed
  through which wallet, with which tokens, and which deposits each flush settles.\<close>

record planned =
  pf_fwd :: string
  pf_wallet :: string
  pf_flush :: flush
  pf_ids :: "ident list"

definition forwarder_plan ::
    "sweep_env \<Rightarrow> int \<Rightarrow> ident \<Rightarrow> sweep_state \<Rightarrow> string \<times> sweep_deposit list \<Rightarrow> planned list" where
  "forwarder_plan env chain client st g =
     (case g of (fwd, ds) \<Rightarrow>
      if not_deployed chain fwd st \<or> sv_code env fwd \<noteq> Inr True then []
      else (case funded env (sd_tokens st) fwd (group_by sd_token ds) of
              Inl _ \<Rightarrow> []
            | Inr ts \<Rightarrow>
                (case resolveParentWallet client chain (sd_project (hd ds)) st of
                   None \<Rightarrow> []
                 | Some wallet \<Rightarrow>
                     map (\<lambda>(f, ids). \<lparr>pf_fwd = fwd, pf_wallet = wallet, pf_flush = f, pf_ids = ids\<rparr>) (flushes ts))))"

definition sweep_plan :: "sweep_env \<Rightarrow> int \<Rightarrow> ident \<Rightarrow> sweep_state \<Rightarrow> sweep_deposit list \<Rightarrow> planned list" where
  "sweep_plan env chain client st ds = concat (map (forwarder_plan env chain client st) (group_by sd_forwarder ds))"

definition planned_result :: "crypto \<Rightarrow> sweep_env \<Rightarrow> int \<Rightarrow> ident \<Rightarrow> sweep_state \<Rightarrow> planned \<Rightarrow> error + string" where
  "planned_result cr env chain client st p =
     fst (submit_flush cr env chain client (pf_fwd p) (pf_wallet p) (pf_flush p) (sw_worker st))"

definition settle :: "error + string \<Rightarrow> sweep_deposit \<Rightarrow> sweep_deposit" where
  "settle r d =
     (case r of
        Inl _ \<Rightarrow> d\<lparr>sd_status := StSweepFailed\<rparr>
      | Inr h \<Rightarrow> d\<lparr>sd_status := StSweepPending, sd_sweepTx := Some h\<rparr>)"

text \<open>No write fails.\<close>

definition sweep_writes :: "sweep_env \<Rightarrow> bool" where
  "sweep_writes env \<longleftrightarrow> (\<forall>h. sv_recorded env h \<and> sv_published env h) \<and> (\<forall>f. sv_marked env f)"

section \<open>Grouping\<close>

lemma set_firsts [simp]: "set (firsts xs) = set xs"
  and distinct_firsts [simp]: "distinct (firsts xs)"
  by (simp_all add: firsts_def)

lemma mset_partition:
  assumes "distinct vs" "k ` set xs \<subseteq> set vs"
  shows "mset (concat (map (\<lambda>v. filter (\<lambda>x. k x = v) xs) vs)) = mset xs"
  using assms(2)
proof (induction xs)
  case Nil
  have "concat (map (\<lambda>v. []) vs) = []" by simp
  then show ?case by simp
next
  case (Cons x xs)
  then obtain a b where vs: "vs = a @ k x # b" by (metis image_subset_iff list.set_intros(1) split_list)
  then have n: "k x \<notin> set a" "k x \<notin> set b" using assms(1) by auto
  then have c: "map (\<lambda>v. filter (\<lambda>y. k y = v) (x # xs)) a = map (\<lambda>v. filter (\<lambda>y. k y = v) xs) a"
    "map (\<lambda>v. filter (\<lambda>y. k y = v) (x # xs)) b = map (\<lambda>v. filter (\<lambda>y. k y = v) xs) b"
    by (auto intro!: map_cong)
  show ?case using Cons.IH Cons.prems unfolding vs by (simp add: c del: filter.simps(2))
qed

lemma mset_group_by: "mset (concat (map snd (group_by k xs))) = mset xs"
  using mset_partition [of "firsts (map k xs)" k xs] by (simp add: group_by_def comp_def)

lemma group_byD: "(v, ys) \<in> set (group_by k xs) \<Longrightarrow> ys \<noteq> [] \<and> set ys \<subseteq> set xs \<and> (\<forall>y \<in> set ys. k y = v)"
  by (auto simp: group_by_def filter_empty_conv)

lemma mset_flushes: "mset (concat (map snd (flushes ts))) = mset (concat (map snd ts))"
proof -
  have p: "mset (concat (map snd (filter P ts))) + mset (concat (map snd (filter (\<lambda>x. \<not> P x) ts))) = mset (concat (map snd ts))" for P
    by (induction ts) auto
  have n: "concat (map snd (map (\<lambda>(t, ids). (NativeFlush t, ids)) xs)) = concat (map snd xs)" for xs :: "(sweep_token \<times> ident list) list"
    by (induction xs) auto
  have e: "concat (map snd (case xs of [] \<Rightarrow> [] | [(t, ids)] \<Rightarrow> [(TokenFlush t, ids)]
      | es \<Rightarrow> [(BatchFlush (map fst es), concat (map snd es))])) = concat (map snd xs)" for xs :: "(sweep_token \<times> ident list) list"
    by (auto split: list.split)
  show ?thesis unfolding flushes_def map_append concat_append mset_append n e by (rule p)
qed

lemma mset_funded:
  "funded env toks fwd gs = Inr ts \<Longrightarrow> mset (concat (map snd ts)) \<subseteq># mset (map sd_id (concat (map snd gs)))"
proof (induction env toks fwd gs arbitrary: ts rule: funded.induct)
  case (2 env toks fwd t ds rest)
  from 2 show ?case
    by (auto split: option.splits sum.splits if_splits intro: subset_mset.add_mono subset_mset.add_increasing)
qed simp

lemma mset_forwarder_plan:
  "mset (concat (map pf_ids (forwarder_plan env chain client st (fwd, ds)))) \<subseteq># mset (map sd_id ds)"
proof -
  have m: "pf_ids \<circ> (\<lambda>(f, ids). \<lparr>pf_fwd = fwd, pf_wallet = w, pf_flush = f, pf_ids = ids\<rparr>) = snd" for w
    by (simp add: fun_eq_iff)
  have "mset (map sd_id (concat (map snd (group_by sd_token ds)))) = mset (map sd_id ds)"
    by (simp add: mset_map mset_group_by)
  then show ?thesis
    unfolding forwarder_plan_def using mset_funded [of env "sd_tokens st" fwd "group_by sd_token ds"]
    by (auto simp: m mset_flushes split: sum.split option.split)
qed

lemma distinct_submset: "mset xs \<subseteq># mset ys \<Longrightarrow> distinct ys \<Longrightarrow> distinct xs"
proof -
  assume "mset xs \<subseteq># mset ys" "distinct ys"
  then obtain zs where "mset ys = mset (xs @ zs)"
    by (metis ex_mset mset_append mset_subset_eq_exists_conv)
  with \<open>distinct ys\<close> have "distinct (xs @ zs)" using mset_eq_imp_distinct_iff by blast
  then show "distinct xs" by simp
qed

text \<open>Each deposit is in at most one flush.\<close>

lemma mset_sweep_plan: "mset (concat (map pf_ids (sweep_plan env chain client st ds))) \<subseteq># mset (map sd_id ds)"
proof -
  have "mset (concat (map pf_ids (concat (map (forwarder_plan env chain client st) gs)))) \<subseteq># mset (map sd_id (concat (map snd gs)))" for gs
  proof (induction gs)
    case (Cons g gs)
    then show ?case using mset_forwarder_plan [of env chain client st "fst g" "snd g"]
      by (simp add: subset_mset.add_mono)
  qed simp
  from this [of "group_by sd_forwarder ds"] show ?thesis
    by (simp add: sweep_plan_def mset_map mset_group_by)
qed

lemma sweep_plan_ids:
  assumes "distinct (map sd_id ds)"
  shows "distinct (concat (map pf_ids (sweep_plan env chain client st ds)))"
    and "set (concat (map pf_ids (sweep_plan env chain client st ds))) \<subseteq> sd_id ` set ds"
proof -
  note m = mset_sweep_plan [of env chain client st ds]
  show "distinct (concat (map pf_ids (sweep_plan env chain client st ds)))"
    using m assms by (rule distinct_submset)
  show "set (concat (map pf_ids (sweep_plan env chain client st ds))) \<subseteq> sd_id ` set ds"
    using m by (metis list.set_map set_mset_mono set_mset_mset)
qed

section \<open>A sweep follows its plan\<close>

lemma sign_and_broadcast_keys [simp]:
  "keys (snd (sign_and_broadcast a client ty tx w)) = keys w"
  "fst (sign_and_broadcast a client ty tx (w\<lparr>sent := x\<rparr>)) = fst (sign_and_broadcast a client ty tx w)"
  by (simp_all add: sign_and_broadcast_def split: http_reply.split option.split sum.split)

lemma sign_and_broadcast_fst:
  "fst (sign_and_broadcast a client ty tx w) = fst (sign_and_broadcast a client ty tx w')"
  by (simp add: sign_and_broadcast_def split: http_reply.split option.split sum.split)

lemma submit_with_gas_keys:
  "keys (snd (submit_with_gas a chain client dest data gas w)) = keys w"
  "keys w = keys w' \<Longrightarrow> fst (submit_with_gas a chain client dest data gas w) = fst (submit_with_gas a chain client dest data gas w')"
  by (auto simp: submit_with_gas_def submit_from_def split: list.split sum.split intro: sign_and_broadcast_fst)

lemma submit_flush_keys:
  "keys (snd (submit_flush cr env chain client fwd wallet f w)) = keys w"
  "keys w = keys w' \<Longrightarrow> fst (submit_flush cr env chain client fwd wallet f w) = fst (submit_flush cr env chain client fwd wallet f w')"
  by (auto simp: submit_flush_def submitMultiSigForwarderCall_def Let_def submit_with_gas_keys(1)
      split: flush.split sum.split intro: submit_with_gas_keys(2))

lemma settle_simps:
  "settle (Inl e) = (\<lambda>d. d\<lparr>sd_status := StSweepFailed\<rparr>)"
  "settle (Inr h) = (\<lambda>d. d\<lparr>sd_status := StSweepPending, sd_sweepTx := Some h\<rparr>)"
  by (simp_all add: fun_eq_iff settle_def)

text \<open>What the look-ups of a forwarder read.\<close>

definition same_tables :: "sweep_state \<Rightarrow> sweep_state \<Rightarrow> bool" where
  "same_tables a b \<longleftrightarrow> sd_tokens a = sd_tokens b \<and> sd_wallets a = sd_wallets b \<and> sd_projects a = sd_projects b
     \<and> sd_addresses a = sd_addresses b
     \<and> keys (sw_worker a) = keys (sw_worker b)"

lemma same_tables_refl [simp]: "same_tables a a"
  and same_tables_trans: "same_tables a b \<Longrightarrow> same_tables b c \<Longrightarrow> same_tables a c"
  and same_tables_sym: "same_tables a b \<Longrightarrow> same_tables b a"
  by (simp_all add: same_tables_def)

lemma same_tables_update [simp]:
  "same_tables (update_rows ids f a) b = same_tables a b" "same_tables b (update_rows ids f a) = same_tables b a"
  by (simp_all add: same_tables_def update_rows_def)

lemma same_tables_log [simp]: "same_tables (logSubmit ok now tank chain h op dest a) b = same_tables a b"
  by (simp add: same_tables_def logSubmit_def)

lemma rows_log [simp]: "sd_rows (logSubmit ok now tank chain h op dest a) = sd_rows a"
  by (simp add: logSubmit_def)

lemma flush_failed_frame:
  "same_tables (snd (snd (flush_failed env fwd ids acc st))) st"
  by (simp add: flush_failed_def)

lemma worker_tables [simp]: "keys w = keys (sw_worker b) \<Longrightarrow> same_tables (a\<lparr>sw_worker := w\<rparr>) b = same_tables (a\<lparr>sw_worker := sw_worker b\<rparr>) b"
  by (simp add: same_tables_def)

lemma keys_set_core [simp]: "keys (set_core f w) = keys w"
  by (simp add: set_core_def)

lemma same_tables_run_flush: "same_tables (snd (snd (run_flush cr env chain client tank fwd wallet f ids acc st))) st"
proof (cases "submit_flush cr env chain client fwd wallet f (sw_worker st)")
  case (Pair r w)
  then have k: "keys w = keys (sw_worker st)" using submit_flush_keys(1) [of cr env chain client fwd wallet f "sw_worker st"] by simp
  then have base: "same_tables (st\<lparr>sw_worker := w\<rparr>) st" by simp
  show ?thesis
  proof (cases r)
    case (Inl e)
    then show ?thesis
      using Pair same_tables_trans [OF flush_failed_frame base] by (simp add: run_flush_def)
  next
    case (Inr h)
    let ?st1 = "logSubmit (sv_logged env h) (sv_now env) tank chain h OpSweep wallet (st\<lparr>sw_worker := w\<rparr>)"
    let ?st2 = "update_rows ids (\<lambda>d. d\<lparr>sd_status := StSweepPending, sd_sweepTx := Some h\<rparr>) ?st1"
    have 1: "same_tables ?st1 st" and 2: "same_tables ?st2 st" using base by simp_all
    then have "keys (sw_worker ?st2) = keys (sw_worker st)" by (simp add: same_tables_def)
    then have 3: "same_tables (?st2\<lparr>sw_worker := set_core g (sw_worker ?st2)\<rparr>) st" for g
      using 2 by (simp add: same_tables_def)
    show ?thesis
      using Pair Inr 1 2 3 same_tables_trans [OF flush_failed_frame 1] same_tables_trans [OF flush_failed_frame 2]
      by (simp add: run_flush_def Let_def)
  qed
qed

lemma run_flush_rows:
  assumes "sweep_writes env"
  shows "fst (run_flush cr env chain client tank fwd wallet f ids acc st)"
    and "sd_rows (snd (snd (run_flush cr env chain client tank fwd wallet f ids acc st)))
      = update_where (\<lambda>d. sd_id d \<in> set ids) (settle (fst (submit_flush cr env chain client fwd wallet f (sw_worker st)))) (sd_rows st)"
proof -
  note w = assms [unfolded sweep_writes_def]
  show "fst (run_flush cr env chain client tank fwd wallet f ids acc st)"
    using w by (auto simp: run_flush_def flush_failed_def Let_def split: prod.split sum.split)
  show "sd_rows (snd (snd (run_flush cr env chain client tank fwd wallet f ids acc st)))
      = update_where (\<lambda>d. sd_id d \<in> set ids) (settle (fst (submit_flush cr env chain client fwd wallet f (sw_worker st)))) (sd_rows st)"
    using w by (auto simp: run_flush_def flush_failed_def Let_def update_rows_def settle_simps split: prod.split sum.split)
qed

text \<open>The rows after some planned flushes.\<close>

definition settle_rows :: "(planned \<Rightarrow> error + string) \<Rightarrow> planned list \<Rightarrow> sweep_deposit list \<Rightarrow> sweep_deposit list" where
  "settle_rows res plan rows =
     fold (\<lambda>p rows. update_where (\<lambda>d. sd_id d \<in> set (pf_ids p)) (settle (res p)) rows) plan rows"

lemma settle_rows_simps [simp]:
  "settle_rows res [] rows = rows"
  "settle_rows res (p # ps) rows = settle_rows res ps (update_where (\<lambda>d. sd_id d \<in> set (pf_ids p)) (settle (res p)) rows)"
  "settle_rows res (ps @ qs) rows = settle_rows res qs (settle_rows res ps rows)"
  by (simp_all add: settle_rows_def)

lemma sd_id_settle [simp]: "sd_id (settle r d) = sd_id d"
  by (simp add: settle_def split: sum.split)

lemma settle_rows_map:
  assumes "distinct (concat (map pf_ids plan))"
  shows "settle_rows res plan rows
    = map (\<lambda>d. case find (\<lambda>p. sd_id d \<in> set (pf_ids p)) plan of None \<Rightarrow> d | Some p \<Rightarrow> settle (res p) d) rows"
  using assms
proof (induction plan arbitrary: rows)
  case (Cons p plan)
  have other: "find (\<lambda>q. sd_id d \<in> set (pf_ids q)) plan = None" if "sd_id d \<in> set (pf_ids p)" for d
    using Cons.prems that by (auto simp: find_None_iff)
  show ?case
    using Cons by (auto simp: update_where_def other split: option.split)
qed simp

lemma planned_result_cong: "same_tables a b \<Longrightarrow> planned_result cr env chain client a = planned_result cr env chain client b"
  unfolding planned_result_def fun_eq_iff same_tables_def using submit_flush_keys(2) by blast

lemma run_flushes_rows:
  assumes "sweep_writes env" "same_tables st st0"
  shows "fst (run_flushes cr env chain client tank fwd wallet fs acc st)
    \<and> sd_rows (snd (snd (run_flushes cr env chain client tank fwd wallet fs acc st)))
      = settle_rows (planned_result cr env chain client st0)
          (map (\<lambda>(f, ids). \<lparr>pf_fwd = fwd, pf_wallet = wallet, pf_flush = f, pf_ids = ids\<rparr>) fs) (sd_rows st)
    \<and> same_tables (snd (snd (run_flushes cr env chain client tank fwd wallet fs acc st))) st0"
  using assms(2)
proof (induction fs arbitrary: acc st)
  case (Cons x fs)
  obtain f ids where x: "x = (f, ids)" by (cases x)
  obtain acc1 st1 where r: "run_flush cr env chain client tank fwd wallet f ids acc st = (True, acc1, st1)"
    using run_flush_rows(1) [OF assms(1), of cr chain client tank fwd wallet f ids acc st]
    by (cases "run_flush cr env chain client tank fwd wallet f ids acc st") auto
  have s: "same_tables st1 st0"
    using same_tables_trans [OF same_tables_run_flush Cons.prems, of cr env chain client tank fwd wallet f ids acc] r by simp
  have "planned_result cr env chain client st0 \<lparr>pf_fwd = fwd, pf_wallet = wallet, pf_flush = f, pf_ids = ids\<rparr>
      = fst (submit_flush cr env chain client fwd wallet f (sw_worker st))"
    unfolding planned_result_cong [OF same_tables_sym [OF Cons.prems]] by (simp add: planned_result_def)
  then have "sd_rows st1 = update_where (\<lambda>d. sd_id d \<in> set ids) (settle (planned_result cr env chain client st0
      \<lparr>pf_fwd = fwd, pf_wallet = wallet, pf_flush = f, pf_ids = ids\<rparr>)) (sd_rows st)"
    using run_flush_rows(2) [OF assms(1), of cr chain client tank fwd wallet f ids acc st] r by simp
  then show ?case using Cons.IH [OF s, of acc1] x r by simp
qed simp

lemma lookups_cong:
  assumes "same_tables a b"
  shows "not_deployed chain fwd a = not_deployed chain fwd b"
    and "resolveParentWallet client chain p a = resolveParentWallet client chain p b"
proof -
  have c: "getClientHotWallet client chain a = getClientHotWallet client chain b"
    "getProjectHotWallet p chain a = getProjectHotWallet p chain b"
    using assms by (simp_all add: same_tables_def getProjectHotWallet_def getClientHotWallet_def find_sweep_wallet_def)
  show "not_deployed chain fwd a = not_deployed chain fwd b" using assms by (simp add: same_tables_def not_deployed_def)
  show "resolveParentWallet client chain p a = resolveParentWallet client chain p b"
    unfolding resolveParentWallet_def c ..
qed

lemma forwarder_plan_cong:
  assumes "same_tables a b"
  shows "forwarder_plan env chain client a g = forwarder_plan env chain client b g"
proof -
  have "sd_tokens a = sd_tokens b" using assms by (simp add: same_tables_def)
  then show ?thesis unfolding forwarder_plan_def lookups_cong [OF assms] by (rule arg_cong)
qed

lemma flushes_Nil [simp]: "flushes [] = []"
  by (simp add: flushes_def)

lemma sweep_forwarder_rows:
  assumes "sweep_writes env" "same_tables st st0"
  shows "sd_rows (snd (sweep_forwarder cr env chain client tank (sd_tokens st0) g (acc, st)))
      = settle_rows (planned_result cr env chain client st0) (forwarder_plan env chain client st0 g) (sd_rows st)
    \<and> same_tables (snd (sweep_forwarder cr env chain client tank (sd_tokens st0) g (acc, st))) st0"
proof -
  obtain fwd ds where g: "g = (fwd, ds)" by (cases g)
  note t = lookups_cong [OF assms(2)]
  note run = run_flushes_rows [OF assms, of cr chain client tank fwd]
  show ?thesis
    unfolding g sweep_forwarder_def forwarder_plan_def Let_def
    using run assms(2) by (simp add: t case_prod_beta split: sum.split bool.split list.split option.split)
qed

lemma sweep_groups_rows:
  assumes "sweep_writes env"
  shows "same_tables st st0 \<Longrightarrow>
      sd_rows (snd (fold (sweep_forwarder cr env chain client tank (sd_tokens st0)) gs (acc, st)))
        = settle_rows (planned_result cr env chain client st0) (concat (map (forwarder_plan env chain client st0) gs)) (sd_rows st)
      \<and> same_tables (snd (fold (sweep_forwarder cr env chain client tank (sd_tokens st0)) gs (acc, st))) st0"
proof (induction gs arbitrary: acc st)
  case (Cons g gs)
  obtain acc1 st1 where s: "sweep_forwarder cr env chain client tank (sd_tokens st0) g (acc, st) = (acc1, st1)"
    by (cases "sweep_forwarder cr env chain client tank (sd_tokens st0) g (acc, st)")
  show ?case
    using sweep_forwarder_rows [OF assms Cons.prems, of cr chain client tank g acc] Cons.IH [of st1 acc1] s by simp
qed simp

text \<open>The deposits a sweep may act on, whether it gets as far as its loop, and its plan.\<close>

definition due_deposits :: "sweep_env \<Rightarrow> int \<Rightarrow> ident \<Rightarrow> bool \<Rightarrow> sweep_state \<Rightarrow> sweep_deposit list" where
  "due_deposits env chain client bypass st = fst (gate env chain bypass (to_sweep chain client st) st)"

definition sweep_ready :: "sweep_env \<Rightarrow> int \<Rightarrow> ident \<Rightarrow> bool \<Rightarrow> sweep_state \<Rightarrow> bool" where
  "sweep_ready env chain client bypass st \<longleftrightarrow>
     rget (sv_now env) (sd_store st) (lock_key chain client) = None
     \<and> (\<exists>c. find (\<lambda>c. sc_id c = chain) (sd_chains st) = Some c
          \<and> (or_null (sc_factory c) \<noteq> None \<or> list_ex (\<lambda>d. 0 < sd_project d) (due_deposits env chain client bypass st)))
     \<and> find_sweep_wallet client chain SweepGasTank st \<noteq> None \<and> is_ok (sv_provider env)"

definition due_plan :: "sweep_env \<Rightarrow> int \<Rightarrow> ident \<Rightarrow> bool \<Rightarrow> sweep_state \<Rightarrow> planned list" where
  "due_plan env chain client bypass st =
     (if sweep_ready env chain client bypass st
      then sweep_plan env chain client st (due_deposits env chain client bypass st) else [])"

lemma group_by_Nil [simp]: "group_by k [] = []"
  by (simp add: group_by_def firsts_def)

lemma sweep_plan_Nil [simp]: "sweep_plan env chain client st [] = []"
  by (simp add: sweep_plan_def)

lemma sweep_plan_cong:
  "same_tables a b \<Longrightarrow> sweep_plan env chain client a ds = sweep_plan env chain client b ds"
  unfolding sweep_plan_def using forwarder_plan_cong by presburger

lemma same_tables_gate:
  "same_tables (st\<lparr>sd_policies := x\<rparr>) st" "same_tables (st\<lparr>sd_store := y\<rparr>) st"
  by (simp_all add: same_tables_def)

lemmas plan_frame = same_tables_gate [THEN sweep_plan_cong]

lemmas result_frame = same_tables_gate [THEN planned_result_cong]

lemma gate_cases:
  obtains x where "gate env chain bypass ds st = (fst (gate env chain bypass ds st), st\<lparr>sd_policies := x\<rparr>)"
proof (cases bypass)
  case True
  then show ?thesis using that [of "sd_policies st"] by (simp add: gate_def)
next
  case False
  then show ?thesis using that by (simp add: gate_def case_prod_beta)
qed

lemma gate_store: "fst (gate env chain bypass ds (st\<lparr>sd_store := s\<rparr>)) = fst (gate env chain bypass ds st)"
  by (simp add: gate_def case_prod_beta)

lemma to_sweep_store [simp]: "to_sweep chain client (st\<lparr>sd_store := s\<rparr>) = to_sweep chain client st"
  by (simp add: to_sweep_def)

lemma gate_Nil: "fst (gate env chain bypass [] st) = []"
  by (simp add: gate_def applyPolicyFilter_def Let_def case_prod_beta)

lemma sweep_body_rows:
  assumes "sweep_writes env"
  shows "sd_rows (snd (sweep_body cr env chain client bypass st))
    = settle_rows (planned_result cr env chain client st)
        (if (\<exists>c. find (\<lambda>c. sc_id c = chain) (sd_chains st) = Some c
              \<and> (or_null (sc_factory c) \<noteq> None \<or> list_ex (\<lambda>d. 0 < sd_project d) (due_deposits env chain client bypass st)))
            \<and> find_sweep_wallet client chain SweepGasTank st \<noteq> None \<and> is_ok (sv_provider env)
         then sweep_plan env chain client st (due_deposits env chain client bypass st) else []) (sd_rows st)"
proof (cases "to_sweep chain client st = []")
  case True
  then show ?thesis by (simp add: sweep_body_def due_deposits_def gate_Nil)
next
  case False
  let ?ds = "due_deposits env chain client bypass st"
  obtain x where g: "gate env chain bypass (to_sweep chain client st) st = (?ds, st\<lparr>sd_policies := x\<rparr>)"
    using gate_cases [of env chain bypass "to_sweep chain client st" st] unfolding due_deposits_def by blast
  let ?st1 = "st\<lparr>sd_policies := x\<rparr>"
  have loop: "sd_rows (snd (fold (sweep_forwarder cr env chain client tank (sd_tokens st)) (group_by sd_forwarder ?ds) (no_result, ?st1)))
      = settle_rows (planned_result cr env chain client st) (sweep_plan env chain client st ?ds) (sd_rows st)" for tank
    using sweep_groups_rows [OF assms same_tables_refl, of cr chain client tank ?st1 "group_by sd_forwarder ?ds" no_result]
    by (simp add: sweep_plan_def [symmetric] plan_frame result_frame)
  have w: "find_sweep_wallet client chain SweepGasTank ?st1 = find_sweep_wallet client chain SweepGasTank st"
    by (simp add: find_sweep_wallet_def)
  show ?thesis
    unfolding sweep_body_def Let_def using False loop
    by (cases ?ds) (auto simp: g w case_prod_beta is_ok_def split: option.split sum.split)
qed

text \<open>Claim C18. A sweep settles exactly its plan: the rows of the deposits after a sweep whose database writes
  succeed are the rows before it, where each deposit of a planned flush is pending under the hash of that flush's
  transaction, or failed when its submission failed, and every other row is untouched; a held lock, a missing
  chain, factory or gas tank, or an unreachable node leaves the plan empty.\<close>

theorem a_sweep_settles_its_plan:
  assumes "sweep_writes env" "distinct (map sd_id (sd_rows st))"
  shows "sd_rows (snd (executeSweep cr env chain client bypass st))
    = map (\<lambda>d. case find (\<lambda>p. sd_id d \<in> set (pf_ids p)) (due_plan env chain client bypass st) of
                 None \<Rightarrow> d
               | Some p \<Rightarrow> settle (planned_result cr env chain client st p) d) (sd_rows st)"
proof -
  have "distinct (map sd_id (due_deposits env chain client bypass st))"
    using assms(2) by (auto simp: due_deposits_def gate_def applyPolicyFilter_def to_sweep_def Let_def case_prod_beta distinct_map_filter)
  then have d: "distinct (concat (map pf_ids (due_plan env chain client bypass st)))"
    by (auto simp: due_plan_def sweep_plan_ids(1))
  have "sd_rows (snd (executeSweep cr env chain client bypass st))
      = settle_rows (planned_result cr env chain client st) (due_plan env chain client bypass st) (sd_rows st)"
  proof (cases "rget (sv_now env) (sd_store st) (lock_key chain client)")
    case None
    let ?st = "st\<lparr>sd_store := rset (sv_now env) (lock_key chain client) (sv_lock env) (Some 300000) (sd_store st)\<rparr>"
    have "sd_rows (snd (executeSweep cr env chain client bypass st)) = sd_rows (snd (sweep_body cr env chain client bypass ?st))"
      using None by (simp add: executeSweep_def rset_nx_free case_prod_beta)
    also have "\<dots> = settle_rows (planned_result cr env chain client st) (due_plan env chain client bypass st) (sd_rows st)"
      unfolding sweep_body_rows [OF assms(1)] due_deposits_def result_frame plan_frame gate_store to_sweep_store
      using None by (auto simp: due_plan_def sweep_ready_def due_deposits_def find_sweep_wallet_def)
    finally show ?thesis .
  next
    case (Some v)
    then show ?thesis by (simp add: executeSweep_def rset_nx_held due_plan_def sweep_ready_def)
  qed
  then show ?thesis unfolding settle_rows_map [OF d] .
qed

section \<open>What a plan contains\<close>

lemma funded_in:
  "funded env toks fwd gs = Inr ts \<Longrightarrow> (t, ids) \<in> set ts \<Longrightarrow>
     \<exists>k ds b. (k, ds) \<in> set gs \<and> find (\<lambda>x. tk_id x = k) toks = Some t \<and> sv_balance env fwd t = Inr b \<and> 0 < b
       \<and> ids = map sd_id ds"
proof (induction env toks fwd gs arbitrary: ts rule: funded.induct)
  case (2 env toks fwd k ds rest)
  show ?case
  proof (cases "find (\<lambda>x. tk_id x = k) toks")
    case None
    then have "funded env toks fwd rest = Inr ts" using 2(3) by simp
    from 2(1) [OF None this 2(4)] show ?thesis by (elim exE conjE) (intro exI conjI, rule list.set_intros(2), assumption+)
  next
    case (Some tok)
    with 2(3) obtain b ts' where b: "sv_balance env fwd tok = Inr b" and ts': "funded env toks fwd rest = Inr ts'"
      and ts: "ts = (if 0 < b then (tok, map sd_id ds) # ts' else ts')"
      by (auto split: sum.splits)
    show ?thesis
    proof (cases "(t, ids) \<in> set ts'")
      case True
      from 2(2) [OF Some b ts' this] show ?thesis by (elim exE conjE) (intro exI conjI, rule list.set_intros(2), assumption+)
    next
      case False
      then have "0 < b" "t = tok" "ids = map sd_id ds" using 2(4) ts by (auto split: if_splits)
      then show ?thesis using Some b by auto
    qed
  qed
qed simp

lemma flushes_in:
  assumes "(f, ids) \<in> set (flushes ts)" "i \<in> set ids"
  shows "\<exists>t js. (t, js) \<in> set ts \<and> i \<in> set js \<and> t \<in> set (flush_tokens f)"
proof -
  have batch: "\<exists>t js. (t, js) \<in> set es \<and> i \<in> set js \<and> t \<in> set (flush_tokens f)"
    if "(f, ids) \<in> set (case es of [] \<Rightarrow> [] | [(t, ids)] \<Rightarrow> [(TokenFlush t, ids)]
      | es \<Rightarrow> [(BatchFlush (map fst es), concat (map snd es))])" for es
  proof -
    consider "es = []" | t js where "es = [(t, js)]" | x y zs where "es = x # y # zs" by (metis list.exhaust prod.exhaust)
    then show ?thesis
    proof cases
      case (3 x y zs)
      then have f: "f = BatchFlush (map fst es)" "ids = concat (map snd es)" using that by (auto split: prod.splits)
      then obtain x where "x \<in> set es" "i \<in> set (snd x)" using assms(2) by auto
      then show ?thesis unfolding f(1) by (metis flush_tokens.simps(3) image_eqI list.set_map prod.collapse)
    qed (use that assms(2) in auto)
  qed
  from assms(1) consider t where "(t, ids) \<in> set ts" "f = NativeFlush t"
    | "(f, ids) \<in> set (case filter (\<lambda>x. \<not> tk_native (fst x)) ts of [] \<Rightarrow> [] | [(t, ids)] \<Rightarrow> [(TokenFlush t, ids)]
        | es \<Rightarrow> [(BatchFlush (map fst es), concat (map snd es))])"
    unfolding flushes_def by auto
  then show ?thesis
  proof cases
    case 1
    then show ?thesis using assms(2) by auto
  next
    case 2
    then show ?thesis using batch by fastforce
  qed
qed

text \<open>A planned flush settles a deposit only if it is due, its forwarder is deployed, and one of the flushed
  tokens is its token and holds a balance there.\<close>

definition sweepable :: "sweep_env \<Rightarrow> int \<Rightarrow> sweep_state \<Rightarrow> planned \<Rightarrow> sweep_deposit \<Rightarrow> bool" where
  "sweepable env chain st p d \<longleftrightarrow>
     sd_forwarder d = pf_fwd p \<and> \<not> not_deployed chain (pf_fwd p) st \<and> sv_code env (pf_fwd p) = Inr True
     \<and> (\<exists>t b. t \<in> set (flush_tokens (pf_flush p)) \<and> find (\<lambda>x. tk_id x = sd_token d) (sd_tokens st) = Some t
          \<and> sv_balance env (pf_fwd p) t = Inr b \<and> 0 < b)"

lemma due_plan_group:
  assumes "p \<in> set (due_plan env chain client bypass st)"
  obtains fwd ds ts wallet f ids where
    "ds \<noteq> []" "set ds \<subseteq> set (due_deposits env chain client bypass st)" "\<And>d. d \<in> set ds \<Longrightarrow> sd_forwarder d = fwd"
    "\<not> not_deployed chain fwd st" "sv_code env fwd = Inr True"
    "funded env (sd_tokens st) fwd (group_by sd_token ds) = Inr ts"
    "resolveParentWallet client chain (sd_project (hd ds)) st = Some wallet"
    "(f, ids) \<in> set (flushes ts)" "p = \<lparr>pf_fwd = fwd, pf_wallet = wallet, pf_flush = f, pf_ids = ids\<rparr>"
proof -
  let ?due = "due_deposits env chain client bypass st"
  obtain fwd ds where g: "(fwd, ds) \<in> set (group_by sd_forwarder ?due)" and p: "p \<in> set (forwarder_plan env chain client st (fwd, ds))"
    using assms(1) by (auto simp: due_plan_def sweep_plan_def split: if_splits)
  have ds: "ds \<noteq> []" "set ds \<subseteq> set ?due" "\<And>d. d \<in> set ds \<Longrightarrow> sd_forwarder d = fwd"
    using group_byD [OF g] by auto
  have n: "\<not> not_deployed chain fwd st" "sv_code env fwd = Inr True" using p by (auto simp: forwarder_plan_def split: if_splits)
  obtain ts where f: "funded env (sd_tokens st) fwd (group_by sd_token ds) = Inr ts"
    using p n by (cases "funded env (sd_tokens st) fwd (group_by sd_token ds)") (auto simp: forwarder_plan_def)
  obtain wallet where w: "resolveParentWallet client chain (sd_project (hd ds)) st = Some wallet"
    using p n f by (cases "resolveParentWallet client chain (sd_project (hd ds)) st") (auto simp: forwarder_plan_def)
  from p n f w obtain fl ids where "(fl, ids) \<in> set (flushes ts)" "p = \<lparr>pf_fwd = fwd, pf_wallet = wallet, pf_flush = fl, pf_ids = ids\<rparr>"
    by (auto simp: forwarder_plan_def)
  with that [OF ds n f w] show thesis by blast
qed

lemma due_plan_forwarder:
  assumes "p \<in> set (due_plan env chain client bypass st)"
  shows "\<exists>d \<in> set (due_deposits env chain client bypass st). sd_forwarder d = pf_fwd p
    \<and> resolveParentWallet client chain (sd_project d) st = Some (pf_wallet p) \<and> \<not> not_deployed chain (pf_fwd p) st"
proof -
  from due_plan_group [OF assms] obtain fwd ds wallet f ids where
    ds: "ds \<noteq> []" "set ds \<subseteq> set (due_deposits env chain client bypass st)" "\<And>d. d \<in> set ds \<Longrightarrow> sd_forwarder d = fwd"
    and n: "\<not> not_deployed chain fwd st" and w: "resolveParentWallet client chain (sd_project (hd ds)) st = Some wallet"
    and p: "p = \<lparr>pf_fwd = fwd, pf_wallet = wallet, pf_flush = f, pf_ids = ids\<rparr>"
    by metis
  have "hd ds \<in> set ds" using ds(1) by simp
  then show ?thesis using ds(2,3) n w p by (intro bexI [of _ "hd ds"]) auto
qed

lemma due_plan_in:
  assumes "p \<in> set (due_plan env chain client bypass st)" "i \<in> set (pf_ids p)"
  shows "\<exists>d \<in> set (due_deposits env chain client bypass st). sd_id d = i \<and> sweepable env chain st p d"
proof -
  from due_plan_group [OF assms(1)] obtain fwd ds ts wallet f ids where
    ds: "ds \<noteq> []" "set ds \<subseteq> set (due_deposits env chain client bypass st)" "\<And>d. d \<in> set ds \<Longrightarrow> sd_forwarder d = fwd"
    and ok: "\<not> not_deployed chain fwd st" "sv_code env fwd = Inr True"
      "funded env (sd_tokens st) fwd (group_by sd_token ds) = Inr ts" "(f, ids) \<in> set (flushes ts)"
    and p: "p = \<lparr>pf_fwd = fwd, pf_wallet = wallet, pf_flush = f, pf_ids = ids\<rparr>"
    by metis
  obtain t js where t: "(t, js) \<in> set ts" "i \<in> set js" "t \<in> set (flush_tokens f)"
    using flushes_in [OF ok(4), of i] assms(2) p by auto
  obtain k es b where k: "(k, es) \<in> set (group_by sd_token ds)" "find (\<lambda>x. tk_id x = k) (sd_tokens st) = Some t"
      "sv_balance env fwd t = Inr b" "0 < b" "js = map sd_id es"
    using funded_in [OF ok(3) t(1)] by blast
  obtain d where d: "d \<in> set es" "sd_id d = i" using t(2) k(5) by auto
  then have "d \<in> set ds" "sd_token d = k" using group_byD [OF k(1)] by auto
  then show ?thesis
    using d ds ok k t p by (auto simp: sweepable_def)
qed

section \<open>What a sweep sends\<close>

definition flush_tx :: "sweep_env \<Rightarrow> ident \<Rightarrow> string \<Rightarrow> string \<Rightarrow> flush \<Rightarrow> ident \<times> key_type \<times> outer_tx \<Rightarrow> bool" where
  "flush_tx env client fwd wallet f x \<longleftrightarrow>
     fst x = client \<and> fst (snd x) = PlatformKey \<and> tx_to (snd (snd x)) = wallet \<and> tx_value (snd (snd x)) = 0
     \<and> (case f of
          NativeFlush _ \<Rightarrow> (\<exists>e s sig. tx_data (snd (snd x)) = SendMultiSig fwd 0 (enc_flush (sv_codec env)) e s sig)
        | TokenFlush t \<Rightarrow> tx_data (snd (snd x)) = RawData (enc_wrapper (sv_codec env) fwd (tk_contract t))
        | BatchFlush ts \<Rightarrow>
            (\<exists>e s sig. tx_data (snd (snd x)) = SendMultiSig fwd 0 (enc_batch (sv_codec env) (map tk_contract ts)) e s sig))"

lemma sign_and_broadcast_sent:
  "\<exists>txs. sent (snd (sign_and_broadcast a client ty tx w)) = sent w @ txs \<and> length txs \<le> 1 \<and> set txs \<subseteq> {(client, ty, tx)}"
  by (simp add: sign_and_broadcast_def split: http_reply.split option.split sum.split)

lemma submit_from_sent:
  "\<exists>txs. sent (snd (submit_from a chain client ty from dest data gas w)) = sent w @ txs \<and> length txs \<le> 1
     \<and> (\<forall>x \<in> set txs. fst x = client \<and> fst (snd x) = ty \<and> tx_to (snd (snd x)) = dest
          \<and> tx_value (snd (snd x)) = 0 \<and> tx_data (snd (snd x)) = data)"
proof -
  have "\<exists>txs. sent (snd (sign_and_broadcast a client ty
        \<lparr>tx_to = dest, tx_data = data, tx_value = 0, tx_gasLimit = gas, tx_nonce = n, tx_chain = chain, tx_price = pr\<rparr> w)) = sent w @ txs
     \<and> length txs \<le> 1 \<and> (\<forall>x \<in> set txs. fst x = client \<and> fst (snd x) = ty \<and> tx_to (snd (snd x)) = dest
          \<and> tx_value (snd (snd x)) = 0 \<and> tx_data (snd (snd x)) = data)" for n pr
    using sign_and_broadcast_sent [of a client ty
        "\<lparr>tx_to = dest, tx_data = data, tx_value = 0, tx_gasLimit = gas, tx_nonce = n, tx_chain = chain, tx_price = pr\<rparr>" w]
    by (elim exE conjE) (rule exI, intro conjI, assumption, assumption, auto)
  then show ?thesis
    unfolding submit_from_def by (auto split: list.split sum.split)
qed

lemma submit_with_gas_sent:
  "\<exists>txs. sent (snd (submit_with_gas a chain client dest data gas w)) = sent w @ txs
     \<and> (\<forall>x \<in> set txs. fst x = client \<and> fst (snd x) = PlatformKey \<and> tx_to (snd (snd x)) = dest
          \<and> tx_value (snd (snd x)) = 0 \<and> tx_data (snd (snd x)) = data)"
proof (cases "filter (\<lambda>k. k_client k = client \<and> k_type k = PlatformKey \<and> k_active k) (keys w)")
  case (Cons k ks)
  then show ?thesis
    using submit_from_sent [of a chain client PlatformKey "k_address k" dest data gas w] by (simp add: submit_with_gas_def) blast
qed (simp add: submit_with_gas_def)

lemma multisig_call_form:
  "multisig_call cr a chain client fwd wallet inner = Inr call \<Longrightarrow> \<exists>e s sig. call = SendMultiSig fwd 0 inner e s sig"
  by (auto simp: multisig_call_def Let_def split: if_splits sum.splits)

lemma submit_flush_sent:
  "\<exists>txs. sent (snd (submit_flush cr env chain client fwd wallet f w)) = sent w @ txs
     \<and> (\<forall>x \<in> set txs. flush_tx env client fwd wallet f x)"
proof -
  have multi: "\<exists>txs. sent (snd (submitMultiSigForwarderCall cr a chain client fwd wallet inner gas w)) = sent w @ txs
     \<and> (\<forall>x \<in> set txs. fst x = client \<and> fst (snd x) = PlatformKey \<and> tx_to (snd (snd x)) = wallet \<and> tx_value (snd (snd x)) = 0
          \<and> (\<exists>e s sig. tx_data (snd (snd x)) = SendMultiSig fwd 0 inner e s sig))" for a inner gas
  proof (cases "multisig_call cr a chain client fwd wallet inner")
    case (Inl e)
    then show ?thesis by (simp add: submitMultiSigForwarderCall_def)
  next
    case (Inr call)
    then show ?thesis
      using submit_with_gas_sent [of a chain client wallet call gas w] multisig_call_form [OF Inr]
      by (simp add: submitMultiSigForwarderCall_def) fast
  qed
  show ?thesis
    by (cases f) (simp_all add: submit_flush_def Let_def flush_tx_def multi submit_with_gas_sent)
qed

text \<open>The transactions a state has beyond those of another, all in a set.\<close>

definition sent_in :: "(ident \<times> key_type \<times> outer_tx \<Rightarrow> bool) \<Rightarrow> sweep_state \<Rightarrow> sweep_state \<Rightarrow> bool" where
  "sent_in P a b \<longleftrightarrow> (\<exists>txs. sent (sw_worker b) = sent (sw_worker a) @ txs \<and> (\<forall>x \<in> set txs. P x))"

lemma sent_in_refl [simp]: "sent_in P a a"
  by (simp add: sent_in_def)

lemma sent_in_trans: "sent_in P a b \<Longrightarrow> sent_in P b c \<Longrightarrow> sent_in P a c"
  unfolding sent_in_def by (elim exE conjE) (rule exI, rule conjI, simp, auto)

lemma sent_in_mono: "sent_in P a b \<Longrightarrow> (\<And>x. P x \<Longrightarrow> Q x) \<Longrightarrow> sent_in Q a b"
  by (auto simp: sent_in_def)

lemma sent_frames [simp]:
  "sent_in P (update_rows ids f a) b = sent_in P a b" "sent_in P a (update_rows ids f b) = sent_in P a b"
  "sent_in P a (logSubmit ok now tank chain h op dest b) = sent_in P a b"
  "sent_in P a (b\<lparr>sw_worker := set_core (publish str m) (sw_worker b)\<rparr>) = sent_in P a b"
  "sent_in P a (b\<lparr>sd_policies := x\<rparr>) = sent_in P a b" "sent_in P (a\<lparr>sd_policies := x\<rparr>) b = sent_in P a b"
  "sent_in P a (b\<lparr>sd_store := s\<rparr>) = sent_in P a b" "sent_in P (a\<lparr>sd_store := s'\<rparr>) b = sent_in P a b"
  by (simp_all add: sent_in_def update_rows_def logSubmit_def set_core_def)

lemma sent_frame_worker [simp]:
  "sent_in P a (b\<lparr>sw_worker := set_core (publish m n) w\<rparr>) = sent_in P a (b\<lparr>sw_worker := w\<rparr>)"
  by (simp add: sent_in_def set_core_def)

lemma sent_flush_failed [simp]: "sent_in P a (snd (snd (flush_failed env fwd ids acc b))) = sent_in P a b"
  by (simp add: flush_failed_def)

lemma sent_run_flush:
  "sent_in (flush_tx env client fwd wallet f) st (snd (snd (run_flush cr env chain client tank fwd wallet f ids acc st)))"
proof (cases "submit_flush cr env chain client fwd wallet f (sw_worker st)")
  case (Pair r w)
  have base: "sent_in (flush_tx env client fwd wallet f) st (st\<lparr>sw_worker := w\<rparr>)"
    using submit_flush_sent [of cr env chain client fwd wallet f "sw_worker st"] Pair by (simp add: sent_in_def)
  show ?thesis
    using Pair base by (cases r) (simp_all add: run_flush_def Let_def)
qed

section \<open>What every sweep keeps\<close>

definition planned_flushes :: "string \<Rightarrow> string \<Rightarrow> (flush \<times> ident list) list \<Rightarrow> planned list" where
  "planned_flushes fwd wallet fs = map (\<lambda>(f, ids). \<lparr>pf_fwd = fwd, pf_wallet = wallet, pf_flush = f, pf_ids = ids\<rparr>) fs"

text \<open>The interface of the proofs about a sweep in which anything may fail: a reflexive and transitive relation on
  the states, relative to the flushes that were planned, that the gate and each flush respect.\<close>

locale sweep_frame =
  fixes R :: "planned list \<Rightarrow> sweep_state \<Rightarrow> sweep_state \<Rightarrow> bool"
    and cr :: crypto and env :: sweep_env and chain :: int and client :: ident
  assumes R_refl: "R ps st st"
    and R_trans: "R ps a b \<Longrightarrow> R ps b c \<Longrightarrow> R ps a c"
    and R_mono: "R ps a b \<Longrightarrow> set ps \<subseteq> set qs \<Longrightarrow> R qs a b"
    and R_policies: "R ps st (st\<lparr>sd_policies := x\<rparr>)"
    and R_store: "R ps st (st\<lparr>sd_store := s\<rparr>)"
    and R_flush: "R [\<lparr>pf_fwd = fwd, pf_wallet = wallet, pf_flush = f, pf_ids = ids\<rparr>] st
      (snd (snd (run_flush cr env chain client tank fwd wallet f ids acc st)))"
begin

lemma run_flushes_frame:
  "R (planned_flushes fwd wallet fs) st (snd (snd (run_flushes cr env chain client tank fwd wallet fs acc st)))
   \<and> same_tables (snd (snd (run_flushes cr env chain client tank fwd wallet fs acc st))) st"
proof (induction fs arbitrary: acc st)
  case Nil
  then show ?case by (simp add: R_refl)
next
  case (Cons y fs)
  obtain f ids where y: "y = (f, ids)" by (cases y)
  obtain ok acc1 st1 where r: "run_flush cr env chain client tank fwd wallet f ids acc st = (ok, acc1, st1)"
    by (cases "run_flush cr env chain client tank fwd wallet f ids acc st") auto
  have 1: "R (planned_flushes fwd wallet (y # fs)) st st1"
    using R_mono [OF R_flush [of fwd wallet f ids st tank acc]] r y by (auto simp: planned_flushes_def)
  have t1: "same_tables st1 st"
    using same_tables_run_flush [of cr env chain client tank fwd wallet f ids acc st] r by simp
  have 2: "R (planned_flushes fwd wallet (y # fs)) st1 (snd (snd (run_flushes cr env chain client tank fwd wallet fs acc1 st1)))"
    by (rule R_mono [OF conjunct1 [OF Cons.IH [of st1 acc1]]]) (auto simp: planned_flushes_def)
  show ?case
    using r y 1 t1 R_trans [OF 1 2] same_tables_trans [OF conjunct2 [OF Cons.IH [of st1 acc1]] t1] by (cases ok) simp_all
qed

lemma sweep_forwarder_frame:
  assumes "same_tables st st0"
  shows "R (forwarder_plan env chain client st0 g) st (snd (sweep_forwarder cr env chain client tank (sd_tokens st0) g (acc, st)))
    \<and> same_tables (snd (sweep_forwarder cr env chain client tank (sd_tokens st0) g (acc, st))) st0"
proof -
  obtain fwd ds where g: "g = (fwd, ds)" by (cases g)
  have run: "R (map (\<lambda>(f, ids). \<lparr>pf_fwd = fwd, pf_wallet = wallet, pf_flush = f, pf_ids = ids\<rparr>) fs) st
      (snd (snd (run_flushes cr env chain client tank fwd wallet fs a st)))
    \<and> same_tables (snd (snd (run_flushes cr env chain client tank fwd wallet fs a st))) st0" for wallet fs a
    using run_flushes_frame [of fwd wallet fs st tank a] assms same_tables_trans unfolding planned_flushes_def by blast
  show ?thesis
    unfolding g sweep_forwarder_def forwarder_plan_def Let_def
    using run assms by (simp add: R_refl lookups_cong [OF assms] case_prod_beta split: sum.split bool.split list.split option.split)
qed

lemma groups_frame:
  "same_tables st st0 \<Longrightarrow>
     R (concat (map (forwarder_plan env chain client st0) gs)) st
       (snd (fold (sweep_forwarder cr env chain client tank (sd_tokens st0)) gs (acc, st)))"
proof (induction gs arbitrary: acc st)
  case Nil
  then show ?case by (simp add: R_refl)
next
  case (Cons g gs)
  obtain acc1 st1 where s: "sweep_forwarder cr env chain client tank (sd_tokens st0) g (acc, st) = (acc1, st1)"
    by (cases "sweep_forwarder cr env chain client tank (sd_tokens st0) g (acc, st)")
  note a = sweep_forwarder_frame [OF Cons.prems, of g tank acc, unfolded s snd_conv]
  have "R (concat (map (forwarder_plan env chain client st0) (g # gs))) st st1"
    by (rule R_mono [OF conjunct1 [OF a]]) simp
  moreover have "R (concat (map (forwarder_plan env chain client st0) (g # gs))) st1
      (snd (fold (sweep_forwarder cr env chain client tank (sd_tokens st0)) gs (acc1, st1)))"
    by (rule R_mono [OF Cons.IH [OF conjunct2 [OF a]]]) simp
  ultimately show ?case using R_trans s by simp
qed

lemma sweep_body_frame:
  assumes "rget (sv_now env) (sd_store st0) (lock_key chain client) = None" "same_tables st st0"
    and "sd_rows st = sd_rows st0" "sd_policies st = sd_policies st0" "sd_chains st = sd_chains st0"
  shows "R (due_plan env chain client bypass st0) st (snd (sweep_body cr env chain client bypass st))"
proof (cases "to_sweep chain client st0 = []")
  case True
  then show ?thesis using assms(3) by (simp add: sweep_body_def to_sweep_def R_refl)
next
  case False
  have ts: "to_sweep chain client st = to_sweep chain client st0" using assms(3) by (simp add: to_sweep_def)
  let ?ds = "due_deposits env chain client bypass st0"
  have "fst (gate env chain bypass (to_sweep chain client st) st) = ?ds"
    using assms(2,4) by (simp add: ts due_deposits_def gate_def same_tables_def case_prod_beta)
  then obtain x where g: "gate env chain bypass (to_sweep chain client st) st = (?ds, st\<lparr>sd_policies := x\<rparr>)"
    using gate_cases [of env chain bypass "to_sweep chain client st" st] by metis
  let ?st1 = "st\<lparr>sd_policies := x\<rparr>"
  have s1: "same_tables ?st1 st0" using assms(2) by (simp add: same_tables_def)
  have "sd_tokens st = sd_tokens st0" using assms(2) by (simp add: same_tables_def)
  then have loop: "R (sweep_plan env chain client st0 ?ds) st
      (snd (fold (sweep_forwarder cr env chain client tank (sd_tokens st)) (group_by sd_forwarder ?ds) (no_result, ?st1)))" for tank
    using R_trans [OF R_policies groups_frame [OF s1, of "group_by sd_forwarder ?ds" tank no_result]] by (simp add: sweep_plan_def)
  have w: "find_sweep_wallet client chain SweepGasTank ?st1 = find_sweep_wallet client chain SweepGasTank st0"
    using assms(2) by (simp add: find_sweep_wallet_def same_tables_def)
  show ?thesis
    unfolding sweep_body_def Let_def using False loop assms(1,5)
    by (cases ?ds) (auto simp: ts g [unfolded ts] w case_prod_beta is_ok_def due_plan_def sweep_ready_def R_policies split: option.split sum.split)
qed

lemma executeSweep_frame: "R (due_plan env chain client bypass st) st (snd (executeSweep cr env chain client bypass st))"
proof (cases "rget (sv_now env) (sd_store st) (lock_key chain client)")
  case None
  let ?st = "st\<lparr>sd_store := rset (sv_now env) (lock_key chain client) (sv_lock env) (Some 300000) (sd_store st)\<rparr>"
  have "R (due_plan env chain client bypass st) ?st (snd (sweep_body cr env chain client bypass ?st))"
    using None by (intro sweep_body_frame) (simp_all add: same_tables_def)
  then have "R (due_plan env chain client bypass st) st (snd (sweep_body cr env chain client bypass ?st))"
    using R_trans R_store by blast
  then show ?thesis
    using None R_trans [OF _ R_store] by (simp add: executeSweep_def rset_nx_free case_prod_beta)
next
  case (Some v)
  then show ?thesis by (simp add: executeSweep_def rset_nx_held R_refl)
qed

end

definition plan_tx :: "sweep_env \<Rightarrow> ident \<Rightarrow> planned list \<Rightarrow> ident \<times> key_type \<times> outer_tx \<Rightarrow> bool" where
  "plan_tx env client plan x \<longleftrightarrow> (\<exists>p \<in> set plan. flush_tx env client (pf_fwd p) (pf_wallet p) (pf_flush p) x)"

lemma plan_tx_mono: "plan_tx env client plan x \<Longrightarrow> set plan \<subseteq> set plan' \<Longrightarrow> plan_tx env client plan' x"
  unfolding plan_tx_def by blast

interpretation sends: sweep_frame "\<lambda>ps. sent_in (plan_tx env client ps)" cr env chain client for cr env chain client
proof unfold_locales
  fix ps qs :: "planned list" and a b
  show "sent_in (plan_tx env client ps) a b \<Longrightarrow> set ps \<subseteq> set qs \<Longrightarrow> sent_in (plan_tx env client qs) a b"
    by (erule sent_in_mono) (rule plan_tx_mono)
next
  fix fwd wallet f ids st tank acc
  show "sent_in (plan_tx env client [\<lparr>pf_fwd = fwd, pf_wallet = wallet, pf_flush = f, pf_ids = ids\<rparr>]) st
      (snd (snd (run_flush cr env chain client tank fwd wallet f ids acc st)))"
    by (rule sent_in_mono [OF sent_run_flush]) (simp add: plan_tx_def)
qed (auto intro: sent_in_trans)

text \<open>Claim C19. Whatever fails on the way, a sweep sends nothing but flushes: every transaction it broadcasts is
  signed with the client's platform key, carries no value, and calls the parent wallet of a deployed forwarder
  that holds a confirmed, unswept deposit of the client, to flush that forwarder.\<close>

theorem a_sweep_sends_only_flushes:
  "\<exists>txs. sent (sw_worker (snd (executeSweep cr env chain client bypass st))) = sent (sw_worker st) @ txs
    \<and> (\<forall>x \<in> set txs. \<exists>p \<in> set (due_plan env chain client bypass st). \<exists>d \<in> set (sd_rows st).
          flush_tx env client (pf_fwd p) (pf_wallet p) (pf_flush p) x
          \<and> sd_client d = client \<and> sd_chain d = chain \<and> sd_status d = StConfirmed \<and> sd_sweepTx d = None
          \<and> sd_forwarder d = pf_fwd p \<and> \<not> not_deployed chain (pf_fwd p) st
          \<and> resolveParentWallet client chain (sd_project d) st = Some (pf_wallet p))"
proof -
  have due: "set (due_deposits env chain client bypass st) \<subseteq> set (to_sweep chain client st)"
    by (auto simp: due_deposits_def gate_def applyPolicyFilter_def Let_def case_prod_beta)
  have "sent_in (plan_tx env client (due_plan env chain client bypass st)) st (snd (executeSweep cr env chain client bypass st))"
    by (rule sends.executeSweep_frame)
  then obtain txs where s: "sent (sw_worker (snd (executeSweep cr env chain client bypass st))) = sent (sw_worker st) @ txs"
    and t: "\<And>x. x \<in> set txs \<Longrightarrow> plan_tx env client (due_plan env chain client bypass st) x"
    unfolding sent_in_def by blast
  show ?thesis
  proof (intro exI [of _ txs] conjI ballI)
    show "sent (sw_worker (snd (executeSweep cr env chain client bypass st))) = sent (sw_worker st) @ txs" by (rule s)
  next
    fix x assume "x \<in> set txs"
    then obtain p where p: "p \<in> set (due_plan env chain client bypass st)"
      and f: "flush_tx env client (pf_fwd p) (pf_wallet p) (pf_flush p) x"
      using t [of x] unfolding plan_tx_def by blast
    obtain d where d: "d \<in> set (due_deposits env chain client bypass st)" "sd_forwarder d = pf_fwd p"
      "resolveParentWallet client chain (sd_project d) st = Some (pf_wallet p)" "\<not> not_deployed chain (pf_fwd p) st"
      using due_plan_forwarder [OF p] by blast
    show "\<exists>p \<in> set (due_plan env chain client bypass st). \<exists>d \<in> set (sd_rows st).
          flush_tx env client (pf_fwd p) (pf_wallet p) (pf_flush p) x
          \<and> sd_client d = client \<and> sd_chain d = chain \<and> sd_status d = StConfirmed \<and> sd_sweepTx d = None
          \<and> sd_forwarder d = pf_fwd p \<and> \<not> not_deployed chain (pf_fwd p) st
          \<and> resolveParentWallet client chain (sd_project d) st = Some (pf_wallet p)"
      using p f d due by (intro bexI [OF _ p] bexI [of _ d]) (auto simp: to_sweep_def)
  qed
qed

section \<open>An instance\<close>

definition small_deposit :: "ident \<Rightarrow> sweep_deposit" where
  "small_deposit n =
     \<lparr>sd_id = n, sd_client = 7, sd_project = 0, sd_chain = 1, sd_forwarder = ''0xf'', sd_token = 3,
      sd_amount = ''5'', sd_amountRaw = ''5'', sd_status = StConfirmed, sd_sweepTx = None,
      sd_confirmedAt = None, sd_sweptAt = None\<rparr>"

definition small_sweep :: sweep_state where
  "small_sweep =
     \<lparr>sd_rows = [small_deposit 1],
      sd_tokens = [\<lparr>tk_id = 3, tk_chain = 1, tk_symbol = ''T'', tk_contract = ''0xc'', tk_native = False, tk_decimals = 0, tk_coingecko = None\<rparr>],
      sd_wallets = [\<lparr>sw_id = 1, sw_client = 7, sw_project = 0, sw_chain = 1, sw_address = ''0xw'', sw_type = SweepHot, sw_active = True\<rparr>,
        \<lparr>sw_id = 2, sw_client = 7, sw_project = 0, sw_chain = 1, sw_address = ''0xg'', sw_type = SweepGasTank, sw_active = True\<rparr>],
      sd_chains = [\<lparr>sc_id = 1, sc_active = True, sc_factory = Some ''0xa''\<rparr>], sd_projects = [],
      sd_addresses = [\<lparr>da_id = 4, da_client = 7, da_chain = 1, da_address = ''0xF'', da_salt = ''0x0'', da_deployed = True\<rparr>], sd_policies = [], gas_txs = [],
      sd_store = Map.empty, sw_worker = sample_worker HotSource PlatformKey, cycleInFlight = False\<rparr>"

definition small_prices :: price_env where
  "small_prices = \<lparr>pr_number = (\<lambda>_. None), pr_price = (\<lambda>_. None), pr_next = (\<lambda>_ _ _. None), pr_stamp = (\<lambda>_. True)\<rparr>"

definition small_sweep_env :: sweep_env where
  "small_sweep_env =
     \<lparr>sv_now = 0, sv_end = 1, sv_lock = ''l'', sv_prices = small_prices, sv_provider = Inr (), sv_code = (\<lambda>_. Inr True),
      sv_balance = (\<lambda>_ _. Inr 5),
      sv_codec = \<lparr>enc_flush = ''flush'', enc_batch = (\<lambda>_. ''batch''), enc_wrapper = (\<lambda>_ _. ''wrap'')\<rparr>,
      sv_attempt = (\<lambda>_ _. sample_attempt 4 True), sv_logged = (\<lambda>_. True), sv_recorded = (\<lambda>_. True),
      sv_published = (\<lambda>_. True), sv_marked = (\<lambda>_. True)\<rparr>"

lemma small_due: "due_deposits small_sweep_env 1 7 False small_sweep = [small_deposit 1]"
  by (simp add: due_deposits_def gate_def applyPolicyFilter_def policy_allows_def small_sweep_def small_deposit_def
      to_sweep_def snapshot_def get_policy_def find_policy_def default_policy_def qualifies_def Let_def)

definition small_planned :: planned where
  "small_planned = \<lparr>pf_fwd = ''0xf'', pf_wallet = ''0xw'', pf_flush = TokenFlush (hd (sd_tokens small_sweep)), pf_ids = [1]\<rparr>"

lemma small_plan: "due_plan small_sweep_env 1 7 False small_sweep = [small_planned]"
proof -
  have "sweep_ready small_sweep_env 1 7 False small_sweep"
    by (simp add: sweep_ready_def small_sweep_def small_sweep_env_def or_null_def find_sweep_wallet_def)
  moreover have "sweep_plan small_sweep_env 1 7 small_sweep [small_deposit 1] = [small_planned]"
    by code_simp
  ultimately show ?thesis by (simp add: due_plan_def small_due)
qed

lemma small_result: "planned_result any_crypto small_sweep_env 1 7 small_sweep small_planned = Inr ''0xtx''"
  by code_simp

theorem a_sweep_settles_its_plan_witness:
  "map (\<lambda>d. (sd_status d, sd_sweepTx d)) (sd_rows (snd (executeSweep any_crypto small_sweep_env 1 7 False small_sweep)))
     = [(StSweepPending, Some ''0xtx'')]"
proof -
  have "sweep_writes small_sweep_env" "distinct (map sd_id (sd_rows small_sweep))"
    by (simp_all add: sweep_writes_def small_sweep_env_def small_sweep_def)
  from a_sweep_settles_its_plan [OF this, of any_crypto 1 7 False] show ?thesis
    unfolding small_plan
    by (simp add: small_sweep_def [THEN arg_cong [of _ _ sd_rows]] small_planned_def [THEN arg_cong [of _ _ pf_ids]]
        small_result settle_def small_deposit_def)
qed

theorem a_sweep_sends_only_flushes_witness:
  "\<exists>txs. sent (sw_worker (snd (executeSweep any_crypto small_sweep_env 1 7 False small_sweep))) = txs
     \<and> list_all (flush_tx small_sweep_env 7 ''0xf'' ''0xw'' (pf_flush small_planned)) txs"
proof -
  from a_sweep_sends_only_flushes [of any_crypto small_sweep_env 1 7 False small_sweep] obtain txs where
    t: "sent (sw_worker (snd (executeSweep any_crypto small_sweep_env 1 7 False small_sweep))) = sent (sw_worker small_sweep) @ txs"
    and f: "\<forall>x \<in> set txs. \<exists>p \<in> set (due_plan small_sweep_env 1 7 False small_sweep). \<exists>d \<in> set (sd_rows small_sweep).
          flush_tx small_sweep_env 7 (pf_fwd p) (pf_wallet p) (pf_flush p) x"
    by blast
  have "sent (sw_worker small_sweep) = []" by (simp add: small_sweep_def sample_worker_def)
  moreover have "list_all (flush_tx small_sweep_env 7 ''0xf'' ''0xw'' (pf_flush small_planned)) txs"
    using f unfolding small_plan by (simp add: list_all_iff small_planned_def)
  ultimately show ?thesis using t by simp
qed

end
