(* ===== verification/SweepReconciler.thy ===== *)
theory SweepReconciler
  imports Sweep
begin

text \<open>
  The reconciliation of the gas-tank transactions with their receipts and the cascade to the deposits they swept
  (services/cron-worker-service/src/gas-tank/gas-tank-receipt-reconciler.service.ts), and the life of a deposit
  from its confirmation on as a machine. The node's answers and the writes that fail are the fields of
  \<open>reconcile_env\<close>.
\<close>

section \<open>Reconciling\<close>

definition MAX_AGE_MS :: int where "MAX_AGE_MS = 600000"
definition RECONCILE_BATCH :: nat where "RECONCILE_BATCH = 50"

record receipt =
  rp_status :: int
  rp_gasUsed :: int
  rp_gasPrice :: int
  rp_block :: int

record reconcile_env =
  rv_now :: millis
  rv_provider :: "int \<Rightarrow> error + unit"
  rv_receipt :: "string \<Rightarrow> error + receipt option"
  rv_balance :: "string \<Rightarrow> sweep_token \<Rightarrow> error + int"
  rv_saved :: "ident \<Rightarrow> bool"
  rv_cascaded :: "ident \<Rightarrow> bool"
  rv_orphans :: "ident \<Rightarrow> bool"

definition update_gas :: "ident \<Rightarrow> (gas_tx \<Rightarrow> gas_tx) \<Rightarrow> sweep_state \<Rightarrow> sweep_state" where
  "update_gas n f st = st\<lparr>gas_txs := update_where (\<lambda>g. gt_id g = n) f (gas_txs st)\<rparr>"

definition reconcile_batch :: "reconcile_env \<Rightarrow> sweep_state \<Rightarrow> gas_tx list" where
  "reconcile_batch env st =
     take RECONCILE_BATCH (sort_key gt_submitted
       (filter (\<lambda>g. gt_status g = GasSubmitted \<and> gt_submitted g < rv_now env - 15000) (gas_txs st)))"

definition swept_by :: "gas_tx \<Rightarrow> sweep_deposit \<Rightarrow> bool" where
  "swept_by g d \<longleftrightarrow> (case sd_sweepTx d of None \<Rightarrow> False | Some h \<Rightarrow> sql_eq h (gt_hash g)) \<and> sd_chain d = gt_chain g \<and> sd_status d = StSweepPending"

text \<open>Whether the forwarder is read as empty for a token.\<close>

definition emptied :: "reconcile_env \<Rightarrow> sweep_token list \<Rightarrow> string \<Rightarrow> ident \<Rightarrow> bool" where
  "emptied env toks fwd t =
     (case find (\<lambda>x. tk_id x = t) toks of None \<Rightarrow> False | Some tok \<Rightarrow> rv_balance env fwd tok = Inr 0)"

definition is_orphan :: "gas_tx \<Rightarrow> string \<Rightarrow> ident list \<Rightarrow> sweep_deposit \<Rightarrow> bool" where
  "is_orphan g fwd ts d \<longleftrightarrow>
     sd_chain d = gt_chain g \<and> sql_eq (sd_forwarder d) (lower fwd) \<and> sd_token d \<in> set ts
     \<and> sd_status d \<in> {StPending, StDetected, StConfirming, StConfirmed}"

definition cascade :: "reconcile_env \<Rightarrow> gas_tx \<Rightarrow> sweep_state \<Rightarrow> sweep_state" where
  "cascade env g st =
     (case filter (swept_by g) (sd_rows st) of
        [] \<Rightarrow> st
      | d # ds \<Rightarrow>
          let pend = d # ds; fwd = sd_forwarder d;
              safe = map sd_id (filter (\<lambda>x. emptied env (sd_tokens st) fwd (sd_token x)) pend);
              done_tokens = firsts (map sd_token (filter (\<lambda>x. sd_id x \<in> set safe) pend))
          in if safe = [] then st
             else if \<not> rv_cascaded env (gt_id g) then st
             else
               let st1 = st\<lparr>sd_rows := update_where (\<lambda>x. sd_id x \<in> set safe \<and> sd_status x = StSweepPending)
                     (\<lambda>x. x\<lparr>sd_status := StSwept, sd_sweptAt := Some (rv_now env)\<rparr>) (sd_rows st)\<rparr>
               in if \<not> rv_orphans env (gt_id g) then st1
                  else st1\<lparr>sd_rows := update_where (is_orphan g fwd done_tokens)
                     (\<lambda>x. x\<lparr>sd_status := StSwept, sd_sweepTx := Some (gt_hash g), sd_sweptAt := Some (rv_now env),
                            sd_confirmedAt := Some (rv_now env)\<rparr>) (sd_rows st1)\<rparr>)"

definition fail_swept :: "reconcile_env \<Rightarrow> gas_tx \<Rightarrow> sweep_state \<Rightarrow> sweep_state" where
  "fail_swept env g st =
     (if rv_cascaded env (gt_id g)
      then st\<lparr>sd_rows := update_where (swept_by g) (\<lambda>x. x\<lparr>sd_status := StSweepFailed, sd_sweptAt := None\<rparr>) (sd_rows st)\<rparr>
      else st)"

definition mined_status :: "receipt \<Rightarrow> gas_status" where
  "mined_status r = (if rp_status r = 1 then GasConfirmed else GasFailed)"

text \<open>One transaction of the batch; every error is logged and leaves the rest of it.\<close>

definition reconcile_one :: "reconcile_env \<Rightarrow> gas_tx \<Rightarrow> sweep_state \<Rightarrow> sweep_state" where
  "reconcile_one env g st =
     (if \<not> is_ok (rv_provider env (gt_chain g)) then st
      else (case rv_receipt env (gt_hash g) of
        Inl e \<Rightarrow> st
      | Inr None \<Rightarrow>
          if MAX_AGE_MS < rv_now env - gt_submitted g \<and> rv_saved env (gt_id g)
          then update_gas (gt_id g) (\<lambda>x. x\<lparr>gt_status := GasFailed, gt_confirmed := Some (rv_now env)\<rparr>) st else st
      | Inr (Some r) \<Rightarrow>
          if \<not> rv_saved env (gt_id g) then st
          else
            let st1 = update_gas (gt_id g) (\<lambda>x. x\<lparr>gt_status := mined_status r, gt_gasUsed := Some (rp_gasUsed r),
                  gt_gasCost := Some (rp_gasUsed r * rp_gasPrice r), gt_block := Some (rp_block r),
                  gt_confirmed := Some (rv_now env)\<rparr>) st
            in if gt_op g = OpSweep \<or> gt_op g = OpFlush
               then (if mined_status r = GasConfirmed then cascade env g st1 else fail_swept env g st1)
               else st1))"

definition reconcileBatch :: "reconcile_env \<Rightarrow> sweep_state \<Rightarrow> sweep_state" where
  "reconcileBatch env st = fold (reconcile_one env) (reconcile_batch env st) st"

section \<open>What a reconciliation does to a row\<close>

text \<open>A deposit waits for a transaction: it is pending with that transaction's hash, on its chain.\<close>

definition waits_for :: "gas_tx \<Rightarrow> sweep_deposit \<Rightarrow> bool" where
  "waits_for g d \<longleftrightarrow> sd_status d = StSweepPending \<and> sd_chain d = gt_chain g
     \<and> (\<exists>h. sd_sweepTx d = Some h \<and> sql_eq h (gt_hash g))"

text \<open>Two deposits that wait for the same transaction.\<close>

definition swept_together :: "sweep_deposit \<Rightarrow> sweep_deposit \<Rightarrow> bool" where
  "swept_together x y \<longleftrightarrow> sd_status x = StSweepPending \<and> sd_status y = StSweepPending \<and> sd_chain x = sd_chain y
     \<and> (\<exists>h k. sd_sweepTx x = Some h \<and> sd_sweepTx y = Some k \<and> sql_eq h k)"

text \<open>The proof that a row may become swept: a transaction of the batch with a successful receipt; a deposit \<open>w\<close>
  of the row's own forwarder that waits for it, whose forwarder was read as holding nothing of the row's
  token; and the row itself waits for that transaction too, or it is another open row of that forwarder on the
  same chain.\<close>

definition flushed :: "reconcile_env \<Rightarrow> sweep_token list \<Rightarrow> sweep_deposit list \<Rightarrow> gas_tx list \<Rightarrow> sweep_deposit \<Rightarrow> bool" where
  "flushed env toks rows gs d \<longleftrightarrow>
     (\<exists>g \<in> set gs. \<exists>r. \<exists>w \<in> set rows. \<exists>tok \<in> set toks.
        rv_receipt env (gt_hash g) = Inr (Some r) \<and> rp_status r = 1 \<and> (gt_op g = OpSweep \<or> gt_op g = OpFlush)
        \<and> waits_for g w \<and> sql_eq (sd_forwarder w) (sd_forwarder d) \<and> sd_chain d = gt_chain g
        \<and> tk_id tok = sd_token d \<and> rv_balance env (sd_forwarder w) tok = Inr 0
        \<and> (waits_for g d \<or> sd_status d \<in> {StPending, StDetected, StConfirming, StConfirmed}))"

text \<open>What the cascade itself checks: it reads the balances of the forwarder of the first waiting deposit.\<close>

definition settled :: "reconcile_env \<Rightarrow> sweep_token list \<Rightarrow> sweep_deposit list \<Rightarrow> gas_tx list \<Rightarrow> sweep_deposit \<Rightarrow> bool" where
  "settled env toks rows gs d \<longleftrightarrow>
     (\<exists>g \<in> set gs. \<exists>r. \<exists>w \<in> set rows. \<exists>tok \<in> set toks.
        rv_receipt env (gt_hash g) = Inr (Some r) \<and> rp_status r = 1 \<and> (gt_op g = OpSweep \<or> gt_op g = OpFlush)
        \<and> waits_for g w \<and> sd_chain d = gt_chain g
        \<and> tk_id tok = sd_token d \<and> rv_balance env (sd_forwarder w) tok = Inr 0
        \<and> (waits_for g d
           \<or> sql_eq (sd_forwarder w) (sd_forwarder d) \<and> sd_status d \<in> {StPending, StDetected, StConfirming, StConfirmed}))"

definition row_moves ::
    "reconcile_env \<Rightarrow> sweep_token list \<Rightarrow> sweep_deposit list \<Rightarrow> gas_tx list \<Rightarrow> sweep_deposit \<Rightarrow> sweep_deposit \<Rightarrow> bool" where
  "row_moves env toks rows gs d d' \<longleftrightarrow>
     d' = d
     \<or> sd_id d' = sd_id d \<and> sd_status d' = StSwept \<and> settled env toks rows gs d
     \<or> sd_id d' = sd_id d \<and> sd_status d' = StSweepFailed
         \<and> (\<exists>g \<in> set gs. \<exists>r. waits_for g d \<and> rv_receipt env (gt_hash g) = Inr (Some r) \<and> rp_status r \<noteq> 1)"

lemma swept_by_iff: "swept_by g d \<longleftrightarrow> waits_for g d"
  by (auto simp: swept_by_def waits_for_def split: option.split)

lemma waits_together: "waits_for g x \<Longrightarrow> waits_for g y \<Longrightarrow> swept_together x y"
  by (auto simp: waits_for_def swept_together_def sql_eq_def)

lemma emptied_iff: "emptied env toks fwd t \<longleftrightarrow>
    (\<exists>tok. find (\<lambda>x. tk_id x = t) toks = Some tok \<and> rv_balance env fwd tok = Inr 0)"
  by (auto simp: emptied_def split: option.split)

lemma emptied_token:
  assumes "emptied env toks fwd t"
  obtains tok where "tok \<in> set toks" "tk_id tok = t" "rv_balance env fwd tok = Inr 0"
proof -
  obtain tok where "find (\<lambda>x. tk_id x = t) toks = Some tok" "rv_balance env fwd tok = Inr 0"
    using assms by (auto simp: emptied_iff)
  then show ?thesis using that find_SomeD [of "\<lambda>x. tk_id x = t" toks tok] by blast
qed

lemma settledI:
  assumes "g \<in> set gs" "rv_receipt env (gt_hash g) = Inr (Some r)" "rp_status r = 1" "gt_op g = OpSweep \<or> gt_op g = OpFlush"
    and "w \<in> set rows" "waits_for g w" "sd_chain d = gt_chain g" "emptied env toks (sd_forwarder w) (sd_token d)"
    and "waits_for g d
      \<or> sql_eq (sd_forwarder w) (sd_forwarder d) \<and> sd_status d \<in> {StPending, StDetected, StConfirming, StConfirmed}"
  shows "settled env toks rows gs d"
  by (rule emptied_token [OF assms(8)]) (use assms in \<open>unfold settled_def, blast\<close>)

lemma settled_flushed:
  assumes "settled env toks rows gs d" "d \<in> set rows"
    and "\<forall>x \<in> set rows. \<forall>y \<in> set rows. swept_together x y \<longrightarrow> sql_eq (sd_forwarder x) (sd_forwarder y)"
  shows "flushed env toks rows gs d"
proof -
  from assms(1) obtain g r w tok where s: "g \<in> set gs" "w \<in> set rows" "tok \<in> set toks"
    "rv_receipt env (gt_hash g) = Inr (Some r)" "rp_status r = 1" "gt_op g = OpSweep \<or> gt_op g = OpFlush"
    "waits_for g w" "sd_chain d = gt_chain g" "tk_id tok = sd_token d" "rv_balance env (sd_forwarder w) tok = Inr 0"
    and alt: "waits_for g d
      \<or> sql_eq (sd_forwarder w) (sd_forwarder d) \<and> sd_status d \<in> {StPending, StDetected, StConfirming, StConfirmed}"
    unfolding settled_def by blast
  have "sql_eq (sd_forwarder w) (sd_forwarder d)"
    using alt assms(2,3) s(2) waits_together [OF s(7), of d] by blast
  with s alt show ?thesis unfolding flushed_def by blast
qed

lemma row_moves_refl [simp]: "row_moves env toks rows gs d d"
  by (simp add: row_moves_def)

lemma row_moves_swept_by: "row_moves env toks rows gs d d' \<Longrightarrow> swept_by g d' \<Longrightarrow> d' = d"
  by (auto simp: row_moves_def swept_by_iff waits_for_def)

lemma row_moves_open: "row_moves env toks rows gs d d' \<Longrightarrow> sd_status d' \<in> {StPending, StDetected, StConfirming, StConfirmed} \<Longrightarrow> d' = d"
  by (auto simp: row_moves_def)

lemma list_all2_update_where:
  assumes "list_all2 R xs ys" "\<And>x y. R x y \<Longrightarrow> y \<in> set ys \<Longrightarrow> p y \<Longrightarrow> x \<in> set xs \<Longrightarrow> R x (f y)"
  shows "list_all2 R xs (update_where p f ys)"
  using assms by (induction rule: list_all2_induct) auto

lemma list_all2_set2: "list_all2 R xs ys \<Longrightarrow> y \<in> set ys \<Longrightarrow> \<exists>x \<in> set xs. R x y"
  by (induction rule: list_all2_induct) auto

lemma moves_cascade:
  assumes "list_all2 (row_moves env toks rows gs) rows (sd_rows st)" "sd_tokens st = toks" "g \<in> set gs"
    and "rv_receipt env (gt_hash g) = Inr (Some r)" "rp_status r = 1" "gt_op g = OpSweep \<or> gt_op g = OpFlush"
    and "distinct (map sd_id rows)"
  shows "list_all2 (row_moves env toks rows gs) rows (sd_rows (cascade env g st))"
proof (cases "filter (swept_by g) (sd_rows st)")
  case Nil
  then show ?thesis using assms(1) by (simp add: cascade_def)
next
  case (Cons d0 ds)
  let ?fwd = "sd_forwarder d0"
  define safe where "safe = map sd_id (filter (\<lambda>x. emptied env toks ?fwd (sd_token x)) (d0 # ds))"
  define dts where "dts = firsts (map sd_token (filter (\<lambda>x. sd_id x \<in> set safe) (d0 # ds)))"
  let ?rows1 = "update_where (\<lambda>x. sd_id x \<in> set safe \<and> sd_status x = StSweepPending)
      (\<lambda>x. x\<lparr>sd_status := StSwept, sd_sweptAt := Some (rv_now env)\<rparr>) (sd_rows st)"
  have ids: "map sd_id (sd_rows st) = map sd_id rows"
    using assms(1) by (induction rule: list_all2_induct) (auto simp: row_moves_def)
  have pend: "x \<in> set (d0 # ds) \<longleftrightarrow> x \<in> set (sd_rows st) \<and> swept_by g x" for x
    using arg_cong [OF Cons, of set] by auto
  have safe: "x \<in> set (d0 # ds) \<and> emptied env toks ?fwd (sd_token x)"
    if x: "x \<in> set (sd_rows st)" and i: "sd_id x \<in> set safe" for x
  proof -
    obtain y where y: "y \<in> set (d0 # ds)" "emptied env toks ?fwd (sd_token y)" "sd_id x = sd_id y"
      using i unfolding safe_def set_map set_filter by blast
    moreover have "inj_on sd_id (set (sd_rows st))" using assms(7) unfolding ids [symmetric] distinct_map by blast
    ultimately have "x = y" using x pend by (meson inj_onD)
    with y show ?thesis by simp
  qed
  have dts: "emptied env toks ?fwd t" if t: "t \<in> set dts" for t
  proof -
    obtain x where "x \<in> set (d0 # ds)" "sd_id x \<in> set safe" "sd_token x = t"
      using t unfolding dts_def set_firsts set_map set_filter by blast
    then show ?thesis using safe [of x] pend by blast
  qed
  have d0: "d0 \<in> set rows" "waits_for g d0"
  proof -
    have d: "d0 \<in> set (sd_rows st)" "swept_by g d0" using pend [of d0] by simp_all
    then obtain x where "x \<in> set rows" "row_moves env toks rows gs x d0"
      using assms(1) by (meson list_all2_set2)
    then show "d0 \<in> set rows" "waits_for g d0" using row_moves_swept_by [of env toks rows gs x d0 g] d(2) by (simp_all add: swept_by_iff)
  qed
  have 1: "list_all2 (row_moves env toks rows gs) rows ?rows1"
  proof (rule list_all2_update_where [OF assms(1)])
    fix x y assume m: "row_moves env toks rows gs x y" and y: "y \<in> set (sd_rows st)" "sd_id y \<in> set safe \<and> sd_status y = StSweepPending"
    have sw: "swept_by g y" "emptied env toks ?fwd (sd_token y)" using safe [of y] y pend by auto
    have yx: "y = x" using row_moves_swept_by [OF m sw(1)] .
    have wx: "waits_for g x" using sw(1) yx by (simp add: swept_by_iff)
    have "sd_chain x = gt_chain g" using wx by (simp add: waits_for_def)
    then have "settled env toks rows gs x"
      using settledI [OF assms(3-6) d0] sw(2) wx yx by blast
    then show "row_moves env toks rows gs x (y\<lparr>sd_status := StSwept, sd_sweptAt := Some (rv_now env)\<rparr>)"
      using yx by (simp add: row_moves_def)
  qed
  have 2: "list_all2 (row_moves env toks rows gs) rows (update_where (is_orphan g ?fwd dts)
      (\<lambda>x. x\<lparr>sd_status := StSwept, sd_sweepTx := Some (gt_hash g), sd_sweptAt := Some (rv_now env),
             sd_confirmedAt := Some (rv_now env)\<rparr>) ?rows1)"
  proof (rule list_all2_update_where [OF 1])
    fix x y assume m: "row_moves env toks rows gs x y" and "y \<in> set ?rows1" and o: "is_orphan g ?fwd dts y"
    have yx: "y = x" using row_moves_open [OF m] o by (simp add: is_orphan_def)
    have "sql_eq (sd_forwarder d0) (sd_forwarder x)" "sd_chain x = gt_chain g" "emptied env toks ?fwd (sd_token x)"
      "sd_status x \<in> {StPending, StDetected, StConfirming, StConfirmed}"
      using o dts yx by (auto simp: is_orphan_def sql_eq_def)
    then have "settled env toks rows gs x"
      using settledI [OF assms(3-6) d0] by blast
    then show "row_moves env toks rows gs x (y\<lparr>sd_status := StSwept, sd_sweepTx := Some (gt_hash g),
        sd_sweptAt := Some (rv_now env), sd_confirmedAt := Some (rv_now env)\<rparr>)"
      using yx by (simp add: row_moves_def)
  qed
  show ?thesis
    using assms(1) 1 2 unfolding cascade_def Cons
    by (simp only: list.case Let_def assms(2) safe_def [symmetric] dts_def [symmetric] split: if_split) simp
qed

lemma moves_reconcile_one:
  assumes "list_all2 (row_moves env toks rows gs) rows (sd_rows st)" "sd_tokens st = toks" "g \<in> set gs" "distinct (map sd_id rows)"
  shows "list_all2 (row_moves env toks rows gs) rows (sd_rows (reconcile_one env g st))"
proof -
  have gas [simp]: "sd_rows (update_gas n f st) = sd_rows st" "sd_tokens (update_gas n f st) = sd_tokens st" for n f
    by (simp_all add: update_gas_def)
  consider r where "rv_receipt env (gt_hash g) = Inr (Some r)" | e where "rv_receipt env (gt_hash g) = Inl e"
    | "rv_receipt env (gt_hash g) = Inr None" by (metis obj_sumE option.exhaust)
  then show ?thesis
  proof cases
    case (1 r)
    have ok: "list_all2 (row_moves env toks rows gs) rows (sd_rows (cascade env g (update_gas n f st)))"
      if "rp_status r = 1" "gt_op g = OpSweep \<or> gt_op g = OpFlush" for n f
      using moves_cascade [OF _ _ assms(3) 1 that assms(4)] assms(1,2) by simp
    have bad: "list_all2 (row_moves env toks rows gs) rows (sd_rows (fail_swept env g (update_gas n f st)))" if "rp_status r \<noteq> 1" for n f
    proof -
      have "list_all2 (row_moves env toks rows gs) rows
          (update_where (swept_by g) (\<lambda>x. x\<lparr>sd_status := StSweepFailed, sd_sweptAt := None\<rparr>) (sd_rows st))"
      proof (rule list_all2_update_where [OF assms(1)])
        fix x y assume m: "row_moves env toks rows gs x y" and s: "swept_by g y"
        have "y = x" using row_moves_swept_by [OF m s] .
        then show "row_moves env toks rows gs x (y\<lparr>sd_status := StSweepFailed, sd_sweptAt := None\<rparr>)"
          using s 1 that assms(3) by (auto simp: row_moves_def swept_by_iff)
      qed
      then show ?thesis using assms(1) by (simp add: fail_swept_def)
    qed
    show ?thesis
    proof (cases "is_ok (rv_provider env (gt_chain g)) \<and> rv_saved env (gt_id g) \<and> (gt_op g = OpSweep \<or> gt_op g = OpFlush)")
      case False
      then show ?thesis using 1 assms(1) by (auto simp: reconcile_one_def Let_def)
    next
      case True
      then show ?thesis
        using ok bad unfolding reconcile_one_def 1 sum.case option.case mined_status_def Let_def
        by (cases "rp_status r = 1") (simp_all only: if_True if_False simp_thms gas_status.distinct)
    qed
  qed (use assms(1) in \<open>simp_all add: reconcile_one_def\<close>)
qed

lemma tokens_reconcile_one [simp]: "sd_tokens (reconcile_one env g st) = sd_tokens st"
  by (simp add: reconcile_one_def update_gas_def cascade_def fail_swept_def Let_def split: sum.split option.split list.split)

lemma moves_reconcile:
  assumes "distinct (map sd_id (sd_rows st))"
  shows "list_all2 (row_moves env (sd_tokens st) (sd_rows st) (reconcile_batch env st)) (sd_rows st) (sd_rows (reconcileBatch env st))"
proof -
  have "list_all2 (row_moves env toks rows gs) rows (sd_rows s) \<Longrightarrow> sd_tokens s = toks \<Longrightarrow> set hs \<subseteq> set gs \<Longrightarrow> distinct (map sd_id rows)
      \<Longrightarrow> list_all2 (row_moves env toks rows gs) rows (sd_rows (fold (reconcile_one env) hs s))" for toks gs rows hs s
  proof (induction hs arbitrary: s)
    case (Cons h hs)
    then have "list_all2 (row_moves env toks rows gs) rows (sd_rows (reconcile_one env h s))"
      by (intro moves_reconcile_one) simp_all
    then show ?case using Cons.IH [of "reconcile_one env h s"] Cons.prems(2-4) by simp
  qed simp
  then show ?thesis
    using assms by (simp add: reconcileBatch_def list_all2_refl)
qed

lemma bex_mono: "A \<subseteq> B \<Longrightarrow> \<exists>x \<in> A. P x \<Longrightarrow> \<exists>x \<in> B. P x"
  by blast

lemma flushed_mono: "set gs \<subseteq> set hs \<Longrightarrow> flushed env toks rows gs d \<Longrightarrow> flushed env toks rows hs d"
  unfolding flushed_def by (rule bex_mono)

text \<open>Claim C20. A reconciliation calls a deposit swept only on proof. Every row it turns to \<open>swept\<close> waited for a
  submitted sweep transaction whose receipt reports success, or is another open deposit of the forwarder such a
  transaction emptied; and of that forwarder, the row's own, no balance of the row's token was left when it was
  read. A row becomes failed only when the transaction it waited for failed; every other row is untouched. Deposits
  that wait for one transaction are those of one forwarder, as a sweep writes them.\<close>

theorem swept_only_on_proof:
  assumes "distinct (map sd_id (sd_rows st))" "i < length (sd_rows st)"
    and "\<forall>x \<in> set (sd_rows st). \<forall>y \<in> set (sd_rows st). swept_together x y \<longrightarrow> sql_eq (sd_forwarder x) (sd_forwarder y)"
  shows "length (sd_rows (reconcileBatch env st)) = length (sd_rows st)
    \<and> (sd_rows (reconcileBatch env st) ! i = sd_rows st ! i
       \<or> sd_status (sd_rows (reconcileBatch env st) ! i) = StSwept
           \<and> flushed env (sd_tokens st) (sd_rows st) (filter (\<lambda>g. gt_status g = GasSubmitted) (gas_txs st)) (sd_rows st ! i)
       \<or> sd_status (sd_rows (reconcileBatch env st) ! i) = StSweepFailed
           \<and> (\<exists>g \<in> set (gas_txs st). \<exists>r. gt_status g = GasSubmitted \<and> waits_for g (sd_rows st ! i)
                \<and> rv_receipt env (gt_hash g) = Inr (Some r) \<and> rp_status r \<noteq> 1))"
proof -
  have batch: "set (reconcile_batch env st) \<subseteq> set (filter (\<lambda>g. gt_status g = GasSubmitted) (gas_txs st))"
    unfolding reconcile_batch_def by (auto dest!: in_set_takeD)
  have row: "sd_rows st ! i \<in> set (sd_rows st)" using assms(2) by simp
  have mono: "flushed env (sd_tokens st) (sd_rows st) (filter (\<lambda>g. gt_status g = GasSubmitted) (gas_txs st)) (sd_rows st ! i)"
    if "settled env (sd_tokens st) (sd_rows st) (reconcile_batch env st) (sd_rows st ! i)"
    using flushed_mono [OF batch] settled_flushed [OF that row assms(3)] by blast
  have len: "length (sd_rows (reconcileBatch env st)) = length (sd_rows st)"
    using list_all2_lengthD [OF moves_reconcile [OF assms(1), of env]] by simp
  have "row_moves env (sd_tokens st) (sd_rows st) (reconcile_batch env st) (sd_rows st ! i) (sd_rows (reconcileBatch env st) ! i)"
    by (rule list_all2_nthD [OF moves_reconcile [OF assms(1), of env] assms(2)])
  then show ?thesis
    unfolding row_moves_def
  proof (elim disjE conjE bexE exE)
    fix g r assume "g \<in> set (reconcile_batch env st)" "waits_for g (sd_rows st ! i)"
      "rv_receipt env (gt_hash g) = Inr (Some r)" "rp_status r \<noteq> 1"
      "sd_status (sd_rows (reconcileBatch env st) ! i) = StSweepFailed"
    moreover from this batch have "g \<in> set (gas_txs st)" "gt_status g = GasSubmitted" by auto
    ultimately show ?thesis using len by blast
  qed (use len mono in blast)+
qed

section \<open>An instance\<close>

definition mined_receipt :: receipt where
  "mined_receipt = \<lparr>rp_status = 1, rp_gasUsed = 21000, rp_gasPrice = 2, rp_block = 9\<rparr>"

definition mined_env :: reconcile_env where
  "mined_env =
     \<lparr>rv_now = 20000, rv_provider = (\<lambda>_. Inr ()), rv_receipt = (\<lambda>_. Inr (Some mined_receipt)),
      rv_balance = (\<lambda>_ _. Inr 0), rv_saved = (\<lambda>_. True), rv_cascaded = (\<lambda>_. True), rv_orphans = (\<lambda>_. True)\<rparr>"

definition flushed_sweep :: sweep_state where
  "flushed_sweep = small_sweep
     \<lparr>sd_rows := [(small_deposit 1)\<lparr>sd_status := StSweepPending, sd_sweepTx := Some ''0xtx''\<rparr>],
      gas_txs := [\<lparr>gt_id = 1, gt_wallet = 2, gt_project = 0, gt_chain = 1, gt_hash = ''0xtx'', gt_op = OpSweep,
        gt_to = Some ''0xw'', gt_status = GasSubmitted, gt_gasUsed = None, gt_gasCost = None, gt_block = None,
        gt_submitted = 0, gt_confirmed = None\<rparr>]\<rparr>"

lemma flushed_sweep_swept: "map sd_status (sd_rows (reconcileBatch mined_env flushed_sweep)) = [StSwept]"
  by code_simp

theorem swept_only_on_proof_witness:
  "sd_status (sd_rows (reconcileBatch mined_env flushed_sweep) ! 0) = StSwept
   \<and> flushed mined_env (sd_tokens flushed_sweep) (sd_rows flushed_sweep)
       (filter (\<lambda>g. gt_status g = GasSubmitted) (gas_txs flushed_sweep)) (sd_rows flushed_sweep ! 0)"
proof -
  have h: "distinct (map sd_id (sd_rows flushed_sweep))" "0 < length (sd_rows flushed_sweep)"
    and s: "sd_status (sd_rows flushed_sweep ! 0) = StSweepPending"
    by (simp_all add: flushed_sweep_def)
  have one: "\<forall>x \<in> set (sd_rows flushed_sweep). \<forall>y \<in> set (sd_rows flushed_sweep).
      swept_together x y \<longrightarrow> sql_eq (sd_forwarder x) (sd_forwarder y)"
    by (simp add: flushed_sweep_def)
  have r: "sd_status (sd_rows (reconcileBatch mined_env flushed_sweep) ! 0) = StSwept"
    using flushed_sweep_swept by (cases "sd_rows (reconcileBatch mined_env flushed_sweep)") simp_all
  from swept_only_on_proof [OF h one, of mined_env] r s show ?thesis by auto
qed

end
