(* ===== verification/ForwarderDeploy.thy ===== *)
theory ForwarderDeploy
  imports SweepReconciler
begin

text \<open>
  The deployment of the forwarders (services/cron-worker-service/src/forwarder-deploy/forwarder-deploy.service.ts):
  an undeployed deposit address that has a deposit is created on chain through the factory, flagged at once, and
  native deposits that the new forwarder no longer holds are settled. The node's answers, the call data of
  \<open>createForwarder\<close> and the writes that fail are the fields of \<open>deploy_env\<close>.
\<close>

section \<open>The model\<close>

definition DEPLOY_GAS_LIMIT :: int where "DEPLOY_GAS_LIMIT = 800000"
definition DEPLOY_BATCH_SIZE :: nat where "DEPLOY_BATCH_SIZE = 10"

record deploy_env =
  fd_now :: millis
  fd_provider :: "error + unit"
  fd_code :: "string \<Rightarrow> error + bool"
  fd_encode :: "string \<Rightarrow> string \<Rightarrow> string"
  fd_attempt :: "ident \<Rightarrow> attempt"
  fd_logged :: "ident \<Rightarrow> bool"
  fd_flagged :: "ident \<Rightarrow> bool"
  fd_balance :: "string \<Rightarrow> error + int"
  fd_settled :: "ident \<Rightarrow> bool"

definition open_status :: "sweep_status \<Rightarrow> bool" where
  "open_status s \<longleftrightarrow> s \<in> {StPending, StDetected, StConfirming, StConfirmed}"

definition has_deposit :: "int \<Rightarrow> sweep_state \<Rightarrow> deposit_address \<Rightarrow> bool" where
  "has_deposit chain st a \<longleftrightarrow>
     list_ex (\<lambda>d. sd_chain d = chain \<and> sql_eq (sd_forwarder d) (da_address a)
                  \<and> (open_status (sd_status d) \<or> sd_status d = StSweepPending)) (sd_rows st)"

definition mark_deployed :: "ident \<Rightarrow> sweep_state \<Rightarrow> sweep_state" where
  "mark_deployed n st = st\<lparr>sd_addresses := update_where (\<lambda>a. da_id a = n) (\<lambda>a. a\<lparr>da_deployed := True\<rparr>) (sd_addresses st)\<rparr>"

definition settled_by_deploy :: "int \<Rightarrow> deposit_address \<Rightarrow> ident \<Rightarrow> sweep_deposit \<Rightarrow> bool" where
  "settled_by_deploy chain a tok d \<longleftrightarrow>
     sql_eq (sd_forwarder d) (lower (da_address a)) \<and> sd_chain d = chain \<and> open_status (sd_status d)
     \<and> sd_sweepTx d = None \<and> sd_token d = tok"

text \<open>The constructor of the forwarder forwards the native balance: when nothing is left, the open native deposits
  are settled by the deployment itself. An error is only logged.\<close>

definition settle_native :: "deploy_env \<Rightarrow> int \<Rightarrow> deposit_address \<Rightarrow> string \<Rightarrow> sweep_state \<Rightarrow> sweep_state" where
  "settle_native env chain a h st =
     (if fd_balance env (da_address a) = Inr 0
      then (case find (\<lambda>t. tk_chain t = chain \<and> tk_native t) (sd_tokens st) of
              None \<Rightarrow> st
            | Some t \<Rightarrow>
                if fd_settled env (da_id a)
                then st\<lparr>sd_rows := update_where (settled_by_deploy chain a (tk_id t))
                       (\<lambda>d. d\<lparr>sd_status := StSwept, sd_sweepTx := Some h, sd_sweptAt := Some (fd_now env),
                              sd_confirmedAt := Some (fd_now env)\<rparr>) (sd_rows st)\<rparr>
                else st)
      else st)"

definition deploy_one :: "deploy_env \<Rightarrow> int \<Rightarrow> string \<Rightarrow> deposit_address \<Rightarrow> nat \<times> sweep_state \<Rightarrow> nat \<times> sweep_state" where
  "deploy_one env chain factory a s =
     (case s of (n, st) \<Rightarrow>
     (case find_sweep_wallet (da_client a) chain SweepHot st of
        None \<Rightarrow> (n, st)
      | Some hot \<Rightarrow>
     (case find_sweep_wallet (da_client a) chain SweepGasTank st of
        None \<Rightarrow> (n, st)
      | Some tank \<Rightarrow>
     (case fd_code env (da_address a) of
        Inl e \<Rightarrow> (n, st)
      | Inr True \<Rightarrow> if fd_flagged env (da_id a) then (n + 1, mark_deployed (da_id a) st) else (n, st)
      | Inr False \<Rightarrow>
     (case submit_from (fd_attempt env (da_id a)) chain (da_client a) GasTankKey (sw_address tank) factory
             (RawData (fd_encode env (sw_address hot) (da_salt a))) DEPLOY_GAS_LIMIT (sw_worker st) of
        (Inl e, w) \<Rightarrow> (n, st\<lparr>sw_worker := w\<rparr>)
      | (Inr h, w) \<Rightarrow>
          let st1 = logSubmit (fd_logged env (da_id a)) (fd_now env) tank chain h (OpOther ''deploy_forwarder'') factory
                      (st\<lparr>sw_worker := w\<rparr>)
          in if \<not> fd_flagged env (da_id a) then (n, st1)
             else (n + 1, settle_native env chain a h (mark_deployed (da_id a) st1)))))))"

definition undeployed :: "int \<Rightarrow> sweep_state \<Rightarrow> deposit_address list" where
  "undeployed chain st = take DEPLOY_BATCH_SIZE (filter (\<lambda>a. da_chain a = chain \<and> \<not> da_deployed a) (sd_addresses st))"

definition to_deploy :: "int \<Rightarrow> sweep_state \<Rightarrow> deposit_address list" where
  "to_deploy chain st = filter (has_deposit chain st) (undeployed chain st)"

definition deployPendingForwarders :: "deploy_env \<Rightarrow> int \<Rightarrow> sweep_state \<Rightarrow> (error + nat) \<times> sweep_state" where
  "deployPendingForwarders env chain st =
     (if to_deploy chain st = [] then (Inr 0, st)
      else
     (case find (\<lambda>c. sc_id c = chain) (sd_chains st) of
        None \<Rightarrow> (Inr 0, st)
      | Some c \<Rightarrow>
     (case or_null (sc_factory c) of
        None \<Rightarrow> (Inr 0, st)
      | Some factory \<Rightarrow>
     (case fd_provider env of
        Inl e \<Rightarrow> (Inl e, st)
      | Inr _ \<Rightarrow>
          (case fold (deploy_one env chain factory) (to_deploy chain st) (0, st) of (n, st1) \<Rightarrow> (Inr n, st1))))))"

text \<open>The chains of a tick, whose tables do not overlap; a tick that finds one in flight does nothing.\<close>

definition runDeployCycle :: "(int \<Rightarrow> deploy_env) \<Rightarrow> bool \<Rightarrow> sweep_state \<Rightarrow> sweep_state" where
  "runDeployCycle envs inFlight st =
     (if inFlight then st
      else fold (\<lambda>c s. snd (deployPendingForwarders (envs (sc_id c)) (sc_id c) s)) (filter sc_active (sd_chains st)) st)"

section \<open>What the operations do to the rows\<close>

text \<open>Only rows of a set change, and none of them its identity; the log of the gas transactions only grows.\<close>

definition moved :: "(sweep_deposit \<Rightarrow> bool) \<Rightarrow> sweep_state \<Rightarrow> sweep_state \<Rightarrow> bool" where
  "moved P a b \<longleftrightarrow> list_all2 (\<lambda>x y. y = x \<or> P x \<and> sd_id y = sd_id x) (sd_rows a) (sd_rows b)"

definition log_grows :: "sweep_state \<Rightarrow> sweep_state \<Rightarrow> bool" where
  "log_grows a b \<longleftrightarrow> (\<exists>new. gas_txs b = gas_txs a @ new)"

lemma moved_refl [simp]: "moved P a a"
  by (simp add: moved_def list_all2_refl)

lemma moved_trans: "moved P a b \<Longrightarrow> moved P b c \<Longrightarrow> moved P a c"
  unfolding moved_def by (erule (1) list_all2_trans [rotated]) auto

lemma moved_mono: "moved P a b \<Longrightarrow> (\<And>x. x \<in> set (sd_rows a) \<Longrightarrow> P x \<Longrightarrow> Q x) \<Longrightarrow> moved Q a b"
  unfolding moved_def list_all2_conv_all_nth using nth_mem by metis

lemma moved_update: "(\<And>x. p x \<Longrightarrow> P x) \<Longrightarrow> (\<And>x. sd_id (f x) = sd_id x) \<Longrightarrow> moved P a (a\<lparr>sd_rows := update_where p f (sd_rows a)\<rparr>)"
  by (simp add: moved_def update_where_def list_all2_conv_all_nth)

lemma log_grows_refl [simp]: "log_grows a a"
  and log_grows_trans: "log_grows a b \<Longrightarrow> log_grows b c \<Longrightarrow> log_grows a c"
  by (auto simp: log_grows_def)

definition sweeps_in :: "planned list \<Rightarrow> sweep_state \<Rightarrow> sweep_state \<Rightarrow> bool" where
  "sweeps_in ps a b \<longleftrightarrow> moved (\<lambda>x. sd_id x \<in> set (concat (map pf_ids ps))) a b \<and> log_grows a b"

lemma sweeps_in_frames [simp]:
  "sweeps_in ps a (b\<lparr>sw_worker := w\<rparr>) = sweeps_in ps a b" "sweeps_in ps a (b\<lparr>sd_policies := x\<rparr>) = sweeps_in ps a b"
  "sweeps_in ps a (b\<lparr>sd_store := s\<rparr>) = sweeps_in ps a b"
  by (simp_all add: sweeps_in_def moved_def log_grows_def)

lemma sweeps_in_refl [simp]: "sweeps_in ps a a"
  by (simp add: sweeps_in_def)

lemma sweeps_in_trans: "sweeps_in ps a b \<Longrightarrow> sweeps_in ps b c \<Longrightarrow> sweeps_in ps a c"
  unfolding sweeps_in_def using moved_trans log_grows_trans by blast

lemma sweeps_in_log: "sweeps_in ps a b \<Longrightarrow> sweeps_in ps a (logSubmit ok now tank chain h op dest b)"
  by (auto simp: sweeps_in_def moved_def log_grows_def logSubmit_def)

lemma sweeps_in_rows:
  "sweeps_in ps a b \<Longrightarrow> set ids \<subseteq> set (concat (map pf_ids ps)) \<Longrightarrow> (\<And>x. sd_id (f x) = sd_id x) \<Longrightarrow> sweeps_in ps a (update_rows ids f b)"
proof (erule sweeps_in_trans)
  assume "set ids \<subseteq> set (concat (map pf_ids ps))" "\<And>x. sd_id (f x) = sd_id x"
  then show "sweeps_in ps b (update_rows ids f b)"
    unfolding sweeps_in_def update_rows_def by (intro conjI moved_update) (auto simp: log_grows_def)
qed

lemma sweeps_in_flush:
  "sweeps_in [\<lparr>pf_fwd = fwd, pf_wallet = wallet, pf_flush = f, pf_ids = ids\<rparr>] st
     (snd (snd (run_flush cr env chain client tank fwd wallet f ids acc st)))"
  by (auto simp: run_flush_def flush_failed_def Let_def intro!: sweeps_in_log sweeps_in_rows split: prod.split sum.split)

interpretation sweeps: sweep_frame sweeps_in cr env chain client for cr env chain client
proof unfold_locales
  fix ps qs :: "planned list" and a b
  show "sweeps_in ps a b \<Longrightarrow> set ps \<subseteq> set qs \<Longrightarrow> sweeps_in qs a b"
    unfolding sweeps_in_def by (auto elim!: moved_mono)
qed (auto intro: sweeps_in_trans sweeps_in_flush)

text \<open>The rows a sweep may change: the confirmed, unswept deposits of the client whose forwarder is deployed in
  the tables and on chain.\<close>

definition sweep_due :: "sweep_env \<Rightarrow> int \<Rightarrow> ident \<Rightarrow> sweep_state \<Rightarrow> sweep_deposit \<Rightarrow> bool" where
  "sweep_due env chain client st d \<longleftrightarrow>
     sd_chain d = chain \<and> sd_client d = client \<and> sd_status d = StConfirmed \<and> sd_sweepTx d = None
     \<and> \<not> not_deployed chain (sd_forwarder d) st \<and> sv_code env (sd_forwarder d) = Inr True"

lemma sweep_moves:
  assumes "distinct (map sd_id (sd_rows st))"
  shows "moved (sweep_due env chain client st) st (snd (executeSweep cr env chain client bypass st))
    \<and> log_grows st (snd (executeSweep cr env chain client bypass st))"
proof -
  have s: "sweeps_in (due_plan env chain client bypass st) st (snd (executeSweep cr env chain client bypass st))"
    by (rule sweeps.executeSweep_frame)
  have due: "set (due_deposits env chain client bypass st) \<subseteq> set (to_sweep chain client st)"
    by (auto simp: due_deposits_def gate_def applyPolicyFilter_def Let_def case_prod_beta)
  have "sweep_due env chain client st x"
    if x: "x \<in> set (sd_rows st)" "sd_id x \<in> set (concat (map pf_ids (due_plan env chain client bypass st)))" for x
  proof -
    obtain p where p: "p \<in> set (due_plan env chain client bypass st)" "sd_id x \<in> set (pf_ids p)" using x(2) by auto
    obtain d where d: "d \<in> set (due_deposits env chain client bypass st)" "sd_id d = sd_id x" "sweepable env chain st p d"
      using due_plan_in [OF p] by blast
    have ts: "d \<in> set (to_sweep chain client st)" using d(1) due by blast
    then have "d = x" using assms d(2) x(1) by (auto simp: distinct_map to_sweep_def dest: inj_onD)
    then show ?thesis using ts d(3) by (auto simp: sweep_due_def sweepable_def to_sweep_def)
  qed
  then show ?thesis using s unfolding sweeps_in_def by (auto elim!: moved_mono)
qed

lemma submit_from_tables: "keys (snd (submit_from a chain client ty from dest data gas w)) = keys w"
  by (simp add: submit_from_def split: sum.split)

definition deploy_due :: "int \<Rightarrow> sweep_deposit \<Rightarrow> bool" where
  "deploy_due chain d \<longleftrightarrow> sd_chain d = chain \<and> open_status (sd_status d) \<and> sd_sweepTx d = None"

definition deploys_in :: "int \<Rightarrow> sweep_state \<Rightarrow> sweep_state \<Rightarrow> bool" where
  "deploys_in chain a b \<longleftrightarrow> moved (deploy_due chain) a b \<and> log_grows a b"

lemma deploys_in_refl [simp]: "deploys_in chain a a"
  by (simp add: deploys_in_def)

lemma deploys_in_trans: "deploys_in chain a b \<Longrightarrow> deploys_in chain b c \<Longrightarrow> deploys_in chain a c"
  unfolding deploys_in_def using moved_trans log_grows_trans by blast

lemma deploys_in_frames [simp]:
  "deploys_in chain a (b\<lparr>sw_worker := w\<rparr>) = deploys_in chain a b" "deploys_in chain a (mark_deployed n b) = deploys_in chain a b"
  by (simp_all add: deploys_in_def moved_def log_grows_def mark_deployed_def)

lemma deploys_in_settle: "deploys_in chain a b \<Longrightarrow> deploys_in chain a (settle_native env chain x h b)"
proof (erule deploys_in_trans)
  show "deploys_in chain b (settle_native env chain x h b)"
    unfolding deploys_in_def settle_native_def
    by (auto split: option.split intro!: moved_update simp: settled_by_deploy_def deploy_due_def log_grows_def)
qed

lemma deploys_in_log: "deploys_in chain a b \<Longrightarrow> deploys_in chain a (logSubmit ok now tank c h op dest b)"
  by (auto simp: deploys_in_def moved_def log_grows_def logSubmit_def)

lemma deploys_in_one: "deploys_in chain st (snd (deploy_one env chain factory a (n, st)))"
  by (auto simp: deploy_one_def Let_def intro!: deploys_in_settle deploys_in_log split: option.split sum.split bool.split prod.split)

lemma deploys_in_fold: "deploys_in chain (snd s) (snd (fold (deploy_one env chain factory) as s))"
proof (induction as arbitrary: s)
  case (Cons a as)
  have "deploys_in chain (snd s) (snd (deploy_one env chain factory a s))"
    using deploys_in_one [of chain "snd s" env factory a "fst s"] by simp
  from deploys_in_trans [OF this Cons.IH] show ?case by simp
qed simp

lemma deploys_in_pending: "deploys_in chain st (snd (deployPendingForwarders env chain st))"
  using deploys_in_fold [of chain "(0, st)" env] by (simp add: deployPendingForwarders_def case_prod_beta split: option.split sum.split)

section \<open>The life of a deposit\<close>

text \<open>A hash that was broadcast just now belongs to no earlier sweep.\<close>

definition fresh_hashes :: "sweep_state \<Rightarrow> sweep_state \<Rightarrow> bool" where
  "fresh_hashes a b \<longleftrightarrow>
     (\<forall>g \<in> set (drop (length (gas_txs a)) (gas_txs b)). \<forall>d \<in> set (sd_rows a). \<forall>h.
        sd_sweepTx d = Some h \<longrightarrow> \<not> sql_eq h (gt_hash g))"

text \<open>The detectors insert deposits and the confirmation tracker changes the open ones.\<close>

inductive sweep_step :: "sweep_state \<Rightarrow> sweep_state \<Rightarrow> bool" where
  sweep: "fresh_hashes a (snd (executeSweep cr env chain client bypass a)) \<Longrightarrow>
    sweep_step a (snd (executeSweep cr env chain client bypass a))"
| reconcile: "sweep_step a (reconcileBatch renv a)"
| deploy: "fresh_hashes a (snd (deployPendingForwarders denv chain a)) \<Longrightarrow>
    sweep_step a (snd (deployPendingForwarders denv chain a))"
| deposits: "list_all2 (\<lambda>x y. y = x \<or> open_status (sd_status x) \<and> sd_id y = sd_id x) (sd_rows a) rows \<Longrightarrow>
    distinct (map sd_id (rows @ new)) \<Longrightarrow> sweep_step a (a\<lparr>sd_rows := rows @ new\<rparr>)"

definition stranded :: "sweep_state \<Rightarrow> sweep_deposit \<Rightarrow> bool" where
  "stranded st d \<longleftrightarrow>
     sd_status d = StSweepFailed
     \<or> sd_status d = StSweepPending \<and> (\<forall>g \<in> set (gas_txs st). gt_status g = GasSubmitted \<longrightarrow> \<not> swept_by g d)"

lemma moved_ids: "moved P a b \<Longrightarrow> map sd_id (sd_rows b) = map sd_id (sd_rows a)"
  unfolding moved_def by (induction rule: list_all2_induct) auto

lemma moved_nth: "moved P a b \<Longrightarrow> i < length (sd_rows a) \<Longrightarrow> \<not> P (sd_rows a ! i) \<Longrightarrow> sd_rows b ! i = sd_rows a ! i"
  and moved_length: "moved P a b \<Longrightarrow> length (sd_rows b) = length (sd_rows a)"
  unfolding moved_def by (auto dest: list_all2_nthD list_all2_lengthD)

lemma stranded_log:
  assumes "stranded a d" "d \<in> set (sd_rows a)" "log_grows a b" "fresh_hashes a b"
  shows "stranded b d"
proof -
  obtain new where new: "gas_txs b = gas_txs a @ new" using assms(3) by (auto simp: log_grows_def)
  have "\<not> swept_by g d" if "g \<in> set new" for g
    using assms(2,4) that new unfolding fresh_hashes_def swept_by_def by (auto split: option.splits)
  then show ?thesis using assms(1) new unfolding stranded_def by auto
qed

text \<open>A reconciliation submits nothing.\<close>

definition gas_settles :: "sweep_state \<Rightarrow> sweep_state \<Rightarrow> bool" where
  "gas_settles a b \<longleftrightarrow> (\<forall>g \<in> set (gas_txs b). gt_status g = GasSubmitted \<longrightarrow> g \<in> set (gas_txs a))"

lemma gas_settles_refl [simp]: "gas_settles a a"
  and gas_settles_trans: "gas_settles a b \<Longrightarrow> gas_settles b c \<Longrightarrow> gas_settles a c"
  by (auto simp: gas_settles_def)

lemma gas_settles_rows [simp]: "gas_settles a (b\<lparr>sd_rows := r\<rparr>) = gas_settles a b"
  by (simp add: gas_settles_def)

lemma gas_settles_update: "(\<And>g. gt_status (f g) \<noteq> GasSubmitted) \<Longrightarrow> gas_settles a (update_gas n f a)"
  by (auto simp: gas_settles_def update_gas_def set_update_where)

lemma gas_settles_one: "gas_settles st (reconcile_one env g st)"
proof -
  have 1: "gas_settles st (update_gas (gt_id g) (\<lambda>x. x\<lparr>gt_status := GasFailed, gt_confirmed := c\<rparr>) st)" for c
    by (rule gas_settles_update) simp
  have 2: "gas_settles st (update_gas (gt_id g) (\<lambda>x. x\<lparr>gt_status := s, gt_gasUsed := u, gt_gasCost := c, gt_block := b,
      gt_confirmed := w\<rparr>) st)" if "s \<noteq> GasSubmitted" for s u c b w
    by (rule gas_settles_update) (simp add: that)
  have m: "mined_status r \<noteq> GasSubmitted" for r by (simp add: mined_status_def)
  have 3: "gas_settles st (cascade env g s) = gas_settles st s" "gas_settles st (fail_swept env g s) = gas_settles st s" for s
    by (simp_all add: cascade_def fail_swept_def Let_def split: list.split)
  show ?thesis
    unfolding reconcile_one_def Let_def using 1 2 [OF m] 2 [of GasConfirmed] by (simp add: 3 split: sum.split option.split)
qed

lemma gas_settles_batch: "gas_settles st (reconcileBatch env st)"
proof -
  have "gas_settles s (fold (reconcile_one env) gs s)" for gs s
    by (induction gs arbitrary: s) (auto intro: gas_settles_trans gas_settles_one)
  then show ?thesis by (simp add: reconcileBatch_def)
qed

lemma reconcile_moves:
  assumes "distinct (map sd_id (sd_rows st))"
  shows "moved (\<lambda>d. open_status (sd_status d) \<or> (\<exists>g \<in> set (gas_txs st). gt_status g = GasSubmitted \<and> swept_by g d)) st (reconcileBatch env st)"
proof -
  have "open_status (sd_status x) \<or> (\<exists>g \<in> set (gas_txs st). gt_status g = GasSubmitted \<and> swept_by g x)"
    "sd_id y = sd_id x" if "row_moves env (sd_tokens st) (sd_rows st) (reconcile_batch env st) x y" "y \<noteq> x" for x y
  proof -
    have batch: "g \<in> set (gas_txs st) \<and> gt_status g = GasSubmitted" if "g \<in> set (reconcile_batch env st)" for g
      using in_set_takeD [OF that [unfolded reconcile_batch_def]] by simp
    show "open_status (sd_status x) \<or> (\<exists>g \<in> set (gas_txs st). gt_status g = GasSubmitted \<and> swept_by g x)"
    proof -
      from that consider "settled env (sd_tokens st) (sd_rows st) (reconcile_batch env st) x"
        | g where "g \<in> set (reconcile_batch env st)" "swept_by g x" unfolding row_moves_def swept_by_iff by blast
      then show ?thesis
      proof cases
        case 1
        then obtain g where g: "g \<in> set (reconcile_batch env st)" and s: "swept_by g x \<or> open_status (sd_status x)"
          unfolding settled_def open_status_def swept_by_iff by blast
        from s batch [OF g] show ?thesis by blast
      next
        case (2 g)
        from 2(2) batch [OF 2(1)] show ?thesis by blast
      qed
    qed
    show "sd_id y = sd_id x" using that by (auto simp: row_moves_def)
  qed
  then show ?thesis
    unfolding moved_def by (intro list_all2_mono [OF moves_reconcile [OF assms, of env]]) blast
qed

text \<open>A row no operation has a reason to touch.\<close>

definition stranded_at :: "nat \<Rightarrow> sweep_deposit \<Rightarrow> sweep_state \<Rightarrow> bool" where
  "stranded_at i d st \<longleftrightarrow> i < length (sd_rows st) \<and> sd_rows st ! i = d \<and> stranded st d"

lemma stranded_at_step:
  assumes "distinct (map sd_id (sd_rows a))" "stranded_at i d a" "sweep_step a b"
  shows "stranded_at i d b"
proof -
  have i: "i < length (sd_rows a)" "sd_rows a ! i = d" "stranded a d" using assms(2) by (simp_all add: stranded_at_def)
  then have d: "d \<in> set (sd_rows a)" by auto
  have closed: "\<not> open_status (sd_status d)" "sd_status d \<noteq> StConfirmed" using i(3) by (auto simp: stranded_def open_status_def)
  have grow: "stranded_at i d b" if "moved P a b" "\<not> P d" "log_grows a b" "fresh_hashes a b" for P
    using that i moved_nth [OF that(1)] moved_length [OF that(1)] stranded_log [OF i(3) d that(3,4)] by (simp add: stranded_at_def)
  from assms(3) show ?thesis
  proof cases
    case (sweep cr env chain client bypass)
    show ?thesis
      using grow [of "sweep_due env chain client a"] sweep_moves [OF assms(1), of env chain client cr bypass] sweep closed
      by (simp add: sweep_due_def)
  next
    case (deploy denv chain)
    show ?thesis
      using grow [of "deploy_due chain"] deploys_in_pending [of chain a denv] deploy closed by (simp add: deploys_in_def deploy_due_def)
  next
    case (reconcile renv)
    let ?P = "\<lambda>d. open_status (sd_status d) \<or> (\<exists>g \<in> set (gas_txs a). gt_status g = GasSubmitted \<and> swept_by g d)"
    have m: "moved ?P a b" using reconcile_moves [OF assms(1)] reconcile by simp
    have "\<not> ?P d" using i(3) closed by (auto simp: stranded_def swept_by_def)
    moreover have "stranded b d" using i(3) gas_settles_batch [of a renv] reconcile unfolding stranded_def gas_settles_def by blast
    ultimately show ?thesis using i moved_nth [OF m] moved_length [OF m] by (simp add: stranded_at_def)
  next
    case (deposits rows new)
    have "rows ! i = d" using list_all2_nthD [OF deposits(2) i(1)] i(2) closed by auto
    then show ?thesis
      using deposits(1) list_all2_lengthD [OF deposits(2)] i by (simp add: stranded_at_def stranded_def nth_append)
  qed
qed

lemma distinct_ids_step:
  assumes "distinct (map sd_id (sd_rows a))" "sweep_step a b"
  shows "distinct (map sd_id (sd_rows b))"
  using assms(2)
proof cases
  case (sweep cr env chain client bypass)
  then show ?thesis using moved_ids [OF conjunct1 [OF sweep_moves [OF assms(1)]]] assms(1) by simp
next
  case (reconcile renv)
  then show ?thesis using moved_ids [OF reconcile_moves [OF assms(1)]] assms(1) by simp
next
  case (deploy denv chain)
  then show ?thesis using moved_ids deploys_in_pending [of chain a denv] assms(1) unfolding deploys_in_def by metis
qed simp

definition distinct_deposits :: "sweep_state \<Rightarrow> bool" where
  "distinct_deposits st \<longleftrightarrow> distinct (map sd_id (sd_rows st))"

interpretation sweep_life: absorbing distinct_deposits sweep_step distinct_deposits "stranded_at i d" for i d
  by unfold_locales (auto simp: distinct_deposits_def intro: distinct_ids_step stranded_at_step)

text \<open>A failed sweep is never retried: whatever sweeps, reconciliations, deployments and deposits follow,
  a deposit that is \<open>sweep_failed\<close>, or that is \<open>sweep_pending\<close> on a transaction that is not waiting for its receipt
  in the gas-tank log (it was never logged, it was given up after ten minutes, or its forwarder was not read as
  empty), keeps its row for ever.\<close>

lemma stranded_deposits_stay_stranded:
  assumes "distinct_deposits st" "sweep_step\<^sup>*\<^sup>* st st'" "i < length (sd_rows st)" "stranded st (sd_rows st ! i)"
  shows "i < length (sd_rows st') \<and> sd_rows st' ! i = sd_rows st ! i"
proof -
  have "stranded_at i (sd_rows st ! i) st" using assms(3,4) by (simp add: stranded_at_def)
  with sweep_life.final_steps [OF assms(2,1)] show ?thesis by (simp add: stranded_at_def)
qed

section \<open>What a deployment sends\<close>

definition deploy_tx :: "deploy_env \<Rightarrow> int \<Rightarrow> string \<Rightarrow> sweep_state \<Rightarrow> deposit_address \<Rightarrow> ident \<times> key_type \<times> outer_tx \<Rightarrow> bool" where
  "deploy_tx env chain factory st a x \<longleftrightarrow>
     fst x = da_client a \<and> fst (snd x) = GasTankKey \<and> tx_to (snd (snd x)) = factory \<and> tx_value (snd (snd x)) = 0
     \<and> fd_code env (da_address a) = Inr False
     \<and> (\<exists>hot. find_sweep_wallet (da_client a) chain SweepHot st = Some hot
          \<and> tx_data (snd (snd x)) = RawData (fd_encode env (sw_address hot) (da_salt a)))"

definition deploys_send :: "deploy_env \<Rightarrow> int \<Rightarrow> string \<Rightarrow> deposit_address list \<Rightarrow> sweep_state \<Rightarrow> sweep_state \<Rightarrow> bool" where
  "deploys_send env chain factory as a b \<longleftrightarrow>
     sd_wallets b = sd_wallets a
     \<and> (\<exists>txs. sent (sw_worker b) = sent (sw_worker a) @ txs \<and> length txs \<le> length as
          \<and> (\<forall>x \<in> set txs. \<exists>y \<in> set as. deploy_tx env chain factory a y x))"

lemma deploy_tx_wallets: "sd_wallets a = sd_wallets b \<Longrightarrow> deploy_tx env chain factory a y x = deploy_tx env chain factory b y x"
  by (simp add: deploy_tx_def find_sweep_wallet_def)

lemma deploys_send_Nil: "deploys_send env chain factory [] a a"
  by (simp add: deploys_send_def)

lemma deploys_send_Cons:
  assumes "deploys_send env chain factory [y] a b" "deploys_send env chain factory ys b c"
  shows "deploys_send env chain factory (y # ys) a c"
proof -
  obtain t1 where 1: "sent (sw_worker b) = sent (sw_worker a) @ t1" "length t1 \<le> 1" "\<forall>x \<in> set t1. deploy_tx env chain factory a y x"
    using assms(1) by (auto simp: deploys_send_def)
  obtain t2 where 2: "sent (sw_worker c) = sent (sw_worker b) @ t2" "length t2 \<le> length ys"
      "\<forall>x \<in> set t2. \<exists>y \<in> set ys. deploy_tx env chain factory b y x"
    using assms(2) by (auto simp: deploys_send_def)
  have w: "sd_wallets b = sd_wallets a" "sd_wallets c = sd_wallets a" using assms by (simp_all add: deploys_send_def)
  show ?thesis
    unfolding deploys_send_def
    using 1 2 w deploy_tx_wallets [OF w(1)] by (intro conjI exI [of _ "t1 @ t2"]) auto
qed

lemma deploys_send_frames [simp]:
  "deploys_send env chain factory as a (settle_native env' chain' x h b) = deploys_send env chain factory as a b"
  "deploys_send env chain factory as a (mark_deployed n b) = deploys_send env chain factory as a b"
  "deploys_send env chain factory as a (logSubmit ok now tank c h op dest b) = deploys_send env chain factory as a b"
  by (simp_all add: deploys_send_def settle_native_def mark_deployed_def logSubmit_def split: option.split)

lemma deploys_send_one: "deploys_send env chain factory [a] st (snd (deploy_one env chain factory a (n, st)))"
proof -
  have idle: "deploys_send env chain factory [a] st st" by (simp add: deploys_send_def)
  show ?thesis
  proof (cases "find_sweep_wallet (da_client a) chain SweepHot st")
    case (Some hot)
    show ?thesis
    proof (cases "find_sweep_wallet (da_client a) chain SweepGasTank st = None \<or> fd_code env (da_address a) \<noteq> Inr False")
      case True
      then show ?thesis using Some idle by (auto simp: deploy_one_def split: option.split sum.split bool.split)
    next
      case False
      then obtain tank where t: "find_sweep_wallet (da_client a) chain SweepGasTank st = Some tank" "fd_code env (da_address a) = Inr False"
        by auto
      let ?r = "submit_from (fd_attempt env (da_id a)) chain (da_client a) GasTankKey (sw_address tank) factory
             (RawData (fd_encode env (sw_address hot) (da_salt a))) DEPLOY_GAS_LIMIT (sw_worker st)"
      have "deploys_send env chain factory [a] st (st\<lparr>sw_worker := snd ?r\<rparr>)"
        using submit_from_sent [of "fd_attempt env (da_id a)" chain "da_client a" GasTankKey "sw_address tank" factory
            "RawData (fd_encode env (sw_address hot) (da_salt a))" DEPLOY_GAS_LIMIT "sw_worker st"] Some t(2)
        by (auto simp: deploys_send_def deploy_tx_def)
      then show ?thesis
        using Some t by (cases ?r) (simp add: deploy_one_def Let_def split: sum.split)
    qed
  qed (simp add: deploy_one_def idle)
qed

lemma deploys_send_fold: "deploys_send env chain factory as (snd s) (snd (fold (deploy_one env chain factory) as s))"
proof (induction as arbitrary: s)
  case (Cons a as)
  have "deploys_send env chain factory [a] (snd s) (snd (deploy_one env chain factory a s))"
    using deploys_send_one [of env chain factory a "snd s" "fst s"] by simp
  from deploys_send_Cons [OF this Cons.IH] show ?case by simp
qed (simp add: deploys_send_Nil)

text \<open>A run deploys at most ten forwarders, each for a deposit address that the tables call undeployed,
  that has a deposit and no code on chain; every transaction it broadcasts is signed with the gas-tank key of the
  address's client, carries no value and calls the factory of the chain with the client's hot wallet and the
  salt of the address.\<close>

lemma deployments_are_for_funded_addresses:
  "\<exists>txs. sent (sw_worker (snd (deployPendingForwarders env chain st))) = sent (sw_worker st) @ txs
    \<and> length txs \<le> DEPLOY_BATCH_SIZE
    \<and> (\<forall>x \<in> set txs. \<exists>a \<in> set (sd_addresses st). \<exists>factory.
          deploy_tx env chain factory st a x \<and> da_chain a = chain \<and> \<not> da_deployed a \<and> has_deposit chain st a
          \<and> (\<exists>c. find (\<lambda>c. sc_id c = chain) (sd_chains st) = Some c \<and> sc_factory c = Some factory))"
proof -
  have len: "length (to_deploy chain st) \<le> DEPLOY_BATCH_SIZE"
    using length_filter_le [of "has_deposit chain st" "undeployed chain st"] by (simp add: to_deploy_def undeployed_def)
  have mem: "y \<in> set (sd_addresses st) \<and> da_chain y = chain \<and> \<not> da_deployed y \<and> has_deposit chain st y" if "y \<in> set (to_deploy chain st)" for y
  proof -
    have "y \<in> set (undeployed chain st)" "has_deposit chain st y" using that by (simp_all add: to_deploy_def)
    moreover from this(1) have "y \<in> set (filter (\<lambda>a. da_chain a = chain \<and> \<not> da_deployed a) (sd_addresses st))"
      unfolding undeployed_def by (rule in_set_takeD)
    ultimately show ?thesis by simp
  qed
  show ?thesis
  proof (cases "snd (deployPendingForwarders env chain st) = st")
    case True
    then show ?thesis by (intro exI [of _ "[]"]) simp
  next
    case False
    then obtain c factory where c: "find (\<lambda>c. sc_id c = chain) (sd_chains st) = Some c" "or_null (sc_factory c) = Some factory"
      and d: "snd (deployPendingForwarders env chain st) = snd (fold (deploy_one env chain factory) (to_deploy chain st) (0, st))"
      by (auto simp: deployPendingForwarders_def case_prod_beta split: if_splits option.splits sum.splits)
    have f: "sc_factory c = Some factory" using c(2) by (simp add: or_null_def split: if_splits)
    show ?thesis
      using deploys_send_fold [of env chain factory "to_deploy chain st" "(0, st)"] len mem c(1) f
      unfolding d deploys_send_def by simp (meson le_trans)
  qed
qed

section \<open>Starvation\<close>

text \<open>Ten idle addresses stop the deployment: only the ten oldest undeployed addresses of a chain are
  looked at, and while none of them has a deposit, no run deploys anything, however many deposits wait at later
  addresses; such a deposit is not swept either.\<close>

lemma idle_addresses_starve_deployment:
  assumes "\<not> list_ex (has_deposit chain st) (undeployed chain st)"
    and "distinct (map sd_id (sd_rows st))" "i < length (sd_rows st)" "not_deployed chain (sd_forwarder (sd_rows st ! i)) st"
  shows "fold (\<lambda>env s. snd (deployPendingForwarders env chain s)) envs st = st
    \<and> sd_rows (snd (executeSweep cr env chain client bypass st)) ! i = sd_rows st ! i"
proof -
  have "to_deploy chain st = []"
    using assms(1) by (simp add: to_deploy_def filter_empty_conv list_ex_iff)
  then have "fold (\<lambda>env s. snd (deployPendingForwarders env chain s)) envs st = st"
    by (induction envs) (simp_all add: deployPendingForwarders_def)
  moreover have "\<not> sweep_due env chain client st (sd_rows st ! i)" using assms(4) by (simp add: sweep_due_def)
  ultimately show ?thesis using moved_nth [OF conjunct1 [OF sweep_moves [OF assms(2)]] assms(3)] by simp
qed

section \<open>Instances\<close>

definition failed_sweep :: sweep_state where
  "failed_sweep = flushed_sweep\<lparr>sd_rows := [(small_deposit 1)\<lparr>sd_status := StSweepFailed\<rparr>]\<rparr>"

lemma stranded_deposits_stay_stranded_witness:
  "sd_rows (reconcileBatch mined_env failed_sweep) ! 0 = (small_deposit 1)\<lparr>sd_status := StSweepFailed\<rparr>"
proof -
  have "distinct_deposits failed_sweep" "0 < length (sd_rows failed_sweep)" "stranded failed_sweep (sd_rows failed_sweep ! 0)"
    by (simp_all add: distinct_deposits_def failed_sweep_def stranded_def)
  moreover have "sweep_step\<^sup>*\<^sup>* failed_sweep (reconcileBatch mined_env failed_sweep)"
    using sweep_step.reconcile by blast
  ultimately show ?thesis
    using stranded_deposits_stay_stranded [of failed_sweep "reconcileBatch mined_env failed_sweep" 0] by (simp add: failed_sweep_def)
qed

definition small_deploy_env :: deploy_env where
  "small_deploy_env =
     \<lparr>fd_now = 0, fd_provider = Inr (), fd_code = (\<lambda>_. Inr False), fd_encode = (\<lambda>_ _. ''create''),
      fd_attempt = (\<lambda>_. sample_attempt 4 True), fd_logged = (\<lambda>_. True), fd_flagged = (\<lambda>_. True),
      fd_balance = (\<lambda>_. Inr 1), fd_settled = (\<lambda>_. True)\<rparr>"

definition small_address :: "ident \<Rightarrow> string \<Rightarrow> deposit_address" where
  "small_address n a = \<lparr>da_id = n, da_client = 7, da_chain = 1, da_address = a, da_salt = ''0x0'', da_deployed = False\<rparr>"

text \<open>Ten idle addresses before the one that has the deposit.\<close>

definition idle_sweep :: sweep_state where
  "idle_sweep = small_sweep\<lparr>sd_addresses := map (\<lambda>n. small_address n ''0xe'') [10,11,12,13,14,15,16,17,18,19] @ [small_address 20 ''0xf'']\<rparr>"

lemma idle_addresses_starve_deployment_witness:
  "fold (\<lambda>env s. snd (deployPendingForwarders env 1 s)) [small_deploy_env, small_deploy_env] idle_sweep = idle_sweep
   \<and> sd_rows (snd (executeSweep any_crypto small_sweep_env 1 7 True idle_sweep)) ! 0 = small_deposit 1"
proof -
  have "undeployed 1 idle_sweep = map (\<lambda>n. small_address n ''0xe'') [10,11,12,13,14,15,16,17,18,19]"
    by (simp add: undeployed_def idle_sweep_def small_address_def DEPLOY_BATCH_SIZE_def)
  then have "\<not> list_ex (has_deposit 1 idle_sweep) (undeployed 1 idle_sweep)"
    by (simp add: small_address_def has_deposit_def idle_sweep_def small_sweep_def small_deposit_def sql_eq_def lower_def lower_char_def)
  moreover have "distinct (map sd_id (sd_rows idle_sweep))" "0 < length (sd_rows idle_sweep)" "sd_rows idle_sweep ! 0 = small_deposit 1"
    by (simp_all add: idle_sweep_def small_sweep_def)
  moreover have "not_deployed 1 (sd_forwarder (small_deposit 1)) idle_sweep"
    by (simp add: not_deployed_def idle_sweep_def small_address_def small_deposit_def sql_eq_def lower_def lower_char_def)
  ultimately show ?thesis
    using idle_addresses_starve_deployment [of 1 idle_sweep 0 "[small_deploy_env, small_deploy_env]" any_crypto small_sweep_env 7 True] by simp
qed

text \<open>One address with its deposit.\<close>

definition due_address :: sweep_state where
  "due_address = small_sweep\<lparr>sd_addresses := [small_address 20 ''0xf'']\<rparr>"

lemma due_address_sent:
  "map (\<lambda>x. tx_to (snd (snd x))) (sent (sw_worker (snd (deployPendingForwarders small_deploy_env 1 due_address)))) = [''0xa'']"
  by code_simp

lemma deployments_are_for_funded_addresses_witness:
  "\<exists>x. sent (sw_worker (snd (deployPendingForwarders small_deploy_env 1 due_address))) = [x]
    \<and> deploy_tx small_deploy_env 1 ''0xa'' due_address (small_address 20 ''0xf'') x"
proof -
  obtain x where x: "sent (sw_worker (snd (deployPendingForwarders small_deploy_env 1 due_address))) = [x]" "tx_to (snd (snd x)) = ''0xa''"
    using due_address_sent by (auto simp: map_eq_Cons_conv)
  obtain txs where t: "sent (sw_worker (snd (deployPendingForwarders small_deploy_env 1 due_address))) = sent (sw_worker due_address) @ txs"
    and d: "\<forall>x \<in> set txs. \<exists>a \<in> set (sd_addresses due_address). \<exists>factory. deploy_tx small_deploy_env 1 factory due_address a x"
    using deployments_are_for_funded_addresses [of small_deploy_env 1 due_address] by blast
  have "sent (sw_worker due_address) = []" "sd_addresses due_address = [small_address 20 ''0xf'']"
    by (simp_all add: due_address_def small_sweep_def sample_worker_def)
  then obtain factory where f: "deploy_tx small_deploy_env 1 factory due_address (small_address 20 ''0xf'') x"
    using t d x(1) by auto
  then have "factory = ''0xa''" using x(2) unfolding deploy_tx_def by blast
  with f x(1) show ?thesis by blast
qed

end
