(* ===== verification/Detectors.thy ===== *)
theory Detectors
  imports Indexer
begin

text \<open>
  The detection of deposits (services/chain-indexer-service/src: polling-detector/polling-detector.service.ts,
  realtime-detector/realtime-detector.service.ts, address-registration/address-registration.handler.ts,
  reconciliation/reconciliation.service.ts). The tables and the Redis of the indexer are those of
  \<open>indexer\<close>; the tokens and chains of the wallet database and the monitoring modes of the clients stand
  beside them. The node, the decoded balances of a multicall, the time texts and which publications
  fail are the fields of the environments. The texts in the balance and head caches are those this code writes.
\<close>

section \<open>State\<close>

record mode_row =
  mo_client :: ident
  mo_chain :: int
  mo_mode :: string
  mo_active :: bool

record wallet_token =
  wk_id :: ident
  wk_chain :: int
  wk_contract :: string
  wk_native :: bool
  wk_active :: bool

record wallet_chain =
  wc_id :: int
  wc_confirmations :: int
  wc_active :: bool

record watcher =
  wt_ix :: indexer
  wt_modes :: "mode_row list"
  wt_tokens :: "wallet_token list"
  wt_chains :: "wallet_chain list"
  wt_memory :: "((int \<times> string) \<times> monitored_addr) list"
  wt_active :: "int list"
  wt_in_flight :: bool

definition on_ix :: "(indexer \<Rightarrow> indexer) \<Rightarrow> watcher \<Rightarrow> watcher" where
  "on_ix f st = st\<lparr>wt_ix := f (wt_ix st)\<rparr>"

text \<open>A later configuration of the same client and chain replaces an earlier one.\<close>

definition monitoring_mode :: "ident \<Rightarrow> int \<Rightarrow> watcher \<Rightarrow> string" where
  "monitoring_mode client chain st =
     (case map_of (rev (map (\<lambda>m. ((mo_client m, mo_chain m), mo_mode m)) (filter mo_active (wt_modes st)))) (client, chain) of
        None \<Rightarrow> ''hybrid'' | Some m \<Rightarrow> m)"

definition upsert_cursor :: "int \<Rightarrow> block_no \<Rightarrow> indexer \<Rightarrow> indexer" where
  "upsert_cursor chain n ix =
     (case find_cursor chain ix of
        None \<Rightarrow> ix\<lparr>ix_cursors := ix_cursors ix @ [\<lparr>sc_chain = chain, sc_last = n, sc_finalized = 0\<rparr>]\<rparr>
      | Some _ \<Rightarrow> ix\<lparr>ix_cursors := update_where (\<lambda>c. sc_chain c = chain) (\<lambda>c. c\<lparr>sc_last := n\<rparr>) (ix_cursors ix)\<rparr>)"

definition publish_detected :: "(string \<times> string) list \<Rightarrow> indexer \<Rightarrow> indexer" where
  "publish_detected fs ix = ix\<lparr>ix_stream := ix_stream ix @ [(''deposits:detected'', fs)]\<rparr>"

section \<open>Polling\<close>

type_synonym balances = "string \<Rightarrow> string option \<Rightarrow> int option"

record poll_env =
  pe_now :: millis
  pe_time :: string
  pe_provider :: "error + unit"
  pe_multicall :: "error + balances"
  pe_head :: "error + block_no"
  pe_cursor :: bool
  pe_block :: "block_no \<Rightarrow> error + chain_block option"
  pe_logs :: "string \<Rightarrow> string \<Rightarrow> block_no \<Rightarrow> block_no \<Rightarrow> error + (chain_log \<times> block_no) list"
  pe_published :: "(string \<times> string) list \<Rightarrow> bool"

type_synonym probe = "monitored_address \<times> string option"

definition BALANCE_TTL_MS :: int where "BALANCE_TTL_MS = 3600 * 1000"

definition token_text :: "string option \<Rightarrow> string" where
  "token_text tok = (case tok of None \<Rightarrow> ''native'' | Some t \<Rightarrow> t)"

definition balance_key :: "int \<Rightarrow> probe \<Rightarrow> string" where
  "balance_key chain p = ''balance:'' @ show_int chain @ '':'' @ adr_address (fst p) @ '':'' @ token_text (snd p)"

definition head_key :: "int \<Rightarrow> string" where
  "head_key chain = ''chainHead:'' @ show_int chain"

definition tail8 :: "string \<Rightarrow> string" where
  "tail8 s = lower (drop (length s - 8) s)"

definition synth_hash :: "block_no \<Rightarrow> probe \<Rightarrow> string" where
  "synth_hash n p = ''polling:'' @ show_int n @ '':'' @ tail8 (adr_address (fst p)) @ '':'' @ tail8 (token_text (snd p))"

text \<open>\<open>resolveTxHash\<close>: the newest block with a transfer to the address, or the last Transfer log; any exception
  gives nothing.\<close>

fun resolve_native :: "poll_env \<Rightarrow> string \<Rightarrow> block_no list \<Rightarrow> (string \<times> block_no \<times> string) option" where
  "resolve_native env a [] = None"
| "resolve_native env a (n # ns) =
     (case pe_block env n of
        Inl _ \<Rightarrow> None
      | Inr None \<Rightarrow> resolve_native env a ns
      | Inr (Some b) \<Rightarrow>
          (case find (\<lambda>t. (case tx_to t of None \<Rightarrow> False | Some x \<Rightarrow> lower x = lower a) \<and> 0 < tx_value t) (cb_txs b) of
             Some t \<Rightarrow> Some (tx_hash_of t, n, case tx_from t of None \<Rightarrow> ''unknown'' | Some f \<Rightarrow> f)
           | None \<Rightarrow> resolve_native env a ns))"

definition resolveTxHash :: "poll_env \<Rightarrow> probe \<Rightarrow> block_no \<Rightarrow> int \<Rightarrow> (string \<times> block_no \<times> string) option" where
  "resolveTxHash env p head lookback =
     (let from = max 0 (head - lookback) in
      case snd p of
        None \<Rightarrow> resolve_native env (adr_address (fst p)) (rev [from..head])
      | Some t \<Rightarrow>
          (case pe_logs env t (adr_address (fst p)) from head of
             Inl _ \<Rightarrow> None
           | Inr ls \<Rightarrow>
               if ls = [] then None
               else (case last ls of (l, n) \<Rightarrow>
                       if length (lg_topics l) < 2 then None
                       else Some (lg_tx l, n, ''0x'' @ drop 26 (lg_topics l ! 1)))))"

text \<open>The addresses to poll, and the balances that are asked for.\<close>

definition poll_addresses :: "int \<Rightarrow> watcher \<Rightarrow> monitored_address list" where
  "poll_addresses chain st =
     filter (\<lambda>a. adr_chain a = chain \<and> adr_active a \<and> monitoring_mode (ma_client (adr_info a)) chain st \<noteq> ''realtime'')
       (ix_monitored (wt_ix st))"

definition token_contracts :: "int \<Rightarrow> watcher \<Rightarrow> string list" where
  "token_contracts chain st =
     map wk_contract (filter (\<lambda>t. wk_chain t = chain \<and> wk_active t \<and> \<not> wk_native t) (wt_tokens st))"

definition probes :: "string list \<Rightarrow> monitored_address list \<Rightarrow> probe list" where
  "probes toks as = concat (map (\<lambda>a. (a, None) # map (\<lambda>t. (a, Some t)) toks) as)"

text \<open>A balance with the cached one, \<open>None\<close> when there was none.\<close>

record reading =
  rd_probe :: probe
  rd_balance :: int
  rd_cached :: "string option"

definition read_balances :: "millis \<Rightarrow> balances \<Rightarrow> int \<Rightarrow> probe list \<Rightarrow> indexer \<Rightarrow> reading list" where
  "read_balances now f chain ps ix =
     concat (map (\<lambda>p. case f (adr_address (fst p)) (snd p) of
         None \<Rightarrow> []
       | Some b \<Rightarrow> [\<lparr>rd_probe = p, rd_balance = b, rd_cached = rget now (ix_redis ix) (balance_key chain p)\<rparr>]) ps)"

definition cached_value :: "string option \<Rightarrow> int" where
  "cached_value c = (case or_null c of None \<Rightarrow> 0 | Some s \<Rightarrow> (case big_int s of None \<Rightarrow> 0 | Some n \<Rightarrow> n))"

definition cache_readings :: "millis \<Rightarrow> int \<Rightarrow> reading list \<Rightarrow> indexer \<Rightarrow> indexer" where
  "cache_readings now chain rs ix =
     fold (\<lambda>r. redis_set now (balance_key chain (rd_probe r)) (show_int (rd_balance r)) (Some BALANCE_TTL_MS)) rs ix"

definition polled_event :: "poll_env \<Rightarrow> int \<Rightarrow> block_no \<Rightarrow> reading \<Rightarrow> (string \<times> string) list" where
  "polled_event env chain head r =
     (let p = rd_probe r; a = fst p;
          found = (if rd_cached r = None then None else resolveTxHash env p head 10);
          (h, n, from) = (case found of Some x \<Rightarrow> x | None \<Rightarrow> (synth_hash head p, head, ''unknown''))
      in [(''chainId'', show_int chain), (''txHash'', h), (''blockNumber'', show_int n), (''fromAddress'', from),
          (''toAddress'', adr_address a), (''contractAddress'', token_text (snd p)),
          (''amount'', show_int (rd_balance r - cached_value (rd_cached r))),
          (''clientId'', show_int (ma_client (adr_info a))), (''walletId'', show_int (ma_wallet (adr_info a))),
          (''detectedAt'', pe_time env), (''source'', ''polling'')])"

fun emit_polled :: "poll_env \<Rightarrow> int \<Rightarrow> block_no \<Rightarrow> reading list \<Rightarrow> indexer \<Rightarrow> (error + unit) \<times> indexer" where
  "emit_polled env chain head [] ix = (Inr (), ix)"
| "emit_polled env chain head (r # rs) ix =
     (if cached_value (rd_cached r) < rd_balance r
      then (if pe_published env (polled_event env chain head r)
            then emit_polled env chain head rs (publish_detected (polled_event env chain head r) ix)
            else (Inl (InternalError ''redis''), ix))
      else emit_polled env chain head rs ix)"

text \<open>The chain's head: cached for 25 s, else asked for, else the cursor's.\<close>

definition poll_head :: "poll_env \<Rightarrow> int \<Rightarrow> indexer \<Rightarrow> block_no \<times> indexer" where
  "poll_head env chain ix =
     (case or_null (rget (pe_now env) (ix_redis ix) (head_key chain)) of
        Some s \<Rightarrow> (case parse_int s of None \<Rightarrow> 0 | Some n \<Rightarrow> n, ix)
      | None \<Rightarrow>
          (case pe_head env of
             Inr n \<Rightarrow> (n, redis_set (pe_now env) (head_key chain) (show_int n) (Some 25000) ix)
           | Inl _ \<Rightarrow> (case find_cursor chain ix of None \<Rightarrow> 0 | Some c \<Rightarrow> sc_last c, ix)))"

definition pollChain :: "poll_env \<Rightarrow> int \<Rightarrow> watcher \<Rightarrow> (error + unit) \<times> watcher" where
  "pollChain env chain st =
     (let as = poll_addresses chain st in
      if as = [] then (Inr (), st)
      else
     (case pe_provider env of
        Inl e \<Rightarrow> (Inl e, st)
      | Inr _ \<Rightarrow>
     (case find (\<lambda>c. wc_id c = chain) (wt_chains st) of
        None \<Rightarrow> (Inr (), st)
      | Some _ \<Rightarrow>
     (case pe_multicall env of
        Inl e \<Rightarrow> (Inl e, st)
      | Inr f \<Rightarrow>
          (case poll_head env chain (wt_ix st) of (head, ix1) \<Rightarrow>
             let ix2 = (if pe_cursor env then upsert_cursor chain head ix1 else ix1);
                 rs = read_balances (pe_now env) f chain (probes (token_contracts chain st) as) ix2;
                 ix3 = cache_readings (pe_now env) chain rs ix2
             in (case emit_polled env chain head rs ix3 of (r, ix4) \<Rightarrow> (r, st\<lparr>wt_ix := ix4\<rparr>)))))))"

text \<open>The chains of a cycle, one after the other; one that takes longer than its 120 s loses the race, its
  effects stand.\<close>

definition runPollingCycle :: "(int \<Rightarrow> poll_env) \<Rightarrow> watcher \<Rightarrow> watcher" where
  "runPollingCycle envs st =
     (if wt_in_flight st then st
      else fold (\<lambda>c s. snd (pollChain (envs c) c s))
        (remdups (map wc_id (filter (\<lambda>c. wc_active c
            \<and> list_ex (\<lambda>a. adr_chain a = wc_id c \<and> adr_active a) (ix_monitored (wt_ix st))) (wt_chains st)))) st)"

section \<open>Watching new blocks\<close>

record realtime_env =
  re_time :: string
  re_now :: millis
  re_provider :: "error + unit"
  re_logs :: "error + chain_log list"
  re_block :: "error + chain_block option"
  re_header :: "error + string option"
  re_getAddress :: "string \<Rightarrow> error + string"
  re_published :: "(string \<times> string) list \<Rightarrow> bool"

record detected_deposit =
  dd_tx :: string
  dd_block :: block_no
  dd_from :: string
  dd_to :: string
  dd_contract :: "string option"
  dd_amount :: string
  dd_client :: ident
  dd_wallet :: ident

definition loadMonitoredAddresses :: "watcher \<Rightarrow> watcher" where
  "loadMonitoredAddresses st =
     (let m = map (\<lambda>a. ((adr_chain a, lower (adr_address a)), adr_info a))
                (filter (\<lambda>a. adr_active a \<and> monitoring_mode (ma_client (adr_info a)) (adr_chain a) st \<noteq> ''polling'')
                  (ix_monitored (wt_ix st)))
      in st\<lparr>wt_memory := m, wt_active := remdups (map (fst \<circ> fst) m)\<rparr>)"

definition watched :: "watcher \<Rightarrow> int \<Rightarrow> string \<Rightarrow> monitored_addr option" where
  "watched st chain a = map_of (rev (wt_memory st)) (chain, lower a)"

definition log_amount :: "string \<Rightarrow> error + string" where
  "log_amount d =
     (if d = [] \<or> d = ''0x'' then Inr ''0''
      else (case big_hex d of None \<Rightarrow> Inl (InternalError ''SyntaxError'') | Some n \<Rightarrow> Inr (show_int n)))"

text \<open>An exception on one log ends the scan and with it the block.\<close>

fun scanERC20Transfers :: "realtime_env \<Rightarrow> watcher \<Rightarrow> int \<Rightarrow> block_no \<Rightarrow> chain_log list \<Rightarrow> error + detected_deposit list" where
  "scanERC20Transfers env st chain n [] = Inr []"
| "scanERC20Transfers env st chain n (l # ls) =
     (if length (lg_topics l) < 3 then scanERC20Transfers env st chain n ls
      else
     (case re_getAddress env (''0x'' @ drop 26 (lg_topics l ! 2)) of
        Inl e \<Rightarrow> Inl e
      | Inr to \<Rightarrow>
     (case watched st chain to of
        None \<Rightarrow> scanERC20Transfers env st chain n ls
      | Some who \<Rightarrow>
     (case re_getAddress env (''0x'' @ drop 26 (lg_topics l ! 1)) of
        Inl e \<Rightarrow> Inl e
      | Inr from \<Rightarrow>
     (case log_amount (lg_data l) of
        Inl e \<Rightarrow> Inl e
      | Inr amount \<Rightarrow>
          map_sum id (\<lambda>ds. \<lparr>dd_tx = lg_tx l, dd_block = n, dd_from = from, dd_to = to, dd_contract = Some (lg_address l),
              dd_amount = amount, dd_client = ma_client who, dd_wallet = ma_wallet who\<rparr> # ds)
            (scanERC20Transfers env st chain n ls))))))"

definition native_deposit :: "watcher \<Rightarrow> int \<Rightarrow> block_no \<Rightarrow> chain_tx \<Rightarrow> detected_deposit list" where
  "native_deposit st chain n t =
     (case or_null (tx_to t) of
        None \<Rightarrow> []
      | Some a \<Rightarrow>
          if tx_value t = 0 then []
          else (case watched st chain a of
                  None \<Rightarrow> []
                | Some who \<Rightarrow>
                    [\<lparr>dd_tx = tx_hash_of t, dd_block = n, dd_from = (case tx_from t of None \<Rightarrow> [] | Some f \<Rightarrow> f), dd_to = a,
                      dd_contract = None, dd_amount = show_int (tx_value t), dd_client = ma_client who, dd_wallet = ma_wallet who\<rparr>]))"

definition scanNativeTransfers :: "watcher \<Rightarrow> int \<Rightarrow> block_no \<Rightarrow> chain_block option \<Rightarrow> detected_deposit list" where
  "scanNativeTransfers st chain n b =
     (case b of None \<Rightarrow> [] | Some blk \<Rightarrow> concat (map (native_deposit st chain n) (cb_txs blk)))"

definition detected_event :: "string \<Rightarrow> int \<Rightarrow> detected_deposit \<Rightarrow> (string \<times> string) list" where
  "detected_event now chain d =
     [(''chainId'', show_int chain), (''txHash'', dd_tx d), (''blockNumber'', show_int (dd_block d)), (''fromAddress'', dd_from d),
      (''toAddress'', dd_to d), (''contractAddress'', token_text (dd_contract d)), (''amount'', dd_amount d),
      (''clientId'', show_int (dd_client d)), (''walletId'', show_int (dd_wallet d)), (''detectedAt'', now)]"

text \<open>All publications are started; one that fails fails the block, the others stand.\<close>

definition realtime_processBlock :: "realtime_env \<Rightarrow> int \<Rightarrow> block_no \<Rightarrow> watcher \<Rightarrow> (error + detected_deposit list) \<times> watcher" where
  "realtime_processBlock env chain n st =
     (case re_provider env of
        Inl e \<Rightarrow> (Inl e, st)
      | Inr _ \<Rightarrow>
     (case re_logs env of
        Inl e \<Rightarrow> (Inl e, st)
      | Inr ls \<Rightarrow>
     (case scanERC20Transfers env st chain n ls of
        Inl e \<Rightarrow> (Inl e, st)
      | Inr erc \<Rightarrow>
     (case re_block env of
        Inl e \<Rightarrow> (Inl e, st)
      | Inr b \<Rightarrow>
     (case re_header env of
        Inl e \<Rightarrow> (Inl e, st)
      | Inr h \<Rightarrow>
          let ds = erc @ scanNativeTransfers st chain n b;
              es = map (detected_event (re_time env) chain) ds;
              ix1 = (case h of None \<Rightarrow> wt_ix st | Some x \<Rightarrow> redis_set (re_now env) (hash_key chain n) x (Some DAY_MS) (wt_ix st));
              ix2 = fold publish_detected (filter (re_published env) es) ix1
          in if list_all (re_published env) es
             then (Inr ds, st\<lparr>wt_ix := upsert_cursor chain n ix2\<rparr>)
             else (Inl (InternalError ''redis''), st\<lparr>wt_ix := ix2\<rparr>))))))"

section \<open>Registering an address\<close>

definition register_row :: "int \<Rightarrow> string \<Rightarrow> monitored_addr \<Rightarrow> block_no \<Rightarrow> monitored_address list \<Rightarrow> monitored_address list" where
  "register_row chain a who head rows =
     (if list_ex (\<lambda>r. adr_chain r = chain \<and> sql_eq (adr_address r) a) rows
      then update_where (\<lambda>r. adr_chain r = chain \<and> sql_eq (adr_address r) a) (\<lambda>r. r\<lparr>adr_info := who, adr_active := True\<rparr>) rows
      else rows @ [\<lparr>adr_chain = chain, adr_address = a, adr_info = who, adr_start = head, adr_active = True\<rparr>])"

definition field_id :: "(string \<times> string) list \<Rightarrow> string \<Rightarrow> ident option" where
  "field_id data k = (case map_of data k of None \<Rightarrow> None | Some s \<Rightarrow> if s = [] then Some 0 else big_int s)"

text \<open>\<open>handleEntry\<close> of the registration stream; \<open>head\<close> is what the provider answers.\<close>

definition registerAddress :: "error + block_no \<Rightarrow> (string \<times> string) list \<Rightarrow> watcher \<Rightarrow> (error + unit) \<times> watcher" where
  "registerAddress head data st =
     (case (field_id data ''clientId'', field_id data ''projectId'', field_id data ''walletId'') of
        (Some client, Some project, Some wallet) \<Rightarrow>
          (case (field_id data ''chainId'', or_null (map_option lower (map_of data ''address''))) of
             (Some chain, Some a) \<Rightarrow>
               if chain = 0 then (Inr (), st)
               else
              (case head of
                 Inl e \<Rightarrow> (Inl e, st)
               | Inr n \<Rightarrow>
                   let who = \<lparr>ma_client = client, ma_project = project, ma_wallet = wallet\<rparr>;
                       ix1 = (wt_ix st)\<lparr>ix_monitored := register_row chain a who n (ix_monitored (wt_ix st))\<rparr>;
                       ix2 = (case find_cursor chain ix1 of None \<Rightarrow> upsert_cursor chain (n - 1) ix1 | Some _ \<Rightarrow> ix1)
                   in (Inr (), st\<lparr>wt_ix := invalidateCache chain ix2\<rparr>))
           | _ \<Rightarrow> (Inr (), st))
      | _ \<Rightarrow> (Inl (InternalError ''SyntaxError''), st))"

section \<open>Reconciliation\<close>

definition ADDRESS_BATCH_SIZE :: nat where "ADDRESS_BATCH_SIZE = 1000"
definition MAX_CHAIN_RUNTIME_MS :: int where "MAX_CHAIN_RUNTIME_MS = 5 * 60 * 1000"

record reconcile_chain_env =
  rc_now :: millis
  rc_provider :: "error + unit"
  rc_elapsed :: "nat \<Rightarrow> int"
  rc_balances :: "nat \<Rightarrow> error + balances"

record discrepancy =
  di_address :: string
  di_token :: "string option"
  di_onchain :: int
  di_cached :: int

definition watermark_key :: "int \<Rightarrow> string" where
  "watermark_key chain = ''reconciliation:watermark:'' @ show_int chain"

definition getWatermark :: "millis \<Rightarrow> int \<Rightarrow> indexer \<Rightarrow> nat option" where
  "getWatermark now chain ix =
     (case rget now (ix_redis ix) (watermark_key chain) of
        None \<Rightarrow> None | Some s \<Rightarrow> (case parse_int s of None \<Rightarrow> None | Some n \<Rightarrow> Some (nat n)))"

definition setWatermark :: "millis \<Rightarrow> int \<Rightarrow> nat \<Rightarrow> indexer \<Rightarrow> indexer" where
  "setWatermark now chain n ix = redis_set now (watermark_key chain) (show_int (int n)) None ix"

definition check_reading :: "millis \<Rightarrow> balances \<Rightarrow> int \<Rightarrow> probe \<Rightarrow> discrepancy list \<times> indexer \<Rightarrow> discrepancy list \<times> indexer" where
  "check_reading now f chain p s =
     (case s of (ds, ix) \<Rightarrow>
      case f (adr_address (fst p)) (snd p) of
        None \<Rightarrow> (ds, ix)
      | Some b \<Rightarrow>
          let c = cached_value (rget now (ix_redis ix) (balance_key chain p))
          in ((if b \<noteq> c
               then ds @ [\<lparr>di_address = adr_address (fst p), di_token = snd p, di_onchain = b, di_cached = c\<rparr>] else ds),
              redis_set now (balance_key chain p) (show_int b) (Some BALANCE_TTL_MS) ix))"

text \<open>The loop over the batches; the flag says whether it ran out of time.\<close>

function reconcile_batches ::
    "reconcile_chain_env \<Rightarrow> int \<Rightarrow> string list \<Rightarrow> monitored_address list \<Rightarrow> nat \<Rightarrow> discrepancy list \<times> indexer
     \<Rightarrow> (error + discrepancy list \<times> bool) \<times> indexer" where
  "reconcile_batches env chain toks as i s =
     (if length as \<le> i then (Inr (fst s, False), snd s)
      else if MAX_CHAIN_RUNTIME_MS \<le> rc_elapsed env i
      then (Inr (fst s, True), setWatermark (rc_now env) chain i (snd s))
      else (case rc_balances env i of
              Inl e \<Rightarrow> (Inl e, snd s)
            | Inr f \<Rightarrow>
                reconcile_batches env chain toks as (i + ADDRESS_BATCH_SIZE)
                  (fold (check_reading (rc_now env) f chain) (probes toks (take ADDRESS_BATCH_SIZE (drop i as))) s)))"
  by pat_completeness auto
termination
  by (relation "measure (\<lambda>(env, chain, toks, as, i, s). length as - i)") (auto simp: ADDRESS_BATCH_SIZE_def)

declare reconcile_batches.simps [simp del]

definition reconcileChain :: "reconcile_chain_env \<Rightarrow> int \<Rightarrow> watcher \<Rightarrow> (error + discrepancy list) \<times> watcher" where
  "reconcileChain env chain st =
     (let as = filter (\<lambda>a. adr_chain a = chain \<and> adr_active a) (ix_monitored (wt_ix st)) in
      if as = [] then (Inr [], st)
      else
     (case rc_provider env of
        Inl e \<Rightarrow> (Inl e, st)
      | Inr _ \<Rightarrow>
     (case find (\<lambda>c. wc_id c = chain) (wt_chains st) of
        None \<Rightarrow> (Inr [], st)
      | Some _ \<Rightarrow>
          let w = (case getWatermark (rc_now env) chain (wt_ix st) of None \<Rightarrow> 0 | Some n \<Rightarrow> n);
              start = (if length as \<le> w then 0 else w)
          in (case reconcile_batches env chain (token_contracts chain st) as start ([], wt_ix st) of
                (Inl e, ix) \<Rightarrow> (Inl e, st\<lparr>wt_ix := ix\<rparr>)
              | (Inr (ds, timedOut), ix) \<Rightarrow>
                  (Inr ds, st\<lparr>wt_ix := if timedOut then ix else setWatermark (rc_now env) chain (length as) ix\<rparr>)))))"

definition discrepancy_event :: "string \<Rightarrow> int \<times> discrepancy \<Rightarrow> (string \<times> string) list" where
  "discrepancy_event now x =
     (case x of (chain, d) \<Rightarrow>
       [(''chainId'', show_int chain), (''address'', di_address d), (''tokenAddress'', token_text (di_token d)),
        (''onChainBalance'', show_int (di_onchain d)), (''cachedBalance'', show_int (di_cached d)),
        (''difference'', show_int (di_onchain d - di_cached d)), (''timestamp'', now)])"

definition reconcile_chain_step ::
    "(int \<Rightarrow> reconcile_chain_env) \<Rightarrow> int \<Rightarrow> (int \<times> discrepancy) list \<times> watcher \<Rightarrow> (int \<times> discrepancy) list \<times> watcher" where
  "reconcile_chain_step envs chain s =
     (case reconcileChain (envs chain) chain (snd s) of
        (Inl e, st) \<Rightarrow> (fst s, st)
      | (Inr ds, st) \<Rightarrow> (fst s @ map (\<lambda>d. (chain, d)) ds, st))"

definition runReconciliation :: "string \<Rightarrow> (int \<Rightarrow> reconcile_chain_env) \<Rightarrow> watcher \<Rightarrow> (int \<times> discrepancy) list \<times> watcher" where
  "runReconciliation now envs st =
     (case fold (reconcile_chain_step envs) (map ch_id (filter ch_active (ix_chains (wt_ix st)))) ([], st) of
        (ds, st1) \<Rightarrow>
          (ds, on_ix (\<lambda>ix. ix\<lparr>ix_stream := ix_stream ix @ map (\<lambda>x. (''reconciliation:discrepancies'', discrepancy_event now x)) ds\<rparr>) st1))"

section \<open>Balances in the cache\<close>

definition plain_probe :: "probe \<Rightarrow> bool" where
  "plain_probe p \<longleftrightarrow> CHR '':'' \<notin> set (adr_address (fst p)) \<and> snd p \<noteq> Some ''native''"

definition plain_tables :: "watcher \<Rightarrow> bool" where
  "plain_tables st \<longleftrightarrow> list_all (\<lambda>a. CHR '':'' \<notin> set (adr_address a)) (ix_monitored (wt_ix st))
     \<and> list_all (\<lambda>t. wk_contract t \<noteq> ''native'') (wt_tokens st)"

lemma colon_split: "CHR '':'' \<notin> set a \<Longrightarrow> CHR '':'' \<notin> set b \<Longrightarrow> a @ CHR '':'' # x = b @ CHR '':'' # y \<longleftrightarrow> a = b \<and> x = y"
proof (induction a arbitrary: b)
  case Nil
  then show ?case by (cases b) auto
next
  case (Cons c a)
  then show ?case by (cases b) auto
qed

lemma balance_key_inj:
  assumes "plain_probe p" "plain_probe q"
  shows "balance_key chain p = balance_key chain q \<longleftrightarrow> adr_address (fst p) = adr_address (fst q) \<and> snd p = snd q"
  using assms by (auto simp: balance_key_def plain_probe_def colon_split token_text_def split: option.splits)

lemma head_key_differs [simp]: "head_key c = balance_key chain p \<longleftrightarrow> False" "balance_key chain p = head_key c \<longleftrightarrow> False"
  by (simp_all add: head_key_def balance_key_def)

lemma ix_redis_set [simp]: "ix_redis (redis_set now k v ttl ix) = rset now k v ttl (ix_redis ix)"
  and ix_redis_cursor [simp]: "ix_redis (upsert_cursor chain n ix) = ix_redis ix"
  and ix_redis_publish [simp]: "ix_redis (publish_detected fs ix) = ix_redis ix"
  by (simp_all add: redis_set_def upsert_cursor_def publish_detected_def split: option.split)

lemma ix_stream_frames [simp]:
  "ix_stream (redis_set now k v ttl ix) = ix_stream ix" "ix_stream (upsert_cursor chain n ix) = ix_stream ix"
  "ix_stream (publish_detected fs ix) = ix_stream ix @ [(''deposits:detected'', fs)]"
  "ix_stream (cache_readings now chain rs ix) = ix_stream ix"
proof -
  show "ix_stream (cache_readings now chain rs ix) = ix_stream ix"
    unfolding cache_readings_def by (induction rs arbitrary: ix) (simp_all add: redis_set_def)
qed (simp_all add: redis_set_def upsert_cursor_def publish_detected_def split: option.split)

lemma cached_show [simp]: "cached_value (Some (show_int n)) = n" "cached_value None = 0"
  by (simp_all add: cached_value_def or_null_def)

lemma get_cached:
  assumes "\<And>r. r \<in> set rs \<Longrightarrow> balance_key chain (rd_probe r) = k \<Longrightarrow> rd_balance r = b"
  shows "rget t (ix_redis (cache_readings now chain rs ix)) k
    = (if \<exists>r \<in> set rs. balance_key chain (rd_probe r) = k
       then (if t < now + BALANCE_TTL_MS then Some (show_int b) else None) else rget t (ix_redis ix) k)"
  using assms unfolding cache_readings_def
proof (induction rs rule: rev_induct)
  case (snoc r rs)
  show ?case
  proof (cases "balance_key chain (rd_probe r) = k")
    case True
    then have "rd_balance r = b" using snoc.prems by simp
    then show ?thesis using True by (simp add: kv.get_put)
  next
    case False
    then show ?thesis using snoc by (auto simp: kv.get_put)
  qed
qed simp

lemma set_probes: "p \<in> set (probes toks as) \<longleftrightarrow> fst p \<in> set as \<and> (snd p = None \<or> (\<exists>t \<in> set toks. snd p = Some t))"
  by (cases p) (auto simp: probes_def)

lemma plain_probes:
  assumes "plain_tables st" "p \<in> set (probes (token_contracts chain st) as)" "set as \<subseteq> set (ix_monitored (wt_ix st))"
  shows "plain_probe p"
  using assms by (auto simp: set_probes plain_tables_def plain_probe_def list_all_iff token_contracts_def)

lemma set_read_balances:
  "r \<in> set (read_balances now f chain ps ix) \<longleftrightarrow>
     (\<exists>p \<in> set ps. \<exists>b. f (adr_address (fst p)) (snd p) = Some b
        \<and> r = \<lparr>rd_probe = p, rd_balance = b, rd_cached = rget now (ix_redis ix) (balance_key chain p)\<rparr>)"
  by (force simp: read_balances_def split: option.splits)

lemma read_balances_cong:
  "(\<And>p. p \<in> set ps \<Longrightarrow> rget now (ix_redis ix) (balance_key chain p) = rget now (ix_redis ix') (balance_key chain p)) \<Longrightarrow>
     read_balances now f chain ps ix = read_balances now f chain ps ix'"
  unfolding read_balances_def by (rule arg_cong [where f = concat], rule map_cong) (auto split: option.split)

definition increased :: "reading \<Rightarrow> bool" where
  "increased r \<longleftrightarrow> cached_value (rd_cached r) < rd_balance r"

lemma emit_polled_ok:
  "list_all (\<lambda>r. pe_published env (polled_event env chain head r)) (filter increased rs) \<Longrightarrow>
     fst (emit_polled env chain head rs ix) = Inr ()
     \<and> ix_stream (snd (emit_polled env chain head rs ix))
       = ix_stream ix @ map (\<lambda>r. (''deposits:detected'', polled_event env chain head r)) (filter increased rs)
     \<and> ix_redis (snd (emit_polled env chain head rs ix)) = ix_redis ix"
  by (induction rs arbitrary: ix) (auto simp: increased_def)

lemma poll_head_frames [simp]:
  "rget t (ix_redis (snd (poll_head env chain ix))) (balance_key c p) = rget t (ix_redis ix) (balance_key c p)"
  "ix_stream (snd (poll_head env chain ix)) = ix_stream ix"
  by (auto simp: poll_head_def kv.get_put split: option.split sum.split)

text \<open>A poll that can read the balances.\<close>

definition poll_reads :: "poll_env \<Rightarrow> int \<Rightarrow> watcher \<Rightarrow> balances \<Rightarrow> bool" where
  "poll_reads env chain st f \<longleftrightarrow>
     pe_provider env = Inr () \<and> list_ex (\<lambda>c. wc_id c = chain) (wt_chains st) \<and> pe_multicall env = Inr f"

definition poll_readings :: "millis \<Rightarrow> balances \<Rightarrow> int \<Rightarrow> watcher \<Rightarrow> reading list" where
  "poll_readings now f chain st =
     read_balances now f chain (probes (token_contracts chain st) (poll_addresses chain st)) (wt_ix st)"

lemma pollChain_ok:
  assumes "poll_reads env chain st f"
    and "list_all (\<lambda>r. pe_published env (polled_event env chain (fst (poll_head env chain (wt_ix st))) r))
      (filter increased (poll_readings (pe_now env) f chain st))"
  shows "fst (pollChain env chain st) = Inr ()
    \<and> ix_stream (wt_ix (snd (pollChain env chain st))) = ix_stream (wt_ix st)
        @ map (\<lambda>r. (''deposits:detected'', polled_event env chain (fst (poll_head env chain (wt_ix st))) r))
            (filter increased (poll_readings (pe_now env) f chain st))
    \<and> (poll_addresses chain st \<noteq> [] \<longrightarrow>
        (\<forall>t k. k \<noteq> head_key chain \<longrightarrow> rget t (ix_redis (wt_ix (snd (pollChain env chain st)))) k
           = rget t (ix_redis (cache_readings (pe_now env) chain (poll_readings (pe_now env) f chain st) (wt_ix st))) k))"
proof (cases "poll_addresses chain st = []")
  case True
  then show ?thesis by (simp add: pollChain_def poll_readings_def probes_def read_balances_def)
next
  case False
  obtain head ix1 where h: "poll_head env chain (wt_ix st) = (head, ix1)" by (cases "poll_head env chain (wt_ix st)")
  obtain c where c: "find (\<lambda>c. wc_id c = chain) (wt_chains st) = Some c"
    using assms(1) unfolding poll_reads_def list_ex_iff by (cases "find (\<lambda>c. wc_id c = chain) (wt_chains st)") (auto simp: find_None_iff)
  let ?ix2 = "if pe_cursor env then upsert_cursor chain head ix1 else ix1"
  have same: "rget t (ix_redis ?ix2) (balance_key c p) = rget t (ix_redis (wt_ix st)) (balance_key c p)" for t c p
    using poll_head_frames(1) [of t env chain "wt_ix st" c p] h by simp
  have rs: "read_balances (pe_now env) f chain (probes (token_contracts chain st) (poll_addresses chain st)) ?ix2
      = poll_readings (pe_now env) f chain st"
    unfolding poll_readings_def by (rule read_balances_cong) (rule same)
  have stream: "ix_stream ?ix2 = ix_stream (wt_ix st)"
    using poll_head_frames(2) [of env chain "wt_ix st"] h by simp
  note e = emit_polled_ok [OF assms(2), of "cache_readings (pe_now env) chain (poll_readings (pe_now env) f chain st) ?ix2"]
  have p: "pollChain env chain st = (case emit_polled env chain head (poll_readings (pe_now env) f chain st)
      (cache_readings (pe_now env) chain (poll_readings (pe_now env) f chain st) ?ix2) of (r, ix4) \<Rightarrow> (r, st\<lparr>wt_ix := ix4\<rparr>))"
    using False assms(1) c h unfolding poll_reads_def by (simp add: pollChain_def Let_def rs del: if_split)
  have other: "rget t (ix_redis (cache_readings now chain rs ix)) k = rget t (ix_redis (cache_readings now chain rs ix')) k"
    if "rget t (ix_redis ix) k = rget t (ix_redis ix') k" for t k now rs ix ix'
    unfolding cache_readings_def using that
    by (induction rs arbitrary: ix ix') (simp_all add: kv.get_put)
  have hk: "rget t (ix_redis ix1) k = rget t (ix_redis (wt_ix st)) k" if "k \<noteq> head_key chain" for t k
    using that h by (auto simp: poll_head_def kv.get_put split: option.splits sum.splits)
  show ?thesis
    using e h unfolding p by (auto simp: case_prod_beta stream intro!: other hk)
qed

section \<open>What polling publishes\<close>

lemma cached_after_poll:
  assumes "poll_reads env chain st f" "pe_published env = (\<lambda>_. True)" "plain_tables st"
    and p: "p \<in> set (probes (token_contracts chain st) (poll_addresses chain st))" and b: "f (adr_address (fst p)) (snd p) = Some b"
  shows "rget t (ix_redis (wt_ix (snd (pollChain env chain st)))) (balance_key chain p)
    = (if t < pe_now env + BALANCE_TTL_MS then Some (show_int b) else None)"
proof -
  have pub: "list_all (\<lambda>r. pe_published env (polled_event env chain (fst (poll_head env chain (wt_ix st))) r))
      (filter increased (poll_readings (pe_now env) f chain st))"
    using assms(2) by (simp add: list_all_iff)
  have sub: "set (poll_addresses chain st) \<subseteq> set (ix_monitored (wt_ix st))" by (auto simp: poll_addresses_def)
  have plain: "plain_probe q" if "q \<in> set (probes (token_contracts chain st) (poll_addresses chain st))" for q
    using plain_probes [OF assms(3) that sub] .
  have "poll_addresses chain st \<noteq> []" using p by (auto simp: probes_def)
  then have "rget t (ix_redis (wt_ix (snd (pollChain env chain st)))) (balance_key chain p)
      = rget t (ix_redis (cache_readings (pe_now env) chain (poll_readings (pe_now env) f chain st) (wt_ix st))) (balance_key chain p)"
    using pollChain_ok [OF assms(1) pub] by simp
  also have "\<dots> = (if t < pe_now env + BALANCE_TTL_MS then Some (show_int b) else None)"
  proof (subst get_cached [where b = b])
    fix r assume r: "r \<in> set (poll_readings (pe_now env) f chain st)" "balance_key chain (rd_probe r) = balance_key chain p"
    then obtain q c where q: "q \<in> set (probes (token_contracts chain st) (poll_addresses chain st))"
      "f (adr_address (fst q)) (snd q) = Some c" "rd_probe r = q" "rd_balance r = c"
      unfolding poll_readings_def set_read_balances by force
    then show "rd_balance r = b" using r(2) b balance_key_inj [OF plain [OF q(1)] plain [OF p]] by simp
  next
    have "\<exists>r \<in> set (poll_readings (pe_now env) f chain st). balance_key chain (rd_probe r) = balance_key chain p"
      unfolding poll_readings_def using p b by (intro bexI [of _ "\<lparr>rd_probe = p, rd_balance = b,
          rd_cached = rget (pe_now env) (ix_redis (wt_ix st)) (balance_key chain p)\<rparr>"]) (auto simp: set_read_balances)
    then show "(if \<exists>r \<in> set (poll_readings (pe_now env) f chain st). balance_key chain (rd_probe r) = balance_key chain p
        then (if t < pe_now env + BALANCE_TTL_MS then Some (show_int b) else None)
        else rget t (ix_redis (wt_ix st)) (balance_key chain p)) = (if t < pe_now env + BALANCE_TTL_MS then Some (show_int b) else None)"
      by simp
  qed
  finally show ?thesis .
qed

text \<open>After an hour without a poll the balance counts as new: its reading has no cached value, so the whole balance is
  an increase, under a made-up hash of its own.\<close>

lemma expired_balance_is_new:
  assumes "poll_reads env chain st f" "pe_published env = (\<lambda>_. True)" "plain_tables st"
    and "p \<in> set (probes (token_contracts chain st) (poll_addresses chain st))" "f (adr_address (fst p)) (snd p) = Some b"
    and "pe_now env + BALANCE_TTL_MS \<le> t" "g (adr_address (fst p)) (snd p) = Some b" "0 < b"
  shows "\<exists>r \<in> set (read_balances t g chain [p] (wt_ix (snd (pollChain env chain st)))). increased r \<and> rd_balance r = b \<and> rd_cached r = None"
  using cached_after_poll [OF assms(1-5), of t] assms(6-8) by (simp add: read_balances_def increased_def)

text \<open>A poll publishes every increase: when it can read the balances, it publishes one event for each
  balance that is above the cached one, in the order of the addresses and tokens, with the difference as its amount,
  and no other; then every balance it read is in the cache for the next hour.\<close>

lemma poll_publishes_every_increase:
  assumes "poll_reads env chain st f" "pe_published env = (\<lambda>_. True)" "plain_tables st"
  shows "fst (pollChain env chain st) = Inr ()
    \<and> ix_stream (wt_ix (snd (pollChain env chain st))) = ix_stream (wt_ix st)
        @ map (\<lambda>r. (''deposits:detected'', polled_event env chain (fst (poll_head env chain (wt_ix st))) r))
            (filter (\<lambda>r. cached_value (rd_cached r) < rd_balance r) (poll_readings (pe_now env) f chain st))
    \<and> (\<forall>p \<in> set (probes (token_contracts chain st) (poll_addresses chain st)). \<forall>b t.
          f (adr_address (fst p)) (snd p) = Some b \<and> t < pe_now env + BALANCE_TTL_MS
          \<longrightarrow> rget t (ix_redis (wt_ix (snd (pollChain env chain st)))) (balance_key chain p) = Some (show_int b))"
proof -
  have pub: "list_all (\<lambda>r. pe_published env (polled_event env chain (fst (poll_head env chain (wt_ix st))) r))
      (filter increased (poll_readings (pe_now env) f chain st))"
    using assms(2) by (simp add: list_all_iff)
  show ?thesis
    using pollChain_ok [OF assms(1) pub] cached_after_poll [OF assms] unfolding increased_def by simp
qed

section \<open>What a reconciliation hides\<close>

lemma check_reading_snd:
  "snd (check_reading now f chain p s) = (case f (adr_address (fst p)) (snd p) of
      None \<Rightarrow> snd s | Some b \<Rightarrow> redis_set now (balance_key chain p) (show_int b) (Some BALANCE_TTL_MS) (snd s))"
  by (simp add: check_reading_def case_prod_beta Let_def split: option.split)

lemma check_readings_stream: "ix_stream (snd (fold (check_reading now f chain) ps s)) = ix_stream (snd s)"
  by (induction ps arbitrary: s) (simp_all add: check_reading_def case_prod_beta Let_def split: option.split)

lemma check_readings_rest:
  "(ix_monitored (snd (fold (check_reading now f chain) ps s)) = ix_monitored (snd s))"
  by (induction ps arbitrary: s) (simp_all add: check_reading_def redis_set_def case_prod_beta Let_def split: option.split)

lemma get_checked:
  assumes "list_all plain_probe ps" "plain_probe p" "f (adr_address (fst p)) (snd p) = Some b"
  shows "rget t (ix_redis (snd (fold (check_reading now f chain) ps s))) (balance_key chain p)
    = (if \<exists>q \<in> set ps. adr_address (fst q) = adr_address (fst p) \<and> snd q = snd p
       then (if t < now + BALANCE_TTL_MS then Some (show_int b) else None)
       else rget t (ix_redis (snd s)) (balance_key chain p))"
  using assms(1)
proof (induction ps rule: rev_induct)
  case (snoc q ps)
  show ?case
  proof (cases "adr_address (fst q) = adr_address (fst p) \<and> snd q = snd p")
    case True
    then have "balance_key chain q = balance_key chain p" by (simp add: balance_key_def)
    then show ?thesis using True assms(3) by (simp add: check_reading_snd kv.get_put)
  next
    case False
    then have "balance_key chain q \<noteq> balance_key chain p" using snoc.prems balance_key_inj [OF _ assms(2), of q] by simp
    then show ?thesis using False snoc by (auto simp: check_reading_snd kv.get_put split: option.split)
  qed
qed simp

lemma watermark_differs [simp]: "watermark_key c = balance_key chain p \<longleftrightarrow> False" "balance_key chain p = watermark_key c \<longleftrightarrow> False"
  by (simp_all add: watermark_key_def balance_key_def)

text \<open>A reconciliation hides deposits from polling: it writes what it reads into the cache that polling
  compares with. Whatever arrived since the last poll is in these balances, so a poll within the hour that reads
  the same balances publishes nothing, and the deposit is never recorded by polling.\<close>

lemma reconciliation_hides_deposits:
  assumes "plain_tables st" "poll_reads penv chain (snd (reconcileChain env chain st)) f"
    and "rc_provider env = Inr ()" "rc_elapsed env 0 < MAX_CHAIN_RUNTIME_MS" "rc_balances env 0 = Inr f"
    and "getWatermark (rc_now env) chain (wt_ix st) = None"
    and "length (filter (\<lambda>a. adr_chain a = chain \<and> adr_active a) (ix_monitored (wt_ix st))) \<le> ADDRESS_BATCH_SIZE"
    and "pe_now penv < rc_now env + BALANCE_TTL_MS"
  shows "ix_stream (wt_ix (snd (pollChain penv chain (snd (reconcileChain env chain st))))) = ix_stream (wt_ix st)"
proof (cases "filter (\<lambda>a. adr_chain a = chain \<and> adr_active a) (ix_monitored (wt_ix st)) = []")
  case True
  then have "poll_addresses chain st = []" by (auto simp: poll_addresses_def filter_empty_conv)
  with True show ?thesis by (simp add: reconcileChain_def pollChain_def)
next
  case False
  let ?as = "filter (\<lambda>a. adr_chain a = chain \<and> adr_active a) (ix_monitored (wt_ix st))"
  let ?ps = "probes (token_contracts chain st) ?as"
  let ?r = "fold (check_reading (rc_now env) f chain) ?ps ([], wt_ix st)"
  let ?st = "snd (reconcileChain env chain st)"
  obtain c where c: "find (\<lambda>c. wc_id c = chain) (wt_chains st) = Some c"
  proof (cases "find (\<lambda>c. wc_id c = chain) (wt_chains st)")
    case None
    then have "?st = st" using False assms(3) by (simp add: reconcileChain_def)
    with None assms(2) show ?thesis by (auto simp: poll_reads_def find_None_iff list_ex_iff)
  qed
  have n: "\<not> length ?as \<le> 0" using False by (simp only: le_zero_eq length_0_conv not_False_eq_True)
  have "reconcile_batches env chain (token_contracts chain st) ?as 0 ([], wt_ix st) = (Inr (fst ?r, False), snd ?r)"
    using n assms(4,5,7) reconcile_batches.simps [of env chain "token_contracts chain st" ?as 0]
      reconcile_batches.simps [of env chain "token_contracts chain st" ?as ADDRESS_BATCH_SIZE] by simp
  then have st: "?st = st\<lparr>wt_ix := setWatermark (rc_now env) chain (length ?as) (snd ?r)\<rparr>"
    using False c assms(3,6) n by (simp add: reconcileChain_def Let_def)
  have tables: "poll_addresses chain ?st = poll_addresses chain st" "token_contracts chain ?st = token_contracts chain st"
    by (simp_all add: st poll_addresses_def token_contracts_def monitoring_mode_def setWatermark_def redis_set_def check_readings_rest)
  have sub: "set (poll_addresses chain st) \<subseteq> set ?as" "set ?as \<subseteq> set (ix_monitored (wt_ix st))" by (auto simp: poll_addresses_def)
  have plain: "list_all plain_probe ?ps" using plain_probes [OF assms(1) _ sub(2)] by (simp add: list_all_iff)
  have "\<not> increased r" if r: "r \<in> set (poll_readings (pe_now penv) f chain ?st)" for r
  proof -
    obtain p b where p: "p \<in> set (probes (token_contracts chain st) (poll_addresses chain st))" "f (adr_address (fst p)) (snd p) = Some b"
      and rr: "r = \<lparr>rd_probe = p, rd_balance = b, rd_cached = rget (pe_now penv) (ix_redis (wt_ix ?st)) (balance_key chain p)\<rparr>"
      using r unfolding poll_readings_def set_read_balances tables by blast
    have "p \<in> set ?ps" using p(1) sub(1) unfolding set_probes by blast
    moreover from this have pp: "plain_probe p" using plain by (simp add: list_all_iff)
    ultimately have "rget (pe_now penv) (ix_redis (wt_ix ?st)) (balance_key chain p) = Some (show_int b)"
      using get_checked [where f = f, OF plain pp p(2), of "pe_now penv" "rc_now env" chain "([], wt_ix st)"] assms(8)
      by (auto simp: st setWatermark_def kv.get_put)
    then show ?thesis by (simp add: increased_def rr)
  qed
  then have none: "filter increased (poll_readings (pe_now penv) f chain ?st) = []" by (simp add: filter_empty_conv)
  have "ix_stream (wt_ix ?st) = ix_stream (wt_ix st)"
    by (simp add: st setWatermark_def check_readings_stream)
  then show ?thesis using pollChain_ok [OF assms(2)] none by simp
qed

section \<open>An instance\<close>

text \<open>A first native deposit of \<open>v\<close> in transaction \<open>h\<close> of block \<open>n\<close>, at an address that both detectors watch,
  the default.\<close>

definition first_address :: monitored_address where
  "first_address = \<lparr>adr_chain = 1, adr_address = ''0xaa'', adr_info = \<lparr>ma_client = 7, ma_project = 5, ma_wallet = 9\<rparr>,
     adr_start = 0, adr_active = True\<rparr>"

definition first_watch :: watcher where
  "first_watch = loadMonitoredAddresses
     \<lparr>wt_ix = \<lparr>ix_chains = [], ix_monitored = [first_address], ix_events = [], ix_blocks = [], ix_cursors = [], ix_gaps = [],
        ix_next_gap = 1, ix_balances = [], ix_reorgs = [], ix_jobs = [], ix_redis = Map.empty, ix_addrs = (\<lambda>_. None), ix_stream = []\<rparr>,
      wt_modes = [], wt_tokens = [\<lparr>wk_id = 3, wk_chain = 1, wk_contract = ZERO_ADDRESS, wk_native = True, wk_active = True\<rparr>],
      wt_chains = [\<lparr>wc_id = 1, wc_confirmations = 12, wc_active = True\<rparr>], wt_memory = [], wt_active = [], wt_in_flight = False\<rparr>"

definition first_block :: "string \<Rightarrow> wei \<Rightarrow> realtime_env" where
  "first_block h v =
     \<lparr>re_time = ''t'', re_now = 0, re_provider = Inr (), re_logs = Inr [],
      re_block = Inr (Some \<lparr>cb_hash = ''b'', cb_parent = ''p'', cb_timestamp = 0,
         cb_txs = [\<lparr>tx_hash_of = h, tx_from = Some ''0xbb'', tx_to = Some ''0xAA'', tx_value = v\<rparr>]\<rparr>),
      re_header = Inr (Some ''b''), re_getAddress = Inr, re_published = (\<lambda>_. True)\<rparr>"

definition first_poll :: "block_no \<Rightarrow> wei \<Rightarrow> poll_env" where
  "first_poll n v =
     \<lparr>pe_now = 1, pe_time = ''t'', pe_provider = Inr (),
      pe_multicall = Inr (\<lambda>a tok. if a = ''0xaa'' \<and> tok = None then Some v else None), pe_head = Inr n, pe_cursor = True,
      pe_block = (\<lambda>_. Inr None), pe_logs = (\<lambda>_ _ _ _. Inr []), pe_published = (\<lambda>_. True)\<rparr>"

lemma lower_hex [simp]: "lower ''0xAA'' = ''0xaa''" "lower ''0xaa'' = ''0xaa''" "lower ''0xbb'' = ''0xbb''" "lower ''unknown'' = ''unknown''"
  by code_simp+

lemma show_small [simp]: "show_int 1 = ''1''" "show_int 7 = ''7''" "show_int 9 = ''9''"
  by code_simp+

lemma first_watch_fields [simp]:
  "ix_monitored (wt_ix first_watch) = [first_address]" "wt_modes first_watch = []" "ix_stream (wt_ix first_watch) = []"
  "ix_redis (wt_ix first_watch) = Map.empty" "wt_chains first_watch = [\<lparr>wc_id = 1, wc_confirmations = 12, wc_active = True\<rparr>]"
  "wt_tokens first_watch = [\<lparr>wk_id = 3, wk_chain = 1, wk_contract = ZERO_ADDRESS, wk_native = True, wk_active = True\<rparr>]"
  by (simp_all add: first_watch_def loadMonitoredAddresses_def Let_def)

lemma first_watch_plain: "plain_tables first_watch"
  by (simp add: plain_tables_def first_address_def ZERO_ADDRESS_def)

lemma first_poll_reads:
  "poll_reads (first_poll n v) 1 first_watch (\<lambda>a tok. if a = ''0xaa'' \<and> tok = None then Some v else None)"
  by (simp add: poll_reads_def first_poll_def)

lemma poll_publishes_every_increase_witness:
  "fst (pollChain (first_poll 5 3) 1 first_watch) = Inr ()
   \<and> rget 2 (ix_redis (wt_ix (snd (pollChain (first_poll 5 3) 1 first_watch)))) (balance_key 1 (first_address, None)) = Some (show_int 3)"
proof -
  have p: "(first_address, None) \<in> set (probes (token_contracts 1 first_watch) (poll_addresses 1 first_watch))"
    by (simp add: set_probes poll_addresses_def monitoring_mode_def) (simp add: first_address_def)
  have f: "(\<lambda>a tok. if a = ''0xaa'' \<and> tok = None then Some 3 else None) (adr_address (fst (first_address, None))) (snd (first_address, None)) = Some (3::int)"
    by (simp add: first_address_def)
  have e: "pe_published (first_poll 5 3) = (\<lambda>_. True)" "(2::int) < pe_now (first_poll 5 3) + BALANCE_TTL_MS"
    by (simp_all add: first_poll_def BALANCE_TTL_MS_def)
  show ?thesis
    using poll_publishes_every_increase [OF first_poll_reads [of 5 3] e(1) first_watch_plain] p f e(2) by blast
qed

definition first_check :: reconcile_chain_env where
  "first_check =
     \<lparr>rc_now = 0, rc_provider = Inr (), rc_elapsed = (\<lambda>_. 0),
      rc_balances = (\<lambda>_. Inr (\<lambda>a tok. if a = ''0xaa'' \<and> tok = None then Some 3 else None))\<rparr>"

lemma reconciliation_hides_deposits_witness:
  "ix_stream (wt_ix (snd (pollChain (first_poll 5 3) 1 (snd (reconcileChain first_check 1 first_watch))))) = []"
proof -
  have chains: "wt_chains (snd (reconcileChain first_check 1 first_watch)) = wt_chains first_watch"
    by (simp add: reconcileChain_def Let_def case_prod_beta split: sum.split option.split)
  have "poll_reads (first_poll 5 3) 1 (snd (reconcileChain first_check 1 first_watch)) (\<lambda>a tok. if a = ''0xaa'' \<and> tok = None then Some 3 else None)"
    unfolding poll_reads_def chains by (simp add: first_poll_def)
  moreover have "rc_provider first_check = Inr ()" "rc_elapsed first_check 0 < MAX_CHAIN_RUNTIME_MS"
    "rc_balances first_check 0 = Inr (\<lambda>a tok. if a = ''0xaa'' \<and> tok = None then Some 3 else None)"
    "getWatermark (rc_now first_check) 1 (wt_ix first_watch) = None"
    "pe_now (first_poll 5 3) < rc_now first_check + BALANCE_TTL_MS"
    by (simp_all add: first_check_def MAX_CHAIN_RUNTIME_MS_def getWatermark_def first_poll_def BALANCE_TTL_MS_def)
  ultimately show ?thesis
    using reconciliation_hides_deposits [OF first_watch_plain, of "first_poll 5 3" 1 first_check] by (simp add: ADDRESS_BATCH_SIZE_def)
qed

end
