(* ===== verification/ConfirmationTracker.thy ===== *)
theory ConfirmationTracker
  imports Prelude
begin

text \<open>
  The confirmation tracker of deposits
  (services/chain-indexer-service/src/confirmation-tracker/confirmation-tracker.service.ts): the
  cycle over the chains that have open deposits, the processing of a chain and the check of one
  deposit. The answers of the node during a tick, and which publications succeed, are the fields of
  \<open>tick_env\<close>; the persisted rows and the published events are the state.
\<close>

section \<open>State\<close>

datatype deposit_status = DPending | DDetected | DConfirming | DConfirmed | DReverted | DSwept

record deposit_row =
  d_id :: ident
  d_client :: ident
  d_chain :: int
  d_tx :: string
  d_forwarder :: string
  d_block :: block_no
  d_amount :: string
  d_token :: ident
  d_confirmations :: int
  d_required :: int
  d_status :: deposit_status
  d_confirmed_at :: "millis option"

record token_ref =
  tr_id :: ident
  tr_contract :: "string option"
  tr_native :: bool

record monitored_row =
  mon_chain :: int
  mon_address :: string
  mon_wallet :: ident

datatype event_kind = EvReverted | EvMilestone | EvConfirmed

record deposit_event =
  ev_kind :: event_kind
  ev_tx :: string
  ev_chain :: int
  ev_client :: ident
  ev_wallet :: "ident option"
  ev_to :: string
  ev_contract :: string
  ev_amount :: string
  ev_confirmations :: "int option"
  ev_milestone :: "int option"
  ev_required :: "int option"
  ev_status :: "deposit_status option"
  ev_time :: millis

record tracker =
  deposits :: "deposit_row list"
  token_refs :: "token_ref list"
  monitored :: "monitored_row list"
  published :: "deposit_event list"
  in_flight :: bool
  health :: "(int \<times> bool) list"

record tick_env =
  te_now :: millis
  te_provider :: "error + unit"
  te_tip :: "error + block_no"
  te_receipt :: "string \<Rightarrow> error + block_no option option"
  te_publish :: "deposit_event \<Rightarrow> bool"
  te_slow :: "int \<Rightarrow> bool"

definition MILESTONES :: "int list" where
  "MILESTONES = [1, 3, 6, 12]"

section \<open>The rows of a chain\<close>

definition open_deposit :: "deposit_row \<Rightarrow> bool" where
  "open_deposit d \<longleftrightarrow> d_status d \<in> {DPending, DDetected, DConfirming}"

definition starts_with :: "string \<Rightarrow> string \<Rightarrow> bool" where
  "starts_with p s \<longleftrightarrow> take (length p) s = p"

record pending_deposit =
  pd_row :: deposit_row
  pd_wallet :: "ident option"
  pd_token :: "token_ref option"

text \<open>The two left joins of a row: one result per matching monitored address, or one without.\<close>

definition deposit_views :: "tracker \<Rightarrow> deposit_row \<Rightarrow> pending_deposit list" where
  "deposit_views st d =
     (let tok = find (\<lambda>t. tr_id t = d_token d) (token_refs st);
          ws = map mon_wallet (filter (\<lambda>m. mon_chain m = d_chain d
                 \<and> lower (mon_address m) = lower (d_forwarder d)) (monitored st))
      in map (\<lambda>w. \<lparr>pd_row = d, pd_wallet = w, pd_token = tok\<rparr>) (if ws = [] then [None] else map Some ws))"

definition chain_deposits :: "int \<Rightarrow> tracker \<Rightarrow> pending_deposit list" where
  "chain_deposits chain st =
     concat (map (deposit_views st)
       (filter (\<lambda>d. d_chain d = chain \<and> open_deposit d \<and> \<not> starts_with ''polling:'' (lower (d_tx d))) (deposits st)))"

section \<open>One deposit\<close>

definition contract_of :: "pending_deposit \<Rightarrow> string" where
  "contract_of p =
     (case pd_token p of
        None \<Rightarrow> ''native''
      | Some t \<Rightarrow> if tr_native t then ''native''
                   else (case tr_contract t of None \<Rightarrow> ''native'' | Some c \<Rightarrow> if c = [] then ''native'' else c))"

definition event_of ::
    "tick_env \<Rightarrow> pending_deposit \<Rightarrow> event_kind \<Rightarrow> int option \<Rightarrow> int option \<Rightarrow> int option \<Rightarrow> deposit_status option \<Rightarrow> deposit_event" where
  "event_of env p k confs ms req stat =
     \<lparr>ev_kind = k, ev_tx = d_tx (pd_row p), ev_chain = d_chain (pd_row p), ev_client = d_client (pd_row p),
      ev_wallet = pd_wallet p, ev_to = d_forwarder (pd_row p), ev_contract = contract_of p,
      ev_amount = d_amount (pd_row p), ev_confirmations = confs, ev_milestone = ms, ev_required = req,
      ev_status = stat, ev_time = te_now env\<rparr>"

text \<open>Publications one after the other; the first that fails leaves the rest.\<close>

fun publish_all :: "tick_env \<Rightarrow> deposit_event list \<Rightarrow> tracker \<Rightarrow> (error + unit) \<times> tracker" where
  "publish_all env [] st = (Inr (), st)"
| "publish_all env (e # es) st =
     (if te_publish env e then publish_all env es (st\<lparr>published := published st @ [e]\<rparr>)
      else (Inl (InternalError ''redis''), st))"

definition update_deposit :: "ident \<Rightarrow> (deposit_row \<Rightarrow> deposit_row) \<Rightarrow> tracker \<Rightarrow> tracker" where
  "update_deposit n f st = st\<lparr>deposits := update_where (\<lambda>d. d_id d = n) f (deposits st)\<rparr>"

datatype outcome = OutConfirmed | OutReverted | OutPending

definition milestones_crossed :: "int \<Rightarrow> int \<Rightarrow> int list" where
  "milestones_crossed prev confs = filter (\<lambda>m. m > prev \<and> m \<le> confs) MILESTONES"

definition milestone_event :: "tick_env \<Rightarrow> pending_deposit \<Rightarrow> int \<Rightarrow> int \<Rightarrow> deposit_event" where
  "milestone_event env p confs m =
     event_of env p EvMilestone (Some confs) (Some m) (Some (d_required (pd_row p)))
       (Some (if confs \<ge> d_required (pd_row p) then DConfirmed else DConfirming))"

definition checkDeposit :: "tick_env \<Rightarrow> pending_deposit \<Rightarrow> block_no \<Rightarrow> tracker \<Rightarrow> (error + outcome) \<times> tracker" where
  "checkDeposit env p tip st =
     (let d = pd_row p in
      if starts_with ''polling:'' (d_tx d) then (Inr OutPending, st)
      else
     (case te_receipt env (d_tx d) of
        Inl e \<Rightarrow> (Inl e, st)
      | Inr None \<Rightarrow>
          (case publish_all env [event_of env p EvReverted None None None None] st of
             (Inl e, st1) \<Rightarrow> (Inl e, st1)
           | (Inr _, st1) \<Rightarrow>
               (Inr OutReverted, update_deposit (d_id d) (\<lambda>x. x\<lparr>d_status := DReverted, d_confirmations := 0\<rparr>) st1))
      | Inr (Some rb) \<Rightarrow>
          let confs = max 0 (tip - (case rb of None \<Rightarrow> d_block d | Some b \<Rightarrow> b)) in
          (case publish_all env (map (milestone_event env p confs) (milestones_crossed (d_confirmations d) confs)) st of
             (Inl e, st1) \<Rightarrow> (Inl e, st1)
           | (Inr _, st1) \<Rightarrow>
               if confs \<ge> d_required d
               then (case publish_all env [event_of env p EvConfirmed (Some confs) None (Some (d_required d)) None] st1 of
                       (Inl e, st2) \<Rightarrow> (Inl e, st2)
                     | (Inr _, st2) \<Rightarrow>
                         (Inr OutConfirmed, update_deposit (d_id d) (\<lambda>x. x\<lparr>d_status := DConfirmed,
                            d_confirmations := confs, d_confirmed_at := Some (te_now env)\<rparr>) st2))
               else (Inr OutPending,
                     if confs \<noteq> d_confirmations d \<or> d_status d \<noteq> DConfirming
                     then update_deposit (d_id d) (\<lambda>x. x\<lparr>d_status := DConfirming, d_confirmations := confs\<rparr>) st1
                     else st1))))"

section \<open>A chain and a cycle\<close>

text \<open>A failed check is logged and leaves what it published; the loop goes on.\<close>

definition processChain :: "tick_env \<Rightarrow> int \<Rightarrow> tracker \<Rightarrow> (error + unit) \<times> tracker" where
  "processChain env chain st =
     (let ps = chain_deposits chain st in
      if ps = [] then (Inr (), st)
      else
     (case te_provider env of
        Inl e \<Rightarrow> (Inl e, st)
      | Inr _ \<Rightarrow>
     (case te_tip env of
        Inl e \<Rightarrow> (Inl e, st)
      | Inr tip \<Rightarrow> (Inr (), fold (\<lambda>p s. snd (checkDeposit env p tip s)) ps st))))"

definition contains_text :: "string \<Rightarrow> string \<Rightarrow> bool" where
  "contains_text sub s = list_ex (\<lambda>i. starts_with sub (drop i s)) [0..<Suc (length s)]"

text \<open>A chain that takes longer than its 120 s loses the race: its effects stand, the error is the
  time-out's. Time-outs and open circuits are not reported as provider failures.\<close>

definition cycle_chain :: "(int \<Rightarrow> tick_env) \<Rightarrow> int \<Rightarrow> tracker \<Rightarrow> tracker" where
  "cycle_chain envs chain st =
     (case processChain (envs chain) chain st of (r, st1) \<Rightarrow>
        (let res = (if te_slow (envs chain) chain then Inl (InternalError ''timed out after 120000ms'') else r) in
         case res of
           Inr _ \<Rightarrow> st1\<lparr>health := health st1 @ [(chain, True)]\<rparr>
         | Inl e \<Rightarrow>
             if contains_text ''circuit-broken'' (error_text e) \<or> contains_text ''timed out after'' (error_text e)
             then st1 else st1\<lparr>health := health st1 @ [(chain, False)]\<rparr>))"

definition runConfirmationCycle :: "(int \<Rightarrow> tick_env) \<Rightarrow> tracker \<Rightarrow> tracker" where
  "runConfirmationCycle envs st =
     (if in_flight st then st
      else
        let chains = remdups (map d_chain (filter open_deposit (deposits st)))
        in (if chains = [] then st else fold (cycle_chain envs) chains (st\<lparr>in_flight := True\<rparr>))\<lparr>in_flight := False\<rparr>)"

section \<open>What one check does\<close>

lemma deposits_publish_all [simp]: "deposits (snd (publish_all env es st)) = deposits st"
  and refs_publish_all [simp]: "token_refs (snd (publish_all env es st)) = token_refs st"
  and monitored_publish_all [simp]: "monitored (snd (publish_all env es st)) = monitored st"
  by (induction es arbitrary: st) simp_all

lemma publish_all_ok:
  "\<forall>e. te_publish env e \<Longrightarrow> publish_all env es st = (Inr (), st\<lparr>published := published st @ es\<rparr>)"
  by (induction es arbitrary: st) simp_all

text \<open>The confirmations a receipt gives, and what a check makes of a view when its publications
  succeed: the events, the row, and whether the row is written at all.\<close>

definition confs_of :: "deposit_row \<Rightarrow> block_no option \<Rightarrow> block_no \<Rightarrow> int" where
  "confs_of d rb tip = max 0 (tip - (case rb of None \<Rightarrow> d_block d | Some b \<Rightarrow> b))"

definition judged :: "tick_env \<Rightarrow> block_no \<Rightarrow> deposit_row \<Rightarrow> deposit_row \<Rightarrow> deposit_row" where
  "judged env tip d x =
     (case te_receipt env (d_tx d) of
        Inl _ \<Rightarrow> x
      | Inr None \<Rightarrow> x\<lparr>d_status := DReverted, d_confirmations := 0\<rparr>
      | Inr (Some rb) \<Rightarrow>
          if d_required d \<le> confs_of d rb tip
          then x\<lparr>d_status := DConfirmed, d_confirmations := confs_of d rb tip, d_confirmed_at := Some (te_now env)\<rparr>
          else x\<lparr>d_status := DConfirming, d_confirmations := confs_of d rb tip\<rparr>)"

definition view_events :: "tick_env \<Rightarrow> block_no \<Rightarrow> pending_deposit \<Rightarrow> deposit_event list" where
  "view_events env tip p =
     (let d = pd_row p in
      case te_receipt env (d_tx d) of
        Inl _ \<Rightarrow> []
      | Inr None \<Rightarrow> [event_of env p EvReverted None None None None]
      | Inr (Some rb) \<Rightarrow>
          map (milestone_event env p (confs_of d rb tip)) (milestones_crossed (d_confirmations d) (confs_of d rb tip))
          @ (if d_required d \<le> confs_of d rb tip
             then [event_of env p EvConfirmed (Some (confs_of d rb tip)) None (Some (d_required d)) None] else []))"

lemma d_id_judged [simp]: "d_id (judged env tip d x) = d_id x"
  by (simp add: judged_def split: sum.split option.split)

lemma judged_idem [simp]: "judged env tip d (judged env tip d x) = judged env tip d x"
  by (simp add: judged_def split: sum.split option.split)

lemma published_checkDeposit:
  assumes "\<forall>e. te_publish env e" and "\<not> starts_with ''polling:'' (d_tx (pd_row p))"
  shows "published (snd (checkDeposit env p tip st)) = published st @ view_events env tip p"
    and "token_refs (snd (checkDeposit env p tip st)) = token_refs st"
    and "monitored (snd (checkDeposit env p tip st)) = monitored st"
proof -
  consider (failed) e where "te_receipt env (d_tx (pd_row p)) = Inl e"
    | (gone) "te_receipt env (d_tx (pd_row p)) = Inr None"
    | (mined) rb where "te_receipt env (d_tx (pd_row p)) = Inr (Some rb)"
    by (metis obj_sumE not_Some_eq)
  then have "published (snd (checkDeposit env p tip st)) = published st @ view_events env tip p
      \<and> token_refs (snd (checkDeposit env p tip st)) = token_refs st
      \<and> monitored (snd (checkDeposit env p tip st)) = monitored st"
  proof cases
    case mined
    then show ?thesis
      unfolding checkDeposit_def Let_def confs_of_def [symmetric] view_events_def
      by (simp add: assms publish_all_ok [OF assms(1)] update_deposit_def)
  qed (simp_all add: checkDeposit_def view_events_def assms publish_all_ok [OF assms(1)] update_deposit_def)
  then show "published (snd (checkDeposit env p tip st)) = published st @ view_events env tip p"
    and "token_refs (snd (checkDeposit env p tip st)) = token_refs st"
    and "monitored (snd (checkDeposit env p tip st)) = monitored st"
    by blast+
qed

lemma deposits_checkDeposit:
  assumes "\<forall>e. te_publish env e" and "\<not> starts_with ''polling:'' (d_tx d)" and "pd_row p = d"
  shows "deposits (snd (checkDeposit env p tip st)) = update_where (\<lambda>x. d_id x = d_id d) (judged env tip d) (deposits st)
    \<or> deposits (snd (checkDeposit env p tip st)) = deposits st \<and> judged env tip d d = d"
proof (cases "te_receipt env (d_tx d)")
  case (Inl e)
  then show ?thesis
    by (simp add: checkDeposit_def judged_def assms)
next
  case (Inr r)
  show ?thesis
  proof (cases r)
    case None
    with Inr show ?thesis
      by (simp add: checkDeposit_def judged_def assms publish_all_ok [OF assms(1)] update_deposit_def update_where_def)
  next
    case (Some rb)
    with Inr show ?thesis
      unfolding checkDeposit_def Let_def assms(3) confs_of_def [symmetric]
      by (simp add: judged_def assms publish_all_ok [OF assms(1)] update_deposit_def update_where_def)
  qed
qed

lemma update_where_same: "(\<And>r. r \<in> set rows \<Longrightarrow> p r \<Longrightarrow> f r = r) \<Longrightarrow> update_where p f rows = rows"
  unfolding update_where_def by (intro map_idI) auto

lemma row_checkDeposit:
  assumes "\<forall>e. te_publish env e" and "\<not> starts_with ''polling:'' (d_tx d)" and "pd_row p = d"
    and "deposits st = xs @ x # ys" and "distinct (map d_id (xs @ x # ys))" and "d_id x = d_id d"
    and "x = d \<or> x = judged env tip d d"
  shows "deposits (snd (checkDeposit env p tip st)) = xs @ judged env tip d d # ys"
proof -
  have "update_where (\<lambda>z. d_id z = d_id d) (judged env tip d) zs = zs" if "d_id d \<notin> d_id ` set zs" for zs
    using that by (intro update_where_same) (metis image_eqI)
  then have "update_where (\<lambda>z. d_id z = d_id d) (judged env tip d) (deposits st) = xs @ judged env tip d d # ys"
    using assms(4-7) by auto
  with deposits_checkDeposit [OF assms(1-3), of tip st] assms(4,7) show ?thesis
    by auto
qed

text \<open>The views of one row, one after the other, leave the judged row.\<close>

lemma row_fold_views:
  assumes pub: "\<forall>e. te_publish env e" and real: "\<not> starts_with ''polling:'' (d_tx d)"
    and "\<forall>p \<in> set ps. pd_row p = d" and "deposits st = xs @ x # ys" and "distinct (map d_id (xs @ x # ys))"
    and "d_id x = d_id d" and "x = judged env tip d d \<or> x = d \<and> ps \<noteq> []"
  shows "deposits (fold (\<lambda>p s. snd (checkDeposit env p tip s)) ps st) = xs @ judged env tip d d # ys"
  using assms(3-7)
proof (induction ps arbitrary: st x)
  case (Cons p ps)
  have "deposits (snd (checkDeposit env p tip st)) = xs @ judged env tip d d # ys"
    using Cons.prems by (intro row_checkDeposit [OF pub real, where x = x]) auto
  with Cons.IH [of "snd (checkDeposit env p tip st)" "judged env tip d d"] Cons.prems
  show ?case by simp
qed auto

definition selected :: "int \<Rightarrow> deposit_row \<Rightarrow> bool" where
  "selected chain d \<longleftrightarrow> d_chain d = chain \<and> open_deposit d \<and> \<not> starts_with ''polling:'' (lower (d_tx d))"

lemma polling_lower: "starts_with ''polling:'' s \<Longrightarrow> starts_with ''polling:'' (lower s)"
proof -
  assume "starts_with ''polling:'' s"
  then have "lower (take 8 s) = lower ''polling:''"
    unfolding starts_with_def by (simp add: numeral_eq_Suc)
  moreover have "lower ''polling:'' = ''polling:''"
    by code_simp
  ultimately show ?thesis
    unfolding starts_with_def lower_def by (simp add: take_map numeral_eq_Suc)
qed

lemma selected_real: "selected chain d \<Longrightarrow> \<not> starts_with ''polling:'' (d_tx d)"
  using polling_lower unfolding selected_def by blast

lemma deposit_views_row: "p \<in> set (deposit_views st d) \<Longrightarrow> pd_row p = d"
  and deposit_views_nonempty: "deposit_views st d \<noteq> []"
  by (auto simp: deposit_views_def Let_def)

lemma rows_fold_views:
  assumes pub: "\<forall>e. te_publish env e" and "deposits s = map J done @ rest" 
    and "distinct (map d_id (done @ rest))"
    and J: "J = (\<lambda>d. if selected chain d then judged env tip d d else d)"
  shows "deposits (fold (\<lambda>p s. snd (checkDeposit env p tip s))
             (concat (map (deposit_views st) (filter (selected chain) rest))) s) = map J (done @ rest)"
  using assms(2,3)
proof (induction rest arbitrary: s "done")
  case (Cons d rest)
  have ids: "map d_id (map J xs) = map d_id xs" for xs
    by (simp add: J)
  let ?s = "if selected chain d then fold (\<lambda>p s. snd (checkDeposit env p tip s)) (deposit_views st d) s else s"
  have "deposits ?s = map J done @ J d # rest"
  proof (cases "selected chain d")
    case True
    have "deposits (fold (\<lambda>p s. snd (checkDeposit env p tip s)) (deposit_views st d) s) = map J done @ judged env tip d d # rest"
      using Cons.prems
      by (intro row_fold_views [OF pub selected_real [OF True], where x = d])
        (auto simp: deposit_views_row deposit_views_nonempty ids simp del: map_map)
    with True show ?thesis
      by (simp add: J)
  qed (use Cons.prems in \<open>simp add: J\<close>)
  then show ?case
    using Cons.IH [of ?s "done @ [d]"] Cons.prems by (simp split: if_splits)
qed simp

lemma published_fold_views:
  assumes "\<forall>e. te_publish env e" and "\<forall>p \<in> set ps. \<not> starts_with ''polling:'' (d_tx (pd_row p))"
  shows "published (fold (\<lambda>p s. snd (checkDeposit env p tip s)) ps st) = published st @ concat (map (view_events env tip) ps)"
    and "token_refs (fold (\<lambda>p s. snd (checkDeposit env p tip s)) ps st) = token_refs st"
    and "monitored (fold (\<lambda>p s. snd (checkDeposit env p tip s)) ps st) = monitored st"
  using assms(2) by (induction ps arbitrary: st) (simp_all add: published_checkDeposit [OF assms(1)])

lemma chain_deposits_selected: "chain_deposits chain st = concat (map (deposit_views st) (filter (selected chain) (deposits st)))"
  by (simp add: chain_deposits_def selected_def [abs_def])

lemma chain_deposits_real: "p \<in> set (chain_deposits chain st) \<Longrightarrow> \<not> starts_with ''polling:'' (d_tx (pd_row p))"
  by (auto simp: chain_deposits_selected dest: deposit_views_row selected_real)

definition judge_row :: "tick_env \<Rightarrow> int \<Rightarrow> block_no \<Rightarrow> deposit_row \<Rightarrow> deposit_row" where
  "judge_row env chain tip d = (if selected chain d then judged env tip d d else d)"

lemma tick_of_chain:
  assumes "\<forall>e. te_publish env e" and "te_provider env = Inr ()" and "te_tip env = Inr tip"
    and "distinct (map d_id (deposits st))" and "processChain env chain st = (r, st')"
  shows "r = Inr ()" "deposits st' = map (judge_row env chain tip) (deposits st)"
    "published st' = published st @ concat (map (view_events env tip) (chain_deposits chain st))"
    "token_refs st' = token_refs st" "monitored st' = monitored st"
proof -
  have st': "r = Inr () \<and> st' = fold (\<lambda>p s. snd (checkDeposit env p tip s)) (chain_deposits chain st) st"
    using assms(2,3,5) unfolding processChain_def Let_def by (auto split: if_splits)
  then show "r = Inr ()" by simp
  have "deposits st' = map (\<lambda>d. if selected chain d then judged env tip d d else d) ([] @ deposits st)"
    unfolding st' [THEN conjunct2] chain_deposits_selected
    using assms(4) by (intro rows_fold_views [OF assms(1)]) auto
  then show "deposits st' = map (judge_row env chain tip) (deposits st)"
    by (simp add: judge_row_def [abs_def])
  show "published st' = published st @ concat (map (view_events env tip) (chain_deposits chain st))"
    "token_refs st' = token_refs st" "monitored st' = monitored st"
    using st' chain_deposits_real published_fold_views [OF assms(1)] by simp_all
qed

text \<open>Claim C38. A tick of a chain whose node and event stream answer does its loop of updates by
  id as one map over the table: every open deposit of the chain with a real transaction is settled by
  its receipt (reverted when the receipt is gone, confirmed as soon as the blocks on top of it reach
  the required number, confirming with the new count otherwise), every other row keeps every field,
  and the events published are those of the rows read at the start, also when a row is read more than
  once.\<close>

theorem a_tick_settles_every_open_deposit:
  assumes "\<forall>e. te_publish env e" and "te_provider env = Inr ()" and "te_tip env = Inr tip"
    and "distinct (map d_id (deposits st))"
  shows "case processChain env chain st of (r, st') \<Rightarrow>
      r = Inr ()
    \<and> deposits st' = map (judge_row env chain tip) (deposits st)
    \<and> published st' = published st @ concat (map (view_events env tip) (chain_deposits chain st))"
proof -
  obtain r st' where s: "processChain env chain st = (r, st')"
    by fastforce
  show ?thesis
    unfolding s using tick_of_chain [OF assms s] by simp
qed

section \<open>Milestones over a run of ticks\<close>

definition run_ticks :: "int \<Rightarrow> tick_env list \<Rightarrow> tracker \<Rightarrow> tracker" where
  "run_ticks chain envs st = fold (\<lambda>env s. snd (processChain env chain s)) envs st"

text \<open>A tick in which the node and the stream answer and the transaction sits in block \<open>b\<close>.\<close>

definition tip_of :: "tick_env \<Rightarrow> block_no" where
  "tip_of env = (case te_tip env of Inl _ \<Rightarrow> 0 | Inr t \<Rightarrow> t)"

definition depth :: "block_no \<Rightarrow> tick_env \<Rightarrow> int" where
  "depth b env = max 0 (tip_of env - b)"

definition mined_tick :: "string \<Rightarrow> block_no \<Rightarrow> tick_env \<Rightarrow> bool" where
  "mined_tick tx b env \<longleftrightarrow> (\<forall>e. te_publish env e) \<and> te_provider env = Inr () \<and> te_tip env = Inr (tip_of env)
     \<and> te_receipt env tx = Inr (Some (Some b))"

definition milestones_of :: "string \<Rightarrow> tracker \<Rightarrow> int option list" where
  "milestones_of tx st = map ev_milestone (filter (\<lambda>e. ev_tx e = tx \<and> ev_kind e = EvMilestone) (published st))"

definition confirmed_of :: "string \<Rightarrow> tracker \<Rightarrow> nat" where
  "confirmed_of tx st = length (filter (\<lambda>e. ev_tx e = tx \<and> ev_kind e = EvConfirmed) (published st))"

fun until_confirmed :: "int \<Rightarrow> int list \<Rightarrow> int list" where
  "until_confirmed req [] = []"
| "until_confirmed req (c # cs) = (if req \<le> c then [c] else c # until_confirmed req cs)"

lemma last_until_confirmed: "last (a # until_confirmed req cs) \<in> set (a # cs)"
  by (induction cs arbitrary: a) auto

lemma milestones_crossed_append:
  "a \<le> b \<Longrightarrow> b \<le> c \<Longrightarrow> milestones_crossed a b @ milestones_crossed b c = milestones_crossed a c"
  by (auto simp: milestones_crossed_def MILESTONES_def)

text \<open>A deposit that is the only one of its transaction and is read once per tick.\<close>

definition sole_deposit :: "int \<Rightarrow> deposit_row \<Rightarrow> tracker \<Rightarrow> bool" where
  "sole_deposit chain d st \<longleftrightarrow> distinct (map d_id (deposits st)) \<and> d \<in> set (deposits st) \<and> d_chain d = chain
     \<and> \<not> starts_with ''polling:'' (lower (d_tx d))
     \<and> filter (\<lambda>x. d_tx x = d_tx d) (deposits st) = [d]
     \<and> length (deposit_views st d) = 1"

lemma ev_tx_view_events: "e \<in> set (view_events env tip p) \<Longrightarrow> ev_tx e = d_tx (pd_row p)"
  by (auto simp: view_events_def Let_def event_of_def milestone_event_def split: sum.splits option.splits if_splits)

lemma filter_events_of_tx:
  "filter (\<lambda>e. ev_tx e = tx) (concat (map (view_events env tip) (concat (map (deposit_views st) ds))))
   = concat (map (view_events env tip) (concat (map (deposit_views st) (filter (\<lambda>x. d_tx x = tx) ds))))"
proof (induction ds)
  case (Cons x ds)
  have "ev_tx e = d_tx x" if "e \<in> set (concat (map (view_events env tip) (deposit_views st x)))" for e
    using that by (auto dest: ev_tx_view_events deposit_views_row)
  then have "filter (\<lambda>e. ev_tx e = tx) (concat (map (view_events env tip) (deposit_views st x)))
      = (if d_tx x = tx then concat (map (view_events env tip) (deposit_views st x)) else [])"
    by (simp add: filter_empty_conv filter_id_conv)
  with Cons show ?case by simp
qed simp

lemma judged_simps [simp]:
  "d_tx (judged env tip d x) = d_tx x" "d_chain (judged env tip d x) = d_chain x"
  "d_forwarder (judged env tip d x) = d_forwarder x" "d_token (judged env tip d x) = d_token x"
  "d_required (judged env tip d x) = d_required x"
  by (simp_all add: judged_def split: sum.split option.split)

lemma judge_row_simps [simp]:
  "d_id (judge_row env chain tip d) = d_id d"
  "d_tx (judge_row env chain tip d) = d_tx d" "d_chain (judge_row env chain tip d) = d_chain d"
  "d_forwarder (judge_row env chain tip d) = d_forwarder d" "d_token (judge_row env chain tip d) = d_token d"
  "d_required (judge_row env chain tip d) = d_required d"
  by (simp_all add: judge_row_def)

lemma length_deposit_views:
  "length (deposit_views st d) =
    (let n = length (filter (\<lambda>m. mon_chain m = d_chain d \<and> lower (mon_address m) = lower (d_forwarder d)) (monitored st))
     in if n = 0 then 1 else n)"
  by (simp add: deposit_views_def Let_def)

lemma sole_tick:
  assumes sole: "sole_deposit chain d st" and good: "mined_tick (d_tx d) b env"
    and step: "processChain env chain st = (r, st')"
  shows "sole_deposit chain (judge_row env chain (tip_of env) d) st'"
    "filter (\<lambda>e. ev_tx e = d_tx d) (published st') = filter (\<lambda>e. ev_tx e = d_tx d) (published st)
      @ (if open_deposit d then view_events env (tip_of env) (hd (deposit_views st d)) else [])"
proof -
  let ?J = "judge_row env chain (tip_of env)"
  have ok: "\<forall>e. te_publish env e" "te_provider env = Inr ()" "te_tip env = Inr (tip_of env)"
    using good by (simp_all add: mined_tick_def)
  have uniq: "distinct (map d_id (deposits st))" "d \<in> set (deposits st)" "d_chain d = chain"
    "\<not> starts_with ''polling:'' (lower (d_tx d))" "filter (\<lambda>x. d_tx x = d_tx d) (deposits st) = [d]"
    "length (deposit_views st d) = 1"
    using sole by (simp_all add: sole_deposit_def)
  note tick = tick_of_chain [OF ok uniq(1) step]
  have "map d_id (deposits st') = map d_id (deposits st)" "?J d \<in> set (deposits st')"
    "filter (\<lambda>x. d_tx x = d_tx d) (deposits st') = [?J d]"
    "length (deposit_views st' (?J d)) = 1"
    using uniq by (simp_all add: tick filter_map comp_def length_deposit_views)
  then show "sole_deposit chain (?J d) st'"
    using uniq by (simp add: sole_deposit_def)
  obtain p where p: "deposit_views st d = [p]"
    using uniq(6) by (cases "deposit_views st d") auto
  have "filter (\<lambda>x. d_tx x = d_tx d) (filter (selected chain) (deposits st)) = filter (selected chain) [d]"
    unfolding uniq(5) [symmetric] by (simp add: conj_commute)
  then show "filter (\<lambda>e. ev_tx e = d_tx d) (published st') = filter (\<lambda>e. ev_tx e = d_tx d) (published st)
      @ (if open_deposit d then view_events env (tip_of env) (hd (deposit_views st d)) else [])"
    unfolding tick(3) filter_append chain_deposits_selected filter_events_of_tx
    using uniq p by (simp add: selected_def)
qed

definition events_of_tx :: "string \<Rightarrow> tracker \<Rightarrow> deposit_event list" where
  "events_of_tx tx st = filter (\<lambda>e. ev_tx e = tx) (published st)"

lemma counts_of_events:
  "milestones_of tx st = map ev_milestone (filter (\<lambda>e. ev_kind e = EvMilestone) (events_of_tx tx st))"
  "confirmed_of tx st = length (filter (\<lambda>e. ev_kind e = EvConfirmed) (events_of_tx tx st))"
  by (simp_all add: milestones_of_def confirmed_of_def events_of_tx_def conj_commute)

lemma closed_run:
  assumes "sole_deposit chain d st" and "\<not> open_deposit d" and "\<forall>env \<in> set envs. mined_tick (d_tx d) b env"
  shows "events_of_tx (d_tx d) (run_ticks chain envs st) = events_of_tx (d_tx d) st"
  using assms
proof (induction envs arbitrary: st)
  case (Cons env envs)
  obtain r st' where s: "processChain env chain st = (r, st')"
    by fastforce
  have "judge_row env chain (tip_of env) d = d"
    using Cons.prems(2) by (simp add: judge_row_def selected_def)
  then have "sole_deposit chain d st'" "events_of_tx (d_tx d) st' = events_of_tx (d_tx d) st"
    using sole_tick [OF Cons.prems(1) _ s, of b] Cons.prems(2,3) by (simp_all add: events_of_tx_def)
  with Cons.IH [of st'] Cons.prems show ?case
    by (simp add: run_ticks_def s)
qed (simp add: run_ticks_def)

lemma view_events_mined:
  assumes "mined_tick (d_tx d) b env" and "pd_row p = d"
  shows "map ev_milestone (filter (\<lambda>e. ev_kind e = EvMilestone) (view_events env (tip_of env) p))
      = map Some (milestones_crossed (d_confirmations d) (depth b env))"
    and "length (filter (\<lambda>e. ev_kind e = EvConfirmed) (view_events env (tip_of env) p))
      = (if d_required d \<le> depth b env then 1 else 0)"
  using assms
  by (simp_all add: view_events_def mined_tick_def confs_of_def depth_def [symmetric] filter_map comp_def
      milestone_event_def event_of_def)

lemma run_publishes:
  assumes "sole_deposit chain d st" and "open_deposit d" and "\<forall>env \<in> set envs. mined_tick (d_tx d) b env"
    and "sorted (d_confirmations d # map (depth b) envs)"
  shows "milestones_of (d_tx d) (run_ticks chain envs st) = milestones_of (d_tx d) st
      @ map Some (milestones_crossed (d_confirmations d)
          (last (d_confirmations d # until_confirmed (d_required d) (map (depth b) envs))))
    \<and> confirmed_of (d_tx d) (run_ticks chain envs st) = confirmed_of (d_tx d) st
      + (if list_ex (\<lambda>c. d_required d \<le> c) (map (depth b) envs) then 1 else 0)"
  using assms
proof (induction envs arbitrary: st d)
  case Nil
  show ?case
    by (simp add: run_ticks_def milestones_crossed_def filter_empty_conv)
next
  case (Cons env envs)
  obtain r st' where s: "processChain env chain st = (r, st')"
    by fastforce
  let ?c = "depth b env" and ?d = "judge_row env chain (tip_of env) d"
  have good: "mined_tick (d_tx d) b env"
    using Cons.prems(3) by simp
  have "length (deposit_views st d) = 1"
    using Cons.prems(1) by (simp add: sole_deposit_def)
  then obtain p where p1: "deposit_views st d = [p]"
    by (auto simp: length_Suc_conv)
  then have p: "deposit_views st d = [p]" "pd_row p = d"
    using deposit_views_row [of p st d] by simp_all
  note step = sole_tick [OF Cons.prems(1) good s]
  have ev: "milestones_of (d_tx d) st' = milestones_of (d_tx d) st @ map Some (milestones_crossed (d_confirmations d) ?c)"
    "confirmed_of (d_tx d) st' = confirmed_of (d_tx d) st + (if d_required d \<le> ?c then 1 else 0)"
    using step(2) Cons.prems(2) p view_events_mined [OF good p(2)]
    by (simp_all add: counts_of_events events_of_tx_def)
  have sel: "selected chain d"
    using Cons.prems(1,2) by (simp add: selected_def sole_deposit_def)
  have d': "?d = (if d_required d \<le> ?c
      then d\<lparr>d_status := DConfirmed, d_confirmations := ?c, d_confirmed_at := Some (te_now env)\<rparr>
      else d\<lparr>d_status := DConfirming, d_confirmations := ?c\<rparr>)"
    using good sel by (simp add: judge_row_def judged_def mined_tick_def confs_of_def depth_def)
  have run: "run_ticks chain (env # envs) st = run_ticks chain envs st'"
    by (simp add: run_ticks_def s)
  show ?case
  proof (cases "d_required d \<le> ?c")
    case True
    then have "events_of_tx (d_tx d) (run_ticks chain envs st') = events_of_tx (d_tx d) st'"
    proof -
      have "\<not> open_deposit ?d" "d_tx ?d = d_tx d"
        using True by (simp_all add: d' open_deposit_def)
      then show ?thesis
        using closed_run [OF step(1), of envs b] Cons.prems(3) by simp
    qed
    with True ev show ?thesis
      by (simp add: run counts_of_events)
  next
    case False
    define l where "l = last (?c # until_confirmed (d_required d) (map (depth b) envs))"
    have "l \<in> set (?c # map (depth b) envs)"
      unfolding l_def by (rule last_until_confirmed)
    then have join: "milestones_crossed (d_confirmations d) l = milestones_crossed (d_confirmations d) ?c @ milestones_crossed ?c l"
      using Cons.prems(4) by (intro milestones_crossed_append [symmetric]) auto
    have last: "last (d_confirmations d # until_confirmed (d_required d) (map (depth b) (env # envs))) = l"
      using False by (simp add: l_def)
    have "milestones_of (d_tx d) (run_ticks chain envs st') = milestones_of (d_tx d) st' @ map Some (milestones_crossed ?c l)
      \<and> confirmed_of (d_tx d) (run_ticks chain envs st') = confirmed_of (d_tx d) st'
        + (if list_ex (\<lambda>c. d_required d \<le> c) (map (depth b) envs) then 1 else 0)"
    proof -
      have d1: "d_confirmations ?d = ?c" "d_tx ?d = d_tx d" "d_required ?d = d_required d" "open_deposit ?d"
        using False by (simp_all add: d' open_deposit_def)
      show ?thesis
        using Cons.IH [OF step(1) d1(4), unfolded d1 l_def [symmetric]] Cons.prems(3,4) by simp
    qed
    then show ?thesis
      unfolding last run join using False ev by simp
  qed
qed

text \<open>Over any run of ticks during which the receipt of a deposit stays in the same block and
  the tip does not go back, the deposit's milestone events are exactly the milestones between the
  count persisted at the start and the last count before it was confirmed (the confirming one
  included), each once and in increasing order, and the confirmed event is published once if some tick
  reaches the required depth and never otherwise.\<close>

lemma milestones_are_published_once:
  assumes "sole_deposit chain d st" and "open_deposit d" and "\<forall>env \<in> set envs. mined_tick (d_tx d) b env"
    and "sorted (d_confirmations d # map (depth b) envs)"
  shows "milestones_of (d_tx d) (run_ticks chain envs st) = milestones_of (d_tx d) st
      @ map Some (milestones_crossed (d_confirmations d)
          (last (d_confirmations d # until_confirmed (d_required d) (map (depth b) envs))))
    \<and> confirmed_of (d_tx d) (run_ticks chain envs st) = confirmed_of (d_tx d) st
      + (if list_ex (\<lambda>c. d_required d \<le> c) (map (depth b) envs) then 1 else 0)"
  using assms by (rule run_publishes)

section \<open>Concrete runs\<close>

definition sample_deposit :: "ident \<Rightarrow> string \<Rightarrow> deposit_row" where
  "sample_deposit n tx = \<lparr>d_id = n, d_client = 1, d_chain = 56, d_tx = tx, d_forwarder = ''0xf'', d_block = 100,
     d_amount = ''5'', d_token = 1, d_confirmations = 0, d_required = 12, d_status = DDetected, d_confirmed_at = None\<rparr>"

definition sample_tracker :: tracker where
  "sample_tracker = \<lparr>deposits = [sample_deposit 1 ''0xa'', sample_deposit 2 ''0xb'', sample_deposit 3 ''polling:9''],
     token_refs = [], monitored = [\<lparr>mon_chain = 56, mon_address = ''0xF'', mon_wallet = 7\<rparr>], published = [],
     in_flight = False, health = []\<rparr>"

definition sample_tick :: "block_no \<Rightarrow> block_no \<Rightarrow> tick_env" where
  "sample_tick b tip = \<lparr>te_now = 0, te_provider = Inr (), te_tip = Inr tip,
     te_receipt = (\<lambda>tx. if tx = ''0xa'' then Inr (Some (Some b)) else Inr None), te_publish = (\<lambda>_. True), te_slow = (\<lambda>_. False)\<rparr>"

lemma a_tick_settles_every_open_deposit_witness:
  "map (\<lambda>d. (d_status d, d_confirmations d)) (deposits (snd (processChain (sample_tick 100 104) 56 sample_tracker)))
     = [(DConfirming, 4), (DReverted, 0), (DDetected, 0)]"
proof -
  have "distinct (map d_id (deposits sample_tracker))"
    by code_simp
  from a_tick_settles_every_open_deposit [OF _ _ _ this, where env = "sample_tick 100 104" and tip = 104 and chain = 56]
  have "deposits (snd (processChain (sample_tick 100 104) 56 sample_tracker))
      = map (judge_row (sample_tick 100 104) 56 104) (deposits sample_tracker)"
    by (simp add: sample_tick_def split: prod.splits)
  moreover have "map (\<lambda>d. (d_status d, d_confirmations d)) (map (judge_row (sample_tick 100 104) 56 104) (deposits sample_tracker))
      = [(DConfirming, 4), (DReverted, 0), (DDetected, 0)]"
    by code_simp
  ultimately show ?thesis
    by simp
qed

lemma milestones_are_published_once_witness:
  "milestones_of ''0xa'' (run_ticks 56 [sample_tick 100 100, sample_tick 100 104, sample_tick 100 115, sample_tick 100 120] sample_tracker)
     = [Some 1, Some 3, Some 6, Some 12]"
proof -
  let ?d = "sample_deposit 1 ''0xa''" and ?st = sample_tracker
  let ?envs = "[sample_tick 100 100, sample_tick 100 104, sample_tick 100 115, sample_tick 100 120]"
  have "sole_deposit 56 ?d ?st" "open_deposit ?d"
    by code_simp+
  moreover have "\<forall>env \<in> set ?envs. mined_tick (d_tx ?d) 100 env"
    by (simp add: mined_tick_def sample_tick_def sample_deposit_def tip_of_def)
  moreover have "sorted (d_confirmations ?d # map (depth 100) ?envs)"
    by code_simp
  ultimately have "milestones_of (d_tx ?d) (run_ticks 56 ?envs ?st) = milestones_of (d_tx ?d) ?st
      @ map Some (milestones_crossed (d_confirmations ?d)
          (last (d_confirmations ?d # until_confirmed (d_required ?d) (map (depth 100) ?envs))))"
    using milestones_are_published_once [of 56 ?d ?st ?envs 100] by blast
  moreover have "milestones_of (d_tx ?d) ?st @ map Some (milestones_crossed (d_confirmations ?d)
          (last (d_confirmations ?d # until_confirmed (d_required ?d) (map (depth 100) ?envs))))
      = [Some 1, Some 3, Some 6, Some 12]" "d_tx ?d = ''0xa''"
    by code_simp+
  ultimately show ?thesis
    by simp
qed

text \<open>When a reorganisation moves the transaction into a later block, milestones that had been
  published are published again.\<close>

lemma milestones_repeat_after_a_move:
  "milestones_of ''0xa'' (run_ticks 56 [sample_tick 100 106, sample_tick 105 107, sample_tick 105 111] sample_tracker)
     = [Some 1, Some 3, Some 6, Some 3, Some 6]"
  by code_simp

end
