(* ===== verification/Webhooks.thy ===== *)
theory Webhooks
  imports Prelude Complex_Main
begin

text \<open>
  The webhook side of services/notification-service: the registered endpoints
  (webhook/webhook.service.ts), the retry policy (webhook/configurable-retry.service.ts), the attempt
  log (webhook/delivery-attempt-recorder.service.ts), delivery (webhook/webhook-delivery.service.ts),
  the resending of failed deliveries (webhook/dead-letter.service.ts) and of any delivery
  (webhook/manual-resend.service.ts). The queue is the list of its waiting jobs; every POST the
  service sends is recorded in \<open>posts\<close>. The HMAC, the endpoints' answers, the clock, the random
  numbers and identifiers and the failures of the database are parameters. A payload is identified
  with the text \<open>JSON.stringify\<close> gives for it. Metrics and product analytics are left out.
\<close>

section \<open>Tables\<close>

datatype backoff = Exponential | Linear | Fixed

text \<open>A column of status codes: null, a JSON array, or a JSON text with the outcome of parsing it.\<close>

datatype code_column = NoCodes | CodeArray "string list" | CodeText "string list option"

record webhook =
  wh_id :: ident
  wh_client :: ident
  wh_project :: ident
  wh_url :: string
  wh_secret :: string
  wh_events :: "string list"
  wh_active :: bool
  wh_maxAttempts :: int
  wh_backoff :: backoff
  wh_baseMs :: int
  wh_maxMs :: int
  wh_jitter :: bool
  wh_timeoutMs :: int
  wh_retryOn :: code_column
  wh_failOn :: code_column
  wh_description :: "string option"
  wh_created :: millis

datatype delivery_status = DQueued | DSent | DFailed

type_synonym headers = "(string \<times> string) list"

record delivery =
  dl_id :: ident
  dl_code :: string
  dl_webhook :: ident
  dl_client :: ident
  dl_project :: ident
  dl_eventType :: string
  dl_payload :: string
  dl_status :: delivery_status
  dl_httpStatus :: "int option"
  dl_responseBody :: "string option"
  dl_responseTimeMs :: "int option"
  dl_attempts :: int
  dl_maxAttempts :: int
  dl_lastAttemptAt :: "millis option"
  dl_nextRetryAt :: "millis option"
  dl_error :: "string option"
  dl_errorMessage :: "string option"
  dl_errorCode :: "string option"
  dl_correlationId :: "string option"
  dl_idempotencyKey :: "string option"
  dl_requestUrl :: "string option"
  dl_requestHeaders :: "headers option"
  dl_responseHeaders :: "headers option"
  dl_isManualResend :: bool
  dl_original :: "ident option"
  dl_created :: millis

datatype attempt_status = ASuccess | AFailed | ATimeout | AError

record attempt =
  at_delivery :: ident
  at_number :: int
  at_status :: attempt_status
  at_url :: string
  at_requestHeaders :: headers
  at_requestBody :: string
  at_responseStatus :: "int option"
  at_responseHeaders :: "headers option"
  at_responseBody :: "string option"
  at_responseTimeMs :: "int option"
  at_errorMessage :: "string option"
  at_errorCode :: "string option"

record job =
  jb_delivery :: ident
  jb_webhook :: ident
  jb_delay :: "int option"

record http_post =
  hp_delivery :: ident
  hp_url :: string
  hp_body :: string
  hp_headers :: headers
  hp_timeout :: int

record notify_db =
  webhooks :: "webhook list"
  deliveries :: "delivery list"
  attempts_log :: "attempt list"
  jobs :: "job list"
  posts :: "http_post list"
  next_webhook :: ident
  next_delivery :: ident

section \<open>The endpoints\<close>

definition find_webhook :: "ident \<Rightarrow> notify_db \<Rightarrow> webhook option" where
  "find_webhook n db = find (\<lambda>w. wh_id w = n) (webhooks db)"

text \<open>The unique key on client and URL compares by the collation of the column.\<close>

definition createWebhook ::
    "string \<Rightarrow> millis \<Rightarrow> ident \<Rightarrow> ident \<Rightarrow> string \<Rightarrow> string list \<Rightarrow> string option \<Rightarrow> bool option \<Rightarrow> notify_db
     \<Rightarrow> (error + webhook) \<times> notify_db" where
  "createWebhook secret now client project url events label active db =
     (if \<exists>w \<in> set (webhooks db). wh_client w = client \<and> sql_eq (wh_url w) url
      then (Inl (Conflict ''Webhook already registered''), db)
      else
        let w = \<lparr>wh_id = next_webhook db, wh_client = client, wh_project = project, wh_url = url,
                 wh_secret = secret, wh_events = events,
                 wh_active = (case active of None \<Rightarrow> True | Some a \<Rightarrow> a), wh_maxAttempts = 5,
                 wh_backoff = Exponential, wh_baseMs = 1000, wh_maxMs = 3600000, wh_jitter = True,
                 wh_timeoutMs = 10000, wh_retryOn = NoCodes, wh_failOn = NoCodes,
                 wh_description = label, wh_created = now\<rparr>
        in (Inr w, db\<lparr>webhooks := webhooks db @ [w], next_webhook := next_webhook db + 1\<rparr>))"

definition updateWebhook ::
    "ident \<Rightarrow> string option \<Rightarrow> string list option \<Rightarrow> bool option \<Rightarrow> string option \<Rightarrow> notify_db
     \<Rightarrow> (error + webhook) \<times> notify_db" where
  "updateWebhook n url events active label db =
     (case find_webhook n db of
        None \<Rightarrow> (Inl (NotFound ''Webhook not found''), db)
      | Some w \<Rightarrow>
          let w' = w\<lparr>wh_url := (case url of None \<Rightarrow> wh_url w | Some u \<Rightarrow> u),
                     wh_events := (case events of None \<Rightarrow> wh_events w | Some es \<Rightarrow> es),
                     wh_active := (case active of None \<Rightarrow> wh_active w | Some a \<Rightarrow> a),
                     wh_description := (case label of None \<Rightarrow> wh_description w | Some l \<Rightarrow> Some l)\<rparr>
          in if \<exists>v \<in> set (webhooks db). wh_id v \<noteq> n \<and> wh_client v = wh_client w \<and> sql_eq (wh_url v) (wh_url w')
             then (Inl (InternalError ''Unique constraint failed''), db)
             else (Inr w', db\<lparr>webhooks := update_where (\<lambda>v. wh_id v = n) (\<lambda>_. w') (webhooks db)\<rparr>))"

text \<open>The deliveries refer to their webhook without a cascade, so one with deliveries cannot be deleted.\<close>

definition deleteWebhook :: "ident \<Rightarrow> notify_db \<Rightarrow> (error + unit) \<times> notify_db" where
  "deleteWebhook n db =
     (case find_webhook n db of
        None \<Rightarrow> (Inl (NotFound ''Webhook not found''), db)
      | Some w \<Rightarrow>
          if \<exists>d \<in> set (deliveries db). dl_webhook d = n
          then (Inl (InternalError ''Foreign key constraint violated''), db)
          else (Inr (), db\<lparr>webhooks := filter (\<lambda>v. wh_id v \<noteq> n) (webhooks db)\<rparr>))"

definition listWebhooks :: "ident \<Rightarrow> notify_db \<Rightarrow> webhook list" where
  "listWebhooks client db = rev (sort_key wh_created (filter (\<lambda>w. wh_client w = client) (webhooks db)))"

text \<open>\<open>e.endsWith('.*')\<close> and the prefix without these two characters.\<close>

definition event_matches :: "string \<Rightarrow> string \<Rightarrow> bool" where
  "event_matches eventType e \<longleftrightarrow>
     e = eventType \<or> e = ''*''
     \<or> (2 \<le> length e \<and> drop (length e - 2) e = ''.*''
        \<and> take (length e - 2) eventType = take (length e - 2) e)"

definition findMatchingWebhooks :: "ident \<Rightarrow> string \<Rightarrow> notify_db \<Rightarrow> webhook list" where
  "findMatchingWebhooks client eventType db =
     filter (\<lambda>w. wh_client w = client \<and> wh_active w \<and> list_ex (event_matches eventType) (wh_events w))
       (webhooks db)"

section \<open>The retry policy\<close>

record retry_config =
  rc_maxAttempts :: int
  rc_backoff :: backoff
  rc_baseMs :: int
  rc_maxMs :: int
  rc_jitter :: bool
  rc_timeoutMs :: int
  rc_retryOn :: "string list"
  rc_failOn :: "string list"

fun parseStatusCodes :: "code_column \<Rightarrow> string list" where
  "parseStatusCodes NoCodes = []"
| "parseStatusCodes (CodeArray cs) = cs"
| "parseStatusCodes (CodeText (Some cs)) = cs"
| "parseStatusCodes (CodeText None) = []"

definition extractConfig :: "webhook \<Rightarrow> retry_config" where
  "extractConfig w =
     \<lparr>rc_maxAttempts = wh_maxAttempts w, rc_backoff = wh_backoff w, rc_baseMs = wh_baseMs w,
      rc_maxMs = wh_maxMs w, rc_jitter = wh_jitter w, rc_timeoutMs = wh_timeoutMs w,
      rc_retryOn = parseStatusCodes (wh_retryOn w), rc_failOn = parseStatusCodes (wh_failOn w)\<rparr>"

text \<open>
  The attempt numbers start at 1. \<open>Math.random()\<close> is the rational argument \<open>r\<close>; the products are
  exact here, where the code rounds to double precision.
\<close>

definition base_delay :: "retry_config \<Rightarrow> int \<Rightarrow> int" where
  "base_delay c n =
     (case rc_backoff c of
        Exponential \<Rightarrow> 2 ^ nat (n - 1) * rc_baseMs c
      | Linear \<Rightarrow> n * rc_baseMs c
      | Fixed \<Rightarrow> rc_baseMs c)"

definition computeDelay :: "retry_config \<Rightarrow> rat \<Rightarrow> int \<Rightarrow> int" where
  "computeDelay c r n =
     (let delay = min (base_delay c n) (rc_maxMs c)
      in if rc_jitter c then \<lfloor>of_int delay * (1 - r / 4)\<rfloor> else delay)"

definition shouldRetry :: "retry_config \<Rightarrow> int option \<Rightarrow> int \<Rightarrow> bool" where
  "shouldRetry c httpStatus n =
     (if rc_maxAttempts c \<le> n then False
      else (case httpStatus of
              None \<Rightarrow> True
            | Some s \<Rightarrow>
                if show_int s \<in> set (rc_failOn c) then False
                else if show_int s \<in> set (rc_retryOn c) then True
                else 500 \<le> s))"

section \<open>Creating deliveries\<close>

record event_payload =
  pl_text :: string
  pl_data :: "(string \<times> string) list"
  pl_top :: "(string \<times> string) list"

record delivery_ids =
  id_code :: string
  id_idempotency :: string
  id_correlation :: string

text \<open>\<open>a ?? b ?? c ?? d ?? 0\<close> over the fields of the payload, read as a number.\<close>

definition payload_project :: "event_payload \<Rightarrow> string option" where
  "payload_project p =
     (case map_of (pl_data p) ''projectId'' of Some x \<Rightarrow> Some x | None \<Rightarrow>
     (case map_of (pl_data p) ''project_id'' of Some x \<Rightarrow> Some x | None \<Rightarrow>
     (case map_of (pl_top p) ''projectId'' of Some x \<Rightarrow> Some x | None \<Rightarrow>
        map_of (pl_top p) ''project_id'')))"

definition resolve_project :: "ident option \<Rightarrow> event_payload \<Rightarrow> error + ident" where
  "resolve_project project p =
     (case project of
        Some n \<Rightarrow> Inr n
      | None \<Rightarrow>
          (case payload_project p of
             None \<Rightarrow> Inr 0
           | Some s \<Rightarrow>
               if s = [] then Inr 0
               else (case big_int s of None \<Rightarrow> Inl (InternalError ''SyntaxError'') | Some n \<Rightarrow> Inr n)))"

definition new_delivery ::
    "ident \<Rightarrow> delivery_ids \<Rightarrow> millis \<Rightarrow> ident \<Rightarrow> ident \<Rightarrow> string \<Rightarrow> string \<Rightarrow> webhook \<Rightarrow> int \<Rightarrow> delivery" where
  "new_delivery n ids now client project eventType payload w maxAttempts =
     \<lparr>dl_id = n, dl_code = id_code ids, dl_webhook = wh_id w, dl_client = client, dl_project = project,
      dl_eventType = eventType, dl_payload = payload, dl_status = DQueued, dl_httpStatus = None,
      dl_responseBody = None, dl_responseTimeMs = None, dl_attempts = 0, dl_maxAttempts = maxAttempts,
      dl_lastAttemptAt = None, dl_nextRetryAt = None, dl_error = None, dl_errorMessage = None,
      dl_errorCode = None, dl_correlationId = Some (id_correlation ids),
      dl_idempotencyKey = Some (id_idempotency ids), dl_requestUrl = Some (wh_url w),
      dl_requestHeaders = None, dl_responseHeaders = None, dl_isManualResend = False,
      dl_original = None, dl_created = now\<rparr>"

definition insert_delivery :: "delivery \<Rightarrow> notify_db \<Rightarrow> notify_db" where
  "insert_delivery d db = db\<lparr>deliveries := deliveries db @ [d], next_delivery := next_delivery db + 1\<rparr>"

definition enqueue :: "ident \<Rightarrow> ident \<Rightarrow> int option \<Rightarrow> notify_db \<Rightarrow> notify_db" where
  "enqueue d w delay db = db\<lparr>jobs := jobs db @ [\<lparr>jb_delivery = d, jb_webhook = w, jb_delay = delay\<rparr>]\<rparr>"

record create_env =
  ce_ids :: "ident \<Rightarrow> delivery_ids"
  ce_now :: millis

definition create_one :: "create_env \<Rightarrow> ident \<Rightarrow> ident \<Rightarrow> string \<Rightarrow> string \<Rightarrow> webhook \<Rightarrow> notify_db \<Rightarrow> notify_db" where
  "create_one env client project eventType payload w db =
     (let d = new_delivery (next_delivery db) (ce_ids env (next_delivery db)) (ce_now env) client project
                eventType payload w (wh_maxAttempts w)
      in enqueue (dl_id d) (wh_id w) None (insert_delivery d db))"

definition createDeliveries ::
    "create_env \<Rightarrow> ident \<Rightarrow> string \<Rightarrow> event_payload \<Rightarrow> ident option \<Rightarrow> notify_db \<Rightarrow> (error + nat) \<times> notify_db" where
  "createDeliveries env client eventType p project db =
     (let ws = findMatchingWebhooks client eventType db
      in if ws = [] then (Inr 0, db)
         else (case resolve_project project p of
                 Inl e \<Rightarrow> (Inl e, db)
               | Inr pr \<Rightarrow>
                   (Inr (length ws), foldl (\<lambda>d w. create_one env client pr eventType (pl_text p) w d) db ws)))"

section \<open>Delivering\<close>

datatype http_outcome = HttpReply int string headers | HttpError string "string option"

text \<open>
  One delivery attempt: the endpoint's answer, the times, the random number of the jitter, and the
  database calls that fail with the message of their error: the record of the attempt, the update after
  a success, the record in the error path, the update in the failure path and the retry job.
\<close>

record deliver_env =
  de_outcome :: http_outcome
  de_start :: millis
  de_end :: millis
  de_now :: millis
  de_random :: rat
  de_record :: "string option"
  de_sent :: "string option"
  de_record_error :: "string option"
  de_failed :: "string option"
  de_retry :: "string option"

definition find_delivery :: "ident \<Rightarrow> notify_db \<Rightarrow> delivery option" where
  "find_delivery n db = find (\<lambda>d. dl_id d = n) (deliveries db)"

definition update_delivery :: "ident \<Rightarrow> (delivery \<Rightarrow> delivery) \<Rightarrow> notify_db \<Rightarrow> notify_db" where
  "update_delivery n f db = db\<lparr>deliveries := update_where (\<lambda>d. dl_id d = n) f (deliveries db)\<rparr>"

definition request_headers :: "(string \<Rightarrow> string \<Rightarrow> string) \<Rightarrow> webhook \<Rightarrow> delivery \<Rightarrow> headers" where
  "request_headers hmac w d =
     [(''Content-Type'', ''application/json''),
      (''X-Signature'', ''sha256='' @ hmac (dl_payload d) (wh_secret w)),
      (''X-Event-Type'', dl_eventType d), (''X-Delivery-Id'', dl_code d)]
     @ (case or_null (dl_idempotencyKey d) of None \<Rightarrow> [] | Some k \<Rightarrow> [(''X-Idempotency-Key'', k)])
     @ (case or_null (dl_correlationId d) of None \<Rightarrow> [] | Some c \<Rightarrow> [(''X-Correlation-Id'', c)])"

definition is_success :: "int \<Rightarrow> bool" where
  "is_success s \<longleftrightarrow> 200 \<le> s \<and> s < 300"

text \<open>\<open>recordAttempt\<close>: an empty body counts as absent, a long one is cut.\<close>

definition record_attempt :: "attempt \<Rightarrow> notify_db \<Rightarrow> notify_db" where
  "record_attempt a db =
     db\<lparr>attempts_log := attempts_log db @
         [a\<lparr>at_responseBody := map_option (take 5000) (or_null (at_responseBody a))\<rparr>]\<rparr>"

definition reply_attempt ::
    "deliver_env \<Rightarrow> ident \<Rightarrow> int \<Rightarrow> string \<Rightarrow> headers \<Rightarrow> string \<Rightarrow> int \<Rightarrow> string \<Rightarrow> headers \<Rightarrow> attempt" where
  "reply_attempt env n k url hdrs body status rbody rhdrs =
     \<lparr>at_delivery = n, at_number = k, at_status = (if is_success status then ASuccess else AFailed),
      at_url = url, at_requestHeaders = hdrs, at_requestBody = body, at_responseStatus = Some status,
      at_responseHeaders = Some rhdrs, at_responseBody = Some (take 2000 rbody),
      at_responseTimeMs = Some (de_end env - de_start env), at_errorMessage = None, at_errorCode = None\<rparr>"

definition error_attempt ::
    "deliver_env \<Rightarrow> ident \<Rightarrow> int \<Rightarrow> string \<Rightarrow> headers \<Rightarrow> string \<Rightarrow> string \<Rightarrow> string option \<Rightarrow> attempt" where
  "error_attempt env n k url hdrs body msg code =
     \<lparr>at_delivery = n, at_number = k,
      at_status = (if code = Some ''ECONNABORTED'' \<or> code = Some ''ETIMEDOUT'' then ATimeout else AError),
      at_url = url, at_requestHeaders = hdrs, at_requestBody = body, at_responseStatus = None,
      at_responseHeaders = None, at_responseBody = None,
      at_responseTimeMs = Some (de_end env - de_start env), at_errorMessage = Some msg, at_errorCode = code\<rparr>"

definition failure_fields ::
    "deliver_env \<Rightarrow> int option \<Rightarrow> string option \<Rightarrow> headers option \<Rightarrow> headers \<Rightarrow> int \<Rightarrow> string \<Rightarrow> string option
     \<Rightarrow> delivery_status \<Rightarrow> millis option \<Rightarrow> delivery \<Rightarrow> delivery" where
  "failure_fields env status body rhdrs hdrs k msg code st retryAt d =
     d\<lparr>dl_status := st, dl_httpStatus := status, dl_responseBody := body,
       dl_responseTimeMs := Some (de_end env - de_start env), dl_responseHeaders := rhdrs,
       dl_requestHeaders := Some hdrs, dl_attempts := k, dl_lastAttemptAt := Some (de_now env),
       dl_nextRetryAt := retryAt, dl_error := Some msg, dl_errorMessage := Some msg, dl_errorCode := code\<rparr>"

definition handleFailure ::
    "deliver_env \<Rightarrow> delivery \<Rightarrow> retry_config \<Rightarrow> string \<Rightarrow> int option \<Rightarrow> string option \<Rightarrow> headers option \<Rightarrow>
     headers \<Rightarrow> int \<Rightarrow> string option \<Rightarrow> notify_db \<Rightarrow> (error + delivery option) \<times> notify_db" where
  "handleFailure env d c msg status body rhdrs hdrs k code db =
     (if \<not> shouldRetry c status k
      then (case de_failed env of
              Some m \<Rightarrow> (Inl (InternalError m), db)
            | None \<Rightarrow>
                let f = failure_fields env status body rhdrs hdrs k msg code DFailed None
                in (Inr (Some (f d)), update_delivery (dl_id d) f db))
      else
        let delay = computeDelay c (de_random env) k in
        (case de_failed env of
           Some m \<Rightarrow> (Inl (InternalError m), db)
         | None \<Rightarrow>
             let f = failure_fields env status body rhdrs hdrs k msg code DQueued (Some (de_now env + delay));
                 db1 = update_delivery (dl_id d) f db
             in (case de_retry env of
                   Some m \<Rightarrow> (Inl (InternalError m), db1)
                 | None \<Rightarrow> (Inr (Some (f d)), enqueue (dl_id d) (dl_webhook d) (Some delay) db1))))"

text \<open>The \<open>catch\<close> block: the error is recorded as an attempt without an answer, then handled.\<close>

definition on_delivery_error ::
    "deliver_env \<Rightarrow> delivery \<Rightarrow> webhook \<Rightarrow> headers \<Rightarrow> int \<Rightarrow> string \<Rightarrow> string option \<Rightarrow> notify_db
     \<Rightarrow> (error + delivery option) \<times> notify_db" where
  "on_delivery_error env d w hdrs k msg0 code db =
     (let msg = (if msg0 = [] then ''Unknown error'' else msg0) in
      case de_record_error env of
        Some m \<Rightarrow> (Inl (InternalError m), db)
      | None \<Rightarrow>
          handleFailure env d (extractConfig w) msg None None None hdrs k code
            (record_attempt (error_attempt env (dl_id d) k (wh_url w) hdrs (dl_payload d) msg code) db))"

definition fail_delivery :: "deliver_env \<Rightarrow> ident \<Rightarrow> string \<Rightarrow> notify_db \<Rightarrow> notify_db" where
  "fail_delivery env n msg db =
     update_delivery n (\<lambda>d. d\<lparr>dl_status := DFailed, dl_error := Some msg, dl_errorMessage := Some msg,
       dl_lastAttemptAt := Some (de_now env)\<rparr>) db"

definition sent_fields :: "deliver_env \<Rightarrow> int \<Rightarrow> string \<Rightarrow> headers \<Rightarrow> headers \<Rightarrow> int \<Rightarrow> delivery \<Rightarrow> delivery" where
  "sent_fields env status body rhdrs hdrs k d =
     d\<lparr>dl_status := DSent, dl_httpStatus := Some status, dl_responseBody := Some body,
       dl_responseTimeMs := Some (de_end env - de_start env), dl_responseHeaders := Some rhdrs,
       dl_requestHeaders := Some hdrs, dl_attempts := k, dl_lastAttemptAt := Some (de_now env),
       dl_nextRetryAt := None\<rparr>"

definition deliverWebhook ::
    "(string \<Rightarrow> string \<Rightarrow> string) \<Rightarrow> deliver_env \<Rightarrow> ident \<Rightarrow> ident \<Rightarrow> notify_db
     \<Rightarrow> (error + delivery option) \<times> notify_db" where
  "deliverWebhook hmac env n wn db =
     (case find_delivery n db of
        None \<Rightarrow> (Inr None, db)
      | Some d \<Rightarrow>
     (case find_webhook wn db of
        None \<Rightarrow> (Inr None, fail_delivery env n ''Webhook not found'' db)
      | Some w \<Rightarrow>
          if \<not> wh_active w then (Inr None, fail_delivery env n ''Webhook is inactive'' db)
          else
            let hdrs = request_headers hmac w d;
                k = dl_attempts d + 1;
                db1 = db\<lparr>posts := posts db @ [\<lparr>hp_delivery = n, hp_url = wh_url w, hp_body = dl_payload d,
                           hp_headers = hdrs, hp_timeout = wh_timeoutMs w\<rparr>]\<rparr>
            in (case de_outcome env of
                  HttpError msg code \<Rightarrow> on_delivery_error env d w hdrs k msg code db1
                | HttpReply status rbody rhdrs \<Rightarrow>
                    (case de_record env of
                       Some m \<Rightarrow> on_delivery_error env d w hdrs k m None db1
                     | None \<Rightarrow>
                         let db2 = record_attempt (reply_attempt env n k (wh_url w) hdrs (dl_payload d) status rbody rhdrs) db1
                         in if is_success status
                            then (case de_sent env of
                                    Some m \<Rightarrow> on_delivery_error env d w hdrs k m None db2
                                  | None \<Rightarrow>
                                      let f = sent_fields env status (take 2000 rbody) rhdrs hdrs k
                                      in (Inr (Some (f d)), update_delivery n f db2))
                            else handleFailure env d (extractConfig w) (''HTTP '' @ show_int status) (Some status)
                                   (Some (take 2000 rbody)) (Some rhdrs) hdrs k None db2))))"

text \<open>\<open>WebhookWorker.process\<close>: the worker takes a job off the queue; an error fails the job, which has one attempt.\<close>

definition process_job :: "(string \<Rightarrow> string \<Rightarrow> string) \<Rightarrow> deliver_env \<Rightarrow> nat \<Rightarrow> notify_db \<Rightarrow> notify_db" where
  "process_job hmac env i db =
     (if i < length (jobs db)
      then (let j = jobs db ! i
            in snd (deliverWebhook hmac env (jb_delivery j) (jb_webhook j)
                 (db\<lparr>jobs := take i (jobs db) @ drop (Suc i) (jobs db)\<rparr>)))
      else db)"

section \<open>Lemmas\<close>

lemma event_matches_iff:
  "event_matches et e \<longleftrightarrow> e = et \<or> e = ''*'' \<or> (\<exists>p rest. e = p @ ''.*'' \<and> et = p @ rest)"
proof -
  have "(2 \<le> length e \<and> drop (length e - 2) e = ''.*'' \<and> take (length e - 2) et = take (length e - 2) e)
      \<longleftrightarrow> (\<exists>p rest. e = p @ ''.*'' \<and> et = p @ rest)" (is "?l \<longleftrightarrow> ?r")
  proof
    assume l: ?l
    have "e = take (length e - 2) e @ ''.*''" using l by (metis append_take_drop_id)
    moreover have "et = take (length e - 2) e @ drop (length e - 2) et" using l by (metis append_take_drop_id)
    ultimately show ?r by blast
  next
    assume ?r
    then show ?l by auto
  qed
  then show ?thesis unfolding event_matches_def by blast
qed

lemma create_one_frame [simp]:
  "webhooks (create_one env client pr et p w db) = webhooks db"
  "posts (create_one env client pr et p w db) = posts db"
  "attempts_log (create_one env client pr et p w db) = attempts_log db"
  by (simp_all add: create_one_def enqueue_def insert_delivery_def Let_def)

definition created_for ::
    "create_env \<Rightarrow> ident \<Rightarrow> ident \<Rightarrow> string \<Rightarrow> string \<Rightarrow> ident \<Rightarrow> webhook list \<Rightarrow> delivery list" where
  "created_for env client pr et p n ws =
     map (\<lambda>(i, w). new_delivery (n + int i) (ce_ids env (n + int i)) (ce_now env) client pr et p w (wh_maxAttempts w))
       (enumerate 0 ws)"

lemma enumerate_Suc: "enumerate (Suc k) xs = map (\<lambda>(i, x). (Suc i, x)) (enumerate k xs)"
  by (induction xs arbitrary: k) simp_all

lemma created_for_simps [simp]:
  "created_for env client pr et p n [] = []"
  "created_for env client pr et p n (w # ws) =
     new_delivery n (ce_ids env n) (ce_now env) client pr et p w (wh_maxAttempts w)
     # created_for env client pr et p (n + 1) ws"
  by (simp_all add: created_for_def enumerate_Suc case_prod_beta comp_def algebra_simps)

lemma foldl_create_one:
  "foldl (\<lambda>d w. create_one env client pr et p w d) db ws =
     db\<lparr>deliveries := deliveries db @ created_for env client pr et p (next_delivery db) ws,
        jobs := jobs db @ map (\<lambda>d. \<lparr>jb_delivery = dl_id d, jb_webhook = dl_webhook d, jb_delay = None\<rparr>)
          (created_for env client pr et p (next_delivery db) ws),
        next_delivery := next_delivery db + int (length ws)\<rparr>"
  by (induction ws arbitrary: db)
    (simp_all add: create_one_def enqueue_def insert_delivery_def Let_def new_delivery_def)

lemma created_for_fields:
  "map dl_webhook (created_for env client pr et p n ws) = map wh_id ws"
  "map dl_id (created_for env client pr et p n ws) = map (\<lambda>i. n + int i) [0..<length ws]"
  "d \<in> set (created_for env client pr et p n ws) \<Longrightarrow> dl_client d = client \<and> dl_eventType d = et
     \<and> dl_payload d = p \<and> dl_status d = DQueued \<and> dl_attempts d = 0 \<and> dl_project d = pr"
proof (induction ws arbitrary: n)
  case (Cons w ws)
  {
    case 1
    then show ?case using Cons.IH(1) by (simp add: new_delivery_def)
  next
    case 2
    have "map (\<lambda>i. n + int i) [0..<length (w # ws)] = n # map (\<lambda>i. n + 1 + int i) [0..<length ws]"
      by (simp add: upt_rec [of 0] map_Suc_upt [symmetric] comp_def algebra_simps del: upt_Suc)
    then show ?case using Cons.IH(2) [of "n + 1"] by (simp add: new_delivery_def del: upt_Suc)
  next
    case 3
    then show ?case using Cons.IH(3) by (auto simp: new_delivery_def)
  }
qed simp_all

text \<open>An event becomes exactly one queued delivery, with one job, for each active webhook of its
  client that subscribes to it, by its name, by \<open>*\<close> or by a prefix pattern, in the order of registration;
  webhooks of other clients get nothing, and nothing is posted yet.\<close>

lemma each_subscriber_gets_one_delivery:
  assumes "createDeliveries env client et p project db = (Inr n, db')"
  shows "\<exists>ds. n = length (findMatchingWebhooks client et db)
    \<and> (\<forall>w. w \<in> set (findMatchingWebhooks client et db) \<longleftrightarrow>
          w \<in> set (webhooks db) \<and> wh_client w = client \<and> wh_active w
          \<and> (\<exists>e \<in> set (wh_events w). e = et \<or> e = ''*'' \<or> (\<exists>q rest. e = q @ ''.*'' \<and> et = q @ rest)))
    \<and> deliveries db' = deliveries db @ ds \<and> map dl_webhook ds = map wh_id (findMatchingWebhooks client et db)
    \<and> map dl_id ds = map (\<lambda>i. next_delivery db + int i) [0..<n]
    \<and> (\<forall>d \<in> set ds. dl_client d = client \<and> dl_eventType d = et \<and> dl_payload d = pl_text p
          \<and> dl_status d = DQueued \<and> dl_attempts d = 0)
    \<and> jobs db' = jobs db @ map (\<lambda>d. \<lparr>jb_delivery = dl_id d, jb_webhook = dl_webhook d, jb_delay = None\<rparr>) ds
    \<and> posts db' = posts db \<and> webhooks db' = webhooks db"
proof -
  let ?ws = "findMatchingWebhooks client et db"
  have subs: "\<forall>w. w \<in> set ?ws \<longleftrightarrow> w \<in> set (webhooks db) \<and> wh_client w = client \<and> wh_active w
      \<and> (\<exists>e \<in> set (wh_events w). e = et \<or> e = ''*'' \<or> (\<exists>q rest. e = q @ ''.*'' \<and> et = q @ rest))"
    unfolding findMatchingWebhooks_def list_ex_iff event_matches_iff by auto
  show ?thesis
  proof (cases "?ws = []")
    case True
    then show ?thesis using assms subs by (auto simp: createDeliveries_def)
  next
    case False
    with assms obtain pr where n: "n = length ?ws"
      and db': "db' = foldl (\<lambda>d w. create_one env client pr et (pl_text p) w d) db ?ws"
      by (auto simp: createDeliveries_def Let_def split: sum.splits)
    show ?thesis
      using subs n unfolding db' foldl_create_one
      by (intro exI [of _ "created_for env client pr et (pl_text p) (next_delivery db) ?ws"])
        (simp add: created_for_fields)
  qed
qed

section \<open>The life of a delivery\<close>

definition no_faults :: "deliver_env \<Rightarrow> bool" where
  "no_faults env \<longleftrightarrow> de_record env = None \<and> de_sent env = None \<and> de_record_error env = None
     \<and> de_failed env = None \<and> de_retry env = None"

definition post_of :: "(string \<Rightarrow> string \<Rightarrow> string) \<Rightarrow> webhook \<Rightarrow> delivery \<Rightarrow> http_post" where
  "post_of hmac w d =
     \<lparr>hp_delivery = dl_id d, hp_url = wh_url w, hp_body = dl_payload d, hp_headers = request_headers hmac w d,
      hp_timeout = wh_timeoutMs w\<rparr>"

text \<open>What an attempt does not change.\<close>

definition same_delivery :: "delivery \<Rightarrow> delivery \<Rightarrow> bool" where
  "same_delivery a b \<longleftrightarrow> dl_id a = dl_id b \<and> dl_code a = dl_code b \<and> dl_webhook a = dl_webhook b
     \<and> dl_client a = dl_client b \<and> dl_eventType a = dl_eventType b \<and> dl_payload a = dl_payload b
     \<and> dl_idempotencyKey a = dl_idempotencyKey b \<and> dl_correlationId a = dl_correlationId b"

lemma same_delivery_post: "same_delivery a b \<Longrightarrow> post_of hmac w a = post_of hmac w b"
  by (simp add: same_delivery_def post_of_def request_headers_def)

lemma find_delivery_update:
  assumes "\<And>d. dl_id (f d) = dl_id d"
  shows "find_delivery n (update_delivery n f db) = map_option f (find_delivery n db)"
  using assms by (auto simp: find_delivery_def update_delivery_def find_update_where dest: find_SomeD
      intro!: option.map_cong)

lemma frames [simp]:
  "webhooks (update_delivery n f db) = webhooks db" "posts (update_delivery n f db) = posts db"
  "jobs (update_delivery n f db) = jobs db" "find_webhook m (update_delivery n f db) = find_webhook m db"
  "webhooks (record_attempt a db) = webhooks db" "posts (record_attempt a db) = posts db"
  "jobs (record_attempt a db) = jobs db" "deliveries (record_attempt a db) = deliveries db"
  "find_delivery n (record_attempt a db) = find_delivery n db"
  "webhooks (enqueue x y z db) = webhooks db" "posts (enqueue x y z db) = posts db"
  "find_delivery n (enqueue x y z db) = find_delivery n db"
  "find_webhook m (enqueue x y z db) = find_webhook m db"
  "jobs (enqueue x y z db) = jobs db @ [\<lparr>jb_delivery = x, jb_webhook = y, jb_delay = z\<rparr>]"
  "find_delivery n (db\<lparr>posts := ps\<rparr>) = find_delivery n db" "find_webhook m (db\<lparr>posts := ps\<rparr>) = find_webhook m db"
  "find_delivery n (db\<lparr>jobs := js\<rparr>) = find_delivery n db" "find_webhook m (db\<lparr>jobs := js\<rparr>) = find_webhook m db"
  by (simp_all add: update_delivery_def record_attempt_def enqueue_def find_delivery_def find_webhook_def)

lemma failure_fields_simps [simp]:
  "dl_id (failure_fields env s b rh h k m c st ra d) = dl_id d"
  "dl_status (failure_fields env s b rh h k m c st ra d) = st"
  "dl_attempts (failure_fields env s b rh h k m c st ra d) = k"
  "dl_nextRetryAt (failure_fields env s b rh h k m c st ra d) = ra"
  "same_delivery (failure_fields env s b rh h k m c st ra d) d"
  by (simp_all add: failure_fields_def same_delivery_def)

lemma sent_fields_simps [simp]:
  "dl_id (sent_fields env s b rh h k d) = dl_id d" "dl_status (sent_fields env s b rh h k d) = DSent"
  "dl_attempts (sent_fields env s b rh h k d) = k"
  "same_delivery (sent_fields env s b rh h k d) d"
  by (simp_all add: sent_fields_def same_delivery_def)

text \<open>What the endpoint answered: a 2xx reply accepts the delivery; a reply whose status is listed for no
  retry, or is below 500 and not listed for a retry, ends it; anything else may be tried again.\<close>

definition accepts :: "deliver_env \<Rightarrow> bool" where
  "accepts e \<longleftrightarrow> (case de_outcome e of HttpError _ _ \<Rightarrow> False | HttpReply s _ _ \<Rightarrow> 200 \<le> s \<and> s < 300)"

definition refuses :: "webhook \<Rightarrow> deliver_env \<Rightarrow> bool" where
  "refuses w e \<longleftrightarrow> (case de_outcome e of HttpError _ _ \<Rightarrow> False
     | HttpReply s _ _ \<Rightarrow> show_int s \<in> set (rc_failOn (extractConfig w))
         \<or> (show_int s \<notin> set (rc_retryOn (extractConfig w)) \<and> s < 500))"

text \<open>The outcome of one attempt: sent, failed, or one retry job with the next attempt number.\<close>

definition attempt_outcome :: "webhook \<Rightarrow> deliver_env \<Rightarrow> delivery \<Rightarrow> notify_db \<Rightarrow> notify_db \<Rightarrow> bool" where
  "attempt_outcome w e d db db' \<longleftrightarrow>
     (\<exists>d'. find_delivery (dl_id d) db' = Some d' \<and> same_delivery d' d \<and> webhooks db' = webhooks db \<and> posts db' = posts db
       \<and> dl_attempts d' = dl_attempts d + 1
       \<and> (accepts e \<and> dl_status d' = DSent \<and> jobs db' = jobs db
          \<or> \<not> accepts e \<and> (wh_maxAttempts w \<le> dl_attempts d + 1 \<or> refuses w e) \<and> dl_status d' = DFailed \<and> jobs db' = jobs db
          \<or> \<not> accepts e \<and> \<not> refuses w e \<and> dl_status d' = DQueued \<and> dl_attempts d + 1 < wh_maxAttempts w
            \<and> (\<exists>delay. jobs db' = jobs db @ [\<lparr>jb_delivery = dl_id d, jb_webhook = dl_webhook d, jb_delay = Some delay\<rparr>])))"

definition answered_status :: "deliver_env \<Rightarrow> int option" where
  "answered_status e = (case de_outcome e of HttpError _ _ \<Rightarrow> None | HttpReply s _ _ \<Rightarrow> Some s)"

lemma shouldRetry_answer:
  "shouldRetry (extractConfig w) (answered_status e) k \<longleftrightarrow> k < wh_maxAttempts w \<and> \<not> refuses w e"
proof -
  have "rc_maxAttempts (extractConfig w) = wh_maxAttempts w" by (simp add: extractConfig_def)
  then show ?thesis
    by (cases "de_outcome e") (auto simp: shouldRetry_def refuses_def answered_status_def)
qed

lemma handleFailure_outcome:
  assumes "no_faults env" "find_delivery (dl_id d) db = Some d" "\<not> accepts env" "status = answered_status env"
  shows "attempt_outcome w env d db (snd (handleFailure env d (extractConfig w) msg status body rhdrs hdrs
    (dl_attempts d + 1) code db))"
proof (cases "shouldRetry (extractConfig w) status (dl_attempts d + 1)")
  case True
  then have "dl_attempts d + 1 < wh_maxAttempts w" "\<not> refuses w env"
    using assms(4) shouldRetry_answer by blast+
  then show ?thesis
    using assms(1-3) True by (simp add: handleFailure_def attempt_outcome_def no_faults_def Let_def find_delivery_update)
next
  case False
  then have "wh_maxAttempts w \<le> dl_attempts d + 1 \<or> refuses w env"
    using assms(4) shouldRetry_answer [of w env "dl_attempts d + 1"] by auto
  then show ?thesis
    using assms(1-3) False by (simp add: handleFailure_def attempt_outcome_def no_faults_def Let_def find_delivery_update)
qed

lemma attempt_outcome_posts:
  "attempt_outcome w e d (db\<lparr>posts := ps\<rparr>) db' \<Longrightarrow> find_delivery (dl_id d) db = Some d \<Longrightarrow>
     posts db' = ps \<and> attempt_outcome w e d db (db'\<lparr>posts := posts db\<rparr>)"
  by (auto simp: attempt_outcome_def)

lemma attempt_outcome_record:
  "attempt_outcome w e d (record_attempt a db) db' \<Longrightarrow> attempt_outcome w e d db db'"
  by (simp add: attempt_outcome_def)

lemma handleFailure_recorded:
  assumes "no_faults env" "find_delivery (dl_id d) db = Some d" "\<not> accepts env" "status = answered_status env"
  shows "attempt_outcome w env d db (snd (handleFailure env d (extractConfig w) msg status body rhdrs hdrs
    (dl_attempts d + 1) code (record_attempt a db)))"
  by (rule attempt_outcome_record, rule handleFailure_outcome) (simp_all add: assms)

lemma found_id: "find_delivery n db = Some d \<Longrightarrow> dl_id d = n"
  unfolding find_delivery_def by (drule find_SomeD) simp

lemma deliver_outcome:
  assumes "no_faults env" "find_delivery (dl_id d) db = Some d" "find_webhook wn db = Some w" "wh_active w"
  shows "posts (snd (deliverWebhook hmac env (dl_id d) wn db)) = posts db @ [post_of hmac w d]
    \<and> attempt_outcome w env d db ((snd (deliverWebhook hmac env (dl_id d) wn db))\<lparr>posts := posts db\<rparr>)"
proof -
  let ?db1 = "db\<lparr>posts := posts db @ [post_of hmac w d]\<rparr>"
  let ?res = "snd (deliverWebhook hmac env (dl_id d) wn db)"
  have d1: "find_delivery (dl_id d) ?db1 = Some d" using assms(2) by simp
  note rec = handleFailure_recorded [OF assms(1) d1]
  have "attempt_outcome w env d ?db1 ?res"
  proof (cases "de_outcome env")
    case (HttpError msg code)
    then show ?thesis
      using assms rec by (simp add: deliverWebhook_def on_delivery_error_def no_faults_def post_of_def Let_def
          accepts_def answered_status_def)
  next
    case (HttpReply status rbody rhdrs)
    show ?thesis
    proof (cases "is_success status")
      case True
      then show ?thesis
        using assms HttpReply
        by (simp add: deliverWebhook_def no_faults_def post_of_def Let_def attempt_outcome_def find_delivery_update
            accepts_def is_success_def)
    next
      case False
      then have "\<not> accepts env" "answered_status env = Some status"
        using HttpReply by (auto simp: accepts_def is_success_def answered_status_def)
      then show ?thesis
        using False assms HttpReply rec by (simp add: deliverWebhook_def no_faults_def post_of_def Let_def)
    qed
  qed
  then show ?thesis using attempt_outcome_posts [of w env d _ db] assms(2) by blast
qed

text \<open>The worker's steps on one delivery: its first waiting job, as long as there is one.\<close>

definition jobs_of :: "ident \<Rightarrow> notify_db \<Rightarrow> job list" where
  "jobs_of n db = filter (\<lambda>j. jb_delivery j = n) (jobs db)"

definition job_index :: "ident \<Rightarrow> notify_db \<Rightarrow> nat" where
  "job_index n db = length (takeWhile (\<lambda>j. jb_delivery j \<noteq> n) (jobs db))"

fun attempt_chain :: "(string \<Rightarrow> string \<Rightarrow> string) \<Rightarrow> deliver_env list \<Rightarrow> ident \<Rightarrow> notify_db \<Rightarrow> notify_db" where
  "attempt_chain hmac [] n db = db"
| "attempt_chain hmac (e # es) n db =
     (if jobs_of n db = [] then db
      else attempt_chain hmac es n (process_job hmac e (job_index n db) db))"

lemma single_job:
  assumes "filter p xs = [j]"
  defines "i \<equiv> length (takeWhile (\<lambda>x. \<not> p x) xs)"
  shows "i < length xs \<and> xs ! i = j \<and> filter p (take i xs @ drop (Suc i) xs) = []"
  using assms(1) unfolding i_def
proof (induction xs)
  case (Cons x xs)
  then show ?case by (cases "p x") auto
qed simp

lemma process_single_job:
  assumes "jobs_of n db = [j]"
  shows "process_job hmac e (job_index n db) db =
      snd (deliverWebhook hmac e n (jb_webhook j)
        (db\<lparr>jobs := take (job_index n db) (jobs db) @ drop (Suc (job_index n db)) (jobs db)\<rparr>))"
    and "jobs_of n (db\<lparr>jobs := take (job_index n db) (jobs db) @ drop (Suc (job_index n db)) (jobs db)\<rparr>) = []"
proof -
  have i: "job_index n db < length (jobs db)" "jobs db ! job_index n db = j"
    "filter (\<lambda>j. jb_delivery j = n) (take (job_index n db) (jobs db) @ drop (Suc (job_index n db)) (jobs db)) = []"
    using single_job [of "\<lambda>j. jb_delivery j = n" "jobs db" j] assms by (auto simp: jobs_of_def job_index_def)
  have "j \<in> set (filter (\<lambda>j. jb_delivery j = n) (jobs db))" using assms by (simp add: jobs_of_def)
  then have "jb_delivery j = n" by simp
  then show "process_job hmac e (job_index n db) db =
      snd (deliverWebhook hmac e n (jb_webhook j)
        (db\<lparr>jobs := take (job_index n db) (jobs db) @ drop (Suc (job_index n db)) (jobs db)\<rparr>))"
    using i by (simp add: process_job_def Let_def)
  show "jobs_of n (db\<lparr>jobs := take (job_index n db) (jobs db) @ drop (Suc (job_index n db)) (jobs db)\<rparr>) = []"
    using i(3) by (simp add: jobs_of_def)
qed

lemma attempt_chain_idle: "jobs_of n db = [] \<Longrightarrow> attempt_chain hmac es n db = db"
  by (cases es) simp_all

text \<open>Claim C22. A queued delivery is over after a bounded number of attempts, whatever the endpoint answers:
  at most the attempts its webhook has left (and at least one), each posting the same body with the same
  signature, event type, delivery code and idempotency key, and none after an accepted one. After that many no
  job for it waits, the attempts are counted, and the delivery is sent when the last answer was a 2xx; otherwise
  it is failed, and then the attempts of its webhook are used up or the last answer has a status that is not
  retried.\<close>

theorem delivery_ends_after_bounded_attempts:
  assumes "find_delivery (dl_id d) db = Some d" "dl_status d = DQueued"
    and "find_webhook (dl_webhook d) db = Some w" "wh_active w"
    and "jobs_of (dl_id d) db = [j]" "jb_webhook j = dl_webhook d" "\<forall>e \<in> set es. no_faults e"
  shows "\<exists>k. posts (attempt_chain hmac es (dl_id d) db) = posts db @ replicate k (post_of hmac w d)
    \<and> k \<le> length es \<and> k \<le> max 1 (nat (wh_maxAttempts w - dl_attempts d))
    \<and> (\<forall>i. Suc i < k \<longrightarrow> \<not> accepts (es ! i))
    \<and> (max 1 (nat (wh_maxAttempts w - dl_attempts d)) \<le> length es \<longrightarrow>
         0 < k \<and> jobs_of (dl_id d) (attempt_chain hmac es (dl_id d) db) = []
         \<and> (\<exists>d'. find_delivery (dl_id d) (attempt_chain hmac es (dl_id d) db) = Some d'
              \<and> dl_attempts d' = dl_attempts d + int k
              \<and> (if accepts (es ! (k - 1)) then dl_status d' = DSent
                 else dl_status d' = DFailed \<and> (wh_maxAttempts w \<le> dl_attempts d + int k \<or> refuses w (es ! (k - 1))))))"
  using assms
proof (induction es arbitrary: d db j)
  case Nil
  then show ?case by (intro exI [of _ 0]) simp
next
  case (Cons e es)
  let ?n = "dl_id d"
  let ?db0 = "db\<lparr>jobs := take (job_index ?n db) (jobs db) @ drop (Suc (job_index ?n db)) (jobs db)\<rparr>"
  let ?db1 = "snd (deliverWebhook hmac e ?n (dl_webhook d) ?db0)"
  have chain: "attempt_chain hmac (e # es) ?n db = attempt_chain hmac es ?n ?db1"
    using Cons.prems(5,6) process_single_job(1) [OF Cons.prems(5)] by simp
  have none: "jobs_of ?n ?db0 = []" by (rule process_single_job(2) [OF Cons.prems(5)])
  have out: "posts ?db1 = posts db @ [post_of hmac w d]"
    "attempt_outcome w e d ?db0 (?db1\<lparr>posts := posts ?db0\<rparr>)"
    using deliver_outcome [of e d ?db0 "dl_webhook d" w hmac] Cons.prems by auto
  from out(2) obtain d' where d': "find_delivery ?n ?db1 = Some d'" "same_delivery d' d" "dl_attempts d' = dl_attempts d + 1"
    and wh: "webhooks ?db1 = webhooks db"
    and alt: "accepts e \<and> dl_status d' = DSent \<and> jobs ?db1 = jobs ?db0
          \<or> \<not> accepts e \<and> (wh_maxAttempts w \<le> dl_attempts d + 1 \<or> refuses w e) \<and> dl_status d' = DFailed \<and> jobs ?db1 = jobs ?db0
          \<or> \<not> accepts e \<and> \<not> refuses w e \<and> dl_status d' = DQueued \<and> dl_attempts d + 1 < wh_maxAttempts w
            \<and> (\<exists>delay. jobs ?db1 = jobs ?db0 @ [\<lparr>jb_delivery = ?n, jb_webhook = dl_webhook d, jb_delay = Some delay\<rparr>])"
    by (auto simp: attempt_outcome_def)
  have over: ?case if js: "jobs ?db1 = jobs ?db0"
    and last: "if accepts e then dl_status d' = DSent
      else dl_status d' = DFailed \<and> (wh_maxAttempts w \<le> dl_attempts d + 1 \<or> refuses w e)"
  proof -
    have idle: "jobs_of ?n ?db1 = []" using none js by (simp add: jobs_of_def)
    show ?thesis
      unfolding chain attempt_chain_idle [OF idle]
      using out(1) d'(1,3) idle last by (intro exI [of _ 1]) auto
  qed
  from alt show ?case
  proof (elim disjE conjE exE)
    fix delay
    assume q: "dl_status d' = DQueued" "\<not> accepts e" "dl_attempts d + 1 < wh_maxAttempts w"
      and js: "jobs ?db1 = jobs ?db0 @ [\<lparr>jb_delivery = ?n, jb_webhook = dl_webhook d, jb_delay = Some delay\<rparr>]"
    have id: "dl_id d' = ?n" "dl_webhook d' = dl_webhook d" using d'(2) by (simp_all add: same_delivery_def)
    have "jobs_of ?n ?db1 = [\<lparr>jb_delivery = ?n, jb_webhook = dl_webhook d, jb_delay = Some delay\<rparr>]"
      using none js by (simp add: jobs_of_def)
    moreover have "find_webhook (dl_webhook d) ?db1 = Some w"
      using Cons.prems(3) wh by (simp add: find_webhook_def)
    ultimately obtain k where k: "posts (attempt_chain hmac es ?n ?db1) = posts ?db1 @ replicate k (post_of hmac w d')"
      "k \<le> length es" "k \<le> max 1 (nat (wh_maxAttempts w - dl_attempts d'))" "\<forall>i. Suc i < k \<longrightarrow> \<not> accepts (es ! i)"
      "max 1 (nat (wh_maxAttempts w - dl_attempts d')) \<le> length es \<longrightarrow>
         0 < k \<and> jobs_of ?n (attempt_chain hmac es ?n ?db1) = []
         \<and> (\<exists>d''. find_delivery ?n (attempt_chain hmac es ?n ?db1) = Some d'' \<and> dl_attempts d'' = dl_attempts d' + int k
              \<and> (if accepts (es ! (k - 1)) then dl_status d'' = DSent
                 else dl_status d'' = DFailed \<and> (wh_maxAttempts w \<le> dl_attempts d' + int k \<or> refuses w (es ! (k - 1)))))"
      using Cons.IH [of d' ?db1 "\<lparr>jb_delivery = ?n, jb_webhook = dl_webhook d, jb_delay = Some delay\<rparr>"]
        d'(1) q(1) id Cons.prems(4,7) by auto
    have m: "max 1 (nat (wh_maxAttempts w - dl_attempts d)) = Suc (max 1 (nat (wh_maxAttempts w - dl_attempts d')))"
      using q(3) d'(3) by linarith
    have earlier: "\<forall>i. Suc i < Suc k \<longrightarrow> \<not> accepts ((e # es) ! i)"
      using k(4) q(2) by (auto simp: nth_Cons split: nat.split)
    have last: "0 < k \<longrightarrow> (e # es) ! (Suc k - 1) = es ! (k - 1)" by (cases k) simp_all
    show ?thesis
      unfolding chain m
      using k(1-3,5) out(1) same_delivery_post [OF d'(2)] d'(3) earlier last
      by (intro exI [of _ "Suc k"]) (auto simp: algebra_simps)
  qed (use over in simp_all)
qed

section \<open>Delays\<close>

text \<open>A retry is never scheduled later than the webhook's maximum and, for a random number below 1,
  never earlier than three quarters of the backoff, rounded down; the delivery's next attempt and the delay of
  the queued job agree, and the backoff does not shrink from one attempt to the next.\<close>

lemma retry_delays_are_bounded:
  assumes "shouldRetry c status k" "no_faults env" "0 \<le> de_random env" "de_random env < 1" "1 \<le> k"
    and "0 \<le> rc_baseMs c" "0 \<le> rc_maxMs c" "find_delivery (dl_id d) db = Some d"
  shows "\<exists>delay d'. handleFailure env d c msg status body rhdrs hdrs k code db
      = (Inr (Some d'), snd (handleFailure env d c msg status body rhdrs hdrs k code db))
    \<and> dl_nextRetryAt d' = Some (de_now env + delay) \<and> dl_attempts d' = k
    \<and> jobs (snd (handleFailure env d c msg status body rhdrs hdrs k code db))
        = jobs db @ [\<lparr>jb_delivery = dl_id d, jb_webhook = dl_webhook d, jb_delay = Some delay\<rparr>]
    \<and> 3 * min (base_delay c k) (rc_maxMs c) div 4 \<le> delay \<and> delay \<le> rc_maxMs c \<and> 0 \<le> delay
    \<and> base_delay c k \<le> base_delay c (k + 1)"
proof -
  let ?b = "min (base_delay c k) (rc_maxMs c)" and ?r = "de_random env"
  have "nat k = Suc (nat (k - 1))" using assms(5) by simp
  then have pow: "(2 :: int) ^ nat k = 2 * 2 ^ nat (k - 1)" by simp
  have grow: "base_delay c k \<le> base_delay c (k + 1)"
    using assms(5,6) by (cases "rc_backoff c") (simp_all add: base_delay_def pow algebra_simps)
  have "0 \<le> base_delay c k"
    using assms(5,6) by (cases "rc_backoff c") (simp_all add: base_delay_def)
  then have b: "0 \<le> ?b" using assms(7) by simp
  have "3 * ?b div 4 \<le> computeDelay c ?r k \<and> computeDelay c ?r k \<le> ?b"
  proof (cases "rc_jitter c")
    case False
    then show ?thesis using b by (simp add: computeDelay_def Let_def) linarith
  next
    case True
    have q: "3 / 4 \<le> 1 - ?r / 4" "1 - ?r / 4 \<le> 1" using assms(3,4) by simp_all
    have "of_int (3 * ?b div 4) \<le> (of_int (3 * ?b) / 4 :: rat)"
      by (metis floor_divide_of_int_eq of_int_floor_le of_int_numeral)
    also have "\<dots> = of_int ?b * (3 / 4)" by simp
    also have "\<dots> \<le> of_int ?b * (1 - ?r / 4)" using q(1) b by (intro mult_left_mono) simp_all
    finally have "3 * ?b div 4 \<le> \<lfloor>of_int ?b * (1 - ?r / 4)\<rfloor>" by (simp add: le_floor_iff)
    moreover have "of_int ?b * (1 - ?r / 4) \<le> of_int ?b" using q(2) b by (simp add: mult_left_le)
    then have "\<lfloor>of_int ?b * (1 - ?r / 4)\<rfloor> \<le> ?b" by (simp add: floor_le_iff) linarith
    ultimately show ?thesis using True by (simp add: computeDelay_def Let_def)
  qed
  moreover have "0 \<le> 3 * ?b div 4" using b by (intro pos_imp_zdiv_nonneg_iff [THEN iffD2]) linarith+
  ultimately show ?thesis
    using assms(1,2) grow by (intro exI [of _ "computeDelay c ?r k"])
      (auto simp: handleFailure_def no_faults_def Let_def)
qed

section \<open>An instance\<close>

definition small_webhook :: webhook where
  "small_webhook =
     \<lparr>wh_id = 1, wh_client = 7, wh_project = 2, wh_url = ''https://x'', wh_secret = ''k'',
      wh_events = [''deposit.*''], wh_active = True, wh_maxAttempts = 2, wh_backoff = Exponential,
      wh_baseMs = 1000, wh_maxMs = 3600000, wh_jitter = True, wh_timeoutMs = 10000,
      wh_retryOn = NoCodes, wh_failOn = NoCodes, wh_description = None, wh_created = 0\<rparr>"

definition small_notify :: notify_db where
  "small_notify =
     \<lparr>webhooks = [small_webhook], deliveries = [], attempts_log = [], jobs = [], posts = [],
      next_webhook = 2, next_delivery = 1\<rparr>"

definition small_create_env :: create_env where
  "small_create_env =
     \<lparr>ce_ids = (\<lambda>i. \<lparr>id_code = ''dlv'', id_idempotency = ''idem'', id_correlation = ''cor''\<rparr>), ce_now = 5\<rparr>"

definition small_payload :: event_payload where
  "small_payload = \<lparr>pl_text = ''{}'', pl_data = [(''projectId'', ''2'')], pl_top = []\<rparr>"

definition small_delivery :: delivery where
  "small_delivery =
     new_delivery 1 (ce_ids small_create_env 1) 5 7 2 ''deposit.confirmed'' ''{}'' small_webhook 2"

definition queued_notify :: notify_db where
  "queued_notify = enqueue 1 1 None (insert_delivery small_delivery small_notify)"

definition unreachable :: deliver_env where
  "unreachable =
     \<lparr>de_outcome = HttpError ''ECONNREFUSED'' None, de_start = 0, de_end = 1, de_now = 2, de_random = 0,
      de_record = None, de_sent = None, de_record_error = None, de_failed = None, de_retry = None\<rparr>"

lemma each_subscriber_gets_one_delivery_witness:
  "\<exists>db'. createDeliveries small_create_env 7 ''deposit.confirmed'' small_payload None small_notify = (Inr 1, db')
     \<and> map jb_delivery (jobs db') = [1]"
proof -
  let ?x = "createDeliveries small_create_env 7 ''deposit.confirmed'' small_payload None small_notify"
  have "fst ?x = Inr 1" by code_simp
  then have x: "?x = (Inr 1, snd ?x)" by (cases ?x) simp
  obtain ds :: "delivery list" where
    ids: "map dl_id ds = map (\<lambda>i. next_delivery small_notify + int i) [0..<1]"
    and js: "jobs (snd ?x) = jobs small_notify @ map (\<lambda>d. \<lparr>jb_delivery = dl_id d, jb_webhook = dl_webhook d, jb_delay = None\<rparr>) ds"
    using each_subscriber_gets_one_delivery [OF x] by (elim exE conjE) (rule that)
  have "map jb_delivery (jobs (snd ?x)) = map jb_delivery (jobs small_notify) @ map dl_id ds"
    unfolding js by (simp add: comp_def)
  also have "\<dots> = [1]" unfolding ids by (simp add: small_notify_def)
  finally have "map jb_delivery (jobs (snd ?x)) = [1]" .
  with x show ?thesis by (intro exI [of _ "snd ?x"] conjI)
qed

lemma queued_notify_facts:
  "find_delivery (dl_id small_delivery) queued_notify = Some small_delivery" "dl_status small_delivery = DQueued"
  "find_webhook (dl_webhook small_delivery) queued_notify = Some small_webhook" "wh_active small_webhook"
  "jobs_of (dl_id small_delivery) queued_notify = [\<lparr>jb_delivery = 1, jb_webhook = 1, jb_delay = None\<rparr>]"
  "dl_webhook small_delivery = 1" "no_faults unreachable"
  by (simp_all add: queued_notify_def small_delivery_def small_notify_def new_delivery_def small_webhook_def
      insert_delivery_def find_delivery_def find_webhook_def enqueue_def jobs_of_def no_faults_def unreachable_def)

theorem delivery_ends_after_bounded_attempts_witness:
  "jobs_of (dl_id small_delivery) (attempt_chain (\<lambda>p s. s @ p) [unreachable, unreachable] (dl_id small_delivery) queued_notify) = []"
proof -
  have "max 1 (nat (wh_maxAttempts small_webhook - dl_attempts small_delivery)) = 2"
    by (simp add: small_webhook_def small_delivery_def new_delivery_def)
  then show ?thesis
    using delivery_ends_after_bounded_attempts [OF queued_notify_facts(1-5),
        of "[unreachable, unreachable]" "\<lambda>p s. s @ p"] queued_notify_facts(6,7) by auto
qed

lemma retry_delays_are_bounded_witness:
  "\<exists>delay. jobs (snd (handleFailure unreachable small_delivery (extractConfig small_webhook) ''e'' None None None [] 1 None queued_notify))
       = jobs queued_notify @ [\<lparr>jb_delivery = dl_id small_delivery, jb_webhook = dl_webhook small_delivery, jb_delay = Some delay\<rparr>]
     \<and> delay \<le> 3600000"
proof -
  have s: "shouldRetry (extractConfig small_webhook) None 1"
    by (simp add: shouldRetry_def extractConfig_def small_webhook_def)
  have r: "0 \<le> de_random unreachable" "de_random unreachable < 1" by (simp_all add: unreachable_def)
  have c: "0 \<le> rc_baseMs (extractConfig small_webhook)" "0 \<le> rc_maxMs (extractConfig small_webhook)"
    "rc_maxMs (extractConfig small_webhook) = 3600000"
    by (simp_all add: extractConfig_def small_webhook_def)
  show ?thesis
    using retry_delays_are_bounded [OF s queued_notify_facts(7) r order_refl c(1,2) queued_notify_facts(1),
        of "''e''" None None "[]" None] unfolding c(3) by blast
qed

end
