(* ===== verification/EventConsumer.thy ===== *)
theory EventConsumer
  imports ConfirmationTracker Webhooks "HOL-Library.AList"
begin

text \<open>
  How events reach the webhooks: the consumer of the Redis streams and of the Kafka topics
  (services/notification-service/src/event-consumer/event-consumer.service.ts), the alerts of the gas
  tanks (gas-tank-alerts/gas-tank-alerts.consumer.ts), the publication of an event on both transports
  (packages/event-bus/src/event-bus.service.ts, topics.ts), and the fields the confirmation tracker
  publishes. A stream is the list of its entries with their increasing numbers; the consumer group of the
  service remembers the last entry it handed out and the entries not yet acknowledged, with the time of
  their last delivery. \<open>handled\<close> records for every entry each processing of it and whether it succeeded, as the
  service's log does; it is written before and apart from any acknowledgement. The JSON texts and the clock's texts are parameters. A failing database fails the first
  query of the processing of an entry.
\<close>

section \<open>Streams and tables\<close>

definition STREAM_EVENT_MAP :: "(string \<times> string) list" where
  "STREAM_EVENT_MAP =
     [(''deposits:detected'', ''deposit.detected''), (''deposits:confirmation'', ''deposit.confirmed''),
      (''deposits:swept'', ''deposit.swept''), (''deposits:sweep_pending'', ''deposit.sweep_pending''),
      (''withdrawals:submitted'', ''withdrawal.submitted''), (''withdrawals:broadcasting'', ''withdrawal.broadcasting''),
      (''withdrawals:confirmed'', ''withdrawal.confirmed''), (''withdrawals:failed'', ''withdrawal.failed''),
      (''gas_tank:alerts'', ''gas_tank.low_balance'')]"

record stream_entry =
  se_id :: nat
  se_fields :: "string list"

record pending_entry =
  pe_id :: nat
  pe_since :: millis

record stream_state =
  ss_entries :: "stream_entry list"
  ss_last :: nat
  ss_pending :: "pending_entry list"

record alert_config =
  ac_project :: ident
  ac_chain :: int
  ac_webhook :: bool
  ac_email :: bool

record bus =
  streams :: "string \<Rightarrow> stream_state"
  notify :: notify_db
  alert_configs :: "alert_config list"
  project_clients :: "(ident \<times> ident) list"
  handled :: "(string \<times> nat \<times> bool) list"
  topic_log :: "(string \<times> (string \<times> string) list) list"

text \<open>The parsing of a payload field and the text of the payload are the arguments of the processing of an
  entry, with the time of the entry and whether the database answers.\<close>

record entry_env =
  ee_time :: string
  ee_json :: "string \<Rightarrow> string \<Rightarrow> (string \<times> string) list \<Rightarrow> string"
  ee_parse :: "string \<Rightarrow> (string \<times> string) list option"
  ee_create :: create_env
  ee_down :: bool

section \<open>Processing an entry\<close>

text \<open>The flat list of keys and values becomes an object; a repeated key keeps its place and takes the last value.\<close>

fun fields_object :: "string list \<Rightarrow> (string \<times> string) list \<Rightarrow> (string \<times> string) list" where
  "fields_object (k # v # rest) acc = fields_object rest (AList.update k v acc)"
| "fields_object _ acc = acc"

definition truthy_field :: "(string \<times> string) list \<Rightarrow> string \<Rightarrow> string option" where
  "truthy_field data k = or_null (map_of data k)"

definition either_field :: "(string \<times> string) list \<Rightarrow> string \<Rightarrow> string \<Rightarrow> string option" where
  "either_field data a b = (case truthy_field data a of Some v \<Rightarrow> Some v | None \<Rightarrow> truthy_field data b)"

definition nullish_field :: "(string \<times> string) list \<Rightarrow> string \<Rightarrow> string \<Rightarrow> string" where
  "nullish_field data a b =
     (case map_of data a of Some v \<Rightarrow> v | None \<Rightarrow> (case map_of data b of Some v \<Rightarrow> v | None \<Rightarrow> []))"

text \<open>\<open>BigInt(Number(s))\<close>: the empty text is 0, a text that is no integer throws.\<close>

definition number_id :: "string \<Rightarrow> ident option" where
  "number_id s = (if s = [] then Some 0 else big_int s)"

record alert =
  al_project :: string
  al_chain :: string
  al_address :: string
  al_balance :: string
  al_threshold :: string
  al_time :: string

definition find_alert_config :: "ident \<Rightarrow> int \<Rightarrow> bus \<Rightarrow> alert_config option" where
  "find_alert_config p c st = find (\<lambda>a. ac_project a = p \<and> ac_chain a = c) (alert_configs st)"

definition alert_payload :: "entry_env \<Rightarrow> ident \<Rightarrow> int \<Rightarrow> alert \<Rightarrow> event_payload" where
  "alert_payload env p c a =
     (let top = [(''projectId'', show_int p), (''chainId'', show_int c), (''address'', al_address a),
          (''balanceWei'', al_balance a), (''thresholdWei'', al_threshold a), (''timestamp'', al_time a)]
      in \<lparr>pl_text = ee_json env [] [] top, pl_data = [], pl_top = top\<rparr>)"

definition create_for :: "entry_env \<Rightarrow> ident \<Rightarrow> string \<Rightarrow> event_payload \<Rightarrow> ident option \<Rightarrow> bus \<Rightarrow> (error + unit) \<times> bus" where
  "create_for env client et p project st =
     (if ee_down env then (Inl (InternalError ''database''), st)
      else (case createDeliveries (ee_create env) client et p project (notify st) of
              (Inl e, db) \<Rightarrow> (Inl e, st\<lparr>notify := db\<rparr>)
            | (Inr _, db) \<Rightarrow> (Inr (), st\<lparr>notify := db\<rparr>)))"

definition handleAlert :: "entry_env \<Rightarrow> alert \<Rightarrow> bus \<Rightarrow> (error + unit) \<times> bus" where
  "handleAlert env a st =
     (case (number_id (al_project a), number_id (al_chain a)) of
        (Some p, Some c) \<Rightarrow>
          if ee_down env then (Inl (InternalError ''database''), st)
          else (case find_alert_config p c st of
             None \<Rightarrow> (Inr (), st)
           | Some cfg \<Rightarrow>
               if ac_webhook cfg
               then (case map_of (project_clients st) p of
                       None \<Rightarrow> (Inr (), st)
                     | Some client \<Rightarrow>
                         create_for env client ''gas_tank.low_balance'' (alert_payload env p c a) (Some p) st)
               else (Inr (), st))
      | _ \<Rightarrow> (Inl (InternalError ''NaN''), st))"

definition optional_id :: "string option \<Rightarrow> error + ident option" where
  "optional_id s =
     (case s of None \<Rightarrow> Inr None
      | Some t \<Rightarrow> (case big_int t of None \<Rightarrow> Inl (InternalError ''SyntaxError'') | Some n \<Rightarrow> Inr (Some n)))"

definition dispatch :: "entry_env \<Rightarrow> string \<Rightarrow> event_payload \<Rightarrow> (string \<times> string) list \<Rightarrow> string \<Rightarrow> bus \<Rightarrow> (error + unit) \<times> bus" where
  "dispatch env et p data client st =
     (case big_int client of
        None \<Rightarrow> (Inl (InternalError ''SyntaxError''), st)
      | Some c \<Rightarrow>
          (case optional_id (either_field data ''projectId'' ''project_id'') of
             Inl e \<Rightarrow> (Inl e, st)
           | Inr project \<Rightarrow> create_for env c et p project st))"

definition entry_payload :: "entry_env \<Rightarrow> string \<Rightarrow> (string \<times> string) list \<Rightarrow> event_payload" where
  "entry_payload env et data =
     (let d = (case truthy_field data ''payload'' of
                 None \<Rightarrow> data
               | Some t \<Rightarrow> (case ee_parse env t of None \<Rightarrow> data | Some d \<Rightarrow> d))
      in \<lparr>pl_text = ee_json env et (ee_time env) d, pl_data = d,
          pl_top = [(''event'', et), (''timestamp'', ee_time env)]\<rparr>)"

definition alert_of :: "entry_env \<Rightarrow> (string \<times> string) list \<Rightarrow> alert" where
  "alert_of env data =
     \<lparr>al_project = nullish_field data ''projectId'' ''project_id'', al_chain = nullish_field data ''chainId'' ''chain_id'',
      al_address = nullish_field data ''address'' ''address'', al_balance = nullish_field data ''balanceWei'' ''balance_wei'',
      al_threshold = nullish_field data ''thresholdWei'' ''threshold_wei'',
      al_time = (case map_of data ''timestamp'' of Some t \<Rightarrow> t | None \<Rightarrow> ee_time env)\<rparr>"

definition processStreamEntry :: "entry_env \<Rightarrow> string list \<Rightarrow> string \<Rightarrow> bus \<Rightarrow> (error + unit) \<times> bus" where
  "processStreamEntry env flat eventType st =
     (let data = fields_object flat [] in
      if eventType = ''gas_tank.low_balance'' then handleAlert env (alert_of env data) st
      else (case either_field data ''clientId'' ''client_id'' of
              None \<Rightarrow> (Inr (), st)
            | Some client \<Rightarrow> dispatch env eventType (entry_payload env eventType data) data client st))"

section \<open>The consumer group\<close>

definition BATCH_SIZE :: nat where "BATCH_SIZE = 10"
definition PENDING_BATCH_SIZE :: nat where "PENDING_BATCH_SIZE = 10"
definition PENDING_MIN_IDLE_MS :: int where "PENDING_MIN_IDLE_MS = 60000"

definition set_stream :: "string \<Rightarrow> stream_state \<Rightarrow> bus \<Rightarrow> bus" where
  "set_stream s x st = st\<lparr>streams := (streams st)(s := x)\<rparr>"

text \<open>\<open>XADD\<close>: an entry gets the next number of its stream.\<close>

definition xadd :: "string \<Rightarrow> string list \<Rightarrow> bus \<Rightarrow> bus" where
  "xadd s flat st =
     (let x = streams st s
      in set_stream s (x\<lparr>ss_entries := ss_entries x @ [\<lparr>se_id = Suc (length (ss_entries x)), se_fields = flat\<rparr>]\<rparr>) st)"

text \<open>\<open>XACK\<close>.\<close>

definition xack :: "string \<Rightarrow> nat \<Rightarrow> bus \<Rightarrow> bus" where
  "xack s n st =
     (let x = streams st s
      in set_stream s (x\<lparr>ss_pending := filter (\<lambda>p. pe_id p \<noteq> n) (ss_pending x)\<rparr>) st)"

text \<open>\<open>XREADGROUP \<dots> COUNT 10 \<dots> >\<close> on one stream: the next entries, which are now pending.\<close>

definition read_new :: "millis \<Rightarrow> stream_state \<Rightarrow> stream_entry list \<times> stream_state" where
  "read_new now x =
     (let es = take BATCH_SIZE (filter (\<lambda>e. ss_last x < se_id e) (ss_entries x))
      in (es, x\<lparr>ss_last := ss_last x + length es,
                ss_pending := ss_pending x @ map (\<lambda>e. \<lparr>pe_id = se_id e, pe_since = now\<rparr>) es\<rparr>))"

definition log_result :: "string \<Rightarrow> nat \<Rightarrow> error + unit \<Rightarrow> bus \<Rightarrow> bus" where
  "log_result s n r st = st\<lparr>handled := handled st @ [(s, n, is_ok r)]\<rparr>"

definition handle_entry :: "entry_env \<Rightarrow> string \<Rightarrow> string \<Rightarrow> stream_entry \<Rightarrow> bus \<Rightarrow> bus" where
  "handle_entry env s eventType e st =
     (case processStreamEntry env (se_fields e) eventType st of
        (Inl x, st1) \<Rightarrow> log_result s (se_id e) (Inl x) st1
      | (Inr u, st1) \<Rightarrow> xack s (se_id e) (log_result s (se_id e) (Inr u) st1))"

text \<open>One turn of the loop, cut after \<open>k\<close> entries when the process stops there.\<close>

definition read_stream :: "millis \<Rightarrow> string \<times> string \<Rightarrow> ((string \<times> string) \<times> stream_entry) list \<times> bus
    \<Rightarrow> ((string \<times> string) \<times> stream_entry) list \<times> bus" where
  "read_stream now se acc =
     (case read_new now (streams (snd acc) (fst se)) of
        (es, x) \<Rightarrow> (fst acc @ map (\<lambda>e. (se, e)) es, set_stream (fst se) x (snd acc)))"

definition handle_all :: "(string \<Rightarrow> nat \<Rightarrow> entry_env) \<Rightarrow> ((string \<times> string) \<times> stream_entry) list \<Rightarrow> bus \<Rightarrow> bus" where
  "handle_all envs es st =
     foldl (\<lambda>b (se, e). handle_entry (envs (fst se) (se_id e)) (fst se) (snd se) e b) st es"

definition consume_turn :: "millis \<Rightarrow> (string \<Rightarrow> nat \<Rightarrow> entry_env) \<Rightarrow> nat \<Rightarrow> bus \<Rightarrow> bus" where
  "consume_turn now envs k st =
     (case fold (read_stream now) STREAM_EVENT_MAP ([], st) of
        (es, st1) \<Rightarrow> handle_all envs (take k es) st1)"

text \<open>\<open>recoverPendingMessages\<close>: of the ten oldest pending entries, those idle for a minute are claimed and
  processed again. An entry that Redis no longer holds is not returned.\<close>

definition stale_ids :: "millis \<Rightarrow> stream_state \<Rightarrow> nat list" where
  "stale_ids now x =
     map pe_id (filter (\<lambda>p. PENDING_MIN_IDLE_MS \<le> now - pe_since p) (take PENDING_BATCH_SIZE (ss_pending x)))"

definition xclaim :: "millis \<Rightarrow> nat list \<Rightarrow> stream_state \<Rightarrow> stream_entry list \<times> stream_state" where
  "xclaim now ids x =
     (filter (\<lambda>e. se_id e \<in> set ids) (ss_entries x),
      x\<lparr>ss_pending := map (\<lambda>p. if pe_id p \<in> set ids then p\<lparr>pe_since := now\<rparr> else p) (ss_pending x)\<rparr>)"

definition recover_stream :: "millis \<Rightarrow> (string \<Rightarrow> nat \<Rightarrow> entry_env) \<Rightarrow> (string \<Rightarrow> bool) \<Rightarrow> string \<times> string \<Rightarrow> bus \<Rightarrow> bus" where
  "recover_stream now envs down se st =
     (let ids = stale_ids now (streams st (fst se)) in
      if down (fst se) \<or> ids = [] then st
      else (case xclaim now ids (streams st (fst se)) of
              (es, x) \<Rightarrow> handle_all envs (map (\<lambda>e. (se, e)) es) (set_stream (fst se) x st)))"

definition recoverPendingMessages :: "millis \<Rightarrow> (string \<Rightarrow> nat \<Rightarrow> entry_env) \<Rightarrow> (string \<Rightarrow> bool) \<Rightarrow> bus \<Rightarrow> bus" where
  "recoverPendingMessages now envs down st = fold (recover_stream now envs down) STREAM_EVENT_MAP st"

section \<open>The event bus and Kafka\<close>

definition STREAM_TO_TOPIC :: "(string \<times> string) list" where
  "STREAM_TO_TOPIC =
     [(''deposits:detected'', ''cvh.deposits.detected''), (''deposits:confirmation'', ''cvh.deposits.confirmed''),
      (''deposits:swept'', ''cvh.deposits.swept''), (''withdrawals:submitted'', ''cvh.withdrawals.lifecycle''),
      (''withdrawals:confirmed'', ''cvh.withdrawals.lifecycle''), (''withdrawals:failed'', ''cvh.withdrawals.lifecycle''),
      (''cosign:pending'', ''cvh.cosign.lifecycle''), (''cosign:signed'', ''cvh.cosign.lifecycle''),
      (''cosign:expired'', ''cvh.cosign.lifecycle''), (''gas_tank:alerts'', ''cvh.gas-tank.alerts''),
      (''chain:reorg'', ''cvh.reorg.detected''), (''reconciliation:discrepancies'', ''cvh.reconciliation.discrepancy''),
      (''forwarder:deploy'', ''cvh.forwarder.deploy''), (''sanctions:sync'', ''cvh.sanctions.sync'')]"

definition KAFKA_TO_EVENT :: "(string \<times> string) list" where
  "KAFKA_TO_EVENT =
     [(''cvh.deposits.detected'', ''deposit.detected''), (''cvh.deposits.confirmed'', ''deposit.confirmed''),
      (''cvh.deposits.swept'', ''deposit.swept''), (''cvh.withdrawals.lifecycle'', ''withdrawal.lifecycle'')]"

record bus_config =
  bc_redis :: bool
  bc_kafka :: bool

text \<open>Whether the two transports answer.\<close>

record transports =
  tr_redis :: bool
  tr_kafka :: bool

definition flat_fields :: "(string \<times> string) list \<Rightarrow> string list" where
  "flat_fields data = concat (map (\<lambda>(k, v). [k, v]) data)"

definition bus_publish :: "bus_config \<Rightarrow> transports \<Rightarrow> string \<Rightarrow> (string \<times> string) list \<Rightarrow> bus \<Rightarrow> (error + unit) \<times> bus" where
  "bus_publish cfg tr stream data st =
     (let topic = map_of STREAM_TO_TOPIC stream;
          results = (if bc_redis cfg then [tr_redis tr] else [])
                    @ (if bc_kafka cfg \<and> topic \<noteq> None then [tr_kafka tr] else []);
          st1 = (if bc_redis cfg \<and> tr_redis tr then xadd stream (flat_fields data) st else st);
          st2 = (case topic of
                   Some t \<Rightarrow> if bc_kafka cfg \<and> tr_kafka tr then st1\<lparr>topic_log := topic_log st1 @ [(t, data)]\<rparr> else st1
                 | None \<Rightarrow> st1)
      in if results \<noteq> [] \<and> \<not> list_ex id results then (Inl (InternalError ''All event transports failed''), st2)
         else (Inr (), st2))"

text \<open>The handler of \<open>startKafkaConsumer\<close> on one message.\<close>

definition kafka_handler :: "entry_env \<Rightarrow> string \<times> (string \<times> string) list \<Rightarrow> bus \<Rightarrow> (error + unit) \<times> bus" where
  "kafka_handler env m st =
     (case map_of KAFKA_TO_EVENT (fst m) of
        None \<Rightarrow> (Inr (), st)
      | Some et \<Rightarrow>
          (case either_field (snd m) ''clientId'' ''client_id'' of
             None \<Rightarrow> (Inr (), st)
           | Some client \<Rightarrow>
               dispatch env et
                 \<lparr>pl_text = ee_json env et (ee_time env) (snd m), pl_data = snd m,
                  pl_top = [(''event'', et), (''timestamp'', ee_time env), (''source'', ''kafka'')]\<rparr>
                 (snd m) client st))"

section \<open>Frames\<close>

lemma create_for_frame [simp]:
  "streams (snd (create_for env c et p pr st)) = streams st"
  "handled (snd (create_for env c et p pr st)) = handled st"
  by (simp_all add: create_for_def split: prod.split sum.split)

lemma dispatch_frame [simp]:
  "streams (snd (dispatch env et p data c st)) = streams st"
  "handled (snd (dispatch env et p data c st)) = handled st"
  by (simp_all add: dispatch_def split: option.split sum.split)

lemma handleAlert_frame [simp]:
  "streams (snd (handleAlert env a st)) = streams st"
  "handled (snd (handleAlert env a st)) = handled st"
  by (simp_all add: handleAlert_def split: option.split)

lemma process_frame [simp]:
  "streams (snd (processStreamEntry env f et st)) = streams st"
  "handled (snd (processStreamEntry env f et st)) = handled st"
  by (simp_all add: processStreamEntry_def Let_def split: option.split)

text \<open>The entries of a stream whose processing has succeeded at least once.\<close>

definition succeeded :: "string \<Rightarrow> bus \<Rightarrow> nat set" where
  "succeeded s st = {n. (s, n, True) \<in> set (handled st)}"

lemma handle_entry_cases:
  obtains (failed) "streams (handle_entry env s et e st) = streams st"
      "\<And>s'. succeeded s' (handle_entry env s et e st) = succeeded s' st"
  | (acked) "streams (handle_entry env s et e st) = (streams st)(s := (streams st s)\<lparr>ss_pending := filter (\<lambda>p. pe_id p \<noteq> se_id e) (ss_pending (streams st s))\<rparr>)"
      "\<And>s'. succeeded s' (handle_entry env s et e st) = (if s' = s then insert (se_id e) (succeeded s' st) else succeeded s' st)"
proof (cases "processStreamEntry env (se_fields e) et st")
  case (Pair r st1)
  then have same: "streams st1 = streams st" "handled st1 = handled st"
    using process_frame [of env "se_fields e" et st] by simp_all
  show ?thesis
  proof (cases r)
    case (Inl x)
    then show ?thesis
      using Pair same by (intro that(1)) (auto simp: handle_entry_def log_result_def succeeded_def)
  next
    case (Inr u)
    then show ?thesis
      using Pair same by (intro that(2)) (auto simp: handle_entry_def xack_def set_stream_def Let_def log_result_def succeeded_def)
  qed
qed

lemma handle_all_simps [simp]:
  "handle_all envs [] st = st"
  "handle_all envs ((se, e) # es) st
     = handle_all envs es (handle_entry (envs (fst se) (se_id e)) (fst se) (snd se) e st)"
  by (simp_all add: handle_all_def)

section \<open>No entry is lost\<close>

text \<open>The numbers of a stream are consecutive, the pending entries are in order, and an entry the group has
  handed out is pending or was processed successfully.\<close>

definition pending_ids :: "stream_state \<Rightarrow> nat list" where
  "pending_ids x = map pe_id (ss_pending x)"

definition stream_ok :: "stream_state \<Rightarrow> nat set \<Rightarrow> bool" where
  "stream_ok x done' \<longleftrightarrow>
     map se_id (ss_entries x) = [1..<Suc (length (ss_entries x))] \<and> ss_last x \<le> length (ss_entries x)
     \<and> sorted_wrt (<) (pending_ids x) \<and> set (pending_ids x) \<subseteq> {1..ss_last x}
     \<and> {1..ss_last x} \<subseteq> set (pending_ids x) \<union> done'"

definition bus_inv :: "bus \<Rightarrow> bool" where
  "bus_inv st \<longleftrightarrow> (\<forall>s. stream_ok (streams st s) (succeeded s st))"

lemma bus_invD: "bus_inv st \<Longrightarrow> stream_ok (streams st s) (succeeded s st)"
  by (simp add: bus_inv_def)

lemma pending_ids_ack [simp]:
  "pending_ids (x\<lparr>ss_pending := filter (\<lambda>p. pe_id p \<noteq> n) (ss_pending x)\<rparr>) = filter (\<lambda>i. i \<noteq> n) (pending_ids x)"
  by (simp add: pending_ids_def filter_map comp_def)

lemma pending_ids_claim [simp]: "pending_ids (snd (xclaim now ids x)) = pending_ids x"
  by (simp add: pending_ids_def xclaim_def)

lemma claim_frame [simp]:
  "ss_entries (snd (xclaim now ids x)) = ss_entries x" "ss_last (snd (xclaim now ids x)) = ss_last x"
  by (simp_all add: xclaim_def)

lemma pending_ids_read:
  "pending_ids (snd (read_new now x)) = pending_ids x @ map se_id (fst (read_new now x))"
  by (simp add: pending_ids_def read_new_def Let_def)

lemma read_frame [simp]:
  "ss_entries (snd (read_new now x)) = ss_entries x"
  "ss_last (snd (read_new now x)) = ss_last x + length (fst (read_new now x))"
  by (simp_all add: read_new_def Let_def)

lemma stream_ok_add:
  "stream_ok x a \<Longrightarrow> stream_ok (x\<lparr>ss_entries := ss_entries x @ [\<lparr>se_id = Suc (length (ss_entries x)), se_fields = f\<rparr>]\<rparr>) a"
  by (simp add: stream_ok_def pending_ids_def)

lemma stream_ok_ack:
  assumes "stream_ok x a"
  shows "stream_ok (x\<lparr>ss_pending := filter (\<lambda>p. pe_id p \<noteq> n) (ss_pending x)\<rparr>) (insert n a)"
  using assms by (auto simp: stream_ok_def sorted_wrt_filter)

lemma stream_ok_claim: "stream_ok x a \<Longrightarrow> stream_ok (snd (xclaim now ids x)) a"
  by (simp add: stream_ok_def)

text \<open>What is read next: the entries after the last one handed out, ten at most.\<close>

lemma read_new_entries:
  assumes "map se_id (ss_entries x) = [1..<Suc (length (ss_entries x))]" "ss_last x \<le> length (ss_entries x)"
  shows "fst (read_new now x) = take BATCH_SIZE (drop (ss_last x) (ss_entries x))"
    and "map se_id (fst (read_new now x)) = [Suc (ss_last x)..<Suc (ss_last x + length (fst (read_new now x)))]"
proof -
  let ?es = "ss_entries x" and ?k = "ss_last x"
  have id: "se_id (?es ! i) = Suc i" if "i < length ?es" for i
    using that arg_cong [OF assms(1), of "\<lambda>xs. xs ! i"] by (simp del: upt_Suc)
  have "filter (\<lambda>e. ?k < se_id e) (take ?k ?es) = []"
    using id by (auto simp: filter_empty_conv in_set_conv_nth)
  moreover have "filter (\<lambda>e. ?k < se_id e) (drop ?k ?es) = drop ?k ?es"
    using id by (auto simp: filter_id_conv in_set_conv_nth)
  moreover have "filter (\<lambda>e. ?k < se_id e) ?es
      = filter (\<lambda>e. ?k < se_id e) (take ?k ?es) @ filter (\<lambda>e. ?k < se_id e) (drop ?k ?es)"
    by (metis append_take_drop_id filter_append)
  ultimately show f: "fst (read_new now x) = take BATCH_SIZE (drop ?k ?es)"
    by (simp add: read_new_def Let_def)
  have "map se_id (take BATCH_SIZE (drop ?k ?es)) = take BATCH_SIZE (drop ?k [1..<Suc (length ?es)])"
    by (metis assms(1) drop_map take_map)
  then show "map se_id (fst (read_new now x)) = [Suc ?k..<Suc (?k + length (fst (read_new now x)))]"
    unfolding f using assms(2) by (simp add: min_def take_upt del: upt_Suc)
qed

lemma stream_ok_read:
  assumes "stream_ok x a"
  shows "stream_ok (snd (read_new now x)) a"
proof -
  let ?es = "fst (read_new now x)"
  have pre: "map se_id (ss_entries x) = [1..<Suc (length (ss_entries x))]" "ss_last x \<le> length (ss_entries x)"
    using assms by (simp_all add: stream_ok_def)
  note ids = read_new_entries(2) [OF pre, of now]
  have len: "ss_last x + length ?es \<le> length (ss_entries x)"
    unfolding read_new_entries(1) [OF pre] using pre(2) by simp
  have "sorted_wrt (<) (pending_ids x @ [Suc (ss_last x)..<Suc (ss_last x + length ?es)])"
    using assms unfolding stream_ok_def sorted_wrt_append by (auto simp del: upt_Suc)
  moreover have "set (pending_ids (snd (read_new now x)))
      = set (pending_ids x) \<union> {Suc (ss_last x)..<Suc (ss_last x + length ?es)}"
    unfolding pending_ids_read ids by (simp del: upt_Suc)
  moreover have "{1..ss_last x + length ?es} = {1..ss_last x} \<union> {Suc (ss_last x)..<Suc (ss_last x + length ?es)}"
    by auto
  ultimately show ?thesis
    using assms len unfolding stream_ok_def
    by (auto simp: pending_ids_read [of now x, unfolded ids] simp del: upt_Suc)
qed

text \<open>The entries that one turn reads, and the streams afterwards.\<close>

lemma read_stream_step:
  "read_stream now se (acc, b) =
     (acc @ map (Pair se) (fst (read_new now (streams b (fst se)))),
      set_stream (fst se) (snd (read_new now (streams b (fst se)))) b)"
  by (simp add: read_stream_def case_prod_beta)

lemma read_all:
  assumes "distinct (map fst ses)"
  shows "fst (fold (read_stream now) ses (acc, b)) = acc @ concat (map (\<lambda>se. map (Pair se) (fst (read_new now (streams b (fst se))))) ses)"
    and "streams (snd (fold (read_stream now) ses (acc, b)))
      = (\<lambda>s. if s \<in> fst ` set ses then snd (read_new now (streams b s)) else streams b s)"
    and "handled (snd (fold (read_stream now) ses (acc, b))) = handled b"
  using assms
proof (induction ses arbitrary: acc b)
  case (Cons se ses)
  {
    case 1
    then have "streams (set_stream (fst se) x b) (fst se') = streams b (fst se')" if "se' \<in> set ses" for x se'
      using that by (auto simp: set_stream_def image_iff)
    then show ?case using Cons.IH(1) 1 by (simp add: read_stream_step cong: map_cong)
  next
    case 2
    then show ?case using Cons.IH(2) by (auto simp: read_stream_step set_stream_def fun_eq_iff)
  next
    case 3
    then show ?case using Cons.IH(3) by (simp add: read_stream_step set_stream_def)
  }
qed simp_all

lemma distinct_streams [simp]: "distinct (map fst STREAM_EVENT_MAP)"
  by (simp add: STREAM_EVENT_MAP_def)

lemma bus_inv_acked:
  assumes "bus_inv st"
    and "streams st' = (streams st)(s := (streams st s)\<lparr>ss_pending := filter (\<lambda>p. pe_id p \<noteq> n) (ss_pending (streams st s))\<rparr>)"
    and "\<And>s'. succeeded s' st' = (if s' = s then insert n (succeeded s' st) else succeeded s' st)"
  shows "bus_inv st'"
  using stream_ok_ack [OF bus_invD [OF assms(1), of s], of n] assms unfolding bus_inv_def by simp

lemma bus_inv_handle_entry: "bus_inv st \<Longrightarrow> bus_inv (handle_entry env s et e st)"
proof (cases rule: handle_entry_cases [of env s et e st])
  case failed
  then show "bus_inv st \<Longrightarrow> ?thesis" by (simp add: bus_inv_def)
next
  case acked
  then show "bus_inv st \<Longrightarrow> ?thesis" using bus_inv_acked by blast
qed

lemma bus_inv_handle_all: "bus_inv st \<Longrightarrow> bus_inv (handle_all envs es st)"
  by (induction es arbitrary: st) (auto simp: bus_inv_handle_entry)

lemma bus_inv_set_stream:
  "bus_inv st \<Longrightarrow> stream_ok x (succeeded s st) \<Longrightarrow> bus_inv (set_stream s x st)"
  by (simp add: bus_inv_def set_stream_def succeeded_def)

lemma bus_inv_consume:
  assumes "bus_inv st"
  shows "bus_inv (consume_turn now envs k st)"
proof -
  have "bus_inv (snd (fold (read_stream now) STREAM_EVENT_MAP ([], st)))"
    unfolding bus_inv_def succeeded_def read_all(2,3) [OF distinct_streams]
    unfolding succeeded_def [symmetric]
    using bus_invD [OF assms] by (simp add: stream_ok_read)
  then show ?thesis by (simp add: consume_turn_def case_prod_beta bus_inv_handle_all)
qed

lemma bus_inv_recover_stream:
  assumes "bus_inv st"
  shows "bus_inv (recover_stream now envs down se st)"
  using bus_inv_set_stream [OF assms stream_ok_claim [OF bus_invD [OF assms]]]
  by (simp add: recover_stream_def Let_def case_prod_beta assms bus_inv_handle_all)

lemma bus_inv_recover: "bus_inv st \<Longrightarrow> bus_inv (recoverPendingMessages now envs down st)"
proof -
  have "bus_inv st \<Longrightarrow> bus_inv (fold (recover_stream now envs down) ses st)" for ses
    by (induction ses arbitrary: st) (auto simp: bus_inv_recover_stream)
  then show "bus_inv st \<Longrightarrow> ?thesis" by (simp add: recoverPendingMessages_def)
qed

lemma bus_inv_xadd: "bus_inv st \<Longrightarrow> bus_inv (xadd s f st)"
  unfolding xadd_def Let_def by (rule bus_inv_set_stream) (auto intro: stream_ok_add bus_invD)

lemma bus_inv_publish: "bus_inv st \<Longrightarrow> bus_inv (snd (bus_publish cfg tr s d st))"
proof -
  have "bus_inv (st\<lparr>topic_log := x\<rparr>) = bus_inv st" for st x by (simp add: bus_inv_def succeeded_def)
  then show "bus_inv st \<Longrightarrow> ?thesis"
    by (auto simp: bus_publish_def Let_def bus_inv_xadd split: option.split)
qed

section \<open>The machine\<close>

text \<open>What changes the bus: a publication, a turn of the consumer that may stop after any entry, a round of
  recovery, a Kafka message, and everything the service does to its own tables.\<close>

inductive bus_step :: "bus \<Rightarrow> bus \<Rightarrow> bool" where
  published: "bus_step st (snd (bus_publish cfg tr s data st))"
| consumed: "bus_step st (consume_turn now envs k st)"
| recovered: "bus_step st (recoverPendingMessages now envs down st)"
| kafka: "bus_step st (snd (kafka_handler env m st))"
| tables: "bus_step st (st\<lparr>notify := db, alert_configs := cs, project_clients := ps\<rparr>)"

inductive_cases bus_stepE: "bus_step st st'"

definition fresh_bus :: "bus \<Rightarrow> bool" where
  "fresh_bus st \<longleftrightarrow> handled st = []
     \<and> (\<forall>s. streams st s = \<lparr>ss_entries = [], ss_last = 0, ss_pending = []\<rparr>)"

lemma kafka_handler_frame [simp]:
  "streams (snd (kafka_handler env m st)) = streams st"
  "handled (snd (kafka_handler env m st)) = handled st"
  by (simp_all add: kafka_handler_def split: option.split)

lemma bus_inv_cong: "streams st' = streams st \<Longrightarrow> handled st' = handled st \<Longrightarrow> bus_inv st \<Longrightarrow> bus_inv st'"
  by (simp add: bus_inv_def succeeded_def)

lemma bus_step_inv: "bus_step st st' \<Longrightarrow> bus_inv st \<Longrightarrow> bus_inv st'"
  by (erule bus_stepE)
    (auto simp: bus_inv_publish bus_inv_consume bus_inv_recover elim: bus_inv_cong [rotated 2])

lemma fresh_bus_inv: "fresh_bus st \<Longrightarrow> bus_inv st"
  by (simp add: fresh_bus_def bus_inv_def stream_ok_def pending_ids_def)

interpretation bus: machine fresh_bus bus_step bus_inv
  by unfold_locales (auto intro: fresh_bus_inv bus_step_inv)

text \<open>Claim C23. No entry of a stream is lost: after any run of publications, turns of the consumer, crashes in
  the middle of a turn and rounds of recovery, every entry the consumer group has handed out is still pending
  or has been processed at least once without an error. The outcomes are those of \<open>processStreamEntry\<close>,
  logged apart from the acknowledgement.\<close>

theorem no_entry_is_lost:
  assumes "fresh_bus st" "bus_step\<^sup>*\<^sup>* st st'" "e \<in> set (ss_entries (streams st' s))" "se_id e \<le> ss_last (streams st' s)"
  shows "se_id e \<in> set (pending_ids (streams st' s)) \<or> (s, se_id e, True) \<in> set (handled st')"
proof -
  have ok: "stream_ok (streams st' s) (succeeded s st')"
    using bus.inv_reachable [OF assms(1,2)] by (rule bus_invD)
  then have "se_id e \<in> set [1..<Suc (length (ss_entries (streams st' s)))]"
    using assms(3) unfolding stream_ok_def by (metis image_eqI list.set_map)
  with ok assms(4) show ?thesis by (auto simp: stream_ok_def succeeded_def)
qed

section \<open>Entries that cannot be processed\<close>

text \<open>An entry whose client is no integer throws every time.\<close>

definition poison :: "string \<Rightarrow> string list \<Rightarrow> bool" where
  "poison et f \<longleftrightarrow> et \<noteq> ''gas_tank.low_balance''
     \<and> (\<exists>c. either_field (fields_object f []) ''clientId'' ''client_id'' = Some c \<and> big_int c = None)"

lemma poison_handle:
  "poison et (se_fields e) \<Longrightarrow> handle_entry env s et e st = log_result s (se_id e) (Inl (InternalError ''SyntaxError'')) st"
  by (auto simp: poison_def handle_entry_def processStreamEntry_def dispatch_def log_result_def Let_def)

text \<open>The ten oldest pending entries of a stream are poison, and another entry waits behind them.\<close>

definition stuck :: "string \<Rightarrow> string \<Rightarrow> nat list \<Rightarrow> nat \<Rightarrow> bus \<Rightarrow> bool" where
  "stuck s et qs n st \<longleftrightarrow>
     (\<exists>rest. pending_ids (streams st s) = qs @ rest \<and> n \<in> set rest) \<and> length qs = PENDING_BATCH_SIZE
     \<and> n \<notin> succeeded s st
     \<and> (\<forall>e \<in> set (ss_entries (streams st s)). se_id e \<in> set qs \<longrightarrow> poison et (se_fields e))"

lemma stuck_cong:
  "streams st' s = streams st s \<Longrightarrow> n \<in> succeeded s st' \<longleftrightarrow> n \<in> succeeded s st
   \<Longrightarrow> stuck s et qs n st \<Longrightarrow> stuck s et qs n st'"
  by (simp add: stuck_def)

lemma handle_entry_other:
  "s' \<noteq> s \<Longrightarrow> streams (handle_entry env s' et e st) s = streams st s
     \<and> succeeded s (handle_entry env s' et e st) = succeeded s st"
  by (cases rule: handle_entry_cases [of env s' et e st]) auto

lemma stuck_handle_entry:
  assumes "stuck s et qs n st" "s' = s \<Longrightarrow> se_id e \<notin> insert n (set qs)"
  shows "stuck s et qs n (handle_entry env s' et' e st)"
proof (cases "s' = s")
  case False
  then show ?thesis using handle_entry_other [of s' s env et' e st] stuck_cong [OF _ _ assms(1)] by blast
next
  case True
  then have keep: "filter (\<lambda>i. i \<noteq> se_id e) qs = qs" "n \<noteq> se_id e" using assms(2) by (auto simp: filter_id_conv)
  show ?thesis
  proof (cases rule: handle_entry_cases [of env s' et' e st])
    case failed
    then show ?thesis by (intro stuck_cong [OF _ _ assms(1)]) simp_all
  next
    case acked
    then show ?thesis using assms(1) keep True by (auto simp: stuck_def)
  qed
qed

lemma stuck_handle_all:
  assumes "stuck s et qs n st" "\<And>se e. (se, e) \<in> set es \<Longrightarrow> fst se = s \<Longrightarrow> se_id e \<notin> insert n (set qs)"
  shows "stuck s et qs n (handle_all envs es st)"
  using assms
proof (induction es arbitrary: st)
  case (Cons x es)
  obtain se e where x: "x = (se, e)" by (cases x)
  have "stuck s et qs n (handle_entry (envs (fst se) (se_id e)) (fst se) (snd se) e st)"
    using Cons.prems(2) [of se e] x by (intro stuck_handle_entry [OF Cons.prems(1)]) simp
  moreover have "se_id e' \<notin> insert n (set qs)" if "(se', e') \<in> set es" "fst se' = s" for se' e'
    using that by (intro Cons.prems(2)) simp_all
  ultimately show ?case unfolding x handle_all_simps by (rule Cons.IH)
qed simp

lemma handle_all_poison:
  "(\<And>se e. (se, e) \<in> set es \<Longrightarrow> poison (snd se) (se_fields e)) \<Longrightarrow>
   streams (handle_all envs es st) = streams st \<and> succeeded s (handle_all envs es st) = succeeded s st"
proof (induction es arbitrary: st)
  case (Cons x es)
  obtain se e where x: "x = (se, e)" by (cases x)
  have "handle_all envs (x # es) st = handle_all envs es (log_result (fst se) (se_id e) (Inl (InternalError ''SyntaxError'')) st)"
    using Cons.prems [of se e] x by (simp add: poison_handle)
  moreover have "streams (log_result s' i (Inl err) st) = streams st" "succeeded s (log_result s' i (Inl err) st) = succeeded s st" for s' i err
    by (auto simp: log_result_def succeeded_def)
  ultimately show ?case using Cons by simp
qed simp

lemma bus_inv_pending:
  assumes "bus_inv st"
  shows "distinct (pending_ids (streams st s))" "\<And>i. i \<in> set (pending_ids (streams st s)) \<Longrightarrow> i \<le> ss_last (streams st s)"
  using bus_invD [OF assms, of s] by (auto simp: stream_ok_def strict_sorted_iff)

lemma stuck_consume:
  assumes "bus_inv st" "stuck s et qs n st"
  shows "stuck s et qs n (consume_turn now envs k st)"
proof -
  let ?es = "fst (fold (read_stream now) STREAM_EVENT_MAP ([], st))"
  let ?st1 = "snd (fold (read_stream now) STREAM_EVENT_MAP ([], st))"
  have st1: "stuck s et qs n ?st1"
    using assms(2) unfolding stuck_def succeeded_def read_all(2,3) [OF distinct_streams] by (auto simp: pending_ids_read)
  have old: "i \<le> ss_last (streams st s)" if "i \<in> insert n (set qs)" for i
    using that bus_inv_pending(2) [OF assms(1), of _ s] assms(2) by (auto simp: stuck_def)
  have "ss_last (streams st (fst se)) < se_id e" if "(se, e) \<in> set ?es" for se e
    using that unfolding read_all(1) [OF distinct_streams] by (auto simp: read_new_def Let_def dest!: in_set_takeD)
  then have "se_id e \<notin> insert n (set qs)" if "(se, e) \<in> set (take k ?es)" "fst se = s" for se e
    using that old by (metis in_set_takeD not_le)
  then show ?thesis
    unfolding consume_turn_def case_prod_beta using stuck_handle_all [OF st1] by metis
qed

lemma stuck_recover_stream:
  assumes "(s, et) \<in> set STREAM_EVENT_MAP" "se \<in> set STREAM_EVENT_MAP" "stuck s et qs n st"
  shows "stuck s et qs n (recover_stream now envs down se st)"
proof (cases "fst se = s")
  case False
  have "streams (handle_all envs (map (Pair se) es) st') s = streams st' s
      \<and> succeeded s (handle_all envs (map (Pair se) es) st') = succeeded s st'" for es st'
    using handle_entry_other [OF False] by (induction es arbitrary: st') simp_all
  then have "streams (recover_stream now envs down se st) s = streams st s
      \<and> succeeded s (recover_stream now envs down se st) = succeeded s st"
    using False by (simp add: recover_stream_def Let_def case_prod_beta set_stream_def succeeded_def)
  then show ?thesis using stuck_cong [OF _ _ assms(3)] by blast
next
  case True
  have et: "snd se = et"
    using assms(1,2) True by (auto simp: STREAM_EVENT_MAP_def)
  let ?ids = "stale_ids now (streams st s)"
  let ?st1 = "set_stream s (snd (xclaim now ?ids (streams st s))) st"
  have "take PENDING_BATCH_SIZE (pending_ids (streams st s)) = qs"
    using assms(3) by (auto simp: stuck_def)
  then have ids: "set ?ids \<subseteq> set qs"
    by (auto simp: stale_ids_def pending_ids_def take_map)
  have st1: "stuck s et qs n ?st1"
    using assms(3) by (simp add: stuck_def set_stream_def succeeded_def)
  have "streams (handle_all envs (map (Pair se) (fst (xclaim now ?ids (streams st s)))) ?st1) = streams ?st1
    \<and> succeeded s (handle_all envs (map (Pair se) (fst (xclaim now ?ids (streams st s)))) ?st1) = succeeded s ?st1"
  proof (rule handle_all_poison)
    fix se' e assume "(se', e) \<in> set (map (Pair se) (fst (xclaim now ?ids (streams st s))))"
    then have "se' = se" "e \<in> set (ss_entries (streams st s))" "se_id e \<in> set ?ids"
      by (auto simp: xclaim_def)
    then show "poison (snd se') (se_fields e)"
      using assms(3) ids et by (auto simp: stuck_def)
  qed
  then have "stuck s et qs n (handle_all envs (map (Pair se) (fst (xclaim now ?ids (streams st s)))) ?st1)"
    by (intro stuck_cong [OF _ _ st1]) simp_all
  then show ?thesis
    using assms(3) True by (simp add: recover_stream_def Let_def case_prod_beta)
qed

lemma stuck_recover:
  assumes "(s, et) \<in> set STREAM_EVENT_MAP" "stuck s et qs n st"
  shows "stuck s et qs n (recoverPendingMessages now envs down st)"
proof -
  have "set ses \<subseteq> set STREAM_EVENT_MAP \<Longrightarrow> stuck s et qs n st \<Longrightarrow> stuck s et qs n (fold (recover_stream now envs down) ses st)" for ses
    by (induction ses arbitrary: st) (auto intro: stuck_recover_stream [OF assms(1)])
  then show ?thesis using assms(2) by (simp add: recoverPendingMessages_def)
qed

lemma stuck_xadd:
  assumes "bus_inv st" "stuck s et qs n st"
  shows "stuck s et qs n (xadd s' f st)"
proof (cases "s' = s")
  case False
  then show ?thesis using stuck_cong [OF _ _ assms(2), of "xadd s' f st"] by (simp add: xadd_def Let_def set_stream_def succeeded_def)
next
  case True
  have "i \<le> length (ss_entries (streams st s))" if "i \<in> set qs" for i
    using that bus_inv_pending(2) [OF assms(1), of i s] bus_invD [OF assms(1), of s] assms(2)
    by (auto simp: stuck_def stream_ok_def)
  then have "Suc (length (ss_entries (streams st s))) \<notin> set qs" by fastforce
  then show ?thesis
    using assms(2) True by (auto simp: stuck_def xadd_def Let_def set_stream_def pending_ids_def succeeded_def)
qed

lemma stuck_publish:
  assumes "bus_inv st" "stuck s et qs n st"
  shows "stuck s et qs n (snd (bus_publish cfg tr s' d st))"
proof -
  have "stuck s et qs n (st'\<lparr>topic_log := x\<rparr>) = stuck s et qs n st'" for st' x by (simp add: stuck_def succeeded_def)
  then show ?thesis
    using stuck_xadd [OF assms] assms(2) by (auto simp: bus_publish_def Let_def split: option.split)
qed

interpretation stuck_bus: absorbing fresh_bus bus_step bus_inv
  "\<lambda>st. (s, et) \<in> set STREAM_EVENT_MAP \<and> stuck s et qs n st" for s et qs n
proof unfold_locales
  fix st st'
  assume inv: "bus_inv st" and f: "(s, et) \<in> set STREAM_EVENT_MAP \<and> stuck s et qs n st" and step: "bus_step st st'"
  from step show "(s, et) \<in> set STREAM_EVENT_MAP \<and> stuck s et qs n st'"
    using f inv by (cases rule: bus_step.cases)
      (auto simp: stuck_publish stuck_consume stuck_recover succeeded_def intro: stuck_cong [rotated 2])
qed

text \<open>Recovery can be starved for good: once the ten oldest pending entries of a stream name a client
  that is no number, an entry that is pending behind them, left by a crash or a failed database, stays pending
  whatever happens afterwards: no turn of the consumer and no round of recovery ever processes it.\<close>

lemma ten_bad_entries_starve_recovery:
  assumes "fresh_bus st0" "bus_step\<^sup>*\<^sup>* st0 st" "map_of STREAM_EVENT_MAP s = Some et"
    and "stuck s et qs n st" "bus_step\<^sup>*\<^sup>* st st'"
  shows "n \<in> set (pending_ids (streams st' s)) \<and> (s, n, True) \<notin> set (handled st')"
proof -
  have "(s, et) \<in> set STREAM_EVENT_MAP" using assms(3) by (rule map_of_SomeD)
  then have "stuck s et qs n st'"
    using stuck_bus.final_steps [OF assms(5) bus.inv_reachable [OF assms(1,2)]] assms(4) by blast
  then show ?thesis by (auto simp: stuck_def succeeded_def)
qed

section \<open>What the confirmation tracker announces\<close>

text \<open>The fields the tracker publishes on \<open>deposits:confirmation\<close>.\<close>

definition wallet_text :: "ident option \<Rightarrow> string" where
  "wallet_text w = (case w of None \<Rightarrow> [] | Some n \<Rightarrow> show_int n)"

definition number_text :: "int option \<Rightarrow> string" where
  "number_text n = (case n of None \<Rightarrow> [] | Some i \<Rightarrow> show_int i)"

definition deposit_event_data :: "(millis \<Rightarrow> string) \<Rightarrow> deposit_event \<Rightarrow> (string \<times> string) list" where
  "deposit_event_data isodate ev =
     (let head = [(''txHash'', ev_tx ev), (''chainId'', show_int (ev_chain ev))];
          party = [(''clientId'', show_int (ev_client ev)), (''walletId'', wallet_text (ev_wallet ev)),
                   (''toAddress'', ev_to ev), (''contractAddress'', ev_contract ev), (''amount'', ev_amount ev)];
          time = [(''timestamp'', isodate (ev_time ev))]
      in case ev_kind ev of
           EvReverted \<Rightarrow> (''event'', ''deposit.reverted'') # head @ party @ (''reason'', ''reorg'') # time
         | EvMilestone \<Rightarrow>
             (''event'', ''deposit.milestone'') # head
             @ [(''confirmations'', number_text (ev_confirmations ev)), (''milestone'', number_text (ev_milestone ev)),
                (''required'', number_text (ev_required ev))]
             @ party @ (''status'', if ev_status ev = Some DConfirmed then ''confirmed'' else ''confirming'') # time
         | EvConfirmed \<Rightarrow>
             (''event'', ''deposit.confirmed'') # head
             @ [(''confirmations'', number_text (ev_confirmations ev)), (''required'', number_text (ev_required ev))]
             @ party @ time)"

lemma fields_object_flat: "distinct (map fst data) \<Longrightarrow> fields_object (flat_fields data) acc = foldl (\<lambda>a (k, v). AList.update k v a) acc data"
  by (induction data arbitrary: acc) (auto simp: flat_fields_def)

lemma update_fresh: "k \<notin> fst ` set al \<Longrightarrow> AList.update k v al = al @ [(k, v)]"
  by (induction al) auto

lemma foldl_update_fresh:
  "distinct (map fst (acc @ data)) \<Longrightarrow> foldl (\<lambda>a (k, v). AList.update k v a) acc data = acc @ data"
proof (induction data arbitrary: acc)
  case (Cons kv data)
  obtain k v where kv: "kv = (k, v)" by (cases kv)
  then have "AList.update k v acc = acc @ [kv]" using Cons.prems by (intro update_fresh [THEN trans]) auto
  then show ?case using Cons.IH [of "acc @ [kv]"] Cons.prems kv by simp
qed simp

text \<open>An object with distinct keys arrives as it was sent.\<close>

lemma fields_roundtrip: "distinct (map fst data) \<Longrightarrow> fields_object (flat_fields data) [] = data"
  using fields_object_flat [of data "[]"] foldl_update_fresh [of "[]" data] by simp

lemma deposit_event_keys: "distinct (map fst (deposit_event_data isodate ev))"
  by (simp add: deposit_event_data_def Let_def split: event_kind.split)

lemma deposit_event_party:
  "map_of (deposit_event_data isodate ev) ''clientId'' = Some (show_int (ev_client ev))"
  "map_of (deposit_event_data isodate ev) ''projectId'' = None"
  "map_of (deposit_event_data isodate ev) ''project_id'' = None"
  "map_of (deposit_event_data isodate ev) ''payload'' = None"
  by (simp_all add: deposit_event_data_def Let_def split: event_kind.split)

lemma create_resolved:
  assumes "resolve_project project p = Inr pr"
  shows "createDeliveries env c et p project db = (Inr (length (findMatchingWebhooks c et db)),
    db\<lparr>deliveries := deliveries db @ created_for env c pr et (pl_text p) (next_delivery db) (findMatchingWebhooks c et db),
       jobs := jobs db @ map (\<lambda>d. \<lparr>jb_delivery = dl_id d, jb_webhook = dl_webhook d, jb_delay = None\<rparr>)
         (created_for env c pr et (pl_text p) (next_delivery db) (findMatchingWebhooks c et db)),
       next_delivery := next_delivery db + int (length (findMatchingWebhooks c et db))\<rparr>)"
  using assms by (simp add: createDeliveries_def foldl_create_one Let_def)

text \<open>An event of the tracker, consumed: one delivery for each webhook of \<open>deposit.confirmed\<close>, whatever it says.\<close>

lemma process_deposit_event:
  assumes "\<not> ee_down env"
  shows "fst (processStreamEntry env (flat_fields (deposit_event_data isodate ev)) ''deposit.confirmed'' b) = Inr ()
    \<and> deliveries (notify (snd (processStreamEntry env (flat_fields (deposit_event_data isodate ev)) ''deposit.confirmed'' b)))
      = deliveries (notify b) @ created_for (ee_create env) (ev_client ev) 0 ''deposit.confirmed''
          (ee_json env ''deposit.confirmed'' (ee_time env) (deposit_event_data isodate ev)) (next_delivery (notify b))
          (findMatchingWebhooks (ev_client ev) ''deposit.confirmed'' (notify b))"
proof -
  let ?data = "deposit_event_data isodate ev"
  have c: "either_field ?data ''clientId'' ''client_id'' = Some (show_int (ev_client ev))"
    by (simp add: either_field_def truthy_field_def deposit_event_party or_null_def)
  have pr: "either_field ?data ''projectId'' ''project_id'' = None"
    by (simp add: either_field_def truthy_field_def deposit_event_party or_null_def)
  have pl: "entry_payload env ''deposit.confirmed'' ?data
      = \<lparr>pl_text = ee_json env ''deposit.confirmed'' (ee_time env) ?data, pl_data = ?data,
         pl_top = [(''event'', ''deposit.confirmed''), (''timestamp'', ee_time env)]\<rparr>"
    by (simp add: entry_payload_def truthy_field_def deposit_event_party or_null_def Let_def)
  have rp: "resolve_project None (entry_payload env ''deposit.confirmed'' ?data) = Inr 0"
    unfolding pl by (simp add: resolve_project_def payload_project_def deposit_event_party)
  show ?thesis
    using assms create_resolved [OF rp]
    by (simp add: processStreamEntry_def Let_def fields_roundtrip [OF deposit_event_keys] c pr dispatch_def
        optional_id_def create_for_def pl)
qed

text \<open>A reverted deposit is announced as confirmed: when the receipt of a deposit has vanished, the
  tracker publishes its reversal, and the consumer turns that entry into a delivery with the event type
  \<open>deposit.confirmed\<close> for every webhook of the client that subscribes to confirmations.\<close>

lemma reverted_deposit_is_announced_as_confirmed:
  assumes "te_receipt env (d_tx (pd_row p)) = Inr None" "\<not> starts_with ''polling:'' (d_tx (pd_row p))"
    and "\<forall>e. te_publish env e" "\<not> ee_down eenv"
    and "map_of STREAM_EVENT_MAP ''deposits:confirmation'' = Some et"
  shows "\<exists>ev ds. published (snd (checkDeposit env p tip st)) = published st @ [ev] \<and> ev_kind ev = EvReverted
    \<and> fst (processStreamEntry eenv (flat_fields (deposit_event_data isodate ev)) et b) = Inr ()
    \<and> deliveries (notify (snd (processStreamEntry eenv (flat_fields (deposit_event_data isodate ev)) et b))) = deliveries (notify b) @ ds
    \<and> map dl_webhook ds = map wh_id (findMatchingWebhooks (d_client (pd_row p)) ''deposit.confirmed'' (notify b))
    \<and> (\<forall>d \<in> set ds. dl_client d = d_client (pd_row p) \<and> dl_eventType d = ''deposit.confirmed'')"
proof -
  let ?ev = "event_of env p EvReverted None None None None"
  have et: "et = ''deposit.confirmed''" using assms(5) by (simp add: STREAM_EVENT_MAP_def)
  have "published (snd (checkDeposit env p tip st)) = published st @ [?ev]"
    using published_checkDeposit(1) [OF assms(3,2)] assms(1) by (simp add: view_events_def)
  moreover have "ev_kind ?ev = EvReverted" "ev_client ?ev = d_client (pd_row p)" by (simp_all add: event_of_def)
  ultimately show ?thesis
    using process_deposit_event [OF assms(4), of isodate ?ev b] created_for_fields(1,3) unfolding et
    by (intro exI [of _ ?ev] exI [of _ "created_for (ee_create eenv) (d_client (pd_row p)) 0 ''deposit.confirmed''
          (ee_json eenv ''deposit.confirmed'' (ee_time eenv) (deposit_event_data isodate ?ev)) (next_delivery (notify b))
          (findMatchingWebhooks (d_client (pd_row p)) ''deposit.confirmed'' (notify b))"])
      (auto dest: created_for_fields(3))
qed

section \<open>What Kafka keeps and drops\<close>

definition kafka_event :: "string \<Rightarrow> string option" where
  "kafka_event s = (case map_of STREAM_TO_TOPIC s of None \<Rightarrow> None | Some t \<Rightarrow> map_of KAFKA_TO_EVENT t)"

text \<open>With Kafka as the consumer only the three deposit streams keep their event; the withdrawals become one
  event that no stream has, and the others are dropped.\<close>

lemma kafka_events:
  "map (\<lambda>(s, et). (s, kafka_event s)) STREAM_EVENT_MAP =
     [(''deposits:detected'', Some ''deposit.detected''), (''deposits:confirmation'', Some ''deposit.confirmed''),
      (''deposits:swept'', Some ''deposit.swept''), (''deposits:sweep_pending'', None),
      (''withdrawals:submitted'', Some ''withdrawal.lifecycle''), (''withdrawals:broadcasting'', None),
      (''withdrawals:confirmed'', Some ''withdrawal.lifecycle''), (''withdrawals:failed'', Some ''withdrawal.lifecycle''),
      (''gas_tank:alerts'', None)]"
  by (simp add: STREAM_EVENT_MAP_def kafka_event_def STREAM_TO_TOPIC_def KAFKA_TO_EVENT_def)

section \<open>An instance\<close>

definition empty_bus :: bus where
  "empty_bus =
     \<lparr>streams = (\<lambda>_. \<lparr>ss_entries = [], ss_last = 0, ss_pending = []\<rparr>), notify = small_notify,
      alert_configs = [], project_clients = [], handled = [], topic_log = []\<rparr>"

definition plain_env :: entry_env where
  "plain_env =
     \<lparr>ee_time = ''t'', ee_json = (\<lambda>e t d. e), ee_parse = (\<lambda>_. None), ee_create = small_create_env, ee_down = False\<rparr>"

definition publish_redis :: "string \<Rightarrow> (string \<times> string) list \<Rightarrow> bus \<Rightarrow> bus" where
  "publish_redis s data st = snd (bus_publish \<lparr>bc_redis = True, bc_kafka = False\<rparr> \<lparr>tr_redis = True, tr_kafka = False\<rparr> s data st)"

text \<open>Ten entries with an unreadable client, one good entry, and two turns that read them and stop.\<close>

definition jammed_bus :: bus where
  "jammed_bus =
     consume_turn 0 (\<lambda>_ _. plain_env) 0 (consume_turn 0 (\<lambda>_ _. plain_env) 0
       (publish_redis ''deposits:swept'' [(''clientId'', ''7'')]
         ((publish_redis ''deposits:swept'' [(''clientId'', ''x'')] ^^ 10) empty_bus)))"

lemma publish_redis_steps: "bus_step\<^sup>*\<^sup>* st ((publish_redis s data ^^ n) st)"
proof (induction n)
  case (Suc n)
  have "bus_step x (publish_redis s data x)" for x unfolding publish_redis_def by (rule bus_step.published)
  then show ?case using Suc by (metis comp_apply funpow.simps(2) rtranclp.rtrancl_into_rtrancl)
qed simp

lemma jammed_steps: "bus_step\<^sup>*\<^sup>* empty_bus jammed_bus"
proof -
  let ?b = "(publish_redis ''deposits:swept'' [(''clientId'', ''x'')] ^^ 10) empty_bus"
  let ?c = "publish_redis ''deposits:swept'' [(''clientId'', ''7'')] ?b"
  have "bus_step\<^sup>*\<^sup>* empty_bus ?b" by (rule publish_redis_steps)
  also have "bus_step ?b ?c" unfolding publish_redis_def [of _ _ ?b] by (rule bus_step.published)
  also have "bus_step ?c (consume_turn 0 (\<lambda>_ _. plain_env) 0 ?c)" by (rule bus_step.consumed)
  also have "bus_step (consume_turn 0 (\<lambda>_ _. plain_env) 0 ?c) jammed_bus"
    unfolding jammed_bus_def by (rule bus_step.consumed)
  finally show ?thesis .
qed

lemma publish_redis_stream:
  "streams (publish_redis s d st) s = (streams st s)\<lparr>ss_entries := ss_entries (streams st s)
     @ [\<lparr>se_id = Suc (length (ss_entries (streams st s))), se_fields = flat_fields d\<rparr>]\<rparr>"
  "handled (publish_redis s d st) = handled st"
  by (simp_all add: publish_redis_def bus_publish_def Let_def xadd_def set_stream_def split: option.split)

lemma publish_redis_many:
  "streams ((publish_redis s d ^^ n) st) s = (streams st s)\<lparr>ss_entries := ss_entries (streams st s)
     @ map (\<lambda>i. \<lparr>se_id = Suc (length (ss_entries (streams st s)) + i), se_fields = flat_fields d\<rparr>) [0..<n]\<rparr>
   \<and> handled ((publish_redis s d ^^ n) st) = handled st"
  by (induction n) (simp_all add: publish_redis_stream)

lemma consume_nothing:
  "s \<in> fst ` set STREAM_EVENT_MAP \<Longrightarrow> streams (consume_turn now envs 0 st) s = snd (read_new now (streams st s))"
  "handled (consume_turn now envs 0 st) = handled st"
  by (simp_all add: consume_turn_def case_prod_beta read_all(2,3) [OF distinct_streams])

lemma jammed_stream:
  "streams jammed_bus ''deposits:swept'' = snd (read_new 0 (snd (read_new 0
     \<lparr>ss_entries = map (\<lambda>i. \<lparr>se_id = Suc i, se_fields = [''clientId'', ''x'']\<rparr>) [0..<10]
        @ [\<lparr>se_id = 11, se_fields = [''clientId'', ''7'']\<rparr>], ss_last = 0, ss_pending = []\<rparr>)))"
  "handled jammed_bus = []"
proof -
  have "''deposits:swept'' \<in> fst ` set STREAM_EVENT_MAP" by (simp add: STREAM_EVENT_MAP_def)
  note c = consume_nothing(1) [OF this]
  show "streams jammed_bus ''deposits:swept'' = snd (read_new 0 (snd (read_new 0
     \<lparr>ss_entries = map (\<lambda>i. \<lparr>se_id = Suc i, se_fields = [''clientId'', ''x'']\<rparr>) [0..<10]
        @ [\<lparr>se_id = 11, se_fields = [''clientId'', ''7'']\<rparr>], ss_last = 0, ss_pending = []\<rparr>)))"
    unfolding jammed_bus_def c publish_redis_stream conjunct1 [OF publish_redis_many]
    by (simp add: empty_bus_def flat_fields_def)
  show "handled jammed_bus = []"
    unfolding jammed_bus_def consume_nothing(2) publish_redis_stream(2) conjunct2 [OF publish_redis_many]
    by (simp add: empty_bus_def)
qed

lemma jammed_facts:
  "pending_ids (streams jammed_bus ''deposits:swept'') = [1, 2, 3, 4, 5, 6, 7, 8, 9, 10, 11]"
  "ss_entries (streams jammed_bus ''deposits:swept'')
     = map (\<lambda>i. \<lparr>se_id = Suc i, se_fields = [''clientId'', ''x'']\<rparr>) [0..<10] @ [\<lparr>se_id = 11, se_fields = [''clientId'', ''7'']\<rparr>]"
  "ss_last (streams jammed_bus ''deposits:swept'') = 11"
  unfolding jammed_stream by (simp_all add: pending_ids_def read_new_def BATCH_SIZE_def Let_def upt_rec)

lemma empty_bus_fresh: "fresh_bus empty_bus"
  by (simp add: fresh_bus_def empty_bus_def)

theorem no_entry_is_lost_witness:
  "11 \<in> set (pending_ids (streams jammed_bus ''deposits:swept'')) \<or> (''deposits:swept'', 11, True) \<in> set (handled jammed_bus)"
  using no_entry_is_lost [OF empty_bus_fresh jammed_steps, of "\<lparr>se_id = 11, se_fields = [''clientId'', ''7'']\<rparr>" "''deposits:swept''"]
  by (simp add: jammed_facts)

lemma jammed_stuck: "stuck ''deposits:swept'' ''deposit.swept'' [1, 2, 3, 4, 5, 6, 7, 8, 9, 10] 11 jammed_bus"
proof -
  have "poison ''deposit.swept'' [''clientId'', ''x'']"
    by (simp add: poison_def either_field_def truthy_field_def or_null_def big_int_def is_digit_def)
  then show ?thesis
    by (auto simp: stuck_def jammed_facts jammed_stream(2) PENDING_BATCH_SIZE_def succeeded_def)
qed

lemma ten_bad_entries_starve_recovery_witness:
  "11 \<in> set (pending_ids (streams (recoverPendingMessages 60000 (\<lambda>_ _. plain_env) (\<lambda>_. False) jammed_bus) ''deposits:swept''))"
proof -
  have ev: "map_of STREAM_EVENT_MAP ''deposits:swept'' = Some ''deposit.swept''" by (simp add: STREAM_EVENT_MAP_def)
  have "bus_step\<^sup>*\<^sup>* jammed_bus (recoverPendingMessages 60000 (\<lambda>_ _. plain_env) (\<lambda>_. False) jammed_bus)"
    by (rule r_into_rtranclp) (rule bus_step.recovered)
  from ten_bad_entries_starve_recovery [OF empty_bus_fresh jammed_steps ev jammed_stuck this]
  show ?thesis by blast
qed

definition reorged_deposit :: pending_deposit where
  "reorged_deposit = \<lparr>pd_row = sample_deposit 1 ''0xab'', pd_wallet = None, pd_token = None\<rparr>"

lemma reverted_deposit_is_announced_as_confirmed_witness:
  "\<exists>ev. published (snd (checkDeposit ((sample_tick 9 9)\<lparr>te_receipt := \<lambda>_. Inr None\<rparr>) reorged_deposit 9 sample_tracker))
       = published sample_tracker @ [ev] \<and> ev_kind ev = EvReverted"
proof -
  have "te_receipt ((sample_tick 9 9)\<lparr>te_receipt := \<lambda>_. Inr None\<rparr>) (d_tx (pd_row reorged_deposit)) = Inr None"
    and "\<not> starts_with ''polling:'' (d_tx (pd_row reorged_deposit))"
    and "\<forall>e. te_publish ((sample_tick 9 9)\<lparr>te_receipt := \<lambda>_. Inr None\<rparr>) e"
    and "\<not> ee_down plain_env"
    and "map_of STREAM_EVENT_MAP ''deposits:confirmation'' = Some ''deposit.confirmed''"
    by (simp_all add: reorged_deposit_def sample_deposit_def starts_with_def sample_tick_def plain_env_def STREAM_EVENT_MAP_def)
  from reverted_deposit_is_announced_as_confirmed [OF this, of 9 sample_tracker "\<lambda>_. ''t''" empty_bus]
  show ?thesis by blast
qed

end
