(* ===== verification/DepositStore.thy ===== *)
theory DepositStore
  imports Detectors EventConsumer
begin

text \<open>
  The rows of the detected deposits (services/chain-indexer-service/src/deposit-persistence/
  deposit-persistence.handler.ts): the consumer group on \<open>deposits:detected\<close>, with the streams of EventConsumer,
  and the insertion into \<open>deposits\<close>, with the unique key (transaction, forwarder) of database/005-cvh-transactions.sql.
  The last section runs the detectors and the consumer together.
\<close>

section \<open>State\<close>

record stored_deposit = deposit_row +
  sx_project :: ident
  sx_external :: string
  sx_from :: string
  sx_detected :: millis

record stored_address =
  sa_client :: ident
  sa_project :: ident
  sa_wallet :: ident
  sa_external :: string
  sa_chain :: int
  sa_address :: string

record deposit_store =
  pt_stream :: stream_state
  pt_addresses :: "stored_address list"
  pt_tokens :: "wallet_token list"
  pt_chains :: "wallet_chain list"
  pt_rows :: "stored_deposit list"
  pt_next :: ident

record store_env =
  de_now :: millis
  de_down :: bool

section \<open>Recording an event\<close>

definition same_key :: "string \<Rightarrow> string \<Rightarrow> stored_deposit \<Rightarrow> bool" where
  "same_key tx fwd d \<longleftrightarrow> sql_eq (d_tx d) tx \<and> sql_eq (d_forwarder d) fwd"

definition event_token :: "int \<Rightarrow> string \<Rightarrow> wallet_token list \<Rightarrow> wallet_token option" where
  "event_token chain contract toks =
     (if contract = ''native'' \<or> contract = ZERO_ADDRESS
      then find (\<lambda>t. wk_chain t = chain \<and> wk_native t) toks
      else find (\<lambda>t. wk_chain t = chain \<and> lower (wk_contract t) = lower contract) toks)"

text \<open>The columns refuse longer texts.\<close>

definition row_fits :: "stored_deposit \<Rightarrow> bool" where
  "row_fits d \<longleftrightarrow> length (d_tx d) \<le> 66 \<and> length (d_amount d) \<le> 78 \<and> length (sx_from d) \<le> 42 \<and> length (d_forwarder d) \<le> 42"

definition insert_deposit :: "stored_deposit \<Rightarrow> deposit_store \<Rightarrow> (error + unit) \<times> deposit_store" where
  "insert_deposit d st =
     (if \<not> row_fits d then (Inl (InternalError ''Data too long''), st)
      else if list_ex (same_key (d_tx d) (d_forwarder d)) (pt_rows st)
      then (Inr (), st\<lparr>pt_rows := update_where (same_key (d_tx d) (d_forwarder d)) (\<lambda>r. r\<lparr>d_required := d_required d\<rparr>) (pt_rows st)\<rparr>)
      else (Inr (), st\<lparr>pt_rows := pt_rows st @ [d\<lparr>d_id := pt_next st\<rparr>], pt_next := pt_next st + 1\<rparr>))"

definition required_confirmations :: "int \<Rightarrow> deposit_store \<Rightarrow> int" where
  "required_confirmations chain st =
     (case find (\<lambda>c. wc_id c = chain) (pt_chains st) of None \<Rightarrow> 12 | Some c \<Rightarrow> wc_confirmations c)"

text \<open>A row detected by polling is confirmed at once.\<close>

definition new_deposit ::
    "store_env \<Rightarrow> deposit_store \<Rightarrow> stored_address \<Rightarrow> int \<Rightarrow> string \<Rightarrow> string \<Rightarrow> string \<Rightarrow> block_no \<Rightarrow> string \<Rightarrow> ident \<Rightarrow> bool
     \<Rightarrow> stored_deposit" where
  "new_deposit env st a chain tx fwd from block amount tok polling =
     (let req = required_confirmations chain st in
      \<lparr>d_id = 0, d_client = sa_client a, d_chain = chain, d_tx = tx, d_forwarder = fwd, d_block = block, d_amount = amount,
       d_token = tok, d_confirmations = (if polling then req else 0), d_required = req,
       d_status = (if polling then DConfirmed else DPending),
       d_confirmed_at = (if polling then Some (de_now env) else None),
       sx_project = sa_project a, sx_external = sa_external a, sx_from = from, sx_detected = de_now env\<rparr>)"

definition field_or :: "(string \<times> string) list \<Rightarrow> string \<Rightarrow> string \<Rightarrow> string" where
  "field_or data k v = (case map_of data k of None \<Rightarrow> v | Some x \<Rightarrow> x)"

definition deposit_for :: "store_env \<Rightarrow> string list \<Rightarrow> deposit_store \<Rightarrow> error + stored_deposit option" where
  "deposit_for env flat st =
     (let data = fields_object flat [];
          from = lower (field_or data ''fromAddress'' ZERO_ADDRESS);
          contract = field_or data ''contractAddress'' ''native'';
          amount = field_or data ''amount'' ''0'';
          polling = (map_of data ''source'' = Some ''polling'')
      in case number_id (field_or data ''blockNumber'' ''0'') of
        None \<Rightarrow> Inl (InternalError ''SyntaxError'')
      | Some block \<Rightarrow>
     (case (case map_of data ''chainId'' of None \<Rightarrow> None | Some s \<Rightarrow> number_id s,
            or_null (map_of data ''txHash''), or_null (map_option lower (map_of data ''toAddress''))) of
        (Some chain, Some tx, Some fwd) \<Rightarrow>
          if chain = 0 then Inr None
          else if de_down env then Inl (InternalError ''database'')
          else
         (case find (\<lambda>a. sa_chain a = chain \<and> sql_eq (sa_address a) fwd) (pt_addresses st) of
            None \<Rightarrow> Inr None
          | Some a \<Rightarrow>
         (case event_token chain contract (pt_tokens st) of
            None \<Rightarrow> Inr None
          | Some t \<Rightarrow> Inr (Some (new_deposit env st a chain tx fwd from block amount (wk_id t) polling))))
      | _ \<Rightarrow> Inr None))"

definition recordDeposit :: "store_env \<Rightarrow> string list \<Rightarrow> deposit_store \<Rightarrow> (error + unit) \<times> deposit_store" where
  "recordDeposit env flat st =
     (case deposit_for env flat st of
        Inl e \<Rightarrow> (Inl e, st)
      | Inr None \<Rightarrow> (Inr (), st)
      | Inr (Some d) \<Rightarrow> insert_deposit d st)"

section \<open>The consumer\<close>

definition ack :: "nat \<Rightarrow> deposit_store \<Rightarrow> deposit_store" where
  "ack n st = st\<lparr>pt_stream := (pt_stream st)\<lparr>ss_pending := filter (\<lambda>p. pe_id p \<noteq> n) (ss_pending (pt_stream st))\<rparr>\<rparr>"

definition handle_detected :: "(nat \<Rightarrow> store_env) \<Rightarrow> stream_entry \<Rightarrow> deposit_store \<Rightarrow> deposit_store" where
  "handle_detected envs e st =
     (case recordDeposit (envs (se_id e)) (se_fields e) st of
        (Inl _, st1) \<Rightarrow> st1
      | (Inr _, st1) \<Rightarrow> ack (se_id e) st1)"

text \<open>One turn of the loop, cut after \<open>k\<close> entries when the process stops there.\<close>

definition consume_detected :: "millis \<Rightarrow> (nat \<Rightarrow> store_env) \<Rightarrow> nat \<Rightarrow> deposit_store \<Rightarrow> deposit_store" where
  "consume_detected now envs k st =
     (case read_new now (pt_stream st) of (es, x) \<Rightarrow> fold (handle_detected envs) (take k es) (st\<lparr>pt_stream := x\<rparr>))"

definition recover_detected :: "millis \<Rightarrow> (nat \<Rightarrow> store_env) \<Rightarrow> deposit_store \<Rightarrow> deposit_store" where
  "recover_detected now envs st =
     (let ids = stale_ids now (pt_stream st) in
      if ids = [] then st
      else (case xclaim now ids (pt_stream st) of (es, x) \<Rightarrow> fold (handle_detected envs) es (st\<lparr>pt_stream := x\<rparr>)))"

definition append_detected :: "(string \<times> string) list \<Rightarrow> deposit_store \<Rightarrow> deposit_store" where
  "append_detected data st =
     st\<lparr>pt_stream := (pt_stream st)\<lparr>ss_entries := ss_entries (pt_stream st)
          @ [\<lparr>se_id = Suc (length (ss_entries (pt_stream st))), se_fields = flat_fields data\<rparr>]\<rparr>\<rparr>"

section \<open>One row for each transaction and forwarder\<close>

fun unique_deposits :: "stored_deposit list \<Rightarrow> bool" where
  "unique_deposits [] \<longleftrightarrow> True"
| "unique_deposits (d # ds) \<longleftrightarrow> \<not> list_ex (same_key (d_tx d) (d_forwarder d)) ds \<and> unique_deposits ds"

lemma same_key_sym: "same_key (d_tx a) (d_forwarder a) b \<longleftrightarrow> same_key (d_tx b) (d_forwarder b) a"
  by (auto simp: same_key_def sql_eq_def)

lemma unique_deposits_snoc:
  "unique_deposits (ds @ [d]) \<longleftrightarrow> unique_deposits ds \<and> \<not> list_ex (same_key (d_tx d) (d_forwarder d)) ds"
  by (induction ds) (auto simp: list_ex_iff same_key_sym [of _ d])

lemma same_key_required [simp]: "same_key tx fwd (d\<lparr>d_required := n\<rparr>) = same_key tx fwd d"
  and same_key_id [simp]: "same_key tx fwd (d\<lparr>d_id := m\<rparr>) = same_key tx fwd d"
  by (simp_all add: same_key_def)

lemma list_ex_same_key_update [simp]:
  "list_ex (same_key tx fwd) (update_where p (\<lambda>r. r\<lparr>d_required := n\<rparr>) ds) = list_ex (same_key tx fwd) ds"
  by (induction ds) simp_all

lemma unique_deposits_update: "unique_deposits ds \<Longrightarrow> unique_deposits (update_where p (\<lambda>r. r\<lparr>d_required := n\<rparr>) ds)"
  by (induction ds) (auto simp del: update_where_append)

text \<open>What an event may change: it appends a row of a new key or rewrites the required confirmations.\<close>

definition same_but_required :: "stored_deposit \<Rightarrow> stored_deposit \<Rightarrow> bool" where
  "same_but_required x y \<longleftrightarrow> y = x\<lparr>d_required := d_required y\<rparr>"

definition rows_kept :: "stored_deposit list \<Rightarrow> stored_deposit list \<Rightarrow> bool" where
  "rows_kept ds es \<longleftrightarrow> (\<exists>ds' new. es = ds' @ new \<and> list_all2 same_but_required ds ds')"

lemma same_but_required_refl [simp]: "same_but_required x x"
  and same_but_required_update [simp]: "same_but_required x (x\<lparr>d_required := n\<rparr>)"
  by (simp_all add: same_but_required_def)

lemma same_but_required_trans: "same_but_required x y \<Longrightarrow> same_but_required y z \<Longrightarrow> same_but_required x z"
  unfolding same_but_required_def by (cases x, cases y, cases z) simp

lemma list_all2_same_update: "list_all2 same_but_required ds (update_where p (\<lambda>r. r\<lparr>d_required := n\<rparr>) ds)"
  by (induction ds) simp_all

lemma list_all2_same_refl [simp]: "list_all2 same_but_required ds ds"
  by (simp add: list_all2_refl)

lemma rows_kept_refl [simp]: "rows_kept ds ds"
  unfolding rows_kept_def by (intro exI [of _ ds] exI [of _ "[]"]) simp

lemma rows_kept_trans:
  assumes "rows_kept a b" "rows_kept b c"
  shows "rows_kept a c"
proof -
  obtain b1 n1 where b: "b = b1 @ n1" "list_all2 same_but_required a b1" using assms(1) by (auto simp: rows_kept_def)
  obtain c1 n2 where c: "c = c1 @ n2" "list_all2 same_but_required b c1" using assms(2) by (auto simp: rows_kept_def)
  obtain c2 c3 where s: "c1 = c2 @ c3" "list_all2 same_but_required b1 c2"
    using c(2) unfolding b(1) list_all2_append1 by blast
  have "list_all2 same_but_required a c2"
    by (rule list_all2_trans [OF _ b(2) s(2)]) (rule same_but_required_trans)
  then show ?thesis unfolding rows_kept_def c(1) s(1) by (intro exI [of _ c2] exI [of _ "c3 @ n2"]) simp
qed

lemma insert_deposit_rows:
  "rows_kept (pt_rows st) (pt_rows (snd (insert_deposit d st)))
   \<and> (unique_deposits (pt_rows st) \<longrightarrow> unique_deposits (pt_rows (snd (insert_deposit d st))))
   \<and> pt_stream (snd (insert_deposit d st)) = pt_stream st"
proof (cases "row_fits d")
  case True
  show ?thesis
  proof (cases "list_ex (same_key (d_tx d) (d_forwarder d)) (pt_rows st)")
    case ex: True
    have "rows_kept (pt_rows st) (update_where p (\<lambda>r. r\<lparr>d_required := n\<rparr>) (pt_rows st))" for p n
      unfolding rows_kept_def by (intro exI conjI, rule append_Nil2 [symmetric]) (rule list_all2_same_update)
    then show ?thesis using True ex unique_deposits_update by (simp add: insert_deposit_def)
  next
    case False
    have "rows_kept (pt_rows st) (pt_rows st @ [r])" for r
      unfolding rows_kept_def by (intro exI conjI, rule refl) simp
    then show ?thesis using True False by (simp add: insert_deposit_def unique_deposits_snoc)
  qed
qed (simp add: insert_deposit_def)

lemma recordDeposit_cases:
  obtains (kept) r where "recordDeposit env flat st = (r, st)"
    | (stored) d where "recordDeposit env flat st = insert_deposit d st"
proof -
  have "(\<exists>r. recordDeposit env flat st = (r, st)) \<or> (\<exists>d. recordDeposit env flat st = insert_deposit d st)"
    unfolding recordDeposit_def by (auto split: sum.split option.split)
  then show ?thesis using that by blast
qed

lemma recordDeposit_rows:
  "rows_kept (pt_rows st) (pt_rows (snd (recordDeposit env flat st)))
   \<and> (unique_deposits (pt_rows st) \<longrightarrow> unique_deposits (pt_rows (snd (recordDeposit env flat st))))"
  by (cases rule: recordDeposit_cases [of env flat st]) (simp_all add: insert_deposit_rows)

lemma handle_detected_rows:
  "rows_kept (pt_rows st) (pt_rows (handle_detected envs e st))
   \<and> (unique_deposits (pt_rows st) \<longrightarrow> unique_deposits (pt_rows (handle_detected envs e st)))"
  using recordDeposit_rows [of st "envs (se_id e)" "se_fields e"]
  by (simp add: handle_detected_def ack_def case_prod_beta split: sum.split)

lemma handle_all_detected_rows:
  "rows_kept (pt_rows st) (pt_rows (fold (handle_detected envs) es st))
   \<and> (unique_deposits (pt_rows st) \<longrightarrow> unique_deposits (pt_rows (fold (handle_detected envs) es st)))"
proof (induction es arbitrary: st)
  case (Cons e es)
  then show ?case
    using handle_detected_rows [of st envs e] rows_kept_trans by simp blast
qed simp

inductive store_step :: "deposit_store \<Rightarrow> deposit_store \<Rightarrow> bool" where
  detect: "store_step st (append_detected data st)"
| consume: "store_step st (consume_detected now envs k st)"
| recover: "store_step st (recover_detected now envs st)"

lemma store_step_rows:
  "store_step a b \<Longrightarrow> rows_kept (pt_rows a) (pt_rows b) \<and> (unique_deposits (pt_rows a) \<longrightarrow> unique_deposits (pt_rows b))"
proof (induction rule: store_step.induct)
  case (consume st now envs k)
  show ?case
    using handle_all_detected_rows [of "st\<lparr>pt_stream := snd (read_new now (pt_stream st))\<rparr>" envs]
    by (simp add: consume_detected_def case_prod_beta)
next
  case (recover st now envs)
  show ?case
    using handle_all_detected_rows [of "st\<lparr>pt_stream := snd (xclaim now (stale_ids now (pt_stream st)) (pt_stream st))\<rparr>" envs]
    by (simp add: recover_detected_def case_prod_beta Let_def)
qed (simp add: append_detected_def)

definition unique_store :: "deposit_store \<Rightarrow> bool" where
  "unique_store st \<longleftrightarrow> unique_deposits (pt_rows st)"

interpretation storing: machine unique_store store_step unique_store
  by unfold_locales (auto simp: unique_store_def dest: store_step_rows)

text \<open>Claim C17. The table of the deposits only grows, and holds each transaction once for each forwarder: whatever
  is detected, consumed, lost in a crash and recovered, no two rows share transaction and forwarder, and a row that was
  recorded keeps everything but its required confirmations.\<close>

theorem deposits_are_recorded_once:
  assumes "unique_deposits (pt_rows st)" "store_step\<^sup>*\<^sup>* st st'"
  shows "unique_deposits (pt_rows st') \<and> rows_kept (pt_rows st) (pt_rows st')"
proof
  show "unique_deposits (pt_rows st')"
    using storing.inv_steps [OF assms(2)] assms(1) by (simp add: unique_store_def)
  show "rows_kept (pt_rows st) (pt_rows st')"
    using assms(2) by (induction rule: rtranclp_induct) (auto dest: store_step_rows intro: rows_kept_trans)
qed

section \<open>Repeated events\<close>

lemma recordDeposit_key:
  obtains (kept) r where "recordDeposit env flat st = (r, st)"
    | (stored) d a where "recordDeposit env flat st = insert_deposit d st"
        "map_of (fields_object flat []) ''txHash'' = Some (d_tx d)" "map_of (fields_object flat []) ''toAddress'' = Some a" "d_forwarder d = lower a"
proof -
  have "(\<exists>r. recordDeposit env flat st = (r, st))
    \<or> (\<exists>d a. recordDeposit env flat st = insert_deposit d st \<and> map_of (fields_object flat []) ''txHash'' = Some (d_tx d)
        \<and> map_of (fields_object flat []) ''toAddress'' = Some a \<and> d_forwarder d = lower a)"
    unfolding recordDeposit_def deposit_for_def Let_def
    by (auto split: option.split simp: new_deposit_def Let_def or_null_def split: if_splits)
  then show ?thesis using that by blast
qed

lemma same_key_lower [simp]: "same_key tx (lower a) = same_key tx a"
  by (rule ext) (simp add: same_key_def)

text \<open>The second transfer of a transaction is lost: once a row exists for a transaction and a forwarder, an
  event of the same transaction and forwarder adds no row, whatever its token and amount; it is acknowledged like any
  other, and the rows keep their tokens and amounts.\<close>

lemma second_transfer_of_a_transaction_is_lost:
  assumes "map_of (fields_object flat []) ''txHash'' = Some tx" "map_of (fields_object flat []) ''toAddress'' = Some fwd"
    and "list_ex (same_key tx fwd) (pt_rows st)"
  shows "list_all2 same_but_required (pt_rows st) (pt_rows (snd (recordDeposit env flat st)))"
proof (cases rule: recordDeposit_key [of env flat st])
  case (stored d a)
  then have "d_tx d = tx" "d_forwarder d = lower fwd" using assms(1,2) by auto
  then show ?thesis
    using stored(1) assms(3) list_all2_same_update by (simp add: insert_deposit_def)
qed simp

definition same_shape :: "stored_deposit \<Rightarrow> stored_deposit \<Rightarrow> bool" where
  "same_shape d e \<longleftrightarrow> d_tx e = d_tx d \<and> d_forwarder e = d_forwarder d \<and> d_required e = d_required d \<and> row_fits e = row_fits d"

lemma deposit_for_again:
  assumes "deposit_for env flat st = Inr x" "\<not> de_down env'"
    and "pt_addresses st' = pt_addresses st" "pt_tokens st' = pt_tokens st" "pt_chains st' = pt_chains st"
  shows "\<exists>y. deposit_for env' flat st' = Inr y \<and> rel_option same_shape x y"
  using assms unfolding deposit_for_def Let_def
  by (auto simp: same_shape_def new_deposit_def Let_def row_fits_def required_confirmations_def split: option.splits if_splits)

lemma update_required_twice:
  "update_where (same_key a b) (\<lambda>r. r\<lparr>d_required := n\<rparr>) (update_where (same_key a b) (\<lambda>r. r\<lparr>d_required := n\<rparr>) ds)
    = update_where (same_key a b) (\<lambda>r. r\<lparr>d_required := n\<rparr>) ds"
  by (induction ds) simp_all

lemma update_where_none: "\<not> list_ex p xs \<Longrightarrow> update_where p f xs = xs"
  by (induction xs) simp_all

lemma insert_deposit_again:
  assumes "insert_deposit d st = (Inr (), st')" "same_shape d e"
  shows "insert_deposit e st' = (Inr (), st')"
proof -
  have fits: "row_fits d" using assms(1) by (auto simp: insert_deposit_def split: if_splits)
  have e: "d_tx e = d_tx d" "d_forwarder e = d_forwarder d" "d_required e = d_required d" "row_fits e"
    using assms(2) fits by (simp_all add: same_shape_def)
  show ?thesis
  proof (cases "list_ex (same_key (d_tx d) (d_forwarder d)) (pt_rows st)")
    case True
    then have "st' = st\<lparr>pt_rows := update_where (same_key (d_tx d) (d_forwarder d)) (\<lambda>r. r\<lparr>d_required := d_required d\<rparr>) (pt_rows st)\<rparr>"
      using assms(1) fits by (simp add: insert_deposit_def)
    then show ?thesis using True e by (simp add: insert_deposit_def update_required_twice)
  next
    case False
    then have st': "st' = st\<lparr>pt_rows := pt_rows st @ [d\<lparr>d_id := pt_next st\<rparr>], pt_next := pt_next st + 1\<rparr>"
      using assms(1) fits by (simp add: insert_deposit_def)
    have k: "same_key (d_tx d) (d_forwarder d) d" by (simp add: same_key_def)
    have r: "d\<lparr>d_id := m, d_required := d_required d\<rparr> = d\<lparr>d_id := m\<rparr>" for m by simp
    show ?thesis using e k False by (simp add: insert_deposit_def st' update_where_none r)
  qed
qed

text \<open>Recording is idempotent: an event that is handed out again after its row was written, as the recovery
  does, changes nothing.\<close>

lemma recording_is_idempotent:
  assumes "fst (recordDeposit env flat st) = Inr ()" "\<not> de_down env'"
  shows "recordDeposit env' flat (snd (recordDeposit env flat st)) = (Inr (), snd (recordDeposit env flat st))"
proof -
  obtain st' where st': "recordDeposit env flat st = (Inr (), st')" using assms(1) by (cases "recordDeposit env flat st") simp
  obtain x where x: "deposit_for env flat st = Inr x" using st' by (cases "deposit_for env flat st") (simp_all add: recordDeposit_def)
  have tables: "pt_addresses st' = pt_addresses st" "pt_tokens st' = pt_tokens st" "pt_chains st' = pt_chains st"
    using st' x by (auto simp: recordDeposit_def insert_deposit_def split: option.splits if_splits)
  obtain y where y: "deposit_for env' flat st' = Inr y" "rel_option same_shape x y"
    using deposit_for_again [OF x assms(2) tables] by blast
  show ?thesis
  proof (cases x)
    case None
    then have "st' = st" using st' x by (simp add: recordDeposit_def)
    then show ?thesis using None y st' by (simp add: recordDeposit_def)
  next
    case (Some d)
    then obtain e where "y = Some e" "same_shape d e" using y(2) by (cases y) simp_all
    then show ?thesis using insert_deposit_again [of d st st' e] st' x y(1) Some by (simp add: recordDeposit_def)
  qed
qed

section \<open>Both detectors at work\<close>

text \<open>A block that was read: every deposit found in it is published, and nothing but the cursor and the cached
  hash of the block changes besides.\<close>

lemma hash_differs [simp]: "hash_key c n \<noteq> balance_key d p" "balance_key d p \<noteq> hash_key c n" "hash_key c n \<noteq> head_key d"
  "head_key d \<noteq> hash_key c n"
  by (simp_all add: hash_key_def balance_key_def head_key_def)

lemma ix_monitored_frames [simp]:
  "ix_monitored (upsert_cursor c n ix) = ix_monitored ix" "ix_monitored (publish_detected d ix) = ix_monitored ix"
  "ix_monitored (redis_set now k v ttl ix) = ix_monitored ix"
  by (simp_all add: upsert_cursor_def publish_detected_def redis_set_def split: option.split)

lemma fold_publish [simp]:
  "ix_stream (fold publish_detected es ix) = ix_stream ix @ map (Pair ''deposits:detected'') es"
  "ix_redis (fold publish_detected es ix) = ix_redis ix" "ix_monitored (fold publish_detected es ix) = ix_monitored ix"
  by (induction es arbitrary: ix) simp_all

lemma realtime_ok:
  assumes "realtime_processBlock env chain n st = (Inr ds, st1)" "re_block env = Inr b"
  shows "ix_stream (wt_ix st1) = ix_stream (wt_ix st) @ map (\<lambda>d. (''deposits:detected'', detected_event (re_time env) chain d)) ds"
    and "rget u (ix_redis (wt_ix st1)) (balance_key c p) = rget u (ix_redis (wt_ix st)) (balance_key c p)"
    and "ix_monitored (wt_ix st1) = ix_monitored (wt_ix st)" "wt_modes st1 = wt_modes st" "wt_tokens st1 = wt_tokens st"
      "wt_chains st1 = wt_chains st"
    and "set (scanNativeTransfers st chain n b) \<subseteq> set ds"
proof -
  have all: "list_all p xs \<Longrightarrow> filter p xs = xs" for p and xs :: "(string \<times> string) list list"
    by (simp add: list_all_iff)
  have "ix_stream (wt_ix st1) = ix_stream (wt_ix st) @ map (\<lambda>d. (''deposits:detected'', detected_event (re_time env) chain d)) ds
    \<and> rget u (ix_redis (wt_ix st1)) (balance_key c p) = rget u (ix_redis (wt_ix st)) (balance_key c p)
    \<and> ix_monitored (wt_ix st1) = ix_monitored (wt_ix st) \<and> wt_modes st1 = wt_modes st \<and> wt_tokens st1 = wt_tokens st
    \<and> wt_chains st1 = wt_chains st \<and> set (scanNativeTransfers st chain n b) \<subseteq> set ds"
    using assms
    by (auto simp: realtime_processBlock_def Let_def all kv.get_put comp_def split: sum.splits if_splits option.splits)
  then show "ix_stream (wt_ix st1) = ix_stream (wt_ix st) @ map (\<lambda>d. (''deposits:detected'', detected_event (re_time env) chain d)) ds"
    "rget u (ix_redis (wt_ix st1)) (balance_key c p) = rget u (ix_redis (wt_ix st)) (balance_key c p)"
    "ix_monitored (wt_ix st1) = ix_monitored (wt_ix st)" "wt_modes st1 = wt_modes st" "wt_tokens st1 = wt_tokens st"
    "wt_chains st1 = wt_chains st" "set (scanNativeTransfers st chain n b) \<subseteq> set ds"
    by simp_all
qed

lemma number_show [simp]: "number_id (show_int n) = Some n"
  by (simp add: number_id_def)

lemma number_one [simp]: "number_id ''1'' = Some 1"
  using number_show [of 1] by simp

text \<open>What a detected event of a native transfer is recorded as, with a new key.\<close>

definition native_fields :: "(string \<times> string) list \<Rightarrow> int \<Rightarrow> string \<Rightarrow> block_no \<Rightarrow> string \<Rightarrow> string \<Rightarrow> string \<Rightarrow> bool" where
  "native_fields ev chain tx n from to amount \<longleftrightarrow> distinct (map fst ev)
     \<and> map_of ev ''chainId'' = Some (show_int chain) \<and> map_of ev ''txHash'' = Some tx
     \<and> map_of ev ''blockNumber'' = Some (show_int n) \<and> map_of ev ''fromAddress'' = Some from
     \<and> map_of ev ''toAddress'' = Some to \<and> map_of ev ''contractAddress'' = Some ''native'' \<and> map_of ev ''amount'' = Some amount"

lemma length_lower: "length (lower s) = length s"
  by (simp add: lower_def)

lemma record_native:
  assumes "native_fields ev chain tx n from to amount" "\<not> de_down env" "chain \<noteq> 0" "tx \<noteq> []" "to \<noteq> []"
    and "find (\<lambda>x. sa_chain x = chain \<and> sql_eq (sa_address x) (lower to)) (pt_addresses db) = Some sa"
    and "event_token chain ''native'' (pt_tokens db) = Some tok"
    and "length tx \<le> 66" "length amount \<le> 78" "length from \<le> 42" "length to \<le> 42"
    and "\<not> list_ex (same_key tx to) (pt_rows db)"
  shows "recordDeposit env (flat_fields ev) db = (Inr (), db\<lparr>pt_rows := pt_rows db
    @ [(new_deposit env db sa chain tx (lower to) (lower from) n amount (wk_id tok) (map_of ev ''source'' = Some ''polling''))
        \<lparr>d_id := pt_next db\<rparr>], pt_next := pt_next db + 1\<rparr>)"
proof -
  have f: "fields_object (flat_fields ev) [] = ev"
    using assms(1) by (intro fields_roundtrip) (simp add: native_fields_def)
  have "lower to \<noteq> []" using assms(5) by (simp add: lower_def)
  then have "deposit_for env (flat_fields ev) db
      = Inr (Some (new_deposit env db sa chain tx (lower to) (lower from) n amount (wk_id tok) (map_of ev ''source'' = Some ''polling'')))"
    using assms(1-7) by (simp add: deposit_for_def f native_fields_def field_or_def or_null_def Let_def)
  then show ?thesis
    using assms(8-12) by (simp add: recordDeposit_def insert_deposit_def row_fits_def new_deposit_def Let_def length_lower)
qed


section \<open>Instances\<close>

text \<open>The first deposit of Detectors, and a store that knows its address.\<close>

definition first_store :: deposit_store where
  "first_store =
     \<lparr>pt_stream = \<lparr>ss_entries = [], ss_last = 0, ss_pending = []\<rparr>,
      pt_addresses = [\<lparr>sa_client = 7, sa_project = 5, sa_wallet = 9, sa_external = ''user'', sa_chain = 1, sa_address = ''0xaa''\<rparr>],
      pt_tokens = wt_tokens first_watch, pt_chains = wt_chains first_watch, pt_rows = [], pt_next = 1\<rparr>"

definition plain_store_env :: store_env where
  "plain_store_env = \<lparr>de_now = 2, de_down = False\<rparr>"

lemma amounts:
  "map (\<lambda>d. (d_client d, d_chain d, d_token d, d_forwarder d, d_tx d, d_amount d, d_status d)) rows
     = [(c, n, k, a, x, v, p), (c', n', k', a', x', v', p')] \<Longrightarrow> map d_amount rows = [v, v']"
  by (cases rows; cases "List.tl rows") auto


definition one_event :: "string list" where
  "one_event = flat_fields [(''chainId'', ''1''), (''txHash'', ''0x1''), (''blockNumber'', ''5''), (''toAddress'', ''0xAA''), (''amount'', ''3'')]"

definition other_event :: "string list" where
  "other_event = flat_fields [(''chainId'', ''1''), (''txHash'', ''0x1''), (''blockNumber'', ''5''), (''toAddress'', ''0xaa''),
     (''contractAddress'', ''0xc''), (''amount'', ''8'')]"

definition one_row :: stored_deposit where
  "one_row = new_deposit plain_store_env first_store
     \<lparr>sa_client = 7, sa_project = 5, sa_wallet = 9, sa_external = ''user'', sa_chain = 1, sa_address = ''0xaa''\<rparr>
     1 ''0x1'' ''0xaa'' ZERO_ADDRESS 5 ''3'' 3 False"

lemma number_five [simp]: "number_id ''5'' = Some 5"
  by code_simp

lemma lower_zero [simp]: "lower ZERO_ADDRESS = ZERO_ADDRESS"
  by code_simp

lemma one_event_recorded:
  "recordDeposit plain_store_env one_event first_store = (Inr (), first_store\<lparr>pt_rows := [one_row\<lparr>d_id := 1\<rparr>], pt_next := 2\<rparr>)"
proof -
  have f: "fields_object one_event [] = [(''chainId'', ''1''), (''txHash'', ''0x1''), (''blockNumber'', ''5''), (''toAddress'', ''0xAA''), (''amount'', ''3'')]"
    by (simp add: one_event_def flat_fields_def)
  have "deposit_for plain_store_env one_event first_store = Inr (Some one_row)"
    unfolding deposit_for_def f by (simp add: field_or_def or_null_def plain_store_env_def one_row_def)
       (simp add: first_store_def event_token_def plain_store_env_def)
  moreover have "row_fits one_row" by (simp add: one_row_def new_deposit_def Let_def row_fits_def ZERO_ADDRESS_def)
  ultimately show ?thesis by (simp add: recordDeposit_def insert_deposit_def first_store_def)
qed

lemma second_transfer_of_a_transaction_is_lost_witness:
  "list_all2 same_but_required (pt_rows (snd (recordDeposit plain_store_env one_event first_store)))
     (pt_rows (snd (recordDeposit plain_store_env other_event (snd (recordDeposit plain_store_env one_event first_store)))))"
proof (rule second_transfer_of_a_transaction_is_lost)
  show "map_of (fields_object other_event []) ''txHash'' = Some ''0x1''" "map_of (fields_object other_event []) ''toAddress'' = Some ''0xaa''"
    by (simp_all add: other_event_def flat_fields_def)
  show "list_ex (same_key ''0x1'' ''0xaa'') (pt_rows (snd (recordDeposit plain_store_env one_event first_store)))"
    by (simp add: one_event_recorded same_key_def one_row_def new_deposit_def Let_def)
qed

lemma recording_is_idempotent_witness:
  "recordDeposit plain_store_env one_event (snd (recordDeposit plain_store_env one_event first_store))
     = (Inr (), snd (recordDeposit plain_store_env one_event first_store))"
proof (rule recording_is_idempotent)
  show "fst (recordDeposit plain_store_env one_event first_store) = Inr ()" by (simp add: one_event_recorded)
  show "\<not> de_down plain_store_env" by (simp add: plain_store_env_def)
qed

theorem deposits_are_recorded_once_witness:
  "unique_deposits (pt_rows (consume_detected 2 (\<lambda>_. plain_store_env) 10 (append_detected [(''chainId'', ''1'')] first_store)))"
proof -
  have "store_step\<^sup>*\<^sup>* first_store (consume_detected 2 (\<lambda>_. plain_store_env) 10 (append_detected [(''chainId'', ''1'')] first_store))"
    by (rule rtranclp.rtrancl_into_rtrancl [rotated], rule store_step.consume, rule r_into_rtranclp, rule store_step.detect)
  moreover have "unique_deposits (pt_rows first_store)" by (simp add: first_store_def)
  ultimately show ?thesis using deposits_are_recorded_once by blast
qed

end
