(* ===== verification/Resending.thy ===== *)
theory Resending
  imports Webhooks
begin

text \<open>
  The other operations on deliveries: the resending of failed ones (webhook/dead-letter.service.ts), the
  manual resending (webhook/manual-resend.service.ts), and of webhook/webhook-delivery.service.ts the test
  webhook, the bulk retry and the listings.
\<close>

section \<open>Dead letters\<close>

record dead_letter_page =
  dp_data :: "delivery list"
  dp_total :: nat
  dp_page :: int
  dp_limit :: int

text \<open>\<open>findMany\<close> ordered by the latest creation, with \<open>skip\<close> and \<open>take\<close>; Prisma refuses a negative skip.\<close>

definition newest_first :: "delivery list \<Rightarrow> delivery list" where
  "newest_first ds = rev (sort_key dl_created ds)"

definition slice_page :: "int \<Rightarrow> int \<Rightarrow> 'a list \<Rightarrow> 'a list" where
  "slice_page skip n xs = take (nat n) (drop (nat skip) xs)"

definition listDeadLetters ::
    "ident \<Rightarrow> int option \<Rightarrow> int option \<Rightarrow> delivery_status option \<Rightarrow> notify_db \<Rightarrow> error + dead_letter_page" where
  "listDeadLetters client page limit status db =
     (let p = (case page of None \<Rightarrow> 1 | Some x \<Rightarrow> x);
          l = min (case limit of None \<Rightarrow> 20 | Some x \<Rightarrow> x) 100;
          st = (case status of None \<Rightarrow> DFailed | Some s \<Rightarrow> s);
          rows = filter (\<lambda>d. dl_client d = client \<and> dl_status d = st) (deliveries db)
      in if (p - 1) * l < 0 \<or> l < 0 then Inl (InternalError ''Invalid value for skip or take'')
         else Inr \<lparr>dp_data = slice_page ((p - 1) * l) l (newest_first rows), dp_total = length rows,
                   dp_page = p, dp_limit = l\<rparr>)"

definition resend :: "ident \<Rightarrow> notify_db \<Rightarrow> bool \<times> notify_db" where
  "resend n db =
     (case find_delivery n db of
        None \<Rightarrow> (False, db)
      | Some d \<Rightarrow>
          if dl_status d \<noteq> DFailed then (False, db)
          else
            let maxAttempts = (case find_webhook (dl_webhook d) db of None \<Rightarrow> 5 | Some w \<Rightarrow> wh_maxAttempts w)
            in (True, enqueue (dl_id d) (dl_webhook d) None
                  (update_delivery n (\<lambda>d. d\<lparr>dl_status := DQueued, dl_attempts := 0,
                     dl_maxAttempts := maxAttempts, dl_error := None, dl_nextRetryAt := None\<rparr>) db)))"

fun resend_each :: "ident list \<Rightarrow> notify_db \<Rightarrow> nat \<times> notify_db" where
  "resend_each [] db = (0, db)"
| "resend_each (n # ns) db =
     (let (ok, db1) = resend n db; (k, db2) = resend_each ns db1 in (if ok then k + 1 else k, db2))"

definition resendAll :: "ident \<Rightarrow> notify_db \<Rightarrow> nat \<times> notify_db" where
  "resendAll w db =
     resend_each (map dl_id (filter (\<lambda>d. dl_webhook d = w \<and> dl_status d = DFailed) (deliveries db))) db"

section \<open>Manual resending\<close>

text \<open>
  The data the service passes to \<open>create\<close>. The schema's column for the project is required and has no
  default, so Prisma refuses data without it; the service does not pass it.
\<close>

record resend_data =
  rd_code :: string
  rd_webhook :: ident
  rd_client :: ident
  rd_project :: "ident option"
  rd_eventType :: string
  rd_payload :: string
  rd_maxAttempts :: int
  rd_idempotencyKey :: string
  rd_original :: ident

definition resend_data_of :: "delivery_ids \<Rightarrow> delivery \<Rightarrow> resend_data" where
  "resend_data_of ids d =
     \<lparr>rd_code = id_code ids, rd_webhook = dl_webhook d, rd_client = dl_client d, rd_project = None,
      rd_eventType = dl_eventType d, rd_payload = dl_payload d, rd_maxAttempts = dl_maxAttempts d,
      rd_idempotencyKey = id_idempotency ids, rd_original = dl_id d\<rparr>"

definition create_resend :: "millis \<Rightarrow> resend_data \<Rightarrow> notify_db \<Rightarrow> error + delivery \<times> notify_db" where
  "create_resend now r db =
     (case rd_project r of
        None \<Rightarrow> Inl (InternalError ''Argument projectId is missing'')
      | Some p \<Rightarrow>
          let d = \<lparr>dl_id = next_delivery db, dl_code = rd_code r, dl_webhook = rd_webhook r,
                   dl_client = rd_client r, dl_project = p, dl_eventType = rd_eventType r,
                   dl_payload = rd_payload r, dl_status = DQueued, dl_httpStatus = None,
                   dl_responseBody = None, dl_responseTimeMs = None, dl_attempts = 0,
                   dl_maxAttempts = rd_maxAttempts r, dl_lastAttemptAt = None, dl_nextRetryAt = None,
                   dl_error = None, dl_errorMessage = None, dl_errorCode = None, dl_correlationId = None,
                   dl_idempotencyKey = Some (rd_idempotencyKey r), dl_requestUrl = None,
                   dl_requestHeaders = None, dl_responseHeaders = None, dl_isManualResend = True,
                   dl_original = Some (rd_original r), dl_created = now\<rparr>
          in Inr (d, insert_delivery d db))"

definition resendDelivery ::
    "delivery_ids \<Rightarrow> millis \<Rightarrow> ident \<Rightarrow> ident \<Rightarrow> notify_db \<Rightarrow> (error + ident) \<times> notify_db" where
  "resendDelivery ids now n client db =
     (case find_delivery n db of
        None \<Rightarrow> (Inl (NotFound ''Delivery not found''), db)
      | Some d \<Rightarrow>
          if dl_client d \<noteq> client then (Inl (NotFound ''Delivery not found for this client''), db)
          else (case create_resend now (resend_data_of ids d) db of
                  Inl e \<Rightarrow> (Inl e, db)
                | Inr (d', db1) \<Rightarrow> (Inr (dl_id d'), enqueue (dl_id d') (dl_webhook d) None db1)))"

record batch_result =
  br_resent :: nat
  br_failed :: nat
  br_results :: "(ident \<times> (string + ident)) list"

fun batchResend ::
    "(nat \<Rightarrow> delivery_ids) \<Rightarrow> millis \<Rightarrow> nat \<Rightarrow> ident list \<Rightarrow> ident \<Rightarrow> notify_db \<Rightarrow> batch_result \<times> notify_db" where
  "batchResend ids now i [] client db = (\<lparr>br_resent = 0, br_failed = 0, br_results = []\<rparr>, db)"
| "batchResend ids now i (n # ns) client db =
     (case resendDelivery (ids i) now n client db of
        (Inl e, db1) \<Rightarrow>
          (let (r, db2) = batchResend ids now (Suc i) ns client db1
           in (r\<lparr>br_failed := br_failed r + 1, br_results := (n, Inl (error_text e)) # br_results r\<rparr>, db2))
      | (Inr m, db1) \<Rightarrow>
          (let (r, db2) = batchResend ids now (Suc i) ns client db1
           in (r\<lparr>br_resent := br_resent r + 1, br_results := (n, Inr m) # br_results r\<rparr>, db2)))"

section \<open>Bulk retry\<close>

record bulk_result =
  bk_ok :: nat
  bk_failed :: nat
  bk_results :: "(ident \<times> string option) list"

text \<open>The owned deliveries are read once, at most a hundred; each is delivered at once, whatever its status.\<close>

fun retry_each ::
    "(string \<Rightarrow> string \<Rightarrow> string) \<Rightarrow> (nat \<Rightarrow> deliver_env) \<Rightarrow> (ident \<times> ident) list \<Rightarrow> nat \<Rightarrow> ident list \<Rightarrow> notify_db
     \<Rightarrow> bulk_result \<times> notify_db" where
  "retry_each hmac env owned i [] db = (\<lparr>bk_ok = 0, bk_failed = 0, bk_results = []\<rparr>, db)"
| "retry_each hmac env owned i (n # ns) db =
     (case map_of owned n of
        None \<Rightarrow>
          (let (r, db1) = retry_each hmac env owned (Suc i) ns db
           in (r\<lparr>bk_failed := bk_failed r + 1, bk_results := (n, Some ''Not found for client'') # bk_results r\<rparr>, db1))
      | Some w \<Rightarrow>
          (case deliverWebhook hmac (env i) n w db of
             (Inl e, db1) \<Rightarrow>
               (let (r, db2) = retry_each hmac env owned (Suc i) ns db1
                in (r\<lparr>bk_failed := bk_failed r + 1, bk_results := (n, Some (error_text e)) # bk_results r\<rparr>, db2))
           | (Inr _, db1) \<Rightarrow>
               (let (r, db2) = retry_each hmac env owned (Suc i) ns db1
                in (r\<lparr>bk_ok := bk_ok r + 1, bk_results := (n, None) # bk_results r\<rparr>, db2))))"

definition retryDeliveriesBulk ::
    "(string \<Rightarrow> string \<Rightarrow> string) \<Rightarrow> (nat \<Rightarrow> deliver_env) \<Rightarrow> ident \<Rightarrow> ident list \<Rightarrow> notify_db
     \<Rightarrow> bulk_result \<times> notify_db" where
  "retryDeliveriesBulk hmac env client ids db =
     (let capped = take 100 ids;
          owned = map (\<lambda>d. (dl_id d, dl_webhook d))
            (filter (\<lambda>d. dl_id d \<in> set capped \<and> dl_client d = client) (deliveries db))
      in retry_each hmac env owned 0 capped db)"

section \<open>The test webhook\<close>

definition is_https :: "string \<Rightarrow> bool" where
  "is_https url \<longleftrightarrow> lower (take 8 url) = ''https://''"

record test_env =
  tv_ids :: delivery_ids
  tv_created :: millis
  tv_payload :: string
  tv_production :: bool
  tv_deliver :: deliver_env

definition test_headers :: "(string \<Rightarrow> string \<Rightarrow> string) \<Rightarrow> webhook \<Rightarrow> test_env \<Rightarrow> headers" where
  "test_headers hmac w env =
     [(''Content-Type'', ''application/json''),
      (''X-Signature'', ''sha256='' @ hmac (tv_payload env) (wh_secret w)),
      (''X-Event-Type'', ''webhook.test''), (''X-Delivery-Id'', id_code (tv_ids env)),
      (''X-Idempotency-Key'', id_idempotency (tv_ids env)),
      (''X-Correlation-Id'', id_correlation (tv_ids env)), (''X-CVH-Test'', ''true'')]"

text \<open>The error path of the test: the delivery ends failed, without a retry.\<close>

definition on_test_error ::
    "deliver_env \<Rightarrow> delivery \<Rightarrow> webhook \<Rightarrow> headers \<Rightarrow> string \<Rightarrow> string option \<Rightarrow> notify_db
     \<Rightarrow> (error + delivery) \<times> notify_db" where
  "on_test_error env d w hdrs msg0 code db =
     (let msg = (if msg0 = [] then ''Unknown error'' else msg0) in
      case de_record_error env of
        Some m \<Rightarrow> (Inl (InternalError m), db)
      | None \<Rightarrow>
          let db1 = record_attempt (error_attempt env (dl_id d) 1 (wh_url w) hdrs (dl_payload d) msg code) db;
              f = (\<lambda>d. d\<lparr>dl_status := DFailed, dl_httpStatus := None,
                     dl_responseTimeMs := Some (de_end env - de_start env), dl_requestHeaders := Some hdrs,
                     dl_attempts := 1, dl_lastAttemptAt := Some (de_now env), dl_nextRetryAt := None,
                     dl_error := Some msg, dl_errorMessage := Some msg, dl_errorCode := code\<rparr>)
          in (case de_failed env of
                Some m \<Rightarrow> (Inl (InternalError m), db1)
              | None \<Rightarrow> (Inr (f d), update_delivery (dl_id d) f db1)))"

definition test_fields :: "deliver_env \<Rightarrow> int \<Rightarrow> string \<Rightarrow> headers \<Rightarrow> headers \<Rightarrow> delivery \<Rightarrow> delivery" where
  "test_fields env status body rhdrs hdrs d =
     (let d1 = d\<lparr>dl_status := (if is_success status then DSent else DFailed), dl_httpStatus := Some status,
                 dl_responseBody := Some body, dl_responseTimeMs := Some (de_end env - de_start env),
                 dl_responseHeaders := Some rhdrs, dl_requestHeaders := Some hdrs, dl_attempts := 1,
                 dl_lastAttemptAt := Some (de_now env), dl_nextRetryAt := None\<rparr>
      in if is_success status then d1
         else d1\<lparr>dl_error := Some (''HTTP '' @ show_int status),
                 dl_errorMessage := Some (''HTTP '' @ show_int status)\<rparr>)"

definition testWebhook ::
    "(string \<Rightarrow> string \<Rightarrow> string) \<Rightarrow> test_env \<Rightarrow> ident \<Rightarrow> ident option \<Rightarrow> notify_db
     \<Rightarrow> (error + delivery) \<times> notify_db" where
  "testWebhook hmac env wn client db =
     (case find_webhook wn db of
        None \<Rightarrow> (Inl (NotFound ''Webhook not found''), db)
      | Some w \<Rightarrow>
          if (case client of None \<Rightarrow> False | Some c \<Rightarrow> wh_client w \<noteq> c)
          then (Inl (NotFound ''Webhook not found for this client''), db)
          else if tv_production env \<and> \<not> is_https (wh_url w)
          then (Inl (BadRequest ''Webhook URL must use HTTPS in production''), db)
          else
            let d = new_delivery (next_delivery db) (tv_ids env) (tv_created env) (wh_client w) (wh_project w)
                      ''webhook.test'' (tv_payload env) w 1;
                hdrs = test_headers hmac w env;
                dv = tv_deliver env;
                db0 = insert_delivery d db;
                db1 = db0\<lparr>posts := posts db0 @ [\<lparr>hp_delivery = dl_id d, hp_url = wh_url w,
                            hp_body = tv_payload env, hp_headers = hdrs, hp_timeout = 10000\<rparr>]\<rparr>
            in (case de_outcome dv of
                  HttpError msg code \<Rightarrow> on_test_error dv d w hdrs msg code db1
                | HttpReply status rbody rhdrs \<Rightarrow>
                    (case de_record dv of
                       Some m \<Rightarrow> on_test_error dv d w hdrs m None db1
                     | None \<Rightarrow>
                         let db2 = record_attempt (reply_attempt dv (dl_id d) 1 (wh_url w) hdrs (tv_payload env) status rbody rhdrs) db1
                         in (case de_sent dv of
                               Some m \<Rightarrow> on_test_error dv d w hdrs m None db2
                             | None \<Rightarrow>
                                 let f = test_fields dv status (take 2000 rbody) rhdrs hdrs
                                 in (Inr (f d), update_delivery (dl_id d) f db2)))))"

section \<open>Listings\<close>

definition listDeliveries :: "ident \<Rightarrow> delivery_status option \<Rightarrow> notify_db \<Rightarrow> delivery list" where
  "listDeliveries w status db =
     take 100 (newest_first (filter (\<lambda>d. dl_webhook d = w
       \<and> (case status of None \<Rightarrow> True | Some s \<Rightarrow> dl_status d = s)) (deliveries db)))"

record list_query =
  lq_client :: ident
  lq_page :: int
  lq_limit :: int
  lq_status :: "delivery_status option"
  lq_webhook :: "ident option"
  lq_eventType :: "string option"
  lq_from :: "millis option"
  lq_to :: "millis option"

definition query_matches :: "list_query \<Rightarrow> delivery \<Rightarrow> bool" where
  "query_matches q d \<longleftrightarrow> dl_client d = lq_client q
     \<and> (case lq_status q of None \<Rightarrow> True | Some s \<Rightarrow> dl_status d = s)
     \<and> (case lq_webhook q of None \<Rightarrow> True | Some w \<Rightarrow> w = 0 \<or> dl_webhook d = w)
     \<and> (case or_null (lq_eventType q) of None \<Rightarrow> True | Some e \<Rightarrow> sql_eq (dl_eventType d) e)
     \<and> (case lq_from q of None \<Rightarrow> True | Some t \<Rightarrow> t \<le> dl_created d)
     \<and> (case lq_to q of None \<Rightarrow> True | Some t \<Rightarrow> dl_created d \<le> t)"

record delivery_page =
  pg_deliveries :: "(delivery \<times> string option \<times> string option) list"
  pg_page :: int
  pg_limit :: int
  pg_total :: nat
  pg_totalPages :: int

definition ceil_div :: "int \<Rightarrow> int \<Rightarrow> int" where
  "ceil_div a b = - ((- a) div b)"

definition listDeliveriesForClient :: "list_query \<Rightarrow> notify_db \<Rightarrow> delivery_page" where
  "listDeliveriesForClient q db =
     (let limit = max 1 (min (lq_limit q) 100);
          page = max 1 (lq_page q);
          rows = filter (query_matches q) (deliveries db)
      in \<lparr>pg_deliveries = map (\<lambda>d. case find_webhook (dl_webhook d) db of
              None \<Rightarrow> (d, None, None) | Some w \<Rightarrow> (d, wh_description w, Some (wh_url w)))
            (slice_page ((page - 1) * limit) limit (newest_first rows)),
          pg_page = page, pg_limit = limit, pg_total = length rows,
          pg_totalPages = ceil_div (int (length rows)) limit\<rparr>)"

definition getDeliveryDetail :: "ident \<Rightarrow> notify_db \<Rightarrow> (delivery \<times> webhook option \<times> attempt list) option" where
  "getDeliveryDetail n db =
     map_option (\<lambda>d. (d, find_webhook (dl_webhook d) db,
       sort_key at_number (filter (\<lambda>a. at_delivery a = n) (attempts_log db)))) (find_delivery n db)"

definition getAttemptsForDelivery :: "ident \<Rightarrow> notify_db \<Rightarrow> attempt list" where
  "getAttemptsForDelivery n db = sort_key at_number (filter (\<lambda>a. at_delivery a = n) (attempts_log db))"

section \<open>Manual resending never works\<close>

text \<open>The manual resending never sends anything: whatever the delivery and whoever asks, it ends in
  an error and changes nothing, because the project the table requires is not passed; a batch answers that
  none was resent and all failed.\<close>

lemma manual_resend_always_fails:
  "\<not> is_ok (fst (resendDelivery ids now n client db)) \<and> snd (resendDelivery ids now n client db) = db
   \<and> br_resent (fst (batchResend idf now i ns client db)) = 0
   \<and> br_failed (fst (batchResend idf now i ns client db)) = length ns
   \<and> snd (batchResend idf now i ns client db) = db"
proof -
  have one: "\<exists>e. resendDelivery ids now n client db = (Inl e, db)" for ids n
    by (auto simp: resendDelivery_def create_resend_def resend_data_of_def split: option.split)
  have "br_resent (fst (batchResend idf now i ns client db)) = 0
      \<and> br_failed (fst (batchResend idf now i ns client db)) = length ns \<and> snd (batchResend idf now i ns client db) = db"
  proof (induction ns arbitrary: i)
    case (Cons n ns)
    obtain e where "resendDelivery (idf i) now n client db = (Inl e, db)" using one by blast
    then show ?case using Cons [of "Suc i"] by (simp add: case_prod_beta)
  qed simp
  then show ?thesis using one [of ids n] by auto
qed

section \<open>Dead letters can be resent\<close>

text \<open>A failed delivery that is resent waits again, with all its attempts, and with one job more.\<close>

lemma resend_requeues:
  assumes "find_delivery n db = Some d" "dl_status d = DFailed"
  shows "fst (resend n db)"
    and "\<exists>d'. find_delivery n (snd (resend n db)) = Some d' \<and> dl_status d' = DQueued \<and> dl_attempts d' = 0
      \<and> same_delivery d' d"
    and "jobs (snd (resend n db)) = jobs db @ [\<lparr>jb_delivery = n, jb_webhook = dl_webhook d, jb_delay = None\<rparr>]"
proof -
  have id: "dl_id d = n" using found_id [OF assms(1)] .
  show "fst (resend n db)" using assms by (simp add: resend_def Let_def)
  show "jobs (snd (resend n db)) = jobs db @ [\<lparr>jb_delivery = n, jb_webhook = dl_webhook d, jb_delay = None\<rparr>]"
    using assms id by (simp add: resend_def Let_def)
  show "\<exists>d'. find_delivery n (snd (resend n db)) = Some d' \<and> dl_status d' = DQueued \<and> dl_attempts d' = 0
      \<and> same_delivery d' d"
    using assms by (simp add: resend_def Let_def find_delivery_update same_delivery_def)
qed

lemma resend_other:
  assumes "n \<noteq> m"
  shows "find_delivery m (snd (resend n db)) = find_delivery m db"
proof -
  have "find (\<lambda>d. dl_id d = m) (update_where (\<lambda>d. dl_id d = n) f ds) = find (\<lambda>d. dl_id d = m) ds"
    if "\<And>d. dl_id (f d) = dl_id d" for f :: "delivery \<Rightarrow> delivery" and ds
    using that assms by (induction ds) auto
  then show ?thesis
    by (auto simp: resend_def find_delivery_def update_delivery_def enqueue_def Let_def split: option.split)
qed

section \<open>Bulk retries\<close>

text \<open>A bulk retry answers that a delivery is fine whenever the attempt ran without a database failure, even
  if the endpoint could not be reached.\<close>

lemma deliver_without_faults_answers:
  "no_faults env \<Longrightarrow> is_ok (fst (deliverWebhook hmac env n w db))"
  by (auto simp: deliverWebhook_def on_delivery_error_def handleFailure_def no_faults_def Let_def
      split: option.split http_outcome.split)

lemma bulk_retry_reports_failures_as_ok:
  assumes "\<And>i. no_faults (env i)" "set ns \<subseteq> dom (map_of owned)"
  shows "bk_ok (fst (retry_each hmac env owned i ns db)) = length ns
    \<and> bk_failed (fst (retry_each hmac env owned i ns db)) = 0"
  using assms(2)
proof (induction ns arbitrary: i db)
  case (Cons n ns)
  obtain w where w: "map_of owned n = Some w" using Cons.prems by auto
  obtain r db1 where d: "deliverWebhook hmac (env i) n w db = (Inr r, db1)"
    using deliver_without_faults_answers [OF assms(1), of hmac i n w db]
    by (cases "deliverWebhook hmac (env i) n w db"; cases "fst (deliverWebhook hmac (env i) n w db)") auto
  show ?case using Cons w d by (simp add: case_prod_beta)
qed simp

section \<open>An acknowledged delivery is sent again\<close>

text \<open>A delivery the endpoint has acknowledged is sent again when its success cannot be written down:
  the failed write counts as a failed attempt, the delivery waits again and its retry posts the same body to the
  same endpoint once more.\<close>

lemma acknowledged_delivery_is_sent_again:
  assumes "find_delivery (dl_id d) db = Some d" "find_webhook (dl_webhook d) db = Some w" "wh_active w"
    and "de_outcome env = HttpReply status rbody rhdrs" "is_success status" "de_record env = None"
    and "de_sent env = Some msg" "de_record_error env = None" "de_failed env = None" "de_retry env = None"
    and "dl_attempts d + 1 < wh_maxAttempts w" "no_faults env'"
  shows "\<exists>d' db' delay. snd (deliverWebhook hmac env (dl_id d) (dl_webhook d) db) = db'
    \<and> find_delivery (dl_id d) db' = Some d' \<and> dl_status d' = DQueued \<and> dl_attempts d' = dl_attempts d + 1
    \<and> jobs db' = jobs db @ [\<lparr>jb_delivery = dl_id d, jb_webhook = dl_webhook d, jb_delay = Some delay\<rparr>]
    \<and> posts (snd (deliverWebhook hmac env' (dl_id d) (dl_webhook d) db'))
        = posts db @ [post_of hmac w d, post_of hmac w d]"
proof -
  let ?db1 = "db\<lparr>posts := posts db @ [post_of hmac w d]\<rparr>"
  let ?db2 = "record_attempt (reply_attempt env (dl_id d) (dl_attempts d + 1) (wh_url w) (request_headers hmac w d)
    (dl_payload d) status rbody rhdrs) ?db1"
  let ?msg = "if msg = [] then ''Unknown error'' else msg"
  let ?db3 = "record_attempt (error_attempt env (dl_id d) (dl_attempts d + 1) (wh_url w) (request_headers hmac w d)
    (dl_payload d) ?msg None) ?db2"
  let ?delay = "computeDelay (extractConfig w) (de_random env) (dl_attempts d + 1)"
  let ?f = "failure_fields env None None None (request_headers hmac w d) (dl_attempts d + 1) ?msg None DQueued
    (Some (de_now env + ?delay))"
  let ?db4 = "enqueue (dl_id d) (dl_webhook d) (Some ?delay) (update_delivery (dl_id d) ?f ?db3)"
  have retry: "shouldRetry (extractConfig w) None (dl_attempts d + 1)"
    using assms(11) by (simp add: shouldRetry_def extractConfig_def)
  have step: "snd (deliverWebhook hmac env (dl_id d) (dl_webhook d) db) = ?db4"
    using assms(1-10) retry
    by (simp add: deliverWebhook_def on_delivery_error_def handleFailure_def Let_def post_of_def)
  have found: "find_delivery (dl_id d) ?db4 = Some (?f d)"
    using assms(1) by (simp add: find_delivery_update)
  have "find_webhook (dl_webhook d) ?db4 = Some w" using assms(2) by (simp add: find_webhook_def)
  then have again: "posts (snd (deliverWebhook hmac env' (dl_id d) (dl_webhook d) ?db4))
      = posts ?db4 @ [post_of hmac w (?f d)]"
    using deliver_outcome [of env' "?f d" ?db4 "dl_webhook d" w hmac] assms(3,12) found by simp
  have "post_of hmac w (?f d) = post_of hmac w d" by (rule same_delivery_post) simp
  then show ?thesis
    unfolding step using found again
    by (intro exI [of _ "?f d"] exI [of _ ?db4] exI [of _ ?delay]) simp
qed

definition unrecorded :: deliver_env where
  "unrecorded =
     \<lparr>de_outcome = HttpReply 200 ''ok'' [], de_start = 0, de_end = 1, de_now = 2, de_random = 0,
      de_record = None, de_sent = Some ''deadlock'', de_record_error = None, de_failed = None, de_retry = None\<rparr>"

lemma acknowledged_delivery_is_sent_again_witness:
  "posts (snd (deliverWebhook (\<lambda>p s. s @ p) unreachable 1 1 (snd (deliverWebhook (\<lambda>p s. s @ p) unrecorded 1 1 queued_notify))))
     = [post_of (\<lambda>p s. s @ p) small_webhook small_delivery, post_of (\<lambda>p s. s @ p) small_webhook small_delivery]"
proof -
  have e: "de_outcome unrecorded = HttpReply 200 ''ok'' []" "is_success 200" "de_record unrecorded = None"
    "de_sent unrecorded = Some ''deadlock''" "de_record_error unrecorded = None" "de_failed unrecorded = None"
    "de_retry unrecorded = None"
    by (simp_all add: unrecorded_def is_success_def)
  have a: "dl_attempts small_delivery + 1 < wh_maxAttempts small_webhook" and i: "dl_id small_delivery = 1"
    by (simp_all add: small_delivery_def new_delivery_def small_webhook_def)
  have p: "posts queued_notify = []"
    by (simp add: queued_notify_def small_notify_def insert_delivery_def)
  show ?thesis
    using acknowledged_delivery_is_sent_again [OF queued_notify_facts(1,3,4) e a queued_notify_facts(7), of "\<lambda>p s. s @ p"]
    unfolding i queued_notify_facts(6) p by auto
qed

end
