(* ===== verification/Accounts.thy ===== *)
theory Accounts
  imports KeyValue
begin

text \<open>
  The accounts of services/auth-service: the users and sessions tables, and jwt/jwt-auth.service.ts (the login
  counters in Redis, passwords, access and refresh tokens). bcrypt, SHA-256 and the signing of JSON web tokens
  are the fields of \<open>auth_lib\<close>; the random texts a call draws are a value of \<open>token_draws\<close>. The counters of one
  request live in \<open>au_limits\<close>; the connection to Redis may be lost between an \<open>INCR\<close> and its \<open>EXPIRE\<close>.
\<close>

section \<open>State\<close>

datatype admin_role = RSuperAdmin | RAdmin | RViewer

datatype client_role = COwner | CAdmin | CViewer

fun admin_role_text :: "admin_role \<Rightarrow> string" where
  "admin_role_text RSuperAdmin = ''super_admin''"
| "admin_role_text RAdmin = ''admin''"
| "admin_role_text RViewer = ''viewer''"

fun client_role_text :: "client_role \<Rightarrow> string" where
  "client_role_text COwner = ''owner''"
| "client_role_text CAdmin = ''admin''"
| "client_role_text CViewer = ''viewer''"

record user =
  us_id :: ident
  us_email :: string
  us_passwordHash :: string
  us_name :: string
  us_role :: admin_role
  us_clientId :: "ident option"
  us_clientRole :: "client_role option"
  us_isActive :: bool
  us_totpSecret :: "string option"
  us_totpEnabled :: bool
  us_lastLoginAt :: "millis option"

record session =
  se_id :: string
  se_userId :: ident
  se_refreshTokenHash :: string
  se_ipAddress :: "string option"
  se_userAgent :: "string option"
  se_expiresAt :: millis

record auth =
  au_users :: "user list"
  au_sessions :: "session list"
  au_limits :: store
  au_codes :: store

text \<open>The payload of a token: the members the service writes and reads, absent or present.\<close>

record claims =
  jc_sub :: "string option"
  jc_userId :: "string option"
  jc_purpose :: "string option"
  jc_email :: "string option"
  jc_role :: "string option"
  jc_clientId :: "string option"
  jc_clientRole :: "string option"

record auth_lib =
  sign :: "millis \<Rightarrow> claims \<Rightarrow> int \<Rightarrow> string"
  verify :: "millis \<Rightarrow> string \<Rightarrow> claims option"
  sha256 :: "string \<Rightarrow> string"
  bcrypt_compare :: "string \<Rightarrow> string \<Rightarrow> bool"
  bcrypt_hash :: "string \<Rightarrow> string"

record token_draws =
  td_refreshToken :: string
  td_sessionId :: string

record token_pair =
  tp_accessToken :: string
  tp_refreshToken :: string
  tp_expiresIn :: int

text \<open>\<open>refreshTokenTtlMs\<close> and \<open>JWT_EXPIRES_IN_SECONDS\<close>.\<close>

record auth_config =
  ac_refreshTokenTtlMs :: int
  ac_expiresIn :: int

text \<open>
  One request: its time, the peer's address, the user agent, what it draws, and for which counters the
  connection survives the \<open>EXPIRE\<close>.
\<close>

record auth_req =
  rq_now :: millis
  rq_ip :: "string option"
  rq_agent :: "string option"
  rq_draws :: token_draws
  rq_expire :: "string \<Rightarrow> bool"

definition find_user :: "ident \<Rightarrow> auth \<Rightarrow> user option" where
  "find_user uid st = find (\<lambda>u. us_id u = uid) (au_users st)"

definition find_email :: "string \<Rightarrow> auth \<Rightarrow> user option" where
  "find_email email st = find (\<lambda>u. sql_eq (us_email u) email) (au_users st)"

section \<open>Counters of attempts\<close>

text \<open>
  \<open>INCR\<close>, with \<open>EXPIRE\<close> when the count is one. A lost connection surfaces as an exception, the count stands.
\<close>

definition bump :: "auth_req \<Rightarrow> string \<Rightarrow> int \<Rightarrow> store \<Rightarrow> (error + int) \<times> store" where
  "bump rq k secs s =
     (case rincr (rq_now rq) k s of
        (n, s1) \<Rightarrow>
          if n = 1 then (if rq_expire rq k then (Inr n, rexpire (rq_now rq) k secs s1)
                         else (Inl (InternalError ''redis''), s1))
          else (Inr n, s1))"

definition lockoutKey :: "string \<Rightarrow> string" where
  "lockoutKey email = ''login:lockout:'' @ email"

definition ipKey :: "string \<Rightarrow> string" where
  "ipKey ip = ''login:ip:'' @ ip"

definition emailKey :: "string \<Rightarrow> string" where
  "emailKey email = ''login:email:'' @ email"

definition failuresKey :: "string \<Rightarrow> string" where
  "failuresKey email = ''login:failures:'' @ email"

definition totpKey :: "string \<Rightarrow> string" where
  "totpKey uid = ''totp:'' @ uid"

definition checkAndTrackLoginAttempt :: "auth_req \<Rightarrow> string \<Rightarrow> string \<Rightarrow> store \<Rightarrow> (error + unit) \<times> store" where
  "checkAndTrackLoginAttempt rq email ip s =
     (if rttl (rq_now rq) s (lockoutKey email) > 0
      then (Inl (TooManyRequests ''Account temporarily locked''), s)
      else
        (case bump rq (ipKey ip) 300 s of
           (Inl e, s1) \<Rightarrow> (Inl e, s1)
         | (Inr ipCount, s1) \<Rightarrow>
             if ipCount > 5 then (Inl (TooManyRequests ''Too many login attempts from this IP''), s1)
             else
               (case bump rq (emailKey email) 300 s1 of
                  (Inl e, s2) \<Rightarrow> (Inl e, s2)
                | (Inr emailCount, s2) \<Rightarrow>
                    if emailCount > 5 then (Inl (TooManyRequests ''Too many login attempts for this account''), s2)
                    else (Inr (), s2))))"

definition recordFailedLogin :: "auth_req \<Rightarrow> string \<Rightarrow> store \<Rightarrow> (error + unit) \<times> store" where
  "recordFailedLogin rq email s =
     (case bump rq (failuresKey email) 900 s of
        (Inl e, s1) \<Rightarrow> (Inl e, s1)
      | (Inr failures, s1) \<Rightarrow>
          if failures \<ge> 10
          then (Inr (), rdel (failuresKey email) (rset (rq_now rq) (lockoutKey email) ''1'' (Some 900000) s1))
          else (Inr (), s1))"

definition resetLoginAttempts :: "string \<Rightarrow> string \<Rightarrow> store \<Rightarrow> store" where
  "resetLoginAttempts email ip s =
     rdel (failuresKey email) (rdel (lockoutKey email) (rdel (ipKey ip) (rdel (emailKey email) s)))"

definition checkTotpAttempt :: "auth_req \<Rightarrow> string \<Rightarrow> store \<Rightarrow> (error + unit) \<times> store" where
  "checkTotpAttempt rq uid s =
     (case bump rq (totpKey uid) 300 s of
        (Inl e, s1) \<Rightarrow> (Inl e, s1)
      | (Inr n, s1) \<Rightarrow>
          if n > 5 then (Inl (TooManyRequests ''Too many TOTP verification attempts''), s1) else (Inr (), s1))"

section \<open>Tokens and sessions\<close>

definition access_claims :: "user \<Rightarrow> claims" where
  "access_claims u =
     \<lparr>jc_sub = Some (show_int (us_id u)), jc_userId = None, jc_purpose = None,
      jc_email = Some (us_email u), jc_role = Some (admin_role_text (us_role u)),
      jc_clientId = map_option show_int (us_clientId u),
      jc_clientRole = map_option client_role_text (us_clientRole u)\<rparr>"

definition new_session :: "auth_lib \<Rightarrow> auth_config \<Rightarrow> auth_req \<Rightarrow> user \<Rightarrow> string option \<Rightarrow> string option \<Rightarrow> session" where
  "new_session lib cfg rq u ip agent =
     \<lparr>se_id = take 64 (td_sessionId (rq_draws rq)), se_userId = us_id u,
      se_refreshTokenHash = sha256 lib (td_refreshToken (rq_draws rq)),
      se_ipAddress = ip, se_userAgent = map_option (take 500) agent,
      se_expiresAt = rq_now rq + ac_refreshTokenTtlMs cfg\<rparr>"

definition create_session :: "session \<Rightarrow> auth \<Rightarrow> (error + unit) \<times> auth" where
  "create_session s st =
     (if list_ex (\<lambda>x. sql_eq (se_id x) (se_id s)) (au_sessions st) then (Inl (InternalError ''P2002''), st)
      else (Inr (), st\<lparr>au_sessions := au_sessions st @ [s]\<rparr>))"

definition issueTokens ::
    "auth_lib \<Rightarrow> auth_config \<Rightarrow> auth_req \<Rightarrow> user \<Rightarrow> string option \<Rightarrow> string option \<Rightarrow> auth
       \<Rightarrow> (error + token_pair) \<times> auth" where
  "issueTokens lib cfg rq u ip agent st =
     (case create_session (new_session lib cfg rq u ip agent) st of
        (Inl e, st1) \<Rightarrow> (Inl e, st1)
      | (Inr _, st1) \<Rightarrow>
          (Inr \<lparr>tp_accessToken = sign lib (rq_now rq) (access_claims u) (ac_expiresIn cfg),
                tp_refreshToken = td_refreshToken (rq_draws rq), tp_expiresIn = ac_expiresIn cfg\<rparr>, st1))"

definition touch_login :: "ident \<Rightarrow> millis \<Rightarrow> auth \<Rightarrow> auth" where
  "touch_login uid now st =
     st\<lparr>au_users := update_where (\<lambda>u. us_id u = uid) (\<lambda>u. u\<lparr>us_lastLoginAt := Some now\<rparr>) (au_users st)\<rparr>"

text \<open>The outcome of a password check; the tokens are missing when a code is needed.\<close>

record login_result =
  lr_user :: user
  lr_tokens :: "token_pair option"
  lr_requires2fa :: bool

definition reject_login :: "auth_req \<Rightarrow> string \<Rightarrow> auth \<Rightarrow> (error + login_result) \<times> auth" where
  "reject_login rq email st =
     (case recordFailedLogin rq email (au_limits st) of
        (Inl e, s) \<Rightarrow> (Inl e, st\<lparr>au_limits := s\<rparr>)
      | (Inr _, s) \<Rightarrow> (Inl (Unauthorized ''Invalid credentials''), st\<lparr>au_limits := s\<rparr>))"

definition login ::
    "auth_lib \<Rightarrow> auth_config \<Rightarrow> auth_req \<Rightarrow> string \<Rightarrow> string \<Rightarrow> auth \<Rightarrow> (error + login_result) \<times> auth" where
  "login lib cfg rq email password st =
     (case find_email email st of
        None \<Rightarrow> reject_login rq email st
      | Some u \<Rightarrow>
          if \<not> us_isActive u then reject_login rq email st
          else if \<not> bcrypt_compare lib password (us_passwordHash u) then reject_login rq email st
          else if us_totpEnabled u
          then (Inr \<lparr>lr_user = u, lr_tokens = None, lr_requires2fa = True\<rparr>, st)
          else
            (case issueTokens lib cfg rq u (rq_ip rq) (rq_agent rq) st of
               (Inl e, st1) \<Rightarrow> (Inl e, st1)
             | (Inr tokens, st1) \<Rightarrow>
                 (Inr \<lparr>lr_user = u, lr_tokens = Some tokens, lr_requires2fa = False\<rparr>,
                  touch_login (us_id u) (rq_now rq) st1)))"

definition completeLoginAfter2fa ::
    "auth_lib \<Rightarrow> auth_config \<Rightarrow> auth_req \<Rightarrow> ident \<Rightarrow> auth \<Rightarrow> (error + user \<times> token_pair) \<times> auth" where
  "completeLoginAfter2fa lib cfg rq uid st =
     (case find_user uid st of
        None \<Rightarrow> (Inl (Unauthorized ''User not found or inactive''), st)
      | Some u \<Rightarrow>
          if \<not> us_isActive u then (Inl (Unauthorized ''User not found or inactive''), st)
          else
            (case issueTokens lib cfg rq u (rq_ip rq) (rq_agent rq) st of
               (Inl e, st1) \<Rightarrow> (Inl e, st1)
             | (Inr tokens, st1) \<Rightarrow> (Inr (u, tokens), touch_login uid (rq_now rq) st1)))"

section \<open>Refreshing and logging out\<close>

text \<open>
  The three parts of a refresh, between which other requests may run: reading the session and its user,
  deleting the session, issuing new tokens.
\<close>

definition refresh_find :: "auth_lib \<Rightarrow> millis \<Rightarrow> string \<Rightarrow> auth \<Rightarrow> error + session \<times> user" where
  "refresh_find lib now refreshToken st =
     (case find (\<lambda>s. sql_eq (se_refreshTokenHash s) (sha256 lib refreshToken) \<and> now < se_expiresAt s) (au_sessions st) of
        None \<Rightarrow> Inl (Unauthorized ''Invalid or expired refresh token'')
      | Some s \<Rightarrow>
          (case find_user (se_userId s) st of
             None \<Rightarrow> Inl (Unauthorized ''Invalid or expired refresh token'')
           | Some u \<Rightarrow>
               if us_isActive u then Inr (s, u) else Inl (Unauthorized ''Invalid or expired refresh token'')))"

definition refresh_delete :: "session \<Rightarrow> auth \<Rightarrow> (error + unit) \<times> auth" where
  "refresh_delete s st =
     (if list_ex (\<lambda>x. sql_eq (se_id x) (se_id s)) (au_sessions st)
      then (Inr (), st\<lparr>au_sessions := filter (\<lambda>x. \<not> sql_eq (se_id x) (se_id s)) (au_sessions st)\<rparr>)
      else (Inl (InternalError ''P2025''), st))"

definition refresh ::
    "auth_lib \<Rightarrow> auth_config \<Rightarrow> auth_req \<Rightarrow> string \<Rightarrow> auth \<Rightarrow> (error + token_pair) \<times> auth" where
  "refresh lib cfg rq refreshToken st =
     (case refresh_find lib (rq_now rq) refreshToken st of
        Inl e \<Rightarrow> (Inl e, st)
      | Inr (s, u) \<Rightarrow>
          (case refresh_delete s st of
             (Inl e, st1) \<Rightarrow> (Inl e, st1)
           | (Inr _, st1) \<Rightarrow> issueTokens lib cfg rq u (se_ipAddress s) (se_userAgent s) st1))"

definition logout :: "auth_lib \<Rightarrow> string \<Rightarrow> auth \<Rightarrow> auth" where
  "logout lib refreshToken st =
     st\<lparr>au_sessions := filter (\<lambda>s. \<not> sql_eq (se_refreshTokenHash s) (sha256 lib refreshToken)) (au_sessions st)\<rparr>"

definition verifyAccessToken :: "auth_lib \<Rightarrow> millis \<Rightarrow> string \<Rightarrow> error + claims" where
  "verifyAccessToken lib now token =
     (case verify lib now token of
        None \<Rightarrow> Inl (Unauthorized ''Invalid or expired access token'')
      | Some c \<Rightarrow> Inr c)"

definition issueTokenPair ::
    "auth_lib \<Rightarrow> auth_config \<Rightarrow> auth_req \<Rightarrow> user \<Rightarrow> auth \<Rightarrow> (error + token_pair) \<times> auth" where
  "issueTokenPair lib cfg rq u st = issueTokens lib cfg rq u (rq_ip rq) (rq_agent rq) st"

text \<open>
  What the code relies on of its library: a token verifies to what was signed until its time is over, in whole
  seconds, and nothing else verifies to those claims.
\<close>

definition jwt_ok :: "auth_lib \<Rightarrow> bool" where
  "jwt_ok lib \<longleftrightarrow> (\<forall>t c ttl now.
     verify lib now (sign lib t c ttl) = (if now div 1000 < t div 1000 + ttl then Some c else None))"

section \<open>A refresh token is exchanged once\<close>

text \<open>
  Refreshes in parts, with logins and logouts between them. \<open>rm_found\<close> holds the refreshes that have read their
  session, \<open>rm_taken\<close> those that have deleted it; \<open>rm_exchanged\<close> lists the token hashes whose session a refresh has
  deleted. \<open>rm_ids\<close> and \<open>rm_hashes\<close> are what was ever issued: random session ids and tokens are new.
\<close>

record refresh_state =
  rm_auth :: auth
  rm_found :: "(session \<times> user) list"
  rm_taken :: "(session \<times> user) list"
  rm_exchanged :: "string list"
  rm_ids :: "string set"
  rm_hashes :: "string set"

definition sid :: "session \<Rightarrow> string" where
  "sid s = lower (se_id s)"

definition shash :: "session \<Rightarrow> string" where
  "shash s = lower (se_refreshTokenHash s)"

definition new_draws :: "auth_lib \<Rightarrow> auth_req \<Rightarrow> refresh_state \<Rightarrow> bool" where
  "new_draws lib rq m \<longleftrightarrow> lower (take 64 (td_sessionId (rq_draws rq))) \<notin> rm_ids m
     \<and> lower (sha256 lib (td_refreshToken (rq_draws rq))) \<notin> rm_hashes m"

definition note_issue :: "auth_lib \<Rightarrow> auth_req \<Rightarrow> auth \<Rightarrow> refresh_state \<Rightarrow> refresh_state" where
  "note_issue lib rq st m =
     m\<lparr>rm_auth := st, rm_ids := insert (lower (take 64 (td_sessionId (rq_draws rq)))) (rm_ids m),
       rm_hashes := insert (lower (sha256 lib (td_refreshToken (rq_draws rq)))) (rm_hashes m)\<rparr>"

inductive refresh_step :: "auth_lib \<Rightarrow> auth_config \<Rightarrow> refresh_state \<Rightarrow> refresh_state \<Rightarrow> bool"
  for lib cfg where
  finds: "refresh_find lib now tok (rm_auth m) = Inr x \<Longrightarrow>
    refresh_step lib cfg m (m\<lparr>rm_found := x # rm_found m\<rparr>)"
| deletes: "x \<in> set (rm_found m) \<Longrightarrow> refresh_delete (fst x) (rm_auth m) = (Inr (), st) \<Longrightarrow>
    refresh_step lib cfg m (m\<lparr>rm_auth := st, rm_found := remove1 x (rm_found m), rm_taken := x # rm_taken m,
      rm_exchanged := shash (fst x) # rm_exchanged m\<rparr>)"
| fails: "x \<in> set (rm_found m) \<Longrightarrow>
    refresh_step lib cfg m (m\<lparr>rm_found := remove1 x (rm_found m)\<rparr>)"
| issues: "x \<in> set (rm_taken m) \<Longrightarrow> new_draws lib rq m \<Longrightarrow>
    issueTokens lib cfg rq (snd x) (se_ipAddress (fst x)) (se_userAgent (fst x)) (rm_auth m) = (Inr p, st) \<Longrightarrow>
    refresh_step lib cfg m (note_issue lib rq st (m\<lparr>rm_taken := remove1 x (rm_taken m)\<rparr>))"
| logs_in: "new_draws lib rq m \<Longrightarrow> issueTokens lib cfg rq u ip agent (rm_auth m) = (Inr p, st) \<Longrightarrow>
    refresh_step lib cfg m (note_issue lib rq (touch_login uid now st) m)"
| logs_out: "refresh_step lib cfg m (m\<lparr>rm_auth := logout lib tok (rm_auth m)\<rparr>)"

definition refresh_start :: "refresh_state \<Rightarrow> bool" where
  "refresh_start m \<longleftrightarrow> au_sessions (rm_auth m) = [] \<and> rm_found m = [] \<and> rm_taken m = [] \<and> rm_exchanged m = []"

definition refresh_inv :: "refresh_state \<Rightarrow> bool" where
  "refresh_inv m \<longleftrightarrow>
     distinct (map shash (au_sessions (rm_auth m))) \<and> distinct (rm_exchanged m)
     \<and> sid ` set (au_sessions (rm_auth m)) \<subseteq> rm_ids m
     \<and> shash ` set (au_sessions (rm_auth m)) \<union> set (rm_exchanged m) \<subseteq> rm_hashes m
     \<and> shash ` set (au_sessions (rm_auth m)) \<inter> set (rm_exchanged m) = {}
     \<and> (\<forall>x \<in> set (rm_found m). sid (fst x) \<in> rm_ids m
          \<and> (\<forall>r \<in> set (au_sessions (rm_auth m)). sid r = sid (fst x) \<longrightarrow> r = fst x))
     \<and> distinct (map sid (au_sessions (rm_auth m)))"

lemma refresh_invD:
  assumes "refresh_inv m"
  shows "distinct (map shash (au_sessions (rm_auth m)))" "distinct (rm_exchanged m)"
    "s \<in> set (au_sessions (rm_auth m)) \<Longrightarrow> sid s \<in> rm_ids m \<and> shash s \<in> rm_hashes m \<and> shash s \<notin> set (rm_exchanged m)"
    "h \<in> set (rm_exchanged m) \<Longrightarrow> h \<in> rm_hashes m"
    "x \<in> set (rm_found m) \<Longrightarrow> sid (fst x) \<in> rm_ids m"
    "x \<in> set (rm_found m) \<Longrightarrow> r \<in> set (au_sessions (rm_auth m)) \<Longrightarrow> sid r = sid (fst x) \<Longrightarrow> r = fst x"
    "distinct (map sid (au_sessions (rm_auth m)))"
  using assms unfolding refresh_inv_def by blast+

lemma refresh_find_Inr:
  "refresh_find lib now tok st = Inr (s, u) \<Longrightarrow> s \<in> set (au_sessions st) \<and> sql_eq (se_refreshTokenHash s) (sha256 lib tok)
     \<and> now < se_expiresAt s \<and> find_user (se_userId s) st = Some u \<and> us_isActive u"
  by (auto simp: refresh_find_def dest: find_SomeD split: option.splits if_splits)

lemma refresh_delete_Inr: "refresh_delete s st = (Inr (), st') \<Longrightarrow>
    au_sessions st' = filter (\<lambda>x. sid x \<noteq> sid s) (au_sessions st) \<and> (\<exists>r \<in> set (au_sessions st). sid r = sid s)"
  by (auto simp: refresh_delete_def sid_def sql_eq_def list_ex_iff split: if_splits)

lemma issueTokens_Inr: "issueTokens lib cfg rq u ip agent st = (Inr p, st') \<Longrightarrow>
    au_sessions st' = au_sessions st @ [new_session lib cfg rq u ip agent] \<and> au_users st' = au_users st
    \<and> au_limits st' = au_limits st \<and> au_codes st' = au_codes st"
  by (auto simp: issueTokens_def create_session_def split: if_splits)

lemma new_session_keys:
  "sid (new_session lib cfg rq u ip agent) = lower (take 64 (td_sessionId (rq_draws rq)))"
  "shash (new_session lib cfg rq u ip agent) = lower (sha256 lib (td_refreshToken (rq_draws rq)))"
  by (simp_all add: sid_def shash_def new_session_def)

lemma touch_login_sessions [simp]: "au_sessions (touch_login uid now st) = au_sessions st"
  by (simp add: touch_login_def)

text \<open>Removing sessions and appending a new one keep the invariant.\<close>

lemma refresh_inv_filter:
  assumes "refresh_inv m" "au_sessions st = filter P (au_sessions (rm_auth m))" "set fs \<subseteq> set (rm_found m)"
  shows "refresh_inv (m\<lparr>rm_auth := st, rm_found := fs\<rparr>)"
  using assms by (auto simp: refresh_inv_def distinct_map_filter)

lemma refresh_inv_append:
  assumes "refresh_inv m" "new_draws lib rq m"
    "au_sessions st = au_sessions (rm_auth m) @ [new_session lib cfg rq u ip agent]"
  shows "refresh_inv (note_issue lib rq st m)"
proof -
  let ?s = "new_session lib cfg rq u ip agent"
  note i = refresh_invD [OF assms(1)]
  have n: "sid ?s \<notin> rm_ids m" "shash ?s \<notin> rm_hashes m"
    using assms(2) by (simp_all add: new_draws_def new_session_keys)
  have "shash ?s \<notin> shash ` set (au_sessions (rm_auth m))" "sid ?s \<notin> sid ` set (au_sessions (rm_auth m))"
    "shash ?s \<notin> set (rm_exchanged m)"
    using n i(3,4) by auto
  moreover have "sid ?s \<noteq> sid (fst x)" if "x \<in> set (rm_found m)" for x
    using n(1) i(5) [OF that] by metis
  ultimately show ?thesis
    using assms(1,3) n unfolding refresh_inv_def note_issue_def
    by (auto simp: new_session_keys)
qed

lemma refresh_inv_step:
  assumes "refresh_inv m" "refresh_step lib cfg m m'"
  shows "refresh_inv m'"
  using assms(2,1)
proof (induction rule: refresh_step.induct)
  case (finds now tok m x)
  then have s: "fst x \<in> set (au_sessions (rm_auth m))"
    using refresh_find_Inr [of lib now tok "rm_auth m" "fst x" "snd x"] by simp
  have "r = fst x" if "r \<in> set (au_sessions (rm_auth m))" "sid r = sid (fst x)" for r
    using refresh_invD(7) [OF finds(2)] s that by (metis distinct_map inj_onD)
  then show ?case
    using finds(2) s by (auto simp: refresh_inv_def)
next
  case (deletes x m st)
  note d = refresh_delete_Inr [OF deletes(2)] and i = refresh_invD [OF deletes(3)]
  obtain r where r: "r \<in> set (au_sessions (rm_auth m))" "sid r = sid (fst x)" using d by blast
  then have x: "fst x \<in> set (au_sessions (rm_auth m))" using i(6) [OF deletes(1)] by metis
  have gone: "shash (fst x) \<notin> shash ` set (au_sessions st)"
  proof
    assume "shash (fst x) \<in> shash ` set (au_sessions st)"
    then obtain q where q: "q \<in> set (au_sessions (rm_auth m))" "sid q \<noteq> sid (fst x)" "shash q = shash (fst x)"
      using d by auto
    then have "q = fst x" using i(1) x by (metis distinct_map inj_onD)
    then show False using q(2) by simp
  qed
  have f: "set (remove1 x (rm_found m)) \<subseteq> set (rm_found m)" by (rule set_remove1_subset)
  have "refresh_inv (m\<lparr>rm_auth := st, rm_found := remove1 x (rm_found m)\<rparr>)"
    using refresh_inv_filter [OF deletes(3) conjunct1 [OF d] f] .
  then show ?case using i(3) [OF x] gone by (simp add: refresh_inv_def)
next
  case (fails x m)
  then show ?case
    using set_remove1_subset [of x "rm_found m"] by (auto simp: refresh_inv_def)
next
  case (issues x m rq p st)
  then have "refresh_inv (m\<lparr>rm_taken := remove1 x (rm_taken m)\<rparr>)" by (simp add: refresh_inv_def)
  then show ?case
    using issues(2) conjunct1 [OF issueTokens_Inr [OF issues(3)]] by (intro refresh_inv_append) (auto simp: new_draws_def)
next
  case (logs_in rq m u ip agent p st uid now)
  then show ?case
    using conjunct1 [OF issueTokens_Inr [OF logs_in(2)]] by (intro refresh_inv_append) auto
next
  case (logs_out m tok)
  then show ?case
    using refresh_inv_filter [of m "logout lib tok (rm_auth m)" _ "rm_found m"] by (simp add: logout_def)
qed

interpretation refreshing: machine refresh_start "refresh_step lib cfg" refresh_inv for lib cfg
  by unfold_locales (simp add: refresh_start_def refresh_inv_def, rule refresh_inv_step)

text \<open>A refresh on its own is its three parts in a row.\<close>

lemma refresh_parts:
  "refresh_find lib (rq_now rq) tok st = Inr (s, u) \<Longrightarrow> refresh_delete s st = (Inr (), st1) \<Longrightarrow>
     refresh lib cfg rq tok st = issueTokens lib cfg rq u (se_ipAddress s) (se_userAgent s) st1"
  by (simp add: refresh_def)

section \<open>A concrete library\<close>

text \<open>
  A library that keeps the laws: passwords and hashes are the texts themselves, a token is the text of its
  expiry and its claims, each character of a member behind a mark and each member closed by another.
\<close>

fun pack :: "string \<Rightarrow> string" where
  "pack [] = ''.''"
| "pack (c # cs) = CHR ''+'' # c # pack cs"

fun unpack :: "string \<Rightarrow> string \<times> string" where
  "unpack (x # y # s) = (if x = CHR ''+'' then (case unpack s of (a, b) \<Rightarrow> (y # a, b)) else ([], y # s))"
| "unpack s = ([], [])"

fun pack_opt :: "string option \<Rightarrow> string" where
  "pack_opt None = ''-.''"
| "pack_opt (Some s) = CHR ''s'' # pack s"

definition unpack_opt :: "string \<Rightarrow> string option \<times> string" where
  "unpack_opt s = (case s of
     [] \<Rightarrow> (None, []) | x # r \<Rightarrow> (case unpack r of (a, b) \<Rightarrow> (if x = CHR ''s'' then Some a else None, b)))"

lemma unpack_pack: "r \<noteq> [] \<Longrightarrow> unpack (pack s @ r) = (s, r)"
  by (induction s) (auto simp: neq_Nil_conv)

lemma unpack_opt_pack: "r \<noteq> [] \<Longrightarrow> unpack_opt (pack_opt x @ r) = (x, r)"
  by (cases x) (auto simp: unpack_opt_def unpack_pack neq_Nil_conv)

definition pack_claims :: "claims \<Rightarrow> string" where
  "pack_claims c = pack_opt (jc_sub c) @ pack_opt (jc_userId c) @ pack_opt (jc_purpose c) @ pack_opt (jc_email c)
     @ pack_opt (jc_role c) @ pack_opt (jc_clientId c) @ pack_opt (jc_clientRole c) @ ''!''"

definition unpack_claims :: "string \<Rightarrow> claims" where
  "unpack_claims s =
     (case unpack_opt s of (a, s1) \<Rightarrow> case unpack_opt s1 of (b, s2) \<Rightarrow> case unpack_opt s2 of (c, s3) \<Rightarrow>
      case unpack_opt s3 of (d, s4) \<Rightarrow> case unpack_opt s4 of (e, s5) \<Rightarrow> case unpack_opt s5 of (f, s6) \<Rightarrow>
      case unpack_opt s6 of (g, s7) \<Rightarrow>
        \<lparr>jc_sub = a, jc_userId = b, jc_purpose = c, jc_email = d, jc_role = e, jc_clientId = f, jc_clientRole = g\<rparr>)"

lemma unpack_pack_claims [simp]: "unpack_claims (pack_claims c) = c"
  by (simp add: unpack_claims_def pack_claims_def unpack_opt_pack)

definition plain_lib :: auth_lib where
  "plain_lib =
     \<lparr>sign = \<lambda>t c ttl. pack (show_int (t div 1000 + ttl)) @ pack_claims c,
      verify = \<lambda>now s. (case unpack s of (e, r) \<Rightarrow>
        case parse_int e of None \<Rightarrow> None | Some x \<Rightarrow> if now div 1000 < x then Some (unpack_claims r) else None),
      sha256 = \<lambda>s. s, bcrypt_compare = \<lambda>p h. p = h, bcrypt_hash = \<lambda>p. p\<rparr>"

lemma plain_lib_ok: "jwt_ok plain_lib"
proof -
  have "pack_claims c \<noteq> []" for c by (simp add: pack_claims_def)
  then show ?thesis by (simp add: jwt_ok_def plain_lib_def unpack_pack)
qed

lemma plain_lib_simps [simp]:
  "sha256 plain_lib s = s" "bcrypt_compare plain_lib p h \<longleftrightarrow> p = h" "bcrypt_hash plain_lib p = p"
  by (simp_all add: plain_lib_def)

definition plain_cfg :: auth_config where
  "plain_cfg = \<lparr>ac_refreshTokenTtlMs = 7 * 86400000, ac_expiresIn = 900\<rparr>"

definition plain_req :: "millis \<Rightarrow> string \<Rightarrow> auth_req" where
  "plain_req t x = \<lparr>rq_now = t, rq_ip = Some ''198.51.100.7'', rq_agent = None,
     rq_draws = \<lparr>td_refreshToken = x, td_sessionId = x\<rparr>, rq_expire = \<lambda>_. True\<rparr>"

text \<open>Claim C7. A refresh token is exchanged at most once: however refreshes, logins and logouts are interleaved, no
  token's session is taken by two refreshes, so a stolen token and its original never both yield new tokens.\<close>

theorem refresh_token_is_exchanged_once:
  assumes "refresh_start m" "(refresh_step lib cfg)\<^sup>*\<^sup>* m m'"
  shows "distinct (rm_exchanged m')"
  using refreshing.inv_reachable [OF assms] by (simp add: refresh_inv_def)

definition small_user :: user where
  "small_user =
     \<lparr>us_id = 7, us_email = ''a@x.io'', us_passwordHash = ''pw'', us_name = ''A'', us_role = RViewer,
      us_clientId = Some 3, us_clientRole = Some CAdmin, us_isActive = True, us_totpSecret = None,
      us_totpEnabled = False, us_lastLoginAt = None\<rparr>"

definition small_auth :: auth where
  "small_auth = \<lparr>au_users = [small_user], au_sessions = [], au_limits = Map.empty, au_codes = Map.empty\<rparr>"

definition small_refresh :: refresh_state where
  "small_refresh = \<lparr>rm_auth = small_auth, rm_found = [], rm_taken = [], rm_exchanged = [], rm_ids = {}, rm_hashes = {}\<rparr>"

definition small_session :: session where
  "small_session = new_session plain_lib plain_cfg (plain_req 0 ''r'') small_user None None"

lemma small_session_fields [simp]:
  "se_id small_session = ''r''" "se_userId small_session = 7" "se_refreshTokenHash small_session = ''r''"
  "se_expiresAt small_session = 7 * 86400000"
  by (simp_all add: small_session_def new_session_def plain_req_def plain_cfg_def small_user_def)

lemma small_user_fields [simp]: "us_id small_user = 7" "us_isActive small_user" "us_email small_user = ''a@x.io''"
  "us_passwordHash small_user = ''pw''" "\<not> us_totpEnabled small_user"
  by (simp_all add: small_user_def)

lemma refresh_token_is_exchanged_once_witness:
  "\<exists>m. (refresh_step plain_lib plain_cfg)\<^sup>*\<^sup>* small_refresh m \<and> length (rm_exchanged m) = 1 \<and> distinct (rm_exchanged m)"
proof -
  let ?lib = plain_lib and ?cfg = plain_cfg and ?rq = "plain_req 0 ''r''"
  let ?a1 = "small_auth\<lparr>au_sessions := [small_session]\<rparr>"
  have i: "issueTokens ?lib ?cfg ?rq small_user None None small_auth =
      (Inr \<lparr>tp_accessToken = sign ?lib (rq_now ?rq) (access_claims small_user) (ac_expiresIn ?cfg),
            tp_refreshToken = td_refreshToken (rq_draws ?rq), tp_expiresIn = ac_expiresIn ?cfg\<rparr>, ?a1)"
    unfolding issueTokens_def create_session_def small_session_def by (simp add: small_auth_def)
  let ?m1 = "note_issue ?lib ?rq (touch_login 8 0 ?a1) small_refresh"
  have s1: "refresh_step ?lib ?cfg small_refresh ?m1"
    by (rule logs_in [where u = small_user and ip = None and agent = None])
      (simp_all add: new_draws_def small_refresh_def i)
  have t: "touch_login 8 0 ?a1 = ?a1" by (simp add: touch_login_def small_auth_def)
  have f: "refresh_find ?lib 5 ''r'' (rm_auth ?m1) = Inr (small_session, small_user)"
    unfolding note_issue_def t by (simp add: refresh_find_def find_user_def small_auth_def)
  let ?m2 = "?m1\<lparr>rm_found := (small_session, small_user) # rm_found ?m1\<rparr>"
  have s2: "refresh_step ?lib ?cfg ?m1 ?m2" by (rule finds [OF f])
  have d: "refresh_delete small_session (rm_auth ?m2) = (Inr (), small_auth)"
    unfolding note_issue_def t by (simp add: refresh_delete_def small_auth_def)
  have s3: "refresh_step ?lib ?cfg ?m2 (?m2\<lparr>rm_auth := small_auth,
      rm_found := remove1 (small_session, small_user) (rm_found ?m2),
      rm_taken := (small_session, small_user) # rm_taken ?m2, rm_exchanged := shash small_session # rm_exchanged ?m2\<rparr>)"
    using deletes [of "(small_session, small_user)" ?m2 small_auth] d by simp
  let ?m3 = "?m2\<lparr>rm_auth := small_auth, rm_found := remove1 (small_session, small_user) (rm_found ?m2),
      rm_taken := (small_session, small_user) # rm_taken ?m2, rm_exchanged := shash small_session # rm_exchanged ?m2\<rparr>"
  have r: "(refresh_step ?lib ?cfg)\<^sup>*\<^sup>* small_refresh ?m3" using s1 s2 s3 by (meson converse_rtranclp_into_rtranclp rtranclp.rtrancl_refl)
  have "refresh_start small_refresh" by (simp add: refresh_start_def small_refresh_def small_auth_def)
  from refresh_token_is_exchanged_once [OF this r] r show ?thesis
    by (intro exI [of _ ?m3]) (simp add: note_issue_def small_refresh_def)
qed

end
