(* ===== verification/Totp.thy ===== *)
theory Totp
  imports Accounts KeyVault
begin

text \<open>
  The second factor of services/auth-service (totp/totp.service.ts): the stored secrets, with the buffers and the
  AES-GCM of KeyVault, and the codes marked as used in Redis. scrypt, the check of a code and the texts made for an
  authenticator app are the fields of \<open>totp_lib\<close>. An operation has two parts, between which another request may run:
  examining the code, and marking it with what follows.
\<close>

section \<open>Stored secrets\<close>

record totp_lib =
  tl_aead :: aead
  tl_scrypt :: "string \<Rightarrow> bytes \<Rightarrow> bytes"
  tl_otpValid :: "millis \<Rightarrow> string \<Rightarrow> string \<Rightarrow> bool"
  tl_generateURI :: "string \<Rightarrow> string \<Rightarrow> string \<Rightarrow> string"
  tl_qrcode :: "string \<Rightarrow> string"
  tl_rawEncryptionKey :: string

record secret_draws =
  sd_salt :: bytes
  sd_iv :: bytes

definition deriveKey :: "totp_lib \<Rightarrow> bytes \<Rightarrow> bytes" where
  "deriveKey tp salt = tl_scrypt tp (tl_rawEncryptionKey tp) salt"

definition encryptionKey :: "totp_lib \<Rightarrow> bytes" where
  "encryptionKey tp = tl_scrypt tp (tl_rawEncryptionKey tp) (text_bytes ''totp-secret-salt'')"

definition encryptSecret :: "totp_lib \<Rightarrow> secret_draws \<Rightarrow> string \<Rightarrow> string" where
  "encryptSecret tp d secret =
     (let (encrypted, authTag) = gcm_seal (tl_aead tp) (deriveKey tp (sd_salt d)) (sd_iv d) [] (text_bytes secret)
      in bytes_hex (sd_salt d) @ '':'' @ bytes_hex (sd_iv d) @ '':'' @ bytes_hex authTag @ '':'' @ bytes_hex encrypted)"

definition decryptSecret :: "totp_lib \<Rightarrow> string \<Rightarrow> error + string" where
  "decryptSecret tp encryptedValue =
     (case split_on CHR '':'' encryptedValue of
        [salt, iv, authTag, ciphertext] \<Rightarrow>
          map_sum id bytes_text
            (gcm_open (tl_aead tp) (deriveKey tp (hex_bytes salt)) (hex_bytes iv) [] (hex_bytes authTag) (hex_bytes ciphertext))
      | [iv, authTag, ciphertext] \<Rightarrow>
          map_sum id bytes_text
            (gcm_open (tl_aead tp) (encryptionKey tp) (hex_bytes iv) [] (hex_bytes authTag) (hex_bytes ciphertext))
      | _ \<Rightarrow> Inl (BadRequest ''Invalid encrypted TOTP secret format''))"

section \<open>Used codes\<close>

definition usedKey :: "ident \<Rightarrow> string \<Rightarrow> string" where
  "usedKey uid code = ''used:'' @ show_int uid @ '':'' @ code"

definition isCodeUsed :: "millis \<Rightarrow> ident \<Rightarrow> string \<Rightarrow> auth \<Rightarrow> bool" where
  "isCodeUsed now uid code st = (rget now (au_codes st) (usedKey uid code) \<noteq> None)"

definition markCodeUsed :: "millis \<Rightarrow> ident \<Rightarrow> string \<Rightarrow> auth \<Rightarrow> auth" where
  "markCodeUsed now uid code st = st\<lparr>au_codes := rset now (usedKey uid code) ''1'' (Some 90000) (au_codes st)\<rparr>"

text \<open>The lines the three operations share: the replay check, the decryption, the check of the code.\<close>

definition examine_code :: "totp_lib \<Rightarrow> millis \<Rightarrow> ident \<Rightarrow> string \<Rightarrow> string \<Rightarrow> auth \<Rightarrow> error + bool" where
  "examine_code tp now uid code encrypted st =
     (if isCodeUsed now uid code st then Inl (Unauthorized ''TOTP code already used'')
      else (case decryptSecret tp encrypted of
              Inl e \<Rightarrow> Inl e
            | Inr secret \<Rightarrow> Inr (tl_otpValid tp now secret code)))"

definition set_totp :: "ident \<Rightarrow> (user \<Rightarrow> user) \<Rightarrow> auth \<Rightarrow> auth" where
  "set_totp uid f st = st\<lparr>au_users := update_where (\<lambda>u. us_id u = uid) f (au_users st)\<rparr>"

section \<open>Operations\<close>

record totp_setup =
  ts_secret :: string
  ts_otpauthUrl :: string
  ts_qrCodeDataUrl :: string

text \<open>\<open>secret\<close> is what \<open>generateSecret()\<close> draws.\<close>

definition setup2fa :: "totp_lib \<Rightarrow> secret_draws \<Rightarrow> string \<Rightarrow> ident \<Rightarrow> auth \<Rightarrow> (error + totp_setup) \<times> auth" where
  "setup2fa tp d secret uid st =
     (case find_user uid st of
        None \<Rightarrow> (Inl (NotFound ''User not found''), st)
      | Some u \<Rightarrow>
          if us_totpEnabled u then (Inl (BadRequest ''2FA is already enabled for this user''), st)
          else
            (let url = tl_generateURI tp ''CryptoVaultHub'' (us_email u) secret
             in (Inr \<lparr>ts_secret = secret, ts_otpauthUrl = url, ts_qrCodeDataUrl = tl_qrcode tp url\<rparr>,
                 set_totp uid (\<lambda>u. u\<lparr>us_totpSecret := Some (encryptSecret tp d secret)\<rparr>) st)))"

text \<open>\<open>!user.totpSecret\<close>: no secret, or an empty one.\<close>

definition totp_secret :: "user \<Rightarrow> string option" where
  "totp_secret u = or_null (us_totpSecret u)"

definition verify_examine :: "totp_lib \<Rightarrow> millis \<Rightarrow> ident \<Rightarrow> string \<Rightarrow> auth \<Rightarrow> error + user" where
  "verify_examine tp now uid code st =
     (case find_user uid st of
        None \<Rightarrow> Inl (BadRequest ''2FA setup not initiated. Call setup first.'')
      | Some u \<Rightarrow>
          (case totp_secret u of
             None \<Rightarrow> Inl (BadRequest ''2FA setup not initiated. Call setup first.'')
           | Some e \<Rightarrow>
               (case examine_code tp now uid code e st of
                  Inl x \<Rightarrow> Inl x
                | Inr ok \<Rightarrow> if ok then Inr u else Inl (BadRequest ''Invalid TOTP code''))))"

definition verify_finish :: "millis \<Rightarrow> ident \<Rightarrow> string \<Rightarrow> user \<Rightarrow> auth \<Rightarrow> auth" where
  "verify_finish now uid code u st =
     (let st1 = markCodeUsed now uid code st
      in if us_totpEnabled u then st1 else set_totp uid (\<lambda>u. u\<lparr>us_totpEnabled := True\<rparr>) st1)"

definition verify2fa :: "totp_lib \<Rightarrow> millis \<Rightarrow> ident \<Rightarrow> string \<Rightarrow> auth \<Rightarrow> (error + bool) \<times> auth" where
  "verify2fa tp now uid code st =
     (case verify_examine tp now uid code st of
        Inl e \<Rightarrow> (Inl e, st)
      | Inr u \<Rightarrow> (Inr True, verify_finish now uid code u st))"

definition enabled_secret :: "ident \<Rightarrow> string \<Rightarrow> auth \<Rightarrow> error + string" where
  "enabled_secret uid msg st =
     (case find_user uid st of
        None \<Rightarrow> Inl (BadRequest msg)
      | Some u \<Rightarrow>
          if \<not> us_totpEnabled u then Inl (BadRequest msg)
          else (case totp_secret u of None \<Rightarrow> Inl (BadRequest msg) | Some e \<Rightarrow> Inr e))"

definition validate_examine :: "totp_lib \<Rightarrow> millis \<Rightarrow> ident \<Rightarrow> string \<Rightarrow> auth \<Rightarrow> error + bool" where
  "validate_examine tp now uid code st =
     (case enabled_secret uid ''2FA is not enabled for this user'' st of
        Inl e \<Rightarrow> Inl e
      | Inr encrypted \<Rightarrow> examine_code tp now uid code encrypted st)"

definition validateCode :: "totp_lib \<Rightarrow> millis \<Rightarrow> ident \<Rightarrow> string \<Rightarrow> auth \<Rightarrow> (error + bool) \<times> auth" where
  "validateCode tp now uid code st =
     (case validate_examine tp now uid code st of
        Inl e \<Rightarrow> (Inl e, st)
      | Inr ok \<Rightarrow> (Inr ok, if ok then markCodeUsed now uid code st else st))"

definition disable_examine :: "totp_lib \<Rightarrow> millis \<Rightarrow> ident \<Rightarrow> string \<Rightarrow> auth \<Rightarrow> error + unit" where
  "disable_examine tp now uid code st =
     (case enabled_secret uid ''2FA is not enabled'' st of
        Inl e \<Rightarrow> Inl e
      | Inr encrypted \<Rightarrow>
          (case examine_code tp now uid code encrypted st of
             Inl e \<Rightarrow> Inl e
           | Inr ok \<Rightarrow> if ok then Inr () else Inl (BadRequest ''Invalid TOTP code'')))"

definition disable_finish :: "millis \<Rightarrow> ident \<Rightarrow> string \<Rightarrow> auth \<Rightarrow> auth" where
  "disable_finish now uid code st =
     set_totp uid (\<lambda>u. u\<lparr>us_totpSecret := None, us_totpEnabled := False\<rparr>) (markCodeUsed now uid code st)"

definition disable2fa :: "totp_lib \<Rightarrow> millis \<Rightarrow> ident \<Rightarrow> string \<Rightarrow> auth \<Rightarrow> (error + unit) \<times> auth" where
  "disable2fa tp now uid code st =
     (case disable_examine tp now uid code st of
        Inl e \<Rightarrow> (Inl e, st)
      | Inr _ \<Rightarrow> (Inr (), disable_finish now uid code st))"

section \<open>Secrets open again\<close>

definition totp_ok :: "totp_lib \<Rightarrow> bool" where
  "totp_ok tp \<longleftrightarrow> aead_ok (tl_aead tp) \<and> (\<forall>pw salt. length (tl_scrypt tp pw salt) = 32)"

lemma hex_no_colon [simp]: "CHR '':'' \<notin> set (bytes_hex bs)"
proof -
  have nd: "CHR '':'' \<noteq> hex_digit d" if "d < 16" for d
  proof
    assume "CHR '':'' = hex_digit d"
    then have "hex_val CHR '':'' = Some d" using hex_val_digit [OF that] by simp
    then show False by (simp add: hex_val_def)
  qed
  have "CHR '':'' \<noteq> hex_digit (unat b div 16)" "CHR '':'' \<noteq> hex_digit (unat b mod 16)" for b :: "8 word"
    using nd [OF byte_nibbles [of b]] nd [of "unat b mod 16"] by simp_all
  then show ?thesis by (induction bs) (simp_all add: bytes_hex_def)
qed

lemma split_hex4: "split_on CHR '':'' (bytes_hex a @ '':'' @ bytes_hex b @ '':'' @ bytes_hex c @ '':'' @ bytes_hex d)
    = [bytes_hex a, bytes_hex b, bytes_hex c, bytes_hex d]"
  by (simp add: split_on_append split_on_plain)

lemma gcm_roundtrip: "aead_ok cr \<Longrightarrow> length key = 32 \<Longrightarrow>
    gcm_open cr key iv aad (snd (gcm_seal cr key iv aad pt)) (fst (gcm_seal cr key iv aad pt)) = Inr pt"
  by (simp add: aead_ok_def)

lemma secret_reopens: "totp_ok tp \<Longrightarrow> decryptSecret tp (encryptSecret tp d secret) = Inr secret"
proof -
  assume t: "totp_ok tp"
  obtain ct tag where s: "gcm_seal (tl_aead tp) (deriveKey tp (sd_salt d)) (sd_iv d) [] (text_bytes secret) = (ct, tag)"
    by (cases "gcm_seal (tl_aead tp) (deriveKey tp (sd_salt d)) (sd_iv d) [] (text_bytes secret)")
  have o: "gcm_open (tl_aead tp) (deriveKey tp (sd_salt d)) (sd_iv d) [] tag ct = Inr (text_bytes secret)"
    using gcm_roundtrip [of "tl_aead tp" "deriveKey tp (sd_salt d)" "sd_iv d" "[]" "text_bytes secret"] t s
    by (simp add: totp_ok_def deriveKey_def)
  show ?thesis
    unfolding decryptSecret_def encryptSecret_def Let_def s prod.case split_hex4 list.case hex_bytes_hex o by simp
qed

interpretation stored_secrets: envelope totp_ok "\<lambda>d :: secret_draws. True"
    "\<lambda>tp d secret (k :: unit). encryptSecret tp d secret" "\<lambda>tp e (k :: unit). decryptSecret tp e"
  by unfold_locales (simp add: secret_reopens)

text \<open>A record of the old format, under the static salt, still opens.\<close>

lemma legacy_secret_opens:
  assumes "totp_ok tp" "gcm_seal (tl_aead tp) (encryptionKey tp) iv [] (text_bytes secret) = (ct, tag)"
  shows "decryptSecret tp (bytes_hex iv @ '':'' @ bytes_hex tag @ '':'' @ bytes_hex ct) = Inr secret"
proof -
  have "split_on CHR '':'' (bytes_hex iv @ '':'' @ bytes_hex tag @ '':'' @ bytes_hex ct)
      = [bytes_hex iv, bytes_hex tag, bytes_hex ct]"
    by (simp add: split_on_append split_on_plain)
  moreover have "gcm_open (tl_aead tp) (encryptionKey tp) iv [] tag ct = Inr (text_bytes secret)"
    using gcm_roundtrip [of "tl_aead tp" "encryptionKey tp" iv "[]" "text_bytes secret"] assms
    by (simp add: totp_ok_def encryptionKey_def)
  ultimately show ?thesis by (simp add: decryptSecret_def)
qed

section \<open>A code is accepted once\<close>

datatype code_op = OpValidate | OpVerify | OpDisable

text \<open>What an operation answers when it accepts the code is \<open>Inr True\<close>.\<close>

definition run_code :: "totp_lib \<Rightarrow> code_op \<Rightarrow> millis \<Rightarrow> ident \<Rightarrow> string \<Rightarrow> auth \<Rightarrow> (error + bool) \<times> auth" where
  "run_code tp op now uid code st =
     (case op of
        OpValidate \<Rightarrow> validateCode tp now uid code st
      | OpVerify \<Rightarrow> verify2fa tp now uid code st
      | OpDisable \<Rightarrow> (case disable2fa tp now uid code st of (r, st') \<Rightarrow> (map_sum id (\<lambda>_. True) r, st')))"

text \<open>A sequence of operations of any users, and how many of them accepted \<open>code\<close> of user \<open>uid\<close>.\<close>

fun acceptances :: "totp_lib \<Rightarrow> ident \<Rightarrow> string \<Rightarrow> (code_op \<times> millis \<times> ident \<times> string) list \<Rightarrow> auth \<Rightarrow> nat" where
  "acceptances tp uid code [] st = 0"
| "acceptances tp uid code ((op, now, v, c) # ops) st =
     (let (r, st') = run_code tp op now v c st
      in (if v = uid \<and> c = code \<and> r = Inr True then 1 else 0) + acceptances tp uid code ops st')"

lemma colon_free_show_int [simp]: "CHR '':'' \<notin> set (show_int i)"
proof -
  have "CHR '':'' \<notin> set (show_nat n)" for n
    using show_nat_digits [of n] by (auto simp: is_digit_def)
  then show ?thesis by (simp add: show_int_def)
qed

lemma usedKey_inject [simp]: "usedKey u c = usedKey v d \<longleftrightarrow> u = v \<and> c = d"
proof
  assume "usedKey u c = usedKey v d"
  then have e: "show_int u @ CHR '':'' # c = show_int v @ CHR '':'' # d" by (simp add: usedKey_def)
  have t: "takeWhile (\<lambda>x. x \<noteq> CHR '':'') (show_int w @ CHR '':'' # x) = show_int w" for w x
    by (subst takeWhile_append2) (auto intro: ccontr dest: colon_free_show_int [THEN notE])
  have "show_int u = show_int v" using t [of u c] t [of v d] e by metis
  then show "u = v \<and> c = d" using e by simp
qed simp

text \<open>What an accepted code must have passed.\<close>

lemma examine_true: "examine_code tp now uid code e st = Inr True \<Longrightarrow>
    \<not> isCodeUsed now uid code st \<and> (\<exists>s. decryptSecret tp e = Inr s \<and> tl_otpValid tp now s code)"
  by (auto simp: examine_code_def split: if_splits sum.splits)

definition secret_is :: "ident \<Rightarrow> string \<Rightarrow> auth \<Rightarrow> bool" where
  "secret_is uid e st \<longleftrightarrow> (\<forall>u. find_user uid st = Some u \<longrightarrow> us_totpSecret u = None \<or> us_totpSecret u = Some e)"

lemma accepted_examined:
  "fst (run_code tp op now uid code st) = Inr True \<Longrightarrow>
   (\<exists>u e. find_user uid st = Some u \<and> us_totpSecret u = Some e \<and> examine_code tp now uid code e st = Inr True)
   \<and> au_codes (snd (run_code tp op now uid code st)) = rset now (usedKey uid code) ''1'' (Some 90000) (au_codes st)"
  by (cases op)
    (auto simp: run_code_def validateCode_def verify2fa_def disable2fa_def validate_examine_def verify_examine_def
      disable_examine_def verify_finish_def disable_finish_def enabled_secret_def totp_secret_def or_null_def
      markCodeUsed_def set_totp_def Let_def split: sum.splits option.splits if_splits)

lemma accepted_codeD:
  assumes "fst (run_code tp op now uid code st) = Inr True" "secret_is uid e st"
  shows "\<not> isCodeUsed now uid code st \<and> (\<exists>s. decryptSecret tp e = Inr s \<and> tl_otpValid tp now s code)
    \<and> au_codes (snd (run_code tp op now uid code st)) = rset now (usedKey uid code) ''1'' (Some 90000) (au_codes st)"
proof -
  obtain u d where u: "find_user uid st = Some u" "us_totpSecret u = Some d" "examine_code tp now uid code d st = Inr True"
    using accepted_examined [OF assms(1)] by blast
  moreover have "d = e" using assms(2) u(1,2) by (auto simp: secret_is_def)
  ultimately show ?thesis using examine_true [of tp now uid code e st] accepted_examined [OF assms(1)] by simp
qed

text \<open>Every operation leaves the used codes as they were, or marks one more.\<close>

lemma run_code_codes:
  "au_codes (snd (run_code tp op now v c st)) = au_codes st
   \<or> au_codes (snd (run_code tp op now v c st)) = rset now (usedKey v c) ''1'' (Some 90000) (au_codes st)"
  by (auto simp: run_code_def validateCode_def verify2fa_def disable2fa_def verify_finish_def disable_finish_def
      markCodeUsed_def set_totp_def Let_def split: code_op.splits sum.splits)

lemma find_set_totp: "(\<And>u. us_id (f u) = us_id u) \<Longrightarrow>
    find_user uid (set_totp v f st) = map_option (\<lambda>u. if us_id u = v then f u else u) (find_user uid st)"
  by (simp add: find_user_def set_totp_def find_update_where)

lemma find_mark [simp]: "find_user uid (markCodeUsed now v c st) = find_user uid st"
  by (simp add: find_user_def markCodeUsed_def)

lemma secret_is_mark [simp]: "secret_is uid e (markCodeUsed now v c st) = secret_is uid e st"
  by (simp add: secret_is_def)

lemma secret_is_set:
  assumes "\<And>u. us_id (f u) = us_id u" "\<And>u. us_totpSecret (f u) = None \<or> us_totpSecret (f u) = us_totpSecret u"
    "secret_is uid e st"
  shows "secret_is uid e (set_totp v f st)"
  unfolding secret_is_def find_set_totp [OF assms(1)]
proof (intro allI impI)
  fix u
  assume "map_option (\<lambda>u. if us_id u = v then f u else u) (find_user uid st) = Some u"
  then obtain w where w: "find_user uid st = Some w" "u = (if us_id w = v then f w else w)" by auto
  have "us_totpSecret w = None \<or> us_totpSecret w = Some e" using assms(3) w(1) by (simp add: secret_is_def)
  then show "us_totpSecret u = None \<or> us_totpSecret u = Some e" using assms(2) [of w] w(2) by auto
qed

lemma secret_is_finish:
  "secret_is uid e st \<Longrightarrow> secret_is uid e (verify_finish now v c u st)"
  "secret_is uid e st \<Longrightarrow> secret_is uid e (disable_finish now v c st)"
  by (simp_all add: verify_finish_def disable_finish_def Let_def secret_is_set)

lemma run_code_secret: "secret_is uid e st \<Longrightarrow> secret_is uid e (snd (run_code tp op now v c st))"
  by (cases op) (simp_all add: run_code_def validateCode_def verify2fa_def disable2fa_def secret_is_finish split: sum.split)

lemma marked_is_used: "alive_until (au_codes st) (usedKey uid code) ''1'' e \<Longrightarrow> now < e \<Longrightarrow> isCodeUsed now uid code st"
  using alive_rget by (fastforce simp: isCodeUsed_def)

lemma mark_kept:
  assumes "alive_until (au_codes st) (usedKey uid code) ''1'' e" "e \<le> now + 90000"
  shows "alive_until (au_codes (snd (run_code tp op now v c st))) (usedKey uid code) ''1'' e"
  using run_code_codes [of tp op now v c st] assms
  by (auto simp: alive_until_def rset_def)

text \<open>Once marked until the code is no longer valid, it is not accepted again.\<close>

lemma no_more_acceptances:
  assumes "secret_is uid e st" "alive_until (au_codes st) (usedKey uid code) ''1'' x" "a + 90000 \<le> x"
    "\<And>t s. decryptSecret tp e = Inr s \<Longrightarrow> tl_otpValid tp t s code \<Longrightarrow> a \<le> t \<and> t < a + 90000"
    "\<forall>q \<in> set ops. x \<le> fst (snd q) + 90000"
  shows "acceptances tp uid code ops st = 0"
  using assms(1,2,5)
proof (induction ops arbitrary: st)
  case (Cons o' ops)
  obtain op now v c where o: "o' = (op, now, v, c)" by (cases o') auto
  obtain r st' where r: "run_code tp op now v c st = (r, st')" by (cases "run_code tp op now v c st")
  have "\<not> (v = uid \<and> c = code \<and> r = Inr True)"
  proof
    assume h: "v = uid \<and> c = code \<and> r = Inr True"
    then have "fst (run_code tp op now uid code st) = Inr True" using r by simp
    from accepted_codeD [OF this Cons.prems(1)] obtain s where
      s: "\<not> isCodeUsed now uid code st" "decryptSecret tp e = Inr s" "tl_otpValid tp now s code" by blast
    have "now < x" using assms(3) assms(4) [OF s(2,3)] by simp
    then show False using s(1) marked_is_used [OF Cons.prems(2)] by blast
  qed
  moreover have "acceptances tp uid code ops st' = 0"
    using Cons.IH [of st'] run_code_secret [OF Cons.prems(1), of tp op now v c]
      mark_kept [OF Cons.prems(2), of now tp op v c] Cons.prems(3) r by (simp add: o)
  ultimately show ?case by (simp add: o r)
qed simp

text \<open>Claim C6. A code is accepted at most once: in any sequence of logins, verifications and disablings of any users
  whose times do not run backwards, a code that is valid for one stretch of 90 seconds is accepted at most once for the user whose secret makes it.\<close>

theorem code_is_accepted_once:
  assumes "secret_is uid e st" "sorted (map (\<lambda>q. fst (snd q)) ops)"
    "\<And>t s. decryptSecret tp e = Inr s \<Longrightarrow> tl_otpValid tp t s code \<Longrightarrow> a \<le> t \<and> t < a + 90000"
  shows "acceptances tp uid code ops st \<le> 1"
  using assms(1,2)
proof (induction ops arbitrary: st)
  case (Cons o' ops)
  obtain op now v c where o: "o' = (op, now, v, c)" by (cases o') auto
  obtain r st' where r: "run_code tp op now v c st = (r, st')" by (cases "run_code tp op now v c st")
  have later: "\<forall>p \<in> set ops. now \<le> fst (snd p)" using Cons.prems(2) by (simp add: o)
  have s': "secret_is uid e st'" using run_code_secret [OF Cons.prems(1), of tp op now v c] r by simp
  show ?case
  proof (cases "v = uid \<and> c = code \<and> r = Inr True")
    case True
    then have f: "fst (run_code tp op now uid code st) = Inr True" using r by simp
    from accepted_codeD [OF this Cons.prems(1)] obtain s where
      s: "decryptSecret tp e = Inr s" "tl_otpValid tp now s code"
      and k: "au_codes st' = rset now (usedKey uid code) ''1'' (Some 90000) (au_codes st)" using r True by auto
    have x: "alive_until (au_codes st') (usedKey uid code) ''1'' (now + 90000)"
      unfolding k by (rule alive_rset) simp
    have "acceptances tp uid code ops st' = 0"
      by (rule no_more_acceptances [OF s' x _ assms(3)]) (use assms(3) [OF s] later in auto)
    then show ?thesis by (simp add: o r)
  next
    case False
    have "acceptances tp uid code ops st' \<le> 1" using Cons.IH [OF s'] Cons.prems(2) by (simp add: o)
    then show ?thesis unfolding o acceptances.simps r Let_def prod.case if_not_P [OF False] by simp
  qed
qed simp

text \<open>Between its two parts a request leaves the code unmarked: two requests that both examine it first both accept it.\<close>

lemma concurrent_codes_both_pass:
  assumes "validate_examine tp now uid code st = Inr True"
  shows "fst (validateCode tp now uid code st) = Inr True
    \<and> (\<exists>e. validate_examine tp now uid code (snd (validateCode tp now uid code st)) = Inl e)"
proof -
  have "isCodeUsed now uid code (markCodeUsed now uid code st)"
    by (simp add: isCodeUsed_def markCodeUsed_def kv.get_put)
  then show ?thesis
    using assms
    by (auto simp: validateCode_def validate_examine_def enabled_secret_def examine_code_def
        split: sum.splits option.splits if_splits)
qed

section \<open>A concrete instance\<close>

text \<open>A library in which codes are valid in the first 90 seconds.\<close>

definition plain_totp :: totp_lib where
  "plain_totp =
     \<lparr>tl_aead = small_aead, tl_scrypt = \<lambda>_ _. replicate 32 0, tl_otpValid = \<lambda>t _ _. 0 \<le> t \<and> t < 90000,
      tl_generateURI = \<lambda>i l s. i @ l @ s, tl_qrcode = \<lambda>u. u, tl_rawEncryptionKey = ''k''\<rparr>"

definition one_secret :: string where
  "one_secret = encryptSecret plain_totp \<lparr>sd_salt = [], sd_iv = []\<rparr> ''SEED''"

definition one_user :: user where
  "one_user =
     \<lparr>us_id = 7, us_email = ''alice@x.io'', us_passwordHash = ''pw'', us_name = ''Alice'', us_role = RViewer,
      us_clientId = Some 3, us_clientRole = Some COwner, us_isActive = True, us_totpSecret = Some one_secret,
      us_totpEnabled = True, us_lastLoginAt = None\<rparr>"

definition one_account :: auth where
  "one_account = \<lparr>au_users = [one_user], au_sessions = [], au_limits = Map.empty, au_codes = Map.empty\<rparr>"

lemma plain_totp_ok: "totp_ok plain_totp"
  using small_aead_ok by (simp add: totp_ok_def plain_totp_def)

lemma plain_otp [simp]: "tl_otpValid plain_totp t s c \<longleftrightarrow> 0 \<le> t \<and> t < 90000"
  by (simp add: plain_totp_def)

lemma one_secret_opens [simp]: "decryptSecret plain_totp one_secret = Inr ''SEED''"
  unfolding one_secret_def by (rule secret_reopens [OF plain_totp_ok])

lemma one_secret_nonempty [simp]: "one_secret \<noteq> []"
  by (simp add: one_secret_def encryptSecret_def Let_def case_prod_beta)

lemma one_account_user [simp]: "find_user 7 one_account = Some one_user"
  by (simp add: find_user_def one_account_def one_user_def)

lemma one_account_fields [simp]:
  "us_totpEnabled one_user" "us_totpSecret one_user = Some one_secret" "au_codes one_account = Map.empty"
  by (simp_all add: one_user_def one_account_def)

lemma one_account_validates: "0 \<le> t \<Longrightarrow> t < 90000 \<Longrightarrow> validateCode plain_totp t 7 c one_account
    = (Inr True, markCodeUsed t 7 c one_account)"
  by (simp add: validateCode_def validate_examine_def enabled_secret_def totp_secret_def or_null_def
      examine_code_def isCodeUsed_def)

lemma code_is_accepted_once_witness:
  "fst (run_code plain_totp OpValidate 1000 7 ''123456'' one_account) = Inr True
   \<and> acceptances plain_totp 7 ''123456'' [(OpValidate, 1000, 7, ''123456''), (OpVerify, 2000, 7, ''123456'')] one_account \<le> 1"
proof -
  have s: "secret_is 7 one_secret one_account" by (simp add: secret_is_def)
  show ?thesis
    using code_is_accepted_once [OF s, of "[(OpValidate, 1000, 7, ''123456''), (OpVerify, 2000, 7, ''123456'')]"
        plain_totp "''123456''" 0] one_account_validates [of 1000 "''123456''"]
    by (simp add: run_code_def)
qed

end
