(* ===== verification/Cidr.thy ===== *)
theory Cidr
  imports Prelude "HOL-Library.Word" Complex_Main
begin

text \<open>
  The allowlists of the API keys (services/auth-service/src/api-key/cidr.ts): IPv4 addresses as 32-bit
  words, blocks \<open>address/prefix\<close>, and \<open>Number(s)\<close> on the text of the prefix, as the language defines it. The value
  of a decimal literal is the exact rational, without the rounding to a double.
\<close>

unbundle bit_operations_syntax

section \<open>Number(s)\<close>

definition js_space :: "char \<Rightarrow> bool" where
  "js_space c \<longleftrightarrow> (of_char c :: nat) \<in> {9, 10, 11, 12, 13, 32, 160}"

definition js_trim :: "string \<Rightarrow> string" where
  "js_trim s = rev (dropWhile js_space (rev (dropWhile js_space s)))"

text \<open>The digits of a base below sixteen, none of them missing.\<close>

definition base_digit :: "nat \<Rightarrow> char \<Rightarrow> bool" where
  "base_digit b c \<longleftrightarrow> (case hex_val c of None \<Rightarrow> False | Some d \<Rightarrow> d < b)"

definition base_value :: "nat \<Rightarrow> string \<Rightarrow> nat" where
  "base_value b s = foldl (\<lambda>acc c. acc * b + the (hex_val c)) 0 s"

definition base_literal :: "nat \<Rightarrow> string \<Rightarrow> rat option" where
  "base_literal b s =
     (if s \<noteq> [] \<and> list_all (base_digit b) s then Some (of_nat (base_value b s)) else None)"

text \<open>\<open>12\<close>, \<open>12.5\<close>, \<open>12.\<close>, \<open>.5\<close>, each with an optional exponent; no sign.\<close>

definition exponent_value :: "string \<Rightarrow> int option" where
  "exponent_value s =
     (let neg = take 1 s = ''-'';
          ds = (if take 1 s = ''-'' \<or> take 1 s = ''+'' then drop 1 s else s)
      in if ds \<noteq> [] \<and> list_all is_digit ds
         then Some (if neg then - int (base_value 10 ds) else int (base_value 10 ds)) else None)"

definition scale10 :: "int \<Rightarrow> rat \<Rightarrow> rat" where
  "scale10 e x = (if 0 \<le> e then x * 10 ^ nat e else x / 10 ^ nat (- e))"

definition is_exponent_mark :: "char \<Rightarrow> bool" where
  "is_exponent_mark c \<longleftrightarrow> c = CHR ''e'' \<or> c = CHR ''E''"

definition decimal_literal :: "string \<Rightarrow> rat option" where
  "decimal_literal s =
     (let mantissa = takeWhile (\<lambda>c. \<not> is_exponent_mark c) s;
          rest = drop (length mantissa) s;
          whole = takeWhile (\<lambda>c. c \<noteq> CHR ''.'') mantissa;
          fraction = drop (Suc (length whole)) mantissa
      in if whole @ fraction \<noteq> [] \<and> list_all is_digit (whole @ fraction)
         then (case (if rest = [] then Some 0 else exponent_value (drop 1 rest)) of
                 None \<Rightarrow> None
               | Some e \<Rightarrow> Some (scale10 (e - int (length fraction)) (of_nat (base_value 10 (whole @ fraction)))))
         else None)"

text \<open>\<open>None\<close> is \<open>NaN\<close> or an infinity; the empty text is zero.\<close>

definition js_number :: "string \<Rightarrow> rat option" where
  "js_number s =
     (let t = js_trim s; tag = lower (take 2 t) in
      if t = [] then Some 0
      else if tag = ''0x'' then base_literal 16 (drop 2 t)
      else if tag = ''0o'' then base_literal 8 (drop 2 t)
      else if tag = ''0b'' then base_literal 2 (drop 2 t)
      else if take 1 t = ''-'' then map_option uminus (decimal_literal (drop 1 t))
      else if take 1 t = ''+'' then decimal_literal (drop 1 t)
      else decimal_literal t)"

section \<open>Addresses and blocks\<close>

definition normalizeIp :: "string \<Rightarrow> string" where
  "normalizeIp ip = (if take 7 (lower ip) = ''::ffff:'' then drop 7 ip else ip)"

text \<open>\<open>(n << 8) + v\<close> on numbers that the shift reads as 32-bit integers.\<close>

fun octets_int :: "32 word \<Rightarrow> string list \<Rightarrow> 32 word option" where
  "octets_int n [] = Some n"
| "octets_int n (p # ps) =
     (if p \<noteq> [] \<and> list_all is_digit p \<and> base_value 10 p \<le> 255
      then octets_int (push_bit 8 n + word_of_nat (base_value 10 p)) ps else None)"

definition ipToInt :: "string \<Rightarrow> 32 word option" where
  "ipToInt ip = (let parts = split_on CHR ''.'' ip in if length parts \<noteq> 4 then None else octets_int 0 parts)"

text \<open>\<open>const [addr, prefixStr] = parts.length === 2 ? parts : [entry, '32']\<close>, and \<open>Number.isInteger\<close> with the range.\<close>

definition entry_parts :: "string \<Rightarrow> (string \<times> string) option" where
  "entry_parts entry =
     (case split_on CHR ''/'' entry of
        [addr, prefixStr] \<Rightarrow> Some (addr, prefixStr)
      | [_] \<Rightarrow> Some (entry, ''32'')
      | _ \<Rightarrow> None)"

definition prefix_of :: "string \<Rightarrow> nat option" where
  "prefix_of prefixStr =
     (case js_number prefixStr of
        None \<Rightarrow> None
      | Some q \<Rightarrow> if q \<in> \<int> \<and> 0 \<le> q \<and> q \<le> 32 then Some (nat \<lfloor>q\<rfloor>) else None)"

definition block_mask :: "nat \<Rightarrow> 32 word" where
  "block_mask prefix = push_bit (32 - prefix) (word_of_int 0xffffffff)"

definition entryMatches :: "string \<Rightarrow> string \<Rightarrow> bool" where
  "entryMatches ip entry =
     (case entry_parts entry of
        None \<Rightarrow> False
      | Some (addr, prefixStr) \<Rightarrow>
          (case prefix_of prefixStr of
             None \<Rightarrow> False
           | Some prefix \<Rightarrow>
               (case (ipToInt ip, ipToInt addr) of
                  (Some reqInt, Some entryInt) \<Rightarrow>
                    prefix = 0 \<or> reqInt AND block_mask prefix = entryInt AND block_mask prefix
                | _ \<Rightarrow> False)))"

definition matchesAllowlist :: "string option \<Rightarrow> string list option \<Rightarrow> bool" where
  "matchesAllowlist requestIp allowlist =
     (case allowlist of
        None \<Rightarrow> True
      | Some [] \<Rightarrow> True
      | Some entries \<Rightarrow>
          (case requestIp of
             None \<Rightarrow> False
           | Some ip \<Rightarrow> ip \<noteq> [] \<and> list_ex (entryMatches (normalizeIp ip)) entries))"

definition isValidIpOrCidr :: "string \<Rightarrow> bool" where
  "isValidIpOrCidr v =
     (v \<noteq> [] \<and>
      (case entry_parts v of
         None \<Rightarrow> False
       | Some (addr, prefixStr) \<Rightarrow> prefix_of prefixStr \<noteq> None \<and> ipToInt addr \<noteq> None))"

section \<open>Blocks\<close>

lemma is_digit_hex: "is_digit c \<Longrightarrow> hex_val c = Some (digit_val c) \<and> digit_val c < 10"
  by (auto simp: is_digit_def hex_val_def digit_val_def Let_def)

lemma base_value_digits: "list_all is_digit s \<Longrightarrow> base_value 10 s = foldl (\<lambda>acc c. acc * 10 + digit_val c) 0 s"
  unfolding base_value_def
  by (rule foldl_cong) (auto simp: list_all_iff is_digit_hex)

lemma digits_show_nat [simp]: "list_all is_digit (show_nat n)"
  using show_nat_digits by (simp add: list_all_iff)

lemma base_value_show_nat [simp]: "base_value 10 (show_nat n) = n"
  by (simp add: base_value_digits foldl_show_nat)

lemma digit_not_mark: "is_digit c \<Longrightarrow> \<not> is_exponent_mark c \<and> c \<noteq> CHR ''.'' \<and> c \<noteq> CHR ''/'' \<and> \<not> js_space c
    \<and> c \<noteq> CHR ''-'' \<and> c \<noteq> CHR ''+'' \<and> lower_char c = c \<and> c \<noteq> CHR ''x'' \<and> c \<noteq> CHR ''o'' \<and> c \<noteq> CHR ''b''"
  by (auto simp: is_digit_def is_exponent_mark_def js_space_def lower_char_def)

lemma show_nat_free [simp]: "CHR ''.'' \<notin> set (show_nat n)" "CHR ''/'' \<notin> set (show_nat n)"
  using show_nat_digits [of n] digit_not_mark by blast+

lemma decimal_literal_show_nat: "decimal_literal (show_nat n) = Some (of_nat n)"
proof -
  have m: "takeWhile (\<lambda>c. \<not> is_exponent_mark c) (show_nat n) = show_nat n"
    using show_nat_digits [of n] digit_not_mark by (simp add: takeWhile_eq_all_conv)
  have w: "takeWhile (\<lambda>c. c \<noteq> CHR ''.'') (show_nat n) = show_nat n"
    using show_nat_digits [of n] digit_not_mark by (simp add: takeWhile_eq_all_conv)
  show ?thesis
    unfolding decimal_literal_def Let_def m w by (simp add: scale10_def)
qed

lemma js_trim_digits: "list_all is_digit s \<Longrightarrow> js_trim s = s"
proof -
  assume "list_all is_digit s"
  then have "\<forall>c \<in> set s. \<not> js_space c" using digit_not_mark by (simp add: list_all_iff)
  then have d: "\<And>t. set t \<subseteq> set s \<Longrightarrow> dropWhile js_space t = t"
    by (metis dropWhile_eq_self_iff hd_in_set subsetD)
  have "dropWhile js_space s = s" "dropWhile js_space (rev s) = rev s" by (rule d, simp)+
  then show ?thesis by (simp add: js_trim_def)
qed

lemma js_number_show_nat [simp]: "js_number (show_nat n) = Some (of_nat n)"
proof -
  obtain c cs where s: "show_nat n = c # cs" by (cases "show_nat n") auto
  have d: "is_digit c" "\<forall>x \<in> set cs. is_digit x" using show_nat_digits [of n] s by auto
  have two: "lower (take 2 (show_nat n)) = take 2 (show_nat n)"
    using d digit_not_mark by (cases cs) (simp_all add: s lower_def)
  have no: "take 2 (c # cs) \<noteq> ''0x''" "take 2 (c # cs) \<noteq> ''0o''" "take 2 (c # cs) \<noteq> ''0b''"
    using d(2) by (cases cs; auto simp: is_digit_def)+
  have sg: "take 1 (c # cs) \<noteq> ''-''" "take 1 (c # cs) \<noteq> ''+''"
    using d(1) by (auto simp: is_digit_def)
  show ?thesis
    unfolding js_number_def Let_def js_trim_digits [OF digits_show_nat] two
    using no sg decimal_literal_show_nat [of n] by (simp only: s if_False list.distinct simp_thms)
qed

lemma prefix_of_show_nat [simp]: "p \<le> 32 \<Longrightarrow> prefix_of (show_nat p) = Some p"
  by (simp add: prefix_of_def)

lemma prefix_of_empty [simp]: "prefix_of [] = Some 0"
  by (simp add: prefix_of_def js_number_def js_trim_def)

text \<open>The text of an address, and its number.\<close>

definition dotted :: "nat \<times> nat \<times> nat \<times> nat \<Rightarrow> string" where
  "dotted ip = (case ip of (a, b, c, d) \<Rightarrow>
     show_nat a @ ''.'' @ show_nat b @ ''.'' @ show_nat c @ ''.'' @ show_nat d)"

definition octets :: "nat \<times> nat \<times> nat \<times> nat \<Rightarrow> bool" where
  "octets ip \<longleftrightarrow> (case ip of (a, b, c, d) \<Rightarrow> a < 256 \<and> b < 256 \<and> c < 256 \<and> d < 256)"

definition ip_value :: "nat \<times> nat \<times> nat \<times> nat \<Rightarrow> nat" where
  "ip_value ip = (case ip of (a, b, c, d) \<Rightarrow> ((a * 256 + b) * 256 + c) * 256 + d)"

lemma split_dotted: "split_on CHR ''.'' (dotted (a, b, c, d)) = [show_nat a, show_nat b, show_nat c, show_nat d]"
  by (simp add: dotted_def split_on_append split_on_plain)

lemma octet_step: "(push_bit 8 (word_of_nat n) + word_of_nat v :: 32 word) = word_of_nat (n * 256 + v)"
  by (simp add: push_bit_eq_mult)

lemma octets_int_show: "list_all (\<lambda>v. v < 256) vs \<Longrightarrow>
    octets_int (word_of_nat n) (map show_nat vs) = Some (word_of_nat (foldl (\<lambda>acc v. acc * 256 + v) n vs))"
proof (induction vs arbitrary: n)
  case (Cons v vs)
  then show ?case
    unfolding list.map octets_int.simps octet_step by (simp del: word_of_nat_eq_iff of_nat_add of_nat_mult)
qed simp

lemma ipToInt_dotted: "octets ip \<Longrightarrow> ipToInt (dotted ip) = Some (word_of_nat (ip_value ip))"
proof -
  assume o: "octets ip"
  obtain a b c d where ip: "ip = (a, b, c, d)" by (cases ip) auto
  have z: "(0 :: 32 word) = word_of_nat 0" by simp
  have m: "[show_nat a, show_nat b, show_nat c, show_nat d] = map show_nat [a, b, c, d]" by simp
  have v: "list_all (\<lambda>v. v < 256) [a, b, c, d]" using o by (simp add: octets_def ip)
  show ?thesis
    unfolding ip ipToInt_def split_dotted Let_def z m octets_int_show [OF v]
    by (simp add: ip_value_def)
qed

lemma ip_value_bound: "octets ip \<Longrightarrow> ip_value ip < 2 ^ 32"
  by (cases ip) (simp add: octets_def ip_value_def)

lemma uint_ip_value: "octets ip \<Longrightarrow> uint (word_of_nat (ip_value ip) :: 32 word) = int (ip_value ip)"
  unfolding unsigned_of_nat using take_bit_nat_eq_self [OF ip_value_bound] by simp

lemma slash_free_dotted: "CHR ''/'' \<notin> set (dotted ip)"
  by (cases ip) (simp add: dotted_def)

lemma and_mask_iff_drop_bit: "p \<le> 32 \<Longrightarrow> x AND block_mask p = y AND block_mask p \<longleftrightarrow> drop_bit (32 - p) x = drop_bit (32 - p) (y :: 32 word)"
proof -
  assume p: "p \<le> 32"
  have m: "block_mask p = push_bit (32 - p) (- 1)"
  proof -
    have "(word_of_int 0xffffffff :: 32 word) = - 1" by simp
    then show ?thesis unfolding block_mask_def by (simp only:)
  qed
  have a: "z AND push_bit n (- 1) = push_bit n (drop_bit n z)" for z :: "32 word" and n
    by (rule bit_word_eqI) (auto simp: bit_simps)
  have b: "drop_bit n (push_bit n (drop_bit n z)) = drop_bit n z" for z :: "32 word" and n
    by (rule bit_word_eqI) (auto simp: bit_simps dest: bit_imp_le_length)
  show ?thesis unfolding m a using b by metis
qed

lemma uint_drop_bit_div: "uint (drop_bit n (x :: 32 word)) = uint x div 2 ^ n"
  using uint_bounded [of x] unfolding unsigned_drop_bit_eq by (simp add: drop_bit_eq_div take_bit_int_eq_self)

lemma entry_parts_slash: "CHR ''/'' \<notin> set a \<Longrightarrow> CHR ''/'' \<notin> set b \<Longrightarrow> entry_parts (a @ CHR ''/'' # b) = Some (a, b)"
  by (simp add: entry_parts_def split_on_append split_on_plain)

text \<open>Claim C14. An allowlist entry \<open>address/prefix\<close> admits exactly the addresses of its block: those that agree with
  it in the bits above the host part, whatever the word arithmetic of the shifts and masks.\<close>

theorem cidr_entry_is_its_block:
  assumes "octets ip" "octets net" "p \<le> 32"
  shows "entryMatches (dotted ip) (dotted net @ ''/'' @ show_nat p) \<longleftrightarrow>
    ip_value ip div 2 ^ (32 - p) = ip_value net div 2 ^ (32 - p)"
proof -
  let ?x = "word_of_nat (ip_value ip) :: 32 word" and ?y = "word_of_nat (ip_value net) :: 32 word"
  have e: "entry_parts (dotted net @ ''/'' @ show_nat p) = Some (dotted net, show_nat p)"
    using entry_parts_slash [OF slash_free_dotted, of "show_nat p" net] by simp
  have z: "p = 0 \<or> ?x AND block_mask p = ?y AND block_mask p \<longleftrightarrow> drop_bit (32 - p) ?x = drop_bit (32 - p) ?y"
    using and_mask_iff_drop_bit [OF assms(3), of ?x ?y] by (auto intro!: bit_word_eqI simp: bit_simps dest: bit_imp_le_length)
  also have "\<dots> \<longleftrightarrow> int (ip_value ip) div 2 ^ (32 - p) = int (ip_value net) div 2 ^ (32 - p)"
    using uint_drop_bit_div uint_ip_value [OF assms(1)] uint_ip_value [OF assms(2)] by (metis word_uint_eq_iff)
  also have "\<dots> \<longleftrightarrow> ip_value ip div 2 ^ (32 - p) = ip_value net div 2 ^ (32 - p)"
    by (metis of_nat_eq_iff of_nat_numeral of_nat_power zdiv_int)
  finally show ?thesis
    unfolding entryMatches_def e
    by (simp add: prefix_of_show_nat [OF assms(3)] ipToInt_dotted [OF assms(1)] ipToInt_dotted [OF assms(2)])
qed

lemma cidr_entry_is_its_block_witness:
  "\<not> entryMatches (dotted (203, 0, 114, 1)) (dotted (203, 0, 113, 0) @ ''/'' @ show_nat 24)"
  using cidr_entry_is_its_block [of "(203, 0, 114, 1)" "(203, 0, 113, 0)" 24] by (simp add: octets_def ip_value_def)

text \<open>A block whose prefix is missing, as in \<open>203.0.113.0/\<close>, is a valid entry and admits every address:
  \<open>Number('')\<close> is zero.\<close>

lemma missing_prefix_admits_everyone:
  assumes "octets ip" "octets net"
  shows "isValidIpOrCidr (dotted net @ ''/'') \<and> matchesAllowlist (Some (dotted ip)) (Some [dotted net @ ''/''])"
proof -
  have e: "entry_parts (dotted net @ ''/'') = Some (dotted net, [])"
    using entry_parts_slash [OF slash_free_dotted, of "[]" net] by simp
  have m: "prefix_of [] = Some 0" by (rule prefix_of_empty)
  obtain a b c d where ip: "ip = (a, b, c, d)" by (cases ip) auto
  obtain x xs where s: "show_nat a = x # xs" by (cases "show_nat a") auto
  then have x: "is_digit x" using show_nat_digits [of a] by auto
  then have "x \<noteq> CHR '':''" by (auto simp: is_digit_def)
  then have n: "normalizeIp (dotted ip) = dotted ip"
    using digit_not_mark [OF x] by (simp add: normalizeIp_def ip dotted_def s lower_def)
  have l: "list_ex (entryMatches (dotted ip)) [dotted net @ ''/'']"
    unfolding list_ex_iff list.set bex_simps entryMatches_def e
    by (simp add: m ipToInt_dotted [OF assms(1)] ipToInt_dotted [OF assms(2)])
  have "dotted ip \<noteq> []" "dotted net @ ''/'' \<noteq> []" by (simp_all add: ip dotted_def)
  then show ?thesis
    unfolding isValidIpOrCidr_def matchesAllowlist_def e option.case list.case prod.case n m
      ipToInt_dotted [OF assms(2)]
    using l by simp
qed

lemma missing_prefix_admits_everyone_witness:
  "matchesAllowlist (Some (dotted (198, 51, 100, 7))) (Some [dotted (203, 0, 113, 0) @ ''/''])"
  using missing_prefix_admits_everyone [of "(198, 51, 100, 7)" "(203, 0, 113, 0)"] by (simp add: octets_def)

end
