(* ===== verification/AccessKeys.thy ===== *)
theory AccessKeys
  imports Accounts Cidr
begin

text \<open>
  What else services/auth-service hands out: API keys (api-key/api-key.service.ts, with the allowlists of Cidr), the
  JWT strategy and the role guard (jwt/jwt-strategy.ts, rbac), impersonation sessions (impersonation.service.ts) and
  invitations (invite/invite.service.ts, invite/registration.service.ts). The parsing of dates is left to the
  caller: an expiry is what \<open>new Date(text).getTime()\<close> yields, \<open>None\<close> for \<open>NaN\<close>.
\<close>

section \<open>API keys\<close>

record api_key =
  ak_id :: ident
  ak_clientId :: ident
  ak_projectId :: ident
  ak_keyPrefix :: string
  ak_keyHash :: string
  ak_scopes :: "string list"
  ak_ipAllowlist :: "string list option"
  ak_allowedChains :: "ident list option"
  ak_isActive :: bool
  ak_label :: "string option"
  ak_expiresAt :: "millis option"
  ak_lastUsedAt :: "millis option"
  ak_lastUsedIp :: "string option"
  ak_usageCount :: int
  ak_createdAt :: millis
  ak_revokedAt :: "millis option"

record key_options =
  ko_ipAllowlist :: "string list option"
  ko_allowedChains :: "ident list option"
  ko_label :: "string option"
  ko_expiresAt :: "millis option option"

record key_result =
  kr_id :: string
  kr_key :: string
  kr_prefix :: string
  kr_clientId :: ident
  kr_scopes :: "string list"
  kr_label :: "string option"
  kr_expiresAt :: "millis option"

record key_view =
  kv_id :: string
  kv_keyPrefix :: string
  kv_scopes :: "string list"
  kv_ipAllowlist :: "string list option"
  kv_allowedChains :: "ident list option"
  kv_label :: "string option"
  kv_expiresAt :: "millis option"
  kv_lastUsedAt :: "millis option"
  kv_usageCount :: int
  kv_createdAt :: millis

record key_validation =
  av_clientId :: ident
  av_projectId :: "ident option"
  av_scopes :: "string list"
  av_ipAllowlist :: "string list option"
  av_allowedChains :: "ident list option"

text \<open>The ids of an AUTO_INCREMENT column whose rows are never deleted.\<close>

definition next_id :: "ident list \<Rightarrow> ident" where
  "next_id ids = foldr max ids 0 + 1"

definition expiry_problem :: "millis \<Rightarrow> millis option option \<Rightarrow> string option" where
  "expiry_problem now expiresAt =
     (case expiresAt of
        None \<Rightarrow> None
      | Some None \<Rightarrow> Some ''expiresAt must be a valid ISO date''
      | Some (Some t) \<Rightarrow> if t \<le> now then Some ''expiresAt must be a future date'' else None)"

text \<open>\<open>raw\<close> is the random text of the key; absent scopes are \<open>['read']\<close>.\<close>

definition raw_key :: "string \<Rightarrow> string" where
  "raw_key raw = ''cvh_live_'' @ raw"

definition key_prefix :: "string \<Rightarrow> string" where
  "key_prefix raw = ''cvh_live_'' @ take 8 raw"

definition key_scopes :: "string list option \<Rightarrow> string list" where
  "key_scopes scopes = (case scopes of None \<Rightarrow> [''read''] | Some s \<Rightarrow> s)"

definition key_expiry :: "key_options \<Rightarrow> millis option" where
  "key_expiry opts = (case ko_expiresAt opts of None \<Rightarrow> None | Some t \<Rightarrow> t)"

definition new_key ::
    "auth_lib \<Rightarrow> millis \<Rightarrow> string \<Rightarrow> ident \<Rightarrow> ident \<Rightarrow> string list option \<Rightarrow> key_options \<Rightarrow> ident \<Rightarrow> api_key" where
  "new_key lib now raw clientId projectId scopes opts kid =
     \<lparr>ak_id = kid, ak_clientId = clientId, ak_projectId = projectId, ak_keyPrefix = key_prefix raw,
      ak_keyHash = sha256 lib (raw_key raw), ak_scopes = key_scopes scopes, ak_ipAllowlist = ko_ipAllowlist opts,
      ak_allowedChains = ko_allowedChains opts, ak_isActive = True, ak_label = ko_label opts,
      ak_expiresAt = key_expiry opts, ak_lastUsedAt = None, ak_lastUsedIp = None, ak_usageCount = 0,
      ak_createdAt = now, ak_revokedAt = None\<rparr>"

definition createApiKey ::
    "auth_lib \<Rightarrow> millis \<Rightarrow> string \<Rightarrow> ident \<Rightarrow> ident \<Rightarrow> string list option \<Rightarrow> key_options \<Rightarrow> api_key list
       \<Rightarrow> (error + key_result) \<times> api_key list" where
  "createApiKey lib now raw clientId projectId scopes opts rows =
     (case expiry_problem now (ko_expiresAt opts) of
        Some msg \<Rightarrow> (Inl (BadRequest msg), rows)
      | None \<Rightarrow>
          if list_ex (\<lambda>k. sql_eq (ak_keyHash k) (sha256 lib (raw_key raw))) rows then (Inl (InternalError ''P2002''), rows)
          else
            (let kid = next_id (map ak_id rows) in
             (Inr \<lparr>kr_id = show_int kid, kr_key = raw_key raw, kr_prefix = key_prefix raw, kr_clientId = clientId,
                   kr_scopes = key_scopes scopes, kr_label = ko_label opts, kr_expiresAt = key_expiry opts\<rparr>,
              rows @ [new_key lib now raw clientId projectId scopes opts kid])))"

definition key_view_of :: "api_key \<Rightarrow> key_view" where
  "key_view_of k =
     \<lparr>kv_id = show_int (ak_id k), kv_keyPrefix = ak_keyPrefix k, kv_scopes = ak_scopes k,
      kv_ipAllowlist = ak_ipAllowlist k, kv_allowedChains = ak_allowedChains k, kv_label = ak_label k,
      kv_expiresAt = ak_expiresAt k, kv_lastUsedAt = ak_lastUsedAt k, kv_usageCount = ak_usageCount k,
      kv_createdAt = ak_createdAt k\<rparr>"

definition listApiKeys :: "ident \<Rightarrow> api_key list \<Rightarrow> key_view list" where
  "listApiKeys clientId rows =
     map key_view_of (sort_key (\<lambda>k. - ak_createdAt k) (filter (\<lambda>k. ak_clientId k = clientId \<and> ak_isActive k) rows))"

definition revokeApiKey :: "millis \<Rightarrow> ident \<Rightarrow> api_key list \<Rightarrow> (error + unit) \<times> api_key list" where
  "revokeApiKey now keyId rows =
     (if list_ex (\<lambda>k. ak_id k = keyId) rows
      then (Inr (), update_where (\<lambda>k. ak_id k = keyId) (\<lambda>k. k\<lparr>ak_isActive := False, ak_revokedAt := Some now\<rparr>) rows)
      else (Inl (NotFound ''API key not found''), rows))"

definition count_use :: "millis \<Rightarrow> ident \<Rightarrow> string option \<Rightarrow> api_key list \<Rightarrow> api_key list" where
  "count_use now keyId requestIp rows =
     update_where (\<lambda>k. ak_id k = keyId)
       (\<lambda>k. k\<lparr>ak_lastUsedAt := Some now, ak_lastUsedIp := requestIp, ak_usageCount := ak_usageCount k + 1\<rparr>) rows"

text \<open>\<open>counted\<close>: whether the update of the usage, which nobody waits for, succeeds.\<close>

definition validateApiKey ::
    "auth_lib \<Rightarrow> millis \<Rightarrow> bool \<Rightarrow> string \<Rightarrow> string option \<Rightarrow> api_key list \<Rightarrow> key_validation option \<times> api_key list" where
  "validateApiKey lib now counted apiKey requestIp rows =
     (case find (\<lambda>k. sql_eq (ak_keyHash k) (sha256 lib apiKey)) rows of
        None \<Rightarrow> (None, rows)
      | Some k \<Rightarrow>
          if \<not> ak_isActive k then (None, rows)
          else if (case ak_expiresAt k of None \<Rightarrow> False | Some e \<Rightarrow> e < now) then (None, rows)
          else if \<not> matchesAllowlist requestIp (ak_ipAllowlist k) then (None, rows)
          else (Some \<lparr>av_clientId = ak_clientId k, av_projectId = (if ak_projectId k = 0 then None else Some (ak_projectId k)),
                      av_scopes = ak_scopes k, av_ipAllowlist = ak_ipAllowlist k, av_allowedChains = ak_allowedChains k\<rparr>,
                if counted then count_use now (ak_id k) requestIp rows else rows))"

section \<open>Guards of the service\<close>

record jwt_user =
  ju_userId :: string
  ju_email :: "string option"
  ju_role :: "string option"
  ju_clientId :: "string option"
  ju_clientRole :: "string option"

definition jwt_validate :: "claims \<Rightarrow> error + jwt_user" where
  "jwt_validate payload =
     (case or_null (jc_sub payload) of
        None \<Rightarrow> Inl (Unauthorized ''Invalid token payload'')
      | Some sub \<Rightarrow> Inr \<lparr>ju_userId = sub, ju_email = jc_email payload, ju_role = jc_role payload,
                         ju_clientId = jc_clientId payload, ju_clientRole = jc_clientRole payload\<rparr>)"

text \<open>\<open>AuthGuard('jwt')\<close> on the token of the Authorization header, if there is one.\<close>

definition jwt_guard :: "auth_lib \<Rightarrow> millis \<Rightarrow> string option \<Rightarrow> error + jwt_user" where
  "jwt_guard lib now token =
     (case token of
        None \<Rightarrow> Inl (Unauthorized ''Unauthorized'')
      | Some t \<Rightarrow> (case verify lib now t of None \<Rightarrow> Inl (Unauthorized ''Unauthorized'') | Some c \<Rightarrow> jwt_validate c))"

definition roles_guard :: "string list \<Rightarrow> jwt_user option \<Rightarrow> error + unit" where
  "roles_guard requiredRoles u =
     (if requiredRoles = [] then Inr ()
      else (case u of
              None \<Rightarrow> Inl (Forbidden ''No user in request'')
            | Some x \<Rightarrow>
                if list_ex (\<lambda>role. ju_role x = Some role \<or> ju_clientRole x = Some role) requiredRoles then Inr ()
                else Inl (Forbidden ''User lacks required role'')))"

definition admin_auth :: "auth_lib \<Rightarrow> millis \<Rightarrow> string list \<Rightarrow> string option \<Rightarrow> error + jwt_user" where
  "admin_auth lib now roles token =
     (case jwt_guard lib now token of
        Inl e \<Rightarrow> Inl e
      | Inr u \<Rightarrow> (case roles_guard roles (Some u) of Inl e \<Rightarrow> Inl e | Inr _ \<Rightarrow> Inr u))"

section \<open>Impersonation\<close>

record impersonation =
  im_id :: ident
  im_adminUserId :: ident
  im_targetClientId :: ident
  im_startedAt :: millis
  im_endedAt :: "millis option"
  im_ipAddress :: "string option"

text \<open>The columns of database/022-impersonation.sql, and those the \<open>INSERT\<close> of \<open>startSession\<close> names.\<close>

definition impersonation_columns :: "string list" where
  "impersonation_columns =
     [''id'', ''admin_user_id'', ''target_client_id'', ''target_project_id'', ''mode'', ''started_at'', ''ended_at'',
      ''ip_address'', ''user_agent'']"

definition start_columns :: "string list" where
  "start_columns = [''admin_user_id'', ''target_client_id'', ''ip_address'', ''reason'', ''started_at'']"

definition insert_row :: "string list \<Rightarrow> string list \<Rightarrow> 'r \<Rightarrow> 'r list \<Rightarrow> (error + unit) \<times> 'r list" where
  "insert_row columns named r rows =
     (if list_all (\<lambda>c. c \<in> set columns) named then (Inr (), rows @ [r])
      else (Inl (InternalError ''Unknown column''), rows))"

text \<open>
  The id the session is answered with is \<open>LAST_INSERT_ID()\<close> of whichever pooled connection serves the second query,
  \<open>other\<close> when it is not the one of the insertion.
\<close>

definition startSession ::
    "millis \<Rightarrow> ident option \<Rightarrow> ident \<Rightarrow> ident \<Rightarrow> string option \<Rightarrow> impersonation list
       \<Rightarrow> (error + string \<times> ident \<times> millis) \<times> impersonation list" where
  "startSession now other adminUserId targetClientId ip rows =
     (let sid = next_id (map im_id rows);
          row = \<lparr>im_id = sid, im_adminUserId = adminUserId, im_targetClientId = targetClientId, im_startedAt = now,
                 im_endedAt = None, im_ipAddress = ip\<rparr>
      in case insert_row impersonation_columns start_columns row rows of
           (Inl e, rows') \<Rightarrow> (Inl e, rows')
         | (Inr _, rows') \<Rightarrow>
             (Inr (show_int (case other of None \<Rightarrow> sid | Some x \<Rightarrow> x), targetClientId, now), rows'))"

definition validateSession :: "millis \<Rightarrow> string \<Rightarrow> impersonation list \<Rightarrow> error + impersonation" where
  "validateSession now sessionId rows =
     (case big_int sessionId of
        None \<Rightarrow> Inl (InternalError ''SyntaxError'')
      | Some n \<Rightarrow>
          (case find (\<lambda>r. im_id r = n \<and> im_endedAt r = None \<and> now - 4 * 3600000 < im_startedAt r) rows of
             None \<Rightarrow> Inl (NotFound ''Impersonation session not found, expired, or inactive'')
           | Some r \<Rightarrow> Inr r))"

definition endSession :: "millis \<Rightarrow> string \<Rightarrow> ident \<Rightarrow> impersonation list \<Rightarrow> (error + unit) \<times> impersonation list" where
  "endSession now sessionId adminUserId rows =
     (case big_int sessionId of
        None \<Rightarrow> (Inl (InternalError ''SyntaxError''), rows)
      | Some n \<Rightarrow>
          if list_ex (\<lambda>r. im_id r = n \<and> im_adminUserId r = adminUserId) rows
          then (Inr (), update_where (\<lambda>r. im_id r = n) (\<lambda>r. r\<lparr>im_endedAt := Some now\<rparr>) rows)
          else (Inl (NotFound ''Impersonation session not found''), rows))"

definition listSessions :: "nat \<Rightarrow> nat \<Rightarrow> ident option \<Rightarrow> impersonation list \<Rightarrow> impersonation list" where
  "listSessions page limit adminUserId rows =
     take limit (drop ((page - 1) * limit)
       (sort_key (\<lambda>r. - im_startedAt r)
         (filter (\<lambda>r. case adminUserId of None \<Rightarrow> True | Some a \<Rightarrow> im_adminUserId r = a) rows)))"

text \<open>The guard of the endpoint that starts a session, and its handler.\<close>

definition start_endpoint ::
    "auth_lib \<Rightarrow> millis \<Rightarrow> ident option \<Rightarrow> string option \<Rightarrow> ident \<Rightarrow> string option \<Rightarrow> impersonation list
       \<Rightarrow> (error + string \<times> ident \<times> millis) \<times> impersonation list" where
  "start_endpoint lib now other token targetClientId ip rows =
     (case admin_auth lib now [''super_admin'', ''admin''] token of
        Inl e \<Rightarrow> (Inl e, rows)
      | Inr u \<Rightarrow>
          (case big_int (ju_userId u) of
             None \<Rightarrow> (Inl (InternalError ''Incorrect integer value''), rows)
           | Some a \<Rightarrow> startSession now other a targetClientId ip rows))"

section \<open>Invitations\<close>

record invite =
  iv_id :: ident
  iv_email :: string
  iv_clientId :: ident
  iv_token :: string
  iv_expiresAt :: millis
  iv_usedAt :: "millis option"
  iv_createdAt :: millis

definition has_text :: "string \<Rightarrow> string \<Rightarrow> bool" where
  "has_text p s = list_ex (\<lambda>i. take (length p) (drop i s) = p) [0 ..< Suc (length s)]"

text \<open>The newest of the rows, as \<open>findFirst\<close> with a descending order returns it.\<close>

definition newest_invite :: "invite list \<Rightarrow> invite option" where
  "newest_invite rows = (case sort_key (\<lambda>r. - iv_createdAt r) rows of [] \<Rightarrow> None | r # _ \<Rightarrow> Some r)"

definition generateInvite ::
    "string \<Rightarrow> bool \<Rightarrow> millis \<Rightarrow> string \<Rightarrow> string \<Rightarrow> ident \<Rightarrow> invite list \<Rightarrow> (error + string \<times> string) \<times> invite list" where
  "generateInvite portalUrl production now raw email clientId rows =
     (if production \<and> has_text ''localhost'' portalUrl
      then (Inl (InternalError ''PORTAL_URL must be set to a public URL in production''), rows)
      else
        (let expiresAt = now + 48 * 3600000 in
         case newest_invite (filter (\<lambda>r. sql_eq (iv_email r) email \<and> iv_clientId r = clientId \<and> iv_usedAt r = None) rows) of
           Some r \<Rightarrow>
             (Inr (iv_token r, portalUrl @ ''/register?token='' @ iv_token r),
              update_where (\<lambda>x. iv_id x = iv_id r) (\<lambda>x. x\<lparr>iv_expiresAt := expiresAt\<rparr>) rows)
         | None \<Rightarrow>
             if list_ex (\<lambda>x. sql_eq (iv_token x) raw) rows then (Inl (InternalError ''P2002''), rows)
             else
               (Inr (raw, portalUrl @ ''/register?token='' @ raw),
                rows @ [\<lparr>iv_id = next_id (map iv_id rows), iv_email = email, iv_clientId = clientId, iv_token = raw,
                          iv_expiresAt = expiresAt, iv_usedAt = None, iv_createdAt = now\<rparr>])))"

definition validateToken :: "millis \<Rightarrow> string \<Rightarrow> invite list \<Rightarrow> error + invite" where
  "validateToken now token rows =
     (case find (\<lambda>r. sql_eq (iv_token r) token) rows of
        None \<Rightarrow> Inl (NotFound ''Invite token not found'')
      | Some r \<Rightarrow>
          if iv_expiresAt r < now then Inl (Gone ''Invite token has expired'')
          else if iv_usedAt r \<noteq> None then Inl (Conflict ''Invite token has already been used'')
          else Inr r)"

record registry =
  rg_auth :: auth
  rg_invites :: "invite list"

text \<open>Accepting an invitation: the checks, the transaction, the tokens; other requests may run between them.\<close>

definition accept_check :: "millis \<Rightarrow> string \<Rightarrow> registry \<Rightarrow> error + invite" where
  "accept_check now token rg =
     (case validateToken now token (rg_invites rg) of
        Inl e \<Rightarrow> Inl e
      | Inr r \<Rightarrow>
          (case find_email (iv_email r) (rg_auth rg) of
             Some _ \<Rightarrow> Inl (Conflict ''A user with this email already exists'')
           | None \<Rightarrow> Inr r))"

definition invited_user :: "auth_lib \<Rightarrow> invite \<Rightarrow> string \<Rightarrow> string \<Rightarrow> auth \<Rightarrow> user" where
  "invited_user lib r password name st =
     \<lparr>us_id = next_id (map us_id (au_users st)), us_email = iv_email r, us_passwordHash = bcrypt_hash lib password,
      us_name = name, us_role = RViewer, us_clientId = Some (iv_clientId r), us_clientRole = Some COwner,
      us_isActive = True, us_totpSecret = None, us_totpEnabled = False, us_lastLoginAt = None\<rparr>"

definition accept_create ::
    "auth_lib \<Rightarrow> millis \<Rightarrow> invite \<Rightarrow> string \<Rightarrow> string \<Rightarrow> registry \<Rightarrow> (error + user) \<times> registry" where
  "accept_create lib now r password name rg =
     (if find_email (iv_email r) (rg_auth rg) \<noteq> None
      then (Inl (Conflict ''A user with this email already exists''), rg)
      else
        (let u = invited_user lib r password name (rg_auth rg) in
         (Inr u, rg\<lparr>rg_auth := (rg_auth rg)\<lparr>au_users := au_users (rg_auth rg) @ [u]\<rparr>,
                    rg_invites := update_where (\<lambda>x. iv_id x = iv_id r) (\<lambda>x. x\<lparr>iv_usedAt := Some now\<rparr>) (rg_invites rg)\<rparr>)))"

definition acceptInvite ::
    "auth_lib \<Rightarrow> auth_config \<Rightarrow> auth_req \<Rightarrow> string \<Rightarrow> string \<Rightarrow> string \<Rightarrow> registry
       \<Rightarrow> (error + user \<times> token_pair) \<times> registry" where
  "acceptInvite lib cfg rq token password name rg =
     (case accept_check (rq_now rq) token rg of
        Inl e \<Rightarrow> (Inl e, rg)
      | Inr r \<Rightarrow>
          (case accept_create lib (rq_now rq) r password name rg of
             (Inl e, rg1) \<Rightarrow> (Inl e, rg1)
           | (Inr u, rg1) \<Rightarrow>
               (case issueTokenPair lib cfg rq u (rg_auth rg1) of
                  (Inl e, st) \<Rightarrow>
                    (Inl (ServiceUnavailable ''Account created but session could not be issued''), rg1\<lparr>rg_auth := st\<rparr>)
                | (Inr tokens, st) \<Rightarrow> (Inr (u, tokens), rg1\<lparr>rg_auth := st\<rparr>))))"

section \<open>A revoked key stays revoked\<close>

inductive key_step :: "auth_lib \<Rightarrow> api_key list \<Rightarrow> api_key list \<Rightarrow> bool" for lib where
  creates: "createApiKey lib now raw c p sc opts rows = (r, rows') \<Longrightarrow> key_step lib rows rows'"
| revokes: "revokeApiKey now kid rows = (r, rows') \<Longrightarrow> key_step lib rows rows'"
| validates: "validateApiKey lib now counted key ip rows = (r, rows') \<Longrightarrow> key_step lib rows rows'"

definition khash :: "api_key \<Rightarrow> string" where
  "khash k = lower (ak_keyHash k)"

definition keys_inv :: "api_key list \<Rightarrow> bool" where
  "keys_inv rows \<longleftrightarrow> distinct (map khash rows)"

text \<open>The key whose hash is \<open>h\<close> exists and is not active.\<close>

definition revoked :: "string \<Rightarrow> api_key list \<Rightarrow> bool" where
  "revoked h rows \<longleftrightarrow> (\<exists>k \<in> set rows. khash k = h \<and> \<not> ak_isActive k)"

lemma hash_taken: "list_ex (\<lambda>k. sql_eq (ak_keyHash k) h) rows \<longleftrightarrow> lower h \<in> khash ` set rows"
  unfolding list_ex_iff sql_eq_def khash_def image_iff by metis

lemma khash_new_key [simp]: "khash (new_key lib now raw c p sc opts kid) = lower (sha256 lib (raw_key raw))"
  by (simp add: khash_def new_key_def)

lemma createApiKey_rows: "createApiKey lib now raw c p sc opts rows = (r, rows') \<Longrightarrow>
    rows' = rows \<or> (\<exists>k. rows' = rows @ [k] \<and> khash k \<notin> khash ` set rows)"
  unfolding createApiKey_def Let_def hash_taken
  by (auto simp only: split: option.splits if_splits) (auto intro!: exI simp: khash_new_key)

lemma revokeApiKey_rows: "revokeApiKey now kid rows = (r, rows') \<Longrightarrow> rows' = rows \<or>
    rows' = update_where (\<lambda>k. ak_id k = kid) (\<lambda>k. k\<lparr>ak_isActive := False, ak_revokedAt := Some now\<rparr>) rows"
  by (auto simp: revokeApiKey_def split: if_splits)

lemma validateApiKey_rows: "validateApiKey lib now counted key ip rows = (r, rows') \<Longrightarrow>
    rows' = rows \<or> (\<exists>kid. rows' = count_use now kid ip rows)"
  by (auto simp: validateApiKey_def split: option.splits if_splits)

lemma revoked_update:
  "(\<And>k. khash (f k) = khash k) \<Longrightarrow> (\<And>k. ak_isActive (f k) \<Longrightarrow> ak_isActive k) \<Longrightarrow> revoked h rows \<Longrightarrow>
     revoked h (update_where p f rows)"
proof -
  assume f: "\<And>k. khash (f k) = khash k" "\<And>k. ak_isActive (f k) \<Longrightarrow> ak_isActive k" and "revoked h rows"
  then obtain k where k: "k \<in> set rows" "khash k = h" "\<not> ak_isActive k" by (auto simp: revoked_def)
  have "(if p k then f k else k) \<in> set (update_where p f rows)" using k(1) by (auto simp: set_update_where)
  moreover have "khash (if p k then f k else k) = h" "\<not> ak_isActive (if p k then f k else k)" using f k(2,3) by auto
  ultimately show ?thesis unfolding revoked_def by blast
qed

interpretation revoking: absorbing "\<lambda>rows. rows = []" "key_step lib" keys_inv "revoked h" for lib h
proof unfold_locales
  fix rows rows'
  assume i: "keys_inv rows" and s: "key_step lib rows rows'"
  from s show "keys_inv rows'"
  proof (cases rule: key_step.cases)
    case (creates now raw c p sc opts q)
    then show ?thesis using i createApiKey_rows [OF creates] by (auto simp: keys_inv_def)
  next
    case (revokes now kid q)
    then show ?thesis
      using i revokeApiKey_rows [OF revokes] by (auto simp: keys_inv_def map_update_where khash_def)
  next
    case (validates now counted key ip q)
    then show ?thesis
      using i validateApiKey_rows [OF validates] by (auto simp: keys_inv_def map_update_where khash_def count_use_def)
  qed
next
  fix rows rows'
  assume r: "revoked h rows" and s: "key_step lib rows rows'"
  from s show "revoked h rows'"
  proof (cases rule: key_step.cases)
    case (creates now raw c p sc opts q)
    then show ?thesis using r createApiKey_rows [OF creates] by (auto simp: revoked_def)
  next
    case (revokes now kid q)
    then show ?thesis
      using r revokeApiKey_rows [OF revokes] by (auto intro!: revoked_update simp: khash_def)
  next
    case (validates now counted key ip q)
    then show ?thesis
      using r validateApiKey_rows [OF validates] by (auto intro!: revoked_update simp: khash_def count_use_def)
  qed
qed (simp add: keys_inv_def)

lemma revoked_key_is_invalid:
  assumes "keys_inv rows" "revoked (lower (sha256 lib key)) rows"
  shows "fst (validateApiKey lib now counted key ip rows) = None"
proof -
  obtain k where k: "k \<in> set rows" "khash k = lower (sha256 lib key)" "\<not> ak_isActive k"
    using assms(2) by (auto simp: revoked_def)
  have "find (\<lambda>k. sql_eq (ak_keyHash k) (sha256 lib key)) rows = find (\<lambda>k. khash k = lower (sha256 lib key)) rows"
    by (simp add: khash_def sql_eq_def)
  also have "\<dots> = Some k"
    using assms(1) k by (simp add: keys_inv_def find_Some_iff_unique)
  finally show ?thesis using k(3) by (simp add: validateApiKey_def)
qed

lemma revocation_takes_effect:
  "k \<in> set rows \<Longrightarrow> ak_id k = kid \<Longrightarrow> revoked (khash k) (snd (revokeApiKey now kid rows))"
proof -
  assume k: "k \<in> set rows" "ak_id k = kid"
  let ?k = "k\<lparr>ak_isActive := False, ak_revokedAt := Some now\<rparr>"
  have "?k \<in> set (update_where (\<lambda>k. ak_id k = kid) (\<lambda>k. k\<lparr>ak_isActive := False, ak_revokedAt := Some now\<rparr>) rows)"
    using k by (auto simp: set_update_where)
  moreover have "list_ex (\<lambda>k. ak_id k = kid) rows" using k by (auto simp: list_ex_iff)
  ultimately show ?thesis
    unfolding revokeApiKey_def revoked_def by (intro bexI [of _ ?k]) (simp_all add: khash_def)
qed

text \<open>Once a key is revoked no request is accepted with it: from the moment of the revocation, whatever
  keys are created, revoked and checked, checking it fails at every time and from every address.\<close>

lemma revoked_keys_never_validate:
  assumes "(key_step lib)\<^sup>*\<^sup>* [] rows" "k \<in> set rows" "ak_keyHash k = sha256 lib key"
    "(key_step lib)\<^sup>*\<^sup>* (snd (revokeApiKey t (ak_id k) rows)) rows'"
  shows "fst (validateApiKey lib now counted key ip rows') = None"
proof -
  have i: "keys_inv rows" using revoking.inv_steps [OF assms(1)] by (simp add: keys_inv_def)
  have s: "key_step lib rows (snd (revokeApiKey t (ak_id k) rows))"
    by (rule revokes [where r = "fst (revokeApiKey t (ak_id k) rows)"]) simp
  then have i1: "keys_inv (snd (revokeApiKey t (ak_id k) rows))" using i revoking.inv_step by blast
  have r: "revoked (lower (sha256 lib key)) (snd (revokeApiKey t (ak_id k) rows))"
    using revocation_takes_effect [OF assms(2) refl, of t] assms(3) by (simp add: khash_def)
  show ?thesis
    by (rule revoked_key_is_invalid)
      (rule revoking.inv_steps [OF assms(4) i1], rule revoking.final_steps [OF assms(4) i1 r])
qed

section \<open>An invitation makes one account\<close>

text \<open>
  Acceptances in parts. \<open>ivm_checked\<close> holds the invitations whose checks have passed, \<open>ivm_accounts\<close> lists, in lower
  case, the address of every invitation that has made an account.
\<close>

record invite_state =
  ivm_registry :: registry
  ivm_checked :: "invite list"
  ivm_accounts :: "string list"

inductive invite_step :: "auth_lib \<Rightarrow> invite_state \<Rightarrow> invite_state \<Rightarrow> bool" for lib where
  invites: "generateInvite url inproduction now raw email c (rg_invites (ivm_registry m)) = (r, rows) \<Longrightarrow>
    invite_step lib m (m\<lparr>ivm_registry := (ivm_registry m)\<lparr>rg_invites := rows\<rparr>\<rparr>)"
| checks: "accept_check now token (ivm_registry m) = Inr r \<Longrightarrow>
    invite_step lib m (m\<lparr>ivm_checked := r # ivm_checked m\<rparr>)"
| accepts: "r \<in> set (ivm_checked m) \<Longrightarrow> accept_create lib now r password name (ivm_registry m) = (Inr u, rg) \<Longrightarrow>
    invite_step lib m (m\<lparr>ivm_registry := rg, ivm_checked := remove1 r (ivm_checked m),
      ivm_accounts := lower (iv_email r) # ivm_accounts m\<rparr>)"
| tokens_given: "issueTokenPair lib cfg rq u (rg_auth (ivm_registry m)) = (p, st) \<Longrightarrow>
    invite_step lib m (m\<lparr>ivm_registry := (ivm_registry m)\<lparr>rg_auth := st\<rparr>\<rparr>)"

definition emails :: "auth \<Rightarrow> string list" where
  "emails st = map (\<lambda>u. lower (us_email u)) (au_users st)"

definition invite_inv :: "invite_state \<Rightarrow> bool" where
  "invite_inv m \<longleftrightarrow> distinct (emails (rg_auth (ivm_registry m))) \<and> distinct (ivm_accounts m)
     \<and> set (ivm_accounts m) \<subseteq> set (emails (rg_auth (ivm_registry m)))"

lemma find_email_None: "find_email e st = None \<longleftrightarrow> lower e \<notin> set (emails st)"
  by (auto simp: find_email_def find_None_iff emails_def sql_eq_def image_iff)

lemma accept_create_Inr: "accept_create lib now r password name rg = (Inr u, rg') \<Longrightarrow>
    lower (iv_email r) \<notin> set (emails (rg_auth rg))
    \<and> emails (rg_auth rg') = emails (rg_auth rg) @ [lower (iv_email r)]"
  using find_email_None [of "iv_email r" "rg_auth rg"]
  by (auto simp: accept_create_def Let_def emails_def invited_user_def split: if_splits)

lemma issueTokenPair_emails: "issueTokenPair lib cfg rq u st = (p, st') \<Longrightarrow> emails st' = emails st"
  by (auto simp: issueTokenPair_def issueTokens_def create_session_def emails_def split: if_splits)

lemma invite_inv_step:
  assumes i: "invite_inv m" and s: "invite_step lib m m'"
  shows "invite_inv m'"
  using s
proof (cases rule: invite_step.cases)
  case (accepts r now password name u rg)
  then show ?thesis using accept_create_Inr [OF accepts(3)] i by (auto simp: invite_inv_def)
next
  case (tokens_given cfg rq u p st)
  then show ?thesis using issueTokenPair_emails [OF tokens_given(2)] i by (auto simp: invite_inv_def)
qed (use i in \<open>auto simp: invite_inv_def\<close>)

interpretation inviting: machine "\<lambda>m. au_users (rg_auth (ivm_registry m)) = [] \<and> ivm_accounts m = []"
    "invite_step lib" invite_inv for lib
  by unfold_locales (simp add: invite_inv_def emails_def, rule invite_inv_step)

text \<open>An invitation makes at most one account, and no two accounts share an address, however requests to
  accept it are interleaved: the checks alone would let two through, the unique address does not.\<close>

lemma invitation_makes_one_account:
  assumes "au_users (rg_auth (ivm_registry m)) = []" "ivm_accounts m = []" "(invite_step lib)\<^sup>*\<^sup>* m m'"
  shows "distinct (ivm_accounts m') \<and> distinct (emails (rg_auth (ivm_registry m')))"
  using inviting.inv_reachable [OF _ assms(3)] assms(1,2) by (simp add: invite_inv_def)

section \<open>Concrete instances\<close>

definition small_key_rows :: "api_key list" where
  "small_key_rows = snd (createApiKey plain_lib 0 ''k'' 3 5 None
     \<lparr>ko_ipAllowlist = None, ko_allowedChains = None, ko_label = None, ko_expiresAt = None\<rparr> [])"

definition small_key :: api_key where
  "small_key = new_key plain_lib 0 ''k'' 3 5 None
     \<lparr>ko_ipAllowlist = None, ko_allowedChains = None, ko_label = None, ko_expiresAt = None\<rparr> 1"

lemma small_key_fields [simp]:
  "ak_keyHash small_key = ''cvh_live_k''" "ak_isActive small_key" "ak_expiresAt small_key = None"
  "ak_ipAllowlist small_key = None" "ak_id small_key = 1" "small_key_rows = [small_key]"
  by (simp_all add: small_key_def small_key_rows_def createApiKey_def new_key_def raw_key_def expiry_problem_def
      key_expiry_def next_id_def)

lemma revoked_keys_never_validate_witness:
  "fst (validateApiKey plain_lib 9 True ''cvh_live_k'' None [small_key]) \<noteq> None
   \<and> fst (validateApiKey plain_lib 9 True ''cvh_live_k'' None (snd (revokeApiKey 5 1 [small_key]))) = None"
proof -
  have c: "(key_step plain_lib)\<^sup>*\<^sup>* [] [small_key]"
    using creates [of plain_lib 0 "''k''" 3 5 None
        "\<lparr>ko_ipAllowlist = None, ko_allowedChains = None, ko_label = None, ko_expiresAt = None\<rparr>" "[]" _ small_key_rows]
    by (metis prod.collapse r_into_rtranclp small_key_fields(6) small_key_rows_def)
  show ?thesis
    using revoked_keys_never_validate [OF c, of small_key "''cvh_live_k''" 5 _ 9 True None]
    by (simp add: validateApiKey_def matchesAllowlist_def)
qed

definition small_invite :: invite where
  "small_invite = \<lparr>iv_id = 1, iv_email = ''a@x.io'', iv_clientId = 3, iv_token = ''t'', iv_expiresAt = 10,
     iv_usedAt = None, iv_createdAt = 0\<rparr>"

definition small_inviting :: invite_state where
  "small_inviting = \<lparr>ivm_registry = \<lparr>rg_auth = small_auth\<lparr>au_users := []\<rparr>, rg_invites = [small_invite]\<rparr>,
     ivm_checked = [small_invite, small_invite], ivm_accounts = []\<rparr>"

lemma invitation_makes_one_account_witness:
  "\<exists>m. (invite_step plain_lib)\<^sup>*\<^sup>* small_inviting m \<and> length (ivm_accounts m) = 1 \<and> distinct (ivm_accounts m)"
proof -
  obtain u rg where c: "accept_create plain_lib 5 small_invite ''password'' ''A'' (ivm_registry small_inviting) = (Inr u, rg)"
    by (simp add: accept_create_def Let_def small_inviting_def small_auth_def find_email_def)
  let ?m = "small_inviting\<lparr>ivm_registry := rg, ivm_checked := remove1 small_invite (ivm_checked small_inviting),
      ivm_accounts := lower (iv_email small_invite) # ivm_accounts small_inviting\<rparr>"
  have "invite_step plain_lib small_inviting ?m"
    by (rule accepts [OF _ c]) (simp add: small_inviting_def)
  then have s: "(invite_step plain_lib)\<^sup>*\<^sup>* small_inviting ?m" by (rule r_into_rtranclp)
  have "au_users (rg_auth (ivm_registry small_inviting)) = []" "ivm_accounts small_inviting = []"
    by (simp_all add: small_inviting_def)
  from invitation_makes_one_account [OF this s] s show ?thesis
    by (intro exI [of _ ?m]) (simp add: small_inviting_def)
qed

end
