(* ===== verification/Portal.thy ===== *)
theory Portal
  imports Totp AccessKeys
begin

text \<open>
  The endpoints of services/auth-service (auth.controller.ts) as compositions of Accounts, Totp and AccessKeys:
  logging in with the counters, passwords and codes in the order of the code, the challenge that stands for a
  password already checked, the check of a bearer token, the second factor, and the API keys. The body of a request
  has passed its validation.
\<close>

section \<open>Logging in\<close>

datatype login_answer = LoggedIn user token_pair | NeedsCode string

definition ip_text :: "auth_req \<Rightarrow> string" where
  "ip_text rq = (case rq_ip rq of None \<Rightarrow> ''unknown'' | Some ip \<Rightarrow> ip)"

definition challenge_claims :: "ident \<Rightarrow> claims" where
  "challenge_claims uid =
     \<lparr>jc_sub = None, jc_userId = Some (show_int uid), jc_purpose = Some ''2fa_challenge'', jc_email = None,
      jc_role = None, jc_clientId = None, jc_clientRole = None\<rparr>"

definition complete_login ::
    "auth_lib \<Rightarrow> auth_config \<Rightarrow> auth_req \<Rightarrow> ident \<Rightarrow> auth \<Rightarrow> (error + login_answer) \<times> auth" where
  "complete_login lib cfg rq uid st =
     (case completeLoginAfter2fa lib cfg rq uid st of
        (Inl e, st1) \<Rightarrow> (Inl e, st1)
      | (Inr (u, tokens), st1) \<Rightarrow> (Inr (LoggedIn u tokens), st1))"

definition reset_attempts :: "auth_req \<Rightarrow> string \<Rightarrow> auth \<Rightarrow> auth" where
  "reset_attempts rq email st = st\<lparr>au_limits := resetLoginAttempts email (ip_text rq) (au_limits st)\<rparr>"

definition login_with_code ::
    "auth_lib \<Rightarrow> totp_lib \<Rightarrow> auth_config \<Rightarrow> auth_req \<Rightarrow> string \<Rightarrow> ident \<Rightarrow> string \<Rightarrow> auth \<Rightarrow> (error + login_answer) \<times> auth" where
  "login_with_code lib tp cfg rq email uid code st =
     (case validateCode tp (rq_now rq) uid code st of
        (Inl e, st1) \<Rightarrow> (Inl e, st1)
      | (Inr False, st1) \<Rightarrow> (Inl (Unauthorized ''Invalid TOTP code''), st1)
      | (Inr True, st1) \<Rightarrow> complete_login lib cfg rq uid (reset_attempts rq email st1))"

definition login_admitted ::
    "auth_lib \<Rightarrow> totp_lib \<Rightarrow> auth_config \<Rightarrow> auth_req \<Rightarrow> string \<Rightarrow> string \<Rightarrow> string option \<Rightarrow> auth \<Rightarrow> (error + login_answer) \<times> auth" where
  "login_admitted lib tp cfg rq email password totpCode st =
     (case login lib cfg rq email password st of
        (Inl e, st1) \<Rightarrow> (Inl e, st1)
      | (Inr r, st1) \<Rightarrow>
          if lr_requires2fa r
          then (case or_null totpCode of
                  Some code \<Rightarrow> login_with_code lib tp cfg rq email (us_id (lr_user r)) code st1
                | None \<Rightarrow> (Inr (NeedsCode (sign lib (rq_now rq) (challenge_claims (us_id (lr_user r))) 120)), st1))
          else (Inr (LoggedIn (lr_user r) (the (lr_tokens r))), reset_attempts rq email st1))"

definition login_endpoint ::
    "auth_lib \<Rightarrow> totp_lib \<Rightarrow> auth_config \<Rightarrow> auth_req \<Rightarrow> string \<Rightarrow> string \<Rightarrow> string option \<Rightarrow> auth \<Rightarrow> (error + login_answer) \<times> auth" where
  "login_endpoint lib tp cfg rq email password totpCode st =
     (case checkAndTrackLoginAttempt rq email (ip_text rq) (au_limits st) of
        (Inl e, s) \<Rightarrow> (Inl e, st\<lparr>au_limits := s\<rparr>)
      | (Inr _, s) \<Rightarrow> login_admitted lib tp cfg rq email password totpCode (st\<lparr>au_limits := s\<rparr>))"

definition verify2faChallenge ::
    "auth_lib \<Rightarrow> totp_lib \<Rightarrow> auth_config \<Rightarrow> auth_req \<Rightarrow> string \<Rightarrow> string \<Rightarrow> auth \<Rightarrow> (error + login_answer) \<times> auth" where
  "verify2faChallenge lib tp cfg rq challengeToken code st =
     (case verify lib (rq_now rq) challengeToken of
        None \<Rightarrow> (Inl (Unauthorized ''Invalid or expired challenge token''), st)
      | Some payload \<Rightarrow>
          if jc_purpose payload \<noteq> Some ''2fa_challenge''
          then (Inl (Unauthorized ''Invalid challenge token purpose''), st)
          else
            (case Option.bind (jc_userId payload) big_int of
               None \<Rightarrow> (Inl (InternalError ''SyntaxError''), st)
             | Some uid \<Rightarrow>
                 (case checkTotpAttempt rq (show_int uid) (au_limits st) of
                    (Inl e, s) \<Rightarrow> (Inl e, st\<lparr>au_limits := s\<rparr>)
                  | (Inr _, s) \<Rightarrow>
                      (case validateCode tp (rq_now rq) uid code (st\<lparr>au_limits := s\<rparr>) of
                         (Inl e, st1) \<Rightarrow> (Inl e, st1)
                       | (Inr False, st1) \<Rightarrow> (Inl (Unauthorized ''Invalid TOTP code''), st1)
                       | (Inr True, st1) \<Rightarrow> complete_login lib cfg rq uid st1))))"

section \<open>Checking a token\<close>

record user_view =
  vu_id :: ident
  vu_email :: string
  vu_name :: string
  vu_role :: string
  vu_clientId :: "ident option"
  vu_clientRole :: "string option"

definition bearer_token :: "string option \<Rightarrow> string option" where
  "bearer_token header =
     (case header of
        None \<Rightarrow> None
      | Some h \<Rightarrow> if take 7 h = ''Bearer '' then Some (drop 7 h) else None)"

definition user_view_of :: "claims \<Rightarrow> user \<Rightarrow> user_view" where
  "user_view_of payload u =
     \<lparr>vu_id = us_id u, vu_email = us_email u, vu_name = us_name u, vu_role = admin_role_text (us_role u),
      vu_clientId = (if us_clientId u = Some 0 then None else us_clientId u),
      vu_clientRole = (case us_clientRole u of Some r \<Rightarrow> Some (client_role_text r) | None \<Rightarrow> jc_clientRole payload)\<rparr>"

definition validate_endpoint :: "auth_lib \<Rightarrow> millis \<Rightarrow> string option \<Rightarrow> auth \<Rightarrow> error + user_view" where
  "validate_endpoint lib now header st =
     (case bearer_token header of
        None \<Rightarrow> Inl (Unauthorized ''Missing Bearer token'')
      | Some token \<Rightarrow>
          (case verify lib now token of
             None \<Rightarrow> Inl (Unauthorized ''Invalid or expired token'')
           | Some payload \<Rightarrow>
               (case Option.bind (case jc_userId payload of Some x \<Rightarrow> Some x | None \<Rightarrow> jc_sub payload) big_int of
                  None \<Rightarrow> Inl (Unauthorized ''Invalid or expired token'')
                | Some uid \<Rightarrow>
                    (case find_user uid st of
                       None \<Rightarrow> Inl (Unauthorized ''User not found'')
                     | Some u \<Rightarrow> Inr (user_view_of payload u)))))"

section \<open>The second factor\<close>

definition with_user :: "auth_lib \<Rightarrow> millis \<Rightarrow> string option \<Rightarrow> (ident \<Rightarrow> auth \<Rightarrow> (error + 'a) \<times> auth) \<Rightarrow> auth \<Rightarrow> (error + 'a) \<times> auth" where
  "with_user lib now token f st =
     (case jwt_guard lib now token of
        Inl e \<Rightarrow> (Inl e, st)
      | Inr u \<Rightarrow>
          (case big_int (ju_userId u) of
             None \<Rightarrow> (Inl (InternalError ''SyntaxError''), st)
           | Some uid \<Rightarrow> f uid st))"

definition setup2fa_endpoint ::
    "auth_lib \<Rightarrow> totp_lib \<Rightarrow> millis \<Rightarrow> secret_draws \<Rightarrow> string \<Rightarrow> string option \<Rightarrow> auth \<Rightarrow> (error + totp_setup) \<times> auth" where
  "setup2fa_endpoint lib tp now d secret token = with_user lib now token (setup2fa tp d secret)"

definition verify2fa_endpoint ::
    "auth_lib \<Rightarrow> totp_lib \<Rightarrow> millis \<Rightarrow> string \<Rightarrow> string option \<Rightarrow> auth \<Rightarrow> (error + bool) \<times> auth" where
  "verify2fa_endpoint lib tp now code token = with_user lib now token (\<lambda>uid. verify2fa tp now uid code)"

definition disable2fa_endpoint ::
    "auth_lib \<Rightarrow> totp_lib \<Rightarrow> millis \<Rightarrow> string \<Rightarrow> string \<Rightarrow> string option \<Rightarrow> auth \<Rightarrow> (error + unit) \<times> auth" where
  "disable2fa_endpoint lib tp now password code token =
     with_user lib now token (\<lambda>uid st.
       case find_user uid st of
         None \<Rightarrow> (Inl (Unauthorized ''User not found''), st)
       | Some u \<Rightarrow>
           if \<not> bcrypt_compare lib password (us_passwordHash u) then (Inl (Unauthorized ''Invalid password''), st)
           else disable2fa tp now uid code st)"

definition get2faStatus :: "ident \<Rightarrow> auth \<Rightarrow> error + bool" where
  "get2faStatus uid st =
     (case find_user uid st of
        None \<Rightarrow> Inl (NotFound ''User not found'')
      | Some u \<Rightarrow> Inr (us_totpEnabled u))"

definition get2faStatusByClient :: "ident \<Rightarrow> auth \<Rightarrow> bool" where
  "get2faStatusByClient cid st =
     (case find (\<lambda>u. us_clientId u = Some cid) (au_users st) of None \<Rightarrow> False | Some u \<Rightarrow> us_totpEnabled u)"

section \<open>API keys\<close>

definition createApiKey_endpoint ::
    "auth_lib \<Rightarrow> millis \<Rightarrow> string \<Rightarrow> string option \<Rightarrow> ident \<Rightarrow> ident \<Rightarrow> string list option \<Rightarrow> key_options \<Rightarrow> api_key list
       \<Rightarrow> (error + key_result) \<times> api_key list" where
  "createApiKey_endpoint lib now raw token clientId projectId scopes opts rows =
     (case admin_auth lib now [''super_admin'', ''admin'', ''owner''] token of
        Inl e \<Rightarrow> (Inl e, rows)
      | Inr _ \<Rightarrow> createApiKey lib now raw clientId projectId scopes opts rows)"

definition revokeApiKey_endpoint ::
    "auth_lib \<Rightarrow> millis \<Rightarrow> string option \<Rightarrow> ident \<Rightarrow> api_key list \<Rightarrow> (error + unit) \<times> api_key list" where
  "revokeApiKey_endpoint lib now token keyId rows =
     (case admin_auth lib now [''super_admin'', ''admin'', ''owner''] token of
        Inl e \<Rightarrow> (Inl e, rows)
      | Inr _ \<Rightarrow> revokeApiKey now keyId rows)"

text \<open>Whose keys a caller lists: an administrator names the client, anyone else gets their own, zero without one.\<close>

definition listed_client :: "jwt_user \<Rightarrow> string option \<Rightarrow> ident option" where
  "listed_client u query =
     (if ju_role u \<in> {Some ''super_admin'', Some ''admin''} \<and> or_null query \<noteq> None
      then parse_int (the query)
      else parse_int (case or_null (ju_clientId u) of None \<Rightarrow> ''0'' | Some c \<Rightarrow> c))"

definition listApiKeys_endpoint ::
    "auth_lib \<Rightarrow> millis \<Rightarrow> string option \<Rightarrow> string option \<Rightarrow> api_key list \<Rightarrow> error + key_view list" where
  "listApiKeys_endpoint lib now token query rows =
     (case jwt_guard lib now token of
        Inl e \<Rightarrow> Inl e
      | Inr u \<Rightarrow>
          (case listed_client u query of
             None \<Rightarrow> Inl (InternalError ''RangeError'')
           | Some c \<Rightarrow> Inr (listApiKeys c rows)))"

text \<open>
  \<open>ip\<close> of the body is accepted and not used: the address that counts is \<open>peer\<close>, the one the request came from, which
  is the service that asks.
\<close>

definition validateApiKey_endpoint ::
    "auth_lib \<Rightarrow> millis \<Rightarrow> bool \<Rightarrow> string option \<Rightarrow> string \<Rightarrow> string option \<Rightarrow> api_key list \<Rightarrow> key_validation option \<times> api_key list" where
  "validateApiKey_endpoint lib now counted peer apiKey ip rows = validateApiKey lib now counted apiKey peer rows"

section \<open>What a request touches\<close>

named_theorems limit_keys "the counters' keys are different"

lemma limit_keys_distinct [limit_keys, simp]:
  "emailKey e \<noteq> ipKey x" "emailKey e \<noteq> lockoutKey f" "emailKey e \<noteq> failuresKey f" "emailKey e \<noteq> totpKey u"
  "ipKey x \<noteq> emailKey e" "lockoutKey f \<noteq> emailKey e" "failuresKey f \<noteq> emailKey e" "totpKey u \<noteq> emailKey e"
  "lockoutKey f \<noteq> ipKey x" "ipKey x \<noteq> lockoutKey f" "lockoutKey f \<noteq> failuresKey g" "lockoutKey f \<noteq> totpKey u"
  "emailKey e = emailKey f \<longleftrightarrow> e = f" "lockoutKey e = lockoutKey f \<longleftrightarrow> e = f"
  by (simp_all add: emailKey_def ipKey_def lockoutKey_def failuresKey_def totpKey_def)

text \<open>Each frame is stated on the pair an operation returns, to be used by \<open>dest\<close>.\<close>

lemma bump_frame: "bump rq k secs s = (r, s') \<Longrightarrow> \<forall>k'. k' \<noteq> k \<longrightarrow> s' k' = s k'"
  using incr_other [of _ k "rq_now rq" s]
  by (auto simp: bump_def case_prod_beta split: if_splits)

lemma check_frame: "checkAndTrackLoginAttempt rq e ip s = (r, s') \<Longrightarrow> k \<noteq> ipKey ip \<Longrightarrow> k \<noteq> emailKey e \<Longrightarrow> s' k = s k"
  unfolding checkAndTrackLoginAttempt_def
  by (auto dest!: bump_frame split: prod.splits sum.splits if_splits)

lemma record_frame: "recordFailedLogin rq e s = (r, s') \<Longrightarrow> k \<noteq> failuresKey e \<Longrightarrow> k \<noteq> lockoutKey e \<Longrightarrow> s' k = s k"
  unfolding recordFailedLogin_def
  by (auto dest!: bump_frame split: prod.splits sum.splits if_splits)

lemma reset_other: "k \<noteq> ipKey ip \<Longrightarrow> k \<noteq> emailKey e \<Longrightarrow> k \<noteq> failuresKey e \<Longrightarrow> k \<noteq> lockoutKey e \<Longrightarrow>
    resetLoginAttempts e ip s k = s k"
  by (simp add: resetLoginAttempts_def)

text \<open>Passwords and flags of users are not changed by logging in.\<close>

definition passwords :: "auth \<Rightarrow> (ident \<times> string \<times> string) list" where
  "passwords st = map (\<lambda>u. (us_id u, us_email u, us_passwordHash u)) (au_users st)"

lemma passwords_simps [simp]: "passwords (touch_login uid now st) = passwords st"
  "passwords (st\<lparr>au_limits := s\<rparr>) = passwords st" "passwords (st\<lparr>au_codes := s\<rparr>) = passwords st"
  "passwords (st\<lparr>au_sessions := ss\<rparr>) = passwords st" "au_limits (touch_login uid now st) = au_limits st"
  by (simp_all add: passwords_def touch_login_def map_update_where)

lemma issue_frame: "issueTokens lib cfg rq u ip agent st = (r, st') \<Longrightarrow>
    au_limits st' = au_limits st \<and> passwords st' = passwords st"
  by (auto simp: issueTokens_def create_session_def split: if_splits)

lemma reject_frame: "reject_login rq e st = (r, st') \<Longrightarrow>
    passwords st' = passwords st \<and> (\<exists>q. recordFailedLogin rq e (au_limits st) = (q, au_limits st'))"
  by (auto simp: reject_login_def split: prod.splits sum.splits)

lemma login_frame: "login lib cfg rq e pw st = (r, st') \<Longrightarrow> passwords st' = passwords st
    \<and> (k \<noteq> failuresKey e \<longrightarrow> k \<noteq> lockoutKey e \<longrightarrow> au_limits st' k = au_limits st k)"
  unfolding login_def
  by (auto dest!: issue_frame reject_frame dest: record_frame [where k = k] split: option.splits prod.splits sum.splits if_splits)

lemma validate_frame: "validateCode tp now uid code st = (r, st') \<Longrightarrow>
    au_limits st' = au_limits st \<and> passwords st' = passwords st"
  by (auto simp: validateCode_def markCodeUsed_def split: sum.splits)

lemma complete_frame: "complete_login lib cfg rq uid st = (r, st') \<Longrightarrow>
    au_limits st' = au_limits st \<and> passwords st' = passwords st"
  unfolding complete_login_def completeLoginAfter2fa_def
  by (auto dest!: issue_frame split: option.splits prod.splits sum.splits if_splits)

lemma with_code_frame: "login_with_code lib tp cfg rq e uid code st = (r, st') \<Longrightarrow> passwords st' = passwords st
    \<and> (k \<noteq> ipKey (ip_text rq) \<longrightarrow> k \<noteq> emailKey e \<longrightarrow> k \<noteq> failuresKey e \<longrightarrow> k \<noteq> lockoutKey e \<longrightarrow>
          au_limits st' k = au_limits st k)"
  unfolding login_with_code_def
  by (auto dest!: validate_frame complete_frame simp: reset_attempts_def reset_other split: prod.splits sum.splits bool.splits)

lemma admitted_frame: "login_admitted lib tp cfg rq e pw code st = (r, st') \<Longrightarrow> passwords st' = passwords st
    \<and> (k \<noteq> ipKey (ip_text rq) \<longrightarrow> k \<noteq> emailKey e \<longrightarrow> k \<noteq> failuresKey e \<longrightarrow> k \<noteq> lockoutKey e \<longrightarrow>
          au_limits st' k = au_limits st k)"
  unfolding login_admitted_def
  by (auto dest!: login_frame [where k = k] with_code_frame [where k = k]
      simp: reset_attempts_def reset_other split: prod.splits sum.splits option.splits if_splits)

lemma endpoint_frame: "login_endpoint lib tp cfg rq e pw code st = (r, st') \<Longrightarrow> passwords st' = passwords st
    \<and> (k \<noteq> ipKey (ip_text rq) \<longrightarrow> k \<noteq> emailKey e \<longrightarrow> k \<noteq> failuresKey e \<longrightarrow> k \<noteq> lockoutKey e \<longrightarrow>
          au_limits st' k = au_limits st k)"
  unfolding login_endpoint_def
  by (auto dest!: admitted_frame [where k = k] dest: check_frame [where k = k] split: prod.splits sum.splits)

section \<open>Five attempts\<close>

record attempt =
  at_req :: auth_req
  at_email :: string
  at_password :: string
  at_code :: "string option"

definition attempt_login :: "auth_lib \<Rightarrow> totp_lib \<Rightarrow> auth_config \<Rightarrow> attempt \<Rightarrow> auth \<Rightarrow> (error + login_answer) \<times> auth" where
  "attempt_login lib tp cfg a st = login_endpoint lib tp cfg (at_req a) (at_email a) (at_password a) (at_code a) st"

text \<open>Whether the counters let an attempt through to the password.\<close>

definition reaches_password :: "attempt \<Rightarrow> auth \<Rightarrow> bool" where
  "reaches_password a st = is_ok (fst (checkAndTrackLoginAttempt (at_req a) (at_email a) (ip_text (at_req a)) (au_limits st)))"

fun guesses :: "auth_lib \<Rightarrow> totp_lib \<Rightarrow> auth_config \<Rightarrow> string \<Rightarrow> attempt list \<Rightarrow> auth \<Rightarrow> nat" where
  "guesses lib tp cfg e [] st = 0"
| "guesses lib tp cfg e (a # as) st =
     (if at_email a = e \<and> reaches_password a st then 1 else 0)
     + guesses lib tp cfg e as (snd (attempt_login lib tp cfg a st))"

text \<open>A wrong password for every account the spelling may find.\<close>

definition wrong_password :: "auth_lib \<Rightarrow> string \<Rightarrow> string \<Rightarrow> auth \<Rightarrow> bool" where
  "wrong_password lib e pw st \<longleftrightarrow> (\<forall>x \<in> set (passwords st). sql_eq (fst (snd x)) e \<longrightarrow> \<not> bcrypt_compare lib pw (snd (snd x)))"

lemma wrong_login:
  assumes "wrong_password lib e pw st" "login lib cfg rq e pw st = (r, st')"
  shows "\<not> is_ok r"
proof (cases "find_email e st")
  case None
  then show ?thesis using assms(2) by (auto simp: login_def reject_login_def split: prod.splits sum.splits)
next
  case (Some u)
  then have "sql_eq (us_email u) e" "u \<in> set (au_users st)"
    by (auto simp: find_email_def dest: find_SomeD)
  then have "\<not> bcrypt_compare lib pw (us_passwordHash u)"
    using assms(1) by (auto simp: wrong_password_def passwords_def)
  then show ?thesis
    using assms(2) Some by (auto simp: login_def reject_login_def split: prod.splits sum.splits if_splits)
qed

lemma wrong_admitted:
  assumes "wrong_password lib e pw st" "login_admitted lib tp cfg rq e pw code st = (r, st')"
  shows "au_limits st' (emailKey e) = au_limits st (emailKey e)"
proof -
  obtain q t where l: "login lib cfg rq e pw st = (q, t)" by (cases "login lib cfg rq e pw st")
  then have "\<not> is_ok q" using wrong_login [OF assms(1)] by blast
  then have "st' = t" using assms(2) l by (cases q) (auto simp: login_admitted_def)
  then show ?thesis using login_frame [OF l, of "emailKey e"] by simp
qed

text \<open>The count of a spelling in the five minutes before \<open>x\<close>: none is running, or it is at least \<open>n\<close> and
  alive until \<open>x\<close>.\<close>

definition counted_until :: "string \<Rightarrow> nat \<Rightarrow> millis \<Rightarrow> store \<Rightarrow> bool" where
  "counted_until e n x s \<longleftrightarrow> (n = 0 \<and> (\<forall>now \<ge> x - 300000. rget now s (emailKey e) = None))
     \<or> (\<exists>v. int n \<le> v \<and> 1 \<le> v \<and> alive_until s (emailKey e) (show_int v) x)"

lemma counted_cong: "s (emailKey e) = t (emailKey e) \<Longrightarrow> counted_until e n x s \<Longrightarrow> counted_until e n x t"
  using rget_cong [of s "emailKey e" t] by (simp add: counted_until_def alive_until_def)

lemma counted_le: "counted_until e n x s \<Longrightarrow> m \<le> n \<Longrightarrow> counted_until e m x s"
  unfolding counted_until_def by force

lemma bump_counts:
  assumes "counted_until e n x s" "rq_expire rq (emailKey e)" "x \<le> rq_now rq + 300000" "rq_now rq < x"
    "bump rq (emailKey e) 300 s = (r, s')"
  shows "counted_until e (Suc n) x s' \<and> (\<exists>v. r = Inr v \<and> int n < v)"
  using assms(1) [unfolded counted_until_def]
proof (elim disjE conjE exE)
  assume n: "n = 0" "\<forall>now \<ge> x - 300000. rget now s (emailKey e) = None"
  then have "rget (rq_now rq) s (emailKey e) = None" using assms(3) by simp
  then have "r = Inr 1 \<and> s' = s(emailKey e \<mapsto> (show_int 1, Some (rq_now rq + 300000)))"
    using assms(2,5) by (auto simp: bump_def incr_absent rexpire_def rget_def split: if_splits)
  then show ?thesis using n assms(3) by (auto simp: counted_until_def alive_until_def intro!: exI [of _ 1])
next
  fix v
  assume v: "int n \<le> v" "1 \<le> v" "alive_until s (emailKey e) (show_int v) x"
  note i = alive_incr [OF v(3) assms(4)]
  have "r = Inr (v + 1) \<and> s' = snd (rincr (rq_now rq) (emailKey e) s)"
    using assms(5) i(1) v(2) by (auto simp: bump_def split: prod.splits if_splits)
  then show ?thesis using i(2) v by (auto simp: counted_until_def intro!: exI [of _ "v + 1"])
qed

text \<open>One attempt under the spelling \<open>e\<close>, or under another.\<close>

definition honest_expiry :: "attempt \<Rightarrow> bool" where
  "honest_expiry a \<longleftrightarrow> (\<forall>k. rq_expire (at_req a) k)"

lemma check_counts:
  assumes "counted_until e n x s" "\<forall>k. rq_expire rq k" "x \<le> rq_now rq + 300000" "rq_now rq < x"
    "checkAndTrackLoginAttempt rq e ip s = (r, s')"
  shows "counted_until e (if is_ok r then Suc n else n) x s' \<and> (is_ok r \<longrightarrow> n < 5)"
proof (cases "rttl (rq_now rq) s (lockoutKey e) > 0")
  case True
  then show ?thesis using assms(1,5) by (auto simp: checkAndTrackLoginAttempt_def)
next
  case False
  obtain q s1 where b1: "bump rq (ipKey ip) 300 s = (q, s1)" by (cases "bump rq (ipKey ip) 300 s")
  have "s1 (emailKey e) = s (emailKey e)" using bump_frame [OF b1] by simp
  then have c1: "counted_until e n x s1" using counted_cong [OF _ assms(1), of s1] by simp
  obtain p s2 where b2: "bump rq (emailKey e) 300 s1 = (p, s2)" by (cases "bump rq (emailKey e) 300 s1")
  from bump_counts [OF c1 _ assms(3,4) b2] assms(2) obtain v where
    v: "counted_until e (Suc n) x s2" "p = Inr v" "int n < v" by blast
  have c2: "counted_until e n x s2" by (rule counted_le [OF v(1)]) simp
  show ?thesis
    using assms(5) False b1 b2 v c1 c2
    by (auto simp: checkAndTrackLoginAttempt_def split: sum.splits if_splits)
qed

lemma attempt_counts:
  assumes "counted_until e n x (au_limits st)" "honest_expiry a" "x \<le> rq_now (at_req a) + 300000" "rq_now (at_req a) < x"
    "at_email a = e \<longrightarrow> wrong_password lib e (at_password a) st" "attempt_login lib tp cfg a st = (r, st')"
  shows "counted_until e (if at_email a = e \<and> reaches_password a st then Suc n else n) x (au_limits st')
    \<and> (at_email a = e \<and> reaches_password a st \<longrightarrow> n < 5)"
proof (cases "at_email a = e")
  case False
  then have "au_limits st' (emailKey e) = au_limits st (emailKey e)"
    using endpoint_frame [OF assms(6) [unfolded attempt_login_def], of "emailKey e"] by simp
  then show ?thesis using False counted_cong [OF _ assms(1), of "au_limits st'"] by simp
next
  case True
  let ?rq = "at_req a"
  obtain q s where c: "checkAndTrackLoginAttempt ?rq e (ip_text ?rq) (au_limits st) = (q, s)"
    by (cases "checkAndTrackLoginAttempt ?rq e (ip_text ?rq) (au_limits st)")
  have rp: "reaches_password a st = is_ok q" using c True by (simp add: reaches_password_def)
  have k: "counted_until e (if is_ok q then Suc n else n) x s \<and> (is_ok q \<longrightarrow> n < 5)"
    using check_counts [OF assms(1) _ assms(3,4) c] assms(2) by (simp add: honest_expiry_def)
  have "au_limits st' (emailKey e) = s (emailKey e)"
  proof (cases q)
    case (Inl err)
    then show ?thesis using assms(6) c True by (auto simp: attempt_login_def login_endpoint_def)
  next
    case (Inr ok)
    have w: "wrong_password lib e (at_password a) (st\<lparr>au_limits := s\<rparr>)"
      using assms(5) True by (simp add: wrong_password_def)
    have "login_admitted lib tp cfg ?rq e (at_password a) (at_code a) (st\<lparr>au_limits := s\<rparr>) = (r, st')"
      using assms(6) c True Inr by (simp add: attempt_login_def login_endpoint_def)
    from wrong_admitted [OF w this] show ?thesis by simp
  qed
  then have "counted_until e (if is_ok q then Suc n else n) x (au_limits st')"
    using k counted_cong [of s e "au_limits st'"] by simp
  then show ?thesis using True k rp by simp
qed

lemma guesses_bounded:
  assumes "counted_until e n x (au_limits st)" "n \<le> 5"
    "\<forall>a \<in> set as. honest_expiry a \<and> x \<le> rq_now (at_req a) + 300000 \<and> rq_now (at_req a) < x"
    "\<forall>a \<in> set as. at_email a = e \<longrightarrow> wrong_password lib e (at_password a) st"
  shows "n + guesses lib tp cfg e as st \<le> 5"
  using assms
proof (induction as arbitrary: n st)
  case (Cons a as)
  obtain r st' where l: "attempt_login lib tp cfg a st = (r, st')" by (cases "attempt_login lib tp cfg a st")
  let ?n = "if at_email a = e \<and> reaches_password a st then Suc n else n"
  have c: "counted_until e ?n x (au_limits st')" "at_email a = e \<and> reaches_password a st \<longrightarrow> n < 5"
    using attempt_counts [OF Cons.prems(1) _ _ _ _ l] Cons.prems(3,4) by simp_all
  have p: "passwords st' = passwords st"
    using endpoint_frame [OF l [unfolded attempt_login_def]] by blast
  have "?n + guesses lib tp cfg e as st' \<le> 5"
    by (rule Cons.IH [OF c(1)]) (use c(2) Cons.prems p in \<open>auto simp: wrong_password_def\<close>)
  then show ?case using l by (auto split: if_splits)
qed simp

text \<open>A count that was running before: at least one more than the guesses made on it since. It takes at
  most four of them, and when it has run out a new count begins, which lives to the end of the five minutes.\<close>

definition running :: "string \<Rightarrow> nat \<Rightarrow> store \<Rightarrow> bool" where
  "running e g s \<longleftrightarrow> (\<exists>v d. s (emailKey e) = Some (show_int v, d) \<and> int g < v)"

lemma running_cong: "s (emailKey e) = t (emailKey e) \<Longrightarrow> running e g s \<Longrightarrow> running e g t"
  by (simp add: running_def)

lemma bump_running:
  assumes "running e g s" "rq_expire rq (emailKey e)" "x \<le> rq_now rq + 300000" "bump rq (emailKey e) 300 s = (r, s')"
  obtains v where "r = Inr v" "running e (Suc g) s'" "int g + 1 < v"
    | "r = Inr 1" "counted_until e 1 x s'"
proof (cases "rget (rq_now rq) s (emailKey e)")
  case None
  then have "r = Inr 1 \<and> s' = s(emailKey e \<mapsto> (show_int 1, Some (rq_now rq + 300000)))"
    using assms(2,4) by (auto simp: bump_def incr_absent rexpire_def rget_def split: if_splits)
  then show ?thesis
    using assms(3) by (auto simp: counted_until_def alive_until_def intro!: that(2) exI [of _ 1])
next
  case (Some w)
  obtain v d where v: "s (emailKey e) = Some (show_int v, d)" "int g < v" using assms(1) by (auto simp: running_def)
  then have "w = show_int v" using Some by (auto simp: rget_def split: option.splits if_splits)
  then have "r = Inr (v + 1) \<and> s' = s(emailKey e \<mapsto> (show_int (v + 1), d))"
    using assms(4) v Some by (auto simp: bump_def rincr_def count_of_def Let_def split: if_splits)
  then show ?thesis
    using v(2) by (intro that(1) [of "v + 1"]) (auto simp: running_def intro!: exI [of _ "v + 1"])
qed

lemma check_running:
  assumes "running e g s" "\<forall>k. rq_expire rq k" "x \<le> rq_now rq + 300000"
    "checkAndTrackLoginAttempt rq e ip s = (r, s')"
  shows "(running e (if is_ok r then Suc g else g) s' \<and> (is_ok r \<longrightarrow> g < 4))
    \<or> (counted_until e 1 x s' \<and> is_ok r)"
proof (cases "rttl (rq_now rq) s (lockoutKey e) > 0")
  case True
  then show ?thesis using assms(1,4) by (auto simp: checkAndTrackLoginAttempt_def)
next
  case False
  obtain q s1 where b1: "bump rq (ipKey ip) 300 s = (q, s1)" by (cases "bump rq (ipKey ip) 300 s")
  have "s1 (emailKey e) = s (emailKey e)" using bump_frame [OF b1] by simp
  then have c1: "running e g s1" using running_cong [OF _ assms(1), of s1] by simp
  obtain p s2 where b2: "bump rq (emailKey e) 300 s1 = (p, s2)" by (cases "bump rq (emailKey e) 300 s1")
  have exp: "rq_expire rq (emailKey e)" using assms(2) by simp
  have less: "running e g s2" if "running e (Suc g) s2" using that by (auto simp: running_def)
  show ?thesis
    by (rule bump_running [OF c1 exp assms(3) b2])
      (use assms(1,4) False b1 b2 c1 less in
        \<open>auto simp: checkAndTrackLoginAttempt_def split: sum.splits if_splits\<close>)
qed

lemma attempt_running:
  assumes "running e g (au_limits st)" "honest_expiry a" "x \<le> rq_now (at_req a) + 300000"
    "at_email a = e \<longrightarrow> wrong_password lib e (at_password a) st" "attempt_login lib tp cfg a st = (r, st')"
  shows "(running e (if at_email a = e \<and> reaches_password a st then Suc g else g) (au_limits st')
          \<and> (at_email a = e \<and> reaches_password a st \<longrightarrow> g < 4))
    \<or> (counted_until e 1 x (au_limits st') \<and> at_email a = e \<and> reaches_password a st)"
proof (cases "at_email a = e")
  case False
  then have "au_limits st' (emailKey e) = au_limits st (emailKey e)"
    using endpoint_frame [OF assms(5) [unfolded attempt_login_def], of "emailKey e"] by simp
  then show ?thesis using False running_cong [OF _ assms(1), of "au_limits st'"] by simp
next
  case True
  let ?rq = "at_req a"
  obtain q s where c: "checkAndTrackLoginAttempt ?rq e (ip_text ?rq) (au_limits st) = (q, s)"
    by (cases "checkAndTrackLoginAttempt ?rq e (ip_text ?rq) (au_limits st)")
  have rp: "reaches_password a st = is_ok q" using c True by (simp add: reaches_password_def)
  have k: "(running e (if is_ok q then Suc g else g) s \<and> (is_ok q \<longrightarrow> g < 4)) \<or> (counted_until e 1 x s \<and> is_ok q)"
    using check_running [OF assms(1) _ assms(3) c] assms(2) by (simp add: honest_expiry_def)
  have "au_limits st' (emailKey e) = s (emailKey e)"
  proof (cases q)
    case (Inl err)
    then show ?thesis using assms(5) c True by (auto simp: attempt_login_def login_endpoint_def)
  next
    case (Inr ok)
    have w: "wrong_password lib e (at_password a) (st\<lparr>au_limits := s\<rparr>)"
      using assms(4) True by (simp add: wrong_password_def)
    have "login_admitted lib tp cfg ?rq e (at_password a) (at_code a) (st\<lparr>au_limits := s\<rparr>) = (r, st')"
      using assms(5) c True Inr by (simp add: attempt_login_def login_endpoint_def)
    from wrong_admitted [OF w this] show ?thesis by simp
  qed
  then show ?thesis
    using k rp True running_cong [of s e "au_limits st'"] counted_cong [of s e "au_limits st'"] by auto
qed

lemma guesses_on_a_running_count:
  assumes "running e g (au_limits st)" "g \<le> 4"
    "\<forall>a \<in> set as. honest_expiry a \<and> x \<le> rq_now (at_req a) + 300000 \<and> rq_now (at_req a) < x"
    "\<forall>a \<in> set as. at_email a = e \<longrightarrow> wrong_password lib e (at_password a) st"
  shows "g + guesses lib tp cfg e as st \<le> 9"
  using assms
proof (induction as arbitrary: g st)
  case (Cons a as)
  obtain r st' where l: "attempt_login lib tp cfg a st = (r, st')" by (cases "attempt_login lib tp cfg a st")
  have p: "passwords st' = passwords st"
    using endpoint_frame [OF l [unfolded attempt_login_def]] by blast
  let ?g = "if at_email a = e \<and> reaches_password a st then Suc g else g"
  consider (same) "running e ?g (au_limits st')" "at_email a = e \<and> reaches_password a st \<longrightarrow> g < 4"
    | (fresh) "counted_until e 1 x (au_limits st')" "at_email a = e \<and> reaches_password a st"
    using attempt_running [OF Cons.prems(1) _ _ _ l, of x] Cons.prems(3,4) by auto
  then show ?case
  proof cases
    case same
    have "?g + guesses lib tp cfg e as st' \<le> 9"
      by (rule Cons.IH [OF same(1)]) (use same(2) Cons.prems p in \<open>auto simp: wrong_password_def\<close>)
    then show ?thesis using l by (auto split: if_splits)
  next
    case fresh
    have "1 + guesses lib tp cfg e as st' \<le> 5"
      by (rule guesses_bounded [OF fresh(1)]) (use Cons.prems p in \<open>auto simp: wrong_password_def\<close>)
    then show ?thesis using l fresh(2) Cons.prems(2) by auto
  qed
qed simp


section \<open>A count without an expiry\<close>

text \<open>Logins and answered challenges of anyone, at any time.\<close>

inductive portal_step :: "auth_lib \<Rightarrow> totp_lib \<Rightarrow> auth_config \<Rightarrow> auth \<Rightarrow> auth \<Rightarrow> bool" for lib tp cfg where
  attempts: "attempt_login lib tp cfg a st = (r, st') \<Longrightarrow> portal_step lib tp cfg st st'"
| challenges: "verify2faChallenge lib tp cfg rq token code st = (r, st') \<Longrightarrow> portal_step lib tp cfg st st'"

definition stuck :: "string \<Rightarrow> auth \<Rightarrow> bool" where
  "stuck e st \<longleftrightarrow> (\<exists>v. 5 \<le> v \<and> au_limits st (emailKey e) = Some (show_int v, None))"

lemma stuck_rcounts_cong: "au_limits st (emailKey e) = au_limits st' (emailKey e) \<Longrightarrow> stuck e st \<Longrightarrow> stuck e st'"
  by (simp add: stuck_def)

lemma bump_stuck:
  assumes "s (emailKey e) = Some (show_int v, None)" "5 \<le> v" "bump rq (emailKey e) 300 s = (r, s')"
  shows "r = Inr (v + 1) \<and> s' (emailKey e) = Some (show_int (v + 1), None)"
  using assms by (auto simp: bump_def rincr_def count_of_def rget_def Let_def split: if_splits)

lemma check_stuck:
  assumes "s (emailKey e) = Some (show_int v, None)" "5 \<le> v" "checkAndTrackLoginAttempt rq e ip s = (r, s')"
  shows "\<not> is_ok r \<and> (\<exists>w \<ge> 5. s' (emailKey e) = Some (show_int w, None))"
proof -
  obtain q s1 where b1: "bump rq (ipKey ip) 300 s = (q, s1)" by (cases "bump rq (ipKey ip) 300 s")
  then have s1: "s1 (emailKey e) = Some (show_int v, None)" using bump_frame [OF b1] assms(1) by simp
  obtain p s2 where b2: "bump rq (emailKey e) 300 s1 = (p, s2)" by (cases "bump rq (emailKey e) 300 s1")
  note b = bump_stuck [OF s1 assms(2) b2]
  have w: "\<exists>w \<ge> 5. s (emailKey e) = Some (show_int w, None)" "\<exists>w \<ge> 5. s1 (emailKey e) = Some (show_int w, None)"
    "\<exists>w \<ge> 5. s2 (emailKey e) = Some (show_int w, None)"
    using assms(1,2) s1 b by (auto intro!: exI [of _ v] exI [of _ "v + 1"])
  show ?thesis
    using assms(3) b1 b2 b w assms(2)
    by (auto simp: checkAndTrackLoginAttempt_def simp del: show_int_inject split: sum.splits if_splits)
qed

lemma challenge_frame: "verify2faChallenge lib tp cfg rq token code st = (r, st') \<Longrightarrow>
    au_limits st' (emailKey e) = au_limits st (emailKey e)"
  unfolding verify2faChallenge_def checkTotpAttempt_def
  by (auto dest!: bump_frame validate_frame complete_frame split: option.splits prod.splits sum.splits if_splits bool.splits)

lemma attempt_stuck:
  assumes "stuck e st" "attempt_login lib tp cfg a st = (r, st')"
  shows "stuck e st' \<and> (at_email a = e \<longrightarrow> \<not> is_ok r)"
proof (cases "at_email a = e")
  case False
  then show ?thesis
    using endpoint_frame [OF assms(2) [unfolded attempt_login_def], of "emailKey e"] stuck_rcounts_cong [OF _ assms(1), of st'] by simp
next
  case True
  obtain v where v: "5 \<le> v" "au_limits st (emailKey e) = Some (show_int v, None)" using assms(1) by (auto simp: stuck_def)
  obtain q s where c: "checkAndTrackLoginAttempt (at_req a) e (ip_text (at_req a)) (au_limits st) = (q, s)"
    by (cases "checkAndTrackLoginAttempt (at_req a) e (ip_text (at_req a)) (au_limits st)")
  note k = check_stuck [OF v(2,1) c]
  then obtain x where "q = Inl x" by (cases q) auto
  then have "r = Inl x \<and> st' = st\<lparr>au_limits := s\<rparr>"
    using assms(2) c True by (simp add: attempt_login_def login_endpoint_def)
  then show ?thesis using k by (auto simp: stuck_def)
qed

interpretation logging_in: absorbing "\<lambda>st. True" "portal_step lib tp cfg" "\<lambda>st. True" "stuck e" for lib tp cfg e
proof unfold_locales
  fix st st'
  assume f: "stuck e st" and s: "portal_step lib tp cfg st st'"
  from s show "stuck e st'"
  proof (cases rule: portal_step.cases)
    case (attempts a r)
    then show ?thesis using attempt_stuck [OF f] by blast
  next
    case (challenges rq token code r)
    then show ?thesis using stuck_rcounts_cong [OF challenge_frame [symmetric] f] by blast
  qed
qed simp_all

text \<open>How it comes about: the connection is lost after the first count, and the next four attempts fail.\<close>

lemma lost_expiry:
  assumes "s (emailKey e) = None" "\<not> rq_expire rq (emailKey e)" "bump rq (emailKey e) 300 s = (r, s')"
  shows "s' (emailKey e) = Some (show_int 1, None)"
  using assms by (auto simp: bump_def incr_absent rget_def split: if_splits)


section \<open>Other spellings\<close>

lemma absent_ttl: "s k = None \<Longrightarrow> rttl now s k = - 2"
  by (simp add: rttl_def rget_def)

lemma bump_absent: "s k = None \<Longrightarrow> rq_expire rq k \<Longrightarrow>
    bump rq k secs s = (Inr 1, s(k \<mapsto> (show_int 1, Some (rq_now rq + secs * 1000))))"
  by (simp add: bump_def incr_absent rexpire_def rget_def)

lemma check_absent:
  assumes "s (lockoutKey e) = None" "s (ipKey ip) = None" "s (emailKey e) = None" "\<forall>k. rq_expire rq k"
  shows "is_ok (fst (checkAndTrackLoginAttempt rq e ip s))"
  using assms by (simp add: checkAndTrackLoginAttempt_def absent_ttl bump_absent)

lemma right_password:
  assumes "find_email e st = Some u" "us_isActive u" "bcrypt_compare lib pw (us_passwordHash u)" "\<not> us_totpEnabled u"
    "\<forall>x \<in> set (au_sessions st). \<not> sql_eq (se_id x) (take 64 (td_sessionId (rq_draws rq)))"
  shows "\<exists>t st'. login lib cfg rq e pw st = (Inr \<lparr>lr_user = u, lr_tokens = Some t, lr_requires2fa = False\<rparr>, st')"
proof -
  have "\<not> list_ex (\<lambda>x. sql_eq (se_id x) (se_id (new_session lib cfg rq u (rq_ip rq) (rq_agent rq)))) (au_sessions st)"
    using assms(5) by (auto simp: list_ex_iff new_session_def)
  then show ?thesis using assms(1-4) by (simp add: login_def issueTokens_def create_session_def)
qed

text \<open>The limits bind a spelling, not an account: the database finds an address in any case, the counters
  are kept by the text of the request, so an account that is locked under one spelling is open under another.\<close>

lemma lockout_binds_one_spelling:
  assumes "find_email e st = Some u" "sql_eq e e'" "us_isActive u" "bcrypt_compare lib pw (us_passwordHash u)"
    "\<not> us_totpEnabled u" "rttl (rq_now rq) (au_limits st) (lockoutKey e) > 0"
    "au_limits st (lockoutKey e') = None" "au_limits st (emailKey e') = None" "au_limits st (ipKey (ip_text rq)) = None"
    "\<forall>k. rq_expire rq k"
    "\<forall>x \<in> set (au_sessions st). \<not> sql_eq (se_id x) (take 64 (td_sessionId (rq_draws rq)))"
  shows "fst (login_endpoint lib tp cfg rq e pw code st) = Inl (TooManyRequests ''Account temporarily locked'')
    \<and> (\<exists>t. fst (login_endpoint lib tp cfg rq e' pw code st) = Inr (LoggedIn u t))"
proof
  show "fst (login_endpoint lib tp cfg rq e pw code st) = Inl (TooManyRequests ''Account temporarily locked'')"
    using assms(6) by (simp add: login_endpoint_def checkAndTrackLoginAttempt_def)
  obtain s where c: "checkAndTrackLoginAttempt rq e' (ip_text rq) (au_limits st) = (Inr (), s)"
    using check_absent [OF assms(7,9,8,10)] by (cases "checkAndTrackLoginAttempt rq e' (ip_text rq) (au_limits st)") (auto simp: is_ok_def split: sum.splits)
  have f: "find_email e' (st\<lparr>au_limits := s\<rparr>) = Some u"
    using assms(1,2) by (simp add: find_email_def sql_eq_def)
  obtain t st' where "login lib cfg rq e' pw (st\<lparr>au_limits := s\<rparr>) =
      (Inr \<lparr>lr_user = u, lr_tokens = Some t, lr_requires2fa = False\<rparr>, st')"
    using right_password [OF f assms(3-5)] assms(11) by fastforce
  then show "\<exists>t. fst (login_endpoint lib tp cfg rq e' pw code st) = Inr (LoggedIn u t)"
    using c by (simp add: login_endpoint_def login_admitted_def)
qed

section \<open>Concrete instances\<close>

definition small_attempt :: "string \<Rightarrow> string \<Rightarrow> attempt" where
  "small_attempt e pw = \<lparr>at_req = plain_req 0 ''r'', at_email = e, at_password = pw, at_code = None\<rparr>"

lemma plain_req_fields [simp]: "rq_now (plain_req t x) = t" "rq_expire (plain_req t x) k" "rq_ip (plain_req t x) = Some ''198.51.100.7''"
  "td_sessionId (rq_draws (plain_req t x)) = x" "td_refreshToken (rq_draws (plain_req t x)) = x"
  by (simp_all add: plain_req_def)

lemma small_auth_fields [simp]: "au_users small_auth = [small_user]" "au_sessions small_auth = []" "au_limits small_auth = Map.empty"
  by (simp_all add: small_auth_def)


definition stuck_auth :: auth where
  "stuck_auth = small_auth\<lparr>au_limits := [emailKey ''a@x.io'' \<mapsto> (show_int 5, None)]\<rparr>"


definition locked_auth :: auth where
  "locked_auth = small_auth\<lparr>au_limits := [lockoutKey ''a@x.io'' \<mapsto> (''1'', Some 900000)]\<rparr>"

lemma lockout_binds_one_spelling_witness:
  "\<exists>t. fst (login_endpoint plain_lib plain_totp plain_cfg (plain_req 0 ''r'') ''A@x.io'' ''pw'' None locked_auth)
     = Inr (LoggedIn small_user t)"
proof -
  have f: "find_email ''a@x.io'' locked_auth = Some small_user" by (simp add: find_email_def locked_auth_def)
  have q: "sql_eq ''a@x.io'' ''A@x.io''" by code_simp
  show ?thesis
    using lockout_binds_one_spelling [OF f q, of plain_lib "''pw''" "plain_req 0 ''r''" plain_totp plain_cfg None]
    by (simp add: locked_auth_def rttl_def rget_def)
qed

end
