(* ===== verification/ClientGuards.thy ===== *)
theory ClientGuards
  imports Portal RateLimiter
begin

text \<open>
  What stands before the operations of services/client-api: the scopes (common/scopes/scope-catalog.ts), the guards
  that authenticate, limit and scope a request (common/guards), their composition (common/decorators.ts), and the
  self-service for API keys (api-key/api-key.service.ts). A call of auth-service is the function of Portal that
  serves it; \<open>net\<close> says whether the call arrives and is answered in time. JSON texts of the tiers arrive parsed.
\<close>

section \<open>Scopes\<close>

definition granular_scopes :: "string list" where
  "granular_scopes =
     [''wallets:read'', ''wallets:create'', ''forwarders:read'', ''forwarders:create'', ''forwarders:flush'',
      ''address-book:read'', ''address-book:write'', ''address-groups:read'', ''address-groups:write'',
      ''withdrawals:read'', ''withdrawals:hot'', ''withdrawals:gas-tank'', ''webhooks:read'', ''webhooks:write'',
      ''deposits:read'', ''tokens:read'', ''chains:read'', ''gas-tanks:read'', ''gas-tanks:write'', ''co-sign:read'',
      ''co-sign:write'', ''projects:read'', ''project-setup:read'', ''project-setup:write'', ''notifications:read'',
      ''notifications:write'', ''security:read'', ''security:write'', ''deploy-trace:read'', ''kb:read'', ''export:read'']"

definition ends_with :: "string \<Rightarrow> string \<Rightarrow> bool" where
  "ends_with p s = (length p \<le> length s \<and> drop (length s - length p) s = p)"

definition all_read_scopes :: "string list" where
  "all_read_scopes = filter (ends_with '':read'') granular_scopes"

definition legacy_write_scopes :: "string list" where
  "legacy_write_scopes =
     [''wallets:create'', ''forwarders:create'', ''forwarders:flush'', ''address-book:write'', ''address-groups:write'',
      ''webhooks:write'', ''gas-tanks:write'', ''co-sign:write'', ''project-setup:write'', ''notifications:write'',
      ''security:write'', ''export:read'']"

definition legacy_withdraw_scopes :: "string list" where
  "legacy_withdraw_scopes = [''withdrawals:hot'', ''withdrawals:gas-tank'']"

text \<open>
  \<open>LEGACY_ALIASES[s]\<close>: the three aliases, and the members every object inherits, which are not lists.
\<close>

datatype scope_alias = Expands "string list" | Inherited | NoAlias

definition inherited_members :: "string list" where
  "inherited_members =
     [''constructor'', ''__defineGetter__'', ''__defineSetter__'', ''hasOwnProperty'', ''__lookupGetter__'',
      ''__lookupSetter__'', ''isPrototypeOf'', ''propertyIsEnumerable'', ''toString'', ''valueOf'', ''__proto__'',
      ''toLocaleString'']"

definition legacy_alias :: "string \<Rightarrow> scope_alias" where
  "legacy_alias s =
     (if s = ''read'' then Expands all_read_scopes
      else if s = ''write'' then Expands legacy_write_scopes
      else if s = ''withdraw'' then Expands legacy_withdraw_scopes
      else if s \<in> set inherited_members then Inherited
      else NoAlias)"

text \<open>A set in insertion order; iterating over an inherited member throws.\<close>

definition add_scope :: "string \<Rightarrow> string list \<Rightarrow> string list" where
  "add_scope x out = (if x \<in> set out then out else out @ [x])"

fun expand_from :: "string list \<Rightarrow> string list \<Rightarrow> error + string list" where
  "expand_from [] out = Inr out"
| "expand_from (s # ss) out =
     (case legacy_alias s of
        Expands xs \<Rightarrow> expand_from ss (fold add_scope xs out)
      | Inherited \<Rightarrow> Inl (InternalError ''TypeError'')
      | NoAlias \<Rightarrow> expand_from ss (add_scope s out))"

definition expandLegacyScopes :: "string list option \<Rightarrow> error + string list" where
  "expandLegacyScopes scopes = (case scopes of None \<Rightarrow> Inr [] | Some ss \<Rightarrow> expand_from ss [])"

definition isKnownScope :: "string \<Rightarrow> bool" where
  "isKnownScope s = (s \<in> set granular_scopes \<or> legacy_alias s \<noteq> NoAlias)"

definition isGranularScope :: "string \<Rightarrow> bool" where
  "isGranularScope s = (s \<in> set granular_scopes)"

section \<open>Authentication\<close>

record headers =
  hd_apiKey :: "string option"
  hd_authorization :: "string option"
  hd_projectId :: "string option"

text \<open>What the guards attach to a request.\<close>

record req_context =
  cx_clientId :: ident
  cx_scopes :: "string list option"
  cx_allowedChains :: "ident list option"
  cx_projectId :: "ident option"
  cx_user :: "user_view option"

definition checkScopes :: "string list \<Rightarrow> string list option \<Rightarrow> error + unit" where
  "checkScopes requiredScopes userScopes =
     (if requiredScopes = [] then Inr ()
      else (case expandLegacyScopes userScopes of
              Inl e \<Rightarrow> Inl e
            | Inr expanded \<Rightarrow>
                if list_ex (\<lambda>s. s \<in> set expanded) requiredScopes then Inr () else Inl (Forbidden ''Insufficient scopes'')))"

definition mapRoleToScopes :: "string \<Rightarrow> string list" where
  "mapRoleToScopes role =
     (if role = ''owner'' then [''read'', ''write'', ''withdraw'', ''admin'']
      else if role = ''admin'' then [''read'', ''write'', ''withdraw'']
      else [''read''])"

text \<open>The state of auth-service, and one call of it.\<close>

record auth_service =
  as_auth :: auth
  as_keys :: "api_key list"

record call =
  ca_now :: millis
  ca_net :: bool
  ca_counted :: bool
  ca_gateway :: "string option"

text \<open>\<open>POST /auth/api-keys/validate\<close>: a call that fails counts as an invalid key. \<open>ca_gateway\<close> is this service's own address.\<close>

definition validateApiKey_call ::
    "auth_lib \<Rightarrow> call \<Rightarrow> string \<Rightarrow> string option \<Rightarrow> auth_service \<Rightarrow> key_validation option \<times> auth_service" where
  "validateApiKey_call lib c apiKey requestIp srv =
     (if \<not> ca_net c then (None, srv)
      else (case validateApiKey_endpoint lib (ca_now c) (ca_counted c) (ca_gateway c) apiKey requestIp (as_keys srv) of
              (v, rows) \<Rightarrow> (v, srv\<lparr>as_keys := rows\<rparr>)))"

definition authenticateWithApiKey ::
    "auth_lib \<Rightarrow> call \<Rightarrow> string list \<Rightarrow> string \<Rightarrow> string option \<Rightarrow> auth_service \<Rightarrow> (error + req_context) \<times> auth_service" where
  "authenticateWithApiKey lib c requiredScopes apiKey requestIp srv =
     (case validateApiKey_call lib c apiKey requestIp srv of
        (None, srv1) \<Rightarrow> (Inl (Unauthorized ''Invalid or expired API key''), srv1)
      | (Some v, srv1) \<Rightarrow>
          (case checkScopes requiredScopes (Some (av_scopes v)) of
             Inl e \<Rightarrow> (Inl e, srv1)
           | Inr _ \<Rightarrow>
               (Inr \<lparr>cx_clientId = av_clientId v, cx_scopes = Some (av_scopes v),
                     cx_allowedChains = av_allowedChains v, cx_projectId = av_projectId v, cx_user = None\<rparr>, srv1)))"

definition nonzero :: "ident option \<Rightarrow> ident option" where
  "nonzero x = (if x = Some 0 then None else x)"

text \<open>\<open>user.clientRole || user.role\<close>.\<close>

definition portal_role :: "user_view \<Rightarrow> string" where
  "portal_role u = (case or_null (vu_clientRole u) of Some r \<Rightarrow> r | None \<Rightarrow> vu_role u)"

definition authenticateWithJwt ::
    "auth_lib \<Rightarrow> call \<Rightarrow> string list \<Rightarrow> string \<Rightarrow> auth_service \<Rightarrow> error + req_context" where
  "authenticateWithJwt lib c requiredScopes authHeader srv =
     (if \<not> ca_net c then Inl (Unauthorized ''Invalid or expired JWT token'')
      else
        (case validate_endpoint lib (ca_now c) (Some (''Bearer '' @ drop 7 authHeader)) (as_auth srv) of
           Inl _ \<Rightarrow> Inl (Unauthorized ''Invalid or expired JWT token'')
         | Inr u \<Rightarrow>
             if vu_id u = 0 then Inl (Unauthorized ''Invalid JWT token'')
             else
               (case nonzero (vu_clientId u) of
                  None \<Rightarrow> Inl (Unauthorized ''JWT token does not have an associated client'')
                | Some clientId \<Rightarrow>
                    (let scopes = mapRoleToScopes (portal_role u) in
                     case checkScopes requiredScopes (Some scopes) of
                       Inl (Forbidden m) \<Rightarrow> Inl (Forbidden m)
                     | Inl (Unauthorized m) \<Rightarrow> Inl (Unauthorized m)
                     | Inl _ \<Rightarrow> Inl (Unauthorized ''Invalid or expired JWT token'')
                     | Inr _ \<Rightarrow>
                         Inr \<lparr>cx_clientId = clientId, cx_scopes = Some scopes, cx_allowedChains = None,
                              cx_projectId = None, cx_user = Some u\<rparr>))))"

definition apiKeyAuthGuard ::
    "auth_lib \<Rightarrow> call \<Rightarrow> string list \<Rightarrow> headers \<Rightarrow> string option \<Rightarrow> auth_service \<Rightarrow> (error + req_context) \<times> auth_service" where
  "apiKeyAuthGuard lib c requiredScopes h requestIp srv =
     (case or_null (hd_apiKey h) of
        Some apiKey \<Rightarrow> authenticateWithApiKey lib c requiredScopes apiKey requestIp srv
      | None \<Rightarrow>
          (case hd_authorization h of
             None \<Rightarrow> (Inl (Unauthorized ''Missing authentication''), srv)
           | Some a \<Rightarrow>
               if take 7 a = ''Bearer '' then (authenticateWithJwt lib c requiredScopes a srv, srv)
               else (Inl (Unauthorized ''Missing authentication''), srv)))"

definition jwtOnlyAuthGuard :: "auth_lib \<Rightarrow> call \<Rightarrow> headers \<Rightarrow> auth_service \<Rightarrow> error + req_context" where
  "jwtOnlyAuthGuard lib c h srv =
     (if or_null (hd_apiKey h) \<noteq> None
      then Inl (Unauthorized ''This endpoint requires portal session auth, not API key auth'')
      else
        (case bearer_token (hd_authorization h) of
           None \<Rightarrow> Inl (Unauthorized ''Missing portal session'')
         | Some token \<Rightarrow>
             if \<not> ca_net c then Inl (Unauthorized ''Invalid or expired session'')
             else
               (case validate_endpoint lib (ca_now c) (Some (''Bearer '' @ token)) (as_auth srv) of
                  Inl _ \<Rightarrow> Inl (Unauthorized ''Invalid or expired session'')
                | Inr u \<Rightarrow>
                    (case (vu_id u = 0, nonzero (vu_clientId u)) of
                       (False, Some clientId) \<Rightarrow>
                         Inr \<lparr>cx_clientId = clientId, cx_scopes = None, cx_allowedChains = None, cx_projectId = None,
                              cx_user = Some u\<rparr>
                     | _ \<Rightarrow> Inl (Unauthorized ''JWT does not identify a client portal user'')))))"

section \<open>The project of a request\<close>

record project_row =
  pj_id :: ident
  pj_clientId :: ident
  pj_name :: string
  pj_status :: string

text \<open>\<open>parseInt\<close> of a header, whose blanks the server has removed.\<close>

definition header_int :: "string \<Rightarrow> int option" where
  "header_int s = (if take 1 s = ''+'' then map_option int (parse_digits (drop 1 s)) else parse_int s)"

text \<open>\<open>trusted\<close>: a project the API key has already set is taken as it is.\<close>

definition projectScopeGuard :: "project_row list \<Rightarrow> headers \<Rightarrow> req_context \<Rightarrow> error + req_context" where
  "projectScopeGuard prows h cx =
     (if cx_clientId cx = 0 then Inl (Forbidden ''ProjectScopeGuard requires an authenticated client'')
      else if nonzero (cx_projectId cx) \<noteq> None then Inr cx
      else
        (case or_null (hd_projectId h) of
           Some header \<Rightarrow>
             (case header_int header of
                None \<Rightarrow> Inl (BadRequest ''X-Project-Id must be a numeric project ID'')
              | Some projectId \<Rightarrow>
                  (case find (\<lambda>p. pj_id p = projectId \<and> pj_clientId p = cx_clientId cx) prows of
                     None \<Rightarrow> Inl (Forbidden ''Project not found or does not belong to your client'')
                   | Some p \<Rightarrow>
                       if pj_status p \<noteq> ''active'' then Inl (Forbidden ''Project cannot be used'')
                       else Inr (cx\<lparr>cx_projectId := Some (pj_id p)\<rparr>)))
         | None \<Rightarrow>
             (case filter (\<lambda>p. pj_clientId p = cx_clientId cx \<and> sql_eq (pj_status p) ''active'') prows of
                [] \<Rightarrow> Inl (BadRequest ''No active projects found for your client'')
              | [p] \<Rightarrow> Inr (cx\<lparr>cx_projectId := Some (pj_id p)\<rparr>)
              | _ \<Rightarrow> Inl (BadRequest ''Multiple active projects found''))))"

section \<open>Limits of the tier\<close>

record tier_limits =
  tl_global :: int
  tl_endpoint :: "(string \<times> int) list"

text \<open>
  The row of the client's tier and its overrides. The tables' JSON texts are given as what \<open>JSON.parse\<close> makes of them,
  \<open>None\<close> where it throws; a later member of an object replaces an earlier one of the same name.
\<close>

datatype override = GlobalNumber string | EndpointJson "(string \<times> int) list option" | OtherOverride

record tier_row =
  tr_global :: "int option"
  tr_endpoint :: "(string \<times> int) list option"

definition default_limits :: tier_limits where
  "default_limits = \<lparr>tl_global = 100, tl_endpoint = []\<rparr>"

definition apply_override :: "override \<Rightarrow> tier_limits \<Rightarrow> tier_limits" where
  "apply_override ov l =
     (case ov of
        GlobalNumber t \<Rightarrow>
          (case parse_int t of
             Some n \<Rightarrow> if n > 0 then l\<lparr>tl_global := n\<rparr> else l
           | None \<Rightarrow> l)
      | EndpointJson (Some extra) \<Rightarrow> l\<lparr>tl_endpoint := extra @ tl_endpoint l\<rparr>
      | EndpointJson None \<Rightarrow> l
      | OtherOverride \<Rightarrow> l)"

text \<open>\<open>tier\<close> is the row of the client's tier; \<open>db\<close> says whether the queries succeed.\<close>

definition fetchLimitsFromDb :: "bool \<Rightarrow> tier_row option \<Rightarrow> override list \<Rightarrow> tier_limits" where
  "fetchLimitsFromDb db tier overrides =
     (if \<not> db then default_limits
      else
        (case tier of
           None \<Rightarrow> default_limits
         | Some t \<Rightarrow>
             fold apply_override overrides
               \<lparr>tl_global = (case tr_global t of None \<Rightarrow> 100 | Some n \<Rightarrow> n),
                tl_endpoint = (case tr_endpoint t of None \<Rightarrow> [] | Some m \<Rightarrow> m)\<rparr>))"

text \<open>The cache in Redis, five minutes; a cached text that does not parse is not there.\<close>

record tier_state =
  ti_cache :: "ident \<rightharpoonup> tier_limits \<times> millis"
  ti_windows :: "string \<rightharpoonup> zset"

definition getTierLimits ::
    "millis \<Rightarrow> bool \<Rightarrow> bool \<Rightarrow> tier_row option \<Rightarrow> override list \<Rightarrow> ident \<Rightarrow> tier_state \<Rightarrow> tier_limits \<times> tier_state" where
  "getTierLimits now db stored tier overrides clientId st =
     (case ti_cache st clientId of
        Some (l, e) \<Rightarrow>
          if now < e then (l, st)
          else (let l' = fetchLimitsFromDb db tier overrides in
                (l', if stored then st\<lparr>ti_cache := (ti_cache st)(clientId \<mapsto> (l', now + 300000))\<rparr> else st))
      | None \<Rightarrow>
          (let l' = fetchLimitsFromDb db tier overrides in
           (l', if stored then st\<lparr>ti_cache := (ti_cache st)(clientId \<mapsto> (l', now + 300000))\<rparr> else st)))"

text \<open>The script, which is the one of the gateway's limiter and answers with the count as well.\<close>

definition check_and_count ::
    "string \<Rightarrow> int \<Rightarrow> int \<Rightarrow> millis \<Rightarrow> string \<Rightarrow> (string \<rightharpoonup> zset) \<Rightarrow> (bool \<times> int) \<times> (string \<rightharpoonup> zset)" where
  "check_and_count key limit window now member w =
     (let zs = filter (recent window now) (live_members now w key);
          w' = put_members key zs w;
          count = int (length zs)
      in if count \<ge> limit then ((False, count), w')
         else ((True, count), w'(key \<mapsto> (zadd member now zs, now + window))))"

definition globalKey :: "ident \<Rightarrow> string" where
  "globalKey c = ''ratelimit:client:'' @ show_int c @ '':global''"

definition endpointKey :: "ident \<Rightarrow> string \<Rightarrow> string" where
  "endpointKey c route = ''ratelimit:client:'' @ show_int c @ '':ep:'' @ route"

record rate_headers =
  rh_limit :: int
  rh_remaining :: int
  rh_endpoint :: "(int \<times> int) option"
  rh_retryAfter :: "int option"

text \<open>
  One request of an authenticated client on the route \<open>route\<close>; \<open>rnd\<close> is the random part of the member. A limit of
  zero for an endpoint is falsy and not enforced.
\<close>

definition tierRateLimitGuard ::
    "millis \<Rightarrow> string \<Rightarrow> tier_limits \<Rightarrow> ident \<Rightarrow> string \<Rightarrow> tier_state \<Rightarrow> (error + unit) \<times> rate_headers \<times> tier_state" where
  "tierRateLimitGuard now rnd limits clientId route st =
     (let member = show_int now @ '':'' @ rnd in
      case check_and_count (globalKey clientId) (tl_global limits) 1000 now member (ti_windows st) of
        ((ok, count), w) \<Rightarrow>
          (let h = \<lparr>rh_limit = tl_global limits, rh_remaining = max 0 (tl_global limits - count - 1),
                    rh_endpoint = None, rh_retryAfter = None\<rparr>
           in if \<not> ok
              then (Inl (TooManyRequests ''Global rate limit exceeded''), h\<lparr>rh_retryAfter := Some 1\<rparr>, st\<lparr>ti_windows := w\<rparr>)
              else
                (case nonzero (map_of (tl_endpoint limits) route) of
                   None \<Rightarrow> (Inr (), h, st\<lparr>ti_windows := w\<rparr>)
                 | Some endpointLimit \<Rightarrow>
                     (case check_and_count (endpointKey clientId route) endpointLimit 60000 now member w of
                        ((epOk, epCount), w') \<Rightarrow>
                          if \<not> epOk
                          then (Inl (TooManyRequests ''Endpoint rate limit exceeded''),
                                h\<lparr>rh_limit := endpointLimit, rh_remaining := 0, rh_retryAfter := Some 60\<rparr>,
                                st\<lparr>ti_windows := w'\<rparr>)
                          else (Inr (), h\<lparr>rh_endpoint := Some (endpointLimit, max 0 (endpointLimit - epCount - 1))\<rparr>,
                                st\<lparr>ti_windows := w'\<rparr>)))))"

section \<open>Contracts ready on a chain\<close>

text \<open>The answer of core-wallet about a project's deployment: a status, which may be absent, an HTTP 404, or a failure.\<close>

datatype deploy_answer = DeployStatus "string option" | DeployNotFound | DeployFailed

type_synonym ready_cache = "ident \<times> ident \<rightharpoonup> string \<times> millis"

text \<open>\<open>Number(x)\<close> of the two ids; zero and \<open>NaN\<close> are falsy.\<close>

definition projectChainReadyGuard ::
    "millis \<Rightarrow> deploy_answer \<Rightarrow> ident option \<Rightarrow> ident option \<Rightarrow> ready_cache \<Rightarrow> (error + unit) \<times> ready_cache" where
  "projectChainReadyGuard now answer projectId chainId cache =
     (case (nonzero projectId, nonzero chainId) of
        (Some p, Some c) \<Rightarrow>
          if (case cache (p, c) of Some (s, e) \<Rightarrow> now < e \<and> s = ''ready'' | None \<Rightarrow> False) then (Inr (), cache)
          else
            (case answer of
               DeployNotFound \<Rightarrow> (Inl (Unprocessable ''project deployment not ready''), cache)
             | DeployFailed \<Rightarrow> (Inl (Unprocessable ''project deployment status check failed''), cache)
             | DeployStatus st \<Rightarrow>
                 (let s = (case st of None \<Rightarrow> ''unknown'' | Some x \<Rightarrow> x);
                      cache' = cache((p, c) \<mapsto> (s, now + 60000))
                  in if s \<noteq> ''ready'' then (Inl (Unprocessable ''project deployment not ready''), cache') else (Inr (), cache')))
      | _ \<Rightarrow> (Inl (Unprocessable ''projectId and chainId are required''), cache))"

section \<open>API keys by self-service\<close>

record key_input =
  ki_projectId :: ident
  ki_scopes :: "string list"
  ki_options :: key_options

text \<open>All projects of the client, whatever their status: the query of \<open>listProjects\<close> names none.\<close>

definition listProjects :: "ident \<Rightarrow> project_row list \<Rightarrow> project_row list" where
  "listProjects clientId prows = filter (\<lambda>p. pj_clientId p = clientId) prows"

definition createKey ::
    "auth_lib \<Rightarrow> call \<Rightarrow> string \<Rightarrow> project_row list \<Rightarrow> ident \<Rightarrow> key_input \<Rightarrow> auth_service \<Rightarrow> (error + key_result) \<times> auth_service" where
  "createKey lib c raw prows clientId input srv =
     (if \<not> list_all isGranularScope (ki_scopes input) then (Inl (BadRequest ''Unknown or non-granular scope''), srv)
      else if \<not> list_ex (\<lambda>p. pj_id p = ki_projectId input) (listProjects clientId prows)
      then (Inl (Forbidden ''Project does not belong to client''), srv)
      else if \<not> ca_net c then (Inl (InternalError ''Auth service unavailable''), srv)
      else (case createApiKey lib (ca_now c) raw clientId (ki_projectId input) (Some (ki_scopes input)) (ki_options input) (as_keys srv) of
              (r, rows) \<Rightarrow> (r, srv\<lparr>as_keys := rows\<rparr>)))"

text \<open>The rows auth-service answers with have no project id, so every name is \<open>null\<close>.\<close>

definition listKeys :: "call \<Rightarrow> ident \<Rightarrow> auth_service \<Rightarrow> error + (key_view \<times> string option) list" where
  "listKeys c clientId srv =
     (if \<not> ca_net c then Inl (InternalError ''Auth service unavailable'')
      else Inr (map (\<lambda>k. (k, None)) (listApiKeys clientId (as_keys srv))))"

definition revokeKey :: "call \<Rightarrow> ident \<Rightarrow> ident \<Rightarrow> auth_service \<Rightarrow> (error + unit) \<times> auth_service" where
  "revokeKey c clientId keyId srv =
     (case listKeys c clientId srv of
        Inl e \<Rightarrow> (Inl e, srv)
      | Inr ks \<Rightarrow>
          if \<not> list_ex (\<lambda>k. parse_int (kv_id (fst k)) = Some keyId) ks
          then (Inl (Forbidden ''API key does not belong to client''), srv)
          else (case revokeApiKey (ca_now c) keyId (as_keys srv) of (r, rows) \<Rightarrow> (r, srv\<lparr>as_keys := rows\<rparr>)))"

section \<open>The guards in a row\<close>

text \<open>\<open>ClientAuthWithProject\<close>: authentication, the limits of the tier, the project.\<close>

definition client_auth_with_project ::
    "auth_lib \<Rightarrow> call \<Rightarrow> string \<Rightarrow> tier_limits \<Rightarrow> string \<Rightarrow> project_row list \<Rightarrow> string list \<Rightarrow> headers \<Rightarrow> string option
       \<Rightarrow> auth_service \<times> tier_state \<Rightarrow> (error + req_context) \<times> auth_service \<times> tier_state" where
  "client_auth_with_project lib c rnd limits route prows requiredScopes h ip s =
     (case apiKeyAuthGuard lib c requiredScopes h ip (fst s) of
        (Inl e, srv) \<Rightarrow> (Inl e, srv, snd s)
      | (Inr cx, srv) \<Rightarrow>
          (case tierRateLimitGuard (ca_now c) rnd limits (cx_clientId cx) route (snd s) of
             (Inl e, _, t) \<Rightarrow> (Inl e, srv, t)
           | (Inr _, _, t) \<Rightarrow> (projectScopeGuard prows h cx, srv, t)))"

section \<open>The limits hold\<close>

lemma check_and_count_script: "check_and_count k l d now m w =
    ((fst (check_and_increment k l d now m w), int (length (filter (recent d now) (live_members now w k)))),
     snd (check_and_increment k l d now m w))"
  by (simp add: check_and_count_def check_and_increment_def Let_def)

record tier_request =
  tq_now :: millis
  tq_rnd :: string
  tq_route :: string

definition tq_member :: "tier_request \<Rightarrow> string" where
  "tq_member q = show_int (tq_now q) @ '':'' @ tq_rnd q"

text \<open>The requests of one client in the order they arrive; the accepted ones with their routes, newest first.\<close>

fun accepted :: "tier_limits \<Rightarrow> ident \<Rightarrow> tier_request list \<Rightarrow> (string \<times> string \<times> int) list \<Rightarrow> tier_state \<Rightarrow> (string \<times> string \<times> int) list" where
  "accepted limits c [] G st = G"
| "accepted limits c (q # qs) G st =
     (case tierRateLimitGuard (tq_now q) (tq_rnd q) limits c (tq_route q) st of
        (r, h, st') \<Rightarrow> accepted limits c qs (if is_ok r then (tq_route q, tq_member q, tq_now q) # G else G) st')"

definition on_route :: "string \<Rightarrow> (string \<times> string \<times> int) list \<Rightarrow> (string \<times> int) list" where
  "on_route r G = map snd (filter (\<lambda>g. fst g = r) G)"

lemma on_route_simps [simp]: "on_route r [] = []"
  "on_route r ((r', m) # G) = (if r' = r then m # on_route r G else on_route r G)"
  by (simp_all add: on_route_def)

lemma tier_keys [simp]: "globalKey c \<noteq> endpointKey c r" "endpointKey c r \<noteq> globalKey c"
  "endpointKey c r = endpointKey c r' \<longleftrightarrow> r = r'"
  by (simp_all add: globalKey_def endpointKey_def)

definition tier_inv :: "tier_limits \<Rightarrow> ident \<Rightarrow> string \<Rightarrow> int \<Rightarrow> (string \<times> int) list \<Rightarrow> (string \<times> string \<times> int) list \<Rightarrow> millis \<Rightarrow> tier_state \<Rightarrow> bool" where
  "tier_inv limits c r l S G now st \<longleftrightarrow>
     window_inv (tl_global limits) 1000 S now (ti_windows st) (globalKey c)
     \<and> window_inv l 60000 (on_route r G) now (ti_windows st) (endpointKey c r)
     \<and> (\<forall>P. length (filter P (map snd G)) \<le> length (filter P S))
     \<and> set (map snd G) \<subseteq> set S"

lemma on_route_subset: "set (on_route r G) \<subseteq> set (map snd G)"
  by (auto simp: on_route_def)

lemma tier_inv_step:
  assumes inv: "tier_inv limits c r l S G last_t st" and t: "last_t \<le> tq_now q"
    and fresh: "tq_member q \<notin> fst ` set S" and lim: "map_of (tl_endpoint limits) r = Some l" "l \<noteq> 0"
    and g: "tierRateLimitGuard (tq_now q) (tq_rnd q) limits c (tq_route q) st = (res, h, st')"
  shows "\<exists>S'. tier_inv limits c r l S' (if is_ok res then (tq_route q, tq_member q, tq_now q) # G else G) (tq_now q) st'
    \<and> (S' = S \<or> S' = (tq_member q, tq_now q) # S)"
proof -
  let ?m = "tq_member q" and ?now = "tq_now q" and ?w = "ti_windows st" and ?gk = "globalKey c" and ?ek = "endpointKey c (tq_route q)"
  obtain ok w where a: "check_and_increment ?gk (tl_global limits) 1000 ?now ?m ?w = (ok, w)"
    by (cases "check_and_increment ?gk (tl_global limits) 1000 ?now ?m ?w")
  have S: "window_inv (tl_global limits) 1000 S ?now ?w ?gk" and E: "window_inv l 60000 (on_route r G) ?now ?w (endpointKey c r)"
    and cnt: "\<And>P. length (filter P (map snd G)) \<le> length (filter P S)" and sub: "set (map snd G) \<subseteq> set S"
    using inv window_inv_later [OF _ t] by (auto simp: tier_inv_def)
  have S1: "window_inv (tl_global limits) 1000 (if ok then (?m, ?now) # S else S) ?now w ?gk"
    using window_inv_check [OF S _ fresh] a by simp
  have E1: "window_inv l 60000 (on_route r G) ?now w (endpointKey c r)"
    using window_inv_other [OF _ E, of ?gk "tl_global limits" 1000 ?now ?m] a by simp
  note guard = g [unfolded tierRateLimitGuard_def Let_def check_and_count_script tq_member_def [symmetric] a fst_conv snd_conv prod.case]
  consider (no) "\<not> ok" | (free) "ok" "nonzero (map_of (tl_endpoint limits) (tq_route q)) = None"
    | (ep) el where "ok" "nonzero (map_of (tl_endpoint limits) (tq_route q)) = Some el"
    by (cases "nonzero (map_of (tl_endpoint limits) (tq_route q))") auto
  then show ?thesis
  proof cases
    case no
    then have "\<not> is_ok res" "ti_windows st' = w" using guard by auto
    then show ?thesis using S1 E1 cnt sub no by (intro exI [of _ S]) (simp add: tier_inv_def)
  next
    case free
    then have k: "is_ok res" "ti_windows st' = w" using guard by auto
    have "tq_route q \<noteq> r" using free lim by (auto simp: nonzero_def)
    then show ?thesis using S1 E1 cnt sub free k
      by (intro exI [of _ "(?m, ?now) # S"]) (auto simp: tier_inv_def intro: le_SucI)
  next
    case (ep el)
    obtain ok2 w2 where b: "check_and_increment ?ek el 60000 ?now ?m w = (ok2, w2)"
      by (cases "check_and_increment ?ek el 60000 ?now ?m w")
    have k: "is_ok res = ok2" "ti_windows st' = w2"
      using guard ep by (auto simp: check_and_count_script b tq_member_def [symmetric] split: if_splits)
    have S2: "window_inv (tl_global limits) 1000 ((?m, ?now) # S) ?now w2 ?gk"
      using window_inv_other [of ?gk ?ek "tl_global limits" 1000 "(?m, ?now) # S" ?now w el 60000 ?now ?m] S1 ep b by simp
    have E2: "window_inv l 60000 (if ok2 \<and> tq_route q = r then (?m, ?now) # on_route r G else on_route r G) ?now w2 (endpointKey c r)"
    proof (cases "tq_route q = r")
      case True
      then have "el = l" using ep lim by (simp add: nonzero_def split: if_splits)
      moreover have "?m \<notin> fst ` set (on_route r G)" using fresh image_mono [OF subset_trans [OF on_route_subset sub], of fst r] by blast
      ultimately show ?thesis using window_inv_check [OF E1, of ?m] b True by simp
    next
      case False
      then show ?thesis using window_inv_other [OF _ E1, of ?ek el 60000 ?now ?m] b by simp
    qed
    have c2: "length (filter P (map snd G)) \<le> length (filter P ((?m, ?now) # S))" for P
      using cnt [of P] by simp
    have "tier_inv limits c r l ((?m, ?now) # S) (if ok2 then (tq_route q, ?m, ?now) # G else G) ?now st'"
    proof (cases ok2)
      case True
      then show ?thesis using S2 E2 cnt sub k(2) by (auto simp: tier_inv_def)
    next
      case False
      then show ?thesis using S2 E2 c2 sub k(2) unfolding tier_inv_def by auto
    qed
    then show ?thesis using k(1) by auto
  qed
qed

lemma tier_inv_accepted:
  assumes "tier_inv limits c r l S G last_t st" "map_of (tl_endpoint limits) r = Some l" "l \<noteq> 0"
    "sorted (last_t # map tq_now qs)" "distinct (map tq_member qs)" "tq_member ` set qs \<inter> fst ` set S = {}"
  shows "\<exists>S' t' st'. tier_inv limits c r l S' (accepted limits c qs G st) t' st'"
  using assms
proof (induction qs arbitrary: S G last_t st)
  case (Cons q qs)
  obtain res h st' where g: "tierRateLimitGuard (tq_now q) (tq_rnd q) limits c (tq_route q) st = (res, h, st')"
    by (cases "tierRateLimitGuard (tq_now q) (tq_rnd q) limits c (tq_route q) st") auto
  have f: "tq_member q \<notin> fst ` set S" and t: "last_t \<le> tq_now q" using Cons.prems by auto
  from tier_inv_step [OF Cons.prems(1) t f Cons.prems(2,3) g] obtain S' where
    i: "tier_inv limits c r l S' (if is_ok res then (tq_route q, tq_member q, tq_now q) # G else G) (tq_now q) st'"
    and s: "S' = S \<or> S' = (tq_member q, tq_now q) # S" by blast
  have "tq_member ` set qs \<inter> fst ` set S' = {}" 
  proof (rule equals0I)
    fix x
    assume x: "x \<in> tq_member ` set qs \<inter> fst ` set S'"
    have "tq_member q \<notin> tq_member ` set qs" using Cons.prems(5) by simp
    then have "x \<noteq> tq_member q" using x by blast
    then have "x \<in> fst ` set S" using x s by auto
    then show False using x Cons.prems(6) by auto
  qed
  then show ?case
    using Cons.IH [OF i Cons.prems(2,3)] Cons.prems(4,5) g by simp
qed auto

text \<open>Claim C15. The limits of a tier hold: of the requests of one client, on whatever routes, whose times do not run
  backwards and whose members are distinct, at most the global limit are accepted in any second, and at most the limit
  of a route that has one in any minute.\<close>

theorem tier_limits_hold:
  assumes "map_of (tl_endpoint limits) r = Some l" "0 < l" "0 \<le> tl_global limits"
    "ti_windows st (globalKey c) = None" "ti_windows st (endpointKey c r) = None"
    "sorted (map tq_now qs)" "distinct (map tq_member qs)"
  shows "int (length (filter (in_interval 1000 t) (map snd (accepted limits c qs [] st)))) \<le> tl_global limits
    \<and> int (length (filter (in_interval 60000 t) (on_route r (accepted limits c qs [] st)))) \<le> l"
proof -
  define t0 where "t0 = (case qs of [] \<Rightarrow> 0 | q # _ \<Rightarrow> tq_now q)"
  have "tier_inv limits c r l [] [] t0 st"
    using assms(2-5) by (simp add: tier_inv_def window_inv_empty)
  moreover have "sorted (t0 # map tq_now qs)" using assms(6) by (cases qs) (auto simp: t0_def)
  ultimately obtain S t' st' where
    i: "tier_inv limits c r l S (accepted limits c qs [] st) t' st'"
    using tier_inv_accepted [OF _ assms(1) _ _ assms(7)] assms(2) by (metis Int_empty_right image_empty list.set(1) less_irrefl)
  let ?G = "accepted limits c qs [] st"
  have "int (length (filter (in_interval 1000 t) (map snd ?G))) \<le> int (length (filter (in_interval 1000 t) S))"
    using i unfolding tier_inv_def by simp
  also have "\<dots> \<le> tl_global limits" using i by (simp add: tier_inv_def window_inv_def)
  finally show ?thesis using i by (simp add: tier_inv_def window_inv_def)
qed

lemma tier_limits_hold_witness:
  "int (length (filter (in_interval 1000 5) (map snd (accepted \<lparr>tl_global = 2, tl_endpoint = [(''POST /w'', 1)]\<rparr> 3
      [\<lparr>tq_now = 1, tq_rnd = ''a'', tq_route = ''POST /w''\<rparr>, \<lparr>tq_now = 1, tq_rnd = ''b'', tq_route = ''POST /w''\<rparr>]
      [] \<lparr>ti_cache = Map.empty, ti_windows = Map.empty\<rparr>)))) \<le> (2 :: int)"
  using tier_limits_hold [of "\<lparr>tl_global = 2, tl_endpoint = [(''POST /w'', 1)]\<rparr>" "''POST /w''" 1
      "\<lparr>ti_cache = Map.empty, ti_windows = Map.empty\<rparr>" 3
      "[\<lparr>tq_now = 1, tq_rnd = ''a'', tq_route = ''POST /w''\<rparr>, \<lparr>tq_now = 1, tq_rnd = ''b'', tq_route = ''POST /w''\<rparr>]" 5]
  by (simp add: tq_member_def)

section \<open>The project of a request is the client's\<close>

text \<open>A request without a project of its key works on an active project of the authenticated client, or not
  at all; the project that a key brings along is not looked at again, whatever has become of it.\<close>

lemma request_works_on_an_own_active_project:
  assumes "projectScopeGuard prows h cx = Inr cx'"
  shows "cx_clientId cx' = cx_clientId cx \<and>
    (if nonzero (cx_projectId cx) = None
     then \<exists>p \<in> set prows. cx_projectId cx' = Some (pj_id p) \<and> pj_clientId p = cx_clientId cx \<and> sql_eq (pj_status p) ''active''
     else cx' = cx)"
proof (cases "or_null (hd_projectId h)")
  case (Some header)
  then show ?thesis
    using assms by (auto simp: projectScopeGuard_def dest!: find_SomeD split: if_splits option.splits)
next
  case None
  let ?L = "filter (\<lambda>p. pj_clientId p = cx_clientId cx \<and> sql_eq (pj_status p) ''active'') prows"
  show ?thesis
  proof (cases "nonzero (cx_projectId cx) = None")
    case True
    then obtain p where p: "?L = [p]" "cx' = cx\<lparr>cx_projectId := Some (pj_id p)\<rparr>"
      using assms None by (simp add: projectScopeGuard_def split: if_splits list.splits)
    then have "p \<in> set ?L" by simp
    then show ?thesis using p(2) True by auto
  next
    case False
    then show ?thesis using assms by (simp add: projectScopeGuard_def split: if_splits)
  qed
qed

definition own_project :: project_row where
  "own_project = \<lparr>pj_id = 5, pj_clientId = 3, pj_name = ''P'', pj_status = ''active''\<rparr>"

definition bare_context :: req_context where
  "bare_context = \<lparr>cx_clientId = 3, cx_scopes = None, cx_allowedChains = None, cx_projectId = None, cx_user = None\<rparr>"

lemma request_works_on_an_own_active_project_witness:
  "\<exists>p \<in> set [own_project]. Some 5 = Some (pj_id p) \<and> pj_clientId p = 3"
proof -
  have "projectScopeGuard [own_project] \<lparr>hd_apiKey = None, hd_authorization = None, hd_projectId = None\<rparr> bare_context
      = Inr (bare_context\<lparr>cx_projectId := Some 5\<rparr>)"
    by (simp add: projectScopeGuard_def own_project_def bare_context_def nonzero_def or_null_def)
  from request_works_on_an_own_active_project [OF this] show ?thesis
    by (simp add: bare_context_def nonzero_def)
qed

section \<open>Ways around\<close>

lemma withdraw_scopes [simp]:
  "checkScopes [''withdrawals:hot''] (Some (mapRoleToScopes ''owner'')) = Inr ()"
  "checkScopes [''withdrawals:hot''] (Some (mapRoleToScopes ''viewer'')) = Inl (Forbidden ''Insufficient scopes'')"
  "checkScopes [''withdrawals:hot''] (Some [''withdrawals:hot'']) = Inr ()"
  "isGranularScope ''withdrawals:hot''"
  by code_simp+

lemma signed_verifies: "jwt_ok lib \<Longrightarrow> now div 1000 < t div 1000 + ttl \<Longrightarrow> verify lib now (sign lib t c ttl) = Some c"
  by (simp add: jwt_ok_def)

lemma needs_codeD:
  assumes "login_endpoint lib tp cfg rq email pw code st = (Inr (NeedsCode tok), st')"
  shows "\<exists>u. find_email email st = Some u \<and> us_totpEnabled u \<and> bcrypt_compare lib pw (us_passwordHash u)
    \<and> tok = sign lib (rq_now rq) (challenge_claims (us_id u)) 120 \<and> au_users st' = au_users st"
proof -
  obtain s where a: "login_admitted lib tp cfg rq email pw code (st\<lparr>au_limits := s\<rparr>) = (Inr (NeedsCode tok), st')"
    using assms by (auto simp: login_endpoint_def split: prod.splits sum.splits)
  then obtain r st1 where l: "login lib cfg rq email pw (st\<lparr>au_limits := s\<rparr>) = (Inr r, st1)" and r: "lr_requires2fa r"
    and t: "tok = sign lib (rq_now rq) (challenge_claims (us_id (lr_user r))) 120" "st' = st1"
    by (auto simp: login_admitted_def login_with_code_def complete_login_def
        split: prod.splits sum.splits option.splits if_splits bool.splits)
  have "find_email email st = Some (lr_user r) \<and> us_totpEnabled (lr_user r)
      \<and> bcrypt_compare lib pw (us_passwordHash (lr_user r)) \<and> st1 = st\<lparr>au_limits := s\<rparr>"
    using l r by (auto simp: login_def find_email_def reject_login_def split: option.splits prod.splits sum.splits if_splits)
  then show ?thesis using t by auto
qed

text \<open>Claim C4. The password alone opens the portal: of an owner who has switched the second factor on, the challenge
  that a login without a code answers with is itself accepted as a bearer token for two minutes, and the request it
  comes with may withdraw. The check of a token takes any token the service signs.\<close>

theorem password_alone_opens_the_portal:
  assumes "jwt_ok lib" "login_endpoint lib tp cfg rq email pw code st = (Inr (NeedsCode tok), st')"
    "find_email email st = Some u" "find_user (us_id u) st = Some u" "us_id u \<noteq> 0" "us_clientId u = Some cid" "cid \<noteq> 0"
    "us_clientRole u = Some COwner" "ca_net c" "ca_now c div 1000 < rq_now rq div 1000 + 120"
  shows "\<exists>cx. apiKeyAuthGuard lib c [''withdrawals:hot'']
      \<lparr>hd_apiKey = None, hd_authorization = Some (''Bearer '' @ tok), hd_projectId = None\<rparr> ip \<lparr>as_auth = st', as_keys = rows\<rparr>
      = (Inr cx, \<lparr>as_auth = st', as_keys = rows\<rparr>) \<and> cx_clientId cx = cid"
proof -
  from needs_codeD [OF assms(2)] assms(3) have
    t: "tok = sign lib (rq_now rq) (challenge_claims (us_id u)) 120" and us: "au_users st' = au_users st" by auto
  have f: "find_user (us_id u) st' = Some u" using assms(4) us by (simp add: find_user_def)
  have v: "validate_endpoint lib (ca_now c) (Some (''Bearer '' @ tok)) st' = Inr (user_view_of (challenge_claims (us_id u)) u)"
    using signed_verifies [OF assms(1,10)] f
    by (simp add: validate_endpoint_def bearer_token_def t challenge_claims_def)
  have "authenticateWithJwt lib c [''withdrawals:hot''] (''Bearer '' @ tok) \<lparr>as_auth = st', as_keys = rows\<rparr> =
      Inr \<lparr>cx_clientId = cid, cx_scopes = Some (mapRoleToScopes ''owner''), cx_allowedChains = None, cx_projectId = None,
        cx_user = Some (user_view_of (challenge_claims (us_id u)) u)\<rparr>"
    using v assms(5-9)
    by (simp add: authenticateWithJwt_def user_view_of_def nonzero_def portal_role_def or_null_def Let_def)
  then show ?thesis by (simp add: apiKeyAuthGuard_def or_null_def)
qed

text \<open>A key just made, without an expiry and without an allowlist, passes the guard.\<close>

definition open_options :: key_options where
  "open_options = \<lparr>ko_ipAllowlist = None, ko_allowedChains = None, ko_label = None, ko_expiresAt = None\<rparr>"

lemma new_key_passes:
  assumes "\<not> list_ex (\<lambda>k. sql_eq (ak_keyHash k) (sha256 lib (raw_key raw))) rows" "ca_net c"
    "checkScopes required (Some sc) = Inr ()"
  shows "\<exists>k kr cx srv. createApiKey lib now raw cid pid (Some sc) open_options rows = (Inr kr, rows @ [k])
    \<and> kr_key kr = raw_key raw
    \<and> apiKeyAuthGuard lib c required \<lparr>hd_apiKey = Some (raw_key raw), hd_authorization = None, hd_projectId = None\<rparr> ip
        \<lparr>as_auth = st, as_keys = rows @ [k]\<rparr> = (Inr cx, srv) \<and> cx_clientId cx = cid"
proof -
  let ?k = "new_key lib now raw cid pid (Some sc) open_options (next_id (map ak_id rows))"
  let ?srv = "\<lparr>as_auth = st, as_keys = rows @ [?k]\<rparr>"
  have kf: "ak_keyHash ?k = sha256 lib (raw_key raw)" "ak_isActive ?k" "ak_expiresAt ?k = None" "ak_ipAllowlist ?k = None"
    "ak_scopes ?k = sc" "ak_clientId ?k = cid"
    by (simp_all add: new_key_def key_expiry_def open_options_def key_scopes_def)
  obtain kr where cr: "createApiKey lib now raw cid pid (Some sc) open_options rows = (Inr kr, rows @ [?k])" "kr_key kr = raw_key raw"
    using assms(1) by (auto simp: createApiKey_def expiry_problem_def open_options_def Let_def)
  have n: "find (\<lambda>k. sql_eq (ak_keyHash k) (sha256 lib (raw_key raw))) rows = None"
    using assms(1) by (simp add: find_None_iff list_ex_iff)
  have fnd: "find (\<lambda>k. sql_eq (ak_keyHash k) (sha256 lib (raw_key raw))) (rows @ [?k]) = Some ?k"
    by (simp add: find_append_None [OF n] kf)
  obtain v rows' where v: "validateApiKey lib (ca_now c) (ca_counted c) (raw_key raw) (ca_gateway c) (rows @ [?k]) = (Some v, rows')"
    "av_clientId v = cid" "av_scopes v = sc"
    unfolding validateApiKey_def fnd using kf by (simp add: matchesAllowlist_def)
  have g: "\<exists>cx srv. authenticateWithApiKey lib c required (raw_key raw) ip ?srv = (Inr cx, srv) \<and> cx_clientId cx = cid"
    using v assms(2,3) by (simp add: authenticateWithApiKey_def validateApiKey_call_def validateApiKey_endpoint_def)
  have "or_null (Some (raw_key raw)) = Some (raw_key raw)" by (simp add: or_null_def raw_key_def)
  then show ?thesis using cr g by (auto simp: apiKeyAuthGuard_def)
qed

text \<open>Claim C5. A role in one client is a role over all of them: the guard of the administrative endpoints compares the
  role a user has within a client with the administrators' roles, so an owner or administrator of one client makes a
  key for any other, and the key withdraws in the other's name.\<close>

theorem client_owners_make_keys_for_any_client:
  assumes "jwt_ok lib" "now div 1000 < t div 1000 + ttl" "us_clientRole u = Some COwner \<or> us_clientRole u = Some CAdmin"
    "us_id u \<noteq> 0" "\<not> list_ex (\<lambda>k. sql_eq (ak_keyHash k) (sha256 lib (raw_key raw))) rows" "ca_net c"
  shows "\<exists>k kr cx srv. createApiKey_endpoint lib now raw (Some (sign lib t (access_claims u) ttl)) victim pid
        (Some [''withdrawals:hot'']) open_options rows = (Inr kr, rows @ [k])
    \<and> apiKeyAuthGuard lib c [''withdrawals:hot''] \<lparr>hd_apiKey = Some (kr_key kr), hd_authorization = None, hd_projectId = None\<rparr> ip
        \<lparr>as_auth = st, as_keys = rows @ [k]\<rparr> = (Inr cx, srv) \<and> cx_clientId cx = victim"
proof -
  have "is_ok (admin_auth lib now [''super_admin'', ''admin'', ''owner''] (Some (sign lib t (access_claims u) ttl)))"
    using signed_verifies [OF assms(1,2)] assms(3)
    by (auto simp: admin_auth_def jwt_guard_def jwt_validate_def access_claims_def roles_guard_def or_null_def)
  then have "createApiKey_endpoint lib now raw (Some (sign lib t (access_claims u) ttl)) victim pid sc o' rows =
      createApiKey lib now raw victim pid sc o' rows" for sc o'
    by (simp add: createApiKey_endpoint_def is_ok_def split: sum.splits)
  then show ?thesis
    using new_key_passes [OF assms(5,6) withdraw_scopes(3), of now victim pid ip st] by metis
qed

text \<open>A viewer makes a key that withdraws: a portal session that may only read is refused a withdrawal, but the
  self-service asks for no role, and the key it makes for the viewer's own client is not refused.\<close>

lemma viewers_make_keys_that_withdraw:
  assumes "jwt_ok lib" "ca_now c div 1000 < t div 1000 + ttl" "find_user (us_id u) st = Some u" "us_id u \<noteq> 0"
    "us_clientId u = Some cid" "cid \<noteq> 0" "us_clientRole u = Some CViewer" "ca_net c"
    "\<not> list_ex (\<lambda>k. sql_eq (ak_keyHash k) (sha256 lib (raw_key raw))) rows" "p \<in> set prows" "pj_clientId p = cid"
  shows "let h = \<lparr>hd_apiKey = None, hd_authorization = Some (''Bearer '' @ sign lib t (access_claims u) ttl), hd_projectId = None\<rparr>;
             srv = \<lparr>as_auth = st, as_keys = rows\<rparr>
         in fst (apiKeyAuthGuard lib c [''withdrawals:hot''] h ip srv) = Inl (Forbidden ''Insufficient scopes'')
          \<and> (\<exists>cx kr srv' cx'. jwtOnlyAuthGuard lib c h srv = Inr cx
              \<and> createKey lib c raw prows (cx_clientId cx) \<lparr>ki_projectId = pj_id p, ki_scopes = [''withdrawals:hot''], ki_options = open_options\<rparr> srv
                  = (Inr kr, srv')
              \<and> fst (apiKeyAuthGuard lib c [''withdrawals:hot''] \<lparr>hd_apiKey = Some (kr_key kr), hd_authorization = None, hd_projectId = None\<rparr> ip srv')
                  = Inr cx' \<and> cx_clientId cx' = cid)"
proof -
  let ?tok = "sign lib t (access_claims u) ttl"
  let ?srv = "\<lparr>as_auth = st, as_keys = rows\<rparr>"
  let ?v = "user_view_of (access_claims u) u"
  have v: "validate_endpoint lib (ca_now c) (Some (''Bearer '' @ ?tok)) st = Inr ?v"
    using signed_verifies [OF assms(1,2)] assms(3) by (simp add: validate_endpoint_def bearer_token_def access_claims_def)
  have vf: "vu_id ?v = us_id u" "vu_clientId ?v = Some cid" "portal_role ?v = ''viewer''"
    using assms(5-7) by (simp_all add: user_view_of_def portal_role_def or_null_def)
  have f: "authenticateWithJwt lib c [''withdrawals:hot''] (''Bearer '' @ ?tok) ?srv = Inl (Forbidden ''Insufficient scopes'')"
    using v vf assms(4,6,8) by (simp add: authenticateWithJwt_def nonzero_def Let_def)
  have j: "jwtOnlyAuthGuard lib c \<lparr>hd_apiKey = None, hd_authorization = Some (''Bearer '' @ ?tok), hd_projectId = None\<rparr> ?srv =
      Inr \<lparr>cx_clientId = cid, cx_scopes = None, cx_allowedChains = None, cx_projectId = None, cx_user = Some ?v\<rparr>"
    using v vf assms(4,6,8) by (simp add: jwtOnlyAuthGuard_def bearer_token_def nonzero_def or_null_def)
  obtain k kr cx srv where k: "createApiKey lib (ca_now c) raw cid (pj_id p) (Some [''withdrawals:hot'']) open_options rows = (Inr kr, rows @ [k])"
    "kr_key kr = raw_key raw"
    "apiKeyAuthGuard lib c [''withdrawals:hot''] \<lparr>hd_apiKey = Some (raw_key raw), hd_authorization = None, hd_projectId = None\<rparr> ip
        \<lparr>as_auth = st, as_keys = rows @ [k]\<rparr> = (Inr cx, srv)" "cx_clientId cx = cid"
    using new_key_passes [OF assms(9,8) withdraw_scopes(3), of "ca_now c" cid "pj_id p" ip st] by blast
  have o: "list_ex (\<lambda>q. pj_id q = pj_id p) (listProjects cid prows)"
    using assms(10,11) by (auto simp: listProjects_def list_ex_iff)
  have m: "createKey lib c raw prows cid \<lparr>ki_projectId = pj_id p, ki_scopes = [''withdrawals:hot''], ki_options = open_options\<rparr> ?srv
      = (Inr kr, \<lparr>as_auth = st, as_keys = rows @ [k]\<rparr>)"
    using o k(1) assms(8) by (simp add: createKey_def)
  show ?thesis
    unfolding Let_def using f j m k by (auto simp: apiKeyAuthGuard_def or_null_def)
qed

text \<open>The allowlist of a key is not asked about the caller: whether a key passes is the same for every address
  a request comes from, and depends on the address of the gateway; a key whose list does not name the gateway is
  refused everywhere, its own listed addresses included.\<close>

lemma allowlist_sees_only_the_gateway:
  "authenticateWithApiKey lib c required key ip srv = authenticateWithApiKey lib c required key ip' srv"
  "find (\<lambda>k. sql_eq (ak_keyHash k) (sha256 lib key)) (as_keys srv) = Some k \<Longrightarrow>
   \<not> matchesAllowlist (ca_gateway c) (ak_ipAllowlist k) \<Longrightarrow> matchesAllowlist (Some addr) (ak_ipAllowlist k) \<Longrightarrow>
   fst (authenticateWithApiKey lib c required key (Some addr) srv) = Inl (Unauthorized ''Invalid or expired API key'')"
  by (simp_all add: authenticateWithApiKey_def validateApiKey_call_def validateApiKey_endpoint_def validateApiKey_def)

section \<open>Concrete instances\<close>

definition small_call :: call where
  "small_call = \<lparr>ca_now = 5000, ca_net = True, ca_counted = True, ca_gateway = None\<rparr>"

lemma small_call_fields [simp]: "ca_now small_call = 5000" "ca_net small_call" "ca_gateway small_call = None"
  by (simp_all add: small_call_def)

lemma one_user_fields [simp]: "us_id one_user = 7" "us_clientId one_user = Some 3" "us_clientRole one_user = Some COwner"
  "us_isActive one_user" "us_passwordHash one_user = ''pw''" "us_email one_user = ''alice@x.io''"
  by (simp_all add: one_user_def)

lemma one_account_login:
  "\<exists>st. login_endpoint plain_lib plain_totp plain_cfg (plain_req 0 ''r'') ''alice@x.io'' ''pw'' None one_account
     = (Inr (NeedsCode (sign plain_lib 0 (challenge_claims 7) 120)), st)"
proof -
  obtain s where c: "checkAndTrackLoginAttempt (plain_req 0 ''r'') ''alice@x.io'' (ip_text (plain_req 0 ''r'')) (au_limits one_account) = (Inr (), s)"
    using check_absent [of "au_limits one_account" "''alice@x.io''" "ip_text (plain_req 0 ''r'')" "plain_req 0 ''r''"]
    by (cases "checkAndTrackLoginAttempt (plain_req 0 ''r'') ''alice@x.io'' (ip_text (plain_req 0 ''r'')) (au_limits one_account)")
      (auto simp: one_account_def is_ok_def split: sum.splits)
  have "find_email ''alice@x.io'' (one_account\<lparr>au_limits := s\<rparr>) = Some one_user"
    by (simp add: find_email_def one_account_def)
  then show ?thesis
    using c by (simp add: login_endpoint_def login_admitted_def login_def or_null_def)
qed

lemma password_alone_opens_the_portal_witness:
  "\<exists>st cx. fst (apiKeyAuthGuard plain_lib small_call [''withdrawals:hot'']
      \<lparr>hd_apiKey = None, hd_authorization = Some (''Bearer '' @ sign plain_lib 0 (challenge_claims 7) 120), hd_projectId = None\<rparr> None
      \<lparr>as_auth = st, as_keys = []\<rparr>) = Inr cx \<and> cx_clientId cx = 3"
proof -
  obtain st where l: "login_endpoint plain_lib plain_totp plain_cfg (plain_req 0 ''r'') ''alice@x.io'' ''pw'' None one_account
     = (Inr (NeedsCode (sign plain_lib 0 (challenge_claims 7) 120)), st)" using one_account_login by blast
  have e: "find_email ''alice@x.io'' one_account = Some one_user" by (simp add: find_email_def one_account_def)
  have w: "find_user (us_id one_user) one_account = Some one_user" "us_id one_user \<noteq> 0" "us_clientId one_user = Some 3"
    "(3 :: int) \<noteq> 0" "us_clientRole one_user = Some COwner" "ca_net small_call"
    "ca_now small_call div 1000 < rq_now (plain_req 0 ''r'') div 1000 + 120"
    by simp_all
  from password_alone_opens_the_portal [OF plain_lib_ok l e w, of None "[]"] obtain cx where
    "apiKeyAuthGuard plain_lib small_call [''withdrawals:hot''] \<lparr>hd_apiKey = None,
       hd_authorization = Some (''Bearer '' @ sign plain_lib 0 (challenge_claims 7) 120), hd_projectId = None\<rparr> None
       \<lparr>as_auth = st, as_keys = []\<rparr> = (Inr cx, \<lparr>as_auth = st, as_keys = []\<rparr>)" "cx_clientId cx = 3" by blast
  then show ?thesis by (intro exI [of _ st] exI [of _ cx]) (simp only: fst_conv simp_thms)
qed

lemma client_owners_make_keys_for_any_client_witness:
  "\<exists>k kr. createApiKey_endpoint plain_lib 5000 ''raw'' (Some (sign plain_lib 0 (access_claims one_user) 900)) 99 1
     (Some [''withdrawals:hot'']) open_options [] = (Inr kr, [k])"
proof -
  have w: "(5000 :: int) div 1000 < 0 div 1000 + 900" "us_clientRole one_user = Some COwner \<or> us_clientRole one_user = Some CAdmin"
    "us_id one_user \<noteq> 0" "\<not> list_ex (\<lambda>k. sql_eq (ak_keyHash k) (sha256 plain_lib (raw_key ''raw''))) []" "ca_net small_call"
    by simp_all
  from client_owners_make_keys_for_any_client [OF plain_lib_ok w, of 99 1 None one_account] show ?thesis
    unfolding append_Nil by blast
qed

definition small_viewer :: user where
  "small_viewer = one_user\<lparr>us_clientRole := Some CViewer\<rparr>"

lemma viewers_make_keys_that_withdraw_witness:
  "\<exists>kr srv. createKey plain_lib small_call ''raw'' [own_project] 3
     \<lparr>ki_projectId = 5, ki_scopes = [''withdrawals:hot''], ki_options = open_options\<rparr>
     \<lparr>as_auth = one_account\<lparr>au_users := [small_viewer]\<rparr>, as_keys = []\<rparr> = (Inr kr, srv)"
proof -
  have f: "find_user (us_id small_viewer) (one_account\<lparr>au_users := [small_viewer]\<rparr>) = Some small_viewer"
    by (simp add: find_user_def)
  have v: "us_id small_viewer \<noteq> 0" "us_clientId small_viewer = Some 3" "us_clientRole small_viewer = Some CViewer"
    by (simp_all add: small_viewer_def)
  have w: "ca_now small_call div 1000 < 0 div 1000 + 900" "(3 :: int) \<noteq> 0" "ca_net small_call" "own_project \<in> set [own_project]"
    "pj_clientId own_project = 3" "\<not> list_ex (\<lambda>k. sql_eq (ak_keyHash k) (sha256 plain_lib (raw_key ''raw''))) []"
    by (simp_all add: own_project_def)
  from viewers_make_keys_that_withdraw [OF plain_lib_ok w(1) f v(1,2) w(2) v(3) w(3,6,4,5), of None]
  obtain cx kr srv where
    "jwtOnlyAuthGuard plain_lib small_call \<lparr>hd_apiKey = None, hd_authorization = Some (''Bearer '' @ sign plain_lib 0 (access_claims small_viewer) 900), hd_projectId = None\<rparr>
       \<lparr>as_auth = one_account\<lparr>au_users := [small_viewer]\<rparr>, as_keys = []\<rparr> = Inr cx"
    "createKey plain_lib small_call ''raw'' [own_project] (cx_clientId cx)
       \<lparr>ki_projectId = pj_id own_project, ki_scopes = [''withdrawals:hot''], ki_options = open_options\<rparr>
       \<lparr>as_auth = one_account\<lparr>au_users := [small_viewer]\<rparr>, as_keys = []\<rparr> = (Inr kr, srv)"
    unfolding Let_def by blast
  then have "\<exists>kr srv. createKey plain_lib small_call ''raw'' [own_project] (cx_clientId cx)
     \<lparr>ki_projectId = 5, ki_scopes = [''withdrawals:hot''], ki_options = open_options\<rparr>
     \<lparr>as_auth = one_account\<lparr>au_users := [small_viewer]\<rparr>, as_keys = []\<rparr> = (Inr kr, srv)"
    by (auto simp: own_project_def)
  then show ?thesis by (simp add: createKey_def listProjects_def own_project_def split: prod.splits if_splits)
qed

end
