(* ===== verification/SanctionsLists.thy ===== *)
theory SanctionsLists
  imports Compliance Cidr
begin

text \<open>
  The readers of the five sanctions lists
  (services/cron-worker-service/src/sanctions-list-sync/sanctions-list-sync.service.ts): what
  \<open>parseOfacXml\<close>, \<open>parseEuSanctionsXml\<close>, \<open>parseUnConsolidatedXml\<close> and \<open>parseUkOfsiXml\<close> take out
  of the value that fast-xml-parser returns. The parser itself is the argument \<open>xml\<close> of every
  reader: it gives a JavaScript value, or throws (\<open>None\<close>). The values are those it can build:
  texts, numbers, booleans, objects and arrays; the text of an element is a number when it reads
  like one, in decimal or as \<open>0x...\<close> (its option \<open>numberParseOptions\<close>, left at its default here),
  and attributes are always texts.
\<close>

section \<open>JavaScript values\<close>

text \<open>A number is given by the text that \<open>toString\<close> prints for it; this decides everything the
  readers do with one. An object is the list of its properties, of which the first with a name
  counts.\<close>

datatype js = JUndef | JBool bool | JNum string | JStr string | JArr "js list" | JObj "(string \<times> js) list"

definition js_get :: "string \<Rightarrow> js \<Rightarrow> js" where
  "js_get k v =
     (case v of JObj ps \<Rightarrow> (case map_of ps k of None \<Rightarrow> JUndef | Some w \<Rightarrow> w) | _ \<Rightarrow> JUndef)"

text \<open>\<open>a ?? b\<close>, the truth of a value, \<open>a || b\<close>, and \<open>Array.isArray(a) ? a : [a]\<close>.\<close>

definition js_else :: "js \<Rightarrow> js \<Rightarrow> js" where
  "js_else a b = (if a = JUndef then b else a)"

fun js_true :: "js \<Rightarrow> bool" where
  "js_true JUndef = False"
| "js_true (JBool b) = b"
| "js_true (JNum n) = (n \<noteq> ''0'' \<and> n \<noteq> ''NaN'')"
| "js_true (JStr s) = (s \<noteq> [])"
| "js_true (JArr vs) = True"
| "js_true (JObj ps) = True"

definition js_or :: "js \<Rightarrow> js \<Rightarrow> js" where
  "js_or a b = (if js_true a then a else b)"

definition js_list :: "js \<Rightarrow> js list" where
  "js_list v = (case v of JArr vs \<Rightarrow> vs | _ \<Rightarrow> [v])"

text \<open>\<open>toString\<close>, and \<open>[..].join(d)\<close>, for which a missing element is the empty text.\<close>

fun join_with :: "string \<Rightarrow> string list \<Rightarrow> string" where
  "join_with d [] = []"
| "join_with d [s] = s"
| "join_with d (s # t # ss) = s @ d @ join_with d (t # ss)"

fun js_text :: "js \<Rightarrow> string" where
  "js_text JUndef = []"
| "js_text (JBool b) = (if b then ''true'' else ''false'')"
| "js_text (JNum n) = n"
| "js_text (JStr s) = s"
| "js_text (JArr vs) = join_with '','' (map js_text vs)"
| "js_text (JObj ps) = ''[object Object]''"

text \<open>\<open>v?.toString()\<close>.\<close>

definition js_to_string :: "js \<Rightarrow> js" where
  "js_to_string v = (if v = JUndef then JUndef else JStr (js_text v))"

definition is_text :: "js \<Rightarrow> bool" where
  "is_text v = (case v of JStr _ \<Rightarrow> True | _ \<Rightarrow> False)"

text \<open>\<open>[..].filter(Boolean).join(' ')\<close>.\<close>

definition join_names :: "js list \<Rightarrow> string" where
  "join_names vs = join_with '' '' (map js_text (filter js_true vs))"

section \<open>Texts\<close>

fun text_includes :: "string \<Rightarrow> string \<Rightarrow> bool" where
  "text_includes k [] = (k = [])"
| "text_includes k (c # s) = (take (length k) (c # s) = k \<or> text_includes k s)"

definition names_one_of :: "string list \<Rightarrow> js \<Rightarrow> bool" where
  "names_one_of ks v = (case v of JStr s \<Rightarrow> list_ex (\<lambda>k. text_includes k (lower s)) ks | _ \<Rightarrow> False)"

text \<open>The expression \<open>(?:digital currency|crypto|virtual asset)[^:]*:\s*([a-zA-Z0-9]{20,})\<close>
  without regard to case, and its group: the leftmost keyword whose next colon is followed by
  at least twenty letters and digits.\<close>

definition alnum :: "char \<Rightarrow> bool" where
  "alnum c \<longleftrightarrow> (let n = (of_char c :: nat)
     in (48 \<le> n \<and> n \<le> 57) \<or> (65 \<le> n \<and> n \<le> 90) \<or> (97 \<le> n \<and> n \<le> 122))"

definition asset_words :: "string list" where
  "asset_words = [''digital currency'', ''crypto'', ''virtual asset'']"

definition after_word :: "string \<Rightarrow> string \<Rightarrow> string option" where
  "after_word s k = (if lower (take (length k) s) = k then Some (drop (length k) s) else None)"

definition wallet_after :: "string \<Rightarrow> string option" where
  "wallet_after r =
     (case dropWhile (\<lambda>c. c \<noteq> CHR '':'') r of
        [] \<Rightarrow> None
      | _ # t \<Rightarrow> let a = takeWhile alnum (dropWhile js_space t) in if 20 \<le> length a then Some a else None)"

definition wallet_here :: "string \<Rightarrow> string option" where
  "wallet_here s =
     (case List.map_filter (after_word s) asset_words of [] \<Rightarrow> None | r # _ \<Rightarrow> wallet_after r)"

fun find_wallet :: "string \<Rightarrow> string option" where
  "find_wallet [] = None"
| "find_wallet (c # s) = (case wallet_here (c # s) of None \<Rightarrow> find_wallet s | Some a \<Rightarrow> Some a)"

section \<open>What is read\<close>

record parsed_entry =
  sdnId :: js
  pe_name :: js
  cryptoAddress :: string
  currency :: js

text \<open>A loop that pushes what it finds and may throw on the way: what was pushed, and whether it
  threw. The readers catch what was thrown and return what was pushed before.\<close>

fun pushing :: "('a \<Rightarrow> 'b list \<times> bool) \<Rightarrow> 'a list \<Rightarrow> 'b list \<times> bool" where
  "pushing f [] = ([], False)"
| "pushing f (x # xs) =
     (let (ys, threw) = f x in
      if threw then (ys, True) else let (zs, threw') = pushing f xs in (ys @ zs, threw'))"

section \<open>OFAC\<close>

definition ofac_id :: "js \<Rightarrow> js \<Rightarrow> js \<Rightarrow> parsed_entry list \<times> bool" where
  "ofac_id sdn nm v =
     (let address = js_else (js_get ''idNumber'' v) (js_else (js_get ''idValue'' v) (JStr []));
          cur = js_else (js_get ''idCountry'' v) (js_else (js_get ''currency'' v) (JStr ''Unknown''))
      in if js_true v
            \<and> names_one_of [''digital currency'']
                (js_else (js_get ''idType'' v) (js_else (js_get ''idTypeDescription'' v) (JStr [])))
            \<and> js_true address
         then (case address of
                 JStr a \<Rightarrow> ([\<lparr>sdnId = sdn, pe_name = nm, cryptoAddress = js_trim a,
                              currency = (if is_text cur then cur else JStr ''Unknown'')\<rparr>], False)
               | _ \<Rightarrow> ([], True))
         else ([], False))"

definition ofac_ids :: "js \<Rightarrow> js list" where
  "ofac_ids sdn = js_list (js_else (js_get ''id'' (js_get ''idList'' sdn))
     (js_else (js_get ''ID'' (js_get ''idList'' sdn)) (JArr [])))"

definition ofac_name :: "js \<Rightarrow> js" where
  "ofac_name sdn =
     js_or (JStr (join_names [js_get ''firstName'' sdn, js_get ''lastName'' sdn]))
       (js_or (js_get ''sdnName'' sdn) (JStr []))"

definition ofac_sdn_id :: "js \<Rightarrow> js" where
  "ofac_sdn_id sdn = js_else (js_to_string (js_get ''uid'' sdn)) (js_else (js_get ''@_uid'' sdn) (JStr []))"

definition ofac_sdn :: "js \<Rightarrow> parsed_entry list \<times> bool" where
  "ofac_sdn sdn =
     (if js_true sdn then pushing (ofac_id (ofac_sdn_id sdn) (ofac_name sdn)) (ofac_ids sdn)
      else ([], False))"

definition ofac_entries :: "js \<Rightarrow> js list" where
  "ofac_entries doc = js_list (js_else (js_get ''sdnEntry'' (js_get ''sdnList'' doc))
     (js_else (js_get ''SDNEntry'' (js_get ''Sanctions'' doc)) (JArr [])))"

definition parseOfacXml :: "(string \<Rightarrow> js option) \<Rightarrow> string \<Rightarrow> parsed_entry list" where
  "parseOfacXml xml data =
     (case xml data of None \<Rightarrow> [] | Some doc \<Rightarrow> fst (pushing ofac_sdn (ofac_entries doc)))"

section \<open>European Union\<close>

definition entry_of :: "js \<Rightarrow> js \<Rightarrow> js \<Rightarrow> js \<Rightarrow> parsed_entry list" where
  "entry_of eid nm address cur =
     (if js_true address
      then [\<lparr>sdnId = eid, pe_name = (if is_text nm then nm else JStr []),
             cryptoAddress = js_trim (js_text address), currency = cur\<rparr>]
      else [])"

definition eu_identification :: "js \<Rightarrow> js \<Rightarrow> js \<Rightarrow> parsed_entry list" where
  "eu_identification eid nm v =
     (if js_true v
         \<and> names_one_of asset_words
             (js_else (js_get ''@_identificationScheme'' v)
               (js_else (js_get ''identificationScheme'' v)
                 (js_else (js_get ''@_regulationType'' v) (JStr []))))
      then entry_of eid nm
             (js_else (js_get ''@_number'' v)
               (js_else (js_get ''number'' v) (js_else (js_get ''@_latinNumber'' v) (JStr []))))
             (js_else (js_get ''@_currency'' v) (JStr ''Unknown''))
      else [])"

text \<open>\<open>xs[0]\<close>, undefined for an empty array.\<close>

definition first_of :: "js list \<Rightarrow> js" where
  "first_of vs = (case vs of [] \<Rightarrow> JUndef | v # _ \<Rightarrow> v)"

definition eu_name :: "js \<Rightarrow> js" where
  "eu_name entity =
     (let n = first_of (js_list (js_else (js_get ''nameAlias'' entity) (JArr [])))
      in js_else (js_get ''@_wholeName'' n) (js_else (js_get ''wholeName'' n) (JStr [])))"

definition eu_entity_id :: "js \<Rightarrow> js" where
  "eu_entity_id entity =
     js_else (js_to_string (js_get ''@_euReferenceNumber'' entity))
       (js_else (js_to_string (js_get ''@_logicalId'' entity)) (JStr []))"

definition eu_entity :: "js \<Rightarrow> parsed_entry list" where
  "eu_entity entity =
     (if js_true entity
      then concat (map (eu_identification (eu_entity_id entity) (eu_name entity))
             (js_list (js_else (js_get ''identification'' entity) (JArr []))))
      else [])"

definition parseEuSanctionsXml :: "(string \<Rightarrow> js option) \<Rightarrow> string \<Rightarrow> parsed_entry list" where
  "parseEuSanctionsXml xml data =
     (case xml data of
        None \<Rightarrow> []
      | Some doc \<Rightarrow> concat (map eu_entity
          (js_list (js_else (js_get ''sanctionEntity'' (js_get ''export'' doc)) (JArr [])))))"

section \<open>United Nations\<close>

definition un_document :: "js \<Rightarrow> js \<Rightarrow> js \<Rightarrow> parsed_entry list" where
  "un_document eid nm v =
     (if js_true v
         \<and> names_one_of asset_words
             (js_else (js_get ''TYPE_OF_DOCUMENT'' v) (js_else (js_get ''TYPE_OF_DOCUMENT2'' v) (JStr [])))
      then entry_of eid nm (js_else (js_get ''NUMBER'' v) (js_else (js_get ''NOTE'' v) (JStr [])))
             (JStr ''Unknown'')
      else [])"

definition un_name :: "js \<Rightarrow> js" where
  "un_name entity =
     js_or (JStr (join_names [js_get ''FIRST_NAME'' entity, js_get ''SECOND_NAME'' entity, js_get ''THIRD_NAME'' entity]))
       (js_or (js_get ''NAME_ORIGINAL_SCRIPT'' entity) (JStr []))"

definition un_entity_id :: "js \<Rightarrow> js" where
  "un_entity_id entity =
     js_else (js_to_string (js_get ''DATAID'' entity))
       (js_else (js_to_string (js_get ''REFERENCE_NUMBER'' entity)) (JStr []))"

definition un_entity :: "js \<Rightarrow> parsed_entry list" where
  "un_entity entity =
     (if js_true entity
      then concat (map (un_document (un_entity_id entity) (un_name entity))
             (js_list (js_else (js_get ''INDIVIDUAL_DOCUMENT'' entity)
               (js_else (js_get ''ENTITY_DOCUMENT'' entity) (JArr [])))))
      else [])"

definition un_sections :: "js \<Rightarrow> js list" where
  "un_sections doc =
     (let root = js_else (js_get ''CONSOLIDATED_LIST'' doc)
                   (js_else (js_get ''consolidatedList'' doc) (JObj []))
      in [js_else (js_get ''INDIVIDUAL'' (js_get ''INDIVIDUALS'' root)) (JArr []),
          js_else (js_get ''ENTITY'' (js_get ''ENTITIES'' root)) (JArr [])])"

definition parseUnConsolidatedXml :: "(string \<Rightarrow> js option) \<Rightarrow> string \<Rightarrow> parsed_entry list" where
  "parseUnConsolidatedXml xml data =
     (case xml data of
        None \<Rightarrow> []
      | Some doc \<Rightarrow> concat (map (\<lambda>sec. concat (map un_entity (js_list sec))) (un_sections doc)))"

section \<open>United Kingdom\<close>

definition uk_info :: "js \<Rightarrow> js \<Rightarrow> js \<Rightarrow> parsed_entry list" where
  "uk_info eid nm v =
     (if js_true v
      then (case find_wallet (js_text v) of
              None \<Rightarrow> []
            | Some a \<Rightarrow> [\<lparr>sdnId = eid, pe_name = nm, cryptoAddress = js_trim a, currency = JStr ''Unknown''\<rparr>])
      else [])"

definition uk_id :: "js \<Rightarrow> js \<Rightarrow> js \<Rightarrow> parsed_entry list" where
  "uk_id eid nm v =
     (if js_true v
         \<and> names_one_of [''digital currency'', ''crypto''] (js_else (js_get ''IDType'' v) (JStr []))
      then entry_of eid nm (js_else (js_get ''IDNumber'' v) (JStr [])) (JStr ''Unknown'')
      else [])"

definition uk_name :: "js \<Rightarrow> js" where
  "uk_name target =
     (let n = first_of (js_list (js_else (js_get ''Name'' (js_get ''Names'' target)) (JArr [])))
      in JStr (join_names [js_else (js_get ''Name1'' n) (JStr []),
           js_else (js_get ''Name6'' n) (js_else (js_get ''Name2'' n) (JStr []))]))"

definition uk_target_id :: "js \<Rightarrow> js" where
  "uk_target_id target =
     js_else (js_to_string (js_get ''GroupID'' target))
       (js_else (js_to_string (js_get ''UniqueID'' target)) (JStr []))"

definition uk_target :: "js \<Rightarrow> parsed_entry list" where
  "uk_target target =
     (let eid = uk_target_id target; nm = uk_name target in
      if js_true target
      then concat (map (uk_info eid nm)
             (js_list (js_else (js_get ''OtherInfo'' (js_get ''OtherInformation'' target)) (JArr []))))
         @ concat (map (uk_id eid nm)
             (js_list (js_else (js_get ''ID'' (js_get ''IDs'' target)) (JArr []))))
      else [])"

definition parseUkOfsiXml :: "(string \<Rightarrow> js option) \<Rightarrow> string \<Rightarrow> parsed_entry list" where
  "parseUkOfsiXml xml data =
     (case xml data of
        None \<Rightarrow> []
      | Some doc \<Rightarrow> concat (map uk_target
          (js_list (js_else (js_get ''FinancialSanctionsTarget''
             (js_get ''ArrayOfFinancialSanctionsTarget'' doc)) (JArr [])))))"

section \<open>What throws\<close>

lemma pushing_append_calm:
  "\<not> snd (pushing f xs) \<Longrightarrow>
     pushing f (xs @ ys) = (fst (pushing f xs) @ fst (pushing f ys), snd (pushing f ys))"
  by (induction xs) (auto simp: Let_def split: prod.splits if_splits)

lemma pushing_stops:
  assumes "\<not> snd (pushing f xs)" and "snd (f x)"
  shows "pushing f (xs @ x # ys) = (fst (pushing f xs) @ fst (f x), True)"
  using assms by (simp add: pushing_append_calm case_prod_beta Let_def)

lemma set_pushing: "r \<in> set (fst (pushing f xs)) \<Longrightarrow> \<exists>x \<in> set xs. r \<in> set (fst (f x))"
  by (induction xs) (auto simp: Let_def split: prod.splits if_splits)

text \<open>The address of a digital-currency id that reads as a number: \<open>trim\<close> is not a function.\<close>

definition numeric_wallet :: "js \<Rightarrow> bool" where
  "numeric_wallet v \<longleftrightarrow>
     names_one_of [''digital currency'']
       (js_else (js_get ''idType'' v) (js_else (js_get ''idTypeDescription'' v) (JStr [])))
     \<and> (\<exists>n. js_get ''idNumber'' v = JNum n \<and> js_true (JNum n))"

lemma ofac_id_throws: "numeric_wallet v \<Longrightarrow> ofac_id sdn nm v = ([], True)"
  by (cases v) (auto simp: numeric_wallet_def ofac_id_def js_else_def js_get_def Let_def)

lemma numeric_wallet_true: "numeric_wallet v \<Longrightarrow> js_true v"
  by (cases v) (auto simp: numeric_wallet_def js_get_def)

lemma ofac_list_stops:
  assumes "xml data = Some doc"
    and "ofac_entries doc = before @ sdn # after" and "\<not> snd (pushing ofac_sdn before)"
    and "ofac_ids sdn = ids @ v # rest" and "js_true sdn" and "numeric_wallet v"
    and "\<not> snd (pushing (ofac_id (ofac_sdn_id sdn) (ofac_name sdn)) ids)"
  shows "parseOfacXml xml data =
    fst (pushing ofac_sdn before) @ fst (pushing (ofac_id (ofac_sdn_id sdn) (ofac_name sdn)) ids)"
proof -
  have "ofac_sdn sdn = (fst (pushing (ofac_id (ofac_sdn_id sdn) (ofac_name sdn)) ids), True)"
    using pushing_stops [OF assms(7), of v rest] ofac_id_throws [OF assms(6)] assms(4,5)
    by (simp add: ofac_sdn_def)
  then show ?thesis
    using pushing_stops [OF assms(3), of sdn after] assms(1,2) by (simp add: parseOfacXml_def)
qed

end
