(* ===== verification/SanctionsSync.thy ===== *)
theory SanctionsSync
  imports SanctionsLists
begin

text \<open>
  The daily refresh of the sanctions lists
  (services/cron-worker-service/src/sanctions-list-sync/sanctions-list-sync.service.ts): the
  schedule, the five jobs, the upsert of what was read and the deactivation of the rest, and what
  a refresh means for the screenings of the theory Compliance, which read the same table. The
  configuration, the download, the XML parser, and the success of the two statements and of the
  publication are the record \<open>sync_env\<close>; the event goes to the stream's list of published events.
\<close>

section \<open>State\<close>

record synced_row = sanctions_entry +
  addressType :: string
  lastSyncedAt :: millis

record sync_event =
  se_source :: string
  se_parsed :: string
  se_upserted :: string
  se_deactivated :: string
  se_errors :: string
  se_time :: millis

record sync_state =
  rows :: "synced_row list"
  published :: "sync_event list"

record sync_result =
  rs_source :: string
  totalParsed :: nat
  upserted :: nat
  deactivated :: nat
  rs_errors :: nat

record sync_env =
  configured :: "string \<Rightarrow> string option"
  fetch :: "string \<Rightarrow> string option"
  read_xml :: "string \<Rightarrow> js option"
  batch_ok :: bool
  update_ok :: bool
  publish_ok :: bool
  sync_time :: millis

definition new_result :: "string \<Rightarrow> sync_result" where
  "new_result src = \<lparr>rs_source = src, totalParsed = 0, upserted = 0, deactivated = 0, rs_errors = 0\<rparr>"

section \<open>The schedule\<close>

record repeat_job =
  rj_name :: string
  rj_source :: string
  rj_pattern :: string
  rj_id :: string

definition sync_schedules :: "(string \<times> string \<times> string) list" where
  "sync_schedules =
     [(''sync-ofac-sdn'', ''OFAC_SDN'', ''0 2 * * *''),
      (''sync-ofac-consolidated'', ''OFAC_CONSOLIDATED'', ''0 3 * * *''),
      (''sync-eu-sanctions'', ''EU'', ''0 4 * * *''),
      (''sync-un-consolidated'', ''UN'', ''0 5 * * *''),
      (''sync-uk-ofsi'', ''UK_OFSI'', ''0 6 * * *'')]"

definition initSyncJob :: "repeat_job list" where
  "initSyncJob =
     map (\<lambda>(n, src, cron). \<lparr>rj_name = n, rj_source = src, rj_pattern = cron,
            rj_id = ''sanctions-'' @ src @ ''-daily''\<rparr>) sync_schedules"

section \<open>Upserting and deactivating\<close>

text \<open>Prisma takes only texts for the three descriptive columns, and MySQL only those that fit.\<close>

definition fits :: "nat \<Rightarrow> js \<Rightarrow> bool" where
  "fits n v = (case v of JStr s \<Rightarrow> length s \<le> n | _ \<Rightarrow> False)"

definition storable :: "parsed_entry \<Rightarrow> bool" where
  "storable e \<longleftrightarrow> length (cryptoAddress e) \<le> 100 \<and> fits 20 (currency e) \<and> fits 500 (pe_name e)
     \<and> fits 100 (sdnId e)"

definition row_key :: "'x sanctions_entry_scheme \<Rightarrow> string \<times> string" where
  "row_key r = (lower (listSource r), lower (entry_address r))"

definition refreshed :: "millis \<Rightarrow> parsed_entry \<Rightarrow> synced_row \<Rightarrow> synced_row" where
  "refreshed t e r =
     r\<lparr>entry_active := True, entityName := Some (js_text (pe_name e)), entityId := Some (js_text (sdnId e)),
       addressType := js_text (currency e), lastSyncedAt := t\<rparr>"

definition new_row :: "millis \<Rightarrow> string \<Rightarrow> parsed_entry \<Rightarrow> synced_row" where
  "new_row t src e =
     \<lparr>listSource = src, entry_address = lower (cryptoAddress e), entityName = Some (js_text (pe_name e)),
      entityId = Some (js_text (sdnId e)), entry_active = True, addressType = js_text (currency e),
      lastSyncedAt = t\<rparr>"

definition upsert_entry :: "millis \<Rightarrow> string \<Rightarrow> synced_row list \<Rightarrow> parsed_entry \<Rightarrow> synced_row list" where
  "upsert_entry t src rs e =
     (let k = (lower src, lower (cryptoAddress e)) in
      if list_ex (\<lambda>r. row_key r = k) rs
      then update_where (\<lambda>r. row_key r = k) (refreshed t e) rs
      else rs @ [new_row t src e])"

text \<open>All upserts in one transaction, which fails as a whole.\<close>

definition upsert_all :: "sync_env \<Rightarrow> string \<Rightarrow> parsed_entry list \<Rightarrow> synced_row list \<Rightarrow> synced_row list option" where
  "upsert_all env src es rs =
     (if batch_ok env \<and> list_all storable es then Some (foldl (upsert_entry (sync_time env) src) rs es)
      else None)"

definition stale :: "string \<Rightarrow> string list \<Rightarrow> 'x sanctions_entry_scheme \<Rightarrow> bool" where
  "stale src addrs r \<longleftrightarrow>
     sql_eq (listSource r) src \<and> \<not> list_ex (sql_eq (entry_address r)) addrs \<and> entry_active r"

definition event_of :: "millis \<Rightarrow> sync_result \<Rightarrow> sync_event" where
  "event_of t res =
     \<lparr>se_source = rs_source res, se_parsed = show_nat (totalParsed res), se_upserted = show_nat (upserted res),
      se_deactivated = show_nat (deactivated res), se_errors = show_nat (rs_errors res), se_time = t\<rparr>"

text \<open>The error, if something was thrown; the result as the calls have left it; the state.\<close>

definition publish_sync ::
    "sync_env \<Rightarrow> sync_result \<Rightarrow> sync_state \<Rightarrow> error option \<times> sync_result \<times> sync_state" where
  "publish_sync env res st =
     (if publish_ok env then (None, res, st\<lparr>published := published st @ [event_of (sync_time env) res]\<rparr>)
      else (Some (InternalError ''publish''), res, st))"

definition deactivate_stale ::
    "string \<Rightarrow> string list \<Rightarrow> sync_result \<Rightarrow> sync_state \<Rightarrow> sync_result \<times> sync_state" where
  "deactivate_stale src addrs res st =
     (res\<lparr>deactivated := count_where (stale src addrs) (rows st)\<rparr>,
      st\<lparr>rows := update_where (stale src addrs) (\<lambda>r. r\<lparr>entry_active := False\<rparr>) (rows st)\<rparr>)"

definition upsertAndDeactivate ::
    "sync_env \<Rightarrow> string \<Rightarrow> parsed_entry list \<Rightarrow> sync_result \<Rightarrow> sync_state \<Rightarrow>
     error option \<times> sync_result \<times> sync_state" where
  "upsertAndDeactivate env src es res st =
     (let addrs = map (\<lambda>e. lower (cryptoAddress e)) es;
          (res1, st1) = (case upsert_all env src es (rows st) of
                           Some rs \<Rightarrow> (res\<lparr>upserted := length es\<rparr>, st\<lparr>rows := rs\<rparr>)
                         | None \<Rightarrow> (res\<lparr>rs_errors := length es\<rparr>, st))
      in if addrs = [] then publish_sync env res1 st1
         else if \<not> update_ok env then (Some (InternalError ''update''), res1, st1)
         else let (res2, st2) = deactivate_stale src addrs res1 st1 in publish_sync env res2 st2)"

section \<open>The five jobs\<close>

definition url_of :: "sync_env \<Rightarrow> string \<Rightarrow> string \<Rightarrow> string" where
  "url_of env k dflt = (case configured env k of None \<Rightarrow> dflt | Some u \<Rightarrow> u)"

definition sync_ofac ::
    "sync_env \<Rightarrow> string \<Rightarrow> string \<Rightarrow> sync_state \<Rightarrow> (error + sync_result) \<times> sync_state" where
  "sync_ofac env src url st =
     (case fetch env url of
        None \<Rightarrow> (Inl (InternalError ''download''), st)
      | Some data \<Rightarrow>
          let es = parseOfacXml (read_xml env) data in
          (case upsertAndDeactivate env src es (new_result src\<lparr>totalParsed := length es\<rparr>) st of
             (None, res, st') \<Rightarrow> (Inr res, st')
           | (Some e, res, st') \<Rightarrow> (Inl e, st')))"

definition syncOfacList :: "sync_env \<Rightarrow> sync_state \<Rightarrow> (error + sync_result) \<times> sync_state" where
  "syncOfacList env =
     sync_ofac env ''OFAC_SDN''
       (url_of env ''OFAC_SDN_URL'' ''https://www.treasury.gov/ofac/downloads/sdn_advanced.xml'')"

definition syncOfacConsolidatedList :: "sync_env \<Rightarrow> sync_state \<Rightarrow> (error + sync_result) \<times> sync_state" where
  "syncOfacConsolidatedList env =
     sync_ofac env ''OFAC_CONSOLIDATED''
       (url_of env ''OFAC_CONSOLIDATED_URL''
         ''https://www.treasury.gov/ofac/downloads/consolidated/cons_advanced.xml'')"

text \<open>The other three share their shape: whatever is thrown is caught and counted as one error, and
  a list without a single address changes no row.\<close>

definition sync_list ::
    "sync_env \<Rightarrow> string \<Rightarrow> ((string \<Rightarrow> js option) \<Rightarrow> string \<Rightarrow> parsed_entry list) \<Rightarrow> string \<Rightarrow> sync_state \<Rightarrow>
     (error + sync_result) \<times> sync_state" where
  "sync_list env src parse url st =
     (case fetch env url of
        None \<Rightarrow> (Inr (new_result src\<lparr>rs_errors := 1\<rparr>), st)
      | Some data \<Rightarrow>
          let es = parse (read_xml env) data; res = new_result src\<lparr>totalParsed := length es\<rparr> in
          (case (if es = [] then publish_sync env res st else upsertAndDeactivate env src es res st) of
             (None, res', st') \<Rightarrow> (Inr res', st')
           | (Some e, res', st') \<Rightarrow> (Inr (res'\<lparr>rs_errors := 1\<rparr>), st')))"

definition syncEuSanctionsList :: "sync_env \<Rightarrow> sync_state \<Rightarrow> (error + sync_result) \<times> sync_state" where
  "syncEuSanctionsList env =
     sync_list env ''EU'' parseEuSanctionsXml
       (url_of env ''EU_SANCTIONS_URL''
         ''https://webgate.ec.europa.eu/fsd/fsf/public/files/xmlFullSanctionsList_1_1/content?token=dG9rZW4tMjAxNw'')"

definition syncUnConsolidatedList :: "sync_env \<Rightarrow> sync_state \<Rightarrow> (error + sync_result) \<times> sync_state" where
  "syncUnConsolidatedList env =
     sync_list env ''UN'' parseUnConsolidatedXml
       (url_of env ''UN_CONSOLIDATED_URL'' ''https://scsanctions.un.org/resources/xml/en/consolidated.xml'')"

definition syncUkOfsiList :: "sync_env \<Rightarrow> sync_state \<Rightarrow> (error + sync_result) \<times> sync_state" where
  "syncUkOfsiList env =
     sync_list env ''UK_OFSI'' parseUkOfsiXml
       (url_of env ''UK_OFSI_URL''
         ''https://ofsistorage.blob.core.windows.net/publishlive/2022format/ConList.xml'')"

text \<open>The worker: the job's source, the OFAC SDN list when it has none or an unknown one.\<close>

definition process_sync ::
    "sync_env \<Rightarrow> string option \<Rightarrow> sync_state \<Rightarrow> (error + sync_result) \<times> sync_state" where
  "process_sync env source st =
     (let src = (case source of None \<Rightarrow> ''OFAC_SDN'' | Some s \<Rightarrow> s) in
      if src = ''OFAC_SDN'' then syncOfacList env st
      else if src = ''OFAC_CONSOLIDATED'' then syncOfacConsolidatedList env st
      else if src = ''EU'' then syncEuSanctionsList env st
      else if src = ''UN'' then syncUnConsolidatedList env st
      else if src = ''UK_OFSI'' then syncUkOfsiList env st
      else syncOfacList env st)"


section \<open>What the table lists\<close>

text \<open>The abstract state of a list: its active addresses, without regard to case.\<close>

definition listed_address :: "string \<Rightarrow> 'x sanctions_entry_scheme \<Rightarrow> string set" where
  "listed_address src r =
     (if entry_active r \<and> sql_eq (listSource r) src then {lower (entry_address r)} else {})"

definition active_addresses :: "string \<Rightarrow> 'x sanctions_entry_scheme list \<Rightarrow> string set" where
  "active_addresses src rs = (\<Union>r \<in> set rs. listed_address src r)"

definition named :: "parsed_entry list \<Rightarrow> string set" where
  "named es = (\<lambda>e. lower (cryptoAddress e)) ` set es"

lemma refreshed_simps [simp]:
  "row_key (refreshed t e r) = row_key r" "listSource (refreshed t e r) = listSource r"
  "entry_address (refreshed t e r) = entry_address r" "entry_active (refreshed t e r)"
  by (simp_all add: refreshed_def row_key_def)

lemma new_row_simps [simp]:
  "row_key (new_row t src e) = (lower src, lower (cryptoAddress e))"
  "listSource (new_row t src e) = src" "entry_address (new_row t src e) = lower (cryptoAddress e)"
  "entry_active (new_row t src e)"
  by (simp_all add: new_row_def row_key_def)

lemma active_addresses_simps [simp]:
  "active_addresses src (rs @ rs') = active_addresses src rs \<union> active_addresses src rs'"
  "active_addresses src (r # rs) = listed_address src r \<union> active_addresses src rs"
  "active_addresses src [] = {}"
  by (auto simp: active_addresses_def)

lemma active_addresses_update:
  "active_addresses l (update_where p f rs) = (\<Union>r \<in> set rs. listed_address l (if p r then f r else r))"
  unfolding active_addresses_def update_where_def set_map image_image ..

lemma key_ex: "list_ex (\<lambda>r. row_key r = k) rs \<longleftrightarrow> k \<in> row_key ` set rs"
  by (auto simp: list_ex_iff image_iff)

lemma listed_address_refreshed:
  "listed_address l (if row_key r = (lower src, lower a) then refreshed t e r else r) =
     (if row_key r = (lower src, lower a) \<and> sql_eq l src then insert (lower a) (listed_address l r)
      else listed_address l r)"
  by (auto simp: listed_address_def row_key_def sql_eq_def)

lemma active_addresses_refreshed:
  assumes "(lower src, lower a) \<in> row_key ` set rs"
  shows "active_addresses l (update_where (\<lambda>r. row_key r = (lower src, lower a)) (refreshed t e) rs) =
    (if sql_eq l src then insert (lower a) (active_addresses l rs) else active_addresses l rs)"
proof -
  obtain r where "r \<in> set rs" "row_key r = (lower src, lower a)" using assms by auto
  then show ?thesis
    unfolding active_addresses_update listed_address_refreshed
    by (auto simp: active_addresses_def split: if_splits)
qed

lemma active_addresses_upsert:
  "active_addresses l (upsert_entry t src rs e) =
     (if sql_eq l src then insert (lower (cryptoAddress e)) (active_addresses l rs) else active_addresses l rs)"
  unfolding upsert_entry_def Let_def key_ex
  by (auto simp: active_addresses_refreshed listed_address_def sql_eq_def)

lemma named_Cons [simp]: "named (e # es) = insert (lower (cryptoAddress e)) (named es)" "named [] = {}"
  by (simp_all add: named_def)

lemma active_addresses_upserts:
  "active_addresses l (foldl (upsert_entry t src) rs es) =
     (if sql_eq l src then named es \<union> active_addresses l rs else active_addresses l rs)"
  by (induction es arbitrary: rs) (auto simp: active_addresses_upsert)

lemma stale_addrs: "stale src (map (\<lambda>e. lower (cryptoAddress e)) es) r \<longleftrightarrow>
    sql_eq (listSource r) src \<and> lower (entry_address r) \<notin> named es \<and> entry_active r"
  by (auto simp: stale_def list_ex_iff sql_eq_def named_def image_iff)

lemma listed_address_deactivate:
  "listed_address l (if stale src (map (\<lambda>e. lower (cryptoAddress e)) es) r then r\<lparr>entry_active := False\<rparr> else r) =
     (if sql_eq l src then listed_address l r \<inter> named es else listed_address l r)"
  by (auto simp: listed_address_def stale_addrs sql_eq_def)

lemma synced_rows_update: "rows (st\<lparr>rows := rs\<rparr>) = rs"
  by simp

lemma active_addresses_deactivate:
  "active_addresses l (rows (snd (deactivate_stale src (map (\<lambda>e. lower (cryptoAddress e)) es) res st))) =
     (if sql_eq l src then active_addresses l (rows st) \<inter> named es else active_addresses l (rows st))"
  unfolding deactivate_stale_def snd_conv synced_rows_update active_addresses_update listed_address_deactivate
  by (auto simp: active_addresses_def)


section \<open>What a refresh does\<close>

lemma publish_sync_simps [simp]:
  "rows (snd (snd (publish_sync env res st))) = rows st"
  "fst (publish_sync env res st) = (if publish_ok env then None else Some (InternalError ''publish''))"
  "fst (snd (publish_sync env res st)) = res"
  by (simp_all add: publish_sync_def)

lemma deactivate_stale_result [simp]:
  "upserted (fst (deactivate_stale src addrs res st)) = upserted res"
  "rs_errors (fst (deactivate_stale src addrs res st)) = rs_errors res"
  "totalParsed (fst (deactivate_stale src addrs res st)) = totalParsed res"
  "rs_source (fst (deactivate_stale src addrs res st)) = rs_source res"
  by (simp_all add: deactivate_stale_def)

lemma upsertAndDeactivate_stored:
  assumes "batch_ok env" "list_all storable es" "update_ok env" "es \<noteq> []"
  shows "active_addresses l (rows (snd (snd (upsertAndDeactivate env src es res st)))) =
      (if sql_eq l src then named es else active_addresses l (rows st))"
    and "fst (upsertAndDeactivate env src es res st) = (if publish_ok env then None else Some (InternalError ''publish''))"
    and "upserted (fst (snd (upsertAndDeactivate env src es res st))) = length es"
    and "rs_errors (fst (snd (upsertAndDeactivate env src es res st))) = rs_errors res"
  using assms
  by (auto simp: upsertAndDeactivate_def upsert_all_def Let_def case_prod_beta active_addresses_deactivate
      active_addresses_upserts)

lemma upsertAndDeactivate_rejected:
  assumes "\<not> (batch_ok env \<and> list_all storable es)" "update_ok env" "es \<noteq> []"
  shows "active_addresses l (rows (snd (snd (upsertAndDeactivate env src es res st)))) =
      (if sql_eq l src then active_addresses l (rows st) \<inter> named es else active_addresses l (rows st))"
    and "fst (upsertAndDeactivate env src es res st) = (if publish_ok env then None else Some (InternalError ''publish''))"
    and "upserted (fst (snd (upsertAndDeactivate env src es res st))) = upserted res"
    and "rs_errors (fst (snd (upsertAndDeactivate env src es res st))) = length es"
proof -
  have "upsert_all env src es (rows st) = None" using assms(1) by (simp add: upsert_all_def)
  then have "upsertAndDeactivate env src es res st =
      (let (res2, st2) = deactivate_stale src (map (\<lambda>e. lower (cryptoAddress e)) es) (res\<lparr>rs_errors := length es\<rparr>) st
       in publish_sync env res2 st2)"
    using assms(2,3) by (simp add: upsertAndDeactivate_def)
  then show "active_addresses l (rows (snd (snd (upsertAndDeactivate env src es res st)))) =
      (if sql_eq l src then active_addresses l (rows st) \<inter> named es else active_addresses l (rows st))"
    and "fst (upsertAndDeactivate env src es res st) = (if publish_ok env then None else Some (InternalError ''publish''))"
    and "upserted (fst (snd (upsertAndDeactivate env src es res st))) = upserted res"
    and "rs_errors (fst (snd (upsertAndDeactivate env src es res st))) = length es"
    by (simp_all add: case_prod_beta active_addresses_deactivate)
qed

text \<open>What the job of a list reads.\<close>

definition list_sources :: "string list" where
  "list_sources = [''OFAC_SDN'', ''OFAC_CONSOLIDATED'', ''EU'', ''UN'', ''UK_OFSI'']"

definition reader_of :: "string \<Rightarrow> (string \<Rightarrow> js option) \<Rightarrow> string \<Rightarrow> parsed_entry list" where
  "reader_of src =
     (if src = ''EU'' then parseEuSanctionsXml else if src = ''UN'' then parseUnConsolidatedXml
      else if src = ''UK_OFSI'' then parseUkOfsiXml else parseOfacXml)"

definition source_url :: "sync_env \<Rightarrow> string \<Rightarrow> string" where
  "source_url env src =
     (if src = ''OFAC_SDN''
        then url_of env ''OFAC_SDN_URL'' ''https://www.treasury.gov/ofac/downloads/sdn_advanced.xml''
      else if src = ''OFAC_CONSOLIDATED''
        then url_of env ''OFAC_CONSOLIDATED_URL''
               ''https://www.treasury.gov/ofac/downloads/consolidated/cons_advanced.xml''
      else if src = ''EU''
        then url_of env ''EU_SANCTIONS_URL''
               ''https://webgate.ec.europa.eu/fsd/fsf/public/files/xmlFullSanctionsList_1_1/content?token=dG9rZW4tMjAxNw''
      else if src = ''UN''
        then url_of env ''UN_CONSOLIDATED_URL'' ''https://scsanctions.un.org/resources/xml/en/consolidated.xml''
      else url_of env ''UK_OFSI_URL''
             ''https://ofsistorage.blob.core.windows.net/publishlive/2022format/ConList.xml'')"

definition downloaded :: "sync_env \<Rightarrow> string \<Rightarrow> parsed_entry list option" where
  "downloaded env src = map_option (reader_of src (read_xml env)) (fetch env (source_url env src))"

definition first_result :: "string \<Rightarrow> parsed_entry list \<Rightarrow> sync_result" where
  "first_result src es = new_result src\<lparr>totalParsed := length es\<rparr>"

lemma first_result_simps [simp]: "upserted (first_result src es) = 0" "rs_errors (first_result src es) = 0"
  by (simp_all add: first_result_def new_result_def)

lemma sync_ofac_runs:
  assumes "fetch env url = Some data" "parseOfacXml (read_xml env) data = es"
    and "upsertAndDeactivate env src es (first_result src es) st = (err, res, st')"
  shows "sync_ofac env src url st = ((case err of None \<Rightarrow> Inr res | Some e \<Rightarrow> Inl e), st')"
  using assms by (simp add: sync_ofac_def first_result_def Let_def split: option.splits)

lemma sync_list_runs:
  assumes "fetch env url = Some data" "parse (read_xml env) data = es" "es \<noteq> []"
    and "upsertAndDeactivate env src es (first_result src es) st = (err, res, st')"
  shows "sync_list env src parse url st =
    (Inr (case err of None \<Rightarrow> res | Some e \<Rightarrow> res\<lparr>rs_errors := 1\<rparr>), st')"
  using assms by (simp add: sync_list_def first_result_def Let_def split: option.splits)

lemmas job_defs = process_sync_def Let_def syncOfacList_def syncOfacConsolidatedList_def
  syncEuSanctionsList_def syncUnConsolidatedList_def syncUkOfsiList_def

lemma process_sync_runs:
  assumes "src \<in> set list_sources" "downloaded env src = Some es" "es \<noteq> []"
    and "upsertAndDeactivate env src es (first_result src es) st = (err, res, st')"
  shows "\<exists>out. process_sync env (Some src) st = (out, st') \<and> (err = None \<longrightarrow> out = Inr res)"
proof -
  obtain data where d: "fetch env (source_url env src) = Some data" "reader_of src (read_xml env) data = es"
    using assms(2) by (auto simp: downloaded_def)
  consider "src = ''OFAC_SDN''" | "src = ''OFAC_CONSOLIDATED''" | "src = ''EU''" | "src = ''UN''" | "src = ''UK_OFSI''"
    using assms(1) by (auto simp: list_sources_def)
  then show ?thesis
    by cases (use d sync_ofac_runs [OF _ _ assms(4)] sync_list_runs [OF _ _ assms(3,4)]
        in \<open>simp_all add: job_defs source_url_def reader_of_def\<close>)
qed


section \<open>What a refresh means for the screenings\<close>

text \<open>The compliance database with the table as the refresh left it.\<close>

definition screening_db :: "compliance_db \<Rightarrow> synced_row list \<Rightarrow> compliance_db" where
  "screening_db db rs = db\<lparr>sanctions := map sanctions_entry.truncate rs\<rparr>"

lemma truncate_simps [simp]:
  "listSource (sanctions_entry.truncate r) = listSource r"
  "entry_address (sanctions_entry.truncate r) = entry_address r"
  "entry_active (sanctions_entry.truncate r) = entry_active r"
  by (simp_all add: sanctions_entry.truncate_def)

lemma active_address_row: "a \<in> active_addresses l rs \<longleftrightarrow>
    (\<exists>r \<in> set rs. entry_active r \<and> sql_eq (listSource r) l \<and> lower (entry_address r) = a)"
  by (auto simp: active_addresses_def listed_address_def split: if_splits)

lemma listed_synced:
  "listed c addr (screening_db db rs) \<longleftrightarrow>
     (\<exists>l \<in> set (lists_of_client c). lower addr \<in> active_addresses l rs)"
  by (auto simp: listed_def screening_db_def active_address_row sql_eq_def)

lemma screening_synced:
  assumes "find_client n db = Some c"
  shows "so_action (projr (fst (screenAddress t q addr dir trig n tx (screening_db db rs)))) =
    (if \<exists>l \<in> set (lists_of_client c). lower addr \<in> active_addresses l rs then Blocked else Allowed)"
proof -
  have c: "find_client n (screening_db db rs) = Some c"
    using assms by (simp add: screening_db_def find_client_def)
  show ?thesis
    using screenAddress_listed [OF c, of addr t q dir trig tx] screenAddress_unlisted [OF c, of addr t q dir trig tx]
    unfolding listed_synced by (metis fst_conv sum.sel(2))
qed

lemma lists_are_sources: "set (lists_of_client c) \<subseteq> set list_sources"
  by (auto simp: lists_of_client_def KYT_LEVEL_LISTS_def list_sources_def split: if_splits)

lemma source_eq:
  assumes "l \<in> set list_sources" "src \<in> set list_sources"
  shows "sql_eq l src \<longleftrightarrow> l = src"
proof -
  have "distinct (map lower list_sources)" by code_simp
  then show ?thesis using assms by (auto simp: sql_eq_def distinct_map inj_on_def)
qed

text \<open>A screening after the refresh of one list sees that list as it now is, and the others as
  they were.\<close>

definition refreshed_action ::
    "client_row \<Rightarrow> string \<Rightarrow> string set \<Rightarrow> synced_row list \<Rightarrow> string \<Rightarrow> screen_action" where
  "refreshed_action c src now rs addr =
     (if lower addr \<in> now \<or> (\<exists>l \<in> set (lists_of_client c). l \<noteq> src \<and> lower addr \<in> active_addresses l rs)
      then Blocked else Allowed)"

lemma screening_refreshed:
  assumes "find_client n db = Some c" "src \<in> set (lists_of_client c)"
    and "\<And>l. active_addresses l rs' = (if sql_eq l src then now else active_addresses l rs)"
  shows "so_action (projr (fst (screenAddress t q addr dir trig n tx (screening_db db rs')))) =
    refreshed_action c src now rs addr"
proof -
  have "sql_eq l src \<longleftrightarrow> l = src" if "l \<in> set (lists_of_client c)" for l
    using source_eq that assms(2) lists_are_sources by blast
  then have "(\<exists>l \<in> set (lists_of_client c). lower addr \<in> active_addresses l rs') \<longleftrightarrow>
      lower addr \<in> now \<or> (\<exists>l \<in> set (lists_of_client c). l \<noteq> src \<and> lower addr \<in> active_addresses l rs)"
    unfolding assms(3) using assms(2) by auto
  then show ?thesis unfolding screening_synced [OF assms(1)] refreshed_action_def by simp
qed

text \<open>A list read without a single address changes no row.\<close>

lemma process_sync_empty:
  assumes "src \<in> set list_sources" "downloaded env src = Some []" "publish_ok env"
    "process_sync env (Some src) st = (out, st')"
  shows "is_ok out \<and> upserted (projr out) = 0 \<and> rs_errors (projr out) = 0 \<and> rows st' = rows st"
proof -
  obtain data where d: "fetch env (source_url env src) = Some data" "reader_of src (read_xml env) data = []"
    using assms(2) by (auto simp: downloaded_def)
  have e: "upsertAndDeactivate env s [] (new_result s\<lparr>totalParsed := 0\<rparr>) st =
      (None, new_result s\<lparr>totalParsed := 0\<rparr>, st\<lparr>published := published st @ [event_of (sync_time env) (new_result s\<lparr>totalParsed := 0\<rparr>)]\<rparr>)" for s
    using assms(3)
    by (cases "batch_ok env") (simp_all add: upsertAndDeactivate_def upsert_all_def publish_sync_def new_result_def)
  have p: "publish_sync env res st = (None, res, st\<lparr>published := published st @ [event_of (sync_time env) res]\<rparr>)" for res
    using assms(3) by (simp add: publish_sync_def)
  consider "src = ''OFAC_SDN''" | "src = ''OFAC_CONSOLIDATED''" | "src = ''EU''" | "src = ''UN''" | "src = ''UK_OFSI''"
    using assms(1) by (auto simp: list_sources_def)
  then show ?thesis
  proof cases
    case 1
    then show ?thesis using d assms(4) e [of src]
      by (auto simp: job_defs source_url_def reader_of_def sync_ofac_def new_result_def)
  next
    case 2
    then show ?thesis using d assms(4) e [of src]
      by (auto simp: job_defs source_url_def reader_of_def sync_ofac_def new_result_def)
  qed (use d assms(4) p in \<open>auto simp: job_defs source_url_def reader_of_def sync_list_def new_result_def\<close>)
qed

lemma active_addresses_same: "sql_eq l src \<Longrightarrow> active_addresses l rs = active_addresses src rs"
  by (auto simp: active_address_row sql_eq_def)


text \<open>Claim C12. A refresh whose transaction is rejected, as by one entry with a text too long for its column,
  still deactivates: of the list's addresses only those remain active that were active before and were
  read again, and none of the new ones is. Every address that had left the file, and every new one, then
  passes the screenings, while the job counts no upsert and ends well.\<close>

theorem rejected_refresh_still_deactivates:
  assumes "process_sync env (Some src) st = (out, st')" "downloaded env src = Some es" "es \<noteq> []"
    and "\<not> (batch_ok env \<and> list_all storable es)" "update_ok env" "publish_ok env"
    and "find_client n db = Some c" "src \<in> set (lists_of_client c)"
  shows "is_ok out
    \<and> upserted (projr out) = 0
    \<and> rs_errors (projr out) = length es
    \<and> active_addresses src (rows st') = active_addresses src (rows st) \<inter> named es
    \<and> so_action (projr (fst (screenAddress t q addr dir trig n tx (screening_db db (rows st'))))) =
      refreshed_action c src (active_addresses src (rows st) \<inter> named es) (rows st) addr"
proof -
  obtain err res st'' where u: "upsertAndDeactivate env src es (first_result src es) st = (err, res, st'')"
    using prod_cases3 by blast
  have src: "src \<in> set list_sources" using assms(8) lists_are_sources by blast
  note kept = upsertAndDeactivate_rejected [OF assms(4,5,3), where src = src and st = st and res = "first_result src es", unfolded u]
  have "err = None" using kept(2) assms(6) by simp
  then have "out = Inr res" "st'' = st'" using process_sync_runs [OF src assms(2,3) u] assms(1) by auto
  moreover have same: "active_addresses l (rows st) = active_addresses src (rows st)" if "sql_eq l src" for l
    using that by (auto simp: active_address_row sql_eq_def)
  have now: "active_addresses l (rows st'') =
      (if sql_eq l src then active_addresses src (rows st) \<inter> named es else active_addresses l (rows st))" for l
    using kept(1) [of l] same [of l] by simp
  ultimately show ?thesis
    using kept(3,4) now [of src] screening_refreshed [OF assms(7,8) now] by simp
qed



section \<open>One row for each address of a list\<close>

definition rows_unique :: "sync_state \<Rightarrow> bool" where
  "rows_unique st \<longleftrightarrow> distinct (map row_key (rows st))"

lemma distinct_upsert: "distinct (map row_key rs) \<Longrightarrow> distinct (map row_key (upsert_entry t src rs e))"
  unfolding upsert_entry_def Let_def key_ex by (simp add: map_update_where)

lemma distinct_upserts: "distinct (map row_key rs) \<Longrightarrow> distinct (map row_key (foldl (upsert_entry t src) rs es))"
  by (induction es arbitrary: rs) (simp_all add: distinct_upsert)

lemma row_key_deactivated [simp]: "row_key (r\<lparr>entry_active := b\<rparr>) = row_key r"
  by (simp add: row_key_def)

lemma upsertAndDeactivate_unique:
  assumes "rows_unique st"
  shows "rows_unique (snd (snd (upsertAndDeactivate env src es res st)))"
proof -
  have d: "map row_key (rows (snd (deactivate_stale s a r st))) = map row_key (rows st)" for s a r st
    by (simp add: deactivate_stale_def map_update_where)
  show ?thesis
    using assms distinct_upserts [of "rows st"]
    by (simp add: rows_unique_def upsertAndDeactivate_def Let_def case_prod_beta upsert_all_def d)
qed

lemma publish_sync_unique: "rows_unique st \<Longrightarrow> rows_unique (snd (snd (publish_sync env res st)))"
  by (simp add: rows_unique_def)

lemma sync_ofac_unique: "rows_unique st \<Longrightarrow> rows_unique (snd (sync_ofac env src url st))"
  and sync_list_unique: "rows_unique st \<Longrightarrow> rows_unique (snd (sync_list env src p url st))"
proof -
  assume u: "rows_unique st"
  have c: "rows_unique (snd (snd x)) \<Longrightarrow> rows_unique (snd (case x of
      (None, res, st') \<Rightarrow> (f res, st') | (Some e, res, st') \<Rightarrow> (g e res, st')))"
    for x :: "error option \<times> sync_result \<times> sync_state" and f :: "_ \<Rightarrow> error + sync_result" and g
    by (simp add: case_prod_beta split: option.splits)
  show "rows_unique (snd (sync_ofac env src url st))"
    using u by (simp add: sync_ofac_def Let_def c upsertAndDeactivate_unique split: option.splits)
  show "rows_unique (snd (sync_list env src p url st))"
    using u by (simp add: sync_list_def Let_def c upsertAndDeactivate_unique publish_sync_unique
        split: option.splits)
qed

inductive sync_step :: "sync_state \<Rightarrow> sync_state \<Rightarrow> bool" where
  job: "process_sync env source st = (out, st') \<Longrightarrow> sync_step st st'"

inductive_cases sync_stepE: "sync_step st st'"

lemma sync_step_unique: "rows_unique st \<Longrightarrow> sync_step st st' \<Longrightarrow> rows_unique st'"
proof (elim sync_stepE)
  fix env source out
  assume u: "rows_unique st" and p: "process_sync env source st = (out, st')"
  have "rows_unique (snd (process_sync env source st))"
    by (simp add: job_defs sync_ofac_unique [OF u] sync_list_unique [OF u])
  then show "rows_unique st'" using p by simp
qed

interpretation syncing: machine "\<lambda>st. rows st = []" sync_step rows_unique
  by unfold_locales (simp add: rows_unique_def, rule sync_step_unique)

text \<open>However the jobs follow one another and whatever they read, no list has two rows for one address:
  an address has a single activity, the one the screenings read.\<close>

lemma one_row_per_address:
  assumes "rows st = []" "sync_step\<^sup>*\<^sup>* st st'" "r \<in> set (rows st')" "r' \<in> set (rows st')"
    and "sql_eq (listSource r) (listSource r')" "sql_eq (entry_address r) (entry_address r')"
  shows "r = r'"
proof -
  have "inj_on row_key (set (rows st'))"
    using syncing.inv_reachable [OF assms(1,2)] by (simp add: rows_unique_def distinct_map)
  then show ?thesis using assms(3-6) by (auto simp: inj_on_def row_key_def sql_eq_def)
qed

section \<open>Concrete refreshes\<close>

definition sample_sdn :: "js \<Rightarrow> js" where
  "sample_sdn a = JObj [(''uid'', JNum ''17''), (''lastName'', JStr ''A''), (''idList'', JObj [(''id'',
     JObj [(''idType'', JStr ''Digital Currency Address''), (''idNumber'', a)])])]"

definition sample_doc :: "js list \<Rightarrow> js" where
  "sample_doc addrs = JObj [(''sdnList'', JObj [(''sdnEntry'', JArr (map sample_sdn addrs))])]"

definition sync_sample :: "bool \<Rightarrow> js list \<Rightarrow> sync_env" where
  "sync_sample batch addrs =
     \<lparr>configured = (\<lambda>k. None), fetch = (\<lambda>u. Some ''xml''), read_xml = (\<lambda>d. Some (sample_doc addrs)),
      batch_ok = batch, update_ok = True, publish_ok = True, sync_time = 9\<rparr>"

definition basic_db :: compliance_db where
  "basic_db = sample_db\<lparr>clients := [\<lparr>cl_id = 7, kytLevel = ''basic''\<rparr>]\<rparr>"

definition sample_rows :: sync_state where
  "sample_rows = \<lparr>rows = [\<lparr>listSource = ''OFAC_SDN'', entry_address = ''old'', entityName = None,
     entityId = None, entry_active = True, addressType = ''evm'', lastSyncedAt = 1\<rparr>], published = []\<rparr>"

definition sample_parsed :: "string \<Rightarrow> parsed_entry" where
  "sample_parsed a = \<lparr>sdnId = JStr ''17'', pe_name = JStr ''A'', cryptoAddress = a, currency = JStr ''Unknown''\<rparr>"

lemma sample_env_simps:
  "batch_ok (sync_sample b as) = b" "update_ok (sync_sample b as)" "publish_ok (sync_sample b as)"
  "read_xml (sync_sample b as) d = Some (sample_doc as)" "fetch (sync_sample b as) u = Some ''xml''"
  by (simp_all add: sync_sample_def)

lemma sample_downloaded:
  "downloaded (sync_sample b [JStr ''1New'']) ''OFAC_SDN'' = Some [sample_parsed ''1New'']"
proof -
  have "parseOfacXml (\<lambda>d. Some (sample_doc [JStr ''1New''])) ''xml'' = [sample_parsed ''1New'']" by code_simp
  moreover have "(\<lambda>d. Some (sample_doc [JStr ''1New''])) = read_xml (sync_sample b [JStr ''1New''])"
    by (simp add: sync_sample_def)
  ultimately show ?thesis by (simp add: downloaded_def reader_of_def sample_env_simps)
qed

lemma sample_storable: "list_all storable [sample_parsed ''1New'']"
  by code_simp

lemma basic_client: "find_client 7 basic_db = Some \<lparr>cl_id = 7, kytLevel = ''basic''\<rparr>"
  "lists_of_client \<lparr>cl_id = 7, kytLevel = ''basic''\<rparr> = [''OFAC_SDN'']"
  by (simp_all add: find_client_def basic_db_def lists_of_client_def KYT_LEVEL_LISTS_def)


theorem rejected_refresh_still_deactivates_witness:
  "so_action (projr (fst (screenAddress 0 True ''1New'' Outbound OnWithdrawal 7 None (screening_db basic_db
     (rows (snd (process_sync (sync_sample False [JStr ''1New'']) (Some ''OFAC_SDN'') sample_rows))))))) = Allowed"
proof -
  obtain out st' where p: "process_sync (sync_sample False [JStr ''1New'']) (Some ''OFAC_SDN'') sample_rows = (out, st')"
    by (cases "process_sync (sync_sample False [JStr ''1New'']) (Some ''OFAC_SDN'') sample_rows")
  have "lower ''1New'' \<notin> active_addresses ''OFAC_SDN'' (rows sample_rows)" by code_simp
  then show ?thesis
    using rejected_refresh_still_deactivates [OF p sample_downloaded _ _ _ _ basic_client(1),
        of 0 True "''1New''" Outbound OnWithdrawal None]
    by (simp add: p basic_client(2) sample_env_simps refreshed_action_def)
qed

end
