(* ===== verification/Registry.thy ===== *)
theory Registry
  imports ForwarderDeploy Detectors "HOL-Library.List_Lexorder"
begin

text \<open>
  The wallets of the clients, their deposit addresses and their address groups
  (services/core-wallet-service/src: wallet/wallet.service.ts, deposit-address/deposit-address.service.ts,
  address-group/address-group.service.ts, and the two address computations of
  blockchain/contract.service.ts). The tables are one state; the key vault's answers, the calls of the
  factories' view functions, the success of each write and of each publication, and the random group
  identifier are the fields of \<open>registry_env\<close>; the hash of an encoded triple and the address that
  ethers computes without a node are the fields of \<open>eth\<close>. The forwarders are deployed by the
  operations of the theory ForwarderDeploy and watched by those of Detectors, which read these tables.
\<close>

section \<open>State\<close>

record reg_chain =
  xn_id :: int
  xn_active :: bool
  xn_walletFactory :: "string option"
  xn_forwarderFactory :: "string option"

record wallet_entry =
  we_id :: ident
  we_client :: ident
  we_project :: ident
  we_chain :: int
  we_address :: string
  we_type :: string
  we_active :: bool

record address_entry = deposit_address +
  ae_project :: ident
  ae_wallet :: ident
  ae_external :: string
  ae_label :: "string option"
  ae_group :: "ident option"

record group_row =
  gr_id :: ident
  gr_uid :: string
  gr_client :: ident
  gr_project :: ident
  gr_external :: "string option"
  gr_label :: "string option"
  gr_salt :: string
  gr_address :: string
  gr_status :: string

record registry =
  xr_chains :: "reg_chain list"
  xr_wallets :: "wallet_entry list"
  xr_addresses :: "address_entry list"
  xr_groups :: "group_row list"
  xr_defaults :: "(ident \<times> ident) list"
  xr_alerts :: "(ident \<times> int) list"
  xr_stream :: "(string \<times> string) list list"
  xr_next :: ident

record vault_key =
  vk_type :: string
  vk_address :: string

record eth =
  hash_triple :: "int \<Rightarrow> int \<Rightarrow> string \<Rightarrow> string"
  zero_create2 :: "string \<Rightarrow> string"

record registry_env =
  ge_public :: "ident \<Rightarrow> error + vault_key list"
  ge_generate :: "ident \<Rightarrow> error + vault_key list"
  ge_gasTank :: "ident \<Rightarrow> int \<Rightarrow> error + string option"
  ge_provider :: "int \<Rightarrow> error + unit"
  ge_wallet_call :: "int \<Rightarrow> string \<Rightarrow> string list \<Rightarrow> string \<Rightarrow> error + string"
  ge_forwarder_call :: "int \<Rightarrow> string \<Rightarrow> string \<Rightarrow> string \<Rightarrow> string \<Rightarrow> string \<Rightarrow> error + string"
  ge_write :: "string \<Rightarrow> bool"
  ge_publish :: "string \<Rightarrow> bool"
  ge_uuid :: string

section \<open>Look-ups and writes\<close>

definition find_chain :: "int \<Rightarrow> registry \<Rightarrow> reg_chain option" where
  "find_chain chain st = find (\<lambda>c. xn_id c = chain) (xr_chains st)"

definition is_wallet :: "ident \<Rightarrow> int \<Rightarrow> string \<Rightarrow> wallet_entry \<Rightarrow> bool" where
  "is_wallet client chain ty w \<longleftrightarrow> we_client w = client \<and> we_chain w = chain \<and> sql_eq (we_type w) ty"

text \<open>\<open>findUnique\<close> on the unique key \<open>uq_client_chain_type\<close>.\<close>

definition getWallet :: "ident \<Rightarrow> int \<Rightarrow> string \<Rightarrow> registry \<Rightarrow> wallet_entry option" where
  "getWallet client chain ty st = find (is_wallet client chain ty) (xr_wallets st)"

definition listWallets :: "ident \<Rightarrow> registry \<Rightarrow> wallet_entry list" where
  "listWallets client st =
     sort_key we_chain (filter (\<lambda>w. we_client w = client) (sort_key (\<lambda>w. map (of_char :: char \<Rightarrow> nat) (lower (we_type w))) (xr_wallets st)))"

text \<open>The unique keys of \<open>wallets\<close> (database/004 and 025) and the widths of its columns.\<close>

definition insert_wallet ::
    "registry_env \<Rightarrow> ident \<Rightarrow> ident \<Rightarrow> int \<Rightarrow> string \<Rightarrow> string \<Rightarrow> registry \<Rightarrow> error + wallet_entry \<times> registry" where
  "insert_wallet env client project chain address ty st =
     (if list_ex (is_wallet client chain ty) (xr_wallets st)
         \<or> list_ex (\<lambda>w. we_chain w = chain \<and> sql_eq (we_address w) address) (xr_wallets st)
         \<or> length address > 100 \<or> length ty > 20 \<or> \<not> ge_write env ty
      then Inl (InternalError ''P2002'')
      else let w = \<lparr>we_id = xr_next st, we_client = client, we_project = project, we_chain = chain,
                    we_address = address, we_type = ty, we_active = True\<rparr>
           in Inr (w, st\<lparr>xr_wallets := xr_wallets st @ [w], xr_next := xr_next st + 1\<rparr>))"

text \<open>\<open>INSERT IGNORE INTO gas_tank_alert_config\<close>.\<close>

definition seed_alert :: "registry_env \<Rightarrow> ident \<Rightarrow> int \<Rightarrow> registry \<Rightarrow> error + registry" where
  "seed_alert env project chain st =
     (if \<not> ge_write env ''gas_tank_alert_config'' then Inl (InternalError ''query'')
      else Inr (st\<lparr>xr_alerts := List.insert (project, chain) (xr_alerts st)\<rparr>))"

definition registration :: "int \<Rightarrow> string \<Rightarrow> ident \<Rightarrow> ident \<Rightarrow> ident \<Rightarrow> string \<Rightarrow> (string \<times> string) list" where
  "registration chain address client project wallet ty =
     [(''chainId'', show_int chain), (''address'', address), (''clientId'', show_int client),
      (''projectId'', show_int project), (''walletId'', show_int wallet), (''addressType'', ty)]"

definition add_entry :: "(string \<times> string) list \<Rightarrow> registry \<Rightarrow> registry" where
  "add_entry d st = st\<lparr>xr_stream := xr_stream st @ [d]\<rparr>"

text \<open>\<open>publishAddressRegistered\<close> for each of the wallets in turn; the first failure ends it.\<close>

fun publish_wallets :: "registry_env \<Rightarrow> int \<Rightarrow> ident \<Rightarrow> ident \<Rightarrow> (string \<times> string) list \<Rightarrow> registry \<Rightarrow> registry" where
  "publish_wallets env chain client project [] st = st"
| "publish_wallets env chain client project ((a, ty) # ws) st =
     (if ge_publish env a
      then publish_wallets env chain client project ws (add_entry (registration chain a client project 0 ty) st)
      else st)"

section \<open>Computing addresses\<close>

definition computeForwarderAddress ::
    "registry_env \<Rightarrow> int \<Rightarrow> string \<Rightarrow> string \<Rightarrow> string \<Rightarrow> string \<Rightarrow> registry \<Rightarrow> error + string" where
  "computeForwarderAddress env chain deployer parent fee salt st =
     (case find_chain chain st of
        None \<Rightarrow> Inl (NotFound ''Chain not found'')
      | Some c \<Rightarrow>
     (case ge_provider env chain of
        Inl e \<Rightarrow> Inl e
      | Inr _ \<Rightarrow>
     (case or_null (xn_forwarderFactory c) of
        None \<Rightarrow> Inl (InternalError ''ForwarderFactory not deployed on chain'')
      | Some f \<Rightarrow> ge_forwarder_call env chain f deployer parent fee salt)))"

definition computeWalletAddress ::
    "registry_env \<Rightarrow> int \<Rightarrow> string list \<Rightarrow> string \<Rightarrow> registry \<Rightarrow> error + string" where
  "computeWalletAddress env chain signers salt st =
     (case find_chain chain st of
        None \<Rightarrow> Inl (NotFound ''Chain not found'')
      | Some c \<Rightarrow>
     (case ge_provider env chain of
        Inl e \<Rightarrow> Inl e
      | Inr _ \<Rightarrow>
     (case or_null (xn_walletFactory c) of
        None \<Rightarrow> Inl (InternalError ''WalletFactory not deployed on chain'')
      | Some f \<Rightarrow> ge_wallet_call env chain f signers salt)))"

section \<open>Wallets\<close>

text \<open>Any failure of the first request asks for new keys.\<close>

definition client_keys :: "registry_env \<Rightarrow> ident \<Rightarrow> error + vault_key list" where
  "client_keys env client = (case ge_public env client of Inr ks \<Rightarrow> Inr ks | Inl _ \<Rightarrow> ge_generate env client)"

definition three_signers :: "vault_key list \<Rightarrow> string list option" where
  "three_signers ks =
     (case (find (\<lambda>k. vk_type k = ''platform'') ks, find (\<lambda>k. vk_type k = ''client'') ks,
            find (\<lambda>k. vk_type k = ''backup'') ks) of
        (Some p, Some c, Some b) \<Rightarrow> Some [vk_address p, vk_address c, vk_address b]
      | _ \<Rightarrow> None)"

definition default_project :: "ident \<Rightarrow> registry \<Rightarrow> ident" where
  "default_project client st = (case map_of (xr_defaults st) client of None \<Rightarrow> 0 | Some p \<Rightarrow> p)"

text \<open>The writes of \<open>createWallets\<close>, one after the other: what is written before a failure stays. The
  answer of the vault may lack the key of the gas tank, which is only noticed when its address is read.\<close>

definition save_wallets ::
    "registry_env \<Rightarrow> ident \<Rightarrow> int \<Rightarrow> string \<Rightarrow> string option \<Rightarrow> registry \<Rightarrow> (error + string \<times> string) \<times> registry" where
  "save_wallets env client chain hot tank st =
     (let p = default_project client st in
      case insert_wallet env client p chain hot ''hot'' st of
        Inl e \<Rightarrow> (Inl e, st)
      | Inr (_, st1) \<Rightarrow>
     (case tank of
        None \<Rightarrow> (Inl (InternalError ''TypeError''), st1)
      | Some t \<Rightarrow>
     (case insert_wallet env client p chain t ''gas_tank'' st1 of
        Inl e \<Rightarrow> (Inl e, st1)
      | Inr (_, st2) \<Rightarrow>
     (case seed_alert env p chain st2 of
        Inl e \<Rightarrow> (Inl e, st2)
      | Inr st3 \<Rightarrow> (Inr (hot, t), publish_wallets env chain client p [(hot, ''hot''), (t, ''gas_tank'')] st3)))))"

definition createWallets ::
    "eth \<Rightarrow> registry_env \<Rightarrow> ident \<Rightarrow> int \<Rightarrow> registry \<Rightarrow> (error + string \<times> string) \<times> registry" where
  "createWallets h env client chain st =
     (if list_ex (\<lambda>w. we_client w = client \<and> we_chain w = chain) (xr_wallets st)
      then (Inl (Conflict ''Wallets already exist''), st)
      else
     (case find_chain chain st of
        None \<Rightarrow> (Inl (NotFound ''Chain not found or not active''), st)
      | Some c \<Rightarrow>
      if \<not> xn_active c then (Inl (NotFound ''Chain not found or not active''), st)
      else if or_null (xn_walletFactory c) = None then (Inl (BadRequest ''WalletFactory not configured''), st)
      else
     (case client_keys env client of
        Inl e \<Rightarrow> (Inl e, st)
      | Inr ks \<Rightarrow>
     (case three_signers ks of
        None \<Rightarrow> (Inl (InternalError ''Missing required key types''), st)
      | Some signers \<Rightarrow>
     (case ge_gasTank env client chain of
        Inl e \<Rightarrow> (Inl e, st)
      | Inr tank \<Rightarrow>
     (case computeWalletAddress env chain signers (hash_triple h client chain ''hot_wallet'') st of
        Inl e \<Rightarrow> (Inl e, st)
      | Inr hot \<Rightarrow> save_wallets env client chain hot tank st))))))"

definition registerWallet ::
    "registry_env \<Rightarrow> ident \<Rightarrow> ident \<Rightarrow> int \<Rightarrow> string \<Rightarrow> string \<Rightarrow> registry \<Rightarrow> (error + wallet_entry) \<times> registry" where
  "registerWallet env client project chain address ty st =
     (case find (\<lambda>w. is_wallet client chain ty w \<and> we_project w = project) (xr_wallets st) of
        Some w \<Rightarrow> (Inr w, st)
      | None \<Rightarrow>
     (case insert_wallet env client project chain address ty st of
        Inl e \<Rightarrow> (Inl e, st)
      | Inr (w, st1) \<Rightarrow>
     (case (if ty = ''gas_tank'' then seed_alert env project chain st1 else Inr st1) of
        Inl e \<Rightarrow> (Inl e, st1)
      | Inr st2 \<Rightarrow> (Inr w, publish_wallets env chain client project [(address, ty)] st2))))"

section \<open>Deposit addresses\<close>

definition computeSalt :: "eth \<Rightarrow> ident \<Rightarrow> int \<Rightarrow> string \<Rightarrow> string" where
  "computeSalt h client chain ext = hash_triple h client chain ext"

definition is_external :: "ident \<Rightarrow> int \<Rightarrow> string \<Rightarrow> address_entry \<Rightarrow> bool" where
  "is_external client chain ext a \<longleftrightarrow> da_client a = client \<and> da_chain a = chain \<and> sql_eq (ae_external a) ext"

definition insert_address ::
    "registry_env \<Rightarrow> wallet_entry \<Rightarrow> string \<Rightarrow> string \<Rightarrow> string option \<Rightarrow> string \<Rightarrow> ident option \<Rightarrow> registry \<Rightarrow>
     error + address_entry \<times> registry" where
  "insert_address env hot address ext lab salt grp st =
     (if list_ex (is_external (we_client hot) (we_chain hot) ext) (xr_addresses st)
         \<or> length address > 100 \<or> length ext > 200 \<or> (case lab of None \<Rightarrow> False | Some l \<Rightarrow> length l > 200)
         \<or> length salt > 66 \<or> \<not> ge_write env ext
      then Inl (InternalError ''P2002'')
      else let a = \<lparr>da_id = xr_next st, da_client = we_client hot, da_chain = we_chain hot, da_address = address,
                    da_salt = salt, da_deployed = False, ae_project = we_project hot, ae_wallet = we_id hot,
                    ae_external = ext, ae_label = lab, ae_group = grp\<rparr>
           in Inr (a, st\<lparr>xr_addresses := xr_addresses st @ [a], xr_next := xr_next st + 1\<rparr>))"

text \<open>The entry of a new address; a failure is only logged.\<close>

definition publish_address :: "registry_env \<Rightarrow> address_entry \<Rightarrow> registry \<Rightarrow> registry" where
  "publish_address env a st =
     (if ge_publish env (lower (da_address a))
      then add_entry (registration (da_chain a) (lower (da_address a)) (da_client a) (ae_project a) (da_id a) ''forwarder'') st
      else st)"

definition generateAddress ::
    "eth \<Rightarrow> registry_env \<Rightarrow> ident \<Rightarrow> int \<Rightarrow> string \<Rightarrow> string option \<Rightarrow> registry \<Rightarrow>
     (error + address_entry) \<times> registry" where
  "generateAddress h env client chain ext lab st =
     (case find (is_external client chain ext) (xr_addresses st) of
        Some a \<Rightarrow> (Inr a, st)
      | None \<Rightarrow>
     (case getWallet client chain ''hot'' st of
        None \<Rightarrow> (Inl (NotFound ''Hot wallet not found''), st)
      | Some hot \<Rightarrow>
     (case getWallet client chain ''gas_tank'' st of
        None \<Rightarrow> (Inl (NotFound ''Gas tank not found''), st)
      | Some tank \<Rightarrow>
          let salt = computeSalt h client chain ext in
     (case computeForwarderAddress env chain (we_address tank) (we_address hot) (we_address hot) salt st of
        Inl e \<Rightarrow> (Inl e, st)
      | Inr fwd \<Rightarrow>
     (case insert_address env hot fwd ext lab salt None st of
        Inl e \<Rightarrow> (Inl e, st)
      | Inr (a, st1) \<Rightarrow> (Inr a, publish_address env a st1))))))"

fun generateBatch ::
    "eth \<Rightarrow> registry_env \<Rightarrow> ident \<Rightarrow> int \<Rightarrow> (string \<times> string option) list \<Rightarrow> registry \<Rightarrow>
     (error + address_entry list) \<times> registry" where
  "generateBatch h env client chain [] st = (Inr [], st)"
| "generateBatch h env client chain ((ext, lab) # xs) st =
     (case generateAddress h env client chain ext lab st of
        (Inl e, st1) \<Rightarrow> (Inl e, st1)
      | (Inr a, st1) \<Rightarrow>
     (case generateBatch h env client chain xs st1 of
        (Inl e, st2) \<Rightarrow> (Inl e, st2)
      | (Inr as, st2) \<Rightarrow> (Inr (a # as), st2)))"

text \<open>A listed address with the inputs of its derivation and its deposits: their number and the time of the
  last one. The deposits are given as (client, forwarder, time).\<close>

record listed_entry =
  le_entry :: address_entry
  le_parent :: "string option"
  le_deployer :: "string option"
  le_factory :: "string option"
  le_deposits :: nat
  le_last :: "millis option"

definition last_value :: "('k \<Rightarrow> bool) \<Rightarrow> ('k \<Rightarrow> 'v) \<Rightarrow> 'k list \<Rightarrow> 'v option" where
  "last_value p f xs = map_option f (find p (rev xs))"

definition listAddresses ::
    "ident \<Rightarrow> int option \<Rightarrow> (ident \<times> string \<times> millis) list \<Rightarrow> registry \<Rightarrow> listed_entry list" where
  "listAddresses client chain deps st =
     (let as = filter (\<lambda>a. da_client a = client \<and> (case chain of None \<Rightarrow> True | Some c \<Rightarrow> c = 0 \<or> da_chain a = c)) (xr_addresses st)
      in map (\<lambda>a.
           let hot = last_value (\<lambda>w. we_id w = ae_wallet a) we_address (xr_wallets st);
               ds = filter (\<lambda>(c, f, t). c = client \<and> sql_eq f (da_address a)) deps
           in \<lparr>le_entry = a, le_parent = hot,
               le_deployer = last_value (is_wallet client (da_chain a) ''gas_tank'') we_address (xr_wallets st),
               le_factory = (case find_chain (da_chain a) st of None \<Rightarrow> None | Some c \<Rightarrow> xn_forwarderFactory c),
               le_deposits = length ds,
               le_last = (if ds = [] then None else Some (Max (set (map (snd \<circ> snd) ds))))\<rparr>) (rev as))"

section \<open>Address groups\<close>

datatype provision_status = Created | AlreadyExists | ProvisionError error

record provision =
  pv_chain :: int
  pv_address :: string
  pv_status :: provision_status

definition insert_group :: "registry_env \<Rightarrow> group_row \<Rightarrow> registry \<Rightarrow> error + group_row \<times> registry" where
  "insert_group env g st =
     (if list_ex (\<lambda>r. sql_eq (gr_uid r) (gr_uid g)
                      \<or> gr_client r = gr_client g \<and> sql_eq (gr_salt r) (gr_salt g)) (xr_groups st)
         \<or> length (gr_address g) > 42 \<or> length (gr_salt g) > 66
         \<or> (case gr_external g of None \<Rightarrow> False | Some x \<Rightarrow> length x > 255)
         \<or> (case gr_label g of None \<Rightarrow> False | Some x \<Rightarrow> length x > 255) \<or> \<not> ge_write env ''address_groups''
      then Inl (InternalError ''P2002'')
      else let r = g\<lparr>gr_id := xr_next st\<rparr>
           in Inr (r, st\<lparr>xr_groups := xr_groups st @ [r], xr_next := xr_next st + 1\<rparr>))"

text \<open>The address of a group is computed with the first hot wallet and the first gas tank of the client, in the
  order of the table; when one is missing, or when the node fails, it is the address that the zero address would
  deploy to.\<close>

definition group_address :: "eth \<Rightarrow> registry_env \<Rightarrow> ident \<Rightarrow> string \<Rightarrow> registry \<Rightarrow> string" where
  "group_address h env client salt st =
     (case (find (\<lambda>w. we_client w = client \<and> sql_eq (we_type w) ''hot'') (xr_wallets st),
            find (\<lambda>w. we_client w = client \<and> sql_eq (we_type w) ''gas_tank'') (xr_wallets st)) of
        (Some hot, Some tank) \<Rightarrow>
          (case computeForwarderAddress env (we_chain hot) (we_address tank) (we_address hot) (we_address hot) salt st of
             Inr a \<Rightarrow> a | Inl _ \<Rightarrow> zero_create2 h salt)
      | _ \<Rightarrow> zero_create2 h salt)"

definition createGroup ::
    "eth \<Rightarrow> registry_env \<Rightarrow> ident \<Rightarrow> ident \<Rightarrow> string option \<Rightarrow> string option \<Rightarrow> registry \<Rightarrow>
     (error + group_row) \<times> registry" where
  "createGroup h env client project ext lab st =
     (let uid = ''ag_'' @ filter (\<lambda>c. c \<noteq> CHR ''-'') (ge_uuid env);
          salt = hash_triple h client project uid
      in if list_ex (\<lambda>r. gr_client r = client \<and> sql_eq (gr_salt r) salt) (xr_groups st)
         then (Inl (Conflict ''Address group with this derivation salt already exists''), st)
         else (case insert_group env
                 \<lparr>gr_id = 0, gr_uid = uid, gr_client = client, gr_project = project, gr_external = ext, gr_label = lab,
                  gr_salt = salt, gr_address = group_address h env client salt st, gr_status = ''active''\<rparr> st of
                 Inl e \<Rightarrow> (Inl e, st)
               | Inr (g, st1) \<Rightarrow> (Inr g, st1)))"

definition provision_one :: "registry_env \<Rightarrow> ident \<Rightarrow> group_row \<Rightarrow> int \<Rightarrow> registry \<Rightarrow> provision \<times> registry" where
  "provision_one env client g chain st =
     (let failed = (\<lambda>e. \<lparr>pv_chain = chain, pv_address = [], pv_status = ProvisionError e\<rparr>) in
      case find (\<lambda>a. da_client a = client \<and> da_chain a = chain \<and> ae_group a = Some (gr_id g)) (xr_addresses st) of
        Some a \<Rightarrow> (\<lparr>pv_chain = chain, pv_address = da_address a, pv_status = AlreadyExists\<rparr>, st)
      | None \<Rightarrow>
     (case (getWallet client chain ''hot'' st, getWallet client chain ''gas_tank'' st) of
        (Some hot, Some tank) \<Rightarrow>
     (case computeForwarderAddress env chain (we_address tank) (we_address hot) (we_address hot) (gr_salt g) st of
        Inl e \<Rightarrow> (failed e, st)
      | Inr fwd \<Rightarrow>
     (case insert_address env hot fwd (case gr_external g of None \<Rightarrow> gr_uid g | Some x \<Rightarrow> x) (gr_label g) (gr_salt g)
             (Some (gr_id g)) st of
        Inl e \<Rightarrow> (failed e, st)
      | Inr (a, st1) \<Rightarrow>
          (\<lparr>pv_chain = chain, pv_address = fwd, pv_status = Created\<rparr>, publish_address env a st1)))
      | _ \<Rightarrow> (failed (InternalError ''Hot wallet or gas tank not found''), st)))"

fun provision_all :: "registry_env \<Rightarrow> ident \<Rightarrow> group_row \<Rightarrow> int list \<Rightarrow> registry \<Rightarrow> provision list \<times> registry" where
  "provision_all env client g [] st = ([], st)"
| "provision_all env client g (c # cs) st =
     (let (p, st1) = provision_one env client g c st; (ps, st2) = provision_all env client g cs st1
      in (p # ps, st2))"

definition provisionOnChains ::
    "registry_env \<Rightarrow> ident \<Rightarrow> ident \<Rightarrow> int list \<Rightarrow> registry \<Rightarrow> (error + provision list) \<times> registry" where
  "provisionOnChains env client n targets st =
     (case find (\<lambda>g. gr_id g = n \<and> gr_client g = client) (xr_groups st) of
        None \<Rightarrow> (Inl (NotFound ''Address group not found''), st)
      | Some g \<Rightarrow> (let (ps, st1) = provision_all env client g targets st in (Inr ps, st1)))"

definition provisionGroup ::
    "registry_env \<Rightarrow> string \<Rightarrow> int list \<Rightarrow> ident option \<Rightarrow> registry \<Rightarrow> (error + provision list) \<times> registry" where
  "provisionGroup env uid targets client st =
     (case find (\<lambda>g. sql_eq (gr_uid g) uid) (xr_groups st) of
        None \<Rightarrow> (Inl (NotFound ''Address group not found''), st)
      | Some g \<Rightarrow>
      if client \<noteq> None \<and> client \<noteq> Some (gr_client g) then (Inl (Forbidden ''Address group does not belong to this client''), st)
      else if list_ex (\<lambda>n. \<not> list_ex (\<lambda>c. xn_id c = n \<and> xn_active c) (xr_chains st)) targets
      then (Inl (NotFound ''Unsupported or inactive chain IDs''), st)
      else provisionOnChains env (gr_client g) (gr_id g) targets st)"

definition getGroup :: "ident \<Rightarrow> ident \<Rightarrow> registry \<Rightarrow> error + group_row \<times> address_entry list" where
  "getGroup client n st =
     (case find (\<lambda>g. gr_id g = n \<and> gr_client g = client) (xr_groups st) of
        None \<Rightarrow> Inl (NotFound ''Address group not found'')
      | Some g \<Rightarrow> Inr (g, filter (\<lambda>a. ae_group a = Some n) (xr_addresses st)))"

text \<open>A page of groups, the newest first; the page and its size as parsed from the query, counted from one.\<close>

definition listGroups ::
    "ident \<Rightarrow> ident option \<Rightarrow> string option \<Rightarrow> nat \<Rightarrow> nat \<Rightarrow> registry \<Rightarrow> (group_row \<times> address_entry list) list \<times> nat" where
  "listGroups client project status page size_of st =
     (let gs = filter (\<lambda>g. gr_client g = client
                 \<and> (case project of None \<Rightarrow> True | Some p \<Rightarrow> p = 0 \<or> gr_project g = p)
                 \<and> (case status of None \<Rightarrow> True | Some s \<Rightarrow> s = [] \<or> sql_eq (gr_status g) s)) (rev (xr_groups st))
      in (map (\<lambda>g. (g, filter (\<lambda>a. ae_group a = Some (gr_id g)) (xr_addresses st)))
            (take size_of (drop ((page - 1) * size_of) gs)), length gs))"


section \<open>The writes\<close>

text \<open>For the proofs, the operations as sequences of single writes. \<open>create2\<close> is what a factory deploys: the address of the
  forwarder that a sender creates with a parent, a fee address and a salt. The node tells the truth about it.\<close>

definition honest :: "(int \<Rightarrow> string \<Rightarrow> string \<Rightarrow> string \<Rightarrow> string \<Rightarrow> string \<Rightarrow> string) \<Rightarrow> registry_env \<Rightarrow> bool" where
  "honest create2 env \<longleftrightarrow>
     (\<forall>c f d p fe s a. ge_forwarder_call env c f d p fe s = Inr a \<longrightarrow> a = create2 c f d p fe s)"

inductive registry_write ::
    "(int \<Rightarrow> string \<Rightarrow> string \<Rightarrow> string \<Rightarrow> string \<Rightarrow> string \<Rightarrow> string) \<Rightarrow> registry \<Rightarrow> registry \<Rightarrow> bool"
  for create2 where
  wallet: "insert_wallet env client project chain address ty st = Inr (w, st') \<Longrightarrow> registry_write create2 st st'"
| alert: "seed_alert env project chain st = Inr st' \<Longrightarrow> registry_write create2 st st'"
| entry: "registry_write create2 st (add_entry d st)"
| grouped: "insert_group env g st = Inr (g', st') \<Longrightarrow> registry_write create2 st st'"
| address: "honest create2 env \<Longrightarrow> getWallet client chain ''hot'' st = Some hot \<Longrightarrow>
    getWallet client chain ''gas_tank'' st = Some tank \<Longrightarrow>
    computeForwarderAddress env chain (we_address tank) (we_address hot) (we_address hot) salt st = Inr fwd \<Longrightarrow>
    insert_address env' hot fwd ext lab salt grp st = Inr (a, st') \<Longrightarrow> registry_write create2 st st'"

inductive_cases registry_writeE: "registry_write create2 st st'"

abbreviation write_run where
  "write_run create2 \<equiv> (registry_write create2)\<^sup>*\<^sup>*"

lemma run_step: "write_run create2 a st \<Longrightarrow> registry_write create2 st st' \<Longrightarrow> write_run create2 a st'"
  by (rule rtranclp.rtrancl_into_rtrancl)

lemma run_wallet: "insert_wallet env client project chain address ty st = Inr (w, st') \<Longrightarrow>
    write_run create2 a st \<Longrightarrow> write_run create2 a st'"
  by (erule run_step) (erule registry_write.wallet)

lemma run_alert: "seed_alert env project chain st = Inr st' \<Longrightarrow> write_run create2 a st \<Longrightarrow> write_run create2 a st'"
  by (erule run_step) (erule registry_write.alert)

lemma run_entry: "write_run create2 a st \<Longrightarrow> write_run create2 a (add_entry d st)"
  by (erule run_step) (rule registry_write.entry)

lemma run_group: "insert_group env g st = Inr (g', st') \<Longrightarrow> write_run create2 a st \<Longrightarrow> write_run create2 a st'"
  by (erule run_step) (erule registry_write.grouped)

lemma run_address: "insert_address env' hot fwd ext lab salt grp st = Inr (b, st') \<Longrightarrow> honest create2 env \<Longrightarrow>
    getWallet client chain ''hot'' st = Some hot \<Longrightarrow> getWallet client chain ''gas_tank'' st = Some tank \<Longrightarrow>
    computeForwarderAddress env chain (we_address tank) (we_address hot) (we_address hot) salt st = Inr fwd \<Longrightarrow>
    write_run create2 a st \<Longrightarrow> write_run create2 a st'"
  by (erule run_step) (rule registry_write.address)

lemma run_publish_wallets:
  "write_run create2 a st \<Longrightarrow> write_run create2 a (publish_wallets env chain client project ws st)"
proof (induction ws arbitrary: st)
  case (Cons w ws)
  then show ?case by (cases w) (simp add: run_entry)
qed simp

lemma run_publish_address: "write_run create2 a st \<Longrightarrow> write_run create2 a (publish_address env b st)"
  by (simp add: publish_address_def run_entry)

lemma run_save_wallets: "write_run create2 st (snd (save_wallets env client chain hot tank st))"
  unfolding save_wallets_def Let_def
  by (auto simp del: publish_wallets.simps split: sum.split option.split
      intro!: run_publish_wallets elim!: run_wallet run_alert)

lemma run_createWallets: "write_run create2 st (snd (createWallets h env client chain st))"
  using run_save_wallets by (auto simp: createWallets_def split: sum.split option.split)

lemma run_registerWallet: "write_run create2 st (snd (registerWallet env client project chain address ty st))"
  unfolding registerWallet_def
  by (auto simp del: publish_wallets.simps split: sum.split option.split
      intro!: run_publish_wallets elim!: run_wallet run_alert)

lemma run_generateAddress:
  assumes "honest create2 env"
  shows "write_run create2 st (snd (generateAddress h env client chain ext lab st))"
  using assms unfolding generateAddress_def Let_def
  by (auto split: sum.split option.split intro!: run_publish_address elim!: run_address)

lemma run_generateBatch:
  "honest create2 env \<Longrightarrow> write_run create2 st (snd (generateBatch h env client chain items st))"
proof (induction items arbitrary: st)
  case (Cons x xs)
  obtain ext lab where x: "x = (ext, lab)" by (cases x)
  obtain r st1 where g: "generateAddress h env client chain ext lab st = (r, st1)"
    by (cases "generateAddress h env client chain ext lab st")
  have "write_run create2 st st1"
    using run_generateAddress [OF Cons.prems, of st h client chain ext lab] g by simp
  moreover have "write_run create2 st1 (snd (generateBatch h env client chain xs st1))"
    using Cons by simp
  ultimately show ?case
    by (auto simp: x g case_prod_beta split: sum.split intro: rtranclp_trans)
qed simp

lemma run_createGroup: "write_run create2 st (snd (createGroup h env client project ext lab st))"
  by (auto simp: createGroup_def Let_def split: sum.split elim!: run_group)

lemma run_provision_one:
  "honest create2 env \<Longrightarrow> write_run create2 st (snd (provision_one env client g chain st))"
  unfolding provision_one_def Let_def
  by (auto split: sum.split option.split intro!: run_publish_address elim!: run_address)

lemma run_provision_all:
  "honest create2 env \<Longrightarrow> write_run create2 st (snd (provision_all env client g cs st))"
proof (induction cs arbitrary: st)
  case (Cons c cs)
  then show ?case
    using rtranclp_trans [OF run_provision_one [OF Cons.prems, of st client g c] Cons.IH [OF Cons.prems]]
    by (simp add: case_prod_beta Let_def)
qed simp

lemma run_provisionOnChains:
  "honest create2 env \<Longrightarrow> write_run create2 st (snd (provisionOnChains env client n cs st))"
  using run_provision_all by (auto simp: provisionOnChains_def case_prod_beta Let_def split: option.split)

lemma run_provisionGroup:
  "honest create2 env \<Longrightarrow> write_run create2 st (snd (provisionGroup env uid cs client st))"
  using run_provisionOnChains by (auto simp: provisionGroup_def split: option.split)

section \<open>Every address is one that the factory deploys\<close>

definition sound_entry ::
    "(int \<Rightarrow> string \<Rightarrow> string \<Rightarrow> string \<Rightarrow> string \<Rightarrow> string \<Rightarrow> string) \<Rightarrow> registry \<Rightarrow> address_entry \<Rightarrow> bool" where
  "sound_entry create2 st a \<longleftrightarrow>
     (\<exists>hot tank c f. getWallet (da_client a) (da_chain a) ''hot'' st = Some hot
        \<and> getWallet (da_client a) (da_chain a) ''gas_tank'' st = Some tank
        \<and> find_chain (da_chain a) st = Some c \<and> or_null (xn_forwarderFactory c) = Some f
        \<and> da_address a = create2 (da_chain a) f (we_address tank) (we_address hot) (we_address hot) (da_salt a)
        \<and> ae_wallet a = we_id hot \<and> ae_project a = we_project hot)"

definition wallet_key :: "wallet_entry \<Rightarrow> ident \<times> int \<times> string" where
  "wallet_key w = (we_client w, we_chain w, lower (we_type w))"

definition external_key :: "address_entry \<Rightarrow> ident \<times> int \<times> string" where
  "external_key a = (da_client a, da_chain a, lower (ae_external a))"

definition registry_inv ::
    "(int \<Rightarrow> string \<Rightarrow> string \<Rightarrow> string \<Rightarrow> string \<Rightarrow> string \<Rightarrow> string) \<Rightarrow> registry \<Rightarrow> bool" where
  "registry_inv create2 st \<longleftrightarrow>
     (\<forall>a \<in> set (xr_addresses st). sound_entry create2 st a)
     \<and> distinct (map external_key (xr_addresses st)) \<and> distinct (map wallet_key (xr_wallets st))"

definition registry_start :: "registry \<Rightarrow> bool" where
  "registry_start st \<longleftrightarrow> xr_addresses st = [] \<and> xr_wallets st = []"

lemma sound_entry_mono:
  assumes "sound_entry create2 st a" "xr_chains st' = xr_chains st" "\<exists>ws. xr_wallets st' = xr_wallets st @ ws"
  shows "sound_entry create2 st' a"
proof -
  have "getWallet c n ty st = Some w \<Longrightarrow> getWallet c n ty st' = Some w" for c n ty w
    using assms(3) by (auto simp: getWallet_def find_append_Some)
  moreover have "find_chain n st' = find_chain n st" for n
    using assms(2) by (simp add: find_chain_def)
  ultimately show ?thesis using assms(1) unfolding sound_entry_def by fastforce
qed

lemma insert_walletD:
  assumes "insert_wallet env client project chain address ty st = Inr (w, st')"
  shows "xr_wallets st' = xr_wallets st @ [w]" "xr_chains st' = xr_chains st" "xr_addresses st' = xr_addresses st"
    and "wallet_key w \<notin> wallet_key ` set (xr_wallets st)"
    and "we_client w = client" "we_chain w = chain" "we_address w = address" "we_type w = ty" "we_project w = project"
  using assms
  by (auto simp: insert_wallet_def Let_def list_ex_iff is_wallet_def wallet_key_def sql_eq_def image_iff split: if_splits)

lemma insert_addressD:
  assumes "insert_address env hot address ext lab salt grp st = Inr (a, st')"
  shows "xr_addresses st' = xr_addresses st @ [a]" "xr_chains st' = xr_chains st" "xr_wallets st' = xr_wallets st"
    and "external_key a \<notin> external_key ` set (xr_addresses st)"
    and "da_client a = we_client hot" "da_chain a = we_chain hot" "da_address a = address" "da_salt a = salt"
    and "ae_wallet a = we_id hot" "ae_project a = we_project hot" "ae_external a = ext" "ae_group a = grp" "da_deployed a = False"
  using assms
  by (auto simp: insert_address_def Let_def list_ex_iff is_external_def external_key_def sql_eq_def image_iff split: if_splits)

lemma getWalletD: "getWallet client chain ty st = Some w \<Longrightarrow>
    we_client w = client \<and> we_chain w = chain \<and> sql_eq (we_type w) ty \<and> w \<in> set (xr_wallets st)"
  by (auto simp: getWallet_def is_wallet_def dest: find_SomeD)

lemma computeForwarderAddressD:
  assumes "computeForwarderAddress env chain d p fe salt st = Inr a" "honest create2 env"
  shows "\<exists>c f. find_chain chain st = Some c \<and> or_null (xn_forwarderFactory c) = Some f \<and> a = create2 chain f d p fe salt"
  using assms by (auto simp: computeForwarderAddress_def honest_def split: option.splits sum.splits)

lemma write_chains: "registry_write create2 st st' \<Longrightarrow> xr_chains st' = xr_chains st"
  by (erule registry_writeE) (auto dest: insert_walletD(2) insert_addressD(2)
      simp: seed_alert_def add_entry_def insert_group_def Let_def split: if_splits)

lemma run_chains: "write_run create2 st st' \<Longrightarrow> xr_chains st' = xr_chains st"
  by (induction rule: rtranclp_induct) (simp_all add: write_chains)

lemma frame_inv:
  assumes "registry_inv create2 st" "xr_chains st' = xr_chains st" "xr_wallets st' = xr_wallets st"
    and "xr_addresses st' = xr_addresses st"
  shows "registry_inv create2 st'"
  using assms sound_entry_mono [of create2 st _ st'] by (auto simp: registry_inv_def)

lemma write_inv: "registry_inv create2 st \<Longrightarrow> registry_write create2 st st' \<Longrightarrow> registry_inv create2 st'"
proof (elim registry_writeE)
  fix env client project chain address ty w
  assume i: "registry_inv create2 st" and w: "insert_wallet env client project chain address ty st = Inr (w, st')"
  have "sound_entry create2 st' a" if "sound_entry create2 st a" for a
    using sound_entry_mono [OF that insert_walletD(2) [OF w]] insert_walletD(1) [OF w] by blast
  then show "registry_inv create2 st'"
    using i insert_walletD(1,3,4) [OF w] by (auto simp: registry_inv_def)
next
  fix env client chain hot tank salt fwd env' ext lab grp a
  assume i: "registry_inv create2 st" and n: "honest create2 env"
    and w: "getWallet client chain ''hot'' st = Some hot" "getWallet client chain ''gas_tank'' st = Some tank"
    and f: "computeForwarderAddress env chain (we_address tank) (we_address hot) (we_address hot) salt st = Inr fwd"
    and a: "insert_address env' hot fwd ext lab salt grp st = Inr (a, st')"
  note d = insert_addressD [OF a]
  have sound: "sound_entry create2 st' b" if "sound_entry create2 st b" for b
    using sound_entry_mono [OF that d(2)] d(3) by simp
  moreover have "sound_entry create2 st a"
    using computeForwarderAddressD [OF f n] w d(5-10) getWalletD [OF w(1)] by (auto simp: sound_entry_def)
  ultimately show "registry_inv create2 st'"
    using i d(1,3,4) by (auto simp: registry_inv_def)
qed (auto elim!: frame_inv simp: seed_alert_def add_entry_def insert_group_def Let_def split: if_splits)

text \<open>The requests of the API in any order and with any failures. Those that compute an address ask a node that tells
  the truth about the factory.\<close>

inductive registry_step ::
    "(int \<Rightarrow> string \<Rightarrow> string \<Rightarrow> string \<Rightarrow> string \<Rightarrow> string \<Rightarrow> string) \<Rightarrow> registry \<Rightarrow> registry \<Rightarrow> bool"
  for create2 where
  wallets: "registry_step create2 st (snd (createWallets h env client chain st))"
| registered: "registry_step create2 st (snd (registerWallet env client project chain address ty st))"
| address: "honest create2 env \<Longrightarrow> registry_step create2 st (snd (generateAddress h env client chain ext lab st))"
| batch: "honest create2 env \<Longrightarrow> registry_step create2 st (snd (generateBatch h env client chain items st))"
| grouped: "registry_step create2 st (snd (createGroup h env client project ext lab st))"
| provisioned: "honest create2 env \<Longrightarrow> registry_step create2 st (snd (provisionGroup env uid targets client' st))"

abbreviation registry_run where
  "registry_run create2 \<equiv> (registry_step create2)\<^sup>*\<^sup>*"

lemma step_writes: "registry_step create2 st st' \<Longrightarrow> write_run create2 st st'"
  by (induction rule: registry_step.induct)
    (rule run_createWallets run_registerWallet run_generateAddress run_generateBatch run_createGroup run_provisionGroup; assumption?)+

lemma run_writes: "registry_run create2 st st' \<Longrightarrow> write_run create2 st st'"
  by (induction rule: rtranclp_induct) (auto dest: step_writes)

lemma writes_inv: "write_run create2 st st' \<Longrightarrow> registry_inv create2 st \<Longrightarrow> registry_inv create2 st'"
  by (induction rule: rtranclp_induct) (auto intro: write_inv)

interpretation registering: machine registry_start "registry_step create2" "registry_inv create2" for create2
  by unfold_locales (simp add: registry_inv_def registry_start_def, rule writes_inv [OF step_writes])


text \<open>The tables as the sweep and the deployment read them.\<close>

definition sweep_type :: "string \<Rightarrow> sweep_wallet_type" where
  "sweep_type ty = (if sql_eq ty ''hot'' then SweepHot else if sql_eq ty ''gas_tank'' then SweepGasTank else SweepOther ty)"

definition wallet_view :: "wallet_entry \<Rightarrow> sweep_wallet" where
  "wallet_view w =
     \<lparr>sw_id = we_id w, sw_client = we_client w, sw_project = we_project w, sw_chain = we_chain w,
      sw_address = we_address w, sw_type = sweep_type (we_type w), sw_active = we_active w\<rparr>"

definition chain_view :: "reg_chain \<Rightarrow> sweep_chain" where
  "chain_view c = \<lparr>sc_id = xn_id c, sc_active = xn_active c, sc_factory = xn_forwarderFactory c\<rparr>"

definition same_tables :: "registry \<Rightarrow> sweep_state \<Rightarrow> bool" where
  "same_tables reg st \<longleftrightarrow>
     sd_wallets st = map wallet_view (xr_wallets reg) \<and> sd_chains st = map chain_view (xr_chains reg)"

lemma sweep_type_iff [simp]:
  "sweep_type ty = SweepHot \<longleftrightarrow> sql_eq ty ''hot''" "sweep_type ty = SweepGasTank \<longleftrightarrow> sql_eq ty ''gas_tank''"
proof -
  have "lower ''hot'' \<noteq> lower ''gas_tank''" by code_simp
  then show "sweep_type ty = SweepHot \<longleftrightarrow> sql_eq ty ''hot''" "sweep_type ty = SweepGasTank \<longleftrightarrow> sql_eq ty ''gas_tank''"
    by (auto simp: sweep_type_def sql_eq_def)
qed

lemma find_map: "find p (map f xs) = map_option f (find (p \<circ> f) xs)"
  by (induction xs) auto

lemma same_wallets:
  assumes "same_tables reg st"
  shows "find_sweep_wallet client chain SweepHot st = map_option wallet_view (getWallet client chain ''hot'' reg)"
    and "find_sweep_wallet client chain SweepGasTank st = map_option wallet_view (getWallet client chain ''gas_tank'' reg)"
  using assms
  by (simp_all add: same_tables_def find_sweep_wallet_def getWallet_def find_map comp_def wallet_view_def
      is_wallet_def [abs_def] conj_assoc)

lemma same_chain:
  assumes "same_tables reg st"
  shows "find (\<lambda>c. sc_id c = n) (sd_chains st) = map_option chain_view (find_chain n reg)"
  using assms by (simp add: same_tables_def find_chain_def find_map comp_def chain_view_def)

lemma deploy_worker:
  assumes "find_sweep_wallet (da_client a) chain SweepHot st = Some hot"
    and "find_sweep_wallet (da_client a) chain SweepGasTank st = Some tank"
    and "fd_code env (da_address a) = Inr False"
  shows "sw_worker (snd (deploy_one env chain factory a (n, st))) =
    snd (submit_from (fd_attempt env (da_id a)) chain (da_client a) GasTankKey (sw_address tank) factory
      (RawData (fd_encode env (sw_address hot) (da_salt a))) DEPLOY_GAS_LIMIT (sw_worker st))"
  using assms
  by (simp add: deploy_one_def settle_native_def mark_deployed_def logSubmit_def Let_def
      split: sum.split prod.split option.split)

text \<open>Claim C10. Whatever requests made the tables (wallets created and registered, addresses generated singly, in
  batches and for groups), and whichever of their writes and publications failed, as long as the node that was
  asked for an address told the truth: the transaction by which the deployment creates a generated address is sent from the gas tank of its client to
  the factory of its chain and names the hot wallet as parent and the address's own salt, and what the factory
  deploys for that sender, parent and salt is the address that was handed out.\<close>

theorem deployment_creates_the_generated_address:
  assumes "registry_start r" "registry_run create2 r reg" "a \<in> set (xr_addresses reg)" "same_tables reg st"
    and "find (\<lambda>c. sc_id c = da_chain a) (sd_chains st) = Some c" "or_null (sc_factory c) = Some factory"
    and "fd_code env (da_address a) = Inr False"
  shows "\<exists>hot tank. create2 (da_chain a) factory tank hot hot (da_salt a) = da_address a
    \<and> sw_worker (snd (deploy_one env (da_chain a) factory (deposit_address.truncate a) (n, st))) =
        snd (submit_from (fd_attempt env (da_id a)) (da_chain a) (da_client a) GasTankKey tank factory
          (RawData (fd_encode env hot (da_salt a))) DEPLOY_GAS_LIMIT (sw_worker st))"
proof -
  have "sound_entry create2 reg a"
    using registering.inv_reachable [OF assms(1,2)] assms(3) by (simp add: registry_inv_def)
  then obtain hot tank c' f where w: "getWallet (da_client a) (da_chain a) ''hot'' reg = Some hot"
    "getWallet (da_client a) (da_chain a) ''gas_tank'' reg = Some tank"
    and c': "find_chain (da_chain a) reg = Some c'" "or_null (xn_forwarderFactory c') = Some f"
    and a: "da_address a = create2 (da_chain a) f (we_address tank) (we_address hot) (we_address hot) (da_salt a)"
    unfolding sound_entry_def by blast
  have "f = factory"
    using same_chain [OF assms(4), of "da_chain a"] assms(5,6) c' by (auto simp: chain_view_def)
  moreover have "sw_address (wallet_view w) = we_address w" for w by (simp add: wallet_view_def)
  ultimately show ?thesis
    using deploy_worker [of "deposit_address.truncate a" "da_chain a" st "wallet_view hot" "wallet_view tank" env factory n]
      w a assms(7) same_wallets [OF assms(4)] by (auto simp: deposit_address.truncate_def)
qed

section \<open>Wallets that are created by halves\<close>

lemma save_wallets_half:
  assumes "save_wallets env client chain hot tank st = (r, st1)" "\<not> ge_write env ''gas_tank''"
  shows "(\<exists>e. r = Inl e) \<and> (xr_wallets st1 = xr_wallets st
    \<or> (\<exists>w. xr_wallets st1 = xr_wallets st @ [w] \<and> we_client w = client \<and> we_chain w = chain \<and> we_type w = ''hot''))"
proof (cases "insert_wallet env client (default_project client st) chain hot ''hot'' st")
  case (Inl e)
  then show ?thesis using assms(1) by (auto simp: save_wallets_def)
next
  case (Inr p)
  then obtain w st2 where p: "insert_wallet env client (default_project client st) chain hot ''hot'' st = Inr (w, st2)"
    by (cases p) auto
  have "insert_wallet env client q chain t ''gas_tank'' st2 = Inl (InternalError ''P2002'')" for q t
    using assms(2) by (simp add: insert_wallet_def)
  then have "(\<exists>e. r = Inl e) \<and> st1 = st2"
    using assms(1) p by (auto simp: save_wallets_def Let_def split: option.splits)
  then show ?thesis using insert_walletD(1,5,6,8) [OF p] by blast
qed

text \<open>The two wallets of a client on a chain are written one after the other: when the second write fails,
  the first stays, every later creation is refused because wallets exist, and no deposit address can be
  generated on the chain because the gas tank does not.\<close>

lemma half_created_wallets_block_the_chain:
  assumes "createWallets h env client chain st = (r, st1)" "xr_wallets st1 \<noteq> xr_wallets st"
    and "\<not> ge_write env ''gas_tank''" "find (is_external client chain ext) (xr_addresses st1) = None"
  shows "(\<exists>e. r = Inl e)
    \<and> createWallets h env' client chain st1 = (Inl (Conflict ''Wallets already exist''), st1)
    \<and> generateAddress h env' client chain ext lab st1 = (Inl (NotFound ''Gas tank not found''), st1)"
proof -
  have none: "\<not> list_ex (\<lambda>w. we_client w = client \<and> we_chain w = chain) (xr_wallets st)"
    using assms(1,2) by (auto simp: createWallets_def)
  obtain hot tank where s: "save_wallets env client chain hot tank st = (r, st1)"
    using assms(1,2) by (auto simp: createWallets_def split: if_splits option.splits sum.splits)
  obtain w where w: "xr_wallets st1 = xr_wallets st @ [w]" "we_client w = client" "we_chain w = chain" "we_type w = ''hot''"
    using save_wallets_half [OF s assms(3)] assms(2) by blast
  have e: "\<exists>e. r = Inl e" using save_wallets_half [OF s assms(3)] by blast
  have "\<not> sql_eq ''hot'' ''gas_tank''" by code_simp
  then have "getWallet client chain ''gas_tank'' st1 = None"
    using none w by (auto simp: getWallet_def find_None_iff is_wallet_def list_ex_iff)
  moreover have "find (is_wallet client chain ''hot'') (xr_wallets st) = None"
    using none by (auto simp: find_None_iff is_wallet_def list_ex_iff)
  then have "getWallet client chain ''hot'' st1 = Some w"
    using w by (simp add: getWallet_def find_append_None is_wallet_def)
  ultimately show ?thesis
    using e w assms(4) by (auto simp: createWallets_def generateAddress_def list_ex_iff)
qed

section \<open>One address for two identifiers\<close>

lemma generated_is_found:
  assumes "generateAddress h env client chain ext lab st = (Inr a, st1)"
  shows "find (is_external client chain ext) (xr_addresses st1) = Some a"
proof (cases "find (is_external client chain ext) (xr_addresses st)")
  case (Some b)
  then show ?thesis using assms by (simp add: generateAddress_def)
next
  case None
  then obtain hot tank fwd st2 where hot: "getWallet client chain ''hot'' st = Some hot"
    and i: "insert_address env hot fwd ext lab (computeSalt h client chain ext) None st = Inr (a, st2)"
    and s: "st1 = publish_address env a st2"
    using assms by (auto simp: generateAddress_def Let_def split: option.splits sum.splits)
  have "xr_addresses st1 = xr_addresses st @ [a]"
    using s insert_addressD(1) [OF i] by (simp add: publish_address_def add_entry_def)
  moreover have "is_external client chain ext a"
    using insert_addressD(5,6,11) [OF i] getWalletD [OF hot] by (simp add: is_external_def)
  ultimately show ?thesis using None by (simp add: find_append_None)
qed

text \<open>A repeated request answers the address that was generated and changes nothing; but the external
  identifier is compared without regard to case: two customers whose identifiers differ only in case get the
  same address, and their deposits cannot be told apart. Nor does the repetition publish an address whose
  publication had failed.\<close>

lemma identifiers_that_differ_in_case_share_an_address:
  assumes "generateAddress h env client chain ext lab st = (Inr a, st1)" "lower ext' = lower ext"
  shows "generateAddress h env' client chain ext' lab' st1 = (Inr a, st1)"
proof -
  have "is_external client chain ext' = is_external client chain ext"
    using assms(2) by (simp add: fun_eq_iff is_external_def sql_eq_def)
  then show ?thesis using generated_is_found [OF assms(1)] by (simp add: generateAddress_def)
qed

section \<open>Groups\<close>

definition collision_free ::
    "(int \<Rightarrow> string \<Rightarrow> string \<Rightarrow> string \<Rightarrow> string \<Rightarrow> string \<Rightarrow> string) \<Rightarrow> bool" where
  "collision_free create2 \<longleftrightarrow> (\<forall>c f d p fe s c' f' d' p' fe' s'.
     create2 c f d p fe s = create2 c' f' d' p' fe' s' \<longrightarrow> d = d' \<and> p = p' \<and> s = s')"

definition first_wallet :: "ident \<Rightarrow> string \<Rightarrow> registry \<Rightarrow> wallet_entry option" where
  "first_wallet client ty st = find (\<lambda>w. we_client w = client \<and> sql_eq (we_type w) ty) (xr_wallets st)"

lemma createGroup_address:
  assumes "createGroup h env client project ext lab st = (Inr g, st1)"
  shows "gr_address g = group_address h env client (gr_salt g) st" "gr_client g = client"
  using assms by (auto simp: createGroup_def insert_group_def Let_def split: if_splits sum.splits)

lemma group_address_computed:
  assumes "first_wallet client ''hot'' st = Some hot" "first_wallet client ''gas_tank'' st = Some tank"
    and "computeForwarderAddress env (we_chain hot) (we_address tank) (we_address hot) (we_address hot) salt st = Inr a"
  shows "group_address h env client salt st = a"
  using assms by (simp add: group_address_def first_wallet_def)

lemma group_without_node:
  assumes "first_wallet client ''hot'' st = Some hot" "ge_provider env (we_chain hot) = Inl e"
  shows "group_address h env client salt st = zero_create2 h salt"
  using assms by (auto simp: group_address_def first_wallet_def computeForwarderAddress_def split: option.split)

lemma provision_created:
  assumes "provision_one env client g chain st = (p, st1)" "pv_status p = Created"
  shows "\<exists>hot tank. getWallet client chain ''hot'' st = Some hot \<and> getWallet client chain ''gas_tank'' st = Some tank
    \<and> computeForwarderAddress env chain (we_address tank) (we_address hot) (we_address hot) (gr_salt g) st = Inr (pv_address p)"
  using assms by (auto simp: provision_one_def Let_def split: option.splits sum.splits)

text \<open>The address of a group is said to be shared by its chains. It is the forwarder of the client's
  first wallets, whose addresses enter it: provisioning the group on a chain where the client's hot wallet or
  gas tank has another address gives another deposit address, and what is sent there to the group's address
  reaches no forwarder of the client. The factories' addresses are taken to be free of collisions.\<close>

lemma group_address_is_not_shared:
  assumes "collision_free create2" "honest create2 env" "honest create2 env'"
    and "createGroup h env client project ext lab st = (Inr g, st1)"
    and "first_wallet client ''hot'' st = Some hot" "first_wallet client ''gas_tank'' st = Some tank"
    and "is_ok (computeForwarderAddress env (we_chain hot) (we_address tank) (we_address hot) (we_address hot) (gr_salt g) st)"
    and "provision_one env' client g chain st2 = (p, st3)" "pv_status p = Created"
    and "getWallet client chain ''hot'' st2 = Some hot'" "getWallet client chain ''gas_tank'' st2 = Some tank'"
    and "we_address hot' \<noteq> we_address hot \<or> we_address tank' \<noteq> we_address tank"
  shows "pv_address p \<noteq> gr_address g"
proof -
  obtain a where a: "computeForwarderAddress env (we_chain hot) (we_address tank) (we_address hot) (we_address hot) (gr_salt g) st = Inr a"
    using assms(7) by (cases "computeForwarderAddress env (we_chain hot) (we_address tank) (we_address hot) (we_address hot) (gr_salt g) st") auto
  have "gr_address g = a"
    using createGroup_address(1) [OF assms(4)] group_address_computed [OF assms(5,6) a] by simp
  moreover have "\<exists>c f. a = create2 c f (we_address tank) (we_address hot) (we_address hot) (gr_salt g)"
    using computeForwarderAddressD [OF a assms(2)] by blast
  moreover have "\<exists>c f. pv_address p = create2 c f (we_address tank') (we_address hot') (we_address hot') (gr_salt g)"
    using provision_created [OF assms(8,9)] assms(10,11) computeForwarderAddressD [OF _ assms(3)] by fastforce
  ultimately show ?thesis using assms(1,12) unfolding collision_free_def by metis
qed

text \<open>And the wallets that are created for a client on two chains do have different addresses, when the
  wallet factories are free of collisions too: the salt of a wallet contains the chain.\<close>

lemma createWallets_computed:
  assumes "createWallets h env client chain st = (Inr (hot, tank), st1)"
  shows "\<exists>f signers. ge_wallet_call env chain f signers (hash_triple h client chain ''hot_wallet'') = Inr hot"
  using assms
  by (auto simp: createWallets_def computeWalletAddress_def save_wallets_def Let_def split: if_splits option.splits sum.splits)
    blast+

lemma hot_wallets_differ:
  assumes "createWallets h env client chain st = (Inr (hot, tank), st1)"
    and "createWallets h env' client chain' st' = (Inr (hot', tank'), st1')" "chain' \<noteq> chain"
    and "\<And>c f ss s a. ge_wallet_call env c f ss s = Inr a \<Longrightarrow> a = wallet2 s"
    and "\<And>c f ss s a. ge_wallet_call env' c f ss s = Inr a \<Longrightarrow> a = wallet2 s"
    and "inj wallet2" "\<And>c c'. hash_triple h client c ''hot_wallet'' = hash_triple h client c' ''hot_wallet'' \<Longrightarrow> c = c'"
  shows "hot' \<noteq> hot"
proof -
  have "hot = wallet2 (hash_triple h client chain ''hot_wallet'')"
    using createWallets_computed [OF assms(1)] assms(4) by blast
  moreover have "hot' = wallet2 (hash_triple h client chain' ''hot_wallet'')"
    using createWallets_computed [OF assms(2)] assms(5) by blast
  ultimately have "hot' = hot \<Longrightarrow> chain = chain'"
    using injD [OF assms(6)] assms(7) by simp
  then show ?thesis using assms(3) by blast
qed

section \<open>A generated address is watched\<close>

lemma generate_publishes:
  assumes "generateAddress h env client chain ext lab st = (Inr a, st1)"
    and "find (is_external client chain ext) (xr_addresses st) = None" "ge_publish env (lower (da_address a))"
  shows "xr_stream st1 = xr_stream st @ [registration chain (lower (da_address a)) client (ae_project a) (da_id a) ''forwarder'']"
proof -
  obtain hot tank fwd st2 where hot: "getWallet client chain ''hot'' st = Some hot"
    and i: "insert_address env hot fwd ext lab (computeSalt h client chain ext) None st = Inr (a, st2)"
    and s: "st1 = publish_address env a st2"
    using assms(1,2) by (auto simp: generateAddress_def Let_def split: option.splits sum.splits)
  have "xr_stream st2 = xr_stream st" using i by (auto simp: insert_address_def Let_def split: if_splits)
  then show ?thesis
    using s assms(3) insert_addressD(5,6) [OF i] getWalletD [OF hot] by (simp add: publish_address_def add_entry_def)
qed

lemma register_row_info:
  "r \<in> set (register_row chain a who head rs) \<Longrightarrow> adr_chain r = chain \<Longrightarrow> sql_eq (adr_address r) a \<Longrightarrow> adr_info r = who"
proof (cases "list_ex (\<lambda>r. adr_chain r = chain \<and> sql_eq (adr_address r) a) rs")
  case True
  assume "r \<in> set (register_row chain a who head rs)" "adr_chain r = chain" "sql_eq (adr_address r) a"
  then obtain q where "r = (if adr_chain q = chain \<and> sql_eq (adr_address q) a then q\<lparr>adr_info := who, adr_active := True\<rparr> else q)"
    using True unfolding register_row_def by (simp only: if_True set_update_where) blast
  then show ?thesis using \<open>adr_chain r = chain\<close> \<open>sql_eq (adr_address r) a\<close> by (simp split: if_splits)
next
  case False
  assume "r \<in> set (register_row chain a who head rs)" "adr_chain r = chain" "sql_eq (adr_address r) a"
  moreover from this(1) have "r \<in> set rs \<or> r = \<lparr>adr_chain = chain, adr_address = a, adr_info = who, adr_start = head, adr_active = True\<rparr>"
    using False unfolding register_row_def by (simp only: if_False) auto
  ultimately show ?thesis using False unfolding list_ex_iff by (metis monitored_address.select_convs(3))
qed

lemma register_row_active:
  "\<exists>r \<in> set (register_row chain a who head rs). adr_chain r = chain \<and> sql_eq (adr_address r) a \<and> adr_active r"
proof (cases "list_ex (\<lambda>r. adr_chain r = chain \<and> sql_eq (adr_address r) a) rs")
  case True
  then obtain r where "r \<in> set rs" "adr_chain r = chain" "sql_eq (adr_address r) a" by (auto simp: list_ex_iff)
  then have "r\<lparr>adr_info := who, adr_active := True\<rparr> \<in> set (register_row chain a who head rs)"
    using True by (auto simp: register_row_def set_update_where)
  then show ?thesis using \<open>adr_chain r = chain\<close> \<open>sql_eq (adr_address r) a\<close>
    by (intro bexI [of _ "r\<lparr>adr_info := who, adr_active := True\<rparr>"]) simp_all
qed (simp add: register_row_def)

lemma field_id_shown: "map_of d k = Some (show_int n) \<Longrightarrow> field_id d k = Some n"
  by (simp add: field_id_def)

lemma registration_fields:
  "field_id (registration chain a client project wallet ty) ''clientId'' = Some client"
  "field_id (registration chain a client project wallet ty) ''projectId'' = Some project"
  "field_id (registration chain a client project wallet ty) ''walletId'' = Some wallet"
  "field_id (registration chain a client project wallet ty) ''chainId'' = Some chain"
  "map_of (registration chain a client project wallet ty) ''address'' = Some a"
  by (rule field_id_shown, simp add: registration_def)+ (simp add: registration_def)

text \<open>The registration of a published address, handled while the provider answers, puts the address on watch
  for the client, project and row it belongs to, once the monitored addresses are loaded again.\<close>

lemma registered_address_is_watched:
  assumes "registerAddress (Inr n) (registration chain (lower a) client project wallet ty) wt = (r, wt')"
    and "chain \<noteq> 0" "a \<noteq> []" "monitoring_mode client chain wt' \<noteq> ''polling''"
  shows "r = Inr () \<and> watched (loadMonitoredAddresses wt') chain a =
    Some \<lparr>ma_client = client, ma_project = project, ma_wallet = wallet\<rparr>"
proof -
  let ?who = "\<lparr>ma_client = client, ma_project = project, ma_wallet = wallet\<rparr>"
  have l: "lower a \<noteq> []" using assms(3) by (simp add: lower_def)
  have r: "r = Inr ()" and m: "ix_monitored (wt_ix wt') = register_row chain (lower a) ?who n (ix_monitored (wt_ix wt))"
    using assms(1,2) l
    by (auto simp: registerAddress_def registration_fields or_null_def Let_def invalidateCache_def upsert_cursor_def
        split: option.splits)
  let ?m = "wt_memory (loadMonitoredAddresses wt')"
  have mem: "((chain, lower a), who) \<in> set ?m \<longleftrightarrow> (\<exists>x \<in> set (ix_monitored (wt_ix wt')). adr_active x
      \<and> monitoring_mode (ma_client (adr_info x)) (adr_chain x) wt' \<noteq> ''polling''
      \<and> adr_chain x = chain \<and> sql_eq (adr_address x) a \<and> adr_info x = who)" for who
    by (auto simp: loadMonitoredAddresses_def Let_def sql_eq_def)
  have "who = ?who" if "((chain, lower a), who) \<in> set ?m" for who
    using that register_row_info unfolding mem m by (metis sql_eq_lower(2))
  moreover have "((chain, lower a), ?who) \<in> set ?m"
    using register_row_info [of _ chain "lower a" ?who n "ix_monitored (wt_ix wt)"]
      register_row_active [of chain "lower a" ?who n "ix_monitored (wt_ix wt)"] assms(4) unfolding mem m
    by (metis monitored_addr.select_convs(1) sql_eq_lower(2))
  ultimately have "map_of (rev ?m) (chain, lower a) = Some ?who"
    by (metis map_of_SomeD set_rev weak_map_of_SomeI)
  then show ?thesis using r by (simp add: watched_def)
qed

section \<open>A small registry\<close>

text \<open>A collision-free address: its parts, each character marked and each part ended.\<close>

definition marked :: "string \<Rightarrow> string" where
  "marked s = concat (map (\<lambda>c. [CHR ''.'', c]) s) @ ''|''"

definition plain_create2 :: "int \<Rightarrow> string \<Rightarrow> string \<Rightarrow> string \<Rightarrow> string \<Rightarrow> string \<Rightarrow> string" where
  "plain_create2 c f d p fe s = marked d @ marked p @ marked s"

lemma marked_append: "marked a @ r = marked b @ r' \<longleftrightarrow> a = b \<and> r = r'"
proof (induction a arbitrary: b)
  case Nil
  then show ?case by (cases b) (auto simp: marked_def)
next
  case (Cons x a)
  then show ?case by (cases b) (auto simp: marked_def)
qed

lemma plain_collision_free: "collision_free plain_create2"
  unfolding collision_free_def plain_create2_def using marked_append [of _ "[]" _ "[]"] by (auto simp: marked_append)

definition plain_eth :: eth where
  "plain_eth = \<lparr>hash_triple = (\<lambda>c n s. show_int c @ ''/'' @ show_int n @ ''/'' @ s), zero_create2 = (\<lambda>s. ''Z'' @ s)\<rparr>"

text \<open>An environment in which one write fails.\<close>

definition plain_env :: "string \<Rightarrow> registry_env" where
  "plain_env bad =
     \<lparr>ge_public = (\<lambda>c. Inr [\<lparr>vk_type = ''platform'', vk_address = ''P''\<rparr>, \<lparr>vk_type = ''client'', vk_address = ''C''\<rparr>,
        \<lparr>vk_type = ''backup'', vk_address = ''B''\<rparr>]),
      ge_generate = (\<lambda>c. Inr []), ge_gasTank = (\<lambda>c n. Inr (Some (''T'' @ show_int n))), ge_provider = (\<lambda>n. Inr ()),
      ge_wallet_call = (\<lambda>c f ss s. Inr (''W'' @ show_int c)), ge_forwarder_call = (\<lambda>c f d p fe s. Inr (plain_create2 c f d p fe s)),
      ge_write = (\<lambda>k. k \<noteq> bad), ge_publish = (\<lambda>a. True), ge_uuid = ''1-2''\<rparr>"

definition two_chains :: registry where
  "two_chains =
     \<lparr>xr_chains = [\<lparr>xn_id = 1, xn_active = True, xn_walletFactory = Some ''WF'', xn_forwarderFactory = Some ''FF''\<rparr>,
        \<lparr>xn_id = 2, xn_active = True, xn_walletFactory = Some ''WF'', xn_forwarderFactory = Some ''FF''\<rparr>],
      xr_wallets = [], xr_addresses = [], xr_groups = [], xr_defaults = [(7, 3)], xr_alerts = [], xr_stream = [], xr_next = 1\<rparr>"

definition with_wallets :: "int \<Rightarrow> registry \<Rightarrow> registry" where
  "with_wallets chain st = snd (createWallets plain_eth (plain_env []) 7 chain st)"

definition with_address :: registry where
  "with_address = snd (generateAddress plain_eth (plain_env []) 7 1 ''u'' None (with_wallets 1 two_chains))"

definition plain_entry :: address_entry where
  "plain_entry =
     \<lparr>da_id = 3, da_client = 7, da_chain = 1, da_address = plain_create2 1 ''FF'' ''T1'' ''W1'' ''W1'' ''7/1/u'',
      da_salt = ''7/1/u'', da_deployed = False, ae_project = 3, ae_wallet = 1, ae_external = ''u'', ae_label = None, ae_group = None\<rparr>"

lemma plain_honest: "honest plain_create2 (plain_env bad)"
  by (simp add: honest_def plain_env_def)

lemma with_address_entries: "xr_addresses with_address = [plain_entry]"
  by code_simp

lemma with_address_run: "registry_start two_chains" "registry_run plain_create2 two_chains with_address"
proof -
  show "registry_start two_chains" by (simp add: registry_start_def two_chains_def)
  show "registry_run plain_create2 two_chains with_address"
    unfolding with_address_def with_wallets_def
    by (rule rtranclp.rtrancl_into_rtrancl [OF r_into_rtranclp], rule registry_step.wallets, rule registry_step.address [OF plain_honest])
qed

definition plain_sweep :: sweep_state where
  "plain_sweep = small_sweep\<lparr>sd_wallets := map wallet_view (xr_wallets with_address),
     sd_chains := map chain_view (xr_chains with_address)\<rparr>"

theorem deployment_creates_the_generated_address_witness:
  "\<exists>hot tank. plain_create2 1 ''FF'' tank hot hot (da_salt plain_entry) = da_address plain_entry
    \<and> sw_worker (snd (deploy_one small_deploy_env 1 ''FF'' (deposit_address.truncate plain_entry) (0, plain_sweep))) =
        snd (submit_from (fd_attempt small_deploy_env 3) 1 7 GasTankKey tank ''FF''
          (RawData (fd_encode small_deploy_env hot (da_salt plain_entry))) DEPLOY_GAS_LIMIT (sw_worker plain_sweep))"
proof -
  have e: "plain_entry \<in> set (xr_addresses with_address)" by (simp add: with_address_entries)
  have t: "same_tables with_address plain_sweep" by (simp add: same_tables_def plain_sweep_def)
  have "xr_chains with_address = xr_chains two_chains" by (rule run_chains [OF run_writes [OF with_address_run(2)]])
  then have c: "find (\<lambda>c. sc_id c = da_chain plain_entry) (sd_chains plain_sweep) =
      Some \<lparr>sc_id = 1, sc_active = True, sc_factory = Some ''FF''\<rparr>"
    by (simp add: plain_sweep_def two_chains_def chain_view_def plain_entry_def)
  have k: "fd_code small_deploy_env (da_address plain_entry) = Inr False"
    by (simp add: small_deploy_env_def)
  have i: "da_id plain_entry = 3" "da_client plain_entry = 7" "da_chain plain_entry = 1" by (simp_all add: plain_entry_def)
  show ?thesis
    using deployment_creates_the_generated_address [OF with_address_run e t c _ k, of "''FF''" 0]
    unfolding i by (simp add: or_null_def)
qed

lemma half_created_wallets_block_the_chain_witness:
  "createWallets plain_eth (plain_env []) 7 1 (snd (createWallets plain_eth (plain_env ''gas_tank'') 7 1 two_chains)) =
     (Inl (Conflict ''Wallets already exist''), snd (createWallets plain_eth (plain_env ''gas_tank'') 7 1 two_chains))"
proof -
  obtain r st1 where c: "createWallets plain_eth (plain_env ''gas_tank'') 7 1 two_chains = (r, st1)"
    by (cases "createWallets plain_eth (plain_env ''gas_tank'') 7 1 two_chains")
  have "length (xr_wallets (snd (createWallets plain_eth (plain_env ''gas_tank'') 7 1 two_chains))) = 1
      \<and> xr_addresses (snd (createWallets plain_eth (plain_env ''gas_tank'') 7 1 two_chains)) = []"
    by code_simp
  then have "xr_wallets st1 \<noteq> xr_wallets two_chains" "find (is_external 7 1 ''u'') (xr_addresses st1) = None"
    unfolding c by (auto simp: two_chains_def)
  moreover have "\<not> ge_write (plain_env ''gas_tank'') ''gas_tank''" by (simp add: plain_env_def)
  ultimately show ?thesis
    using half_created_wallets_block_the_chain [OF c, of "''u''" "plain_env []" None] c by simp
qed

lemma identifiers_that_differ_in_case_share_an_address_witness:
  "fst (generateAddress plain_eth (plain_env []) 7 1 ''U'' None with_address) = Inr plain_entry"
proof -
  have f: "fst (generateAddress plain_eth (plain_env []) 7 1 ''u'' None (with_wallets 1 two_chains)) = Inr plain_entry"
    by code_simp
  then have g: "generateAddress plain_eth (plain_env []) 7 1 ''u'' None (with_wallets 1 two_chains) = (Inr plain_entry, with_address)"
    by (simp add: with_address_def prod_eq_iff)
  have "lower ''U'' = lower ''u''" by code_simp
  then show ?thesis
    using identifiers_that_differ_in_case_share_an_address [OF g, of "''U''" "plain_env []" None] by simp
qed

definition on_both_chains :: registry where
  "on_both_chains = with_wallets 2 (with_wallets 1 two_chains)"

definition plain_group :: "(error + group_row) \<times> registry" where
  "plain_group = createGroup plain_eth (plain_env []) 7 3 None None on_both_chains"

definition wallet_of :: "int \<Rightarrow> wallet_entry option \<times> wallet_entry option" where
  "wallet_of n = (getWallet 7 n ''hot'' on_both_chains, getWallet 7 n ''gas_tank'' on_both_chains)"

lemma group_address_is_not_shared_witness:
  "pv_address (fst (provision_one (plain_env []) 7 (projr (fst plain_group)) 2 (snd plain_group)))
     \<noteq> gr_address (projr (fst plain_group))"
proof -
  let ?hot = "\<lparr>we_id = 1, we_client = 7, we_project = 3, we_chain = 1, we_address = ''W1'', we_type = ''hot'', we_active = True\<rparr>"
  let ?tank = "\<lparr>we_id = 2, we_client = 7, we_project = 3, we_chain = 1, we_address = ''T1'', we_type = ''gas_tank'', we_active = True\<rparr>"
  let ?hot' = "\<lparr>we_id = 3, we_client = 7, we_project = 3, we_chain = 2, we_address = ''W2'', we_type = ''hot'', we_active = True\<rparr>"
  let ?tank' = "\<lparr>we_id = 4, we_client = 7, we_project = 3, we_chain = 2, we_address = ''T2'', we_type = ''gas_tank'', we_active = True\<rparr>"
  have w: "first_wallet 7 ''hot'' on_both_chains = Some ?hot" "first_wallet 7 ''gas_tank'' on_both_chains = Some ?tank"
    "getWallet 7 2 ''hot'' (snd plain_group) = Some ?hot'" "getWallet 7 2 ''gas_tank'' (snd plain_group) = Some ?tank'"
    by code_simp+
  have e: "is_ok (fst plain_group)
      \<and> pv_status (fst (provision_one (plain_env []) 7 (projr (fst plain_group)) 2 (snd plain_group))) = Created"
    by code_simp
  then obtain g st1 where g: "createGroup plain_eth (plain_env []) 7 3 None None on_both_chains = (Inr g, st1)"
    unfolding plain_group_def by (metis Inr_pair)
  have n: "is_ok (computeForwarderAddress (plain_env []) (we_chain ?hot) (we_address ?tank) (we_address ?hot) (we_address ?hot) s on_both_chains)" for s
  proof -
    have "write_run plain_create2 two_chains on_both_chains"
      unfolding on_both_chains_def with_wallets_def by (rule rtranclp_trans [OF run_createWallets run_createWallets])
    then have "xr_chains on_both_chains = xr_chains two_chains" by (rule run_chains)
    then show ?thesis by (simp add: computeForwarderAddress_def find_chain_def two_chains_def plain_env_def or_null_def)
  qed
  obtain p st3 where p: "provision_one (plain_env []) 7 g 2 st1 = (p, st3)"
    by (cases "provision_one (plain_env []) 7 g 2 st1")
  have c: "pv_status p = Created" using e g p by (simp add: plain_group_def)
  have w': "getWallet 7 2 ''hot'' st1 = Some ?hot'" "getWallet 7 2 ''gas_tank'' st1 = Some ?tank'"
    using w(3,4) g by (simp_all only: plain_group_def snd_conv)
  have "we_address ?hot' \<noteq> we_address ?hot \<or> we_address ?tank' \<noteq> we_address ?tank" by simp
  then have "pv_address p \<noteq> gr_address g"
    by (rule group_address_is_not_shared [OF plain_collision_free plain_honest plain_honest g w(1,2) n p c w'])
  then show ?thesis using g p by (simp add: plain_group_def)
qed
end
