(* ===== verification/ProjectDeploy.thy ===== *)
theory ProjectDeploy
  imports Registry Nonce
begin

text \<open>
  The deployment of the contracts of a project on a chain
  (services/core-wallet-service/src/deploy: project-deploy.service.ts, deploy-trace.service.ts and
  gas-tank-tx-logger.service.ts): four contracts and the hot wallet, created by five transactions from the
  gas tank of the client, each with a trace and an entry of the gas log, and the retry of a single contract.
  The artifacts and what ethers builds from them are the fields of \<open>artifacts\<close>; what the nonce service
  meets, the node and the key vault answer, and which writes succeed is the \<open>step_env\<close> of each
  transaction and the \<open>project_env\<close> of the whole. The nonces are those of the theory Nonce.
\<close>

section \<open>State\<close>

datatype trace_status = TracePending | TraceConfirmed | TraceFailed error

record trace_row =
  tr_id :: ident
  tr_project :: ident
  tr_chain :: int
  tr_projectChain :: ident
  tr_type :: string
  tr_deployer :: string
  tr_calldata :: string
  tr_args :: "string list"
  tr_code :: "string option"
  tr_contract :: "string option"
  tr_txHash :: "string option"
  tr_gasCost :: "int option"
  tr_match :: "bool option"
  tr_url :: "string option"
  tr_status :: trace_status

datatype deploy_status = DeployPending | Deploying | DeployReady | DeployFailed error

record contract_set =
  cs_walletImpl :: string
  cs_forwarderImpl :: string
  cs_walletFactory :: string
  cs_forwarderFactory :: string
  cs_hotWallet :: string

record project_chain =
  pq_id :: ident
  pq_project :: ident
  pq_chain :: int
  pq_walletImpl :: "string option"
  pq_forwarderImpl :: "string option"
  pq_walletFactory :: "string option"
  pq_forwarderFactory :: "string option"
  pq_hotWallet :: "string option"
  pq_status :: deploy_status

datatype contract_status = ContractDeployed | ContractDeploying | ContractFailed error

record contract_row =
  ct_project :: ident
  ct_chain :: int
  ct_type :: string
  ct_address :: string
  ct_tx :: "string option"
  ct_deployer :: "string option"
  ct_status :: contract_status

record deploy_tx =
  dx_to :: "string option"
  dx_data :: string
  dx_gas :: int
  dx_nonce :: int
  dx_chain :: int
  dx_price :: gas_price

record project_state =
  ps_projects :: "(ident \<times> ident) list"
  ps_wallets :: "wallet_entry list"
  ps_networks :: "(reg_chain \<times> string option) list"
  ps_chains :: "project_chain list"
  ps_contracts :: "contract_row list"
  ps_traces :: "trace_row list"
  ps_gas :: "(ident \<times> string) list"
  ps_sent :: "deploy_tx list"
  ps_stream :: "(ident \<times> int \<times> contract_set) list"
  ps_store :: store

section \<open>Parameters\<close>

record artifacts =
  af_calldata :: "string \<Rightarrow> string list \<Rightarrow> error + string"
  af_create :: "string list \<Rightarrow> string \<Rightarrow> string"
  af_pair :: "ident \<Rightarrow> int \<Rightarrow> string"
  af_keccak :: "string \<Rightarrow> string"

record deploy_receipt =
  dr_status :: int
  dr_contract :: "string option"
  dr_gasUsed :: int
  dr_gasPrice :: int
  dr_created :: "string list"

record step_env =
  se_nonce :: nonce_env
  se_fee :: "error + fee_data"
  se_estimate :: "error + int"
  se_signed :: "error + string"
  se_broadcast :: "error + string"
  se_logged :: bool
  se_receipt :: "error + deploy_receipt option"
  se_code :: "nat \<Rightarrow> error + string"
  se_computed :: "error + string"
  se_traced :: bool
  se_confirmed :: bool
  se_traceFailed :: bool

record project_env =
  pe_provider :: "error + unit"
  pe_step :: "nat \<Rightarrow> step_env"
  pe_started :: bool
  pe_ready :: bool
  pe_contract :: "string \<Rightarrow> bool"
  pe_published :: bool
  pe_failed :: bool

text \<open>One computation after another, the second only if the first has a result.\<close>

definition and_then ::
    "(error + 'a) \<times> 's \<Rightarrow> ('a \<Rightarrow> 's \<Rightarrow> (error + 'b) \<times> 's) \<Rightarrow> (error + 'b) \<times> 's" where
  "and_then r f = (case r of (Inl e, s) \<Rightarrow> (Inl e, s) | (Inr x, s) \<Rightarrow> f x s)"

definition and_then_step ::
    "('s \<Rightarrow> (error + 'a) \<times> 's) \<Rightarrow> ('a \<Rightarrow> 's \<Rightarrow> (error + 'b) \<times> 's) \<Rightarrow> 's \<Rightarrow> (error + 'b) \<times> 's" where
  "and_then_step g f s = and_then (g s) f"

section \<open>Traces\<close>

definition EXPLORER_MAP :: "int \<Rightarrow> string option" where
  "EXPLORER_MAP n = map_of
     [(1, ''https://etherscan.io''), (11155111, ''https://sepolia.etherscan.io''), (56, ''https://bscscan.com''),
      (97, ''https://testnet.bscscan.com''), (137, ''https://polygonscan.com''), (80002, ''https://amoy.polygonscan.com''),
      (42161, ''https://arbiscan.io''), (421614, ''https://sepolia.arbiscan.io''), (10, ''https://optimistic.etherscan.io''),
      (11155420, ''https://sepolia-optimism.etherscan.io''), (8453, ''https://basescan.org''),
      (84532, ''https://sepolia.basescan.org''), (43114, ''https://snowtrace.io''), (43113, ''https://testnet.snowtrace.io'')] n"

definition buildExplorerUrl :: "int \<Rightarrow> string \<Rightarrow> string option \<Rightarrow> string" where
  "buildExplorerUrl chain tx url =
     (case or_null url of
        Some u \<Rightarrow> rev (dropWhile (\<lambda>c. c = CHR ''/'') (rev u)) @ ''/tx/'' @ tx
      | None \<Rightarrow> (case EXPLORER_MAP chain of Some base \<Rightarrow> base @ ''/tx/'' @ tx
                 | None \<Rightarrow> ''https://etherscan.io/tx/'' @ tx))"

definition createTrace :: "bool \<Rightarrow> trace_row \<Rightarrow> project_state \<Rightarrow> (error + ident) \<times> project_state" where
  "createTrace ok t st =
     (if \<not> ok then (Inl (InternalError ''createTrace''), st)
      else let n = int (length (ps_traces st)) + 1
           in (Inr n, st\<lparr>ps_traces := ps_traces st @ [t\<lparr>tr_id := n, tr_status := TracePending\<rparr>]\<rparr>))"

definition update_trace :: "ident \<Rightarrow> (trace_row \<Rightarrow> trace_row) \<Rightarrow> project_state \<Rightarrow> project_state" where
  "update_trace n f st = st\<lparr>ps_traces := update_where (\<lambda>t. tr_id t = n) f (ps_traces st)\<rparr>"

definition updateTraceConfirmed ::
    "bool \<Rightarrow> ident \<Rightarrow> string \<Rightarrow> string \<Rightarrow> int \<Rightarrow> string option \<Rightarrow> bool option \<Rightarrow> string \<Rightarrow> project_state \<Rightarrow>
     (error + unit) \<times> project_state" where
  "updateTraceConfirmed ok n address tx cost code matches url st =
     (if \<not> ok then (Inl (InternalError ''updateTraceConfirmed''), st)
      else (Inr (), update_trace n (\<lambda>t. t\<lparr>tr_contract := Some address, tr_txHash := Some tx, tr_gasCost := Some cost,
              tr_code := code, tr_match := matches, tr_url := Some url, tr_status := TraceConfirmed\<rparr>) st))"

definition updateTraceFailed :: "bool \<Rightarrow> ident \<Rightarrow> error \<Rightarrow> project_state \<Rightarrow> (error + unit) \<times> project_state" where
  "updateTraceFailed ok n e st =
     (if \<not> ok then (Inl (InternalError ''updateTraceFailed''), st)
      else (Inr (), update_trace n (\<lambda>t. t\<lparr>tr_status := TraceFailed e\<rparr>) st))"

text \<open>\<open>buildVerificationProof\<close>, on the hash it expects and the code it asks for.\<close>

definition buildVerificationProof :: "artifacts \<Rightarrow> string \<Rightarrow> error + string \<Rightarrow> error + bool" where
  "buildVerificationProof af expected code =
     (case code of Inl e \<Rightarrow> Inl e | Inr c \<Rightarrow> Inr (af_keccak af c = expected))"

definition getTracesByProject :: "ident \<Rightarrow> project_state \<Rightarrow> trace_row list" where
  "getTracesByProject p st = filter (\<lambda>t. tr_project t = p) (rev (ps_traces st))"

definition getTracesByProjectChain :: "ident \<Rightarrow> int \<Rightarrow> project_state \<Rightarrow> trace_row list" where
  "getTracesByProjectChain p chain st = filter (\<lambda>t. tr_project t = p \<and> tr_chain t = chain) (rev (ps_traces st))"

section \<open>One transaction\<close>

text \<open>What is done with a nonce: price, estimate, signature, broadcast, log. A failing log is ignored.\<close>

definition broadcast_with ::
    "step_env \<Rightarrow> int \<Rightarrow> ident \<Rightarrow> string option \<Rightarrow> string \<Rightarrow> int \<Rightarrow> int \<Rightarrow> project_state \<Rightarrow> (error + string) \<times> project_state" where
  "broadcast_with env chain tank dest data dflt nonce st =
     (case se_fee env of
        Inl e \<Rightarrow> (Inl e, st)
      | Inr fee \<Rightarrow>
     (case gas_pricing fee of
        Inl e \<Rightarrow> (Inl e, st)
      | Inr price \<Rightarrow>
     (case se_signed env of
        Inl e \<Rightarrow> (Inl e, st)
      | Inr signed \<Rightarrow>
     (case se_broadcast env of
        Inl e \<Rightarrow> (Inl e, st)
      | Inr h \<Rightarrow>
          (Inr h, st\<lparr>ps_sent := ps_sent st @ [\<lparr>dx_to = dest, dx_data = data, dx_gas = gas_limit dflt (se_estimate env),
                      dx_nonce = nonce, dx_chain = chain, dx_price = price\<rparr>],
                    ps_gas := ps_gas st @ (if se_logged env then [(tank, h)] else [])\<rparr>)))))"

definition send_deploy ::
    "step_env \<Rightarrow> int \<Rightarrow> wallet_entry \<Rightarrow> string option \<Rightarrow> string \<Rightarrow> int \<Rightarrow> project_state \<Rightarrow> (error + string) \<times> project_state" where
  "send_deploy env chain tank dest data dflt st =
     (case acquireNonce (se_nonce env) chain (we_address tank) (ps_store st) of
        (Inl e, s) \<Rightarrow> (Inl e, st\<lparr>ps_store := s\<rparr>)
      | (Inr (n, release), s) \<Rightarrow>
          (case broadcast_with env chain (we_id tank) dest data dflt n (st\<lparr>ps_store := s\<rparr>) of
             (r, st1) \<Rightarrow> (r, st1\<lparr>ps_store := release (ne_release (se_nonce env)) (ps_store st1)\<rparr>)))"

definition wait_receipt :: "step_env \<Rightarrow> error + deploy_receipt" where
  "wait_receipt env =
     (case se_receipt env of
        Inl e \<Rightarrow> Inl e
      | Inr None \<Rightarrow> Inl (InternalError ''not confirmed within timeout'')
      | Inr (Some r) \<Rightarrow> if dr_status r = 0 then Inl (InternalError ''reverted'') else Inr r)"

text \<open>The handler around the steps of a trace: a failure is written to the trace and thrown again, unless the
  writing fails itself.\<close>

definition traced ::
    "step_env \<Rightarrow> ident \<Rightarrow> (error + 'a) \<times> project_state \<Rightarrow> (error + 'a) \<times> project_state" where
  "traced env n r =
     (case r of
        (Inr x, st) \<Rightarrow> (Inr x, st)
      | (Inl e, st) \<Rightarrow> (case updateTraceFailed (se_traceFailed env) n e st of
                        (Inl e', st1) \<Rightarrow> (Inl e', st1) | (Inr _, st1) \<Rightarrow> (Inl e, st1)))"

record deploy_job =
  dj_project :: ident
  dj_client :: ident
  dj_chain :: int
  dj_row :: ident
  dj_tank :: wallet_entry
  dj_explorer :: "string option"

definition trace_of :: "deploy_job \<Rightarrow> string \<Rightarrow> string \<Rightarrow> string list \<Rightarrow> string option \<Rightarrow> trace_row" where
  "trace_of j ty data args code =
     \<lparr>tr_id = 0, tr_project = dj_project j, tr_chain = dj_chain j, tr_projectChain = dj_row j, tr_type = ty,
      tr_deployer = we_address (dj_tank j), tr_calldata = data, tr_args = args, tr_code = code, tr_contract = None,
      tr_txHash = None, tr_gasCost = None, tr_match = None, tr_url = None, tr_status = TracePending\<rparr>"

text \<open>What follows the broadcast of a contract: its address, the hash of its code, the proof.\<close>

definition confirm_contract ::
    "artifacts \<Rightarrow> step_env \<Rightarrow> deploy_job \<Rightarrow> ident \<Rightarrow> string \<Rightarrow> project_state \<Rightarrow> (error + string \<times> string) \<times> project_state" where
  "confirm_contract af env j n h st =
     (case wait_receipt env of
        Inl e \<Rightarrow> (Inl e, st)
      | Inr r \<Rightarrow>
     (case or_null (dr_contract r) of
        None \<Rightarrow> (Inl (InternalError ''No contract address in receipt''), st)
      | Some address \<Rightarrow>
     (case se_code env 0 of
        Inl e \<Rightarrow> (Inl e, st)
      | Inr code \<Rightarrow>
          let runtime = af_keccak af code in
     (case buildVerificationProof af runtime (se_code env 1) of
        Inl e \<Rightarrow> (Inl e, st)
      | Inr matches \<Rightarrow>
          and_then (updateTraceConfirmed (se_confirmed env) n address h (dr_gasUsed r * dr_gasPrice r) (Some runtime)
                      (Some matches) (buildExplorerUrl (dj_chain j) h (dj_explorer j)) st)
            (\<lambda>_ st1. (Inr (address, h), st1))))))"

definition deployContract ::
    "artifacts \<Rightarrow> step_env \<Rightarrow> deploy_job \<Rightarrow> string \<Rightarrow> string \<Rightarrow> string list \<Rightarrow> project_state \<Rightarrow>
     (error + string \<times> string) \<times> project_state" where
  "deployContract af env j nm ty args st =
     (case af_calldata af nm args of
        Inl e \<Rightarrow> (Inl e, st)
      | Inr data \<Rightarrow>
          and_then (createTrace (se_traced env) (trace_of j ty data args (Some (af_keccak af data))) st)
            (\<lambda>n st1. traced env n
               (and_then (send_deploy env (dj_chain j) (dj_tank j) None data 5000000 st1)
                  (confirm_contract af env j n))))"

definition confirm_wallet ::
    "step_env \<Rightarrow> deploy_job \<Rightarrow> ident \<Rightarrow> string \<Rightarrow> project_state \<Rightarrow> (error + string \<times> string) \<times> project_state" where
  "confirm_wallet env j n h st =
     (case wait_receipt env of
        Inl e \<Rightarrow> (Inl e, st)
      | Inr r \<Rightarrow>
     (case (case dr_created r of a # _ \<Rightarrow> if a = [] then se_computed env else Inr a | [] \<Rightarrow> se_computed env) of
        Inl e \<Rightarrow> (Inl e, st)
      | Inr a \<Rightarrow>
          if a = [] then (Inl (InternalError ''Could not determine hot wallet address''), st)
          else and_then (updateTraceConfirmed (se_confirmed env) n a h (dr_gasUsed r * dr_gasPrice r) None None
                           (buildExplorerUrl (dj_chain j) h (dj_explorer j)) st)
                 (\<lambda>_ st1. (Inr (a, h), st1))))"

definition deployHotWallet ::
    "artifacts \<Rightarrow> step_env \<Rightarrow> deploy_job \<Rightarrow> string \<Rightarrow> string list \<Rightarrow> project_state \<Rightarrow>
     (error + string \<times> string) \<times> project_state" where
  "deployHotWallet af env j factory signers st =
     (let salt = af_pair af (dj_project j) (dj_chain j); data = af_create af signers salt in
      and_then (createTrace (se_traced env) (trace_of j ''hot_wallet'' data (signers @ [salt, factory]) None) st)
        (\<lambda>n st1. traced env n
           (and_then (send_deploy env (dj_chain j) (dj_tank j) (Some factory) data 1000000 st1)
              (confirm_wallet env j n))))"

section \<open>The five steps\<close>

definition is_row :: "ident \<Rightarrow> int \<Rightarrow> project_chain \<Rightarrow> bool" where
  "is_row p chain r \<longleftrightarrow> pq_project r = p \<and> pq_chain r = chain"

definition new_chain_row :: "ident \<Rightarrow> int \<Rightarrow> project_state \<Rightarrow> project_chain" where
  "new_chain_row p chain st =
     \<lparr>pq_id = int (length (ps_chains st)) + 1, pq_project = p, pq_chain = chain, pq_walletImpl = None,
      pq_forwarderImpl = None, pq_walletFactory = None, pq_forwarderFactory = None, pq_hotWallet = None,
      pq_status = DeployPending\<rparr>"

text \<open>The row of the project on the chain, made when there is none.\<close>

definition ensure_row :: "ident \<Rightarrow> int \<Rightarrow> project_state \<Rightarrow> project_chain \<times> project_state" where
  "ensure_row p chain st =
     (case find (is_row p chain) (ps_chains st) of
        Some r \<Rightarrow> (r, st)
      | None \<Rightarrow> let r = new_chain_row p chain st in (r, st\<lparr>ps_chains := ps_chains st @ [r]\<rparr>))"

definition update_chain :: "ident \<Rightarrow> int \<Rightarrow> (project_chain \<Rightarrow> project_chain) \<Rightarrow> project_state \<Rightarrow> project_state" where
  "update_chain p chain f st = st\<lparr>ps_chains := update_where (is_row p chain) f (ps_chains st)\<rparr>"

definition set_status :: "deploy_status \<Rightarrow> project_chain \<Rightarrow> project_chain" where
  "set_status s r = r\<lparr>pq_status := s\<rparr>"

definition completed :: "contract_set \<Rightarrow> project_chain \<Rightarrow> project_chain" where
  "completed c r =
     r\<lparr>pq_walletImpl := Some (cs_walletImpl c), pq_forwarderImpl := Some (cs_forwarderImpl c),
       pq_walletFactory := Some (cs_walletFactory c), pq_forwarderFactory := Some (cs_forwarderFactory c),
       pq_hotWallet := Some (cs_hotWallet c), pq_status := DeployReady\<rparr>"

definition is_contract :: "ident \<Rightarrow> int \<Rightarrow> string \<Rightarrow> contract_row \<Rightarrow> bool" where
  "is_contract p chain ty c \<longleftrightarrow> ct_project c = p \<and> ct_chain c = chain \<and> sql_eq (ct_type c) ty"

definition upsertProjectContract ::
    "bool \<Rightarrow> ident \<Rightarrow> int \<Rightarrow> string \<Rightarrow> string \<times> string \<Rightarrow> string \<Rightarrow> project_state \<Rightarrow> (error + unit) \<times> project_state" where
  "upsertProjectContract ok p chain ty res deployer st =
     (if \<not> ok then (Inl (InternalError ''projectContract.upsert''), st)
      else (Inr (),
        if list_ex (is_contract p chain ty) (ps_contracts st)
        then st\<lparr>ps_contracts := update_where (is_contract p chain ty)
                  (\<lambda>c. c\<lparr>ct_address := fst res, ct_tx := Some (snd res), ct_deployer := Some deployer,
                         ct_status := ContractDeployed\<rparr>) (ps_contracts st)\<rparr>
        else st\<lparr>ps_contracts := ps_contracts st @
               [\<lparr>ct_project = p, ct_chain = chain, ct_type = ty, ct_address = fst res, ct_tx = Some (snd res),
                 ct_deployer = Some deployer, ct_status = ContractDeployed\<rparr>]\<rparr>))"

fun upsert_contracts ::
    "project_env \<Rightarrow> ident \<Rightarrow> int \<Rightarrow> string \<Rightarrow> (string \<times> string \<times> string) list \<Rightarrow> project_state \<Rightarrow> (error + unit) \<times> project_state" where
  "upsert_contracts env p chain deployer [] st = (Inr (), st)"
| "upsert_contracts env p chain deployer ((ty, res) # xs) st =
     and_then (upsertProjectContract (pe_contract env ty) p chain ty res deployer st)
       (\<lambda>_. upsert_contracts env p chain deployer xs)"

text \<open>The five transactions, each after the one before.\<close>

definition deploy_all ::
    "artifacts \<Rightarrow> project_env \<Rightarrow> deploy_job \<Rightarrow> string list \<Rightarrow> project_state \<Rightarrow>
     (error + contract_set \<times> (string \<times> string \<times> string) list) \<times> project_state" where
  "deploy_all af env j signers st =
     and_then (deployContract af (pe_step env 0) j ''CvhWalletSimple'' ''wallet_impl'' [] st) (\<lambda>wi.
     and_then_step (deployContract af (pe_step env 1) j ''CvhForwarder'' ''forwarder_impl'' []) (\<lambda>fi.
     and_then_step (deployContract af (pe_step env 2) j ''CvhWalletFactory'' ''wallet_factory'' [fst wi]) (\<lambda>wf.
     and_then_step (deployContract af (pe_step env 3) j ''CvhForwarderFactory'' ''forwarder_factory'' [fst fi]) (\<lambda>ff.
     and_then_step (deployHotWallet af (pe_step env 4) j (fst wf) signers) (\<lambda>hw st5.
       (Inr (\<lparr>cs_walletImpl = fst wi, cs_forwarderImpl = fst fi, cs_walletFactory = fst wf,
              cs_forwarderFactory = fst ff, cs_hotWallet = fst hw\<rparr>,
             [(''wallet_impl'', wi), (''forwarder_impl'', fi), (''wallet_factory'', wf), (''forwarder_factory'', ff)]), st5))))))"


text \<open>What is done inside the handler of a deployment: the gas tank, the chain, the transactions, the row, the
  contracts' rows and the event.\<close>

definition announce :: "bool \<Rightarrow> ident \<Rightarrow> int \<Rightarrow> contract_set \<Rightarrow> project_state \<Rightarrow> (error + unit) \<times> project_state" where
  "announce ok p chain c st =
     (if ok then (Inr (), st\<lparr>ps_stream := ps_stream st @ [(p, chain, c)]\<rparr>) else (Inl (InternalError ''publish''), st))"

definition find_tank :: "ident \<Rightarrow> int \<Rightarrow> project_state \<Rightarrow> wallet_entry option" where
  "find_tank client chain st = find (is_wallet client chain ''gas_tank'') (ps_wallets st)"

definition find_network :: "int \<Rightarrow> project_state \<Rightarrow> (reg_chain \<times> string option) option" where
  "find_network chain st = find (\<lambda>c. xn_id (fst c) = chain) (ps_networks st)"

definition finish_deploy ::
    "project_env \<Rightarrow> ident \<Rightarrow> int \<Rightarrow> wallet_entry \<Rightarrow> contract_set \<times> (string \<times> string \<times> string) list \<Rightarrow> project_state \<Rightarrow>
     (error + contract_set) \<times> project_state" where
  "finish_deploy env p chain tank res st =
     (if \<not> pe_ready env then (Inl (InternalError ''projectChain.update''), st)
      else and_then (upsert_contracts env p chain (we_address tank) (snd res) (update_chain p chain (completed (fst res)) st))
        (\<lambda>_. and_then_step (announce (pe_published env) p chain (fst res)) (\<lambda>_ st3. (Inr (fst res), st3))))"

definition deploy_body ::
    "artifacts \<Rightarrow> project_env \<Rightarrow> ident \<Rightarrow> ident \<Rightarrow> int \<Rightarrow> string list \<Rightarrow> project_chain \<Rightarrow> project_state \<Rightarrow>
     (error + contract_set) \<times> project_state" where
  "deploy_body af env p client chain signers row st =
     (case find_tank client chain st of
        None \<Rightarrow> (Inl (InternalError ''Gas tank not found''), st)
      | Some tank \<Rightarrow>
     (case find_network chain st of
        None \<Rightarrow> (Inl (InternalError ''Chain not found or not active''), st)
      | Some (c, url) \<Rightarrow>
      if \<not> xn_active c then (Inl (InternalError ''Chain not found or not active''), st)
      else
     (case pe_provider env of
        Inl e \<Rightarrow> (Inl e, st)
      | Inr _ \<Rightarrow>
          and_then (deploy_all af env \<lparr>dj_project = p, dj_client = client, dj_chain = chain, dj_row = pq_id row,
                      dj_tank = tank, dj_explorer = url\<rparr> signers st)
            (finish_deploy env p chain tank))))"

text \<open>The addresses that a ready row answers with; its columns are read without a check.\<close>

definition set_of_row :: "project_chain \<Rightarrow> contract_set" where
  "set_of_row r =
     (let txt = (\<lambda>x. case x of None \<Rightarrow> ''null'' | Some a \<Rightarrow> a) in
      \<lparr>cs_walletImpl = txt (pq_walletImpl r), cs_forwarderImpl = txt (pq_forwarderImpl r),
       cs_walletFactory = txt (pq_walletFactory r), cs_forwarderFactory = txt (pq_forwarderFactory r),
       cs_hotWallet = txt (pq_hotWallet r)\<rparr>)"

definition deployProjectChain ::
    "artifacts \<Rightarrow> project_env \<Rightarrow> ident \<Rightarrow> ident \<Rightarrow> int \<Rightarrow> string list \<Rightarrow> project_state \<Rightarrow>
     (error + contract_set) \<times> project_state" where
  "deployProjectChain af env p client chain signers st =
     (if p \<notin> fst ` set (ps_projects st) then (Inl (NotFound ''Project not found''), st)
      else
     (case ensure_row p chain st of
        (row, st1) \<Rightarrow>
      if pq_status row = DeployReady then (Inr (set_of_row row), st1)
      else if \<not> pe_started env then (Inl (InternalError ''projectChain.update''), st1)
      else
     (case deploy_body af env p client chain signers row (update_chain p chain (set_status Deploying) st1) of
        (Inr c, st3) \<Rightarrow> (Inr c, st3)
      | (Inl e, st3) \<Rightarrow>
          if pe_failed env then (Inl e, update_chain p chain (set_status (DeployFailed e)) st3)
          else (Inl (InternalError ''projectChain.update''), st3))))"

definition registerProjectChain :: "ident \<Rightarrow> int \<Rightarrow> project_state \<Rightarrow> deploy_status \<times> project_state" where
  "registerProjectChain p chain st = (case ensure_row p chain st of (r, st1) \<Rightarrow> (pq_status r, st1))"

definition getProjectChainStatus :: "ident \<Rightarrow> int \<Rightarrow> project_state \<Rightarrow> project_chain option" where
  "getProjectChainStatus p chain st = find (is_row p chain) (ps_chains st)"

definition getDeployStatus :: "ident \<Rightarrow> int \<Rightarrow> project_state \<Rightarrow> deploy_status option \<times> contract_row list" where
  "getDeployStatus p chain st =
     (map_option pq_status (find (is_row p chain) (ps_chains st)),
      filter (\<lambda>c. ct_project c = p \<and> ct_chain c = chain) (ps_contracts st))"

section \<open>Retrying one contract\<close>

definition set_contract ::
    "ident \<Rightarrow> int \<Rightarrow> string \<Rightarrow> (contract_row \<Rightarrow> contract_row) \<Rightarrow> project_state \<Rightarrow> project_state" where
  "set_contract p chain ty f st = st\<lparr>ps_contracts := update_where (is_contract p chain ty) f (ps_contracts st)\<rparr>"

definition contract_name :: "string \<Rightarrow> string option" where
  "contract_name ty = map_of
     [(''wallet_impl'', ''CvhWalletSimple''), (''forwarder_impl'', ''CvhForwarder''),
      (''wallet_factory'', ''CvhWalletFactory''), (''forwarder_factory'', ''CvhForwarderFactory'')] ty"

definition retry_args :: "string \<Rightarrow> project_chain \<Rightarrow> string list" where
  "retry_args ty r =
     (if ty = ''wallet_factory'' then (case or_null (pq_walletImpl r) of None \<Rightarrow> [] | Some a \<Rightarrow> [a])
      else if ty = ''forwarder_factory'' then (case or_null (pq_forwarderImpl r) of None \<Rightarrow> [] | Some a \<Rightarrow> [a])
      else [])"

definition set_field :: "string \<Rightarrow> string \<Rightarrow> project_chain \<Rightarrow> project_chain" where
  "set_field ty a r =
     (if ty = ''wallet_impl'' then r\<lparr>pq_walletImpl := Some a\<rparr>
      else if ty = ''forwarder_impl'' then r\<lparr>pq_forwarderImpl := Some a\<rparr>
      else if ty = ''wallet_factory'' then r\<lparr>pq_walletFactory := Some a\<rparr>
      else if ty = ''forwarder_factory'' then r\<lparr>pq_forwarderFactory := Some a\<rparr> else r)"

definition retry_body ::
    "artifacts \<Rightarrow> project_env \<Rightarrow> ident \<Rightarrow> int \<Rightarrow> string \<Rightarrow> project_state \<Rightarrow> (error + string \<times> string) \<times> project_state" where
  "retry_body af env p chain ty st =
     (case find (is_row p chain) (ps_chains st) of
        None \<Rightarrow> (Inl (InternalError ''ProjectChain not found''), st)
      | Some row \<Rightarrow>
     (case contract_name ty of
        None \<Rightarrow> (Inl (InternalError ''Unknown contract type for retry''), st)
      | Some nm \<Rightarrow>
     (case map_of (ps_projects st) p of
        None \<Rightarrow> (Inl (NotFound ''Project not found''), st)
      | Some client \<Rightarrow>
     (case find_tank client chain st of
        None \<Rightarrow> (Inl (InternalError ''Gas tank not found''), st)
      | Some tank \<Rightarrow>
     (case find_network chain st of
        None \<Rightarrow> (Inl (InternalError ''Chain not found''), st)
      | Some (c, url) \<Rightarrow>
     (case pe_provider env of
        Inl e \<Rightarrow> (Inl e, st)
      | Inr _ \<Rightarrow>
          and_then (deployContract af (pe_step env 0) \<lparr>dj_project = p, dj_client = client, dj_chain = chain,
                      dj_row = pq_id row, dj_tank = tank, dj_explorer = url\<rparr> nm ty (retry_args ty row) st)
            (\<lambda>res st1.
               if \<not> pe_contract env ty then (Inl (InternalError ''projectContract.update''), st1)
               else let st2 = set_contract p chain ty (\<lambda>x. x\<lparr>ct_address := fst res, ct_tx := Some (snd res),
                               ct_deployer := Some (we_address tank), ct_status := ContractDeployed\<rparr>) st1
                    in if \<not> pe_ready env then (Inl (InternalError ''projectChain.update''), st2)
                       else (Inr res, update_chain p chain (set_field ty (fst res)) st2))))))))"

definition retryFailedDeploy ::
    "artifacts \<Rightarrow> project_env \<Rightarrow> ident \<Rightarrow> int \<Rightarrow> string \<Rightarrow> project_state \<Rightarrow> (error + string \<times> string) \<times> project_state" where
  "retryFailedDeploy af env p chain ty st =
     (case find (is_contract p chain ty) (ps_contracts st) of
        None \<Rightarrow> (Inl (NotFound ''ProjectContract not found''), st)
      | Some c \<Rightarrow>
     (case ct_status c of
        ContractFailed e0 \<Rightarrow>
          if \<not> pe_started env then (Inl (InternalError ''projectContract.update''), st)
          else (case retry_body af env p chain ty (set_contract p chain ty (\<lambda>x. x\<lparr>ct_status := ContractDeploying\<rparr>) st) of
                  (Inr res, st1) \<Rightarrow> (Inr res, st1)
                | (Inl e, st1) \<Rightarrow>
                    if pe_failed env then (Inl e, set_contract p chain ty (\<lambda>x. x\<lparr>ct_status := ContractFailed e\<rparr>) st1)
                    else (Inl (InternalError ''projectContract.update''), st1))
      | _ \<Rightarrow> (Inl (InternalError ''Only failed contracts can be retried''), st)))"


section \<open>What a step does\<close>

lemma and_then_Inr: "and_then r f = (Inr y, s') \<longleftrightarrow> (\<exists>x s. r = (Inr x, s) \<and> f x s = (Inr y, s'))"
  and and_then_Inr_simp [simp]: "and_then (Inr x, s) f = f x s" "and_then (Inl e, s) f = (Inl e, s)"
  by (auto simp: and_then_def split: prod.splits sum.splits)

lemma and_then_keeps:
  assumes "P (snd r)" and "\<And>x s. r = (Inr x, s) \<Longrightarrow> P s \<Longrightarrow> P (snd (f x s))"
  shows "P (snd (and_then r f))"
  using assms by (auto simp: and_then_def split: prod.splits sum.splits)

text \<open>A step leaves the tables of the projects alone and only appends transactions.\<close>

definition same_projects :: "project_state \<Rightarrow> project_state \<Rightarrow> bool" where
  "same_projects a b \<longleftrightarrow> ps_projects b = ps_projects a \<and> ps_wallets b = ps_wallets a \<and> ps_networks b = ps_networks a
     \<and> ps_chains b = ps_chains a \<and> ps_contracts b = ps_contracts a \<and> ps_stream b = ps_stream a"

lemma same_projects_refl [simp]: "same_projects a a"
  and same_projects_trans: "same_projects a b \<Longrightarrow> same_projects b c \<Longrightarrow> same_projects a c"
  by (simp_all add: same_projects_def)

lemma same_projects_traces [simp]: "same_projects a (b\<lparr>ps_traces := t\<rparr>) = same_projects a b"
  "same_projects a (b\<lparr>ps_store := s\<rparr>) = same_projects a b" "same_projects a (b\<lparr>ps_sent := x\<rparr>) = same_projects a b"
  "same_projects a (b\<lparr>ps_gas := g\<rparr>) = same_projects a b"
  by (simp_all add: same_projects_def)

lemma createTrace_frame:
  assumes "createTrace ok t st = (r, st')"
  shows "same_projects st st' \<and> ps_sent st' = ps_sent st \<and> ps_store st' = ps_store st"
  using assms by (auto simp: createTrace_def Let_def split: if_splits)

lemma updateTraceConfirmed_frame:
  assumes "updateTraceConfirmed ok n a h c code m u st = (r, st')"
  shows "same_projects st st' \<and> ps_sent st' = ps_sent st"
  using assms by (auto simp: updateTraceConfirmed_def update_trace_def split: if_splits)

lemma traced_frame:
  assumes "traced env n r = (res, st')"
  shows "same_projects (snd r) st' \<and> ps_sent st' = ps_sent (snd r)"
  using assms by (auto simp: traced_def updateTraceFailed_def update_trace_def split: prod.splits sum.splits if_splits)

lemma traced_Inr: "traced env n r = (Inr x, st') \<longleftrightarrow> r = (Inr x, st')"
  by (auto simp: traced_def split: prod.splits sum.splits)

lemma broadcast_with_sent:
  assumes "broadcast_with env chain tank dest data dflt n st = (r, st')"
  shows "same_projects st st' \<and> ps_store st' = ps_store st
    \<and> (case r of Inl e \<Rightarrow> ps_sent st' = ps_sent st
       | Inr h \<Rightarrow> \<exists>t. ps_sent st' = ps_sent st @ [t] \<and> dx_to t = dest \<and> dx_data t = data \<and> dx_nonce t = n)"
  using assms by (auto simp: broadcast_with_def split: sum.splits)

lemma send_deploy_sent:
  assumes "send_deploy env chain tank dest data dflt st = (r, st')"
  shows "same_projects st st'
    \<and> (case r of Inl e \<Rightarrow> ps_sent st' = ps_sent st
       | Inr h \<Rightarrow> \<exists>t. ps_sent st' = ps_sent st @ [t] \<and> dx_to t = dest \<and> dx_data t = data)"
proof (cases "acquireNonce (se_nonce env) chain (we_address tank) (ps_store st)")
  case (Pair q s)
  show ?thesis
  proof (cases q)
    case (Inl e)
    then show ?thesis using assms Pair by (auto simp: send_deploy_def)
  next
    case (Inr p)
    obtain n release where p: "p = (n, release)" by (cases p)
    obtain r1 st1 where b: "broadcast_with env chain (we_id tank) dest data dflt n (st\<lparr>ps_store := s\<rparr>) = (r1, st1)"
      by (cases "broadcast_with env chain (we_id tank) dest data dflt n (st\<lparr>ps_store := s\<rparr>)")
    have "r = r1" "st' = st1\<lparr>ps_store := release (ne_release (se_nonce env)) (ps_store st1)\<rparr>"
      using assms Pair Inr p b by (simp_all add: send_deploy_def)
    then show ?thesis
      using broadcast_with_sent [OF b] by (cases r1) (auto simp: same_projects_def)
  qed
qed

lemma confirm_contract_frame:
  assumes "confirm_contract af env j n h st = (r, st')"
  shows "same_projects st st' \<and> ps_sent st' = ps_sent st"
  using assms
  by (auto simp: confirm_contract_def Let_def and_then_def dest: updateTraceConfirmed_frame
      split: sum.splits option.splits prod.splits)

lemma confirm_wallet_frame:
  assumes "confirm_wallet env j n h st = (r, st')"
  shows "same_projects st st' \<and> ps_sent st' = ps_sent st"
  using assms
  by (auto simp: confirm_wallet_def and_then_def dest: updateTraceConfirmed_frame
      split: sum.splits option.splits prod.splits list.splits if_splits)

text \<open>A step that succeeds sends one transaction; one that fails sends at most one.\<close>

definition sends_one :: "string option \<Rightarrow> string \<Rightarrow> (error + 'a) \<times> project_state \<Rightarrow> project_state \<Rightarrow> bool" where
  "sends_one dest data r st \<longleftrightarrow> same_projects st (snd r)
     \<and> (\<exists>ts. ps_sent (snd r) = ps_sent st @ ts \<and> length ts \<le> 1 \<and> (is_ok (fst r) \<longrightarrow> ts \<noteq> [])
          \<and> (\<forall>t \<in> set ts. dx_to t = dest \<and> dx_data t = data))"

lemma traced_step_sends:
  assumes k: "\<And>h s r s'. confirm h s = (r, s') \<Longrightarrow> same_projects s s' \<and> ps_sent s' = ps_sent s"
  shows "sends_one dest data (traced env n (and_then (send_deploy env chain tank dest data dflt st) confirm)) st"
proof -
  obtain r1 st1 where s: "send_deploy env chain tank dest data dflt st = (r1, st1)"
    by (cases "send_deploy env chain tank dest data dflt st")
  let ?q = "and_then (r1, st1) confirm"
  obtain res st' where t: "traced env n ?q = (res, st')" by (cases "traced env n ?q")
  have q: "same_projects st1 (snd ?q) \<and> ps_sent (snd ?q) = ps_sent st1"
    using k [of "projr r1" st1 "fst ?q" "snd ?q"] by (cases r1) auto
  have ok: "is_ok res \<Longrightarrow> is_ok r1"
    using traced_Inr [of env n ?q _ st'] t by (cases r1; cases res) (auto simp: traced_def split: prod.splits sum.splits)
  have same: "same_projects st st'"
    using send_deploy_sent [OF s] q traced_frame [OF t] same_projects_trans by blast
  have sent: "ps_sent st' = ps_sent st1" using q traced_frame [OF t] by simp
  show ?thesis
  proof (cases r1)
    case (Inl e)
    then have "\<not> is_ok res" "ps_sent st' = ps_sent st" using ok sent send_deploy_sent [OF s] by auto
    then show ?thesis using same unfolding sends_one_def s t by simp
  next
    case (Inr h)
    then obtain t' where "ps_sent st' = ps_sent st @ [t']" "dx_to t' = dest" "dx_data t' = data"
      using sent send_deploy_sent [OF s] by auto
    then show ?thesis using same unfolding sends_one_def s t by auto
  qed
qed

lemma deployContract_sends:
  assumes "af_calldata af nm args = Inr data"
  shows "sends_one None data (deployContract af env j nm ty args st) st"
proof -
  obtain r1 st1 where c: "createTrace (se_traced env) (trace_of j ty data args (Some (af_keccak af data))) st = (r1, st1)"
    by (cases "createTrace (se_traced env) (trace_of j ty data args (Some (af_keccak af data))) st")
  note f = createTrace_frame [OF c]
  show ?thesis
  proof (cases r1)
    case (Inl e)
    then show ?thesis using assms f by (simp add: deployContract_def c sends_one_def)
  next
    case (Inr n)
    have "sends_one None data (traced env n (and_then (send_deploy env (dj_chain j) (dj_tank j) None data 5000000 st1)
        (confirm_contract af env j n))) st1"
      by (rule traced_step_sends) (rule confirm_contract_frame)
    then show ?thesis using assms f same_projects_trans by (fastforce simp: deployContract_def c Inr sends_one_def)
  qed
qed

lemma deployHotWallet_sends:
  "sends_one (Some factory) (af_create af signers (af_pair af (dj_project j) (dj_chain j)))
     (deployHotWallet af env j factory signers st) st"
proof -
  let ?d = "af_create af signers (af_pair af (dj_project j) (dj_chain j))"
  let ?t = "trace_of j ''hot_wallet'' ?d (signers @ [af_pair af (dj_project j) (dj_chain j), factory]) None"
  obtain r1 st1 where c: "createTrace (se_traced env) ?t st = (r1, st1)"
    by (cases "createTrace (se_traced env) ?t st")
  note f = createTrace_frame [OF c]
  show ?thesis
  proof (cases r1)
    case (Inl e)
    then show ?thesis using f by (simp add: deployHotWallet_def Let_def c sends_one_def)
  next
    case (Inr n)
    have "sends_one (Some factory) ?d (traced env n (and_then (send_deploy env (dj_chain j) (dj_tank j) (Some factory) ?d 1000000 st1)
        (confirm_wallet env j n))) st1"
      by (rule traced_step_sends) (rule confirm_wallet_frame)
    then show ?thesis using f same_projects_trans by (fastforce simp: deployHotWallet_def Let_def c Inr sends_one_def)
  qed
qed

lemma deployContract_Inr: "deployContract af env j nm ty args st = (Inr x, st') \<Longrightarrow> \<exists>d. af_calldata af nm args = Inr d"
  by (auto simp: deployContract_def split: sum.splits)

lemma deployContract_done:
  assumes "deployContract af env j nm ty args st = (Inr x, st')"
  shows "same_projects st st' \<and> (\<exists>t. ps_sent st' = ps_sent st @ [t] \<and> dx_to t = None \<and> af_calldata af nm args = Inr (dx_data t))"
proof -
  obtain d where d: "af_calldata af nm args = Inr d" using deployContract_Inr [OF assms] by blast
  show ?thesis
    using deployContract_sends [OF d, of env j ty st] d unfolding assms sends_one_def
    by (auto simp: le_Suc_eq length_Suc_conv)
qed

lemma deployHotWallet_done:
  assumes "deployHotWallet af env j factory signers st = (Inr x, st')"
  shows "same_projects st st' \<and> (\<exists>t. ps_sent st' = ps_sent st @ [t] \<and> dx_to t = Some factory
    \<and> dx_data t = af_create af signers (af_pair af (dj_project j) (dj_chain j)))"
  using deployHotWallet_sends [of factory af signers j env st] unfolding assms sends_one_def
  by (auto simp: le_Suc_eq length_Suc_conv)

lemma deployContract_same: "same_projects st (snd (deployContract af env j nm ty args st))"
proof (cases "af_calldata af nm args")
  case (Inr d)
  then show ?thesis using deployContract_sends [OF Inr, of env j ty st] by (simp add: sends_one_def)
qed (simp add: deployContract_def)

lemma deployHotWallet_same: "same_projects st (snd (deployHotWallet af env j factory signers st))"
  using deployHotWallet_sends [of factory af signers j env st] by (simp add: sends_one_def)

text \<open>The transactions of a deployment: what creates the two implementations, the two factories with the
  implementations just created, and the wallet from the factory just created.\<close>

definition deploy_plan :: "artifacts \<Rightarrow> ident \<Rightarrow> int \<Rightarrow> string list \<Rightarrow> contract_set \<Rightarrow> (string option \<times> (error + string)) list" where
  "deploy_plan af p chain signers c =
     [(None, af_calldata af ''CvhWalletSimple'' []), (None, af_calldata af ''CvhForwarder'' []),
      (None, af_calldata af ''CvhWalletFactory'' [cs_walletImpl c]),
      (None, af_calldata af ''CvhForwarderFactory'' [cs_forwarderImpl c]),
      (Some (cs_walletFactory c), Inr (af_create af signers (af_pair af p chain)))]"

definition core_rows :: "contract_set \<Rightarrow> (string \<times> string) list" where
  "core_rows c = [(''wallet_impl'', cs_walletImpl c), (''forwarder_impl'', cs_forwarderImpl c),
     (''wallet_factory'', cs_walletFactory c), (''forwarder_factory'', cs_forwarderFactory c)]"

lemma deploy_all_done:
  assumes "deploy_all af env j signers st = (Inr (c, rs), st')"
  shows "same_projects st st' \<and> (\<exists>txs. ps_sent st' = ps_sent st @ txs
      \<and> map (\<lambda>t. (dx_to t, Inr (dx_data t))) txs = deploy_plan af (dj_project j) (dj_chain j) signers c)
    \<and> map (\<lambda>(ty, r). (ty, fst r)) rs = core_rows c"
proof -
  obtain wi fi wf ff hw s1 s2 s3 s4 where
    1: "deployContract af (pe_step env 0) j ''CvhWalletSimple'' ''wallet_impl'' [] st = (Inr wi, s1)" and
    2: "deployContract af (pe_step env 1) j ''CvhForwarder'' ''forwarder_impl'' [] s1 = (Inr fi, s2)" and
    3: "deployContract af (pe_step env 2) j ''CvhWalletFactory'' ''wallet_factory'' [fst wi] s2 = (Inr wf, s3)" and
    4: "deployContract af (pe_step env 3) j ''CvhForwarderFactory'' ''forwarder_factory'' [fst fi] s3 = (Inr ff, s4)" and
    5: "deployHotWallet af (pe_step env 4) j (fst wf) signers s4 = (Inr hw, st')" and
    c: "c = \<lparr>cs_walletImpl = fst wi, cs_forwarderImpl = fst fi, cs_walletFactory = fst wf,
              cs_forwarderFactory = fst ff, cs_hotWallet = fst hw\<rparr>"
      "rs = [(''wallet_impl'', wi), (''forwarder_impl'', fi), (''wallet_factory'', wf), (''forwarder_factory'', ff)]"
    using assms by (auto simp: deploy_all_def and_then_step_def and_then_Inr)
  note d = deployContract_done [OF 1] deployContract_done [OF 2] deployContract_done [OF 3] deployContract_done [OF 4]
    deployHotWallet_done [OF 5]
  obtain t1 t2 t3 t4 t5 where t: "ps_sent st' = ps_sent st @ [t1, t2, t3, t4, t5]"
    "dx_to t1 = None" "af_calldata af ''CvhWalletSimple'' [] = Inr (dx_data t1)"
    "dx_to t2 = None" "af_calldata af ''CvhForwarder'' [] = Inr (dx_data t2)"
    "dx_to t3 = None" "af_calldata af ''CvhWalletFactory'' [fst wi] = Inr (dx_data t3)"
    "dx_to t4 = None" "af_calldata af ''CvhForwarderFactory'' [fst fi] = Inr (dx_data t4)"
    "dx_to t5 = Some (fst wf)" "dx_data t5 = af_create af signers (af_pair af (dj_project j) (dj_chain j))"
    using d by (elim conjE exE) simp
  have "same_projects st st'" using d same_projects_trans by blast
  then show ?thesis using t c by (simp add: deploy_plan_def core_rows_def)
qed

lemma and_then_same:
  assumes "same_projects st (snd r)" and "\<And>x s. same_projects s (snd (f x s))"
  shows "same_projects st (snd (and_then r f))"
  by (rule and_then_keeps [where P = "same_projects st"]) (use assms same_projects_trans in blast)+

lemma deploy_all_same: "same_projects st (snd (deploy_all af env j signers st))"
  unfolding deploy_all_def and_then_step_def
  by (intro and_then_same deployContract_same deployHotWallet_same) simp

section \<open>The rows\<close>

lemma find_update_same:
  assumes "\<And>x. p x \<Longrightarrow> p (f x)"
  shows "find p (update_where p f xs) = map_option f (find p xs)"
  using assms by (induction xs) auto

lemma is_row_keeps [simp]: "is_row p chain (completed c r) = is_row p chain r" "is_row p chain (set_status s r) = is_row p chain r"
  by (simp_all add: is_row_def completed_def set_status_def)

lemma completed_row [simp]: "pq_status (completed c r) = DeployReady" "set_of_row (completed c r) = c"
  "set_of_row (set_status s r) = set_of_row r" "pq_status (set_status s r) = s"
  by (simp_all add: completed_def set_of_row_def set_status_def Let_def)

definition the_row :: "ident \<Rightarrow> int \<Rightarrow> project_state \<Rightarrow> project_chain option" where
  "the_row p chain st = find (is_row p chain) (ps_chains st)"

lemma the_row_update: "(\<And>r. is_row p chain r \<Longrightarrow> is_row p chain (f r)) \<Longrightarrow>
    the_row p chain (update_chain p chain f st) = map_option f (the_row p chain st)"
  by (simp add: the_row_def update_chain_def find_update_same)

lemma ensure_row_row:
  assumes "ensure_row p chain st = (r, st1)"
  shows "the_row p chain st1 = Some r" "ps_sent st1 = ps_sent st" "ps_stream st1 = ps_stream st"
    "ps_contracts st1 = ps_contracts st" "ps_projects st1 = ps_projects st"
    "the_row p chain st = None \<longrightarrow> pq_status r = DeployPending" "\<And>q. the_row p chain st = Some q \<Longrightarrow> q = r \<and> st1 = st"
  using assms by (auto simp: ensure_row_def the_row_def Let_def new_chain_row_def is_row_def find_append_None split: option.splits)

definition contract_address :: "ident \<Rightarrow> int \<Rightarrow> string \<Rightarrow> project_state \<Rightarrow> string option" where
  "contract_address p chain ty st = map_option ct_address (find (is_contract p chain ty) (ps_contracts st))"

lemma upsertProjectContract_ok:
  assumes "upsertProjectContract ok p chain ty res dep st = (Inr (), st')"
  shows "ps_chains st' = ps_chains st \<and> ps_sent st' = ps_sent st \<and> ps_stream st' = ps_stream st \<and> ps_projects st' = ps_projects st
    \<and> contract_address p chain l st' = (if sql_eq l ty then Some (fst res) else contract_address p chain l st)"
proof -
  let ?f = "\<lambda>c. c\<lparr>ct_address := fst res, ct_tx := Some (snd res), ct_deployer := Some dep, ct_status := ContractDeployed\<rparr>"
  have same: "is_contract p chain l = is_contract p chain ty" if "sql_eq l ty" for l
    using that by (auto simp: fun_eq_iff is_contract_def sql_eq_def)
  have other: "map_option ct_address (find (is_contract p chain l) (update_where (is_contract p chain ty) ?f rows))
      = map_option ct_address (find (is_contract p chain l) rows)" if "\<not> sql_eq l ty" for rows
    using that by (induction rows) (auto simp: is_contract_def sql_eq_def)
  have k: "is_contract p chain ty (?f c) = is_contract p chain ty c" for c by (simp add: is_contract_def)
  have hit: "\<exists>c. find (is_contract p chain ty) rows = Some c" if "list_ex (is_contract p chain ty) rows" for rows
    using that by (induction rows) auto
  have miss: "find (is_contract p chain ty) rows = None" if "\<not> list_ex (is_contract p chain ty) rows" for rows
    using that by (auto simp: find_None_iff list_ex_iff)
  show ?thesis
  proof (cases "list_ex (is_contract p chain ty) (ps_contracts st)")
    case True
    then have st': "st' = st\<lparr>ps_contracts := update_where (is_contract p chain ty) ?f (ps_contracts st)\<rparr>"
      using assms by (auto simp: upsertProjectContract_def split: if_splits)
    have f: "find (is_contract p chain ty) (update_where (is_contract p chain ty) ?f (ps_contracts st))
        = map_option ?f (find (is_contract p chain ty) (ps_contracts st))"
      by (rule find_update_same) (simp only: k)
    show ?thesis
    proof (cases "sql_eq l ty")
      case sq: True
      have "contract_address p chain l st' = Some (fst res)"
        using hit [OF True] f by (auto simp: st' contract_address_def same [OF sq])
      then show ?thesis using sq by (simp add: st')
    next
      case False
      then show ?thesis using other [OF False, of "ps_contracts st"] by (simp add: st' contract_address_def)
    qed
  next
    case False
    then have st': "st' = st\<lparr>ps_contracts := ps_contracts st @ [\<lparr>ct_project = p, ct_chain = chain, ct_type = ty,
        ct_address = fst res, ct_tx = Some (snd res), ct_deployer = Some dep, ct_status = ContractDeployed\<rparr>]\<rparr>"
      using assms by (auto simp: upsertProjectContract_def split: if_splits)
    show ?thesis
    proof (cases "sql_eq l ty")
      case True
      then show ?thesis
        by (simp add: st' contract_address_def same [OF True] find_append_None [OF miss [OF False]] is_contract_def)
    next
      case other: False
      then show ?thesis
        by (cases "find (is_contract p chain l) (ps_contracts st)")
          (simp_all add: st' contract_address_def find_append_None find_append_Some is_contract_def, auto simp: sql_eq_def)
    qed
  qed
qed

lemma upsert_contracts_all:
  assumes "\<And>ty. pe_contract env ty"
  shows "fst (upsert_contracts env p chain dep xs st) = Inr ()"
  by (induction xs arbitrary: st) (auto simp: and_then_def upsertProjectContract_def assms split: prod.splits)

lemma upsert_contracts_done:
  assumes "upsert_contracts env p chain dep xs st = (Inr (), st')"
    and "distinct (map (lower \<circ> fst) xs)"
  shows "ps_chains st' = ps_chains st \<and> ps_sent st' = ps_sent st \<and> ps_stream st' = ps_stream st \<and> ps_projects st' = ps_projects st
    \<and> (\<forall>x \<in> set xs. contract_address p chain (fst x) st' = Some (fst (snd x)))
    \<and> (\<forall>l. lower l \<notin> lower ` fst ` set xs \<longrightarrow> contract_address p chain l st' = contract_address p chain l st)"
  using assms
proof (induction xs arbitrary: st)
  case (Cons x xs)
  obtain ty res where x: "x = (ty, res)" by (cases x)
  obtain st1 where u: "upsertProjectContract (pe_contract env ty) p chain ty res dep st = (Inr (), st1)"
    and r: "upsert_contracts env p chain dep xs st1 = (Inr (), st')"
    using Cons.prems(1) unfolding x by (auto simp: and_then_Inr)
  have n: "lower ty \<notin> lower ` fst ` set xs" "distinct (map (lower \<circ> fst) xs)"
    using Cons.prems(2) x by (auto simp: image_iff comp_def)
  show ?case
    using Cons.IH [OF r n(2)] upsertProjectContract_ok [OF u] n(1) by (auto simp: x sql_eq_def)
qed simp

lemma distinct_core: "distinct (map (lower \<circ> fst) (core_rows c))"
  unfolding core_rows_def list.map comp_apply fst_conv by code_simp

text \<open>A deployment that has a result made the five transactions of its plan.\<close>

lemma deploy_body_done:
  assumes "deploy_body af env p client chain signers row st = (Inr c, st')" "the_row p chain st = Some r"
  shows "(\<exists>txs. ps_sent st' = ps_sent st @ txs \<and> map (\<lambda>t. (dx_to t, Inr (dx_data t))) txs = deploy_plan af p chain signers c)
    \<and> the_row p chain st' = Some (completed c r) \<and> ps_projects st' = ps_projects st
    \<and> (\<forall>x \<in> set (core_rows c). contract_address p chain (fst x) st' = Some (snd x))
    \<and> ps_stream st' = ps_stream st @ [(p, chain, c)]"
proof -
  obtain tank u c' rs s1 where
    a: "deploy_all af env \<lparr>dj_project = p, dj_client = client, dj_chain = chain, dj_row = pq_id row, dj_tank = tank, dj_explorer = u\<rparr> signers st
          = (Inr (c', rs), s1)"
    and f: "finish_deploy env p chain tank (c', rs) s1 = (Inr c, st')"
    using assms(1) by (auto simp: deploy_body_def and_then_Inr split: option.splits sum.splits if_splits)
  note d = deploy_all_done [OF a, unfolded deploy_job.simps]
  obtain s3 where u: "upsert_contracts env p chain (we_address tank) rs (update_chain p chain (completed c') s1) = (Inr (), s3)"
    and st': "c' = c" "st' = s3\<lparr>ps_stream := ps_stream s3 @ [(p, chain, c)]\<rparr>"
    using f by (auto simp: finish_deploy_def and_then_step_def and_then_Inr announce_def split: if_splits)
  have rs: "map fst rs = map fst (core_rows c)" "\<And>x. x \<in> set (core_rows c) \<Longrightarrow> \<exists>r. (fst x, r) \<in> set rs \<and> fst r = snd x"
    using d st'(1) by (auto simp: core_rows_def)
  have "distinct (map (lower \<circ> fst) rs)"
    using distinct_core [of c] rs(1) by (metis map_map)
  note w = upsert_contracts_done [OF u this]
  have "ps_chains s1 = ps_chains st" using d by (simp add: same_projects_def)
  then have "the_row p chain s3 = Some (completed c r)"
    using w assms(2) st'(1) find_update_same [of "is_row p chain" "completed c" "ps_chains st"]
    by (simp add: the_row_def update_chain_def)
  moreover have "\<forall>x \<in> set (core_rows c). contract_address p chain (fst x) s3 = Some (snd x)"
    using w rs(2) by fastforce
  ultimately show ?thesis
    using w d st' by (auto simp: update_chain_def the_row_def contract_address_def same_projects_def)
qed

lemma a_deployment_five:
  assumes "deployProjectChain af env p client chain signers st = (Inr c, st')"
    and "\<And>r. the_row p chain st = Some r \<Longrightarrow> pq_status r \<noteq> DeployReady"
  shows "(\<exists>txs. ps_sent st' = ps_sent st @ txs \<and> map (\<lambda>t. (dx_to t, Inr (dx_data t))) txs = deploy_plan af p chain signers c)
    \<and> (\<exists>r. the_row p chain st' = Some (completed c r))
    \<and> (\<forall>x \<in> set (core_rows c). contract_address p chain (fst x) st' = Some (snd x))
    \<and> ps_stream st' = ps_stream st @ [(p, chain, c)]
    \<and> deployProjectChain af env' p client' chain signers' st' = (Inr c, st')"
proof -
  obtain row st1 where e: "ensure_row p chain st = (row, st1)" by (cases "ensure_row p chain st")
  note r = ensure_row_row [OF e]
  have "pq_status row \<noteq> DeployReady" using assms(2) r(6,7) by (cases "the_row p chain st") auto
  then have b: "deploy_body af env p client chain signers row (update_chain p chain (set_status Deploying) st1) = (Inr c, st')"
    and pj: "p \<in> fst ` set (ps_projects st)"
    using assms(1) e by (auto simp: deployProjectChain_def split: if_splits prod.splits sum.splits)
  have "the_row p chain (update_chain p chain (set_status Deploying) st1) = Some (set_status Deploying row)"
    using r(1) the_row_update [of p chain "set_status Deploying" st1] by simp
  note d = deploy_body_done [OF b this]
  have row': "the_row p chain st' = Some (completed c (set_status Deploying row))" using d by blast
  have "p \<in> fst ` set (ps_projects st')" using d pj r(5) by (simp add: update_chain_def)
  moreover have "ensure_row p chain st' = (completed c (set_status Deploying row), st')"
    using row' by (simp add: ensure_row_def the_row_def)
  ultimately have "deployProjectChain af env' p client' chain signers' st' = (Inr c, st')"
    by (simp add: deployProjectChain_def)
  then show ?thesis using d row' r(2,3) by (auto simp: update_chain_def)
qed

text \<open>Claim C1. A deployment of a project on a chain that succeeds has sent exactly five transactions: it
  created the two implementations, each factory with the implementation just created, and the hot wallet
  through the wallet factory just created, with the signers given and a salt of project and chain. The row of
  the project is then ready and has the five addresses, each contract's row has its address, one event
  carries them, and a repeated call answers the same and changes nothing.\<close>

theorem a_deployment_is_five_transactions:
  assumes "deployProjectChain af env p client chain signers st = (Inr c, st')"
    and "\<And>r. the_row p chain st = Some r \<Longrightarrow> pq_status r \<noteq> DeployReady"
  shows "(\<exists>txs. ps_sent st' = ps_sent st @ txs \<and> map (\<lambda>t. (dx_to t, Inr (dx_data t))) txs = deploy_plan af p chain signers c)
    \<and> (\<exists>r. the_row p chain st' = Some r \<and> pq_status r = DeployReady \<and> set_of_row r = c)
    \<and> (\<forall>x \<in> set (core_rows c). contract_address p chain (fst x) st' = Some (snd x))
    \<and> ps_stream st' = ps_stream st @ [(p, chain, c)]
    \<and> deployProjectChain af env' p client' chain signers' st' = (Inr c, st')"
  using a_deployment_five [OF assms, of env' client' signers'] by auto

section \<open>A project that never becomes ready\<close>

lemma deploy_all_env: "deploy_all af (env\<lparr>pe_contract := f\<rparr>) j signers st = deploy_all af env j signers st"
  by (simp add: deploy_all_def)

lemma finish_without_table:
  assumes "finish_deploy env p chain tank (c', rs) st = (Inr c, st')" "rs \<noteq> []"
  shows "finish_deploy (env\<lparr>pe_contract := \<lambda>_. False\<rparr>) p chain tank (c', rs) st =
    (Inl (InternalError ''projectContract.upsert''), update_chain p chain (completed c) st)"
proof -
  obtain ty res xs where rs: "rs = (ty, res) # xs" using assms(2) by (metis list.exhaust surj_pair)
  show ?thesis using assms(1)
    by (auto simp: rs finish_deploy_def and_then_step_def and_then_Inr upsertProjectContract_def split: if_splits)
qed

text \<open>Claim C2. While the rows of the contracts cannot be written, as where their table is missing, a deployment
  that would otherwise succeed pays its five transactions, records the five addresses and ends as failed; the
  next one that succeeds pays five more, and the project gets another hot wallet than the one it had been given.\<close>

theorem late_failure_deploys_everything_again:
  assumes "deployProjectChain af env p client chain signers st = (Inr c, st1)"
    and "\<And>r. the_row p chain st = Some r \<Longrightarrow> pq_status r \<noteq> DeployReady" "pe_failed env"
  shows "\<exists>e st2 r. deployProjectChain af (env\<lparr>pe_contract := \<lambda>_. False\<rparr>) p client chain signers st = (Inl e, st2)
    \<and> ps_sent st2 = ps_sent st1 \<and> length (ps_sent st2) = length (ps_sent st) + 5
    \<and> the_row p chain st2 = Some r \<and> pq_status r = DeployFailed e \<and> set_of_row r = c
    \<and> (\<forall>env' c' st3. deployProjectChain af env' p client chain signers st2 = (Inr c', st3) \<longrightarrow>
         length (ps_sent st3) = length (ps_sent st) + 10
         \<and> (\<exists>r'. the_row p chain st3 = Some r' \<and> pq_hotWallet r' = Some (cs_hotWallet c')))"
proof -
  obtain row s1 where e: "ensure_row p chain st = (row, s1)" by (cases "ensure_row p chain st")
  note r = ensure_row_row [OF e]
  let ?s = "update_chain p chain (set_status Deploying) s1" and ?env = "env\<lparr>pe_contract := \<lambda>_. False\<rparr>"
  have nr: "pq_status row \<noteq> DeployReady" using assms(2) r(6,7) by (cases "the_row p chain st") auto
  then have b: "deploy_body af env p client chain signers row ?s = (Inr c, st1)"
    and pj: "p \<in> fst ` set (ps_projects st)" "pe_started env"
    using assms(1) e by (auto simp: deployProjectChain_def split: if_splits prod.splits sum.splits)
  obtain tank n url c' rs s2 where t: "find_tank client chain ?s = Some tank" "find_network chain ?s = Some (n, url)"
      "xn_active n" "pe_provider env = Inr ()"
    and a: "deploy_all af env \<lparr>dj_project = p, dj_client = client, dj_chain = chain, dj_row = pq_id row, dj_tank = tank, dj_explorer = url\<rparr> signers ?s
          = (Inr (c', rs), s2)"
    and f: "finish_deploy env p chain tank (c', rs) s2 = (Inr c, st1)"
    using b by (auto simp: deploy_body_def and_then_Inr split: option.splits sum.splits if_splits)
  note d = deploy_all_done [OF a, unfolded deploy_job.simps]
  have rs: "rs \<noteq> []" using d by (auto simp: core_rows_def)
  let ?e = "InternalError ''projectContract.upsert''"
  let ?st2 = "update_chain p chain (set_status (DeployFailed ?e)) (update_chain p chain (completed c) s2)"
  have "deploy_body af ?env p client chain signers row ?s = (Inl ?e, update_chain p chain (completed c) s2)"
    using t a finish_without_table [OF f rs] by (simp add: deploy_body_def deploy_all_env)
  then have run: "deployProjectChain af ?env p client chain signers st = (Inl ?e, ?st2)"
    using pj nr e assms(3) by (simp add: deployProjectChain_def)
  have "the_row p chain s2 = Some (set_status Deploying row)"
    using d the_row_update [of p chain "set_status Deploying" s1] r(1) by (simp add: the_row_def same_projects_def)
  then have row: "the_row p chain ?st2 = Some (set_status (DeployFailed ?e) (completed c (set_status Deploying row)))"
    by (simp add: the_row_update)
  obtain txs where txs: "ps_sent s2 = ps_sent ?s @ txs" "map (\<lambda>t. (dx_to t, Inr (dx_data t) :: error + string)) txs = deploy_plan af p chain signers c'"
    using d by blast
  have five: "length txs = 5" using arg_cong [OF txs(2), of length] by (simp add: deploy_plan_def)
  have sent: "ps_sent ?st2 = ps_sent st @ txs" using txs(1) r(2) by (simp add: update_chain_def)
  have sent1: "ps_sent st1 = ps_sent st @ txs"
  proof -
    obtain s3 where u: "upsert_contracts env p chain (we_address tank) rs (update_chain p chain (completed c') s2) = (Inr (), s3)"
      and st1: "st1 = s3\<lparr>ps_stream := ps_stream s3 @ [(p, chain, c)]\<rparr>"
      using f by (auto simp: finish_deploy_def and_then_step_def and_then_Inr announce_def split: if_splits)
    have "distinct (map (lower \<circ> fst) rs)"
    proof -
      have "map fst rs = map fst (core_rows c')" using d by (auto simp: core_rows_def)
      then show ?thesis using distinct_core [of c'] by (metis map_map)
    qed
    from upsert_contracts_done [OF u this] show ?thesis using st1 txs(1) r(2) by (simp add: update_chain_def)
  qed
  have again: "length (ps_sent st3) = length (ps_sent st) + 10
      \<and> (\<exists>r'. the_row p chain st3 = Some r' \<and> pq_hotWallet r' = Some (cs_hotWallet c''))"
    if n: "deployProjectChain af env' p client chain signers ?st2 = (Inr c'', st3)" for env' c'' st3
  proof -
    have nr2: "the_row p chain ?st2 = Some q \<Longrightarrow> pq_status q \<noteq> DeployReady" for q using row by auto
    obtain txs' r' where t': "ps_sent st3 = ps_sent ?st2 @ txs'"
      "map (\<lambda>t. (dx_to t, Inr (dx_data t) :: error + string)) txs' = deploy_plan af p chain signers c''"
      and r': "the_row p chain st3 = Some (completed c'' r')"
      using a_deployment_five [OF n nr2] by blast
    have "length txs' = 5" using arg_cong [OF t'(2), of length] by (simp add: deploy_plan_def)
    then show ?thesis using t'(1) sent five r' by (simp add: completed_def)
  qed
  show ?thesis
    using run row sent sent1 five again by (intro exI [of _ ?e] exI [of _ ?st2]) simp
qed

section \<open>Retries\<close>

definition all_deployed :: "project_state \<Rightarrow> bool" where
  "all_deployed st \<longleftrightarrow> (\<forall>c \<in> set (ps_contracts st). ct_status c = ContractDeployed)"

lemma all_deployed_frames [simp]:
  "all_deployed (update_chain p chain f st) = all_deployed st" "all_deployed (st\<lparr>ps_stream := x\<rparr>) = all_deployed st"
  "all_deployed (st\<lparr>ps_chains := y\<rparr>) = all_deployed st"
  by (simp_all add: all_deployed_def update_chain_def)

lemma all_deployed_same: "same_projects a b \<Longrightarrow> all_deployed a \<Longrightarrow> all_deployed b"
  by (simp add: same_projects_def all_deployed_def)

lemma all_deployed_upsert: "all_deployed st \<Longrightarrow> all_deployed (snd (upsertProjectContract ok p chain ty res dep st))"
  by (auto simp: upsertProjectContract_def all_deployed_def set_update_where)

lemma all_deployed_upserts: "all_deployed st \<Longrightarrow> all_deployed (snd (upsert_contracts env p chain dep xs st))"
proof (induction xs arbitrary: st)
  case (Cons x xs)
  obtain ty res where x: "x = (ty, res)" by (cases x)
  show ?case unfolding x upsert_contracts.simps
    by (rule and_then_keeps [where P = all_deployed]) (use Cons all_deployed_upsert in auto)
qed simp

lemma all_deployed_finish: "all_deployed st \<Longrightarrow> all_deployed (snd (finish_deploy env p chain tank res st))"
  unfolding finish_deploy_def and_then_step_def
  by (auto intro!: and_then_keeps [where P = all_deployed] all_deployed_upserts simp: announce_def)

lemma all_deployed_body: "all_deployed st \<Longrightarrow> all_deployed (snd (deploy_body af env p client chain signers row st))"
proof -
  assume a: "all_deployed st"
  have "all_deployed (snd (and_then (deploy_all af env j signers st) (finish_deploy env p chain tank)))" for j tank
    by (rule and_then_keeps [where P = all_deployed])
      (use a deploy_all_same all_deployed_same all_deployed_finish in blast)+
  then show ?thesis using a by (simp add: deploy_body_def split: option.split sum.split)
qed

lemma all_deployed_ensure: "all_deployed st \<Longrightarrow> all_deployed (snd (ensure_row p chain st))"
  by (auto simp: ensure_row_def Let_def split: option.split)

lemma all_deployed_deploy: "all_deployed st \<Longrightarrow> all_deployed (snd (deployProjectChain af env p client chain signers st))"
proof -
  assume a: "all_deployed st"
  obtain row st1 where e: "ensure_row p chain st = (row, st1)" by (cases "ensure_row p chain st")
  have s: "all_deployed st1" using all_deployed_ensure [OF a, of p chain] e by simp
  obtain r st3 where b: "deploy_body af env p client chain signers row (update_chain p chain (set_status Deploying) st1) = (r, st3)"
    by (cases "deploy_body af env p client chain signers row (update_chain p chain (set_status Deploying) st1)")
  have "all_deployed st3"
    using all_deployed_body [of "update_chain p chain (set_status Deploying) st1" af env p client chain signers row] s b by simp
  then show ?thesis using a s by (cases r) (simp_all add: deployProjectChain_def e b)
qed

lemma retry_refused: "all_deployed st \<Longrightarrow> \<exists>e. retryFailedDeploy af env p chain ty st = (Inl e, st)"
  by (auto simp: retryFailedDeploy_def all_deployed_def dest: find_SomeD split: option.split contract_status.split)

inductive project_step :: "project_state \<Rightarrow> project_state \<Rightarrow> bool" where
  deploy: "deployProjectChain af env p client chain signers st = (r, st') \<Longrightarrow> project_step st st'"
| register: "registerProjectChain p chain st = (s, st') \<Longrightarrow> project_step st st'"
| retry: "retryFailedDeploy af env p chain ty st = (r2, st') \<Longrightarrow> project_step st st'"

lemma project_step_inv: "all_deployed st \<Longrightarrow> project_step st st' \<Longrightarrow> all_deployed st'"
proof (erule project_step.cases)
  fix af env p client chain signers a r b
  assume "all_deployed st" "st = a" "st' = b" "deployProjectChain af env p client chain signers a = (r, b)"
  then show "all_deployed st'" using all_deployed_deploy [of st af env p client chain signers] by simp
next
  fix p chain a s b
  assume "all_deployed st" "st = a" "st' = b" "registerProjectChain p chain a = (s, b)"
  then show "all_deployed st'"
    using all_deployed_ensure [of st p chain] by (auto simp: registerProjectChain_def split: prod.splits)
next
  fix af env p chain ty a r2 b
  assume "all_deployed st" "st = a" "st' = b" "retryFailedDeploy af env p chain ty a = (r2, b)"
  then show "all_deployed st'" using retry_refused [of st af env p chain ty] by auto
qed

interpretation deploying: machine "\<lambda>st. ps_contracts st = []" project_step all_deployed
  by unfold_locales (simp add: all_deployed_def, rule project_step_inv)

text \<open>Claim C3. The row of a contract is only written when the whole deployment has succeeded, so none is ever
  marked as failed: in every state that deployments, registrations and retries lead to, however they fail, a
  retry of a single contract is refused and changes nothing.\<close>

theorem retry_is_always_refused:
  assumes "ps_contracts st = []" "project_step\<^sup>*\<^sup>* st st'"
  shows "\<exists>e. retryFailedDeploy af env p chain ty st' = (Inl e, st')"
  by (rule retry_refused) (rule deploying.inv_reachable [OF assms])

section \<open>Nonces and proofs\<close>

lemma send_deploy_nonce:
  assumes "send_deploy env chain tank dest data dflt st = (r, st')"
  shows "ps_store st' = snd (use_nonce chain (we_address tank) (se_nonce env) (ps_store st))
    \<and> (case r of Inl e \<Rightarrow> ps_sent st' = ps_sent st
       | Inr h \<Rightarrow> \<exists>t. ps_sent st' = ps_sent st @ [t] \<and> fst (use_nonce chain (we_address tank) (se_nonce env) (ps_store st)) = Inr (dx_nonce t))"
proof (cases "acquireNonce (se_nonce env) chain (we_address tank) (ps_store st)")
  case (Pair q s)
  show ?thesis
  proof (cases q)
    case (Inl e)
    then show ?thesis using assms Pair by (auto simp: send_deploy_def use_nonce_def)
  next
    case (Inr p)
    obtain n release where p: "p = (n, release)" by (cases p)
    obtain r1 st1 where b: "broadcast_with env chain (we_id tank) dest data dflt n (st\<lparr>ps_store := s\<rparr>) = (r1, st1)"
      by (cases "broadcast_with env chain (we_id tank) dest data dflt n (st\<lparr>ps_store := s\<rparr>)")
    have "r = r1" "st' = st1\<lparr>ps_store := release (ne_release (se_nonce env)) (ps_store st1)\<rparr>"
      using assms Pair Inr p b by (simp_all add: send_deploy_def)
    then show ?thesis
      using broadcast_with_sent [OF b] Pair Inr p by (cases r1) (auto simp: use_nonce_def)
  qed
qed

text \<open>A transaction that cannot be signed or broadcast keeps the nonce it drew, which is not given
  back: the next transaction of the gas tank within the hour takes the next one, and stays behind a nonce
  that nothing was ever sent with.\<close>

lemma failed_broadcast_leaves_a_nonce_gap:
  assumes "send_deploy env chain tank dest data dflt st = (r, st1)"
    and "(\<exists>e. se_signed env = Inl e) \<or> (\<exists>e. se_broadcast env = Inl e)"
    and "prompt (se_nonce env)" "rget (ne_poll (se_nonce env) 1) (ps_store st) (lockKey chain (we_address tank)) = None"
    and "case rget (ne_get (se_nonce env)) (ps_store st) (nonceKey chain (we_address tank)) of
      None \<Rightarrow> ne_count (se_nonce env) = Inr n | Some c \<Rightarrow> c = show_int n"
    and "send_deploy env' chain tank dest' data' dflt' st1 = (Inr h, st2)"
    and "prompt (se_nonce env')" "ne_get (se_nonce env') < ne_set (se_nonce env) + 3600000"
  shows "\<not> is_ok r \<and> (\<exists>t. ps_sent st2 = ps_sent st @ [t] \<and> dx_nonce t = n + 1)"
proof -
  have r: "\<not> is_ok r"
  proof (cases "acquireNonce (se_nonce env) chain (we_address tank) (ps_store st)")
    case (Pair q s)
    have "\<not> is_ok (fst (broadcast_with env chain (we_id tank) dest data dflt m (st\<lparr>ps_store := s\<rparr>)))" for m
      using assms(2) by (auto simp: broadcast_with_def split: sum.split)
    then show ?thesis
      using assms(1) Pair by (auto simp: send_deploy_def split: sum.splits prod.splits) (metis fst_conv)
  qed
  obtain s1 where s1: "use_nonce chain (we_address tank) (se_nonce env) (ps_store st) = (Inr n, s1)"
    "\<And>now. rget now s1 (lockKey chain (we_address tank)) = None"
    "\<And>now. now < ne_set (se_nonce env) + 3600000 \<Longrightarrow> rget now s1 (nonceKey chain (we_address tank)) = Some (show_int (n + 1))"
    by (rule use_nonce_prompt [OF assms(3-5)]) blast
  have st1: "ps_store st1 = s1" "ps_sent st1 = ps_sent st"
    using send_deploy_nonce [OF assms(1)] s1(1) r by (auto split: sum.splits)
  obtain s2 where "use_nonce chain (we_address tank) (se_nonce env') s1 = (Inr (n + 1), s2)"
    by (rule use_nonce_prompt [OF assms(7), of s1 chain "we_address tank" "n + 1"]) (use s1 assms(8) in auto)
  then show ?thesis using send_deploy_nonce [OF assms(6)] st1 r by auto
qed

text \<open>The proof stored with a trace compares the code of the new contract with itself.\<close>

lemma verification_matches_itself:
  assumes "se_code env 0 = Inr code" "se_code env 1 = Inr code"
  shows "buildVerificationProof af (af_keccak af code) (se_code env 1) = Inr True"
  using assms by (simp add: buildVerificationProof_def)

section \<open>A small deployment\<close>

definition plain_artifacts :: artifacts where
  "plain_artifacts = \<lparr>af_calldata = (\<lambda>nm args. Inr (nm @ concat args)), af_create = (\<lambda>ss s. ''w'' @ s),
     af_pair = (\<lambda>p c. ''salt''), af_keccak = (\<lambda>s. s)\<rparr>"

definition plain_step :: "string \<Rightarrow> error + string \<Rightarrow> step_env" where
  "plain_step a signed =
     \<lparr>se_nonce = sample_nonce_env, se_fee = Inr \<lparr>maxFeePerGas = None, maxPriorityFeePerGas = None, gasPrice = Some 1\<rparr>,
      se_estimate = Inr 100, se_signed = signed, se_broadcast = Inr ''h'', se_logged = True,
      se_receipt = Inr (Some \<lparr>dr_status = 1, dr_contract = Some a, dr_gasUsed = 2, dr_gasPrice = 1, dr_created = [a]\<rparr>),
      se_code = (\<lambda>k. Inr ''c''), se_computed = Inr a, se_traced = True, se_confirmed = True, se_traceFailed = True\<rparr>"

definition plain_project_env :: project_env where
  "plain_project_env =
     \<lparr>pe_provider = Inr (), pe_step = (\<lambda>k. plain_step ([''A'', ''B'', ''C'', ''D'', ''E''] ! k) (Inr ''s'')), pe_started = True,
      pe_ready = True, pe_contract = (\<lambda>ty. True), pe_published = True, pe_failed = True\<rparr>"

definition plain_tank :: wallet_entry where
  "plain_tank = \<lparr>we_id = 2, we_client = 7, we_project = 3, we_chain = 1, we_address = ''T'', we_type = ''gas_tank'', we_active = True\<rparr>"

definition plain_project :: project_state where
  "plain_project =
     \<lparr>ps_projects = [(3, 7)], ps_wallets = [plain_tank],
      ps_networks = [(\<lparr>xn_id = 1, xn_active = True, xn_walletFactory = None, xn_forwarderFactory = None\<rparr>, None)],
      ps_chains = [], ps_contracts = [], ps_traces = [], ps_gas = [], ps_sent = [], ps_stream = [], ps_store = Map.empty\<rparr>"

definition plain_set :: contract_set where
  "plain_set = \<lparr>cs_walletImpl = ''A'', cs_forwarderImpl = ''B'', cs_walletFactory = ''C'', cs_forwarderFactory = ''D'', cs_hotWallet = ''E''\<rparr>"

lemma plain_run: "fst (deployProjectChain plain_artifacts plain_project_env 3 7 1 [''P'', ''C'', ''B''] plain_project) = Inr plain_set"
  by code_simp

theorem a_deployment_is_five_transactions_witness:
  "length (ps_sent (snd (deployProjectChain plain_artifacts plain_project_env 3 7 1 [''P'', ''C'', ''B''] plain_project))) = 5"
proof -
  obtain st' where d: "deployProjectChain plain_artifacts plain_project_env 3 7 1 [''P'', ''C'', ''B''] plain_project = (Inr plain_set, st')"
    using plain_run by (metis prod.collapse)
  have n: "the_row 3 1 plain_project = Some r \<Longrightarrow> pq_status r \<noteq> DeployReady" for r
    by (simp add: the_row_def plain_project_def)
  obtain txs where s: "ps_sent st' = ps_sent plain_project @ txs"
    and p: "map (\<lambda>t. (dx_to t, Inr (dx_data t) :: error + string)) txs = deploy_plan plain_artifacts 3 1 [''P'', ''C'', ''B''] plain_set"
    using a_deployment_is_five_transactions [OF d n] by blast
  have "length txs = 5" using arg_cong [OF p, of length] by (simp add: deploy_plan_def)
  moreover have "ps_sent plain_project = []" by (simp add: plain_project_def)
  ultimately show ?thesis by (simp add: d s)
qed

theorem late_failure_deploys_everything_again_witness:
  "\<exists>e st2. deployProjectChain plain_artifacts (plain_project_env\<lparr>pe_contract := \<lambda>_. False\<rparr>) 3 7 1 [''P'', ''C'', ''B''] plain_project
     = (Inl e, st2) \<and> length (ps_sent st2) = 5"
proof -
  obtain st' where d: "deployProjectChain plain_artifacts plain_project_env 3 7 1 [''P'', ''C'', ''B''] plain_project = (Inr plain_set, st')"
    using plain_run by (metis prod.collapse)
  have n: "the_row 3 1 plain_project = Some r \<Longrightarrow> pq_status r \<noteq> DeployReady" for r
    by (simp add: the_row_def plain_project_def)
  have f: "pe_failed plain_project_env" by (simp add: plain_project_env_def)
  have "length (ps_sent plain_project) = 0" by (simp add: plain_project_def)
  then show ?thesis using late_failure_deploys_everything_again [OF d n f] by (metis add_0)
qed

theorem retry_is_always_refused_witness:
  "\<exists>e. retryFailedDeploy plain_artifacts plain_project_env 3 1 ''wallet_impl''
       (snd (deployProjectChain plain_artifacts plain_project_env 3 7 1 [''P'', ''C'', ''B''] plain_project)) =
     (Inl e, snd (deployProjectChain plain_artifacts plain_project_env 3 7 1 [''P'', ''C'', ''B''] plain_project))"
proof (rule retry_is_always_refused)
  show "ps_contracts plain_project = []" by (simp add: plain_project_def)
  show "project_step\<^sup>*\<^sup>* plain_project (snd (deployProjectChain plain_artifacts plain_project_env 3 7 1 [''P'', ''C'', ''B''] plain_project))"
    by (rule r_into_rtranclp [of project_step]) (rule project_step.deploy, rule prod.collapse [symmetric])
qed

lemma failed_broadcast_leaves_a_nonce_gap_witness:
  "map dx_nonce (ps_sent (snd (send_deploy (plain_step ''A'' (Inr ''s'')) 1 plain_tank None ''d'' 1
     (snd (send_deploy (plain_step ''A'' (Inl (InternalError ''vault''))) 1 plain_tank None ''d'' 1 plain_project))))) = [5]"
proof -
  let ?bad = "plain_step ''A'' (Inl (InternalError ''vault''))" and ?good = "plain_step ''A'' (Inr ''s'')"
  obtain r st1 where 1: "send_deploy ?bad 1 plain_tank None ''d'' 1 plain_project = (r, st1)"
    by (cases "send_deploy ?bad 1 plain_tank None ''d'' 1 plain_project")
  obtain q st2 where 2: "send_deploy ?good 1 plain_tank None ''d'' 1 st1 = (q, st2)"
    by (cases "send_deploy ?good 1 plain_tank None ''d'' 1 st1")
  have "is_ok (fst (send_deploy ?good 1 plain_tank None ''d'' 1 (snd (send_deploy ?bad 1 plain_tank None ''d'' 1 plain_project))))"
    by code_simp
  then obtain h where q: "q = Inr h" using 1 2 by (cases q) auto
  have e: "se_nonce (plain_step a s) = sample_nonce_env" for a s by (simp add: plain_step_def)
  have p: "prompt sample_nonce_env"
    by (simp add: prompt_def sample_nonce_env_def LOCK_WAIT_MS_def LOCK_TTL_MS_def)
  have "\<exists>t. ps_sent st2 = ps_sent plain_project @ [t] \<and> dx_nonce t = 4 + 1"
    using failed_broadcast_leaves_a_nonce_gap [OF 1 _ _ _ _ 2 [unfolded q], of 4] p
    by (simp add: e plain_project_def sample_nonce_env_def) (simp add: plain_step_def)
  then show ?thesis using 1 2 by (auto simp: plain_project_def)
qed
end
