(* ===== verification/Spec2Isabelle.thy ===== *)
theory Spec2Isabelle
  imports RpcRouter Lifecycle Nonce Backfill Reorg VaultRuns ForwarderDeploy DepositStore Resending ClientGuards SanctionsSync Registry ProjectDeploy
begin

text \<open>
  CryptoVaultHub is a custody platform: a set of NestJS services (services/) over MySQL, Redis and the
  nodes of EVM chains. This library models the services that decide about money and keys as functions
  on explicit states, and proves what each promises and where it does not.

  Parts and theories.

  \<^item> Prelude: times, identifiers, errors as a sum type, the JavaScript primitives the services use
    (decimal text, \<open>parseInt\<close>, \<open>BigInt\<close>, \<open>toLowerCase\<close>, \<open>split\<close>), tables as lists of rows with
    \<open>update_where\<close>, and the locales \<open>machine\<close> (an initial state, a step relation, an invariant) and
    \<open>absorbing\<close> (a machine with a set of states no step leaves). KeyValue: Redis keys with expiry, and
    the locale \<open>kv_store\<close> with the laws its clients use, interpreted on the model's store.
  \<^item> services/key-vault-service: KeyVault (encryption.service.ts, the tables of prisma/schema.prisma, the
    audit log, internal-service.guard.ts; the locale \<open>envelope\<close> states what an encryption promises and is
    interpreted for the service's AES-GCM envelope and for its password form), KeyRotation
    (key-rotation.service.ts), KeyGeneration (key-generation.service.ts), ProjectKeys
    (project-key.service.ts), Shamir (shamir.service.ts), Signing (signing.service.ts), VaultRuns (all
    requests as one machine).
  \<^item> services/core-wallet-service: Compliance (compliance.service.ts), WalletDb (the tables of the
    withdrawal path), CoSign (co-sign-orchestrator.service.ts), Withdrawal (withdrawal.service.ts), Nonce
    (nonce.service.ts).
  \<^item> services/cron-worker-service: WithdrawalWorker (withdrawal-worker.service.ts,
    withdrawal-confirm.service.ts, operation-hash.ts, key-resolver.service.ts, \<open>signAndSubmit\<close> of
    transaction-submitter.service.ts). Lifecycle joins the withdrawal service, the co-sign orchestrator and
    the worker into one machine on their shared tables. SweepPolicy (sweep-policy.service.ts of the core wallet,
    sweep-policy-resolver.service.ts, the policy filter of sweep.service.ts), Sweep (sweep.service.ts, the call
    builders of transaction-submitter.service.ts, gas-tank-tx-logger.service.ts; the locale \<open>sweep_frame\<close> is the
    interface of the proofs about sweeps in which anything may fail), SweepReconciler
    (gas-tank-receipt-reconciler.service.ts), ForwarderDeploy (forwarder-deploy.service.ts, and the life of a
    deposit as a machine over sweeps, reconciliations and deployments).
  \<^item> services/chain-indexer-service: Indexer (block-processor.service.ts), Backfill (gap-detector.service.ts,
    backfill.worker.ts), Balances (balance-materializer.service.ts, finality-tracker.service.ts), Reorg
    (reorg-detector.service.ts, reorg-rollback.handler.ts), ConfirmationTracker
    (confirmation-tracker.service.ts), Detectors (polling-detector.service.ts, realtime-detector.service.ts,
    address-registration.handler.ts, reconciliation.service.ts), DepositStore (the consumer of core-wallet's
    deposit-persister, which turns detections into rows of the deposits table).
  \<^item> services/rpc-gateway-service: CircuitBreaker, RateLimiter, RpcHealth, RpcRouter (the services of the same
    names).
  \<^item> services/notification-service and packages/event-bus: Webhooks (webhook.service.ts,
    webhook-delivery.service.ts, configurable-retry.service.ts, delivery-attempt-recorder.service.ts),
    Resending (dead-letter.service.ts, manual-resend.service.ts, the bulk retry, the test webhook and the
    listings), EventConsumer (event-consumer.service.ts, gas-tank-alerts.consumer.ts, event-bus.service.ts,
    topics.ts).

  How they interact. The indexer stores transfers; the detectors publish deposits:detected, DepositStore makes
  rows of them, and the confirmation tracker settles those; their events
  reach the webhooks through the streams of EventConsumer, which imports both sides. A withdrawal is created
  and approved by Withdrawal, gated by CoSign, screened by Compliance and executed by WithdrawalWorker with
  the keys of the vault and a node behind RpcRouter. Confirmed deposits are swept into the hot wallet by Sweep,
  with the same submitter, once ForwarderDeploy has deployed their forwarder, and settled by SweepReconciler. Shared tables are shared records: the withdrawal
  services work on \<open>core_db\<close>, the vault on \<open>vault_db\<close>, the indexer on \<open>indexer\<close>.

  Conventions. A service's state is a record of its tables, queues, published events and (where the property
  needs it) of what reached the network; every operation returns its result beside the new state. A
  thrown exception is \<open>Inl\<close> of an \<open>error\<close>. A database write that the code expects may fail is a flag or an
  optional error of the operation's environment; the other reads and writes are taken to succeed, and each
  theory says which. MySQL compares text with utf8mb4_unicode_ci, which is \<open>sql_eq\<close>. Third-party
  computations (ABI encoding, hashing, AES-GCM, PBKDF2, ECDSA, BIP-32, secret sharing, JSON texts, nodes, HTTP
  endpoints, clocks, random numbers) are parameters, with their documented laws as hypotheses where a proof
  needs one; each property with such a hypothesis has a witness with a concrete instance. Amounts, times and
  identifiers are integers; health scores, prices and jitter are rationals, without IEEE rounding.
  Loops are recursions on the list they walk; the wait loop of the nonce lock has fuel, 152 polls, enough
  for the 30 s it waits in steps of 200 ms. Logging, metrics and product analytics are left out.

  Lemma groups. Each theory proves frames and cases of its operations first, then its invariant (as an
  interpretation of \<open>machine\<close> where the component runs), then the properties, which are named by their claim
  in the text before them, and last a small concrete instance with the witnesses.

  Not modelled. The front ends (apps/), the contracts (contracts/), the HTTP controllers and DTO validation,
  the modules that only wire dependencies, e-mail, exports, pricing, monitoring dashboards, knowledge base and
  the administration pages: they hold little state of their own, or call code that is not in the repository.
\<close>

end
